(* ===== verification/Lab_Prelude.thy ===== *)
theory Lab_Prelude
  imports Complex_Main "HOL-Library.Multiset" "HOL-Library.Char_ord"
begin

text \<open>
  What the component theories share: the JavaScript idioms of the lab's modules written as HOL
  functions (array \<open>indexOf\<close>, \<open>Math.round\<close>, \<open>toFixed\<close>, the clamping idiom, \<open>??\<close>), the
  interfaces of a component that is driven by events (\<open>event_machine\<close>, \<open>dormant_machine\<close>) and of
  a component that has at most one session at a time (\<open>single_session\<close>), and the collections of
  rewrite rules the component proofs use.

  JavaScript numbers are modelled as real numbers: rounding of double arithmetic and the sign of
  zero are outside the model. A number that may fail the code's test \<open>Number.isFinite\<close> is a
  \<open>real option\<close>, where \<open>None\<close> is every value on which that test answers false (NaN, an
  infinity, a missing field, a value of another type). \<open>null\<close> and \<open>undefined\<close> are \<open>None\<close>.
\<close>

section \<open>Types and rule collections\<close>

type_synonym num = "real option"
type_synonym seconds = real
type_synonym millis = real

named_theorems frame_simps "fields an operation leaves unchanged"
named_theorems step_simps "equations that evaluate one step of a component"

section \<open>JavaScript idioms\<close>

text \<open>\<open>a ?? b\<close>.\<close>

definition coalesce :: "'a option \<Rightarrow> 'a \<Rightarrow> 'a" where
  "coalesce a b = (case a of None \<Rightarrow> b | Some x \<Rightarrow> x)"

lemma coalesce_simps [simp]: "coalesce None b = b" "coalesce (Some a) b = a"
  by (simp_all add: coalesce_def)

text \<open>\<open>a ?? b\<close> where \<open>b\<close> may itself be missing, and the state a slot holds after \<open>a ??= b\<close>.\<close>

definition first_some :: "'a option \<Rightarrow> 'a option \<Rightarrow> 'a option" where
  "first_some a b = (case a of None \<Rightarrow> b | Some x \<Rightarrow> Some x)"

lemma first_some_simps [simp]: "first_some None b = b" "first_some (Some a) b = Some a"
  by (simp_all add: first_some_def)

text \<open>\<open>list.indexOf(x)\<close>: the first position, or \<open>-1\<close>.\<close>

fun index_of :: "'a list \<Rightarrow> 'a \<Rightarrow> int" where
  "index_of [] x = - 1"
| "index_of (y # ys) x =
     (if y = x then 0 else if index_of ys x < 0 then - 1 else 1 + index_of ys x)"

lemma index_of_ge: "- 1 \<le> index_of ys x"
  by (induction ys) auto

lemma index_of_neg_iff: "index_of ys x < 0 \<longleftrightarrow> x \<notin> set ys"
  by (induction ys) auto

lemma index_of_nth: "x \<in> set ys \<Longrightarrow> ys ! nat (index_of ys x) = x \<and> nat (index_of ys x) < length ys"
proof (induction ys)
  case Nil
  then show ?case by simp
next
  case (Cons y ys)
  show ?case
  proof (cases "y = x")
    case True
    then show ?thesis by simp
  next
    case False
    with Cons.prems have mem: "x \<in> set ys" by simp
    with index_of_neg_iff [of ys x] have pos: "0 \<le> index_of ys x" by simp
    then have "nat (1 + index_of ys x) = Suc (nat (index_of ys x))" by simp
    with False pos Cons.IH [OF mem] show ?thesis by simp
  qed
qed

lemma index_of_inj: "x \<in> set ys \<Longrightarrow> y \<in> set ys \<Longrightarrow> index_of ys x = index_of ys y \<Longrightarrow> x = y"
  by (metis index_of_nth)

text \<open>\<open>Math.round\<close> (halves go up) and \<open>Number(value.toFixed(digits))\<close> (halves go away from 0).\<close>

definition js_round :: "real \<Rightarrow> int" where
  "js_round x = \<lfloor>x + 1 / 2\<rfloor>"

definition to_fixed :: "nat \<Rightarrow> real \<Rightarrow> real" where
  "to_fixed digits x = sgn x * (of_int \<lfloor>\<bar>x\<bar> * 10 ^ digits + 1 / 2\<rfloor> / 10 ^ digits)"

lemma js_round_close: "\<bar>of_int (js_round x) - x\<bar> \<le> 1 / 2"
proof -
  have "of_int (js_round x) \<le> x + 1 / 2" and "x + 1 / 2 < of_int (js_round x) + 1"
    unfolding js_round_def using floor_correct [of "x + 1 / 2"] by simp_all
  then show ?thesis by linarith
qed

lemma js_round_of_int [simp]: "js_round (of_int n) = n"
  by (simp add: js_round_def floor_unique)

lemma js_round_mono: "x \<le> y \<Longrightarrow> js_round x \<le> js_round y"
  by (simp add: js_round_def floor_mono)

lemma to_fixed_close: "\<bar>to_fixed digits x - x\<bar> \<le> 1 / (2 * 10 ^ digits)"
proof -
  define p :: real where "p = 10 ^ digits"
  have p: "p > 0" by (simp add: p_def)
  define n where "n = js_round (\<bar>x\<bar> * p)"
  have "\<bar>of_int n - \<bar>x\<bar> * p\<bar> \<le> 1 / 2"
    unfolding n_def by (rule js_round_close)
  then have "\<bar>of_int n - \<bar>x\<bar> * p\<bar> / p \<le> (1 / 2) / p"
    using p by (intro divide_right_mono) simp_all
  also have "\<bar>of_int n - \<bar>x\<bar> * p\<bar> / p = \<bar>of_int n / p - \<bar>x\<bar>\<bar>"
  proof -
    have "\<bar>of_int n - \<bar>x\<bar> * p\<bar> / p = \<bar>(of_int n - \<bar>x\<bar> * p) / p\<bar>" using p by simp
    also have "(of_int n - \<bar>x\<bar> * p) / p = of_int n / p - \<bar>x\<bar>"
      using p by (simp add: diff_divide_distrib)
    finally show ?thesis .
  qed
  finally have *: "\<bar>of_int n / p - \<bar>x\<bar>\<bar> \<le> 1 / (2 * p)" by simp
  have eq: "to_fixed digits x = sgn x * (of_int n / p)"
    by (simp add: to_fixed_def n_def js_round_def p_def)
  show ?thesis
  proof (cases "x = 0")
    case True
    then show ?thesis by (simp add: to_fixed_def)
  next
    case False
    have "to_fixed digits x - x = sgn x * (of_int n / p - \<bar>x\<bar>)"
      by (simp add: eq right_diff_distrib sgn_mult_abs)
    with False * show ?thesis by (simp add: abs_mult p_def abs_sgn_eq)
  qed
qed

text \<open>\<open>Math.max(low, Math.min(high, value))\<close>: the low bound wins when the bounds cross.\<close>

definition clamp_low :: "'a::linorder \<Rightarrow> 'a \<Rightarrow> 'a \<Rightarrow> 'a" where
  "clamp_low low high x = max low (min high x)"

lemma clamp_low_bounds: "low \<le> high \<Longrightarrow> low \<le> clamp_low low high x \<and> clamp_low low high x \<le> high"
  by (simp add: clamp_low_def)

lemma clamp_low_id: "low \<le> x \<Longrightarrow> x \<le> high \<Longrightarrow> clamp_low low high x = x"
  by (simp add: clamp_low_def)

lemma clamp_low_idem: "clamp_low low high (clamp_low low high x) = clamp_low low high x"
  by (auto simp: clamp_low_def max_def min_def)

section \<open>Interfaces of event-driven components\<close>

text \<open>
  A component that owns a state and reacts to one event at a time. \<open>inv\<close> is what it promises to
  its callers between two events.
\<close>

locale event_machine =
  fixes step :: "'e \<Rightarrow> 's \<Rightarrow> 's"
    and inv :: "'s \<Rightarrow> bool"
  assumes step_inv: "inv s \<Longrightarrow> inv (step e s)"
begin

lemma run_inv: "inv s \<Longrightarrow> inv (fold step es s)"
  by (induction es arbitrary: s) (auto intro: step_inv)

lemma run_prefix_inv: "inv s \<Longrightarrow> inv (fold step (take n es) s)"
  by (rule run_inv)

end

text \<open>
  A component that can be dormant: only the events that \<open>wakes\<close> names end the dormancy.
\<close>

locale dormant_machine =
  fixes step :: "'e \<Rightarrow> 's \<Rightarrow> 's"
    and dormant :: "'s \<Rightarrow> bool"
    and wakes :: "'e \<Rightarrow> bool"
  assumes stays: "dormant s \<Longrightarrow> \<not> wakes e \<Longrightarrow> dormant (step e s)"
begin

lemma run_dormant: "dormant s \<Longrightarrow> list_all (\<lambda>e. \<not> wakes e) es \<Longrightarrow> dormant (fold step es s)"
  by (induction es arbitrary: s) (auto intro: stays)

end

text \<open>
  A component that runs at most one session (a driving run, a launcher session): \<open>session\<close> reads
  the running one, \<open>finish\<close> ends it. Ending twice is ending once, which is what lets every stop
  path of the page (the learner, Esc, a hidden page, a lost link) call it without asking.
\<close>

locale single_session =
  fixes session :: "'s \<Rightarrow> 'r option"
    and finish :: "'why \<Rightarrow> 's \<Rightarrow> 's"
  assumes finish_ends: "session (finish why s) = None"
    and finish_none: "session s = None \<Longrightarrow> finish why s = s"
begin

lemma finish_twice: "finish why' (finish why s) = finish why s"
  by (simp add: finish_none finish_ends)

lemma first_finish_wins: "fold finish (why # whys) s = finish why s"
  by (induction whys arbitrary: why s) (simp_all add: finish_twice)

end

end
