(* ===== verification/Blockers.thy ===== *)
theory Blockers
  imports Lab_Prelude
begin

text \<open>
  The reasons a page may not operate the robot. \<open>drive-core.js\<close> and \<open>shoot-core.js\<close> both
  build a list of \<open>{code, nodes}\<close> objects (the launcher's have \<open>parts\<close> as well, \<open>None\<close> for the
  drive) and sort it by the position of the code in a fixed table, the order in which the reasons
  are shown and have to be fixed. The locale \<open>blocker_order\<close> is that shared contract; each of the
  two modules interprets it on its own table.
\<close>

record blocker =
  bk_code :: string
  bk_nodes :: "string list option"
  bk_parts :: "string list option"

definition plain_blocker :: "string \<Rightarrow> blocker" where
  "plain_blocker c = \<lparr>bk_code = c, bk_nodes = None, bk_parts = None\<rparr>"

lemma bk_code_plain [simp]: "bk_code (plain_blocker c) = c"
  by (simp add: plain_blocker_def)

text \<open>\<open>blockers.sort((a, b) => TABLE.indexOf(a.code) - TABLE.indexOf(b.code))\<close>; the sort is stable.\<close>

definition sort_blockers :: "string list \<Rightarrow> blocker list \<Rightarrow> blocker list" where
  "sort_blockers table bs = sort_key (\<lambda>b. index_of table (bk_code b)) bs"

lemma set_sort_blockers [simp]: "set (sort_blockers table bs) = set bs"
  by (simp add: sort_blockers_def)

lemma sort_blockers_Nil [simp]: "sort_blockers table [] = []"
  by (simp add: sort_blockers_def)

lemma sort_blockers_empty_iff [simp]: "sort_blockers table bs = [] \<longleftrightarrow> bs = []"
  by (metis set_sort_blockers set_empty)

text \<open>The list is in the table's order.\<close>

definition in_table_order :: "string list \<Rightarrow> blocker list \<Rightarrow> bool" where
  "in_table_order table bs \<longleftrightarrow>
     sorted (map (\<lambda>b. index_of table (bk_code b)) bs) \<and> list_all (\<lambda>b. bk_code b \<in> set table) bs"

lemma sort_blockers_in_order:
  "list_all (\<lambda>b. bk_code b \<in> set table) bs \<Longrightarrow> in_table_order table (sort_blockers table bs)"
  by (simp add: in_table_order_def sort_blockers_def list_all_iff)

locale blocker_order =
  fixes table :: "string list"
  assumes table_distinct: "distinct table"
begin

lemma position_of_code: "i < length table \<Longrightarrow> index_of table (table ! i) = int i"
proof -
  assume i: "i < length table"
  then have mem: "table ! i \<in> set table" by simp
  then have "0 \<le> index_of table (table ! i)" using index_of_neg_iff [of table "table ! i"] by simp
  moreover have "nat (index_of table (table ! i)) = i"
    using index_of_nth [OF mem] table_distinct i nth_eq_iff_index_eq by blast
  ultimately show ?thesis by simp
qed

lemma earlier_code_first:
  assumes "in_table_order table bs" and "i < j" and "j < length bs"
  shows "index_of table (bk_code (bs ! i)) \<le> index_of table (bk_code (bs ! j))"
  using assms sorted_nth_mono [of "map (\<lambda>b. index_of table (bk_code b)) bs" i j]
  by (simp add: in_table_order_def)

lemma first_is_most_basic:
  assumes "in_table_order table bs" and "b \<in> set bs"
  shows "index_of table (bk_code (hd bs)) \<le> index_of table (bk_code b)"
proof -
  from assms(2) obtain j where j: "j < length bs" "b = bs ! j" by (auto simp: in_set_conv_nth)
  then have "hd bs = bs ! 0" by (simp add: hd_conv_nth flip: length_greater_0_conv)
  with j show ?thesis
    using earlier_code_first [OF assms(1), of 0 j] by (cases "j = 0") simp_all
qed

end

end
