(* ===== verification/Messages.thy ===== *)
theory Messages
  imports Blockers
begin

text \<open>
  The frames the page and the bridge (\<open>questix_lab_bridge\<close>) exchange, as the live modules read
  them. A field the code tests with \<open>Number.isFinite\<close> is a \<open>num\<close>; a field the code only
  compares with \<open>true\<close> is a \<open>bool\<close> (false for every other value); a field that may be missing or
  null is an \<open>option\<close>. Frames that are not of these shapes are not modelled: the bridge is the
  Python program of this repository, whose frames carry a reason in every \<open>last_stop\<close> and numbers
  in every limit.
\<close>

section \<open>Driving: \<open>drive_state\<close>\<close>

record speed_limits =
  sl_linear :: real
  sl_angular :: real

record last_stop =
  st_reason :: string
  st_by :: "string option"

record drive_state =
  ds_active :: bool
  ds_owner :: "string option"
  ds_allowed :: bool
  ds_blockers :: "blocker list"
  ds_limits :: "speed_limits option"
  ds_last_stop :: "last_stop option"
  ds_refused :: "string option"

section \<open>The launcher: \<open>hello.shoot\<close>, \<open>shoot_state\<close>, \<open>shoot_refused\<close>\<close>

datatype limit_key = MaxPower | MinFirePower | SpinUpSec | FireIntervalSec | TiltMin | TiltMax
  | Deadman | Seconds

type_synonym shoot_limits = "limit_key \<Rightarrow> real"

record hello_shoot =
  hs_allowed :: bool
  hs_field :: "string \<Rightarrow> num"

record shoot_state =
  ss_active :: bool
  ss_owner :: "string option"
  ss_allowed :: "bool option"
  ss_blockers :: "blocker list"
  ss_limits :: "limit_key \<Rightarrow> real option"
  ss_last_stop :: "last_stop option"
  ss_power :: num
  ss_tilt :: num
  ss_session_sec :: "real option"
  ss_spin_ready_in :: num
  ss_next_fire_in :: num
  ss_ready_to_fire :: bool
  ss_fired :: num

record shoot_refused =
  sr_request :: string
  sr_reason :: string

section \<open>Streams\<close>

text \<open>
  One wheel of \<open>/drive_status\<close>. \<open>wm_has_stamp\<close> is the code's \<open>'feedback_stamp' in wheel\<close>: newer
  bridges send the key (its value may be null).
\<close>

record wheel_msg =
  wm_rpm :: num
  wm_rpm_raw :: num
  wm_target_rpm :: num
  wm_has_stamp :: bool
  wm_feedback_stamp :: num
  wm_feedback_age :: num
  wm_feedback_valid :: bool

record drive_msg =
  dm_stamp :: real
  dm_left :: "wheel_msg option"
  dm_right :: "wheel_msg option"
  dm_v :: num
  dm_w :: num
  dm_estop :: bool

record twist_msg =
  tw_stamp :: real
  tw_linear :: num
  tw_angular :: num

record mount =
  mt_x :: real
  mt_y :: real
  mt_yaw :: real

record scan_msg =
  sc_stamp :: real
  sc_angle_min :: real
  sc_angle_increment :: real
  sc_ranges :: "num list"
  sc_mount :: "mount option"

record odom_msg =
  od_stamp :: real
  od_x :: num
  od_y :: num
  od_theta :: num
  od_v :: num

record roller_msg =
  ro_stamp :: real
  ro_command :: num
  ro_source :: string
  ro_locked :: bool
  ro_estop :: bool

record shot_msg =
  sh_stamp :: real
  sh_fired_count :: "int option"
  sh_last_source :: "string option"
  sh_tilt :: num
  sh_shooting :: bool
  sh_lab_refused :: "string option"
  sh_estop :: bool

section \<open>Frames\<close>

record hello =
  he_protocol :: int
  he_shoot :: "hello_shoot option"
  he_records_save :: "bool option"

datatype stream_msg =
    DriveMsg drive_msg
  | TwistMsg twist_msg
  | ScanMsg scan_msg
  | OdomMsg odom_msg
  | RollerMsg roller_msg
  | ShotMsg shot_msg
  | OtherMsg string

datatype frame_in =
    Hello hello
  | Status "(string \<times> real) list"
  | SessionId string
  | RecordSaved string
  | RecordError string
  | ShootRefused shoot_refused
  | DriveStateFrame drive_state
  | ShootStateFrame shoot_state
  | StreamFrame stream_msg
  | UnknownFrame

datatype stop_scope = AnyRun | MineOnly

datatype frame_out =
    DriveOut real real
  | StopOut stop_scope
  | RollerOut real
  | RollerStopOut
  | TiltOut num
  | FireOut bool
  | RecordSaveOut string

end
