(* ===== verification/Robot_Link.thy ===== *)
theory Robot_Link
  imports Messages
begin

text \<open>
  \<open>lab/js/live/robot-link.js\<close>: the one WebSocket to the robot's bridge. The module's variables
  are the record \<open>link\<close>; its functions and its timer and socket callbacks are functions on it, and
  \<open>link_step\<close> dispatches the events of the browser. The frames the socket was asked to send are
  appended to \<open>lk_out\<close>, what the listeners are told to \<open>lk_emitted\<close> (emptied at every event), the
  settled promises of \<open>saveRecordOnRobot\<close> to \<open>lk_answers\<close>. The browser is a parameter: URL
  parsing, the Unicode normalisation, the page's location and whether the \<open>WebSocket\<close> constructor
  or the storage refuses. The learner's sentences are constructors with the values that fill them.
\<close>

section \<open>State\<close>

datatype phase = Idle | Connecting | Open | Failed

datatype problem = ProblemTimeout | ProblemRefused | ProblemFull | ProblemLost | ProblemStopped
  | ProblemBlocked | ProblemVersion

datatype sentence = NoSentence | VersionSentence | ProblemSentence problem string int bool

record socket =
  sk_id :: nat
  sk_url :: string
  sk_ready :: bool

record save =
  sv_id :: nat
  sv_timed_out :: bool

datatype save_failure = SaveNotConnected | SaveOff | SaveTooBig | SaveTimedOut | SaveLost
  | BridgeSaid string

type_synonym save_answer = "save_failure + string"

datatype emission = EmitState phase | EmitFrame frame_in

record link =
  lk_phase :: phase
  lk_url :: string
  lk_hello :: "hello option"
  lk_session :: "string option"
  lk_rates :: "(string \<times> real) list"
  lk_message :: sentence
  lk_problem :: "problem option"
  lk_ever_opened :: bool
  lk_failures :: nat
  lk_close_code :: "int option"
  lk_silent :: bool
  lk_latest :: "string \<Rightarrow> frame_in option"
  lk_saves :: "save list"
  lk_socket :: "socket option"
  lk_wanted :: bool
  lk_retry_timer :: "string option"
  lk_connect_timer :: "socket option"
  lk_silence_timer :: bool
  lk_stored :: "string option"
  lk_next_socket :: nat
  lk_next_save :: nat
  lk_answers :: "(nat \<times> save_answer) list"
  lk_out :: "frame_out list"
  lk_emitted :: "emission list"

definition init_link :: link where
  "init_link =
     \<lparr>lk_phase = Idle, lk_url = [], lk_hello = None, lk_session = None, lk_rates = [],
      lk_message = NoSentence, lk_problem = None, lk_ever_opened = False, lk_failures = 0,
      lk_close_code = None, lk_silent = False, lk_latest = (\<lambda>_. None), lk_saves = [],
      lk_socket = None, lk_wanted = False, lk_retry_timer = None, lk_connect_timer = None,
      lk_silence_timer = False, lk_stored = None, lk_next_socket = 0, lk_next_save = 0,
      lk_answers = [], lk_out = [], lk_emitted = []\<rparr>"

definition DEFAULT_PORT :: string where "DEFAULT_PORT = ''8897''"
definition MANAGER_PORT :: string where "MANAGER_PORT = ''8888''"
definition PROTOCOL :: int where "PROTOCOL = 1"
definition RETRY_MS :: millis where "RETRY_MS = 3000"
definition CLOSE_TOO_MANY_CLIENTS :: int where "CLOSE_TOO_MANY_CLIENTS = 1013"
definition FULL_RETRY_MS :: millis where "FULL_RETRY_MS = 15000"
definition STOPPED_AFTER_FAILURES :: nat where "STOPPED_AFTER_FAILURES = 3"
definition MAX_SAVE_BYTES :: nat where "MAX_SAVE_BYTES = 8 * 1024 * 1024"

definition STREAMS :: "string list" where
  "STREAMS = [''scan'', ''odom'', ''drive'', ''twist'', ''roller'', ''shot'', ''estop'', ''camera'']"

definition STATES :: "string list" where
  "STATES = [''drive_state'', ''shoot_state'']"

fun SCHEMES :: "string \<Rightarrow> string option" where
  "SCHEMES p =
     (if p = ''http:'' then Some ''ws:'' else if p = ''https:'' then Some ''wss:''
      else if p = ''ws:'' then Some ''ws:'' else if p = ''wss:'' then Some ''wss:'' else None)"

section \<open>The browser\<close>

record url_parts =
  up_protocol :: string
  up_hostname :: string
  up_port :: string
  up_host :: string

record env =
  en_parse :: "string \<Rightarrow> url_parts option"
  en_normalize :: "string \<Rightarrow> string"
  en_page :: "url_parts option"
  en_ws_throws :: "string \<Rightarrow> bool"
  en_storage :: bool

section \<open>Addresses\<close>

datatype address_error = AddressEmpty | AddressInvalid | AddressScheme | AddressManagerPort

definition scheme_char :: "char \<Rightarrow> bool" where
  "scheme_char c \<longleftrightarrow>
     (CHR ''a'' \<le> c \<and> c \<le> CHR ''z'') \<or> (CHR ''A'' \<le> c \<and> c \<le> CHR ''Z'') \<or>
     (CHR ''0'' \<le> c \<and> c \<le> CHR ''9'') \<or> c \<in> set ''+.-''"

definition has_scheme :: "string \<Rightarrow> bool" where
  "has_scheme value =
     (case value of [] \<Rightarrow> False
      | c # _ \<Rightarrow> ((CHR ''a'' \<le> c \<and> c \<le> CHR ''z'') \<or> (CHR ''A'' \<le> c \<and> c \<le> CHR ''Z'')) \<and>
                 take 3 (dropWhile scheme_char value) = ''://'')"

definition parseAddress :: "env \<Rightarrow> string \<Rightarrow> url_parts option" where
  "parseAddress en value = en_parse en (if has_scheme value then value else ''ws://'' @ value)"

definition normalizeRobotUrl :: "env \<Rightarrow> string \<Rightarrow> address_error + string" where
  "normalizeRobotUrl en text =
     (let value = en_normalize en text in
      if value = [] then Inl AddressEmpty
      else case parseAddress en value of
             None \<Rightarrow> Inl AddressInvalid
           | Some url \<Rightarrow>
               (case SCHEMES (up_protocol url) of
                  None \<Rightarrow> Inl AddressScheme
                | Some protocol \<Rightarrow>
                    if up_hostname url = [] \<or> SCHEMES (up_hostname url @ '':'') \<noteq> None
                    then Inl AddressInvalid
                    else if up_port url = MANAGER_PORT then Inl AddressManagerPort
                    else Inr (protocol @ ''//'' @ up_hostname url @ '':''
                              @ (if up_port url = [] then DEFAULT_PORT else up_port url))))"

definition savedRobotUrl :: "env \<Rightarrow> link \<Rightarrow> string" where
  "savedRobotUrl en l =
     (if \<not> en_storage en then []
      else case lk_stored l of None \<Rightarrow> []
        | Some saved \<Rightarrow>
            if saved = [] then []
            else (case normalizeRobotUrl en saved of Inl _ \<Rightarrow> [] | Inr url \<Rightarrow> url))"

definition defaultRobotUrl :: "env \<Rightarrow> link \<Rightarrow> string" where
  "defaultRobotUrl en l =
     (if savedRobotUrl en l \<noteq> [] then savedRobotUrl en l
      else case en_page en of None \<Rightarrow> []
        | Some page \<Rightarrow>
            if up_protocol page = ''http:'' \<and> up_hostname page \<noteq> []
            then ''ws://'' @ up_hostname page @ '':'' @ DEFAULT_PORT else [])"

definition servedByThisBridge :: "env \<Rightarrow> string \<Rightarrow> bool" where
  "servedByThisBridge en url =
     (case en_page en of None \<Rightarrow> False
      | Some page \<Rightarrow>
          up_port page = DEFAULT_PORT \<and>
          (case en_parse en url of None \<Rightarrow> False | Some u \<Rightarrow> up_host u = up_host page))"

definition problemMessage :: "problem \<Rightarrow> string \<Rightarrow> millis \<Rightarrow> sentence" where
  "problemMessage pr url delay =
     ProblemSentence pr url (js_round (delay / 1000)) (delay \<noteq> 0 \<and> pr \<noteq> ProblemLost)"

datatype stage = StageOpen | StageFailed | StageIdle | StageReconnecting | StageConnecting

definition linkStage :: "link \<Rightarrow> stage" where
  "linkStage l =
     (if lk_phase l = Open then StageOpen
      else if lk_phase l = Idle then (if lk_problem l \<noteq> None then StageFailed else StageIdle)
      else if lk_ever_opened l then StageReconnecting
      else if lk_failures l > 0 then StageFailed else StageConnecting)"

section \<open>Frames kept and listeners\<close>

fun frame_type :: "frame_in \<Rightarrow> string" where
  "frame_type (Hello _) = ''hello''"
| "frame_type (Status _) = ''status''"
| "frame_type (SessionId _) = ''session''"
| "frame_type (RecordSaved _) = ''record_saved''"
| "frame_type (RecordError _) = ''record_error''"
| "frame_type (ShootRefused _) = ''shoot_refused''"
| "frame_type (DriveStateFrame _) = ''drive_state''"
| "frame_type (ShootStateFrame _) = ''shoot_state''"
| "frame_type (StreamFrame (DriveMsg _)) = ''drive''"
| "frame_type (StreamFrame (TwistMsg _)) = ''twist''"
| "frame_type (StreamFrame (ScanMsg _)) = ''scan''"
| "frame_type (StreamFrame (OdomMsg _)) = ''odom''"
| "frame_type (StreamFrame (RollerMsg _)) = ''roller''"
| "frame_type (StreamFrame (ShotMsg _)) = ''shot''"
| "frame_type (StreamFrame (OtherMsg name)) = name"
| "frame_type UnknownFrame = []"

definition latestRobot :: "link \<Rightarrow> string \<Rightarrow> frame_in option" where
  "latestRobot l type = lk_latest l type"

definition latest_drive_state :: "link \<Rightarrow> drive_state option" where
  "latest_drive_state l =
     (case latestRobot l ''drive_state'' of Some (DriveStateFrame d) \<Rightarrow> Some d | _ \<Rightarrow> None)"

definition latest_shoot_state :: "link \<Rightarrow> shoot_state option" where
  "latest_shoot_state l =
     (case latestRobot l ''shoot_state'' of Some (ShootStateFrame s) \<Rightarrow> Some s | _ \<Rightarrow> None)"

definition latest_shot :: "link \<Rightarrow> shot_msg option" where
  "latest_shot l =
     (case latestRobot l ''shot'' of Some (StreamFrame (ShotMsg s)) \<Rightarrow> Some s | _ \<Rightarrow> None)"

definition latest_roller :: "link \<Rightarrow> roller_msg option" where
  "latest_roller l =
     (case latestRobot l ''roller'' of Some (StreamFrame (RollerMsg r)) \<Rightarrow> Some r | _ \<Rightarrow> None)"

definition emit_frame :: "frame_in \<Rightarrow> link \<Rightarrow> link" where
  "emit_frame f l = l\<lparr>lk_emitted := lk_emitted l @ [EmitFrame f]\<rparr>"

text \<open>\<open>setState(patch)\<close>: the patch is applied by the caller, then the listeners hear of it.\<close>

definition tell_state :: "link \<Rightarrow> link" where
  "tell_state l = l\<lparr>lk_emitted := lk_emitted l @ [EmitState (lk_phase l)]\<rparr>"

section \<open>Timers and the socket\<close>

definition stopTimers :: "link \<Rightarrow> link" where
  "stopTimers l =
     l\<lparr>lk_retry_timer := None, lk_connect_timer := None, lk_silence_timer := False\<rparr>"

definition lost_answers :: "save list \<Rightarrow> (nat \<times> save_answer) list" where
  "lost_answers saves = map (\<lambda>s. (sv_id s, Inl SaveLost)) (filter (\<lambda>s. \<not> sv_timed_out s) saves)"

definition dropSaves :: "link \<Rightarrow> link" where
  "dropSaves l = l\<lparr>lk_saves := [], lk_answers := lk_answers l @ lost_answers (lk_saves l)\<rparr>"

definition dropSocket :: "link \<Rightarrow> link" where
  "dropSocket l = dropSaves (l\<lparr>lk_socket := None\<rparr>)"

definition armSilence :: "link \<Rightarrow> link" where
  "armSilence l =
     (if lk_silence_timer l \<or> lk_silent l then l else l\<lparr>lk_silence_timer := True\<rparr>)"

definition silence_fires :: "link \<Rightarrow> link" where
  "silence_fires l =
     (if \<not> lk_silence_timer l then l
      else let l = l\<lparr>lk_silence_timer := False\<rparr> in
           if lk_phase l = Open then tell_state (l\<lparr>lk_silent := True\<rparr>) else l)"

definition receiveStatus :: "(string \<times> real) list \<Rightarrow> link \<Rightarrow> link" where
  "receiveStatus rates l =
     emit_frame (Status rates)
       (if list_ex (\<lambda>(_, hz). hz > 0) rates
        then tell_state (l\<lparr>lk_silence_timer := False, lk_rates := rates, lk_silent := False\<rparr>)
        else tell_state ((armSilence l)\<lparr>lk_rates := rates\<rparr>))"

definition refuseVersion :: "link \<Rightarrow> link" where
  "refuseVersion l =
     tell_state ((dropSocket (stopTimers (l\<lparr>lk_wanted := False\<rparr>)))
       \<lparr>lk_phase := Idle, lk_rates := [], lk_problem := Some ProblemVersion,
        lk_message := VersionSentence\<rparr>)"

definition link_welcome :: "hello \<Rightarrow> link \<Rightarrow> link" where
  "link_welcome h l =
     (if he_protocol h \<noteq> PROTOCOL then refuseVersion l
      else armSilence (tell_state (l\<lparr>lk_connect_timer := None, lk_phase := Open,
             lk_hello := Some h, lk_message := NoSentence, lk_problem := None,
             lk_ever_opened := True, lk_failures := 0, lk_close_code := None,
             lk_silent := False\<rparr>)))"

section \<open>Keeping recordings on the robot\<close>

definition answerSave :: "save_answer \<Rightarrow> link \<Rightarrow> link" where
  "answerSave answer l =
     (case lk_saves l of
        [] \<Rightarrow> l
      | pending # rest \<Rightarrow>
          if sv_timed_out pending then l\<lparr>lk_saves := rest\<rparr>
          else l\<lparr>lk_saves := rest, lk_answers := lk_answers l @ [(sv_id pending, answer)]\<rparr>)"

definition robotRecordsSupport :: "link \<Rightarrow> bool option" where
  "robotRecordsSupport l =
     (if lk_phase l \<noteq> Open then None else Option.bind (lk_hello l) he_records_save)"

definition connection_open :: "link \<Rightarrow> bool" where
  "connection_open l \<longleftrightarrow>
     (case lk_socket l of None \<Rightarrow> False | Some s \<Rightarrow> sk_ready s) \<and> lk_phase l = Open"

definition save_frame :: "string \<Rightarrow> string" where
  \<open>save_frame text = ''{"type":"record_save","recording":'' @ text @ ''}''\<close>

definition settle_save :: "save_answer \<Rightarrow> link \<Rightarrow> link" where
  "settle_save answer l =
     l\<lparr>lk_next_save := Suc (lk_next_save l), lk_answers := lk_answers l @ [(lk_next_save l, answer)]\<rparr>"

definition saveRecordOnRobot :: "string \<Rightarrow> link \<Rightarrow> link" where
  "saveRecordOnRobot text l =
     (if \<not> connection_open l then settle_save (Inl SaveNotConnected) l
      else if robotRecordsSupport l \<noteq> Some True then settle_save (Inl SaveOff) l
      else if length (save_frame text) > MAX_SAVE_BYTES then settle_save (Inl SaveTooBig) l
      else l\<lparr>lk_next_save := Suc (lk_next_save l),
             lk_saves := lk_saves l @ [\<lparr>sv_id = lk_next_save l, sv_timed_out = False\<rparr>],
             lk_out := lk_out l @ [RecordSaveOut text]\<rparr>)"

text \<open>The 30 s timer of one save: it runs until the save is answered or its connection is gone.\<close>

definition save_times_out :: "nat \<Rightarrow> link \<Rightarrow> link" where
  "save_times_out i l =
     (if list_ex (\<lambda>s. sv_id s = i \<and> \<not> sv_timed_out s) (lk_saves l)
      then l\<lparr>lk_saves := map (\<lambda>s. if sv_id s = i then s\<lparr>sv_timed_out := True\<rparr> else s) (lk_saves l),
             lk_answers := lk_answers l @ [(i, Inl SaveTimedOut)]\<rparr>
      else l)"

section \<open>Receiving\<close>

definition keep_latest :: "frame_in \<Rightarrow> link \<Rightarrow> link" where
  "keep_latest f l =
     (if frame_type f \<in> set STATES \<or> frame_type f \<in> set STREAMS
      then emit_frame f (l\<lparr>lk_latest := (lk_latest l)(frame_type f := Some f)\<rparr>) else l)"

definition handleText :: "frame_in \<Rightarrow> link \<Rightarrow> link" where
  "handleText f l =
     (case f of
        Hello h \<Rightarrow> link_welcome h l
      | Status rates \<Rightarrow> receiveStatus rates l
      | SessionId i \<Rightarrow> tell_state (l\<lparr>lk_session := Some i\<rparr>)
      | RecordSaved i \<Rightarrow> answerSave (Inr i) l
      | RecordError message \<Rightarrow>
          answerSave (Inl (if message = [] then SaveOff else BridgeSaid message)) l
      | ShootRefused r \<Rightarrow> emit_frame f l
      | _ \<Rightarrow> keep_latest f l)"

datatype ws_data = TextData frame_in | BlobData

definition receive_data :: "ws_data \<Rightarrow> link \<Rightarrow> link" where
  "receive_data d l =
     (case d of
        TextData f \<Rightarrow> handleText f l
      | BlobData \<Rightarrow> keep_latest (StreamFrame (OtherMsg ''camera'')) l)"

section \<open>Connecting\<close>

definition link_failed :: "env \<Rightarrow> string \<Rightarrow> problem \<Rightarrow> int option \<Rightarrow> link \<Rightarrow> link" where
  "link_failed en url pr closeCode l =
     (let l = stopTimers l;
          failures = lk_failures l + 1;
          gone = (failures \<ge> STOPPED_AFTER_FAILURES \<and> pr \<noteq> ProblemFull \<and> servedByThisBridge en url);
          shown = (if gone then ProblemStopped else pr);
          delay = (if pr = ProblemFull then FULL_RETRY_MS else RETRY_MS)
      in (tell_state (l\<lparr>lk_phase := Failed, lk_rates := [], lk_silent := False,
              lk_failures := failures, lk_close_code := closeCode, lk_problem := Some shown,
              lk_message := problemMessage shown url delay\<rparr>))\<lparr>lk_retry_timer := Some url\<rparr>)"

definition closeProblem :: "int \<Rightarrow> link \<Rightarrow> problem" where
  "closeProblem code l =
     (if code = CLOSE_TOO_MANY_CLIENTS then ProblemFull
      else if lk_ever_opened l then ProblemLost else ProblemRefused)"

definition link_blocked :: "string \<Rightarrow> link \<Rightarrow> link" where
  "link_blocked url l =
     tell_state (l\<lparr>lk_wanted := False, lk_phase := Idle, lk_failures := lk_failures l + 1,
       lk_problem := Some ProblemBlocked, lk_message := problemMessage ProblemBlocked url 0\<rparr>)"

definition open_link :: "env \<Rightarrow> string \<Rightarrow> link \<Rightarrow> link" where
  "open_link en url l =
     (let l = tell_state ((stopTimers l)\<lparr>lk_latest := (\<lambda>_. None), lk_phase := Connecting,
                 lk_url := url, lk_hello := None, lk_session := None, lk_rates := [],
                 lk_silent := False\<rparr>)
      in if en_ws_throws en url then link_blocked url l
         else let ws = \<lparr>sk_id = lk_next_socket l, sk_url = url, sk_ready = False\<rparr>
              in l\<lparr>lk_socket := Some ws, lk_next_socket := Suc (lk_next_socket l),
                   lk_connect_timer := Some ws\<rparr>)"

definition ws_closed :: "env \<Rightarrow> int \<Rightarrow> socket \<Rightarrow> link \<Rightarrow> link" where
  "ws_closed en code ws l =
     link_failed en (sk_url ws) (closeProblem code l) (Some code) (dropSaves (l\<lparr>lk_socket := None\<rparr>))"

definition connect_times_out :: "env \<Rightarrow> link \<Rightarrow> link" where
  "connect_times_out en l =
     (case lk_connect_timer l of
        None \<Rightarrow> l
      | Some ws \<Rightarrow>
          if map_option sk_id (lk_socket l) \<noteq> Some (sk_id ws) then l
          else link_failed en (sk_url ws)
                 (if lk_ever_opened l then ProblemLost else ProblemTimeout) None (dropSocket l))"

definition retry_fires :: "env \<Rightarrow> link \<Rightarrow> link" where
  "retry_fires en l =
     (case lk_retry_timer l of None \<Rightarrow> l
      | Some url \<Rightarrow> if lk_wanted l then open_link en url l else l)"

definition connectRobot :: "env \<Rightarrow> string \<Rightarrow> link \<Rightarrow> address_error + link" where
  "connectRobot en text l =
     (case normalizeRobotUrl en text of
        Inl e \<Rightarrow> Inl e
      | Inr url \<Rightarrow>
          let l = (if en_storage en then l\<lparr>lk_stored := Some url\<rparr> else l);
              l = dropSocket (l\<lparr>lk_wanted := True\<rparr>)
          in Inr (open_link en url (l\<lparr>lk_message := NoSentence, lk_problem := None,
                    lk_ever_opened := False, lk_failures := 0, lk_close_code := None\<rparr>)))"

text \<open>\<open>sendRobot\<close> answers whether the frame went out.\<close>

definition sendRobot :: "frame_out \<Rightarrow> link \<Rightarrow> bool \<times> link" where
  "sendRobot frame l =
     (if connection_open l then (True, l\<lparr>lk_out := lk_out l @ [frame]\<rparr>) else (False, l))"

definition disconnectRobot :: "link \<Rightarrow> link" where
  "disconnectRobot l =
     tell_state ((dropSocket (stopTimers (l\<lparr>lk_wanted := False\<rparr>)))
       \<lparr>lk_phase := Idle, lk_session := None, lk_rates := [], lk_message := NoSentence,
        lk_problem := None, lk_ever_opened := False, lk_failures := 0, lk_close_code := None,
        lk_silent := False\<rparr>)"

section \<open>Events\<close>

text \<open>
  Socket events carry the id of the socket they happened on: the handlers of a socket that is no
  longer the module's own are removed, or return at once.
\<close>

datatype link_event =
    ConnectTo string
  | Disconnect
  | SendFrame frame_out
  | SaveRecord string
  | SocketOpened nat
  | SocketClosing nat
  | SocketData nat ws_data
  | SocketClosed nat int
  | ConnectTimer
  | RetryTimer
  | SilenceTimer
  | SaveTimer nat

definition on_socket :: "nat \<Rightarrow> (socket \<Rightarrow> link \<Rightarrow> link) \<Rightarrow> link \<Rightarrow> link" where
  "on_socket i f l =
     (case lk_socket l of None \<Rightarrow> l | Some ws \<Rightarrow> if sk_id ws = i then f ws l else l)"

definition set_ready :: "bool \<Rightarrow> socket \<Rightarrow> link \<Rightarrow> link" where
  "set_ready b ws l = l\<lparr>lk_socket := Some (ws\<lparr>sk_ready := b\<rparr>)\<rparr>"

fun link_react :: "env \<Rightarrow> link_event \<Rightarrow> link \<Rightarrow> link" where
  "link_react en (ConnectTo text) l = (case connectRobot en text l of Inl _ \<Rightarrow> l | Inr l' \<Rightarrow> l')"
| "link_react en Disconnect l = disconnectRobot l"
| "link_react en (SendFrame f) l = snd (sendRobot f l)"
| "link_react en (SaveRecord text) l = saveRecordOnRobot text l"
| "link_react en (SocketOpened i) l = on_socket i (set_ready True) l"
| "link_react en (SocketClosing i) l = on_socket i (set_ready False) l"
| "link_react en (SocketData i d) l = on_socket i (\<lambda>_. receive_data d) l"
| "link_react en (SocketClosed i code) l = on_socket i (ws_closed en code) l"
| "link_react en ConnectTimer l = connect_times_out en l"
| "link_react en RetryTimer l = retry_fires en l"
| "link_react en SilenceTimer l = silence_fires l"
| "link_react en (SaveTimer i) l = save_times_out i l"

definition link_step :: "env \<Rightarrow> link_event \<Rightarrow> link \<Rightarrow> link" where
  "link_step en e l = link_react en e (l\<lparr>lk_emitted := []\<rparr>)"

section \<open>What the phase says about the socket and the timers\<close>

definition phase_inv :: "link \<Rightarrow> bool" where
  "phase_inv l \<longleftrightarrow>
     (case lk_phase l of
        Idle \<Rightarrow> lk_socket l = None \<and> \<not> lk_wanted l \<and> lk_connect_timer l = None \<and>
                lk_retry_timer l = None \<and> \<not> lk_silence_timer l
      | Connecting \<Rightarrow> lk_wanted l \<and> lk_retry_timer l = None \<and> lk_socket l \<noteq> None \<and>
                map_option sk_id (lk_connect_timer l) = map_option sk_id (lk_socket l)
      | Open \<Rightarrow> lk_wanted l \<and> lk_retry_timer l = None \<and> lk_socket l \<noteq> None \<and>
                lk_connect_timer l = None \<and> lk_ever_opened l \<and> lk_failures l = 0 \<and>
                map_option he_protocol (lk_hello l) = Some PROTOCOL
      | Failed \<Rightarrow> lk_wanted l \<and> lk_retry_timer l \<noteq> None \<and> lk_socket l = None \<and>
                lk_connect_timer l = None)"

definition save_ids :: "save list \<Rightarrow> nat list" where
  "save_ids saves = map sv_id (filter (\<lambda>s. \<not> sv_timed_out s) saves)"

text \<open>Every save that was asked for is settled once, or is still waiting for its answer.\<close>

definition save_inv :: "link \<Rightarrow> bool" where
  "save_inv l \<longleftrightarrow>
     distinct (map sv_id (lk_saves l)) \<and> list_all (\<lambda>s. sv_id s < lk_next_save l) (lk_saves l) \<and>
     (lk_socket l = None \<longrightarrow> lk_saves l = []) \<and>
     mset (map fst (lk_answers l)) + mset (save_ids (lk_saves l)) = mset [0..<lk_next_save l]"

definition link_inv :: "link \<Rightarrow> bool" where
  "link_inv l \<longleftrightarrow> phase_inv l \<and> save_inv l"

lemmas link_defs = tell_state_def emit_frame_def stopTimers_def dropSaves_def dropSocket_def
  armSilence_def keep_latest_def

lemma save_ids_simps [simp]:
  "save_ids [] = []"
  "save_ids (s # ss) = (if sv_timed_out s then save_ids ss else sv_id s # save_ids ss)"
  "save_ids (xs @ ys) = save_ids xs @ save_ids ys"
  by (simp_all add: save_ids_def)

lemma map_fst_lost_answers [simp]: "map fst (lost_answers saves) = save_ids saves"
  by (induction saves) (simp_all add: lost_answers_def save_ids_def)

lemma phase_inv_link_failed:
  "lk_wanted l \<Longrightarrow> lk_socket l = None \<Longrightarrow> phase_inv (link_failed en url pr code l)"
  by (simp add: link_failed_def phase_inv_def link_defs Let_def)

lemma phase_inv_open_link:
  "lk_wanted l \<Longrightarrow> lk_socket l = None \<Longrightarrow> phase_inv (open_link en url l)"
  by (simp add: open_link_def link_blocked_def phase_inv_def link_defs Let_def)

lemma phase_inv_handleText:
  assumes "phase_inv l" and "lk_socket l \<noteq> None"
  shows "phase_inv (handleText f l)"
proof -
  have wanted: "lk_wanted l" "lk_retry_timer l = None"
    using assms by (auto simp: phase_inv_def split: phase.splits)
  show ?thesis
  proof (cases f)
    case (Hello h)
    with assms wanted show ?thesis
      by (auto simp: handleText_def link_welcome_def refuseVersion_def phase_inv_def link_defs
            split: phase.splits)
  next
    case (Status rates)
    with assms show ?thesis
      by (auto simp: handleText_def receiveStatus_def phase_inv_def link_defs split: phase.splits)
  next
    case (RecordSaved i)
    with assms show ?thesis
      by (auto simp: handleText_def answerSave_def phase_inv_def
            split: phase.splits list.splits)
  next
    case (RecordError m)
    with assms show ?thesis
      by (auto simp: handleText_def answerSave_def phase_inv_def
            split: phase.splits list.splits)
  qed (use assms in \<open>auto simp: handleText_def phase_inv_def link_defs split: phase.splits\<close>)
qed

lemma phase_inv_receive:
  "phase_inv l \<Longrightarrow> lk_socket l \<noteq> None \<Longrightarrow> phase_inv (receive_data d l)"
proof (cases d)
  case (TextData f)
  then show "phase_inv l \<Longrightarrow> lk_socket l \<noteq> None \<Longrightarrow> phase_inv (receive_data d l)"
    by (simp add: receive_data_def phase_inv_handleText)
next
  case BlobData
  then show "phase_inv l \<Longrightarrow> lk_socket l \<noteq> None \<Longrightarrow> phase_inv (receive_data d l)"
    by (auto simp: receive_data_def phase_inv_def link_defs split: phase.splits)
qed

lemma phase_inv_wanted: "phase_inv l \<Longrightarrow> lk_socket l \<noteq> None \<Longrightarrow> lk_wanted l"
  by (auto simp: phase_inv_def split: phase.splits)

lemma phase_inv_react:
  assumes inv: "phase_inv l"
  shows "phase_inv (link_react en e l)"
proof (cases e)
  case (ConnectTo addr)
  then show ?thesis
    using inv by (auto simp: connectRobot_def dropSocket_def dropSaves_def Let_def
        split: sum.splits intro!: phase_inv_open_link)
next
  case Disconnect
  then show ?thesis by (simp add: disconnectRobot_def phase_inv_def link_defs)
next
  case (SendFrame f)
  with inv show ?thesis
    by (auto simp: sendRobot_def phase_inv_def split: phase.splits)
next
  case (SaveRecord body)
  with inv show ?thesis
    by (auto simp: saveRecordOnRobot_def settle_save_def phase_inv_def split: phase.splits)
next
  case (SocketOpened i)
  with inv show ?thesis
    by (auto simp: on_socket_def set_ready_def phase_inv_def split: phase.splits option.splits)
next
  case (SocketClosing i)
  with inv show ?thesis
    by (auto simp: on_socket_def set_ready_def phase_inv_def split: phase.splits option.splits)
next
  case (SocketData i d)
  with inv show ?thesis
    by (auto simp: on_socket_def phase_inv_receive split: option.splits)
next
  case (SocketClosed i code)
  with inv show ?thesis
    using phase_inv_wanted [OF inv]
    by (auto simp: on_socket_def ws_closed_def dropSaves_def split: option.splits
        intro!: phase_inv_link_failed)
next
  case ConnectTimer
  with inv show ?thesis
    using phase_inv_wanted [OF inv]
    by (auto simp: connect_times_out_def dropSocket_def dropSaves_def split: option.splits
        intro!: phase_inv_link_failed)
next
  case RetryTimer
  have "lk_retry_timer l \<noteq> None \<Longrightarrow> lk_socket l = None"
    using inv by (auto simp: phase_inv_def split: phase.splits)
  with RetryTimer inv show ?thesis
    by (auto simp: retry_fires_def split: option.splits intro!: phase_inv_open_link)
next
  case SilenceTimer
  with inv show ?thesis
    by (auto simp: silence_fires_def phase_inv_def link_defs Let_def split: phase.splits)
next
  case (SaveTimer i)
  with inv show ?thesis
    by (auto simp: save_times_out_def phase_inv_def split: phase.splits)
qed

section \<open>Saves are settled exactly once\<close>

text \<open>Operations that leave the saves, their answers and the socket alone keep \<open>save_inv\<close>.\<close>

lemma save_inv_cong:
  assumes "save_inv l" and "lk_saves l' = lk_saves l" and "lk_answers l' = lk_answers l"
    and "lk_next_save l' = lk_next_save l" and "lk_socket l' = None \<longrightarrow> lk_saves l = []"
  shows "save_inv l'"
  using assms by (simp add: save_inv_def)

lemma save_inv_dropped:
  assumes "save_inv l" and "lk_saves l' = []"
    and "lk_answers l' = lk_answers l @ lost_answers (lk_saves l)"
    and "lk_next_save l' = lk_next_save l"
  shows "save_inv l'"
  using assms by (simp add: save_inv_def)

lemma save_inv_settle: "save_inv l \<Longrightarrow> save_inv (settle_save a l)"
  by (auto simp: save_inv_def settle_save_def list_all_iff less_Suc_eq)

lemma save_inv_saveRecord: "save_inv l \<Longrightarrow> save_inv (saveRecordOnRobot text l)"
  by (auto simp: saveRecordOnRobot_def save_inv_settle)
     (auto simp: save_inv_def connection_open_def list_all_iff less_Suc_eq split: option.splits)

lemma save_inv_answer: "save_inv l \<Longrightarrow> save_inv (answerSave a l)"
  by (auto simp: answerSave_def save_inv_def split: list.splits)

lemma save_ids_time_out:
  assumes "distinct (map sv_id saves)" and "s \<in> set saves" and "sv_id s = i" and "\<not> sv_timed_out s"
  shows "mset (save_ids saves)
    = add_mset i (mset (save_ids (map (\<lambda>s. if sv_id s = i then s\<lparr>sv_timed_out := True\<rparr> else s) saves)))"
  using assms
proof (induction saves)
  case Nil
  then show ?case by simp
next
  case (Cons x saves)
  show ?case
  proof (cases "sv_id x = i")
    case True
    then have others: "\<forall>s \<in> set saves. sv_id s \<noteq> i" using Cons.prems(1) by (auto simp: image_iff)
    then have "map (\<lambda>s. if sv_id s = i then s\<lparr>sv_timed_out := True\<rparr> else s) saves = saves"
      by (simp add: map_idI)
    moreover have "x = s"
      using others Cons.prems(2,3) by auto
    ultimately show ?thesis using True Cons.prems by simp
  next
    case False
    with Cons show ?thesis by auto
  qed
qed

lemma save_inv_time_out: "save_inv l \<Longrightarrow> save_inv (save_times_out i l)"
proof -
  assume inv: "save_inv l"
  let ?f = "\<lambda>s. if sv_id s = i then s\<lparr>sv_timed_out := True\<rparr> else s"
  have ids: "map sv_id (map ?f (lk_saves l)) = map sv_id (lk_saves l)" by simp
  show ?thesis
  proof (cases "list_ex (\<lambda>s. sv_id s = i \<and> \<not> sv_timed_out s) (lk_saves l)")
    case True
    then obtain s where s: "s \<in> set (lk_saves l)" "sv_id s = i" "\<not> sv_timed_out s"
      by (auto simp: list_ex_iff)
    with inv save_ids_time_out [of "lk_saves l" s i]
    have "mset (save_ids (lk_saves l)) = add_mset i (mset (save_ids (map ?f (lk_saves l))))"
      by (simp add: save_inv_def)
    with inv True ids show ?thesis
      by (auto simp: save_times_out_def save_inv_def list_all_iff simp del: map_map)
  next
    case False
    with inv show ?thesis by (simp add: save_times_out_def)
  qed
qed

lemma save_inv_failed: "save_inv l \<Longrightarrow> lk_saves l = [] \<Longrightarrow> save_inv (link_failed en url pr code l)"
  by (simp add: save_inv_def link_failed_def link_defs Let_def)

lemma save_inv_open: "save_inv l \<Longrightarrow> lk_saves l = [] \<Longrightarrow> save_inv (open_link en url l)"
  by (simp add: save_inv_def open_link_def link_blocked_def link_defs Let_def)

lemma save_inv_dropSocket: "save_inv l \<Longrightarrow> save_inv (dropSocket l)"
  by (erule save_inv_dropped) (simp_all add: dropSocket_def dropSaves_def)

lemma save_inv_handleText:
  assumes inv: "save_inv l" and sock: "lk_socket l \<noteq> None"
  shows "save_inv (handleText f l)"
proof (cases f)
  case (Hello h)
  show ?thesis
  proof (cases "he_protocol h = PROTOCOL")
    case True
    with Hello show ?thesis
      by (intro save_inv_cong [OF inv]) (simp_all add: handleText_def link_welcome_def link_defs sock)
  next
    case False
    with Hello show ?thesis
      by (intro save_inv_dropped [OF inv])
         (simp_all add: handleText_def link_welcome_def refuseVersion_def link_defs)
  qed
qed (use inv sock in \<open>auto simp: handleText_def receiveStatus_def link_defs save_inv_answer
       intro!: save_inv_cong [OF inv]\<close>)

lemma save_inv_receive: "save_inv l \<Longrightarrow> lk_socket l \<noteq> None \<Longrightarrow> save_inv (receive_data d l)"
  by (cases d)
     (auto simp: receive_data_def save_inv_handleText link_defs elim!: save_inv_cong)

lemma save_inv_react:
  assumes inv: "save_inv l" and phase: "phase_inv l"
  shows "save_inv (link_react en e l)"
proof (cases e)
  case (ConnectTo addr)
  have "save_inv (open_link en url ((dropSocket (m\<lparr>lk_wanted := True\<rparr>))\<lparr>lk_message := NoSentence,
      lk_problem := None, lk_ever_opened := False, lk_failures := 0, lk_close_code := None\<rparr>))"
    if m: "save_inv m" for m url
    by (intro save_inv_open save_inv_dropped [OF m]) (simp_all add: dropSocket_def dropSaves_def)
  moreover have "save_inv (l\<lparr>lk_stored := x\<rparr>)" for x
    using inv by (simp add: save_inv_def)
  ultimately show ?thesis
    using ConnectTo inv by (auto simp: connectRobot_def Let_def split: sum.splits)
next
  case Disconnect
  then show ?thesis
    by (intro save_inv_dropped [OF inv]) (simp_all add: disconnectRobot_def link_defs)
next
  case (SendFrame f)
  with inv show ?thesis
    by (auto simp: sendRobot_def save_inv_def)
next
  case (SaveRecord body)
  with inv show ?thesis by (simp add: save_inv_saveRecord)
next
  case (SocketOpened i)
  with inv show ?thesis
    by (auto simp: on_socket_def set_ready_def save_inv_def split: option.splits)
next
  case (SocketClosing i)
  with inv show ?thesis
    by (auto simp: on_socket_def set_ready_def save_inv_def split: option.splits)
next
  case (SocketData i d)
  with inv show ?thesis
    by (auto simp: on_socket_def save_inv_receive split: option.splits)
next
  case (SocketClosed i code)
  have "save_inv (dropSaves (l\<lparr>lk_socket := None\<rparr>))"
    by (rule save_inv_dropped [OF inv]) (simp_all add: dropSaves_def)
  with SocketClosed inv show ?thesis
    by (auto simp: on_socket_def ws_closed_def dropSaves_def split: option.splits
        intro!: save_inv_failed)
next
  case ConnectTimer
  have "lk_saves (dropSocket l) = []" by (simp add: dropSocket_def dropSaves_def)
  with ConnectTimer inv show ?thesis
    by (auto simp: connect_times_out_def split: option.splits
        intro!: save_inv_failed save_inv_dropSocket)
next
  case RetryTimer
  have "lk_saves l = []" if "lk_retry_timer l \<noteq> None"
    using that inv phase by (auto simp: phase_inv_def save_inv_def split: phase.splits)
  with RetryTimer inv show ?thesis
    by (auto simp: retry_fires_def split: option.splits intro!: save_inv_open)
next
  case SilenceTimer
  with inv show ?thesis
    by (auto simp: silence_fires_def link_defs Let_def save_inv_def)
next
  case (SaveTimer i)
  with inv show ?thesis by (simp add: save_inv_time_out)
qed

section \<open>The link as an event machine\<close>

lemma link_inv_step: "link_inv l \<Longrightarrow> link_inv (link_step en e l)"
proof -
  assume "link_inv l"
  then have "phase_inv (l\<lparr>lk_emitted := []\<rparr>)" "save_inv (l\<lparr>lk_emitted := []\<rparr>)"
    by (simp_all add: link_inv_def phase_inv_def save_inv_def split: phase.splits)
  then show ?thesis
    by (simp add: link_inv_def link_step_def phase_inv_react save_inv_react)
qed

lemma link_inv_init: "link_inv init_link"
  by (simp add: link_inv_def phase_inv_def save_inv_def init_link_def)

interpretation link_machine: event_machine "link_step en" link_inv for en
  by unfold_locales (rule link_inv_step)

lemma link_inv_reachable: "link_inv (fold (link_step en) es init_link)"
  by (rule link_machine.run_inv [OF link_inv_init])

text \<open>A link nobody asked for is dormant: only \<open>connectRobot\<close> wakes it.\<close>

fun asks_to_connect :: "link_event \<Rightarrow> bool" where
  "asks_to_connect (ConnectTo _) = True"
| "asks_to_connect _ = False"

definition link_dormant :: "frame_out list \<Rightarrow> link \<Rightarrow> bool" where
  "link_dormant sent l \<longleftrightarrow> link_inv l \<and> lk_phase l = Idle \<and> lk_out l = sent"

lemma link_dormant_step:
  assumes dormant: "link_dormant sent l" and "\<not> asks_to_connect e"
  shows "link_dormant sent (link_step en e l)"
proof -
  have idle: "lk_phase l = Idle" "lk_socket l = None" "lk_connect_timer l = None"
      "lk_retry_timer l = None" "\<not> lk_silence_timer l" "lk_out l = sent"
    using dormant by (auto simp: link_dormant_def link_inv_def phase_inv_def)
  have "lk_phase (link_step en e l) = Idle \<and> lk_out (link_step en e l) = sent"
    using assms(2) idle
    by (cases e) (simp_all add: link_step_def disconnectRobot_def link_defs sendRobot_def
        connection_open_def saveRecordOnRobot_def settle_save_def on_socket_def
        connect_times_out_def retry_fires_def silence_fires_def save_times_out_def)
  with dormant show ?thesis by (simp add: link_dormant_def link_inv_step)
qed

interpretation link_sleep: dormant_machine "link_step en" "link_dormant sent" asks_to_connect
  for en sent
  by unfold_locales (rule link_dormant_step)

lemma link_inv_disconnect: "link_inv l \<Longrightarrow> link_inv (disconnectRobot l)"
  using phase_inv_react [of l undefined Disconnect] save_inv_react [of l undefined Disconnect]
  by (simp add: link_inv_def)

fun may_send :: "link_event \<Rightarrow> bool" where
  "may_send (SendFrame _) = True"
| "may_send (SaveRecord _) = True"
| "may_send _ = False"

lemma receive_data_out: "lk_out (receive_data d l) = lk_out l"
proof -
  have "lk_out (handleText f m) = lk_out m" for f m
    by (cases f) (simp_all add: handleText_def link_welcome_def refuseVersion_def receiveStatus_def
        answerSave_def link_defs split: list.splits)
  then show ?thesis by (cases d) (simp_all add: receive_data_def link_defs)
qed

lemma link_out_quiet: "\<not> may_send e \<Longrightarrow> lk_out (link_step en e l) = lk_out l"
  by (cases e)
     (auto simp: link_step_def connectRobot_def open_link_def link_blocked_def link_defs
       disconnectRobot_def on_socket_def set_ready_def receive_data_out ws_closed_def
       link_failed_def connect_times_out_def retry_fires_def silence_fires_def save_times_out_def
       Let_def split: sum.splits option.splits)

lemma link_out_step:
  "lk_out (link_step en e l) = lk_out l \<or> (connection_open l \<and> (\<exists>f. lk_out (link_step en e l) = lk_out l @ [f]))"
proof (cases e)
  case (SendFrame f)
  then show ?thesis by (auto simp: link_step_def sendRobot_def connection_open_def)
next
  case (SaveRecord body)
  then show ?thesis
    by (auto simp: link_step_def saveRecordOnRobot_def settle_save_def connection_open_def)
qed (simp_all add: link_out_quiet)

section \<open>The modules that drive the robot over the link\<close>

text \<open>The link never leaves the open phase without telling its listeners.\<close>

definition heard_loss :: "link \<Rightarrow> bool" where
  "heard_loss l \<longleftrightarrow> lk_phase l = Open \<or> list_ex (\<lambda>em. em \<in> {EmitState Idle, EmitState Connecting,
     EmitState Failed}) (lk_emitted l)"

lemma heard_loss_emit [simp]:
  "heard_loss (tell_state l)"
  "heard_loss (emit_frame f l) = heard_loss l"
  by (cases "lk_phase l"; simp add: heard_loss_def tell_state_def)
     (simp add: heard_loss_def emit_frame_def)

lemma heard_loss_cong:
  "lk_phase l = lk_phase l' \<Longrightarrow> lk_emitted l = lk_emitted l' \<Longrightarrow> heard_loss l = heard_loss l'"
  by (simp add: heard_loss_def)

lemma heard_loss_open: "heard_loss (open_link en url l)"
proof -
  have "heard_loss (m\<lparr>lk_socket := a, lk_next_socket := b, lk_connect_timer := c\<rparr>) = heard_loss m"
    for m a b c by (rule heard_loss_cong) simp_all
  then show ?thesis by (simp add: open_link_def link_blocked_def Let_def)
qed

lemma heard_loss_failed: "heard_loss (link_failed en url pr code l)"
proof -
  have "heard_loss (m\<lparr>lk_retry_timer := a\<rparr>) = heard_loss m" for m a
    by (rule heard_loss_cong) simp_all
  then show ?thesis by (simp add: link_failed_def Let_def)
qed

lemma heard_loss_handleText: "lk_phase l = Open \<Longrightarrow> heard_loss (handleText f l)"
proof (cases f)
  case (Hello h)
  have "heard_loss (armSilence m) = heard_loss m" for m
    by (simp add: armSilence_def heard_loss_def)
  with Hello show ?thesis by (simp add: handleText_def link_welcome_def refuseVersion_def)
qed (auto simp: handleText_def receiveStatus_def keep_latest_def answerSave_def heard_loss_def
       emit_frame_def tell_state_def armSilence_def split: list.splits)

lemma heard_loss_step:
  assumes "lk_phase l = Open"
  shows "heard_loss (link_step en e l)"
proof (cases e)
  case (ConnectTo addr)
  with assms show ?thesis
    by (auto simp: link_step_def connectRobot_def Let_def heard_loss_open split: sum.splits)
       (simp_all add: heard_loss_def)
next
  case (SocketData i d)
  with assms have "heard_loss (receive_data d (l\<lparr>lk_emitted := []\<rparr>))"
    by (cases d) (simp_all add: receive_data_def heard_loss_handleText keep_latest_def,
        simp add: heard_loss_def)
  with SocketData assms show ?thesis
    by (auto simp: link_step_def on_socket_def heard_loss_def [of "l\<lparr>lk_emitted := []\<rparr>"]
        split: option.splits)
next
  case (SocketClosed i code)
  with assms show ?thesis
    by (auto simp: link_step_def on_socket_def ws_closed_def heard_loss_failed split: option.splits)
       (simp_all add: heard_loss_def)
next
  case ConnectTimer
  with assms show ?thesis
    by (auto simp: link_step_def connect_times_out_def heard_loss_failed split: option.splits)
       (simp_all add: heard_loss_def)
next
  case RetryTimer
  with assms show ?thesis
    by (auto simp: link_step_def retry_fires_def heard_loss_open split: option.splits)
       (simp_all add: heard_loss_def)
next
  case Disconnect
  then show ?thesis by (simp add: link_step_def disconnectRobot_def)
qed (use assms in \<open>auto simp: link_step_def sendRobot_def saveRecordOnRobot_def settle_save_def
       on_socket_def set_ready_def silence_fires_def save_times_out_def heard_loss_def Let_def
       tell_state_def split: option.splits\<close>)

text \<open>
  A module with a session of its own (a driving run, a launcher session) that hears what the link
  tells. \<open>hear\<close> may send frames but leaves the phase alone, starts no session, and ends the one
  there is when the link is no longer open.
\<close>

locale link_client =
  fixes lnk :: "'p \<Rightarrow> link"
    and with_link :: "link \<Rightarrow> 'p \<Rightarrow> 'p"
    and busy :: "'p \<Rightarrow> bool"
    and hear :: "real \<Rightarrow> emission \<Rightarrow> 'p \<Rightarrow> 'p"
  assumes lnk_with: "lnk (with_link l p) = l"
    and busy_with: "busy (with_link l p) = busy p"
    and hear_phase: "lk_phase (lnk (hear now em p)) = lk_phase (lnk p)"
    and hear_inv: "link_inv (lnk p) \<Longrightarrow> link_inv (lnk (hear now em p))"
    and hear_idle: "\<not> busy p \<Longrightarrow> \<not> busy (hear now em p)"
    and hear_lost: "ph \<noteq> Open \<Longrightarrow> \<not> busy (hear now (EmitState ph) p)"
begin

lemma hear_all_link:
  "link_inv (lnk p) \<Longrightarrow> link_inv (lnk (fold (hear now) ems p))
     \<and> lk_phase (lnk (fold (hear now) ems p)) = lk_phase (lnk p)"
  by (induction ems arbitrary: p) (simp_all add: hear_inv hear_phase)

lemma hear_all_idle: "\<not> busy p \<Longrightarrow> \<not> busy (fold (hear now) ems p)"
  by (induction ems arbitrary: p) (simp_all add: hear_idle)

lemma hear_all_lost: "EmitState ph \<in> set ems \<Longrightarrow> ph \<noteq> Open \<Longrightarrow> \<not> busy (fold (hear now) ems p)"
  by (induction ems arbitrary: p) (auto simp: hear_lost hear_all_idle)

lemma client_step:
  assumes "link_inv (lnk p)" and "busy p \<Longrightarrow> lk_phase (lnk p) = Open"
  shows "link_inv (lnk (fold (hear now) (lk_emitted (link_step en e (lnk p))) (with_link (link_step en e (lnk p)) p)))
    \<and> (busy (fold (hear now) (lk_emitted (link_step en e (lnk p))) (with_link (link_step en e (lnk p)) p))
       \<longrightarrow> lk_phase (lnk (fold (hear now) (lk_emitted (link_step en e (lnk p)))
                        (with_link (link_step en e (lnk p)) p))) = Open)"
proof -
  define l where "l = link_step en e (lnk p)"
  define q where "q = fold (hear now) (lk_emitted l) (with_link l p)"
  have "link_inv (lnk (with_link l p))"
    using assms(1) by (simp add: lnk_with l_def link_inv_step)
  then have q: "link_inv (lnk q)" "lk_phase (lnk q) = lk_phase l"
    using hear_all_link by (auto simp: q_def lnk_with)
  have "lk_phase l = Open" if "busy q"
  proof -
    have "busy p" using that by (metis busy_with hear_all_idle q_def)
    with assms(2) have "heard_loss l" by (simp add: l_def heard_loss_step)
    with that show ?thesis
      using hear_all_lost [of _ "lk_emitted l" now "with_link l p"]
      by (auto simp: heard_loss_def q_def list_ex_iff)
  qed
  with q show ?thesis by (simp add: q_def l_def)
qed

end

section \<open>Properties\<close>

text \<open>
  C8: Whatever the learner, the browser and the bridge do, in whatever order, the link stays
  consistent: idle means no socket, no timer and no intention to connect; connecting means exactly
  one attempt under its own time limit; open means a bridge that said hello in protocol 1 with the
  failures forgotten; failed means that a retry is armed.
\<close>

theorem link_always_consistent: "link_inv (fold (link_step en) es init_link)"
  by (rule link_inv_reachable)

text \<open>
  Every \<open>saveRecordOnRobot\<close> promise is settled exactly once: the promises settled so far
  together with the saves still waiting are all the saves ever asked for, each once. A late answer
  to a save that timed out is never taken for the next one's.
\<close>

theorem every_save_settled_once:
  "let l = fold (link_step en) es init_link in
   mset (map fst (lk_answers l)) + mset (save_ids (lk_saves l)) = mset [0..<lk_next_save l]
   \<and> distinct (map fst (lk_answers l))"
proof -
  define l where "l = fold (link_step en) es init_link"
  have eq: "mset (map fst (lk_answers l)) + mset (save_ids (lk_saves l)) = mset [0..<lk_next_save l]"
    using link_inv_reachable [of en es] by (simp add: link_inv_def save_inv_def l_def)
  then have "mset (map fst (lk_answers l) @ save_ids (lk_saves l)) = mset [0..<lk_next_save l]"
    by simp
  then have "distinct (map fst (lk_answers l) @ save_ids (lk_saves l))"
    by (metis distinct_upt mset_eq_imp_distinct_iff)
  with eq show ?thesis by (simp add: l_def [symmetric])
qed

text \<open>
  C35: Once the learner disconnects, nothing but a new request to connect can open a socket or
  send a frame: timers that were running and events of the old socket do nothing.
\<close>

theorem disconnect_is_final:
  "let l = disconnectRobot (fold (link_step en) es init_link);
       l' = fold (link_step en) (filter (\<lambda>e. \<not> asks_to_connect e) later) l
   in lk_phase l' = Idle \<and> lk_socket l' = None \<and> lk_out l' = lk_out l"
proof -
  define l where "l = disconnectRobot (fold (link_step en) es init_link)"
  have "link_dormant (lk_out l) l"
    using link_inv_disconnect [OF link_inv_reachable [of en es]]
    by (simp add: l_def link_dormant_def disconnectRobot_def link_defs)
  then have "link_dormant (lk_out l) (fold (link_step en) (filter (\<lambda>e. \<not> asks_to_connect e) later) l)"
    by (rule link_sleep.run_dormant) (simp add: list_all_iff)
  then show ?thesis
    by (auto simp: link_dormant_def link_inv_def phase_inv_def l_def [symmetric])
qed

text \<open>
  A step of the link sends at most one frame, and only over an open connection to a bridge
  that announced protocol 1.
\<close>

theorem frames_only_on_open_link:
  "let l = fold (link_step en) es init_link; l' = link_step en e l in
   lk_out l' = lk_out l \<or>
   (connection_open l \<and> map_option he_protocol (lk_hello l) = Some PROTOCOL
    \<and> (\<exists>f. lk_out l' = lk_out l @ [f]))"
proof -
  define l where "l = fold (link_step en) es init_link"
  have "map_option he_protocol (lk_hello l) = Some PROTOCOL" if "connection_open l"
    using that link_inv_reachable [of en es]
    by (simp add: link_inv_def phase_inv_def connection_open_def l_def split: phase.splits)
  with link_out_step [of en e l] show ?thesis by (auto simp: l_def [symmetric] Let_def)
qed

text \<open>
  An address the page accepts is a WebSocket address with a host and a port, and never Robot
  Manager's own port, which is the address learners paste by mistake; without a port it is the
  bridge's.
\<close>

theorem normalizeRobotUrl_shape:
  "case normalizeRobotUrl en addr of
     Inl _ \<Rightarrow> True
   | Inr url \<Rightarrow>
       (\<exists>scheme \<in> {''ws:'', ''wss:''}. \<exists>host port. url = scheme @ ''//'' @ host @ '':'' @ port
          \<and> host \<noteq> [] \<and> port \<noteq> [] \<and> port \<noteq> MANAGER_PORT)"
proof (cases "normalizeRobotUrl en addr")
  case (Inl e)
  then show ?thesis by simp
next
  case (Inr url)
  then obtain u scheme where u: "parseAddress en (en_normalize en addr) = Some u"
      and s: "SCHEMES (up_protocol u) = Some scheme"
      and host: "up_hostname u \<noteq> []" and port: "up_port u \<noteq> MANAGER_PORT"
      and url: "url = scheme @ ''//'' @ up_hostname u @ '':''
                  @ (if up_port u = [] then DEFAULT_PORT else up_port u)"
    by (auto simp: normalizeRobotUrl_def Let_def simp del: SCHEMES.simps
        split: if_splits option.splits)
  have "scheme \<in> {''ws:'', ''wss:''}" using s by (auto split: if_splits)
  moreover have "(if up_port u = [] then DEFAULT_PORT else up_port u) \<noteq> []"
      "(if up_port u = [] then DEFAULT_PORT else up_port u) \<noteq> MANAGER_PORT"
    using port by (simp_all add: DEFAULT_PORT_def MANAGER_PORT_def)
  ultimately have "\<exists>scheme \<in> {''ws:'', ''wss:''}. \<exists>host port. url = scheme @ ''//'' @ host @ '':'' @ port
      \<and> host \<noteq> [] \<and> port \<noteq> [] \<and> port \<noteq> MANAGER_PORT"
    using url host by blast
  then show ?thesis using Inr by simp
qed

end
