(* ===== verification/Js_Math.thy ===== *)
theory Js_Math
  imports Lab_Prelude
begin

text \<open>
  \<open>Math.atan2\<close>, \<open>Math.hypot\<close> and the angle wrapping \<open>Math.atan2(Math.sin(a), Math.cos(a))\<close> that
  the driving, capture, state-panel and planning modules each define, with the facts their proofs
  use: the wrapped angle is the same direction, lies in (-pi, pi], and an angle already there is
  unchanged.
\<close>

definition atan2 :: "real \<Rightarrow> real \<Rightarrow> real" where
  "atan2 y x =
     (if x > 0 then arctan (y / x)
      else if x < 0 \<and> y \<ge> 0 then arctan (y / x) + pi
      else if x < 0 then arctan (y / x) - pi
      else if y > 0 then pi / 2
      else if y < 0 then - (pi / 2)
      else 0)"

definition wrap_angle :: "real \<Rightarrow> real" where
  "wrap_angle angle = atan2 (sin angle) (cos angle)"

definition hypot :: "real \<Rightarrow> real \<Rightarrow> real" where
  "hypot x y = sqrt (x * x + y * y)"

lemma hypot_nonneg [simp]: "0 \<le> hypot x y"
  by (simp add: hypot_def)

lemma hypot_zero_iff [simp]: "hypot x y = 0 \<longleftrightarrow> x = 0 \<and> y = 0"
  by (simp add: hypot_def sum_squares_eq_zero_iff)

lemma atan2_bounds: "- pi < atan2 y x \<and> atan2 y x \<le> pi"
proof -
  have lo: "- (pi / 2) < arctan (y / x)" and hi: "arctan (y / x) < pi / 2"
    using arctan [of "y / x"] by auto
  consider "x > 0" | "x < 0" "y \<ge> 0" | "x < 0" "y < 0" | "x = 0" by linarith
  then show ?thesis
  proof cases
    case 1
    with lo hi show ?thesis using pi_gt_zero by (simp add: atan2_def)
  next
    case 2
    then have "y / x \<le> 0" by (simp add: divide_nonneg_neg)
    then have le: "arctan (y / x) \<le> 0" by simp
    have "atan2 y x = arctan (y / x) + pi" using 2 by (simp add: atan2_def)
    with le lo show ?thesis using pi_gt_zero by linarith
  next
    case 3
    then have "y / x > 0" by (simp add: divide_neg_neg)
    then have gt: "arctan (y / x) > 0" by simp
    have "atan2 y x = arctan (y / x) - pi" using 3 by (simp add: atan2_def)
    with gt hi show ?thesis using pi_gt_zero by linarith
  next
    case 4
    show ?thesis
      unfolding 4 atan2_def using pi_gt_zero by (auto simp del: pi_gt_zero)
  qed
qed

lemma cos_arctan_quotient: "c\<^sup>2 + s\<^sup>2 = 1 \<Longrightarrow> c \<noteq> 0 \<Longrightarrow> cos (arctan (s / c)) = \<bar>c\<bar>"
proof -
  assume one: "c\<^sup>2 + s\<^sup>2 = 1" and c: "c \<noteq> (0 :: real)"
  have "1 + (s / c)\<^sup>2 = (c\<^sup>2 + s\<^sup>2) / c\<^sup>2"
    using c by (simp add: power_divide add_divide_distrib)
  then have "sqrt (1 + (s / c)\<^sup>2) = 1 / \<bar>c\<bar>"
    by (simp add: one real_sqrt_divide)
  then show ?thesis by (simp add: cos_arctan)
qed

lemma sin_arctan_quotient: "c\<^sup>2 + s\<^sup>2 = 1 \<Longrightarrow> c \<noteq> 0 \<Longrightarrow> sin (arctan (s / c)) = s / c * \<bar>c\<bar>"
proof -
  have "sin (arctan t) = t * cos (arctan t)" for t :: real
    by (simp add: cos_arctan sin_arctan)
  then show "c\<^sup>2 + s\<^sup>2 = 1 \<Longrightarrow> c \<noteq> 0 \<Longrightarrow> sin (arctan (s / c)) = s / c * \<bar>c\<bar>"
    using cos_arctan_quotient [of c s] by metis
qed

lemma atan2_unit:
  assumes "c\<^sup>2 + s\<^sup>2 = 1"
  shows "cos (atan2 s c) = c \<and> sin (atan2 s c) = s"
proof -
  note quot = cos_arctan_quotient [OF assms] sin_arctan_quotient [OF assms]
  consider "c > 0" | "c < 0" "s \<ge> 0" | "c < 0" "s < 0" | "c = 0" by linarith
  then show ?thesis
  proof cases
    case 1
    then show ?thesis using quot by (simp add: atan2_def)
  next
    case 2
    then show ?thesis using quot by (simp add: atan2_def)
  next
    case 3
    then show ?thesis using quot by (simp add: atan2_def)
  next
    case 4
    with assms have "s = 1 \<or> s = - 1" by (simp add: power2_eq_1_iff)
    with 4 show ?thesis by (auto simp: atan2_def)
  qed
qed

lemma cos_wrap_angle [simp]: "cos (wrap_angle a) = cos a"
  by (simp add: wrap_angle_def atan2_unit)

lemma sin_wrap_angle [simp]: "sin (wrap_angle a) = sin a"
  by (simp add: wrap_angle_def atan2_unit)

lemma wrap_angle_bounds: "- pi < wrap_angle a \<and> wrap_angle a \<le> pi"
  by (simp add: wrap_angle_def atan2_bounds)

lemma wrap_angle_id:
  assumes "- pi < a" and "a \<le> pi"
  shows "wrap_angle a = a"
proof -
  have "sin (wrap_angle a) = sin a \<and> cos (wrap_angle a) = cos a" by simp
  then obtain n :: int where n: "wrap_angle a = a + 2 * pi * of_int n"
    unfolding sin_cos_eq_iff by blast
  have "\<bar>wrap_angle a - a\<bar> < 2 * pi" using assms wrap_angle_bounds [of a] by linarith
  then have "2 * pi * \<bar>of_int n\<bar> < 2 * pi" by (simp add: n abs_mult)
  then have "n = 0" by simp
  with n show ?thesis by simp
qed

lemma wrap_angle_idem [simp]: "wrap_angle (wrap_angle a) = wrap_angle a"
  using wrap_angle_bounds [of a] by (simp add: wrap_angle_id)

lemma wrap_angle_zero [simp]: "wrap_angle 0 = 0"
  using pi_gt_zero by (simp add: wrap_angle_id)

lemma atan2_scale: "0 < r \<Longrightarrow> atan2 (r * y) (r * x) = atan2 y x"
  by (auto simp: atan2_def zero_less_mult_iff zero_le_mult_iff mult_less_0_iff)

lemma hypot_sq [simp]: "hypot x y * hypot x y = x * x + y * y"
  by (simp add: hypot_def)

lemma hypot_commute: "hypot x y = hypot y x"
  by (simp add: hypot_def add.commute)

lemma polar: "hypot x y * cos (atan2 y x) = x" "hypot x y * sin (atan2 y x) = y"
proof -
  have "hypot x y * cos (atan2 y x) = x \<and> hypot x y * sin (atan2 y x) = y"
  proof (cases "hypot x y = 0")
    case True
    then show ?thesis by simp
  next
    case False
    let ?r = "hypot x y"
    have r: "0 < ?r" using False hypot_nonneg [of x y] by linarith
    have "(x / ?r)\<^sup>2 + (y / ?r)\<^sup>2 = (x * x + y * y) / (?r * ?r)"
      by (simp only: power2_eq_square times_divide_times_eq add_divide_distrib)
    also have "\<dots> = 1"
    proof -
      have "?r * ?r \<noteq> 0" using r by (metis less_irrefl mult_eq_0_iff)
      then show ?thesis by (metis divide_self hypot_sq)
    qed
    finally have "cos (atan2 (y / ?r) (x / ?r)) = x / ?r \<and> sin (atan2 (y / ?r) (x / ?r)) = y / ?r"
      by (rule atan2_unit)
    moreover have "atan2 (y / ?r) (x / ?r) = atan2 y x"
    proof -
      have "?r * (y / ?r) = y" "?r * (x / ?r) = x"
        using r by (metis less_irrefl nonzero_mult_div_cancel_left times_divide_eq_right)+
      with atan2_scale [OF r, of "y / ?r" "x / ?r"] show ?thesis by (simp only:)
    qed
    ultimately show ?thesis using r by (simp add: field_simps)
  qed
  then show "hypot x y * cos (atan2 y x) = x" "hypot x y * sin (atan2 y x) = y" by blast+
qed

end
