(* ===== verification/Drive_Core.thy ===== *)
theory Drive_Core
  imports Messages Js_Math
begin

text \<open>
  \<open>lab/js/live/drive-core.js\<close>: the decisions behind driving the real robot from a lesson. The
  press latch and the command watch of the start button, the list of reasons why the page cannot
  drive (\<open>driveReadiness\<close>), the clamping of commands to the bridge's limits, open-loop programs
  and the closed loop on odometry (\<open>createOdomGoal\<close>).
\<close>

section \<open>The press latch\<close>

record press_latch =
  pl_held :: bool

definition press :: "press_latch \<Rightarrow> bool \<times> press_latch" where
  "press l = (if pl_held l then (False, l) else (True, l\<lparr>pl_held := True\<rparr>))"

definition release :: "press_latch \<Rightarrow> press_latch" where
  "release l = l\<lparr>pl_held := False\<rparr>"

section \<open>Watching for the wheels to be asked to move\<close>

record command_watch =
  cw_first_requested_at :: "seconds option"
  cw_seen :: bool

definition new_watch :: command_watch where
  "new_watch = \<lparr>cw_first_requested_at = None, cw_seen = False\<rparr>"

definition watch_request :: "real \<Rightarrow> real \<Rightarrow> seconds \<Rightarrow> command_watch \<Rightarrow> command_watch" where
  "watch_request lin ang now w =
     (if cw_first_requested_at w = None \<and> (lin \<noteq> 0 \<or> ang \<noteq> 0)
      then w\<lparr>cw_first_requested_at := Some now\<rparr> else w)"

definition turning_target :: "wheel_msg option \<Rightarrow> bool" where
  "turning_target wheel =
     (case wheel of None \<Rightarrow> False
      | Some m \<Rightarrow> (case wm_target_rpm m of None \<Rightarrow> False | Some rpm \<Rightarrow> rpm \<noteq> 0))"

definition watch_observe :: "drive_msg \<Rightarrow> seconds \<Rightarrow> command_watch \<Rightarrow> command_watch" where
  "watch_observe drive now w =
     (case cw_first_requested_at w of
        None \<Rightarrow> w
      | Some first \<Rightarrow>
          if now \<le> first then w
          else if turning_target (dm_left drive) \<or> turning_target (dm_right drive)
               then w\<lparr>cw_seen := True\<rparr> else w)"

definition watch_expired :: "seconds \<Rightarrow> command_watch \<Rightarrow> bool" where
  "watch_expired now w =
     (case cw_first_requested_at w of
        None \<Rightarrow> False
      | Some first \<Rightarrow> \<not> cw_seen w \<and> now - first > 2)"

section \<open>Why the page cannot drive\<close>

definition DRIVE_BLOCKERS :: "string list" where
  "DRIVE_BLOCKERS =
     [''no_link'', ''old_bridge'', ''not_allowed'', ''estop_unknown'', ''emergency_stop'',
      ''no_drive_node'', ''other_publisher'', ''no_motion_permission'', ''busy'',
      ''running_here'', ''missing_streams'', ''unconfirmed'']"

interpretation drive_table: blocker_order DRIVE_BLOCKERS
  by unfold_locales (simp add: DRIVE_BLOCKERS_def)

datatype owner = Me | Other

definition ownerOf :: "drive_state option \<Rightarrow> string option \<Rightarrow> owner option" where
  "ownerOf state session =
     (case state of
        None \<Rightarrow> None
      | Some s \<Rightarrow>
          if \<not> ds_active s \<or> ds_owner s = None then None
          else if ds_owner s = session then Some Me else Some Other)"

record drive_readiness =
  dr_ready :: bool
  dr_blockers :: "blocker list"
  dr_owner :: "owner option"
  dr_active :: bool
  dr_limits :: "speed_limits option"
  dr_last_stop :: "last_stop option"
  dr_allowed :: bool

text \<open>\<open>online\<close> is \<open>link?.phase === 'open'\<close>, \<open>session\<close> is \<open>link?.session\<close>.\<close>

definition known_drive_blockers :: "drive_state option \<Rightarrow> blocker list" where
  "known_drive_blockers state =
     (case state of None \<Rightarrow> []
      | Some s \<Rightarrow> map (\<lambda>b. b\<lparr>bk_parts := None\<rparr>)
                    (filter (\<lambda>b. bk_code b \<in> set DRIVE_BLOCKERS) (ds_blockers s)))"

definition drive_blocker_list ::
  "bool \<Rightarrow> string option \<Rightarrow> drive_state option \<Rightarrow> bool \<Rightarrow> bool \<Rightarrow> blocker list" where
  "drive_blocker_list online session driveState confirmed runningHere =
     (let state = (if online then driveState else None) in
        (if \<not> online then [plain_blocker ''no_link'']
         else if driveState = None then [plain_blocker ''old_bridge''] else [])
        @ known_drive_blockers state
        @ (if ownerOf state session = Some Other then [plain_blocker ''busy''] else [])
        @ (if runningHere then [plain_blocker ''running_here''] else [])
        @ (if \<not> confirmed then [plain_blocker ''unconfirmed''] else []))"

definition driveReadiness ::
  "bool \<Rightarrow> string option \<Rightarrow> drive_state option \<Rightarrow> bool \<Rightarrow> bool \<Rightarrow> drive_readiness" where
  "driveReadiness online session driveState confirmed runningHere =
     (let blockers = drive_blocker_list online session driveState confirmed runningHere;
          state = (if online then driveState else None)
      in \<lparr>dr_ready = (length blockers = 0),
          dr_blockers = sort_blockers DRIVE_BLOCKERS blockers,
          dr_owner = ownerOf state session,
          dr_active = (case state of None \<Rightarrow> False | Some s \<Rightarrow> ds_active s),
          dr_limits = Option.bind state ds_limits,
          dr_last_stop = Option.bind state ds_last_stop,
          dr_allowed = (case state of None \<Rightarrow> False | Some s \<Rightarrow> ds_allowed s)\<rparr>)"

section \<open>Commands and open-loop programs\<close>

record command =
  cm_linear :: real
  cm_angular :: real

definition stopped :: command where
  "stopped = \<lparr>cm_linear = 0, cm_angular = 0\<rparr>"

definition clampTo :: "real \<Rightarrow> real \<Rightarrow> real" where
  "clampTo value limit = max (- limit) (min limit value)"

definition limitCommand :: "command \<Rightarrow> speed_limits option \<Rightarrow> command" where
  "limitCommand c limits =
     (case limits of
        None \<Rightarrow> c
      | Some l \<Rightarrow> \<lparr>cm_linear = clampTo (cm_linear c) (sl_linear l),
                   cm_angular = clampTo (cm_angular c) (sl_angular l)\<rparr>)"

record prog_step =
  ps_seconds :: seconds
  ps_linear :: real
  ps_angular :: real

definition stepProgram :: "real \<Rightarrow> seconds \<Rightarrow> seconds \<Rightarrow> seconds \<Rightarrow> prog_step list" where
  "stepProgram speed lead hold tail =
     [\<lparr>ps_seconds = lead, ps_linear = 0, ps_angular = 0\<rparr>,
      \<lparr>ps_seconds = hold, ps_linear = speed, ps_angular = 0\<rparr>,
      \<lparr>ps_seconds = tail, ps_linear = 0, ps_angular = 0\<rparr>]"

definition staircaseProgram :: "real list \<Rightarrow> seconds \<Rightarrow> seconds \<Rightarrow> seconds \<Rightarrow> prog_step list" where
  "staircaseProgram speeds lead hold pause =
     \<lparr>ps_seconds = lead, ps_linear = 0, ps_angular = 0\<rparr> #
     concat (map (\<lambda>speed. [\<lparr>ps_seconds = hold, ps_linear = speed, ps_angular = 0\<rparr>,
                           \<lparr>ps_seconds = pause, ps_linear = 0, ps_angular = 0\<rparr>]) speeds)"

definition programSeconds :: "prog_step list \<Rightarrow> seconds" where
  "programSeconds steps = foldl (\<lambda>sum step. sum + ps_seconds step) 0 steps"

fun program_from :: "seconds \<Rightarrow> prog_step list \<Rightarrow> seconds \<Rightarrow> command option" where
  "program_from start [] elapsed = None"
| "program_from start (s # steps) elapsed =
     (if elapsed < start + ps_seconds s
      then Some \<lparr>cm_linear = ps_linear s, cm_angular = ps_angular s\<rparr>
      else program_from (start + ps_seconds s) steps elapsed)"

definition programCommand :: "prog_step list \<Rightarrow> seconds \<Rightarrow> command option" where
  "programCommand steps elapsed = program_from 0 steps elapsed"

section \<open>The closed loop on odometry\<close>

definition MIN_LINEAR :: real where "MIN_LINEAR = 3 / 100"
definition MIN_ANGULAR :: real where "MIN_ANGULAR = 15 / 100"
definition SLOWDOWN :: real where "SLOWDOWN = 15 / 10"
definition SETTLE_SECONDS :: seconds where "SETTLE_SECONDS = 1"

datatype goal_kind = Distance | Turn

fun GOAL_TOLERANCE :: "goal_kind \<Rightarrow> real" where
  "GOAL_TOLERANCE Distance = 5 / 1000"
| "GOAL_TOLERANCE Turn = 1 * pi / 180"

record goal =
  go_kind :: goal_kind
  go_target :: real
  go_speed :: real

record goal_state =
  gs_start :: "(real \<times> real \<times> real) option"
  gs_previous_theta :: "real option"
  gs_turned :: real
  gs_reached_at :: "seconds option"
  gs_progress :: real
  gs_reached :: bool

definition createOdomGoal :: goal_state where
  "createOdomGoal =
     \<lparr>gs_start = None, gs_previous_theta = None, gs_turned = 0, gs_reached_at = None,
      gs_progress = 0, gs_reached = False\<rparr>"

definition alongStart :: "real \<times> real \<times> real \<Rightarrow> real \<Rightarrow> real \<Rightarrow> real" where
  "alongStart start x y =
     (case start of (sx, sy, stheta) \<Rightarrow> (x - sx) * cos stheta + (y - sy) * sin stheta)"

text \<open>What one usable pose does to the measured progress and to \<open>reached\<close>.\<close>

definition measure_pose :: "goal \<Rightarrow> real \<Rightarrow> real \<Rightarrow> real \<Rightarrow> goal_state \<Rightarrow> goal_state" where
  "measure_pose go x y theta g =
     (let start = coalesce (gs_start g) (x, y, theta);
          turned = (case gs_previous_theta g of
                      None \<Rightarrow> gs_turned g
                    | Some p \<Rightarrow> gs_turned g + wrap_angle (theta - p));
          progress = (case go_kind go of Turn \<Rightarrow> turned | Distance \<Rightarrow> alongStart start x y);
          left = go_target go - progress;
          close = (\<bar>left\<bar> \<le> GOAL_TOLERANCE (go_kind go) + 1 / 10 ^ 12);
          past = (sgn left \<noteq> sgn (go_target go))
      in g\<lparr>gs_start := Some start, gs_previous_theta := Some theta, gs_turned := turned,
           gs_progress := progress, gs_reached := gs_reached g \<or> close \<or> past\<rparr>)"

definition approach_command :: "goal \<Rightarrow> real \<Rightarrow> command" where
  "approach_command go left =
     (let minimum = (case go_kind go of Turn \<Rightarrow> MIN_ANGULAR | Distance \<Rightarrow> MIN_LINEAR);
          magnitude = min (go_speed go) (max minimum (SLOWDOWN * \<bar>left\<bar>));
          value = sgn left * magnitude
      in case go_kind go of
           Turn \<Rightarrow> \<lparr>cm_linear = 0, cm_angular = value\<rparr>
         | Distance \<Rightarrow> \<lparr>cm_linear = value, cm_angular = 0\<rparr>)"

definition goal_update ::
  "goal \<Rightarrow> odom_msg option \<Rightarrow> seconds \<Rightarrow> goal_state \<Rightarrow> command option \<times> goal_state" where
  "goal_update go odom elapsed g =
     (case odom of
        None \<Rightarrow> (Some stopped, g)
      | Some od \<Rightarrow>
          (case (od_x od, od_y od, od_theta od) of
             (Some x, Some y, Some theta) \<Rightarrow>
               (let g' = measure_pose go x y theta g in
                if gs_reached g' then
                  (let t0 = coalesce (gs_reached_at g') elapsed;
                       g'' = g'\<lparr>gs_reached_at := Some t0\<rparr>
                   in (if elapsed - t0 \<ge> SETTLE_SECONDS then None else Some stopped, g''))
                else (Some (approach_command go (go_target go - gs_progress g')), g'))
           | _ \<Rightarrow> (Some stopped, g)))"

definition goal_step :: "goal \<Rightarrow> odom_msg option \<times> seconds \<Rightarrow> goal_state \<Rightarrow> goal_state" where
  "goal_step go e g = snd (goal_update go (fst e) (snd e) g)"

section \<open>Lemmas\<close>

lemma ownerOf_Some_Other:
  "ownerOf (Some s) session = Some Other \<longleftrightarrow>
     ds_active s \<and> ds_owner s \<noteq> None \<and> ds_owner s \<noteq> session"
  by (auto simp: ownerOf_def)

lemma known_drive_blockers_empty:
  "known_drive_blockers (Some s) = [] \<longleftrightarrow>
     list_all (\<lambda>b. bk_code b \<notin> set DRIVE_BLOCKERS) (ds_blockers s)"
  by (simp add: known_drive_blockers_def filter_empty_conv list_all_iff)

lemma drive_blocker_codes:
  "list_all (\<lambda>b. bk_code b \<in> set DRIVE_BLOCKERS)
     (drive_blocker_list online session st confirmed here)"
  by (auto simp: drive_blocker_list_def known_drive_blockers_def Let_def list_all_iff
        DRIVE_BLOCKERS_def split: option.splits)

lemma clampTo_bounds: "0 \<le> limit \<Longrightarrow> \<bar>clampTo v limit\<bar> \<le> limit"
  by (auto simp: clampTo_def)

lemma clampTo_id: "\<bar>v\<bar> \<le> limit \<Longrightarrow> clampTo v limit = v"
  by (auto simp: clampTo_def)

lemma clampTo_idem [simp]: "clampTo (clampTo v limit) limit = clampTo v limit"
  by (auto simp: clampTo_def max_def min_def)

lemma clampTo_sign: "0 \<le> limit \<Longrightarrow> 0 \<le> v * clampTo v limit"
  by (auto simp: clampTo_def max_def min_def zero_le_mult_iff)

lemma clampTo_zero [simp]: "0 \<le> limit \<Longrightarrow> clampTo 0 limit = 0"
  by (simp add: clampTo_def)

lemma programSeconds_simps:
  "programSeconds [] = 0"
  "programSeconds (s # steps) = ps_seconds s + programSeconds steps"
proof -
  have "foldl (\<lambda>sum step. sum + ps_seconds step) a steps
          = a + foldl (\<lambda>sum step. sum + ps_seconds step) 0 steps" for a
    by (induction steps rule: rev_induct) simp_all
  from this [of "ps_seconds s"]
  show "programSeconds [] = 0" "programSeconds (s # steps) = ps_seconds s + programSeconds steps"
    by (simp_all add: programSeconds_def)
qed

lemma programSeconds_append: "programSeconds (xs @ ys) = programSeconds xs + programSeconds ys"
  by (induction xs) (simp_all add: programSeconds_simps)

lemma programSeconds_nonneg: "list_all (\<lambda>s. 0 \<le> ps_seconds s) steps \<Longrightarrow> 0 \<le> programSeconds steps"
  by (induction steps) (simp_all add: programSeconds_simps)

lemma program_from_None_iff:
  "list_all (\<lambda>s. 0 \<le> ps_seconds s) steps \<Longrightarrow> start \<le> elapsed \<Longrightarrow>
   program_from start steps elapsed = None \<longleftrightarrow> start + programSeconds steps \<le> elapsed"
proof (induction steps arbitrary: start)
  case Nil
  then show ?case by (simp add: programSeconds_simps)
next
  case (Cons s steps)
  then have nonneg: "0 \<le> programSeconds steps" by (simp add: programSeconds_nonneg)
  show ?case
  proof (cases "elapsed < start + ps_seconds s")
    case True
    with nonneg show ?thesis by (simp add: programSeconds_simps)
  next
    case False
    with Cons show ?thesis by (simp add: programSeconds_simps add.assoc)
  qed
qed

lemma staircase_seconds:
  "programSeconds (staircaseProgram speeds lead hold pause)
     = lead + real (length speeds) * (hold + pause)"
  by (induction speeds)
     (simp_all add: staircaseProgram_def programSeconds_simps programSeconds_append algebra_simps)

lemma approach_command_bound:
  "\<bar>cm_linear (approach_command go left)\<bar> \<le> \<bar>go_speed go\<bar> \<and>
   \<bar>cm_angular (approach_command go left)\<bar> \<le> \<bar>go_speed go\<bar>"
proof -
  define m where "m = min (go_speed go)
    (max (case go_kind go of Turn \<Rightarrow> MIN_ANGULAR | Distance \<Rightarrow> MIN_LINEAR) (SLOWDOWN * \<bar>left\<bar>))"
  have "\<bar>m\<bar> \<le> \<bar>go_speed go\<bar>"
    unfolding m_def by (cases "go_kind go") (auto simp: MIN_ANGULAR_def MIN_LINEAR_def)
  moreover have "\<bar>sgn left * m\<bar> \<le> \<bar>m\<bar>"
    by (auto simp: abs_mult sgn_if)
  ultimately have "\<bar>sgn left * m\<bar> \<le> \<bar>go_speed go\<bar>" by linarith
  then show ?thesis
    by (cases "go_kind go") (simp_all add: approach_command_def m_def Let_def)
qed

lemma stopped_simps [simp]: "cm_linear stopped = 0" "cm_angular stopped = 0"
  by (simp_all add: stopped_def)

lemma goal_step_keeps_reached: "gs_reached g \<Longrightarrow> gs_reached (goal_step go e g)"
  by (cases e)
     (auto simp: goal_step_def goal_update_def measure_pose_def Let_def split: option.splits)

lemma goal_update_reached:
  "gs_reached g \<Longrightarrow> fst (goal_update go odom t g) \<in> {None, Some stopped}"
  by (auto simp: goal_update_def measure_pose_def Let_def split: option.splits)

interpretation odom_goal: dormant_machine "goal_step go" gs_reached "\<lambda>_. False" for go
  by unfold_locales (rule goal_step_keeps_reached)

section \<open>Properties\<close>

text \<open>
  C2: the start button is enabled exactly when the link is open, the bridge sent a
  \<open>drive_state\<close>, none of the blockers it named is one the page knows, no other page drives, this
  page runs nothing and the learner ticked the safety check. In particular without a
  \<open>drive_state\<close> the page fails closed.
\<close>

theorem drive_ready_iff:
  "dr_ready (driveReadiness online session st confirmed here) \<longleftrightarrow>
     online \<and> confirmed \<and> \<not> here \<and> ownerOf st session \<noteq> Some Other \<and>
     (case st of None \<Rightarrow> False
      | Some s \<Rightarrow> list_all (\<lambda>b. bk_code b \<notin> set DRIVE_BLOCKERS) (ds_blockers s))"
  by (auto simp: driveReadiness_def drive_blocker_list_def Let_def known_drive_blockers_empty
        split: option.splits)

text \<open>
  the reasons are shown in the order of \<open>DRIVE_BLOCKERS\<close>, none is lost or invented by the
  sort, and they are empty exactly when the page is ready.
\<close>

theorem drive_blockers_in_order:
  "in_table_order DRIVE_BLOCKERS (dr_blockers (driveReadiness online session st confirmed here)) \<and>
   mset (dr_blockers (driveReadiness online session st confirmed here))
     = mset (drive_blocker_list online session st confirmed here) \<and>
   dr_ready (driveReadiness online session st confirmed here)
     = (dr_blockers (driveReadiness online session st confirmed here) = [])"
  by (simp add: driveReadiness_def Let_def sort_blockers_in_order drive_blocker_codes)
     (simp add: sort_blockers_def)

text \<open>
  an open-loop program gives a command exactly while it lasts: from its start until the sum of
  its steps' seconds, for every program whose steps do not have negative lengths.
\<close>

theorem programCommand_ends:
  assumes "list_all (\<lambda>s. 0 \<le> ps_seconds s) steps" and "0 \<le> elapsed"
  shows "programCommand steps elapsed = None \<longleftrightarrow> programSeconds steps \<le> elapsed"
  using program_from_None_iff [OF assms] by (simp add: programCommand_def)

theorem programCommand_ends_witness:
  "programCommand (stepProgram (1 / 5) 1 4 2) 7 = None \<and>
   programCommand (stepProgram (1 / 5) 1 4 2) 6 \<noteq> None"
proof -
  have ok: "list_all (\<lambda>s. 0 \<le> ps_seconds s) (stepProgram (1 / 5) 1 4 2)"
    by (simp add: stepProgram_def)
  have total: "programSeconds (stepProgram (1 / 5) 1 4 2) = 7"
    by (simp add: stepProgram_def programSeconds_def)
  show ?thesis
    using programCommand_ends [OF ok, of 7] programCommand_ends [OF ok, of 6] by (simp add: total)
qed

text \<open>
  the closed loop on odometry never asks for more than the speed the lesson gave it, gives up
  control only after the goal was reached and the robot was commanded to stand still for
  \<open>SETTLE_SECONDS\<close>, and holds still whenever the pose is not usable.
\<close>

theorem odom_goal_safe:
  "(case goal_update go odom elapsed g of
      (None, g') \<Rightarrow> gs_reached g' \<and>
        (case gs_reached_at g' of None \<Rightarrow> False | Some t0 \<Rightarrow> SETTLE_SECONDS \<le> elapsed - t0)
    | (Some c, g') \<Rightarrow>
        \<bar>cm_linear c\<bar> \<le> \<bar>go_speed go\<bar> \<and> \<bar>cm_angular c\<bar> \<le> \<bar>go_speed go\<bar>) \<and>
   goal_update go None elapsed g = (Some stopped, g)"
  using approach_command_bound
  by (auto simp: goal_update_def Let_def split: option.splits prod.splits)

text \<open>
  a reached goal is never left again: after any further poses the goal is still reached and
  the next command is a stop or the end of the run, so the robot does not back up to the goal.
\<close>

theorem odom_goal_latches:
  assumes "gs_reached g"
  shows "gs_reached (fold (goal_step go) es g) \<and>
    fst (goal_update go odom t (fold (goal_step go) es g)) \<in> {None, Some stopped}"
  using odom_goal.run_dormant [OF assms, of es go] goal_update_reached
  by (simp add: list_all_iff)

definition goal_example :: goal where
  "goal_example = \<lparr>go_kind = Distance, go_target = 1, go_speed = 1 / 5\<rparr>"

definition pose_example :: "real \<Rightarrow> odom_msg" where
  "pose_example x = \<lparr>od_stamp = 0, od_x = Some x, od_y = Some 0, od_theta = Some 0, od_v = None\<rparr>"

theorem odom_goal_latches_witness:
  "gs_reached (goal_step goal_example (Some (pose_example 2), 1)
     (goal_step goal_example (Some (pose_example 0), 0) createOdomGoal)) \<and>
   gs_reached (fold (goal_step goal_example) [(Some (pose_example (1 / 2)), 2)]
     (goal_step goal_example (Some (pose_example 2), 1)
       (goal_step goal_example (Some (pose_example 0), 0) createOdomGoal)))"
proof -
  have "gs_reached (goal_step goal_example (Some (pose_example 2), 1)
     (goal_step goal_example (Some (pose_example 0), 0) createOdomGoal))"
    by (simp add: goal_step_def goal_update_def measure_pose_def createOdomGoal_def Let_def
        goal_example_def pose_example_def alongStart_def)
  with odom_goal_latches [OF this] show ?thesis by blast
qed

end
