(* ===== verification/Drive_Link.thy ===== *)
theory Drive_Link
  imports Robot_Link Drive_Core
begin

text \<open>
  \<open>lab/js/live/drive-link.js\<close>: the one module that sends drive commands. The module's variables
  are the record \<open>drive_page\<close>, with the link of \<open>Robot_Link\<close> inside it: an event of the link
  is a step of \<open>link_step\<close> followed by the module's listeners on what that step emitted. The run in
  progress is \<open>drive_run\<close>; a lesson's controller is a parameter, its answer at a heartbeat comes with
  the \<open>Tick\<close> event. Clock readings are seconds and come with the events. The promises of
  \<open>runDrive\<close> are resolved into \<open>dp_results\<close>.
\<close>

section \<open>State\<close>

definition START_TIMEOUT_MS :: millis where "START_TIMEOUT_MS = 1500"
definition STARTUP_NEUTRAL_SECONDS :: seconds where "STARTUP_NEUTRAL_SECONDS = 3 / 10"

datatype finish_kind = EndedHere | StoppedByBridge | LinkLost

record run_result =
  rr_started :: bool
  rr_reason :: string
  rr_kind :: finish_kind
  rr_by :: "string option"
  rr_blockers :: "blocker list"
  rr_refused :: "string option"
  rr_message :: string
  rr_elapsed :: seconds

record drive_run =
  rn_started :: bool
  rn_accepted_at :: "seconds option"
  rn_watch :: command_watch
  rn_started_at :: seconds
  rn_seconds :: seconds

record drive_page =
  dp_link :: link
  dp_confirmed :: bool
  dp_current :: "drive_run option"
  dp_results :: "run_result list"

definition init_drive_page :: drive_page where
  "init_drive_page =
     \<lparr>dp_link = init_link, dp_confirmed = False, dp_current = None, dp_results = []\<rparr>"

datatype answer = Throws string | Ends | Commands command

definition driveModel :: "drive_page \<Rightarrow> drive_readiness" where
  "driveModel p =
     driveReadiness (lk_phase (dp_link p) = Open) (lk_session (dp_link p))
       (latest_drive_state (dp_link p)) (dp_confirmed p) (dp_current p \<noteq> None)"

definition confirmDriveSafety :: "bool \<Rightarrow> drive_page \<Rightarrow> drive_page" where
  "confirmDriveSafety value p = p\<lparr>dp_confirmed := value\<rparr>"

definition page_send :: "frame_out \<Rightarrow> drive_page \<Rightarrow> bool \<times> drive_page" where
  "page_send f p = (case sendRobot f (dp_link p) of (ok, l) \<Rightarrow> (ok, p\<lparr>dp_link := l\<rparr>))"

definition stopMine :: "drive_page \<Rightarrow> drive_page" where
  "stopMine p = snd (page_send (StopOut MineOnly) p)"

section \<open>One run\<close>

text \<open>What a \<open>finish\<close> call passes: the reason and the fields of \<open>extra\<close>.\<close>

record finish_args =
  fa_reason :: string
  fa_kind :: finish_kind
  fa_by :: "string option"
  fa_blockers :: "blocker list"
  fa_refused :: "string option"
  fa_message :: string
  fa_now :: seconds

definition plain_finish :: "string \<Rightarrow> finish_kind \<Rightarrow> seconds \<Rightarrow> finish_args" where
  "plain_finish reason kind now =
     \<lparr>fa_reason = reason, fa_kind = kind, fa_by = None, fa_blockers = [], fa_refused = None,
      fa_message = [], fa_now = now\<rparr>"

definition finish :: "finish_args \<Rightarrow> drive_page \<Rightarrow> drive_page" where
  "finish a p =
     (case dp_current p of
        None \<Rightarrow> p
      | Some run \<Rightarrow>
          (let p = p\<lparr>dp_current := None\<rparr>;
               p = (if fa_kind a \<in> {StoppedByBridge, LinkLost} then p else stopMine p)
           in p\<lparr>dp_results := dp_results p @
                [\<lparr>rr_started = rn_started run, rr_reason = fa_reason a, rr_kind = fa_kind a,
                  rr_by = fa_by a, rr_blockers = fa_blockers a, rr_refused = fa_refused a,
                  rr_message = fa_message a, rr_elapsed = fa_now a - rn_started_at run\<rparr>]\<rparr>))"

definition stopDrive :: "seconds \<Rightarrow> drive_page \<Rightarrow> drive_page" where
  "stopDrive now p = finish (plain_finish ''stopped'' EndedHere now) (snd (page_send (StopOut AnyRun) p))"

definition lost_finish :: "seconds \<Rightarrow> finish_args" where
  "lost_finish now = plain_finish ''lost'' LinkLost now"

text \<open>The robot may be moving without a confirmation: this is not a refusal.\<close>

definition check_answered :: "seconds \<Rightarrow> drive_run \<Rightarrow> drive_page \<Rightarrow> drive_page" where
  "check_answered now run p =
     (if \<not> rn_started run \<and> (now - rn_started_at run) * 1000 > START_TIMEOUT_MS
      then finish (plain_finish ''no_answer'' EndedHere now) p else p)"

definition tick_command :: "seconds \<Rightarrow> command \<Rightarrow> drive_run \<Rightarrow> drive_page \<Rightarrow> drive_page" where
  "tick_command now c run p =
     (let limited = limitCommand c (dr_limits (driveModel p));
          t0 = now - rn_started_at run;
          run = run\<lparr>rn_watch := watch_request (cm_linear limited) (cm_angular limited) t0 (rn_watch run)\<rparr>;
          p = p\<lparr>dp_current := Some run\<rparr>
      in if watch_expired t0 (rn_watch run)
         then finish ((plain_finish ''refused'' EndedHere now)\<lparr>fa_refused := Some ''drive_not_responding''\<rparr>) p
         else (case page_send (DriveOut (cm_linear limited) (cm_angular limited)) p of
                 (ok, p') \<Rightarrow>
                   if \<not> ok then finish (lost_finish now) p' else check_answered now run p'))"

definition neutral_phase :: "seconds \<Rightarrow> drive_run \<Rightarrow> bool" where
  "neutral_phase now run =
     (case rn_accepted_at run of None \<Rightarrow> True
      | Some t0 \<Rightarrow> (now - rn_started_at run) - t0 < STARTUP_NEUTRAL_SECONDS)"

definition running_seconds :: "seconds \<Rightarrow> drive_run \<Rightarrow> seconds" where
  "running_seconds now run =
     (now - rn_started_at run) - coalesce (rn_accepted_at run) 0 - STARTUP_NEUTRAL_SECONDS"

definition tick :: "seconds \<Rightarrow> (seconds \<Rightarrow> answer) \<Rightarrow> drive_page \<Rightarrow> drive_page" where
  "tick now controller p =
     (case dp_current p of
        None \<Rightarrow> p
      | Some run \<Rightarrow>
          if neutral_phase now run then
            (case page_send (DriveOut 0 0) p of
               (ok, p') \<Rightarrow>
                 if \<not> ok then finish (lost_finish now) p' else check_answered now run p')
          else if running_seconds now run > rn_seconds run
               then finish (plain_finish ''done'' EndedHere now) p
          else (case controller (running_seconds now run) of
                  Throws m \<Rightarrow> finish ((plain_finish ''failed'' EndedHere now)\<lparr>fa_message := m\<rparr>) p
                | Ends \<Rightarrow> finish (plain_finish ''done'' EndedHere now) p
                | Commands c \<Rightarrow> tick_command now c run p))"

definition refused_result :: "blocker list \<Rightarrow> run_result" where
  "refused_result blockers =
     \<lparr>rr_started = False, rr_reason = ''refused'', rr_kind = EndedHere, rr_by = None,
      rr_blockers = blockers, rr_refused = None, rr_message = [], rr_elapsed = 0\<rparr>"

definition runDrive :: "seconds \<Rightarrow> seconds \<Rightarrow> (seconds \<Rightarrow> answer) \<Rightarrow> drive_page \<Rightarrow> drive_page" where
  "runDrive now seconds controller p =
     (let readiness = driveModel p in
      if dp_current p \<noteq> None
      then p\<lparr>dp_results := dp_results p @ [refused_result [plain_blocker ''running_here'']]\<rparr>
      else if \<not> dr_ready readiness
           then p\<lparr>dp_results := dp_results p @ [refused_result (dr_blockers readiness)]\<rparr>
      else tick now controller
             (p\<lparr>dp_current := Some \<lparr>rn_started = False, rn_accepted_at = None, rn_watch = new_watch,
                  rn_started_at = now, rn_seconds = seconds\<rparr>\<rparr>))"

section \<open>Listening to the robot\<close>

definition on_drive_state :: "seconds \<Rightarrow> drive_state \<Rightarrow> drive_page \<Rightarrow> drive_page" where
  "on_drive_state now s p =
     (case dp_current p of
        None \<Rightarrow> p
      | Some run \<Rightarrow>
          (let session = lk_session (dp_link p) in
           if ds_active s \<and> ds_owner s = session
           then p\<lparr>dp_current := Some (run\<lparr>rn_started := True,
                    rn_accepted_at := Some (coalesce (rn_accepted_at run) (now - rn_started_at run))\<rparr>)\<rparr>
           else if \<not> rn_started run \<and> coalesce (ds_refused s) [] \<noteq> []
           then finish ((plain_finish ''refused'' EndedHere now)
                  \<lparr>fa_blockers := dr_blockers (driveModel p), fa_refused := ds_refused s\<rparr>) p
           else if rn_started run
           then (let stop = coalesce (ds_last_stop s) \<lparr>st_reason = ''stopped'', st_by = None\<rparr>;
                     reason = (if st_reason stop = ''stopped'' \<and> st_by stop \<noteq> session
                               then ''stopped_other'' else st_reason stop)
                 in finish ((plain_finish reason StoppedByBridge now)\<lparr>fa_by := st_by stop\<rparr>) p)
           else p))"

definition on_drive :: "seconds \<Rightarrow> drive_msg \<Rightarrow> drive_page \<Rightarrow> drive_page" where
  "on_drive now m p =
     (case dp_current p of
        None \<Rightarrow> p
      | Some run \<Rightarrow> p\<lparr>dp_current := Some (run\<lparr>rn_watch :=
                        watch_observe m (now - rn_started_at run) (rn_watch run)\<rparr>)\<rparr>)"

definition on_emission :: "seconds \<Rightarrow> emission \<Rightarrow> drive_page \<Rightarrow> drive_page" where
  "on_emission now em p =
     (case em of
        EmitState ph \<Rightarrow> if ph \<noteq> Open then finish (lost_finish now) p else p
      | EmitFrame (DriveStateFrame s) \<Rightarrow> on_drive_state now s p
      | EmitFrame (StreamFrame (DriveMsg m)) \<Rightarrow> on_drive now m p
      | EmitFrame _ \<Rightarrow> p)"

definition link_event_on_page :: "env \<Rightarrow> seconds \<Rightarrow> link_event \<Rightarrow> drive_page \<Rightarrow> drive_page" where
  "link_event_on_page en now e p =
     (let l = link_step en e (dp_link p)
      in fold (on_emission now) (lk_emitted l) (p\<lparr>dp_link := l\<rparr>))"

section \<open>Events of the page\<close>

text \<open>
  \<open>OnLink\<close> is an event of the link, including the requests of the launcher module;
  \<open>PageHidden\<close> is \<open>visibilitychange\<close> with a hidden document, \<open>pagehide\<close> likewise.
\<close>

datatype drive_event =
    OnLink link_event
  | ConfirmSafety bool
  | StopBar
  | RunRequest seconds "seconds \<Rightarrow> answer"
  | Tick "seconds \<Rightarrow> answer"
  | AbortSignal
  | PageHidden
  | EscapeKey

fun drive_react :: "env \<Rightarrow> seconds \<Rightarrow> drive_event \<Rightarrow> drive_page \<Rightarrow> drive_page" where
  "drive_react en now (OnLink e) p = link_event_on_page en now e p"
| "drive_react en now (ConfirmSafety v) p = confirmDriveSafety v p"
| "drive_react en now StopBar p = stopDrive now p"
| "drive_react en now (RunRequest seconds controller) p = runDrive now seconds controller p"
| "drive_react en now (Tick controller) p = tick now controller p"
| "drive_react en now AbortSignal p = finish (plain_finish ''stopped'' EndedHere now) p"
| "drive_react en now PageHidden p = finish (plain_finish ''hidden'' EndedHere now) p"
| "drive_react en now EscapeKey p = finish (plain_finish ''stopped'' EndedHere now) p"

definition drive_page_step :: "env \<Rightarrow> seconds \<times> drive_event \<Rightarrow> drive_page \<Rightarrow> drive_page" where
  "drive_page_step en ev p = drive_react en (fst ev) (snd ev) p"

section \<open>At most one run, and none without an open link\<close>

interpretation drive_session: single_session dp_current finish
  by unfold_locales (auto simp: finish_def stopMine_def page_send_def sendRobot_def Let_def
      split: option.splits)

lemmas drive_session_simps [simp] = drive_session.finish_ends

definition run_ok :: "drive_run option \<Rightarrow> bool" where
  "run_ok r = (case r of None \<Rightarrow> True
     | Some run \<Rightarrow> rn_started run \<longleftrightarrow> rn_accepted_at run \<noteq> None)"

definition drive_inv :: "drive_page \<Rightarrow> bool" where
  "drive_inv p \<longleftrightarrow>
     link_inv (dp_link p) \<and> run_ok (dp_current p) \<and>
     (dp_current p = None \<or> lk_phase (dp_link p) = Open)"

text \<open>What every operation of the page leaves alone: it only appends to the frames sent.\<close>

definition link_kept :: "link \<Rightarrow> link \<Rightarrow> bool" where
  "link_kept l l' \<longleftrightarrow> lk_phase l' = lk_phase l \<and> (link_inv l \<longrightarrow> link_inv l')"

lemma link_kept_refl [simp]: "link_kept l l"
  by (simp add: link_kept_def)

lemma link_kept_trans: "link_kept a b \<Longrightarrow> link_kept b c \<Longrightarrow> link_kept a c"
  by (simp add: link_kept_def)

lemma link_inv_out: "link_inv (l\<lparr>lk_out := x\<rparr>) = link_inv l"
  by (simp add: link_inv_def phase_inv_def save_inv_def split: phase.splits)

lemma link_kept_send [simp]: "link_kept (dp_link p) (dp_link (snd (page_send f p)))"
  by (simp add: page_send_def sendRobot_def link_kept_def link_inv_out split: prod.splits)

lemma page_send_fields [simp]:
  "dp_current (snd (page_send f p)) = dp_current p"
  "dp_results (snd (page_send f p)) = dp_results p"
  "dp_confirmed (snd (page_send f p)) = dp_confirmed p"
  by (simp_all add: page_send_def split: prod.splits)

lemma link_kept_finish [simp]: "link_kept (dp_link p) (dp_link (finish a p))"
  using link_kept_send [of "p\<lparr>dp_current := None\<rparr>" "StopOut MineOnly"]
  by (simp add: finish_def stopMine_def Let_def split: option.splits)

lemma drive_inv_kept:
  assumes "drive_inv p" and "link_kept (dp_link p) (dp_link p')"
    and "run_ok (dp_current p')" and "dp_current p = None \<Longrightarrow> dp_current p' = None"
  shows "drive_inv p'"
  using assms by (auto simp: drive_inv_def link_kept_def)

lemma drive_inv_finish: "drive_inv p \<Longrightarrow> drive_inv (finish a p)"
  by (erule drive_inv_kept) (simp_all add: run_ok_def)

lemma drive_inv_send: "drive_inv p \<Longrightarrow> drive_inv (snd (page_send f p))"
  by (rule drive_inv_kept) (simp_all add: drive_inv_def)

lemma drive_inv_run:
  "drive_inv p \<Longrightarrow> dp_current p \<noteq> None \<Longrightarrow> run_ok (Some run) \<Longrightarrow> drive_inv (p\<lparr>dp_current := Some run\<rparr>)"
  by (simp add: drive_inv_def)

lemma drive_inv_answered: "drive_inv p \<Longrightarrow> drive_inv (check_answered now run p)"
  by (simp add: check_answered_def drive_inv_finish)

lemma drive_inv_send_or:
  assumes "drive_inv p"
  shows "drive_inv (case page_send f p of
           (ok, p') \<Rightarrow> if \<not> ok then finish a p' else check_answered now run p')"
  using drive_inv_send [OF assms, of f]
  by (auto simp: drive_inv_finish drive_inv_answered split: prod.splits)

lemma drive_inv_tick: "drive_inv p \<Longrightarrow> drive_inv (tick now controller p)"
proof -
  assume inv: "drive_inv p"
  have "drive_inv (tick_command now c run p)" if "dp_current p = Some run" for c run
  proof -
    have "drive_inv (p\<lparr>dp_current := Some (run\<lparr>rn_watch := w\<rparr>)\<rparr>)" for w
      using inv that by (intro drive_inv_run) (auto simp: drive_inv_def run_ok_def)
    then show ?thesis
      by (simp add: tick_command_def Let_def drive_inv_finish drive_inv_send_or del: split_paired_All)
  qed
  with inv show ?thesis
    by (auto simp: tick_def drive_inv_finish drive_inv_send_or
        split: option.splits answer.splits)
qed

lemma dr_ready_online: "dr_ready (driveModel p) \<Longrightarrow> lk_phase (dp_link p) = Open"
  by (auto simp: driveModel_def driveReadiness_def drive_blocker_list_def Let_def split: if_splits)

lemma drive_inv_runDrive: "drive_inv p \<Longrightarrow> drive_inv (runDrive now seconds controller p)"
proof -
  assume inv: "drive_inv p"
  have start: "drive_inv (p\<lparr>dp_current := Some \<lparr>rn_started = False, rn_accepted_at = None,
      rn_watch = new_watch, rn_started_at = now, rn_seconds = seconds\<rparr>\<rparr>)"
    if "dr_ready (driveModel p)"
    using inv dr_ready_online [OF that] by (simp add: drive_inv_def run_ok_def)
  have more: "drive_inv (p\<lparr>dp_results := x\<rparr>)" for x
    using inv by (simp add: drive_inv_def)
  show ?thesis
    by (simp add: runDrive_def Let_def start more drive_inv_tick)
qed

subsection \<open>Listeners\<close>

lemma link_kept_emission: "link_kept (dp_link p) (dp_link (on_emission now em p))"
  by (auto simp: on_emission_def on_drive_state_def on_drive_def Let_def
      split: emission.splits frame_in.splits stream_msg.splits option.splits)

lemma emission_idle: "dp_current q = None \<Longrightarrow> on_emission now em q = q"
  by (simp add: on_emission_def on_drive_state_def on_drive_def drive_session.finish_none
      split: emission.splits frame_in.splits stream_msg.splits)

lemma emission_lost: "ph \<noteq> Open \<Longrightarrow> dp_current (on_emission now (EmitState ph) p) = None"
  by (simp add: on_emission_def)

interpretation drive_client: link_client dp_link "\<lambda>l. dp_link_update (\<lambda>_. l)"
    "\<lambda>p. dp_current p \<noteq> None" on_emission
  using link_kept_emission
  by unfold_locales (auto simp: link_kept_def emission_idle emission_lost)

lemma run_ok_simps [simp]:
  "run_ok None"
  "run_ok (Some run) \<longleftrightarrow> (rn_started run \<longleftrightarrow> rn_accepted_at run \<noteq> None)"
  by (simp_all add: run_ok_def)

lemma run_ok_on_drive: "run_ok (dp_current p) \<Longrightarrow> run_ok (dp_current (on_drive now m p))"
  by (cases "dp_current p") (simp_all add: on_drive_def)

lemma run_ok_on_drive_state: "run_ok (dp_current p) \<Longrightarrow> run_ok (dp_current (on_drive_state now s p))"
  by (cases "dp_current p") (simp_all add: on_drive_state_def Let_def)

lemma run_ok_emission: "run_ok (dp_current p) \<Longrightarrow> run_ok (dp_current (on_emission now em p))"
  by (simp add: on_emission_def run_ok_on_drive run_ok_on_drive_state
      split: emission.splits frame_in.splits stream_msg.splits)

lemma run_ok_emissions:
  "run_ok (dp_current p) \<Longrightarrow> run_ok (dp_current (fold (on_emission now) ems p))"
  by (induction ems arbitrary: p) (simp_all add: run_ok_emission)

lemma drive_inv_link: "drive_inv p \<Longrightarrow> drive_inv (link_event_on_page en now e p)"
  using drive_client.client_step [of p now en e]
  by (auto simp: drive_inv_def link_event_on_page_def Let_def run_ok_emissions)

lemma drive_inv_step: "drive_inv p \<Longrightarrow> drive_inv (drive_page_step en ev p)"
proof -
  assume inv: "drive_inv p"
  obtain now e where ev: "ev = (now, e)" by (cases ev)
  have confirm: "drive_inv (confirmDriveSafety v p)" for v
    using inv by (simp add: drive_inv_def confirmDriveSafety_def)
  show ?thesis unfolding ev drive_page_step_def
    by (cases e) (simp_all add: inv confirm drive_inv_link drive_inv_runDrive drive_inv_tick
        drive_inv_finish stopDrive_def drive_inv_send)
qed

interpretation drive_machine: event_machine "drive_page_step en" drive_inv for en
  by unfold_locales (rule drive_inv_step)

lemma drive_inv_reachable: "drive_inv (fold (drive_page_step en) es init_drive_page)"
  by (rule drive_machine.run_inv)
     (simp add: drive_inv_def run_ok_def init_drive_page_def link_inv_init)

section \<open>The drive frames of a step\<close>

fun is_drive :: "frame_out \<Rightarrow> bool" where
  "is_drive (DriveOut _ _) = True"
| "is_drive _ = False"

definition drive_frames :: "drive_page \<Rightarrow> frame_out list" where
  "drive_frames p = filter is_drive (lk_out (dp_link p))"

lemma drive_frames_send:
  "drive_frames (snd (page_send f p)) =
     (if is_drive f \<and> connection_open (dp_link p) then drive_frames p @ [f] else drive_frames p)"
  "fst (page_send f p) = connection_open (dp_link p)"
  by (simp_all add: drive_frames_def page_send_def sendRobot_def)

lemma drive_frames_run [simp]:
  "drive_frames (p\<lparr>dp_current := r\<rparr>) = drive_frames p"
  "drive_frames (p\<lparr>dp_results := x\<rparr>) = drive_frames p"
  by (simp_all add: drive_frames_def)

lemma drive_frames_finish [simp]: "drive_frames (finish a p) = drive_frames p"
  by (simp add: finish_def Let_def stopMine_def drive_frames_send split: option.splits)

lemma drive_frames_answered [simp]: "drive_frames (check_answered now run p) = drive_frames p"
  by (simp add: check_answered_def)

lemma drive_frames_send_or [simp]:
  "drive_frames (case page_send f p of
      (ok, p') \<Rightarrow> if \<not> ok then finish a p' else check_answered now run p')
   = drive_frames (snd (page_send f p))"
  by (simp split: prod.splits)

lemma drive_frames_emission [simp]: "drive_frames (on_emission now em p) = drive_frames p"
  by (simp add: on_emission_def on_drive_state_def on_drive_def Let_def
      split: emission.splits frame_in.splits stream_msg.splits option.splits)

lemma drive_frames_emissions [simp]: "drive_frames (fold (on_emission now) ems p) = drive_frames p"
  by (induction ems arbitrary: p) simp_all

lemma drive_frames_link:
  "drive_frames (link_event_on_page en now e p) = drive_frames p
   \<or> (\<exists>a b. e = SendFrame (DriveOut a b)
        \<and> drive_frames (link_event_on_page en now e p) = drive_frames p @ [DriveOut a b])"
proof (cases e)
  case (SendFrame f)
  then show ?thesis
    by (cases f)
       (simp_all add: link_event_on_page_def Let_def drive_frames_def [of "dp_link_update _ _"]
        link_step_def sendRobot_def drive_frames_def)
next
  case (SaveRecord body)
  have "filter is_drive (lk_out (link_step en (SaveRecord body) (dp_link p)))
      = filter is_drive (lk_out (dp_link p))"
    by (simp add: link_step_def saveRecordOnRobot_def settle_save_def)
  with SaveRecord show ?thesis
    by (simp add: link_event_on_page_def Let_def) (simp add: drive_frames_def)
next
  case (SocketData i d)
  have "lk_out (link_step en e (dp_link p)) = lk_out (dp_link p)"
    unfolding SocketData by (rule link_out_quiet) simp
  then show ?thesis by (simp add: link_event_on_page_def Let_def) (simp add: drive_frames_def)
qed (simp_all add: link_event_on_page_def Let_def link_out_quiet drive_frames_def [of p],
     simp_all add: drive_frames_def link_out_quiet)

lemma clampTo_abs: "\<bar>clampTo v limit\<bar> \<le> \<bar>limit\<bar>"
  by (auto simp: clampTo_def)

text \<open>
  What may be sent for a value the controller asked for: the value itself while the limit allows it, the limit
  with the value's sign beyond it. (A negative limit, which no bridge announces, would be sent with its sign turned.)
\<close>

definition cut_to :: "real \<Rightarrow> real \<Rightarrow> real" where
  "cut_to limit v =
     (if limit < 0 then - limit else if v > limit then limit else if v < - limit then - limit else v)"

lemma clampTo_cut: "clampTo v limit = cut_to limit v"
  by (auto simp: clampTo_def cut_to_def)

text \<open>The pair sent for a command: speed stays speed and turning stays turning, each cut to its own limit.\<close>

definition sent_for :: "command \<Rightarrow> speed_limits option \<Rightarrow> real \<Rightarrow> real \<Rightarrow> bool" where
  "sent_for c limits a b \<longleftrightarrow>
     (case limits of
        None \<Rightarrow> a = cm_linear c \<and> b = cm_angular c
      | Some l \<Rightarrow> a = cut_to (sl_linear l) (cm_linear c) \<and> b = cut_to (sl_angular l) (cm_angular c)
          \<and> \<bar>a\<bar> \<le> \<bar>sl_linear l\<bar> \<and> \<bar>b\<bar> \<le> \<bar>sl_angular l\<bar>)"

lemma sent_for_limitCommand:
  "sent_for c limits (cm_linear (limitCommand c limits)) (cm_angular (limitCommand c limits))"
  by (auto simp: sent_for_def limitCommand_def clampTo_abs simp flip: clampTo_cut split: option.splits)

text \<open>The one nonzero frame a heartbeat may send.\<close>

definition commanded :: "drive_page \<Rightarrow> seconds \<Rightarrow> drive_event \<Rightarrow> frame_out \<Rightarrow> bool" where
  "commanded p now e f \<longleftrightarrow>
     (case (dp_current p, e, f) of
        (Some run, Tick controller, DriveOut a b) \<Rightarrow>
          (case (rn_accepted_at run, controller (running_seconds now run)) of
             (Some t0, Commands c) \<Rightarrow>
               STARTUP_NEUTRAL_SECONDS \<le> now - rn_started_at run - t0
               \<and> now - rn_started_at run - t0 \<le> STARTUP_NEUTRAL_SECONDS + rn_seconds run
               \<and> sent_for c (dr_limits (driveModel p)) a b
           | _ \<Rightarrow> False)
      | _ \<Rightarrow> False)"

lemma tick_frames:
  "drive_frames (tick now controller p) = drive_frames p
   \<or> drive_frames (tick now controller p) = drive_frames p @ [DriveOut 0 0]
   \<or> (\<exists>f. drive_frames (tick now controller p) = drive_frames p @ [f] \<and> commanded p now (Tick controller) f)"
proof (cases "dp_current p")
  case None
  then show ?thesis by (simp add: tick_def)
next
  case (Some run)
  show ?thesis
  proof (cases "neutral_phase now run")
    case True
    with Some show ?thesis by (simp add: tick_def drive_frames_send)
  next
    case active: False
    then obtain t0 where t0: "rn_accepted_at run = Some t0"
        "STARTUP_NEUTRAL_SECONDS \<le> now - rn_started_at run - t0"
      by (auto simp: neutral_phase_def split: option.splits)
    show ?thesis
    proof (cases "running_seconds now run > rn_seconds run")
      case True
      with Some active show ?thesis by (simp add: tick_def)
    next
      case False
      then have in_time: "now - rn_started_at run - t0 \<le> STARTUP_NEUTRAL_SECONDS + rn_seconds run"
        using t0 by (simp add: running_seconds_def)
      show ?thesis
      proof (cases "controller (running_seconds now run)")
        case (Commands c)
        define lc where "lc = limitCommand c (dr_limits (driveModel p))"
        have "drive_frames (tick now controller p) = drive_frames p
            \<or> drive_frames (tick now controller p)
              = drive_frames p @ [DriveOut (cm_linear lc) (cm_angular lc)]"
          using Some active False Commands
          by (simp add: tick_def tick_command_def Let_def drive_frames_send lc_def)
        moreover have "commanded p now (Tick controller) (DriveOut (cm_linear lc) (cm_angular lc))"
          using Some t0 in_time Commands
          by (simp add: commanded_def lc_def sent_for_limitCommand)
        ultimately show ?thesis by blast
      qed (use Some active False in \<open>simp_all add: tick_def\<close>)
    qed
  qed
qed

lemma runDrive_frames:
  "drive_frames (runDrive now seconds controller p) = drive_frames p
   \<or> drive_frames (runDrive now seconds controller p) = drive_frames p @ [DriveOut 0 0]"
  by (simp add: runDrive_def tick_def neutral_phase_def Let_def drive_frames_send)

section \<open>Every run is settled once\<close>

fun is_run_request :: "drive_event \<Rightarrow> bool" where
  "is_run_request (RunRequest _ _) = True"
| "is_run_request _ = False"

definition settled_or_running :: "drive_page \<Rightarrow> nat" where
  "settled_or_running p = length (dp_results p) + (if dp_current p = None then 0 else 1)"

lemma settled_send [simp]: "settled_or_running (snd (page_send f p)) = settled_or_running p"
  by (simp add: settled_or_running_def)

lemma settled_finish [simp]: "settled_or_running (finish a p) = settled_or_running p"
  by (simp add: settled_or_running_def finish_def Let_def stopMine_def split: option.splits)

lemma settled_answered [simp]: "settled_or_running (check_answered now run p) = settled_or_running p"
  by (simp add: check_answered_def)

lemma settled_send_or [simp]:
  "settled_or_running (case page_send f p of
      (ok, p') \<Rightarrow> if \<not> ok then finish a p' else check_answered now run p') = settled_or_running p"
  by (cases "page_send f p") (use settled_send [of f p] in auto)

lemma settled_tick [simp]: "settled_or_running (tick now controller p) = settled_or_running p"
proof (cases "dp_current p")
  case None
  then show ?thesis by (simp add: tick_def)
next
  case (Some run)
  then have "settled_or_running (p\<lparr>dp_current := Some r\<rparr>) = settled_or_running p" for r
    by (simp add: settled_or_running_def)
  with Some show ?thesis by (simp add: tick_def tick_command_def Let_def split: answer.splits)
qed

lemma settled_emission [simp]: "settled_or_running (on_emission now em p) = settled_or_running p"
proof (cases "dp_current p")
  case None
  then show ?thesis
    by (simp add: on_emission_def on_drive_state_def on_drive_def
        split: emission.splits frame_in.splits stream_msg.splits)
next
  case (Some run)
  then have "settled_or_running (p\<lparr>dp_current := Some r\<rparr>) = settled_or_running p" for r
    by (simp add: settled_or_running_def)
  with Some show ?thesis
    by (simp add: on_emission_def on_drive_state_def on_drive_def Let_def
        split: emission.splits frame_in.splits stream_msg.splits)
qed

lemma settled_emissions [simp]:
  "settled_or_running (fold (on_emission now) ems p) = settled_or_running p"
  by (induction ems arbitrary: p) simp_all

lemma settled_link [simp]:
  "settled_or_running (link_event_on_page en now e p) = settled_or_running p"
  by (simp add: link_event_on_page_def Let_def) (simp add: settled_or_running_def)

lemma settled_runDrive: "settled_or_running (runDrive now seconds controller p) = Suc (settled_or_running p)"
  by (simp add: runDrive_def Let_def) (simp add: settled_or_running_def)

lemma settled_step:
  "settled_or_running (drive_page_step en ev p)
     = settled_or_running p + (if is_run_request (snd ev) then 1 else 0)"
  by (cases "snd ev")
     (simp_all add: drive_page_step_def settled_runDrive stopDrive_def,
      simp add: confirmDriveSafety_def settled_or_running_def)

lemma settled_fold:
  "settled_or_running (fold (drive_page_step en) es p)
     = settled_or_running p + length (filter (\<lambda>ev. is_run_request (snd ev)) es)"
  by (induction es arbitrary: p) (simp_all add: settled_step)

section \<open>Ending a run stops the robot\<close>

text \<open>
  \<open>stop_sent p p'\<close>: if the run of \<open>p\<close> is over in \<open>p'\<close>, was ended by this page and the
  connection is up, the last frame sent is this page's own stop.
\<close>

definition stop_sent :: "drive_page \<Rightarrow> drive_page \<Rightarrow> bool" where
  "stop_sent p p' \<longleftrightarrow>
     (if dp_current p \<noteq> None \<and> dp_current p' = None \<and> connection_open (dp_link p')
         \<and> rr_kind (last (dp_results p')) = EndedHere
      then last (lk_out (dp_link p')) = StopOut MineOnly else True)"

lemma stop_sent_run: "dp_current p' \<noteq> None \<Longrightarrow> stop_sent p p'"
  by (auto simp: stop_sent_def)

lemma stop_sent_finish: "dp_current q \<noteq> None \<Longrightarrow> stop_sent p (finish a q)"
  by (auto simp: stop_sent_def finish_def Let_def stopMine_def page_send_def sendRobot_def
      connection_open_def split: option.splits)

lemma stop_sent_answered: "dp_current q \<noteq> None \<Longrightarrow> stop_sent p (check_answered now run q)"
  by (simp add: check_answered_def stop_sent_finish stop_sent_run)

lemma stop_sent_send_or:
  assumes "dp_current q \<noteq> None"
  shows "stop_sent p (case page_send f q of
           (ok, q') \<Rightarrow> if \<not> ok then finish a q' else check_answered now run q')"
  using assms page_send_fields(1) [of f q]
  by (cases "page_send f q") (auto simp: stop_sent_finish stop_sent_answered)

lemma stop_sent_tick: "dp_current q \<noteq> None \<Longrightarrow> stop_sent p (tick now controller q)"
  by (auto simp: tick_def tick_command_def Let_def stop_sent_finish stop_sent_send_or
      split: answer.splits)

lemma stop_sent_emission: "dp_current q \<noteq> None \<Longrightarrow> stop_sent p (on_emission now em q)"
  by (auto simp: on_emission_def on_drive_state_def on_drive_def Let_def stop_sent_finish stop_sent_run
      split: emission.splits frame_in.splits stream_msg.splits)

lemma emissions_idle: "dp_current q = None \<Longrightarrow> fold (on_emission now) ems q = q"
  by (induction ems) (simp_all add: emission_idle)

lemma stop_sent_emissions:
  "dp_current q \<noteq> None \<Longrightarrow> stop_sent p (fold (on_emission now) ems q)"
proof (induction ems arbitrary: q)
  case Nil
  then show ?case by (simp add: stop_sent_run)
next
  case (Cons em ems)
  show ?case
  proof (cases "dp_current (on_emission now em q) = None")
    case True
    then show ?thesis using stop_sent_emission [OF Cons.prems] by (simp add: emissions_idle)
  next
    case False
    then show ?thesis using Cons.IH by simp
  qed
qed

lemma stop_sent_idle: "dp_current p = None \<Longrightarrow> stop_sent p p'"
  by (simp add: stop_sent_def)

lemma stop_sent_step: "stop_sent p (drive_page_step en ev p)"
proof (cases "dp_current p = None")
  case True
  then show ?thesis by (rule stop_sent_idle)
next
  case run: False
  show ?thesis
  proof (cases "snd ev")
    case (OnLink e)
    then show ?thesis using run
      by (simp add: drive_page_step_def link_event_on_page_def Let_def stop_sent_emissions)
  next
    case (RunRequest seconds controller)
    with run show ?thesis
      by (simp add: drive_page_step_def runDrive_def Let_def) (rule stop_sent_run, simp)
  next
    case (ConfirmSafety v)
    with run show ?thesis
      by (simp add: drive_page_step_def confirmDriveSafety_def) (rule stop_sent_run, simp)
  qed (use run in \<open>simp_all add: drive_page_step_def stopDrive_def stop_sent_finish stop_sent_tick\<close>)
qed

section \<open>Properties\<close>

text \<open>
  Over every sequence of events, the page has a run only while the link is open, and a run
  counts as accepted exactly when the bridge has named this page the owner: no heartbeat of a run
  survives the loss of the link.
\<close>

theorem run_only_on_open_link: "drive_inv (fold (drive_page_step en) es init_drive_page)"
  by (rule drive_inv_reachable)

text \<open>
  C1: Every event adds at most one drive frame, and that frame either asks for standstill or carries the
  controller's own command of this heartbeat, at least 0.3 s after the bridge accepted the run and not after the
  run's time is up. Its speed is the command's speed and its turning the command's turning, unchanged within the
  limits the bridge announced and set to the limit, with the same sign, beyond them. (A drive frame another
  module would pass to \<open>sendRobot\<close> directly goes out as it is; the modules send none.)
\<close>

theorem drive_frames_safe:
  "let p' = drive_page_step en (now, e) p in
   drive_frames p' = drive_frames p
   \<or> drive_frames p' = drive_frames p @ [DriveOut 0 0]
   \<or> (\<exists>f. drive_frames p' = drive_frames p @ [f] \<and> commanded p now e f)
   \<or> (\<exists>a b. e = OnLink (SendFrame (DriveOut a b)) \<and> drive_frames p' = drive_frames p @ [DriveOut a b])"
proof (cases e)
  case (OnLink le)
  then show ?thesis using drive_frames_link [of en now le p] by (auto simp: drive_page_step_def Let_def)
next
  case (Tick controller)
  then show ?thesis using tick_frames [of now controller p] by (auto simp: drive_page_step_def Let_def)
next
  case (RunRequest seconds controller)
  then show ?thesis using runDrive_frames [of now seconds controller p]
    by (auto simp: drive_page_step_def Let_def)
next
  case (ConfirmSafety v)
  have "drive_frames (confirmDriveSafety v p) = drive_frames p"
    by (simp add: confirmDriveSafety_def drive_frames_def)
  with ConfirmSafety show ?thesis by (simp add: drive_page_step_def Let_def)
qed (simp_all add: drive_page_step_def stopDrive_def drive_frames_send Let_def)

text \<open>
  C14: Every \<open>runDrive\<close> promise is resolved exactly once: the results so far and the run in
  progress are together as many as the requests.
\<close>

theorem every_run_settled_once:
  "length (dp_results (fold (drive_page_step en) es init_drive_page))
     + (if dp_current (fold (drive_page_step en) es init_drive_page) = None then 0 else 1)
   = length (filter (\<lambda>ev. is_run_request (snd ev)) es)"
  using settled_fold [of en es init_drive_page]
  by (simp add: settled_or_running_def init_drive_page_def)

text \<open>
  C3: Whatever ends a run on this page (the time, the controller, the learner, Esc, a hidden page,
  a refusal), while the connection is up the last frame the page sends is its own scoped stop.
\<close>

theorem run_end_sends_stop:
  "let p' = drive_page_step en ev p in
   if dp_current p \<noteq> None \<and> dp_current p' = None \<and> connection_open (dp_link p')
      \<and> rr_kind (last (dp_results p')) = EndedHere
   then last (lk_out (dp_link p')) = StopOut MineOnly else True"
  using stop_sent_step [of p en ev] by (simp add: stop_sent_def Let_def)

text \<open>
  C11: A run always ends: after a heartbeat the run is over, or it is still waiting for the bridge's
  answer and 1.5 s have not passed, or it was accepted and its 0.3 s of neutral and its seconds have
  not passed.
\<close>

theorem run_time_bounded:
  "let p = fold (drive_page_step en) es init_drive_page;
       p' = drive_page_step en (now, Tick controller) p
   in dp_current p' = None \<or>
      (\<exists>run. dp_current p = Some run \<and>
         (case rn_accepted_at run of
            None \<Rightarrow> (now - rn_started_at run) * 1000 \<le> START_TIMEOUT_MS
          | Some t0 \<Rightarrow> now - rn_started_at run - t0
                         \<le> STARTUP_NEUTRAL_SECONDS + max 0 (rn_seconds run)))"
proof -
  define p where "p = fold (drive_page_step en) es init_drive_page"
  have ok: "run_ok (dp_current p)"
    using drive_inv_reachable [of en es] by (simp add: p_def drive_inv_def)
  show ?thesis
  proof (cases "dp_current p")
    case None
    then show ?thesis
      by (simp add: p_def [symmetric] drive_page_step_def tick_def)
  next
    case (Some run)
    show ?thesis
    proof (cases "rn_accepted_at run")
      case None
      with ok Some have "\<not> rn_started run" by (simp add: run_ok_def)
      with Some None show ?thesis
        by (auto simp: p_def [symmetric] drive_page_step_def tick_def neutral_phase_def
            check_answered_def split: prod.splits)
    next
      case (Some t0)
      with \<open>dp_current p = Some run\<close> show ?thesis
        by (auto simp: p_def [symmetric] drive_page_step_def tick_def neutral_phase_def
            running_seconds_def)
    qed
  qed
qed

end
