(* ===== verification/Shoot_Core.thy ===== *)
theory Shoot_Core
  imports Messages
begin

text \<open>
  \<open>lab/js/live/shoot-core.js\<close>: the decisions behind operating the launcher (roller, tilt, one
  disc). What the bridge's hello offers, why the page cannot operate the launcher
  (\<open>shootReadiness\<close>), which buttons are enabled (\<open>shootControls\<close>), the percent and degree ranges,
  the tracker that tells which increase of \<open>fired_count\<close> was this page's disc, why a session
  ended, and what the block and the record list show.
\<close>

section \<open>Tables and limits\<close>

definition SHOOT_BLOCKERS :: "string list" where
  "SHOOT_BLOCKERS =
     [''no_link'', ''old_bridge'', ''not_allowed'', ''estop_unknown'', ''emergency_stop'',
      ''no_launcher'', ''other_publisher'', ''no_motion_permission'', ''controller'', ''busy'',
      ''unconfirmed'']"

interpretation shoot_table: blocker_order SHOOT_BLOCKERS
  by unfold_locales (simp add: SHOOT_BLOCKERS_def)

definition OFF_BLOCKERS :: "string list" where
  "OFF_BLOCKERS = [''no_link'', ''old_bridge'', ''not_allowed'']"

fun DEFAULT_LIMITS :: "limit_key \<Rightarrow> real" where
  "DEFAULT_LIMITS MaxPower = 8 / 10"
| "DEFAULT_LIMITS MinFirePower = 2 / 10"
| "DEFAULT_LIMITS SpinUpSec = 1"
| "DEFAULT_LIMITS FireIntervalSec = 2"
| "DEFAULT_LIMITS TiltMin = 0"
| "DEFAULT_LIMITS TiltMax = 120"
| "DEFAULT_LIMITS Deadman = 5 / 10"
| "DEFAULT_LIMITS Seconds = 30"

fun HELLO_LIMITS :: "limit_key \<Rightarrow> string" where
  "HELLO_LIMITS MaxPower = ''max_power''"
| "HELLO_LIMITS MinFirePower = ''min_fire_power''"
| "HELLO_LIMITS SpinUpSec = ''spin_up_sec''"
| "HELLO_LIMITS FireIntervalSec = ''fire_interval_sec''"
| "HELLO_LIMITS TiltMin = ''tilt_min''"
| "HELLO_LIMITS TiltMax = ''tilt_max''"
| "HELLO_LIMITS Deadman = ''deadman_sec''"
| "HELLO_LIMITS Seconds = ''max_spin_sec''"

definition PERCENT :: real where "PERCENT = 100"
definition FIRE_CONFIRM_MS :: millis where "FIRE_CONFIRM_MS = 3000"
definition STATUS_STALE_MS :: millis where "STATUS_STALE_MS = 1000"

definition secondsLeft :: "num \<Rightarrow> seconds \<Rightarrow> num" where
  "secondsLeft value elapsed =
     (case value of None \<Rightarrow> None | Some v \<Rightarrow> Some (max 0 (v - elapsed)))"

record shoot_support =
  su_allowed :: bool
  su_limits :: shoot_limits

text \<open>\<open>None\<close> for an older bridge. Each limit the hello carries as a number replaces the default.\<close>

definition shootSupport :: "hello option \<Rightarrow> shoot_support option" where
  "shootSupport he =
     (case Option.bind he he_shoot of
        None \<Rightarrow> None
      | Some shoot \<Rightarrow>
          Some \<lparr>su_allowed = hs_allowed shoot,
                su_limits = (\<lambda>key. coalesce (hs_field shoot (HELLO_LIMITS key))
                                             (DEFAULT_LIMITS key))\<rparr>)"

section \<open>Why the page cannot operate the launcher\<close>

datatype shoot_owner = Mine | Others

definition launcher_owner :: "shoot_state option \<Rightarrow> string option \<Rightarrow> shoot_owner option" where
  "launcher_owner state session =
     (case state of
        None \<Rightarrow> None
      | Some s \<Rightarrow>
          if \<not> ss_active s \<or> ss_owner s = None then None
          else if ss_owner s = session then Some Mine else Some Others)"

definition stateBlockers :: "shoot_state option \<Rightarrow> blocker list" where
  "stateBlockers state =
     (case state of None \<Rightarrow> []
      | Some s \<Rightarrow> filter (\<lambda>b. bk_code b \<in> set SHOOT_BLOCKERS) (ss_blockers s))"

text \<open>The \<open>shoot_state\<close> the rest looks at: none without a link, or where it is not allowed.\<close>

definition seen_state ::
  "bool \<Rightarrow> hello option \<Rightarrow> shoot_state option \<Rightarrow> shoot_state option" where
  "seen_state online he shootState =
     (if online \<and> (case shootSupport he of None \<Rightarrow> False | Some su \<Rightarrow> su_allowed su)
      then shootState else None)"

definition link_blocker :: "bool \<Rightarrow> hello option \<Rightarrow> shoot_state option \<Rightarrow> blocker list" where
  "link_blocker online he shootState =
     (let state = seen_state online he shootState in
      if \<not> online then [plain_blocker ''no_link'']
      else case shootSupport he of
             None \<Rightarrow> [plain_blocker ''old_bridge'']
           | Some su \<Rightarrow>
               if \<not> su_allowed su \<or> Option.bind state ss_allowed = Some False
               then [plain_blocker ''not_allowed'']
               else if state = None then [plain_blocker ''no_launcher''] else [])"

definition shoot_blocker_list ::
  "bool \<Rightarrow> string option \<Rightarrow> hello option \<Rightarrow> shoot_state option \<Rightarrow> bool \<Rightarrow> blocker list" where
  "shoot_blocker_list online session he shootState confirmed =
     (let state = seen_state online he shootState;
          blockers = link_blocker online he shootState
      in blockers
         @ filter (\<lambda>b. \<not> (\<exists>o' \<in> set blockers. bk_code o' = bk_code b)) (stateBlockers state)
         @ (if launcher_owner state session = Some Others then [plain_blocker ''busy''] else [])
         @ (if \<not> confirmed then [plain_blocker ''unconfirmed''] else []))"

record shoot_readiness =
  sd_ready :: bool
  sd_allowed :: bool
  sd_blockers :: "blocker list"
  sd_owner :: "shoot_owner option"
  sd_active :: bool
  sd_limits :: shoot_limits
  sd_last_stop :: "last_stop option"
  sd_power :: real
  sd_tilt :: num
  sd_session_left :: num
  sd_spin_ready_in :: num
  sd_next_fire_in :: real
  sd_ready_to_fire :: bool
  sd_fired :: real

definition merged_limits :: "shoot_support option \<Rightarrow> shoot_state option \<Rightarrow> shoot_limits" where
  "merged_limits support state =
     (\<lambda>key. coalesce (case state of None \<Rightarrow> None | Some s \<Rightarrow> ss_limits s key)
              (case support of None \<Rightarrow> DEFAULT_LIMITS key | Some su \<Rightarrow> su_limits su key))"

definition shootReadiness ::
  "bool \<Rightarrow> string option \<Rightarrow> hello option \<Rightarrow> shoot_state option \<Rightarrow> millis \<Rightarrow> millis \<Rightarrow> bool
   \<Rightarrow> shoot_readiness" where
  "shootReadiness online session he shootState receivedAt now confirmed =
     (let support = (if online then shootSupport he else None);
          state = seen_state online he shootState;
          blockers = shoot_blocker_list online session he shootState confirmed;
          owner = launcher_owner state session;
          mine = (owner = Some Mine);
          elapsed = max 0 ((now - receivedAt) / 1000);
          limits = merged_limits support state
      in \<lparr>sd_ready = (length blockers = 0),
          sd_allowed = (case support of None \<Rightarrow> False | Some su \<Rightarrow> su_allowed su)
                       \<and> Option.bind state ss_allowed \<noteq> Some False,
          sd_blockers = sort_blockers SHOOT_BLOCKERS blockers,
          sd_owner = owner,
          sd_active = (case state of None \<Rightarrow> False | Some s \<Rightarrow> ss_active s),
          sd_limits = limits,
          sd_last_stop = Option.bind state ss_last_stop,
          sd_power = coalesce (Option.bind state ss_power) 0,
          sd_tilt = Option.bind state ss_tilt,
          sd_session_left =
            (if mine then secondsLeft (Some (limits Seconds
                            - coalesce (Option.bind state ss_session_sec) 0)) elapsed else None),
          sd_spin_ready_in =
            (if mine then secondsLeft (Option.bind state ss_spin_ready_in) elapsed else None),
          sd_next_fire_in =
            coalesce (secondsLeft (Option.bind state ss_next_fire_in) elapsed) 0,
          sd_ready_to_fire =
            (mine \<and> (case state of None \<Rightarrow> False | Some s \<Rightarrow> ss_ready_to_fire s)),
          sd_fired = coalesce (Option.bind state ss_fired) 0\<rparr>)"

definition shootOffered :: "shoot_readiness \<Rightarrow> bool" where
  "shootOffered r \<longleftrightarrow> \<not> (\<exists>b \<in> set (sd_blockers r). bk_code b \<in> set OFF_BLOCKERS)"

section \<open>The buttons\<close>

record shoot_local =
  lo_spinning :: bool
  lo_session :: bool
  lo_fire_pending :: bool
  lo_shooting :: bool
  lo_tilt_known :: bool

text \<open>A reason: its key and the seconds that fill its sentence (one decimal), where it has one.\<close>

record control =
  ct_enabled :: bool
  ct_stop :: bool
  ct_reason :: "(string \<times> real option) option"

definition control_on :: control where
  "control_on = \<lparr>ct_enabled = True, ct_stop = False, ct_reason = None\<rparr>"

definition control_off :: "string \<Rightarrow> real option \<Rightarrow> control" where
  "control_off key sec = \<lparr>ct_enabled = False, ct_stop = False, ct_reason = Some (key, sec)\<rparr>"

definition fireControl :: "shoot_readiness \<Rightarrow> shoot_local \<Rightarrow> blocker option \<Rightarrow> control" where
  "fireControl r lo blocked =
     (case blocked of
        Some b \<Rightarrow> control_off (bk_code b) None
      | None \<Rightarrow>
          if \<not> lo_spinning lo then control_off ''not_spinning'' None
          else if sd_owner r \<noteq> Some Mine then control_off ''starting'' None
          else if lo_fire_pending lo then control_off ''fire_pending'' None
          else if lo_shooting lo then control_off ''shooting'' None
          else if (case sd_spin_ready_in r of None \<Rightarrow> True | Some s \<Rightarrow> s > 0)
               then control_off ''spinning_up''
                      (Some (to_fixed 1 (coalesce (sd_spin_ready_in r) (sd_limits r SpinUpSec))))
          else if sd_next_fire_in r > 0
               then control_off ''interval'' (Some (to_fixed 1 (sd_next_fire_in r)))
          else if \<not> sd_ready_to_fire r then control_off ''starting'' None
          else control_on)"

record shoot_controls =
  sc_spin :: control
  sc_tilt :: control
  sc_fire :: control

definition blocked_by :: "shoot_readiness \<Rightarrow> blocker option" where
  "blocked_by r =
     first_some (find (\<lambda>b. bk_code b \<noteq> ''unconfirmed'') (sd_blockers r))
                (find (\<lambda>b. bk_code b = ''unconfirmed'') (sd_blockers r))"

definition shootControls :: "shoot_readiness \<Rightarrow> shoot_local \<Rightarrow> shoot_controls" where
  "shootControls r lo =
     (let blocked = blocked_by r;
          reason = (case blocked of None \<Rightarrow> None | Some b \<Rightarrow> Some (bk_code b, None));
          spin = (if lo_spinning lo
                  then \<lparr>ct_enabled = True, ct_stop = True, ct_reason = None\<rparr>
                  else \<lparr>ct_enabled = (blocked = None), ct_stop = False, ct_reason = reason\<rparr>);
          tilt = (if blocked = None \<and> (lo_fire_pending lo \<or> lo_shooting lo)
                  then control_off ''shooting'' None
                  else if blocked = None \<and> \<not> lo_tilt_known lo
                  then control_off ''tilt_unknown'' None
                  else \<lparr>ct_enabled = (blocked = None), ct_stop = False, ct_reason = reason\<rparr>)
      in \<lparr>sc_spin = spin, sc_tilt = tilt, sc_fire = fireControl r lo blocked\<rparr>)"

section \<open>Percent and degrees\<close>

definition powerRange :: "shoot_limits \<Rightarrow> int \<times> int" where
  "powerRange limits =
     (let mx = \<lfloor>limits MaxPower * PERCENT + 1 / 10 ^ 9\<rfloor>;
          mn = min mx \<lceil>limits MinFirePower * PERCENT - 1 / 10 ^ 9\<rceil>
      in (max 0 mn, max 0 mx))"

definition clampPercent :: "num \<Rightarrow> shoot_limits \<Rightarrow> int" where
  "clampPercent percent limits =
     (case powerRange limits of (mn, mx) \<Rightarrow>
        let value = (case percent of None \<Rightarrow> mn | Some p \<Rightarrow> js_round p)
        in max mn (min mx value))"

definition clampTilt :: "num \<Rightarrow> shoot_limits \<Rightarrow> int" where
  "clampTilt deg limits =
     (let low = \<lceil>limits TiltMin - 1 / 10 ^ 9\<rceil>;
          high = \<lfloor>limits TiltMax + 1 / 10 ^ 9\<rfloor>;
          value = (case deg of None \<Rightarrow> low | Some d \<Rightarrow> js_round d)
      in max low (min (max low high) value))"

section \<open>Which increase of the counter was this page's disc\<close>

record pending_fire =
  pf_at :: millis
  pf_percent :: int
  pf_tilt :: real

record tracker =
  tk_count :: "int option"
  tk_pending :: "pending_fire option"

definition createShotTracker :: tracker where
  "createShotTracker = \<lparr>tk_count = None, tk_pending = None\<rparr>"

definition noteFireSent :: "pending_fire \<Rightarrow> tracker \<Rightarrow> tracker" where
  "noteFireSent p t = t\<lparr>tk_pending := Some p\<rparr>"

definition dropPendingFire :: "tracker \<Rightarrow> tracker" where
  "dropPendingFire t = t\<lparr>tk_pending := None\<rparr>"

datatype shot_result = Fired int real | OtherFired "string option" | NotFired "string option"

definition expireFire :: "tracker \<Rightarrow> millis \<Rightarrow> string option \<Rightarrow> shot_result option \<times> tracker" where
  "expireFire t now reason =
     (case tk_pending t of
        None \<Rightarrow> (None, t)
      | Some p \<Rightarrow>
          if now - pf_at p \<le> FIRE_CONFIRM_MS then (None, t)
          else (Some (NotFired reason), t\<lparr>tk_pending := None\<rparr>))"

definition ingestShot :: "tracker \<Rightarrow> shot_msg option \<Rightarrow> millis \<Rightarrow> shot_result option \<times> tracker" where
  "ingestShot t shot now =
     (case Option.bind shot sh_fired_count of
        None \<Rightarrow> expireFire t now (Option.bind shot sh_lab_refused)
      | Some n \<Rightarrow>
          let before = tk_count t; t' = t\<lparr>tk_count := Some n\<rparr> in
          if (case before of None \<Rightarrow> True | Some b \<Rightarrow> n \<le> b)
          then expireFire t' now (Option.bind shot sh_lab_refused)
          else case tk_pending t' of
                 Some p \<Rightarrow>
                   if Option.bind shot sh_last_source = Some ''lab''
                   then (Some (Fired (pf_percent p) (coalesce (Option.bind shot sh_tilt) (pf_tilt p))),
                         t'\<lparr>tk_pending := None\<rparr>)
                   else (Some (OtherFired (Option.bind shot sh_last_source)), t')
               | None \<Rightarrow> (Some (OtherFired (Option.bind shot sh_last_source)), t'))"

section \<open>Why a session ended\<close>

definition QUIET_ENDS :: "string list" where
  "QUIET_ENDS = [''fired'', ''idle'']"

definition sessionEndKey :: "string \<Rightarrow> last_stop option \<Rightarrow> string option \<Rightarrow> string option" where
  "sessionEndKey why lastStop session =
     (if why \<noteq> ''bridge'' then (if why \<in> set QUIET_ENDS then None else Some why)
      else let reason = (case lastStop of None \<Rightarrow> ''stopped'' | Some s \<Rightarrow> st_reason s) in
           if reason = ''stopped''
           then Some (case lastStop of
                        None \<Rightarrow> ''stopped_other''
                      | Some s \<Rightarrow> if st_by s = session then ''stopped'' else ''stopped_other'')
           else Some reason)"

definition keepsConfirmation :: "string \<Rightarrow> bool" where
  "keepsConfirmation why \<longleftrightarrow> why = ''idle''"

section \<open>What the block and the record list show\<close>

record roller_view =
  rv_percent :: "int option"
  rv_source :: string
  rv_locked :: bool
  rv_estop :: bool

record shot_view =
  sv_tilt :: num
  sv_fired :: "int option"
  sv_shooting :: bool
  sv_last_source :: "string option"
  sv_estop :: bool

record launcher_view =
  lv_roller :: "roller_view option"
  lv_shot :: "shot_view option"
  lv_heard_roller :: bool
  lv_heard_shot :: bool

definition launcherState ::
  "roller_msg option \<Rightarrow> millis \<Rightarrow> shot_msg option \<Rightarrow> millis \<Rightarrow> millis \<Rightarrow> launcher_view" where
  "launcherState roller rollerAt shot shotAt now =
     \<lparr>lv_roller =
        (case roller of None \<Rightarrow> None
         | Some r \<Rightarrow>
             if now - rollerAt \<le> STATUS_STALE_MS
             then Some \<lparr>rv_percent = map_option (\<lambda>c. js_round (c * PERCENT)) (ro_command r),
                        rv_source = (if ro_source r \<in> set [''joy'', ''lab'', ''idle'']
                                     then ro_source r else ''idle''),
                        rv_locked = ro_locked r, rv_estop = ro_estop r\<rparr>
             else None),
      lv_shot =
        (case shot of None \<Rightarrow> None
         | Some s \<Rightarrow>
             if now - shotAt \<le> STATUS_STALE_MS
             then Some \<lparr>sv_tilt = sh_tilt s, sv_fired = sh_fired_count s,
                        sv_shooting = sh_shooting s, sv_last_source = sh_last_source s,
                        sv_estop = sh_estop s\<rparr>
             else None),
      lv_heard_roller = (roller \<noteq> None),
      lv_heard_shot = (shot \<noteq> None)\<rparr>"

record record_summary =
  rs_max_percent :: "int option"
  rs_tilt :: num
  rs_fired :: int
  rs_controller :: bool
  rs_estop :: bool

fun count_increases :: "int list \<Rightarrow> int" where
  "count_increases (a # b # rest) = max 0 (b - a) + count_increases (b # rest)"
| "count_increases _ = 0"

definition launcherRecordSummary ::
  "roller_msg list \<Rightarrow> shot_msg list \<Rightarrow> record_summary option" where
  "launcherRecordSummary rollers shots =
     (if rollers = [] \<and> shots = [] then None
      else let commands = List.map_filter ro_command rollers;
               counts = List.map_filter sh_fired_count shots;
               tilts = List.map_filter sh_tilt shots
           in Some \<lparr>rs_max_percent =
                      (if commands = [] then None else Some (js_round (Max (set commands) * PERCENT))),
                    rs_tilt = (if tilts = [] then None else Some (last tilts)),
                    rs_fired = count_increases counts,
                    rs_controller = list_ex (\<lambda>m. ro_source m = ''joy'') rollers,
                    rs_estop = (list_ex ro_estop rollers \<or> list_ex sh_estop shots)\<rparr>)"

section \<open>Lemmas\<close>

lemma readiness_fields:
  "sd_owner (shootReadiness online session he st receivedAt now confirmed) = launcher_owner (seen_state online he st) session"
  "sd_ready_to_fire (shootReadiness online session he st receivedAt now confirmed) \<longleftrightarrow>
     launcher_owner (seen_state online he st) session = Some Mine \<and> (case seen_state online he st of None \<Rightarrow> False | Some s \<Rightarrow> ss_ready_to_fire s)"
  "sd_next_fire_in (shootReadiness online session he st receivedAt now confirmed) =
     coalesce (secondsLeft (Option.bind (seen_state online he st) ss_next_fire_in) (max 0 ((now - receivedAt) / 1000))) 0"
  "launcher_owner (seen_state online he st) session = Some Mine \<Longrightarrow>
     sd_spin_ready_in (shootReadiness online session he st receivedAt now confirmed) =
       secondsLeft (Option.bind (seen_state online he st) ss_spin_ready_in) (max 0 ((now - receivedAt) / 1000))"
  by (simp_all add: shootReadiness_def Let_def)

lemma seconds_none_left: "0 \<le> e \<Longrightarrow> coalesce (secondsLeft value e) 0 \<le> 0 \<longleftrightarrow> coalesce value 0 \<le> e"
  by (auto simp: secondsLeft_def split: option.splits)

lemma seconds_over: "(case secondsLeft value elapsed of None \<Rightarrow> False | Some s \<Rightarrow> s \<le> 0) \<longleftrightarrow> (case value of None \<Rightarrow> False | Some v \<Rightarrow> v \<le> elapsed)"
  by (auto simp: secondsLeft_def split: option.splits)

lemma launcher_owner_simps:
  "launcher_owner None session = None"
  "launcher_owner (Some s) session = Some Mine \<longleftrightarrow>
     ss_active s \<and> ss_owner s \<noteq> None \<and> ss_owner s = session"
  by (auto simp: launcher_owner_def)

lemma seen_state_Some:
  "seen_state online he st = Some s \<longleftrightarrow>
     online \<and> st = Some s \<and> (\<exists>su. shootSupport he = Some su \<and> su_allowed su)"
  by (auto simp: seen_state_def split: option.splits)

lemma shoot_blocker_codes:
  "list_all (\<lambda>b. bk_code b \<in> set SHOOT_BLOCKERS) (shoot_blocker_list online session he st confirmed)"
  by (auto simp: shoot_blocker_list_def link_blocker_def stateBlockers_def Let_def list_all_iff
        SHOOT_BLOCKERS_def split: option.splits)

lemma sort_find_None:
  "find P (sort_blockers table bs) = None \<longleftrightarrow> \<not> (\<exists>b \<in> set bs. P b)"
  by (auto simp: find_None_iff)

lemma blocked_by_None_iff: "blocked_by r = None \<longleftrightarrow> sd_blockers r = []"
proof -
  have "first_some a b = None \<longleftrightarrow> a = None \<and> b = None" for a b :: "blocker option"
    by (cases a) simp_all
  then have "blocked_by r = None \<longleftrightarrow> (\<forall>b \<in> set (sd_blockers r). False)"
    unfolding blocked_by_def by (auto simp: find_None_iff)
  then show ?thesis by (cases "sd_blockers r") auto
qed

lemma sd_blockers_empty_iff:
  "sd_blockers (shootReadiness online session he st at0 now confirmed) = [] \<longleftrightarrow>
     shoot_blocker_list online session he st confirmed = []"
  by (simp add: shootReadiness_def Let_def)

text \<open>The launcher is ready: the state the bridge sent, seen over an allowed link, blocks nothing.\<close>

definition launcher_clear ::
  "bool \<Rightarrow> string option \<Rightarrow> hello option \<Rightarrow> shoot_state option \<Rightarrow> bool" where
  "launcher_clear online session he st \<longleftrightarrow>
     (case seen_state online he st of
        None \<Rightarrow> False
      | Some s \<Rightarrow> ss_allowed s \<noteq> Some False \<and> stateBlockers (Some s) = []
                 \<and> launcher_owner (Some s) session \<noteq> Some Others)"

lemma shoot_blocker_list_empty_iff:
  "shoot_blocker_list online session he st confirmed = [] \<longleftrightarrow>
     confirmed \<and> launcher_clear online session he st"
proof (cases "seen_state online he st")
  case None
  then show ?thesis
    by (auto simp: shoot_blocker_list_def link_blocker_def launcher_clear_def Let_def
          seen_state_def split: option.splits if_splits)
next
  case (Some s)
  then obtain su where "online" "shootSupport he = Some su" "su_allowed su" "st = Some s"
    by (auto simp: seen_state_Some)
  with Some show ?thesis
    by (auto simp: shoot_blocker_list_def link_blocker_def launcher_clear_def Let_def)
qed

lemma powerRange_bounds:
  "fst (powerRange l) \<le> snd (powerRange l)" "0 \<le> fst (powerRange l)"
  by (simp_all add: powerRange_def Let_def)

lemma clampPercent_range:
  "fst (powerRange l) \<le> clampPercent p l \<and> clampPercent p l \<le> snd (powerRange l)"
proof -
  obtain mn mx where r: "powerRange l = (mn, mx)" by (cases "powerRange l")
  then have "mn \<le> mx" using powerRange_bounds(1) [of l] by simp
  then show ?thesis by (simp add: clampPercent_def r Let_def)
qed

lemma powerRange_max: "of_int (snd (powerRange l)) \<le> max 0 (l MaxPower * PERCENT + 1 / 10 ^ 9)"
proof -
  have le: "of_int \<lfloor>l MaxPower * PERCENT + 1 / 10 ^ 9\<rfloor> \<le> l MaxPower * PERCENT + 1 / 10 ^ 9"
    by (rule of_int_floor_le)
  have "of_int (max 0 n) = max 0 (of_int n :: real)" for n
    by (simp add: max_def)
  then have "of_int (snd (powerRange l))
      = max 0 (of_int \<lfloor>l MaxPower * PERCENT + 1 / 10 ^ 9\<rfloor> :: real)"
    by (simp add: powerRange_def Let_def)
  with le show ?thesis by linarith
qed

lemma clampPercent_idem: "clampPercent (Some (of_int (clampPercent p l))) l = clampPercent p l"
proof -
  obtain mn mx where r: "powerRange l = (mn, mx)" by (cases "powerRange l")
  with clampPercent_range [of l p] have "mn \<le> clampPercent p l" "clampPercent p l \<le> mx" by simp_all
  then show ?thesis unfolding clampPercent_def [of "Some _"] r by (simp add: Let_def)
qed

lemma count_increases_nonneg: "0 \<le> count_increases ns"
  by (induction ns rule: count_increases.induct) auto

lemma count_increases_ge: "last (n # ns) - n \<le> count_increases (n # ns)"
proof (induction ns arbitrary: n)
  case Nil
  then show ?case by simp
next
  case (Cons m ns)
  have "last (m # ns) - m \<le> count_increases (m # ns)" by (rule Cons.IH)
  then show ?case by simp
qed

lemma count_increases_mono: "sorted (n # ns) \<Longrightarrow> count_increases (n # ns) = last (n # ns) - n"
proof (induction ns arbitrary: n)
  case Nil
  then show ?case by simp
next
  case (Cons m ns)
  then have "count_increases (m # ns) = last (m # ns) - m" by simp
  with Cons.prems show ?case by simp
qed

section \<open>The shot tracker over a whole page\<close>

text \<open>
  The four calls \<open>shoot-link.js\<close> makes on the tracker, with the results handed to the page and
  the number of fires it sent.
\<close>

datatype tracker_event =
    FireSent pending_fire
  | ShotArrived "shot_msg option" millis
  | HeartbeatAt millis "string option"
  | FireRefused

record tracker_log =
  tl_tracker :: tracker
  tl_results :: "shot_result list"
  tl_sent :: nat

definition log_result :: "shot_result option \<times> tracker \<Rightarrow> tracker_log \<Rightarrow> tracker_log" where
  "log_result rt lg =
     lg\<lparr>tl_tracker := snd rt,
        tl_results := (case fst rt of None \<Rightarrow> tl_results lg | Some r \<Rightarrow> tl_results lg @ [r])\<rparr>"

fun tracker_step :: "tracker_event \<Rightarrow> tracker_log \<Rightarrow> tracker_log" where
  "tracker_step (FireSent p) lg =
     lg\<lparr>tl_tracker := noteFireSent p (tl_tracker lg), tl_sent := Suc (tl_sent lg)\<rparr>"
| "tracker_step (ShotArrived shot now) lg = log_result (ingestShot (tl_tracker lg) shot now) lg"
| "tracker_step (HeartbeatAt now reason) lg = log_result (expireFire (tl_tracker lg) now reason) lg"
| "tracker_step FireRefused lg = lg\<lparr>tl_tracker := dropPendingFire (tl_tracker lg)\<rparr>"

fun answers_fire :: "shot_result \<Rightarrow> bool" where
  "answers_fire (Fired p t) = True"
| "answers_fire (OtherFired s) = False"
| "answers_fire (NotFired r) = True"

definition waiting_fires :: "tracker \<Rightarrow> nat" where
  "waiting_fires t = (case tk_pending t of None \<Rightarrow> 0 | Some p \<Rightarrow> 1)"

definition account_ok :: "tracker_log \<Rightarrow> bool" where
  "account_ok lg \<longleftrightarrow>
     length (filter answers_fire (tl_results lg)) + waiting_fires (tl_tracker lg) \<le> tl_sent lg"

definition new_tracker_log :: tracker_log where
  "new_tracker_log = \<lparr>tl_tracker = createShotTracker, tl_results = [], tl_sent = 0\<rparr>"

lemma expireFire_account:
  "expireFire t now reason = (r, t') \<Longrightarrow>
   (case r of None \<Rightarrow> 0 | Some x \<Rightarrow> if answers_fire x then 1 else 0) + waiting_fires t' \<le> waiting_fires t"
  by (auto simp: expireFire_def waiting_fires_def split: option.splits if_splits)

lemma ingestShot_account:
  assumes "ingestShot t shot now = (r, t')"
  shows "(case r of None \<Rightarrow> 0 | Some x \<Rightarrow> if answers_fire x then 1 else 0) + waiting_fires t'
    \<le> waiting_fires t"
proof -
  have same: "waiting_fires (t\<lparr>tk_count := c\<rparr>) = waiting_fires t" for c
    by (simp add: waiting_fires_def)
  show ?thesis
  proof (cases "Option.bind shot sh_fired_count")
    case None
    with assms show ?thesis by (simp add: ingestShot_def expireFire_account)
  next
    case (Some n)
    show ?thesis
    proof (cases "case tk_count t of None \<Rightarrow> True | Some b \<Rightarrow> n \<le> b")
      case True
      with Some assms
      have "expireFire (t\<lparr>tk_count := Some n\<rparr>) now (Option.bind shot sh_lab_refused) = (r, t')"
        by (simp add: ingestShot_def Let_def)
      from expireFire_account [OF this] show ?thesis by (simp add: same)
    next
      case False
      with Some assms show ?thesis
        by (auto simp: ingestShot_def Let_def waiting_fires_def split: option.splits if_splits)
    qed
  qed
qed

lemma log_result_account:
  assumes "account_ok lg"
    and "(case r of None \<Rightarrow> 0 | Some x \<Rightarrow> if answers_fire x then 1 else 0) + waiting_fires t'
           \<le> waiting_fires (tl_tracker lg)"
  shows "account_ok (log_result (r, t') lg)"
  using assms by (auto simp: account_ok_def log_result_def split: option.splits if_splits)

lemma tracker_step_account: "account_ok lg \<Longrightarrow> account_ok (tracker_step e lg)"
proof (cases e)
  case (FireSent p)
  assume "account_ok lg"
  with FireSent show ?thesis
    by (auto simp: account_ok_def noteFireSent_def waiting_fires_def split: option.splits)
next
  case (ShotArrived shot now)
  assume ok: "account_ok lg"
  obtain r t' where "ingestShot (tl_tracker lg) shot now = (r, t')" by fastforce
  with ok ShotArrived show ?thesis
    using log_result_account [OF ok ingestShot_account] by simp
next
  case (HeartbeatAt now reason)
  assume ok: "account_ok lg"
  obtain r t' where "expireFire (tl_tracker lg) now reason = (r, t')" by fastforce
  with ok HeartbeatAt show ?thesis
    using log_result_account [OF ok expireFire_account] by simp
next
  case FireRefused
  assume "account_ok lg"
  with FireRefused show ?thesis
    by (auto simp: account_ok_def dropPendingFire_def waiting_fires_def split: option.splits)
qed

interpretation shot_account: event_machine tracker_step account_ok
  by unfold_locales (rule tracker_step_account)

section \<open>Properties\<close>

text \<open>
  C4: the fire button is enabled exactly when the safety tick is set, the launcher is clear over
  an allowed link, this page owns the session and asked for the roller, no fire is waiting and no
  shot is moving, the spin-up and the fire interval are over at this moment (counted down from the
  frame's arrival) and the bridge says it is ready to fire.
\<close>

theorem fire_enabled_iff:
  "ct_enabled (sc_fire (shootControls
      (shootReadiness online session he st receivedAt now confirmed) lo)) \<longleftrightarrow>
   confirmed \<and> launcher_clear online session he st \<and>
   lo_spinning lo \<and> \<not> lo_fire_pending lo \<and> \<not> lo_shooting lo \<and>
   (case seen_state online he st of
      None \<Rightarrow> False
    | Some s \<Rightarrow>
        launcher_owner (Some s) session = Some Mine \<and> ss_ready_to_fire s \<and>
        (case ss_spin_ready_in s of
           None \<Rightarrow> False | Some v \<Rightarrow> v \<le> max 0 ((now - receivedAt) / 1000)) \<and>
        coalesce (ss_next_fire_in s) 0 \<le> max 0 ((now - receivedAt) / 1000))"
proof -
  define r where "r = shootReadiness online session he st receivedAt now confirmed"
  have "blocked_by r = None \<longleftrightarrow> confirmed \<and> launcher_clear online session he st"
    by (simp add: blocked_by_None_iff r_def sd_blockers_empty_iff shoot_blocker_list_empty_iff)
  moreover have "ct_enabled (sc_fire (shootControls r lo)) \<longleftrightarrow>
      blocked_by r = None \<and> lo_spinning lo \<and> sd_owner r = Some Mine \<and> \<not> lo_fire_pending lo \<and>
      \<not> lo_shooting lo \<and> (case sd_spin_ready_in r of None \<Rightarrow> False | Some s \<Rightarrow> s \<le> 0) \<and>
      sd_next_fire_in r \<le> 0 \<and> sd_ready_to_fire r"
    by (auto simp: shootControls_def fireControl_def Let_def control_on_def control_off_def
          split: option.splits)
  ultimately show ?thesis
    unfolding r_def [symmetric] using readiness_fields [where online = online and session = session and he = he and st = st and receivedAt = receivedAt and now = now and confirmed = confirmed, folded r_def]
    by (cases "seen_state online he st"; cases "launcher_owner (seen_state online he st) session = Some Mine")
      (auto simp: launcher_owner_simps(1) seconds_over seconds_none_left)
qed

text \<open>
  whatever the learner asks for, the roller power the page sends (a whole percent, divided by
  100 on the wire) is never negative and never more than the bridge's cap, up to the slack the code
  itself adds; clamping twice is clamping once.
\<close>

theorem clampPercent_within_cap:
  "0 \<le> clampPercent p l \<and>
   of_int (clampPercent p l) / PERCENT \<le> max 0 (l MaxPower + 1 / 10 ^ 11) \<and>
   clampPercent (Some (of_int (clampPercent p l))) l = clampPercent p l"
proof -
  have "of_int (clampPercent p l) \<le> (of_int (snd (powerRange l)) :: real)"
    using clampPercent_range [of l p] by simp
  then have le: "of_int (clampPercent p l) \<le> max 0 (l MaxPower * PERCENT + 1 / 10 ^ 9)"
    using powerRange_max [of l] by linarith
  have "of_int (clampPercent p l) / PERCENT \<le> max 0 (l MaxPower * PERCENT + 1 / 10 ^ 9) / PERCENT"
    using le by (rule divide_right_mono) (simp add: PERCENT_def)
  also have "\<dots> = max 0 (l MaxPower + 1 / 10 ^ 11)"
    by (simp add: PERCENT_def max_def field_simps)
  finally show ?thesis
    using clampPercent_range [of l p] powerRange_bounds(2) [of l] clampPercent_idem by simp
qed

text \<open>
  over any sequence of fires, status messages, heartbeats and refusals of a page, the results
  that answer a fire (the disc flew, or the robot did not fire) never outnumber the fires the page
  sent, so a disc of the controller or of another page is never counted twice or as this page's.
\<close>

theorem shots_never_exceed_fires:
  "account_ok (fold tracker_step es new_tracker_log)"
proof -
  have "account_ok new_tracker_log"
    by (simp add: account_ok_def new_tracker_log_def waiting_fires_def createShotTracker_def)
  then show ?thesis by (rule shot_account.run_inv)
qed

text \<open>
  the discs a recorded launcher session reports are the increases of the counter: never
  negative, at least the counter's net change, and exactly it when the counter never went back
  (the node was not restarted).
\<close>

theorem recorded_discs:
  assumes "List.map_filter sh_fired_count shots = n # ns"
  shows "(case launcherRecordSummary rollers shots of None \<Rightarrow> False | Some s \<Rightarrow>
      0 \<le> rs_fired s \<and> last (n # ns) - n \<le> rs_fired s \<and>
      (sorted (n # ns) \<longrightarrow> rs_fired s = last (n # ns) - n))"
proof -
  have "shots \<noteq> []" using assms by (auto simp: List.map_filter_def)
  with assms show ?thesis
    using count_increases_nonneg [of "n # ns"] count_increases_ge [of n ns]
      count_increases_mono [of n ns]
    by (simp add: launcherRecordSummary_def Let_def del: count_increases.simps)
qed

definition shot_example :: "int \<Rightarrow> shot_msg" where
  "shot_example n = \<lparr>sh_stamp = 0, sh_fired_count = Some n, sh_last_source = Some ''lab'',
     sh_tilt = None, sh_shooting = False, sh_lab_refused = None, sh_estop = False\<rparr>"

theorem recorded_discs_witness:
  "map_option rs_fired (launcherRecordSummary [] [shot_example 2, shot_example 5]) = Some 3"
proof -
  have "List.map_filter sh_fired_count [shot_example 2, shot_example 5] = 2 # [5]"
    by (simp add: List.map_filter_def shot_example_def)
  from recorded_discs [OF this, of "[]"] show ?thesis
    by (simp split: option.splits)
qed

end
