(* ===== verification/Shoot_Link.thy ===== *)
theory Shoot_Link
  imports Robot_Link Shoot_Core
begin

text \<open>
  \<open>lab/js/live/shoot-link.js\<close>: the one module that sends launcher frames. The module's variables
  are the record \<open>shoot_page\<close>, with the link of \<open>Robot_Link\<close> inside it, and the session in progress is
  \<open>shoot_session\<close>. As in \<open>Drive_Link\<close>, an event of the link is a step of \<open>link_step\<close> followed by
  this module's listeners on what that step emitted. Clock readings are milliseconds and come with
  the events. What the session listeners and the shot listeners are told is appended to \<open>sp_told\<close>
  and \<open>sp_rows\<close>.
\<close>

section \<open>State\<close>

definition STALL_MS :: millis where "STALL_MS = 400"
definition START_TIMEOUT_MS :: millis where "START_TIMEOUT_MS = 1500"
definition TILT_HOLD_MS :: millis where "TILT_HOLD_MS = 3000"
definition TILT_GAP_MS :: millis where "TILT_GAP_MS = 120"
definition AFTER_SHOT_MS :: millis where "AFTER_SHOT_MS = 800"
definition TILT_FEEDBACK_GRACE_MS :: millis where "TILT_FEEDBACK_GRACE_MS = 1000"
definition TILT_FOLLOW_DEG :: real where "TILT_FOLLOW_DEG = 3"
definition DEFAULT_PERCENT :: int where "DEFAULT_PERCENT = 50"

datatype mode = Spin | TiltOnly

record shoot_session =
  ses_mode :: mode
  ses_percent :: int
  ses_started :: bool
  ses_started_at :: millis
  ses_beat_at :: millis
  ses_last_tilt_at :: millis
  ses_stop_after :: "millis option"
  ses_shots :: nat

datatype shoot_note = NoteEnded string | NoteFired int real | NoteNotFired "string option"
  | NoteRefused shoot_refused

datatype told = SessionStart | SessionEnd string nat

record shoot_page =
  sp_link :: link
  sp_confirmed :: bool
  sp_current :: "shoot_session option"
  sp_fire_pending :: "millis option"
  sp_note :: "shoot_note option"
  sp_percent :: int
  sp_tilt :: "int option"
  sp_tracker :: tracker
  sp_state_at :: millis
  sp_roller_at :: millis
  sp_shot_at :: millis
  sp_shots_this_page :: nat
  sp_tilt_timer :: "millis option"
  sp_tilt_sent_at :: "millis option"
  sp_tilt_awaiting :: "(int \<times> millis) option"
  sp_told :: "told list"
  sp_rows :: "(int \<times> real) list"

definition init_shoot_page :: shoot_page where
  "init_shoot_page =
     \<lparr>sp_link = init_link, sp_confirmed = False, sp_current = None, sp_fire_pending = None,
      sp_note = None, sp_percent = DEFAULT_PERCENT, sp_tilt = None, sp_tracker = createShotTracker,
      sp_state_at = 0, sp_roller_at = 0, sp_shot_at = 0, sp_shots_this_page = 0,
      sp_tilt_timer = None, sp_tilt_sent_at = None, sp_tilt_awaiting = None, sp_told = [], sp_rows = []\<rparr>"

section \<open>What a view needs\<close>

definition readiness :: "millis \<Rightarrow> shoot_page \<Rightarrow> shoot_readiness" where
  "readiness now p =
     shootReadiness (lk_phase (sp_link p) = Open) (lk_session (sp_link p)) (lk_hello (sp_link p))
       (latest_shoot_state (sp_link p)) (sp_state_at p) now (sp_confirmed p)"

definition page_launcher :: "millis \<Rightarrow> shoot_page \<Rightarrow> launcher_view" where
  "page_launcher now p =
     launcherState (latest_roller (sp_link p)) (sp_roller_at p) (latest_shot (sp_link p))
       (sp_shot_at p) now"

definition page_local :: "millis \<Rightarrow> shoot_page \<Rightarrow> shoot_local" where
  "page_local now p =
     \<lparr>lo_spinning = (map_option ses_mode (sp_current p) = Some Spin),
      lo_session = (sp_current p \<noteq> None),
      lo_fire_pending = (sp_fire_pending p \<noteq> None),
      lo_shooting = (case lv_shot (page_launcher now p) of None \<Rightarrow> False | Some s \<Rightarrow> sv_shooting s),
      lo_tilt_known = (Option.bind (lv_shot (page_launcher now p)) sv_tilt \<noteq> None)\<rparr>"

definition page_controls :: "millis \<Rightarrow> shoot_page \<Rightarrow> shoot_controls" where
  "page_controls now p = shootControls (readiness now p) (page_local now p)"

definition page_tilt :: "millis \<Rightarrow> shoot_page \<Rightarrow> int" where
  "page_tilt now p =
     clampTilt
       (first_some (map_option of_int (sp_tilt p))
         (first_some (Option.bind (lv_shot (page_launcher now p)) sv_tilt)
           (Some (sd_limits (readiness now p) TiltMin))))
       (sd_limits (readiness now p))"

definition chosenPercent :: "millis \<Rightarrow> shoot_page \<Rightarrow> int" where
  "chosenPercent now p = clampPercent (Some (of_int (sp_percent p))) (sd_limits (readiness now p))"

definition mayStopOwn :: "shoot_page \<Rightarrow> bool" where
  "mayStopOwn p \<longleftrightarrow>
     (case latest_shoot_state (sp_link p) of
        None \<Rightarrow> True
      | Some s \<Rightarrow> \<not> (ss_active s \<and> ss_owner s \<noteq> None \<and> ss_owner s \<noteq> lk_session (sp_link p)))"

definition shoot_send :: "frame_out \<Rightarrow> shoot_page \<Rightarrow> bool \<times> shoot_page" where
  "shoot_send f p = (case sendRobot f (sp_link p) of (ok, l) \<Rightarrow> (ok, p\<lparr>sp_link := l\<rparr>))"

section \<open>The end of a session\<close>

text \<open>The variables a session leaves behind are cleared; a fire already sent stays in the tracker.\<close>

definition clear_session :: "shoot_page \<Rightarrow> shoot_page" where
  "clear_session p =
     p\<lparr>sp_current := None, sp_tilt_timer := None, sp_tilt := None, sp_tilt_awaiting := None,
       sp_fire_pending := None\<rparr>"

definition end_note :: "string \<Rightarrow> string option \<Rightarrow> shoot_note option \<Rightarrow> shoot_note option" where
  "end_note reason key note =
     (case key of None \<Rightarrow> note
      | Some k \<Rightarrow>
          if (case note of Some (NoteRefused _) \<Rightarrow> True | _ \<Rightarrow> False) \<and> reason = ''refused''
          then note else Some (NoteEnded k))"

definition end_confirmation :: "shoot_session \<Rightarrow> string \<Rightarrow> bool \<Rightarrow> bool" where
  "end_confirmation session reason confirmed =
     (if ses_started session \<and> (ses_shots session > 0 \<or> \<not> keepsConfirmation reason)
      then False else confirmed)"

definition finishSession :: "string \<Rightarrow> shoot_page \<Rightarrow> shoot_page" where
  "finishSession reason p =
     (case sp_current p of
        None \<Rightarrow> p
      | Some session \<Rightarrow>
          (let p = clear_session p;
               p = (if reason \<notin> {''bridge'', ''lost'', ''refused''} \<and> mayStopOwn p
                    then snd (shoot_send RollerStopOut p) else p);
               key = sessionEndKey reason (Option.bind (latest_shoot_state (sp_link p)) ss_last_stop)
                       (lk_session (sp_link p))
           in p\<lparr>sp_confirmed := end_confirmation session reason (sp_confirmed p),
                sp_note := end_note reason key (sp_note p),
                sp_told := (if ses_started session
                            then sp_told p @ [SessionEnd (coalesce key reason) (ses_shots session)]
                            else sp_told p)\<rparr>))"

definition stopLauncher :: "shoot_page \<Rightarrow> shoot_page" where
  "stopLauncher p = finishSession ''stopped'' (snd (shoot_send RollerStopOut p))"

definition stopOwn :: "string \<Rightarrow> shoot_page \<Rightarrow> shoot_page" where
  "stopOwn reason p = finishSession (if reason = ''left'' then ''left'' else ''stopped'') p"

section \<open>The heartbeat\<close>

definition missed :: "string option \<Rightarrow> shoot_page \<Rightarrow> shoot_page" where
  "missed reason p = p\<lparr>sp_fire_pending := None, sp_note := Some (NoteNotFired reason)\<rparr>"

definition beat_expiry :: "millis \<Rightarrow> shoot_page \<Rightarrow> shoot_page" where
  "beat_expiry now p =
     (case expireFire (sp_tracker p) now (Option.bind (latest_shot (sp_link p)) sh_lab_refused) of
        (result, t) \<Rightarrow>
          (case result of
             Some (NotFired reason) \<Rightarrow> missed reason (p\<lparr>sp_tracker := t\<rparr>)
           | _ \<Rightarrow> p\<lparr>sp_tracker := t\<rparr>))"

definition roller_power :: "shoot_session \<Rightarrow> real" where
  "roller_power session = (case ses_mode session of Spin \<Rightarrow> of_int (ses_percent session) / 100 | TiltOnly \<Rightarrow> 0)"

definition shot_over :: "millis \<Rightarrow> shoot_session \<Rightarrow> shoot_page \<Rightarrow> bool" where
  "shot_over now session p \<longleftrightarrow>
     (case ses_stop_after session of None \<Rightarrow> False
      | Some t0 \<Rightarrow> \<not> (case latest_shot (sp_link p) of None \<Rightarrow> False | Some s \<Rightarrow> sh_shooting s) \<and> now \<ge> t0)"

definition heartbeat :: "millis \<Rightarrow> shoot_page \<Rightarrow> shoot_page" where
  "heartbeat now p =
     (case sp_current p of
        None \<Rightarrow> p
      | Some session \<Rightarrow>
          if now - ses_beat_at session > STALL_MS then finishSession ''stalled'' p
          else (let session = session\<lparr>ses_beat_at := now\<rparr>;
                    p = p\<lparr>sp_current := Some session\<rparr>
                in if \<not> ses_started session \<and> now - ses_started_at session > START_TIMEOUT_MS
                   then finishSession ''no_answer'' p
                   else if ses_mode session = TiltOnly \<and> now - ses_last_tilt_at session > TILT_HOLD_MS
                   then finishSession ''idle'' p
                   else if shot_over now session p then finishSession ''fired'' p
                   else (case shoot_send (RollerOut (roller_power session)) p of
                           (ok, p') \<Rightarrow>
                             if \<not> ok then finishSession ''lost'' p' else beat_expiry now p')))"

definition startSession :: "mode \<Rightarrow> millis \<Rightarrow> shoot_page \<Rightarrow> shoot_page" where
  "startSession mode now p =
     (if sp_current p \<noteq> None then p
      else heartbeat now
             (p\<lparr>sp_current := Some \<lparr>ses_mode = mode, ses_percent = chosenPercent now p,
                  ses_started = False, ses_started_at = now, ses_beat_at = now,
                  ses_last_tilt_at = now, ses_stop_after = None, ses_shots = 0\<rparr>,
                sp_note := None\<rparr>))"

section \<open>What the learner asks for\<close>

definition confirmShootSafety :: "bool \<Rightarrow> shoot_page \<Rightarrow> shoot_page" where
  "confirmShootSafety value p =
     p\<lparr>sp_confirmed := value,
       sp_note := (if value \<and> (case sp_note p of Some (NoteEnded _) \<Rightarrow> True | _ \<Rightarrow> False)
                   then None else sp_note p)\<rparr>"

definition setRollerPercent :: "num \<Rightarrow> millis \<Rightarrow> shoot_page \<Rightarrow> shoot_page" where
  "setRollerPercent percent now p =
     (let n = clampPercent percent (sd_limits (readiness now p))
      in p\<lparr>sp_percent := n,
           sp_current := (case sp_current p of
                            None \<Rightarrow> None
                          | Some session \<Rightarrow>
                              Some (if ses_mode session = Spin
                                    then session\<lparr>ses_percent := n\<rparr> else session))\<rparr>)"

definition startRoller :: "millis \<Rightarrow> shoot_page \<Rightarrow> shoot_page" where
  "startRoller now p =
     (let spin = sc_spin (page_controls now p) in
      if \<not> ct_enabled spin \<or> ct_stop spin then p
      else case sp_current p of
             Some session \<Rightarrow>
               p\<lparr>sp_current := Some (session\<lparr>ses_mode := Spin, ses_percent := chosenPercent now p\<rparr>)\<rparr>
           | None \<Rightarrow> startSession Spin now p)"

definition sendTilt :: "millis \<Rightarrow> shoot_page \<Rightarrow> shoot_page" where
  "sendTilt now p =
     (let p = p\<lparr>sp_tilt_timer := None\<rparr> in
      case sp_current p of
        None \<Rightarrow> p
      | Some session \<Rightarrow>
          (let p = p\<lparr>sp_current := Some (session\<lparr>ses_last_tilt_at := now\<rparr>),
                    sp_tilt_sent_at := Some now\<rparr> in
           case shoot_send (TiltOut (map_option of_int (sp_tilt p))) p of
             (ok, p') \<Rightarrow>
               if ok then p'\<lparr>sp_tilt_awaiting := map_option (\<lambda>deg. (deg, now)) (sp_tilt p')\<rparr> else p'))"

text \<open>When the next tilt frame may go: \<open>TILT_GAP_MS\<close> after the last one.\<close>

definition tilt_due :: "millis \<Rightarrow> millis option \<Rightarrow> millis" where
  "tilt_due now sent =
     now + (case sent of None \<Rightarrow> 0 | Some t0 \<Rightarrow> max 0 (TILT_GAP_MS - (now - t0)))"

definition setTilt :: "num \<Rightarrow> millis \<Rightarrow> shoot_page \<Rightarrow> shoot_page" where
  "setTilt deg now p =
     (if \<not> ct_enabled (sc_tilt (page_controls now p)) then p
      else let p = startSession TiltOnly now
                     (p\<lparr>sp_tilt := Some (clampTilt deg (sd_limits (readiness now p)))\<rparr>)
           in case sp_current p of
                None \<Rightarrow> p
              | Some session \<Rightarrow>
                  p\<lparr>sp_current := Some (session\<lparr>ses_last_tilt_at := now\<rparr>),
                    sp_tilt_timer := Some (tilt_due now (sp_tilt_sent_at p))\<rparr>)"

definition fireOne :: "millis \<Rightarrow> shoot_page \<Rightarrow> shoot_page" where
  "fireOne now p =
     (case sp_current p of
        None \<Rightarrow> p
      | Some session \<Rightarrow>
          if \<not> sp_confirmed p \<or> \<not> ct_enabled (sc_fire (page_controls now p)) then p
          else (let percent = clampPercent (Some (of_int (ses_percent session)))
                                (sd_limits (readiness now p));
                    t = noteFireSent \<lparr>pf_at = now, pf_percent = percent,
                          pf_tilt = of_int (page_tilt now p)\<rparr> (sp_tracker p);
                    q = p\<lparr>sp_fire_pending := Some now, sp_tracker := t, sp_note := None\<rparr>
                in case shoot_send (FireOut (sp_confirmed p)) q of
                     (ok, q') \<Rightarrow> if \<not> ok then finishSession ''lost'' q' else q'))"

section \<open>What the bridge says\<close>

definition onShootState :: "millis \<Rightarrow> shoot_state \<Rightarrow> shoot_page \<Rightarrow> shoot_page" where
  "onShootState now s p =
     (let p = p\<lparr>sp_state_at := now\<rparr> in
      case sp_current p of
        None \<Rightarrow> p
      | Some session \<Rightarrow>
          (let mine = (ss_active s \<and> ss_owner s = lk_session (sp_link p)) in
           if mine \<and> \<not> ses_started session
           then p\<lparr>sp_current := Some (session\<lparr>ses_started := True\<rparr>), sp_told := sp_told p @ [SessionStart]\<rparr>
           else if ses_started session \<and> \<not> mine then finishSession ''bridge'' p else p))"

definition onRefused :: "shoot_refused \<Rightarrow> shoot_page \<Rightarrow> shoot_page" where
  "onRefused r p =
     (let fire = (sr_request r = ''fire'');
          p = (if fire
               then p\<lparr>sp_fire_pending := None, sp_tracker := dropPendingFire (sp_tracker p)\<rparr> else p);
          p = p\<lparr>sp_note := Some (NoteRefused r)\<rparr>
      in case sp_current p of
           None \<Rightarrow> p
         | Some session \<Rightarrow>
             if \<not> ses_started session \<and> \<not> fire then finishSession ''refused'' p else p)"

text \<open>The target this page sent, and whether the slider follows the robot again.\<close>

definition tilt_feedback :: "millis \<Rightarrow> num \<Rightarrow> shoot_page \<Rightarrow> shoot_page" where
  "tilt_feedback now tilt p =
     (case tilt of
        None \<Rightarrow> p
      | Some deg \<Rightarrow>
          (let awaiting = (case sp_tilt_awaiting p of
                             None \<Rightarrow> None
                           | Some (target, t0) \<Rightarrow>
                               if \<bar>deg - of_int target\<bar> < TILT_FOLLOW_DEG \<or> now - t0 \<ge> TILT_FEEDBACK_GRACE_MS
                               then None else Some (target, t0));
               follow = (case sp_tilt p of
                           None \<Rightarrow> False
                         | Some target \<Rightarrow>
                             sp_current p \<noteq> None \<and> sp_tilt_timer p = None \<and> awaiting = None \<and>
                             \<bar>deg - of_int target\<bar> \<ge> TILT_FOLLOW_DEG)
           in p\<lparr>sp_tilt_awaiting := awaiting, sp_tilt := (if follow then None else sp_tilt p)\<rparr>))"

definition fired_disc :: "millis \<Rightarrow> int \<Rightarrow> real \<Rightarrow> shoot_page \<Rightarrow> shoot_page" where
  "fired_disc now percent tilt p =
     p\<lparr>sp_fire_pending := None, sp_shots_this_page := sp_shots_this_page p + 1,
       sp_current := map_option (\<lambda>session. session\<lparr>ses_shots := ses_shots session + 1,
                       ses_stop_after := Some (now + AFTER_SHOT_MS)\<rparr>) (sp_current p),
       sp_note := Some (NoteFired percent tilt), sp_rows := sp_rows p @ [(percent, tilt)]\<rparr>"

definition onShot :: "millis \<Rightarrow> shot_msg \<Rightarrow> shoot_page \<Rightarrow> shoot_page" where
  "onShot now shot p =
     (let p = tilt_feedback now (sh_tilt shot) (p\<lparr>sp_shot_at := now\<rparr>) in
      case ingestShot (sp_tracker p) (Some shot) now of
        (result, t) \<Rightarrow>
          (let p = p\<lparr>sp_tracker := t\<rparr> in
           case result of
             Some (Fired percent tilt) \<Rightarrow> fired_disc now percent tilt p
           | Some (NotFired reason) \<Rightarrow> missed reason p
           | _ \<Rightarrow> p))"

definition shoot_emission :: "millis \<Rightarrow> emission \<Rightarrow> shoot_page \<Rightarrow> shoot_page" where
  "shoot_emission now em p =
     (case em of
        EmitState ph \<Rightarrow> if ph \<noteq> Open then finishSession ''lost'' p else p
      | EmitFrame (ShootStateFrame s) \<Rightarrow> onShootState now s p
      | EmitFrame (ShootRefused r) \<Rightarrow> onRefused r p
      | EmitFrame (StreamFrame (ShotMsg s)) \<Rightarrow> onShot now s p
      | EmitFrame (StreamFrame (RollerMsg r)) \<Rightarrow> p\<lparr>sp_roller_at := now\<rparr>
      | EmitFrame _ \<Rightarrow> p)"

definition shoot_on_link :: "env \<Rightarrow> millis \<Rightarrow> link_event \<Rightarrow> shoot_page \<Rightarrow> shoot_page" where
  "shoot_on_link en now e p =
     (let l = link_step en e (sp_link p)
      in fold (shoot_emission now) (lk_emitted l) (p\<lparr>sp_link := l\<rparr>))"

section \<open>Events of the page\<close>

datatype shoot_event =
    LinkEvent link_event
  | ConfirmShoot bool
  | SetPercent num
  | StartRoller
  | SetTilt num
  | FireOne
  | StopLauncherBar
  | StopOwn string
  | Beat
  | TiltTimer
  | HiddenPage
  | EscKey

fun shoot_react :: "env \<Rightarrow> millis \<Rightarrow> shoot_event \<Rightarrow> shoot_page \<Rightarrow> shoot_page" where
  "shoot_react en now (LinkEvent e) p = shoot_on_link en now e p"
| "shoot_react en now (ConfirmShoot v) p = confirmShootSafety v p"
| "shoot_react en now (SetPercent n) p = setRollerPercent n now p"
| "shoot_react en now StartRoller p = startRoller now p"
| "shoot_react en now (SetTilt deg) p = setTilt deg now p"
| "shoot_react en now FireOne p = fireOne now p"
| "shoot_react en now StopLauncherBar p = stopLauncher p"
| "shoot_react en now (StopOwn reason) p = stopOwn reason p"
| "shoot_react en now Beat p = heartbeat now p"
| "shoot_react en now TiltTimer p = 
     (case sp_tilt_timer p of
        None \<Rightarrow> p
      | Some due \<Rightarrow> if due \<le> now then sendTilt now p else p)"
| "shoot_react en now HiddenPage p = finishSession ''hidden'' p"
| "shoot_react en now EscKey p = finishSession ''stopped'' p"

definition shoot_step :: "env \<Rightarrow> millis \<times> shoot_event \<Rightarrow> shoot_page \<Rightarrow> shoot_page" where
  "shoot_step en ev p = shoot_react en (fst ev) (snd ev) p"

section \<open>One session, and none without an open link\<close>

lemma shoot_send_fields [simp]:
  "sp_current (snd (shoot_send f p)) = sp_current p"
  "sp_fire_pending (snd (shoot_send f p)) = sp_fire_pending p"
  "sp_tilt (snd (shoot_send f p)) = sp_tilt p"
  "sp_tracker (snd (shoot_send f p)) = sp_tracker p"
  "sp_tilt_timer (snd (shoot_send f p)) = sp_tilt_timer p"
  "sp_tilt_sent_at (snd (shoot_send f p)) = sp_tilt_sent_at p"
  "sp_tilt_awaiting (snd (shoot_send f p)) = sp_tilt_awaiting p"
  "sp_confirmed (snd (shoot_send f p)) = sp_confirmed p"
  "sp_link (snd (shoot_send f p)) = snd (sendRobot f (sp_link p))"
  "fst (shoot_send f p) = connection_open (sp_link p)"
  by (simp_all add: shoot_send_def sendRobot_def)

lemma shoot_send_case [simp]:
  "case_prod F (shoot_send f p) = F (connection_open (sp_link p)) (snd (shoot_send f p))"
  by (simp add: shoot_send_def sendRobot_def)

lemma sendRobot_link [simp]:
  "lk_phase (snd (sendRobot f l)) = lk_phase l"
  "connection_open (snd (sendRobot f l)) = connection_open l"
  "latest_shoot_state (snd (sendRobot f l)) = latest_shoot_state l"
  "lk_session (snd (sendRobot f l)) = lk_session l"
  "link_inv (snd (sendRobot f l)) = link_inv l"
  by (simp_all add: sendRobot_def connection_open_def latest_shoot_state_def latestRobot_def
      link_inv_def phase_inv_def save_inv_def split: phase.splits)

lemma clear_session_fields [simp]:
  "sp_link (clear_session p) = sp_link p"
  "sp_current (clear_session p) = None"
  "sp_confirmed (clear_session p) = sp_confirmed p"
  by (simp_all add: clear_session_def)

text \<open>All a \<open>finishSession\<close> does to the link is the \<open>roller_stop\<close> it may send.\<close>

lemma finishSession_link:
  "sp_link (finishSession r p) =
     (if sp_current p \<noteq> None \<and> r \<notin> {''bridge'', ''lost'', ''refused''} \<and> mayStopOwn p
      then snd (sendRobot RollerStopOut (sp_link p)) else sp_link p)"
proof -
  have "mayStopOwn (clear_session p) = mayStopOwn p"
    by (simp add: mayStopOwn_def split: option.splits)
  then show ?thesis by (simp add: finishSession_def Let_def split: option.splits)
qed

lemma finishSession_none [simp]: "sp_current p = None \<Longrightarrow> finishSession r p = p"
  by (simp add: finishSession_def)

lemma finishSession_current [simp]: "sp_current (finishSession r p) = None"
  by (simp add: finishSession_def Let_def split: option.splits)

interpretation shoot_session_laws: single_session sp_current finishSession
  by unfold_locales simp_all

definition link_part :: "shoot_page \<Rightarrow> bool" where
  "link_part p \<longleftrightarrow> link_inv (sp_link p) \<and> (sp_current p = None \<or> lk_phase (sp_link p) = Open)"

text \<open>
  Between two sessions nothing of one is left over; a fire the page waits for is in the tracker; a
  tilt frame that is due has an angle and respects the gap to the one before.
\<close>

definition gap_kept :: "millis option \<Rightarrow> millis option \<Rightarrow> bool" where
  "gap_kept sent due =
     (case (sent, due) of (Some t0, Some d) \<Rightarrow> t0 + TILT_GAP_MS \<le> d | _ \<Rightarrow> True)"

definition local_part :: "shoot_page \<Rightarrow> bool" where
  "local_part p \<longleftrightarrow>
     (sp_current p = None \<longrightarrow> sp_fire_pending p = None \<and> sp_tilt_timer p = None \<and> sp_tilt p = None
        \<and> sp_tilt_awaiting p = None) \<and>
     (sp_fire_pending p \<noteq> None \<longrightarrow> tk_pending (sp_tracker p) \<noteq> None) \<and>
     (sp_tilt_timer p \<noteq> None \<longrightarrow> sp_tilt p \<noteq> None) \<and>
     gap_kept (sp_tilt_sent_at p) (sp_tilt_timer p)"

definition shoot_inv :: "shoot_page \<Rightarrow> bool" where
  "shoot_inv p \<longleftrightarrow> link_part p \<and> local_part p"

subsection \<open>The variables of the module\<close>

lemma gap_kept_simps [simp]: "gap_kept s None" "gap_kept None d"
  by (simp_all add: gap_kept_def split: option.splits)

lemma gap_kept_due: "gap_kept sent (Some (tilt_due now sent))"
  by (auto simp: gap_kept_def tilt_due_def split: option.splits)

lemma local_part_send [simp]: "local_part (snd (shoot_send f p)) = local_part p"
  by (simp add: local_part_def)

lemma local_part_session: "local_part p \<Longrightarrow> local_part (p\<lparr>sp_current := Some s\<rparr>)"
  by (simp add: local_part_def)

lemma local_part_finish: "local_part p \<Longrightarrow> local_part (finishSession r p)"
  by (simp add: finishSession_def Let_def local_part_def clear_session_def split: option.splits)

lemma expireFire_pending:
  "expireFire t now reason = (result, t') \<Longrightarrow>
     (case result of Some (NotFired _) \<Rightarrow> True | _ \<Rightarrow> tk_pending t' = tk_pending t)"
  by (auto simp: expireFire_def split: option.splits if_splits)

lemma ingestShot_pending:
  "ingestShot t shot now = (result, t') \<Longrightarrow>
     (case result of Some (NotFired _) \<Rightarrow> True | Some (Fired _ _) \<Rightarrow> True
      | _ \<Rightarrow> tk_pending t' = tk_pending t)"
  by (auto simp: ingestShot_def expireFire_def Let_def split: option.splits if_splits)

lemma local_part_missed: "local_part p \<Longrightarrow> local_part (missed reason (p\<lparr>sp_tracker := t\<rparr>))"
  by (simp add: missed_def local_part_def)

lemma local_part_expiry: "local_part p \<Longrightarrow> local_part (beat_expiry now p)"
proof -
  assume p: "local_part p"
  obtain result t where r: "expireFire (sp_tracker p) now
      (Option.bind (latest_shot (sp_link p)) sh_lab_refused) = (result, t)" by force
  from p have "local_part (p\<lparr>sp_tracker := t\<rparr>)" if "tk_pending t = tk_pending (sp_tracker p)"
    using that by (simp add: local_part_def)
  with p expireFire_pending [OF r] show ?thesis
    by (simp add: beat_expiry_def r local_part_missed split: option.splits shot_result.splits)
qed

lemma local_part_beat: "local_part p \<Longrightarrow> local_part (heartbeat now p)"
proof -
  assume p: "local_part p"
  have q: "local_part (p\<lparr>sp_current := Some s\<rparr>)" for s by (rule local_part_session [OF p])
  show ?thesis
    by (cases "sp_current p")
       (simp_all add: heartbeat_def Let_def p q local_part_finish local_part_expiry)
qed

text \<open>Right before a session starts its angle is already set.\<close>

lemma local_part_start:
  assumes "local_part (q\<lparr>sp_current := Some undefined\<rparr>)"
  shows "local_part (startSession m now q)"
proof (cases "sp_current q")
  case None
  have "local_part (q\<lparr>sp_current := Some s, sp_note := n\<rparr>)" for s n
    using assms by (simp add: local_part_def)
  with None show ?thesis by (simp add: startSession_def local_part_beat)
next
  case (Some s)
  with assms show ?thesis by (simp add: startSession_def local_part_def)
qed

lemma local_part_setTilt: "local_part p \<Longrightarrow> local_part (setTilt deg now p)"
proof -
  assume p: "local_part p"
  define q where "q = startSession TiltOnly now
    (p\<lparr>sp_tilt := Some (clampTilt deg (sd_limits (readiness now p)))\<rparr>)"
  have "local_part (p\<lparr>sp_tilt := Some a, sp_current := Some s\<rparr>)" for a s
    using p by (simp add: local_part_def)
  then have q: "local_part q"
    unfolding q_def by (intro local_part_start) simp
  have "sp_tilt q \<noteq> None" if "sp_current q \<noteq> None"
  proof -
    have "sp_tilt (beat_expiry now r) = sp_tilt r" for r
      by (simp add: beat_expiry_def missed_def split: prod.splits option.splits shot_result.splits)
    moreover have "sp_current (heartbeat now r) \<noteq> None \<Longrightarrow> sp_tilt (heartbeat now r) = sp_tilt r" for r
      using calculation by (auto simp: heartbeat_def Let_def split: option.splits if_splits)
    ultimately show ?thesis using that
      by (auto simp: q_def startSession_def split: if_splits)
  qed
  with p q show ?thesis
    by (auto simp: setTilt_def q_def [symmetric] Let_def local_part_def gap_kept_due
        split: option.splits)
qed

lemma local_part_startRoller: "local_part p \<Longrightarrow> local_part (startRoller now p)"
proof -
  assume p: "local_part p"
  then have "local_part (startSession Spin now p)"
    by (intro local_part_start local_part_session)
  with p show ?thesis by (simp add: startRoller_def Let_def local_part_session split: option.splits)
qed

lemma local_part_sendTilt: "local_part p \<Longrightarrow> local_part (sendTilt now p)"
  by (auto simp: sendTilt_def Let_def local_part_def split: option.splits)

lemma local_part_fireOne: "local_part p \<Longrightarrow> local_part (fireOne now p)"
proof -
  assume p: "local_part p"
  have "local_part (p\<lparr>sp_fire_pending := Some now, sp_tracker := noteFireSent x (sp_tracker p), sp_note := None\<rparr>)"
    if "sp_current p \<noteq> None" for x
    using p that by (simp add: local_part_def noteFireSent_def)
  with p show ?thesis
    by (cases "sp_current p") (simp_all add: fireOne_def Let_def local_part_finish)
qed

lemma local_part_onShootState: "local_part p \<Longrightarrow> local_part (onShootState now s p)"
proof -
  assume "local_part p"
  then have p: "local_part (p\<lparr>sp_state_at := now\<rparr>)" by (simp add: local_part_def)
  then have "local_part (p\<lparr>sp_state_at := now, sp_current := Some x, sp_told := y\<rparr>)" for x y
    by (simp add: local_part_def)
  with p show ?thesis
    by (simp add: onShootState_def Let_def local_part_finish split: option.splits)
qed

lemma local_part_onRefused: "local_part p \<Longrightarrow> local_part (onRefused r p)"
proof -
  assume "local_part p"
  then have "local_part (p\<lparr>sp_note := n\<rparr>)"
      "local_part (p\<lparr>sp_fire_pending := None, sp_tracker := x, sp_note := n\<rparr>)" for n x
    by (simp_all add: local_part_def)
  then show ?thesis
    by (simp add: onRefused_def Let_def local_part_finish split: option.splits)
qed

lemma local_part_feedback: "local_part p \<Longrightarrow> local_part (tilt_feedback now tilt p)"
  by (cases "sp_tilt_awaiting p"; cases "sp_tilt p")
     (auto simp: tilt_feedback_def Let_def local_part_def split: option.splits)

lemma local_part_onShot: "local_part p \<Longrightarrow> local_part (onShot now shot p)"
proof -
  assume p: "local_part p"
  define q where "q = tilt_feedback now (sh_tilt shot) (p\<lparr>sp_shot_at := now\<rparr>)"
  have "local_part (p\<lparr>sp_shot_at := now\<rparr>)" using p by (simp add: local_part_def)
  then have q: "local_part q" by (simp add: q_def local_part_feedback)
  obtain result t where r: "ingestShot (sp_tracker q) (Some shot) now = (result, t)" by force
  have "local_part (q\<lparr>sp_tracker := t\<rparr>)" if "tk_pending t = tk_pending (sp_tracker q)"
    using q that by (simp add: local_part_def)
  moreover have "local_part (fired_disc now a b (q\<lparr>sp_tracker := t\<rparr>))" for a b
    using q by (simp add: local_part_def fired_disc_def)
  ultimately show ?thesis using ingestShot_pending [OF r] q
    by (simp add: onShot_def q_def [symmetric] r local_part_missed
        split: option.splits shot_result.splits)
qed

lemma local_part_emission: "local_part p \<Longrightarrow> local_part (shoot_emission now em p)"
proof -
  assume p: "local_part p"
  then have "local_part (p\<lparr>sp_roller_at := now\<rparr>)" by (simp add: local_part_def)
  with p show ?thesis
    by (simp add: shoot_emission_def local_part_finish local_part_onShootState local_part_onRefused
        local_part_onShot split: emission.splits frame_in.splits stream_msg.splits)
qed

lemma local_part_emissions: "local_part p \<Longrightarrow> local_part (fold (shoot_emission now) ems p)"
  by (induction ems arbitrary: p) (simp_all add: local_part_emission)

lemma local_part_step: "local_part p \<Longrightarrow> local_part (shoot_step en ev p)"
proof -
  assume p: "local_part p"
  have "local_part (p\<lparr>sp_link := l\<rparr>)" for l using p by (simp add: local_part_def)
  then have "local_part (shoot_on_link en (fst ev) e p)" for e
    by (simp add: shoot_on_link_def Let_def local_part_emissions)
  moreover have "local_part (confirmShootSafety v p)" "local_part (setRollerPercent n (fst ev) p)" for v n
    using p by (auto simp: confirmShootSafety_def setRollerPercent_def local_part_def Let_def
        split: option.splits)
  ultimately show ?thesis using p
    by (cases "snd ev")
       (simp_all add: shoot_step_def local_part_setTilt local_part_startRoller local_part_fireOne
         local_part_finish stopLauncher_def stopOwn_def local_part_beat local_part_sendTilt
         split: option.splits)
qed

subsection \<open>The link\<close>

text \<open>\<open>same_link p p'\<close>: the operation only appended to the frames sent, and started no session.\<close>

definition same_link :: "shoot_page \<Rightarrow> shoot_page \<Rightarrow> bool" where
  "same_link p p' \<longleftrightarrow>
     lk_phase (sp_link p') = lk_phase (sp_link p) \<and> link_inv (sp_link p') = link_inv (sp_link p)
     \<and> connection_open (sp_link p') = connection_open (sp_link p)"

lemma same_link_refl: "same_link p p"
  by (simp add: same_link_def)

lemma same_link_trans: "same_link a b \<Longrightarrow> same_link b c \<Longrightarrow> same_link a c"
  by (simp add: same_link_def)

lemma same_link_eq: "sp_link p' = sp_link p \<Longrightarrow> same_link p p'"
  by (simp add: same_link_def)

lemma same_link_send: "same_link p (snd (shoot_send f p))"
  by (simp add: same_link_def)

lemma same_link_finish: "same_link p (finishSession r p)"
  by (simp add: same_link_def finishSession_link)

lemma same_link_expiry: "same_link p (beat_expiry now p)"
  by (rule same_link_eq)
     (simp add: beat_expiry_def missed_def split: prod.splits option.splits shot_result.splits)

lemma same_link_emission: "same_link p (shoot_emission now em p)"
proof -
  have feedback: "sp_link (tilt_feedback now a q) = sp_link q" for a q
    by (simp add: tilt_feedback_def Let_def split: option.splits)
  have "sp_link (onShot now s p) = sp_link p" for s
    by (simp add: onShot_def Let_def fired_disc_def missed_def feedback
        split: prod.splits option.splits shot_result.splits)
  moreover have "same_link p (onShootState now s p)" for s
    by (auto simp: onShootState_def Let_def same_link_def finishSession_link split: option.splits)
  moreover have "same_link p (onRefused r p)" for r
    by (auto simp: onRefused_def Let_def same_link_def finishSession_link split: option.splits)
  ultimately show ?thesis
    by (simp add: shoot_emission_def same_link_refl same_link_finish same_link_eq
        split: emission.splits frame_in.splits stream_msg.splits)
qed

lemma shoot_emission_idle: "sp_current p = None \<Longrightarrow> sp_current (shoot_emission now em p) = None"
  by (simp add: shoot_emission_def onShootState_def onRefused_def onShot_def fired_disc_def
      missed_def tilt_feedback_def Let_def
      split: emission.splits frame_in.splits stream_msg.splits prod.splits option.splits
        shot_result.splits)

lemma shoot_emission_lost:
  "ph \<noteq> Open \<Longrightarrow> sp_current (shoot_emission now (EmitState ph) p) = None"
  by (simp add: shoot_emission_def)

interpretation shoot_client: link_client sp_link "\<lambda>l. sp_link_update (\<lambda>_. l)"
    "\<lambda>p. sp_current p \<noteq> None" shoot_emission
  using same_link_emission
  by unfold_locales (auto simp: same_link_def shoot_emission_idle shoot_emission_lost)

lemma link_part_link: "link_part p \<Longrightarrow> link_part (shoot_on_link en now e p)"
  using shoot_client.client_step [of p now en e]
  by (auto simp: link_part_def shoot_on_link_def Let_def)

lemma link_part_same:
  "link_part p \<Longrightarrow> same_link p p' \<Longrightarrow> (sp_current p = None \<Longrightarrow> sp_current p' = None) \<Longrightarrow> link_part p'"
  by (auto simp: link_part_def same_link_def)

lemma same_link_beat: "same_link p (heartbeat now p)"
proof (cases "sp_current p")
  case None
  then show ?thesis by (simp add: heartbeat_def same_link_refl)
next
  case (Some s)
  have "same_link p (finishSession r (p\<lparr>sp_current := Some x\<rparr>))" for r x
    by (simp add: same_link_def finishSession_link)
  moreover have "same_link p (finishSession r (snd (shoot_send f (p\<lparr>sp_current := Some x\<rparr>))))"
      "same_link p (beat_expiry now (snd (shoot_send f (p\<lparr>sp_current := Some x\<rparr>))))" for r f x
    using same_link_finish [of "snd (shoot_send f (p\<lparr>sp_current := Some x\<rparr>))" r]
      same_link_expiry [of "snd (shoot_send f (p\<lparr>sp_current := Some x\<rparr>))" now]
    by (simp_all add: same_link_def)
  ultimately show ?thesis using Some
    by (simp add: heartbeat_def Let_def same_link_finish)
qed

lemma beat_idle: "sp_current p = None \<Longrightarrow> heartbeat now p = p"
  by (simp add: heartbeat_def)

lemma same_link_start: "same_link p (startSession m now p)"
proof -
  have "same_link p (heartbeat now (p\<lparr>sp_current := c, sp_note := n\<rparr>))" for c n
    using same_link_beat [of "p\<lparr>sp_current := c, sp_note := n\<rparr>" now] by (simp add: same_link_def)
  then show ?thesis by (simp add: startSession_def same_link_refl)
qed

lemma enabled_open:
  assumes "ct_enabled (sc_tilt (page_controls now p)) \<or>
    (ct_enabled (sc_spin (page_controls now p)) \<and> \<not> ct_stop (sc_spin (page_controls now p)))"
  shows "lk_phase (sp_link p) = Open"
proof -
  have "blocked_by (readiness now p) = None"
    using assms
    by (auto simp: page_controls_def shootControls_def Let_def control_off_def split: if_splits)
  then have "shoot_blocker_list (lk_phase (sp_link p) = Open) (lk_session (sp_link p))
      (lk_hello (sp_link p)) (latest_shoot_state (sp_link p)) (sp_confirmed p) = []"
    by (simp only: blocked_by_None_iff readiness_def sd_blockers_empty_iff)
  then show ?thesis
    by (auto simp: shoot_blocker_list_empty_iff launcher_clear_def seen_state_def
        split: option.splits if_splits)
qed

lemma link_part_step: "link_part p \<Longrightarrow> link_part (shoot_step en ev p)"
proof -
  assume p: "link_part p"
  obtain now e where ev: "ev = (now, e)" by (cases ev)
  have stop: "link_part (finishSession r q)" if "same_link p q" for r q
    using p that same_link_finish [of q r] by (auto simp: link_part_def same_link_def)
  have sent: "same_link p (snd (shoot_send f p))" for f by (rule same_link_send)
  have start: "link_part (startSession m now q)" if "same_link p q" "lk_phase (sp_link p) = Open" for m q
    using p that same_link_start [of q m now] by (auto simp: link_part_def same_link_def)
  show ?thesis
  proof (cases e)
    case (LinkEvent le)
    then show ?thesis by (simp add: ev shoot_step_def link_part_link p)
  next
    case (ConfirmShoot v)
    then show ?thesis using p
      by (simp add: ev shoot_step_def confirmShootSafety_def link_part_def)
  next
    case (SetPercent n)
    then show ?thesis using p
      by (auto simp: ev shoot_step_def setRollerPercent_def Let_def link_part_def split: option.splits)
  next
    case StartRoller
    have "link_part (startRoller now p)"
    proof (cases "sp_current p")
      case None
      with p show ?thesis
        by (auto simp: startRoller_def Let_def intro!: start same_link_refl enabled_open)
    next
      case (Some s)
      with p show ?thesis by (simp add: startRoller_def Let_def link_part_def)
    qed
    with StartRoller show ?thesis by (simp add: ev shoot_step_def)
  next
    case (SetTilt deg)
    have "link_part (setTilt deg now p)"
    proof (cases "ct_enabled (sc_tilt (page_controls now p))")
      case True
      then have "link_part (startSession TiltOnly now (p\<lparr>sp_tilt := x\<rparr>))" for x
        by (auto intro!: start same_link_eq enabled_open)
      moreover have "link_part (case sp_current q of None \<Rightarrow> q
          | Some s \<Rightarrow> q\<lparr>sp_current := Some (g s), sp_tilt_timer := d\<rparr>)" if "link_part q" for q g d
        using that by (auto simp: link_part_def split: option.splits)
      ultimately show ?thesis using True by (simp add: setTilt_def Let_def)
    next
      case False
      with p show ?thesis by (simp add: setTilt_def)
    qed
    with SetTilt show ?thesis by (simp add: ev shoot_step_def)
  next
    case FireOne
    have "link_part (fireOne now p)"
      using p
      by (cases "sp_current p")
         (auto simp: fireOne_def Let_def link_part_def finishSession_link)
    with FireOne show ?thesis by (simp add: ev shoot_step_def)
  next
    case Beat
    then show ?thesis using p same_link_beat [of p now]
      by (simp add: ev shoot_step_def link_part_same [OF p] beat_idle)
  next
    case TiltTimer
    have "link_part (sendTilt now p)"
      using p by (cases "sp_current p") (auto simp: sendTilt_def Let_def link_part_def)
    with TiltTimer p show ?thesis by (simp add: ev shoot_step_def split: option.splits)
  qed (simp_all add: ev shoot_step_def stop sent same_link_refl stopLauncher_def stopOwn_def)
qed

lemma shoot_inv_step: "shoot_inv p \<Longrightarrow> shoot_inv (shoot_step en ev p)"
  by (simp add: shoot_inv_def link_part_step local_part_step)

interpretation shoot_machine: event_machine "shoot_step en" shoot_inv for en
  by unfold_locales (rule shoot_inv_step)

lemma shoot_inv_reachable: "shoot_inv (fold (shoot_step en) es init_shoot_page)"
  by (rule shoot_machine.run_inv)
     (simp add: shoot_inv_def link_part_def local_part_def init_shoot_page_def link_inv_init)

section \<open>The frames of a step\<close>

text \<open>\<open>adds P p p'\<close>: the frames sent between \<open>p\<close> and \<open>p'\<close> all satisfy \<open>P\<close>.\<close>

definition adds :: "(frame_out \<Rightarrow> bool) \<Rightarrow> shoot_page \<Rightarrow> shoot_page \<Rightarrow> bool" where
  "adds P p p' \<longleftrightarrow>
     take (length (lk_out (sp_link p))) (lk_out (sp_link p')) = lk_out (sp_link p)
     \<and> list_all P (drop (length (lk_out (sp_link p))) (lk_out (sp_link p')))"

lemma adds_iff:
  "adds P p p' \<longleftrightarrow> (\<exists>fs. lk_out (sp_link p') = lk_out (sp_link p) @ fs \<and> list_all P fs)"
  by (auto simp: adds_def) (metis append_take_drop_id)

lemma adds_refl: "sp_link p' = sp_link p \<Longrightarrow> adds P p p'"
  by (simp add: adds_iff)

lemma adds_trans: "adds P a b \<Longrightarrow> adds P b c \<Longrightarrow> adds P a c"
  by (auto simp: adds_iff)

lemma adds_mono: "adds P a b \<Longrightarrow> (\<And>f. P f \<Longrightarrow> Q f) \<Longrightarrow> adds Q a b"
  by (auto simp: adds_iff list_all_iff)

lemma adds_send: "P f \<Longrightarrow> adds P p (snd (shoot_send f p))"
  by (simp add: adds_iff sendRobot_def)

lemma adds_link_cong: "sp_link a = sp_link p \<Longrightarrow> adds P a b = adds P p b"
  by (simp add: adds_def)

lemma adds_finish: "P RollerStopOut \<Longrightarrow> adds P p (finishSession r p)"
  by (simp add: adds_iff finishSession_link sendRobot_def)

fun is_roller :: "frame_out \<Rightarrow> bool" where
  "is_roller (RollerOut _) = True"
| "is_roller RollerStopOut = True"
| "is_roller _ = False"

lemma sp_link_expiry [simp]: "sp_link (beat_expiry now p) = sp_link p"
  by (simp add: beat_expiry_def missed_def split: prod.splits option.splits shot_result.splits)

lemma adds_beat: "adds is_roller p (heartbeat now p)"
proof (cases "sp_current p")
  case None
  then show ?thesis by (simp add: heartbeat_def adds_refl)
next
  case (Some s)
  define q where "q x = p\<lparr>sp_current := Some x\<rparr>" for x
  have q: "adds is_roller p b = adds is_roller (q x) b" for x b
    by (rule adds_link_cong [symmetric]) (simp add: q_def)
  have stop: "adds is_roller p (finishSession r (q x))" for r x
    unfolding q [of _ x] by (rule adds_finish) simp
  have roller: "adds is_roller p (snd (shoot_send (RollerOut w) (q x)))" for w x
    unfolding q [of _ x] by (rule adds_send) simp
  have lost: "adds is_roller p (finishSession r (snd (shoot_send (RollerOut w) (q x))))" for r w x
    by (rule adds_trans [OF roller adds_finish]) simp
  have beat: "adds is_roller p (beat_expiry now (snd (shoot_send (RollerOut w) (q x))))" for w x
    by (rule adds_trans [OF roller adds_refl]) simp
  have "adds is_roller p (finishSession r p)" for r by (rule adds_finish) simp
  with Some stop lost beat show ?thesis
    by (simp add: heartbeat_def Let_def q_def [symmetric])
qed

lemma adds_start: "adds is_roller p (startSession m now p)"
proof -
  have "adds is_roller p (heartbeat now (p\<lparr>sp_current := c, sp_note := n\<rparr>))" for c n
    using adds_beat [of "p\<lparr>sp_current := c, sp_note := n\<rparr>" now] by (simp add: adds_def)
  then show ?thesis by (simp add: startSession_def adds_refl)
qed

lemma adds_emission: "adds is_roller p (shoot_emission now em p)"
proof -
  have feedback: "sp_link (tilt_feedback now a q) = sp_link q" for a q
    by (simp add: tilt_feedback_def Let_def split: option.splits)
  have "sp_link (onShot now s p) = sp_link p" for s
    by (simp add: onShot_def Let_def fired_disc_def missed_def feedback
        split: prod.splits option.splits shot_result.splits)
  moreover have stop: "adds is_roller p (finishSession r q)" if "sp_link q = sp_link p" for r q
    unfolding adds_link_cong [OF that, symmetric] by (rule adds_finish) simp
  moreover have "adds is_roller p (onShootState now s p)" for s
    by (auto simp: onShootState_def Let_def adds_refl stop split: option.splits)
  moreover have "adds is_roller p (onRefused r p)" for r
    by (auto simp: onRefused_def Let_def adds_refl stop split: option.splits)
  ultimately show ?thesis
    by (simp add: shoot_emission_def adds_refl split: emission.splits frame_in.splits stream_msg.splits)
qed

lemma adds_emissions: "adds is_roller p (fold (shoot_emission now) ems p)"
  by (induction ems arbitrary: p) (auto simp: adds_refl intro: adds_trans [OF adds_emission])

fun is_fire :: "frame_out \<Rightarrow> bool" where
  "is_fire (FireOut _) = True"
| "is_fire _ = False"

definition fires :: "shoot_page \<Rightarrow> frame_out list" where
  "fires p = filter is_fire (lk_out (sp_link p))"

lemma fires_adds: "adds is_roller p p' \<Longrightarrow> fires p' = fires p"
proof -
  have "list_all is_roller fs \<Longrightarrow> filter is_fire fs = []" for fs
    by (auto simp: filter_empty_conv list_all_iff elim!: is_fire.elims)
  then show "adds is_roller p p' \<Longrightarrow> fires p' = fires p"
    by (auto simp: adds_iff fires_def)
qed

lemma fires_link:
  "fires (shoot_on_link en now e p) = fires p \<or> (\<exists>c. e = SendFrame (FireOut c))"
proof -
  have f: "fires (shoot_on_link en now e p) = fires (p\<lparr>sp_link := link_step en e (sp_link p)\<rparr>)"
    unfolding shoot_on_link_def Let_def by (rule fires_adds [OF adds_emissions])
  have quiet: "fires (p\<lparr>sp_link := link_step en e (sp_link p)\<rparr>) = fires p" if "\<not> may_send e"
    using that by (simp add: fires_def link_out_quiet)
  show ?thesis
  proof (cases e)
    case (SendFrame fr)
    then show ?thesis unfolding f
      by (cases fr) (simp_all add: fires_def link_step_def sendRobot_def)
  next
    case (SaveRecord body)
    then show ?thesis unfolding f
      by (simp add: fires_def link_step_def saveRecordOnRobot_def settle_save_def)
  qed (use f quiet in simp_all)
qed

subsection \<open>How a session ends\<close>

definition end_stops :: "shoot_page \<Rightarrow> bool" where
  "end_stops p \<longleftrightarrow>
     (if sp_current p = None \<and> connection_open (sp_link p) \<and> mayStopOwn p
      then last (lk_out (sp_link p)) = RollerStopOut else True)"

lemma end_stops_running: "sp_current p \<noteq> None \<Longrightarrow> end_stops p"
  by (auto simp: end_stops_def)

lemma mayStopOwn_finish: "mayStopOwn (finishSession r p) = mayStopOwn p"
  by (simp add: mayStopOwn_def finishSession_link split: option.splits)

lemma end_stops_finish:
  "sp_current p \<noteq> None \<Longrightarrow> r \<notin> {''bridge'', ''lost'', ''refused''} \<Longrightarrow> end_stops (finishSession r p)"
  by (auto simp: end_stops_def mayStopOwn_finish finishSession_link) (simp add: sendRobot_def)

lemma end_stops_lost: "\<not> connection_open (sp_link p) \<Longrightarrow> end_stops (finishSession ''lost'' p)"
  by (simp add: end_stops_def finishSession_link)

lemma end_stops_beat: "sp_current p \<noteq> None \<Longrightarrow> end_stops (heartbeat now p)"
proof -
  assume "sp_current p \<noteq> None"
  then obtain s where s: "sp_current p = Some s" by blast
  have running: "end_stops (beat_expiry now q)" if "sp_current q \<noteq> None" for q
    using that by (intro end_stops_running)
      (simp add: beat_expiry_def missed_def split: prod.splits option.splits shot_result.splits)
  show ?thesis
    by (simp add: heartbeat_def s Let_def end_stops_finish end_stops_lost running)
qed

text \<open>A started session that fired leaves no confirmation behind.\<close>

definition fired_session :: "shoot_page \<Rightarrow> bool" where
  "fired_session p \<longleftrightarrow>
     (case sp_current p of None \<Rightarrow> \<not> sp_confirmed p
      | Some s \<Rightarrow> ses_started s \<and> ses_shots s > 0)"

lemma fired_session_finish: "fired_session p \<Longrightarrow> fired_session (finishSession r p)"
  by (auto simp: fired_session_def finishSession_def end_confirmation_def Let_def split: option.splits)

lemma fired_session_cong:
  "sp_current p' = sp_current p \<Longrightarrow> sp_confirmed p' = sp_confirmed p \<Longrightarrow> fired_session p' = fired_session p"
  by (simp add: fired_session_def split: option.splits)

lemma fired_session_running:
  "fired_session p \<Longrightarrow> sp_current p = Some s \<Longrightarrow> ses_started s' \<Longrightarrow> ses_shots s' \<ge> ses_shots s
     \<Longrightarrow> fired_session (p\<lparr>sp_current := Some s'\<rparr>)"
  by (auto simp: fired_session_def)

lemma fired_session_feedback: "fired_session (tilt_feedback now a p) = fired_session p"
  by (rule fired_session_cong) (simp_all add: tilt_feedback_def Let_def split: option.splits)

lemma fired_session_emission: "fired_session p \<Longrightarrow> fired_session (shoot_emission now em p)"
proof -
  assume p: "fired_session p"
  have same: "fired_session q" if "sp_current q = sp_current p" "sp_confirmed q = sp_confirmed p" for q
    using p that fired_session_cong by blast
  have "fired_session (onShootState now s p)" for s
    using p fired_session_finish same
    by (cases "sp_current p") (auto simp: onShootState_def Let_def fired_session_def)
  moreover have "fired_session (onRefused r p)" for r
    using p by (cases "sp_current p") (auto simp: onRefused_def Let_def fired_session_def)
  moreover have "fired_session (onShot now s p)" for s
  proof -
    have "sp_current (tilt_feedback now a (p\<lparr>sp_shot_at := now\<rparr>)) = sp_current p"
        "sp_confirmed (tilt_feedback now a (p\<lparr>sp_shot_at := now\<rparr>)) = sp_confirmed p" for a
      by (simp_all add: tilt_feedback_def Let_def split: option.splits)
    then show ?thesis using p
      by (cases "sp_current p")
         (auto simp: onShot_def Let_def fired_session_def fired_disc_def missed_def
           split: prod.splits option.splits shot_result.splits)
  qed
  moreover have "fired_session (p\<lparr>sp_roller_at := now\<rparr>)" by (rule same) simp_all
  ultimately show ?thesis using p
    by (simp add: shoot_emission_def fired_session_finish
        split: emission.splits frame_in.splits stream_msg.splits)
qed

lemma fired_session_emissions: "fired_session p \<Longrightarrow> fired_session (fold (shoot_emission now) ems p)"
  by (induction ems arbitrary: p) (simp_all add: fired_session_emission)

lemma fired_session_send [simp]: "fired_session (snd (shoot_send f p)) = fired_session p"
  by (rule fired_session_cong) simp_all

lemma fired_session_beat: "fired_session p \<Longrightarrow> fired_session (heartbeat now p)"
proof (cases "sp_current p")
  case (Some s)
  assume p: "fired_session p"
  then have q: "fired_session (p\<lparr>sp_current := Some (s\<lparr>ses_beat_at := now\<rparr>)\<rparr>)"
    using Some by (simp add: fired_session_def)
  have expiry: "fired_session (beat_expiry now r) = fired_session r" for r
    by (rule fired_session_cong)
       (simp_all add: beat_expiry_def missed_def split: prod.splits option.splits shot_result.splits)
  show ?thesis
    by (simp add: heartbeat_def Some Let_def fired_session_finish p q expiry)
qed (simp add: beat_idle)

section \<open>Properties\<close>

text \<open>
  Over every sequence of events the launcher page is consistent: it has a session only while
  the link is open; between sessions nothing of one is left over (no pending fire, no tilt timer, no
  chosen angle); a fire the page waits for is the tracker's; a tilt frame that is due has an angle
  and keeps the 120 ms to the one before.
\<close>

theorem shoot_always_consistent: "shoot_inv (fold (shoot_step en) es init_shoot_page)"
  by (rule shoot_inv_reachable)

text \<open>
  C5: A \<open>fire\<close> frame goes out only when the learner presses fire with a session running, the
  safety tick set and the fire button enabled at that moment; it then carries \<open>confirm: true\<close>, and
  it is one frame. (A fire another module would pass to \<open>sendRobot\<close> directly is the last
  alternative; the modules do not.)
\<close>

theorem fire_only_when_enabled:
  "let p' = shoot_step en (now, e) p in
   fires p' = fires p
   \<or> (fires p' = fires p @ [FireOut True] \<and> e = FireOne \<and> sp_confirmed p \<and> sp_current p \<noteq> None
      \<and> ct_enabled (sc_fire (page_controls now p)))
   \<or> (\<exists>c. e = LinkEvent (SendFrame (FireOut c)))"
proof (cases e)
  case (LinkEvent le)
  then show ?thesis using fires_link [of en now le p] by (auto simp: shoot_step_def Let_def)
next
  case FireOne
  have "fires (fireOne now p) = fires p \<or> (fires (fireOne now p) = fires p @ [FireOut True]
      \<and> sp_confirmed p \<and> sp_current p \<noteq> None \<and> ct_enabled (sc_fire (page_controls now p)))"
  proof (cases "sp_current p")
    case (Some s)
    then show ?thesis
      by (simp add: fireOne_def Let_def fires_def finishSession_link sendRobot_def)
  qed (simp add: fireOne_def)
  with FireOne show ?thesis by (auto simp: shoot_step_def Let_def)
next
  case (ConfirmShoot v)
  then show ?thesis by (simp add: shoot_step_def confirmShootSafety_def fires_def)
next
  case (SetPercent n)
  then show ?thesis by (simp add: shoot_step_def setRollerPercent_def fires_def Let_def)
next
  case StartRoller
  then show ?thesis
    by (simp add: shoot_step_def startRoller_def Let_def fires_adds [OF adds_start] split: option.splits)
       (simp add: fires_def)
next
  case (SetTilt deg)
  have "fires (startSession TiltOnly now (p\<lparr>sp_tilt := x\<rparr>)) = fires p" for x
    using fires_adds [OF adds_start, of TiltOnly now "p\<lparr>sp_tilt := x\<rparr>"] by (simp add: fires_def)
  with SetTilt show ?thesis
    by (auto simp: shoot_step_def setTilt_def Let_def fires_def split: option.splits)
next
  case Beat
  then show ?thesis by (simp add: shoot_step_def fires_adds [OF adds_beat])
next
  case TiltTimer
  then show ?thesis
    by (auto simp: shoot_step_def sendTilt_def Let_def fires_def sendRobot_def split: option.splits)
qed (auto simp: shoot_step_def stopLauncher_def stopOwn_def fires_def finishSession_link
      sendRobot_def Let_def)

text \<open>
  C6: Whatever the learner, a timer or the browser does that ends this page's session, while the
  connection is up and no other page owns the launcher the last frame sent is \<open>roller_stop\<close>.
\<close>

theorem session_end_stops_roller:
  "let p' = shoot_step en (now, e) p in
   if sp_current p \<noteq> None \<and> sp_current p' = None \<and> connection_open (sp_link p') \<and> mayStopOwn p'
      \<and> (case e of LinkEvent _ \<Rightarrow> False | _ \<Rightarrow> True)
   then last (lk_out (sp_link p')) = RollerStopOut else True"
proof -
  have "end_stops (shoot_step en (now, e) p) \<or> (\<exists>le. e = LinkEvent le)" if "sp_current p \<noteq> None"
  proof (cases e)
    case (ConfirmShoot v)
    then show ?thesis using that
      by (intro disjI1 end_stops_running) (simp add: shoot_step_def confirmShootSafety_def)
  next
    case (SetPercent n)
    then show ?thesis using that
      by (intro disjI1 end_stops_running)
         (auto simp: shoot_step_def setRollerPercent_def Let_def)
  next
    case StartRoller
    then show ?thesis using that
      by (intro disjI1 end_stops_running) (auto simp: shoot_step_def startRoller_def Let_def)
  next
    case (SetTilt deg)
    then show ?thesis using that
      by (intro disjI1 end_stops_running) (auto simp: shoot_step_def setTilt_def startSession_def Let_def)
  next
    case FireOne
    then show ?thesis using that
      by (auto simp: shoot_step_def fireOne_def Let_def end_stops_running end_stops_lost)
  next
    case TiltTimer
    then show ?thesis using that
      by (intro disjI1 end_stops_running) (auto simp: shoot_step_def sendTilt_def Let_def split: option.splits)
  qed (use that in \<open>auto simp: shoot_step_def stopLauncher_def stopOwn_def end_stops_finish end_stops_beat\<close>)
  then show ?thesis by (auto simp: Let_def end_stops_def split: shoot_event.splits)
qed

text \<open>
  C9: One safety tick per firing: when a started session that fired a disc is over, whatever ended
  it, the tick is cleared, and the next session needs a fresh look around.
\<close>

theorem tick_cleared_after_firing:
  "let p' = shoot_step en ev p in
   case sp_current p of
     None \<Rightarrow> True
   | Some s \<Rightarrow> if ses_started s \<and> ses_shots s > 0 \<and> sp_current p' = None then \<not> sp_confirmed p' else True"
proof -
  obtain now e where ev: "ev = (now, e)" by (cases ev)
  have "fired_session (shoot_step en ev p)" if fired: "fired_session p" and run: "sp_current p \<noteq> None"
  proof (cases e)
    case (LinkEvent le)
    have "fired_session (p\<lparr>sp_link := l\<rparr>)" for l
      using fired fired_session_cong [of "p\<lparr>sp_link := l\<rparr>" p] by simp
    with LinkEvent show ?thesis
      by (simp add: ev shoot_step_def shoot_on_link_def Let_def fired_session_emissions)
  next
    case FireOne
    have "fired_session (p\<lparr>sp_fire_pending := x, sp_tracker := y, sp_note := z\<rparr>)" for x y z
      using fired fired_session_cong [of "p\<lparr>sp_fire_pending := x, sp_tracker := y, sp_note := z\<rparr>" p] by simp
    with FireOne fired run show ?thesis
      by (auto simp: ev shoot_step_def fireOne_def Let_def fired_session_finish)
  next
    case TiltTimer
    then show ?thesis using fired run
      by (auto simp: ev shoot_step_def sendTilt_def fired_session_def Let_def split: option.splits)
  qed (use fired run in \<open>auto simp: ev shoot_step_def stopLauncher_def stopOwn_def fired_session_finish
         fired_session_beat confirmShootSafety_def setRollerPercent_def startRoller_def setTilt_def
         startSession_def fired_session_def [of "p\<lparr>sp_current := _\<rparr>"] Let_def
         fired_session_running, auto simp: fired_session_def\<close>)
  then show ?thesis by (auto simp: fired_session_def Let_def split: option.splits)
qed

end
