(* ===== verification/Usb_Protocol.thy ===== *)
theory Usb_Protocol
  imports Lab_Prelude "HOL-Library.Word"
begin

text \<open>
  \<open>lab/js/slam/usb-protocol.js\<close>: the parser of the T-mini Plus lidar's packets. Bytes are
  \<open>8 word\<close>, the words on the wire \<open>16 word\<close> (little endian). The offset into the buffer that the
  code moves is the suffix still to parse; the scans handed to \<open>onScan\<close> are collected in
  \<open>tm_out\<close>.
\<close>

unbundle bit_operations_syntax

section \<open>Packets\<close>

type_synonym byte = "8 word"

definition HEADER_BYTES :: nat where "HEADER_BYTES = 10"
definition SAMPLE_BYTES :: nat where "SAMPLE_BYTES = 3"
definition TIMESTAMP_BYTES :: nat where "TIMESTAMP_BYTES = 8"
definition MAX_PACKET_POINTS :: nat where "MAX_PACKET_POINTS = 80"
definition MIN_SCAN_POINTS :: nat where "MIN_SCAN_POINTS = 100"
definition MAX_SCAN_POINTS :: nat where "MAX_SCAN_POINTS = 900"
definition MAX_BUFFER_BYTES :: nat where "MAX_BUFFER_BYTES = 4096"
definition MAX_ACCUMULATED_POINTS :: nat where "MAX_ACCUMULATED_POINTS = 2000"
definition MIN_RANGE_METRES :: real where "MIN_RANGE_METRES = 1 / 10"
definition MAX_RANGE_METRES :: real where "MAX_RANGE_METRES = 12"

lemmas usb_sizes = HEADER_BYTES_def SAMPLE_BYTES_def TIMESTAMP_BYTES_def MAX_PACKET_POINTS_def

text \<open>\<open>bytes[i]\<close>; past the end it is \<open>undefined\<close>, which the bit operations read as 0.\<close>

definition byte_at :: "byte list \<Rightarrow> nat \<Rightarrow> byte" where
  "byte_at bs i = (if i < length bs then bs ! i else 0)"

definition le_word :: "byte list \<Rightarrow> nat \<Rightarrow> 16 word" where
  "le_word bs i = ucast (byte_at bs i) OR push_bit 8 (ucast (byte_at bs (i + 1)))"

definition packetLength :: "byte list \<Rightarrow> nat" where
  "packetLength bs =
     (if byte_at bs 0 \<noteq> 0xAA then 1
      else if byte_at bs 1 = 0x66 then TIMESTAMP_BYTES
      else if byte_at bs 1 \<noteq> 0x55 then 1
      else if HEADER_BYTES > length bs then 0
      else HEADER_BYTES + SAMPLE_BYTES * unat (byte_at bs 3))"

definition sample_check :: "byte list \<Rightarrow> nat \<Rightarrow> 16 word" where
  "sample_check bs i =
     (let sample = HEADER_BYTES + SAMPLE_BYTES * i
      in ucast (byte_at bs sample) XOR le_word bs (sample + 1))"

definition packet_checksum :: "byte list \<Rightarrow> nat \<Rightarrow> 16 word" where
  "packet_checksum bs n =
     foldl (\<lambda>sum i. sum XOR sample_check bs i)
       (le_word bs 0 XOR le_word bs 2 XOR le_word bs 4 XOR le_word bs 6) [0..<n]"

definition validPacket :: "byte list \<Rightarrow> bool" where
  "validPacket bs =
     (let n = unat (byte_at bs 3) in
      n \<noteq> 0 \<and> n \<le> MAX_PACKET_POINTS \<and> bit (byte_at bs 4) 0 \<and> bit (byte_at bs 6) 0
      \<and> packet_checksum bs n = le_word bs 8)"

section \<open>The parser\<close>

record lidar_point =
  lp_x :: real
  lp_y :: real
  lp_r :: real

record parser =
  tm_buffer :: "byte list"
  tm_points :: "lidar_point list"
  tm_synced :: bool
  tm_bad_scan :: bool
  tm_errors :: nat
  tm_packets :: nat
  tm_scans :: nat
  tm_dropped :: nat
  tm_bytes :: nat
  tm_out :: "lidar_point list list"

definition new_parser :: parser where
  "new_parser =
     \<lparr>tm_buffer = [], tm_points = [], tm_synced = False, tm_bad_scan = False, tm_errors = 0,
      tm_packets = 0, tm_scans = 0, tm_dropped = 0, tm_bytes = 0, tm_out = []\<rparr>"

definition finishScan :: "parser \<Rightarrow> parser" where
  "finishScan p =
     (let p = (if \<not> tm_synced p then p
               else if \<not> tm_bad_scan p \<and> length (tm_points p) \<ge> MIN_SCAN_POINTS
                       \<and> length (tm_points p) \<le> MAX_SCAN_POINTS
               then p\<lparr>tm_scans := tm_scans p + 1, tm_out := tm_out p @ [tm_points p]\<rparr>
               else p\<lparr>tm_dropped := tm_dropped p + 1\<rparr>)
      in p\<lparr>tm_points := [], tm_bad_scan := False, tm_synced := True\<rparr>)"

definition sample_point :: "byte list \<Rightarrow> real \<Rightarrow> real \<Rightarrow> nat \<Rightarrow> nat \<Rightarrow> lidar_point option" where
  "sample_point bs first_deg last_deg n i =
     (let raw = le_word bs (HEADER_BYTES + SAMPLE_BYTES * i + 1);
          r = of_nat (unat (raw AND 0xFFFC)) / 4000;
          degrees = first_deg + ((last_deg - first_deg) * of_nat i) / of_nat (max 1 (n - 1));
          angle = (- (degrees + 180) * pi) / 180
      in if r \<ge> MIN_RANGE_METRES \<and> r \<le> MAX_RANGE_METRES
         then Some \<lparr>lp_x = r * cos angle, lp_y = r * sin angle, lp_r = r\<rparr> else None)"

definition acceptPacket :: "byte list \<Rightarrow> parser \<Rightarrow> parser" where
  "acceptPacket bs p =
     (let p = p\<lparr>tm_packets := tm_packets p + 1\<rparr>;
          p = (if bit (byte_at bs 2) 0 then finishScan p else p);
          n = unat (byte_at bs 3);
          first_deg = of_nat (unat (drop_bit 1 (le_word bs 4))) / 64;
          last_deg = of_nat (unat (drop_bit 1 (le_word bs 6))) / 64;
          last_deg = (if last_deg < first_deg then last_deg + 360 else last_deg);
          p = p\<lparr>tm_points := tm_points p
                 @ List.map_filter (sample_point bs first_deg last_deg n) [0..<n]\<rparr>
      in if length (tm_points p) > MAX_ACCUMULATED_POINTS
         then p\<lparr>tm_points := [], tm_synced := False, tm_dropped := tm_dropped p + 1\<rparr> else p)"

lemma packetLength_pos: "packetLength bs \<noteq> 0 \<Longrightarrow> packetLength bs \<ge> 1"
  by simp

function feed_loop :: "byte list \<Rightarrow> parser \<Rightarrow> byte list \<times> parser" where
  "feed_loop bs p =
     (if length bs < 2 then (bs, p)
      else let n = packetLength bs in
           if n = 0 \<or> n > length bs then (bs, p)
           else if n > TIMESTAMP_BYTES
           then (if \<not> validPacket bs
                 then feed_loop (drop 1 bs) (p\<lparr>tm_errors := tm_errors p + 1, tm_bad_scan := True\<rparr>)
                 else feed_loop (drop n bs) (acceptPacket bs p))
           else feed_loop (drop n bs) p)"
  by pat_completeness auto
termination
  by (relation "measure (\<lambda>(bs, p). length bs)") auto

declare feed_loop.simps [simp del]

definition feed :: "byte list \<Rightarrow> parser \<Rightarrow> parser" where
  "feed chunk p =
     (case feed_loop (tm_buffer p @ chunk) (p\<lparr>tm_bytes := tm_bytes p + length chunk\<rparr>) of
        (rest, p') \<Rightarrow>
          if length rest > MAX_BUFFER_BYTES then p'\<lparr>tm_buffer := [], tm_bad_scan := True\<rparr>
          else p'\<lparr>tm_buffer := rest\<rparr>)"

section \<open>A packet is read from its own bytes only\<close>

lemma byte_at_append: "i < length bs \<Longrightarrow> byte_at (bs @ cs) i = byte_at bs i"
  by (simp add: byte_at_def nth_append)

lemma le_word_append: "i + 1 < length bs \<Longrightarrow> le_word (bs @ cs) i = le_word bs i"
  by (simp add: le_word_def byte_at_append)

lemma packetLength_append:
  "2 \<le> length bs \<Longrightarrow> packetLength bs \<noteq> 0 \<Longrightarrow> packetLength (bs @ cs) = packetLength bs"
proof -
  assume len: "2 \<le> length bs"
  then have b: "byte_at (bs @ cs) 0 = byte_at bs 0" "byte_at (bs @ cs) 1 = byte_at bs 1"
    by (auto intro!: byte_at_append)
  have "byte_at (bs @ cs) 3 = byte_at bs 3" if "10 \<le> length bs"
    using that by (intro byte_at_append) simp
  then show "packetLength bs \<noteq> 0 \<Longrightarrow> packetLength (bs @ cs) = packetLength bs"
    using b by (auto simp: packetLength_def usb_sizes)
qed

text \<open>The bytes of a whole packet are there.\<close>

definition whole :: "byte list \<Rightarrow> bool" where
  "whole bs \<longleftrightarrow> 2 \<le> length bs \<and> packetLength bs \<noteq> 0 \<and> packetLength bs \<le> length bs
     \<and> packetLength bs > TIMESTAMP_BYTES"

lemma whole_length:
  assumes "whole bs"
  shows "10 + 3 * unat (byte_at bs 3) \<le> length bs" "10 \<le> length bs"
  using assms by (auto simp: whole_def packetLength_def usb_sizes split: if_splits)

lemma sample_check_append:
  assumes "whole bs" and "i < unat (byte_at bs 3)"
  shows "sample_check (bs @ cs) i = sample_check bs i"
  using whole_length [OF assms(1)] assms(2)
  by (simp add: sample_check_def byte_at_append le_word_append usb_sizes)

lemma packet_checksum_append:
  assumes "whole bs"
  shows "packet_checksum (bs @ cs) (unat (byte_at bs 3)) = packet_checksum bs (unat (byte_at bs 3))"
proof -
  have "foldl (\<lambda>sum i. sum XOR sample_check (bs @ cs) i) a [0..<n]
      = foldl (\<lambda>sum i. sum XOR sample_check bs i) a [0..<n]" if "n \<le> unat (byte_at bs 3)" for a n
    using that by (intro foldl_cong) (auto simp: sample_check_append assms)
  then show ?thesis
    using whole_length [OF assms] by (simp add: packet_checksum_def le_word_append)
qed

lemma validPacket_append: "whole bs \<Longrightarrow> validPacket (bs @ cs) = validPacket bs"
  using whole_length [of bs]
  by (simp add: validPacket_def Let_def byte_at_append le_word_append packet_checksum_append)

lemma map_filter_cong: "(\<And>x. x \<in> set xs \<Longrightarrow> f x = g x) \<Longrightarrow> List.map_filter f xs = List.map_filter g xs"
  by (induction xs) (simp_all add: List.map_filter_simps split: option.splits)

lemma acceptPacket_append: "whole bs \<Longrightarrow> acceptPacket (bs @ cs) p = acceptPacket bs p"
proof -
  assume w: "whole bs"
  note len = whole_length [OF w]
  have "sample_point (bs @ cs) a b (unat (byte_at bs 3)) i = sample_point bs a b (unat (byte_at bs 3)) i"
    if "i < unat (byte_at bs 3)" for a b i
    using len that by (simp add: sample_point_def le_word_append usb_sizes)
  then have "List.map_filter (sample_point (bs @ cs) a b (unat (byte_at bs 3))) [0..<unat (byte_at bs 3)]
      = List.map_filter (sample_point bs a b (unat (byte_at bs 3))) [0..<unat (byte_at bs 3)]" for a b
    by (intro map_filter_cong) simp
  then show ?thesis
    using len by (simp add: acceptPacket_def Let_def byte_at_append le_word_append)
qed

text \<open>The four things one turn of the loop can do.\<close>

lemma feed_loop_stop:
  "length bs < 2 \<or> packetLength bs = 0 \<or> packetLength bs > length bs \<Longrightarrow> feed_loop bs p = (bs, p)"
  by (subst feed_loop.simps) auto

lemma feed_loop_skip:
  "2 \<le> length bs \<Longrightarrow> packetLength bs \<noteq> 0 \<Longrightarrow> packetLength bs \<le> length bs \<Longrightarrow>
   packetLength bs \<le> TIMESTAMP_BYTES \<Longrightarrow> feed_loop bs p = feed_loop (drop (packetLength bs) bs) p"
  by (subst feed_loop.simps) simp

definition bad_packet :: "parser \<Rightarrow> parser" where
  "bad_packet p = p\<lparr>tm_errors := tm_errors p + 1, tm_bad_scan := True\<rparr>"

lemma feed_loop_bad: "whole bs \<Longrightarrow> \<not> validPacket bs \<Longrightarrow> feed_loop bs p = feed_loop (drop 1 bs) (bad_packet p)"
  by (subst feed_loop.simps) (simp add: whole_def bad_packet_def)

lemma feed_loop_ok:
  "whole bs \<Longrightarrow> validPacket bs \<Longrightarrow> feed_loop bs p = feed_loop (drop (packetLength bs) bs) (acceptPacket bs p)"
  by (subst feed_loop.simps) (simp add: whole_def)

lemma feed_loop_cases:
  obtains (stop) "length bs < 2 \<or> packetLength bs = 0 \<or> packetLength bs > length bs"
    | (skip) "2 \<le> length bs" "packetLength bs \<noteq> 0" "packetLength bs \<le> length bs"
        "packetLength bs \<le> TIMESTAMP_BYTES"
    | (bad) "whole bs" "\<not> validPacket bs"
    | (ok) "whole bs" "validPacket bs"
  by (meson linorder_not_le whole_def)

lemma feed_loop_induct:
  assumes "\<And>bs p. length bs < 2 \<or> packetLength bs = 0 \<or> packetLength bs > length bs \<Longrightarrow> P bs p"
    and "\<And>bs p. 2 \<le> length bs \<Longrightarrow> packetLength bs \<noteq> 0 \<Longrightarrow> packetLength bs \<le> length bs \<Longrightarrow>
      packetLength bs \<le> TIMESTAMP_BYTES \<Longrightarrow> P (drop (packetLength bs) bs) p \<Longrightarrow> P bs p"
    and "\<And>bs p. whole bs \<Longrightarrow> \<not> validPacket bs \<Longrightarrow> P (drop 1 bs) (bad_packet p) \<Longrightarrow> P bs p"
    and "\<And>bs p. whole bs \<Longrightarrow> validPacket bs \<Longrightarrow> P (drop (packetLength bs) bs) (acceptPacket bs p) \<Longrightarrow> P bs p"
  shows "P bs p"
proof (induction "length bs" arbitrary: bs p rule: less_induct)
  case less
  have shorter: "P (drop n bs) q" if "0 < n" "2 \<le> length bs" for n q
    using that by (intro less) simp
  show ?case
  proof (cases bs rule: feed_loop_cases)
    case stop
    then show ?thesis by (rule assms(1))
  next
    case skip
    then show ?thesis using assms(2) shorter by blast
  next
    case bad
    then show ?thesis using assms(3) shorter by (simp add: whole_def)
  next
    case ok
    then show ?thesis using assms(4) shorter by (simp add: whole_def)
  qed
qed

text \<open>The loop over a longer buffer first does what it does over the shorter one.\<close>

lemma feed_loop_append:
  "feed_loop (bs @ cs) p = (case feed_loop bs p of (rest, p') \<Rightarrow> feed_loop (rest @ cs) p')"
proof (induction bs p rule: feed_loop_induct)
  case (1 bs p)
  then show ?case by (simp add: feed_loop_stop)
next
  case (2 bs p)
  then have "feed_loop (bs @ cs) p = feed_loop (drop (packetLength bs) bs @ cs) p"
    by (subst feed_loop_skip) (simp_all add: packetLength_append)
  with 2 show ?case by (simp add: feed_loop_skip [of bs])
next
  case (3 bs p)
  then have "whole (bs @ cs)" by (simp add: whole_def packetLength_append)
  with 3 have "feed_loop (bs @ cs) p = feed_loop (drop 1 bs @ cs) (bad_packet p)"
    using whole_length(2) [of bs] by (subst feed_loop_bad) (simp_all add: validPacket_append)
  with 3 show ?case by (simp add: feed_loop_bad [of bs])
next
  case (4 bs p)
  then have "whole (bs @ cs)" by (simp add: whole_def packetLength_append)
  with 4 have "feed_loop (bs @ cs) p = feed_loop (drop (packetLength bs) bs @ cs) (acceptPacket bs p)"
    by (subst feed_loop_ok)
       (simp_all add: validPacket_append acceptPacket_append packetLength_append whole_def)
  with 4 show ?case by (simp add: feed_loop_ok [of bs])
qed

section \<open>How much the parser keeps\<close>

lemma packetLength_max: "packetLength bs \<le> 775"
proof -
  have "unat (byte_at bs 3) < 2 ^ LENGTH(8)" by (rule unsigned_less)
  then show ?thesis by (simp add: packetLength_def usb_sizes)
qed

lemma feed_loop_rest: "length (fst (feed_loop bs p)) < 775"
proof (induction bs p rule: feed_loop_induct)
  case (1 bs p)
  moreover have "length bs < 775" if "packetLength bs = 0"
    using that by (simp add: packetLength_def usb_sizes split: if_splits)
  ultimately show ?case
    using packetLength_max [of bs] by (auto simp: feed_loop_stop)
qed (simp_all add: feed_loop_skip feed_loop_bad feed_loop_ok)

definition point_ok :: "lidar_point \<Rightarrow> bool" where
  "point_ok q \<longleftrightarrow> MIN_RANGE_METRES \<le> lp_r q \<and> lp_r q \<le> MAX_RANGE_METRES
     \<and> (lp_x q)\<^sup>2 + (lp_y q)\<^sup>2 = (lp_r q)\<^sup>2"

definition scan_ok :: "lidar_point list \<Rightarrow> bool" where
  "scan_ok s \<longleftrightarrow> MIN_SCAN_POINTS \<le> length s \<and> length s \<le> MAX_SCAN_POINTS \<and> list_all point_ok s"

definition parser_inv :: "parser \<Rightarrow> bool" where
  "parser_inv p \<longleftrightarrow> length (tm_points p) \<le> MAX_ACCUMULATED_POINTS \<and> list_all point_ok (tm_points p)
     \<and> list_all scan_ok (tm_out p) \<and> tm_scans p = length (tm_out p)"

lemma sample_point_ok:
  assumes "sample_point bs a b n i = Some q"
  shows "point_ok q"
proof -
  define r :: real where
    "r = of_nat (unat (le_word bs (HEADER_BYTES + SAMPLE_BYTES * i + 1) AND 0xFFFC)) / 4000"
  define angle where "angle = (- (a + ((b - a) * of_nat i) / of_nat (max 1 (n - 1)) + 180) * pi) / 180"
  have "sample_point bs a b n i = (if r \<ge> MIN_RANGE_METRES \<and> r \<le> MAX_RANGE_METRES
      then Some \<lparr>lp_x = r * cos angle, lp_y = r * sin angle, lp_r = r\<rparr> else None)"
    by (simp only: sample_point_def Let_def r_def angle_def)
  with assms have "MIN_RANGE_METRES \<le> r" "r \<le> MAX_RANGE_METRES"
      and q: "q = \<lparr>lp_x = r * cos angle, lp_y = r * sin angle, lp_r = r\<rparr>"
    by (auto split: if_splits)
  moreover have "(r * cos angle)\<^sup>2 + (r * sin angle)\<^sup>2 = r\<^sup>2"
    by (simp add: power_mult_distrib distrib_left [symmetric])
  ultimately show ?thesis by (simp add: point_ok_def)
qed

lemma parser_inv_finishScan: "parser_inv p \<Longrightarrow> parser_inv (finishScan p)"
  by (auto simp: parser_inv_def finishScan_def Let_def scan_ok_def)

lemma parser_inv_accept: "parser_inv p \<Longrightarrow> parser_inv (acceptPacket bs p)"
proof -
  have points: "list_all point_ok (List.map_filter (sample_point bs a b n) is)" for a b n "is"
    by (induction "is") (auto simp: List.map_filter_simps sample_point_ok split: option.splits)
  assume p: "parser_inv p"
  define q where "q = (if bit (byte_at bs 2) 0 then finishScan (p\<lparr>tm_packets := Suc (tm_packets p)\<rparr>)
    else p\<lparr>tm_packets := Suc (tm_packets p)\<rparr>)"
  have "parser_inv (p\<lparr>tm_packets := Suc (tm_packets p)\<rparr>)" using p by (simp add: parser_inv_def)
  then have "parser_inv q" by (simp add: q_def parser_inv_finishScan)
  then show ?thesis
    using points by (simp add: acceptPacket_def Let_def q_def [symmetric]) (simp add: parser_inv_def)
qed

lemma parser_inv_loop: "parser_inv p \<Longrightarrow> parser_inv (snd (feed_loop bs p))"
proof (induction bs p rule: feed_loop_induct)
  case (3 bs p)
  then have "parser_inv (bad_packet p)" by (simp add: parser_inv_def bad_packet_def)
  with 3 show ?case by (simp add: feed_loop_bad)
qed (simp_all add: feed_loop_stop feed_loop_skip feed_loop_ok parser_inv_accept)

section \<open>Chunks\<close>

definition stamp :: "byte list \<Rightarrow> nat \<Rightarrow> parser \<Rightarrow> parser" where
  "stamp buf n p = p\<lparr>tm_buffer := buf, tm_bytes := n\<rparr>"

lemma acceptPacket_stamp: "acceptPacket bs (stamp x y p) = stamp x y (acceptPacket bs p)"
  by (simp add: acceptPacket_def finishScan_def stamp_def Let_def)

lemma feed_loop_stamp:
  "feed_loop bs (stamp x y p) = map_prod id (stamp x y) (feed_loop bs p)"
proof (induction bs p rule: feed_loop_induct)
  case (3 bs p)
  have "bad_packet (stamp x y p) = stamp x y (bad_packet p)" by (simp add: bad_packet_def stamp_def)
  with 3 show ?case by (simp add: feed_loop_bad)
qed (simp_all add: feed_loop_stop feed_loop_skip feed_loop_ok acceptPacket_stamp)

lemma feed_eq:
  "feed chunk p = (case feed_loop (tm_buffer p @ chunk) p of
     (rest, q) \<Rightarrow> stamp rest (tm_bytes p + length chunk) q)"
proof -
  obtain rest q where r: "feed_loop (tm_buffer p @ chunk) p = (rest, q)" by force
  have "p\<lparr>tm_bytes := tm_bytes p + length chunk\<rparr> = stamp (tm_buffer p) (tm_bytes p + length chunk) p"
    by (simp add: stamp_def)
  then have "feed_loop (tm_buffer p @ chunk) (p\<lparr>tm_bytes := tm_bytes p + length chunk\<rparr>)
      = (rest, stamp (tm_buffer p) (tm_bytes p + length chunk) q)"
    by (simp add: feed_loop_stamp r)
  moreover have "length rest < 775" using feed_loop_rest [of "tm_buffer p @ chunk" p] by (simp add: r)
  ultimately show ?thesis by (simp add: feed_def r stamp_def MAX_BUFFER_BYTES_def)
qed

lemma feed_fields: "tm_bytes (feed a p) = tm_bytes p + length a"
  by (simp add: feed_eq stamp_def split: prod.splits)

section \<open>Properties\<close>

text \<open>
  C30: How the serial port cuts the stream into chunks does not matter: feeding two chunks is feeding
  their concatenation, with every counter, every scan and the buffer equal.
\<close>

theorem feed_chunks: "feed b (feed a p) = feed (a @ b) p"
proof -
  obtain rest q where r: "feed_loop (tm_buffer p @ a) p = (rest, q)" by force
  have a: "feed a p = stamp rest (tm_bytes p + length a) q" by (simp add: feed_eq r)
  have "feed_loop (tm_buffer p @ a @ b) p = feed_loop (rest @ b) q"
    using feed_loop_append [of "tm_buffer p @ a" b p] by (simp add: r)
  then show ?thesis
    by (simp add: feed_eq [of b] feed_eq [of "a @ b"] a feed_loop_stamp)
       (simp add: stamp_def split: prod.splits)
qed

text \<open>
  Whatever bytes arrive, the parser keeps less than one packet of unread bytes and at most 2000
  points, so its own 4096-byte guard is never needed; and every scan it hands on has 100 to 900
  points, each between 0.1 m and 12 m away and where its range and angle put it.
\<close>

theorem parser_bounds:
  "let p = fold feed chunks new_parser in
   parser_inv p \<and> length (tm_buffer p) < 775 \<and> tm_bytes p = length (concat chunks)"
proof -
  have "parser_inv (feed c p)" if "parser_inv p" for c p
    using parser_inv_loop [OF that, of "tm_buffer p @ c"]
    by (cases "feed_loop (tm_buffer p @ c) p") (simp add: feed_eq stamp_def parser_inv_def)
  moreover have "length (tm_buffer (feed c p)) < 775" for c p
    using feed_loop_rest [of "tm_buffer p @ c" p]
    by (cases "feed_loop (tm_buffer p @ c) p") (simp add: feed_eq stamp_def)
  ultimately have "parser_inv (fold feed chunks p) \<and> length (tm_buffer (fold feed chunks p)) < 775
      \<and> tm_bytes (fold feed chunks p) = tm_bytes p + length (concat chunks)"
    if "parser_inv p" "length (tm_buffer p) < 775" for p
    using that by (induction chunks arbitrary: p) (simp_all add: feed_fields)
  from this [of new_parser] show ?thesis by (simp add: new_parser_def parser_inv_def)
qed

end
