(* ===== verification/Json.thy ===== *)
theory Json
  imports Lab_Prelude
begin

text \<open>
  JSON values as \<open>JSON.parse\<close> builds them, and the accesses the modules that read stored or opened
  files make: a property of a value that is not an object is \<open>undefined\<close> (\<open>None\<close>), as is a missing
  one. Numbers are real numbers; \<open>JInf\<close> is a number JavaScript reads as infinite (\<open>1e999\<close>), positive or negative.
  Parsing and printing the text itself is the JavaScript engine's.
\<close>

datatype json = JNull | JBool bool | JNum real | JInf bool | JStr string | JArr "json list"
  | JObj "(string \<times> json) list"

fun jfield :: "json option \<Rightarrow> string \<Rightarrow> json option" where
  "jfield (Some (JObj fields)) key = map_of fields key"
| "jfield _ key = None"

fun jitem :: "json option \<Rightarrow> nat \<Rightarrow> json option" where
  "jitem (Some (JArr items)) i = (if i < length items then Some (items ! i) else None)"
| "jitem _ i = None"

text \<open>\<open>typeof v === 'object'\<close> for a value that is not null.\<close>

fun is_object :: "json option \<Rightarrow> bool" where
  "is_object (Some (JObj _)) = True"
| "is_object (Some (JArr _)) = True"
| "is_object _ = False"

fun jtruthy :: "json option \<Rightarrow> bool" where
  "jtruthy None = False"
| "jtruthy (Some JNull) = False"
| "jtruthy (Some (JBool b)) = b"
| "jtruthy (Some (JNum x)) = (x \<noteq> 0)"
| "jtruthy (Some (JInf positive)) = True"
| "jtruthy (Some (JStr s)) = (s \<noteq> [])"
| "jtruthy (Some (JArr _)) = True"
| "jtruthy (Some (JObj _)) = True"

fun jbool :: "json option \<Rightarrow> bool option" where
  "jbool (Some (JBool b)) = Some b"
| "jbool _ = None"

fun jstring :: "json option \<Rightarrow> string option" where
  "jstring (Some (JStr s)) = Some s"
| "jstring _ = None"

fun jnum :: "json option \<Rightarrow> num" where
  "jnum (Some (JNum x)) = Some x"
| "jnum _ = None"

text \<open>\<open>Number.isInteger\<close>, with the integer.\<close>

definition jint :: "json option \<Rightarrow> int option" where
  "jint v = (case jnum v of None \<Rightarrow> None | Some x \<Rightarrow> if of_int \<lfloor>x\<rfloor> = x then Some \<lfloor>x\<rfloor> else None)"

definition JInt :: "int \<Rightarrow> json" where
  "JInt n = JNum (of_int n)"

lemma jint_JInt [simp]: "jint (Some (JInt n)) = Some n"
  by (simp add: jint_def JInt_def)

lemma jint_simps [simp]:
  "jint None = None" "jint (Some JNull) = None" "jint (Some (JBool b)) = None"
  "jint (Some (JStr s)) = None" "jint (Some (JInf p)) = None" "jint (Some (JArr a)) = None" "jint (Some (JObj f)) = None"
  by (simp_all add: jint_def)

lemma JInt_not_null [simp]: "JInt n \<noteq> JNull" "JNull \<noteq> JInt n"
  by (simp_all add: JInt_def)

text \<open>\<open>v === null\<close>.\<close>

definition is_null :: "json option \<Rightarrow> bool" where
  "is_null v = (v = Some JNull)"

section \<open>The records of the quiz and of the mastery test in \<open>localStorage\<close>\<close>

text \<open>\<open>lab/js/quiz/storage.js\<close>. \<open>None\<close> is a text \<open>JSON.parse\<close> refuses.\<close>

definition STORAGE_VERSION :: int where "STORAGE_VERSION = 1"

definition savedCourses :: "json option \<Rightarrow> json option" where
  "savedCourses saved =
     (if jfield saved ''version'' \<noteq> Some (JInt STORAGE_VERSION) then None
      else if is_object (jfield saved ''courses'') then jfield saved ''courses'' else None)"

definition forStorage :: "json \<Rightarrow> json" where
  "forStorage progress = JObj [(''version'', JInt STORAGE_VERSION), (''courses'', progress)]"

lemma savedCourses_forStorage [simp]: "savedCourses (Some (forStorage (JObj fields))) = Some (JObj fields)"
  by (simp add: savedCourses_def forStorage_def)

end
