(* ===== verification/Quiz.thy ===== *)
theory Quiz
  imports Json
begin

text \<open>
  \<open>lab/js/quiz/core.js\<close>: the checkpoint quiz. The questions of every course (\<open>QUIZZES\<close>, the
  content files) are a parameter; the progress maps a course to its page and to its answers, filed
  under the question's id. Answers are updated in place by the code and are reached only through the
  progress, so an update of the map is the same.
\<close>

section \<open>Progress\<close>

record question =
  qu_id :: string
  qu_choices :: nat
  qu_answer :: int

type_synonym quizzes = "(string \<times> question list) list"

record answer =
  an_choice :: "int option"
  an_checked :: bool
  an_correct :: bool
  an_first :: bool
  an_attempts :: int

record course_progress =
  cp_index :: int
  cp_answers :: "string \<Rightarrow> answer option"

type_synonym progress = "string \<Rightarrow> course_progress option"

definition MAX_SAVED_ATTEMPTS :: int where "MAX_SAVED_ATTEMPTS = 100000"

definition blank_course :: course_progress where
  "blank_course = \<lparr>cp_index = 0, cp_answers = (\<lambda>_. None)\<rparr>"

definition newQuizProgress :: "quizzes \<Rightarrow> progress" where
  "newQuizProgress qs = (\<lambda>course. map_option (\<lambda>_. blank_course) (map_of qs course))"

definition question_at :: "quizzes \<Rightarrow> string \<Rightarrow> int \<Rightarrow> question option" where
  "question_at qs course i =
     (case map_of qs course of None \<Rightarrow> None
      | Some questions \<Rightarrow> if 0 \<le> i \<and> nat i < length questions then Some (questions ! nat i) else None)"

definition course_answer :: "progress \<Rightarrow> string \<Rightarrow> question \<Rightarrow> answer option" where
  "course_answer p course q = (case p course of None \<Rightarrow> None | Some c \<Rightarrow> cp_answers c (qu_id q))"

definition quizAnswer :: "quizzes \<Rightarrow> progress \<Rightarrow> string \<Rightarrow> int \<Rightarrow> answer option" where
  "quizAnswer qs p course i =
     (case question_at qs course i of None \<Rightarrow> None | Some q \<Rightarrow> course_answer p course q)"

definition put_answer :: "string \<Rightarrow> question \<Rightarrow> answer \<Rightarrow> progress \<Rightarrow> progress" where
  "put_answer course q a p =
     (case p course of None \<Rightarrow> p
      | Some c \<Rightarrow> p(course \<mapsto> c\<lparr>cp_answers := (cp_answers c)(qu_id q \<mapsto> a)\<rparr>))"

section \<open>Answering\<close>

definition isChoiceOf :: "json option \<Rightarrow> question \<Rightarrow> bool" where
  "isChoiceOf choice q =
     (case jint choice of None \<Rightarrow> False | Some n \<Rightarrow> 0 \<le> n \<and> n < int (qu_choices q))"

datatype quiz_error = InvalidQuizAnswer

definition checkQuizAnswer ::
  "quizzes \<Rightarrow> progress \<Rightarrow> string \<Rightarrow> int \<Rightarrow> json option \<Rightarrow> quiz_error + answer \<times> progress" where
  "checkQuizAnswer qs p course i choice =
     (case question_at qs course i of
        None \<Rightarrow> Inl InvalidQuizAnswer
      | Some q \<Rightarrow>
          if \<not> (is_null choice \<or> isChoiceOf choice q) then Inl InvalidQuizAnswer
          else (let previous = course_answer p course q;
                    correct = (jint choice = Some (qu_answer q));
                    a = \<lparr>an_choice = jint choice, an_checked = True, an_correct = correct,
                         an_first = (case previous of None \<Rightarrow> correct | Some b \<Rightarrow> an_first b),
                         an_attempts = (case previous of None \<Rightarrow> 0 | Some b \<Rightarrow> an_attempts b) + 1\<rparr>
                in case previous of
                     Some b \<Rightarrow> if an_checked b then Inr (b, p) else Inr (a, put_answer course q a p)
                   | None \<Rightarrow> Inr (a, put_answer course q a p)))"

definition retryQuizAnswer :: "quizzes \<Rightarrow> string \<Rightarrow> int \<Rightarrow> progress \<Rightarrow> progress" where
  "retryQuizAnswer qs course i p =
     (case question_at qs course i of None \<Rightarrow> p
      | Some q \<Rightarrow>
          (case course_answer p course q of None \<Rightarrow> p
           | Some a \<Rightarrow> put_answer course q
                         (a\<lparr>an_checked := False, an_choice := None, an_correct := False\<rparr>) p))"

section \<open>The summary\<close>

definition isRecovered :: "answer option \<Rightarrow> bool" where
  "isRecovered a = (case a of None \<Rightarrow> False | Some b \<Rightarrow> an_checked b \<and> an_correct b \<and> \<not> an_first b)"

definition isUnfinished :: "answer option \<Rightarrow> bool" where
  "isUnfinished a = (case a of None \<Rightarrow> True | Some b \<Rightarrow> \<not> an_checked b \<or> \<not> an_correct b)"

record quiz_summary =
  qz_total :: nat
  qz_checked :: nat
  qz_first :: nat
  qz_recovered :: nat
  qz_remaining :: "nat list"

definition quizSummary :: "quizzes \<Rightarrow> progress \<Rightarrow> string \<Rightarrow> quiz_summary" where
  "quizSummary qs p course =
     (let questions = coalesce (map_of qs course) [];
          answers = map (course_answer p course) questions
      in \<lparr>qz_total = length answers,
          qz_checked = length (filter (\<lambda>a. case a of None \<Rightarrow> False | Some b \<Rightarrow> an_checked b) answers),
          qz_first = length (filter (\<lambda>a. case a of None \<Rightarrow> False | Some b \<Rightarrow> an_first b) answers),
          qz_recovered = length (filter isRecovered answers),
          qz_remaining = filter (\<lambda>i. isUnfinished (answers ! i)) [0..<length answers]\<rparr>)"

section \<open>Saving and restoring\<close>

definition restored_fields :: "question \<Rightarrow> json option \<Rightarrow> bool \<Rightarrow> bool \<Rightarrow> int \<Rightarrow> answer option" where
  "restored_fields q choice checked first attempts =
     (if attempts < 1 \<or> attempts > MAX_SAVED_ATTEMPTS then None
      else if \<not> (is_null choice \<or> isChoiceOf choice q) then None
      else Some \<lparr>an_choice = (if checked then jint choice else None), an_checked = checked,
                 an_correct = (checked \<and> jint choice = Some (qu_answer q)),
                 an_first = first, an_attempts = attempts\<rparr>)"

definition restoredAnswer :: "question \<Rightarrow> json option \<Rightarrow> answer option" where
  "restoredAnswer q saved =
     (if \<not> jtruthy saved then None
      else case (jbool (jfield saved ''checked''), jbool (jfield saved ''firstCorrect''),
                 jint (jfield saved ''attempts'')) of
             (Some checked, Some first, Some attempts) \<Rightarrow>
               restored_fields q (jfield saved ''choice'') checked first attempts
           | _ \<Rightarrow> None)"

definition restored_course :: "question list \<Rightarrow> json option \<Rightarrow> course_progress" where
  "restored_course questions saved =
     (if \<not> jtruthy saved then blank_course
      else \<lparr>cp_index = (case jint (jfield saved ''index'') of
                          None \<Rightarrow> 0
                        | Some i \<Rightarrow> if 0 \<le> i \<and> i \<le> int (length questions) then i else 0),
            cp_answers = fold (\<lambda>q answers.
                case restoredAnswer q (jfield (jfield saved ''answers'') (qu_id q)) of
                  None \<Rightarrow> answers
                | Some a \<Rightarrow> answers(qu_id q \<mapsto> a)) questions (\<lambda>_. None)\<rparr>)"

definition restoreQuizProgress :: "quizzes \<Rightarrow> json option \<Rightarrow> progress" where
  "restoreQuizProgress qs raw =
     (case savedCourses raw of
        None \<Rightarrow> newQuizProgress qs
      | Some courses \<Rightarrow>
          (\<lambda>course. map_option (\<lambda>questions. restored_course questions (jfield (Some courses) course))
                      (map_of qs course)))"

definition answer_json :: "answer \<Rightarrow> json" where
  "answer_json a =
     JObj [(''choice'', case an_choice a of None \<Rightarrow> JNull | Some n \<Rightarrow> JInt n),
           (''checked'', JBool (an_checked a)), (''correct'', JBool (an_correct a)),
           (''firstCorrect'', JBool (an_first a)), (''attempts'', JInt (an_attempts a))]"

definition course_json :: "question list \<Rightarrow> course_progress \<Rightarrow> json" where
  "course_json questions c =
     JObj [(''index'', JInt (cp_index c)),
           (''answers'', JObj (List.map_filter
              (\<lambda>q. map_option (\<lambda>a. (qu_id q, answer_json a)) (cp_answers c (qu_id q))) questions))]"

definition serializeQuizProgress :: "quizzes \<Rightarrow> progress \<Rightarrow> json" where
  "serializeQuizProgress qs p =
     forStorage (JObj (List.map_filter
       (\<lambda>(course, questions). map_option (\<lambda>c. (course, course_json questions c)) (p course)) qs))"

section \<open>The invariant\<close>

definition answer_ok :: "question \<Rightarrow> answer \<Rightarrow> bool" where
  "answer_ok q a \<longleftrightarrow>
     an_attempts a \<ge> 1 \<and>
     (case an_choice a of None \<Rightarrow> True | Some n \<Rightarrow> 0 \<le> n \<and> n < int (qu_choices q)) \<and>
     (an_correct a \<longleftrightarrow> an_checked a \<and> an_choice a = Some (qu_answer q)) \<and>
     (\<not> an_checked a \<longrightarrow> an_choice a = None)"

definition quizzes_ok :: "quizzes \<Rightarrow> bool" where
  "quizzes_ok qs \<longleftrightarrow> distinct (map fst qs) \<and> list_all (\<lambda>(_, questions). distinct (map qu_id questions)) qs"

definition course_ok :: "question list \<Rightarrow> course_progress \<Rightarrow> bool" where
  "course_ok questions c \<longleftrightarrow>
     0 \<le> cp_index c \<and> cp_index c \<le> int (length questions) \<and>
     list_all (\<lambda>q. case cp_answers c (qu_id q) of None \<Rightarrow> True | Some a \<Rightarrow> answer_ok q a) questions"

definition progress_ok :: "quizzes \<Rightarrow> progress \<Rightarrow> bool" where
  "progress_ok qs p \<longleftrightarrow>
     list_all (\<lambda>(course, questions). case p course of None \<Rightarrow> False | Some c \<Rightarrow> course_ok questions c) qs"

lemma restored_fields_ok: "restored_fields q choice checked first attempts = Some a \<Longrightarrow> answer_ok q a"
  by (auto simp: restored_fields_def answer_ok_def isChoiceOf_def is_null_def
      split: if_splits option.splits)

lemma restoredAnswer_ok: "restoredAnswer q saved = Some a \<Longrightarrow> answer_ok q a"
  by (auto simp: restoredAnswer_def restored_fields_ok split: if_splits option.splits prod.splits)

text \<open>The answers the loop over the questions files.\<close>

lemma fold_answers:
  fixes r :: "question \<Rightarrow> answer option"
  defines "f \<equiv> (\<lambda>q (m :: string \<Rightarrow> answer option). case r q of None \<Rightarrow> m | Some a \<Rightarrow> m(qu_id q \<mapsto> a))"
  shows "i \<notin> qu_id ` set questions \<Longrightarrow> fold f questions m i = m i"
    and "distinct (map qu_id questions) \<Longrightarrow> q \<in> set questions \<Longrightarrow>
      fold f questions m (qu_id q) = (case r q of None \<Rightarrow> m (qu_id q) | Some a \<Rightarrow> Some a)"
proof -
  have step: "i \<noteq> qu_id x \<Longrightarrow> f x m i = m i" for x m i
    by (simp add: f_def split: option.splits)
  show other: "i \<notin> qu_id ` set questions \<Longrightarrow> fold f questions m i = m i" for i questions m
    by (induction questions arbitrary: m) (auto simp: step)
  show "distinct (map qu_id questions) \<Longrightarrow> q \<in> set questions \<Longrightarrow>
      fold f questions m (qu_id q) = (case r q of None \<Rightarrow> m (qu_id q) | Some a \<Rightarrow> Some a)"
  proof (induction questions arbitrary: m)
    case Nil
    then show ?case by simp
  next
    case (Cons x xs)
    show ?case
    proof (cases "q = x")
      case True
      with Cons.prems other [of "qu_id q" xs "f x m"] show ?thesis
        by (simp add: f_def split: option.splits)
    next
      case False
      with Cons.prems have "q \<in> set xs" "qu_id q \<noteq> qu_id x" by (auto simp: rev_image_eqI)
      with Cons step [of "qu_id q" x m] show ?thesis by (simp split: option.splits)
    qed
  qed
qed

lemma restored_course_answers:
  "distinct (map qu_id questions) \<Longrightarrow> q \<in> set questions \<Longrightarrow> jtruthy saved \<Longrightarrow>
   cp_answers (restored_course questions saved) (qu_id q)
     = restoredAnswer q (jfield (jfield saved ''answers'') (qu_id q))"
  by (simp add: restored_course_def fold_answers(2) split: option.splits)

lemma course_ok_restored:
  assumes "distinct (map qu_id questions)"
  shows "course_ok questions (restored_course questions saved)"
proof (cases "jtruthy saved")
  case True
  have "0 \<le> cp_index (restored_course questions saved)"
      "cp_index (restored_course questions saved) \<le> int (length questions)"
    by (auto simp: restored_course_def blank_course_def split: option.splits)
  with True assms show ?thesis
    by (auto simp: course_ok_def list_all_iff restored_course_answers restoredAnswer_ok
        split: option.splits)
next
  case False
  then show ?thesis by (simp add: restored_course_def blank_course_def course_ok_def list_all_iff)
qed

lemma progress_ok_restored: "quizzes_ok qs \<Longrightarrow> progress_ok qs (restoreQuizProgress qs raw)"
proof -
  assume qs: "quizzes_ok qs"
  have blank: "course_ok questions blank_course" for questions
    by (simp add: course_ok_def blank_course_def list_all_iff)
  have found: "map_of qs course = Some questions \<and> distinct (map qu_id questions)"
    if "(course, questions) \<in> set qs" for course questions
    using qs that by (auto simp: quizzes_ok_def list_all_iff)
  show ?thesis
    by (auto simp: progress_ok_def list_all_iff restoreQuizProgress_def newQuizProgress_def
        blank course_ok_restored found split: option.splits)
qed

section \<open>Sequences of answers\<close>

datatype quiz_op = Check string int "json option" | Retry string int

fun quiz_step :: "quizzes \<Rightarrow> quiz_op \<Rightarrow> progress \<Rightarrow> progress" where
  "quiz_step qs (Check course i choice) p =
     (case checkQuizAnswer qs p course i choice of Inl _ \<Rightarrow> p | Inr (_, p') \<Rightarrow> p')"
| "quiz_step qs (Retry course i) p = retryQuizAnswer qs course i p"

lemma question_at_Some:
  "question_at qs course i = Some q \<Longrightarrow> \<exists>questions. map_of qs course = Some questions \<and> q \<in> set questions"
  by (auto simp: question_at_def split: option.splits if_splits)

lemma course_answer_put:
  "course_answer (put_answer course q a p) course' q' =
     (if course' = course \<and> qu_id q' = qu_id q \<and> p course \<noteq> None then Some a
      else course_answer p course' q')"
  by (auto simp: course_answer_def put_answer_def split: option.splits)

text \<open>What one step does to the answers: nothing, or one answer that keeps the first attempt.\<close>

definition keeps_first :: "answer option \<Rightarrow> answer \<Rightarrow> bool" where
  "keeps_first before a \<longleftrightarrow>
     (case before of None \<Rightarrow> True | Some b \<Rightarrow> an_first a = an_first b \<and> an_attempts b \<le> an_attempts a)"

definition good_answer :: "question \<Rightarrow> answer option \<Rightarrow> bool" where
  "good_answer q before = (case before of None \<Rightarrow> True | Some b \<Rightarrow> answer_ok q b)"

text \<open>The answer a checked choice files.\<close>

definition filed :: "question \<Rightarrow> json option \<Rightarrow> answer option \<Rightarrow> answer" where
  "filed q choice before =
     \<lparr>an_choice = jint choice, an_checked = True, an_correct = (jint choice = Some (qu_answer q)),
      an_first = (case before of None \<Rightarrow> jint choice = Some (qu_answer q) | Some b \<Rightarrow> an_first b),
      an_attempts = (case before of None \<Rightarrow> 0 | Some b \<Rightarrow> an_attempts b) + 1\<rparr>"

lemma keeps_first_filed: "keeps_first before (filed q choice before)"
  by (simp add: keeps_first_def filed_def split: option.splits)

lemma good_filed:
  "is_null choice \<or> isChoiceOf choice q \<Longrightarrow> good_answer q before \<Longrightarrow> answer_ok q (filed q choice before)"
  by (cases before)
     (auto simp: filed_def answer_ok_def good_answer_def isChoiceOf_def is_null_def split: option.splits)

lemma check_filed:
  assumes "question_at qs course i = Some q"
  shows "quiz_step qs (Check course i choice) p = p \<or>
    ((is_null choice \<or> isChoiceOf choice q) \<and>
     quiz_step qs (Check course i choice) p
       = put_answer course q (filed q choice (course_answer p course q)) p)"
  using assms
  by (cases "course_answer p course q") (simp_all add: checkQuizAnswer_def Let_def filed_def)

lemma quiz_step_cases:
  "quiz_step qs op p = p \<or>
   (\<exists>course i q a. question_at qs course i = Some q \<and> quiz_step qs op p = put_answer course q a p
      \<and> keeps_first (course_answer p course q) a
      \<and> (good_answer q (course_answer p course q) \<longrightarrow> answer_ok q a))"
proof (cases op)
  case (Check course i choice)
  show ?thesis
  proof (cases "question_at qs course i")
    case None
    then show ?thesis by (simp add: Check checkQuizAnswer_def)
  next
    case (Some q)
    from check_filed [OF this] keeps_first_filed good_filed Some show ?thesis
      unfolding Check by blast
  qed
next
  case (Retry course i)
  show ?thesis
  proof (cases "question_at qs course i")
    case None
    then show ?thesis by (simp add: Retry retryQuizAnswer_def)
  next
    case (Some q)
    show ?thesis
    proof (cases "course_answer p course q")
      case None
      with Some show ?thesis by (simp add: Retry retryQuizAnswer_def)
    next
      case (Some b)
      let ?a = "b\<lparr>an_checked := False, an_choice := None, an_correct := False\<rparr>"
      have "quiz_step qs op p = put_answer course q ?a p"
        using Some \<open>question_at qs course i = Some q\<close> by (simp add: Retry retryQuizAnswer_def)
      moreover have "keeps_first (Some b) ?a" by (simp add: keeps_first_def)
      moreover have "good_answer q (Some b) \<longrightarrow> answer_ok q ?a"
        by (simp add: good_answer_def answer_ok_def)
      ultimately show ?thesis using Some \<open>question_at qs course i = Some q\<close> by metis
    qed
  qed
qed

lemma progress_ok_iff:
  "progress_ok qs p \<longleftrightarrow> (\<forall>(course, questions) \<in> set qs. \<exists>c. p course = Some c \<and> course_ok questions c)"
  by (auto simp: progress_ok_def list_all_iff split: option.splits)

lemma course_ok_put:
  assumes "course_ok questions c" and "distinct (map qu_id questions)" and "q \<in> set questions"
    and "answer_ok q a"
  shows "course_ok questions (c\<lparr>cp_answers := (cp_answers c)(qu_id q \<mapsto> a)\<rparr>)"
proof -
  have "r = q" if "r \<in> set questions" "qu_id r = qu_id q" for r
    using assms(2,3) that by (auto simp: distinct_map inj_on_def)
  with assms show ?thesis by (auto simp: course_ok_def list_all_iff)
qed

lemma progress_ok_step:
  assumes qs: "quizzes_ok qs" and p: "progress_ok qs p"
  shows "progress_ok qs (quiz_step qs op p)"
proof -
  consider "quiz_step qs op p = p" | course i q a where "question_at qs course i = Some q"
      "quiz_step qs op p = put_answer course q a p"
      "good_answer q (course_answer p course q) \<longrightarrow> answer_ok q a"
    using quiz_step_cases [of qs op p] by blast
  then show ?thesis
  proof cases
    case 1
    with p show ?thesis by simp
  next
    case 2
    then obtain questions where found: "map_of qs course = Some questions" "q \<in> set questions"
      using question_at_Some by blast
    then have mem: "(course, questions) \<in> set qs" by (rule_tac map_of_SomeD)
    with p obtain c where c: "p course = Some c" "course_ok questions c"
      by (auto simp: progress_ok_iff)
    with found have "good_answer q (course_answer p course q)"
      by (auto simp: good_answer_def course_answer_def course_ok_def list_all_iff split: option.splits)
    with 2 have "answer_ok q a" by simp
    with c found mem qs have "course_ok questions (c\<lparr>cp_answers := (cp_answers c)(qu_id q \<mapsto> a)\<rparr>)"
      by (intro course_ok_put) (auto simp: quizzes_ok_def list_all_iff)
    moreover have "qs' = questions" if "(course, qs') \<in> set qs" for qs'
      using qs found that by (auto simp: quizzes_ok_def)
    ultimately show ?thesis
      using p c by (auto simp: progress_ok_iff 2 put_answer_def)
  qed
qed

lemma course_answer_step:
  "course_answer p course q = Some b \<Longrightarrow>
   \<exists>a. course_answer (quiz_step qs op p) course q = Some a \<and> an_first a = an_first b
       \<and> an_attempts b \<le> an_attempts a"
proof -
  assume b: "course_answer p course q = Some b"
  consider "quiz_step qs op p = p" | course' q' a where "quiz_step qs op p = put_answer course' q' a p"
      "keeps_first (course_answer p course' q') a"
    using quiz_step_cases [of qs op p] by blast
  then show ?thesis
  proof cases
    case 1
    with b show ?thesis by simp
  next
    case 2
    have "course_answer p course' q' = course_answer p course q"
      if "course = course'" "qu_id q = qu_id q'"
      using that by (simp add: course_answer_def split: option.splits)
    with 2 b show ?thesis by (auto simp: course_answer_put keeps_first_def)
  qed
qed

section \<open>Saving and restoring again\<close>

text \<open>A progress with nothing in it that is not about the questions.\<close>

definition answers_known :: "question list \<Rightarrow> course_progress \<Rightarrow> bool" where
  "answers_known questions c \<longleftrightarrow>
     (\<forall>i a. cp_answers c i = Some a \<longrightarrow> i \<in> qu_id ` set questions \<and> an_attempts a \<le> MAX_SAVED_ATTEMPTS)"

definition canonical :: "quizzes \<Rightarrow> progress \<Rightarrow> bool" where
  "canonical qs p \<longleftrightarrow>
     progress_ok qs p \<and>
     (\<forall>course. case map_of qs course of
        None \<Rightarrow> p course = None
      | Some questions \<Rightarrow> (case p course of None \<Rightarrow> False | Some c \<Rightarrow> answers_known questions c))"

lemma map_of_courses:
  "distinct (map fst qs) \<Longrightarrow>
   map_of (List.map_filter (\<lambda>(k, v). map_option (\<lambda>c. (k, g v c)) (h k)) qs) k
     = (case map_of qs k of None \<Rightarrow> None | Some v \<Rightarrow> map_option (g v) (h k))"
proof (induction qs)
  case Nil
  then show ?case by (simp add: List.map_filter_simps)
next
  case (Cons kv qs)
  obtain k' v' where kv: "kv = (k', v')" by (cases kv)
  have "map_of qs k' = None" using Cons.prems by (simp add: kv map_of_eq_None_iff)
  with Cons kv show ?case by (auto simp: List.map_filter_simps split: option.splits)
qed

lemma map_of_answers:
  "map_of (List.map_filter (\<lambda>q. map_option (\<lambda>a. (qu_id q, j a)) (m (qu_id q))) questions) i
     = (if i \<in> qu_id ` set questions then map_option j (m i) else None)"
  by (induction questions) (auto simp: List.map_filter_simps split: option.splits)

lemma restored_answer_json:
  "answer_ok q a \<Longrightarrow> an_attempts a \<le> MAX_SAVED_ATTEMPTS \<Longrightarrow> restoredAnswer q (Some (answer_json a)) = Some a"
  by (cases "an_choice a")
     (auto simp: restoredAnswer_def restored_fields_def answer_json_def answer_ok_def isChoiceOf_def
       is_null_def intro!: answer.equality)

lemma restored_course_json:
  assumes "distinct (map qu_id questions)" and ok: "course_ok questions c"
    and known: "answers_known questions c"
  shows "restored_course questions (Some (course_json questions c)) = c"
proof (rule course_progress.equality)
  show "cp_index (restored_course questions (Some (course_json questions c))) = cp_index c"
    using ok by (simp add: restored_course_def course_json_def course_ok_def)
  define r where "r = (\<lambda>q. restoredAnswer q
    (jfield (jfield (Some (course_json questions c)) ''answers'') (qu_id q)))"
  have r: "r q = cp_answers c (qu_id q)" if q: "q \<in> set questions" for q
  proof -
    have "r q = restoredAnswer q (map_option answer_json (cp_answers c (qu_id q)))"
      using q by (simp add: r_def course_json_def map_of_answers)
    moreover have "answer_ok q a \<and> an_attempts a \<le> MAX_SAVED_ATTEMPTS" if "cp_answers c (qu_id q) = Some a" for a
      using that q ok known by (fastforce simp: course_ok_def list_all_iff answers_known_def)
    ultimately show ?thesis
      by (cases "cp_answers c (qu_id q)")
         (simp_all add: restored_answer_json, simp add: restoredAnswer_def)
  qed
  have answers: "cp_answers (restored_course questions (Some (course_json questions c)))
      = fold (\<lambda>q answers. case r q of None \<Rightarrow> answers | Some a \<Rightarrow> answers(qu_id q \<mapsto> a)) questions (\<lambda>_. None)"
    by (simp add: restored_course_def r_def) (simp add: course_json_def)
  show "cp_answers (restored_course questions (Some (course_json questions c))) = cp_answers c"
  proof
    fix i
    show "cp_answers (restored_course questions (Some (course_json questions c))) i = cp_answers c i"
    proof (cases "i \<in> qu_id ` set questions")
      case True
      then obtain q where "q \<in> set questions" "i = qu_id q" by blast
      then show ?thesis
        using fold_answers(2) [OF assms(1), of q r] r
        by (simp add: answers split: option.splits)
    next
      case False
      then have "cp_answers c i = None"
        using known by (cases "cp_answers c i") (auto simp: answers_known_def)
      with False show ?thesis by (simp add: answers fold_answers(1))
    qed
  qed
qed simp

section \<open>Properties\<close>

text \<open>
  Whatever was in the storage and whatever the learner then checks and retries, every answer is
  sound: it is correct exactly when it is checked and its choice is the question's answer, its
  choice is one of the question's, it has at least one attempt, and the page is one of the course.
  A record edited by hand cannot turn a wrong choice into a correct one.
\<close>

theorem quiz_always_sound:
  assumes "quizzes_ok qs"
  shows "progress_ok qs (fold (quiz_step qs) ops (restoreQuizProgress qs raw))"
proof -
  have "progress_ok qs (fold (quiz_step qs) ops p)" if "progress_ok qs p" for p
    using that by (induction ops arbitrary: p) (simp_all add: progress_ok_step assms)
  then show ?thesis by (simp add: progress_ok_restored assms)
qed

definition example_quizzes :: quizzes where
  "example_quizzes = [(''slam'', [\<lparr>qu_id = ''a'', qu_choices = 3, qu_answer = 1\<rparr>,
                                  \<lparr>qu_id = ''b'', qu_choices = 2, qu_answer = 0\<rparr>])]"

theorem quiz_always_sound_witness:
  "progress_ok example_quizzes
     (fold (quiz_step example_quizzes) [Check ''slam'' 0 (Some (JInt 2)), Retry ''slam'' 0,
        Check ''slam'' 0 (Some (JInt 1))] (restoreQuizProgress example_quizzes None))"
  by (rule quiz_always_sound) (simp add: quizzes_ok_def example_quizzes_def)

text \<open>
  The record of the first attempt is kept for good: whatever is checked and retried later, an
  answered question keeps its first result, and its attempts never decrease.
\<close>

theorem first_attempt_kept:
  "case course_answer p course q of
     None \<Rightarrow> True
   | Some b \<Rightarrow>
       (\<exists>a. course_answer (fold (quiz_step qs) ops p) course q = Some a \<and> an_first a = an_first b
            \<and> an_attempts b \<le> an_attempts a)"
proof -
  have "\<exists>a. course_answer (fold (quiz_step qs) ops p) course q = Some a \<and> an_first a = an_first b
      \<and> an_attempts b \<le> an_attempts a" if "course_answer p course q = Some b" for b
    using that
  proof (induction ops arbitrary: p b)
    case Nil
    then show ?case by simp
  next
    case (Cons op ops)
    then obtain c where "course_answer (quiz_step qs op p) course q = Some c"
        "an_first c = an_first b" "an_attempts b \<le> an_attempts c"
      using course_answer_step by blast
    with Cons.IH [of "quiz_step qs op p" c] show ?case by force
  qed
  then show ?thesis by (simp split: option.splits)
qed

text \<open>
  What the quiz saves it reads back: restoring the record of a sound progress gives that
  progress.
\<close>

theorem quiz_roundtrip:
  assumes "quizzes_ok qs" and "canonical qs p"
  shows "restoreQuizProgress qs (Some (serializeQuizProgress qs p)) = p"
proof
  fix course
  have found: "case map_of qs course of None \<Rightarrow> p course = None
      | Some questions \<Rightarrow> (case p course of None \<Rightarrow> False | Some c \<Rightarrow> answers_known questions c)"
    using assms(2) by (simp only: canonical_def)
  show "restoreQuizProgress qs (Some (serializeQuizProgress qs p)) course = p course"
  proof (cases "map_of qs course")
    case None
    then show ?thesis
      using found by (simp add: restoreQuizProgress_def serializeQuizProgress_def)
  next
    case (Some questions)
    with found obtain c where c: "p course = Some c" "answers_known questions c"
      by (auto split: option.splits)
    have "(course, questions) \<in> set qs" using Some by (rule map_of_SomeD)
    with assms c have "course_ok questions c" "distinct (map qu_id questions)"
      by (auto simp: canonical_def progress_ok_iff quizzes_ok_def list_all_iff)
    moreover have "distinct (map fst qs)" using assms(1) by (simp add: quizzes_ok_def)
    ultimately show ?thesis using Some c
      by (simp add: restoreQuizProgress_def serializeQuizProgress_def map_of_courses
          restored_course_json)
  qed
qed

definition example_progress :: progress where
  "example_progress = [''slam'' \<mapsto> \<lparr>cp_index = 1, cp_answers =
     [''a'' \<mapsto> \<lparr>an_choice = Some 1, an_checked = True, an_correct = True, an_first = False,
              an_attempts = 2\<rparr>]\<rparr>]"

theorem quiz_roundtrip_witness:
  "restoreQuizProgress example_quizzes (Some (serializeQuizProgress example_quizzes example_progress))
     = example_progress"
  by (rule quiz_roundtrip)
     (auto simp: quizzes_ok_def canonical_def progress_ok_def course_ok_def answers_known_def
       answer_ok_def example_quizzes_def example_progress_def MAX_SAVED_ATTEMPTS_def)

end
