(* ===== verification/Mastery.thy ===== *)
theory Mastery
  imports Json
begin

text \<open>
  \<open>lab/js/quiz/mastery-core.js\<close>: the mastery test. The draft the learner fills in, the attempts
  that were submitted and how a submission is graded. The questions (\<open>MASTERY_TESTS\<close>) are a
  parameter, as are the two text functions of the JavaScript engine that need Unicode tables:
  \<open>tx_numeric\<close> (NFKC, \<open>trim\<close>, the minus sign U+2212) and \<open>tx_trim\<close>. Lengths are in characters.
\<close>

section \<open>Questions and answers\<close>

datatype part = NumberPart real real | ChoicePart nat int

record test_question =
  tq_id :: string
  tq_answer :: part
  tq_reason :: part
  tq_writing :: bool

type_synonym tests = "(string \<times> test_question list) list"

record test_answer =
  ta_value :: string
  ta_reason :: string
  ta_note :: string
  ta_note_unknown :: bool

record text_env =
  tx_numeric :: "string \<Rightarrow> string"
  tx_trim :: "string \<Rightarrow> string"

definition UNKNOWN :: string where "UNKNOWN = ''?''"
definition CRITERIA_COUNT :: nat where "CRITERIA_COUNT = 3"
definition TOLERANCE_SLACK :: real where "TOLERANCE_SLACK = 1 / 10 ^ 10"
definition MAX_VALUE_LENGTH :: nat where "MAX_VALUE_LENGTH = 80"
definition MAX_REASON_LENGTH :: nat where "MAX_REASON_LENGTH = 10"
definition MAX_NOTE_LENGTH :: nat where "MAX_NOTE_LENGTH = 1500"
definition MAX_TIMESTAMP_LENGTH :: nat where "MAX_TIMESTAMP_LENGTH = 50"
definition MAX_SAVED_ATTEMPTS :: int where "MAX_SAVED_ATTEMPTS = 10000"

definition blankMasteryAnswer :: test_answer where
  "blankMasteryAnswer = \<lparr>ta_value = [], ta_reason = [], ta_note = [], ta_note_unknown = False\<rparr>"

section \<open>Numbers as learners type them\<close>

definition is_digit :: "char \<Rightarrow> bool" where
  "is_digit c \<longleftrightarrow> CHR ''0'' \<le> c \<and> c \<le> CHR ''9''"

definition digit_value :: "char \<Rightarrow> nat" where
  "digit_value c = of_char c - 48"

definition digits_value :: "string \<Rightarrow> nat" where
  "digits_value s = foldl (\<lambda>n c. 10 * n + digit_value c) 0 s"

definition all_digits :: "string \<Rightarrow> bool" where
  "all_digits s \<longleftrightarrow> s \<noteq> [] \<and> list_all is_digit s"

definition isChoiceIndex :: "string \<Rightarrow> nat \<Rightarrow> bool" where
  "isChoiceIndex value choices \<longleftrightarrow> all_digits value \<and> digits_value value < choices"

definition strip_sign :: "string \<Rightarrow> real \<times> string" where
  "strip_sign s =
     (case s of [] \<Rightarrow> (1, []) | c # rest \<Rightarrow>
        if c = CHR ''+'' then (1, rest) else if c = CHR ''-'' then (- 1, rest) else (1, s))"

text \<open>The regular expression \<open>PLAIN_DECIMAL\<close> with the number \<open>Number(text)\<close> reads: a sign, digits
  with an optional fraction, or a fraction alone.\<close>

definition plain_decimal :: "string \<Rightarrow> real option" where
  "plain_decimal txt =
     (case strip_sign txt of (sign, s) \<Rightarrow>
        let whole = takeWhile is_digit s; rest = dropWhile is_digit s in
        case rest of
          [] \<Rightarrow> if whole = [] then None else Some (sign * real (digits_value whole))
        | c # fraction \<Rightarrow>
            if c \<noteq> CHR ''.'' \<or> \<not> list_all is_digit fraction \<or> (whole = [] \<and> fraction = []) then None
            else Some (sign * (real (digits_value whole)
                         + real (digits_value fraction) / 10 ^ length fraction)))"

definition isNumberText :: "text_env \<Rightarrow> string \<Rightarrow> bool" where
  "isNumberText tx value \<longleftrightarrow> plain_decimal (tx_numeric tx value) \<noteq> None"

section \<open>What is still missing, and grading\<close>

definition isAnswered :: "text_env \<Rightarrow> part \<Rightarrow> string \<Rightarrow> bool" where
  "isAnswered tx p value \<longleftrightarrow>
     value = UNKNOWN \<or>
     (case p of NumberPart _ _ \<Rightarrow> isNumberText tx value | ChoicePart n _ \<Rightarrow> isChoiceIndex value n)"

datatype missing = MissingAnswer | MissingReason | MissingNote

definition has_note :: "text_env \<Rightarrow> test_answer \<Rightarrow> bool" where
  "has_note tx a \<longleftrightarrow> tx_trim tx (ta_note a) \<noteq> []"

definition masteryMissing :: "text_env \<Rightarrow> test_question \<Rightarrow> test_answer option \<Rightarrow> missing list" where
  "masteryMissing tx q a =
     (let given = coalesce a blankMasteryAnswer in
      (if isAnswered tx (tq_answer q) (ta_value given) then [] else [MissingAnswer])
      @ (if isAnswered tx (tq_reason q) (ta_reason given) then [] else [MissingReason])
      @ (if tq_writing q \<and> \<not> has_note tx given \<and> \<not> ta_note_unknown given then [MissingNote] else []))"

definition isCorrect :: "text_env \<Rightarrow> part \<Rightarrow> string \<Rightarrow> bool" where
  "isCorrect tx p value =
     (case p of
        ChoicePart n v \<Rightarrow> isChoiceIndex value n \<and> int (digits_value value) = v
      | NumberPart v tolerance \<Rightarrow>
          (case plain_decimal (tx_numeric tx value) of
             None \<Rightarrow> False | Some x \<Rightarrow> \<bar>x - v\<bar> \<le> tolerance + TOLERANCE_SLACK))"

record question_grade =
  qg_id :: string
  qg_judgment :: bool
  qg_reasoning :: bool
  qg_complete :: bool
  qg_written :: bool

definition gradeQuestion :: "text_env \<Rightarrow> test_question \<Rightarrow> test_answer option \<Rightarrow> question_grade" where
  "gradeQuestion tx q a =
     (let given = coalesce a blankMasteryAnswer;
          judgment = isCorrect tx (tq_answer q) (ta_value given);
          reasoning = isCorrect tx (tq_reason q) (ta_reason given)
      in \<lparr>qg_id = tq_id q, qg_judgment = judgment, qg_reasoning = reasoning,
          qg_complete = (judgment \<and> reasoning),
          qg_written = (tq_writing q \<and> has_note tx given \<and> \<not> ta_note_unknown given)\<rparr>)"

record grade =
  gr_results :: "question_grade list"
  gr_total :: nat
  gr_judgment :: nat
  gr_reasoning :: nat
  gr_complete :: nat

type_synonym test_answers = "string \<Rightarrow> test_answer option"

definition gradeMastery :: "text_env \<Rightarrow> test_question list \<Rightarrow> test_answers \<Rightarrow> grade" where
  "gradeMastery tx questions answers =
     (let results = map (\<lambda>q. gradeQuestion tx q (answers (tq_id q))) questions
      in \<lparr>gr_results = results, gr_total = length results,
          gr_judgment = length (filter qg_judgment results),
          gr_reasoning = length (filter qg_reasoning results),
          gr_complete = length (filter qg_complete results)\<rparr>)"

definition anyMissing :: "text_env \<Rightarrow> test_question list \<Rightarrow> test_answers \<Rightarrow> bool" where
  "anyMissing tx questions answers =
     list_ex (\<lambda>q. masteryMissing tx q (answers (tq_id q)) \<noteq> []) questions"

section \<open>Drafts and attempts\<close>

record draft =
  df_index :: int
  df_answers :: test_answers

record attempt =
  at_answers :: test_answers
  at_at :: string
  at_checks :: "bool list"

record course_record =
  cr_draft :: "draft option"
  cr_first :: "attempt option"
  cr_last :: "attempt option"
  cr_attempts :: int

type_synonym mastery = "string \<Rightarrow> course_record option"

definition new_record :: course_record where
  "new_record = \<lparr>cr_draft = None, cr_first = None, cr_last = None, cr_attempts = 0\<rparr>"

definition newMasteryProgress :: "tests \<Rightarrow> mastery" where
  "newMasteryProgress ts = (\<lambda>course. map_option (\<lambda>_. new_record) (map_of ts course))"

definition newChecks :: "bool list" where
  "newChecks = replicate CRITERIA_COUNT False"

datatype mastery_error = UnknownCourse | IncompleteAnswers

definition beginMastery :: "tests \<Rightarrow> string \<Rightarrow> mastery \<Rightarrow> mastery_error + draft \<times> mastery" where
  "beginMastery ts course p =
     (case (map_of ts course, p course) of
        (Some _, Some r) \<Rightarrow>
          (case cr_draft r of
             Some d \<Rightarrow> Inr (d, p)
           | None \<Rightarrow> let d = \<lparr>df_index = 0, df_answers = (\<lambda>_. None)\<rparr>
                     in Inr (d, p(course \<mapsto> r\<lparr>cr_draft := Some d\<rparr>)))
      | _ \<Rightarrow> Inl UnknownCourse)"

definition masteryAnswer :: "tests \<Rightarrow> mastery \<Rightarrow> string \<Rightarrow> nat \<Rightarrow> test_answer" where
  "masteryAnswer ts p course i =
     (case Option.bind (p course) cr_draft of
        None \<Rightarrow> blankMasteryAnswer
      | Some d \<Rightarrow> coalesce (df_answers d (tq_id (coalesce (map_of ts course) [] ! i))) blankMasteryAnswer)"

text \<open>Answers: no draft (a repeated submit) answers \<open>None\<close>.\<close>

definition submitMastery ::
  "text_env \<Rightarrow> tests \<Rightarrow> string \<Rightarrow> string \<Rightarrow> mastery \<Rightarrow> mastery_error + grade option \<times> mastery" where
  "submitMastery tx ts course t0 p =
     (case p course of
        None \<Rightarrow> Inr (None, p)
      | Some r \<Rightarrow>
          (case cr_draft r of
             None \<Rightarrow> Inr (None, p)
           | Some d \<Rightarrow>
               let questions = coalesce (map_of ts course) [] in
               if anyMissing tx questions (df_answers d) then Inl IncompleteAnswers
               else let attempt = \<lparr>at_answers = df_answers d, at_at = t0, at_checks = newChecks\<rparr>
                    in Inr (Some (gradeMastery tx questions (df_answers d)),
                            p(course \<mapsto> r\<lparr>cr_first := first_some (cr_first r) (Some attempt),
                                cr_last := Some attempt, cr_draft := None,
                                cr_attempts := cr_attempts r + 1\<rparr>))))"

section \<open>Restoring\<close>

definition savedText :: "json option \<Rightarrow> nat \<Rightarrow> string" where
  "savedText value max_length =
     (case jstring value of None \<Rightarrow> [] | Some s \<Rightarrow> if length s < max_length then s else [])"

definition restored_answer :: "json option \<Rightarrow> test_answer" where
  "restored_answer a =
     \<lparr>ta_value = savedText (jfield a ''value'') MAX_VALUE_LENGTH,
      ta_reason = savedText (jfield a ''reason'') MAX_REASON_LENGTH,
      ta_note = (case jstring (jfield a ''note'') of None \<Rightarrow> [] | Some s \<Rightarrow> take MAX_NOTE_LENGTH s),
      ta_note_unknown = (jfield a ''noteUnknown'' = Some (JBool True))\<rparr>"

definition restoredAnswers :: "test_question list \<Rightarrow> json option \<Rightarrow> test_answers" where
  "restoredAnswers questions saved =
     (\<lambda>i. if i \<in> set (map tq_id questions) then Some (restored_answer (jfield saved i)) else None)"

definition restoredAttempt :: "text_env \<Rightarrow> test_question list \<Rightarrow> json option \<Rightarrow> attempt option" where
  "restoredAttempt tx questions saved =
     (if \<not> is_object saved then None
      else let answers = restoredAnswers questions (jfield saved ''answers'') in
           if anyMissing tx questions answers then None
           else Some \<lparr>at_answers = answers, at_at = savedText (jfield saved ''at'') MAX_TIMESTAMP_LENGTH,
                      at_checks = map (\<lambda>i. jitem (jfield saved ''checks'') i = Some (JBool True))
                                    [0..<CRITERIA_COUNT]\<rparr>)"

definition restoredDraft :: "test_question list \<Rightarrow> json option \<Rightarrow> draft option" where
  "restoredDraft questions saved =
     (if \<not> is_object saved then None
      else Some \<lparr>df_index = (case jint (jfield saved ''index'') of
                               None \<Rightarrow> 0
                             | Some i \<Rightarrow> if 0 \<le> i \<and> i < int (length questions) then i else 0),
                 df_answers = restoredAnswers questions (jfield saved ''answers'')\<rparr>)"

definition restoredAttemptCount :: "json option \<Rightarrow> bool \<Rightarrow> int" where
  "restoredAttemptCount saved hasAttempt =
     (if \<not> hasAttempt then 0
      else case jint saved of None \<Rightarrow> 1
        | Some n \<Rightarrow> if 1 \<le> n \<and> n \<le> MAX_SAVED_ATTEMPTS then n else 1)"

definition restored_record :: "text_env \<Rightarrow> test_question list \<Rightarrow> json option \<Rightarrow> course_record" where
  "restored_record tx questions saved =
     (if \<not> is_object saved then new_record
      else let first = restoredAttempt tx questions (jfield saved ''first'');
               last = restoredAttempt tx questions (jfield saved ''last'');
               first' = first_some first last
           in \<lparr>cr_draft = restoredDraft questions (jfield saved ''draft''),
               cr_first = first', cr_last = first_some last first',
               cr_attempts = restoredAttemptCount (jfield saved ''attempts'') (first' \<noteq> None)\<rparr>)"

definition restoreMastery :: "text_env \<Rightarrow> tests \<Rightarrow> json option \<Rightarrow> mastery" where
  "restoreMastery tx ts raw =
     (case savedCourses raw of
        None \<Rightarrow> newMasteryProgress ts
      | Some courses \<Rightarrow>
          (\<lambda>course. map_option (\<lambda>questions. restored_record tx questions (jfield (Some courses) course))
                      (map_of ts course)))"

section \<open>The invariant\<close>

text \<open>Every attempt kept would pass the submit check; the first and the last come together.\<close>

definition attempt_ok :: "text_env \<Rightarrow> test_question list \<Rightarrow> attempt option \<Rightarrow> bool" where
  "attempt_ok tx questions a =
     (case a of None \<Rightarrow> True
      | Some t \<Rightarrow> \<not> anyMissing tx questions (at_answers t) \<and> length (at_checks t) = CRITERIA_COUNT)"

definition record_ok :: "text_env \<Rightarrow> test_question list \<Rightarrow> course_record \<Rightarrow> bool" where
  "record_ok tx questions r \<longleftrightarrow>
     attempt_ok tx questions (cr_first r) \<and> attempt_ok tx questions (cr_last r) \<and>
     (cr_first r = None \<longleftrightarrow> cr_last r = None) \<and>
     (if cr_first r = None then cr_attempts r = 0 else cr_attempts r \<ge> 1)"

definition course_sound :: "text_env \<Rightarrow> tests \<Rightarrow> mastery \<Rightarrow> string \<Rightarrow> bool" where
  "course_sound tx ts p course \<longleftrightarrow>
     (case (map_of ts course, p course) of
        (Some questions, Some r) \<Rightarrow> record_ok tx questions r | _ \<Rightarrow> False)"

definition mastery_ok :: "text_env \<Rightarrow> tests \<Rightarrow> mastery \<Rightarrow> bool" where
  "mastery_ok tx ts p \<longleftrightarrow> list_all (course_sound tx ts p) (map fst ts)"

text \<open>The learner's actions; \<open>Edit\<close> is the form writing an answer into the open draft.\<close>

datatype mastery_op = Begin string | Edit string string test_answer | Submit string string

definition edit_draft :: "string \<Rightarrow> string \<Rightarrow> test_answer \<Rightarrow> mastery \<Rightarrow> mastery" where
  "edit_draft course i a p =
     (case p course of None \<Rightarrow> p
      | Some r \<Rightarrow>
          (case cr_draft r of None \<Rightarrow> p
           | Some d \<Rightarrow> p(course \<mapsto> r\<lparr>cr_draft := Some (d\<lparr>df_answers := (df_answers d)(i \<mapsto> a)\<rparr>)\<rparr>)))"

fun mastery_step :: "text_env \<Rightarrow> tests \<Rightarrow> mastery_op \<Rightarrow> mastery \<Rightarrow> mastery" where
  "mastery_step tx ts (Begin course) p =
     (case beginMastery ts course p of Inl _ \<Rightarrow> p | Inr (_, p') \<Rightarrow> p')"
| "mastery_step tx ts (Edit course i a) p = edit_draft course i a p"
| "mastery_step tx ts (Submit course t0) p =
     (case submitMastery tx ts course t0 p of Inl _ \<Rightarrow> p | Inr (_, p') \<Rightarrow> p')"

lemma restoredAttempt_ok: "attempt_ok tx questions (restoredAttempt tx questions saved)"
  by (simp add: restoredAttempt_def attempt_ok_def Let_def)

lemma restored_record_ok: "record_ok tx questions (restored_record tx questions saved)"
proof -
  define first where "first = restoredAttempt tx questions (jfield saved ''first'')"
  define last where "last = restoredAttempt tx questions (jfield saved ''last'')"
  have "attempt_ok tx questions first" "attempt_ok tx questions last"
    by (simp_all add: first_def last_def restoredAttempt_ok)
  then show ?thesis
    by (cases first; cases last)
       (simp_all add: restored_record_def first_def [symmetric] last_def [symmetric] record_ok_def
         restoredAttemptCount_def new_record_def attempt_ok_def Let_def split: option.splits)
qed

text \<open>A step changes one course's record, which stays sound and keeps its first attempt.\<close>

definition record_step :: "text_env \<Rightarrow> test_question list \<Rightarrow> course_record \<Rightarrow> course_record \<Rightarrow> bool" where
  "record_step tx questions r r' \<longleftrightarrow>
     (record_ok tx questions r \<longrightarrow> record_ok tx questions r') \<and>
     (cr_first r \<noteq> None \<longrightarrow> cr_first r' = cr_first r) \<and> cr_attempts r \<le> cr_attempts r'"

lemma record_step_draft: "record_step tx questions r (r\<lparr>cr_draft := d\<rparr>)"
  by (simp add: record_step_def record_ok_def)

lemma begin_cases:
  "mastery_step tx ts (Begin course) p = p \<or>
   (\<exists>r d. p course = Some r \<and> mastery_step tx ts (Begin course) p = p(course \<mapsto> r\<lparr>cr_draft := d\<rparr>))"
  by (cases "map_of ts course"; cases "p course")
     (simp_all add: beginMastery_def Let_def split: option.splits, blast)

lemma edit_cases:
  "edit_draft course i a p = p \<or>
   (\<exists>r d. p course = Some r \<and> edit_draft course i a p = p(course \<mapsto> r\<lparr>cr_draft := d\<rparr>))"
  by (cases "p course") (simp_all add: edit_draft_def split: option.splits, blast)

lemma mastery_step_cases:
  "mastery_step tx ts op p = p \<or>
   (\<exists>course r r'. p course = Some r \<and> mastery_step tx ts op p = p(course \<mapsto> r')
      \<and> record_step tx (coalesce (map_of ts course) []) r r')"
proof (cases op)
  case (Begin course)
  with begin_cases [of tx ts course p] record_step_draft show ?thesis by blast
next
  case (Edit course i a)
  with edit_cases [of course i a p] record_step_draft show ?thesis by (simp only: mastery_step.simps) blast
next
  case (Submit course t0)
  show ?thesis
  proof (cases "p course")
    case None
    then show ?thesis by (simp add: Submit submitMastery_def)
  next
    case (Some r)
    show ?thesis
    proof (cases "cr_draft r")
      case None
      with Some show ?thesis by (simp add: Submit submitMastery_def)
    next
      case d: (Some d)
      define questions where "questions = coalesce (map_of ts course) []"
      define a where "a = \<lparr>at_answers = df_answers d, at_at = t0, at_checks = newChecks\<rparr>"
      define r' where "r' = r\<lparr>cr_first := first_some (cr_first r) (Some a), cr_last := Some a,
        cr_draft := None, cr_attempts := cr_attempts r + 1\<rparr>"
      have "record_step tx questions r r'" if "\<not> anyMissing tx questions (df_answers d)"
        using that
        by (cases "cr_first r")
           (auto simp: record_step_def record_ok_def r'_def a_def attempt_ok_def newChecks_def)
      moreover have "mastery_step tx ts op p = (if anyMissing tx questions (df_answers d) then p
          else p(course \<mapsto> r'))"
        using Some d by (simp add: Submit submitMastery_def questions_def r'_def a_def Let_def)
      ultimately show ?thesis using Some by (auto simp: questions_def)
    qed
  qed
qed

lemma course_sound_iff:
  "course_sound tx ts p course \<longleftrightarrow> (\<exists>questions r. map_of ts course = Some questions
     \<and> p course = Some r \<and> record_ok tx questions r)"
  by (simp add: course_sound_def split: option.splits)

lemma course_sound_step:
  assumes "course_sound tx ts p course"
  shows "course_sound tx ts (mastery_step tx ts op p) course"
proof -
  consider "mastery_step tx ts op p = p" | c r r' where "p c = Some r"
      "mastery_step tx ts op p = p(c \<mapsto> r')" "record_step tx (coalesce (map_of ts c) []) r r'"
    using mastery_step_cases [of tx ts op p] by blast
  then show ?thesis
  proof cases
    case 1
    with assms show ?thesis by simp
  next
    case 2
    with assms show ?thesis by (cases "c = course") (auto simp: course_sound_iff record_step_def)
  qed
qed

lemma mastery_ok_step: "mastery_ok tx ts p \<Longrightarrow> mastery_ok tx ts (mastery_step tx ts op p)"
  by (auto simp: mastery_ok_def list_all_iff course_sound_step)

lemma mastery_ok_restored: "mastery_ok tx ts (restoreMastery tx ts raw)"
proof -
  have blank: "record_ok tx questions new_record" for questions
    by (simp add: record_ok_def new_record_def attempt_ok_def)
  have "course_sound tx ts (restoreMastery tx ts raw) course" if mem: "course \<in> fst ` set ts" for course
  proof -
    obtain questions where "map_of ts course = Some questions"
      using mem map_of_eq_None_iff [of ts course] by (cases "map_of ts course") simp_all
    then show ?thesis
      by (auto simp: course_sound_iff restoreMastery_def newMasteryProgress_def restored_record_ok
          blank split: option.splits)
  qed
  then show ?thesis by (auto simp: mastery_ok_def list_all_iff)
qed

lemma mastery_first_step:
  "Option.bind (p course) cr_first = Some a \<Longrightarrow>
   Option.bind (mastery_step tx ts op p course) cr_first = Some a"
  using mastery_step_cases [of tx ts op p] by (auto simp: record_step_def bind_eq_Some_conv)

section \<open>Properties\<close>

text \<open>
  Whatever was in the storage and whatever the learner does, the first and the last attempt of
  a course come together, each would pass the submit check, and attempts are counted from 1; and
  once a first attempt is there it is kept for good.
\<close>

theorem mastery_always_sound:
  "let p = fold (mastery_step tx ts) ops (restoreMastery tx ts raw);
       p' = fold (mastery_step tx ts) later p
   in mastery_ok tx ts p \<and>
      (case Option.bind (p course) cr_first of None \<Rightarrow> True
       | Some a \<Rightarrow> Option.bind (p' course) cr_first = Some a)"
proof -
  have "mastery_ok tx ts (fold (mastery_step tx ts) ops p)" if "mastery_ok tx ts p" for p
    using that by (induction ops arbitrary: p) (simp_all add: mastery_ok_step)
  then have "mastery_ok tx ts (fold (mastery_step tx ts) ops (restoreMastery tx ts raw))"
    by (simp add: mastery_ok_restored)
  moreover have "Option.bind (fold (mastery_step tx ts) later p course) cr_first = Some a"
    if "Option.bind (p course) cr_first = Some a" for p a
    using that by (induction later arbitrary: p) (simp_all add: mastery_first_step)
  ultimately show ?thesis by (simp add: Let_def split: option.splits)
qed

end
