(* ===== verification/Min_Heap.thy ===== *)
theory Min_Heap
  imports Lab_Prelude
begin

text \<open>
  The binary heap of \<open>lab/js/planning/core.js\<close> (\<open>class MinHeap\<close>), an array of entries with a
  priority, and the contract of a priority queue the route search relies on (\<open>priority_queue\<close>),
  which the heap is shown to keep.
\<close>

section \<open>The heap\<close>

record entry =
  en_id :: nat
  en_f :: real

text \<open>\<open>push\<close>: the free place \<open>i\<close> moves up while the parent is larger.\<close>

fun sift_up :: "entry list \<Rightarrow> nat \<Rightarrow> entry \<Rightarrow> entry list" where
  "sift_up a 0 v = a[0 := v]"
| "sift_up a (Suc k) v =
     (let p = k div 2 in
      if en_f (a ! p) \<le> en_f v then a[Suc k := v] else sift_up (a[Suc k := a ! p]) p v)"

definition heap_push :: "entry \<Rightarrow> entry list \<Rightarrow> entry list" where
  "heap_push v a = sift_up (a @ [v]) (length a) v"

text \<open>\<open>pop\<close>: the free place moves down along the smaller child while that is smaller than \<open>v\<close>.\<close>

definition smaller_child :: "entry list \<Rightarrow> nat \<Rightarrow> nat" where
  "smaller_child a i =
     (let child = 2 * i + 1 in
      if child + 1 < length a \<and> en_f (a ! (child + 1)) < en_f (a ! child) then child + 1 else child)"

function sift_down :: "entry list \<Rightarrow> nat \<Rightarrow> entry \<Rightarrow> entry list" where
  "sift_down a i v =
     (if 2 * i + 1 < length a
      then let child = smaller_child a i in
           if en_f (a ! child) \<ge> en_f v then a[i := v] else sift_down (a[i := a ! child]) child v
      else a[i := v])"
  by pat_completeness auto
termination
  by (relation "measure (\<lambda>(a, i, v). length a - i)") (auto simp: smaller_child_def Let_def)

declare sift_down.simps [simp del]

definition heap_pop :: "entry list \<Rightarrow> (entry \<times> entry list) option" where
  "heap_pop a =
     (case a of [] \<Rightarrow> None
      | first # _ \<Rightarrow>
          let rest = butlast a in
          Some (first, if rest = [] then [] else sift_down rest 0 (last a)))"

definition parent :: "nat \<Rightarrow> nat" where
  "parent i = (i - 1) div 2"

definition is_heap :: "entry list \<Rightarrow> bool" where
  "is_heap a \<longleftrightarrow> list_all (\<lambda>i. en_f (a ! parent i) \<le> en_f (a ! i)) [1..<length a]"

lemma is_heap_iff: "is_heap a \<longleftrightarrow> (\<forall>i. 0 < i \<longrightarrow> i < length a \<longrightarrow> en_f (a ! parent i) \<le> en_f (a ! i))"
  by (auto simp: is_heap_def list_all_iff)

lemma parent_less: "0 < i \<Longrightarrow> parent i < i"
  by (simp add: parent_def)

section \<open>The elements stay the same\<close>

lemma mset_update_swap:
  "i < length a \<Longrightarrow> j < length a \<Longrightarrow> mset (a[i := a ! j, j := v]) = mset (a[i := v])"
  by (cases "i = j") (simp_all add: mset_update nth_list_update)

lemma sift_up_length [simp]: "length (sift_up a i v) = length a"
  by (induction a i v rule: sift_up.induct) (simp_all add: Let_def)

lemma sift_up_mset: "i < length a \<Longrightarrow> mset (sift_up a i v) = mset (a[i := v])"
proof (induction a i v rule: sift_up.induct)
  case (1 a v)
  then show ?case by simp
next
  case (2 a k v)
  have p: "k div 2 < length a" using 2(2) by simp
  then show ?case
    using 2 mset_update_swap [of "Suc k" a "k div 2" v] by (simp add: Let_def)
qed

lemma sift_down_length [simp]: "length (sift_down a i v) = length a"
  by (induction a i v rule: sift_down.induct) (subst sift_down.simps, simp add: Let_def)

lemma smaller_child_less: "2 * i + 1 < length a \<Longrightarrow> smaller_child a i < length a"
  by (simp add: smaller_child_def Let_def)

lemma sift_down_mset: "i < length a \<Longrightarrow> mset (sift_down a i v) = mset (a[i := v])"
proof (induction a i v rule: sift_down.induct)
  case (1 a i v)
  show ?case
  proof (cases "2 * i + 1 < length a \<and> \<not> en_f (a ! smaller_child a i) \<ge> en_f v")
    case True
    then have c: "smaller_child a i < length a" by (simp add: smaller_child_less)
    have "mset (sift_down a i v) = mset (sift_down (a[i := a ! smaller_child a i]) (smaller_child a i) v)"
      using True by (subst sift_down.simps) (simp add: Let_def)
    also have "\<dots> = mset (a[i := a ! smaller_child a i, smaller_child a i := v])"
      using 1 True c by simp
    also have "\<dots> = mset (a[i := v])" using 1(2) c by (rule mset_update_swap)
    finally show ?thesis .
  next
    case False
    then show ?thesis by (subst sift_down.simps) (auto simp: Let_def)
  qed
qed

lemma heap_push_mset: "mset (heap_push v a) = add_mset v (mset a)"
  by (simp add: heap_push_def sift_up_mset)

lemma heap_push_length: "length (heap_push v a) = Suc (length a)"
  by (simp add: heap_push_def)

lemma heap_pop_mset:
  assumes "heap_pop a = Some (v, b)"
  shows "mset a = add_mset v (mset b)"
proof -
  from assms obtain rest where a: "a = v # rest" by (auto simp: heap_pop_def Let_def split: list.splits)
  show ?thesis
  proof (cases rest)
    case Nil
    with assms a show ?thesis by (simp add: heap_pop_def)
  next
    case (Cons x xs)
    have b: "b = sift_down (v # butlast rest) 0 (last rest)"
      using assms a Cons by (simp add: heap_pop_def)
    have "mset b = mset (last rest # butlast rest)" unfolding b by (subst sift_down_mset) simp_all
    also have "\<dots> = mset rest"
      by (metis Cons append_butlast_last_id list.distinct(1) mset.simps(2) mset_append add_mset_add_single
          mset_single_iff_right union_mset_add_mset_right empty_neutral(2) mset.simps(1))
    finally show ?thesis using a by simp
  qed
qed

section \<open>The order of the heap\<close>

text \<open>All but the place \<open>i\<close>, which is free, is in order, with \<open>v\<close> below its parent.\<close>

lemma sift_up_heap:
  assumes "i < length a"
    and "\<And>k. 0 < k \<Longrightarrow> k < length a \<Longrightarrow> k \<noteq> i \<Longrightarrow> parent k \<noteq> i \<Longrightarrow> en_f (a ! parent k) \<le> en_f (a ! k)"
    and "\<And>k. 0 < k \<Longrightarrow> k < length a \<Longrightarrow> parent k = i \<Longrightarrow> en_f v \<le> en_f (a ! k)"
    and "\<And>k. 0 < k \<Longrightarrow> k < length a \<Longrightarrow> parent k = i \<Longrightarrow> 0 < i \<Longrightarrow> en_f (a ! parent i) \<le> en_f (a ! k)"
  shows "is_heap (sift_up a i v)"
  using assms
proof (induction a i v rule: sift_up.induct)
  case (1 a v)
  then show ?case
    by (auto simp: is_heap_iff nth_list_update parent_less)
next
  case (2 a k v)
  define p where "p = k div 2"
  have p: "p = parent (Suc k)" "p < Suc k" by (simp_all add: p_def parent_def)
  show ?case
  proof (cases "en_f (a ! p) \<le> en_f v")
    case True
    have "is_heap (a[Suc k := v])"
      unfolding is_heap_iff
    proof (intro allI impI)
      fix j assume j: "0 < j" "j < length (a[Suc k := v])"
      show "en_f (a[Suc k := v] ! parent j) \<le> en_f (a[Suc k := v] ! j)"
      proof (cases "j = Suc k")
        case True
        with \<open>en_f (a ! p) \<le> en_f v\<close> p j show ?thesis
          by (simp add: nth_list_update)
      next
        case False
        then show ?thesis
          using 2(2) 2(3) [of j] 2(4) [of j] j by (cases "parent j = Suc k") (auto simp: nth_list_update)
      qed
    qed
    with True show ?thesis by (simp add: Let_def p_def)
  next
    case False
    then have less: "en_f v < en_f (a ! p)" by simp
    have "is_heap (sift_up (a[Suc k := a ! p]) p v)"
    proof (rule 2(1) [OF p_def])
      show "\<not> en_f (a ! p) \<le> en_f v" by (rule False)
      show "p < length (a[Suc k := a ! p])" using 2(2) p by simp
      fix j assume j: "0 < j" "j < length (a[Suc k := a ! p])"
      show "en_f (a[Suc k := a ! p] ! parent j) \<le> en_f (a[Suc k := a ! p] ! j)"
        if "j \<noteq> p" "parent j \<noteq> p"
      proof (cases "j = Suc k")
        case True
        then show ?thesis using that p by simp
      next
        case False
        then show ?thesis
          using that 2(2) 2(3) [of j] 2(5) [of j] j p
          by (cases "parent j = Suc k") (auto simp: nth_list_update)
      qed
      show "en_f v \<le> en_f (a[Suc k := a ! p] ! j)" if "parent j = p"
      proof (cases "j = Suc k")
        case True
        then show ?thesis using less j by simp
      next
        case False
        then show ?thesis using that less 2(3) [of j] j p by (simp add: nth_list_update)
      qed
      show "en_f (a[Suc k := a ! p] ! parent p) \<le> en_f (a[Suc k := a ! p] ! j)"
        if "parent j = p" "0 < p"
      proof -
        have pp: "parent p < p" "en_f (a ! parent p) \<le> en_f (a ! p)"
          using that(2) 2(2) p parent_less [of p] by (auto intro!: 2(3))
        show ?thesis
        proof (cases "j = Suc k")
          case True
          then show ?thesis using pp p j by (simp add: nth_list_update)
        next
          case False
          then have "en_f (a ! p) \<le> en_f (a ! j)" using 2(3) [of j] that j p by simp
          with False pp p show ?thesis by (simp add: nth_list_update)
        qed
      qed
    qed
    with False show ?thesis by (simp add: Let_def p_def)
  qed
qed

lemma child_parent: "0 < k \<Longrightarrow> parent k = i \<longleftrightarrow> k = 2 * i + 1 \<or> k = 2 * i + 2"
  by (auto simp: parent_def)

lemma smaller_child_min:
  assumes "2 * i + 1 < length a" and "0 < k" and "k < length a" and "parent k = i"
  shows "en_f (a ! smaller_child a i) \<le> en_f (a ! k)"
  using assms by (auto simp: smaller_child_def child_parent Let_def)

lemma sift_down_heap:
  assumes "i < length a" and "0 < i \<Longrightarrow> en_f (a ! parent i) \<le> en_f v"
    and "\<And>k. 0 < k \<Longrightarrow> k < length a \<Longrightarrow> k \<noteq> i \<Longrightarrow> parent k \<noteq> i \<Longrightarrow> en_f (a ! parent k) \<le> en_f (a ! k)"
    and "\<And>k. 0 < k \<Longrightarrow> k < length a \<Longrightarrow> parent k = i \<Longrightarrow> 0 < i \<Longrightarrow> en_f (a ! parent i) \<le> en_f (a ! k)"
  shows "is_heap (sift_down a i v)"
  using assms
proof (induction a i v rule: sift_down.induct)
  case (1 a i v)
  define c where "c = smaller_child a i"
  have settled: "is_heap (a[i := v])"
    if small: "\<And>k. 0 < k \<Longrightarrow> k < length a \<Longrightarrow> parent k = i \<Longrightarrow> en_f v \<le> en_f (a ! k)"
    unfolding is_heap_iff
  proof (intro allI impI)
    fix j assume j: "0 < j" "j < length (a[i := v])"
    show "en_f (a[i := v] ! parent j) \<le> en_f (a[i := v] ! j)"
    proof (cases "j = i")
      case True
      then show ?thesis using 1(2,3) j parent_less [of i] by (simp add: nth_list_update)
    next
      case False
      then show ?thesis
        using 1(2) 1(4) [of j] small [of j] j by (cases "parent j = i") (auto simp: nth_list_update)
    qed
  qed
  show ?case
  proof (cases "2 * i + 1 < length a")
    case False
    have "is_heap (a[i := v])" by (rule settled) (use False in \<open>auto simp: child_parent\<close>)
    with False show ?thesis by (subst sift_down.simps) simp
  next
    case child: True
    then have c: "c < length a" "parent c = i" "0 < c"
      by (auto simp: c_def smaller_child_less smaller_child_def parent_def Let_def)
    show ?thesis
    proof (cases "en_f (a ! c) \<ge> en_f v")
      case True
      have "en_f v \<le> en_f (a ! k)" if "0 < k" "k < length a" "parent k = i" for k
        using True smaller_child_min [OF child that] by (simp add: c_def)
      then have "is_heap (a[i := v])" by (rule settled)
      with True child show ?thesis by (subst sift_down.simps) (simp add: Let_def c_def)
    next
      case False
      have ci: "c \<noteq> i" "i < c" using c parent_less [of c] by auto
      have "is_heap (sift_down (a[i := a ! c]) c v)"
      proof (rule 1(1) [OF child c_def])
        show "\<not> en_f v \<le> en_f (a ! c)" by (rule False)
        show "c < length (a[i := a ! c])" using c by simp
        show "en_f (a[i := a ! c] ! parent c) \<le> en_f v" using c 1(2) False by simp
        fix j assume j: "0 < j" "j < length (a[i := a ! c])"
        show "en_f (a[i := a ! c] ! parent j) \<le> en_f (a[i := a ! c] ! j)"
          if "j \<noteq> c" "parent j \<noteq> c"
        proof (cases "j = i")
          case True
          then show ?thesis using 1(2) 1(5) [of c] c j parent_less [of i] by (simp add: nth_list_update)
        next
          case False
          show ?thesis
          proof (cases "parent j = i")
            case True
            then show ?thesis
              using False 1(2) child smaller_child_min [of i a j] j by (simp add: c_def)
          next
            case other: False
            with False 1(4) [of j] j show ?thesis by simp
          qed
        qed
        show "en_f (a[i := a ! c] ! parent c) \<le> en_f (a[i := a ! c] ! j)" if "parent j = c"
        proof -
          have "j \<noteq> i" using that parent_less [of j] j ci by auto
          with that 1(2) 1(4) [of j] c ci j show ?thesis by simp
        qed
      qed
      with False child show ?thesis by (subst sift_down.simps) (simp add: Let_def c_def)
    qed
  qed
qed

lemma heap_push_heap: "is_heap a \<Longrightarrow> is_heap (heap_push v a)"
  unfolding heap_push_def
proof (rule sift_up_heap)
  assume heap: "is_heap a"
  fix k assume k: "0 < k" "k < length (a @ [v])"
  show "en_f ((a @ [v]) ! parent k) \<le> en_f ((a @ [v]) ! k)" if "k \<noteq> length a" "parent k \<noteq> length a"
    using heap k that parent_less [of k] by (simp add: is_heap_iff nth_append)
  show "en_f v \<le> en_f ((a @ [v]) ! k)" if "parent k = length a"
    using that k parent_less [of k] by simp
  show "en_f ((a @ [v]) ! parent (length a)) \<le> en_f ((a @ [v]) ! k)" if "parent k = length a"
    using that k parent_less [of k] by simp
qed simp

lemma heap_pop_heap:
  assumes "is_heap a" and "heap_pop a = Some (v, b)"
  shows "is_heap b"
proof -
  from assms(2) obtain xs where a: "a = v # xs" by (auto simp: heap_pop_def Let_def split: list.splits)
  show ?thesis
  proof (cases xs)
    case Nil
    with assms(2) a show ?thesis by (simp add: heap_pop_def is_heap_def)
  next
    case (Cons y ys)
    have b: "b = sift_down (v # butlast xs) 0 (last xs)" using assms(2) a Cons by (simp add: heap_pop_def)
    show ?thesis unfolding b
    proof (rule sift_down_heap)
      fix k assume k: "0 < k" "k < length (v # butlast xs)"
      have "v # butlast xs = butlast a" using a Cons by simp
      then have nth: "(v # butlast xs) ! j = a ! j" if "j < length (v # butlast xs)" for j
        using that by (metis nth_butlast)
      show "en_f ((v # butlast xs) ! parent k) \<le> en_f ((v # butlast xs) ! k)"
        if "k \<noteq> 0" "parent k \<noteq> 0"
      proof -
        have "parent k < length (v # butlast xs)" using k parent_less [of k] by simp
        moreover have "k < length a" using k a Cons by (auto split: if_splits)
        ultimately show ?thesis using assms(1) k(1) nth [of k] nth [of "parent k"] k(2)
          by (simp only: is_heap_iff)
      qed
    qed simp_all
  qed
qed

lemma heap_root_min:
  assumes "is_heap a" and "i < length a"
  shows "en_f (a ! 0) \<le> en_f (a ! i)"
  using assms(2)
proof (induction i rule: less_induct)
  case (less i)
  show ?case
  proof (cases "i = 0")
    case False
    then have "parent i < i" by (simp add: parent_less)
    with less False assms(1) have "en_f (a ! 0) \<le> en_f (a ! parent i)"
        "en_f (a ! parent i) \<le> en_f (a ! i)"
      by (auto simp: is_heap_iff)
    then show ?thesis by simp
  qed simp
qed

lemma heap_pop_min:
  assumes "is_heap a" and "heap_pop a = Some (v, b)" and "w \<in> set b"
  shows "en_f v \<le> en_f w"
proof -
  have "w \<in> set a" using heap_pop_mset [OF assms(2)] assms(3) by (metis set_mset_mset insert_iff set_mset_add_mset_insert)
  then obtain i where "i < length a" "w = a ! i" by (auto simp: in_set_conv_nth)
  moreover have "v = a ! 0" using assms(2) by (auto simp: heap_pop_def Let_def split: list.splits)
  ultimately show ?thesis using heap_root_min [OF assms(1)] by simp
qed

section \<open>The contract of a priority queue\<close>

locale priority_queue =
  fixes push :: "'e \<Rightarrow> 'q \<Rightarrow> 'q"
    and pop :: "'q \<Rightarrow> ('e \<times> 'q) option"
    and items :: "'q \<Rightarrow> 'e multiset"
    and prio :: "'e \<Rightarrow> real"
    and inv :: "'q \<Rightarrow> bool"
  assumes push_inv: "inv q \<Longrightarrow> inv (push e q)"
    and push_items: "items (push e q) = add_mset e (items q)"
    and pop_inv: "inv q \<Longrightarrow> pop q = Some (e, q') \<Longrightarrow> inv q'"
    and pop_items: "pop q = Some (e, q') \<Longrightarrow> items q = add_mset e (items q')"
    and pop_none: "pop q = None \<longleftrightarrow> items q = {#}"
    and pop_min: "inv q \<Longrightarrow> pop q = Some (e, q') \<Longrightarrow> x \<in># items q' \<Longrightarrow> prio e \<le> prio x"
begin

lemma pop_size: "pop q = Some (e, q') \<Longrightarrow> size (items q) = Suc (size (items q'))"
  by (simp add: pop_items)

lemma push_all_inv: "inv q \<Longrightarrow> inv (fold push es q)"
  by (induction es arbitrary: q) (simp_all add: push_inv)

lemma push_all_items: "items (fold push es q) = mset es + items q"
  by (induction es arbitrary: q) (simp_all add: push_items)

text \<open>Popping everything gives the pushed elements, in order of priority.\<close>

lemma pop_chain_sorted:
  "inv q \<Longrightarrow> pop q = Some (e, q') \<Longrightarrow> pop q' = Some (e', q'') \<Longrightarrow> prio e \<le> prio e'"
  by (rule pop_min [of q e q']) (simp_all add: pop_items [of q'])

end

interpretation min_heap: priority_queue heap_push heap_pop mset en_f is_heap
proof unfold_locales
  show "heap_pop q = None \<longleftrightarrow> mset q = {#}" for q
    by (simp add: heap_pop_def Let_def split: list.splits)
qed (auto simp: heap_push_heap heap_push_mset heap_pop_heap heap_pop_mset dest: heap_pop_min)

fun pop_all :: "nat \<Rightarrow> entry list \<Rightarrow> entry list" where
  "pop_all 0 a = []"
| "pop_all (Suc n) a = (case heap_pop a of None \<Rightarrow> [] | Some (v, b) \<Rightarrow> v # pop_all n b)"

lemma pop_all_sorted:
  "is_heap a \<Longrightarrow> sorted (map en_f (pop_all n a)) \<and> set (pop_all n a) \<subseteq> set a"
proof (induction n arbitrary: a)
  case 0
  then show ?case by simp
next
  case (Suc n)
  show ?case
  proof (cases "heap_pop a")
    case None
    then show ?thesis by simp
  next
    case (Some vb)
    obtain v b where vb: "heap_pop a = Some (v, b)" using Some by (cases vb) simp
    with Suc.prems have "is_heap b" by (rule heap_pop_heap)
    with Suc.IH have "sorted (map en_f (pop_all n b))" "set (pop_all n b) \<subseteq> set b" by auto
    moreover have "set a = insert v (set b)"
      using heap_pop_mset [OF vb] by (metis set_mset_mset set_mset_add_mset_insert)
    ultimately show ?thesis using heap_pop_min [OF Suc.prems vb] vb by auto
  qed
qed

lemma pop_all_mset: "length a \<le> n \<Longrightarrow> mset (pop_all n a) = mset a"
proof (induction n arbitrary: a)
  case 0
  then show ?case by simp
next
  case (Suc n)
  show ?case
  proof (cases "heap_pop a")
    case None
    then have "a = []" using min_heap.pop_none [of a] by simp
    with None show ?thesis by simp
  next
    case (Some vb)
    obtain v b where vb: "heap_pop a = Some (v, b)" using Some by (cases vb) simp
    have eq: "mset a = add_mset v (mset b)" by (rule heap_pop_mset [OF vb])
    then have "length a = Suc (length b)" by (metis size_mset size_add_mset)
    with Suc.prems Suc.IH [of b] show ?thesis by (simp add: vb eq)
  qed
qed

section \<open>Properties\<close>

text \<open>
  The heap is a priority queue: whatever is pushed comes out exactly once and in order of its
  priority.
\<close>

theorem heap_sorts:
  "let out = pop_all (length es) (fold heap_push es []) in
   sorted (map en_f out) \<and> mset out = mset es"
proof -
  have heap: "is_heap (fold heap_push es [])"
    by (rule min_heap.push_all_inv) (simp add: is_heap_def)
  have items: "mset (fold heap_push es []) = mset es"
    by (simp add: min_heap.push_all_items)
  then have "length (fold heap_push es []) = length es" by (metis size_mset)
  with heap items show ?thesis by (simp add: pop_all_sorted pop_all_mset Let_def)
qed

end
