(* ===== verification/Planning.thy ===== *)
theory Planning
  imports Min_Heap Js_Math
begin

text \<open>
  \<open>lab/js/planning/core.js\<close>: route planning on a grid. The geometry of a map of rectangles
  (clearance of a point and of a segment), the A* / Dijkstra search over the grid with the heap of
  \<open>Min_Heap\<close>, the shortening of the path, and the simulated drive along it. \<open>Infinity\<close> is \<open>None\<close>.
  The loops of the search carry a fuel that is proved to be enough.
\<close>

section \<open>Geometry\<close>

record pt =
  px :: real
  py :: real

record rect =
  rx :: real
  ry :: real
  rw :: real
  rh :: real

record pmap =
  pm_width :: real
  pm_height :: real
  pm_start :: pt
  pm_goal :: pt
  pm_obstacles :: "rect list"

definition mk_pt :: "real \<Rightarrow> real \<Rightarrow> pt" where
  "mk_pt x y = \<lparr>px = x, py = y\<rparr>"

definition mk_rect :: "real \<Rightarrow> real \<Rightarrow> real \<Rightarrow> real \<Rightarrow> rect" where
  "mk_rect x y w h = \<lparr>rx = x, ry = y, rw = w, rh = h\<rparr>"

definition planningMap :: "string \<Rightarrow> pmap" where
  "planningMap topic =
     \<lparr>pm_width = 6, pm_height = 4, pm_start = mk_pt (6 / 10) 2, pm_goal = mk_pt (54 / 10) 2,
      pm_obstacles =
        (if topic = ''room'' then []
         else if topic \<in> {''margin'', ''replan''}
         then [mk_rect (24 / 10) (85 / 100) (12 / 10) (9 / 10),
               mk_rect (24 / 10) (225 / 100) (12 / 10) (9 / 10)]
         else [mk_rect (24 / 10) (12 / 10) (12 / 10) (16 / 10)])\<rparr>"

definition distance :: "pt \<Rightarrow> pt \<Rightarrow> real" where
  "distance a b = hypot (px a - px b) (py a - py b)"

definition rectDistance :: "pt \<Rightarrow> rect \<Rightarrow> real" where
  "rectDistance p r =
     hypot (max (max (rx r - px p) 0) (px p - rx r - rw r))
           (max (max (ry r - py p) 0) (py p - ry r - rh r))"

definition pointSegment :: "pt \<Rightarrow> pt \<Rightarrow> pt \<Rightarrow> real" where
  "pointSegment p a b =
     (let dx = px b - px a; dy = py b - py a;
          len = (if dx * dx + dy * dy = 0 then 1 else dx * dx + dy * dy);
          k = max 0 (min 1 (((px p - px a) * dx + (py p - py a) * dy) / len))
      in distance p (mk_pt (px a + k * dx) (py a + k * dy)))"

text \<open>One axis of the clipping in \<open>intersects\<close>: the interval of the segment's parameter left.\<close>

definition clip_axis :: "real \<Rightarrow> real \<Rightarrow> real \<Rightarrow> real \<Rightarrow> real \<times> real \<Rightarrow> (real \<times> real) option" where
  "clip_axis p d mn mx lohi =
     (if \<bar>d\<bar> < 1 / 10 ^ 12 then (if p < mn \<or> p > mx then None else Some lohi)
      else let x = (mn - p) / d; y = (mx - p) / d;
               lo = max (fst lohi) (min x y); hi = min (snd lohi) (max x y)
           in if lo > hi then None else Some (lo, hi))"

definition intersects :: "pt \<Rightarrow> pt \<Rightarrow> rect \<Rightarrow> bool" where
  "intersects a b r =
     (Option.bind (clip_axis (px a) (px b - px a) (rx r) (rx r + rw r) (0, 1))
        (clip_axis (py a) (py b - py a) (ry r) (ry r + rh r)) \<noteq> None)"

definition min_of :: "real \<Rightarrow> real list \<Rightarrow> real" where
  "min_of x xs = foldl min x xs"

definition planningClearance :: "pmap \<Rightarrow> pt \<Rightarrow> real" where
  "planningClearance m p =
     min_of (px p) ([py p, pm_width m - px p, pm_height m - py p] @ map (rectDistance p) (pm_obstacles m))"

definition border_clearance :: "pmap \<Rightarrow> pt \<Rightarrow> pt \<Rightarrow> real" where
  "border_clearance m a b =
     min_of (px a) [py a, pm_width m - px a, pm_height m - py a,
                    px b, py b, pm_width m - px b, pm_height m - py b]"

definition corners :: "rect \<Rightarrow> pt list" where
  "corners r = [mk_pt (rx r) (ry r), mk_pt (rx r + rw r) (ry r), mk_pt (rx r) (ry r + rh r),
                mk_pt (rx r + rw r) (ry r + rh r)]"

fun obstacle_clearance :: "pt \<Rightarrow> pt \<Rightarrow> rect list \<Rightarrow> real \<Rightarrow> real" where
  "obstacle_clearance a b [] acc = acc"
| "obstacle_clearance a b (r # rs) acc =
     (if intersects a b r then 0
      else obstacle_clearance a b rs
             (min_of acc ([rectDistance a r, rectDistance b r]
                          @ map (\<lambda>c. pointSegment c a b) (corners r))))"

definition segmentClearance :: "pmap \<Rightarrow> pt \<Rightarrow> pt \<Rightarrow> real" where
  "segmentClearance m a b = obstacle_clearance a b (pm_obstacles m) (border_clearance m a b)"

fun planningLength :: "pt list \<Rightarrow> real" where
  "planningLength (a # b # rest) = distance a b + planningLength (b # rest)"
| "planningLength _ = 0"

section \<open>The search\<close>

record grid =
  gd_cols :: nat
  gd_rows :: nat
  gd_cell :: real

definition grid_size :: "grid \<Rightarrow> nat" where
  "grid_size gd = gd_cols gd * gd_rows gd"

definition make_grid :: "pmap \<Rightarrow> real \<Rightarrow> grid" where
  "make_grid m cell =
     \<lparr>gd_cols = nat (js_round (pm_width m / cell)) + 1, gd_rows = nat (js_round (pm_height m / cell)) + 1,
      gd_cell = cell\<rparr>"

definition grid_point :: "grid \<Rightarrow> nat \<Rightarrow> pt" where
  "grid_point gd i = mk_pt (real (i mod gd_cols gd) * gd_cell gd) (real (i div gd_cols gd) * gd_cell gd)"

definition too_close :: "real \<Rightarrow> real \<Rightarrow> bool" where
  "too_close required c \<longleftrightarrow> c \<le> required + 1 / 10 ^ 7"

definition blocked_cells :: "pmap \<Rightarrow> grid \<Rightarrow> real \<Rightarrow> bool list" where
  "blocked_cells m gd required =
     map (\<lambda>i. too_close required (planningClearance m (grid_point gd i))) [0..<grid_size gd]"

definition edge_clear :: "pmap \<Rightarrow> real \<Rightarrow> pt \<Rightarrow> pt \<Rightarrow> bool" where
  "edge_clear m required a b \<longleftrightarrow> \<not> too_close required (segmentClearance m a b)"

text \<open>\<open>connector(p)\<close>: the closest free cell reached in a straight line; \<open>-1\<close> is \<open>None\<close>.\<close>

definition connect_step ::
  "pmap \<Rightarrow> grid \<Rightarrow> real \<Rightarrow> bool list \<Rightarrow> pt \<Rightarrow> nat \<Rightarrow> (nat \<times> real) option \<Rightarrow> (nat \<times> real) option" where
  "connect_step m gd required blocked p i best =
     (let q = grid_point gd i; d = distance p q in
      if \<not> blocked ! i \<and> (case best of None \<Rightarrow> True | Some (_, d0) \<Rightarrow> d < d0)
         \<and> edge_clear m required p q
      then Some (i, d) else best)"

definition connector :: "pmap \<Rightarrow> grid \<Rightarrow> real \<Rightarrow> bool list \<Rightarrow> pt \<Rightarrow> nat option" where
  "connector m gd required blocked p =
     map_option fst (fold (connect_step m gd required blocked p) [0..<grid_size gd] None)"

definition heuristic :: "grid \<Rightarrow> string \<Rightarrow> nat \<Rightarrow> nat \<Rightarrow> real" where
  "heuristic gd algorithm goal i =
     (let x = \<bar>real (i mod gd_cols gd) - real (goal mod gd_cols gd)\<bar>;
          y = \<bar>real (i div gd_cols gd) - real (goal div gd_cols gd)\<bar>
      in if algorithm = ''dijkstra'' then 0 else gd_cell gd * (max x y + (sqrt 2 - 1) * min x y))"

definition dirs :: "(int \<times> int) list" where
  "dirs = [(- 1, 0), (1, 0), (0, - 1), (0, 1), (- 1, - 1), (1, - 1), (- 1, 1), (1, 1)]"

record search =
  sr_g :: "real option list"
  sr_parents :: "nat option list"
  sr_closed :: "bool list"
  sr_heap :: "entry list"
  sr_expanded :: "nat list"

text \<open>What the search does not change.\<close>

record problem =
  pb_map :: pmap
  pb_grid :: grid
  pb_required :: real
  pb_blocked :: "bool list"
  pb_algorithm :: string
  pb_to :: nat

definition neighbour :: "grid \<Rightarrow> nat \<Rightarrow> int \<times> int \<Rightarrow> nat option" where
  "neighbour gd i d =
     (let xx = int (i mod gd_cols gd) + fst d; yy = int (i div gd_cols gd) + snd d in
      if xx < 0 \<or> xx \<ge> int (gd_cols gd) \<or> yy < 0 \<or> yy \<ge> int (gd_rows gd) then None
      else Some (nat yy * gd_cols gd + nat xx))"

definition step_cost :: "problem \<Rightarrow> int \<times> int \<Rightarrow> real" where
  "step_cost pb d = gd_cell (pb_grid pb) * hypot (of_int (fst d)) (of_int (snd d))"

text \<open>\<open>cost + 1e-9 < g[j]\<close>, where a missing number is infinite.\<close>

definition improves :: "real option \<Rightarrow> real option \<Rightarrow> bool" where
  "improves cost old =
     (case cost of None \<Rightarrow> False
      | Some c \<Rightarrow> (case old of None \<Rightarrow> True | Some g \<Rightarrow> c + 1 / 10 ^ 9 < g))"

definition relax :: "problem \<Rightarrow> nat \<Rightarrow> int \<times> int \<Rightarrow> search \<Rightarrow> search" where
  "relax pb i d s =
     (case neighbour (pb_grid pb) i d of
        None \<Rightarrow> s
      | Some j \<Rightarrow>
          if pb_blocked pb ! j \<or> sr_closed s ! j
             \<or> \<not> edge_clear (pb_map pb) (pb_required pb) (grid_point (pb_grid pb) i) (grid_point (pb_grid pb) j)
          then s
          else (let cost = map_option (\<lambda>g. g + step_cost pb d) (sr_g s ! i) in
                if improves cost (sr_g s ! j)
                then s\<lparr>sr_g := (sr_g s)[j := cost], sr_parents := (sr_parents s)[j := Some i],
                       sr_heap := heap_push
                         \<lparr>en_id = j, en_f = coalesce cost 0
                            + heuristic (pb_grid pb) (pb_algorithm pb) (pb_to pb) j\<rparr> (sr_heap s)\<rparr>
                else s))"

definition close_cell :: "nat \<Rightarrow> search \<Rightarrow> search" where
  "close_cell i s = s\<lparr>sr_closed := (sr_closed s)[i := True], sr_expanded := sr_expanded s @ [i]\<rparr>"

datatype outcome = Found nat | NoRoute

fun search_loop :: "nat \<Rightarrow> problem \<Rightarrow> search \<Rightarrow> (outcome \<times> search) option" where
  "search_loop 0 pb s = None"
| "search_loop (Suc fuel) pb s =
     (case heap_pop (sr_heap s) of
        None \<Rightarrow> Some (NoRoute, s)
      | Some (e, heap) \<Rightarrow>
          let i = en_id e; s = s\<lparr>sr_heap := heap\<rparr> in
          if sr_closed s ! i then search_loop fuel pb s
          else let s = close_cell i s in
               if i = pb_to pb then Some (Found i, s)
               else search_loop fuel pb (fold (relax pb i) dirs s))"

definition init_search :: "problem \<Rightarrow> nat \<Rightarrow> search" where
  "init_search pb i =
     \<lparr>sr_g = (replicate (grid_size (pb_grid pb)) None)[i := Some 0],
      sr_parents = replicate (grid_size (pb_grid pb)) None,
      sr_closed = replicate (grid_size (pb_grid pb)) False,
      sr_heap = heap_push \<lparr>en_id = i,
                  en_f = heuristic (pb_grid pb) (pb_algorithm pb) (pb_to pb) i\<rparr> [],
      sr_expanded = []\<rparr>"

definition search_fuel :: "grid \<Rightarrow> nat" where
  "search_fuel gd = 8 * grid_size gd + 2"

text \<open>The chain of parents, from the goal's cell back.\<close>

fun trace_back :: "nat \<Rightarrow> nat option list \<Rightarrow> nat option \<Rightarrow> nat list option" where
  "trace_back fuel parents None = Some []"
| "trace_back 0 parents (Some j) = None"
| "trace_back (Suc fuel) parents (Some j) = map_option ((#) j) (trace_back fuel parents (parents ! j))"

section \<open>The path\<close>

fun furthest :: "pmap \<Rightarrow> real \<Rightarrow> pt list \<Rightarrow> nat \<Rightarrow> nat \<Rightarrow> nat" where
  "furthest m required raw i 0 = 0"
| "furthest m required raw i (Suc n) =
     (if Suc n > i + 1 \<and> \<not> edge_clear m required (raw ! i) (raw ! Suc n)
      then furthest m required raw i n else Suc n)"

lemma furthest_bounds: "i < n \<Longrightarrow> i < furthest m required raw i n \<and> furthest m required raw i n \<le> n"
proof (induction n)
  case 0
  then show ?case by simp
next
  case (Suc n)
  then show ?case by (cases "i < n") auto
qed

definition add_point :: "pt list \<Rightarrow> pt \<Rightarrow> pt list" where
  "add_point path p = (if distance (last path) p > 1 / 10 ^ 8 then path @ [p] else path)"

function shorten :: "pmap \<Rightarrow> real \<Rightarrow> pt list \<Rightarrow> nat \<Rightarrow> pt list \<Rightarrow> pt list" where
  "shorten m required raw i path =
     (if i < length raw - 1
      then let next = furthest m required raw i (length raw - 1)
           in shorten m required raw next (add_point path (raw ! next))
      else path)"
  by pat_completeness auto
termination
proof (relation "measure (\<lambda>(m, required, raw, i, path). length raw - i)")
  fix m required raw i path x
  assume "i < length raw - 1" and "x = furthest m required raw i (length raw - 1)"
  then have "i < x" "x \<le> length raw - 1"
    using furthest_bounds [of i "length raw - 1" m required raw] by simp_all
  then show "((m, required, raw, x, add_point path (raw ! x)), m, required, raw, i, path)
      \<in> measure (\<lambda>(m, required, raw, i, path). length raw - i)"
    by simp
qed simp

declare shorten.simps [simp del]

record route =
  rt_path :: "pt list"
  rt_reason :: string
  rt_expanded :: "pt list"
  rt_blocked :: "bool list"
  rt_grid :: grid
  rt_required :: real
  rt_algorithm :: string
  rt_length :: real
  rt_grid_length :: "real option"

definition mk_route ::
  "pt list \<Rightarrow> string \<Rightarrow> pt list \<Rightarrow> bool list \<Rightarrow> grid \<Rightarrow> real \<Rightarrow> string \<Rightarrow> real option \<Rightarrow> route" where
  "mk_route path reason expanded blocked gd required algorithm gl =
     \<lparr>rt_path = path, rt_reason = reason, rt_expanded = expanded, rt_blocked = blocked,
      rt_grid = gd, rt_required = required, rt_algorithm = algorithm,
      rt_length = planningLength path, rt_grid_length = gl\<rparr>"

definition raw_path :: "grid \<Rightarrow> pt \<Rightarrow> pt \<Rightarrow> nat list \<Rightarrow> pt list" where
  "raw_path gd start goal chain = start # map (grid_point gd) (rev chain) @ [goal]"

definition finish_route :: "problem \<Rightarrow> pt \<Rightarrow> pt \<Rightarrow> outcome \<times> search \<Rightarrow> route option" where
  "finish_route pb start goal res =
     (let s = snd res; gd = pb_grid pb;
          mk = (\<lambda>path reason gl. mk_route path reason (map (grid_point gd) (sr_expanded s))
                  (pb_blocked pb) gd (pb_required pb) (pb_algorithm pb) gl)
      in case fst res of
           NoRoute \<Rightarrow> Some (mk [] ''blocked'' None)
         | Found i \<Rightarrow>
             map_option (\<lambda>chain.
                 let raw = raw_path gd start goal chain
                 in mk (shorten (pb_map pb) (pb_required pb) raw 0 [raw ! 0]) [] (sr_g s ! i))
               (trace_back (grid_size gd + 1) (sr_parents s) (Some i)))"

definition planRoute ::
  "pmap \<Rightarrow> pt \<Rightarrow> pt \<Rightarrow> real \<Rightarrow> real \<Rightarrow> string \<Rightarrow> real \<Rightarrow> route option" where
  "planRoute m start goal radius margin algorithm cell =
     (let required = radius + margin; gd = make_grid m cell; blocked = blocked_cells m gd required;
          refuse = (\<lambda>reason. Some (mk_route [] reason [] blocked gd required algorithm None))
      in if too_close required (planningClearance m start) then refuse ''start''
         else if too_close required (planningClearance m goal) then refuse ''goal''
         else case (connector m gd required blocked start, connector m gd required blocked goal) of
                (Some i, Some j) \<Rightarrow>
                  let pb = \<lparr>pb_map = m, pb_grid = gd, pb_required = required, pb_blocked = blocked,
                           pb_algorithm = algorithm, pb_to = j\<rparr>
                  in Option.bind (search_loop (search_fuel gd) pb (init_search pb i))
                       (finish_route pb start goal)
              | _ \<Rightarrow> refuse ''blocked'')"

section \<open>What the search keeps\<close>

definition cells_ok :: "problem \<Rightarrow> search \<Rightarrow> bool" where
  "cells_ok pb s \<longleftrightarrow>
     length (sr_g s) = grid_size (pb_grid pb) \<and> length (sr_parents s) = grid_size (pb_grid pb) \<and>
     length (sr_closed s) = grid_size (pb_grid pb) \<and>
     (\<forall>e \<in> set (sr_heap s). en_id e < grid_size (pb_grid pb)) \<and>
     (\<forall>i \<in> set (sr_expanded s). i < grid_size (pb_grid pb)) \<and>
     (\<forall>i < grid_size (pb_grid pb). sr_closed s ! i \<longleftrightarrow> i \<in> set (sr_expanded s)) \<and>
     distinct (sr_expanded s)"

text \<open>A parent was closed before its child, over a clear edge; only the first cell has none.\<close>

definition edge_ok :: "problem \<Rightarrow> nat \<Rightarrow> nat \<Rightarrow> bool" where
  "edge_ok pb i j \<longleftrightarrow> edge_clear (pb_map pb) (pb_required pb) (grid_point (pb_grid pb) i) (grid_point (pb_grid pb) j)"

definition parents_ok :: "problem \<Rightarrow> nat \<Rightarrow> search \<Rightarrow> bool" where
  "parents_ok pb from s \<longleftrightarrow>
     (\<forall>j < grid_size (pb_grid pb). \<forall>i. sr_parents s ! j = Some i \<longrightarrow> i \<in> set (sr_expanded s) \<and> edge_ok pb i j) \<and>
     (\<forall>k < length (sr_expanded s). \<forall>i. sr_parents s ! (sr_expanded s ! k) = Some i
        \<longrightarrow> i \<in> set (take k (sr_expanded s))) \<and>
     (\<forall>e \<in> set (sr_heap s). sr_parents s ! en_id e = None \<longrightarrow> en_id e = from) \<and>
     (\<forall>i \<in> set (sr_expanded s). sr_parents s ! i = None \<longrightarrow> i = from)"

definition search_inv :: "problem \<Rightarrow> nat \<Rightarrow> search \<Rightarrow> bool" where
  "search_inv pb from s \<longleftrightarrow> cells_ok pb s \<and> parents_ok pb from s"

lemma set_heap_push: "set (heap_push e h) = insert e (set h)"
  using heap_push_mset [of e h] by (metis set_mset_mset set_mset_add_mset_insert)

lemma heap_pop_set: "heap_pop h = Some (e, h') \<Longrightarrow> set h = insert e (set h')"
  using heap_pop_mset [of h e h'] by (metis set_mset_mset set_mset_add_mset_insert)

lemma neighbour_less:
  assumes "neighbour gd i d = Some j"
  shows "j < grid_size gd"
proof -
  define xx where "xx = int (i mod gd_cols gd) + fst d"
  define yy where "yy = int (i div gd_cols gd) + snd d"
  have "0 \<le> xx" "xx < int (gd_cols gd)" "0 \<le> yy" "yy < int (gd_rows gd)"
      and j: "j = nat yy * gd_cols gd + nat xx"
    using assms by (auto simp: neighbour_def xx_def [symmetric] yy_def [symmetric] Let_def split: if_splits)
  then have "nat xx < gd_cols gd" "nat yy < gd_rows gd" by (simp_all add: nat_less_iff)
  then have "Suc (nat yy) * gd_cols gd \<le> gd_rows gd * gd_cols gd" by (intro mult_le_mono1) simp
  with \<open>nat xx < gd_cols gd\<close> show ?thesis by (simp add: j grid_size_def mult.commute)
qed

lemma relax_cases:
  "relax pb i d s = s \<or>
   (\<exists>j cost f. j < grid_size (pb_grid pb) \<and> \<not> sr_closed s ! j \<and> edge_ok pb i j \<and>
      relax pb i d s = s\<lparr>sr_g := (sr_g s)[j := cost], sr_parents := (sr_parents s)[j := Some i],
                         sr_heap := heap_push \<lparr>en_id = j, en_f = f\<rparr> (sr_heap s)\<rparr>)"
proof (cases "neighbour (pb_grid pb) i d")
  case None
  then show ?thesis by (simp add: relax_def)
next
  case (Some j)
  then have "j < grid_size (pb_grid pb)" by (rule neighbour_less)
  with Some show ?thesis by (simp add: relax_def edge_ok_def Let_def) blast
qed

lemma search_inv_relax:
  assumes inv: "search_inv pb from s" and "i \<in> set (sr_expanded s)"
  shows "search_inv pb from (relax pb i d s)"
proof -
  consider "relax pb i d s = s" | j cost f where "j < grid_size (pb_grid pb)" "\<not> sr_closed s ! j"
      "edge_ok pb i j"
      "relax pb i d s = s\<lparr>sr_g := (sr_g s)[j := cost], sr_parents := (sr_parents s)[j := Some i],
                         sr_heap := heap_push \<lparr>en_id = j, en_f = f\<rparr> (sr_heap s)\<rparr>"
    using relax_cases [of pb i d s] by blast
  then show ?thesis
  proof cases
    case 1
    with inv show ?thesis by simp
  next
    case 2
    have len: "length (sr_parents s) = grid_size (pb_grid pb)"
      and out: "j \<notin> set (sr_expanded s)"
      using inv 2 by (auto simp: search_inv_def cells_ok_def)
    have cells: "cells_ok pb (relax pb i d s)"
      using inv 2 by (simp add: search_inv_def cells_ok_def set_heap_push)
    have exp: "sr_expanded s ! k \<noteq> j" if "k < length (sr_expanded s)" for k
      using that out nth_mem by blast
    have "parents_ok pb from (relax pb i d s)"
      unfolding parents_ok_def 2(4)
    proof (intro conjI allI impI ballI)
      fix k a assume "k < grid_size (pb_grid pb)"
      and "sr_parents (s\<lparr>sr_g := (sr_g s)[j := cost], sr_parents := (sr_parents s)[j := Some i],
        sr_heap := heap_push \<lparr>en_id = j, en_f = f\<rparr> (sr_heap s)\<rparr>) ! k = Some a"
      then show "a \<in> set (sr_expanded (s\<lparr>sr_g := (sr_g s)[j := cost], sr_parents := (sr_parents s)[j := Some i],
        sr_heap := heap_push \<lparr>en_id = j, en_f = f\<rparr> (sr_heap s)\<rparr>))" "edge_ok pb a k"
        using inv assms(2) 2 len
        by (auto simp: search_inv_def parents_ok_def nth_list_update split: if_splits)
    qed (use inv exp out len 2(1) in \<open>auto simp: search_inv_def parents_ok_def nth_list_update set_heap_push
           split: if_splits\<close>)
    with cells show ?thesis by (simp add: search_inv_def)
  qed
qed

lemma relax_expanded [simp]: "sr_expanded (relax pb i d s) = sr_expanded s"
    "sr_closed (relax pb i d s) = sr_closed s"
  using relax_cases [of pb i d s] by auto

lemma relax_heap: "length (sr_heap (relax pb i d s)) \<le> Suc (length (sr_heap s))"
  using relax_cases [of pb i d s] by (auto simp: heap_push_length)

lemma relax_all:
  "search_inv pb from s \<Longrightarrow> i \<in> set (sr_expanded s) \<Longrightarrow>
   search_inv pb from (fold (relax pb i) ds s) \<and> sr_closed (fold (relax pb i) ds s) = sr_closed s
   \<and> sr_expanded (fold (relax pb i) ds s) = sr_expanded s
   \<and> length (sr_heap (fold (relax pb i) ds s)) \<le> length (sr_heap s) + length ds"
proof (induction ds arbitrary: s)
  case Nil
  then show ?case by simp
next
  case (Cons d ds)
  have "search_inv pb from (relax pb i d s)" using Cons.prems by (rule search_inv_relax)
  then show ?case
    using Cons.IH [of "relax pb i d s"] Cons.prems relax_heap [of pb i d s] by auto
qed

lemma search_inv_pop:
  "search_inv pb from s \<Longrightarrow> heap_pop (sr_heap s) = Some (e, heap) \<Longrightarrow>
   search_inv pb from (s\<lparr>sr_heap := heap\<rparr>) \<and> en_id e < grid_size (pb_grid pb)
   \<and> (sr_parents s ! en_id e = None \<longrightarrow> en_id e = from)"
  using heap_pop_set [of "sr_heap s" e heap]
  by (simp add: search_inv_def cells_ok_def parents_ok_def)

lemma search_inv_close:
  assumes inv: "search_inv pb from s" and i: "i < grid_size (pb_grid pb)" "\<not> sr_closed s ! i"
    and root: "sr_parents s ! i = None \<longrightarrow> i = from"
  shows "search_inv pb from (close_cell i s)"
proof -
  have out: "i \<notin> set (sr_expanded s)" using inv i by (simp add: search_inv_def cells_ok_def)
  have cells: "cells_ok pb (close_cell i s)"
    using inv i out by (auto simp: search_inv_def cells_ok_def close_cell_def nth_list_update)
  have "a \<in> set (take k (sr_expanded s @ [i]))"
    if "k < Suc (length (sr_expanded s))" "sr_parents s ! ((sr_expanded s @ [i]) ! k) = Some a" for k a
  proof (cases "k < length (sr_expanded s)")
    case True
    with that inv show ?thesis by (simp add: search_inv_def parents_ok_def nth_append)
  next
    case False
    with that have "k = length (sr_expanded s)" by simp
    with that inv i show ?thesis by (simp add: search_inv_def parents_ok_def)
  qed
  then have "parents_ok pb from (close_cell i s)"
    using inv root by (auto simp: search_inv_def parents_ok_def close_cell_def)
  with cells show ?thesis by (simp add: search_inv_def)
qed

subsection \<open>The fuel is enough\<close>

definition search_measure :: "search \<Rightarrow> nat" where
  "search_measure s = length (sr_heap s) + 8 * length (filter Not (sr_closed s))"

lemma count_close:
  "i < length bs \<Longrightarrow> \<not> bs ! i \<Longrightarrow> Suc (length (filter Not (bs[i := True]))) = length (filter Not bs)"
proof (induction bs arbitrary: i)
  case Nil
  then show ?case by simp
next
  case (Cons b bs)
  then show ?case by (cases i) auto
qed

lemma heap_pop_length: "heap_pop h = Some (e, h') \<Longrightarrow> length h = Suc (length h')"
  using min_heap.pop_size [of h e h'] by simp

lemma search_loop_result:
  "search_inv pb from s \<Longrightarrow> search_measure s < fuel \<Longrightarrow>
   \<exists>out s'. search_loop fuel pb s = Some (out, s') \<and> search_inv pb from s'
     \<and> (case out of NoRoute \<Rightarrow> True | Found i \<Rightarrow> i = pb_to pb \<and> i \<in> set (sr_expanded s'))"
proof (induction fuel arbitrary: s)
  case 0
  then show ?case by simp
next
  case (Suc fuel)
  show ?case
  proof (cases "heap_pop (sr_heap s)")
    case None
    with Suc.prems show ?thesis by simp
  next
    case (Some eh)
    obtain e heap where pop: "heap_pop (sr_heap s) = Some (e, heap)" using Some by (cases eh) simp
    define t where "t = s\<lparr>sr_heap := heap\<rparr>"
    define i where "i = en_id e"
    have t: "search_inv pb from t" and i: "i < grid_size (pb_grid pb)"
        and root: "sr_parents t ! i = None \<longrightarrow> i = from"
      using search_inv_pop [OF Suc.prems(1) pop] by (simp_all add: t_def i_def)
    have m: "search_measure s = Suc (search_measure t)"
      using heap_pop_length [OF pop] by (simp add: search_measure_def t_def)
    show ?thesis
    proof (cases "sr_closed t ! i")
      case True
      then have "search_loop (Suc fuel) pb s = search_loop fuel pb t"
        by (simp add: pop t_def i_def Let_def)
      then show ?thesis using Suc.IH [OF t] m Suc.prems(2) by simp
    next
      case False
      define u where "u = close_cell i t"
      have u: "search_inv pb from u"
        unfolding u_def using t i False root by (rule search_inv_close)
      have mem: "i \<in> set (sr_expanded u)" by (simp add: u_def close_cell_def)
      have step: "search_loop (Suc fuel) pb s
          = (if i = pb_to pb then Some (Found i, u) else search_loop fuel pb (fold (relax pb i) dirs u))"
        using False by (simp add: pop t_def i_def u_def Let_def)
      show ?thesis
      proof (cases "i = pb_to pb")
        case True
        with step u mem show ?thesis by simp
      next
        case False
        define v where "v = fold (relax pb i) dirs u"
        note v = relax_all [OF u mem, of dirs, folded v_def]
        have "length (sr_closed t) = grid_size (pb_grid pb)"
          using t by (simp add: search_inv_def cells_ok_def)
        then have "Suc (length (filter Not (sr_closed u))) = length (filter Not (sr_closed t))"
          using i \<open>\<not> sr_closed t ! i\<close> count_close [of i "sr_closed t"]
          by (simp add: u_def close_cell_def)
        moreover have "length (sr_heap u) = length (sr_heap t)" by (simp add: u_def close_cell_def)
        ultimately have "search_measure v \<le> search_measure t"
          using v by (simp add: search_measure_def dirs_def)
        then have "search_measure v < fuel" using m Suc.prems(2) by simp
        with Suc.IH [of v] v step False show ?thesis by (simp add: v_def [symmetric])
      qed
    qed
  qed
qed

subsection \<open>The chain of parents\<close>

text \<open>Consecutive cells of a chain are joined by clear edges, and it ends at the first cell.\<close>

definition chain_ok :: "problem \<Rightarrow> nat \<Rightarrow> nat \<Rightarrow> nat list \<Rightarrow> bool" where
  "chain_ok pb from i chain \<longleftrightarrow>
     chain \<noteq> [] \<and> hd chain = i \<and> last chain = from \<and> successively (\<lambda>j i. edge_ok pb i j) chain"

lemma trace_back_expanded:
  assumes inv: "search_inv pb from s"
  shows "k < length (sr_expanded s) \<Longrightarrow> k < fuel \<Longrightarrow>
    \<exists>chain. trace_back fuel (sr_parents s) (Some (sr_expanded s ! k)) = Some chain
      \<and> chain_ok pb from (sr_expanded s ! k) chain"
proof (induction k arbitrary: fuel rule: less_induct)
  case (less k)
  define j where "j = sr_expanded s ! k"
  obtain n where n: "fuel = Suc n" using less.prems(2) by (cases fuel) auto
  have j: "j \<in> set (sr_expanded s)" using less.prems(1) by (simp add: j_def)
  then have jn: "j < grid_size (pb_grid pb)" using inv by (simp add: search_inv_def cells_ok_def)
  show ?case
  proof (cases "sr_parents s ! j")
    case None
    then have "j = from" using inv j by (simp add: search_inv_def parents_ok_def)
    then show ?thesis using None
      by (auto simp: n j_def [symmetric] chain_ok_def)
  next
    case (Some i)
    then have "i \<in> set (take k (sr_expanded s))" and edge: "edge_ok pb i j"
      using inv less.prems(1) jn by (auto simp: search_inv_def parents_ok_def j_def)
    then obtain l where l: "l < k" "sr_expanded s ! l = i"
      using less.prems(1) by (auto simp: in_set_conv_nth)
    with less.IH [of l n] less.prems obtain chain where
        chain: "trace_back n (sr_parents s) (Some i) = Some chain" "chain_ok pb from i chain"
      by (auto simp: n)
    have "chain_ok pb from j (j # chain)"
      using chain(2) edge by (cases chain) (auto simp: chain_ok_def)
    with chain Some show ?thesis by (simp add: n j_def [symmetric])
  qed
qed

lemma expanded_short: "search_inv pb from s \<Longrightarrow> length (sr_expanded s) \<le> grid_size (pb_grid pb)"
proof -
  assume inv: "search_inv pb from s"
  then have "set (sr_expanded s) \<subseteq> {..<grid_size (pb_grid pb)}"
    by (auto simp: search_inv_def cells_ok_def)
  then have "card (set (sr_expanded s)) \<le> grid_size (pb_grid pb)"
    using card_mono [of "{..<grid_size (pb_grid pb)}" "set (sr_expanded s)"] by simp
  moreover have "card (set (sr_expanded s)) = length (sr_expanded s)"
    using inv by (intro distinct_card) (simp add: search_inv_def cells_ok_def)
  ultimately show ?thesis by simp
qed

lemma trace_back_found:
  assumes "search_inv pb from s" and "i \<in> set (sr_expanded s)"
  shows "\<exists>chain. trace_back (grid_size (pb_grid pb) + 1) (sr_parents s) (Some i) = Some chain
    \<and> chain_ok pb from i chain"
proof -
  obtain k where "k < length (sr_expanded s)" "sr_expanded s ! k = i"
    using assms(2) by (auto simp: in_set_conv_nth)
  with trace_back_expanded [OF assms(1), of k "grid_size (pb_grid pb) + 1"] expanded_short [OF assms(1)]
  show ?thesis by auto
qed

subsection \<open>The ends of the path\<close>

definition reaches :: "pmap \<Rightarrow> grid \<Rightarrow> real \<Rightarrow> pt \<Rightarrow> nat option \<Rightarrow> bool" where
  "reaches m gd required p i =
     (case i of None \<Rightarrow> True
      | Some j \<Rightarrow> j < grid_size gd \<and> edge_clear m required p (grid_point gd j))"

lemma connector_reaches: "reaches m gd required p (connector m gd required blocked p)"
proof -
  have "reaches m gd required p (map_option fst (fold (connect_step m gd required blocked p) is best))"
    if "\<forall>i \<in> set is. i < grid_size gd" "reaches m gd required p (map_option fst best)" for "is" best
    using that
    by (induction "is" arbitrary: best) (auto simp: connect_step_def Let_def reaches_def)
  then show ?thesis by (simp add: connector_def reaches_def)
qed

section \<open>The shortened path\<close>

text \<open>An edge whose clearance was computed, in the direction in which it was.\<close>

definition raw_edge :: "pmap \<Rightarrow> real \<Rightarrow> pt \<Rightarrow> pt \<Rightarrow> bool" where
  "raw_edge m required a b \<longleftrightarrow> edge_clear m required a b \<or> edge_clear m required b a"

text \<open>A drawn edge starts at a point that coincides (within \<open>1e-8\<close>) with the start of a computed one.\<close>

definition checked_edge :: "pmap \<Rightarrow> real \<Rightarrow> pt \<Rightarrow> pt \<Rightarrow> bool" where
  "checked_edge m required a b \<longleftrightarrow> (\<exists>c. distance a c \<le> 1 / 10 ^ 8 \<and> raw_edge m required c b)"

lemma distance_self [simp]: "distance a a = 0"
  by (simp add: distance_def)

lemma furthest_edge:
  "i < n \<Longrightarrow> raw_edge m required (raw ! i) (raw ! Suc i) \<Longrightarrow>
   raw_edge m required (raw ! i) (raw ! furthest m required raw i n)"
proof (induction n)
  case 0
  then show ?case by simp
next
  case (Suc n)
  show ?case
  proof (cases "Suc n > i + 1 \<and> \<not> edge_clear m required (raw ! i) (raw ! Suc n)")
    case True
    then have "raw_edge m required (raw ! i) (raw ! furthest m required raw i n)"
      using Suc.IH Suc.prems by simp
    with True show ?thesis by simp
  next
    case False
    then have "Suc n = Suc i \<or> edge_clear m required (raw ! i) (raw ! Suc n)" using Suc.prems by auto
    then show ?thesis using False Suc.prems by (auto simp: raw_edge_def)
  qed
qed

definition path_ok :: "pmap \<Rightarrow> real \<Rightarrow> pt \<Rightarrow> pt \<Rightarrow> pt list \<Rightarrow> bool" where
  "path_ok m required a b path \<longleftrightarrow>
     path \<noteq> [] \<and> hd path = a \<and> distance (last path) b \<le> 1 / 10 ^ 8
     \<and> successively (checked_edge m required) path"

lemma path_ok_add:
  assumes "path_ok m required a b path" and "raw_edge m required b c"
  shows "path_ok m required a c (add_point path c)"
  using assms
  by (auto simp: path_ok_def add_point_def successively_append_iff checked_edge_def)

lemma shorten_ok:
  "(\<And>j. Suc j < length raw \<Longrightarrow> raw_edge m required (raw ! j) (raw ! Suc j)) \<Longrightarrow>
   i < length raw \<Longrightarrow> path_ok m required a (raw ! i) path \<Longrightarrow>
   path_ok m required a (last raw) (shorten m required raw i path)"
proof (induction m required raw i path rule: shorten.induct)
  case (1 m required raw i path)
  show ?case
  proof (cases "i < length raw - 1")
    case True
    define nxt where "nxt = furthest m required raw i (length raw - 1)"
    have "i < nxt" "nxt \<le> length raw - 1"
      using furthest_bounds [OF True, of m required raw] by (simp_all add: nxt_def)
    then have b: "i < nxt" "nxt < length raw" by simp_all
    have "raw_edge m required (raw ! i) (raw ! nxt)"
      unfolding nxt_def using True 1(2) by (intro furthest_edge) simp_all
    with 1(4) have "path_ok m required a (raw ! nxt) (add_point path (raw ! nxt))"
      by (rule path_ok_add)
    then have "path_ok m required a (last raw) (shorten m required raw nxt (add_point path (raw ! nxt)))"
      using 1(1) [OF True nxt_def] 1(2) b(2) by blast
    with True show ?thesis by (subst shorten.simps) (simp add: nxt_def Let_def)
  next
    case False
    then have "raw ! i = last raw" using 1(3) by (metis Suc_diff_1 last_conv_nth length_greater_0_conv
        length_pos_if_in_set less_Suc_eq linorder_neqE_nat list.size(3) not_less_zero)
    with 1(4) False show ?thesis by (subst shorten.simps) simp
  qed
qed

lemma successively_nth:
  "successively P xs \<longleftrightarrow> (\<forall>i. Suc i < length xs \<longrightarrow> P (xs ! i) (xs ! Suc i))"
proof (induction xs rule: induct_list012)
  case (3 x y zs)
  show ?case
  proof
    assume "successively P (x # y # zs)"
    then have "P x y" and rest: "\<forall>i. Suc i < length (y # zs) \<longrightarrow> P ((y # zs) ! i) ((y # zs) ! Suc i)"
      using 3(2) by auto
    show "\<forall>i. Suc i < length (x # y # zs) \<longrightarrow> P ((x # y # zs) ! i) ((x # y # zs) ! Suc i)"
    proof (intro allI impI)
      fix i assume "Suc i < length (x # y # zs)"
      with \<open>P x y\<close> rest show "P ((x # y # zs) ! i) ((x # y # zs) ! Suc i)" by (cases i) auto
    qed
  next
    assume all: "\<forall>i. Suc i < length (x # y # zs) \<longrightarrow> P ((x # y # zs) ! i) ((x # y # zs) ! Suc i)"
    then have "P x y" by force
    moreover have "\<forall>i. Suc i < length (y # zs) \<longrightarrow> P ((y # zs) ! i) ((y # zs) ! Suc i)"
      using all by force
    ultimately show "successively P (x # y # zs)" using 3(2) by simp
  qed
qed simp_all

lemma raw_path_edges:
  assumes chain: "chain_ok pb from (pb_to pb) chain"
    and start: "edge_clear (pb_map pb) (pb_required pb) start (grid_point (pb_grid pb) from)"
    and goal: "edge_clear (pb_map pb) (pb_required pb) goal (grid_point (pb_grid pb) (pb_to pb))"
  shows "successively (raw_edge (pb_map pb) (pb_required pb)) (raw_path (pb_grid pb) start goal chain)"
proof -
  let ?P = "raw_edge (pb_map pb) (pb_required pb)"
  let ?cells = "map (grid_point (pb_grid pb)) (rev chain)"
  have ends: "chain \<noteq> []" "hd chain = pb_to pb" "last chain = from"
    using chain by (simp_all add: chain_ok_def)
  have "successively (\<lambda>i j. edge_ok pb i j) (rev chain)"
    using chain by (simp add: chain_ok_def successively_rev)
  then have "successively ?P ?cells"
    by (simp add: successively_map edge_ok_def raw_edge_def successively_mono)
  moreover have "hd ?cells = grid_point (pb_grid pb) from" "last ?cells = grid_point (pb_grid pb) (pb_to pb)"
    using ends by (simp_all add: hd_map last_map hd_rev last_rev)
  ultimately show ?thesis
    using start goal ends(1)
    by (simp add: raw_path_def successively_append_iff successively_Cons raw_edge_def)
qed

section \<open>Properties\<close>

definition route_safe :: "pmap \<Rightarrow> pt \<Rightarrow> pt \<Rightarrow> real \<Rightarrow> route \<Rightarrow> bool" where
  "route_safe m start goal required r \<longleftrightarrow>
     rt_path r = [] \<or> path_ok m required start goal (rt_path r)"

lemma route_safe_empty: "route_safe m start goal required (mk_route [] a b c d e f g)"
  by (simp add: route_safe_def mk_route_def)

lemma finish_route_safe:
  assumes inv: "search_inv pb from s"
    and out: "case out of NoRoute \<Rightarrow> True | Found i \<Rightarrow> i = pb_to pb \<and> i \<in> set (sr_expanded s)"
    and start: "edge_clear (pb_map pb) (pb_required pb) start (grid_point (pb_grid pb) from)"
    and goal: "edge_clear (pb_map pb) (pb_required pb) goal (grid_point (pb_grid pb) (pb_to pb))"
  shows "\<exists>r. finish_route pb start goal (out, s) = Some r
    \<and> route_safe (pb_map pb) start goal (pb_required pb) r"
proof (cases out)
  case NoRoute
  then show ?thesis by (simp add: finish_route_def route_safe_empty Let_def)
next
  case (Found i)
  with out have i: "i = pb_to pb" "i \<in> set (sr_expanded s)" by auto
  then obtain chain where chain: "trace_back (grid_size (pb_grid pb) + 1) (sr_parents s) (Some i) = Some chain"
      "chain_ok pb from (pb_to pb) chain"
    using trace_back_found [OF inv] by blast
  define raw where "raw = raw_path (pb_grid pb) start goal chain"
  have "successively (raw_edge (pb_map pb) (pb_required pb)) raw"
    unfolding raw_def using chain(2) start goal by (rule raw_path_edges)
  then have "raw_edge (pb_map pb) (pb_required pb) (raw ! j) (raw ! Suc j)" if "Suc j < length raw" for j
    using that by (simp add: successively_nth)
  moreover have raw: "raw ! 0 = start" "last raw = goal" "0 < length raw"
    by (simp_all add: raw_def raw_path_def)
  moreover have "path_ok (pb_map pb) (pb_required pb) start (raw ! 0) [raw ! 0]"
    by (simp add: path_ok_def raw)
  ultimately have "path_ok (pb_map pb) (pb_required pb) start goal
      (shorten (pb_map pb) (pb_required pb) raw 0 [raw ! 0])"
    using shorten_ok [of raw "pb_map pb" "pb_required pb" 0 start "[raw ! 0]"] by simp
  then have "route_safe (pb_map pb) start goal (pb_required pb)
      (mk_route (shorten (pb_map pb) (pb_required pb) raw 0 [raw ! 0]) a b c d e f g)" for a b c d e f g
    by (simp add: route_safe_def mk_route_def)
  then show ?thesis
    by (simp only: finish_route_def Let_def fst_conv snd_conv Found outcome.case chain(1)
        option.map raw_def option.inject ex_simps simp_thms)
qed

lemma planRoute_returns:
  "\<exists>r. planRoute m start goal radius margin algorithm cell = Some r
     \<and> route_safe m start goal (radius + margin) r"
proof -
  define required where "required = radius + margin"
  define gd where "gd = make_grid m cell"
  define blocked where "blocked = blocked_cells m gd required"
  show ?thesis
  proof (cases "connector m gd required blocked start")
    case None
    then show ?thesis
      by (simp add: planRoute_def Let_def required_def [symmetric] gd_def [symmetric]
          blocked_def [symmetric] route_safe_empty)
  next
    case i: (Some i)
    show ?thesis
    proof (cases "connector m gd required blocked goal")
      case None
      then show ?thesis
        by (simp add: planRoute_def Let_def required_def [symmetric] gd_def [symmetric]
            blocked_def [symmetric] route_safe_empty i)
    next
      case j: (Some j)
      define pb where "pb = \<lparr>pb_map = m, pb_grid = gd, pb_required = required, pb_blocked = blocked,
        pb_algorithm = algorithm, pb_to = j\<rparr>"
      have ends: "i < grid_size gd" "edge_clear m required start (grid_point gd i)"
          "edge_clear m required goal (grid_point gd j)"
        using connector_reaches [of m gd required start blocked]
          connector_reaches [of m gd required goal blocked]
        by (simp_all add: i j reaches_def)
      have inv: "search_inv pb i (init_search pb i)"
        using ends(1)
        by (simp add: search_inv_def cells_ok_def parents_ok_def init_search_def set_heap_push pb_def)
      have "search_measure (init_search pb i) < search_fuel gd"
        by (simp add: search_measure_def init_search_def heap_push_length search_fuel_def pb_def
            filter_replicate)
      then obtain out s where loop: "search_loop (search_fuel gd) pb (init_search pb i) = Some (out, s)"
          "search_inv pb i s"
          "case out of NoRoute \<Rightarrow> True | Found i \<Rightarrow> i = pb_to pb \<and> i \<in> set (sr_expanded s)"
        using search_loop_result [OF inv] by blast
      then obtain r where r: "finish_route pb start goal (out, s) = Some r" "route_safe m start goal required r"
        using finish_route_safe [of pb i s out start goal] ends(2,3) by (auto simp: pb_def)
      show ?thesis
        using loop(1) r
        by (simp add: planRoute_def Let_def required_def [symmetric] gd_def [symmetric]
            blocked_def [symmetric] route_safe_empty i j pb_def [symmetric])
    qed
  qed
qed

text \<open>
  C32: Planning always returns, on every map, and a route it returns is safe: it starts at the
  start, ends at the goal (within the \<open>1e-8\<close> the code merges points by), and along every edge the
  clearance the code computed exceeds the radius plus the margin.
\<close>

theorem planRoute_safe:
  "\<exists>r. planRoute m start goal radius margin algorithm cell = Some r
     \<and> route_safe m start goal (radius + margin) r"
  by (rule planRoute_returns)

end
