(* ===== verification/Planning_Run.thy ===== *)
theory Planning_Run
  imports Planning
begin

text \<open>
  \<open>planningExperiment\<close> of \<open>lab/js/planning/core.js\<close>: the simulated drive along a drawn or planned
  path, with the obstacle that appears in the replanning topic. The 6000 ticks of the loop are the
  recursion's argument. The result of a route search is an \<open>option\<close> (\<open>Planning\<close> proves that it is
  never \<open>None\<close>).
\<close>

section \<open>The run\<close>

definition PLAN_RADIUS :: real where "PLAN_RADIUS = 18 / 100"
definition PLAN_TRACK :: real where "PLAN_TRACK = 32 / 100"
definition PLAN_WHEEL :: real where "PLAN_WHEEL = 65 / 1000"

record plan_config =
  pc_topic :: string
  pc_body :: bool
  pc_margin :: real
  pc_algorithm :: string
  pc_replan :: bool
  pc_points :: "pt list"
  pc_room :: string

definition planningDefaults :: "string \<Rightarrow> plan_config" where
  "planningDefaults topic =
     \<lparr>pc_topic = topic, pc_body = (topic \<noteq> ''width''), pc_margin = 0, pc_algorithm = ''astar'',
      pc_replan = False, pc_points = [], pc_room = []\<rparr>"

record pose_sample =
  sa_x :: real
  sa_y :: real
  sa_theta :: real
  sa_t :: real
  sa_left :: real
  sa_right :: real
  sa_travel :: real
  sa_clearance :: real
  sa_changed :: bool
  sa_phase :: string

definition pose_pt :: "pose_sample \<Rightarrow> pt" where
  "pose_pt s = mk_pt (sa_x s) (sa_y s)"

record sim =
  si_pose :: pose_sample
  si_samples :: "pose_sample list"
  si_path :: "pt list"
  si_index :: nat
  si_obstacles :: "rect list"
  si_changed :: bool
  si_total :: real
  si_minimum :: real
  si_new_plan :: "route option"
  si_event_index :: "nat option"
  si_status :: string

definition with_obstacles :: "rect list \<Rightarrow> pmap \<Rightarrow> pmap" where
  "with_obstacles rs m = m\<lparr>pm_obstacles := rs\<rparr>"

definition DT :: real where "DT = 4 / 100"

definition rpm :: "real \<Rightarrow> real" where
  "rpm v = (v / (2 * pi * PLAN_WHEEL)) * 60"

definition sample :: "pmap \<Rightarrow> string \<Rightarrow> real \<Rightarrow> real \<Rightarrow> sim \<Rightarrow> sim" where
  "sample m phase left right st =
     (let pose = si_pose st;
          c = max 0 (planningClearance (with_obstacles (si_obstacles st) m) (pose_pt pose) - PLAN_RADIUS);
          pose' = pose\<lparr>sa_t := sa_t pose + DT, sa_left := left, sa_right := right,
                       sa_travel := si_total st, sa_clearance := c, sa_changed := si_changed st,
                       sa_phase := phase\<rparr>
      in st\<lparr>si_pose := pose', si_samples := si_samples st @ [pose'],
            si_minimum := min (si_minimum st) c\<rparr>)"

definition extra_obstacle :: rect where
  "extra_obstacle = mk_rect (255 / 100) (175 / 100) (45 / 100) (5 / 10)"

datatype control = Go | Stop

text \<open>The obstacle of the replanning topic: it appears once, when the robot has come to \<open>x = 1.5\<close>.\<close>

definition meet_obstacle :: "pmap \<Rightarrow> plan_config \<Rightarrow> real \<Rightarrow> sim \<Rightarrow> (control \<times> sim) option" where
  "meet_obstacle m cfg radius st =
     (if \<not> (pc_topic cfg = ''replan'' \<and> \<not> si_changed st \<and> sa_x (si_pose st) \<ge> 15 / 10) then Some (Go, st)
      else let obstacles = pm_obstacles m @ [extra_obstacle];
               st = sample m ''obstacle'' 0 0
                      (st\<lparr>si_changed := True, si_obstacles := obstacles,
                          si_event_index := Some (length (si_samples st))\<rparr>)
           in if \<not> pc_replan cfg then Some (Stop, st\<lparr>si_status := ''blocked''\<rparr>)
              else map_option
                     (\<lambda>plan.
                        let st = st\<lparr>si_new_plan := Some plan\<rparr> in
                        if rt_path plan = [] then (Stop, st\<lparr>si_status := ''no-replan''\<rparr>)
                        else (Go, ((sample m ''replan'' 0 0 ^^ 25) st)\<lparr>si_path := rt_path plan, si_index := 1\<rparr>))
                     (planRoute (with_obstacles obstacles m) (pose_pt (si_pose st)) (pm_goal m) radius
                        (pc_margin cfg) (pc_algorithm cfg) (1 / 10)))"

function next_index :: "pt list \<Rightarrow> pt \<Rightarrow> nat \<Rightarrow> nat" where
  "next_index path p i =
     (if i < length path \<and> distance p (path ! i) < 2 / 1000 then next_index path p (i + 1) else i)"
  by pat_completeness auto
termination
  by (relation "measure (\<lambda>(path, p, i). length path - i)") auto

declare next_index.simps [simp del]

text \<open>One tick of turning or driving towards the next point of the path.\<close>

definition drive_tick :: "pmap \<Rightarrow> sim \<Rightarrow> control \<times> sim" where
  "drive_tick m st =
     (let pose = si_pose st; i = next_index (si_path st) (pose_pt pose) (si_index st);
          st = st\<lparr>si_index := i\<rparr>
      in if i \<ge> length (si_path st) then (Stop, sample m ''arrived'' 0 0 (st\<lparr>si_status := ''success''\<rparr>))
         else let target = si_path st ! i;
                  d = distance (pose_pt pose) target;
                  heading = atan2 (py target - sa_y pose) (px target - sa_x pose);
                  error = wrap_angle (heading - sa_theta pose);
                  w = (if \<bar>error\<bar> > 1 / 1000 then sgn error * min (14 / 10) (\<bar>error\<bar> / DT) else 0);
                  v = (if \<bar>error\<bar> > 1 / 1000 then 0 else min (4 / 10) (d / DT));
                  pose' = pose\<lparr>sa_theta := wrap_angle (sa_theta pose + w * DT),
                               sa_x := sa_x pose + v * cos (sa_theta pose) * DT,
                               sa_y := sa_y pose + v * sin (sa_theta pose) * DT\<rparr>
              in if segmentClearance (with_obstacles (si_obstacles st) m) (pose_pt pose) (pose_pt pose')
                    \<le> PLAN_RADIUS
                 then (Stop, sample m ''contact'' 0 0 (st\<lparr>si_status := ''contact''\<rparr>))
                 else (Go, sample m ''moving'' (rpm (v - (w * PLAN_TRACK) / 2)) (rpm (v + (w * PLAN_TRACK) / 2))
                             (st\<lparr>si_total := si_total st + distance (pose_pt pose) (pose_pt pose'),
                                 si_pose := pose'\<rparr>)))"

fun run_ticks :: "nat \<Rightarrow> pmap \<Rightarrow> plan_config \<Rightarrow> real \<Rightarrow> sim \<Rightarrow> sim option" where
  "run_ticks 0 m cfg radius st = Some st"
| "run_ticks (Suc n) m cfg radius st =
     Option.bind (meet_obstacle m cfg radius st)
       (\<lambda>(c, st). case c of Stop \<Rightarrow> Some st
          | Go \<Rightarrow> (case drive_tick m st of
                     (Stop, st) \<Rightarrow> Some st | (Go, st) \<Rightarrow> run_ticks n m cfg radius st))"

definition first_sample :: "pmap \<Rightarrow> pose_sample" where
  "first_sample m =
     \<lparr>sa_x = px (pm_start m), sa_y = py (pm_start m), sa_theta = 0, sa_t = 0, sa_left = 0,
      sa_right = 0, sa_travel = 0, sa_clearance = planningClearance m (pm_start m) - PLAN_RADIUS,
      sa_changed = False, sa_phase = ''moving''\<rparr>"

definition init_sim :: "pmap \<Rightarrow> pt list \<Rightarrow> sim" where
  "init_sim m path =
     \<lparr>si_pose = first_sample m, si_samples = [first_sample m], si_path = path, si_index = 1,
      si_obstacles = pm_obstacles m, si_changed = False, si_total = 0,
      si_minimum = sa_clearance (first_sample m), si_new_plan = None, si_event_index = None,
      si_status = ''no-path''\<rparr>"

definition plan_radius :: "plan_config \<Rightarrow> real" where
  "plan_radius cfg = (if pc_body cfg then PLAN_RADIUS else 0)"

definition initial_path :: "plan_config \<Rightarrow> pmap \<Rightarrow> pt list option" where
  "initial_path cfg m =
     (if pc_topic cfg = ''draw'' then Some (pm_start m # pc_points cfg @ [pm_goal m])
      else map_option rt_path (planRoute m (pm_start m) (pm_goal m) (plan_radius cfg) (pc_margin cfg)
                                 (pc_algorithm cfg) (1 / 10)))"

definition planningExperiment :: "plan_config \<Rightarrow> pmap \<Rightarrow> sim option" where
  "planningExperiment cfg m =
     Option.bind (initial_path cfg m)
       (\<lambda>path. if path = [] then Some (init_sim m path)
               else map_option (\<lambda>st. if si_status st = ''no-path'' then st\<lparr>si_status := ''timeout''\<rparr> else st)
                      (run_ticks 6000 m cfg (plan_radius cfg) (init_sim m path)))"

section \<open>The invariant of the run\<close>

definition obstacles_at :: "pmap \<Rightarrow> bool \<Rightarrow> rect list" where
  "obstacles_at m changed = (if changed then pm_obstacles m @ [extra_obstacle] else pm_obstacles m)"

text \<open>A moving sample follows the one before it over a segment the body is clear of.\<close>

definition move_clear :: "pmap \<Rightarrow> pose_sample \<Rightarrow> pose_sample \<Rightarrow> bool" where
  "move_clear m s s' \<longleftrightarrow>
     (if sa_phase s' = ''moving''
      then segmentClearance (with_obstacles (obstacles_at m (sa_changed s')) m) (pose_pt s) (pose_pt s')
             > PLAN_RADIUS
      else pose_pt s' = pose_pt s)"

definition sim_inv :: "pmap \<Rightarrow> sim \<Rightarrow> bool" where
  "sim_inv m st \<longleftrightarrow>
     si_samples st \<noteq> [] \<and> pose_pt (si_pose st) = pose_pt (last (si_samples st)) \<and>
     si_obstacles st = obstacles_at m (si_changed st) \<and>
     successively (move_clear m) (si_samples st) \<and>
     list_all (\<lambda>s. si_minimum st \<le> sa_clearance s) (si_samples st)"

lemma sample_pose [simp]: "pose_pt (si_pose (sample m phase l r st)) = pose_pt (si_pose st)"
  by (simp add: sample_def Let_def pose_pt_def)

lemma sim_inv_still:
  assumes "sim_inv m st" and "phase \<noteq> ''moving''"
  shows "sim_inv m (sample m phase l r st)"
  using assms
  by (auto simp: sim_inv_def sample_def Let_def successively_append_iff move_clear_def pose_pt_def
      list_all_iff)

lemma sim_inv_replan: "sim_inv m st \<Longrightarrow> sim_inv m ((sample m ''replan'' 0 0 ^^ n) st)"
  by (induction n) (simp_all add: sim_inv_still)

lemma planRoute_some: "\<exists>r. planRoute m start goal radius margin algorithm cell = Some r"
  using planRoute_returns by blast

lemma sim_inv_meet:
  assumes "sim_inv m st"
  shows "\<exists>c st'. meet_obstacle m cfg radius st = Some (c, st') \<and> sim_inv m st'"
proof (cases "pc_topic cfg = ''replan'' \<and> \<not> si_changed st \<and> sa_x (si_pose st) \<ge> 15 / 10")
  case False
  with assms show ?thesis by (auto simp: meet_obstacle_def)
next
  case True
  define st1 where "st1 = sample m ''obstacle'' 0 0 (st\<lparr>si_changed := True,
    si_obstacles := pm_obstacles m @ [extra_obstacle], si_event_index := Some (length (si_samples st))\<rparr>)"
  have "sim_inv m st1" unfolding st1_def
    by (rule sim_inv_still) (use assms in \<open>simp_all add: sim_inv_def obstacles_at_def\<close>)
  moreover obtain plan where plan: "planRoute (with_obstacles (pm_obstacles m @ [extra_obstacle]) m)
      (pose_pt (si_pose st1)) (pm_goal m) radius (pc_margin cfg) (pc_algorithm cfg) (1 / 10) = Some plan"
    using planRoute_some by blast
  moreover have status: "sim_inv m (u\<lparr>si_status := x\<rparr>)" "sim_inv m (u\<lparr>si_new_plan := y\<rparr>)"
      "sim_inv m (u\<lparr>si_path := a, si_index := b\<rparr>)" if "sim_inv m u" for u x y a b
    using that by (simp_all add: sim_inv_def)
  ultimately show ?thesis
    using True
    by (simp add: meet_obstacle_def Let_def st1_def [symmetric] sim_inv_replan status)
qed

lemma sim_inv_drive:
  assumes "sim_inv m st"
  shows "sim_inv m (snd (drive_tick m st))"
proof -
  have keep: "sim_inv m (st\<lparr>si_index := i, si_status := x\<rparr>)" "sim_inv m (st\<lparr>si_index := i\<rparr>)" for i x
    using assms by (simp_all add: sim_inv_def)
  have move: "sim_inv m (sample m ''moving'' l r (st\<lparr>si_index := i, si_total := d, si_pose := p\<rparr>))"
    if "segmentClearance (with_obstacles (si_obstacles st) m) (pose_pt (si_pose st)) (pose_pt p) > PLAN_RADIUS"
    for i d p l r
    using assms that
    by (auto simp: sim_inv_def sample_def Let_def successively_append_iff move_clear_def list_all_iff
        pose_pt_def)
  show ?thesis
    unfolding drive_tick_def Let_def
    by (simp split del: if_split add: if_distrib [of snd] if_distrib [of "sim_inv m"])
       (auto intro!: sim_inv_still move simp: keep)
qed

lemma sim_inv_ticks:
  "sim_inv m st \<Longrightarrow> \<exists>st'. run_ticks n m cfg radius st = Some st' \<and> sim_inv m st'"
proof (induction n arbitrary: st)
  case 0
  then show ?case by simp
next
  case (Suc n)
  obtain c st1 where meet: "meet_obstacle m cfg radius st = Some (c, st1)" "sim_inv m st1"
    using sim_inv_meet [OF Suc.prems] by blast
  obtain c2 st2 where drive: "drive_tick m st1 = (c2, st2)" by force
  with sim_inv_drive [OF meet(2)] have "sim_inv m st2" by simp
  with meet drive Suc.IH show ?case by (cases c; cases c2) auto
qed

lemma initial_path_some: "\<exists>path. initial_path cfg m = Some path"
proof (cases "pc_topic cfg = ''draw''")
  case True
  then show ?thesis by (simp add: initial_path_def)
next
  case False
  obtain r where "planRoute m (pm_start m) (pm_goal m) (plan_radius cfg) (pc_margin cfg)
      (pc_algorithm cfg) (1 / 10) = Some r" using planRoute_some by blast
  with False show ?thesis by (simp add: initial_path_def)
qed

section \<open>Properties\<close>

text \<open>
  Every run of the planning lesson ends with a result, and in it the robot never moves along a
  segment on which its body would touch: each moving sample is reached over a segment whose
  clearance, with the obstacles there at that moment, exceeds the body's radius; every other sample
  stands still; and the reported minimum clearance is below that of every sample.
\<close>

theorem experiment_never_collides:
  "\<exists>st. planningExperiment cfg m = Some st
     \<and> successively (move_clear m) (si_samples st)
     \<and> list_all (\<lambda>s. si_minimum st \<le> sa_clearance s) (si_samples st)"
proof -
  obtain path where path: "initial_path cfg m = Some path" using initial_path_some by blast
  have init: "sim_inv m (init_sim m path)"
    by (simp add: sim_inv_def init_sim_def obstacles_at_def)
  then obtain st where "run_ticks 6000 m cfg (plan_radius cfg) (init_sim m path) = Some st" "sim_inv m st"
    using sim_inv_ticks by blast
  with init path show ?thesis by (auto simp: planningExperiment_def sim_inv_def)
qed

end
