(* ===== verification/Keymap.thy ===== *)
theory Keymap
  imports Lab_Prelude
begin

text \<open>
  \<open>lab/js/keymap/core.js\<close>: the controller key-mapping course. The dead zone, what the robot's nodes
  do with one input under a mapping, the problems of a mapping, and the simulated robot and launcher.
  A number that the code tests with \<open>Number.isFinite\<close> is a \<open>num\<close>; the values of a mapping that are
  not integers are missing (\<open>None\<close>). Commands are modelled for mappings whose two scales are
  numbers (\<open>mappingProblems\<close> reports the others).
\<close>

section \<open>What can be assigned\<close>

datatype fn = Forward | Turning | Roller | Fire | TiltUp | TiltDown

datatype input_kind = AxisKind | ButtonKind

definition KEYMAP_FUNCTIONS :: "fn list" where
  "KEYMAP_FUNCTIONS = [Forward, Turning, Roller, Fire, TiltUp, TiltDown]"

fun fn_kind :: "fn \<Rightarrow> input_kind" where
  "fn_kind Forward = AxisKind"
| "fn_kind Turning = AxisKind"
| "fn_kind _ = ButtonKind"

fun fn_node :: "fn \<Rightarrow> string" where
  "fn_node Forward = ''joy_controller''"
| "fn_node Turning = ''joy_controller''"
| "fn_node Roller = ''esc_motor_control''"
| "fn_node Fire = ''shot_component''"
| "fn_node TiltUp = ''shot_component''"
| "fn_node TiltDown = ''shot_component''"

fun fn_param :: "fn \<Rightarrow> string" where
  "fn_param Forward = ''linear_x_axis''"
| "fn_param Turning = ''angular_z_axis''"
| "fn_param Roller = ''full_speed_button''"
| "fn_param Fire = ''fire_button''"
| "fn_param TiltUp = ''tilt_up_button_index''"
| "fn_param TiltDown = ''tilt_down_button_index''"

datatype scale = ForwardScale | TurnScale

definition KEYMAP_SCALES :: "scale list" where
  "KEYMAP_SCALES = [ForwardScale, TurnScale]"

fun scale_param :: "scale \<Rightarrow> string" where
  "scale_param ForwardScale = ''longitudinal_input_ratio''"
| "scale_param TurnScale = ''angular_input_ratio''"

fun scale_range :: "scale \<Rightarrow> real \<times> real" where
  "scale_range ForwardScale = (- 10, 10)"
| "scale_range TurnScale = (- 20, 20)"

definition DEADZONE_MAX :: real where "DEADZONE_MAX = 99 / 100"
definition INDEX_MAX :: int where "INDEX_MAX = 63"
definition STANDARD_BUTTONS :: int where "STANDARD_BUTTONS = 17"
definition STANDARD_AXES :: int where "STANDARD_AXES = 4"

record mapping =
  ma_index :: "fn \<Rightarrow> int option"
  ma_scale :: "scale \<Rightarrow> num"
  ma_deadzone :: num

section \<open>From the input to the command\<close>

definition key_clamp :: "real \<Rightarrow> real \<Rightarrow> real \<Rightarrow> real" where
  "key_clamp value low high = min high (max low value)"

definition applyDeadzone :: "num \<Rightarrow> num \<Rightarrow> real" where
  "applyDeadzone value deadzone =
     (case value of
        None \<Rightarrow> 0
      | Some v \<Rightarrow>
          (let zone = key_clamp (coalesce deadzone 0) 0 DEADZONE_MAX;
               magnitude = min 1 \<bar>v\<bar>
           in if magnitude \<le> zone then 0 else (sgn v * (magnitude - zone)) / (1 - zone)))"

record pad_input =
  in_axes :: "num list"
  in_buttons :: "bool list"

record drive_cmd =
  dc_linear :: real
  dc_angular :: real

record key_command =
  kc_drive :: "drive_cmd option"
  kc_roller :: bool
  kc_fire :: bool
  kc_tilt_up :: bool
  kc_tilt_down :: bool

definition at_index :: "'a list \<Rightarrow> int option \<Rightarrow> 'a option" where
  "at_index xs i =
     (case i of None \<Rightarrow> None
      | Some n \<Rightarrow> if 0 \<le> n \<and> n < int (length xs) then Some (xs ! nat n) else None)"

definition read_axis :: "pad_input \<Rightarrow> mapping \<Rightarrow> fn \<Rightarrow> real option" where
  "read_axis inp m f = map_option (\<lambda>v. applyDeadzone v (ma_deadzone m)) (at_index (in_axes inp) (ma_index m f))"

definition read_button :: "pad_input \<Rightarrow> mapping \<Rightarrow> fn \<Rightarrow> bool" where
  "read_button inp m f \<longleftrightarrow> at_index (in_buttons inp) (ma_index m f) = Some True"

definition commandFromInput :: "pad_input \<Rightarrow> mapping \<Rightarrow> key_command" where
  "commandFromInput inp m =
     \<lparr>kc_drive =
        (case (read_axis inp m Forward, read_axis inp m Turning) of
           (Some forward, Some turn) \<Rightarrow>
             Some \<lparr>dc_linear = forward * the (ma_scale m ForwardScale),
                   dc_angular = turn * the (ma_scale m TurnScale)\<rparr>
         | _ \<Rightarrow> None),
      kc_roller = read_button inp m Roller, kc_fire = read_button inp m Fire,
      kc_tilt_up = read_button inp m TiltUp, kc_tilt_down = read_button inp m TiltDown\<rparr>"

section \<open>Problems of a mapping\<close>

datatype subject = Fn fn | Scale scale | Deadzone

datatype key_problem = RangeProblem subject | MissingProblem fn | TiltSame | Shared "fn list"
  | ZeroScale scale

record pad_sizes =
  sz_axes :: int
  sz_buttons :: int

definition index_problems :: "mapping \<Rightarrow> pad_sizes \<Rightarrow> fn \<Rightarrow> key_problem list" where
  "index_problems m sizes f =
     (case ma_index m f of
        None \<Rightarrow> [RangeProblem (Fn f)]
      | Some v \<Rightarrow>
          if v < 0 \<or> v > INDEX_MAX then [RangeProblem (Fn f)]
          else if v \<ge> (case fn_kind f of AxisKind \<Rightarrow> sz_axes sizes | ButtonKind \<Rightarrow> sz_buttons sizes)
               then [MissingProblem f] else [])"

definition scale_problems :: "mapping \<Rightarrow> scale \<Rightarrow> key_problem list" where
  "scale_problems m s =
     (case ma_scale m s of
        None \<Rightarrow> [RangeProblem (Scale s)]
      | Some v \<Rightarrow> if v < fst (scale_range s) \<or> v > snd (scale_range s) then [RangeProblem (Scale s)] else [])"

definition deadzone_problems :: "mapping \<Rightarrow> key_problem list" where
  "deadzone_problems m =
     (case ma_deadzone m of
        None \<Rightarrow> [RangeProblem Deadzone]
      | Some v \<Rightarrow> if v < 0 \<or> v > DEADZONE_MAX then [RangeProblem Deadzone] else [])"

text \<open>The functions of one kind, grouped by the input they share, in order of first appearance.\<close>

fun group_by_index :: "mapping \<Rightarrow> fn list \<Rightarrow> fn list list" where
  "group_by_index m [] = []"
| "group_by_index m (f # fs) =
     (f # filter (\<lambda>g. ma_index m g = ma_index m f) fs)
     # group_by_index m (filter (\<lambda>g. ma_index m g \<noteq> ma_index m f) fs)"

definition shared_problems :: "mapping \<Rightarrow> input_kind \<Rightarrow> key_problem list" where
  "shared_problems m kind =
     List.map_filter
       (\<lambda>ids. if length ids < 2 then None
              else if length ids = 2 \<and> TiltUp \<in> set ids \<and> TiltDown \<in> set ids then None
              else Some (Shared ids))
       (group_by_index m (filter (\<lambda>f. fn_kind f = kind) KEYMAP_FUNCTIONS))"

definition zero_problems :: "mapping \<Rightarrow> scale \<Rightarrow> key_problem list" where
  "zero_problems m s = (if ma_scale m s = Some 0 then [ZeroScale s] else [])"

definition mappingProblems :: "mapping \<Rightarrow> pad_sizes \<Rightarrow> key_problem list" where
  "mappingProblems m sizes =
     concat (map (index_problems m sizes) KEYMAP_FUNCTIONS)
     @ concat (map (scale_problems m) KEYMAP_SCALES)
     @ deadzone_problems m
     @ (if ma_index m TiltUp = ma_index m TiltDown then [TiltSame] else [])
     @ shared_problems m AxisKind @ shared_problems m ButtonKind
     @ zero_problems m ForwardScale @ zero_problems m TurnScale"

fun refused :: "key_problem \<Rightarrow> bool" where
  "refused (RangeProblem _) = True"
| "refused TiltSame = True"
| "refused _ = False"

definition refusedByRobotManager :: "key_problem list \<Rightarrow> key_problem list" where
  "refusedByRobotManager ps = filter refused ps"

section \<open>The simulated robot\<close>

record disc =
  di_x :: real
  di_y :: real
  di_heading :: real
  di_distance :: real
  di_flown :: real
  di_weak :: bool

record sim_robot =
  ro_x :: real
  ro_y :: real
  ro_heading :: real
  ro_speed :: real
  ro_turn_rate :: real
  ro_tilt :: real
  ro_roller :: bool
  ro_roller_time :: real
  ro_fire_pressed :: bool
  ro_discs :: "disc list"
  ro_shots :: nat
  ro_weak_shots :: nat
  ro_travelled :: real
  ro_last_command :: "key_command option"

definition MAX_SPEED :: real where "MAX_SPEED = 12 / 10"
definition MAX_TURN :: real where "MAX_TURN = 3"
definition ACCEL :: real where "ACCEL = 3"
definition TURN_ACCEL :: real where "TURN_ACCEL = 12"
definition TILT_RATE :: real where "TILT_RATE = 30"
definition SPIN_UP :: real where "SPIN_UP = 8 / 10"
definition TILT_MIN :: real where "TILT_MIN = 0"
definition TILT_MAX :: real where "TILT_MAX = 45"
definition FIELD_WIDTH :: real where "FIELD_WIDTH = 4"
definition FIELD_HEIGHT :: real where "FIELD_HEIGHT = 24 / 10"

lemmas sim_constants = MAX_SPEED_def MAX_TURN_def ACCEL_def TURN_ACCEL_def TILT_RATE_def
  SPIN_UP_def TILT_MIN_def TILT_MAX_def FIELD_WIDTH_def FIELD_HEIGHT_def

definition newRobot :: sim_robot where
  "newRobot =
     \<lparr>ro_x = FIELD_WIDTH / 2, ro_y = FIELD_HEIGHT / 2, ro_heading = 0, ro_speed = 0, ro_turn_rate = 0,
      ro_tilt = 20, ro_roller = False, ro_roller_time = 0, ro_fire_pressed = False, ro_discs = [],
      ro_shots = 0, ro_weak_shots = 0, ro_travelled = 0, ro_last_command = None\<rparr>"

definition approach :: "real \<Rightarrow> real \<Rightarrow> real \<Rightarrow> real" where
  "approach value target step =
     (if value < target then min target (value + step) else max target (value - step))"

text \<open>\<open>((value % size) + size) % size\<close>: the remainder of a division towards minus infinity.\<close>

definition wrap_field :: "real \<Rightarrow> real \<Rightarrow> real" where
  "wrap_field value period = value - period * of_int \<lfloor>value / period\<rfloor>"

definition fire_disc :: "sim_robot \<Rightarrow> disc" where
  "fire_disc r =
     (let weak = ro_roller_time r < SPIN_UP
      in \<lparr>di_x = ro_x r, di_y = ro_y r, di_heading = ro_heading r,
          di_distance = (if weak then 15 / 100 else 8 / 10 + 2 / 100 * ro_tilt r), di_flown = 0,
          di_weak = weak\<rparr>)"

definition fly :: "real \<Rightarrow> disc \<Rightarrow> disc" where
  "fly dt d = d\<lparr>di_flown := min (di_distance d) (di_flown d + 3 * dt)\<rparr>"

definition last_six :: "'a list \<Rightarrow> 'a list" where
  "last_six xs = drop (length xs - 6) xs"

definition step_tilt :: "key_command \<Rightarrow> real \<Rightarrow> real \<Rightarrow> real" where
  "step_tilt c dt tilt =
     (if kc_tilt_up c \<and> \<not> kc_tilt_down c then min TILT_MAX (tilt + TILT_RATE * dt)
      else if kc_tilt_down c \<and> \<not> kc_tilt_up c then max TILT_MIN (tilt - TILT_RATE * dt) else tilt)"

definition stepRobot :: "sim_robot \<Rightarrow> key_command \<Rightarrow> real \<Rightarrow> sim_robot" where
  "stepRobot s c dt =
     (let drive = coalesce (kc_drive c) \<lparr>dc_linear = 0, dc_angular = 0\<rparr>;
          speed = approach (ro_speed s) (key_clamp (dc_linear drive) (- MAX_SPEED) MAX_SPEED) (ACCEL * dt);
          turn = approach (ro_turn_rate s) (key_clamp (dc_angular drive) (- MAX_TURN) MAX_TURN) (TURN_ACCEL * dt);
          heading = ro_heading s + turn * dt;
          distance = speed * dt;
          n = s\<lparr>ro_speed := speed, ro_turn_rate := turn, ro_heading := heading,
                ro_x := wrap_field (ro_x s + cos heading * distance) FIELD_WIDTH,
                ro_y := wrap_field (ro_y s + sin heading * distance) FIELD_HEIGHT,
                ro_travelled := ro_travelled s + \<bar>distance\<bar>, ro_roller := kc_roller c,
                ro_roller_time := (if kc_roller c then ro_roller_time s + dt else 0),
                ro_tilt := step_tilt c dt (ro_tilt s)\<rparr>;
          n = (if kc_fire c \<and> \<not> ro_fire_pressed s
               then n\<lparr>ro_discs := ro_discs s @ [fire_disc n], ro_shots := ro_shots s + 1,
                      ro_weak_shots := ro_weak_shots s + (if di_weak (fire_disc n) then 1 else 0)\<rparr>
               else n)
      in n\<lparr>ro_fire_pressed := kc_fire c, ro_discs := last_six (map (fly dt) (ro_discs n)),
           ro_last_command := Some c\<rparr>)"

section \<open>Reading a gamepad\<close>

datatype pad_button = PlainButton bool | ObjectButton bool num

record gamepad =
  gp_id :: string
  gp_mapping :: string
  gp_connected :: bool
  gp_axes :: "num list"
  gp_buttons :: "pad_button list"

fun pad_pressed :: "pad_button \<Rightarrow> bool" where
  "pad_pressed (PlainButton b) = b"
| "pad_pressed (ObjectButton pressed value) =
     (pressed \<or> (case value of None \<Rightarrow> False | Some v \<Rightarrow> v \<ge> 5 / 10))"

definition readGamepad :: "gamepad option \<Rightarrow> (string \<times> string \<times> pad_input) option" where
  "readGamepad pad =
     (case pad of None \<Rightarrow> None
      | Some p \<Rightarrow>
          if \<not> gp_connected p then None
          else Some (gp_id p, gp_mapping p,
                 \<lparr>in_axes = map (\<lambda>v. Some (case v of None \<Rightarrow> 0 | Some x \<Rightarrow> key_clamp x (- 1) 1)) (gp_axes p),
                  in_buttons = map pad_pressed (gp_buttons p)\<rparr>))"

fun strongest_axis :: "num list \<Rightarrow> nat \<Rightarrow> int \<times> real \<Rightarrow> int \<times> real" where
  "strongest_axis [] i acc = acc"
| "strongest_axis (v # vs) i (axis, best) =
     strongest_axis vs (i + 1)
       (case v of None \<Rightarrow> (axis, best)
        | Some x \<Rightarrow> if \<bar>x\<bar> \<ge> best then (int i, \<bar>x\<bar>) else (axis, best))"

definition strongestInput :: "pad_input \<Rightarrow> real \<Rightarrow> int \<times> int \<times> real" where
  "strongestInput inp threshold =
     (let button = index_of (in_buttons inp) True;
          axis = fst (strongest_axis (in_axes inp) 0 (- 1, threshold))
      in (button, axis, if axis \<ge> 0 then coalesce (in_axes inp ! nat axis) 0 else 0))"

datatype row_value = IndexValue "int option" | NumValue num

definition robotManagerRows :: "mapping \<Rightarrow> (string \<times> string \<times> row_value) list" where
  "robotManagerRows m =
     map (\<lambda>f. (fn_node f, fn_param f, IndexValue (ma_index m f)))
       (filter (\<lambda>f. fn_kind f = AxisKind) KEYMAP_FUNCTIONS)
     @ map (\<lambda>s. (''joy_controller'', scale_param s, NumValue (ma_scale m s))) KEYMAP_SCALES
     @ map (\<lambda>f. (fn_node f, fn_param f, IndexValue (ma_index m f)))
         (filter (\<lambda>f. fn_kind f = ButtonKind) KEYMAP_FUNCTIONS)
     @ [(''joy_node'', ''deadzone'', NumValue (ma_deadzone m))]"

section \<open>Lemmas\<close>

lemma applyDeadzone_bounds: "\<bar>applyDeadzone v z\<bar> \<le> 1"
proof (cases v)
  case None
  then show ?thesis by (simp add: applyDeadzone_def)
next
  case (Some x)
  define zone where "zone = key_clamp (coalesce z 0) 0 DEADZONE_MAX"
  have z: "0 \<le> zone" "zone < 1"
    by (auto simp: zone_def key_clamp_def DEADZONE_MAX_def)
  show ?thesis
  proof (cases "min 1 \<bar>x\<bar> \<le> zone")
    case True
    with Some show ?thesis by (simp add: applyDeadzone_def zone_def [symmetric])
  next
    case False
    then have "\<bar>sgn x * (min 1 \<bar>x\<bar> - zone) / (1 - zone)\<bar> = (min 1 \<bar>x\<bar> - zone) / (1 - zone)"
      using z by (cases "x = 0") (auto simp: abs_mult abs_sgn_eq)
    also have "\<dots> \<le> 1" using z by simp
    finally show ?thesis using Some False by (simp add: applyDeadzone_def zone_def [symmetric])
  qed
qed

lemma approach_bounds:
  "\<bar>value\<bar> \<le> b \<Longrightarrow> \<bar>target\<bar> \<le> b \<Longrightarrow> 0 \<le> step \<Longrightarrow> \<bar>approach value target step\<bar> \<le> b"
  by (auto simp: approach_def min_def max_def)

lemma key_clamp_abs: "0 \<le> b \<Longrightarrow> \<bar>key_clamp v (- b) b\<bar> \<le> b"
  by (auto simp: key_clamp_def)

lemma wrap_field_bounds:
  assumes "0 < period"
  shows "0 \<le> wrap_field v period \<and> wrap_field v period < period"
proof -
  have "of_int \<lfloor>v / period\<rfloor> \<le> v / period" "v / period < of_int \<lfloor>v / period\<rfloor> + 1"
    using floor_correct [of "v / period"] by simp_all
  then have "of_int \<lfloor>v / period\<rfloor> * period \<le> v" "v < (of_int \<lfloor>v / period\<rfloor> + 1) * period"
    using assms by (simp_all only: pos_le_divide_eq pos_divide_less_eq)
  then show ?thesis by (simp add: wrap_field_def algebra_simps)
qed

text \<open>What the model promises: the robot on the field, the speeds and the tilt in their ranges, at
  most six discs, none beyond its reach.\<close>

definition robot_ok :: "sim_robot \<Rightarrow> bool" where
  "robot_ok r \<longleftrightarrow>
     \<bar>ro_speed r\<bar> \<le> MAX_SPEED \<and> \<bar>ro_turn_rate r\<bar> \<le> MAX_TURN \<and>
     TILT_MIN \<le> ro_tilt r \<and> ro_tilt r \<le> TILT_MAX \<and>
     0 \<le> ro_x r \<and> ro_x r < FIELD_WIDTH \<and> 0 \<le> ro_y r \<and> ro_y r < FIELD_HEIGHT \<and>
     length (ro_discs r) \<le> 6 \<and> list_all (\<lambda>d. di_flown d \<le> di_distance d) (ro_discs r) \<and>
     ro_weak_shots r \<le> ro_shots r \<and> 0 \<le> ro_roller_time r"

lemma robot_ok_step:
  assumes ok: "robot_ok r" and dt: "0 \<le> dt"
  shows "robot_ok (stepRobot r c dt)"
proof -
  define drive where "drive = coalesce (kc_drive c) \<lparr>dc_linear = 0, dc_angular = 0\<rparr>"
  have speed: "\<bar>approach (ro_speed r) (key_clamp (dc_linear drive) (- MAX_SPEED) MAX_SPEED) (ACCEL * dt)\<bar> \<le> MAX_SPEED"
    using ok dt by (intro approach_bounds key_clamp_abs) (simp_all add: robot_ok_def sim_constants)
  have turn: "\<bar>approach (ro_turn_rate r) (key_clamp (dc_angular drive) (- MAX_TURN) MAX_TURN) (TURN_ACCEL * dt)\<bar> \<le> MAX_TURN"
    using ok dt by (intro approach_bounds key_clamp_abs) (simp_all add: robot_ok_def sim_constants)
  have tilt: "TILT_MIN \<le> step_tilt c dt (ro_tilt r)" "step_tilt c dt (ro_tilt r) \<le> TILT_MAX"
    using ok dt by (auto simp: robot_ok_def step_tilt_def sim_constants)
  have field: "0 \<le> wrap_field v FIELD_WIDTH" "wrap_field v FIELD_WIDTH < FIELD_WIDTH"
      "0 \<le> wrap_field v FIELD_HEIGHT" "wrap_field v FIELD_HEIGHT < FIELD_HEIGHT" for v
    using wrap_field_bounds [of FIELD_WIDTH v] wrap_field_bounds [of FIELD_HEIGHT v]
    by (simp_all add: sim_constants)
  have six: "length (last_six xs) \<le> 6" "set (last_six xs) \<subseteq> set xs" for xs :: "disc list"
    by (simp_all add: last_six_def set_drop_subset)
  have discs: "list_all (\<lambda>d. di_flown d \<le> di_distance d) (last_six (map (fly dt) ds))" for ds
    using six(2) [of "map (fly dt) ds"] by (auto simp: list_all_iff fly_def)
  show ?thesis
    using ok dt speed turn tilt field six(1) discs
    by (simp add: stepRobot_def drive_def [symmetric] Let_def robot_ok_def del: abs_le_iff)
qed

lemma robot_ok_new: "robot_ok newRobot"
  by (simp add: robot_ok_def newRobot_def sim_constants)

section \<open>Properties\<close>

text \<open>
  Whatever inputs and mapping drive the simulated robot, it stays on its field, within its speed,
  turn and tilt limits, with at most six discs in the air and none beyond its reach; and each fire
  needs a new press of the button.
\<close>

theorem robot_stays_in_range:
  "let run = (\<lambda>(inp, m, dt) r. stepRobot r (commandFromInput inp m) \<bar>dt\<bar>);
       r = fold run inputs newRobot
   in robot_ok r \<and> ro_shots (stepRobot r c dt) \<le> ro_shots r + (if ro_fire_pressed r then 0 else 1)"
proof -
  define run where "run = (\<lambda>(inp, m, dt) r. stepRobot r (commandFromInput inp m) \<bar>dt\<bar>)"
  have "robot_ok (fold run inputs r)" if "robot_ok r" for r
    using that by (induction inputs arbitrary: r) (auto simp: run_def robot_ok_step)
  moreover have "ro_shots (stepRobot r c dt) \<le> ro_shots r + (if ro_fire_pressed r then 0 else 1)" for r
    by (simp add: stepRobot_def Let_def)
  ultimately show ?thesis by (simp add: run_def [symmetric] robot_ok_new Let_def)
qed

end
