(* ===== verification/Mcap.thy ===== *)
theory Mcap
  imports Lab_Prelude "HOL-Library.Word" "HOL-Library.AList"
begin

text \<open>
  The first layer of \<open>lab/js/live/rosbag-core.js\<close>: the records of an MCAP file. The file is a list
  of bytes and a cursor an offset into it; a reader answers a value with the next offset, or the
  error the code throws. Text is kept as its UTF-8 bytes. The maps of schemas and channels keep the
  order of first insertion, as a JavaScript \<open>Map\<close> does.
\<close>

section \<open>Cursor\<close>

type_synonym byte = "8 word"

datatype bag_error = Truncated | NotMcap | Compressed string | NoLessonTopics | NoDefinition string
  | BadMessage | RangeFault | TooDeep | Unshaped

type_synonym 'a reader = "nat \<Rightarrow> bag_error + 'a \<times> nat"

definition rd_return :: "'a \<Rightarrow> 'a reader" where
  "rd_return x = (\<lambda>off. Inr (x, off))"

definition rd_bind :: "'a reader \<Rightarrow> ('a \<Rightarrow> 'b reader) \<Rightarrow> 'b reader" where
  "rd_bind r f = (\<lambda>off. case r off of Inl e \<Rightarrow> Inl e | Inr (x, off') \<Rightarrow> f x off')"

definition rd_bytes :: "byte list \<Rightarrow> nat \<Rightarrow> byte list reader" where
  "rd_bytes view n =
     (\<lambda>off. if off + n > length view then Inl Truncated else Inr (take n (drop off view), off + n))"

fun le_nat :: "byte list \<Rightarrow> nat" where
  "le_nat [] = 0"
| "le_nat (b # bs) = unat b + 256 * le_nat bs"

definition rd_uint :: "byte list \<Rightarrow> nat \<Rightarrow> nat reader" where
  "rd_uint view n = rd_bind (rd_bytes view n) (\<lambda>bs. rd_return (le_nat bs))"

definition text_of :: "byte list \<Rightarrow> string" where
  "text_of bs = map (\<lambda>b. char_of (unat b)) bs"

definition rd_string :: "byte list \<Rightarrow> string reader" where
  "rd_string view =
     rd_bind (rd_uint view 4) (\<lambda>n. rd_bind (rd_bytes view n) (\<lambda>bs. rd_return (text_of bs)))"

definition nsToSeconds :: "nat \<Rightarrow> real" where
  "nsToSeconds ns = real (ns div 1000) / 10 ^ 6"

section \<open>Records\<close>

record schema =
  sc_id :: nat
  sc_name :: string
  sc_encoding :: string
  sc_data :: string

record channel =
  ch_id :: nat
  ch_schema :: nat
  ch_topic :: string
  ch_encoding :: string

record message =
  ms_channel :: nat
  ms_log_time :: nat
  ms_data :: "byte list"

record bag =
  bg_schemas :: "(nat \<times> schema) list"
  bg_channels :: "(nat \<times> channel) list"
  bg_messages :: "message list"

definition MAGIC :: "byte list" where
  "MAGIC = [0x89, 0x4d, 0x43, 0x41, 0x50, 0x30, 0x0d, 0x0a]"

datatype op = OpSchema | OpChannel | OpMessage | OpChunk | OpEnd | OpOther

definition opcode :: "nat \<Rightarrow> op" where
  "opcode n =
     (if n = 0x03 then OpSchema else if n = 0x04 then OpChannel else if n = 0x05 then OpMessage
      else if n = 0x06 then OpChunk else if n = 0x0f \<or> n = 0x02 then OpEnd else OpOther)"

definition readSchema :: "byte list \<Rightarrow> schema reader" where
  "readSchema view =
     rd_bind (rd_uint view 2) (\<lambda>i. rd_bind (rd_string view) (\<lambda>name.
     rd_bind (rd_string view) (\<lambda>enc. rd_bind (rd_string view) (\<lambda>data.
       rd_return \<lparr>sc_id = i, sc_name = name, sc_encoding = enc, sc_data = data\<rparr>))))"

definition readChannel :: "byte list \<Rightarrow> channel reader" where
  "readChannel view =
     rd_bind (rd_uint view 2) (\<lambda>i. rd_bind (rd_uint view 2) (\<lambda>s.
     rd_bind (rd_string view) (\<lambda>topic. rd_bind (rd_string view) (\<lambda>enc.
       rd_return \<lparr>ch_id = i, ch_schema = s, ch_topic = topic, ch_encoding = enc\<rparr>))))"

text \<open>The data are the bytes left up to \<open>stop\<close>; a record too short for its header makes the length
  negative, which the typed array refuses.\<close>

definition readMessage :: "byte list \<Rightarrow> nat \<Rightarrow> message reader" where
  "readMessage view stop =
     rd_bind (rd_uint view 2) (\<lambda>c. rd_bind (rd_uint view 4) (\<lambda>_.
     rd_bind (rd_uint view 8) (\<lambda>t. rd_bind (rd_uint view 8) (\<lambda>_.
       (\<lambda>off. if off > stop then Inl RangeFault
              else rd_bind (rd_bytes view (stop - off))
                     (\<lambda>data. rd_return \<lparr>ms_channel = c, ms_log_time = t, ms_data = data\<rparr>) off)))))"

definition chunk_header :: "byte list \<Rightarrow> nat reader" where
  "chunk_header view =
     rd_bind (rd_uint view 8) (\<lambda>_. rd_bind (rd_uint view 8) (\<lambda>_. rd_bind (rd_uint view 8) (\<lambda>_.
     rd_bind (rd_uint view 4) (\<lambda>_. rd_bind (rd_string view) (\<lambda>compression.
     rd_bind (rd_uint view 8) (\<lambda>n.
       (\<lambda>off. if compression \<noteq> [] then Inl (Compressed compression) else Inr (n, off))))))))"

definition record_header :: "byte list \<Rightarrow> (nat \<times> nat) reader" where
  "record_header view =
     rd_bind (rd_uint view 1) (\<lambda>c. rd_bind (rd_uint view 8) (\<lambda>n. rd_return (c, n)))"

definition add_schema :: "schema \<Rightarrow> bag \<Rightarrow> bag" where
  "add_schema s b = b\<lparr>bg_schemas := AList.update (sc_id s) s (bg_schemas b)\<rparr>"

definition add_channel :: "channel \<Rightarrow> bag \<Rightarrow> bag" where
  "add_channel c b = b\<lparr>bg_channels := AList.update (ch_id c) c (bg_channels b)\<rparr>"

definition add_message :: "message \<Rightarrow> bag \<Rightarrow> bag" where
  "add_message m b = b\<lparr>bg_messages := bg_messages b @ [m]\<rparr>"

definition sink_with :: "'a reader \<Rightarrow> nat \<Rightarrow> ('a \<Rightarrow> bag \<Rightarrow> bag) \<Rightarrow> bag \<Rightarrow> bag_error + bag" where
  "sink_with r start add b = (case r start of Inl e \<Rightarrow> Inl e | Inr (x, _) \<Rightarrow> Inr (add x b))"

section \<open>Walking the records\<close>

lemma rd_bytes_offset: "rd_bytes view n off = Inr (x, off') \<Longrightarrow> off' = off + n \<and> off' \<le> length view"
  by (auto simp: rd_bytes_def split: if_splits)

lemma rd_uint_offset: "rd_uint view n off = Inr (x, off') \<Longrightarrow> off' = off + n \<and> off' \<le> length view"
  by (auto simp: rd_uint_def rd_bind_def rd_return_def split: sum.splits prod.splits
      dest!: rd_bytes_offset)

lemma rd_string_offset: "rd_string view off = Inr (x, off') \<Longrightarrow> off + 4 \<le> off' \<and> off' \<le> length view"
  by (auto simp: rd_string_def rd_bind_def rd_return_def split: sum.splits prod.splits
      dest!: rd_bytes_offset rd_uint_offset)

lemma record_header_offset:
  "record_header view off = Inr (x, off') \<Longrightarrow> off' = off + 9 \<and> off' \<le> length view"
  by (auto simp: record_header_def rd_bind_def rd_return_def split: sum.splits prod.splits
      dest!: rd_uint_offset)

lemma chunk_header_offset:
  "chunk_header view off = Inr (x, off') \<Longrightarrow> off + 40 \<le> off' \<and> off' \<le> length view"
  by (auto simp: chunk_header_def rd_bind_def split: sum.splits prod.splits if_splits
      dest!: rd_uint_offset rd_string_offset)

function walkRecords :: "byte list \<Rightarrow> nat \<Rightarrow> nat \<Rightarrow> bag \<Rightarrow> bag_error + bag" where
  "walkRecords view off to b =
     (if off \<ge> to then Inr b
      else case record_header view off of
             Inl e \<Rightarrow> Inl e
           | Inr ((c, n), start) \<Rightarrow>
               if start + n > to then Inl Truncated
               else if opcode c = OpEnd then Inr b
               else case (case opcode c of
                            OpSchema \<Rightarrow> sink_with (readSchema view) start add_schema b
                          | OpChannel \<Rightarrow> sink_with (readChannel view) start add_channel b
                          | OpMessage \<Rightarrow> sink_with (readMessage view (start + n)) start add_message b
                          | OpChunk \<Rightarrow>
                              (case chunk_header view start of
                                 Inl e \<Rightarrow> Inl e
                               | Inr (len, inner) \<Rightarrow> walkRecords view inner (inner + len) b)
                          | _ \<Rightarrow> Inr b) of
                      Inl e \<Rightarrow> Inl e
                    | Inr b' \<Rightarrow> walkRecords view (start + n) to b')"
  by pat_completeness auto
termination
  by (relation "measure (\<lambda>(view, off, to, b). length view - off)")
     (auto dest!: record_header_offset chunk_header_offset)

declare walkRecords.simps [simp del]

definition empty_bag :: bag where
  "empty_bag = \<lparr>bg_schemas = [], bg_channels = [], bg_messages = []\<rparr>"

definition readMcap :: "byte list \<Rightarrow> bag_error + bag" where
  "readMcap view =
     (if take (length MAGIC) view \<noteq> MAGIC then Inl NotMcap
      else walkRecords view (length MAGIC) (length view) empty_bag)"

section \<open>The format, as a writer lays it out\<close>

text \<open>What rosbag2 writes, stated from the format: each record is its opcode, the length of its body and
  the body; a chunk's body holds records. Reading it back gives exactly what was written.\<close>

fun le_bytes :: "nat \<Rightarrow> nat \<Rightarrow> byte list" where
  "le_bytes 0 k = []"
| "le_bytes (Suc n) k = of_nat (k mod 256) # le_bytes n (k div 256)"

definition bytes_of :: "string \<Rightarrow> byte list" where
  "bytes_of s = map (\<lambda>c. of_nat (of_char c)) s"

definition put_string :: "string \<Rightarrow> byte list" where
  "put_string s = le_bytes 4 (length s) @ bytes_of s"

datatype entry =
    SchemaE schema
  | ChannelE channel "byte list"
  | MessageE message nat nat
  | ChunkE nat nat nat "entry list"
  | OtherE nat "byte list"

definition framed :: "nat \<Rightarrow> byte list \<Rightarrow> byte list" where
  "framed code body = le_bytes 1 code @ le_bytes 8 (length body) @ body"

definition put_schema :: "schema \<Rightarrow> byte list" where
  "put_schema s = le_bytes 2 (sc_id s) @ put_string (sc_name s) @ put_string (sc_encoding s)
     @ put_string (sc_data s)"

definition put_channel :: "channel \<Rightarrow> byte list" where
  "put_channel c = le_bytes 2 (ch_id c) @ le_bytes 2 (ch_schema c) @ put_string (ch_topic c)
     @ put_string (ch_encoding c)"

definition put_message :: "message \<Rightarrow> nat \<Rightarrow> nat \<Rightarrow> byte list" where
  "put_message m seqno pub = le_bytes 2 (ms_channel m) @ le_bytes 4 seqno @ le_bytes 8 (ms_log_time m)
     @ le_bytes 8 pub @ ms_data m"

definition put_chunk_header :: "nat \<Rightarrow> nat \<Rightarrow> nat \<Rightarrow> nat \<Rightarrow> byte list" where
  "put_chunk_header t0 t1 crc n = le_bytes 8 t0 @ le_bytes 8 t1 @ le_bytes 8 n @ le_bytes 4 crc
     @ put_string [] @ le_bytes 8 n"

fun put_entry :: "entry \<Rightarrow> byte list" and put_entries :: "entry list \<Rightarrow> byte list" where
  "put_entry (SchemaE s) = framed 0x03 (put_schema s)"
| "put_entry (ChannelE c metadata) = framed 0x04 (put_channel c @ metadata)"
| "put_entry (MessageE m seqno pub) = framed 0x05 (put_message m seqno pub)"
| "put_entry (ChunkE t0 t1 crc es) =
     framed 0x06 (put_chunk_header t0 t1 crc (length (put_entries es)) @ put_entries es)"
| "put_entry (OtherE code body) = framed code body"
| "put_entries [] = []"
| "put_entries (e # es) = put_entry e @ put_entries es"

definition small_text :: "string \<Rightarrow> bool" where
  "small_text s \<longleftrightarrow> length s < 256 ^ 4"

text \<open>What fits the format's fixed-width fields.\<close>

fun fits :: "entry \<Rightarrow> bool" and all_fit :: "entry list \<Rightarrow> bool" where
  "fits (SchemaE s) \<longleftrightarrow> sc_id s < 256 ^ 2 \<and> small_text (sc_name s) \<and> small_text (sc_encoding s)
     \<and> small_text (sc_data s) \<and> length (put_schema s) < 256 ^ 8"
| "fits (ChannelE c metadata) \<longleftrightarrow> ch_id c < 256 ^ 2 \<and> ch_schema c < 256 ^ 2 \<and> small_text (ch_topic c)
     \<and> small_text (ch_encoding c) \<and> length (put_channel c @ metadata) < 256 ^ 8"
| "fits (MessageE m seqno pub) \<longleftrightarrow> ms_channel m < 256 ^ 2 \<and> seqno < 256 ^ 4 \<and> ms_log_time m < 256 ^ 8
     \<and> pub < 256 ^ 8 \<and> length (put_message m seqno pub) < 256 ^ 8"
| "fits (ChunkE t0 t1 crc es) \<longleftrightarrow> t0 < 256 ^ 8 \<and> t1 < 256 ^ 8 \<and> crc < 256 ^ 4
     \<and> length (put_entries es) + 40 < 256 ^ 8 \<and> all_fit es"
| "fits (OtherE code body) \<longleftrightarrow> code < 256 \<and> opcode code = OpOther \<and> length body < 256 ^ 8"
| "all_fit [] \<longleftrightarrow> True"
| "all_fit (e # es) \<longleftrightarrow> fits e \<and> all_fit es"

fun take_in :: "entry \<Rightarrow> bag \<Rightarrow> bag" and take_all :: "entry list \<Rightarrow> bag \<Rightarrow> bag" where
  "take_in (SchemaE s) b = add_schema s b"
| "take_in (ChannelE c _) b = add_channel c b"
| "take_in (MessageE m _ _) b = add_message m b"
| "take_in (ChunkE _ _ _ es) b = take_all es b"
| "take_in (OtherE _ _) b = b"
| "take_all [] b = b"
| "take_all (e # es) b = take_all es (take_in e b)"

section \<open>Reading back\<close>

definition holds_at :: "byte list \<Rightarrow> nat \<Rightarrow> byte list \<Rightarrow> bool" where
  "holds_at view off bs \<longleftrightarrow> off + length bs \<le> length view \<and> take (length bs) (drop off view) = bs"

lemma holds_at_append [simp]:
  "holds_at view off (a @ b) \<longleftrightarrow> holds_at view off a \<and> holds_at view (off + length a) b"
  unfolding holds_at_def
  by (auto simp: take_add add.commute add.left_commute append_eq_append_conv)

lemma holds_at_middle: "length a = off \<Longrightarrow> holds_at (a @ b @ c) off b"
  by (auto simp: holds_at_def)

lemma length_le_bytes [simp]: "length (le_bytes n k) = n"
  by (induction n arbitrary: k) auto

lemma length_put_string [simp]: "length (put_string s) = 4 + length s"
  by (simp add: put_string_def bytes_of_def)

lemma le_nat_le_bytes: "k < 256 ^ n \<Longrightarrow> le_nat (le_bytes n k) = k"
proof (induction n arbitrary: k)
  case (Suc n)
  have "k div 256 < 256 ^ n"
    using Suc.prems by (simp add: div_less_iff_less_mult mult.commute)
  then show ?case
    using Suc.IH [of "k div 256"] by (simp add: unat_of_nat take_bit_eq_mod)
qed simp

lemma text_of_bytes_of [simp]: "text_of (bytes_of s) = s"
proof -
  have "char_of (unat (of_nat (of_char c) :: byte)) = c" for c :: char
    by (simp add: unat_of_nat take_bit_eq_mod)
  then show ?thesis
    by (simp add: text_of_def bytes_of_def o_def)
qed

lemma rd_bytes_at: "holds_at view off bs \<Longrightarrow> length bs = n \<Longrightarrow> rd_bytes view n off = Inr (bs, off + n)"
  by (auto simp: rd_bytes_def holds_at_def)

lemma rd_uint_at:
  "holds_at view off (le_bytes n k) \<Longrightarrow> k < 256 ^ n \<Longrightarrow> rd_uint view n off = Inr (k, off + n)"
  by (simp add: rd_uint_def rd_bind_def rd_return_def rd_bytes_at le_nat_le_bytes)

lemma rd_string_at:
  assumes "holds_at view off (put_string s)" "small_text s"
  shows "rd_string view off = Inr (s, off + 4 + length s)"
proof -
  have "rd_uint view 4 off = Inr (length s, off + 4)"
    using assms by (intro rd_uint_at) (auto simp: put_string_def small_text_def)
  moreover have "rd_bytes view (length s) (off + 4) = Inr (bytes_of s, off + 4 + length s)"
    using assms by (intro rd_bytes_at) (auto simp: put_string_def bytes_of_def)
  ultimately show ?thesis
    by (simp add: rd_string_def rd_bind_def rd_return_def)
qed

declare add_2_eq_Suc [simp del] add_2_eq_Suc' [simp del] One_nat_def [simp del] le_bytes.simps [simp del]

lemma record_eta [simp]:
  "\<lparr>sc_id = sc_id s, sc_name = sc_name s, sc_encoding = sc_encoding s, sc_data = sc_data s\<rparr> = s"
  "\<lparr>ch_id = ch_id c, ch_schema = ch_schema c, ch_topic = ch_topic c, ch_encoding = ch_encoding c\<rparr> = c"
  "\<lparr>ms_channel = ms_channel m, ms_log_time = ms_log_time m, ms_data = ms_data m\<rparr> = m"
  by simp_all

lemmas read_simps = rd_bind_def rd_return_def ac_simps

lemma record_header_at:
  "holds_at view off (framed code body) \<Longrightarrow> code < 256 \<Longrightarrow> length body < 256 ^ 8
    \<Longrightarrow> record_header view off = Inr ((code, length body), off + 9)
      \<and> holds_at view (off + 9) body"
  using rd_uint_at [of view off 1 code] rd_uint_at [of view "off + 1" 8 "length body"]
  by (simp add: framed_def record_header_def read_simps)

lemma readSchema_at:
  "holds_at view off (put_schema s) \<Longrightarrow> fits (SchemaE s) \<Longrightarrow> sink_with (readSchema view) off f b = Inr (f s b)"
  using rd_uint_at [of view off 2 "sc_id s"] rd_string_at [of view "off + 2" "sc_name s"]
    rd_string_at [of view "off + 6 + length (sc_name s)" "sc_encoding s"]
    rd_string_at [of view "off + 10 + length (sc_name s) + length (sc_encoding s)" "sc_data s"]
  by (simp add: put_schema_def readSchema_def read_simps sink_with_def)

lemma readChannel_at:
  "holds_at view off (put_channel c) \<Longrightarrow> fits (ChannelE c m) \<Longrightarrow> sink_with (readChannel view) off f b = Inr (f c b)"
  using rd_uint_at [of view off 2 "ch_id c"] rd_uint_at [of view "off + 2" 2 "ch_schema c"]
    rd_string_at [of view "off + 4" "ch_topic c"]
    rd_string_at [of view "off + 8 + length (ch_topic c)" "ch_encoding c"]
  by (simp add: put_channel_def readChannel_def read_simps sink_with_def)

lemma readMessage_at:
  "holds_at view off (put_message m q p) \<Longrightarrow> fits (MessageE m q p)
    \<Longrightarrow> sink_with (readMessage view (off + length (put_message m q p))) off f b = Inr (f m b)"
  using rd_uint_at [of view off 2 "ms_channel m"] rd_uint_at [of view "off + 2" 4 q]
    rd_uint_at [of view "off + 6" 8 "ms_log_time m"] rd_uint_at [of view "off + 14" 8 p]
    rd_bytes_at [of view "off + 22" "ms_data m" "length (ms_data m)"]
  by (simp add: put_message_def readMessage_def read_simps sink_with_def)

lemma chunk_header_at:
  "holds_at view off (put_chunk_header t0 t1 crc n) \<Longrightarrow> t0 < 256 ^ 8 \<Longrightarrow> t1 < 256 ^ 8 \<Longrightarrow> crc < 256 ^ 4
    \<Longrightarrow> n < 256 ^ 8 \<Longrightarrow> chunk_header view off = Inr (n, off + 40)"
  using rd_uint_at [of view off 8 t0] rd_uint_at [of view "off + 8" 8 t1]
    rd_uint_at [of view "off + 16" 8 n] rd_uint_at [of view "off + 24" 4 crc]
    rd_string_at [of view "off + 28" "[]"] rd_uint_at [of view "off + 32" 8 n]
  by (simp add: put_chunk_header_def chunk_header_def read_simps small_text_def)

section \<open>The round trip\<close>

text \<open>One step of the walk over a whole record.\<close>

lemma walk_frame:
  assumes at: "holds_at view off (framed code body)"
    and fit: "code < 256" "length body < 256 ^ 8" "off + 9 + length body \<le> to"
    and open_rec: "opcode code \<noteq> OpEnd"
  shows "walkRecords view off to b =
    (case (case opcode code of
             OpSchema \<Rightarrow> sink_with (readSchema view) (off + 9) add_schema b
           | OpChannel \<Rightarrow> sink_with (readChannel view) (off + 9) add_channel b
           | OpMessage \<Rightarrow> sink_with (readMessage view (off + 9 + length body)) (off + 9) add_message b
           | OpChunk \<Rightarrow>
               (case chunk_header view (off + 9) of
                  Inl e \<Rightarrow> Inl e
                | Inr (len, inner) \<Rightarrow> walkRecords view inner (inner + len) b)
           | _ \<Rightarrow> Inr b) of
       Inl e \<Rightarrow> Inl e
     | Inr b' \<Rightarrow> walkRecords view (off + 9 + length body) to b')"
  using record_header_at [OF at fit(1,2)] fit(3) open_rec
  by (subst walkRecords.simps) simp

lemma length_framed [simp]: "length (framed code body) = 9 + length body"
  by (simp add: framed_def)

lemma length_put_chunk_header [simp]: "length (put_chunk_header t0 t1 crc n) = 40"
  by (simp add: put_chunk_header_def)

lemma opcodes [simp]:
  "opcode 3 = OpSchema" "opcode 4 = OpChannel" "opcode 5 = OpMessage" "opcode 6 = OpChunk"
  by (simp_all add: opcode_def)

lemma walk_done: "to \<le> off \<Longrightarrow> walkRecords view off to b = Inr b"
  by (simp add: walkRecords.simps)

lemma walk_entries:
  "holds_at view off (put_entry e) \<Longrightarrow> fits e \<Longrightarrow> off + length (put_entry e) \<le> to
    \<Longrightarrow> walkRecords view off to b = walkRecords view (off + length (put_entry e)) to (take_in e b)"
  "holds_at view off (put_entries es) \<Longrightarrow> all_fit es \<Longrightarrow> off + length (put_entries es) \<le> to
    \<Longrightarrow> walkRecords view off to b = walkRecords view (off + length (put_entries es)) to (take_all es b)"
proof (induction e and es arbitrary: off to b and off to b rule: put_entry_put_entries.induct)
  case (1 s)
  have at: "holds_at view (off + 9) (put_schema s)"
    using 1 record_header_at [of view off 3 "put_schema s"] by simp
  show ?case
    using 1 walk_frame [of view off 3 "put_schema s" to b] readSchema_at [OF at]
    by (simp add: add.assoc)
next
  case (2 c m)
  have at: "holds_at view (off + 9) (put_channel c)"
    using 2 record_header_at [of view off 4 "put_channel c @ m"] by simp
  show ?case
    using 2 walk_frame [of view off 4 "put_channel c @ m" to b] readChannel_at [OF at, where m = m]
    by (simp add: add.assoc)
next
  case (3 m q p)
  have at: "holds_at view (off + 9) (put_message m q p)"
    using 3 record_header_at [of view off 5 "put_message m q p"] by simp
  show ?case
    using 3 walk_frame [of view off 5 "put_message m q p" to b] readMessage_at [OF at]
    by (simp add: add.assoc)
next
  case (4 t0 t1 crc es)
  let ?body = "put_chunk_header t0 t1 crc (length (put_entries es)) @ put_entries es"
  have at: "holds_at view (off + 9) ?body"
    using 4 record_header_at [of view off 6 ?body] by simp
  have "chunk_header view (off + 9) = Inr (length (put_entries es), off + 9 + 40)"
    using 4 at by (intro chunk_header_at) auto
  moreover have "walkRecords view (off + 9 + 40) (off + 9 + 40 + length (put_entries es)) b
      = walkRecords view (off + 9 + 40 + length (put_entries es))
          (off + 9 + 40 + length (put_entries es)) (take_all es b)"
    using 4 at by (intro "4.IH") auto
  ultimately show ?case
    using 4 walk_frame [of view off 6 ?body to b] by (simp add: ac_simps walk_done)
next
  case (5 code body)
  then show ?case
    using walk_frame [of view off code body to b] by (simp add: add.assoc)
next
  case 6
  then show ?case
    by simp
next
  case (7 e es)
  have "walkRecords view off to b = walkRecords view (off + length (put_entry e)) to (take_in e b)"
    using 7 by (intro "7.IH"(1)) auto
  also have "\<dots> = walkRecords view (off + length (put_entry e) + length (put_entries es)) to
      (take_all es (take_in e b))"
    using 7 by (intro "7.IH"(2)) auto
  finally show ?case
    by (simp add: add.assoc)
qed

text \<open>
  A whole file: the magic bytes, the records, the end of the data with its 4-byte checksum, and after it whatever a
  writer puts there: the summary with its indexes, then the footer and the magic bytes again.
\<close>

definition file_of :: "entry list \<Rightarrow> nat \<Rightarrow> byte list \<Rightarrow> byte list" where
  "file_of es crc rest = MAGIC @ put_entries es @ framed 0x0f (le_bytes 4 crc) @ rest"

definition put_footer :: "nat \<Rightarrow> nat \<Rightarrow> nat \<Rightarrow> byte list" where
  "put_footer summary_start summary_offset_start summary_crc =
     framed 0x02 (le_bytes 8 summary_start @ le_bytes 8 summary_offset_start @ le_bytes 4 summary_crc) @ MAGIC"

text \<open>
  C31: What a recorder writes is what the lesson reads: for a file laid out as MCAP says (the header, schemas, channels,
  messages, uncompressed chunks and indexes in any order, then the end of the data with its checksum), the reader
  answers exactly those schemas, channels and messages in file order, whatever the checksum and whatever
  summary and footer follow.
\<close>

theorem mcap_roundtrip:
  assumes "all_fit es"
  shows "readMcap (file_of es crc rest) = Inr (take_all es empty_bag)"
proof -
  let ?view = "file_of es crc rest"
  let ?n = "length MAGIC + length (put_entries es)"
  have at: "holds_at ?view (length MAGIC) (put_entries es)" "holds_at ?view ?n (framed 0x0f (le_bytes 4 crc))"
    unfolding file_of_def
    using holds_at_middle [of "MAGIC @ put_entries es" ?n "framed 0x0f (le_bytes 4 crc)" rest]
    by (auto intro: holds_at_middle)
  have len: "length ?view = ?n + 13 + length rest"
    by (simp add: file_of_def)
  have "walkRecords ?view (length MAGIC) (length ?view) empty_bag
      = walkRecords ?view ?n (length ?view) (take_all es empty_bag)"
    using at assms by (intro walk_entries) (auto simp: len)
  also have "\<dots> = Inr (take_all es empty_bag)"
    using record_header_at [OF at(2)] len
    by (subst walkRecords.simps) (simp add: opcode_def)
  finally show ?thesis
    by (simp add: readMcap_def file_of_def)
qed

text \<open>The header, a chunk with a schema, a channel and a message, then its index; an empty summary, and the footer.\<close>

theorem mcap_roundtrip_witness:
  "readMcap (file_of
      [OtherE 0x01 (put_string ''ros2'' @ put_string ''libmcap''),
       ChunkE 1 2 0
         [SchemaE \<lparr>sc_id = 1, sc_name = ''p/T'', sc_encoding = ''ros2msg'', sc_data = ''int8 x''\<rparr>,
          ChannelE \<lparr>ch_id = 7, ch_schema = 1, ch_topic = ''/t'', ch_encoding = ''cdr''\<rparr> [0, 0, 0, 0],
          MessageE \<lparr>ms_channel = 7, ms_log_time = 1000, ms_data = [0, 1, 0, 0, 42]\<rparr> 0 1000],
       OtherE 0x07 (le_bytes 2 7 @ le_bytes 4 16 @ le_bytes 8 1000 @ le_bytes 8 60)] 0 (put_footer 0 0 0)) =
   Inr \<lparr>bg_schemas = [(1, \<lparr>sc_id = 1, sc_name = ''p/T'', sc_encoding = ''ros2msg'', sc_data = ''int8 x''\<rparr>)],
        bg_channels = [(7, \<lparr>ch_id = 7, ch_schema = 1, ch_topic = ''/t'', ch_encoding = ''cdr''\<rparr>)],
        bg_messages = [\<lparr>ms_channel = 7, ms_log_time = 1000, ms_data = [0, 1, 0, 0, 42]\<rparr>]\<rparr>"
  by (subst mcap_roundtrip)
     (simp_all add: small_text_def opcode_def put_schema_def put_channel_def put_message_def framed_def
       add_schema_def add_channel_def add_message_def empty_bag_def)

end
