(* ===== verification/Live_Data.thy ===== *)
theory Live_Data
  imports Js_Math
begin

text \<open>
  The telemetry messages of the live link as the recording modules of \<open>lab/js/live/\<close> read them:
  \<open>/drive_status\<close>, \<open>/target_twist\<close>, \<open>/scan\<close>, \<open>/odom\<close> and \<open>/emergency_stop\<close>. A quantity the code tests
  with \<open>Number.isFinite\<close> before it uses it is a \<open>num\<close>. A wheel says whether its message carries its
  own values at all (\<open>'feedback_stamp' in drive.left\<close>), as older bridges do not send them.
\<close>

record wheel_msg =
  wm_rpm :: num
  wm_rpm_raw :: num
  wm_target_rpm :: num
  wm_current_amp :: num
  wm_fault_code :: num
  wm_has_feedback :: bool
  wm_feedback_stamp :: num
  wm_feedback_age :: num
  wm_feedback_valid :: bool

record drive_msg =
  dm_stamp :: seconds
  dm_bridge_stamp :: num
  dm_left :: "wheel_msg option"
  dm_right :: "wheel_msg option"
  dm_v :: num
  dm_w :: num
  dm_emergency_stop :: bool

record twist_msg =
  tw_stamp :: seconds
  tw_linear :: num
  tw_angular :: num

record mount =
  mt_x :: num
  mt_y :: num
  mt_yaw :: num

record scan_msg =
  sm_stamp :: seconds
  sm_frame :: string
  sm_angle_min :: num
  sm_angle_increment :: num
  sm_range_min :: num
  sm_range_max :: num
  sm_ranges :: "num list"
  sm_mount :: "mount option"

record odom_msg =
  om_stamp :: seconds
  om_x :: num
  om_y :: num
  om_theta :: num
  om_v :: num
  om_w :: num

record estop_msg =
  em_stamp :: seconds
  em_bridge_stamp :: num
  em_active :: bool
  em_source :: string
  em_reason :: string

text \<open>Arithmetic that is NaN when an operand is not finite, and a comparison that is then false.\<close>

definition num_map :: "(real \<Rightarrow> real) \<Rightarrow> num \<Rightarrow> num" where
  "num_map f a = map_option f a"

definition num_lift :: "(real \<Rightarrow> real \<Rightarrow> real) \<Rightarrow> num \<Rightarrow> num \<Rightarrow> num" where
  "num_lift f a b = (case a of None \<Rightarrow> None | Some x \<Rightarrow> map_option (f x) b)"

definition num_holds :: "(real \<Rightarrow> bool) \<Rightarrow> num \<Rightarrow> bool" where
  "num_holds p a = (case a of None \<Rightarrow> False | Some x \<Rightarrow> p x)"

lemma num_simps [simp]:
  "num_map f None = None" "num_map f (Some x) = Some (f x)"
  "num_lift g None b = None" "num_lift g a None = None" "num_lift g (Some x) (Some y) = Some (g x y)"
  "num_holds p None = False" "num_holds p (Some x) = p x"
  by (simp_all add: num_map_def num_lift_def num_holds_def split: option.splits)

end
