(* ===== verification/Js_Text.thy ===== *)
theory Js_Text
  imports Lab_Prelude
begin

text \<open>
  Text as the modules handle it: the classes of characters their regular expressions use, \<open>trim\<close>,
  \<open>split\<close>, the decimal texts \<open>toFixed\<close> and \<open>String(number)\<close>. Text is a list of characters; what is not
  ASCII is its UTF-8 bytes, so a cut at a number of characters is exact for ASCII text.
\<close>

section \<open>Characters and words\<close>

definition is_space :: "char \<Rightarrow> bool" where
  "is_space c \<longleftrightarrow> c \<in> {CHR '' '', CHR 0x09, CHR 0x0A, CHR 0x0B, CHR 0x0C, CHR 0x0D}"

definition is_digit :: "char \<Rightarrow> bool" where
  "is_digit c \<longleftrightarrow> 48 \<le> (of_char c :: nat) \<and> (of_char c :: nat) \<le> 57"

definition is_letter :: "char \<Rightarrow> bool" where
  "is_letter c \<longleftrightarrow> (65 \<le> (of_char c :: nat) \<and> (of_char c :: nat) \<le> 90)
     \<or> (97 \<le> (of_char c :: nat) \<and> (of_char c :: nat) \<le> 122) \<or> c = CHR ''_''"

definition line_end :: "char \<Rightarrow> bool" where
  "line_end c \<longleftrightarrow> c = CHR 0x0A \<or> c = CHR 0x0D"

definition trim :: "string \<Rightarrow> string" where
  "trim s = rev (dropWhile is_space (rev (dropWhile is_space s)))"

fun split_on :: "char \<Rightarrow> string \<Rightarrow> string list" where
  "split_on sep [] = [[]]"
| "split_on sep (c # cs) =
     (if c = sep then [] # split_on sep cs
      else case split_on sep cs of [] \<Rightarrow> [[c]] | part # rest \<Rightarrow> (c # part) # rest)"

definition starts_with :: "string \<Rightarrow> string \<Rightarrow> bool" where
  "starts_with prefix s \<longleftrightarrow> take (length prefix) s = prefix"

fun to_nat :: "string \<Rightarrow> nat \<Rightarrow> nat" where
  "to_nat [] n = n"
| "to_nat (c # cs) n = to_nat cs (10 * n + (of_char c - 48))"

section \<open>Numbers as text\<close>

definition digit_char :: "nat \<Rightarrow> char" where
  "digit_char d = char_of (48 + d)"

fun nat_digits :: "nat \<Rightarrow> string" where
  "nat_digits n = (if n < 10 then [digit_char n] else nat_digits (n div 10) @ [digit_char (n mod 10)])"

declare nat_digits.simps [simp del]

definition pad_left :: "nat \<Rightarrow> char \<Rightarrow> string \<Rightarrow> string" where
  "pad_left n c s = replicate (n - length s) c @ s"

text \<open>\<open>value.toFixed(digits)\<close>; a negative value that rounds to zero keeps its sign.\<close>

definition fixed_text :: "nat \<Rightarrow> real \<Rightarrow> string" where
  "fixed_text digits x =
     (let n = nat \<lfloor>\<bar>x\<bar> * 10 ^ digits + 1 / 2\<rfloor>;
          whole = nat_digits (n div 10 ^ digits);
          frac = pad_left digits (CHR ''0'') (nat_digits (n mod 10 ^ digits)) in
      (if x < 0 then ''-'' else []) @ whole @ (if digits = 0 then [] else ''.'' @ frac))"

text \<open>\<open>String(value)\<close>: the shortest decimal that is the number; a number that no decimal of 20 places
  gives is cut there. (The code writes an exponent below 1e-6 and from 1e21 on.)\<close>

definition show_num :: "real \<Rightarrow> string" where
  "show_num x =
     (let exact = (\<lambda>d. of_int \<lfloor>\<bar>x\<bar> * 10 ^ d\<rfloor> = \<bar>x\<bar> * 10 ^ d) in
      if x = 0 then ''0''
      else case find exact [0..<20] of Some d \<Rightarrow> fixed_text d x | None \<Rightarrow> fixed_text 20 x)"

text \<open>\<open>parts.join(sep)\<close>.\<close>

fun join :: "string \<Rightarrow> string list \<Rightarrow> string" where
  "join sep [] = []"
| "join sep [p] = p"
| "join sep (p # q # ps) = p @ sep @ join sep (q # ps)"

end
