(* ===== verification/Rosbag.thy ===== *)
theory Rosbag
  imports Mcap Live_Data Js_Text "HOL-Library.Monad_Syntax"
begin

text \<open>
  The rest of \<open>lab/js/live/rosbag-core.js\<close>: the ros2msg definitions of a bag parsed into field lists,
  CDR decoding against them, the conversion to the messages of the live link, the choice of the
  channels a lesson uses, and \<open>readRosbag\<close>. Text is ASCII; the type names of ROS never collide with
  properties every JavaScript object inherits, so \<open>name in PRIMITIVES\<close> is membership.
\<close>

section \<open>ros2msg definitions\<close>

definition PRIMITIVES :: "(string \<times> nat) list" where
  "PRIMITIVES = [(''bool'', 1), (''byte'', 1), (''char'', 1), (''int8'', 1), (''uint8'', 1), (''int16'', 2),
     (''uint16'', 2), (''int32'', 4), (''uint32'', 4), (''int64'', 8), (''uint64'', 8), (''float32'', 4),
     (''float64'', 8)]"

datatype field_length = Single | Fixed nat | Sequence

record field =
  fd_name :: string
  fd_type :: string
  fd_length :: field_length

type_synonym types = "(string \<times> field list) list"

record msg_definition =
  md_top :: string
  md_types :: types

definition qualify :: "string \<Rightarrow> string \<Rightarrow> string" where
  "qualify name pkg =
     (if name = ''Header'' then ''std_msgs/Header''
      else let parts = split_on (CHR ''/'') name in
        if length parts = 1 then pkg @ ''/'' @ name
        else hd parts @ ''/'' @ last parts)"

text \<open>\<open>^(\S+)\s+([A-Za-z_]\w*)\s*(=)?\<close>: the type, the name and whether a \<open>=\<close> follows.\<close>

definition match_field :: "string \<Rightarrow> (string \<times> string \<times> bool) option" where
  "match_field line =
     (let ty = takeWhile (\<lambda>c. \<not> is_space c) line;
          rest = drop (length ty) line;
          word = dropWhile is_space rest;
          name = takeWhile (\<lambda>c. is_letter c \<or> is_digit c) word;
          after = dropWhile is_space (drop (length name) word) in
      if ty = [] \<or> rest = [] \<or> name = [] \<or> is_digit (hd name) then None
      else Some (ty, name, after \<noteq> [] \<and> hd after = CHR ''=''))"

text \<open>\<open>^(.+?)\[(<=)?(\d*)\]$\<close>: the base, whether the bound is a maximum, and its digits.\<close>

definition match_array :: "string \<Rightarrow> (string \<times> bool \<times> string) option" where
  "match_array ty =
     (if ty = [] \<or> last ty \<noteq> CHR '']'' then None
      else let inner = rev (takeWhile (\<lambda>c. c \<noteq> CHR ''['') (rev (butlast ty)));
               base = take (length ty - 2 - length inner) ty;
               bounded = starts_with ''<='' inner;
               ds = (if bounded then drop 2 inner else inner) in
        if base = [] \<or> length inner + 2 > length ty \<or> \<not> list_all is_digit ds then None
        else Some (base, bounded, ds))"

text \<open>\<open>.replace(/<=\d+$/, '')\<close>.\<close>

definition strip_bound :: "string \<Rightarrow> string" where
  "strip_bound ty =
     (let ds = takeWhile is_digit (rev ty); rest = drop (length ds) (rev ty) in
      if ds \<noteq> [] \<and> starts_with ''=<'' rest then rev (drop 2 rest) else ty)"

definition parseField :: "string \<Rightarrow> string \<Rightarrow> field option" where
  "parseField line pkg =
     (case match_field line of
        None \<Rightarrow> None
      | Some (ty, name, constant) \<Rightarrow>
          if constant then None
          else
            let array = match_array ty;
                base = strip_bound (case array of None \<Rightarrow> ty | Some (b, _, _) \<Rightarrow> b) in
            Some \<lparr>fd_name = name,
              fd_type = (if base \<in> fst ` set PRIMITIVES \<or> base = ''string'' \<or> base = ''wstring''
                         then base else qualify base pkg),
              fd_length = (case array of None \<Rightarrow> Single
                | Some (_, bounded, ds) \<Rightarrow> if ds \<noteq> [] \<and> \<not> bounded then Fixed (to_nat ds 0) else Sequence)\<rparr>)"

text \<open>\<open>.replace(/#.*/, '')\<close> stops at the end of the line.\<close>

definition strip_comment :: "string \<Rightarrow> string" where
  "strip_comment line =
     takeWhile (\<lambda>c. c \<noteq> CHR ''#'') line
     @ dropWhile (\<lambda>c. \<not> line_end c) (dropWhile (\<lambda>c. c \<noteq> CHR ''#'') line)"

definition parseSection :: "string \<Rightarrow> string \<Rightarrow> field list" where
  "parseSection body pkg =
     List.map_filter
       (\<lambda>raw. let line = trim (strip_comment raw) in if line = [] then None else parseField line pkg)
       (split_on (CHR 0x0A) body)"

text \<open>\<open>text.split(/^=+\s*$/m)\<close>. White space after the separator may stay in front of the next section:
  both readers of a section skip it.\<close>

function sections :: "bool \<Rightarrow> string \<Rightarrow> string \<Rightarrow> string list" where
  "sections start acc s =
     (if s = [] then [rev acc]
      else
        let rest = dropWhile (\<lambda>c. c = CHR ''='') s;
            tail = dropWhile (\<lambda>c. is_space c \<and> \<not> line_end c) rest in
        if start \<and> hd s = CHR ''='' \<and> (tail = [] \<or> line_end (hd tail))
        then rev acc # sections False [] tail
        else sections (line_end (hd s)) (hd s # acc) (tl s))"
  by pat_completeness auto

lemma separator_shortens:
  assumes "s \<noteq> []" "hd s = CHR ''=''"
  shows "length (dropWhile p (dropWhile (\<lambda>c. c = CHR ''='') s)) < length s"
proof (cases s)
  case (Cons c cs)
  have "length (dropWhile p (dropWhile (\<lambda>c. c = CHR ''='') cs)) \<le> length cs"
    by (meson le_trans length_dropWhile_le)
  with assms Cons show ?thesis
    by simp
qed (use assms in simp)

termination sections
  by (relation "measure (\<lambda>(start, acc, s). length s)") (auto simp: separator_shortens)

declare sections.simps [simp del]

text \<open>\<open>^\s*MSG:\s*(\S+)\<close>: the type's name and the text after it.\<close>

definition match_header :: "string \<Rightarrow> (string \<times> string) option" where
  "match_header section =
     (let body = dropWhile is_space section;
          after = dropWhile is_space (drop 4 body);
          name = takeWhile (\<lambda>c. \<not> is_space c) after in
      if starts_with ''MSG:'' body \<and> name \<noteq> [] then Some (name, drop (length name) after) else None)"

definition package :: "string \<Rightarrow> string" where
  "package ty = hd (split_on (CHR ''/'') ty)"

definition add_section :: "types \<Rightarrow> string \<Rightarrow> types" where
  "add_section ts section =
     (case match_header section of
        None \<Rightarrow> ts
      | Some (name, body) \<Rightarrow>
          let ty = qualify name [] in AList.update ty (parseSection body (package ty)) ts)"

definition parseRos2msg :: "string \<Rightarrow> string \<Rightarrow> msg_definition" where
  "parseRos2msg name source =
     (let parts = sections True [] source; top = qualify name [] in
      \<lparr>md_top = top,
       md_types = foldl add_section [(top, parseSection (hd parts) (package top))] (tl parts)\<rparr>)"

section \<open>Numbers as JavaScript has them\<close>

datatype jsnum = Fin real | PosInf | NegInf | NotNum

definition finite_of :: "jsnum \<Rightarrow> num" where
  "finite_of v = (case v of Fin x \<Rightarrow> Some x | _ \<Rightarrow> None)"

fun js_le :: "jsnum \<Rightarrow> jsnum \<Rightarrow> bool" where
  "js_le (Fin x) (Fin y) = (x \<le> y)"
| "js_le NotNum v = False"
| "js_le v NotNum = False"
| "js_le NegInf v = True"
| "js_le v PosInf = True"
| "js_le _ _ = False"

fun js_neg :: "jsnum \<Rightarrow> jsnum" where
  "js_neg (Fin x) = Fin (- x)"
| "js_neg PosInf = NegInf"
| "js_neg NegInf = PosInf"
| "js_neg NotNum = NotNum"

fun js_add :: "jsnum \<Rightarrow> jsnum \<Rightarrow> jsnum" where
  "js_add (Fin x) (Fin y) = Fin (x + y)"
| "js_add NotNum v = NotNum"
| "js_add v NotNum = NotNum"
| "js_add PosInf NegInf = NotNum"
| "js_add NegInf PosInf = NotNum"
| "js_add PosInf v = PosInf"
| "js_add v PosInf = PosInf"
| "js_add NegInf v = NegInf"
| "js_add v NegInf = NegInf"

definition js_inf :: "bool \<Rightarrow> jsnum" where
  "js_inf negative = (if negative then NegInf else PosInf)"

text \<open>The sign of a number that is not NaN, and 0 for zero.\<close>

fun js_sign :: "jsnum \<Rightarrow> int" where
  "js_sign (Fin x) = (if x > 0 then 1 else if x < 0 then - 1 else 0)"
| "js_sign PosInf = 1"
| "js_sign NegInf = - 1"
| "js_sign NotNum = 0"

definition js_mul :: "jsnum \<Rightarrow> jsnum \<Rightarrow> jsnum" where
  "js_mul a b =
     (case (a, b) of
        (Fin x, Fin y) \<Rightarrow> Fin (x * y)
      | _ \<Rightarrow> if a = NotNum \<or> b = NotNum \<or> js_sign a = 0 \<or> js_sign b = 0 then NotNum
             else js_inf (js_sign a * js_sign b < 0))"

text \<open>\<open>Math.atan2\<close> with infinite arguments: an eighth of a turn between two of them.\<close>

definition js_atan2 :: "jsnum \<Rightarrow> jsnum \<Rightarrow> jsnum" where
  "js_atan2 y x =
     (case (y, x) of
        (NotNum, _) \<Rightarrow> NotNum
      | (_, NotNum) \<Rightarrow> NotNum
      | (Fin b, Fin a) \<Rightarrow> Fin (atan2 b a)
      | (Fin b, PosInf) \<Rightarrow> Fin 0
      | (Fin b, NegInf) \<Rightarrow> Fin (if b < 0 then - pi else pi)
      | (_, Fin a) \<Rightarrow> Fin (if y = PosInf then pi / 2 else - (pi / 2))
      | (_, _) \<Rightarrow> Fin ((if y = PosInf then 1 else - 1) * (if x = PosInf then pi / 4 else 3 * pi / 4)))"

text \<open>An IEEE number from its bits: \<open>eb\<close> bits of exponent above \<open>mb\<close> bits of fraction.\<close>

definition float_of_bits :: "nat \<Rightarrow> nat \<Rightarrow> nat \<Rightarrow> jsnum" where
  "float_of_bits eb mb bits =
     (let m = bits mod 2 ^ mb;
          e = (bits div 2 ^ mb) mod 2 ^ eb;
          negative = odd (bits div 2 ^ (mb + eb));
          bias = 2 ^ (eb - 1) - 1;
          sign = (if negative then - 1 else 1) in
      if e = 2 ^ eb - 1 then if m = 0 then js_inf negative else NotNum
      else if e = 0 then Fin (sign * real m / 2 ^ (bias - 1 + mb))
      else Fin (sign * (1 + real m / 2 ^ mb) * 2 ^ e / 2 ^ bias))"

definition signed_of_bits :: "nat \<Rightarrow> nat \<Rightarrow> real" where
  "signed_of_bits n bits =
     (if bits < 2 ^ (8 * n - 1) then real bits else real bits - 2 ^ (8 * n))"

section \<open>CDR\<close>

datatype cdr_value = CNum jsnum | CBool bool | CText string | CList "cdr_value list"
  | CObj "(string \<times> cdr_value) list"

definition cdr_align :: "nat \<Rightarrow> nat \<Rightarrow> nat" where
  "cdr_align n off =
     (let misalignment = (off - 4) mod n in if misalignment \<noteq> 0 then off + (n - misalignment) else off)"

definition cdr_raw :: "byte list \<Rightarrow> nat \<Rightarrow> byte list reader" where
  "cdr_raw view n =
     (\<lambda>off. let at' = cdr_align n off in
        if at' + n > length view then Inl BadMessage else Inr (take n (drop at' view), at' + n))"

text \<open>\<open>bytes[1] = 1\<close>: little endian.\<close>

definition cdr_bits :: "byte list \<Rightarrow> nat \<Rightarrow> nat reader" where
  "cdr_bits view n =
     rd_bind (cdr_raw view n)
       (\<lambda>bs. rd_return (le_nat (if view ! 1 = 1 then bs else rev bs)))"

definition cdr_string :: "byte list \<Rightarrow> cdr_value reader" where
  "cdr_string view =
     rd_bind (cdr_bits view 4) (\<lambda>n off.
       if off + n > length view then Inl BadMessage
       else Inr (CText (text_of (take (n - 1) (drop off view))), off + n))"

definition cdr_readers :: "byte list \<Rightarrow> (string \<times> cdr_value reader) list" where
  "cdr_readers view =
     (let number = (\<lambda>n f. rd_bind (cdr_bits view n) (\<lambda>b. rd_return (CNum (f b))));
          unsigned = (\<lambda>b. Fin (real b));
          signed = (\<lambda>n b. Fin (signed_of_bits n b)) in
      [(''bool'', rd_bind (cdr_bits view 1) (\<lambda>b. rd_return (CBool (b \<noteq> 0)))),
       (''byte'', number 1 unsigned), (''char'', number 1 unsigned),
       (''int8'', number 1 (signed 1)), (''uint8'', number 1 unsigned),
       (''int16'', number 2 (signed 2)), (''uint16'', number 2 unsigned),
       (''int32'', number 4 (signed 4)), (''uint32'', number 4 unsigned),
       (''int64'', number 8 (signed 8)), (''uint64'', number 8 unsigned),
       (''float32'', number 4 (float_of_bits 8 23)), (''float64'', number 8 (float_of_bits 11 52)),
       (''string'', cdr_string view), (''wstring'', cdr_string view)])"

fun read_many :: "cdr_value reader \<Rightarrow> nat \<Rightarrow> cdr_value list reader" where
  "read_many r 0 = rd_return []"
| "read_many r (Suc n) = rd_bind r (\<lambda>v. rd_bind (read_many r n) (\<lambda>vs. rd_return (v # vs)))"

definition read_field :: "(string \<Rightarrow> cdr_value reader) \<Rightarrow> nat reader \<Rightarrow> field \<Rightarrow> cdr_value reader" where
  "read_field decode read_count f =
     (case fd_length f of
        Single \<Rightarrow> decode (fd_type f)
      | Fixed n \<Rightarrow> rd_bind (read_many (decode (fd_type f)) n) (\<lambda>vs. rd_return (CList vs))
      | Sequence \<Rightarrow> rd_bind read_count (\<lambda>n.
          rd_bind (read_many (decode (fd_type f)) n) (\<lambda>vs. rd_return (CList vs))))"

fun read_fields :: "(string \<Rightarrow> cdr_value reader) \<Rightarrow> nat reader \<Rightarrow> field list
    \<Rightarrow> (string \<times> cdr_value) list \<Rightarrow> cdr_value reader" where
  "read_fields decode read_count [] message = rd_return (CObj message)"
| "read_fields decode read_count (f # fs) message =
     rd_bind (read_field decode read_count f)
       (\<lambda>v. read_fields decode read_count fs (AList.update (fd_name f) v message))"

text \<open>\<open>depth\<close> bounds how deep a type may be nested.\<close>

fun decodeType :: "byte list \<Rightarrow> types \<Rightarrow> nat \<Rightarrow> string \<Rightarrow> cdr_value reader" where
  "decodeType view ts depth ty =
     (case map_of (cdr_readers view) ty of
        Some r \<Rightarrow> r
      | None \<Rightarrow>
          (case map_of ts ty of
             None \<Rightarrow> (\<lambda>off. Inl (NoDefinition ty))
           | Some fs \<Rightarrow>
               (case depth of
                  0 \<Rightarrow> (\<lambda>off. Inl TooDeep)
                | Suc d \<Rightarrow> read_fields (decodeType view ts d) (cdr_bits view 4) fs [])))"

declare decodeType.simps [simp del]

text \<open>A definition that does not contain itself is nested at most as deep as it has types; the one that
  does, which ROS refuses, exhausts the stack in the code.\<close>

definition decodeCdr :: "byte list \<Rightarrow> msg_definition \<Rightarrow> bag_error + cdr_value" where
  "decodeCdr view d =
     (if length view < 2 then Inl RangeFault
      else map_sum id fst (decodeType view (md_types d) (length (md_types d)) (md_top d) 4))"

section \<open>ROS messages\<close>

text \<open>
  The fields of a decoded message that the conversions read, with the types the standard definitions
  give them. A bag whose definition of one of these names lacks them is \<open>Unshaped\<close>: the code reads
  \<open>undefined\<close> there and throws or carries NaN.
\<close>

record stamp =
  stp_sec :: real
  stp_nanosec :: real

record quaternion =
  qn_x :: jsnum
  qn_y :: jsnum
  qn_z :: jsnum
  qn_w :: jsnum

record laser_scan =
  ls_stamp :: stamp
  ls_frame :: string
  ls_angle_min :: jsnum
  ls_angle_increment :: jsnum
  ls_range_min :: jsnum
  ls_range_max :: jsnum
  ls_ranges :: "jsnum list"

record odometry =
  od_stamp :: stamp
  od_x :: jsnum
  od_y :: jsnum
  od_orientation :: quaternion
  od_linear_x :: jsnum
  od_angular_z :: jsnum

record motor_feedback =
  mf_stamp :: "stamp option"
  mf_velocity_rpm :: jsnum
  mf_velocity_rpm_raw :: jsnum
  mf_target_rpm :: jsnum
  mf_current_amp :: jsnum
  mf_fault_code :: jsnum

record drive_status =
  dst_stamp :: stamp
  dst_left :: motor_feedback
  dst_right :: motor_feedback
  dst_linear_velocity :: jsnum
  dst_angular_velocity :: jsnum
  dst_emergency_stop :: bool

record twist =
  tws_linear_x :: jsnum
  tws_angular_z :: jsnum

record estop =
  es_stamp :: stamp
  es_active :: bool
  es_source :: "string option"
  es_reason :: "string option"

record transform =
  tf_frame :: string
  tf_child :: string
  tf_x :: jsnum
  tf_y :: jsnum
  tf_rotation :: quaternion

fun at_path :: "string list \<Rightarrow> cdr_value \<Rightarrow> cdr_value option" where
  "at_path [] v = Some v"
| "at_path (k # ks) (CObj fs) = (case map_of fs k of None \<Rightarrow> None | Some v \<Rightarrow> at_path ks v)"
| "at_path (k # ks) _ = None"

definition num_at :: "string list \<Rightarrow> cdr_value \<Rightarrow> jsnum option" where
  "num_at p v = (case at_path p v of Some (CNum n) \<Rightarrow> Some n | _ \<Rightarrow> None)"

definition bool_at :: "string list \<Rightarrow> cdr_value \<Rightarrow> bool option" where
  "bool_at p v = (case at_path p v of Some (CBool b) \<Rightarrow> Some b | _ \<Rightarrow> None)"

definition text_at :: "string list \<Rightarrow> cdr_value \<Rightarrow> string option" where
  "text_at p v = (case at_path p v of Some (CText s) \<Rightarrow> Some s | _ \<Rightarrow> None)"

definition list_at :: "string list \<Rightarrow> cdr_value \<Rightarrow> cdr_value list option" where
  "list_at p v = (case at_path p v of Some (CList vs) \<Rightarrow> Some vs | _ \<Rightarrow> None)"

definition stamp_at :: "string list \<Rightarrow> cdr_value \<Rightarrow> stamp option" where
  "stamp_at p v =
     (case (num_at (p @ [''sec'']) v, num_at (p @ [''nanosec'']) v) of
        (Some (Fin s), Some (Fin n)) \<Rightarrow> Some \<lparr>stp_sec = s, stp_nanosec = n\<rparr>
      | _ \<Rightarrow> None)"

definition quaternion_at :: "string list \<Rightarrow> cdr_value \<Rightarrow> quaternion option" where
  "quaternion_at p v = do {
     x \<leftarrow> num_at (p @ [''x'']) v; y \<leftarrow> num_at (p @ [''y'']) v;
     z \<leftarrow> num_at (p @ [''z'']) v; w \<leftarrow> num_at (p @ [''w'']) v;
     Some \<lparr>qn_x = x, qn_y = y, qn_z = z, qn_w = w\<rparr> }"

definition scan_at :: "cdr_value \<Rightarrow> laser_scan option" where
  "scan_at v = do {
     st \<leftarrow> stamp_at [''header'', ''stamp''] v; frame \<leftarrow> text_at [''header'', ''frame_id''] v;
     a \<leftarrow> num_at [''angle_min''] v; inc \<leftarrow> num_at [''angle_increment''] v;
     lo \<leftarrow> num_at [''range_min''] v; hi \<leftarrow> num_at [''range_max''] v; vs \<leftarrow> list_at [''ranges''] v;
     rs \<leftarrow> those (map (num_at []) vs);
     Some \<lparr>ls_stamp = st, ls_frame = frame, ls_angle_min = a, ls_angle_increment = inc,
       ls_range_min = lo, ls_range_max = hi, ls_ranges = rs\<rparr> }"

definition odom_at :: "cdr_value \<Rightarrow> odometry option" where
  "odom_at v = do {
     st \<leftarrow> stamp_at [''header'', ''stamp''] v;
     x \<leftarrow> num_at [''pose'', ''pose'', ''position'', ''x''] v; y \<leftarrow> num_at [''pose'', ''pose'', ''position'', ''y''] v;
     q \<leftarrow> quaternion_at [''pose'', ''pose'', ''orientation''] v;
     l \<leftarrow> num_at [''twist'', ''twist'', ''linear'', ''x''] v; a \<leftarrow> num_at [''twist'', ''twist'', ''angular'', ''z''] v;
     Some \<lparr>od_stamp = st, od_x = x, od_y = y, od_orientation = q, od_linear_x = l, od_angular_z = a\<rparr> }"

definition feedback_at :: "string \<Rightarrow> cdr_value \<Rightarrow> motor_feedback option" where
  "feedback_at side v = do {
     r \<leftarrow> num_at [side, ''velocity_rpm''] v; raw \<leftarrow> num_at [side, ''velocity_rpm_raw''] v;
     t \<leftarrow> num_at [side, ''target_rpm''] v; c \<leftarrow> num_at [side, ''current_amp''] v;
     f \<leftarrow> num_at [side, ''fault_code''] v;
     Some \<lparr>mf_stamp = stamp_at [side, ''header'', ''stamp''] v, mf_velocity_rpm = r,
       mf_velocity_rpm_raw = raw, mf_target_rpm = t, mf_current_amp = c, mf_fault_code = f\<rparr> }"

definition drive_at :: "cdr_value \<Rightarrow> drive_status option" where
  "drive_at v = do {
     st \<leftarrow> stamp_at [''header'', ''stamp''] v; l \<leftarrow> feedback_at ''left'' v; r \<leftarrow> feedback_at ''right'' v;
     lv \<leftarrow> num_at [''linear_velocity''] v; av \<leftarrow> num_at [''angular_velocity''] v;
     e \<leftarrow> bool_at [''emergency_stop''] v;
     Some \<lparr>dst_stamp = st, dst_left = l, dst_right = r, dst_linear_velocity = lv,
       dst_angular_velocity = av, dst_emergency_stop = e\<rparr> }"

definition twist_at :: "cdr_value \<Rightarrow> twist option" where
  "twist_at v = do {
     l \<leftarrow> num_at [''linear'', ''x''] v; a \<leftarrow> num_at [''angular'', ''z''] v;
     Some \<lparr>tws_linear_x = l, tws_angular_z = a\<rparr> }"

definition estop_at :: "cdr_value \<Rightarrow> estop option" where
  "estop_at v = do {
     st \<leftarrow> stamp_at [''header'', ''stamp''] v; a \<leftarrow> bool_at [''active''] v;
     Some \<lparr>es_stamp = st, es_active = a, es_source = text_at [''source''] v, es_reason = text_at [''reason''] v\<rparr> }"

definition transform_at :: "cdr_value \<Rightarrow> transform option" where
  "transform_at v = do {
     p \<leftarrow> text_at [''header'', ''frame_id''] v; c \<leftarrow> text_at [''child_frame_id''] v;
     x \<leftarrow> num_at [''transform'', ''translation'', ''x''] v; y \<leftarrow> num_at [''transform'', ''translation'', ''y''] v;
     q \<leftarrow> quaternion_at [''transform'', ''rotation''] v;
     Some \<lparr>tf_frame = p, tf_child = c, tf_x = x, tf_y = y, tf_rotation = q\<rparr> }"

definition transforms_at :: "cdr_value \<Rightarrow> transform list option" where
  "transforms_at v = do { vs \<leftarrow> list_at [''transforms''] v; those (map transform_at vs) }"

section \<open>The messages of the live link\<close>

definition BAG_SCAN_MAX_POINTS :: nat where "BAG_SCAN_MAX_POINTS = 360"
definition FEEDBACK_MAX_AGE_SEC :: real where "FEEDBACK_MAX_AGE_SEC = 0.5"

definition stampSeconds :: "stamp \<Rightarrow> seconds" where
  "stampSeconds st = stp_sec st + stp_nanosec st * (1 / 10 ^ 9)"

definition finite_fixed :: "jsnum \<Rightarrow> nat \<Rightarrow> num" where
  "finite_fixed v digits = map_option (to_fixed digits) (finite_of v)"

definition yaw :: "quaternion \<Rightarrow> jsnum" where
  "yaw q =
     (let two = (\<lambda>v. js_mul (Fin 2) v) in
      js_atan2
        (two (js_add (js_mul (qn_w q) (qn_z q)) (js_mul (qn_x q) (qn_y q))))
        (js_add (Fin 1) (js_neg (two (js_add (js_mul (qn_y q) (qn_y q)) (js_mul (qn_z q) (qn_z q)))))))"

definition scan_stride :: "nat \<Rightarrow> nat \<Rightarrow> nat" where
  "scan_stride n maxPoints = (let m = max 1 maxPoints in max 1 ((n + m - 1) div m))"

fun every :: "nat \<Rightarrow> nat \<Rightarrow> 'a list \<Rightarrow> 'a list" where
  "every stride skip [] = []"
| "every stride 0 (x # xs) = x # every stride (stride - 1) xs"
| "every stride (Suc n) (x # xs) = every stride n xs"

definition scan_range :: "laser_scan \<Rightarrow> jsnum \<Rightarrow> num" where
  "scan_range msg v =
     (if finite_of v \<noteq> None \<and> js_le (ls_range_min msg) v \<and> js_le v (ls_range_max msg)
      then finite_fixed v 3 else None)"

definition scanPayload :: "laser_scan \<Rightarrow> nat \<Rightarrow> scan_msg" where
  "scanPayload msg maxPoints =
     (let stride = scan_stride (length (ls_ranges msg)) maxPoints in
      \<lparr>sm_stamp = stampSeconds (ls_stamp msg), sm_frame = ls_frame msg,
       sm_angle_min = finite_of (ls_angle_min msg),
       sm_angle_increment = num_map (\<lambda>a. a * real stride) (finite_of (ls_angle_increment msg)),
       sm_range_min = finite_of (ls_range_min msg), sm_range_max = finite_of (ls_range_max msg),
       sm_ranges = map (scan_range msg) (every stride 0 (ls_ranges msg)), sm_mount = None\<rparr>)"

definition odomPayload :: "odometry \<Rightarrow> odom_msg" where
  "odomPayload msg =
     \<lparr>om_stamp = stampSeconds (od_stamp msg), om_x = finite_fixed (od_x msg) 4,
      om_y = finite_fixed (od_y msg) 4, om_theta = finite_fixed (yaw (od_orientation msg)) 4,
      om_v = finite_fixed (od_linear_x msg) 4, om_w = finite_fixed (od_angular_z msg) 4\<rparr>"

text \<open>\<open>!x\<close> of a number that may be missing.\<close>

definition falsy :: "num \<Rightarrow> bool" where
  "falsy v \<longleftrightarrow> (case v of None \<Rightarrow> True | Some x \<Rightarrow> x = 0)"

definition feedbackAge :: "num \<Rightarrow> num \<Rightarrow> num" where
  "feedbackAge published feedbackStamp =
     (if falsy feedbackStamp \<or> falsy published then None
      else case num_lift (-) published feedbackStamp of
        None \<Rightarrow> None
      | Some age \<Rightarrow> if age < 0 then None else Some (to_fixed 4 age))"

definition wheel :: "motor_feedback \<Rightarrow> num \<Rightarrow> wheel_msg" where
  "wheel feedback published =
     (let raw = stampSeconds (coalesce (mf_stamp feedback) \<lparr>stp_sec = 0, stp_nanosec = 0\<rparr>);
          st = (if raw > 0 then Some raw else None);
          age = feedbackAge published st in
      \<lparr>wm_rpm = finite_of (mf_velocity_rpm feedback),
       wm_rpm_raw = finite_of (mf_velocity_rpm_raw feedback),
       wm_target_rpm = finite_of (mf_target_rpm feedback),
       wm_current_amp = finite_fixed (mf_current_amp feedback) 3,
       wm_fault_code = finite_of (mf_fault_code feedback),
       wm_has_feedback = True, wm_feedback_stamp = st, wm_feedback_age = age,
       wm_feedback_valid = (case age of None \<Rightarrow> False | Some a \<Rightarrow> a \<le> FEEDBACK_MAX_AGE_SEC)\<rparr>)"

definition drivePayload :: "drive_status \<Rightarrow> num \<Rightarrow> drive_msg" where
  "drivePayload msg bridgeStamp =
     (let published = stampSeconds (dst_stamp msg) in
      \<lparr>dm_stamp = published, dm_bridge_stamp = bridgeStamp,
       dm_left = Some (wheel (dst_left msg) (Some published)),
       dm_right = Some (wheel (dst_right msg) (Some published)),
       dm_v = finite_fixed (dst_linear_velocity msg) 4, dm_w = finite_fixed (dst_angular_velocity msg) 4,
       dm_emergency_stop = dst_emergency_stop msg\<rparr>)"

definition twistPayload :: "twist \<Rightarrow> seconds \<Rightarrow> twist_msg" where
  "twistPayload msg st =
     \<lparr>tw_stamp = st, tw_linear = finite_fixed (tws_linear_x msg) 4,
      tw_angular = finite_fixed (tws_angular_z msg) 4\<rparr>"

definition estopPayload :: "estop \<Rightarrow> seconds \<Rightarrow> estop_msg" where
  "estopPayload msg bridgeStamp =
     (let st = stampSeconds (es_stamp msg) in
      \<lparr>em_stamp = (if st > 0 then st else bridgeStamp), em_bridge_stamp = Some bridgeStamp,
       em_active = es_active msg, em_source = take 64 (coalesce (es_source msg) []),
       em_reason = take 200 (coalesce (es_reason msg) [])\<rparr>)"

section \<open>Channels\<close>

datatype stream = ScanStream | OdomStream | DriveStream | TwistStream | EstopStream

definition stream_name :: "stream \<Rightarrow> string" where
  "stream_name s = (case s of ScanStream \<Rightarrow> ''scan'' | OdomStream \<Rightarrow> ''odom'' | DriveStream \<Rightarrow> ''drive''
     | TwistStream \<Rightarrow> ''twist'' | EstopStream \<Rightarrow> ''estop'')"

definition STREAM_TYPES :: "(string \<times> stream) list" where
  "STREAM_TYPES = [(''sensor_msgs/LaserScan'', ScanStream), (''nav_msgs/Odometry'', OdomStream),
     (''questix_msgs/DriveStatus'', DriveStream), (''geometry_msgs/Twist'', TwistStream),
     (''questix_msgs/EmergencyStop'', EstopStream)]"

definition LESSON_STREAMS :: "stream list" where
  "LESSON_STREAMS = [ScanStream, OdomStream, DriveStream, TwistStream]"

definition COMMAND_TOPIC :: string where "COMMAND_TOPIC = ''/target_twist''"
definition STATIC_TF_TOPIC :: string where "STATIC_TF_TOPIC = ''/tf_static''"
definition BASE_FRAME :: string where "BASE_FRAME = ''base_link''"

text \<open>The stream a channel is a candidate for.\<close>

definition channel_stream :: "(nat \<times> schema) list \<Rightarrow> channel \<Rightarrow> stream option" where
  "channel_stream schemas c =
     (case map_of schemas (ch_schema c) of
        None \<Rightarrow> None
      | Some s \<Rightarrow>
          if ch_encoding c \<noteq> ''cdr'' \<or> sc_encoding s \<noteq> ''ros2msg'' then None
          else map_of STREAM_TYPES (qualify (sc_name s) []))"

definition pick_step :: "(nat \<times> schema) list \<Rightarrow> (stream \<times> channel) list \<times> channel list \<Rightarrow> channel
    \<Rightarrow> (stream \<times> channel) list \<times> channel list" where
  "pick_step schemas st c =
     (case (st, channel_stream schemas c) of
        (_, None) \<Rightarrow> st
      | ((picked, twists), Some s) \<Rightarrow>
          if s = TwistStream then (picked, twists @ [c])
          else if map_of picked s = None \<or> ch_topic c = ''/'' @ stream_name s
          then (AList.update s c picked, twists)
          else st)"

definition command_channel :: "channel list \<Rightarrow> channel option" where
  "command_channel twists =
     (case find (\<lambda>c. ch_topic c = COMMAND_TOPIC) twists of
        Some c \<Rightarrow> Some c
      | None \<Rightarrow> if length twists = 1 then Some (hd twists) else None)"

definition pickChannels :: "channel list \<Rightarrow> (nat \<times> schema) list \<Rightarrow> (stream \<times> channel) list" where
  "pickChannels channels schemas =
     (let (picked, twists) = foldl (pick_step schemas) ([], []) channels in
      case command_channel twists of None \<Rightarrow> picked | Some c \<Rightarrow> AList.update TwistStream c picked)"

section \<open>Static transforms\<close>

definition stripSlash :: "string \<Rightarrow> string" where
  "stripSlash frame = (if frame \<noteq> [] \<and> hd frame = CHR ''/'' then tl frame else frame)"

definition mount_of :: "transform \<Rightarrow> mount" where
  "mount_of t = \<lparr>mt_x = finite_fixed (tf_x t) 4, mt_y = finite_fixed (tf_y t) 4,
     mt_yaw = finite_fixed (yaw (tf_rotation t)) 4\<rparr>"

definition add_transform :: "(string \<times> mount) list \<Rightarrow> transform \<Rightarrow> (string \<times> mount) list" where
  "add_transform mounts t =
     (if stripSlash (tf_frame t) \<noteq> BASE_FRAME then mounts
      else AList.update (stripSlash (tf_child t)) (mount_of t) mounts)"

fun add_transforms :: "nat \<Rightarrow> msg_definition \<Rightarrow> message list \<Rightarrow> (string \<times> mount) list
    \<Rightarrow> bag_error + (string \<times> mount) list" where
  "add_transforms i d [] mounts = Inr mounts"
| "add_transforms i d (m # ms) mounts =
     (if ms_channel m \<noteq> i then add_transforms i d ms mounts
      else case decodeCdr (ms_data m) d of
        Inl e \<Rightarrow> Inl e
      | Inr v \<Rightarrow> (case transforms_at v of
          None \<Rightarrow> Inl Unshaped
        | Some ts \<Rightarrow> add_transforms i d ms (foldl add_transform mounts ts)))"

definition staticMounts :: "channel list \<Rightarrow> (nat \<times> schema) list \<Rightarrow> message list
    \<Rightarrow> bag_error + (string \<times> mount) list" where
  "staticMounts channels schemas messages =
     (case find (\<lambda>c. ch_topic c = STATIC_TF_TOPIC \<and>
              qualify (case map_of schemas (ch_schema c) of None \<Rightarrow> [] | Some s \<Rightarrow> sc_name s) []
                = ''tf2_msgs/TFMessage'') channels of
        None \<Rightarrow> Inr []
      | Some c \<Rightarrow>
          (case map_of schemas (ch_schema c) of
             None \<Rightarrow> Inr []
           | Some s \<Rightarrow> add_transforms (ch_id c) (parseRos2msg (sc_name s) (sc_data s)) messages []))"

section \<open>The lesson streams of a bag\<close>

datatype payload = ScanMsg scan_msg | OdomMsg odom_msg | DriveMsg drive_msg | TwistMsg twist_msg
  | EstopMsg estop_msg

definition payload_stamp :: "payload \<Rightarrow> seconds" where
  "payload_stamp p = (case p of ScanMsg m \<Rightarrow> sm_stamp m | OdomMsg m \<Rightarrow> om_stamp m
     | DriveMsg m \<Rightarrow> dm_stamp m | TwistMsg m \<Rightarrow> tw_stamp m | EstopMsg m \<Rightarrow> em_stamp m)"

definition PAYLOADS :: "stream \<Rightarrow> cdr_value \<Rightarrow> seconds \<Rightarrow> payload option" where
  "PAYLOADS s v logTime =
     (case s of
        ScanStream \<Rightarrow> map_option (\<lambda>m. ScanMsg (scanPayload m BAG_SCAN_MAX_POINTS)) (scan_at v)
      | OdomStream \<Rightarrow> map_option (\<lambda>m. OdomMsg (odomPayload m)) (odom_at v)
      | DriveStream \<Rightarrow> map_option (\<lambda>m. DriveMsg (drivePayload m (Some logTime))) (drive_at v)
      | EstopStream \<Rightarrow> map_option (\<lambda>m. EstopMsg (estopPayload m logTime)) (estop_at v)
      | TwistStream \<Rightarrow> map_option (\<lambda>m. TwistMsg (twistPayload m logTime)) (twist_at v))"

record conversion =
  cv_streams :: "(stream \<times> payload list) list"
  cv_first :: "seconds option"
  cv_last :: "seconds option"

definition push :: "stream \<Rightarrow> payload \<Rightarrow> (stream \<times> payload list) list \<Rightarrow> (stream \<times> payload list) list" where
  "push s p streams = map (\<lambda>(k, ps). (k, if k = s then ps @ [p] else ps)) streams"

definition min_some :: "seconds option \<Rightarrow> seconds \<Rightarrow> seconds option" where
  "min_some a t = Some (case a of None \<Rightarrow> t | Some x \<Rightarrow> min x t)"

definition max_some :: "seconds option \<Rightarrow> seconds \<Rightarrow> seconds option" where
  "max_some a t = Some (case a of None \<Rightarrow> t | Some x \<Rightarrow> max x t)"

definition convert :: "(nat \<times> stream) list \<Rightarrow> (stream \<times> msg_definition) list \<Rightarrow> message
    \<Rightarrow> bag_error + (stream \<times> payload \<times> seconds) option" where
  "convert byChannel definitions m =
     (case map_of byChannel (ms_channel m) of
        None \<Rightarrow> Inr None
      | Some s \<Rightarrow>
          (case map_of definitions s of
             None \<Rightarrow> Inr None
           | Some d \<Rightarrow>
               (case decodeCdr (ms_data m) d of
                  Inl e \<Rightarrow> Inl e
                | Inr v \<Rightarrow>
                    (case PAYLOADS s v (nsToSeconds (ms_log_time m)) of
                       None \<Rightarrow> Inl Unshaped
                     | Some p \<Rightarrow> Inr (Some (s, p, nsToSeconds (ms_log_time m)))))))"

fun convert_all :: "(nat \<times> stream) list \<Rightarrow> (stream \<times> msg_definition) list \<Rightarrow> message list \<Rightarrow> conversion
    \<Rightarrow> bag_error + conversion" where
  "convert_all byChannel definitions [] cv = Inr cv"
| "convert_all byChannel definitions (m # ms) cv =
     (case convert byChannel definitions m of
        Inl e \<Rightarrow> Inl e
      | Inr None \<Rightarrow> convert_all byChannel definitions ms cv
      | Inr (Some (s, p, t)) \<Rightarrow>
          convert_all byChannel definitions ms
            (cv\<lparr>cv_streams := push s p (cv_streams cv), cv_first := min_some (cv_first cv) t,
               cv_last := max_some (cv_last cv) t\<rparr>))"

definition with_mount :: "(string \<times> mount) list \<Rightarrow> payload \<Rightarrow> payload" where
  "with_mount mounts p =
     (case p of
        ScanMsg m \<Rightarrow> ScanMsg (m\<lparr>sm_mount := map_of mounts (stripSlash (sm_frame m))\<rparr>)
      | _ \<Rightarrow> p)"

record lesson_bag =
  lb_streams :: "(stream \<times> payload list) list"
  lb_topics :: "(stream \<times> string) list"
  lb_start :: seconds
  lb_seconds :: seconds

definition by_channel :: "(stream \<times> channel) list \<Rightarrow> (nat \<times> stream) list" where
  "by_channel picked = foldl (\<lambda>m (s, c). AList.update (ch_id c) s m) [] picked"

definition definitions_of :: "(nat \<times> schema) list \<Rightarrow> (stream \<times> channel) list \<Rightarrow> (stream \<times> msg_definition) list" where
  "definitions_of schemas picked =
     List.map_filter (\<lambda>(s, c). map_option (\<lambda>sc. (s, parseRos2msg (sc_name sc) (sc_data sc)))
       (map_of schemas (ch_schema c))) picked"

definition lesson_bag_of :: "(stream \<times> channel) list \<Rightarrow> (string \<times> mount) list \<Rightarrow> conversion \<Rightarrow> lesson_bag" where
  "lesson_bag_of picked mounts cv =
     \<lparr>lb_streams = map (\<lambda>(s, ps). (s, map (with_mount mounts) (sort_key payload_stamp ps))) (cv_streams cv),
      lb_topics = map (\<lambda>(s, c). (s, ch_topic c)) picked,
      lb_start = coalesce (cv_first cv) 0,
      lb_seconds = (case (cv_first cv, cv_last cv) of (Some a, Some b) \<Rightarrow> b - a | _ \<Rightarrow> 0)\<rparr>"

definition read_bag :: "bag \<Rightarrow> bag_error + lesson_bag" where
  "read_bag b =
     (let channels = map snd (bg_channels b); picked = pickChannels channels (bg_schemas b) in
      if \<not> list_ex (\<lambda>s. map_of picked s \<noteq> None) LESSON_STREAMS then Inl NoLessonTopics
      else case convert_all (by_channel picked) (definitions_of (bg_schemas b) picked) (bg_messages b)
             \<lparr>cv_streams = map (\<lambda>(s, c). (s, [])) picked, cv_first = None, cv_last = None\<rparr> of
        Inl e \<Rightarrow> Inl e
      | Inr cv \<Rightarrow>
          (case staticMounts channels (bg_schemas b) (bg_messages b) of
             Inl e \<Rightarrow> Inl e
           | Inr mounts \<Rightarrow> Inr (lesson_bag_of picked mounts cv)))"

definition readRosbag :: "byte list \<Rightarrow> bag_error + lesson_bag" where
  "readRosbag view = (case readMcap view of Inl e \<Rightarrow> Inl e | Inr b \<Rightarrow> read_bag b)"

section \<open>What a bag gives a lesson\<close>

text \<open>A wheel's age is the time from its feedback to the message, unknown exactly when either time is
  missing or the feedback lies in the future; it is fresh when the age is known and at most half a
  second.\<close>

definition wheel_sound :: "seconds \<Rightarrow> wheel_msg \<Rightarrow> bool" where
  "wheel_sound published w \<longleftrightarrow>
     wm_feedback_age w =
       (case wm_feedback_stamp w of
          None \<Rightarrow> None
        | Some st \<Rightarrow> if published = 0 \<or> published < st then None else Some (to_fixed 4 (published - st)))
     \<and> wm_feedback_valid w = num_holds (\<lambda>a. 0 \<le> a \<and> a \<le> FEEDBACK_MAX_AGE_SEC) (wm_feedback_age w)"

definition range_sound :: "num \<Rightarrow> num \<Rightarrow> num \<Rightarrow> bool" where
  "range_sound lo hi r =
     (case r of None \<Rightarrow> True
      | Some x \<Rightarrow> (case lo of None \<Rightarrow> True | Some l \<Rightarrow> l - 1 / 2000 \<le> x)
          \<and> (case hi of None \<Rightarrow> True | Some h \<Rightarrow> x \<le> h + 1 / 2000))"

definition payload_sound :: "stream \<Rightarrow> payload \<Rightarrow> bool" where
  "payload_sound s p =
     (case p of
        ScanMsg m \<Rightarrow> s = ScanStream \<and> length (sm_ranges m) \<le> BAG_SCAN_MAX_POINTS
          \<and> list_all (range_sound (sm_range_min m) (sm_range_max m)) (sm_ranges m)
      | OdomMsg m \<Rightarrow> s = OdomStream
      | DriveMsg m \<Rightarrow> s = DriveStream \<and> pred_option (wheel_sound (dm_stamp m)) (dm_left m)
          \<and> pred_option (wheel_sound (dm_stamp m)) (dm_right m)
      | TwistMsg m \<Rightarrow> s = TwistStream
      | EstopMsg m \<Rightarrow> s = EstopStream)"

lemma to_fixed_nonneg: "0 \<le> x \<Longrightarrow> 0 \<le> to_fixed d x"
  by (auto simp: to_fixed_def intro!: mult_nonneg_nonneg divide_nonneg_nonneg)

lemma wheel_is_sound: "wheel_sound published (wheel f (Some published))"
  by (auto simp: wheel_sound_def wheel_def feedbackAge_def Let_def falsy_def to_fixed_nonneg
      split: option.splits)

lemma length_every:
  "skip \<le> stride - 1 \<Longrightarrow> 0 < stride \<Longrightarrow> length (every stride skip xs) * stride \<le> length xs + (stride - 1 - skip)"
proof (induction stride skip xs rule: every.induct)
  case (2 stride x xs)
  then have "length (every stride (stride - 1) xs) * stride \<le> length xs"
    by simp
  then show ?case
    using 2 by simp
qed auto

lemma stride_enough: "0 < k \<Longrightarrow> n \<le> k * scan_stride n k"
proof -
  assume k: "0 < k"
  have "n \<le> k * ((n + k - 1) div k)"
    using k dividend_less_times_div [of k "n + k - 1"] by simp
  also have "\<dots> \<le> k * max 1 ((n + k - 1) div k)"
    by simp
  finally show ?thesis
    using k by (simp add: scan_stride_def Let_def max_absorb2 Suc_le_eq)
qed

lemma length_scan: "length (sm_ranges (scanPayload msg BAG_SCAN_MAX_POINTS)) \<le> BAG_SCAN_MAX_POINTS"
proof -
  let ?n = "length (ls_ranges msg)"
  let ?s = "scan_stride ?n BAG_SCAN_MAX_POINTS"
  have s: "0 < ?s"
    by (simp add: scan_stride_def Let_def)
  have "length (every ?s 0 (ls_ranges msg)) * ?s \<le> ?n + (?s - 1)"
    using length_every [of 0 ?s "ls_ranges msg"] s by simp
  also have "\<dots> < BAG_SCAN_MAX_POINTS * ?s + ?s"
    using stride_enough [of BAG_SCAN_MAX_POINTS ?n] s by (simp add: BAG_SCAN_MAX_POINTS_def)
  finally have "length (every ?s 0 (ls_ranges msg)) < Suc BAG_SCAN_MAX_POINTS"
    using s by (metis add.commute mult_Suc nat_mult_less_cancel1 mult.commute)
  then show ?thesis
    by (simp add: scanPayload_def Let_def)
qed

lemma scan_range_sound: "range_sound (finite_of (ls_range_min m)) (finite_of (ls_range_max m)) (scan_range m v)"
proof (cases v)
  case (Fin x)
  have "x - 1 / 2000 \<le> to_fixed 3 x" "to_fixed 3 x \<le> x + 1 / 2000"
    using to_fixed_close [of 3 x] unfolding abs_le_iff by (simp_all add: field_simps)
  with Fin show ?thesis
    by (cases "ls_range_min m"; cases "ls_range_max m")
       (simp_all add: range_sound_def scan_range_def finite_fixed_def finite_of_def)
qed (simp_all add: range_sound_def scan_range_def finite_of_def)

lemma payload_is_sound: "PAYLOADS s v t = Some p \<Longrightarrow> payload_sound s p"
proof -
  have "payload_sound ScanStream (ScanMsg (scanPayload m BAG_SCAN_MAX_POINTS))" for m
    using length_scan [of m]
    by (auto simp: payload_sound_def list_all_iff scanPayload_def Let_def scan_range_sound)
  moreover have "payload_sound DriveStream (DriveMsg (drivePayload m b))" for m b
    by (simp add: payload_sound_def drivePayload_def Let_def wheel_is_sound)
  ultimately show "PAYLOADS s v t = Some p \<Longrightarrow> payload_sound s p"
    by (auto simp: PAYLOADS_def payload_sound_def split: stream.splits)
qed

lemma payload_sound_mount [simp]: "payload_sound s (with_mount mounts p) = payload_sound s p"
  by (simp add: payload_sound_def with_mount_def split: payload.splits)

lemma payload_stamp_mount [simp]: "payload_stamp (with_mount mounts p) = payload_stamp p"
  by (simp add: payload_stamp_def with_mount_def split: payload.splits)

text \<open>What the conversion keeps: each stream's messages are of its kind, and the first log time is not
  after the last.\<close>

definition conversion_sound :: "conversion \<Rightarrow> bool" where
  "conversion_sound cv \<longleftrightarrow> (\<forall>(s, ps) \<in> set (cv_streams cv). list_all (payload_sound s) ps)
     \<and> (case (cv_first cv, cv_last cv) of (Some a, Some b) \<Rightarrow> a \<le> b | (None, None) \<Rightarrow> True | _ \<Rightarrow> False)"

lemma convert_sound: "convert bc ds m = Inr (Some (s, p, t)) \<Longrightarrow> payload_sound s p"
  by (auto simp: convert_def split: option.splits sum.splits dest: payload_is_sound)

lemma convert_all_sound: "conversion_sound cv \<Longrightarrow> convert_all bc ds ms cv = Inr cv' \<Longrightarrow> conversion_sound cv'"
proof (induction bc ds ms cv rule: convert_all.induct)
  case (2 bc ds m ms cv)
  show ?case
  proof (cases "convert bc ds m")
    case (Inr c)
    show ?thesis
    proof (cases c)
      case None
      with Inr 2 show ?thesis by simp
    next
      case (Some x)
      obtain s p t where x: "x = (s, p, t)" by (cases x)
      have sound: "payload_sound s p"
        using convert_sound Inr Some x by blast
      let ?cv = "cv\<lparr>cv_streams := push s p (cv_streams cv), cv_first := min_some (cv_first cv) t,
               cv_last := max_some (cv_last cv) t\<rparr>"
      have "conversion_sound ?cv"
        using 2(3) sound
        by (fastforce simp: conversion_sound_def push_def min_some_def max_some_def list_all_iff
            split: option.splits if_splits)
      with 2 Inr Some x show ?thesis by simp
    qed
  qed (use 2 in simp)
qed simp
definition bag_sound :: "lesson_bag \<Rightarrow> bool" where
  "bag_sound out \<longleftrightarrow> 0 \<le> lb_seconds out
     \<and> list_all (\<lambda>(s, ps). sorted (map payload_stamp ps) \<and> list_all (payload_sound s) ps) (lb_streams out)"

lemma lesson_bag_sound: "conversion_sound cv \<Longrightarrow> bag_sound (lesson_bag_of picked mounts cv)"
  by (fastforce simp: conversion_sound_def bag_sound_def lesson_bag_of_def list_all_iff o_def
      split: option.splits)

lemma initial_sound: "conversion_sound \<lparr>cv_streams = map (\<lambda>(s, c). (s, [])) picked, cv_first = None, cv_last = None\<rparr>"
  by (auto simp: conversion_sound_def)

lemma read_bag_sound: "read_bag b = Inr out \<Longrightarrow> bag_sound out"
  by (auto simp: read_bag_def Let_def split: if_splits sum.splits
      intro!: lesson_bag_sound dest: convert_all_sound [OF initial_sound])

text \<open>
  Whatever file is opened, if it is read at all then every stream holds only messages of its own
  kind, sorted by their stamps; a wheel's feedback age is the time from its stamp to the message's,
  unknown (never clamped to fresh) when a stamp is missing or the feedback lies in the future, and
  the feedback counts as fresh exactly when that age is known and at most half a second; a scan keeps at most 360 beams, each inside the sensor's range
  (to the rounding of a millimetre) or null; and the recording's length is not negative.
\<close>

theorem rosbag_streams_sound:
  "case readRosbag view of Inl e \<Rightarrow> True | Inr out \<Rightarrow> bag_sound out"
  by (auto simp: readRosbag_def split: sum.splits dest: read_bag_sound)

section \<open>No message is lost\<close>


text \<open>How many messages of the file are on the channel a stream was taken from.\<close>

definition on_stream :: "(nat \<times> stream) list \<Rightarrow> stream \<Rightarrow> message list \<Rightarrow> nat" where
  "on_stream byChannel s ms = length (filter (\<lambda>m. map_of byChannel (ms_channel m) = Some s) ms)"

definition counted :: "(stream \<Rightarrow> nat) \<Rightarrow> (stream \<times> payload list) list \<Rightarrow> bool" where
  "counted n streams \<longleftrightarrow> list_all (\<lambda>(s, ps). length ps = n s) streams"

lemma counted_push: "counted n streams \<Longrightarrow> counted (n(s := Suc (n s))) (push s p streams)"
  by (fastforce simp: counted_def push_def list_all_iff)

lemma convert_cases:
  assumes "convert bc ds m = Inr c" "\<forall>i s. map_of bc i = Some s \<longrightarrow> map_of ds s \<noteq> None"
  shows "map_of bc (ms_channel m) = map_option fst c"
proof (cases "map_of bc (ms_channel m)")
  case (Some s)
  with assms(2) obtain d where "map_of ds s = Some d"
    by blast
  with assms(1) Some show ?thesis
    by (auto simp: convert_def split: option.splits sum.splits)
qed (use assms(1) in \<open>simp add: convert_def\<close>)

lemma convert_all_counts:
  "convert_all bc ds ms cv = Inr cv' \<Longrightarrow> \<forall>i s. map_of bc i = Some s \<longrightarrow> map_of ds s \<noteq> None
    \<Longrightarrow> counted n (cv_streams cv) \<Longrightarrow> counted (\<lambda>s. n s + on_stream bc s ms) (cv_streams cv')"
proof (induction bc ds ms cv arbitrary: n rule: convert_all.induct)
  case (1 bc ds cv)
  then show ?case by (simp add: on_stream_def)
next
  case (2 bc ds m ms cv)
  then obtain c where c: "convert bc ds m = Inr c"
    by (auto split: sum.splits)
  note chan = convert_cases [OF c 2(4)]
  show ?case
  proof (cases c)
    case None
    with c chan have "on_stream bc s (m # ms) = on_stream bc s ms" for s
      by (simp add: on_stream_def)
    with None c 2(1)[OF c None, of n] 2(3-5) show ?thesis by simp
  next
    case (Some x)
    obtain s p t where x: "x = (s, p, t)" by (cases x)
    let ?cv = "cv\<lparr>cv_streams := push s p (cv_streams cv), cv_first := min_some (cv_first cv) t,
               cv_last := max_some (cv_last cv) t\<rparr>"
    have run: "convert_all bc ds ms ?cv = Inr cv'"
      using 2(3) c Some x by simp
    have "counted (\<lambda>r. (n(s := Suc (n s))) r + on_stream bc r ms) (cv_streams cv')"
      using 2(2)[OF c Some, of s "(p, t)" p t, where n = "n(s := Suc (n s))"] x run 2(4) counted_push [OF 2(5)] by (simp del: fun_upd_apply)
    moreover have "(n(s := Suc (n s))) r + on_stream bc r ms = n r + on_stream bc r (m # ms)" for r
      using chan Some x by (simp add: on_stream_def)
    ultimately show ?thesis by simp
  qed
qed

lemma map_of_update [simp]: "map_of (AList.update k v xs) = (map_of xs)(k \<mapsto> v)"
  by (rule AList.update_conv')

text \<open>Every channel picked has a schema.\<close>

definition has_schema :: "(nat \<times> schema) list \<Rightarrow> channel \<Rightarrow> bool" where
  "has_schema schemas c \<longleftrightarrow> map_of schemas (ch_schema c) \<noteq> None"

definition all_schemas :: "(nat \<times> schema) list \<Rightarrow> (stream \<times> channel) list \<Rightarrow> bool" where
  "all_schemas schemas picked \<longleftrightarrow> list_all (\<lambda>(s, c). has_schema schemas c) picked"

lemma list_all_update: "p (k, v) \<Longrightarrow> list_all p xs \<Longrightarrow> list_all p (AList.update k v xs)"
  by (induction xs) auto

lemma all_schemas_update: "has_schema schemas c \<Longrightarrow> all_schemas schemas picked
    \<Longrightarrow> all_schemas schemas (AList.update s c picked)"
  by (simp add: all_schemas_def list_all_update)

definition pick_ok :: "(nat \<times> schema) list \<Rightarrow> (stream \<times> channel) list \<times> channel list \<Rightarrow> bool" where
  "pick_ok schemas st \<longleftrightarrow> all_schemas schemas (fst st) \<and> list_all (has_schema schemas) (snd st)"

lemma pick_step_ok: "pick_ok schemas st \<Longrightarrow> pick_ok schemas (pick_step schemas st c)"
proof (cases "channel_stream schemas c")
  case None
  then show "pick_ok schemas st \<Longrightarrow> ?thesis"
    by (cases st) (simp add: pick_step_def)
next
  case (Some s)
  then have "has_schema schemas c"
    by (simp add: channel_stream_def has_schema_def split: option.splits)
  with Some show "pick_ok schemas st \<Longrightarrow> ?thesis"
    by (cases st) (simp add: pick_step_def pick_ok_def all_schemas_update)
qed

lemma pick_fold_ok: "pick_ok schemas st \<Longrightarrow> pick_ok schemas (foldl (pick_step schemas) st cs)"
  by (induction cs arbitrary: st) (simp_all add: pick_step_ok)

lemma command_channel_member: "command_channel twists = Some c \<Longrightarrow> c \<in> set twists"
proof (cases "find (\<lambda>c. ch_topic c = COMMAND_TOPIC) twists")
  case None
  assume "command_channel twists = Some c"
  with None have "length twists = 1" "c = hd twists"
    by (auto simp: command_channel_def split: if_splits)
  then show ?thesis
    by (cases twists) auto
next
  case (Some d)
  assume "command_channel twists = Some c"
  with Some have "c = d"
    by (simp add: command_channel_def)
  with Some show ?thesis
    by (auto simp: find_Some_iff)
qed

lemma pickChannels_schemas: "all_schemas schemas (pickChannels channels schemas)"
proof -
  obtain picked twists where pt: "foldl (pick_step schemas) ([], []) channels = (picked, twists)"
    by fastforce
  have "pick_ok schemas (picked, twists)"
    using pick_fold_ok [of schemas "([], [])" channels] by (simp add: pt pick_ok_def all_schemas_def)
  then show ?thesis
    by (auto simp: pickChannels_def pt pick_ok_def list_all_iff dest: command_channel_member
        intro: all_schemas_update split: option.splits)
qed

lemma by_channel_keys:
  "map_of (foldl (\<lambda>m (s, c). AList.update (ch_id c) s m) m picked) i = Some s
    \<Longrightarrow> map_of m i = Some s \<or> s \<in> fst ` set picked"
proof (induction picked arbitrary: m)
  case (Cons x picked)
  obtain r c where "x = (r, c)" by (cases x)
  with Cons.prems Cons.IH [of "AList.update (ch_id c) r m"] show ?case
    by (auto split: if_splits)
qed simp

lemma definitions_cover: "all_schemas schemas picked \<Longrightarrow> s \<in> fst ` set picked
    \<Longrightarrow> map_of (definitions_of schemas picked) s \<noteq> None"
  by (induction picked) (auto simp: definitions_of_def all_schemas_def has_schema_def List.map_filter_simps
      split: option.splits)

lemma convertible:
  "\<forall>i s. map_of (by_channel (pickChannels cs schemas)) i = Some s
     \<longrightarrow> map_of (definitions_of schemas (pickChannels cs schemas)) s \<noteq> None"
  using by_channel_keys [where m = "[]"] definitions_cover [OF pickChannels_schemas]
  by (metis by_channel_def map_of.simps(1) option.distinct(1))

text \<open>Each stream has as many messages as the file has on its channel.\<close>

definition bag_complete :: "bag \<Rightarrow> lesson_bag \<Rightarrow> bool" where
  "bag_complete b out \<longleftrightarrow>
     counted (\<lambda>s. on_stream (by_channel (pickChannels (map snd (bg_channels b)) (bg_schemas b))) s (bg_messages b))
       (lb_streams out)"

lemma counted_sorted: "counted n (cv_streams cv) \<Longrightarrow> counted n (lb_streams (lesson_bag_of picked mounts cv))"
  by (fastforce simp: counted_def lesson_bag_of_def list_all_iff)

lemma counted_empty: "counted (\<lambda>s. 0) (map (\<lambda>(s, c). (s, [])) picked)"
  by (auto simp: counted_def list_all_iff)

lemma read_bag_complete: "read_bag b = Inr out \<Longrightarrow> bag_complete b out"
  unfolding read_bag_def Let_def bag_complete_def
  by (auto split: if_splits sum.splits intro!: counted_sorted
      dest!: convert_all_counts [OF _ convertible, where n = "\<lambda>s. 0"] simp: counted_empty)

text \<open>
  No message of a chosen topic is dropped or counted twice: whenever a bag is read, each lesson
  stream has exactly as many messages as the file has on the channel the stream was taken from, in
  chunks or outside them.
\<close>

theorem rosbag_keeps_messages:
  "case readMcap view of
     Inl e \<Rightarrow> readRosbag view = Inl e
   | Inr b \<Rightarrow> (case readRosbag view of Inl e \<Rightarrow> True | Inr out \<Rightarrow> bag_complete b out)"
  by (auto simp: readRosbag_def read_bag_complete split: sum.splits)

end
