(* ===== verification/Capture_Core.thy ===== *)
theory Capture_Core
  imports Live_Data
begin

text \<open>
  \<open>lab/js/live/capture-core.js\<close>: a recording of the robot turned into the numbers a lesson uses: wheel
  rows with the command in force, steady measurements, a control run, the wall ahead, the drives
  between stops, and the metrics of a step. Rows are records of real numbers; a value the code may
  leave as NaN is a \<open>num\<close>.
\<close>

section \<open>Constants and geometry\<close>

record wheel_config =
  wc_wheel_radius :: num
  wc_wheel_separation :: num

record geometry =
  ge_radius :: real
  ge_separation :: real

record sides =
  sd_left :: real
  sd_right :: real

record capture_settings =
  cs_settle_seconds :: real
  cs_min_hold_seconds :: real
  cs_command_tolerance :: real
  cs_repeats :: nat
  cs_max_rows :: nat

definition COMMAND_FRESH_SECONDS :: real where "COMMAND_FRESH_SECONDS = 1"

definition CAPTURE_DEFAULTS :: capture_settings where
  "CAPTURE_DEFAULTS = \<lparr>cs_settle_seconds = 1, cs_min_hold_seconds = 2, cs_command_tolerance = 2,
     cs_repeats = 3, cs_max_rows = 200\<rparr>"

definition INPUT_DIGITS :: nat where "INPUT_DIGITS = 1"
definition VALUE_DIGITS :: nat where "VALUE_DIGITS = 3"
definition MOVING_RPM :: real where "MOVING_RPM = 1"

definition to_rpm :: "real \<Rightarrow> geometry \<Rightarrow> real" where
  "to_rpm speed g = speed / (2 * pi * ge_radius g) * 60"

definition wheelRpm :: "real \<Rightarrow> real \<Rightarrow> geometry \<Rightarrow> sides" where
  "wheelRpm v w g =
     (let half = w * ge_separation g / 2 in
      \<lparr>sd_left = to_rpm (v - half) g, sd_right = to_rpm (v + half) g\<rparr>)"

definition forwardRpm :: "real \<Rightarrow> geometry \<Rightarrow> real" where
  "forwardRpm metresPerSecond g = metresPerSecond / (2 * pi * ge_radius g) * 60"

section \<open>Each wheel's own values\<close>

definition hasWheelAuthority :: "drive_msg \<Rightarrow> bool" where
  "hasWheelAuthority drive \<longleftrightarrow>
     (case (dm_left drive, dm_right drive) of
        (Some l, Some r) \<Rightarrow> wm_has_feedback l \<and> wm_has_feedback r
      | _ \<Rightarrow> False)"

definition negate :: "real \<Rightarrow> real" where
  "negate v = (if v = 0 then 0 else - v)"

definition forwardWheels :: "real \<Rightarrow> real \<Rightarrow> sides" where
  "forwardWheels left right = \<lparr>sd_left = left, sd_right = negate right\<rparr>"

record authority =
  au_valid :: bool
  au_target :: "sides option"
  au_raw :: "sides option"
  au_filtered :: "sides option"

definition wheel_pair :: "num \<Rightarrow> num \<Rightarrow> sides option" where
  "wheel_pair left right =
     (case (left, right) of (Some l, Some r) \<Rightarrow> Some (forwardWheels l r) | _ \<Rightarrow> None)"

definition wheelAuthority :: "drive_msg \<Rightarrow> authority option" where
  "wheelAuthority drive =
     (if \<not> hasWheelAuthority drive then None
      else case (dm_left drive, dm_right drive) of
        (Some l, Some r) \<Rightarrow>
          let valid = wm_feedback_valid l \<and> wm_feedback_valid r in
          Some \<lparr>au_valid = valid,
            au_target = wheel_pair (wm_target_rpm l) (wm_target_rpm r),
            au_raw = (if valid then wheel_pair (wm_rpm_raw l) (wm_rpm_raw r) else None),
            au_filtered = (if valid then wheel_pair (wm_rpm l) (wm_rpm r) else None)\<rparr>
      | _ \<Rightarrow> None)"

definition straightRpm :: "sides option \<Rightarrow> num" where
  "straightRpm wheels = map_option (\<lambda>s. (sd_left s + sd_right s) / 2) wheels"

section \<open>One row per moment\<close>

datatype capture_error = NoWheelSize

datatype source = WheelSource | LegacySource

record drive_sample =
  sa_drive :: drive_msg
  sa_twist :: "twist_msg option"

record row =
  rw_time :: real
  rw_measured_rpm :: real
  rw_command_rpm :: num
  rw_request_rpm :: num
  rw_generated_target_rpm :: num
  rw_raw_measured_rpm :: num
  rw_filtered_measured_rpm :: real
  rw_authority :: source
  rw_measured_v :: num
  rw_measured_w :: num
  rw_command_v :: num
  rw_command_w :: num
  rw_wheels :: sides
  rw_raw_wheels :: "sides option"
  rw_target_wheels :: "sides option"
  rw_emergency_stop :: bool

definition requireConfig :: "wheel_config option \<Rightarrow> capture_error + geometry" where
  "requireConfig config =
     (case config of
        None \<Rightarrow> Inl NoWheelSize
      | Some c \<Rightarrow>
          (case (wc_wheel_radius c, wc_wheel_separation c) of
             (Some r, Some s) \<Rightarrow>
               if r > 0 \<and> s > 0 then Inr \<lparr>ge_radius = r, ge_separation = s\<rparr> else Inl NoWheelSize
           | _ \<Rightarrow> Inl NoWheelSize))"

text \<open>The command in force: a finite linear speed less than a second old.\<close>

definition fresh_twist :: "drive_sample \<Rightarrow> twist_msg option" where
  "fresh_twist s =
     (case sa_twist s of
        None \<Rightarrow> None
      | Some t \<Rightarrow>
          if tw_linear t \<noteq> None \<and> dm_stamp (sa_drive s) - tw_stamp t < COMMAND_FRESH_SECONDS then Some t
          else None)"

text \<open>What the wheels measured: from the wheels' own values when the message has them, else from the
  chassis velocity; nothing when that is stale or missing.\<close>

definition measured_wheels :: "geometry \<Rightarrow> drive_msg \<Rightarrow> (source \<times> real \<times> sides) option" where
  "measured_wheels g drive =
     (case wheelAuthority drive of
        Some a \<Rightarrow>
          (case au_filtered a of
             None \<Rightarrow> None
           | Some s \<Rightarrow> Some (WheelSource, (sd_left s + sd_right s) / 2, s))
      | None \<Rightarrow>
          (case (dm_v drive, dm_w drive) of
             (Some v, Some w) \<Rightarrow> Some (LegacySource, forwardRpm v g, wheelRpm v w g)
           | _ \<Rightarrow> None))"

definition sample_row :: "geometry \<Rightarrow> drive_sample \<Rightarrow> real \<Rightarrow> source \<times> real \<times> sides \<Rightarrow> row" where
  "sample_row g s time m =
     (let (src, measured, wheels) = m;
          drive = sa_drive s;
          a = wheelAuthority drive;
          cmd = fresh_twist s;
          linear_speed = Option.bind cmd tw_linear;
          command = num_map (\<lambda>v. forwardRpm v g) linear_speed in
      \<lparr>rw_time = time, rw_measured_rpm = measured, rw_command_rpm = command, rw_request_rpm = command,
       rw_generated_target_rpm = straightRpm (Option.bind a au_target),
       rw_raw_measured_rpm = straightRpm (Option.bind a au_raw),
       rw_filtered_measured_rpm = measured, rw_authority = src,
       rw_measured_v = dm_v drive, rw_measured_w = dm_w drive,
       rw_command_v = linear_speed, rw_command_w = Option.bind cmd tw_angular,
       rw_wheels = wheels, rw_raw_wheels = Option.bind a au_raw,
       rw_target_wheels = Option.bind a au_target,
       rw_emergency_stop = dm_emergency_stop drive\<rparr>)"

text \<open>\<open>previous\<close> is the time of the last row kept, \<open>None\<close> for \<open>-Infinity\<close>.\<close>

fun drive_rows :: "geometry \<Rightarrow> real \<Rightarrow> real option \<Rightarrow> drive_sample list \<Rightarrow> row list" where
  "drive_rows g start previous [] = []"
| "drive_rows g start previous (s # ss) =
     (let time = dm_stamp (sa_drive s) - start in
      if (case previous of None \<Rightarrow> False | Some p \<Rightarrow> \<not> p < time) then drive_rows g start previous ss
      else case measured_wheels g (sa_drive s) of
        None \<Rightarrow> drive_rows g start previous ss
      | Some m \<Rightarrow> sample_row g s time m # drive_rows g start (Some time) ss)"

definition driveSamples :: "drive_sample list \<Rightarrow> wheel_config option \<Rightarrow> capture_error + row list" where
  "driveSamples raw config =
     (case requireConfig config of
        Inl e \<Rightarrow> Inl e
      | Inr g \<Rightarrow>
          (case raw of
             [] \<Rightarrow> Inr []
           | s # _ \<Rightarrow> Inr (drive_rows g (dm_stamp (sa_drive s)) None raw)))"

section \<open>Holds and steady measurements\<close>

record hold =
  ho_rows :: "row list"
  ho_command :: real
  ho_from :: real
  ho_to :: real

text \<open>The rows of a hold with the command of its first row; the last element is the hold still open.\<close>

definition rows_hold :: "(real \<times> row list) \<Rightarrow> hold" where
  "rows_hold h = \<lparr>ho_rows = snd h, ho_command = fst h, ho_from = rw_time (hd (snd h)),
     ho_to = rw_time (last (snd h))\<rparr>"

fun hold_rows :: "real \<Rightarrow> (real \<times> row list) list \<Rightarrow> (real \<times> row list) option \<Rightarrow> row list
    \<Rightarrow> (real \<times> row list) list" where
  "hold_rows tolerance holds current [] = holds @ (case current of None \<Rightarrow> [] | Some h \<Rightarrow> [h])"
| "hold_rows tolerance holds current (r # rs) =
     (let closed = holds @ (case current of None \<Rightarrow> [] | Some h \<Rightarrow> [h]) in
      case rw_command_rpm r of
        None \<Rightarrow> hold_rows tolerance closed None rs
      | Some c \<Rightarrow>
          (case current of
             Some (first, kept) \<Rightarrow>
               if \<bar>c - first\<bar> \<le> tolerance then hold_rows tolerance holds (Some (first, kept @ [r])) rs
               else hold_rows tolerance closed (Some (c, [r])) rs
           | None \<Rightarrow> hold_rows tolerance closed (Some (c, [r])) rs))"

definition commandHolds :: "row list \<Rightarrow> real \<Rightarrow> hold list" where
  "commandHolds rows tolerance = map rows_hold (hold_rows tolerance [] None rows)"

definition spread :: "'a list \<Rightarrow> nat \<Rightarrow> 'a list" where
  "spread rows n =
     (if length rows \<le> n then rows
      else let step = (real (length rows) - 1) / (real n - 1) in
        map (\<lambda>i. rows ! nat (js_round (real i * step))) [0..<n])"

record kept_hold =
  kh_input :: real
  kh_seconds :: real
  kh_values :: "real list"

record measurement =
  me_x :: real
  me_y :: real
  me_test :: bool

record steady =
  sy_rows :: "measurement list"
  sy_holds :: "kept_hold list"
  sy_skipped :: nat

definition settled_rows :: "capture_settings \<Rightarrow> hold \<Rightarrow> row list" where
  "settled_rows settings h =
     filter (\<lambda>r. ho_from h + cs_settle_seconds settings \<le> rw_time r) (ho_rows h)"

definition measurable :: "capture_settings \<Rightarrow> hold \<Rightarrow> bool" where
  "measurable settings h \<longleftrightarrow>
     \<not> (ho_to h - ho_from h < cs_min_hold_seconds settings \<or> settled_rows settings h = [])"

definition meanOf :: "real list \<Rightarrow> real" where
  "meanOf values = foldl (+) 0 values / real (length values)"

definition keep_hold :: "capture_settings \<Rightarrow> hold \<Rightarrow> kept_hold" where
  "keep_hold settings h =
     \<lparr>kh_input = to_fixed INPUT_DIGITS (meanOf (map (\<lambda>r. coalesce (rw_command_rpm r) 0) (ho_rows h))),
      kh_seconds = ho_to h - ho_from h,
      kh_values = map (\<lambda>r. to_fixed VALUE_DIGITS (rw_measured_rpm r))
        (spread (settled_rows settings h) (cs_repeats settings))\<rparr>"

definition steadyMeasurements :: "row list \<Rightarrow> capture_settings \<Rightarrow> steady" where
  "steadyMeasurements rows settings =
     (let holds = commandHolds rows (cs_command_tolerance settings);
          kept = map (keep_hold settings) (filter (measurable settings) holds);
          ms = concat (map (\<lambda>h. map (\<lambda>v. \<lparr>me_x = kh_input h, me_y = v, me_test = False\<rparr>) (kh_values h)) kept) in
      \<lparr>sy_rows = take (cs_max_rows settings) ms, sy_holds = kept,
       sy_skipped = length (filter (\<lambda>h. \<not> measurable settings h) holds)\<rparr>)"

section \<open>A control run\<close>

record run_sample =
  rs_time :: real
  rs_measured :: real
  rs_target :: num
  rs_generated_target :: num
  rs_raw_measured :: num

record live_run =
  lr_samples :: "run_sample list"
  lr_seconds :: real

definition commandStart :: "row list \<Rightarrow> real" where
  "commandStart rows =
     (case find (\<lambda>r. num_holds (\<lambda>c. \<bar>c\<bar> > MOVING_RPM) (rw_command_rpm r)) rows of
        Some r \<Rightarrow> rw_time r
      | None \<Rightarrow> (case rows of [] \<Rightarrow> 0 | r # _ \<Rightarrow> rw_time r))"

definition liveControlRun :: "row list \<Rightarrow> real \<Rightarrow> live_run" where
  "liveControlRun rows duration =
     (let commanded = filter (\<lambda>r. rw_command_rpm r \<noteq> None) rows;
          start = commandStart commanded;
          samples = filter (\<lambda>s. 0 \<le> rs_time s \<and> rs_time s \<le> duration)
            (map (\<lambda>r. \<lparr>rs_time = rw_time r - start, rs_measured = rw_measured_rpm r,
               rs_target = rw_command_rpm r, rs_generated_target = rw_generated_target_rpm r,
               rs_raw_measured = rw_raw_measured_rpm r\<rparr>) commanded) in
      \<lparr>lr_samples = samples, lr_seconds = (if samples = [] then 0 else rs_time (last samples))\<rparr>)"

section \<open>The wall ahead\<close>

record robot_pose =
  rp_x :: real
  rp_y :: real
  rp_yaw :: real

record distance_row =
  di_time :: real
  di_distance :: real

record approach_run =
  ar_samples :: "(real \<times> real) list"
  ar_seconds :: real
  ar_approached :: bool

definition LIDAR_DEFAULT_MOUNT :: robot_pose where
  "LIDAR_DEFAULT_MOUNT = \<lparr>rp_x = 0.2, rp_y = 0, rp_yaw = 0\<rparr>"
definition FRONT_HALF_ANGLE :: real where "FRONT_HALF_ANGLE = 5 * pi / 180"
definition FRONT_MIN_BEAMS :: nat where "FRONT_MIN_BEAMS = 3"
definition APPROACH_START :: real where "APPROACH_START = 0.03"

definition scanMount :: "scan_msg \<Rightarrow> robot_pose" where
  "scanMount scan =
     (case sm_mount scan of
        None \<Rightarrow> LIDAR_DEFAULT_MOUNT
      | Some m \<Rightarrow>
          (case (mt_x m, mt_y m, mt_yaw m) of
             (Some x, Some y, Some a) \<Rightarrow> \<lparr>rp_x = x, rp_y = y, rp_yaw = a\<rparr>
           | _ \<Rightarrow> LIDAR_DEFAULT_MOUNT))"

definition median :: "real list \<Rightarrow> real" where
  "median values =
     (let sorted = sort values; middle = length sorted div 2 in
      if odd (length sorted) then sorted ! middle else (sorted ! (middle - 1) + sorted ! middle) / 2)"

text \<open>The angle of beam \<open>i\<close> from straight ahead; a beam of unknown angle is never ahead.\<close>

definition beam_angle :: "scan_msg \<Rightarrow> nat \<Rightarrow> num" where
  "beam_angle scan i =
     num_lift (\<lambda>a inc. wrap_angle (rp_yaw (scanMount scan) + a + real i * inc))
       (sm_angle_min scan) (sm_angle_increment scan)"

definition beams_ahead :: "scan_msg \<Rightarrow> real \<Rightarrow> real list" where
  "beams_ahead scan halfAngle =
     List.map_filter
       (\<lambda>(i, range). if num_holds (\<lambda>a. \<bar>a\<bar> \<le> halfAngle) (beam_angle scan i) then range else None)
       (enumerate 0 (sm_ranges scan))"

definition frontDistance :: "scan_msg \<Rightarrow> real \<Rightarrow> real option" where
  "frontDistance scan halfAngle =
     (let ahead = beams_ahead scan halfAngle in
      if FRONT_MIN_BEAMS \<le> length ahead then Some (median ahead) else None)"

fun distance_rows :: "real \<Rightarrow> real option \<Rightarrow> scan_msg list \<Rightarrow> distance_row list" where
  "distance_rows start previous [] = []"
| "distance_rows start previous (s # ss) =
     (let time = sm_stamp s - start in
      if (case previous of None \<Rightarrow> False | Some p \<Rightarrow> \<not> p < time) then distance_rows start previous ss
      else case frontDistance s FRONT_HALF_ANGLE of
        None \<Rightarrow> distance_rows start previous ss
      | Some d \<Rightarrow> \<lparr>di_time = time, di_distance = d\<rparr> # distance_rows start (Some time) ss)"

definition distanceSamples :: "scan_msg list \<Rightarrow> distance_row list" where
  "distanceSamples scans = (case scans of [] \<Rightarrow> [] | s # _ \<Rightarrow> distance_rows (sm_stamp s) None scans)"

definition approachStart :: "distance_row list \<Rightarrow> nat option" where
  "approachStart rows =
     (if rows = [] then None
      else
        let standing = median (map di_distance (take 3 rows));
            moving = length (takeWhile (\<lambda>r. \<not> APPROACH_START \<le> standing - di_distance r) rows) in
        if moving = length rows then None else Some (moving - 1))"

definition liveDistanceRun :: "distance_row list \<Rightarrow> real \<Rightarrow> approach_run" where
  "liveDistanceRun rows duration =
     (case approachStart rows of
        None \<Rightarrow> \<lparr>ar_samples = [], ar_seconds = 0, ar_approached = False\<rparr>
      | Some first \<Rightarrow>
          let start = di_time (rows ! first);
              samples = filter (\<lambda>s. fst s \<le> duration)
                (map (\<lambda>r. (di_time r - start, di_distance r)) (drop first rows)) in
          \<lparr>ar_samples = samples, ar_seconds = fst (last samples), ar_approached = True\<rparr>)"

section \<open>Drives between stops\<close>

record pose =
  po_time :: real
  po_x :: real
  po_y :: real
  po_theta :: real
  po_v :: real

record move =
  mv_from :: real
  mv_to :: real
  mv_distance :: real
  mv_path :: real
  mv_turn :: real

definition MOVE_SPEED :: real where "MOVE_SPEED = 0.01"
definition STOP_SECONDS :: real where "STOP_SECONDS = 0.5"
definition MIN_MOVE :: real where "MIN_MOVE = 0.02"

definition pose_of :: "real \<Rightarrow> odom_msg \<Rightarrow> pose option" where
  "pose_of start o' =
     (case (om_x o', om_y o', om_theta o', om_v o') of
        (Some x, Some y, Some a, Some v) \<Rightarrow>
          Some \<lparr>po_time = om_stamp o' - start, po_x = x, po_y = y, po_theta = a, po_v = v\<rparr>
      | _ \<Rightarrow> None)"

fun path_length :: "pose list \<Rightarrow> real" where
  "path_length (p # q # ps) = hypot (po_x q - po_x p) (po_y q - po_y p) + path_length (q # ps)"
| "path_length _ = 0"

definition finishMove :: "pose list \<Rightarrow> move" where
  "finishMove poses =
     (let first = hd poses; end' = last poses in
      \<lparr>mv_from = po_time first, mv_to = po_time end',
       mv_distance = hypot (po_x end' - po_x first) (po_y end' - po_y first),
       mv_path = path_length poses,
       mv_turn = wrap_angle (po_theta end' - po_theta first)\<rparr>)"

text \<open>The loop: the pose before, the drive under way, since when the robot stands still, the drives
  finished.\<close>

record moves_state =
  ms_before :: "pose option"
  ms_current :: "pose list option"
  ms_still_since :: "real option"
  ms_moves :: "move list"

definition moves_step :: "moves_state \<Rightarrow> pose \<Rightarrow> moves_state" where
  "moves_step st pose =
     (let moving = MOVE_SPEED \<le> \<bar>po_v pose\<bar>; st' = st\<lparr>ms_before := Some pose\<rparr> in
      case ms_current st of
        None \<Rightarrow> if moving then st'\<lparr>ms_current := Some [coalesce (ms_before st) pose, pose]\<rparr> else st'
      | Some ps \<Rightarrow>
          if moving then st'\<lparr>ms_current := Some (ps @ [pose]), ms_still_since := None\<rparr>
          else
            let still = coalesce (ms_still_since st) (po_time pose) in
            if po_time pose - still < STOP_SECONDS
            then st'\<lparr>ms_current := Some (ps @ [pose]), ms_still_since := Some still\<rparr>
            else st'\<lparr>ms_current := None, ms_still_since := None,
              ms_moves := ms_moves st @ [finishMove (ps @ [pose])]\<rparr>)"

definition odomMoves :: "odom_msg list \<Rightarrow> move list" where
  "odomMoves odoms =
     (let start = (case odoms of [] \<Rightarrow> 0 | o' # _ \<Rightarrow> om_stamp o');
          poses = List.map_filter (pose_of start) odoms;
          st = foldl moves_step \<lparr>ms_before = None, ms_current = None, ms_still_since = None, ms_moves = []\<rparr> poses;
          moves = ms_moves st @ (case ms_current st of None \<Rightarrow> [] | Some ps \<Rightarrow> [finishMove ps]) in
      filter (\<lambda>m. MIN_MOVE \<le> mv_distance m) moves)"

section \<open>Step metrics\<close>

text \<open>A sample is its time and the value of the quantity judged (\<open>sample[key]\<close>).\<close>

type_synonym samples = "(real \<times> real) list"

definition RUN_TAIL_SECONDS :: real where "RUN_TAIL_SECONDS = 2"
definition SETTLE_BAND_SPEED :: real where "SETTLE_BAND_SPEED = 3"
definition SETTLE_BAND_DISTANCE :: real where "SETTLE_BAND_DISTANCE = 0.05"
definition STILL_SPEED :: real where "STILL_SPEED = 0.03"
definition DELAY_FRACTION :: real where "DELAY_FRACTION = 0.05"
definition TAU_FRACTION :: real where "TAU_FRACTION = 1 - exp (- 1)"

definition firstHold :: "run_sample list \<Rightarrow> run_sample list" where
  "firstHold samples =
     (case samples of
        [] \<Rightarrow> []
      | s # _ \<Rightarrow>
          takeWhile (\<lambda>r. \<not> num_holds (\<lambda>d. \<bar>d\<bar> > cs_command_tolerance CAPTURE_DEFAULTS)
             (num_lift (-) (rs_target r) (rs_target s))) samples)"

text \<open>Whether the value changes faster than \<open>STILL_SPEED\<close>; a jump within no time is infinitely fast.\<close>

definition fast :: "samples \<Rightarrow> nat \<Rightarrow> bool" where
  "fast samples i \<longleftrightarrow> 0 < i \<and>
     (let (t, v) = samples ! i; (t0, v0) = samples ! (i - 1) in
      if t = t0 then v \<noteq> v0 else \<bar>v - v0\<bar> / (t - t0) > STILL_SPEED)"

definition out_of_band :: "samples \<Rightarrow> real \<Rightarrow> real \<Rightarrow> bool \<Rightarrow> nat \<Rightarrow> bool" where
  "out_of_band samples target band distance i \<longleftrightarrow>
     \<bar>snd (samples ! i) - target\<bar> > band \<or> (distance \<and> fast samples i)"

text \<open>The loop over the samples before index \<open>n\<close>, from the end.\<close>

fun settled_back :: "samples \<Rightarrow> real \<Rightarrow> real \<Rightarrow> bool \<Rightarrow> nat \<Rightarrow> real option \<Rightarrow> real option" where
  "settled_back samples target band distance 0 settling = settling"
| "settled_back samples target band distance (Suc i) settling =
     (if out_of_band samples target band distance i then settling
      else settled_back samples target band distance i (Some (fst (samples ! i))))"

definition settledFrom :: "samples \<Rightarrow> real \<Rightarrow> real \<Rightarrow> bool \<Rightarrow> real option" where
  "settledFrom samples target band distance =
     settled_back samples target band distance (length samples) None"

definition reach :: "samples \<Rightarrow> real \<Rightarrow> real \<Rightarrow> real option" where
  "reach samples final fraction = map_option fst (find (\<lambda>s. fraction \<le> snd s / final) samples)"

definition firstOrderFit :: "samples \<Rightarrow> real \<Rightarrow> real option \<times> real option" where
  "firstOrderFit samples final =
     (if \<not> \<bar>final\<bar> > MOVING_RPM then (None, None)
      else
        let delay = reach samples final DELAY_FRACTION; rise = reach samples final TAU_FRACTION in
        (delay, case (delay, rise) of (Some d, Some r) \<Rightarrow> Some (r - d) | _ \<Rightarrow> None))"

record step_metrics =
  sp_target :: real
  sp_final :: real
  sp_final_error :: real
  sp_overshoot :: real
  sp_settling :: "real option"
  sp_gain :: "real option"
  sp_delay :: "real option"
  sp_tau :: "real option"

definition tail_of :: "samples \<Rightarrow> samples" where
  "tail_of samples = filter (\<lambda>s. fst (last samples) - RUN_TAIL_SECONDS \<le> fst s) samples"

definition overshoot_of :: "samples \<Rightarrow> real \<Rightarrow> bool \<Rightarrow> real" where
  "overshoot_of samples target distance =
     foldl max 0 (map (\<lambda>s. if distance then target - snd s else snd s - target) samples)"

definition stepMetrics :: "samples \<Rightarrow> real \<Rightarrow> bool \<Rightarrow> step_metrics option" where
  "stepMetrics samples target distance =
     (if samples = [] then None
      else
        let end' = fst (last samples); tail = tail_of samples; final = meanOf (map snd tail);
            band = (if distance then SETTLE_BAND_DISTANCE else SETTLE_BAND_SPEED);
            settling = settledFrom samples target band distance;
            (delay, tau) = (if distance then (None, None) else firstOrderFit samples final) in
        Some \<lparr>sp_target = target, sp_final = final,
          sp_final_error = meanOf (map (\<lambda>s. \<bar>snd s - target\<bar>) tail),
          sp_overshoot = overshoot_of samples target distance,
          sp_settling = (case settling of None \<Rightarrow> None | Some t \<Rightarrow> if 1 \<le> end' - t then Some t else None),
          sp_gain = (if distance \<or> target = 0 then None else Some (final / target)),
          sp_delay = delay, sp_tau = tau\<rparr>)"

record capture_summary =
  su_samples :: nat
  su_seconds :: real
  su_moved :: bool
  su_commanded :: bool
  su_emergency_stop :: bool

definition captureSummary :: "row list \<Rightarrow> capture_summary" where
  "captureSummary rows =
     \<lparr>su_samples = length rows, su_seconds = (if rows = [] then 0 else rw_time (last rows)),
      su_moved = list_ex (\<lambda>r. \<bar>rw_measured_rpm r\<bar> > MOVING_RPM) rows,
      su_commanded = list_ex (\<lambda>r. rw_command_rpm r \<noteq> None) rows,
      su_emergency_stop = list_ex rw_emergency_stop rows\<rparr>"

section \<open>Rows are fresh and in order\<close>

text \<open>The message a row was made from: its wheels are the message's own, valid on both sides, or the legacy
  values of a message without them; its command was the one in force.\<close>

definition command_in_force :: "geometry \<Rightarrow> drive_sample \<Rightarrow> num \<Rightarrow> bool" where
  "command_in_force g s command \<longleftrightarrow>
     command =
       (case sa_twist s of
          None \<Rightarrow> None
        | Some t \<Rightarrow>
            if dm_stamp (sa_drive s) - tw_stamp t < COMMAND_FRESH_SECONDS
            then num_map (\<lambda>v. forwardRpm v g) (tw_linear t) else None)"

definition row_from :: "geometry \<Rightarrow> real \<Rightarrow> row \<Rightarrow> drive_sample \<Rightarrow> bool" where
  "row_from g start r s \<longleftrightarrow>
     rw_time r = dm_stamp (sa_drive s) - start
     \<and> command_in_force g s (rw_command_rpm r)
     \<and> (case (dm_left (sa_drive s), dm_right (sa_drive s), rw_authority r) of
          (Some l, Some r', WheelSource) \<Rightarrow>
            wm_feedback_valid l \<and> wm_feedback_valid r'
            \<and> wm_rpm l = Some (sd_left (rw_wheels r)) \<and> wm_rpm r' = Some (- sd_right (rw_wheels r))
        | (_, _, LegacySource) \<Rightarrow>
            \<not> hasWheelAuthority (sa_drive s)
            \<and> dm_v (sa_drive s) = rw_measured_v r \<and> rw_measured_v r \<noteq> None \<and> rw_measured_w r \<noteq> None
        | _ \<Rightarrow> False)"

definition rows_sound :: "drive_sample list \<Rightarrow> wheel_config option \<Rightarrow> row list \<Rightarrow> bool" where
  "rows_sound raw config rows \<longleftrightarrow>
     sorted_wrt (<) (map rw_time rows)
     \<and> (case (raw, requireConfig config) of
          (s # _, Inr g) \<Rightarrow> list_all (\<lambda>r. list_ex (row_from g (dm_stamp (sa_drive s)) r) raw) rows
        | ([], Inr g) \<Rightarrow> rows = []
        | _ \<Rightarrow> False)"

lemma command_row: "command_in_force g s (rw_command_rpm (sample_row g s t m))"
  by (auto simp: command_in_force_def sample_row_def Let_def fresh_twist_def split: option.splits prod.splits)

lemma wheel_pair_Some: "wheel_pair a b = Some w \<longleftrightarrow> a = Some (sd_left w) \<and> b = Some (- sd_right w)"
  by (cases a; cases b; cases w) (auto simp: wheel_pair_def forwardWheels_def negate_def)

lemma sample_row_simps [simp]:
  "rw_time (sample_row g s t (src, v, w)) = t"
  "rw_wheels (sample_row g s t (src, v, w)) = w"
  "rw_authority (sample_row g s t (src, v, w)) = src"
  "rw_measured_v (sample_row g s t (src, v, w)) = dm_v (sa_drive s)"
  "rw_measured_w (sample_row g s t (src, v, w)) = dm_w (sa_drive s)"
  by (simp_all add: sample_row_def Let_def)

lemma measured_wheels_Some:
  assumes "measured_wheels g d = Some m"
  obtains (wheel) l r v w where "dm_left d = Some l" "dm_right d = Some r" "m = (WheelSource, v, w)"
      "wm_feedback_valid l" "wm_feedback_valid r" "wm_rpm l = Some (sd_left w)" "wm_rpm r = Some (- sd_right w)"
    | (legacy) v w where "m = (LegacySource, forwardRpm v g, wheelRpm v w g)" "\<not> hasWheelAuthority d"
      "dm_v d = Some v" "dm_w d = Some w"
proof (cases "hasWheelAuthority d")
  case True
  then obtain l r where lr: "dm_left d = Some l" "dm_right d = Some r"
    by (auto simp: hasWheelAuthority_def split: option.splits)
  then obtain w where "wm_feedback_valid l \<and> wm_feedback_valid r"
      "wheel_pair (wm_rpm l) (wm_rpm r) = Some w" "m = (WheelSource, (sd_left w + sd_right w) / 2, w)"
    using assms True by (auto simp: measured_wheels_def wheelAuthority_def Let_def split: option.splits if_splits)
  with lr show thesis
    by (intro wheel [of l r "(sd_left w + sd_right w) / 2" w]) (simp_all add: wheel_pair_Some)
next
  case False
  with assms legacy show thesis
    by (auto simp: measured_wheels_def wheelAuthority_def split: option.splits)
qed

lemma measured_wheels_row:
  assumes "measured_wheels g (sa_drive s) = Some m"
  shows "row_from g start (sample_row g s (dm_stamp (sa_drive s) - start) m) s"
  using assms
proof (cases rule: measured_wheels_Some)
  case wheel
  then show ?thesis
    by (simp add: row_from_def command_row)
next
  case legacy
  then show ?thesis
    by (simp add: row_from_def command_row split: option.split)
qed

lemma drive_rows_from: "r \<in> set (drive_rows g start previous ss) \<Longrightarrow> list_ex (row_from g start r) ss"
  by (induction g start previous ss rule: drive_rows.induct)
     (auto simp: Let_def measured_wheels_row split: option.splits if_splits)

lemma sample_row_time [simp]: "rw_time (sample_row g s t m) = t"
  by (cases m) simp

lemma drive_rows_sorted:
  "sorted_wrt (<) (map rw_time (drive_rows g start previous ss))
    \<and> (case previous of None \<Rightarrow> True | Some p \<Rightarrow> \<forall>r \<in> set (drive_rows g start previous ss). p < rw_time r)"
proof (induction g start previous ss rule: drive_rows.induct)
  case (2 g start previous s ss)
  then show ?case
    by (fastforce simp: Let_def split: option.splits)
qed (simp split: option.splits)

text \<open>
  Whatever was recorded, the measurement rows are in strictly increasing time; every row comes from a
  recorded message whose wheel feedback was valid on both wheels (forward-positive: the right wheel's
  sign turned), or from the chassis velocity of a message of an older bridge; a command is attached
  exactly when one less than a second old was in force; and without a wheel size there are no rows
  but an error.
\<close>

theorem drive_samples_sound:
  "case driveSamples raw config of Inl e \<Rightarrow> requireConfig config = Inl e | Inr rows \<Rightarrow> rows_sound raw config rows"
proof (cases raw)
  case Nil
  then show ?thesis
    by (simp add: driveSamples_def rows_sound_def split: sum.splits)
next
  case (Cons s ss)
  then show ?thesis
    using drive_rows_sorted [of _ "dm_stamp (sa_drive s)" None raw]
      drive_rows_from [of _ _ "dm_stamp (sa_drive s)" None raw]
    by (auto simp: driveSamples_def rows_sound_def list_all_iff split: sum.splits)
qed
section \<open>Holds partition the commanded rows\<close>

definition commanded :: "row \<Rightarrow> bool" where
  "commanded r \<longleftrightarrow> rw_command_rpm r \<noteq> None"

definition one_command :: "real \<Rightarrow> real \<times> row list \<Rightarrow> bool" where
  "one_command tolerance h \<longleftrightarrow>
     snd h \<noteq> [] \<and> rw_command_rpm (hd (snd h)) = Some (fst h)
     \<and> list_all (\<lambda>r. num_holds (\<lambda>c. \<bar>c - fst h\<bar> \<le> tolerance) (rw_command_rpm r)) (snd h)"

definition open_holds :: "(real \<times> row list) list \<Rightarrow> (real \<times> row list) option \<Rightarrow> (real \<times> row list) list" where
  "open_holds holds current = holds @ (case current of None \<Rightarrow> [] | Some h \<Rightarrow> [h])"

lemma hold_rows_partition:
  "concat (map snd (hold_rows tolerance holds current rows))
     = concat (map snd (open_holds holds current)) @ filter commanded rows"
  by (induction tolerance holds current rows rule: hold_rows.induct)
     (auto simp: open_holds_def commanded_def Let_def split: option.splits if_splits)

lemma hold_rows_one_command:
  "0 \<le> tolerance \<Longrightarrow> list_all (one_command tolerance) (open_holds holds current)
    \<Longrightarrow> list_all (one_command tolerance) (hold_rows tolerance holds current rows)"
proof (induction tolerance holds current rows rule: hold_rows.induct)
  case (2 tolerance holds current r rs)
  have single: "one_command tolerance (c, [r])" if "rw_command_rpm r = Some c" for c
    using that 2(5) by (simp add: one_command_def)
  have longer: "one_command tolerance (c0, ks @ [r])"
    if "rw_command_rpm r = Some c" "one_command tolerance (c0, ks)" "\<bar>c - c0\<bar> \<le> tolerance" for c c0 ks
    using that by (simp add: one_command_def)
  show ?case
    using 2 single longer
    by (auto simp: open_holds_def Let_def split: option.splits)
qed (simp add: open_holds_def)

lemma length_spread: "length (spread rows n) \<le> n"
  by (simp add: spread_def Let_def)

lemma spread_in_range:
  assumes "i < n" "n < length rows"
  shows "nat (js_round (real i * ((real (length rows) - 1) / (real n - 1)))) < length rows"
proof -
  define step where "step = (real (length rows) - 1) / (real n - 1)"
  have "real i * step \<le> real (length rows) - 1"
  proof (cases "n = 1")
    case True
    with assms show ?thesis by simp
  next
    case False
    with assms have pos: "0 < real n - 1" by simp
    have "real i * step \<le> (real n - 1) * step"
      using assms pos by (intro mult_right_mono) (auto simp: step_def)
    also have "\<dots> = real (length rows) - 1"
      using pos by (simp add: step_def)
    finally show ?thesis .
  qed
  then have "js_round (real i * step) \<le> js_round (of_int (int (length rows) - 1))"
    using assms by (intro js_round_mono) simp
  then show ?thesis
    using assms unfolding step_def js_round_of_int by linarith
qed

lemma set_spread: "set (spread rows n) \<subseteq> set rows"
  by (auto simp: spread_def Let_def simp del: times_divide_eq_right intro!: nth_mem spread_in_range)

lemma spread_nonempty: "rows \<noteq> [] \<Longrightarrow> 0 < n \<Longrightarrow> spread rows n \<noteq> []"
  by (simp add: spread_def Let_def)

lemma foldl_add: "foldl (+) a xs = a + sum_list (xs :: real list)"
  by (induction xs arbitrary: a) auto

lemma sum_list_close:
  "list_all (\<lambda>x. \<bar>x - c\<bar> \<le> d) xs \<Longrightarrow> \<bar>sum_list xs - real (length xs) * c\<bar> \<le> real (length xs) * (d :: real)"
proof (induction xs)
  case (Cons x xs)
  then have "\<bar>x - c\<bar> \<le> d" "\<bar>sum_list xs - real (length xs) * c\<bar> \<le> real (length xs) * d"
    by auto
  moreover have "sum_list (x # xs) - real (length (x # xs)) * c = (x - c) + (sum_list xs - real (length xs) * c)"
    by (simp add: algebra_simps)
  ultimately show ?case
    by (simp add: algebra_simps)
qed simp

lemma mean_close:
  assumes "list_all (\<lambda>x. \<bar>x - c\<bar> \<le> d) xs" "xs \<noteq> []"
  shows "\<bar>meanOf xs - c\<bar> \<le> d"
proof -
  have n: "0 < real (length xs)"
    using assms by simp
  have "meanOf xs - c = (sum_list xs - real (length xs) * c) / real (length xs)"
    using n by (simp add: meanOf_def foldl_add field_simps)
  then have "\<bar>meanOf xs - c\<bar> = \<bar>sum_list xs - real (length xs) * c\<bar> / real (length xs)"
    by simp
  also have "\<dots> \<le> d"
    using sum_list_close [OF assms(1)] n by (simp add: pos_divide_le_eq mult.commute)
  finally show ?thesis .
qed

text \<open>What a kept hold reports of the hold it came from.\<close>

definition reports :: "capture_settings \<Rightarrow> kept_hold \<Rightarrow> hold \<Rightarrow> bool" where
  "reports settings k h \<longleftrightarrow>
     kh_seconds k = ho_to h - ho_from h \<and> cs_min_hold_seconds settings \<le> kh_seconds k
     \<and> kh_values k \<noteq> [] \<and> length (kh_values k) \<le> cs_repeats settings
     \<and> list_all (\<lambda>v. list_ex (\<lambda>r. ho_from h + cs_settle_seconds settings \<le> rw_time r
           \<and> v = to_fixed VALUE_DIGITS (rw_measured_rpm r)) (ho_rows h)) (kh_values k)
     \<and> \<bar>kh_input k - ho_command h\<bar> \<le> cs_command_tolerance settings + 1 / 20"

lemma keep_hold_reports:
  assumes one: "one_command (cs_command_tolerance settings) c" and m: "measurable settings (rows_hold c)"
    and pos: "0 < cs_repeats settings"
  shows "reports settings (keep_hold settings (rows_hold c)) (rows_hold c)"
proof -
  let ?h = "rows_hold c"
  let ?cs = "map (\<lambda>r. coalesce (rw_command_rpm r) 0) (ho_rows ?h)"
  have "list_all (\<lambda>x. \<bar>x - fst c\<bar> \<le> cs_command_tolerance settings) ?cs" "?cs \<noteq> []"
    using one by (auto simp: one_command_def rows_hold_def list_all_iff num_holds_def split: option.splits)
  then have "\<bar>meanOf ?cs - fst c\<bar> \<le> cs_command_tolerance settings"
    by (rule mean_close)
  moreover have "\<bar>to_fixed 1 (meanOf ?cs) - meanOf ?cs\<bar> \<le> 1 / 20"
    using to_fixed_close [of 1 "meanOf ?cs"] by simp
  ultimately have "\<bar>to_fixed 1 (meanOf ?cs) - fst c\<bar> \<le> cs_command_tolerance settings + 1 / 20"
    by linarith
  moreover have "list_ex (\<lambda>r. ho_from ?h + cs_settle_seconds settings \<le> rw_time r
      \<and> v = to_fixed VALUE_DIGITS (rw_measured_rpm r)) (ho_rows ?h)"
    if "v \<in> set (kh_values (keep_hold settings ?h))" for v
    using that set_spread [of "settled_rows settings ?h"]
    by (auto simp: keep_hold_def settled_rows_def list_ex_iff)
  moreover have "kh_values (keep_hold settings ?h) \<noteq> []"
    using m spread_nonempty [OF _ pos, of "settled_rows settings ?h"]
    by (simp add: keep_hold_def measurable_def)
  moreover have "cs_min_hold_seconds settings \<le> ho_to ?h - ho_from ?h"
    using m by (simp add: measurable_def)
  ultimately show ?thesis
    using length_spread [of "settled_rows settings ?h" "cs_repeats settings"]
    unfolding reports_def list_all_iff
    by (simp add: keep_hold_def INPUT_DIGITS_def rows_hold_def)
qed

definition steady_sound :: "capture_settings \<Rightarrow> row list \<Rightarrow> steady \<Rightarrow> bool" where
  "steady_sound settings rows out \<longleftrightarrow>
     (let holds = commandHolds rows (cs_command_tolerance settings) in
        concat (map ho_rows holds) = filter commanded rows
        \<and> list_all2 (reports settings) (sy_holds out) (filter (measurable settings) holds)
        \<and> sy_skipped out + length (sy_holds out) = length holds
        \<and> length (sy_rows out) \<le> cs_max_rows settings
        \<and> list_all (\<lambda>m. \<not> me_test m \<and> list_ex (\<lambda>k. me_x m = kh_input k \<and> me_y m \<in> set (kh_values k)) (sy_holds out))
            (sy_rows out))"

text \<open>
  The measurement table of a recording: the holds are the rows with a command, in order, cut where the
  command changes by more than 2 rpm or is unknown; a hold is kept exactly when it lasted 2 s and
  settled, and the others are counted; each kept hold gives one to three values, all measured at
  least a second into it, under one input within 2 rpm (and rounding) of its command; and the table
  has at most 200 rows, none held back as a test.
\<close>

theorem steady_measurements_sound:
  "steady_sound CAPTURE_DEFAULTS rows (steadyMeasurements rows CAPTURE_DEFAULTS)"
proof -
  let ?s = CAPTURE_DEFAULTS
  let ?hs = "hold_rows (cs_command_tolerance ?s) [] None rows"
  define hs where "hs = commandHolds rows (cs_command_tolerance ?s)"
  have hs: "hs = map rows_hold ?hs"
    by (simp add: hs_def commandHolds_def)
  have one: "list_all (one_command (cs_command_tolerance ?s)) ?hs"
    by (rule hold_rows_one_command) (simp_all add: CAPTURE_DEFAULTS_def open_holds_def)
  have "reports ?s (keep_hold ?s h) h" if "h \<in> set hs" "measurable ?s h" for h
    using one that by (auto simp: hs list_all_iff CAPTURE_DEFAULTS_def intro!: keep_hold_reports)
  then have "list_all2 (reports ?s) (map (keep_hold ?s) (filter (measurable ?s) hs)) (filter (measurable ?s) hs)"
    by (auto simp: list_all2_map1 intro!: list.rel_refl_strong)
  moreover have "concat (map ho_rows hs) = filter commanded rows"
    using hold_rows_partition [of "cs_command_tolerance ?s" "[]" None rows]
    by (simp add: hs open_holds_def rows_hold_def o_def)
  moreover have "length (filter (\<lambda>h. \<not> measurable ?s h) hs) + length (filter (measurable ?s) hs) = length hs"
    using sum_length_filter_compl [of "measurable ?s" hs] by simp
  ultimately show ?thesis
    unfolding steady_sound_def steadyMeasurements_def Let_def hs_def [symmetric]
    by (auto simp: list_all_iff list_ex_iff dest!: in_set_takeD) blast
qed
section \<open>Metrics and drives\<close>

text \<open>The reference: the first sample from which every later one is in the band.\<close>

definition first_quiet :: "samples \<Rightarrow> real \<Rightarrow> real \<Rightarrow> bool \<Rightarrow> nat \<Rightarrow> nat option" where
  "first_quiet samples target band distance n =
     find (\<lambda>i. list_all (\<lambda>j. \<not> out_of_band samples target band distance j) [i..<n]) [0..<n]"

lemma find_append: "find p (xs @ ys) = (case find p xs of None \<Rightarrow> find p ys | Some x \<Rightarrow> Some x)"
  by (induction xs) auto

lemma first_quiet_Suc:
  "first_quiet samples target band distance (Suc n) =
     (if out_of_band samples target band distance n then None
      else Some (coalesce (first_quiet samples target band distance n) n))"
proof -
  let ?ok = "\<lambda>j. \<not> out_of_band samples target band distance j"
  have "find (\<lambda>i. list_all ?ok [i..<Suc n]) [0..<n] = (if ?ok n then find (\<lambda>i. list_all ?ok [i..<n]) [0..<n] else None)"
  proof (cases "?ok n")
    case True
    then have "find (\<lambda>i. list_all ?ok [i..<Suc n]) [0..<n] = find (\<lambda>i. list_all ?ok [i..<n]) [0..<n]"
      by (intro find_cong) auto
    with True show ?thesis by simp
  qed (auto simp: find_None_iff)
  then show ?thesis
    unfolding first_quiet_def
    by (simp add: find_append coalesce_def split: option.split)
qed

lemma settled_back_first_quiet:
  "settled_back samples target band distance n settling =
     first_some (map_option (\<lambda>i. fst (samples ! i)) (first_quiet samples target band distance n)) settling"
proof (induction n arbitrary: settling)
  case 0
  show ?case by (simp add: first_quiet_def)
next
  case (Suc n)
  then show ?case
    by (cases "first_quiet samples target band distance n") (simp_all add: first_quiet_Suc)
qed

definition deviation :: "real \<Rightarrow> bool \<Rightarrow> real \<times> real \<Rightarrow> real" where
  "deviation target distance s = (if distance then target - snd s else snd s - target)"

definition metrics_sound :: "samples \<Rightarrow> real \<Rightarrow> bool \<Rightarrow> step_metrics \<Rightarrow> bool" where
  "metrics_sound samples target distance m \<longleftrightarrow>
     sp_settling m =
       (case first_quiet samples target (if distance then SETTLE_BAND_DISTANCE else SETTLE_BAND_SPEED)
               distance (length samples) of
          None \<Rightarrow> None
        | Some i \<Rightarrow> if 1 \<le> fst (last samples) - fst (samples ! i) then Some (fst (samples ! i)) else None)
     \<and> 0 \<le> sp_overshoot m \<and> list_all (\<lambda>s. deviation target distance s \<le> sp_overshoot m) samples
     \<and> (sp_overshoot m = 0 \<or> list_ex (\<lambda>s. deviation target distance s = sp_overshoot m) samples)
     \<and> \<bar>sp_final m - target\<bar> \<le> sp_final_error m"

lemma foldl_max:
  "a \<le> foldl max a xs \<and> list_all (\<lambda>x. x \<le> foldl max a xs) xs \<and> foldl max a xs \<in> insert a (set (xs :: real list))"
proof (induction xs arbitrary: a)
  case (Cons x xs)
  from Cons.IH [of "max a x"] show ?case
    by (auto simp: max_def split: if_splits)
qed simp

lemma overshoot_bounds:
  "0 \<le> overshoot_of samples target distance
    \<and> list_all (\<lambda>s. deviation target distance s \<le> overshoot_of samples target distance) samples
    \<and> (overshoot_of samples target distance = 0
        \<or> list_ex (\<lambda>s. deviation target distance s = overshoot_of samples target distance) samples)"
proof -
  have "overshoot_of samples target distance = foldl max 0 (map (deviation target distance) samples)"
    unfolding overshoot_of_def by (simp add: deviation_def [abs_def])
  then show ?thesis
    using foldl_max [of 0 "map (deviation target distance) samples"]
    by (auto simp: list_all_iff list_ex_iff)
qed

lemma sum_list_abs: "\<bar>sum_list (map f xs) - real (length xs) * c\<bar> \<le> sum_list (map (\<lambda>x. \<bar>f x - c\<bar>) xs)"
  by (induction xs) (auto simp: algebra_simps)

lemma mean_error: "xs \<noteq> [] \<Longrightarrow> \<bar>meanOf (map f xs) - c\<bar> \<le> meanOf (map (\<lambda>x. \<bar>f x - c\<bar>) xs)"
proof -
  assume ne: "xs \<noteq> []"
  then have "meanOf (map f xs) - c = (sum_list (map f xs) - real (length xs) * c) / real (length xs)"
    by (simp add: meanOf_def foldl_add field_simps)
  then have "\<bar>meanOf (map f xs) - c\<bar> = \<bar>sum_list (map f xs) - real (length xs) * c\<bar> / real (length xs)"
    by simp
  then show ?thesis
    using sum_list_abs [of f xs c] by (simp add: meanOf_def foldl_add divide_right_mono)
qed

lemma tail_of_nonempty: "samples \<noteq> [] \<Longrightarrow> tail_of samples \<noteq> []"
  by (auto simp: tail_of_def filter_empty_conv RUN_TAIL_SECONDS_def intro!: bexI [of _ "last samples"])

text \<open>
  The metrics of a run: the settling time is that of the first sample from which every later one stays
  in the band (and, towards a wall, the robot stands still), given only when at least a second of the
  run remains; the overshoot is the largest deviation past the target and never negative; and the
  final error is at least the distance of the final value from the target. Only an empty run has
  none.
\<close>

theorem step_metrics_sound:
  "case stepMetrics samples target distance of
     None \<Rightarrow> samples = []
   | Some m \<Rightarrow> metrics_sound samples target distance m"
proof (cases "samples = []")
  case False
  let ?final = "meanOf (map snd (tail_of samples))"
  obtain delay tau where fit: "(if distance then (None, None) else firstOrderFit samples ?final) = (delay, tau)"
    by (metis prod.exhaust)
  define m where "m = \<lparr>sp_target = target, sp_final = ?final,
    sp_final_error = meanOf (map (\<lambda>s. \<bar>snd s - target\<bar>) (tail_of samples)),
    sp_overshoot = overshoot_of samples target distance,
    sp_settling = (case settledFrom samples target (if distance then SETTLE_BAND_DISTANCE else SETTLE_BAND_SPEED) distance of
       None \<Rightarrow> None | Some t \<Rightarrow> if 1 \<le> fst (last samples) - t then Some t else None),
    sp_gain = (if distance \<or> target = 0 then None else Some (?final / target)), sp_delay = delay, sp_tau = tau\<rparr>"
  have some: "stepMetrics samples target distance = Some m"
    unfolding stepMetrics_def Let_def fit prod.case m_def using False by (simp only: if_False)
  have fields: "sp_overshoot m = overshoot_of samples target distance"
    "sp_final m = ?final" "sp_final_error m = meanOf (map (\<lambda>s. \<bar>snd s - target\<bar>) (tail_of samples))"
    by (simp_all add: m_def)
  have settling: "sp_settling m =
       (case first_quiet samples target (if distance then SETTLE_BAND_DISTANCE else SETTLE_BAND_SPEED)
               distance (length samples) of
          None \<Rightarrow> None
        | Some i \<Rightarrow> if 1 \<le> fst (last samples) - fst (samples ! i) then Some (fst (samples ! i)) else None)"
    using False by (simp add: m_def settledFrom_def settled_back_first_quiet split: option.splits)
  show ?thesis
    using overshoot_bounds [of samples target distance] settling
      mean_error [OF tail_of_nonempty [OF False], of snd target]
    unfolding some option.case metrics_sound_def fields by blast
qed (simp add: stepMetrics_def)

lemma hypot_triangle: "hypot (x2 - x0) (y2 - y0) \<le> hypot (x1 - x0) (y1 - y0) + hypot (x2 - x1) (y2 - y1)"
  using real_sqrt_sum_squares_triangle_ineq [of "x1 - x0" "x2 - x1" "y1 - y0" "y2 - y1"]
  by (simp add: hypot_def power2_eq_square)

lemma path_at_least:
  "ps \<noteq> [] \<Longrightarrow> hypot (po_x (last ps) - po_x (hd ps)) (po_y (last ps) - po_y (hd ps)) \<le> path_length ps"
proof (induction ps rule: path_length.induct)
  case (1 p q ps)
  then show ?case
    using hypot_triangle [of "po_x (last (q # ps))" "po_x p" "po_y (last (q # ps))" "po_y p" "po_x q" "po_y q"]
    by simp
qed (simp_all add: hypot_def)

lemma finishMove_sound: "ps \<noteq> [] \<Longrightarrow> mv_distance (finishMove ps) \<le> mv_path (finishMove ps)
    \<and> - pi < mv_turn (finishMove ps) \<and> mv_turn (finishMove ps) \<le> pi"
  by (simp add: finishMove_def Let_def path_at_least wrap_angle_bounds)

definition move_sound :: "move \<Rightarrow> bool" where
  "move_sound m \<longleftrightarrow> MIN_MOVE \<le> mv_distance m \<and> mv_distance m \<le> mv_path m
     \<and> - pi < mv_turn m \<and> mv_turn m \<le> pi"

text \<open>The loop keeps every drive under way nonempty and every finished one sound.\<close>

definition moves_ok :: "moves_state \<Rightarrow> bool" where
  "moves_ok st \<longleftrightarrow> ms_current st \<noteq> Some []
     \<and> list_all (\<lambda>m. mv_distance m \<le> mv_path m \<and> - pi < mv_turn m \<and> mv_turn m \<le> pi) (ms_moves st)"

lemma moves_step_ok: "moves_ok st \<Longrightarrow> moves_ok (moves_step st pose)"
  using finishMove_sound by (auto simp: moves_ok_def moves_step_def Let_def split: option.splits)

lemma moves_fold_ok: "moves_ok st \<Longrightarrow> moves_ok (foldl moves_step st poses)"
  by (induction poses arbitrary: st) (simp_all add: moves_step_ok)

text \<open>
  Every drive reported from /odom covered at least 2 cm between its ends, its straight-line distance
  (what a tape measures) is never more than the path the wheels made, and its turn is an angle in
  (-pi, pi].
\<close>

theorem odom_moves_sound: "list_all move_sound (odomMoves odoms)"
proof -
  define st where "st = foldl moves_step \<lparr>ms_before = None, ms_current = None, ms_still_since = None, ms_moves = []\<rparr>
    (List.map_filter (pose_of (case odoms of [] \<Rightarrow> 0 | o' # _ \<Rightarrow> om_stamp o')) odoms)"
  have "moves_ok st"
    unfolding st_def by (rule moves_fold_ok) (simp add: moves_ok_def)
  then show ?thesis
    unfolding odomMoves_def Let_def st_def [symmetric]
    using finishMove_sound
    by (cases "ms_current st") (auto simp: moves_ok_def move_sound_def list_all_iff)
qed

end
