(* ===== verification/Js_Number.thy ===== *)
theory Js_Number
  imports Json Js_Text
begin

text \<open>
  The number JavaScript makes of a value before it compares or multiplies it (\<open>ToNumber\<close>): \<open>undefined\<close> is NaN,
  \<open>null\<close> is 0, a text is read as a number literal, a list as its elements joined by commas. A literal beyond the
  largest double is infinite and one closer to 0 than half the smallest is 0, as rounding makes them.
\<close>

datatype js_number = Fin real | Infinite bool | NaN

section \<open>Number literals\<close>

definition HUGE :: real where "HUGE = 2 ^ 1024 - 2 ^ 970"
definition TINY :: real where "TINY = 1 / 2 ^ 1075"

definition rounded :: "real \<Rightarrow> js_number" where
  "rounded x = (if x \<ge> HUGE then Infinite True else if x \<le> - HUGE then Infinite False
     else if \<bar>x\<bar> \<le> TINY then Fin 0 else Fin x)"

definition hex_digit :: "char \<Rightarrow> nat option" where
  "hex_digit c =
     (let n = (of_char c :: nat) in
      if 48 \<le> n \<and> n \<le> 57 then Some (n - 48) else if 97 \<le> n \<and> n \<le> 102 then Some (n - 87)
      else if 65 \<le> n \<and> n \<le> 70 then Some (n - 55) else None)"

fun radix_digits :: "nat \<Rightarrow> string \<Rightarrow> nat \<Rightarrow> nat option" where
  "radix_digits base [] n = Some n"
| "radix_digits base (c # cs) n =
     (case hex_digit c of None \<Rightarrow> None | Some d \<Rightarrow> if d < base then radix_digits base cs (base * n + d) else None)"

text \<open>The base that the second character of \<open>0x\<close>, \<open>0o\<close>, \<open>0b\<close> names.\<close>

definition radix_of :: "char \<Rightarrow> nat option" where
  "radix_of c =
     (if c \<in> {CHR ''x'', CHR ''X''} then Some 16 else if c \<in> {CHR ''o'', CHR ''O''} then Some 8
      else if c \<in> {CHR ''b'', CHR ''B''} then Some 2 else None)"

definition signed :: "string \<Rightarrow> real \<times> string" where
  "signed s =
     (case s of [] \<Rightarrow> (1, []) | c # rest \<Rightarrow>
        if c = CHR ''+'' then (1, rest) else if c = CHR ''-'' then (- 1, rest) else (1, s))"

definition mantissa :: "string \<Rightarrow> real option" where
  "mantissa s =
     (case split_on (CHR ''.'') s of
        [units] \<Rightarrow> if units \<noteq> [] \<and> list_all is_digit units then Some (real (to_nat units 0)) else None
      | [units, decimals] \<Rightarrow>
          if list_all is_digit units \<and> list_all is_digit decimals \<and> (units \<noteq> [] \<or> decimals \<noteq> [])
          then Some (real (to_nat units 0) + real (to_nat decimals 0) / 10 ^ length decimals) else None
      | _ \<Rightarrow> None)"

text \<open>The factor of the exponent; \<open>None\<close> when it is not one.\<close>

definition exponent :: "string \<Rightarrow> real option" where
  "exponent e =
     (case e of [] \<Rightarrow> Some 1 | c # rest \<Rightarrow>
        let (sign, digits) = signed rest in
        if digits = [] \<or> \<not> list_all is_digit digits then None
        else Some (if sign < 0 then 1 / 10 ^ to_nat digits 0 else 10 ^ to_nat digits 0))"

definition is_e :: "char \<Rightarrow> bool" where
  "is_e c \<longleftrightarrow> c = CHR ''e'' \<or> c = CHR ''E''"

definition decimal_literal :: "string \<Rightarrow> js_number" where
  "decimal_literal s =
     (let (sign, body) = signed s in
      if body = ''Infinity'' then Infinite (sign > 0)
      else case (mantissa (takeWhile (\<lambda>c. \<not> is_e c) body), exponent (dropWhile (\<lambda>c. \<not> is_e c) body)) of
          (Some m, Some e) \<Rightarrow> rounded (sign * (m * e))
        | _ \<Rightarrow> NaN)"

definition text_number :: "string \<Rightarrow> js_number" where
  "text_number s =
     (case trim s of
        [] \<Rightarrow> Fin 0
      | c # d # rest \<Rightarrow>
          (case (if c = CHR ''0'' then radix_of d else None) of
             None \<Rightarrow> decimal_literal (c # d # rest)
           | Some base \<Rightarrow>
               (case (if rest = [] then None else radix_digits base rest 0) of
                  None \<Rightarrow> NaN | Some n \<Rightarrow> rounded (real n)))
      | t \<Rightarrow> decimal_literal t)"

section \<open>Values\<close>

text \<open>Of a list, the text of its elements joined by commas: with two or more it has a comma and is no number.\<close>

fun element_number :: "json \<Rightarrow> js_number" where
  "element_number JNull = Fin 0"
| "element_number (JBool b) = NaN"
| "element_number (JNum x) = Fin x"
| "element_number (JInf positive) = Infinite positive"
| "element_number (JStr s) = text_number s"
| "element_number (JArr []) = Fin 0"
| "element_number (JArr [v]) = element_number v"
| "element_number (JArr (v # w # vs)) = NaN"
| "element_number (JObj es) = NaN"

definition to_number :: "json option \<Rightarrow> js_number" where
  "to_number v =
     (case v of None \<Rightarrow> NaN | Some (JBool b) \<Rightarrow> Fin (if b then 1 else 0) | Some j \<Rightarrow> element_number j)"

text \<open>\<open>v > 0\<close>.\<close>

definition above_zero :: "json option \<Rightarrow> bool" where
  "above_zero v = (case to_number v of Fin x \<Rightarrow> x > 0 | Infinite positive \<Rightarrow> positive | NaN \<Rightarrow> False)"

text \<open>The value where it is a finite number.\<close>

definition finite_number :: "json option \<Rightarrow> num" where
  "finite_number v = (case to_number v of Fin x \<Rightarrow> Some x | _ \<Rightarrow> None)"

lemma number_simps [simp]:
  "to_number None = NaN" "to_number (Some JNull) = Fin 0" "to_number (Some (JNum x)) = Fin x"
  "to_number (Some (JInf positive)) = Infinite positive" "to_number (Some (JStr s)) = text_number s"
  "to_number (Some (JObj es)) = NaN" "to_number (Some (JBool b)) = Fin (if b then 1 else 0)"
  by (simp_all add: to_number_def)

lemma finite_number_JNum [simp]: "finite_number (Some (JNum x)) = Some x"
  by (simp add: finite_number_def)

lemma above_zero_examples:
  "above_zero (Some (JStr ''0.05''))" "above_zero (Some (JStr '' 5e-2 ''))" "above_zero (Some (JBool True))"
  "above_zero (Some (JArr [JNum 5]))" "above_zero (Some (JInf True))" "above_zero (Some (JStr ''0x1f''))"
  "\<not> above_zero (Some (JStr ''5 cm''))" "\<not> above_zero (Some JNull)" "\<not> above_zero None" "\<not> above_zero (Some (JArr [JNum 1, JNum 2]))"
  by (simp_all add: above_zero_def to_number_def text_number_def decimal_literal_def signed_def mantissa_def exponent_def
      is_e_def rounded_def HUGE_def TINY_def trim_def is_space_def is_digit_def radix_of_def hex_digit_def Let_def)

end
