(* ===== verification/Recording_Core.thy ===== *)
theory Recording_Core
  imports Capture_Core Js_Number
begin

text \<open>
  \<open>lab/js/live/recording-core.js\<close>: a recording as a value that outlives the page. Messages stay the JSON
  values the bridge sent; a recording is built, saved, opened again, paired by stamp, and written as
  CSV. \<open>Date\<close> and the local time zone are the browser's: a date arrives already split, as
  \<open>local_time\<close>. The wheel sizes are kept as the file has them; where the code compares or multiplies one it
  takes the number JavaScript makes of it (\<open>Js_Number\<close>). The rows and tables computed from a recording with an
  infinite wheel size are not modelled.
\<close>

section \<open>Texts of a run\<close>

definition RECORDING_FORMAT :: string where "RECORDING_FORMAT = ''questix-lab-recording''"
definition RECORDING_VERSION :: int where "RECORDING_VERSION = 1"
definition RECORDING_STREAMS :: "string list" where
  "RECORDING_STREAMS = [''drive'', ''twist'', ''scan'', ''odom'', ''roller'', ''shot'', ''estop'']"
definition MAX_RECORDING_MESSAGES :: nat where "MAX_RECORDING_MESSAGES = 200000"
definition MAX_TEXT :: nat where "MAX_TEXT = 60"
definition MAX_GROUP :: nat where "MAX_GROUP = 30"

definition utf8 :: "nat list \<Rightarrow> string" where
  "utf8 bytes = map char_of bytes"

definition UNKNOWN_CONDITIONS :: string where
  "UNKNOWN_CONDITIONS = utf8 [0xe8, 0xa8, 0xad, 0xe5, 0xae, 0x9a, 0xef, 0xbc, 0x9a, 0xe4, 0xb8, 0x8d, 0xe6, 0x98, 0x8e]"

definition MIDDLE_DOT :: string where "MIDDLE_DOT = utf8 [0xe3, 0x83, 0xbb]"
definition BOM :: string where "BOM = utf8 [0xef, 0xbb, 0xbf]"

definition cleanText :: "json option \<Rightarrow> nat \<Rightarrow> string" where
  "cleanText v n = (case v of Some (JStr s) \<Rightarrow> take n (trim s) | _ \<Rightarrow> [])"

definition or_else :: "string \<Rightarrow> string \<Rightarrow> string" where
  "or_else a b = (if a = [] then b else a)"

text \<open>\<open>Number.isFinite(values[key])\<close>, with the number.\<close>

definition num_field :: "(string \<times> json) list \<Rightarrow> string \<Rightarrow> num" where
  "num_field values key = jnum (map_of values key)"

definition gains_of :: "(string \<times> json) list \<Rightarrow> (string \<times> real) list" where
  "gains_of values =
     List.map_filter (\<lambda>(name, key). map_option (Pair name) (num_field values key))
       [(''P'', ''kp''), (''I'', ''ki''), (''D'', ''kd'')]"

definition conditionsText :: "(string \<times> json) list \<Rightarrow> string" where
  "conditionsText values =
     (case num_field values ''speed'' of
        Some v \<Rightarrow> fixed_text 2 v @ '' m/s''
      | None \<Rightarrow> join MIDDLE_DOT (map (\<lambda>(name, v). name @ '' '' @ show_num v) (gains_of values)))"

record conditions =
  cn_values :: "(string \<times> json) list"
  cn_label :: string

record robot_name =
  rn_name :: string
  rn_domain :: "int option"

record outcome =
  oc_reason :: string
  oc_label :: string

record run_info =
  ri_lesson :: "string option"
  ri_conditions :: "conditions option"
  ri_robot :: "robot_name option"
  ri_group :: "string option"
  ri_outcome :: "outcome option"

definition keep_condition :: "string \<times> json \<Rightarrow> (string \<times> json) option" where
  "keep_condition entry =
     (let (key, item) = entry in
      if key = ''label'' then None
      else case item of
        JNum n \<Rightarrow> Some (key, item)
      | JStr s \<Rightarrow> Some (key, JStr (cleanText (Some item) MAX_TEXT))
      | JBool b \<Rightarrow> Some (key, item)
      | _ \<Rightarrow> None)"

definition cleanConditions :: "json option \<Rightarrow> conditions option" where
  "cleanConditions v =
     (case v of
        Some (JStr s) \<Rightarrow>
          (let label = cleanText v MAX_TEXT in
           if label = [] then None else Some \<lparr>cn_values = [], cn_label = label\<rparr>)
      | Some (JObj entries) \<Rightarrow>
          (let kept = List.map_filter keep_condition entries;
               label = or_else (cleanText (jfield v ''label'') MAX_TEXT) (conditionsText kept) in
           if label = [] \<and> kept = [] then None else Some \<lparr>cn_values = kept, cn_label = label\<rparr>)
      | _ \<Rightarrow> None)"

definition cleanRobot :: "json option \<Rightarrow> robot_name option" where
  "cleanRobot v =
     (if \<not> is_object v then None
      else
        let name = cleanText (jfield v ''name'') MAX_TEXT; domain = jint (jfield v ''domain'') in
        if name \<noteq> [] \<or> domain \<noteq> None then Some \<lparr>rn_name = name, rn_domain = domain\<rparr> else None)"

definition cleanOutcome :: "json option \<Rightarrow> outcome option" where
  "cleanOutcome v =
     (let reason = cleanText (jfield v ''reason'') 40 in
      if reason = [] then None
      else Some \<lparr>oc_reason = reason, oc_label = cleanText (jfield v ''label'') MAX_TEXT\<rparr>)"

definition nonempty :: "string \<Rightarrow> string option" where
  "nonempty s = (if s = [] then None else Some s)"

definition runInfo :: "json option \<Rightarrow> run_info" where
  "runInfo v =
     \<lparr>ri_lesson = nonempty (cleanText (jfield v ''lesson'') MAX_TEXT),
      ri_conditions = cleanConditions (jfield v ''conditions''),
      ri_robot = cleanRobot (jfield v ''robot''),
      ri_group = nonempty (cleanText (jfield v ''group'') MAX_GROUP),
      ri_outcome = cleanOutcome (jfield v ''outcome'')\<rparr>"

text \<open>\<open>{...a, ...b}\<close>: what \<open>b\<close> does not have is left as it was.\<close>

definition merge_info :: "run_info \<Rightarrow> run_info \<Rightarrow> run_info" where
  "merge_info a b =
     \<lparr>ri_lesson = first_some (ri_lesson b) (ri_lesson a),
      ri_conditions = first_some (ri_conditions b) (ri_conditions a),
      ri_robot = first_some (ri_robot b) (ri_robot a),
      ri_group = first_some (ri_group b) (ri_group a),
      ri_outcome = first_some (ri_outcome b) (ri_outcome a)\<rparr>"

section \<open>Recordings\<close>

record wheel_sizes =
  wz_radius :: "json option"
  wz_separation :: "json option"

record recording =
  rc_source :: "json option"
  rc_name :: "json option"
  rc_recorded_at :: "json option"
  rc_config :: wheel_sizes
  rc_topics :: json
  rc_streams :: "(string \<times> json list) list"
  rc_info :: run_info

datatype recording_error = Unreadable | NotRecording | OtherVersion | NoWheels | NotAList string | TooLong

definition stamp_of :: "json \<Rightarrow> num" where
  "stamp_of m = jnum (jfield (Some m) ''stamp'')"

definition stamp :: "json \<Rightarrow> real" where
  "stamp m = coalesce (stamp_of m) 0"

definition sortedByStamp :: "json list \<Rightarrow> json list" where
  "sortedByStamp ms = sort_key stamp (filter (\<lambda>m. stamp_of m \<noteq> None) ms)"

definition withRunInfo :: "recording \<Rightarrow> json option \<Rightarrow> recording" where
  "withRunInfo r info = r\<lparr>rc_info := merge_info (rc_info r) (runInfo info)\<rparr>"

fun as_list :: "json option \<Rightarrow> json list option" where
  "as_list (Some (JArr ms)) = Some ms"
| "as_list _ = None"

definition kept_streams :: "json option \<Rightarrow> (string \<times> json list) list" where
  "kept_streams streams =
     List.map_filter (\<lambda>s. map_option (\<lambda>ms. (s, sortedByStamp ms)) (as_list (jfield streams s))) RECORDING_STREAMS"

definition wheels_of :: "json option \<Rightarrow> wheel_sizes" where
  "wheels_of config =
     \<lparr>wz_radius = jfield config ''wheel_radius'', wz_separation = jfield config ''wheel_separation''\<rparr>"

text \<open>The sizes as the numbers the rows are computed with.\<close>

definition size_numbers :: "wheel_sizes \<Rightarrow> wheel_config" where
  "size_numbers c =
     \<lparr>wc_wheel_radius = finite_number (wz_radius c), wc_wheel_separation = finite_number (wz_separation c)\<rparr>"

text \<open>The parts of a recording, as an object with its streams.\<close>

definition makeRecording :: "json \<Rightarrow> json option \<Rightarrow> recording" where
  "makeRecording data streams =
     (let v = Some data in
      \<lparr>rc_source = jfield v ''source'', rc_name = jfield v ''name'', rc_recorded_at = jfield v ''recordedAt'',
       rc_config = wheels_of (jfield v ''config''), rc_topics = coalesce (jfield v ''topics'') (JObj []),
       rc_streams = kept_streams streams, rc_info = runInfo v\<rparr>)"

definition checkConfig :: "json option \<Rightarrow> bool" where
  "checkConfig config \<longleftrightarrow>
     \<not> (\<not> jtruthy config \<or> \<not> above_zero (jfield config ''wheel_radius'') \<or> \<not> above_zero (jfield config ''wheel_separation''))"

fun count_messages :: "json option \<Rightarrow> string list \<Rightarrow> nat \<Rightarrow> recording_error + nat" where
  "count_messages streams [] n = Inr n"
| "count_messages streams (s # ss) n =
     (case jfield streams s of
        None \<Rightarrow> count_messages streams ss n
      | Some v \<Rightarrow>
          (case as_list (Some v) of
             None \<Rightarrow> Inl (NotAList s)
           | Some ms \<Rightarrow> count_messages streams ss (n + length ms)))"

text \<open>What \<open>JSON.parse\<close> made of the file's text; \<open>None\<close> when it refused it.\<close>

definition parseRecording :: "json option \<Rightarrow> recording_error + recording" where
  "parseRecording file =
     (case file of
        None \<Rightarrow> Inl Unreadable
      | Some data \<Rightarrow>
          if jfield file ''format'' \<noteq> Some (JStr RECORDING_FORMAT) then Inl NotRecording
          else if jfield file ''version'' \<noteq> Some (JInt RECORDING_VERSION) then Inl OtherVersion
          else if \<not> checkConfig (jfield file ''config'') then Inl NoWheels
          else
            let streams = (if is_object (jfield file ''streams'') then jfield file ''streams'' else Some (JObj [])) in
            case count_messages streams RECORDING_STREAMS 0 of
              Inl e \<Rightarrow> Inl e
            | Inr n \<Rightarrow> if n > MAX_RECORDING_MESSAGES then Inl TooLong else Inr (makeRecording data streams))"

section \<open>Saving\<close>

definition opt_field :: "string \<Rightarrow> json option \<Rightarrow> (string \<times> json) list" where
  "opt_field key v = (case v of None \<Rightarrow> [] | Some j \<Rightarrow> [(key, j)])"

definition conditions_json :: "conditions \<Rightarrow> json" where
  "conditions_json c = JObj (cn_values c @ [(''label'', JStr (cn_label c))])"

definition robot_json :: "robot_name \<Rightarrow> json" where
  "robot_json r = JObj [(''name'', JStr (rn_name r)),
     (''domain'', case rn_domain r of None \<Rightarrow> JNull | Some d \<Rightarrow> JInt d)]"

definition outcome_json :: "outcome \<Rightarrow> json" where
  "outcome_json oc = JObj [(''reason'', JStr (oc_reason oc)), (''label'', JStr (oc_label oc))]"

definition info_fields :: "run_info \<Rightarrow> (string \<times> json) list" where
  "info_fields i =
     opt_field ''lesson'' (map_option JStr (ri_lesson i))
     @ opt_field ''conditions'' (map_option conditions_json (ri_conditions i))
     @ opt_field ''robot'' (map_option robot_json (ri_robot i))
     @ opt_field ''group'' (map_option JStr (ri_group i))
     @ opt_field ''outcome'' (map_option outcome_json (ri_outcome i))"

definition config_json :: "wheel_sizes \<Rightarrow> json" where
  "config_json c = JObj (opt_field ''wheel_radius'' (wz_radius c) @ opt_field ''wheel_separation'' (wz_separation c))"

text \<open>What \<open>JSON.stringify\<close> writes of a value: an infinite number becomes \<open>null\<close>.\<close>

fun written :: "json \<Rightarrow> json" where
  "written (JInf positive) = JNull"
| "written (JArr vs) = JArr (map written vs)"
| "written (JObj es) = JObj (map (\<lambda>(key, v). (key, written v)) es)"
| "written v = v"

text \<open>The object handed to \<open>JSON.stringify\<close>: a field that is \<open>undefined\<close> is left out.\<close>

definition saved_object :: "recording \<Rightarrow> json" where
  "saved_object r = JObj (
     [(''format'', JStr RECORDING_FORMAT), (''version'', JInt RECORDING_VERSION)]
     @ opt_field ''source'' (rc_source r) @ opt_field ''name'' (rc_name r)
     @ opt_field ''recordedAt'' (rc_recorded_at r)
     @ [(''config'', config_json (rc_config r)), (''topics'', rc_topics r),
        (''streams'', JObj (map (\<lambda>(s, ms). (s, JArr ms)) (rc_streams r)))]
     @ info_fields (rc_info r))"

definition serializeRecording :: "recording \<Rightarrow> json" where
  "serializeRecording r = written (saved_object r)"

section \<open>Reading a recording\<close>

definition messages_of :: "recording \<Rightarrow> string \<Rightarrow> json list" where
  "messages_of r s = coalesce (map_of (rc_streams r) s) []"

record recording_summary =
  rsu_seconds :: real
  rsu_counts :: "(string \<times> nat) list"

definition end_stamps :: "json list \<Rightarrow> real list" where
  "end_stamps ms = (if ms = [] then [] else [stamp (hd ms), stamp (last ms)])"

definition max_of :: "real list \<Rightarrow> real" where
  "max_of xs = foldl max (hd xs) (tl xs)"

definition min_of :: "real list \<Rightarrow> real" where
  "min_of xs = foldl min (hd xs) (tl xs)"

definition recordingSummary :: "recording \<Rightarrow> recording_summary" where
  "recordingSummary r =
     (let stamps = concat (map (\<lambda>(s, ms). end_stamps ms) (rc_streams r)) in
      \<lparr>rsu_seconds = (if stamps = [] then 0 else max_of stamps - min_of stamps),
       rsu_counts = map (\<lambda>(s, ms). (s, length ms)) (rc_streams r)\<rparr>)"

definition missingInRecording :: "recording \<Rightarrow> string list \<Rightarrow> string list" where
  "missingInRecording r needed = filter (\<lambda>s. messages_of r s = []) needed"

record sample =
  sp_message :: json
  sp_partners :: "(string \<times> json option) list"

text \<open>The \<open>while\<close> loop: the cursor moves past the messages not after \<open>t\<close>.\<close>

definition advance :: "json list \<Rightarrow> real \<Rightarrow> nat \<Rightarrow> nat" where
  "advance ms t cursor = cursor + length (takeWhile (\<lambda>m. stamp m \<le> t) (drop cursor ms))"

definition partner :: "json list \<Rightarrow> real option \<Rightarrow> real \<Rightarrow> nat \<Rightarrow> json option" where
  "partner ms freshSeconds t cursor =
     (if cursor = 0 then None
      else
        let latest = ms ! (cursor - 1) in
        if (case freshSeconds of None \<Rightarrow> True | Some f \<Rightarrow> t - stamp latest \<le> f) then Some latest else None)"

fun pair_all :: "recording \<Rightarrow> string list \<Rightarrow> real option \<Rightarrow> (string \<Rightarrow> nat) \<Rightarrow> json list \<Rightarrow> sample list" where
  "pair_all r pair freshSeconds cursors [] = []"
| "pair_all r pair freshSeconds cursors (m # ms) =
     (let next = (\<lambda>name. if name \<in> set pair then advance (messages_of r name) (stamp m) (cursors name) else cursors name) in
      \<lparr>sp_message = m,
       sp_partners = map (\<lambda>name. (name, partner (messages_of r name) freshSeconds (stamp m) (next name))) pair\<rparr>
      # pair_all r pair freshSeconds next ms)"

text \<open>\<open>freshSeconds\<close> is \<open>None\<close> for the default, \<open>Infinity\<close>.\<close>

definition pairByStamp :: "recording \<Rightarrow> string \<Rightarrow> string list \<Rightarrow> real option \<Rightarrow> sample list" where
  "pairByStamp r trigger pair freshSeconds =
     pair_all r pair freshSeconds (\<lambda>name. 0) (messages_of r trigger)"

section \<open>The messages as the capture functions read them\<close>

definition wheel_of :: "json option \<Rightarrow> wheel_msg option" where
  "wheel_of v =
     (if \<not> is_object v then None
      else Some \<lparr>wm_rpm = jnum (jfield v ''rpm''), wm_rpm_raw = jnum (jfield v ''rpm_raw''),
        wm_target_rpm = jnum (jfield v ''target_rpm''), wm_current_amp = jnum (jfield v ''current_amp''),
        wm_fault_code = jnum (jfield v ''fault_code''),
        wm_has_feedback = (jfield v ''feedback_stamp'' \<noteq> None),
        wm_feedback_stamp = jnum (jfield v ''feedback_stamp''),
        wm_feedback_age = jnum (jfield v ''feedback_age_sec''),
        wm_feedback_valid = (jfield v ''feedback_valid'' = Some (JBool True))\<rparr>)"

definition drive_of :: "json \<Rightarrow> drive_msg" where
  "drive_of m =
     (let v = Some m in
      \<lparr>dm_stamp = stamp m, dm_bridge_stamp = jnum (jfield v ''bridge_stamp''),
       dm_left = wheel_of (jfield v ''left''), dm_right = wheel_of (jfield v ''right''),
       dm_v = jnum (jfield v ''v''), dm_w = jnum (jfield v ''w''),
       dm_emergency_stop = jtruthy (jfield v ''emergency_stop'')\<rparr>)"

definition twist_of :: "json \<Rightarrow> twist_msg" where
  "twist_of m = \<lparr>tw_stamp = stamp m, tw_linear = jnum (jfield (Some m) ''linear''),
     tw_angular = jnum (jfield (Some m) ''angular'')\<rparr>"

definition mount_view :: "json option \<Rightarrow> mount option" where
  "mount_view v =
     (if \<not> is_object v then None
      else Some \<lparr>mt_x = jnum (jfield v ''x''), mt_y = jnum (jfield v ''y''), mt_yaw = jnum (jfield v ''yaw'')\<rparr>)"

definition scan_of :: "json \<Rightarrow> scan_msg" where
  "scan_of m =
     (let v = Some m in
      \<lparr>sm_stamp = stamp m, sm_frame = coalesce (jstring (jfield v ''frame'')) [],
       sm_angle_min = jnum (jfield v ''angle_min''), sm_angle_increment = jnum (jfield v ''angle_increment''),
       sm_range_min = jnum (jfield v ''range_min''), sm_range_max = jnum (jfield v ''range_max''),
       sm_ranges = map (\<lambda>j. jnum (Some j)) (coalesce (as_list (jfield v ''ranges'')) []),
       sm_mount = mount_view (jfield v ''mount'')\<rparr>)"

definition odom_of :: "json \<Rightarrow> odom_msg" where
  "odom_of m =
     (let v = Some m in
      \<lparr>om_stamp = stamp m, om_x = jnum (jfield v ''x''), om_y = jnum (jfield v ''y''),
       om_theta = jnum (jfield v ''theta''), om_v = jnum (jfield v ''v''), om_w = jnum (jfield v ''w'')\<rparr>)"

definition partner_of :: "sample \<Rightarrow> string \<Rightarrow> json option" where
  "partner_of s name = Option.bind (map_of (sp_partners s) name) id"

definition driveRows :: "recording \<Rightarrow> capture_error + (row list \<times> capture_summary)" where
  "driveRows r =
     (let samples = map (\<lambda>s. \<lparr>sa_drive = drive_of (sp_message s),
            sa_twist = map_option twist_of (partner_of s ''twist'')\<rparr>) (pairByStamp r ''drive'' [''twist''] None) in
      map_sum id (\<lambda>rows. (rows, captureSummary rows)) (driveSamples samples (Some (size_numbers (rc_config r)))))"

definition wallRows :: "recording \<Rightarrow> distance_row list" where
  "wallRows r = distanceSamples (map scan_of (messages_of r ''scan''))"

definition drivesOf :: "recording \<Rightarrow> move list" where
  "drivesOf r = odomMoves (map odom_of (messages_of r ''odom''))"

definition COMMAND_MOVING :: real where "COMMAND_MOVING = 1 / 1000"

definition moving_command :: "json \<Rightarrow> bool" where
  "moving_command m \<longleftrightarrow>
     num_holds (\<lambda>v. \<bar>v\<bar> > COMMAND_MOVING) (tw_linear (twist_of m))
     \<or> num_holds (\<lambda>w. \<bar>w\<bar> > COMMAND_MOVING) (tw_angular (twist_of m))"

definition commandZero :: "recording \<Rightarrow> real" where
  "commandZero r =
     (let commands = filter (\<lambda>m. tw_linear (twist_of m) \<noteq> None \<and> tw_angular (twist_of m) \<noteq> None)
            (messages_of r ''twist'') in
      case find moving_command commands of
        Some m \<Rightarrow> stamp m
      | None \<Rightarrow>
          if commands \<noteq> [] then stamp (hd commands)
          else
            let stamps = concat (map (\<lambda>(s, ms). if ms = [] then [] else [stamp (hd ms)]) (rc_streams r)) in
            if stamps = [] then 0 else min_of stamps)"

section \<open>CSV\<close>

text \<open>\<open>String(value)\<close> of a value of a message, empty for null and undefined, as \<open>csvCell\<close> writes it.\<close>

fun json_text :: "json \<Rightarrow> string" where
  "json_text JNull = ''null''"
| "json_text (JBool b) = (if b then ''true'' else ''false'')"
| "json_text (JNum x) = show_num x"
| "json_text (JInf positive) = (if positive then ''Infinity'' else ''-Infinity'')"
| "json_text (JStr s) = s"
| "json_text (JArr vs) = join '','' (map (\<lambda>v. if v = JNull then [] else json_text v) vs)"
| "json_text (JObj es) = ''[object Object]''"

definition csvCell :: "json option \<Rightarrow> string" where
  "csvCell v = (case v of None \<Rightarrow> [] | Some j \<Rightarrow> if j = JNull then [] else json_text j)"

definition num_cell :: "num \<Rightarrow> string" where
  "num_cell v = (case v of None \<Rightarrow> [] | Some x \<Rightarrow> show_num x)"

definition digits_cell :: "num \<Rightarrow> nat \<Rightarrow> string" where
  "digits_cell v n = (case v of None \<Rightarrow> [] | Some x \<Rightarrow> fixed_text n x)"

definition secondsCell :: "num \<Rightarrow> string" where
  "secondsCell v = digits_cell v 6"

definition csvWord :: "json option \<Rightarrow> string" where
  "csvWord v =
     (case v of
        Some (JStr s) \<Rightarrow>
          if s \<noteq> [] \<and> list_all (\<lambda>c. (97 \<le> (of_char c :: nat) \<and> (of_char c :: nat) \<le> 122) \<or> c = CHR ''_'') s
          then s else []
      | _ \<Rightarrow> [])"

text \<open>\<open>Number(message.emergency_stop)\<close>.\<close>

definition flag_cell :: "json option \<Rightarrow> string" where
  "flag_cell v =
     (case to_number v of
        Fin x \<Rightarrow> show_num x
      | Infinite positive \<Rightarrow> (if positive then ''Infinity'' else ''-Infinity'')
      | NaN \<Rightarrow> [])"

definition true_cell :: "json option \<Rightarrow> string" where
  "true_cell v = (if v = Some (JBool True) then ''1'' else ''0'')"

datatype side = LeftSide | RightSide

definition side_name :: "side \<Rightarrow> string" where
  "side_name s = (case s of LeftSide \<Rightarrow> ''left'' | RightSide \<Rightarrow> ''right'')"

definition side_rpm :: "side \<Rightarrow> sides \<Rightarrow> real" where
  "side_rpm s w = (case s of LeftSide \<Rightarrow> sd_left w | RightSide \<Rightarrow> sd_right w)"

definition wheel_cell :: "json \<Rightarrow> geometry \<Rightarrow> side \<Rightarrow> string" where
  "wheel_cell m g s =
     (case (dm_v (drive_of m), dm_w (drive_of m)) of
        (Some v, Some w) \<Rightarrow> fixed_text 2 (side_rpm s (wheelRpm v w g))
      | _ \<Rightarrow> [])"

definition side_field :: "json \<Rightarrow> side \<Rightarrow> string \<Rightarrow> json option" where
  "side_field m s key = jfield (jfield (Some m) (side_name s)) key"

type_synonym column = "string \<times> (json \<Rightarrow> string \<Rightarrow> geometry \<Rightarrow> string)"

definition on :: "string list \<Rightarrow> (json \<Rightarrow> geometry \<Rightarrow> string) \<Rightarrow> json \<Rightarrow> string \<Rightarrow> geometry \<Rightarrow> string" where
  "on streams cell m stream g = (if stream \<in> set streams then cell m g else [])"

definition raw_cell :: "string \<Rightarrow> json \<Rightarrow> geometry \<Rightarrow> string" where
  "raw_cell key m g = csvCell (jfield (Some m) key)"

definition NATIVE_NAMES :: "(string \<times> string) list" where
  "NATIVE_NAMES = [(''target_rpm'', ''target''), (''rpm_raw'', ''raw''), (''rpm'', ''filtered'')]"

definition SIDES :: "side list" where "SIDES = [LeftSide, RightSide]"

text \<open>The columns after \<open>time_s\<close> and \<open>stream\<close>, which each row writes itself.\<close>

definition CSV_COLUMNS :: "column list" where
  "CSV_COLUMNS =
     [(''stamp_s'', \<lambda>m stream g. fixed_text 6 (stamp m)),
      (''v_mps'', on [''drive'', ''odom''] (raw_cell ''v'')),
      (''w_radps'', on [''drive'', ''odom''] (raw_cell ''w'')),
      (''left_rpm'', on [''drive''] (\<lambda>m g. wheel_cell m g LeftSide)),
      (''right_rpm'', on [''drive''] (\<lambda>m g. wheel_cell m g RightSide)),
      (''left_current_a'', on [''drive''] (\<lambda>m g. csvCell (side_field m LeftSide ''current_amp''))),
      (''right_current_a'', on [''drive''] (\<lambda>m g. csvCell (side_field m RightSide ''current_amp''))),
      (''emergency_stop'', on [''drive''] (\<lambda>m g. flag_cell (jfield (Some m) ''emergency_stop''))),
      (''command_linear_mps'', on [''twist''] (raw_cell ''linear'')),
      (''command_angular_radps'', on [''twist''] (raw_cell ''angular'')),
      (''x_m'', on [''odom''] (raw_cell ''x'')),
      (''y_m'', on [''odom''] (raw_cell ''y'')),
      (''theta_rad'', on [''odom''] (raw_cell ''theta'')),
      (''front_m'', on [''scan''] (\<lambda>m g. num_cell (frontDistance (scan_of m) FRONT_HALF_ANGLE))),
      (''roller_command'', on [''roller''] (raw_cell ''command'')),
      (''roller_source'', on [''roller''] (\<lambda>m g. csvWord (jfield (Some m) ''source''))),
      (''tilt_deg'', on [''shot''] (raw_cell ''tilt_deg'')),
      (''shooting'', on [''shot''] (\<lambda>m g. true_cell (jfield (Some m) ''shooting''))),
      (''fired_count'', on [''shot''] (raw_cell ''fired_count''))]
     @ concat (map (\<lambda>(key, name). map (\<lambda>s. (side_name s @ ''_'' @ name @ ''_rpm_native'',
          on [''drive''] (\<lambda>m g. num_cell (jnum (side_field m s key))))) SIDES) NATIVE_NAMES)
     @ map (\<lambda>s. (side_name s @ ''_feedback_stamp_s'',
          on [''drive''] (\<lambda>m g. secondsCell (jnum (side_field m s ''feedback_stamp''))))) SIDES
     @ map (\<lambda>s. (side_name s @ ''_feedback_age_s'',
          on [''drive''] (\<lambda>m g. secondsCell (jnum (side_field m s ''feedback_age_sec''))))) SIDES
     @ [(''estop_authoritative'', on [''estop''] (\<lambda>m g. true_cell (jfield (Some m) ''active'')))]"

definition geometry_of :: "recording \<Rightarrow> geometry" where
  "geometry_of r = \<lparr>ge_radius = coalesce (finite_number (wz_radius (rc_config r))) 0,
     ge_separation = coalesce (finite_number (wz_separation (rc_config r))) 0\<rparr>"

definition csv_rows :: "recording \<Rightarrow> (string \<times> json) list" where
  "csv_rows r = sort_key (\<lambda>(stream, m). stamp m) (concat (map (\<lambda>(s, ms). map (Pair s) ms) (rc_streams r)))"

definition csv_cells :: "geometry \<Rightarrow> real \<Rightarrow> string \<times> json \<Rightarrow> string list" where
  "csv_cells g start row =
     (let (stream, m) = row in
      [fixed_text 3 (stamp m - start), stream] @ map (\<lambda>(name, cell). cell m stream g) CSV_COLUMNS)"

definition csv_header :: "string list" where
  "csv_header = [''time_s'', ''stream''] @ map fst CSV_COLUMNS"

definition NL :: string where "NL = [CHR 0x0A]"

definition recordingCSV :: "recording \<Rightarrow> string" where
  "recordingCSV r =
     (let rows = csv_rows r; start = (case rows of [] \<Rightarrow> 0 | (s, m) # _ \<Rightarrow> stamp m) in
      BOM @ join NL (join '','' csv_header # map (\<lambda>row. join '','' (csv_cells (geometry_of r) start row)) rows) @ NL)"

section \<open>The run as a table\<close>

definition TABLE_FRESH :: real where "TABLE_FRESH = 0.5"

text \<open>A text in quotes when it holds a comma, a quote or a line break.\<close>

definition csvText :: "string \<Rightarrow> string" where
  "csvText s =
     (if list_ex (\<lambda>c. c = CHR 0x22 \<or> c = CHR '','' \<or> c = CHR 0x0A) s
      then [CHR 0x22] @ concat (map (\<lambda>c. if c = CHR 0x22 then [c, c] else [c]) s) @ [CHR 0x22]
      else s)"

text \<open>The distance along /odom up to each message, in order; two messages that are equal in every field are
  one here, where the code keys them by identity.\<close>

fun odom_totals :: "json option \<Rightarrow> real \<Rightarrow> json list \<Rightarrow> (json \<times> real) list" where
  "odom_totals before sofar [] = []"
| "odom_totals before sofar (m # ms) =
     (let sofar' =
        (case before of
           None \<Rightarrow> sofar
         | Some b \<Rightarrow>
             (case (om_x (odom_of m), om_y (odom_of m), om_x (odom_of b), om_y (odom_of b)) of
                (Some x, Some y, Some x0, Some y0) \<Rightarrow> sofar + hypot (x - x0) (y - y0)
              | _ \<Rightarrow> sofar)) in
      (m, sofar') # odom_totals (Some m) sofar' ms)"

definition odomDistances :: "json list \<Rightarrow> (json \<times> real) list" where
  "odomDistances odoms = odom_totals None 0 odoms"

definition tableTrigger :: "recording \<Rightarrow> string option" where
  "tableTrigger r = find (\<lambda>s. messages_of r s \<noteq> []) [''drive'', ''scan'', ''odom'']"

text \<open>The message of stream \<open>name\<close> in a row: the trigger itself or its partner.\<close>

definition in_row :: "string \<Rightarrow> sample \<Rightarrow> string \<Rightarrow> json option" where
  "in_row trigger s name = (if name = trigger then Some (sp_message s) else partner_of s name)"

definition ESTOP_WORD :: string where
  "ESTOP_WORD = utf8 [0xe6, 0x8a, 0xbc, 0xe3, 0x81, 0x95, 0xe3, 0x82, 0x8c, 0xe3, 0x81, 0xa6, 0xe3, 0x81, 0x84, 0xe3, 0x81, 0x9f]"

definition table_cells :: "sample \<Rightarrow> string \<Rightarrow> real \<Rightarrow> geometry \<Rightarrow> (json \<times> real) list \<Rightarrow> string list" where
  "table_cells s trigger zero g distances =
     (let drive = in_row trigger s ''drive'';
          d = map_option drive_of drive;
          twist = map_option twist_of (in_row trigger s ''twist'');
          measured = (case d of
              None \<Rightarrow> None
            | Some m \<Rightarrow> (case (dm_v m, dm_w m) of (Some v, Some w) \<Rightarrow> Some (v, w) | _ \<Rightarrow> None));
          wheels = (case Option.bind d wheelAuthority of
              Some a \<Rightarrow> au_filtered a
            | None \<Rightarrow> map_option (\<lambda>(v, w). wheelRpm v w g) measured);
          front = Option.bind (map_option scan_of (in_row trigger s ''scan'')) (\<lambda>c. frontDistance c FRONT_HALF_ANGLE) in
      [fixed_text 3 (stamp (sp_message s) - zero),
       digits_cell (Option.bind twist tw_linear) 3,
       digits_cell (map_option fst measured) 3,
       digits_cell (Option.bind twist tw_angular) 3,
       digits_cell (map_option snd measured) 3,
       digits_cell (map_option sd_left wheels) 1,
       digits_cell (map_option sd_right wheels) 1,
       digits_cell (Option.bind (in_row trigger s ''odom'') (map_of distances)) 3,
       digits_cell front 3,
       (case d of None \<Rightarrow> [] | Some m \<Rightarrow> if dm_emergency_stop m then ESTOP_WORD else [])])"

definition tableRow :: "sample \<Rightarrow> string \<Rightarrow> real \<Rightarrow> geometry \<Rightarrow> (json \<times> real) list \<Rightarrow> string" where
  "tableRow s trigger zero g distances = join '','' (table_cells s trigger zero g distances)"

datatype heading = LessonLine | ConditionsLine | RobotLine | GroupLine | TimeLine | EndLine | ZeroLine

definition tableHeading :: "recording \<Rightarrow> (heading \<times> string) list" where
  "tableHeading r =
     map (\<lambda>(h, s). (h, csvText s)) (filter (\<lambda>(h, s). s \<noteq> [])
       [(LessonLine, coalesce (ri_lesson (rc_info r)) []),
        (ConditionsLine, or_else (case ri_conditions (rc_info r) of None \<Rightarrow> [] | Some c \<Rightarrow> cn_label c) UNKNOWN_CONDITIONS),
        (RobotLine, case ri_robot (rc_info r) of None \<Rightarrow> [] | Some n \<Rightarrow> rn_name n),
        (GroupLine, coalesce (ri_group (rc_info r)) []),
        (TimeLine, if jtruthy (rc_recorded_at r) then csvCell (rc_recorded_at r) else []),
        (EndLine, case ri_outcome (rc_info r) of None \<Rightarrow> [] | Some oc \<Rightarrow> oc_label oc)])"

text \<open>The heading lines (before the fixed line that says where the time starts) and the rows; the Japanese
  words of the table are the page's.\<close>

definition recordingTable :: "recording \<Rightarrow> (heading \<times> string) list \<times> string list" where
  "recordingTable r =
     (tableHeading r,
      case tableTrigger r of
        None \<Rightarrow> []
      | Some trigger \<Rightarrow>
          let pair = filter (\<lambda>n. n \<noteq> trigger) [''twist'', ''odom'', ''scan''];
              distances = odomDistances (messages_of r ''odom'') in
          map (\<lambda>s. tableRow s trigger (commandZero r) (geometry_of r) distances)
            (pairByStamp r trigger pair (Some TABLE_FRESH)))"

section \<open>Labels and file names\<close>

text \<open>A date in the local time zone, or nothing when the browser cannot read it.\<close>

record local_time =
  lt_year :: nat
  lt_month :: nat
  lt_day :: nat
  lt_hours :: nat
  lt_minutes :: nat
  lt_seconds :: nat

definition pad :: "nat \<Rightarrow> string" where
  "pad n = pad_left 2 (CHR ''0'') (nat_digits n)"

definition clockText :: "local_time option \<Rightarrow> string" where
  "clockText date =
     (case date of
        None \<Rightarrow> []
      | Some d \<Rightarrow> pad (lt_hours d) @ '':'' @ pad (lt_minutes d) @ '':'' @ pad (lt_seconds d))"

definition fileStamp :: "local_time option \<Rightarrow> string" where
  "fileStamp date =
     (case date of
        None \<Rightarrow> ''recording''
      | Some d \<Rightarrow> nat_digits (lt_year d) @ pad (lt_month d) @ pad (lt_day d) @ ''-''
          @ pad (lt_hours d) @ pad (lt_minutes d) @ pad (lt_seconds d))"

definition recordingLabel :: "recording \<Rightarrow> local_time option \<Rightarrow> string" where
  "recordingLabel r date =
     (let conditions = or_else (case ri_conditions (rc_info r) of
            None \<Rightarrow> [] | Some c \<Rightarrow> cleanText (Some (JStr (cn_label c))) MAX_TEXT) UNKNOWN_CONDITIONS in
      join '' '' (filter (\<lambda>s. s \<noteq> [])
        [cleanText (map_option JStr (ri_group (rc_info r))) MAX_GROUP, conditions, clockText date]))"

definition forbidden :: "char \<Rightarrow> bool" where
  "forbidden c \<longleftrightarrow> is_space c \<or> c \<in> {CHR 0x5C, CHR ''/'', CHR '':'', CHR ''*'', CHR ''?'', CHR 0x22, CHR ''<'', CHR ''>'', CHR ''|''}"

text \<open>\<open>.replace(/[...]+/g, '_')\<close>: a run of forbidden characters becomes one underscore.\<close>

fun underscored :: "bool \<Rightarrow> string \<Rightarrow> string" where
  "underscored inside [] = []"
| "underscored inside (c # cs) =
     (if forbidden c then (if inside then underscored True cs else CHR ''_'' # underscored True cs)
      else c # underscored False cs)"

definition strip_char :: "char \<Rightarrow> string \<Rightarrow> string" where
  "strip_char x s = rev (dropWhile (\<lambda>c. c = x) (rev (dropWhile (\<lambda>c. c = x) s)))"

definition filePart :: "string \<Rightarrow> nat \<Rightarrow> string" where
  "filePart s n = take n (strip_char (CHR ''_'') (underscored False s))"

text \<open>\<open>label.replace(/\s+/g, '').replaceAll('.', '-').replaceAll('/', 'p')\<close> with the middle dot.\<close>

fun replace_dots :: "string \<Rightarrow> string" where
  "replace_dots [] = []"
| "replace_dots (c # cs) =
     (if starts_with MIDDLE_DOT (c # cs) then CHR ''-'' # replace_dots (drop 2 cs) else c # replace_dots cs)"

definition conditionsToken :: "conditions option \<Rightarrow> string" where
  "conditionsToken conditions =
     (case conditions of
        None \<Rightarrow> []
      | Some c \<Rightarrow>
          (case num_field (cn_values c) ''speed'' of
             Some v \<Rightarrow> fixed_text 2 v @ ''mps''
           | None \<Rightarrow>
               if gains_of (cn_values c) \<noteq> []
               then join ''-'' (map (\<lambda>(name, v). name @ show_num v) (gains_of (cn_values c)))
               else filePart (map (\<lambda>ch. if ch = CHR ''/'' then CHR ''p'' else ch)
                      (replace_dots (filter (\<lambda>ch. \<not> is_space ch) (cn_label c)))) 20))"

datatype file_kind = JsonFile | CsvFile | RawCsvFile

definition file_suffix :: "file_kind \<Rightarrow> string" where
  "file_suffix kind = (case kind of JsonFile \<Rightarrow> ''.json'' | CsvFile \<Rightarrow> ''.csv'' | RawCsvFile \<Rightarrow> ''-messages.csv'')"

definition recordingFileName :: "recording \<Rightarrow> string \<Rightarrow> file_kind \<Rightarrow> local_time option \<Rightarrow> string" where
  "recordingFileName r lesson kind date =
     (let i = rc_info r in
      join ''-'' (filter (\<lambda>s. s \<noteq> [])
        [''QUESTiX-LAB'', filePart (coalesce (ri_lesson i) lesson) 40, filePart (coalesce (ri_group i) []) 24,
         filePart (case ri_robot i of None \<Rightarrow> [] | Some n \<Rightarrow> rn_name n) 24,
         conditionsToken (ri_conditions i), fileStamp date])
      @ file_suffix kind)"
section \<open>Pairing\<close>

lemma map_of_map_filter:
  "map_of (List.map_filter (\<lambda>s. map_option (Pair s) (g s)) xs) s = (if s \<in> set xs then g s else None)"
  by (induction xs) (auto simp: List.map_filter_simps split: option.splits)

lemma kept_streams_alt:
  "kept_streams streams =
     List.map_filter (\<lambda>s. map_option (Pair s) (map_option sortedByStamp (as_list (jfield streams s)))) RECORDING_STREAMS"
  by (simp add: kept_streams_def option.map_comp o_def)

lemma map_of_kept_streams:
  "map_of (kept_streams streams) s =
     (if s \<in> set RECORDING_STREAMS then map_option sortedByStamp (as_list (jfield streams s)) else None)"
  unfolding kept_streams_alt by (rule map_of_map_filter)

lemma sorted_sortedByStamp: "sorted (map stamp (sortedByStamp ms))"
  by (simp add: sortedByStamp_def)

lemma messages_of_sorted: "sorted (map stamp (messages_of (makeRecording data streams) s))"
  by (auto simp: messages_of_def makeRecording_def Let_def map_of_kept_streams sorted_sortedByStamp coalesce_def
      split: option.splits)

text \<open>The reference: the last message whose stamp is not after \<open>t\<close>, when it is recent enough.\<close>

definition latest_partner :: "json list \<Rightarrow> real option \<Rightarrow> real \<Rightarrow> json option" where
  "latest_partner ms freshSeconds t =
     (let before = filter (\<lambda>m. stamp m \<le> t) ms in
      if before = [] then None
      else if (case freshSeconds of None \<Rightarrow> True | Some f \<Rightarrow> t - stamp (last before) \<le> f) then Some (last before)
      else None)"

definition reached :: "json list \<Rightarrow> real \<Rightarrow> nat" where
  "reached ms t = length (takeWhile (\<lambda>m. stamp m \<le> t) ms)"

lemma filter_reached: "sorted (map stamp ms) \<Longrightarrow> filter (\<lambda>m. stamp m \<le> t) ms = take (reached ms t) ms"
proof (induction ms)
  case (Cons m ms)
  then show ?case
    by (cases ms) (auto simp: reached_def filter_empty_conv)
qed (simp add: reached_def)

lemma reached_le: "reached ms t \<le> length ms"
  unfolding reached_def by (rule length_takeWhile_le)

lemma reached_mono: "t \<le> t' \<Longrightarrow> reached ms t \<le> reached ms t'"
  unfolding reached_def by (induction ms) auto

lemma advance_reached: "c \<le> reached ms t \<Longrightarrow> advance ms t c = reached ms t"
proof (induction c arbitrary: ms)
  case (Suc c)
  then obtain m ms' where ms: "ms = m # ms'" "stamp m \<le> t"
    by (cases ms) (auto simp: reached_def split: if_splits)
  with Suc.prems have "c \<le> reached ms' t"
    by (simp add: reached_def)
  from Suc.IH [OF this] ms show ?case
    by (simp add: advance_def reached_def)
qed (simp add: advance_def reached_def)

lemma partner_reached:
  assumes "sorted (map stamp ms)"
  shows "partner ms freshSeconds t (reached ms t) = latest_partner ms freshSeconds t"
proof (cases "reached ms t = 0")
  case True
  then show ?thesis
    by (simp add: partner_def latest_partner_def filter_reached [OF assms])
next
  case False
  then have ne: "take (reached ms t) ms \<noteq> []"
    using reached_le [of ms t] by auto
  moreover have "last (take (reached ms t) ms) = ms ! (reached ms t - 1)"
    using False reached_le [of ms t] by (subst last_conv_nth [OF ne]) (auto simp: min_def)
  ultimately show ?thesis
    using False by (simp add: partner_def latest_partner_def filter_reached [OF assms] Let_def split: option.split)
qed

lemma pair_all_latest:
  assumes "\<And>name. sorted (map stamp (messages_of r name))"
  shows "sorted (map stamp ms) \<Longrightarrow> list_all (\<lambda>m. list_all (\<lambda>name. cursors name \<le> reached (messages_of r name) (stamp m)) pair) ms
    \<Longrightarrow> pair_all r pair freshSeconds cursors ms =
      map (\<lambda>m. \<lparr>sp_message = m, sp_partners =
        map (\<lambda>name. (name, latest_partner (messages_of r name) freshSeconds (stamp m))) pair\<rparr>) ms"
proof (induction ms arbitrary: cursors)
  case (Cons m ms)
  let ?next = "\<lambda>name. if name \<in> set pair then advance (messages_of r name) (stamp m) (cursors name) else cursors name"
  have next': "?next name = reached (messages_of r name) (stamp m)" if "name \<in> set pair" for name
    using Cons.prems(2) that by (simp add: list_all_iff advance_reached)
  have "list_all (\<lambda>m'. list_all (\<lambda>name. ?next name \<le> reached (messages_of r name) (stamp m')) pair) ms"
    using Cons.prems(1) next' by (simp add: list_all_iff reached_mono)
  then have "pair_all r pair freshSeconds ?next ms = map (\<lambda>m. \<lparr>sp_message = m, sp_partners =
        map (\<lambda>name. (name, latest_partner (messages_of r name) freshSeconds (stamp m))) pair\<rparr>) ms"
    using Cons.prems(1) by (intro Cons.IH) auto
  then show ?case
    using next' partner_reached [OF assms] by (simp add: Let_def cong: map_cong)
qed simp

text \<open>
  Pairing a recording by stamp: every message of the trigger stream, in order, gets from each other
  stream the latest message whose stamp is not after its own, or nothing when there is none or it is
  older than the limit. The one-pass cursors agree with looking through the whole stream each time.
\<close>

theorem pair_by_stamp_latest:
  "pairByStamp (makeRecording data streams) trigger pair freshSeconds =
     map (\<lambda>m. \<lparr>sp_message = m, sp_partners =
         map (\<lambda>name. (name, latest_partner (messages_of (makeRecording data streams) name) freshSeconds (stamp m))) pair\<rparr>)
       (messages_of (makeRecording data streams) trigger)"
  unfolding pairByStamp_def
  by (rule pair_all_latest) (simp_all add: messages_of_sorted list_all_iff)

section \<open>Saving and opening again\<close>

lemma map_of_opt_field [simp]: "map_of (opt_field key v) k = (if k = key then v else None)"
  by (simp add: opt_field_def split: option.split)

lemma map_of_info_fields: "k \<notin> {''lesson'', ''conditions'', ''robot'', ''group'', ''outcome''} \<Longrightarrow> map_of (info_fields i) k = None"
  by (simp add: info_fields_def map_add_def)

lemma config_json_fields [simp]:
  "jfield (Some (config_json c)) ''wheel_radius'' = wz_radius c"
  "jfield (Some (config_json c)) ''wheel_separation'' = wz_separation c"
  "jtruthy (Some (config_json c))"
  by (auto simp: config_json_def map_add_def split: option.splits)

lemma wheels_of_config_json [simp]: "wheels_of (Some (config_json c)) = c"
  by (simp add: wheels_of_def)

lemma serialize_fields:
  "jfield (Some (saved_object r)) ''format'' = Some (JStr RECORDING_FORMAT)"
  "jfield (Some (saved_object r)) ''version'' = Some (JInt RECORDING_VERSION)"
  "jfield (Some (saved_object r)) ''source'' = rc_source r"
  "jfield (Some (saved_object r)) ''name'' = rc_name r"
  "jfield (Some (saved_object r)) ''recordedAt'' = rc_recorded_at r"
  "jfield (Some (saved_object r)) ''config'' = Some (config_json (rc_config r))"
  "jfield (Some (saved_object r)) ''topics'' = Some (rc_topics r)"
  "jfield (Some (saved_object r)) ''streams'' = Some (JObj (map (\<lambda>(s, ms). (s, JArr ms)) (rc_streams r)))"
  by (simp_all add: saved_object_def map_add_def map_of_info_fields split: option.split)

lemma sortedByStamp_idem [simp]: "sortedByStamp (sortedByStamp ms) = sortedByStamp ms"
proof -
  have "filter (\<lambda>m. stamp_of m \<noteq> None) (sortedByStamp ms) = sortedByStamp ms"
    by (simp add: sortedByStamp_def filter_sort [symmetric])
  moreover have "sort_key stamp (sortedByStamp ms) = sortedByStamp ms"
    by (simp add: sort_key_id_if_sorted sorted_sortedByStamp)
  ultimately show ?thesis
    by (simp only: sortedByStamp_def [of "sortedByStamp ms"])
qed

lemma saved_stream [simp]:
  "as_list (map_of (map (\<lambda>(s, ms). (s, JArr ms)) streams) s) = map_of streams s"
  by (induction streams) auto

lemma map_filter_same: "list_all (\<lambda>x. f x = g x) xs \<Longrightarrow> List.map_filter f xs = List.map_filter g xs"
  by (induction xs) (auto simp: List.map_filter_simps split: option.split)

lemma kept_streams_saved:
  "kept_streams (Some (JObj (map (\<lambda>(s, ms). (s, JArr ms)) (kept_streams streams)))) = kept_streams streams"
  unfolding kept_streams_alt [of "Some _"]
  by (subst kept_streams_alt [of streams], rule map_filter_same)
     (auto simp: list_all_iff map_of_kept_streams option.map_comp o_def)

definition stream_length :: "json option \<Rightarrow> string \<Rightarrow> nat" where
  "stream_length streams s = length (coalesce (as_list (jfield streams s)) [])"

lemma count_messages_sum: "count_messages streams ss n = Inr m \<Longrightarrow> m = n + sum_list (map (stream_length streams) ss)"
proof (induction ss arbitrary: n)
  case (Cons s ss)
  show ?case
  proof (cases "jfield streams s")
    case None
    with Cons show ?thesis
      by (simp add: stream_length_def)
  next
    case (Some v)
    with Cons.prems obtain ms where "as_list (Some v) = Some ms"
        "count_messages streams ss (n + length ms) = Inr m"
      by (auto split: option.splits)
    with Some Cons.IH [of "n + length ms"] show ?thesis
      by (simp add: stream_length_def)
  qed
qed simp

lemma count_messages_saved:
  "count_messages (Some (JObj (map (\<lambda>(s, ms). (s, JArr ms)) streams))) ss n
    = Inr (n + sum_list (map (stream_length (Some (JObj (map (\<lambda>(s, ms). (s, JArr ms)) streams)))) ss))"
proof (induction ss arbitrary: n)
  case (Cons s ss)
  have "map_of (map (\<lambda>(s, ms). (s, JArr ms)) streams) s = map_option JArr (map_of streams s)"
    by (induction streams) auto
  then show ?case
    using Cons.IH by (auto simp: stream_length_def split: option.split)
qed simp

lemma stream_length_kept:
  "stream_length (Some (JObj (map (\<lambda>(s, ms). (s, JArr ms)) (kept_streams streams)))) s \<le> stream_length streams s"
  by (auto simp: stream_length_def saved_stream map_of_kept_streams sortedByStamp_def coalesce_def split: option.split)

text \<open>What a file must be, and what is then read from it.\<close>

definition same_recording :: "recording \<Rightarrow> recording \<Rightarrow> bool" where
  "same_recording a b \<longleftrightarrow> rc_source a = rc_source b \<and> rc_name a = rc_name b \<and> rc_recorded_at a = rc_recorded_at b
     \<and> rc_config a = rc_config b \<and> rc_topics a = rc_topics b \<and> rc_streams a = rc_streams b"

lemma parse_serialize:
  assumes "parseRecording file = Inr r"
  shows "\<exists>r'. parseRecording (Some (saved_object r)) = Inr r' \<and> same_recording r r'"
proof -
  obtain data streams n where data: "file = Some data" and config: "checkConfig (jfield file ''config'')"
    and streams: "count_messages streams RECORDING_STREAMS 0 = Inr n" "n \<le> MAX_RECORDING_MESSAGES"
    and r: "r = makeRecording data streams"
    using assms by (auto simp: parseRecording_def Let_def split: option.splits if_splits sum.splits)
  let ?saved = "Some (JObj (map (\<lambda>(s, ms). (s, JArr ms)) (rc_streams r)))"
  have kept: "rc_streams r = kept_streams streams" and cfg: "rc_config r = wheels_of (jfield file ''config'')"
    by (simp_all add: r makeRecording_def Let_def data)
  have "sum_list (map (stream_length ?saved) RECORDING_STREAMS) \<le> sum_list (map (stream_length streams) RECORDING_STREAMS)"
    unfolding kept by (intro sum_list_mono stream_length_kept)
  then have small: "sum_list (map (stream_length ?saved) RECORDING_STREAMS) \<le> MAX_RECORDING_MESSAGES"
    using count_messages_sum [OF streams(1)] streams(2) by simp
  have good: "checkConfig (Some (config_json (rc_config r)))"
    using config by (simp add: checkConfig_def cfg wheels_of_def)
  have "parseRecording (Some (saved_object r)) = Inr (makeRecording (saved_object r) ?saved)"
    using small good by (simp add: parseRecording_def serialize_fields count_messages_saved)
  moreover have "same_recording r (makeRecording (saved_object r) ?saved)"
    by (simp add: same_recording_def makeRecording_def Let_def serialize_fields kept kept_streams_saved)
  ultimately show ?thesis
    by blast
qed

text \<open>
  Opening a saved recording again loses nothing: a recording that was read from a file, saved and opened
  again is accepted and has the same source, name, time, wheel sizes, topics and streams, message
  for message. (When writing it changes nothing: a file with an infinite number loses that number.)
\<close>

theorem recording_reopens:
  "case parseRecording file of
     Inl e \<Rightarrow> True
   | Inr r \<Rightarrow>
       if written (saved_object r) = saved_object r
       then (case parseRecording (Some (serializeRecording r)) of Inl e \<Rightarrow> False | Inr r' \<Rightarrow> same_recording r r') else True"
  using parse_serialize [of "file"] by (fastforce simp: serializeRecording_def split: sum.split)

definition stream_valid :: "string \<times> json list \<Rightarrow> bool" where
  "stream_valid entry \<longleftrightarrow>
     (let (s, ms) = entry in
        s \<in> set RECORDING_STREAMS \<and> sorted (map stamp ms) \<and> list_all (\<lambda>m. stamp_of m \<noteq> None) ms)"

definition recording_valid :: "recording \<Rightarrow> bool" where
  "recording_valid r \<longleftrightarrow>
     above_zero (wz_radius (rc_config r)) \<and> above_zero (wz_separation (rc_config r))
     \<and> list_all stream_valid (rc_streams r) \<and> distinct (map fst (rc_streams r))
     \<and> sum_list (map (\<lambda>(s, ms). length ms) (rc_streams r)) \<le> MAX_RECORDING_MESSAGES"

lemma kept_streams_valid: "list_all stream_valid (kept_streams streams)"
  by (auto simp: kept_streams_def list_all_iff List.map_filter_def stream_valid_def sorted_sortedByStamp)
     (auto simp: sortedByStamp_def)

lemma map_fst_kept: "map fst (List.map_filter (\<lambda>s. map_option (Pair s) (g s)) xs) = filter (\<lambda>s. g s \<noteq> None) xs"
  by (induction xs) (auto simp: List.map_filter_simps split: option.split)

lemma kept_streams_distinct: "distinct (map fst (kept_streams streams))"
  unfolding kept_streams_alt map_fst_kept by (rule distinct_filter) (simp add: RECORDING_STREAMS_def)

lemma kept_length:
  "sum_list (map (\<lambda>(s, ms). length ms) (List.map_filter (\<lambda>s. map_option (\<lambda>ms. (s, sortedByStamp ms)) (g s)) xs))
    \<le> sum_list (map (\<lambda>s. length (coalesce (g s) [])) xs)"
proof (induction xs)
  case (Cons s xs)
  have "length (sortedByStamp ms) \<le> length ms" for ms
    by (simp add: sortedByStamp_def)
  with Cons show ?case
    by (auto simp: List.map_filter_simps add_mono split: option.split)
qed simp

text \<open>The list of a stream in the file, and whether what is there is no list.\<close>

definition stream_in :: "json option \<Rightarrow> string \<Rightarrow> json option" where
  "stream_in file s = jfield (jfield file ''streams'') s"

definition not_a_list :: "json option \<Rightarrow> bool" where
  "not_a_list v \<longleftrightarrow> v \<noteq> None \<and> as_list v = None"

definition messages_in :: "json option \<Rightarrow> nat" where
  "messages_in file = sum_list (map (\<lambda>s. length (coalesce (as_list (stream_in file s)) [])) RECORDING_STREAMS)"

text \<open>What a file must be for each refusal, in the order the checks are made.\<close>

definition right_version :: "json option \<Rightarrow> bool" where
  "right_version file \<longleftrightarrow> jfield file ''format'' = Some (JStr RECORDING_FORMAT) \<and> jfield file ''version'' = Some (JInt RECORDING_VERSION)"

definition sized :: "json option \<Rightarrow> bool" where
  "sized file \<longleftrightarrow> right_version file
     \<and> above_zero (jfield (jfield file ''config'') ''wheel_radius'') \<and> above_zero (jfield (jfield file ''config'') ''wheel_separation'')"

fun refused_for :: "json option \<Rightarrow> recording_error \<Rightarrow> bool" where
  "refused_for file Unreadable = (file = None)"
| "refused_for file NotRecording = (file \<noteq> None \<and> jfield file ''format'' \<noteq> Some (JStr RECORDING_FORMAT))"
| "refused_for file OtherVersion = (jfield file ''format'' = Some (JStr RECORDING_FORMAT) \<and> \<not> right_version file)"
| "refused_for file NoWheels = (right_version file \<and> \<not> sized file)"
| "refused_for file (NotAList s) = (sized file \<and> find (\<lambda>s. not_a_list (stream_in file s)) RECORDING_STREAMS = Some s)"
| "refused_for file TooLong =
     (sized file \<and> find (\<lambda>s. not_a_list (stream_in file s)) RECORDING_STREAMS = None \<and> messages_in file > MAX_RECORDING_MESSAGES)"

lemma count_messages_find:
  "count_messages streams ss n =
     (case find (\<lambda>s. not_a_list (jfield streams s)) ss of
        Some s \<Rightarrow> Inl (NotAList s)
      | None \<Rightarrow> Inr (n + sum_list (map (\<lambda>s. length (coalesce (as_list (jfield streams s)) [])) ss)))"
proof (induction ss arbitrary: n)
  case (Cons s ss)
  show ?case
    by (cases "jfield streams s"; cases "as_list (jfield streams s)") (simp_all add: Cons not_a_list_def split: option.split)
qed simp

lemma jtruthy_field: "jfield v key \<noteq> None \<Longrightarrow> jtruthy v"
  by (induction v key rule: jfield.induct) simp_all

lemma above_zero_None [simp]: "\<not> above_zero None"
  by (simp add: above_zero_def)

lemma checkConfig_sized: "right_version file \<Longrightarrow> checkConfig (jfield file ''config'') = sized file"
  using jtruthy_field [of "jfield file ''config''" "''wheel_radius''"]
  by (cases "jfield (jfield file ''config'') ''wheel_radius''") (auto simp: checkConfig_def sized_def)

lemma no_object_field: "\<not> is_object v \<Longrightarrow> jfield v s = None"
  by (cases v rule: is_object.cases) simp_all

lemma streams_object: "jfield (if is_object v then v else Some (JObj [])) s = jfield v s"
  by (cases v rule: is_object.cases) simp_all

lemma parse_cases:
  "parseRecording file =
     (if file = None then Inl Unreadable
      else if jfield file ''format'' \<noteq> Some (JStr RECORDING_FORMAT) then Inl NotRecording
      else if \<not> right_version file then Inl OtherVersion
      else if \<not> sized file then Inl NoWheels
      else case find (\<lambda>s. not_a_list (stream_in file s)) RECORDING_STREAMS of
          Some s \<Rightarrow> Inl (NotAList s)
        | None \<Rightarrow> if messages_in file > MAX_RECORDING_MESSAGES then Inl TooLong
            else Inr (makeRecording (the file) (if is_object (jfield file ''streams'') then jfield file ''streams'' else Some (JObj []))))"
proof (cases "file")
  case (Some data)
  show ?thesis
  proof (cases "right_version file")
    case True
    then show ?thesis
      using checkConfig_sized [OF True] Some
      by (cases "is_object (jfield (Some data) ''streams'')")
        (auto simp: parseRecording_def count_messages_find no_object_field messages_in_def stream_in_def right_version_def Let_def
          not_a_list_def split: option.split)
  next
    case False
    then show ?thesis using Some by (auto simp: parseRecording_def right_version_def)
  qed
qed (simp add: parseRecording_def)

lemma refused_reason: "parseRecording file = Inl e \<longleftrightarrow> refused_for file e"
  by (cases e; cases "file") (auto simp: parse_cases sized_def right_version_def split: option.splits)

text \<open>
  C36: Which files are recordings, and what an accepted one gives. A file is refused exactly for the first of these:
  it is no JSON, another format, another version, a wheel size that is not above zero as JavaScript compares it
  (so a text such as 0.05, \<open>true\<close>, a list of one number and an infinite size all pass), a known stream that is no
  list, more than 200000 messages. An accepted file gives a recording with the file's own wheel sizes, above zero
  in that sense, and of the known streams those the file has, each once, with exactly its messages that have a
  finite stamp, in order of stamp.
\<close>

theorem parsed_recording_valid:
  "case parseRecording file of
     Inl e \<Rightarrow> refused_for file e
   | Inr r \<Rightarrow> (\<forall>e. \<not> refused_for file e) \<and> recording_valid r \<and> rc_config r = wheels_of (jfield file ''config'')
       \<and> map fst (rc_streams r) = filter (\<lambda>s. as_list (stream_in file s) \<noteq> None) RECORDING_STREAMS
       \<and> list_all (\<lambda>(s, ms). mset ms = mset (filter (\<lambda>m. stamp_of m \<noteq> None) (coalesce (as_list (stream_in file s)) []))) (rc_streams r)"
proof (cases "parseRecording file")
  case (Inl e)
  have "refused_for file e" using Inl by (rule refused_reason [THEN iffD1])
  then show ?thesis using Inl by simp
next
  case (Inr r)
  let ?streams = "if is_object (jfield file ''streams'') then jfield file ''streams'' else Some (JObj [])"
  have size: "sized file" and few: "messages_in file \<le> MAX_RECORDING_MESSAGES" and r: "r = makeRecording (the file) ?streams" and "file \<noteq> None"
    using Inr by (auto simp: parse_cases split: if_splits option.splits)
  then have kept: "rc_streams r = kept_streams ?streams" and cfg: "rc_config r = wheels_of (jfield file ''config'')"
    by (auto simp: makeRecording_def Let_def)
  have here: "jfield ?streams s = stream_in file s" for s by (simp only: streams_object stream_in_def)
  have "sum_list (map (\<lambda>(s, ms). length ms) (kept_streams ?streams)) \<le> MAX_RECORDING_MESSAGES"
    using kept_length [of "\<lambda>s. as_list (jfield ?streams s)" RECORDING_STREAMS] few
    unfolding kept_streams_def messages_in_def here by simp
  then have "recording_valid r"
    using size by (simp add: recording_valid_def kept cfg kept_streams_valid kept_streams_distinct sized_def wheels_of_def)
  moreover have "map fst (rc_streams r) = filter (\<lambda>s. as_list (stream_in file s) \<noteq> None) RECORDING_STREAMS"
    unfolding kept kept_streams_alt map_fst_kept here by simp
  moreover have "list_all (\<lambda>(s, ms). mset ms = mset (filter (\<lambda>m. stamp_of m \<noteq> None) (coalesce (as_list (stream_in file s)) []))) (rc_streams r)"
    unfolding kept kept_streams_def here by (auto simp: list_all_iff List.map_filter_def sortedByStamp_def)
  moreover have "\<not> refused_for file e" for e using Inr by (simp flip: refused_reason)
  ultimately show ?thesis using Inr cfg by simp
qed

definition coerced_file :: json where
  "coerced_file = JObj [(''format'', JStr RECORDING_FORMAT), (''version'', JInt RECORDING_VERSION),
     (''config'', JObj [(''wheel_radius'', JStr ''0.05''), (''wheel_separation'', JBool True)])]"

text \<open>
  The check for wheel sizes lets a text and a truth value through, and the recording keeps them as they are.
\<close>

theorem coerced_sizes_accepted:
  "case parseRecording (Some coerced_file) of
     Inl e \<Rightarrow> False
   | Inr r \<Rightarrow> wz_radius (rc_config r) = Some (JStr ''0.05'') \<and> wz_separation (rc_config r) = Some (JBool True)"
proof -
  have "sized (Some coerced_file)"
    using above_zero_examples(1,3) by (simp add: sized_def right_version_def coerced_file_def)
  then show ?thesis
    by (simp add: parse_cases coerced_file_def sized_def right_version_def RECORDING_STREAMS_def stream_in_def not_a_list_def
        messages_in_def makeRecording_def wheels_of_def Let_def)
qed

end
