(* ===== verification/Robot_State.thy ===== *)
theory Robot_State
  imports Messages Capture_Core Js_Text
begin

text \<open>
  \<open>lab/js/live/robot-state-core.js\<close>: the arithmetic of the panel that says what the robot does right now.
  A tracker keeps the latest message of each stream with its arrival time, ten seconds of wheel speeds,
  the trail since the panel opened and the largest speeds seen; \<open>robotStateModel\<close> and \<open>stripModel\<close> say
  what is shown. Times are milliseconds. The wheel geometry is the bridge's, whose sizes are positive.
\<close>

section \<open>Constants\<close>

definition HISTORY_SECONDS :: real where "HISTORY_SECONDS = 10"
definition WHEEL_GAP_SECONDS :: real where "WHEEL_GAP_SECONDS = 0.5"
definition COMMAND_MOVING :: real where "COMMAND_MOVING = 1 / 1000"
definition TRAIL_STEP :: real where "TRAIL_STEP = 0.01"
definition TRAIL_MAX_POINTS :: nat where "TRAIL_MAX_POINTS = 3000"
definition POSE_MIN_HALF :: real where "POSE_MIN_HALF = 1"
definition POSE_STEP :: real where "POSE_STEP = 0.5"
definition POSE_MARGIN :: real where "POSE_MARGIN = 0.4"
definition FRONT_ARC :: real where "FRONT_ARC = 35 * pi / 180"
definition FRONT_RANGE :: real where "FRONT_RANGE = 3"
definition DEFAULT_WHEEL_RPM :: real where "DEFAULT_WHEEL_RPM = 60"
definition WHEEL_AXIS_TOPS :: "real list" where
  "WHEEL_AXIS_TOPS = [10, 20, 30, 40, 60, 80, 100, 120, 160, 200, 300, 400, 600, 800, 1000]"
definition DEFAULT_SPEED_TOP :: real where "DEFAULT_SPEED_TOP = 0.3"
definition SPEED_AXIS_TOPS :: "real list" where "SPEED_AXIS_TOPS = [0.1, 0.2, 0.3, 0.5, 1, 2, 3]"
definition SPARK_WIDTH :: real where "SPARK_WIDTH = 120"
definition SPARK_HEIGHT :: real where "SPARK_HEIGHT = 32"

datatype state_stream = DriveIn | OdomIn | ScanIn | TwistIn | EstopIn

definition STALE_SECONDS :: "state_stream \<Rightarrow> real" where
  "STALE_SECONDS s = (case s of ScanIn \<Rightarrow> 2 | _ \<Rightarrow> 1)"

section \<open>The tracker\<close>

record entry =
  he_at :: millis
  he_measured :: "sides option"
  he_raw :: "sides option"
  he_target :: "sides option"
  he_request :: "sides option"
  he_speed :: num
  he_raw_speed :: num
  he_command :: num
  he_valid :: bool
  he_authority :: source

record point =
  pt_forward :: real
  pt_left :: real

record state_pose =
  sp_forward :: real
  sp_left :: real
  sp_heading :: real

record start_pose =
  og_x :: real
  og_y :: real
  og_theta :: real

text \<open>A stream's latest message with its arrival time.\<close>

record tracker =
  tk_history :: "entry list"
  tk_drive :: "(millis \<times> Live_Data.drive_msg) option"
  tk_odom :: "(millis \<times> odom_msg) option"
  tk_scan :: "(millis \<times> scan_msg) option"
  tk_twist :: "(millis \<times> twist_msg) option"
  tk_estop :: "(millis \<times> estop_msg) option"
  tk_origin :: "start_pose option"
  tk_pose :: "state_pose option"
  tk_trail :: "point list"
  tk_pose_half :: real
  tk_peak_rpm :: real
  tk_peak_speed :: real

definition createStateTracker :: tracker where
  "createStateTracker = \<lparr>tk_history = [], tk_drive = None, tk_odom = None, tk_scan = None, tk_twist = None,
     tk_estop = None, tk_origin = None, tk_pose = None, tk_trail = [], tk_pose_half = POSE_MIN_HALF,
     tk_peak_rpm = 0, tk_peak_speed = 0\<rparr>"

definition resetPose :: "tracker \<Rightarrow> tracker" where
  "resetPose tk = tk\<lparr>tk_origin := None, tk_pose := None, tk_trail := [], tk_pose_half := POSE_MIN_HALF\<rparr>"

definition freshCommand :: "tracker \<Rightarrow> millis \<Rightarrow> (real \<times> real) option" where
  "freshCommand tk now =
     (case tk_twist tk of
        None \<Rightarrow> None
      | Some (at', t) \<Rightarrow>
          (case (tw_linear t, tw_angular t) of
             (Some v, Some w) \<Rightarrow> if now - at' > STALE_SECONDS TwistIn * 1000 then None else Some (v, w)
           | _ \<Rightarrow> None))"

definition chassisSpeed :: "sides option \<Rightarrow> geometry option \<Rightarrow> num" where
  "chassisSpeed wheels config =
     (case (wheels, config) of
        (Some w, Some g) \<Rightarrow>
          if ge_radius g > 0 then Some ((sd_left w + sd_right w) / 2 * 2 * pi * ge_radius g / 60) else None
      | _ \<Rightarrow> None)"

definition finite_values :: "sides option list \<Rightarrow> real list" where
  "finite_values ws = concat (map (\<lambda>w. case w of None \<Rightarrow> [] | Some s \<Rightarrow> [sd_left s, sd_right s]) ws)"

definition grow :: "real \<Rightarrow> real list \<Rightarrow> real" where
  "grow peak values = foldl max peak (map abs values)"

text \<open>What one message says of the wheels, or nothing for an older message the geometry is missing for.\<close>

definition wheel_entry :: "tracker \<Rightarrow> Live_Data.drive_msg \<Rightarrow> millis \<Rightarrow> geometry option \<Rightarrow> entry option" where
  "wheel_entry tk drive now config =
     (let command = freshCommand tk now;
          request = (case (command, config) of
              (Some (v, w), Some g) \<Rightarrow> Some (wheelRpm v w g) | _ \<Rightarrow> None);
          blank = \<lparr>he_at = now, he_measured = None, he_raw = None, he_target = None, he_request = request,
            he_speed = None, he_raw_speed = None, he_command = map_option fst command, he_valid = False,
            he_authority = WheelSource\<rparr> in
      case wheelAuthority drive of
        Some a \<Rightarrow>
          Some (blank\<lparr>he_measured := au_filtered a, he_raw := au_raw a, he_target := au_target a,
            he_speed := (if au_valid a then dm_v drive else None),
            he_raw_speed := chassisSpeed (au_raw a) config, he_valid := au_valid a\<rparr>)
      | None \<Rightarrow>
          (case (config, dm_v drive, dm_w drive) of
             (Some g, Some v, Some w) \<Rightarrow>
               Some (blank\<lparr>he_measured := Some (wheelRpm v w g), he_target := request, he_speed := Some v,
                 he_valid := True, he_authority := LegacySource\<rparr>)
           | _ \<Rightarrow> None))"

definition addWheels :: "tracker \<Rightarrow> Live_Data.drive_msg \<Rightarrow> millis \<Rightarrow> geometry option \<Rightarrow> tracker" where
  "addWheels tk drive now config =
     (case wheel_entry tk drive now config of
        None \<Rightarrow> tk
      | Some e \<Rightarrow>
          tk\<lparr>tk_history := dropWhile (\<lambda>h. now - he_at h > HISTORY_SECONDS * 1000) (tk_history tk @ [e]),
             tk_peak_rpm := grow (tk_peak_rpm tk) (finite_values [he_measured e, he_raw e, he_target e]),
             tk_peak_speed := grow (tk_peak_speed tk)
               (List.map_filter id [he_speed e, he_raw_speed e, he_command e])\<rparr>)"

definition relative_pose :: "start_pose \<Rightarrow> real \<Rightarrow> real \<Rightarrow> real \<Rightarrow> state_pose" where
  "relative_pose og x y theta =
     (let dx = x - og_x og; dy = y - og_y og; c = cos (og_theta og); s = sin (og_theta og) in
      \<lparr>sp_forward = c * dx + s * dy, sp_left = - s * dx + c * dy,
       sp_heading = wrap_angle (theta - og_theta og)\<rparr>)"

definition extend_trail :: "point list \<Rightarrow> point \<Rightarrow> point list" where
  "extend_trail trail p =
     (if trail = [] \<or> TRAIL_STEP \<le> hypot (pt_forward p - pt_forward (last trail)) (pt_left p - pt_left (last trail))
      then let trail' = trail @ [p] in
        if TRAIL_MAX_POINTS < length trail' then tl trail' else trail'
      else trail)"

definition addPose :: "tracker \<Rightarrow> odom_msg \<Rightarrow> tracker" where
  "addPose tk o' =
     (case (om_x o', om_y o', om_theta o') of
        (Some x, Some y, Some theta) \<Rightarrow>
          let og = coalesce (tk_origin tk) \<lparr>og_x = x, og_y = y, og_theta = theta\<rparr>;
              pose = relative_pose og x y theta;
              extent = max \<bar>sp_forward pose\<bar> \<bar>sp_left pose\<bar> + POSE_MARGIN in
          tk\<lparr>tk_origin := Some og, tk_pose := Some pose,
             tk_trail := extend_trail (tk_trail tk) \<lparr>pt_forward = sp_forward pose, pt_left = sp_left pose\<rparr>,
             tk_pose_half := max (tk_pose_half tk) (of_int \<lceil>extent / POSE_STEP\<rceil> * POSE_STEP)\<rparr>
      | _ \<Rightarrow> tk)"

datatype incoming = InDrive Live_Data.drive_msg | InOdom odom_msg | InScan scan_msg | InTwist twist_msg
  | InEstop estop_msg

definition ingest :: "tracker \<Rightarrow> incoming \<Rightarrow> millis \<Rightarrow> geometry option \<Rightarrow> tracker" where
  "ingest tk m now config =
     (case m of
        InDrive d \<Rightarrow> addWheels (tk\<lparr>tk_drive := Some (now, d)\<rparr>) d now config
      | InOdom o' \<Rightarrow> addPose (tk\<lparr>tk_odom := Some (now, o')\<rparr>) o'
      | InScan s \<Rightarrow> tk\<lparr>tk_scan := Some (now, s)\<rparr>
      | InTwist t \<Rightarrow> tk\<lparr>tk_twist := Some (now, t)\<rparr>
      | InEstop e \<Rightarrow> tk\<lparr>tk_estop := Some (now, e)\<rparr>)"

section \<open>What is shown\<close>

record axis =
  ax_min :: real
  ax_max :: real
  ax_step :: real
  ax_ticks :: "real list"

definition axis_top :: "real list \<Rightarrow> (real \<Rightarrow> real) \<Rightarrow> real \<Rightarrow> real \<Rightarrow> real" where
  "axis_top tops beyond slack high =
     (case find (\<lambda>v. high - slack \<le> v) tops of Some v \<Rightarrow> v | None \<Rightarrow> beyond high)"

definition wheelAxis :: "tracker \<Rightarrow> speed_limits option \<Rightarrow> geometry option \<Rightarrow> axis" where
  "wheelAxis tk limits config =
     (let base = (case (limits, config) of
              (Some l, Some g) \<Rightarrow> forwardRpm (sl_linear l + sl_angular l * ge_separation g / 2) g
            | _ \<Rightarrow> DEFAULT_WHEEL_RPM);
          top = axis_top WHEEL_AXIS_TOPS (\<lambda>h. of_int \<lceil>h / 1000\<rceil> * 1000) 0 (max base (tk_peak_rpm tk)) in
      \<lparr>ax_min = - top, ax_max = top, ax_step = top / 2, ax_ticks = [- top, - top / 2, 0, top / 2, top]\<rparr>)"

definition speedTop :: "tracker \<Rightarrow> speed_limits option \<Rightarrow> real" where
  "speedTop tk limits =
     axis_top SPEED_AXIS_TOPS (\<lambda>h. of_int \<lceil>h\<rceil>) (1 / 10 ^ 9)
       (max (case limits of None \<Rightarrow> DEFAULT_SPEED_TOP | Some l \<Rightarrow> sl_linear l) (tk_peak_speed tk))"

definition received :: "tracker \<Rightarrow> state_stream \<Rightarrow> millis option" where
  "received tk s = (case s of DriveIn \<Rightarrow> map_option fst (tk_drive tk) | OdomIn \<Rightarrow> map_option fst (tk_odom tk)
     | ScanIn \<Rightarrow> map_option fst (tk_scan tk) | TwistIn \<Rightarrow> map_option fst (tk_twist tk)
     | EstopIn \<Rightarrow> map_option fst (tk_estop tk))"

definition ageOf :: "tracker \<Rightarrow> state_stream \<Rightarrow> millis \<Rightarrow> real option" where
  "ageOf tk s now = map_option (\<lambda>at'. (now - at') / 1000) (received tk s)"

definition isStale :: "tracker \<Rightarrow> state_stream \<Rightarrow> millis \<Rightarrow> bool" where
  "isStale tk s now = (case ageOf tk s now of None \<Rightarrow> True | Some age \<Rightarrow> age > STALE_SECONDS s)"

record stream_state =
  ss_name :: state_stream
  ss_offered :: bool
  ss_age :: "real option"
  ss_stale :: bool

definition streamStates :: "tracker \<Rightarrow> (state_stream \<Rightarrow> bool) \<Rightarrow> millis \<Rightarrow> stream_state list" where
  "streamStates tk offered now =
     map (\<lambda>s. \<lparr>ss_name = s, ss_offered = offered s, ss_age = ageOf tk s now, ss_stale = isStale tk s now\<rparr>)
       [DriveIn, OdomIn, ScanIn, TwistIn]"

datatype driver = DrivenByMe | DrivenByPage | DrivenByController | DrivenByUnknown | DrivenByNone

definition commanding :: "(real \<times> real) option \<Rightarrow> bool" where
  "commanding command =
     (case command of None \<Rightarrow> False | Some (v, w) \<Rightarrow> \<bar>v\<bar> > COMMAND_MOVING \<or> \<bar>w\<bar> > COMMAND_MOVING)"

definition turning :: "sides option \<Rightarrow> bool" where
  "turning wheels =
     (case wheels of None \<Rightarrow> False | Some s \<Rightarrow> \<bar>sd_left s\<bar> > MOVING_RPM \<or> \<bar>sd_right s\<bar> > MOVING_RPM)"

definition run_owner :: "drive_state option \<Rightarrow> string option" where
  "run_owner driveState =
     (case driveState of None \<Rightarrow> None | Some d \<Rightarrow> if ds_active d then ds_owner d else None)"

definition driverOf :: "drive_state option \<Rightarrow> string option \<Rightarrow> (real \<times> real) option \<Rightarrow> sides option \<Rightarrow> driver" where
  "driverOf driveState session command wheels =
     (case run_owner driveState of
        Some owner \<Rightarrow> if Some owner = session then DrivenByMe else DrivenByPage
      | None \<Rightarrow>
          if commanding command then DrivenByController
          else if turning wheels then DrivenByUnknown else DrivenByNone)"

text \<open>A missing value is \<open>None\<close>; so is the point that marks a gap.\<close>

fun history_points :: "entry list \<Rightarrow> millis \<Rightarrow> millis option \<Rightarrow> (entry \<Rightarrow> num) \<Rightarrow> (real \<times> num) list" where
  "history_points [] now previous f = []"
| "history_points (e # es) now previous f =
     (let seconds = (he_at e - now) / 1000;
          gap = (case previous of None \<Rightarrow> False | Some p \<Rightarrow> (he_at e - p) / 1000 > WHEEL_GAP_SECONDS) in
      (if gap then [(seconds, None)] else []) @ (seconds, f e) # history_points es now (Some (he_at e)) f)"

definition historyPoints :: "entry list \<Rightarrow> millis \<Rightarrow> (entry \<Rightarrow> num) \<Rightarrow> (real \<times> num) list" where
  "historyPoints history now f = history_points history now None f"

definition left_of :: "sides option \<Rightarrow> num" where "left_of s = map_option sd_left s"
definition right_of :: "sides option \<Rightarrow> num" where "right_of s = map_option sd_right s"

text \<open>The strip's line: the raw chassis speed, or the node's speed where there is none.\<close>

definition strip_speed :: "entry \<Rightarrow> num" where
  "strip_speed e = first_some (he_raw_speed e) (he_speed e)"

record wheels_model =
  wh_last :: entry
  wh_stale :: bool
  wh_series :: "(entry \<Rightarrow> num) \<Rightarrow> (real \<times> num) list"

definition wheelsModel :: "tracker \<Rightarrow> millis \<Rightarrow> wheels_model option" where
  "wheelsModel tk now =
     (if tk_history tk = [] then None
      else
        let e = last (tk_history tk) in
        Some \<lparr>wh_last = e, wh_stale = (isStale tk DriveIn now \<or> \<not> he_valid e),
          wh_series = historyPoints (tk_history tk) now\<rparr>)"

record front_model =
  fm_distance :: "real option"
  fm_points :: "point list"
  fm_stale :: bool

definition front_point :: "scan_msg \<Rightarrow> nat \<times> num \<Rightarrow> point option" where
  "front_point scan beam =
     (let (i, range) = beam in
      case (range, beam_angle scan i) of
        (Some r, Some a) \<Rightarrow>
          if r > FRONT_RANGE \<or> \<bar>a\<bar> > FRONT_ARC then None
          else Some \<lparr>pt_forward = r * cos a, pt_left = r * sin a\<rparr>
      | _ \<Rightarrow> None)"

definition frontModel :: "tracker \<Rightarrow> millis \<Rightarrow> front_model option" where
  "frontModel tk now =
     (case tk_scan tk of
        None \<Rightarrow> None
      | Some (at', scan) \<Rightarrow>
          Some \<lparr>fm_distance = frontDistance scan FRONT_HALF_ANGLE,
            fm_points = List.map_filter (front_point scan) (enumerate 0 (sm_ranges scan)),
            fm_stale = isStale tk ScanIn now\<rparr>)"

record motion_model =
  mm_speed :: real
  mm_turn :: real
  mm_stale :: bool

definition motionModel :: "tracker \<Rightarrow> millis \<Rightarrow> motion_model option" where
  "motionModel tk now =
     (case tk_drive tk of
        None \<Rightarrow> None
      | Some (at', d) \<Rightarrow>
          (case (dm_v d, dm_w d) of
             (Some v, Some w) \<Rightarrow>
               Some \<lparr>mm_speed = v, mm_turn = w,
                 mm_stale = ((case wheelAuthority d of None \<Rightarrow> False | Some a \<Rightarrow> \<not> au_valid a)
                   \<or> isStale tk DriveIn now)\<rparr>
           | _ \<Rightarrow> None))"

record pose_model =
  pm_pose :: state_pose
  pm_trail :: "point list"
  pm_half :: real
  pm_stale :: bool

definition poseModel :: "tracker \<Rightarrow> millis \<Rightarrow> pose_model option" where
  "poseModel tk now =
     map_option (\<lambda>p. \<lparr>pm_pose = p, pm_trail = tk_trail tk, pm_half = tk_pose_half tk,
       pm_stale = isStale tk OdomIn now\<rparr>) (tk_pose tk)"

datatype estop_state = Pressed | Released | StaleStop | UnknownStop
datatype estop_source = EstopStream | DriveFlag

definition derived_pressed :: "tracker \<Rightarrow> millis \<Rightarrow> bool" where
  "derived_pressed tk now \<longleftrightarrow>
     (case tk_drive tk of None \<Rightarrow> False | Some (at', d) \<Rightarrow> \<not> isStale tk DriveIn now \<and> dm_emergency_stop d)"

definition estopModel :: "tracker \<Rightarrow> millis \<Rightarrow> estop_state \<times> estop_source option" where
  "estopModel tk now =
     (let fresh = \<not> isStale tk EstopIn now in
      if (case tk_estop tk of None \<Rightarrow> False | Some (at', e) \<Rightarrow> fresh \<and> em_active e) then (Pressed, Some EstopStream)
      else if derived_pressed tk now then (Pressed, Some DriveFlag)
      else if tk_estop tk = None then (UnknownStop, None)
      else if \<not> fresh then (StaleStop, Some EstopStream)
      else (Released, Some EstopStream))"

record panel =
  pn_estop :: "bool option"
  pn_estop_state :: estop_state
  pn_estop_source :: "estop_source option"
  pn_driver :: driver
  pn_command :: "(real \<times> real) option"
  pn_motion :: "motion_model option"
  pn_wheels :: "wheels_model option"
  pn_wheel_axis :: axis
  pn_speed_top :: real
  pn_pose :: "pose_model option"
  pn_front :: "front_model option"
  pn_streams :: "stream_state list"

definition fresh_wheels :: "wheels_model option \<Rightarrow> wheels_model option" where
  "fresh_wheels w = (case w of None \<Rightarrow> None | Some m \<Rightarrow> if wh_stale m then None else Some m)"

definition usable_wheels :: "wheels_model option \<Rightarrow> sides option" where
  "usable_wheels w = Option.bind (fresh_wheels w) (\<lambda>m. he_measured (wh_last m))"

text \<open>The panel of a connected robot; while not connected there is none.\<close>

definition robotStateModel :: "tracker \<Rightarrow> bool \<Rightarrow> (state_stream \<Rightarrow> bool) \<Rightarrow> geometry option \<Rightarrow> drive_state option
    \<Rightarrow> string option \<Rightarrow> millis \<Rightarrow> panel option" where
  "robotStateModel tk is_connected offered config driveState session now =
     (if \<not> is_connected then None
      else
        let command = freshCommand tk now; wheels = wheelsModel tk now; (state, src) = estopModel tk now;
            limits = Option.bind driveState ds_limits in
        Some \<lparr>pn_estop = (case state of Pressed \<Rightarrow> Some True | Released \<Rightarrow> Some False | _ \<Rightarrow> None),
          pn_estop_state = state, pn_estop_source = src,
          pn_driver = driverOf driveState session command
            (if isStale tk DriveIn now then None else usable_wheels wheels),
          pn_command = command, pn_motion = motionModel tk now, pn_wheels = wheels,
          pn_wheel_axis = wheelAxis tk limits config, pn_speed_top = speedTop tk limits,
          pn_pose = poseModel tk now, pn_front = frontModel tk now,
          pn_streams = streamStates tk offered now\<rparr>)"

section \<open>The strip and the memo\<close>

definition spark_x :: "real \<Rightarrow> real" where
  "spark_x seconds = (seconds + HISTORY_SECONDS) / HISTORY_SECONDS * SPARK_WIDTH"

definition spark_y :: "real \<Rightarrow> real \<Rightarrow> real" where
  "spark_y height v = (height - max (- height) (min height v)) / (2 * height) * SPARK_HEIGHT"

text \<open>Each run of samples without a gap is a polyline of its own.\<close>

fun spark_runs :: "real \<Rightarrow> (real \<times> real) list \<Rightarrow> (real \<times> num) list \<Rightarrow> (real \<times> real) list list" where
  "spark_runs height current [] = (if current = [] then [] else [current])"
| "spark_runs height current (p # ps) =
     (case snd p of
        Some v \<Rightarrow>
          if fst p < - HISTORY_SECONDS
          then (if current = [] then [] else [current]) @ spark_runs height [] ps
          else spark_runs height (current @ [(to_fixed 1 (spark_x (fst p)), to_fixed 1 (spark_y height v))]) ps
      | None \<Rightarrow> (if current = [] then [] else [current]) @ spark_runs height [] ps)"

definition spark_text :: "(real \<times> real) list \<Rightarrow> string" where
  "spark_text line = join '' '' (map (\<lambda>(x, y). show_num x @ '','' @ show_num y) line)"

definition sparkLines :: "(real \<times> num) list \<Rightarrow> real \<Rightarrow> string list" where
  "sparkLines points height = map spark_text (filter (\<lambda>l. 1 < length l) (spark_runs height [] points))"

record strip =
  st_estop :: "bool option"
  st_driver :: driver
  st_left :: num
  st_right :: num
  st_speed :: num
  st_command :: num
  st_top :: real
  st_measured :: "string list"
  st_commanded :: "string list"

definition fresh_motion :: "panel \<Rightarrow> motion_model option" where
  "fresh_motion m = (case pn_motion m of None \<Rightarrow> None | Some x \<Rightarrow> if mm_stale x then None else Some x)"

definition strip_series :: "panel \<Rightarrow> (entry \<Rightarrow> num) \<Rightarrow> (real \<times> num) list" where
  "strip_series m f = (case pn_wheels m of None \<Rightarrow> [] | Some w \<Rightarrow> wh_series w f)"

definition stripModel :: "panel \<Rightarrow> strip" where
  "stripModel m =
     \<lparr>st_estop = pn_estop m, st_driver = pn_driver m,
      st_left = left_of (usable_wheels (pn_wheels m)), st_right = right_of (usable_wheels (pn_wheels m)),
      st_speed = map_option mm_speed (fresh_motion m), st_command = map_option fst (pn_command m),
      st_top = pn_speed_top m,
      st_measured = sparkLines (strip_series m strip_speed) (pn_speed_top m),
      st_commanded = sparkLines (strip_series m he_command) (pn_speed_top m)\<rparr>"

text \<open>A signed number as the learner reads it, never \<open>-0\<close>.\<close>

definition signed :: "real \<Rightarrow> nat \<Rightarrow> string" where
  "signed v digits =
     (let rounded = to_fixed digits v in
      if rounded = 0 then fixed_text digits 0
      else (if rounded > 0 then ''+'' else []) @ fixed_text digits rounded)"

text \<open>
  The values of a memo line; \<open>None\<close> is written as the word for an unknown value. A wheel whose
  feedback is valid but carries no number is written as the \<open>NaN\<close> that \<open>toFixed\<close> makes of it.
\<close>

definition wheel_text :: "num \<Rightarrow> string" where
  "wheel_text v = (case v of None \<Rightarrow> ''NaN'' | Some r \<Rightarrow> fixed_text 1 r)"

record snapshot =
  sn_left :: "string option"
  sn_right :: "string option"
  sn_speed :: "string option"
  sn_turn :: "string option"
  sn_heading :: "string option"
  sn_front :: "string option"
  sn_estop :: "bool option"

definition snapshotLine :: "panel \<Rightarrow> snapshot" where
  "snapshotLine m =
     (let wheels = map_option (\<lambda>w. he_measured (wh_last w)) (fresh_wheels (pn_wheels m)); motion = fresh_motion m;
          pose = (case pn_pose m of None \<Rightarrow> None | Some p \<Rightarrow> if pm_stale p then None else Some (pm_pose p));
          front = (case pn_front m of None \<Rightarrow> None | Some f \<Rightarrow> if fm_stale f then None else fm_distance f) in
      \<lparr>sn_left = map_option (\<lambda>w. wheel_text (left_of w)) wheels, sn_right = map_option (\<lambda>w. wheel_text (right_of w)) wheels,
       sn_speed = map_option (\<lambda>x. signed (mm_speed x) 2) motion,
       sn_turn = map_option (\<lambda>x. signed (mm_turn x) 2) motion,
       sn_heading = map_option (\<lambda>p. signed (sp_heading p * (180 / pi)) 0) pose,
       sn_front = map_option (fixed_text 2) front, sn_estop = pn_estop m\<rparr>)"

datatype freshness = IdleStream | NeverReceived | LongAgo | SecondsAgo string

definition freshnessText :: "stream_state \<Rightarrow> freshness" where
  "freshnessText s =
     (case ss_age s of
        None \<Rightarrow> if ss_name s = TwistIn then IdleStream else NeverReceived
      | Some age \<Rightarrow> if 10 \<le> age then LongAgo else SecondsAgo (fixed_text 1 age))"

section \<open>The tracker over a page's life\<close>

text \<open>
  \<open>listen\<close> of \<open>robot-state.js\<close>: every message goes into the one tracker with its arrival time, a link
  that is not open empties it; opening a panel or its button starts the trail afresh.
\<close>

datatype panel_event =
    Arrived incoming millis "geometry option"
  | LinkState bool
  | PoseRestart

definition panel_step :: "panel_event \<Rightarrow> tracker \<Rightarrow> tracker" where
  "panel_step e tk =
     (case e of
        Arrived m now config \<Rightarrow> ingest tk m now config
      | LinkState is_open \<Rightarrow> if is_open then tk else createStateTracker
      | PoseRestart \<Rightarrow> resetPose tk)"

definition panel_run :: "panel_event list \<Rightarrow> tracker" where
  "panel_run es = fold panel_step es createStateTracker"

lemma panel_run_simps [step_simps]:
  "panel_run [] = createStateTracker"
  "panel_run (es @ [e]) = panel_step e (panel_run es)"
  by (simp_all add: panel_run_def)

text \<open>The learner's memo: typed text and snapshot lines, at most \<open>MEMO_MAX_CHARS\<close> of them.\<close>

definition MEMO_MAX_CHARS :: nat where "MEMO_MAX_CHARS = 20000"

definition memo_write :: "string \<Rightarrow> string" where
  "memo_write typed = take MEMO_MAX_CHARS typed"

definition memo_snapshot :: "string \<Rightarrow> string \<Rightarrow> string" where
  "memo_snapshot memo line =
     (let before = rev (dropWhile is_space (rev memo));
          longer = (if before \<noteq> [] then before @ [CHR 0x0A] @ line @ '' '' else line @ '' '') in
      drop (length longer - MEMO_MAX_CHARS) longer)"

text \<open>Storing the empty memo removes its entry.\<close>

definition keepMemo :: "(string \<Rightarrow> string option) \<Rightarrow> string \<Rightarrow> string \<Rightarrow> string \<Rightarrow> string option" where
  "keepMemo store place memo =
     store(''questix-lab-state-memo:'' @ place := (if memo \<noteq> [] then Some memo else None))"

definition readMemo :: "(string \<Rightarrow> string option) \<Rightarrow> string \<Rightarrow> string" where
  "readMemo store place = coalesce (store (''questix-lab-state-memo:'' @ place)) []"

lemma memo_length: "length (memo_write typed) \<le> MEMO_MAX_CHARS" "length (memo_snapshot memo line) \<le> MEMO_MAX_CHARS"
  by (simp_all add: memo_write_def memo_snapshot_def Let_def)

lemma read_kept_memo: "readMemo (keepMemo store place memo) place = memo"
  by (simp add: readMemo_def keepMemo_def)

section \<open>What the tracker remembers\<close>

text \<open>The latest message of a stream since the link opened, read off the history of events.\<close>

fun latest_since :: "(incoming \<Rightarrow> 'm option) \<Rightarrow> panel_event list \<Rightarrow> (millis \<times> 'm) option" where
  "latest_since sel [] = None"
| "latest_since sel (e # es) =
     (case e of
        Arrived m now config \<Rightarrow> (case sel m of None \<Rightarrow> latest_since sel es | Some x \<Rightarrow> Some (now, x))
      | LinkState False \<Rightarrow> None
      | _ \<Rightarrow> latest_since sel es)"

definition latest_estop :: "panel_event list \<Rightarrow> (millis \<times> estop_msg) option" where
  "latest_estop es = latest_since (\<lambda>m. case m of InEstop x \<Rightarrow> Some x | _ \<Rightarrow> None) (rev es)"

definition latest_drive :: "panel_event list \<Rightarrow> (millis \<times> Live_Data.drive_msg) option" where
  "latest_drive es = latest_since (\<lambda>m. case m of InDrive x \<Rightarrow> Some x | _ \<Rightarrow> None) (rev es)"

lemma add_frames [frame_simps]:
  "tk_estop (addWheels tk d now c) = tk_estop tk" "tk_drive (addWheels tk d now c) = tk_drive tk"
  "tk_trail (addWheels tk d now c) = tk_trail tk" "tk_pose (addWheels tk d now c) = tk_pose tk"
  "tk_pose_half (addWheels tk d now c) = tk_pose_half tk"
  "tk_estop (addPose tk m) = tk_estop tk" "tk_drive (addPose tk m) = tk_drive tk"
  "tk_history (addPose tk m) = tk_history tk" "tk_peak_rpm (addPose tk m) = tk_peak_rpm tk"
  "tk_peak_speed (addPose tk m) = tk_peak_speed tk"
  by (simp_all add: addWheels_def addPose_def Let_def split: option.splits)

lemma run_estop: "tk_estop (panel_run es) = latest_estop es"
  by (induction es rule: rev_induct)
    (auto simp: step_simps frame_simps latest_estop_def panel_step_def ingest_def createStateTracker_def
      resetPose_def split: panel_event.splits incoming.splits)

lemma run_drive: "tk_drive (panel_run es) = latest_drive es"
  by (induction es rule: rev_induct)
    (auto simp: step_simps frame_simps latest_drive_def panel_step_def ingest_def createStateTracker_def
      resetPose_def split: panel_event.splits incoming.splits)

text \<open>
  The emergency stop as it should be read off the messages: a message counts for one second.
\<close>

definition counts :: "millis \<Rightarrow> (millis \<times> 'm) option \<Rightarrow> ('m \<Rightarrow> bool) \<Rightarrow> bool" where
  "counts now m p = (case m of None \<Rightarrow> False | Some (at', x) \<Rightarrow> now - at' \<le> 1000 \<and> p x)"

text \<open>
  C15: what the panel shows of the emergency stop after any messages, link losses and restarts of the
  trail. It is shown as pressed exactly when the latest \<open>/emergency_stop\<close> or the latest \<open>/drive_status\<close>,
  not older than a second, says so; as released exactly when the latest \<open>/emergency_stop\<close> itself is
  fresh and inactive and no fresh \<open>/drive_status\<close> contradicts it; as unknown only when
  \<open>/emergency_stop\<close> was never heard on this link. So silence and the flag of \<open>/drive_status\<close> are never
  taken for a released stop.
\<close>

theorem estop_shown_as_said:
  "(fst (estopModel (panel_run es) now) = Pressed) =
     (counts now (latest_estop es) em_active \<or> counts now (latest_drive es) dm_emergency_stop) \<and>
   (fst (estopModel (panel_run es) now) = Released) =
     (counts now (latest_estop es) (\<lambda>e. \<not> em_active e) \<and> \<not> counts now (latest_drive es) dm_emergency_stop) \<and>
   (fst (estopModel (panel_run es) now) = UnknownStop) =
     (latest_estop es = None \<and> \<not> counts now (latest_drive es) dm_emergency_stop)"
  by (cases "latest_estop es"; cases "latest_drive es")
    (auto simp: estopModel_def derived_pressed_def counts_def run_estop run_drive isStale_def ageOf_def
      received_def STALE_SECONDS_def Let_def)

section \<open>The drawing always holds what it shows\<close>

definition within_peak :: "real \<Rightarrow> num \<Rightarrow> bool" where
  "within_peak peak v = (case v of None \<Rightarrow> True | Some x \<Rightarrow> \<bar>x\<bar> \<le> peak)"

definition entry_within :: "real \<Rightarrow> real \<Rightarrow> entry \<Rightarrow> bool" where
  "entry_within rpm speed e \<longleftrightarrow>
     list_all (\<lambda>w. within_peak rpm (left_of w) \<and> within_peak rpm (right_of w)) [he_measured e, he_raw e, he_target e]
     \<and> list_all (within_peak speed) [he_speed e, he_raw_speed e, he_command e]"

fun steps_apart :: "point list \<Rightarrow> bool" where
  "steps_apart (p # q # ps) \<longleftrightarrow>
     TRAIL_STEP \<le> hypot (pt_forward q - pt_forward p) (pt_left q - pt_left p) \<and> steps_apart (q # ps)"
| "steps_apart ps \<longleftrightarrow> True"

definition tracker_ok :: "tracker \<Rightarrow> bool" where
  "tracker_ok tk \<longleftrightarrow>
     list_all (entry_within (tk_peak_rpm tk) (tk_peak_speed tk)) (tk_history tk)
     \<and> length (tk_trail tk) \<le> TRAIL_MAX_POINTS \<and> steps_apart (tk_trail tk)
     \<and> POSE_MIN_HALF \<le> tk_pose_half tk
     \<and> (case tk_pose tk of None \<Rightarrow> True
        | Some p \<Rightarrow> max \<bar>sp_forward p\<bar> \<bar>sp_left p\<bar> + POSE_MARGIN \<le> tk_pose_half tk)"

lemma grow_ge: "peak \<le> grow peak vs"
  by (induction vs arbitrary: peak) (auto simp: grow_def intro: order_trans [OF max.cobounded1])

lemma grow_holds: "v \<in> set vs \<Longrightarrow> \<bar>v\<bar> \<le> grow peak vs"
proof (induction vs arbitrary: peak)
  case Nil
  then show ?case by simp
next
  case (Cons a vs)
  show ?case
  proof (cases "v = a")
    case True
    have "\<bar>a\<bar> \<le> max peak \<bar>a\<bar>" by simp
    also have "\<dots> \<le> grow (max peak \<bar>a\<bar>) vs" by (rule grow_ge)
    finally show ?thesis using True by (simp add: grow_def)
  next
    case False
    with Cons show ?thesis by (simp add: grow_def)
  qed
qed

lemma within_peak_mono: "within_peak a v \<Longrightarrow> a \<le> b \<Longrightarrow> within_peak b v"
  by (auto simp: within_peak_def split: option.splits)

lemma entry_within_mono: "entry_within a b e \<Longrightarrow> a \<le> a' \<Longrightarrow> b \<le> b' \<Longrightarrow> entry_within a' b' e"
  by (auto simp: entry_within_def intro: within_peak_mono)

lemma within_grow_sides: "w \<in> set ws \<Longrightarrow>
    within_peak (grow peak (finite_values ws)) (left_of w) \<and> within_peak (grow peak (finite_values ws)) (right_of w)"
  by (cases w) (force simp: within_peak_def left_of_def right_of_def finite_values_def intro!: grow_holds
      split: option.splits)+

lemma within_grow: "v \<in> set vs \<Longrightarrow> within_peak (grow peak (List.map_filter id vs)) v"
  by (cases v) (force simp: within_peak_def map_filter_def intro!: grow_holds)+

lemma list_all_dropWhile: "list_all p xs \<Longrightarrow> list_all p (dropWhile q xs)"
  by (induction xs) simp_all

lemma steps_apart_tl: "steps_apart ps \<Longrightarrow> steps_apart (tl ps)"
  by (induction ps rule: steps_apart.induct) simp_all

lemma steps_apart_snoc: "steps_apart ps \<Longrightarrow>
    (ps \<noteq> [] \<Longrightarrow> TRAIL_STEP \<le> hypot (pt_forward p - pt_forward (last ps)) (pt_left p - pt_left (last ps))) \<Longrightarrow>
    steps_apart (ps @ [p])"
  by (induction ps rule: steps_apart.induct) simp_all

lemma extend_trail_ok:
  assumes "steps_apart ps" and "length ps \<le> TRAIL_MAX_POINTS"
  shows "steps_apart (extend_trail ps p) \<and> length (extend_trail ps p) \<le> TRAIL_MAX_POINTS"
proof -
  have far: "steps_apart (ps @ [p])"
    if "ps = [] \<or> TRAIL_STEP \<le> hypot (pt_forward p - pt_forward (last ps)) (pt_left p - pt_left (last ps))"
    using steps_apart_snoc [of ps p] assms(1) that by (cases "ps = []") auto
  show ?thesis
    using assms far steps_apart_tl [of "ps @ [p]"] by (auto simp: extend_trail_def Let_def)
qed

lemma view_holds: "x \<le> of_int \<lceil>x / POSE_STEP\<rceil> * POSE_STEP"
  using le_of_int_ceiling [of "x / POSE_STEP"] by (simp add: POSE_STEP_def field_simps)

lemma addPose_ok: "tracker_ok tk \<Longrightarrow> tracker_ok (addPose tk m)"
  using extend_trail_ok [of "tk_trail tk"]
  by (auto simp: tracker_ok_def addPose_def Let_def le_max_iff_disj intro!: disjI2 order_trans [OF _ view_holds]
      split: option.splits)

lemma wheel_entry_within:
  "entry_within (grow rpm (finite_values [he_measured e, he_raw e, he_target e]))
     (grow speed (List.map_filter id [he_speed e, he_raw_speed e, he_command e])) e"
  unfolding entry_within_def list_all_iff by (intro conjI ballI within_grow_sides [THEN conjunct1] within_grow_sides [THEN conjunct2] within_grow)

lemma addWheels_ok: "tracker_ok tk \<Longrightarrow> tracker_ok (addWheels tk d now c)"
proof -
  assume ok: "tracker_ok tk"
  show ?thesis
  proof (cases "wheel_entry tk d now c")
    case None
    with ok show ?thesis by (simp add: addWheels_def)
  next
    case (Some e)
    let ?rpm = "grow (tk_peak_rpm tk) (finite_values [he_measured e, he_raw e, he_target e])"
    let ?speed = "grow (tk_peak_speed tk) (List.map_filter id [he_speed e, he_raw_speed e, he_command e])"
    have "list_all (entry_within ?rpm ?speed) (tk_history tk)"
      using ok grow_ge by (auto simp: tracker_ok_def list_all_iff intro: entry_within_mono)
    then have "list_all (entry_within ?rpm ?speed) (tk_history tk @ [e])"
      using wheel_entry_within by simp
    with ok Some show ?thesis
      by (auto simp: tracker_ok_def addWheels_def intro: list_all_dropWhile split: option.splits)
  qed
qed

lemma start_ok: "tracker_ok createStateTracker"
  by (simp add: tracker_ok_def createStateTracker_def)

lemma tracker_ok_slots [simp]:
  "tracker_ok (tk\<lparr>tk_drive := a\<rparr>) = tracker_ok tk" "tracker_ok (tk\<lparr>tk_odom := b\<rparr>) = tracker_ok tk"
  "tracker_ok (tk\<lparr>tk_scan := s\<rparr>) = tracker_ok tk" "tracker_ok (tk\<lparr>tk_twist := t\<rparr>) = tracker_ok tk"
  "tracker_ok (tk\<lparr>tk_estop := e\<rparr>) = tracker_ok tk"
  by (simp_all add: tracker_ok_def split: option.split)

interpretation tracker: event_machine panel_step tracker_ok
proof
  fix tk e
  assume "tracker_ok tk"
  then show "tracker_ok (panel_step e tk)"
    by (auto simp: panel_step_def ingest_def start_ok addWheels_ok addPose_ok split: panel_event.splits incoming.splits)
      (simp add: tracker_ok_def resetPose_def)
qed

lemma run_ok: "tracker_ok (panel_run es)"
  unfolding panel_run_def by (rule tracker.run_inv) (rule start_ok)

lemma axis_top_ge:
  assumes "\<And>h. h \<le> beyond h" and "0 \<le> slack"
  shows "high - slack \<le> axis_top tops beyond slack high"
  using assms by (auto simp: axis_top_def find_Some_iff split: option.splits intro: order_trans [OF _ assms(1)])

lemma wheelAxis_holds: "tk_peak_rpm tk \<le> ax_max (wheelAxis tk limits config)"
proof -
  have "h \<le> of_int \<lceil>h / 1000\<rceil> * 1000" for h :: real
    using le_of_int_ceiling [of "h / 1000"] by linarith
  from axis_top_ge [of "\<lambda>h. of_int \<lceil>h / 1000\<rceil> * 1000", OF this, of 0]
  have "h \<le> axis_top WHEEL_AXIS_TOPS (\<lambda>h. of_int \<lceil>h / 1000\<rceil> * 1000) 0 h" for h by simp
  from order_trans [OF max.cobounded2 this] show ?thesis
    by (simp add: wheelAxis_def Let_def)
qed

text \<open>What a chart of the panel may show: every wheel speed of the history inside the axis.\<close>

definition panel_holds :: "tracker \<Rightarrow> panel \<Rightarrow> bool" where
  "panel_holds tk m \<longleftrightarrow>
     list_all (\<lambda>e. list_all (\<lambda>w. within_peak (ax_max (pn_wheel_axis m)) (left_of w)
         \<and> within_peak (ax_max (pn_wheel_axis m)) (right_of w)) [he_measured e, he_raw e, he_target e])
       (tk_history tk)
     \<and> (case pn_pose m of None \<Rightarrow> True
        | Some p \<Rightarrow> max \<bar>sp_forward (pm_pose p)\<bar> \<bar>sp_left (pm_pose p)\<bar> + POSE_MARGIN \<le> pm_half p
            \<and> length (pm_trail p) \<le> TRAIL_MAX_POINTS \<and> steps_apart (pm_trail p))"

text \<open>
  after any sequence of messages (of any content and any arrival times), link losses and restarts
  of the trail, whatever the panel draws fits: every measured, raw and target wheel speed of the chart
  lies within its axis, the robot stands at least 0.4 m inside the top view, and the trail has at most
  3000 points, each at least a centimetre from the one before.
\<close>

theorem panel_drawing_fits:
  "case robotStateModel (panel_run es) is_connected offered config driveState session now of
     None \<Rightarrow> \<not> is_connected
   | Some m \<Rightarrow> panel_holds (panel_run es) m"
proof (cases is_connected)
  case False
  then show ?thesis by (simp add: robotStateModel_def)
next
  case True
  let ?limits = "Option.bind driveState ds_limits"
  have ok: "tracker_ok (panel_run es)" by (rule run_ok)
  have axis: "tk_peak_rpm (panel_run es) \<le> ax_max (wheelAxis (panel_run es) ?limits config)"
    by (rule wheelAxis_holds)
  have "list_all (\<lambda>e. list_all (\<lambda>w. within_peak (ax_max (wheelAxis (panel_run es) ?limits config)) (left_of w)
         \<and> within_peak (ax_max (wheelAxis (panel_run es) ?limits config)) (right_of w))
       [he_measured e, he_raw e, he_target e]) (tk_history (panel_run es))"
    using ok by (auto simp: tracker_ok_def entry_within_def list_all_iff intro: within_peak_mono [OF _ axis])
  with True ok show ?thesis
    by (auto simp: robotStateModel_def panel_holds_def poseModel_def tracker_ok_def Let_def
        split: prod.splits option.splits)
qed

end
