(* ===== verification/Systems_Base.thy ===== *)
theory Systems_Base
  imports Js_Math "HOL-Library.Word"
begin

text \<open>
  What the experiments of \<open>lab/js/systems/core.js\<close> share: the time step, the pseudo-random stream, the
  catalogue of topics with their controls (\<open>systems/data.js\<close>, from \<open>content/systems.json\<close>) and the
  validation of a learner's settings. The words of the content files are constructors or left out.
\<close>

section \<open>Time step and noise\<close>

definition dt :: real where "dt = 0.05"
definition GRAVITY :: real where "GRAVITY = 9.81"
definition EPSILON :: real where "EPSILON = 1 / 10 ^ 8"

definition clamp :: "real \<Rightarrow> real \<Rightarrow> real \<Rightarrow> real" where
  "clamp v low high = max low (min high v)"

definition rad :: "real \<Rightarrow> real" where "rad degrees = degrees * pi / 180"

definition mean :: "real list \<Rightarrow> real" where
  "mean values = (if values \<noteq> [] then foldl (+) 0 values / real (length values) else 0)"

text \<open>The multiplication and the addition wrap at 32 bits.\<close>

definition next_seed :: "32 word \<Rightarrow> 32 word" where
  "next_seed seed = seed * 1664525 + 1013904223"

definition noise_of :: "32 word \<Rightarrow> real" where
  "noise_of seed = real (unat seed) / 4294967296 * 2 - 1"

definition START_SEED :: "32 word" where "START_SEED = 917"

lemma noise_bounds: "- 1 \<le> noise_of seed \<and> noise_of seed < 1"
proof -
  have "unat seed < 2 ^ LENGTH(32)" by (rule unsigned_less)
  then have "unat seed < 4294967296" by simp
  then have "real (unat seed) < 4294967296" by (metis of_nat_less_iff of_nat_numeral)
  moreover have "0 \<le> real (unat seed)" by (rule of_nat_0_le_iff)
  ultimately show ?thesis unfolding noise_of_def by linarith
qed

lemma clamp_bounds: "low \<le> high \<Longrightarrow> low \<le> clamp v low high \<and> clamp v low high \<le> high"
  by (simp add: clamp_def)

lemma clamp_id: "low \<le> v \<Longrightarrow> v \<le> high \<Longrightarrow> clamp v low high = v"
  by (simp add: clamp_def)

lemma dt_pos [simp]: "0 < dt" "0 \<le> dt"
  by (simp_all add: dt_def)

section \<open>Controls and settings\<close>

datatype setting = NumberSetting real | CheckSetting bool | SelectSetting string

datatype control_kind = NumberControl real real | CheckControl | SelectControl "string list"

record control =
  ct_key :: string
  ct_kind :: control_kind
  ct_value :: setting

record topic =
  tp_id :: string
  tp_controls :: "control list"

type_synonym config = "string \<Rightarrow> setting option"

definition number :: "string \<Rightarrow> real \<Rightarrow> real \<Rightarrow> real \<Rightarrow> control" where
  "number key low high v = \<lparr>ct_key = key, ct_kind = NumberControl low high, ct_value = NumberSetting v\<rparr>"

definition check :: "string \<Rightarrow> bool \<Rightarrow> control" where
  "check key v = \<lparr>ct_key = key, ct_kind = CheckControl, ct_value = CheckSetting v\<rparr>"

definition select :: "string \<Rightarrow> string list \<Rightarrow> string \<Rightarrow> control" where
  "select key options v = \<lparr>ct_key = key, ct_kind = SelectControl options, ct_value = SelectSetting v\<rparr>"

definition SYSTEM_TOPICS :: "(string \<times> topic list) list" where
  "SYSTEM_TOPICS =
   [(''mechanics'',
     [\<lparr>tp_id = ''force'', tp_controls = [number ''mass'' 4 12 4, number ''power'' 20 100 50]\<rparr>,
      \<lparr>tp_id = ''traction'', tp_controls =
        [number ''power'' 20 100 100, number ''grip'' 0.05 0.8 0.08, number ''mass'' 4 12 4]\<rparr>,
      \<lparr>tp_id = ''braking'', tp_controls =
        [number ''initialSpeed'' 0.4 1.8 1.2, number ''brakeAt'' 0.1 2 0.35, number ''mass'' 4 12 8,
         number ''grip'' 0.05 0.8 0.4]\<rparr>]),
    (''behavior'',
     [\<lparr>tp_id = ''sequence'', tp_controls = [select ''obstacle'' [''none'', ''temporary'', ''permanent''] ''none'']\<rparr>,
      \<lparr>tp_id = ''blocked'', tp_controls =
        [select ''obstacle'' [''temporary'', ''permanent''] ''permanent'',
         select ''blockedRule'' [''wait'', ''detour''] ''wait'', number ''timeout'' 0 8 3]\<rparr>,
      \<lparr>tp_id = ''missing'', tp_controls = [select ''searchRule'' [''ignore'', ''search''] ''ignore'']\<rparr>]),
    (''tracking'',
     [\<lparr>tp_id = ''velocity'', tp_controls =
        [number ''interval'' 0.1 1 0.2, number ''noise'' 0 0.12 0, number ''smoothing'' 0.1 1 1]\<rparr>,
      \<lparr>tp_id = ''prediction'', tp_controls =
        [select ''motion'' [''straight'', ''turn''] ''straight'', number ''horizon'' 0.2 2 1, number ''noise'' 0 0.1 0]\<rparr>,
      \<lparr>tp_id = ''crossing'', tp_controls =
        [select ''rule'' [''current'', ''predict''] ''current'', number ''interval'' 0.1 1 0.6,
         number ''horizon'' 0.5 3 2]\<rparr>]),
    (''coordination'',
     [\<lparr>tp_id = ''frames'', tp_controls =
        [check ''transform'' False, number ''cameraX'' 0 80 40, number ''cameraZ'' 0 60 30,
         number ''cameraAngle'' 0 30 10]\<rparr>,
      \<lparr>tp_id = ''calibrate'', tp_controls =
        [number ''cameraX'' 0 80 15, number ''cameraZ'' 0 60 10, number ''cameraAngle'' 0 30 0]\<rparr>,
      \<lparr>tp_id = ''feedback'', tp_controls =
        [select ''lookAgain'' [''once'', ''repeat''] ''once'', number ''interval'' 0.1 1.5 0.3]\<rparr>]),
    (''timing'',
     [\<lparr>tp_id = ''delay'', tp_controls = [number ''latency'' 0 1 0.6, check ''compensate'' False]\<rparr>,
      \<lparr>tp_id = ''alignment'', tp_controls =
        [select ''align'' [''now'', ''stamp''] ''now'', number ''latency'' 0 1 0.6]\<rparr>,
      \<lparr>tp_id = ''queue'', tp_controls = [select ''queue'' [''all'', ''latest''] ''all'', number ''processing'' 2 20 5]\<rparr>]),
    (''diagnostics'',
     [\<lparr>tp_id = ''distance'', tp_controls =
        [select ''sensorRule'' [''lidar'', ''both''] ''lidar'', number ''stopDistance'' 0.15 1 0.6]\<rparr>,
      \<lparr>tp_id = ''missing'', tp_controls = [check ''watchdog'' False, number ''staleLimit'' 0.1 2 0.4]\<rparr>,
      \<lparr>tp_id = ''impact'', tp_controls =
        [select ''eventType'' [''bump'', ''impact''] ''bump'', number ''impactLimit'' 2 22 4]\<rparr>])]"

definition systemDefaults :: "control list \<Rightarrow> config" where
  "systemDefaults controls = foldl (\<lambda>config c. config(ct_key c \<mapsto> ct_value c)) Map.empty controls"

text \<open>
  A value the page hands over, as the code can look at it: what \<open>Number(value)\<close> gives (\<open>None\<close> when that
  is not finite), the boolean it is, the text it is. A missing value is none of the three.
\<close>

record raw_value =
  rv_number :: num
  rv_bool :: "bool option"
  rv_text :: "string option"

datatype systems_error = UnknownExperiment | NeedTwoPairs | SpreadMarkers

definition take_input :: "(string \<Rightarrow> raw_value) \<Rightarrow> config \<Rightarrow> control \<Rightarrow> config" where
  "take_input input config c =
     (let v = input (ct_key c) in
      case ct_kind c of
        NumberControl low high \<Rightarrow>
          (case rv_number v of None \<Rightarrow> config | Some x \<Rightarrow> config(ct_key c \<mapsto> NumberSetting (clamp x low high)))
      | CheckControl \<Rightarrow>
          (case rv_bool v of None \<Rightarrow> config | Some b \<Rightarrow> config(ct_key c \<mapsto> CheckSetting b))
      | SelectControl options \<Rightarrow>
          (case rv_text v of
             None \<Rightarrow> config
           | Some s \<Rightarrow> if s \<in> set options then config(ct_key c \<mapsto> SelectSetting s) else config))"

definition find_topic :: "string \<Rightarrow> string \<Rightarrow> topic option" where
  "find_topic course topic_id =
     Option.bind (map_of SYSTEM_TOPICS course) (find (\<lambda>t. tp_id t = topic_id))"

definition validateSystemConfig :: "string \<Rightarrow> string \<Rightarrow> (string \<Rightarrow> raw_value) \<Rightarrow> systems_error + config" where
  "validateSystemConfig course topic_id input =
     (case find_topic course topic_id of
        None \<Rightarrow> Inl UnknownExperiment
      | Some t \<Rightarrow> Inr (foldl (take_input input) (systemDefaults (tp_controls t)) (tp_controls t)))"

section \<open>Validated settings\<close>

definition allowed_setting :: "control \<Rightarrow> setting \<Rightarrow> bool" where
  "allowed_setting c v =
     (case (ct_kind c, v) of
        (NumberControl low high, NumberSetting x) \<Rightarrow> low \<le> x \<and> x \<le> high
      | (CheckControl, CheckSetting b) \<Rightarrow> True
      | (SelectControl options, SelectSetting s) \<Rightarrow> s \<in> set options
      | _ \<Rightarrow> False)"

definition config_allowed :: "control list \<Rightarrow> config \<Rightarrow> bool" where
  "config_allowed controls config \<longleftrightarrow>
     list_all (\<lambda>c. case config (ct_key c) of None \<Rightarrow> False | Some v \<Rightarrow> allowed_setting c v) controls"

definition control_ok :: "control \<Rightarrow> bool" where
  "control_ok c \<longleftrightarrow> allowed_setting c (ct_value c)
     \<and> (case ct_kind c of NumberControl low high \<Rightarrow> low \<le> high | _ \<Rightarrow> True)"

definition topic_ok :: "topic \<Rightarrow> bool" where
  "topic_ok t \<longleftrightarrow> distinct (map ct_key (tp_controls t)) \<and> list_all control_ok (tp_controls t)"

lemma catalogue_ok: "list_all (\<lambda>(course, topics). list_all topic_ok topics) SYSTEM_TOPICS"
  by (simp add: SYSTEM_TOPICS_def topic_ok_def control_ok_def allowed_setting_def number_def check_def select_def)

lemma find_topic_ok: "find_topic course topic_id = Some t \<Longrightarrow> topic_ok t"
  using catalogue_ok by (auto simp: find_topic_def list_all_iff find_Some_iff dest!: map_of_SomeD split: bind_splits)

lemma defaults_lookup: "distinct (map ct_key cs) \<Longrightarrow> c \<in> set cs \<Longrightarrow> systemDefaults cs (ct_key c) = Some (ct_value c)"
proof -
  have "foldl (\<lambda>config c. config(ct_key c \<mapsto> ct_value c)) m cs k
      = (case find (\<lambda>c. ct_key c = k) (rev cs) of None \<Rightarrow> m k | Some c \<Rightarrow> Some (ct_value c))" for m k
    by (induction cs rule: rev_induct) auto
  moreover have "find (\<lambda>d. ct_key d = ct_key c) (rev cs) = Some c"
    if "distinct (map ct_key cs)" "c \<in> set cs"
    using that by (induction cs rule: rev_induct) (auto simp: image_iff)
  ultimately show "distinct (map ct_key cs) \<Longrightarrow> c \<in> set cs \<Longrightarrow> systemDefaults cs (ct_key c) = Some (ct_value c)"
    by (simp add: systemDefaults_def)
qed

lemma take_input_other: "k \<noteq> ct_key c \<Longrightarrow> take_input input config c k = config k"
  by (simp add: take_input_def Let_def split: control_kind.splits option.splits)

lemma take_input_allowed:
  "control_ok c \<Longrightarrow> config (ct_key c) = Some v \<Longrightarrow> allowed_setting c v
     \<Longrightarrow> \<exists>v'. take_input input config c (ct_key c) = Some v' \<and> allowed_setting c v'"
  by (auto simp: take_input_def Let_def control_ok_def allowed_setting_def clamp_bounds
      split: control_kind.splits option.splits)

lemma take_inputs_other: "k \<notin> set (map ct_key cs) \<Longrightarrow> foldl (take_input input) config cs k = config k"
  by (induction cs arbitrary: config) (auto simp: take_input_other)

lemma take_inputs_allowed:
  "distinct (map ct_key cs) \<Longrightarrow> list_all control_ok cs \<Longrightarrow> config_allowed cs config
     \<Longrightarrow> config_allowed cs (foldl (take_input input) config cs)"
proof (induction cs arbitrary: config)
  case Nil
  then show ?case by simp
next
  case (Cons c cs)
  from Cons.prems obtain v where v: "config (ct_key c) = Some v" "allowed_setting c v"
    by (auto simp: config_allowed_def split: option.splits)
  have ok: "control_ok c" using Cons.prems by simp
  obtain v' where v': "take_input input config c (ct_key c) = Some v'" "allowed_setting c v'"
    using take_input_allowed [where config = config, OF ok v] by blast
  have "config_allowed cs (take_input input config c)"
    using Cons.prems by (auto simp: config_allowed_def list_all_iff image_iff take_input_other)
  with Cons have "config_allowed cs (foldl (take_input input) (take_input input config c) cs)" by simp
  moreover have "foldl (take_input input) (take_input input config c) cs (ct_key c) = Some v'"
    using Cons.prems(1) v'(1) by (simp add: take_inputs_other)
  ultimately show ?case using v'(2) by (simp add: config_allowed_def)
qed

lemma validated_config:
  "case find_topic course topic_id of
     None \<Rightarrow> validateSystemConfig course topic_id input = Inl UnknownExperiment
   | Some t \<Rightarrow> (case validateSystemConfig course topic_id input of
        Inl e \<Rightarrow> False | Inr config \<Rightarrow> config_allowed (tp_controls t) config)"
proof (cases "find_topic course topic_id")
  case None
  then show ?thesis by (simp add: validateSystemConfig_def)
next
  case (Some t)
  have t: "distinct (map ct_key (tp_controls t))" "list_all control_ok (tp_controls t)"
    using find_topic_ok [OF Some] by (simp_all add: topic_ok_def)
  have "config_allowed (tp_controls t) (systemDefaults (tp_controls t))"
    using t by (simp add: config_allowed_def list_all_iff defaults_lookup control_ok_def)
  from take_inputs_allowed [OF t this] Some show ?thesis
    by (simp add: validateSystemConfig_def)
qed

text \<open>
  whatever the page hands over (values of the wrong type, out of range, not finite, missing), the
  settings that reach an experiment hold a value for every control of the topic, of the control's
  type and within its range or among its options; only an unknown experiment is refused.
\<close>

theorem validated_settings_allowed:
  "case find_topic course topic_id of
     None \<Rightarrow> validateSystemConfig course topic_id input = Inl UnknownExperiment
   | Some t \<Rightarrow> (case validateSystemConfig course topic_id input of
        Inl e \<Rightarrow> False | Inr config \<Rightarrow> config_allowed (tp_controls t) config)"
  by (rule validated_config)

text \<open>A setting read by its name; the settings of a topic hold every one its experiment reads.\<close>

definition number_of :: "config \<Rightarrow> string \<Rightarrow> num" where
  "number_of config key = (case config key of Some (NumberSetting x) \<Rightarrow> Some x | _ \<Rightarrow> None)"

definition checked :: "config \<Rightarrow> string \<Rightarrow> bool" where
  "checked config key = (config key = Some (CheckSetting True))"

definition selected :: "config \<Rightarrow> string \<Rightarrow> string \<Rightarrow> bool" where
  "selected config key option \<longleftrightarrow> config key = Some (SelectSetting option)"

end
