(* ===== verification/Systems_Mechanics.thy ===== *)
theory Systems_Mechanics
  imports Systems_Base
begin

text \<open>
  The \<open>mechanics\<close> experiments of \<open>lab/js/systems/core.js\<close> (force, traction, braking): a robot pushed by its
  motor or braked before a line, one sample per time step. The lemmas show what the samples obey and
  that a braking run always comes to rest.
\<close>

section \<open>Constants and settings\<close>

definition MECHANICS_STEPS :: nat where "MECHANICS_STEPS = 160"
definition MECHANICS_START_X :: real where "MECHANICS_START_X = 0.3"
definition POWER_OFF_STEP :: nat where "POWER_OFF_STEP = 60"
definition POWER_OFF_TIME :: real where "POWER_OFF_TIME = 3"
definition STOP_LINE :: real where "STOP_LINE = 3"
definition MOTOR_FORCE :: real where "MOTOR_FORCE = 16"
definition BACK_EMF :: real where "BACK_EMF = 3"
definition ROLLING_DRAG :: real where "ROLLING_DRAG = 0.6"
definition DEFAULT_GRIP :: real where "DEFAULT_GRIP = 0.7"
definition MAX_BRAKE_FORCE :: real where "MAX_BRAKE_FORCE = 7"
definition SLIP_TO_WHEEL_SPEED :: real where "SLIP_TO_WHEEL_SPEED = 7"
definition BRAKE_SUCCESS_MARGIN :: real where "BRAKE_SUCCESS_MARGIN = 0.2"
definition SLIP_TOLERANCE :: real where "SLIP_TOLERANCE = 0.15"
definition CENTIMETRES :: real where "CENTIMETRES = 100"
definition BRAKE_ADVICE_MARGIN :: real where "BRAKE_ADVICE_MARGIN = 0.1"
definition BRAKE_ADVICE_STEP :: real where "BRAKE_ADVICE_STEP = 0.05"

datatype mechanics_topic = Force | Traction | Braking

record mechanics_config =
  mc_power :: real
  mc_mass :: real
  mc_grip :: "real option"
  mc_initialSpeed :: real
  mc_brakeAt :: real

text \<open>A setting the topic does not offer is never read; it is 0 here.\<close>

definition mechanics_config_of :: "config \<Rightarrow> mechanics_config" where
  "mechanics_config_of config =
     \<lparr>mc_power = coalesce (number_of config ''power'') 0, mc_mass = coalesce (number_of config ''mass'') 0,
      mc_grip = number_of config ''grip'', mc_initialSpeed = coalesce (number_of config ''initialSpeed'') 0,
      mc_brakeAt = coalesce (number_of config ''brakeAt'') 0\<rparr>"

section \<open>The run\<close>

datatype mechanics_status = BrakingNow | DrivingOn | CoastingOn | AtRest

record mechanics_sample =
  ms_t :: real
  ms_x :: real
  ms_v :: real
  ms_wheelSpeed :: real
  ms_odom :: real
  ms_force :: real
  ms_accel :: real
  ms_motorPower :: "real option"
  ms_braking :: bool
  ms_status :: mechanics_status

datatype mechanics_event = BrakeEvent real real | PowerOffEvent real real real

definition mechanicsStatus :: "bool \<Rightarrow> real option \<Rightarrow> real \<Rightarrow> mechanics_status" where
  "mechanicsStatus is_braking motorPower v =
     (if is_braking then BrakingNow
      else if motorPower \<noteq> Some 0 then DrivingOn
      else if v > 0 then CoastingOn else AtRest)"

record mechanics_state =
  mk_x :: real
  mk_v :: real
  mk_odom :: real
  mk_brakeStart :: "real option"
  mk_samples :: "mechanics_sample list"
  mk_events :: "mechanics_event list"

definition mechanics_start :: "mechanics_topic \<Rightarrow> mechanics_config \<Rightarrow> mechanics_state" where
  "mechanics_start topic config =
     \<lparr>mk_x = MECHANICS_START_X, mk_v = (if topic = Braking then mc_initialSpeed config else 0),
      mk_odom = MECHANICS_START_X, mk_brakeStart = None, mk_samples = [], mk_events = []\<rparr>"

text \<open>The forces of a braking step (the brake start is already set) and of a driven one.\<close>

definition brake_force :: "mechanics_config \<Rightarrow> bool \<Rightarrow> real \<Rightarrow> real" where
  "brake_force config brakingNow v =
     (if brakingNow \<and> v > 0 then - min MAX_BRAKE_FORCE (coalesce (mc_grip config) 0 * mc_mass config * GRAVITY) else 0)"

definition requested_force :: "real \<Rightarrow> real \<Rightarrow> real" where
  "requested_force motorPower v = max 0 (MOTOR_FORCE * motorPower / 100 - BACK_EMF * v)"

definition tyre_grip :: "mechanics_config \<Rightarrow> real" where
  "tyre_grip config = coalesce (mc_grip config) DEFAULT_GRIP * mc_mass config * GRAVITY"

definition drive_force :: "mechanics_config \<Rightarrow> real \<Rightarrow> real \<Rightarrow> real" where
  "drive_force config motorPower v =
     min (requested_force motorPower v) (tyre_grip config) - (if v > 0 then ROLLING_DRAG else 0)"

definition wheel_speed :: "mechanics_config \<Rightarrow> real \<Rightarrow> real \<Rightarrow> real" where
  "wheel_speed config motorPower v =
     v + max 0 (requested_force motorPower v - tyre_grip config) / SLIP_TO_WHEEL_SPEED"

definition brake_start :: "mechanics_config \<Rightarrow> mechanics_state \<Rightarrow> real option" where
  "brake_start config s =
     (if mk_brakeStart s = None \<and> STOP_LINE - mk_x s \<le> mc_brakeAt config then Some (mk_x s) else mk_brakeStart s)"

definition mechanics_sample_at :: "mechanics_topic \<Rightarrow> mechanics_config \<Rightarrow> nat \<Rightarrow> mechanics_state \<Rightarrow> mechanics_sample" where
  "mechanics_sample_at topic config step s =
     (let t = real step * dt; v = mk_v s;
          brakingNow = (topic = Braking \<and> brake_start config s \<noteq> None);
          power = (if t < POWER_OFF_TIME then mc_power config else 0);
          motorPower = (if topic = Braking then None else Some power);
          force = (if topic = Braking then brake_force config brakingNow v else drive_force config power v) in
      \<lparr>ms_t = t, ms_x = mk_x s, ms_v = v,
       ms_wheelSpeed = (if topic = Braking then v else wheel_speed config power v),
       ms_odom = mk_odom s, ms_force = force, ms_accel = force / mc_mass config, ms_motorPower = motorPower,
       ms_braking = brakingNow, ms_status = mechanicsStatus brakingNow motorPower v\<rparr>)"

definition mechanics_events_at :: "mechanics_topic \<Rightarrow> mechanics_config \<Rightarrow> nat \<Rightarrow> mechanics_state \<Rightarrow> mechanics_event list" where
  "mechanics_events_at topic config step s =
     (let t = real step * dt in
      if topic = Braking
      then (if mk_brakeStart s = None \<and> brake_start config s \<noteq> None then [BrakeEvent t (mk_x s)] else [])
      else (if step = POWER_OFF_STEP then [PowerOffEvent t (mk_x s) (mc_power config)] else []))"

text \<open>One pass of the loop: the state after it, and whether the run ends there.\<close>

definition mechanics_step :: "mechanics_topic \<Rightarrow> mechanics_config \<Rightarrow> nat \<Rightarrow> mechanics_state \<Rightarrow> mechanics_state \<times> bool" where
  "mechanics_step topic config step s =
     (let sample = mechanics_sample_at topic config step s; v = mk_v s;
          nextV = max 0 (v + ms_accel sample * dt);
          x' = mk_x s + (v + nextV) * 0.5 * dt;
          started = (if topic = Braking then brake_start config s else None);
          s' = s\<lparr>mk_x := x', mk_v := nextV,
            mk_odom := mk_odom s + ((v + nextV) * 0.5 * dt + max 0 (ms_wheelSpeed sample - v) * dt),
            mk_brakeStart := started, mk_samples := mk_samples s @ [sample],
            mk_events := mk_events s @ mechanics_events_at topic config step s\<rparr> in
      if topic = Braking \<and> started \<noteq> None \<and> nextV = 0
      then (s'\<lparr>mk_samples := mk_samples s' @ [sample\<lparr>ms_t := real step * dt + dt, ms_x := x', ms_v := 0,
          ms_wheelSpeed := 0, ms_force := 0, ms_accel := 0, ms_status := AtRest\<rparr>]\<rparr>, True)
      else (s', False))"

fun mechanics_loop :: "mechanics_topic \<Rightarrow> mechanics_config \<Rightarrow> nat list \<Rightarrow> mechanics_state \<Rightarrow> mechanics_state" where
  "mechanics_loop topic config [] s = s"
| "mechanics_loop topic config (step # steps) s =
     (let (s', ended) = mechanics_step topic config step s in
      if ended then s' else mechanics_loop topic config steps s')"

record mechanics_figures =
  mf_remaining :: real
  mf_afterBrake :: real
  mf_brakeToStop :: "real option"
  mf_speedAtPowerOff :: "real option"
  mf_odometryError :: real
  mf_startingAcceleration :: real

text \<open>A metric's name with its value; \<open>None\<close> is the text for no value.\<close>

datatype mechanics_metric = RemainingToLine real | DistanceAfterBrake real | BrakeToStop "real option"
  | StartingAcceleration real | SpeedAtPowerOff "real option" | OdometryError real

datatype mechanics_outcome = ForceOutcome real "real option" real real | TractionSlip real | TractionGrip real
  | BrakingSuccess real real real | BrakingOver real real real | BrakingShort real real real

record mechanics_run =
  mr_samples :: "mechanics_sample list"
  mr_events :: "mechanics_event list"
  mr_success :: bool
  mr_metrics :: "mechanics_metric list"
  mr_outcome :: mechanics_outcome

definition mechanicsMetrics :: "mechanics_topic \<Rightarrow> mechanics_figures \<Rightarrow> mechanics_metric list" where
  "mechanicsMetrics topic f =
     (case topic of
        Braking \<Rightarrow> [RemainingToLine (mf_remaining f), DistanceAfterBrake (mf_afterBrake f), BrakeToStop (mf_brakeToStop f)]
      | Force \<Rightarrow> [StartingAcceleration (mf_startingAcceleration f), SpeedAtPowerOff (mf_speedAtPowerOff f)]
      | Traction \<Rightarrow> [SpeedAtPowerOff (mf_speedAtPowerOff f), OdometryError (mf_odometryError f),
          StartingAcceleration (mf_startingAcceleration f)])"

text \<open>The values of the sentence: how far over and short of the line in centimetres, the advice.\<close>

definition brake_advice :: "real \<Rightarrow> real" where
  "brake_advice afterBrake =
     of_int \<lceil>(afterBrake + BRAKE_ADVICE_MARGIN) / BRAKE_ADVICE_STEP - 1 / 10 ^ 9\<rceil> * BRAKE_ADVICE_STEP"

definition mechanicsOutcome :: "mechanics_topic \<Rightarrow> mechanics_config \<Rightarrow> bool \<Rightarrow> bool \<Rightarrow> mechanics_figures \<Rightarrow> mechanics_outcome" where
  "mechanicsOutcome topic config success slipped f =
     (case topic of
        Force \<Rightarrow> ForceOutcome (to_fixed 2 (mf_startingAcceleration f))
          (map_option (to_fixed 2) (mf_speedAtPowerOff f)) (mc_mass config) (mc_power config)
      | Traction \<Rightarrow>
          (if slipped then TractionSlip else TractionGrip) (to_fixed 2 (mf_odometryError f))
      | Braking \<Rightarrow>
          let shortBy = of_int (js_round (mf_remaining f * CENTIMETRES));
              overBy = of_int (js_round (- mf_remaining f * CENTIMETRES));
              after = to_fixed 2 (mf_afterBrake f); advice = to_fixed 2 (brake_advice (mf_afterBrake f)) in
          if success then BrakingSuccess shortBy after advice
          else if mf_remaining f < 0 then BrakingOver overBy after advice
          else BrakingShort shortBy after advice)"

definition brake_time :: "mechanics_event list \<Rightarrow> real option" where
  "brake_time events =
     map_option (\<lambda>e. case e of BrakeEvent t x \<Rightarrow> t | PowerOffEvent t x p \<Rightarrow> t)
       (find (\<lambda>e. case e of BrakeEvent t x \<Rightarrow> True | _ \<Rightarrow> False) events)"

definition mechanics :: "mechanics_topic \<Rightarrow> mechanics_config \<Rightarrow> mechanics_run" where
  "mechanics topic config =
     (let s = mechanics_loop topic config [0..<MECHANICS_STEPS + 1] (mechanics_start topic config);
          samples = mk_samples s; end' = last samples; remaining = STOP_LINE - ms_x end';
          slipped = list_ex (\<lambda>m. ms_wheelSpeed m - ms_v m > SLIP_TOLERANCE) samples;
          success = (if topic = Braking then - (1 / 10 ^ 6) \<le> remaining \<and> remaining \<le> BRAKE_SUCCESS_MARGIN
            else \<not> slipped);
          figures = \<lparr>mf_remaining = remaining,
            mf_afterBrake = ms_x end' - coalesce (mk_brakeStart s) (ms_x end'),
            mf_brakeToStop = map_option (\<lambda>t. ms_t end' - t) (brake_time (mk_events s)),
            mf_speedAtPowerOff =
              (if POWER_OFF_STEP < length samples then Some (ms_v (samples ! POWER_OFF_STEP)) else None),
            mf_odometryError = ms_odom end' - ms_x end', mf_startingAcceleration = ms_accel (hd samples)\<rparr> in
      \<lparr>mr_samples = samples, mr_events = mk_events s, mr_success = success,
       mr_metrics = mechanicsMetrics topic figures,
       mr_outcome = mechanicsOutcome topic config success slipped figures\<rparr>)"

section \<open>A braking run comes to rest\<close>

definition braking_settings :: "mechanics_config \<Rightarrow> bool" where
  "braking_settings c \<longleftrightarrow> 4 \<le> mc_mass c \<and> mc_mass c \<le> 12 \<and> 0.4 \<le> mc_initialSpeed c \<and> mc_initialSpeed c \<le> 1.8
     \<and> 0.1 \<le> mc_brakeAt c \<and> (case mc_grip c of None \<Rightarrow> False | Some g \<Rightarrow> 0.05 \<le> g \<and> g \<le> 0.8)"

lemma validated_braking:
  "case validateSystemConfig ''mechanics'' ''braking'' input of
     Inl e \<Rightarrow> False | Inr config \<Rightarrow> braking_settings (mechanics_config_of config)"
proof -
  obtain t where t: "find_topic ''mechanics'' ''braking'' = Some t"
    and controls: "tp_controls t = [number ''initialSpeed'' 0.4 1.8 1.2, number ''brakeAt'' 0.1 2 0.35,
      number ''mass'' 4 12 8, number ''grip'' 0.05 0.8 0.4]"
    by (simp add: find_topic_def SYSTEM_TOPICS_def)
  have "case validateSystemConfig ''mechanics'' ''braking'' input of
      Inl e \<Rightarrow> False | Inr config \<Rightarrow> config_allowed (tp_controls t) config"
    using validated_config [of "''mechanics''" "''braking''" input] by (simp add: t)
  then show ?thesis
    by (auto simp: controls config_allowed_def number_def allowed_setting_def braking_settings_def
        mechanics_config_of_def number_of_def split: sum.splits option.splits setting.splits)
qed

text \<open>What one braking step takes off the speed.\<close>

definition brake_loss :: "mechanics_config \<Rightarrow> real" where
  "brake_loss c = min MAX_BRAKE_FORCE (coalesce (mc_grip c) 0 * mc_mass c * GRAVITY) / mc_mass c * dt"

lemma brake_loss_pos: "braking_settings c \<Longrightarrow> 49 / 2000 \<le> brake_loss c"
proof -
  assume ok: "braking_settings c"
  then obtain g where g: "mc_grip c = Some g" "0.05 \<le> g" and m: "4 \<le> mc_mass c" "mc_mass c \<le> 12"
    by (auto simp: braking_settings_def split: option.splits)
  have "0.49 * mc_mass c \<le> min MAX_BRAKE_FORCE (g * mc_mass c * GRAVITY)"
  proof (rule min.boundedI)
    show "0.49 * mc_mass c \<le> MAX_BRAKE_FORCE" using m by (simp add: MAX_BRAKE_FORCE_def)
    have "0.05 * mc_mass c \<le> g * mc_mass c" using g m by (intro mult_right_mono) auto
    then show "0.49 * mc_mass c \<le> g * mc_mass c * GRAVITY" using m by (simp add: GRAVITY_def)
  qed
  then have "0.49 * mc_mass c / mc_mass c \<le> min MAX_BRAKE_FORCE (g * mc_mass c * GRAVITY) / mc_mass c"
    using m by (intro divide_right_mono) auto
  then have "0.49 \<le> min MAX_BRAKE_FORCE (g * mc_mass c * GRAVITY) / mc_mass c" using m by simp
  then show ?thesis by (simp add: brake_loss_def g dt_def mult.commute)
qed

text \<open>
  The run before its end: still rolling towards the place where it brakes, or losing at least
  \<open>brake_loss\<close> a step since it began to brake.
\<close>

definition braking_inv :: "mechanics_config \<Rightarrow> nat \<Rightarrow> mechanics_state \<Rightarrow> bool" where
  "braking_inv c k s \<longleftrightarrow>
     (case mk_brakeStart s of
        None \<Rightarrow> mk_v s = mc_initialSpeed c \<and> mk_x s = MECHANICS_START_X + real k * (mc_initialSpeed c * dt)
          \<and> (0 < k \<longrightarrow> real k * (mc_initialSpeed c * dt) - mc_initialSpeed c * dt < 2.6)
      | Some x0 \<Rightarrow> 0 < mk_v s \<and>
          (mk_v s - mc_initialSpeed c + real k * brake_loss c - brake_loss c) * (mc_initialSpeed c * dt)
            \<le> 2.6 * brake_loss c)
     \<and> sorted_wrt (\<lambda>a b. ms_t a < ms_t b \<and> ms_x a \<le> ms_x b \<and> ms_v b \<le> ms_v a) (mk_samples s)
     \<and> list_all (\<lambda>m. ms_t m < real k * dt \<and> ms_x m \<le> mk_x s \<and> mk_v s \<le> ms_v m) (mk_samples s)"

definition at_rest :: "mechanics_sample list \<Rightarrow> bool" where
  "at_rest samples \<longleftrightarrow> samples \<noteq> [] \<and> ms_v (last samples) = 0 \<and> ms_status (last samples) = AtRest
     \<and> sorted_wrt (\<lambda>a b. ms_t a < ms_t b \<and> ms_x a \<le> ms_x b \<and> ms_v b \<le> ms_v a) samples"

lemma braking_start_inv: "braking_settings c \<Longrightarrow> braking_inv c 0 (mechanics_start Braking c)"
  by (simp add: braking_inv_def mechanics_start_def)

lemma braking_time:
  assumes ok: "braking_settings c" and inv: "braking_inv c k s"
  shows "k \<le> 150"
proof -
  let ?v = "mc_initialSpeed c" and ?l = "brake_loss c"
  have l: "49 / 2000 \<le> ?l" using ok by (rule brake_loss_pos)
  have v: "2 / 5 \<le> ?v" "?v \<le> 9 / 5" using ok by (simp_all add: braking_settings_def)
  show ?thesis
  proof (cases "mk_brakeStart s")
    case None
    show ?thesis
    proof (rule ccontr)
      assume "\<not> k \<le> 150"
      then have k: "150 \<le> real k - 1" by linarith
      have "150 * (0.4 * dt) \<le> (real k - 1) * (?v * dt)" using k v by (intro mult_mono) (auto simp: dt_def)
      moreover have "(real k - 1) * (?v * dt) < 2.6"
        using inv None \<open>\<not> k \<le> 150\<close> by (simp add: braking_inv_def algebra_simps)
      ultimately show False by (simp add: dt_def mult.commute)
    qed
  next
    case (Some x0)
    have pos: "0 < mk_v s" and bound: "(mk_v s - ?v + real k * ?l - ?l) * (?v * dt) \<le> 2.6 * ?l"
      using inv Some by (simp_all add: braking_inv_def)
    show ?thesis
    proof (rule ccontr)
      assume "\<not> k \<le> 150"
      then have "150 \<le> real k - 1" by linarith
      then have "150 * ?l \<le> (real k - 1) * ?l" using l by (intro mult_right_mono) auto
      then have "150 * ?l - ?v \<le> mk_v s - ?v + real k * ?l - ?l" using pos by (simp add: algebra_simps)
      then have "(150 * ?l - ?v) * (?v * dt) \<le> 2.6 * ?l"
        using bound v by (intro order_trans [OF mult_right_mono bound]) (auto simp: dt_def)
      then have "(150 * ?l - ?v) * ?v \<le> 52 * ?l" by (simp add: dt_def mult.commute)
      then have le: "?l * (150 * ?v - 52) \<le> ?v * ?v" by (simp add: algebra_simps)
      have "49 / 2000 * (150 * ?v - 52) \<le> ?l * (150 * ?v - 52)" using l v by (intro mult_right_mono) auto
      with le have q: "49 / 2000 * (150 * ?v - 52) \<le> ?v * ?v" by linarith
      have "0 \<le> (?v - 2 / 5) * (9 / 5 - ?v)" using v by (intro mult_nonneg_nonneg) auto
      then have "?v * ?v \<le> 11 / 5 * ?v - 18 / 25" by (simp add: algebra_simps)
      moreover have "49 / 2000 * (150 * ?v - 52) = 147 / 40 * ?v - 637 / 500" by (simp add: field_simps)
      ultimately show False using q v by linarith
    qed
  qed
qed

lemma braking_step:
  assumes ok: "braking_settings c" and inv: "braking_inv c k s"
    and step: "mechanics_step Braking c k s = (s', ended)"
  shows "if ended then at_rest (mk_samples s') else braking_inv c (Suc k) s'"
proof -
  let ?v0 = "mc_initialSpeed c" and ?l = "brake_loss c" and ?sample = "mechanics_sample_at Braking c k s"
  let ?next = "max 0 (mk_v s + ms_accel ?sample * dt)"
  let ?x = "mk_x s + (mk_v s + ?next) * 0.5 * dt"
  have l: "49 / 2000 \<le> ?l" and mass: "0 < mc_mass c"
    using ok brake_loss_pos by (auto simp: braking_settings_def)
  have v0: "0.4 \<le> ?v0" "0.1 \<le> mc_brakeAt c" using ok by (simp_all add: braking_settings_def)
  have v: "0 < mk_v s" using inv v0 by (auto simp: braking_inv_def split: option.splits)
  have accel: "ms_accel ?sample * dt = (if brake_start c s = None then 0 else - ?l)"
    using v by (simp add: mechanics_sample_at_def brake_force_def brake_loss_def Let_def)
  have next_le: "?next \<le> mk_v s" and next_ge: "0 \<le> ?next" using l v by (auto simp: accel)
  have x: "mk_x s \<le> ?x" using v by simp
  have sample: "ms_t ?sample = real k * dt" "ms_x ?sample = mk_x s" "ms_v ?sample = mk_v s"
    by (simp_all add: mechanics_sample_at_def Let_def)
  have sorted: "sorted_wrt (\<lambda>a b. ms_t a < ms_t b \<and> ms_x a \<le> ms_x b \<and> ms_v b \<le> ms_v a) (mk_samples s @ [?sample])"
    using inv by (auto simp: braking_inv_def sorted_wrt_append sample list_all_iff)
  have below: "list_all (\<lambda>m. ms_t m < real (Suc k) * dt \<and> ms_x m \<le> ?x \<and> ?next \<le> ms_v m) (mk_samples s @ [?sample])"
    using inv x next_le by (auto simp: braking_inv_def list_all_iff sample algebra_simps dt_def intro: order_trans)
  show ?thesis
  proof (cases "brake_start c s \<noteq> None \<and> ?next = 0")
    case True
    then have "ended" "mk_samples s' = mk_samples s @ [?sample] @ [?sample\<lparr>ms_t := real k * dt + dt, ms_x := ?x, ms_v := 0,
        ms_wheelSpeed := 0, ms_force := 0, ms_accel := 0, ms_status := AtRest\<rparr>]"
      using step by (auto simp: mechanics_step_def Let_def split: if_splits)
    moreover have "list_all (\<lambda>m. ms_t m < real k * dt + dt \<and> ms_x m \<le> ?x \<and> 0 \<le> ms_v m) (mk_samples s @ [?sample])"
    proof -
      have time: "real (Suc k) * dt = real k * dt + dt" and zero: "?next = 0"
        using True by (simp_all add: algebra_simps)
      show ?thesis using below unfolding time zero .
    qed
    ultimately show ?thesis
      using sorted by (auto simp: at_rest_def sorted_wrt_append list_all_iff)
  next
    case False
    then have s': "\<not> ended" "s' = s\<lparr>mk_x := ?x, mk_v := ?next,
            mk_odom := mk_odom s + ((mk_v s + ?next) * 0.5 * dt + max 0 (ms_wheelSpeed ?sample - mk_v s) * dt),
            mk_brakeStart := brake_start c s, mk_samples := mk_samples s @ [?sample],
            mk_events := mk_events s @ mechanics_events_at Braking c k s\<rparr>"
      using step by (auto simp: mechanics_step_def Let_def split: if_splits)
    have "case brake_start c s of
        None \<Rightarrow> ?next = ?v0 \<and> ?x = MECHANICS_START_X + real (Suc k) * (?v0 * dt)
          \<and> real (Suc k) * (?v0 * dt) - ?v0 * dt < 2.6
      | Some x0 \<Rightarrow> 0 < ?next \<and> (?next - ?v0 + real (Suc k) * ?l - ?l) * (?v0 * dt) \<le> 2.6 * ?l"
    proof (cases "brake_start c s")
      case None
      then have old: "mk_brakeStart s = None" "mc_brakeAt c < STOP_LINE - mk_x s"
        by (auto simp: brake_start_def split: if_splits)
      then have at: "mk_v s = ?v0" "mk_x s = MECHANICS_START_X + real k * (?v0 * dt)"
        using inv by (simp_all add: braking_inv_def)
      have nx: "?next = ?v0" using None at(1) v by (simp add: accel)
      show ?thesis
        unfolding nx using None old(2) v0 at by (simp add: algebra_simps MECHANICS_START_X_def STOP_LINE_def)
    next
      case (Some x0)
      then have next': "?next = mk_v s - ?l" and pos: "0 < mk_v s - ?l" using False accel by auto
      show ?thesis
      proof (cases "mk_brakeStart s")
        case None
        then have old: "mk_v s = ?v0" "0 < k \<longrightarrow> real k * (?v0 * dt) - ?v0 * dt < 2.6"
          using inv by (simp_all add: braking_inv_def)
        have "(real k * (?v0 * dt) - ?v0 * dt) * ?l \<le> 2.6 * ?l"
          using old(2) l v0 by (intro mult_right_mono) (cases "k = 0", auto simp: dt_def)
        then show ?thesis unfolding next' using Some old(1) pos by (simp add: algebra_simps)
      next
        case (Some x1)
        then have "(mk_v s - ?v0 + real k * ?l - ?l) * (?v0 * dt) \<le> 2.6 * ?l"
          using inv by (simp add: braking_inv_def)
        then show ?thesis unfolding next' using \<open>brake_start c s = Some x0\<close> pos by (simp add: algebra_simps)
      qed
    qed
    moreover obtain n where n: "?next = n" by blast
    ultimately show ?thesis
      using s' sorted below unfolding n by (auto simp: braking_inv_def split: option.splits)
  qed
qed

lemma braking_loop:
  "braking_settings c \<Longrightarrow> braking_inv c k s \<Longrightarrow> k \<le> 161 \<Longrightarrow> at_rest (mk_samples (mechanics_loop Braking c [k..<161] s))"
proof (induction "161 - k" arbitrary: k s)
  case 0
  with braking_time [of c k s] show ?case by simp
next
  case (Suc n)
  obtain s' ended where step: "mechanics_step Braking c k s = (s', ended)" by fastforce
  note after = braking_step [OF Suc.prems(1,2) step]
  have k: "k < 161" and n: "n = 161 - Suc k" using Suc.hyps(2) by simp_all
  show ?case
    using after Suc.hyps(1) [OF n Suc.prems(1), of s'] k by (simp add: upt_conv_Cons step split: if_splits)
qed

text \<open>
  for whatever settings the page hands over, a braking run comes to rest within its 160 steps: its
  last sample has the speed 0 and the status "stopped", its clock runs forward, the robot never rolls
  backwards and never gets faster; so the run's figures are those of a robot that stands.
\<close>

theorem braking_run_stops:
  "case validateSystemConfig ''mechanics'' ''braking'' input of
     Inl e \<Rightarrow> False
   | Inr config \<Rightarrow> at_rest (mr_samples (mechanics Braking (mechanics_config_of config)))"
proof -
  have "at_rest (mr_samples (mechanics Braking c))" if "braking_settings c" for c
    using braking_loop [OF that braking_start_inv [OF that]]
    by (simp add: mechanics_def Let_def MECHANICS_STEPS_def del: upt_Suc)
  then show ?thesis using validated_braking [of input] by (auto split: sum.splits)
qed

section \<open>Wheel slip is what odometry gets wrong\<close>

lemma loop_invariant:
  assumes "\<And>k s s' ended. P s \<Longrightarrow> mechanics_step topic c k s = (s', ended) \<Longrightarrow> P s'" and "P s"
  shows "P (mechanics_loop topic c ks s)"
  using assms(2) by (induction ks arbitrary: s) (auto split: prod.splits intro: assms(1))

text \<open>In every run the wheels report at least the way the robot made, and no sample is slower than standing.\<close>

definition odometry_ahead :: "mechanics_state \<Rightarrow> bool" where
  "odometry_ahead s \<longleftrightarrow> mk_x s \<le> mk_odom s \<and> 0 \<le> mk_v s
     \<and> list_all (\<lambda>m. ms_x m \<le> ms_odom m \<or> ms_status m = AtRest) (mk_samples s)
     \<and> list_all (\<lambda>m. 0 \<le> ms_v m) (mk_samples s)"

lemma odometry_never_behind:
  "0 \<le> mc_initialSpeed c \<Longrightarrow> odometry_ahead (mechanics_loop topic c ks (mechanics_start topic c))"
  by (rule loop_invariant)
    (auto simp: odometry_ahead_def mechanics_start_def mechanics_step_def mechanics_sample_at_def Let_def
      split: if_splits intro!: add_increasing2)

end
