(* ===== verification/Systems_Behavior.thy ===== *)
theory Systems_Behavior
  imports Systems_Base
begin

text \<open>
  The \<open>behavior\<close> experiments of \<open>lab/js/systems/core.js\<close>: a delivery robot as a state machine with its
  rules for a blocked passage and a missing parcel. The lemmas show which states follow which, that the
  robot stands while an obstacle is ahead, and that "delivered" is only reached with the parcel.
\<close>

section \<open>Constants and settings\<close>

record ground =
  gr_x :: real
  gr_y :: real

definition BEHAVIOR_STEPS :: nat where "BEHAVIOR_STEPS = 320"
definition PARCEL_PLACE :: ground where "PARCEL_PLACE = \<lparr>gr_x = 1.3, gr_y = 2\<rparr>"
definition PARCEL_ELSEWHERE :: ground where "PARCEL_ELSEWHERE = \<lparr>gr_x = 1.3, gr_y = 0.7\<rparr>"
definition DELIVERY_PLACE :: ground where "DELIVERY_PLACE = \<lparr>gr_x = 4.3, gr_y = 2\<rparr>"
definition DETOUR :: "ground list" where "DETOUR = [\<lparr>gr_x = 3.3, gr_y = 0.85\<rparr>, \<lparr>gr_x = 4.3, gr_y = 2\<rparr>]"
definition DETOUR_ENTRY :: ground where "DETOUR_ENTRY = \<lparr>gr_x = 1.65, gr_y = 0.85\<rparr>"
definition TEMPORARY_OBSTACLE_UNTIL :: real where "TEMPORARY_OBSTACLE_UNTIL = 9"
definition ARRIVED_WITHIN :: real where "ARRIVED_WITHIN = 0.09"
definition CRUISE_SPEED :: real where "CRUISE_SPEED = 0.65"
definition MAX_TURN_RATE :: real where "MAX_TURN_RATE = 2.3"
definition HEADING_GAIN :: real where "HEADING_GAIN = 3"
definition WHEEL_RADIUS :: real where "WHEEL_RADIUS = 0.065"
definition HALF_TRACK :: real where "HALF_TRACK = 0.16"
definition SECONDS_PER_MINUTE :: real where "SECONDS_PER_MINUTE = 60"
definition BEHAVIOR_TIME_LIMIT :: real where "BEHAVIOR_TIME_LIMIT = real BEHAVIOR_STEPS * dt"

datatype behavior_topic = Sequence | Blocked | MissingParcel

datatype obstacle_setting = NoObstacle | TemporaryObstacle | PermanentObstacle

record behavior_config =
  bc_obstacle :: obstacle_setting
  bc_detour :: bool
  bc_timeout :: real
  bc_search :: bool

definition behavior_config_of :: "config \<Rightarrow> behavior_config" where
  "behavior_config_of config =
     \<lparr>bc_obstacle = (if selected config ''obstacle'' ''temporary'' then TemporaryObstacle
        else if selected config ''obstacle'' ''permanent'' then PermanentObstacle else NoObstacle),
      bc_detour = selected config ''blockedRule'' ''detour'',
      bc_timeout = coalesce (number_of config ''timeout'') 0,
      bc_search = selected config ''searchRule'' ''search''\<rparr>"

section \<open>The state machine\<close>

datatype behavior_status = ToParcel | ToElsewhere | ToDelivery | Waiting | Detouring | Delivered | ArrivedEmpty

datatype change_reason = IgnoreMissingParcel | ParcelNotThere | ParcelPickedUp | ParcelHandedOver | PickupNotChecked
  | ObstacleAhead | WaitTimeExceeded | PassageClear

record behavior_sample =
  bs_t :: real
  bs_x :: real
  bs_y :: real
  bs_theta :: real
  bs_v :: real
  bs_w :: real
  bs_left :: real
  bs_right :: real
  bs_status :: behavior_status
  bs_hasParcel :: bool
  bs_blocked :: bool
  bs_waitTotal :: real
  bs_target :: ground

record behavior_state =
  bh_x :: real
  bh_y :: real
  bh_theta :: real
  bh_state :: behavior_status
  bh_hasParcel :: bool
  bh_waitStart :: "real option"
  bh_waitTotal :: real
  bh_target :: ground
  bh_waypoints :: "ground list"
  bh_done :: bool
  bh_detoured :: bool
  bh_events :: "(real \<times> behavior_status \<times> change_reason) list"
  bh_samples :: "behavior_sample list"

definition behavior_start :: behavior_state where
  "behavior_start = \<lparr>bh_x = 0.5, bh_y = 2, bh_theta = 0, bh_state = ToParcel, bh_hasParcel = False,
     bh_waitStart = None, bh_waitTotal = 0, bh_target = PARCEL_PLACE, bh_waypoints = [], bh_done = False,
     bh_detoured = False, bh_events = [], bh_samples = []\<rparr>"

definition change :: "real \<Rightarrow> behavior_status \<Rightarrow> change_reason \<Rightarrow> behavior_state \<Rightarrow> behavior_state" where
  "change t new why s =
     (if bh_state s = new then s else s\<lparr>bh_state := new, bh_events := bh_events s @ [(t, new, why)]\<rparr>)"

definition is_blocked :: "behavior_config \<Rightarrow> real \<Rightarrow> bool" where
  "is_blocked config t \<longleftrightarrow> bc_obstacle config \<noteq> NoObstacle
     \<and> (bc_obstacle config \<noteq> TemporaryObstacle \<or> t < TEMPORARY_OBSTACLE_UNTIL)"

definition arrived :: "behavior_state \<Rightarrow> bool" where
  "arrived s \<longleftrightarrow> \<not> bh_done s \<and> hypot (gr_x (bh_target s) - bh_x s) (gr_y (bh_target s) - bh_y s) < ARRIVED_WITHIN"

text \<open>What an arrival means in each state.\<close>

definition on_arrival :: "behavior_topic \<Rightarrow> behavior_config \<Rightarrow> real \<Rightarrow> behavior_state \<Rightarrow> behavior_state" where
  "on_arrival topic config t s =
     (if bh_state s = ToParcel \<and> topic = MissingParcel \<and> \<not> bc_search config
      then (change t ToDelivery IgnoreMissingParcel s)\<lparr>bh_target := DELIVERY_PLACE\<rparr>
      else if bh_state s = ToParcel \<and> topic = MissingParcel
      then (change t ToElsewhere ParcelNotThere s)\<lparr>bh_target := PARCEL_ELSEWHERE\<rparr>
      else if bh_state s = ToParcel \<or> bh_state s = ToElsewhere
      then (change t ToDelivery ParcelPickedUp (s\<lparr>bh_hasParcel := True\<rparr>))\<lparr>bh_target := DELIVERY_PLACE\<rparr>
      else case bh_waypoints s of
        w # ws \<Rightarrow> s\<lparr>bh_target := w, bh_waypoints := ws\<rparr>
      | [] \<Rightarrow> change t (if bh_hasParcel s then Delivered else ArrivedEmpty)
          (if bh_hasParcel s then ParcelHandedOver else PickupNotChecked) (s\<lparr>bh_done := True\<rparr>))"

definition danger_ahead :: "behavior_config \<Rightarrow> real \<Rightarrow> behavior_state \<Rightarrow> bool" where
  "danger_ahead config t s \<longleftrightarrow>
     is_blocked config t \<and> \<not> bh_detoured s \<and> bh_x s > 1.65 \<and> bh_x s < 2.5 \<and> bh_y s > 1.2"

text \<open>Waiting begins, goes on, turns into a detour, or ends.\<close>

definition begin_wait :: "real \<Rightarrow> behavior_state \<Rightarrow> behavior_state" where
  "begin_wait t s =
     (if bh_waitStart s = None then change t Waiting ObstacleAhead (s\<lparr>bh_waitStart := Some t\<rparr>) else s)"

definition take_detour :: "behavior_topic \<Rightarrow> behavior_config \<Rightarrow> real \<Rightarrow> behavior_state \<Rightarrow> behavior_state" where
  "take_detour topic config t s =
     (if topic = Blocked \<and> bc_detour config \<and> t - coalesce (bh_waitStart s) 0 \<ge> bc_timeout config
      then change t Detouring WaitTimeExceeded
        (s\<lparr>bh_detoured := True, bh_waypoints := DETOUR, bh_target := DETOUR_ENTRY\<rparr>)
      else s)"

definition on_obstacle :: "behavior_topic \<Rightarrow> behavior_config \<Rightarrow> real \<Rightarrow> bool \<Rightarrow> behavior_state \<Rightarrow> behavior_state" where
  "on_obstacle topic config t danger s =
     (if danger \<and> \<not> bh_done s
      then (let s1 = begin_wait t s in take_detour topic config t (s1\<lparr>bh_waitTotal := bh_waitTotal s1 + dt\<rparr>))
      else if bh_waitStart s \<noteq> None \<and> bh_state s = Waiting
      then (change t ToDelivery PassageClear s)\<lparr>bh_waitStart := None\<rparr>
      else s)"

text \<open>The speed and the turn rate towards the target: turn first, drive once the goal is ahead.\<close>

definition heading_error :: "behavior_state \<Rightarrow> real" where
  "heading_error s =
     wrap_angle (atan2 (gr_y (bh_target s) - bh_y s) (gr_x (bh_target s) - bh_x s) - bh_theta s)"

definition steer :: "bool \<Rightarrow> behavior_state \<Rightarrow> real \<times> real" where
  "steer danger s =
     (if \<not> bh_done s \<and> (\<not> danger \<or> bh_detoured s)
      then (CRUISE_SPEED * max 0 (cos (heading_error s)),
        clamp (heading_error s * HEADING_GAIN) (- MAX_TURN_RATE) MAX_TURN_RATE)
      else (0, 0))"

definition toRpm :: "real \<Rightarrow> real" where
  "toRpm speed = speed / (WHEEL_RADIUS * 2 * pi) * SECONDS_PER_MINUTE"

text \<open>What one pass does once the arrival and the obstacle rule are settled.\<close>

definition drive_on :: "behavior_topic \<Rightarrow> behavior_config \<Rightarrow> nat \<Rightarrow> behavior_state \<Rightarrow> behavior_state \<times> bool" where
  "drive_on topic config k s1 =
     (let t = real k * dt; danger = danger_ahead config t s1; s2 = on_obstacle topic config t danger s1;
          (v, w) = steer danger s2;
          s3 = s2\<lparr>bh_samples := bh_samples s2 @ [\<lparr>bs_t = t, bs_x = bh_x s2, bs_y = bh_y s2, bs_theta = bh_theta s2,
            bs_v = v, bs_w = w, bs_left = toRpm (v + w * HALF_TRACK), bs_right = toRpm (v - w * HALF_TRACK),
            bs_status = bh_state s2, bs_hasParcel = bh_hasParcel s2, bs_blocked = is_blocked config t,
            bs_waitTotal = bh_waitTotal s2, bs_target = bh_target s2\<rparr>]\<rparr> in
      if bh_done s2 then (s3, True)
      else (s3\<lparr>bh_theta := bh_theta s2 + w * dt, bh_x := bh_x s2 + v * cos (bh_theta s2 + w * dt) * dt,
        bh_y := bh_y s2 + v * sin (bh_theta s2 + w * dt) * dt\<rparr>, False))"

definition behavior_step :: "behavior_topic \<Rightarrow> behavior_config \<Rightarrow> nat \<Rightarrow> behavior_state \<Rightarrow> behavior_state \<times> bool" where
  "behavior_step topic config step s =
     drive_on topic config step (if arrived s then on_arrival topic config (real step * dt) s else s)"

fun behavior_loop :: "behavior_topic \<Rightarrow> behavior_config \<Rightarrow> nat list \<Rightarrow> behavior_state \<Rightarrow> behavior_state" where
  "behavior_loop topic config [] s = s"
| "behavior_loop topic config (step # steps) s =
     (let (s', ended) = behavior_step topic config step s in
      if ended then s' else behavior_loop topic config steps s')"

datatype behavior_outcome = ArrivedEmptyOutcome | WaitedForever | TimedOut | DeliveredAfterSearch
  | DeliveredByDetour | DeliveredAfterWait | DeliveredOutcome

definition behaviorOutcome :: "behavior_topic \<Rightarrow> behavior_sample list \<Rightarrow> real \<Rightarrow> behavior_outcome" where
  "behaviorOutcome topic samples waited =
     (let end' = last samples; detoured = list_ex (\<lambda>m. bs_status m = Detouring) samples in
      if bs_status end' = ArrivedEmpty then ArrivedEmptyOutcome
      else if bs_status end' \<noteq> Delivered then (if bs_status end' = Waiting then WaitedForever else TimedOut)
      else if topic = MissingParcel then DeliveredAfterSearch
      else if detoured then DeliveredByDetour
      else if waited > 0 then DeliveredAfterWait
      else if topic = Blocked then DeliveredAfterWait
      else DeliveredOutcome)"

record behavior_run =
  br_samples :: "behavior_sample list"
  br_events :: "(real \<times> behavior_status \<times> change_reason) list"
  br_success :: bool
  br_elapsed :: real
  br_waited :: real
  br_outcome :: behavior_outcome

definition behavior :: "behavior_topic \<Rightarrow> behavior_config \<Rightarrow> behavior_run" where
  "behavior topic config =
     (let s = behavior_loop topic config [0..<BEHAVIOR_STEPS + 1] behavior_start; samples = bh_samples s in
      \<lparr>br_samples = samples, br_events = bh_events s, br_success = (bs_status (last samples) = Delivered),
       br_elapsed = bs_t (last samples), br_waited = bh_waitTotal s,
       br_outcome = behaviorOutcome topic samples (bh_waitTotal s)\<rparr>)"

text \<open>Straight-line distance from the robot to the delivery place.\<close>

definition deliveryDistance :: "behavior_sample \<Rightarrow> real" where
  "deliveryDistance m = hypot (gr_x DELIVERY_PLACE - bs_x m) (gr_y DELIVERY_PLACE - bs_y m)"

section \<open>The rules hold in every run\<close>

definition in_front :: "behavior_sample \<Rightarrow> bool" where
  "in_front m \<longleftrightarrow> bs_x m > 1.65 \<and> bs_x m < 2.5 \<and> bs_y m > 1.2"

definition behavior_sample_ok :: "behavior_topic \<Rightarrow> behavior_config \<Rightarrow> behavior_sample \<Rightarrow> bool" where
  "behavior_sample_ok topic config m \<longleftrightarrow>
     (bs_status m = Delivered \<longrightarrow> bs_hasParcel m) \<and> (bs_status m = ArrivedEmpty \<longrightarrow> \<not> bs_hasParcel m)
     \<and> (bs_status m = Waiting \<longrightarrow> bs_v m = 0 \<and> bs_w m = 0)
     \<and> (bs_blocked m \<and> in_front m \<and> \<not> (topic = Blocked \<and> bc_detour config) \<longrightarrow> bs_v m = 0 \<and> bs_w m = 0)
     \<and> (bs_status m = Detouring \<longrightarrow> topic = Blocked \<and> bc_detour config)
     \<and> (bs_status m = ToElsewhere \<longrightarrow> topic = MissingParcel \<and> bc_search config)
     \<and> 0 \<le> bs_v m \<and> bs_v m \<le> CRUISE_SPEED \<and> \<bar>bs_w m\<bar> \<le> MAX_TURN_RATE"

definition behavior_inv :: "behavior_topic \<Rightarrow> behavior_config \<Rightarrow> behavior_state \<Rightarrow> bool" where
  "behavior_inv topic config s \<longleftrightarrow>
     (bh_state s = Delivered \<longrightarrow> bh_hasParcel s) \<and> (bh_state s = ArrivedEmpty \<longrightarrow> \<not> bh_hasParcel s)
     \<and> (bh_state s = Waiting \<longrightarrow> bh_waitStart s \<noteq> None)
     \<and> (bh_detoured s \<longrightarrow> topic = Blocked \<and> bc_detour config)
     \<and> (bh_state s = Detouring \<longrightarrow> bh_detoured s)
     \<and> (bh_state s = ToElsewhere \<longrightarrow> topic = MissingParcel \<and> bc_search config)
     \<and> (bh_state s \<in> {Delivered, ArrivedEmpty} \<longrightarrow> bh_done s)
     \<and> list_all (behavior_sample_ok topic config) (bh_samples s)"

lemma steer_bounds:
  assumes "steer danger s = (v, w)"
  shows "0 \<le> v \<and> v \<le> CRUISE_SPEED \<and> \<bar>w\<bar> \<le> MAX_TURN_RATE"
proof -
  have "CRUISE_SPEED * max 0 (cos (heading_error s)) \<le> CRUISE_SPEED * 1"
    by (intro mult_left_mono) (simp_all add: CRUISE_SPEED_def)
  moreover have "0 \<le> CRUISE_SPEED" "0 \<le> MAX_TURN_RATE" by (simp_all add: CRUISE_SPEED_def MAX_TURN_RATE_def)
  ultimately show ?thesis
    using assms clamp_bounds [of "- MAX_TURN_RATE" MAX_TURN_RATE "heading_error s * HEADING_GAIN"]
    by (auto simp: steer_def abs_le_iff split: if_splits)
qed

lemma arrival_inv:
  "behavior_inv topic config s \<Longrightarrow> \<not> bh_done s \<Longrightarrow> behavior_inv topic config (on_arrival topic config t s)"
  by (auto simp: behavior_inv_def on_arrival_def change_def split: list.splits)

lemma obstacle_cases:
  obtains (still) "on_obstacle topic config t danger s = s" "\<not> danger \<or> bh_done s" "bh_waitStart s = None \<or> bh_state s \<noteq> Waiting"
  | (clear) "on_obstacle topic config t danger s = (change t ToDelivery PassageClear s)\<lparr>bh_waitStart := None\<rparr>" "bh_state s = Waiting"
  | (wait) s1 where "on_obstacle topic config t danger s = s1\<lparr>bh_waitTotal := bh_waitTotal s1 + dt\<rparr>" "s1 = begin_wait t s" "danger" "\<not> bh_done s"
  | (detour) s1 where "on_obstacle topic config t danger s
        = change t Detouring WaitTimeExceeded
            (s1\<lparr>bh_waitTotal := bh_waitTotal s1 + dt, bh_detoured := True, bh_waypoints := DETOUR, bh_target := DETOUR_ENTRY\<rparr>)"
      "s1 = begin_wait t s" "danger" "\<not> bh_done s" "topic = Blocked \<and> bc_detour config"
proof (cases "danger \<and> \<not> bh_done s")
  case True
  then show ?thesis
    using wait detour by (cases "take_detour topic config t ((begin_wait t s)\<lparr>bh_waitTotal := bh_waitTotal (begin_wait t s) + dt\<rparr>)
      = (begin_wait t s)\<lparr>bh_waitTotal := bh_waitTotal (begin_wait t s) + dt\<rparr>")
      (simp_all add: on_obstacle_def Let_def take_detour_def split: if_splits)
next
  case False
  then show ?thesis
    using still clear by (cases "bh_waitStart s = None \<or> bh_state s \<noteq> Waiting") (auto simp: on_obstacle_def)
qed

lemma change_frame:
  "bh_state (change t new why s) = new" "bh_done (change t new why s) = bh_done s" "bh_detoured (change t new why s) = bh_detoured s"
  "bh_hasParcel (change t new why s) = bh_hasParcel s" "bh_samples (change t new why s) = bh_samples s"
  "bh_waitStart (change t new why s) = bh_waitStart s"
  by (simp_all add: change_def)

lemma begin_wait_frame:
  "bh_done (begin_wait t s) = bh_done s" "bh_detoured (begin_wait t s) = bh_detoured s" "bh_hasParcel (begin_wait t s) = bh_hasParcel s"
  "bh_samples (begin_wait t s) = bh_samples s" "bh_waitStart (begin_wait t s) \<noteq> None"
  "bh_state (begin_wait t s) = (if bh_waitStart s = None then Waiting else bh_state s)"
  by (simp_all add: begin_wait_def change_def)

lemma obstacle_inv:
  "behavior_inv topic config s \<Longrightarrow> behavior_inv topic config (on_obstacle topic config t danger s)"
  by (cases topic config t danger s rule: obstacle_cases) (auto simp: behavior_inv_def begin_wait_frame change_frame)

text \<open>A robot that waits, or has an obstacle ahead and no detour, stands.\<close>

lemma obstacle_stands:
  assumes inv: "behavior_inv topic config s" and "bh_done s \<longrightarrow> bh_state s \<in> {Delivered, ArrivedEmpty}"
    and vw: "steer (danger_ahead config t s) (on_obstacle topic config t (danger_ahead config t s) s) = (v, w)"
  shows "bh_state (on_obstacle topic config t (danger_ahead config t s) s) = Waiting \<Longrightarrow> v = 0 \<and> w = 0"
    and "danger_ahead config t s \<Longrightarrow> \<not> (topic = Blocked \<and> bc_detour config) \<Longrightarrow> v = 0 \<and> w = 0"
proof -
  let ?d = "danger_ahead config t s" and ?s = "on_obstacle topic config t (danger_ahead config t s) s"
  have not_detoured: "\<not> bh_detoured s" if ?d using that by (simp add: danger_ahead_def)
  have stands: "v = 0 \<and> w = 0" if "bh_done ?s \<or> ?d \<and> \<not> bh_detoured ?s" using vw that by (auto simp: steer_def)
  show "v = 0 \<and> w = 0" if "bh_state ?s = Waiting"
    by (cases topic config t ?d s rule: obstacle_cases)
      (use that inv stands not_detoured in \<open>auto simp: behavior_inv_def begin_wait_frame change_frame\<close>)
  show "v = 0 \<and> w = 0" if ?d "\<not> (topic = Blocked \<and> bc_detour config)"
    by (cases topic config t ?d s rule: obstacle_cases)
      (use that stands not_detoured in \<open>auto simp: begin_wait_frame change_frame\<close>)
qed

lemma behavior_step_inv:
  assumes inv: "behavior_inv topic config s" and going: "\<not> bh_done s"
    and step: "behavior_step topic config k s = (s', ended)"
  shows "behavior_inv topic config s' \<and> (\<not> ended \<longrightarrow> \<not> bh_done s')"
proof -
  let ?t = "real k * dt"
  define s1 where "s1 = (if arrived s then on_arrival topic config ?t s else s)"
  define danger where "danger = danger_ahead config ?t s1"
  define s2 where "s2 = on_obstacle topic config ?t danger s1"
  obtain v w where vw: "steer danger s2 = (v, w)" by fastforce
  have inv1: "behavior_inv topic config s1" using inv going arrival_inv by (simp add: s1_def)
  have done1: "bh_done s1 \<longrightarrow> bh_state s1 \<in> {Delivered, ArrivedEmpty}"
    using going by (auto simp: s1_def on_arrival_def change_def split: list.splits)
  have inv2: "behavior_inv topic config s2" using inv1 obstacle_inv by (simp add: s2_def)
  note stands = obstacle_stands [OF inv1 done1 vw [unfolded s2_def danger_def]]
  have place: "bh_x s2 = bh_x s1" "bh_y s2 = bh_y s1"
    by (auto simp: s2_def on_obstacle_def begin_wait_def take_detour_def change_def Let_def)
  have clear: "v = 0 \<and> w = 0" if "is_blocked config ?t" "bh_x s2 > 1.65" "bh_x s2 < 2.5" "bh_y s2 > 1.2"
    "\<not> (topic = Blocked \<and> bc_detour config)"
    using stands(2) that inv1 by (auto simp: danger_ahead_def place behavior_inv_def)
  define m where "m = \<lparr>bs_t = ?t, bs_x = bh_x s2, bs_y = bh_y s2, bs_theta = bh_theta s2,
    bs_v = v, bs_w = w, bs_left = toRpm (v + w * HALF_TRACK), bs_right = toRpm (v - w * HALF_TRACK),
    bs_status = bh_state s2, bs_hasParcel = bh_hasParcel s2, bs_blocked = is_blocked config ?t,
    bs_waitTotal = bh_waitTotal s2, bs_target = bh_target s2\<rparr>"
  have "behavior_step topic config k s = (let s3 = s2\<lparr>bh_samples := bh_samples s2 @ [m]\<rparr>; theta = bh_theta s2 + w * dt in
      if bh_done s2 then (s3, True)
      else (s3\<lparr>bh_theta := theta, bh_x := bh_x s2 + v * cos theta * dt, bh_y := bh_y s2 + v * sin theta * dt\<rparr>, False))"
    by (simp add: behavior_step_def drive_on_def Let_def s1_def [symmetric] danger_def [symmetric] s2_def [symmetric] vw m_def)
  then have s': "bh_samples s' = bh_samples s2 @ [m]" "bh_state s' = bh_state s2" "bh_hasParcel s' = bh_hasParcel s2"
    "bh_waitStart s' = bh_waitStart s2" "bh_done s' = bh_done s2" "bh_detoured s' = bh_detoured s2" "ended = bh_done s2"
    using step by (auto simp: Let_def split: if_splits)
  have "behavior_sample_ok topic config m"
    using inv2 stands(1) clear steer_bounds [OF vw] unfolding behavior_inv_def behavior_sample_ok_def
    by (simp add: m_def in_front_def s2_def [symmetric] danger_def [symmetric])
  then show ?thesis
    using inv2 s' by (simp add: behavior_inv_def)
qed

lemma behavior_loop_inv:
  "behavior_inv topic config s \<Longrightarrow> \<not> bh_done s \<Longrightarrow> behavior_inv topic config (behavior_loop topic config ks s)"
proof (induction ks arbitrary: s)
  case Nil
  then show ?case by simp
next
  case (Cons k ks)
  obtain s' ended where step: "behavior_step topic config k s = (s', ended)" by fastforce
  with behavior_step_inv [OF Cons.prems step] Cons.IH [of s'] show ?case by simp
qed

lemma behavior_start_inv: "behavior_inv topic config behavior_start" "\<not> bh_done behavior_start"
  by (simp_all add: behavior_inv_def behavior_start_def)

text \<open>
  in every delivery run, for any settings: "delivered" is shown only while the robot carries the
  parcel and "arrived empty" only while it does not; a waiting robot stands, and so does any robot
  with the passage blocked ahead of it unless the detour rule is on; a detour is only taken under that
  rule and the search only under the search rule; speed and turn rate keep their limits.
\<close>

theorem behavior_rules_hold:
  "list_all (behavior_sample_ok topic config) (br_samples (behavior topic config))"
  using behavior_loop_inv [OF behavior_start_inv, of topic config]
  by (simp add: behavior_def Let_def behavior_inv_def del: upt_Suc)

section \<open>On the straight way only a lasting obstacle prevents the delivery\<close>

definition straight_inv :: "behavior_config \<Rightarrow> nat \<Rightarrow> behavior_state \<Rightarrow> bool" where
  "straight_inv config k s \<longleftrightarrow>
     bh_y s = 2 \<and> bh_theta s = 0 \<and> \<not> bh_done s \<and> \<not> bh_detoured s \<and> bh_waypoints s = []
     \<and> (if bh_hasParcel s
        then bh_target s = DELIVERY_PLACE \<and> bh_x s \<le> 4.2425
          \<and> (bh_state s = ToDelivery \<and> bh_waitStart s = None \<or> bh_state s = Waiting \<and> bh_waitStart s \<noteq> None)
        else bh_target s = PARCEL_PLACE \<and> bh_x s \<le> 1.2425 \<and> bh_state s = ToParcel \<and> bh_waitStart s = None)
     \<and> (if bc_obstacle config = PermanentObstacle then bh_x s \<le> 1.6825
        else bh_x s \<ge> 0.5 + 0.0325 * real k \<or> bh_x s \<ge> 1.65 + 0.0325 * (real k - 180))
     \<and> list_all (\<lambda>m. bs_status m \<noteq> Delivered) (bh_samples s)"

lemma straight_start: "straight_inv config 0 behavior_start"
  by (simp add: straight_inv_def behavior_start_def)

lemma straight_time: "straight_inv config k s \<Longrightarrow> bc_obstacle config \<noteq> PermanentObstacle \<Longrightarrow> k < 300"
proof -
  assume inv: "straight_inv config k s" and ob: "bc_obstacle config \<noteq> PermanentObstacle"
  have "bh_x s \<le> 4.2425" using inv by (auto simp: straight_inv_def add_divide_distrib diff_divide_distrib split: if_splits)
  moreover have "0.5 + 0.0325 * real k \<le> bh_x s \<or> 1.65 + 0.0325 * (real k - 180) \<le> bh_x s"
    using inv ob by (simp add: straight_inv_def)
  ultimately have "real k < 300" by (auto simp: field_simps)
  then show "k < 300" by simp
qed

lemma steer_straight:
  assumes "gr_y (bh_target s) = bh_y s" "bh_theta s = 0" "bh_x s < gr_x (bh_target s)" "\<not> bh_done s"
  shows "steer False s = (CRUISE_SPEED, 0)"
proof -
  have "heading_error s = 0" using assms by (simp add: heading_error_def atan2_def)
  then show ?thesis using assms by (simp add: steer_def clamp_def MAX_TURN_RATE_def)
qed

lemma straight_arrived:
  "gr_y (bh_target s) = bh_y s \<Longrightarrow> \<not> bh_done s \<Longrightarrow> arrived s \<longleftrightarrow> \<bar>gr_x (bh_target s) - bh_x s\<bar> < 0.09"
  by (simp add: arrived_def hypot_def ARRIVED_WITHIN_def)

text \<open>Without danger the robot moves on by 3.25 cm; in danger it waits.\<close>

lemma drive_on_clear:
  assumes "\<not> danger_ahead config (real k * dt) s" "bh_state s = ToParcel \<or> bh_state s = ToDelivery \<or> bh_state s = Waiting"
    "bh_y s = 2" "gr_y (bh_target s) = 2" "bh_theta s = 0" "bh_x s < gr_x (bh_target s)" "\<not> bh_done s"
    "bh_state s = Waiting \<longleftrightarrow> bh_waitStart s \<noteq> None"
  obtains s' where "drive_on topic config k s = (s', False)" "bh_x s' = bh_x s + 0.0325" "bh_y s' = 2" "bh_theta s' = 0"
    "\<not> bh_done s'" "bh_detoured s' = bh_detoured s" "bh_waypoints s' = bh_waypoints s" "bh_hasParcel s' = bh_hasParcel s"
    "bh_target s' = bh_target s" "bh_state s' = (if bh_state s = Waiting then ToDelivery else bh_state s)"
    "bh_waitStart s' = None" "\<exists>m. bh_samples s' = bh_samples s @ [m] \<and> bs_status m \<noteq> Delivered"
proof -
  define s2 where "s2 = on_obstacle topic config (real k * dt) False s"
  have s2: "bh_x s2 = bh_x s" "bh_y s2 = 2" "bh_theta s2 = 0" "\<not> bh_done s2" "bh_detoured s2 = bh_detoured s"
    "bh_waypoints s2 = bh_waypoints s" "bh_hasParcel s2 = bh_hasParcel s" "bh_target s2 = bh_target s"
    "bh_state s2 = (if bh_state s = Waiting then ToDelivery else bh_state s)" "bh_waitStart s2 = None"
    "bh_samples s2 = bh_samples s"
    using assms by (auto simp: s2_def on_obstacle_def change_def)
  have steer: "steer False s2 = (CRUISE_SPEED, 0)" using assms s2 by (intro steer_straight) simp_all
  have clear: "danger_ahead config (real k * dt) s = False" using assms(1) by simp
  obtain s' ended where e: "drive_on topic config k s = (s', ended)" by fastforce
  have "bh_x s' = bh_x s + CRUISE_SPEED * dt" "bh_y s' = 2" "bh_theta s' = 0" "\<not> bh_done s'"
    "bh_detoured s' = bh_detoured s" "bh_waypoints s' = bh_waypoints s" "bh_hasParcel s' = bh_hasParcel s"
    "bh_target s' = bh_target s" "bh_state s' = (if bh_state s = Waiting then ToDelivery else bh_state s)"
    "bh_waitStart s' = None" "\<exists>m. bh_samples s' = bh_samples s @ [m] \<and> bs_status m \<noteq> Delivered" "\<not> ended"
    using e assms(2) by (auto simp: drive_on_def Let_def clear s2_def [symmetric] steer s2)
  moreover have "CRUISE_SPEED * dt = 0.0325" by (simp add: CRUISE_SPEED_def dt_def)
  ultimately show ?thesis using that e by simp
qed

lemma drive_on_danger:
  assumes "danger_ahead config (real k * dt) s" "topic = Blocked \<longrightarrow> \<not> bc_detour config" "\<not> bh_done s" "\<not> bh_detoured s"
    "bh_theta s = 0" "bh_state s = Waiting \<longleftrightarrow> bh_waitStart s \<noteq> None"
  obtains s' where "drive_on topic config k s = (s', False)" "bh_x s' = bh_x s" "bh_y s' = bh_y s" "bh_theta s' = 0"
    "\<not> bh_done s'" "\<not> bh_detoured s'" "bh_waypoints s' = bh_waypoints s" "bh_hasParcel s' = bh_hasParcel s"
    "bh_target s' = bh_target s" "bh_state s' = Waiting" "bh_waitStart s' \<noteq> None"
    "\<exists>m. bh_samples s' = bh_samples s @ [m] \<and> bs_status m \<noteq> Delivered"
proof -
  define s2 where "s2 = on_obstacle topic config (real k * dt) True s"
  have s2: "bh_x s2 = bh_x s" "bh_y s2 = bh_y s" "bh_theta s2 = 0" "\<not> bh_done s2" "\<not> bh_detoured s2"
    "bh_waypoints s2 = bh_waypoints s" "bh_hasParcel s2 = bh_hasParcel s" "bh_target s2 = bh_target s"
    "bh_state s2 = Waiting" "bh_waitStart s2 \<noteq> None" "bh_samples s2 = bh_samples s"
    using assms by (auto simp: s2_def on_obstacle_def begin_wait_def take_detour_def change_def Let_def)
  then have steer: "steer True s2 = (0, 0)" by (simp add: steer_def)
  have danger: "danger_ahead config (real k * dt) s = True" using assms(1) by simp
  obtain s' ended where e: "drive_on topic config k s = (s', ended)" by fastforce
  obtain since where since: "bh_waitStart s2 = Some since" using s2(10) by blast
  have "bh_x s' = bh_x s" "bh_y s' = bh_y s" "bh_theta s' = 0" "\<not> bh_done s'"
    "\<not> bh_detoured s'" "bh_waypoints s' = bh_waypoints s" "bh_hasParcel s' = bh_hasParcel s"
    "bh_target s' = bh_target s" "bh_state s' = Waiting" "bh_waitStart s' \<noteq> None"
    "\<exists>m. bh_samples s' = bh_samples s @ [m] \<and> bs_status m \<noteq> Delivered" "\<not> ended"
    using e by (auto simp: drive_on_def Let_def danger s2_def [symmetric] steer s2(1-9,11) since)
  then show ?thesis using that e by simp
qed

lemma straight_step:
  assumes inv: "straight_inv config k s" and topic: "topic \<noteq> MissingParcel" "topic = Blocked \<longrightarrow> \<not> bc_detour config"
    and step: "behavior_step topic config k s = (s', ended)"
  shows "if ended then bc_obstacle config \<noteq> PermanentObstacle \<and> bs_status (last (bh_samples s')) = Delivered
     else straight_inv config (Suc k) s'"
proof (cases "bh_hasParcel s")
  case False
  have old: "bh_y s = 2" "bh_theta s = 0" "\<not> bh_done s" "\<not> bh_detoured s" "bh_waypoints s = []" "bh_target s = PARCEL_PLACE"
    "bh_x s \<le> 1.2425" "bh_state s = ToParcel" "bh_waitStart s = None" "list_all (\<lambda>m. bs_status m \<noteq> Delivered) (bh_samples s)"
    using inv False by (simp_all add: straight_inv_def)
  define s1 where "s1 = (if arrived s then on_arrival topic config (real k * dt) s else s)"
  have arr: "arrived s \<longleftrightarrow> \<bar>1.3 - bh_x s\<bar> < 0.09"
    using straight_arrived [of s] old by (simp add: PARCEL_PLACE_def)
  have s1: "bh_x s1 = bh_x s" "bh_y s1 = 2" "bh_theta s1 = 0" "\<not> bh_done s1" "\<not> bh_detoured s1" "bh_waypoints s1 = []"
      "bh_samples s1 = bh_samples s" "bh_waitStart s1 = None"
      "if arrived s then bh_hasParcel s1 \<and> bh_target s1 = DELIVERY_PLACE \<and> bh_state s1 = ToDelivery
       else \<not> bh_hasParcel s1 \<and> bh_target s1 = PARCEL_PLACE \<and> bh_state s1 = ToParcel"
    using old False topic by (auto simp: s1_def on_arrival_def change_def)
  have clear: "\<not> danger_ahead config (real k * dt) s1" using old(7) by (simp add: danger_ahead_def s1(1))
  have goal: "gr_y (bh_target s1) = 2" "bh_x s1 < gr_x (bh_target s1)"
    "bh_state s1 = ToParcel \<or> bh_state s1 = ToDelivery \<or> bh_state s1 = Waiting" "bh_state s1 = Waiting \<longleftrightarrow> bh_waitStart s1 \<noteq> None"
    using s1 old(7) by (auto simp: DELIVERY_PLACE_def PARCEL_PLACE_def split: if_splits)
  obtain s'' where "drive_on topic config k s1 = (s'', False)" "bh_x s'' = bh_x s1 + 0.0325" "bh_y s'' = 2" "bh_theta s'' = 0"
    "\<not> bh_done s''" "bh_detoured s'' = bh_detoured s1" "bh_waypoints s'' = bh_waypoints s1" "bh_hasParcel s'' = bh_hasParcel s1"
    "bh_target s'' = bh_target s1" "bh_state s'' = (if bh_state s1 = Waiting then ToDelivery else bh_state s1)"
    "bh_waitStart s'' = None" "\<exists>m. bh_samples s'' = bh_samples s1 @ [m] \<and> bs_status m \<noteq> Delivered"
    by (rule drive_on_clear [OF clear goal(3) s1(2) goal(1) s1(3) goal(2) s1(4) goal(4), of topic])
  moreover have "s' = s''" "\<not> ended"
    using step calculation(1) by (simp_all add: behavior_step_def s1_def)
  ultimately show ?thesis
    using inv s1 old arr False by (auto simp: straight_inv_def add_divide_distrib diff_divide_distrib split: if_splits)
next
  case True
  have old: "bh_y s = 2" "bh_theta s = 0" "\<not> bh_done s" "\<not> bh_detoured s" "bh_waypoints s = []" "bh_target s = DELIVERY_PLACE"
    "bh_x s \<le> 4.2425" "bh_state s = ToDelivery \<and> bh_waitStart s = None \<or> bh_state s = Waiting \<and> bh_waitStart s \<noteq> None"
    "list_all (\<lambda>m. bs_status m \<noteq> Delivered) (bh_samples s)"
    using inv True by (simp_all add: straight_inv_def)
  have arr: "arrived s \<longleftrightarrow> \<bar>4.3 - bh_x s\<bar> < 0.09"
    using straight_arrived [of s] old by (simp add: DELIVERY_PLACE_def)
  have wait: "bh_state s = Waiting \<longleftrightarrow> bh_waitStart s \<noteq> None"
    "bh_state s = ToParcel \<or> bh_state s = ToDelivery \<or> bh_state s = Waiting" using old(8) by auto
  show ?thesis
  proof (cases "arrived s")
    case arrived: True
    then have "4.3 - bh_x s < 0.09" using arr abs_less_iff [of "4.3 - bh_x s" "0.09"] by blast
    then have x: "bh_x s > 4.2" by simp
    then have permanent: "bc_obstacle config \<noteq> PermanentObstacle" using inv by (auto simp: straight_inv_def)
    define s1 where "s1 = on_arrival topic config (real k * dt) s"
    have s1: "bh_done s1" "bh_state s1 = Delivered"
      using old True topic wait by (auto simp: s1_def on_arrival_def change_def)
    have "ended \<and> bs_status (last (bh_samples s')) = Delivered"
      using step s1 arrived by (auto simp: behavior_step_def s1_def [symmetric] drive_on_def Let_def on_obstacle_def split: prod.splits)
    with permanent show ?thesis by simp
  next
    case False
    then have far: "bh_x s \<le> 4.21" using arr old(7) by (auto split: abs_split)
    have same: "behavior_step topic config k s = drive_on topic config k s" using False by (simp add: behavior_step_def)
    show ?thesis
    proof (cases "danger_ahead config (real k * dt) s")
      case danger: True
      obtain s'' where "drive_on topic config k s = (s'', False)" "bh_x s'' = bh_x s" "bh_y s'' = bh_y s" "bh_theta s'' = 0"
        "\<not> bh_done s''" "\<not> bh_detoured s''" "bh_waypoints s'' = bh_waypoints s" "bh_hasParcel s'' = bh_hasParcel s"
        "bh_target s'' = bh_target s" "bh_state s'' = Waiting" "bh_waitStart s'' \<noteq> None"
        "\<exists>m. bh_samples s'' = bh_samples s @ [m] \<and> bs_status m \<noteq> Delivered"
        by (rule drive_on_danger [OF danger topic(2) old(3,4,2) wait(1)])
      moreover have "s' = s''" "\<not> ended" using step calculation(1) same by simp_all
      moreover have "real k < 180" if "bc_obstacle config \<noteq> PermanentObstacle"
        using danger that by (cases "bc_obstacle config")
          (auto simp: danger_ahead_def is_blocked_def TEMPORARY_OBSTACLE_UNTIL_def dt_def)
      then have "k < 180" if "bc_obstacle config \<noteq> PermanentObstacle" using that by simp
      moreover have "1.65 < bh_x s" using danger by (simp add: danger_ahead_def)
      ultimately show ?thesis
        using inv old True by (auto simp: straight_inv_def add_divide_distrib diff_divide_distrib split: if_splits)
    next
      case clear: False
      have near: "bh_x s < gr_x (bh_target s)" "gr_y (bh_target s) = 2" using old far by (simp_all add: DELIVERY_PLACE_def)
      obtain s'' where "drive_on topic config k s = (s'', False)" "bh_x s'' = bh_x s + 0.0325" "bh_y s'' = 2" "bh_theta s'' = 0"
        "\<not> bh_done s''" "bh_detoured s'' = bh_detoured s" "bh_waypoints s'' = bh_waypoints s" "bh_hasParcel s'' = bh_hasParcel s"
        "bh_target s'' = bh_target s" "bh_state s'' = (if bh_state s = Waiting then ToDelivery else bh_state s)"
        "bh_waitStart s'' = None" "\<exists>m. bh_samples s'' = bh_samples s @ [m] \<and> bs_status m \<noteq> Delivered"
        by (rule drive_on_clear [OF clear wait(2) old(1) near(2) old(2) near(1) old(3) wait(1), of topic])
      moreover have "s' = s''" "\<not> ended" using step calculation(1) same by simp_all
      moreover have "bh_x s \<le> 1.65" if "bc_obstacle config = PermanentObstacle"
        using clear that inv by (auto simp: danger_ahead_def is_blocked_def straight_inv_def)
      ultimately show ?thesis
        using inv old far True by (auto simp: straight_inv_def add_divide_distrib diff_divide_distrib split: if_splits)
    qed
  qed
qed

lemma straight_loop:
  "straight_inv config k s \<Longrightarrow> topic \<noteq> MissingParcel \<Longrightarrow> (topic = Blocked \<longrightarrow> \<not> bc_detour config) \<Longrightarrow> k \<le> 321 \<Longrightarrow>
   bh_samples s \<noteq> [] \<or> k < 321 \<Longrightarrow>
   (bs_status (last (bh_samples (behavior_loop topic config [k..<321] s))) = Delivered)
     = (bc_obstacle config \<noteq> PermanentObstacle)"
proof (induction "321 - k" arbitrary: k s)
  case 0
  then have k: "k = 321" by simp
  with straight_time [OF 0(2)] have "bc_obstacle config = PermanentObstacle" by auto
  moreover have "bs_status (last (bh_samples s)) \<noteq> Delivered"
    using 0 k by (auto simp: straight_inv_def list_all_iff)
  ultimately show ?case using k by simp
next
  case (Suc n)
  obtain s' ended where step: "behavior_step topic config k s = (s', ended)" by fastforce
  have k: "k < 321" and n: "n = 321 - Suc k" using Suc.hyps(2) by simp_all
  note after = straight_step [OF Suc.prems(1-3) step]
  have some: "bh_samples s' \<noteq> []"
    using step by (auto simp: behavior_step_def drive_on_def Let_def split: if_splits prod.splits)
  show ?case
    using after Suc.hyps(1) [OF n _ Suc.prems(2,3), of s'] k some by (auto simp: upt_conv_Cons step split: if_splits)
qed

text \<open>
  C37: the delivery without the detour rule (the sequence topic, and the blocked topic with "keep
  waiting"): the parcel is delivered within the 16 s, with a free passage and with one that is
  free after nine seconds, and only a passage that stays blocked prevents it.
\<close>

theorem waiting_delivers:
  "br_success (behavior Sequence config) = (bc_obstacle config \<noteq> PermanentObstacle) \<and>
   br_success (behavior Blocked (config\<lparr>bc_detour := False\<rparr>)) = (bc_obstacle config \<noteq> PermanentObstacle)"
  using straight_loop [OF straight_start, of Sequence config]
    straight_loop [OF straight_start, of Blocked "config\<lparr>bc_detour := False\<rparr>"]
  by (simp add: behavior_def Let_def BEHAVIOR_STEPS_def del: upt_Suc)

end
