(* ===== verification/Systems_Tracking.thy ===== *)
theory Systems_Tracking
  imports Systems_Base
begin

text \<open>
  The \<open>tracking\<close> experiments of \<open>lab/js/systems/core.js\<close>: QUESTiX measures another robot that crosses its
  lane, estimates its velocity, predicts its position, and waits by a rule on the distance now or on the
  closest approach ahead. The lemmas show when predictions are exact and what a successful crossing means.
\<close>

section \<open>Constants and settings\<close>

definition TRACKING_STEPS :: nat where "TRACKING_STEPS = 140"
definition CROSSING_STEPS :: nat where "CROSSING_STEPS = 220"
definition TRACKING_LANE_Y :: real where "TRACKING_LANE_Y = 1.6"
definition CART_TURN_TIME :: real where "CART_TURN_TIME = 4"
definition CART_TURN_STEP :: nat where "CART_TURN_STEP = 80"
definition CART_SPEED :: real where "CART_SPEED = 0.4"
definition CROSSING_GOAL_X :: real where "CROSSING_GOAL_X = 4.4"
definition ROBOT_RADIUS_SUM :: real where "ROBOT_RADIUS_SUM = 0.36"
definition PREDICTED_CLEARANCE :: real where "PREDICTED_CLEARANCE = 0.7"
definition CURRENT_CLEARANCE :: real where "CURRENT_CLEARANCE = 0.47"
definition CROSSING_ACCEL :: real where "CROSSING_ACCEL = 1.2"
definition CROSSING_MAX_SPEED :: real where "CROSSING_MAX_SPEED = 0.6"
definition QUESTIX_REL_SPEED :: real where "QUESTIX_REL_SPEED = - 0.6"

datatype tracking_topic = Velocity | Prediction | Crossing

record tracking_config =
  kc_turn :: bool
  kc_interval :: real
  kc_noise :: real
  kc_horizon :: real
  kc_smoothing :: real
  kc_predict :: bool

definition tracking_config_of :: "config \<Rightarrow> tracking_config" where
  "tracking_config_of config =
     \<lparr>kc_turn = selected config ''motion'' ''turn'', kc_interval = coalesce (number_of config ''interval'') 0.2,
      kc_noise = coalesce (number_of config ''noise'') 0, kc_horizon = coalesce (number_of config ''horizon'') 1,
      kc_smoothing = coalesce (number_of config ''smoothing'') 1, kc_predict = selected config ''rule'' ''predict''\<rparr>"

section \<open>The other robot and what is known of it\<close>

definition CART_X :: real where "CART_X = 2.65"

definition cartAt :: "real \<Rightarrow> bool \<Rightarrow> real" where
  "cartAt t turns =
     (if turns \<and> t \<ge> CART_TURN_TIME then 1.55 + CART_SPEED * (t - CART_TURN_TIME) else 3.15 - CART_SPEED * t)"

record observation =
  ob_x :: real
  ob_y :: real
  ob_t :: real

record guess =
  gu_madeAt :: real
  gu_t :: real
  gu_y :: real
  gu_checked :: bool

record evaluation =
  ev_madeAt :: real
  ev_targetTime :: real
  ev_predictedY :: real
  ev_actualY :: real
  ev_error :: real

datatype tracking_status = TrackContact | TrackArrived | WaitForOther | TrackGo | Observing | WaitingMeasurement

datatype tracking_event = TurnEvent real | StatusEvent real tracking_status

record tracking_sample =
  tk_t :: real
  tk_x :: real
  tk_v :: real
  tk_cart_y :: real
  tk_obs :: observation
  tk_previousObs :: "observation option"
  tk_velocity :: "real option"
  tk_actualVelocity :: real
  tk_predicted :: "observation option"
  tk_evaluation :: "evaluation option"
  tk_predictionError :: "real option"
  tk_separation :: real
  tk_status :: tracking_status

record tracking_state =
  kt_seed :: "32 word"
  kt_predictions :: "guess list"
  kt_errors :: "real list"
  kt_obs :: observation
  kt_previous :: "observation option"
  kt_velocity :: real
  kt_hasVelocity :: bool
  kt_lastMeasure :: "real option"
  kt_lastError :: "real option"
  kt_evaluation :: "evaluation option"
  kt_x :: real
  kt_v :: real
  kt_minDistance :: "real option"
  kt_contact :: bool
  kt_samples :: "tracking_sample list"
  kt_events :: "tracking_event list"

text \<open>The first pass always measures, so the observation here is never read.\<close>

definition tracking_start :: tracking_state where
  "tracking_start = \<lparr>kt_seed = START_SEED, kt_predictions = [], kt_errors = [],
     kt_obs = \<lparr>ob_x = 0, ob_y = 0, ob_t = 0\<rparr>, kt_previous = None, kt_velocity = 0, kt_hasVelocity = False,
     kt_lastMeasure = None, kt_lastError = None, kt_evaluation = None, kt_x = 0.4, kt_v = 0,
     kt_minDistance = None, kt_contact = False, kt_samples = [], kt_events = []\<rparr>"

definition measures :: "tracking_config \<Rightarrow> real \<Rightarrow> tracking_state \<Rightarrow> bool" where
  "measures config t s \<longleftrightarrow>
     (case kt_lastMeasure s of None \<Rightarrow> True | Some l \<Rightarrow> t - l \<ge> kc_interval config - EPSILON)"

definition measure_cart :: "tracking_topic \<Rightarrow> tracking_config \<Rightarrow> real \<Rightarrow> tracking_state \<Rightarrow> tracking_state" where
  "measure_cart topic config t s =
     (let previous = (if kt_lastMeasure s = None then None else Some (kt_obs s));
          seed = next_seed (kt_seed s);
          seen = \<lparr>ob_x = CART_X, ob_y = cartAt t (kc_turn config) + noise_of seed * kc_noise config, ob_t = t\<rparr>;
          velocity = (case previous of
              None \<Rightarrow> kt_velocity s
            | Some p \<Rightarrow>
                let measured = (ob_y seen - ob_y p) / (t - ob_t p) in
                if kt_hasVelocity s
                then kt_velocity s * (1 - kc_smoothing config) + measured * kc_smoothing config
                else measured);
          has = (kt_hasVelocity s \<or> previous \<noteq> None) in
      s\<lparr>kt_seed := seed, kt_previous := previous, kt_obs := seen, kt_velocity := velocity,
        kt_hasVelocity := has, kt_lastMeasure := Some t,
        kt_predictions := kt_predictions s @
          (if has \<and> topic = Prediction
           then [\<lparr>gu_madeAt = t, gu_t = t + kc_horizon config, gu_y = ob_y seen + velocity * kc_horizon config,
             gu_checked = False\<rparr>] else [])\<rparr>)"

text \<open>A prediction is marked right or wrong once its time has come.\<close>

definition check_guess :: "tracking_config \<Rightarrow> real \<Rightarrow> tracking_state \<Rightarrow> guess \<Rightarrow> tracking_state" where
  "check_guess config t s g =
     (if gu_checked g \<or> t + EPSILON < gu_t g then s\<lparr>kt_predictions := kt_predictions s @ [g]\<rparr>
      else
        let actualY = cartAt (gu_t g) (kc_turn config); err = \<bar>gu_y g - actualY\<bar> in
        s\<lparr>kt_predictions := kt_predictions s @ [g\<lparr>gu_checked := True\<rparr>], kt_lastError := Some err,
          kt_evaluation := Some \<lparr>ev_madeAt = gu_madeAt g, ev_targetTime = gu_t g, ev_predictedY = gu_y g,
            ev_actualY = actualY, ev_error = err\<rparr>,
          kt_errors := kt_errors s @ [err]\<rparr>)"

definition check_guesses :: "tracking_config \<Rightarrow> real \<Rightarrow> tracking_state \<Rightarrow> tracking_state" where
  "check_guesses config t s = foldl (check_guess config t) (s\<lparr>kt_predictions := []\<rparr>) (kt_predictions s)"

section \<open>The waiting rules\<close>

definition nearest_time :: "real \<Rightarrow> real \<Rightarrow> real \<Rightarrow> real \<Rightarrow> real" where
  "nearest_time relativeX relativeY closingY horizon =
     (let square = QUESTIX_REL_SPEED * QUESTIX_REL_SPEED + closingY * closingY in
      clamp (- (relativeX * QUESTIX_REL_SPEED + relativeY * closingY) / (if square \<noteq> 0 then square else 1)) 0 horizon)"

definition rule_stops :: "tracking_config \<Rightarrow> real \<Rightarrow> tracking_state \<Rightarrow> bool" where
  "rule_stops config t s \<longleftrightarrow>
     (let relativeX = ob_x (kt_obs s) - kt_x s;
          relativeY = ob_y (kt_obs s) + kt_velocity s * (t - ob_t (kt_obs s)) - TRACKING_LANE_Y;
          nearest = nearest_time relativeX relativeY (kt_velocity s) (kc_horizon config) in
      if kc_predict config
      then hypot (relativeX + QUESTIX_REL_SPEED * nearest) (relativeY + kt_velocity s * nearest) < PREDICTED_CLEARANCE
      else hypot relativeX (ob_y (kt_obs s) - TRACKING_LANE_Y) < CURRENT_CLEARANCE)"

definition gap_at :: "tracking_config \<Rightarrow> real \<Rightarrow> real \<Rightarrow> real" where
  "gap_at config t x = hypot (CART_X - x) (cartAt t (kc_turn config) - TRACKING_LANE_Y) - ROBOT_RADIUS_SUM"

definition stopping_at :: "tracking_config \<Rightarrow> real \<Rightarrow> tracking_state \<Rightarrow> bool" where
  "stopping_at config t s \<longleftrightarrow> rule_stops config t s \<or> gap_at config t (kt_x s) \<le> 0 \<or> kt_x s \<ge> CROSSING_GOAL_X"

definition drive_crossing :: "tracking_config \<Rightarrow> real \<Rightarrow> tracking_state \<Rightarrow> tracking_state" where
  "drive_crossing config t s =
     (let distance = gap_at config t (kt_x s); contact = (kt_contact s \<or> distance \<le> 0);
          nextV = clamp (kt_v s + (if stopping_at config t s then - CROSSING_ACCEL else CROSSING_ACCEL) * dt)
            0 CROSSING_MAX_SPEED in
      s\<lparr>kt_minDistance := Some (case kt_minDistance s of None \<Rightarrow> distance | Some m \<Rightarrow> min m distance),
        kt_contact := contact, kt_x := kt_x s + (kt_v s + nextV) * dt / 2,
        kt_v := (if contact then 0 else nextV)\<rparr>)"

definition trackingStatus :: "tracking_topic \<Rightarrow> bool \<Rightarrow> bool \<Rightarrow> bool \<Rightarrow> bool \<Rightarrow> tracking_status" where
  "trackingStatus topic contact atGoal stopping has =
     (if contact then TrackContact
      else if topic = Crossing then (if atGoal then TrackArrived else if stopping then WaitForOther else TrackGo)
      else if has then Observing else WaitingMeasurement)"

definition tracking_sample_at :: "tracking_topic \<Rightarrow> tracking_config \<Rightarrow> real \<Rightarrow> tracking_status \<Rightarrow> tracking_state \<Rightarrow> tracking_sample" where
  "tracking_sample_at topic config t status s =
     \<lparr>tk_t = t, tk_x = kt_x s, tk_v = kt_v s, tk_cart_y = cartAt t (kc_turn config), tk_obs = kt_obs s,
      tk_previousObs = kt_previous s,
      tk_velocity = (if kt_hasVelocity s then Some (kt_velocity s) else None),
      tk_actualVelocity = (if kc_turn config \<and> t \<ge> CART_TURN_TIME then CART_SPEED else - CART_SPEED),
      tk_predicted =
        (if kt_hasVelocity s \<and> topic \<noteq> Velocity
         then Some \<lparr>ob_x = ob_x (kt_obs s), ob_y = ob_y (kt_obs s) + kt_velocity s * kc_horizon config,
           ob_t = ob_t (kt_obs s) + kc_horizon config\<rparr> else None),
      tk_evaluation = kt_evaluation s, tk_predictionError = kt_lastError s,
      tk_separation = max 0 (gap_at config t (kt_x s)), tk_status = status\<rparr>"

definition tracking_step :: "tracking_topic \<Rightarrow> tracking_config \<Rightarrow> nat \<Rightarrow> tracking_state \<Rightarrow> tracking_state \<times> bool" where
  "tracking_step topic config step s =
     (let t = real step * dt;
          s1 = check_guesses config t (if measures config t s then measure_cart topic config t s else s);
          turn = (if kc_turn config \<and> step = CART_TURN_STEP then [TurnEvent t] else []);
          stopping = (topic = Crossing \<and> stopping_at config t s1);
          s2 = (if topic = Crossing then drive_crossing config t s1 else s1);
          status = trackingStatus topic (kt_contact s2) (kt_x s2 \<ge> CROSSING_GOAL_X) stopping (kt_hasVelocity s2);
          changed = (kt_samples s2 = [] \<or> tk_status (last (kt_samples s2)) \<noteq> status) in
      (s2\<lparr>kt_events := kt_events s2 @ turn @ (if changed then [StatusEvent t status] else []),
          kt_samples := kt_samples s2 @ [tracking_sample_at topic config t status s2]\<rparr>,
       kt_contact s2 \<or> (topic = Crossing \<and> kt_x s2 \<ge> CROSSING_GOAL_X \<and> kt_v s2 = 0)))"

fun tracking_loop :: "tracking_topic \<Rightarrow> tracking_config \<Rightarrow> nat list \<Rightarrow> tracking_state \<Rightarrow> tracking_state" where
  "tracking_loop topic config [] s = s"
| "tracking_loop topic config (step # steps) s =
     (let (s', ended) = tracking_step topic config step s in
      if ended then s' else tracking_loop topic config steps s')"

datatype tracking_metric = ClosestGap real | WaitStartGap "real option" | Elapsed real | ContactYes bool
  | PositionError real | VelocityError real | MeanPredictionError real | MaxPredictionError real

definition trackingMetrics :: "tracking_topic \<Rightarrow> tracking_state \<Rightarrow> tracking_metric list" where
  "trackingMetrics topic s =
     (let samples = kt_samples s in
      case topic of
        Crossing \<Rightarrow>
          [ClosestGap (max 0 (coalesce (kt_minDistance s) 0)),
           WaitStartGap (map_option tk_separation (find (\<lambda>m. tk_status m = WaitForOther) samples)),
           Elapsed (tk_t (last samples)), ContactYes (kt_contact s)]
      | Velocity \<Rightarrow>
          [PositionError (mean (map (\<lambda>m. \<bar>ob_y (tk_obs m) - tk_cart_y m\<bar>)
             (filter (\<lambda>m. tk_t m = ob_t (tk_obs m)) samples))),
           VelocityError (mean (List.map_filter (\<lambda>m. map_option (\<lambda>v. \<bar>v - tk_actualVelocity m\<bar>) (tk_velocity m)) samples))]
      | Prediction \<Rightarrow> [MeanPredictionError (mean (kt_errors s)), MaxPredictionError (Max (set (0 # kt_errors s)))])"

datatype tracking_outcome = CrossingSuccess | CrossingContact | CrossingContactNoWait | CrossingTimedOut
  | VelocityNoisy | VelocityClean | PredictionTurn | PredictionStraight

definition trackingOutcome :: "tracking_topic \<Rightarrow> tracking_config \<Rightarrow> tracking_sample list \<Rightarrow> bool \<Rightarrow> bool \<Rightarrow> tracking_outcome" where
  "trackingOutcome topic config samples success contact =
     (case topic of
        Crossing \<Rightarrow>
          if success then CrossingSuccess
          else if contact then
            (if list_ex (\<lambda>m. tk_status m = WaitForOther) samples then CrossingContact else CrossingContactNoWait)
          else CrossingTimedOut
      | Velocity \<Rightarrow> if kc_noise config > 0 then VelocityNoisy else VelocityClean
      | Prediction \<Rightarrow> if kc_turn config then PredictionTurn else PredictionStraight)"

record tracking_run =
  kr_samples :: "tracking_sample list"
  kr_events :: "tracking_event list"
  kr_success :: bool
  kr_metrics :: "tracking_metric list"
  kr_outcome :: tracking_outcome

definition tracking :: "tracking_topic \<Rightarrow> tracking_config \<Rightarrow> tracking_run" where
  "tracking topic config =
     (let s = tracking_loop topic config
            [0..<(if topic = Crossing then CROSSING_STEPS else TRACKING_STEPS) + 1] tracking_start;
          samples = kt_samples s;
          success = (topic = Crossing \<longrightarrow> \<not> kt_contact s \<and> tk_x (last samples) \<ge> CROSSING_GOAL_X) in
      \<lparr>kr_samples = samples, kr_events = kt_events s, kr_success = success, kr_metrics = trackingMetrics topic s,
       kr_outcome = trackingOutcome topic config samples success (kt_contact s)\<rparr>)"

section \<open>The forecast drawn beside the run\<close>

record forecast =
  fc_current_gap :: real
  fc_after :: real
  fc_gap :: real
  fc_self_x :: real
  fc_other :: "real \<times> real"

definition crossingForecast :: "tracking_sample \<Rightarrow> tracking_config \<Rightarrow> forecast" where
  "crossingForecast m config =
     (let velocity = coalesce (tk_velocity m) 0; relativeX = ob_x (tk_obs m) - tk_x m;
          relativeY = ob_y (tk_obs m) + velocity * (tk_t m - ob_t (tk_obs m)) - TRACKING_LANE_Y;
          nearest = nearest_time relativeX relativeY velocity (kc_horizon config) in
      \<lparr>fc_current_gap = hypot relativeX (ob_y (tk_obs m) - TRACKING_LANE_Y), fc_after = nearest,
       fc_gap = hypot (relativeX + QUESTIX_REL_SPEED * nearest) (relativeY + velocity * nearest),
       fc_self_x = tk_x m - QUESTIX_REL_SPEED * nearest,
       fc_other = (ob_x (tk_obs m), TRACKING_LANE_Y + relativeY + velocity * nearest)\<rparr>)"

section \<open>A crossing run\<close>

lemma check_guess_frame [frame_simps]:
  "kt_x (check_guess c t s g) = kt_x s" "kt_v (check_guess c t s g) = kt_v s" "kt_contact (check_guess c t s g) = kt_contact s"
  "kt_samples (check_guess c t s g) = kt_samples s" "kt_obs (check_guess c t s g) = kt_obs s"
  "kt_velocity (check_guess c t s g) = kt_velocity s" "kt_hasVelocity (check_guess c t s g) = kt_hasVelocity s"
  "kt_lastMeasure (check_guess c t s g) = kt_lastMeasure s"
  by (simp_all add: check_guess_def Let_def)

lemma check_guesses_frame [frame_simps]:
  "kt_x (check_guesses c t s) = kt_x s" "kt_v (check_guesses c t s) = kt_v s" "kt_contact (check_guesses c t s) = kt_contact s"
  "kt_samples (check_guesses c t s) = kt_samples s" "kt_obs (check_guesses c t s) = kt_obs s"
  "kt_velocity (check_guesses c t s) = kt_velocity s" "kt_hasVelocity (check_guesses c t s) = kt_hasVelocity s"
  "kt_lastMeasure (check_guesses c t s) = kt_lastMeasure s"
proof -
  have "kt_x (foldl (check_guess c t) u gs) = kt_x u \<and> kt_v (foldl (check_guess c t) u gs) = kt_v u
    \<and> kt_contact (foldl (check_guess c t) u gs) = kt_contact u \<and> kt_samples (foldl (check_guess c t) u gs) = kt_samples u
    \<and> kt_obs (foldl (check_guess c t) u gs) = kt_obs u \<and> kt_velocity (foldl (check_guess c t) u gs) = kt_velocity u
    \<and> kt_hasVelocity (foldl (check_guess c t) u gs) = kt_hasVelocity u
    \<and> kt_lastMeasure (foldl (check_guess c t) u gs) = kt_lastMeasure u" for u gs
    by (induction gs arbitrary: u) (simp_all add: frame_simps)
  then show "kt_x (check_guesses c t s) = kt_x s" "kt_v (check_guesses c t s) = kt_v s" "kt_contact (check_guesses c t s) = kt_contact s"
    "kt_samples (check_guesses c t s) = kt_samples s" "kt_obs (check_guesses c t s) = kt_obs s"
    "kt_velocity (check_guesses c t s) = kt_velocity s" "kt_hasVelocity (check_guesses c t s) = kt_hasVelocity s"
    "kt_lastMeasure (check_guesses c t s) = kt_lastMeasure s"
    by (simp_all add: check_guesses_def)
qed

lemma measure_frame [frame_simps]:
  "kt_x (measure_cart topic c t s) = kt_x s" "kt_v (measure_cart topic c t s) = kt_v s"
  "kt_contact (measure_cart topic c t s) = kt_contact s" "kt_samples (measure_cart topic c t s) = kt_samples s"
  by (simp_all add: measure_cart_def Let_def)

definition crossing_sample_ok :: "tracking_sample \<Rightarrow> bool" where
  "crossing_sample_ok m \<longleftrightarrow> 0 \<le> tk_v m \<and> tk_v m \<le> CROSSING_MAX_SPEED \<and> (tk_status m = TrackContact \<longrightarrow> tk_v m = 0)
     \<and> (tk_status m = TrackArrived \<longrightarrow> tk_x m \<ge> CROSSING_GOAL_X)
     \<and> tk_status m \<notin> {Observing, WaitingMeasurement}"

definition crossing_next :: "tracking_config \<Rightarrow> tracking_sample \<Rightarrow> tracking_sample \<Rightarrow> bool" where
  "crossing_next config a b \<longleftrightarrow> tk_t a < tk_t b \<and> tk_x a \<le> tk_x b \<and> tk_status a \<noteq> TrackContact
     \<and> (tk_status b = TrackContact) = (gap_at config (tk_t b) (tk_x a) \<le> 0)"

definition crossing_inv :: "tracking_config \<Rightarrow> nat \<Rightarrow> tracking_state \<Rightarrow> bool" where
  "crossing_inv config k s \<longleftrightarrow>
     list_all crossing_sample_ok (kt_samples s) \<and> successively (crossing_next config) (kt_samples s)
     \<and> 0 \<le> kt_v s \<and> kt_v s \<le> CROSSING_MAX_SPEED
     \<and> (kt_samples s \<noteq> [] \<longrightarrow> (let m = last (kt_samples s) in
          tk_x m = kt_x s \<and> tk_t m < real k * dt \<and> (tk_status m = TrackContact) = kt_contact s
          \<and> (tk_status m = TrackArrived) = (\<not> kt_contact s \<and> kt_x s \<ge> CROSSING_GOAL_X)))"

lemma crossing_speed: "0 \<le> clamp v 0 CROSSING_MAX_SPEED" "clamp v 0 CROSSING_MAX_SPEED \<le> CROSSING_MAX_SPEED"
  using clamp_bounds [of 0 CROSSING_MAX_SPEED v] by (simp_all add: CROSSING_MAX_SPEED_def)

lemma crossing_step_inv:
  assumes inv: "crossing_inv config k s" and going: "\<not> kt_contact s"
    and step: "tracking_step Crossing config k s = (s', ended)"
  shows "crossing_inv config (Suc k) s' \<and> (\<not> ended \<longrightarrow> \<not> kt_contact s') \<and> kt_samples s' \<noteq> []"
proof -
  let ?t = "real k * dt"
  define s1 where "s1 = check_guesses config ?t (if measures config ?t s then measure_cart Crossing config ?t s else s)"
  define s2 where "s2 = drive_crossing config ?t s1"
  define status where "status = trackingStatus Crossing (kt_contact s2) (kt_x s2 \<ge> CROSSING_GOAL_X) (stopping_at config ?t s1) (kt_hasVelocity s2)"
  define m where "m = tracking_sample_at Crossing config ?t status s2"
  have s1: "kt_x s1 = kt_x s" "kt_v s1 = kt_v s" "kt_contact s1 = kt_contact s" "kt_samples s1 = kt_samples s"
    by (simp_all add: s1_def frame_simps)
  obtain nextV where nextV: "0 \<le> nextV" "nextV \<le> CROSSING_MAX_SPEED" "kt_x s2 = kt_x s + (kt_v s + nextV) * dt / 2"
    "kt_v s2 = (if kt_contact s2 then 0 else nextV)"
    using crossing_speed by (auto simp: s2_def drive_crossing_def Let_def s1)
  have s2: "kt_contact s2 = (gap_at config ?t (kt_x s) \<le> 0)" "kt_samples s2 = kt_samples s"
    using going by (simp_all add: s2_def drive_crossing_def Let_def s1)
  have v: "0 \<le> kt_v s2" "kt_v s2 \<le> CROSSING_MAX_SPEED" using nextV by (auto simp: CROSSING_MAX_SPEED_def)
  have x: "kt_x s \<le> kt_x s2" using nextV inv by (simp add: crossing_inv_def)
  have status: "(status = TrackContact) = kt_contact s2"
    "(status = TrackArrived) = (\<not> kt_contact s2 \<and> kt_x s2 \<ge> CROSSING_GOAL_X)" "status \<notin> {Observing, WaitingMeasurement}"
    by (auto simp: status_def trackingStatus_def)
  have m: "tk_t m = ?t" "tk_x m = kt_x s2" "tk_v m = kt_v s2" "tk_status m = status"
    by (simp_all add: m_def tracking_sample_at_def)
  have s': "kt_samples s' = kt_samples s @ [m]" "kt_x s' = kt_x s2" "kt_v s' = kt_v s2" "kt_contact s' = kt_contact s2"
    "ended = (kt_contact s2 \<or> kt_x s2 \<ge> CROSSING_GOAL_X \<and> kt_v s2 = 0)"
    using step by (auto simp: tracking_step_def Let_def s1_def [symmetric] s2_def [symmetric] status_def [symmetric]
        m_def [symmetric] s2(2))
  have "crossing_sample_ok m"
    using v nextV(4) status by (auto simp: crossing_sample_ok_def m)
  moreover have "kt_samples s \<noteq> [] \<longrightarrow> crossing_next config (last (kt_samples s)) m"
    using inv going x status s2 by (auto simp: crossing_next_def crossing_inv_def Let_def m)
  moreover have "?t < real (Suc k) * dt" by (simp add: dt_def)
  ultimately show ?thesis
    using inv v status s' m by (auto simp: crossing_inv_def Let_def successively_append_iff)
qed

lemma crossing_loop_inv:
  "crossing_inv config k s \<Longrightarrow> \<not> kt_contact s \<Longrightarrow> kt_samples s \<noteq> [] \<or> k < n
     \<Longrightarrow> (\<exists>k'. crossing_inv config k' (tracking_loop Crossing config [k..<n] s))
       \<and> kt_samples (tracking_loop Crossing config [k..<n] s) \<noteq> []"
proof (induction "n - k" arbitrary: k s)
  case 0
  then show ?case by auto
next
  case (Suc d)
  obtain s' ended where step: "tracking_step Crossing config k s = (s', ended)" by fastforce
  have k: "k < n" and d: "d = n - Suc k" using Suc.hyps(2) by simp_all
  note after = crossing_step_inv [OF Suc.prems(1,2) step]
  show ?case
  proof (cases ended)
    case True
    with after k step show ?thesis by (auto simp: upt_conv_Cons)
  next
    case False
    with Suc.hyps(1) [OF d, of s'] after k step show ?thesis by (simp add: upt_conv_Cons)
  qed
qed

text \<open>
  every crossing run, for any rule, interval and horizon: the robot never drives backwards or too
  fast, a contact is recorded exactly when the two robots touch at the moment a pass begins, it ends
  the run with the robot standing, and the run counts as a success exactly when it ends with the
  status "arrived", behind the goal, without any contact.
\<close>

theorem crossing_run_sound:
  "let r = tracking Crossing config in
     list_all crossing_sample_ok (kr_samples r) \<and> successively (crossing_next config) (kr_samples r) \<and>
     kr_success r = (tk_status (last (kr_samples r)) = TrackArrived)"
proof -
  have "crossing_inv config 0 tracking_start" "\<not> kt_contact tracking_start"
    by (simp_all add: crossing_inv_def tracking_start_def CROSSING_MAX_SPEED_def)
  from crossing_loop_inv [OF this, of "CROSSING_STEPS + 1"] show ?thesis
    by (auto simp: tracking_def Let_def crossing_inv_def simp del: upt_Suc)
qed

section \<open>Exact measurements give exact predictions\<close>

definition exact_sample :: "tracking_sample \<Rightarrow> bool" where
  "exact_sample m \<longleftrightarrow>
     tk_velocity m \<in> {None, Some (- CART_SPEED)} \<and> ob_y (tk_obs m) = cartAt (ob_t (tk_obs m)) False
     \<and> (case tk_predicted m of None \<Rightarrow> True | Some p \<Rightarrow> ob_y p = cartAt (ob_t p) False)
     \<and> tk_predictionError m \<in> {None, Some 0}"

definition exact_inv :: "real \<Rightarrow> tracking_state \<Rightarrow> bool" where
  "exact_inv t s \<longleftrightarrow>
     (case kt_lastMeasure s of
        None \<Rightarrow> \<not> kt_hasVelocity s
      | Some l \<Rightarrow> l \<le> t \<and> ob_t (kt_obs s) = l \<and> ob_y (kt_obs s) = cartAt l False)
     \<and> (kt_hasVelocity s \<longrightarrow> kt_velocity s = - CART_SPEED)
     \<and> list_all (\<lambda>g. gu_y g = cartAt (gu_t g) False) (kt_predictions s)
     \<and> kt_lastError s \<in> {None, Some 0} \<and> list_all exact_sample (kt_samples s)"

lemma straight_cart: "cartAt t False = 3.15 - CART_SPEED * t"
  by (simp add: cartAt_def)

lemma measure_exact:
  assumes inv: "exact_inv u s" and u: "u < t" and c: "kc_noise c = 0" "\<not> kc_turn c"
  shows "exact_inv t (measure_cart topic c t s)"
proof -
  have slope: "(cartAt t False - cartAt l False) / (t - l) = - CART_SPEED" if "l < t" for l
    using that by (simp add: straight_cart field_simps)
  have mix: "- CART_SPEED * (1 - p) + - CART_SPEED * p = - CART_SPEED" for p by (simp add: algebra_simps)
  have ahead: "cartAt t False + - CART_SPEED * h = cartAt (t + h) False" for h by (simp add: straight_cart algebra_simps)
  show ?thesis
    using inv u c slope mix ahead
    by (cases "kt_lastMeasure s") (auto simp: exact_inv_def measure_cart_def Let_def)
qed

lemma check_exact: "exact_inv t s \<Longrightarrow> \<not> kc_turn c \<Longrightarrow> exact_inv t (check_guesses c t s)"
proof -
  assume inv: "exact_inv t s" and c: "\<not> kc_turn c"
  have "exact_inv t (foldl (check_guess c t) u gs)"
    if "exact_inv t u" "list_all (\<lambda>g. gu_y g = cartAt (gu_t g) False) gs" for u gs
    using that
  proof (induction gs arbitrary: u)
    case (Cons g gs)
    have "exact_inv t (check_guess c t u g)"
      using Cons.prems c by (auto simp: exact_inv_def check_guess_def Let_def split: option.splits)
    with Cons show ?case by simp
  qed simp
  moreover have "exact_inv t (s\<lparr>kt_predictions := []\<rparr>)" "list_all (\<lambda>g. gu_y g = cartAt (gu_t g) False) (kt_predictions s)"
    using inv by (simp_all add: exact_inv_def split: option.splits)
  ultimately show ?thesis by (simp add: check_guesses_def)
qed

lemma drive_exact: "exact_inv t (drive_crossing c u s) = exact_inv t s"
  by (simp add: exact_inv_def drive_crossing_def Let_def split: option.split)

lemma exact_step:
  assumes inv: "exact_inv u s" and u: "u < real k * dt" and c: "kc_noise c = 0" "\<not> kc_turn c"
    and step: "tracking_step topic c k s = (s', ended)"
  shows "exact_inv (real k * dt) s'"
proof -
  let ?t = "real k * dt"
  define s0 where "s0 = (if measures c ?t s then measure_cart topic c ?t s else s)"
  define s1 where "s1 = check_guesses c ?t s0"
  define s2 where "s2 = (if topic = Crossing then drive_crossing c ?t s1 else s1)"
  have measured: "kt_lastMeasure s0 \<noteq> None"
    by (auto simp: s0_def measures_def measure_cart_def Let_def split: option.splits)
  have "exact_inv ?t s" using inv u by (auto simp: exact_inv_def split: option.splits)
  then have "exact_inv ?t s0" using measure_exact [OF inv u c] by (simp add: s0_def)
  then have "exact_inv ?t s1" unfolding s1_def using c(2) by (rule check_exact)
  then have s2: "exact_inv ?t s2"
    by (simp add: s2_def drive_exact)
  have "kt_lastMeasure s2 = kt_lastMeasure s0"
    by (simp add: s2_def s1_def drive_crossing_def Let_def frame_simps)
  then have obs: "ob_y (kt_obs s2) = cartAt (ob_t (kt_obs s2)) False"
    using s2 measured by (auto simp: exact_inv_def)
  have "cartAt l False + - CART_SPEED * h = cartAt (l + h) False" for l h by (simp add: straight_cart algebra_simps)
  then have "exact_sample (tracking_sample_at topic c ?t status s2)" for status
    using s2 obs by (auto simp: exact_sample_def tracking_sample_at_def exact_inv_def)
  moreover have "\<exists>status es. fst (tracking_step topic c k s)
      = s2\<lparr>kt_events := es, kt_samples := kt_samples s2 @ [tracking_sample_at topic c ?t status s2]\<rparr>"
    unfolding tracking_step_def Let_def s0_def [symmetric] s1_def [symmetric] s2_def [symmetric] fst_conv
    by (intro exI) (rule refl)
  then obtain status es where "s' = s2\<lparr>kt_events := es, kt_samples := kt_samples s2 @ [tracking_sample_at topic c ?t status s2]\<rparr>"
    by (auto simp: step)
  ultimately show ?thesis
    using s2 by (simp add: exact_inv_def split: option.splits)
qed

lemma exact_loop:
  "exact_inv u s \<Longrightarrow> u < real k * dt \<Longrightarrow> kc_noise c = 0 \<Longrightarrow> \<not> kc_turn c
     \<Longrightarrow> \<exists>u'. exact_inv u' (tracking_loop topic c [k..<n] s)"
proof (induction "n - k" arbitrary: k s u)
  case 0
  then show ?case by auto
next
  case (Suc d)
  obtain s' ended where step: "tracking_step topic c k s = (s', ended)" by fastforce
  have k: "k < n" and d: "d = n - Suc k" using Suc.hyps(2) by simp_all
  have "exact_inv (real k * dt) s'" by (rule exact_step [OF Suc.prems step])
  moreover have "real k * dt < real (Suc k) * dt" by (simp add: dt_def)
  ultimately have "\<exists>u'. exact_inv u' (tracking_loop topic c [Suc k..<n] s')"
    using Suc.hyps(1) [OF d] Suc.prems(3,4) by blast
  with \<open>exact_inv (real k * dt) s'\<close> show ?case using k step by (auto simp: upt_conv_Cons)
qed

text \<open>
  without measuring noise and with the other robot keeping its way, every topic's estimates are
  exact from the second measurement on, for any interval, horizon and smoothing: the velocity is the
  true one, every predicted position is where the other robot will be, and every checked prediction
  has the error 0.
\<close>

theorem clean_predictions_exact:
  "list_all exact_sample (kr_samples (tracking topic (config\<lparr>kc_noise := 0, kc_turn := False\<rparr>)))"
proof -
  have "exact_inv (- 1) tracking_start" by (simp add: exact_inv_def tracking_start_def)
  from exact_loop [OF this, where k = 0 and c = "config\<lparr>kc_noise := 0, kc_turn := False\<rparr>"] show ?thesis
    by (auto simp: tracking_def Let_def exact_inv_def simp del: upt_Suc)
qed

end
