(* ===== verification/Arm.thy ===== *)
theory Arm
  imports Js_Math Json
begin

text \<open>
  \<open>lab/js/arm/core.js\<close>: the two-joint teaching arm (forward and inverse kinematics in millimetres and
  degrees, its distance to the post, its eased motion) and the forward kinematics of SO-ARM101 from
  its URDF transforms, with the reading of a \<open>JointState\<close> message. The lemmas show that the inverse
  kinematics is right: every pose it returns brings the tip to the target, and no pose is missed.
\<close>

section \<open>The teaching arm\<close>

record spot =
  sp_x :: real
  sp_z :: real

type_synonym joints = "real \<times> real"

record arm_model =
  am_l1 :: real
  am_l2 :: real
  am_limits :: "(real \<times> real) \<times> (real \<times> real)"
  am_radius :: real

record post =
  po_x :: real
  po_z :: real
  po_r :: real

definition ARM_MODEL :: arm_model where
  "ARM_MODEL = \<lparr>am_l1 = 160, am_l2 = 130, am_limits = ((0, 150), (- 150, 150)), am_radius = 7\<rparr>"

definition ARM_OBSTACLE :: post where
  "ARM_OBSTACLE = \<lparr>po_x = 145, po_z = 55, po_r = 25\<rparr>"

definition REACH_TOLERANCE :: real where "REACH_TOLERANCE = 1 / 10 ^ 7"
definition LIMIT_TOLERANCE :: real where "LIMIT_TOLERANCE = 1 / 10 ^ 7"
definition STRAIGHT_TOLERANCE :: real where "STRAIGHT_TOLERANCE = 1 / 10 ^ 9"
definition SINGULAR_SINE :: real where "SINGULAR_SINE = 0.05"
definition MIN_DURATION :: real where "MIN_DURATION = 1.6"
definition MAX_JOINT_SPEED :: real where "MAX_JOINT_SPEED = 45"
definition SAMPLE_RATE :: real where "SAMPLE_RATE = 60"

definition toRadians :: "real \<Rightarrow> real" where "toRadians degrees = degrees * pi / 180"
definition toDegrees :: "real \<Rightarrow> real" where "toDegrees radians = radians * 180 / pi"

text \<open>The remainder \<open>a % b\<close>, with the sign of \<open>a\<close>.\<close>

definition js_rem :: "real \<Rightarrow> real \<Rightarrow> real" where
  "js_rem a b = a - b * of_int (if 0 \<le> a / b then \<lfloor>a / b\<rfloor> else \<lceil>a / b\<rceil>)"

definition wrap_degrees :: "real \<Rightarrow> real" where
  "wrap_degrees degrees = js_rem (js_rem (degrees + 180) 360 + 360) 360 - 180"

record arm_pose =
  ap_base :: spot
  ap_elbow :: spot
  ap_tip :: spot
  ap_angle :: real

definition armFK :: "joints \<Rightarrow> arm_model \<Rightarrow> arm_pose" where
  "armFK q model =
     (let shoulder = toRadians (fst q); elbowBend = toRadians (snd q);
          elbow = \<lparr>sp_x = am_l1 model * cos shoulder, sp_z = am_l1 model * sin shoulder\<rparr> in
      \<lparr>ap_base = \<lparr>sp_x = 0, sp_z = 0\<rparr>, ap_elbow = elbow,
       ap_tip = \<lparr>sp_x = sp_x elbow + am_l2 model * cos (shoulder + elbowBend),
         sp_z = sp_z elbow + am_l2 model * sin (shoulder + elbowBend)\<rparr>,
       ap_angle = fst q + snd q\<rparr>)"

definition in_limit :: "real \<Rightarrow> real \<times> real \<Rightarrow> bool" where
  "in_limit angle limit \<longleftrightarrow> fst limit - LIMIT_TOLERANCE \<le> angle \<and> angle \<le> snd limit + LIMIT_TOLERANCE"

definition withinLimits :: "joints \<Rightarrow> arm_model \<Rightarrow> bool" where
  "withinLimits q model \<longleftrightarrow> in_limit (fst q) (fst (am_limits model)) \<and> in_limit (snd q) (snd (am_limits model))"

record ik_solution =
  so_q :: joints
  so_allowed :: bool
  so_tip :: spot

definition poseForBend :: "spot \<Rightarrow> real \<Rightarrow> arm_model \<Rightarrow> bool \<Rightarrow> ik_solution" where
  "poseForBend target bend model limited =
     (let shoulder = atan2 (sp_z target) (sp_x target)
            - atan2 (am_l2 model * sin bend) (am_l1 model + am_l2 model * cos bend);
          q = (wrap_degrees (toDegrees shoulder), wrap_degrees (toDegrees bend)) in
      \<lparr>so_q = q, so_allowed = (\<not> limited \<or> withinLimits q model), so_tip = ap_tip (armFK q model)\<rparr>)"

datatype ik_reason = Reached | BeyondLimits | TooFar | TooNear | InvalidTarget

text \<open>The distance and the mark of a nearly straight pose are left out of the answers without one.\<close>

record ik_answer =
  ik_reason :: ik_reason
  ik_solutions :: "ik_solution list"
  ik_r :: "real option"
  ik_singular :: "bool option"

definition bend_cosine :: "arm_model \<Rightarrow> real \<Rightarrow> real" where
  "bend_cosine model distance =
     clamp_low (- 1) 1 ((distance * distance - (am_l1 model)\<^sup>2 - (am_l2 model)\<^sup>2) / (2 * am_l1 model * am_l2 model))"

definition is_straight :: "real \<Rightarrow> bool" where
  "is_straight bend \<longleftrightarrow> bend < STRAIGHT_TOLERANCE \<or> \<bar>bend - pi\<bar> < STRAIGHT_TOLERANCE"

definition armIK :: "num \<Rightarrow> num \<Rightarrow> bool \<Rightarrow> arm_model \<Rightarrow> ik_answer" where
  "armIK tx tz limited model =
     (case (tx, tz) of
        (Some x, Some z) \<Rightarrow>
          let target = \<lparr>sp_x = x, sp_z = z\<rparr>; distance = hypot x z;
              folded = \<bar>am_l1 model - am_l2 model\<bar>; stretched = am_l1 model + am_l2 model in
          if distance > stretched + REACH_TOLERANCE \<or> distance < folded - REACH_TOLERANCE
          then \<lparr>ik_reason = (if distance > stretched then TooFar else TooNear), ik_solutions = [],
            ik_r = Some distance, ik_singular = None\<rparr>
          else
            let bend = arccos (bend_cosine model distance);
                bends = (if is_straight bend then [bend] else [bend, - bend]);
                solutions = map (\<lambda>angle. poseForBend target angle model limited) bends in
            \<lparr>ik_reason = (if list_ex so_allowed solutions then Reached else BeyondLimits),
             ik_solutions = solutions, ik_r = Some distance,
             ik_singular = Some (\<bar>sin bend\<bar> < SINGULAR_SINE)\<rparr>
      | _ \<Rightarrow> \<lparr>ik_reason = InvalidTarget, ik_solutions = [], ik_r = None, ik_singular = None\<rparr>)"

section \<open>Distances and motion\<close>

definition armSegmentDistance :: "spot \<Rightarrow> spot \<Rightarrow> spot \<Rightarrow> real" where
  "armSegmentDistance point a b =
     (let dx = sp_x b - sp_x a; dz = sp_z b - sp_z a; lengthSquared = dx * dx + dz * dz;
          along = (if lengthSquared \<noteq> 0
            then clamp_low 0 1 (((sp_x point - sp_x a) * dx + (sp_z point - sp_z a) * dz) / lengthSquared)
            else 0) in
      hypot (sp_x point - sp_x a - along * dx) (sp_z point - sp_z a - along * dz))"

definition armClearance :: "joints \<Rightarrow> post \<Rightarrow> real" where
  "armClearance q obstacle =
     (let pose = armFK q ARM_MODEL; point = \<lparr>sp_x = po_x obstacle, sp_z = po_z obstacle\<rparr>;
          nearest = min (armSegmentDistance point (ap_base pose) (ap_elbow pose))
            (armSegmentDistance point (ap_elbow pose) (ap_tip pose)) in
      nearest - po_r obstacle - am_radius ARM_MODEL)"

text \<open>A clearance of \<open>None\<close> is the \<open>Infinity\<close> of a motion without a post.\<close>

record arm_sample =
  as_q :: joints
  as_t :: real
  as_pose :: arm_pose
  as_clearance :: "real option"

record trajectory =
  tr_samples :: "arm_sample list"
  tr_collision :: bool
  tr_min_clearance :: "real option"
  tr_duration :: real

definition ease :: "real \<Rightarrow> real" where
  "ease progress = progress * progress * (3 - 2 * progress)"

definition between :: "joints \<Rightarrow> joints \<Rightarrow> real \<Rightarrow> joints" where
  "between a b eased = (fst a + (fst b - fst a) * eased, snd a + (snd b - snd a) * eased)"

definition arm_sample_at :: "joints \<Rightarrow> joints \<Rightarrow> post option \<Rightarrow> real \<Rightarrow> real \<Rightarrow> arm_sample" where
  "arm_sample_at a b obstacle duration progress =
     (let q = between a b (ease progress) in
      \<lparr>as_q = q, as_t = duration * progress, as_pose = armFK q ARM_MODEL,
       as_clearance = map_option (armClearance q) obstacle\<rparr>)"

definition touches :: "arm_sample \<Rightarrow> bool" where
  "touches s \<longleftrightarrow> (case as_clearance s of None \<Rightarrow> False | Some c \<Rightarrow> c \<le> 0)"

text \<open>The samples up to the first that touches the post.\<close>

fun arm_samples :: "(nat \<Rightarrow> arm_sample) \<Rightarrow> nat list \<Rightarrow> arm_sample list" where
  "arm_samples f [] = []"
| "arm_samples f (step # rest) = (if touches (f step) then [f step] else f step # arm_samples f rest)"

definition least :: "real option \<Rightarrow> real option \<Rightarrow> real option" where
  "least a b = (case (a, b) of (Some x, Some y) \<Rightarrow> Some (min x y) | (None, y) \<Rightarrow> y | (x, None) \<Rightarrow> x)"

definition armTrajectory :: "joints \<Rightarrow> joints \<Rightarrow> post option \<Rightarrow> trajectory" where
  "armTrajectory a b obstacle =
     (let turn = max \<bar>fst b - fst a\<bar> \<bar>snd b - snd a\<bar>;
          duration = max MIN_DURATION (turn / MAX_JOINT_SPEED);
          steps = nat \<lceil>duration * SAMPLE_RATE\<rceil>;
          samples = arm_samples (\<lambda>step. arm_sample_at a b obstacle duration (real step / real steps)) [0..<steps + 1] in
      \<lparr>tr_samples = samples, tr_collision = list_ex touches samples,
       tr_min_clearance = foldl least None (map as_clearance samples), tr_duration = as_t (last samples)\<rparr>)"

section \<open>SO-ARM101\<close>

record joint =
  jo_name :: string
  jo_xyz :: "real list"
  jo_rpy :: "real list"
  jo_limit :: "real \<times> real"

definition SO101_JOINTS :: "joint list" where
  "SO101_JOINTS =
     [\<lparr>jo_name = ''shoulder_pan'', jo_xyz = [0.0388353, - (8.97657 / 10 ^ 9), 0.0624], jo_rpy = [pi, 0, - pi],
        jo_limit = (- 1.91986, 1.91986)\<rparr>,
      \<lparr>jo_name = ''shoulder_lift'', jo_xyz = [- 0.0303992, - 0.0182778, - 0.0542], jo_rpy = [- pi / 2, - pi / 2, 0],
        jo_limit = (- 1.74533, 1.74533)\<rparr>,
      \<lparr>jo_name = ''elbow_flex'', jo_xyz = [- 0.11257, - 0.028, 0], jo_rpy = [0, 0, pi / 2],
        jo_limit = (- 1.69, 1.69)\<rparr>,
      \<lparr>jo_name = ''wrist_flex'', jo_xyz = [- 0.1349, 0.0052, 0], jo_rpy = [0, 0, - pi / 2],
        jo_limit = (- 1.65806, 1.65806)\<rparr>,
      \<lparr>jo_name = ''wrist_roll'', jo_xyz = [0, - 0.0611, 0.0181], jo_rpy = [pi / 2, 0.0486795, pi],
        jo_limit = (- 2.74385, 2.84121)\<rparr>]"

definition TIP_XYZ :: "real list" where "TIP_XYZ = [- 0.0079, - 0.000218121, - 0.0981274]"
definition TIP_RPY :: "real list" where "TIP_RPY = [0, pi, 0]"
definition JOINT_LIMIT_TOLERANCE :: real where "JOINT_LIMIT_TOLERANCE = 1 / 10 ^ 6"

text \<open>Row-major 4 by 4 matrices.\<close>

definition multiply :: "real list \<Rightarrow> real list \<Rightarrow> real list" where
  "multiply a b =
     map (\<lambda>cell. let row = cell div 4; column = cell mod 4 in
        foldl (\<lambda>sum' k. sum' + a ! (row * 4 + k) * b ! (k * 4 + column)) 0 [0, 1, 2, 3]) [0..<16]"

definition transform :: "real list \<Rightarrow> real list \<Rightarrow> real list" where
  "transform xyz rpy =
     (let r = rpy ! 0; p = rpy ! 1; y = rpy ! 2; cr = cos r; sr = sin r; cp = cos p; sp = sin p; cy = cos y; sy = sin y in
      [cy * cp, cy * sp * sr - sy * cr, cy * sp * cr + sy * sr, xyz ! 0,
       sy * cp, sy * sp * sr + cy * cr, sy * sp * cr - cy * sr, xyz ! 1,
       - sp, cp * sr, cp * cr, xyz ! 2,
       0, 0, 0, 1])"

definition IDENTITY :: "real list" where "IDENTITY = transform [0, 0, 0] [0, 0, 0]"
definition spin :: "real \<Rightarrow> real list" where "spin radians = transform [0, 0, 0] [0, 0, radians]"

record centre =
  ce_x :: real
  ce_y :: real
  ce_z :: real

definition originOf :: "real list \<Rightarrow> centre" where
  "originOf m = \<lparr>ce_x = m ! 3 * 1000, ce_y = m ! 7 * 1000, ce_z = m ! 11 * 1000\<rparr>"

datatype arm_error = NeedFiveAngles | NotJson | NotAnObject | NeedEqualLists | NeedOneJoint string | NeedNumber
  | OutsideUrdf

record so101_pose =
  sq_points :: "centre list"
  sq_tip :: centre
  sq_matrix :: "real list"

definition so101_step :: "centre list \<times> real list \<Rightarrow> joint \<times> real \<Rightarrow> centre list \<times> real list" where
  "so101_step state j =
     (let m = multiply (multiply (snd state) (transform (jo_xyz (fst j)) (jo_rpy (fst j)))) (spin (toRadians (snd j))) in
      (fst state @ [originOf m], m))"

definition so101FK :: "num list \<Rightarrow> arm_error + so101_pose" where
  "so101FK q =
     (if length q \<noteq> length SO101_JOINTS \<or> list_ex (\<lambda>angle. angle = None) q then Inl NeedFiveAngles
      else
        let (points, m) = foldl so101_step ([\<lparr>ce_x = 0, ce_y = 0, ce_z = 0\<rparr>], IDENTITY)
              (zip SO101_JOINTS (map (\<lambda>angle. coalesce angle 0) q));
            tip = multiply m (transform TIP_XYZ TIP_RPY) in
        Inr \<lparr>sq_points = points @ [originOf tip], sq_tip = originOf tip, sq_matrix = tip\<rparr>)"

text \<open>\<open>JSON.parse\<close> gives the argument; \<open>None\<close> is text that is not JSON.\<close>

definition parseJointStateMessage :: "json option \<Rightarrow> arm_error + json" where
  "parseJointStateMessage parsed = (case parsed of None \<Rightarrow> Inl NotJson | Some m \<Rightarrow> Inr m)"

definition places_of :: "string \<Rightarrow> json list \<Rightarrow> nat list" where
  "places_of name names = filter (\<lambda>i. names ! i = JStr name) [0..<length names]"

definition positionOf :: "json list \<Rightarrow> json list \<Rightarrow> joint \<Rightarrow> arm_error + real" where
  "positionOf names positions j =
     (case places_of (jo_name j) names of
        [i] \<Rightarrow> (case positions ! i of JNum p \<Rightarrow> Inr p | _ \<Rightarrow> Inl NeedNumber)
      | _ \<Rightarrow> Inl (NeedOneJoint (jo_name j)))"

fun joint_angles :: "json list \<Rightarrow> json list \<Rightarrow> joint list \<Rightarrow> arm_error + real list" where
  "joint_angles names positions [] = Inr []"
| "joint_angles names positions (j # js) =
     (case positionOf names positions j of
        Inl e \<Rightarrow> Inl e
      | Inr p \<Rightarrow> map_sum id (\<lambda>ps. toDegrees p # ps) (joint_angles names positions js))"

definition outside_urdf :: "real \<Rightarrow> joint \<Rightarrow> bool" where
  "outside_urdf angle j \<longleftrightarrow>
     toRadians angle < fst (jo_limit j) - JOINT_LIMIT_TOLERANCE
     \<or> toRadians angle > snd (jo_limit j) + JOINT_LIMIT_TOLERANCE"

definition armParseJointState :: "json option \<Rightarrow> arm_error + real list" where
  "armParseJointState parsed =
     (case parseJointStateMessage parsed of
        Inl e \<Rightarrow> Inl e
      | Inr message \<Rightarrow>
          if message = JNull then Inl NotAnObject
          else case (jfield (Some message) ''name'', jfield (Some message) ''position'') of
            (Some (JArr names), Some (JArr positions)) \<Rightarrow>
              if length names \<noteq> length positions then Inl NeedEqualLists
              else (case joint_angles names positions SO101_JOINTS of
                  Inl e \<Rightarrow> Inl e
                | Inr q \<Rightarrow>
                    if list_ex (\<lambda>(angle, j). outside_urdf angle j) (zip q SO101_JOINTS) then Inl OutsideUrdf
                    else Inr q)
          | _ \<Rightarrow> Inl NeedEqualLists)"

section \<open>The inverse kinematics is right\<close>

lemma wrap_degrees_turns: obtains k :: int where "wrap_degrees d = d + 360 * of_int k"
proof -
  have turns: "\<exists>k :: int. js_rem a 360 = a + 360 * of_int k" for a
    by (rule exI [of _ "- (if 0 \<le> a / 360 then \<lfloor>a / 360\<rfloor> else \<lceil>a / 360\<rceil>)"]) (simp add: js_rem_def)
  obtain k l :: int where "js_rem (d + 180) 360 = d + 180 + 360 * of_int k"
    and "js_rem (js_rem (d + 180) 360 + 360) 360 = js_rem (d + 180) 360 + 360 + 360 * of_int l"
    using turns by meson
  then have "wrap_degrees d = d + 360 * of_int (k + l + 1)"
    by (simp add: wrap_degrees_def algebra_simps)
  then show ?thesis by (rule that)
qed

lemma js_rem_bounds:
  assumes "0 < b"
  shows "- b < js_rem a b \<and> js_rem a b < b" and "0 \<le> a \<Longrightarrow> 0 \<le> js_rem a b"
proof -
  have eq: "a = b * (a / b)" using assms by simp
  have scaled: "js_rem a b = b * (a / b - of_int (if 0 \<le> a / b then \<lfloor>a / b\<rfloor> else \<lceil>a / b\<rceil>))"
    using assms by (simp add: js_rem_def right_diff_distrib)
  have frac: "0 \<le> a / b - of_int \<lfloor>a / b\<rfloor>" "a / b - of_int \<lfloor>a / b\<rfloor> < 1"
    "- 1 < a / b - of_int \<lceil>a / b\<rceil>" "a / b - of_int \<lceil>a / b\<rceil> \<le> 0"
    by linarith+
  then have "- 1 < a / b - of_int (if 0 \<le> a / b then \<lfloor>a / b\<rfloor> else \<lceil>a / b\<rceil>)
      \<and> a / b - of_int (if 0 \<le> a / b then \<lfloor>a / b\<rfloor> else \<lceil>a / b\<rceil>) < 1"
    by (cases "0 \<le> a / b") (simp_all, linarith+)
  then have "b * - 1 < js_rem a b \<and> js_rem a b < b * 1"
    unfolding scaled using assms by (intro conjI mult_strict_left_mono) auto
  then show "- b < js_rem a b \<and> js_rem a b < b" by simp
  show "0 \<le> js_rem a b" if "0 \<le> a"
    unfolding scaled using that assms frac by simp
qed

lemma wrap_degrees_bounds: "- 180 \<le> wrap_degrees d \<and> wrap_degrees d < 180"
proof -
  have "0 \<le> js_rem (d + 180) 360 + 360" using js_rem_bounds(1) [of 360 "d + 180"] by simp
  with js_rem_bounds [of 360 "js_rem (d + 180) 360 + 360"] show ?thesis
    by (simp add: wrap_degrees_def)
qed

text \<open>The angle of a joint as the trigonometric functions see it.\<close>

definition joint_radians :: "real \<Rightarrow> real" where
  "joint_radians a = toRadians (wrap_degrees (toDegrees a))"

lemma joint_radians_turns: obtains k :: int where "joint_radians a = a + 2 * pi * of_int k"
proof -
  obtain k :: int where "wrap_degrees (toDegrees a) = toDegrees a + 360 * of_int k" by (rule wrap_degrees_turns)
  then have "joint_radians a = a + 2 * pi * of_int k"
    by (simp add: joint_radians_def toRadians_def toDegrees_def field_simps)
  then show ?thesis by (rule that)
qed

lemma trig_turns [simp]:
  "cos (a + 2 * pi * of_int k) = cos a" "sin (a + 2 * pi * of_int k) = sin a" for k :: int
  by (simp_all add: cos_add sin_add)

lemma trig_joint:
  "cos (joint_radians a) = cos a" "sin (joint_radians a) = sin a"
  "cos (joint_radians a + joint_radians b) = cos (a + b)" "sin (joint_radians a + joint_radians b) = sin (a + b)"
proof -
  obtain k where k: "joint_radians a = a + 2 * pi * of_int k" by (rule joint_radians_turns)
  obtain l where l: "joint_radians b = b + 2 * pi * of_int l" by (rule joint_radians_turns)
  show "cos (joint_radians a) = cos a" "sin (joint_radians a) = sin a" by (simp_all add: k)
  have "joint_radians a + joint_radians b = (a + b) + 2 * pi * of_int (k + l)"
    by (simp add: k l algebra_simps)
  then show "cos (joint_radians a + joint_radians b) = cos (a + b)"
    "sin (joint_radians a + joint_radians b) = sin (a + b)" by (simp_all only: trig_turns)
qed

text \<open>
  The tip of a pose for a bend stands on the ray to the target, at the distance the bend gives.
\<close>

definition bent_reach :: "arm_model \<Rightarrow> real \<Rightarrow> real" where
  "bent_reach model bend = hypot (am_l1 model + am_l2 model * cos bend) (am_l2 model * sin bend)"

lemma turned_tip:
  "l1 * cos (t - f) + l2 * cos (t - f + b) = (l1 + l2 * cos b) * cos (t - f) - l2 * sin b * sin (t - f)"
  "l1 * sin (t - f) + l2 * sin (t - f + b) = (l1 + l2 * cos b) * sin (t - f) + l2 * sin b * cos (t - f)"
  for l1 :: real
  by (simp_all only: cos_add sin_add) (simp_all add: algebra_simps)

lemma turned_ray:
  fixes r :: real
  assumes "u = r * cos f" and "w = r * sin f"
  shows "u * cos (t - f) - w * sin (t - f) = r * cos t" "u * sin (t - f) + w * cos (t - f) = r * sin t"
proof -
  have "r * cos t = r * cos (f + (t - f))" and "r * sin t = r * sin (f + (t - f))" by simp_all
  then show "u * cos (t - f) - w * sin (t - f) = r * cos t" "u * sin (t - f) + w * cos (t - f) = r * sin t"
    unfolding assms by (simp_all only: cos_add sin_add) (simp_all add: algebra_simps)
qed

lemma pose_tip:
  "so_tip (poseForBend target bend model limited) =
     \<lparr>sp_x = bent_reach model bend * cos (atan2 (sp_z target) (sp_x target)),
      sp_z = bent_reach model bend * sin (atan2 (sp_z target) (sp_x target))\<rparr>"
proof -
  define u where "u = am_l1 model + am_l2 model * cos bend"
  define w where "w = am_l2 model * sin bend"
  define t where "t = atan2 (sp_z target) (sp_x target)"
  have "u = bent_reach model bend * cos (atan2 w u)" "w = bent_reach model bend * sin (atan2 w u)"
    by (simp_all add: bent_reach_def polar u_def [symmetric] w_def [symmetric])
  note turned_ray [OF this, of t]
  then show ?thesis
    by (simp add: poseForBend_def armFK_def Let_def trig_joint joint_radians_def [symmetric]
        u_def [symmetric] w_def [symmetric] t_def [symmetric])
      (simp add: turned_tip u_def [symmetric] w_def [symmetric])
qed

lemma bent_reach_sq:
  "bent_reach model bend * bent_reach model bend
     = am_l1 model * am_l1 model + am_l2 model * am_l2 model + 2 * am_l1 model * am_l2 model * cos bend"
proof -
  have "am_l2 model * sin bend * (am_l2 model * sin bend) = am_l2 model * am_l2 model * (1 - cos bend * cos bend)"
    using sin_squared_eq [of bend] by (simp add: power2_eq_square)
  then show ?thesis by (simp add: bent_reach_def algebra_simps)
qed

definition arm_lengths :: "arm_model \<Rightarrow> bool" where
  "arm_lengths model \<longleftrightarrow> 0 < am_l1 model \<and> 0 < am_l2 model"

lemma arm_model_lengths [simp]: "arm_lengths ARM_MODEL"
  by (simp add: arm_lengths_def ARM_MODEL_def)

lemma bend_cosine_bounds: "- 1 \<le> bend_cosine model d" "bend_cosine model d \<le> 1"
  using clamp_low_bounds [of "- 1" "1 :: real"] by (simp_all add: bend_cosine_def)

lemma bend_reach_close:
  assumes lengths: "arm_lengths model" and d: "0 \<le> d"
    and near: "\<bar>am_l1 model - am_l2 model\<bar> - REACH_TOLERANCE \<le> d"
    and far: "d \<le> am_l1 model + am_l2 model + REACH_TOLERANCE"
    and b: "cos bend = bend_cosine model d"
  shows "\<bar>bent_reach model bend - d\<bar> \<le> REACH_TOLERANCE"
proof -
  let ?l = "am_l1 model" and ?m = "am_l2 model" and ?r = "bent_reach model bend"
  have pos: "0 < ?l" "0 < ?m" using lengths by (simp_all add: arm_lengths_def)
  have r: "0 \<le> ?r" by (simp add: bent_reach_def)
  have tol: "0 < REACH_TOLERANCE" by (simp add: REACH_TOLERANCE_def)
  define c where "c = (d * d - ?l\<^sup>2 - ?m\<^sup>2) / (2 * ?l * ?m)"
  have cd: "2 * ?l * ?m * c = d * d - ?l * ?l - ?m * ?m"
    using pos by (simp add: c_def power2_eq_square)
  have cos: "cos bend = clamp_low (- 1) 1 c" by (simp add: b bend_cosine_def c_def)
  consider "c < - 1" | "- 1 \<le> c" "c \<le> 1" | "1 < c" by linarith
  then show ?thesis
  proof cases
    case 1
    then have "?r * ?r = (?l - ?m) * (?l - ?m)"
      using bent_reach_sq [of model bend] by (simp add: cos clamp_low_def algebra_simps)
    then have "?r = \<bar>?l - ?m\<bar>" using r by (metis abs_of_nonneg abs_mult_self_eq power2_eq_square power2_eq_iff_nonneg abs_ge_zero)
    moreover have "d * d \<le> ?r * ?r"
    proof -
      have "2 * ?l * ?m * c \<le> 2 * ?l * ?m * - 1" using 1 pos by (intro mult_left_mono) auto
      then show ?thesis using cd \<open>?r * ?r = (?l - ?m) * (?l - ?m)\<close> by (simp add: algebra_simps)
    qed
    then have "d \<le> ?r" using r d by (metis power2_eq_square power2_le_imp_le)
    ultimately show ?thesis using near tol by linarith
  next
    case 2
    then have "?r * ?r = d * d"
      using bent_reach_sq [of model bend] cd by (simp add: cos clamp_low_id mult.assoc)
    then have "?r = d" using r d by (metis power2_eq_square power2_eq_iff_nonneg)
    then show ?thesis using tol by simp
  next
    case 3
    then have "?r * ?r = (?l + ?m) * (?l + ?m)"
      using bent_reach_sq [of model bend] by (simp add: cos clamp_low_def algebra_simps)
    then have "?r = ?l + ?m" using r pos by (metis add_nonneg_nonneg less_imp_le power2_eq_square power2_eq_iff_nonneg)
    moreover have "?r * ?r \<le> d * d"
    proof -
      have "2 * ?l * ?m * 1 \<le> 2 * ?l * ?m * c" using 3 pos by (intro mult_left_mono) auto
      then show ?thesis using cd \<open>?r * ?r = (?l + ?m) * (?l + ?m)\<close> by (simp add: algebra_simps)
    qed
    then have "?r \<le> d" using d by (metis power2_eq_square power2_le_imp_le)
    ultimately show ?thesis using far tol by linarith
  qed
qed

text \<open>How far the tip of a pose is from a target.\<close>

definition tip_gap :: "joints \<Rightarrow> spot \<Rightarrow> arm_model \<Rightarrow> real" where
  "tip_gap q target model =
     (let tip = ap_tip (armFK q model) in hypot (sp_x tip - sp_x target) (sp_z tip - sp_z target))"

lemma hypot_ray: "hypot (a * cos t) (a * sin t) = \<bar>a\<bar>"
proof -
  have "a * cos t * (a * cos t) + a * sin t * (a * sin t) = a * a * (cos t * cos t + sin t * sin t)"
    by (simp add: algebra_simps del: sin_cos_squared_add3)
  also have "\<dots> = a * a" by (simp only: sin_cos_squared_add3 mult_1_right)
  finally show ?thesis by (simp add: hypot_def)
qed

lemma pose_gap:
  "tip_gap (so_q (poseForBend target bend model limited)) target model
     = \<bar>bent_reach model bend - hypot (sp_x target) (sp_z target)\<bar>"
proof -
  let ?t = "atan2 (sp_z target) (sp_x target)" and ?d = "hypot (sp_x target) (sp_z target)"
  have tip: "ap_tip (armFK (so_q (poseForBend target bend model limited)) model) = so_tip (poseForBend target bend model limited)"
    by (simp add: poseForBend_def Let_def)
  have x: "bent_reach model bend * cos ?t - sp_x target = (bent_reach model bend - ?d) * cos ?t"
    and z: "bent_reach model bend * sin ?t - sp_z target = (bent_reach model bend - ?d) * sin ?t"
    using polar [of "sp_x target" "sp_z target"] by (simp_all add: left_diff_distrib)
  have "tip_gap (so_q (poseForBend target bend model limited)) target model
      = hypot (bent_reach model bend * cos ?t - sp_x target) (bent_reach model bend * sin ?t - sp_z target)"
    unfolding tip_gap_def Let_def tip pose_tip by simp
  also have "\<dots> = \<bar>bent_reach model bend - ?d\<bar>" unfolding x z by (rule hypot_ray)
  finally show ?thesis .
qed

definition sound_solution :: "spot \<Rightarrow> bool \<Rightarrow> arm_model \<Rightarrow> ik_solution \<Rightarrow> bool" where
  "sound_solution target limited model s \<longleftrightarrow>
     tip_gap (so_q s) target model \<le> REACH_TOLERANCE \<and> so_tip s = ap_tip (armFK (so_q s) model)
     \<and> - 180 \<le> fst (so_q s) \<and> fst (so_q s) < 180 \<and> - 180 \<le> snd (so_q s) \<and> snd (so_q s) < 180
     \<and> so_allowed s = (if limited then withinLimits (so_q s) model else True)"

lemma pose_sound:
  assumes lengths: "arm_lengths model"
    and near: "\<bar>am_l1 model - am_l2 model\<bar> - REACH_TOLERANCE \<le> hypot (sp_x target) (sp_z target)"
    and far: "hypot (sp_x target) (sp_z target) \<le> am_l1 model + am_l2 model + REACH_TOLERANCE"
    and b: "cos bend = bend_cosine model (hypot (sp_x target) (sp_z target))"
  shows "sound_solution target limited model (poseForBend target bend model limited)"
proof -
  have "tip_gap (so_q (poseForBend target bend model limited)) target model \<le> REACH_TOLERANCE"
    unfolding pose_gap by (rule bend_reach_close [OF lengths _ near far b]) simp
  moreover have "- 180 \<le> fst (so_q (poseForBend target bend model limited))"
    "fst (so_q (poseForBend target bend model limited)) < 180"
    "- 180 \<le> snd (so_q (poseForBend target bend model limited))"
    "snd (so_q (poseForBend target bend model limited)) < 180"
    using wrap_degrees_bounds by (simp_all add: poseForBend_def Let_def)
  ultimately show ?thesis
    by (simp add: sound_solution_def) (simp add: poseForBend_def Let_def)
qed

lemma cos_bend [simp]: "cos (arccos (bend_cosine model d)) = bend_cosine model d"
  by (simp add: bend_cosine_bounds)

text \<open>
  C21: the inverse kinematics of the teaching arm. Every pose it returns brings the tip to the target
  (within 1e-7 mm, exactly when the target is at a distance the bars allow), with both angles in
  [-180, 180) and marked as allowed exactly when the limits permit it; there is no pose exactly when
  the target is farther than 290 mm or nearer than 30 mm (up to 1e-7 mm), and the answer is "reached"
  exactly when a pose is allowed.
\<close>

theorem arm_ik_reaches:
  "let answer = armIK (Some x) (Some z) limited ARM_MODEL; d = hypot x z in
     list_all (sound_solution \<lparr>sp_x = x, sp_z = z\<rparr> limited ARM_MODEL) (ik_solutions answer) \<and>
     (ik_solutions answer = []) = (d > 290 + REACH_TOLERANCE \<or> d < 30 - REACH_TOLERANCE) \<and>
     (ik_reason answer = Reached) = list_ex so_allowed (ik_solutions answer)"
proof -
  let ?d = "hypot x z" and ?target = "\<lparr>sp_x = x, sp_z = z\<rparr>"
  have lengths: "am_l1 ARM_MODEL = 160" "am_l2 ARM_MODEL = 130" by (simp_all add: ARM_MODEL_def)
  show ?thesis
  proof (cases "?d > 290 + REACH_TOLERANCE \<or> ?d < 30 - REACH_TOLERANCE")
    case True
    then show ?thesis by (simp add: armIK_def Let_def lengths)
  next
    case False
    then have sound: "sound_solution ?target limited ARM_MODEL (poseForBend ?target b ARM_MODEL limited)"
      if "cos b = bend_cosine ARM_MODEL ?d" for b
      using that by (intro pose_sound) (simp_all add: lengths)
    from False show ?thesis
      by (simp add: armIK_def Let_def lengths sound)
  qed
qed

lemma wrap_degrees_unique:
  assumes "- 180 \<le> b" "b < 180" "b = a + 360 * of_int k"
  shows "wrap_degrees a = b"
proof -
  obtain n :: int where n: "wrap_degrees a = a + 360 * of_int n" by (rule wrap_degrees_turns)
  have "b - wrap_degrees a = 360 * of_int (k - n)" using assms(3) n by (simp add: algebra_simps)
  moreover have "\<bar>b - wrap_degrees a\<bar> < 360" using assms(1,2) wrap_degrees_bounds [of a] by linarith
  ultimately have "360 * \<bar>of_int (k - n)\<bar> < (360 :: real)" by (simp only: abs_mult abs_numeral)
  then have "k = n" by simp
  with n assms(3) show ?thesis by simp
qed

lemma same_direction:
  assumes "cos a = cos b" and "sin a = sin b"
  shows "wrap_degrees (toDegrees a) = wrap_degrees (toDegrees b)"
proof -
  obtain n :: int where "a = b + 2 * pi * of_int n" using assms sin_cos_eq_iff [of a b] by metis
  then have a: "toDegrees a = toDegrees b + 360 * of_int n" by (simp add: toDegrees_def field_simps)
  obtain k :: int where k: "wrap_degrees (toDegrees a) = toDegrees a + 360 * of_int k" by (rule wrap_degrees_turns)
  have "wrap_degrees (toDegrees a) = toDegrees b + 360 * of_int (n + k)" using k by (simp add: a algebra_simps)
  with wrap_degrees_unique [of "wrap_degrees (toDegrees a)" "toDegrees b" "n + k"] wrap_degrees_bounds [of "toDegrees a"]
  show ?thesis by simp
qed

lemma toDegrees_toRadians [simp]: "toDegrees (toRadians a) = a"
  by (simp add: toDegrees_def toRadians_def)

lemma fk_polar:
  assumes "f = atan2 (am_l2 model * sin (toRadians (snd q))) (am_l1 model + am_l2 model * cos (toRadians (snd q)))"
  shows "sp_x (ap_tip (armFK q model)) = bent_reach model (toRadians (snd q)) * cos (toRadians (fst q) + f)"
    "sp_z (ap_tip (armFK q model)) = bent_reach model (toRadians (snd q)) * sin (toRadians (fst q) + f)"
proof -
  define u where "u = am_l1 model + am_l2 model * cos (toRadians (snd q))"
  define w where "w = am_l2 model * sin (toRadians (snd q))"
  let ?s = "toRadians (fst q)"
  have u: "u = bent_reach model (toRadians (snd q)) * cos f" and w: "w = bent_reach model (toRadians (snd q)) * sin f"
    by (simp_all add: assms bent_reach_def polar u_def [symmetric] w_def [symmetric])
  from turned_ray [OF u w, of "?s + f"] turned_tip [of "am_l1 model" "?s + f" f "am_l2 model" "toRadians (snd q)"]
  show "sp_x (ap_tip (armFK q model)) = bent_reach model (toRadians (snd q)) * cos (?s + f)"
    "sp_z (ap_tip (armFK q model)) = bent_reach model (toRadians (snd q)) * sin (?s + f)"
    by (simp_all add: armFK_def Let_def u_def w_def)
qed

lemma pose_of_bend:
  assumes reach: "0 < bent_reach model (toRadians (snd q))"
    and bend: "cos b = cos (toRadians (snd q))" "sin b = sin (toRadians (snd q))"
  shows "so_q (poseForBend (ap_tip (armFK q model)) b model limited) = (wrap_degrees (fst q), wrap_degrees (snd q))"
proof -
  define f where "f = atan2 (am_l2 model * sin b) (am_l1 model + am_l2 model * cos b)"
  define s where "s = atan2 (sp_z (ap_tip (armFK q model))) (sp_x (ap_tip (armFK q model))) - f"
  have "f = atan2 (am_l2 model * sin (toRadians (snd q))) (am_l1 model + am_l2 model * cos (toRadians (snd q)))"
    by (simp add: f_def bend)
  note tip = fk_polar [OF this]
  have s: "s = wrap_angle (toRadians (fst q) + f) - f"
    unfolding s_def tip atan2_scale [OF reach] by (simp add: wrap_angle_def)
  have "cos s = cos (toRadians (fst q) + f - f)" "sin s = sin (toRadians (fst q) + f - f)"
    unfolding s by (simp_all only: cos_diff sin_diff cos_wrap_angle sin_wrap_angle)
  then have "wrap_degrees (toDegrees s) = wrap_degrees (fst q)"
    using same_direction [of s "toRadians (fst q)"] by simp
  moreover have "wrap_degrees (toDegrees b) = wrap_degrees (snd q)"
    using same_direction [OF bend] by simp
  ultimately show ?thesis
    by (simp add: poseForBend_def Let_def f_def [symmetric] s_def [symmetric])
qed

lemma reach_band:
  "30 \<le> bent_reach ARM_MODEL b" "bent_reach ARM_MODEL b \<le> 290"
  "bend_cosine ARM_MODEL (bent_reach ARM_MODEL b) = cos b"
proof -
  have sq: "bent_reach ARM_MODEL b * bent_reach ARM_MODEL b = 42500 + 41600 * cos b"
    by (simp add: bent_reach_sq) (simp add: ARM_MODEL_def)
  have "30 * 30 \<le> bent_reach ARM_MODEL b * bent_reach ARM_MODEL b"
    "bent_reach ARM_MODEL b * bent_reach ARM_MODEL b \<le> 290 * 290"
    unfolding sq using cos_ge_minus_one [of b] cos_le_one [of b] by linarith+
  then show "30 \<le> bent_reach ARM_MODEL b" "bent_reach ARM_MODEL b \<le> 290"
    by (metis bent_reach_def hypot_nonneg power2_eq_square power2_le_imp_le zero_le_numeral)+
  show "bend_cosine ARM_MODEL (bent_reach ARM_MODEL b) = cos b"
    by (simp add: bend_cosine_def sq) (simp add: ARM_MODEL_def clamp_low_id)
qed

text \<open>
  C22: no pose is missed: asked for the place where the tip is in any pose of the arm (any two angles),
  the inverse kinematics lists that pose, its angles written in [-180, 180), among two; only where the
  bars form a straight line (within 1e-9 rad) it gives the single answer in which both poses meet.
\<close>

theorem arm_ik_complete:
  "let tip = ap_tip (armFK q ARM_MODEL);
       solutions = ik_solutions (armIK (Some (sp_x tip)) (Some (sp_z tip)) limited ARM_MODEL) in
     if is_straight (arccos (cos (toRadians (snd q)))) then length solutions = 1
     else length solutions = 2
       \<and> list_ex (\<lambda>s. so_q s = (wrap_degrees (fst q), wrap_degrees (snd q))) solutions"
proof -
  let ?b = "toRadians (snd q)" and ?tip = "ap_tip (armFK q ARM_MODEL)"
  let ?bend = "arccos (cos ?b)" and ?d = "hypot (sp_x ?tip) (sp_z ?tip)"
  have pos: "0 < bent_reach ARM_MODEL ?b" using reach_band(1) [of ?b] by linarith
  have d: "?d = bent_reach ARM_MODEL ?b"
    using pos by (simp add: fk_polar [OF refl] hypot_ray)
  have tol: "0 < REACH_TOLERANCE" by (simp add: REACH_TOLERANCE_def)
  have model: "am_l1 ARM_MODEL = 160" "am_l2 ARM_MODEL = 130" by (simp_all add: ARM_MODEL_def)
  have tip: "\<lparr>sp_x = sp_x ?tip, sp_z = sp_z ?tip\<rparr> = ?tip" by simp
  have sols: "ik_solutions (armIK (Some (sp_x ?tip)) (Some (sp_z ?tip)) limited ARM_MODEL)
      = map (\<lambda>a. poseForBend ?tip a ARM_MODEL limited) (if is_straight ?bend then [?bend] else [?bend, - ?bend])"
    using reach_band [of ?b] tol by (simp add: armIK_def Let_def d tip model)
  have "cos ?bend = cos ?b" by simp
  moreover have "sin ?bend = sin ?b \<or> sin (- ?bend) = sin ?b"
  proof -
    have "(sin ?bend)\<^sup>2 = (sin ?b)\<^sup>2" by (simp add: sin_squared_eq)
    then show ?thesis by (auto simp: power2_eq_iff)
  qed
  ultimately show ?thesis
    unfolding Let_def sols using pose_of_bend [OF pos, of ?bend limited] pose_of_bend [OF pos, of "- ?bend" limited]
    by auto
qed

section \<open>Motion and the real arm\<close>

lemma arm_samples_nonempty [simp]: "arm_samples f ks = [] \<longleftrightarrow> ks = []"
  by (cases ks) auto

lemma arm_samples_touch:
  "list_all (\<lambda>s. \<not> touches s) (butlast (arm_samples f ks))"
  "ks \<noteq> [] \<Longrightarrow> list_ex touches (arm_samples f ks) = touches (last (arm_samples f ks))"
proof -
  show "list_all (\<lambda>s. \<not> touches s) (butlast (arm_samples f ks))" by (induction ks) auto
  show "ks \<noteq> [] \<Longrightarrow> list_ex touches (arm_samples f ks) = touches (last (arm_samples f ks))"
  proof (induction ks)
    case (Cons k ks)
    then show ?case by (cases "ks = []") auto
  qed simp
qed

lemma arm_samples_all: "\<not> list_ex touches (arm_samples f ks) \<Longrightarrow> arm_samples f ks = map f ks"
  by (induction ks) auto

text \<open>A motion stops at the first sample that touches the post; one that does not ends in its goal.\<close>

lemma trajectory_stops:
  "list_all (\<lambda>s. \<not> touches s) (butlast (tr_samples (armTrajectory a b obstacle)))"
  "tr_collision (armTrajectory a b obstacle) \<longleftrightarrow> touches (last (tr_samples (armTrajectory a b obstacle)))"
  by (simp_all add: armTrajectory_def Let_def arm_samples_touch del: upt_Suc)

lemma trajectory_arrives:
  assumes "\<not> tr_collision (armTrajectory a b obstacle)"
  shows "as_q (last (tr_samples (armTrajectory a b obstacle))) = b"
proof -
  define duration where "duration = max MIN_DURATION (max \<bar>fst b - fst a\<bar> \<bar>snd b - snd a\<bar> / MAX_JOINT_SPEED)"
  define steps where "steps = nat \<lceil>duration * SAMPLE_RATE\<rceil>"
  define f where "f = (\<lambda>step. arm_sample_at a b obstacle duration (real step / real steps))"
  have tr: "tr_samples (armTrajectory a b obstacle) = arm_samples f [0..<steps + 1]"
    "tr_collision (armTrajectory a b obstacle) = list_ex touches (arm_samples f [0..<steps + 1])"
    by (simp_all add: armTrajectory_def Let_def f_def steps_def duration_def del: upt_Suc)
  have "0 < duration * SAMPLE_RATE" by (simp add: duration_def MIN_DURATION_def SAMPLE_RATE_def less_max_iff_disj)
  then have steps: "0 < steps" by (simp add: steps_def)
  have "tr_samples (armTrajectory a b obstacle) = map f [0..<steps + 1]"
    using assms unfolding tr by (rule arm_samples_all)
  then have "last (tr_samples (armTrajectory a b obstacle)) = f steps" by simp
  then show ?thesis
    using steps by (simp add: f_def arm_sample_at_def between_def ease_def Let_def)
qed

lemma joint_angles_length: "joint_angles names positions js = Inr q \<Longrightarrow> length q = length js"
  by (induction js arbitrary: q) (auto split: sum.splits simp: map_sum_def)

text \<open>A \<open>JointState\<close> that is accepted has the five joints within their URDF limits, in their order.\<close>

lemma joint_state_within_limits:
  "armParseJointState parsed = Inr q \<Longrightarrow> list_all2 (\<lambda>angle j. \<not> outside_urdf angle j) q SO101_JOINTS"
  by (auto simp: armParseJointState_def list_all2_iff list_ex_iff dest: joint_angles_length
      split: sum.splits if_splits option.splits json.splits)

lemma joint_state_shown:
  assumes "armParseJointState parsed = Inr q"
  shows "\<exists>pose. so101FK (map Some q) = Inr pose"
proof -
  have "length q = length SO101_JOINTS"
    using joint_state_within_limits [OF assms] by (rule list_all2_lengthD)
  then show ?thesis by (simp add: so101FK_def list_ex_iff Let_def split: prod.split)
qed

end
