(* ===== verification/Systems_Coordination.thy ===== *)
theory Systems_Coordination
  imports Systems_Base Arm
begin

text \<open>
  The camera frames and the \<open>coordination\<close> experiments of \<open>lab/js/systems/core.js\<close>: a point seen by the
  camera is expressed from the arm's shoulder, the mounting of the camera is fitted to measured markers,
  and the arm follows the estimated target. The main lemma shows that the fit recovers the mounting of
  any camera from what that camera measures, and refuses markers that cannot determine it.
\<close>

section \<open>Camera and arm frames\<close>

record camera =
  cm_x :: real
  cm_z :: real
  cm_angle :: real

definition FITTED_CAMERA :: camera where
  "FITTED_CAMERA = \<lparr>cm_x = 40, cm_z = 30, cm_angle = 10\<rparr>"

definition CALIBRATION_MARKERS :: "spot list" where
  "CALIBRATION_MARKERS = [\<lparr>sp_x = 140, sp_z = 80\<rparr>, \<lparr>sp_x = 210, sp_z = 130\<rparr>, \<lparr>sp_x = 130, sp_z = 180\<rparr>]"

definition cameraToBody :: "spot \<Rightarrow> camera \<Rightarrow> spot" where
  "cameraToBody p c =
     (let angle = rad (cm_angle c) in
      \<lparr>sp_x = cm_x c + sp_x p * cos angle - sp_z p * sin angle,
       sp_z = cm_z c + sp_x p * sin angle + sp_z p * cos angle\<rparr>)"

definition bodyToCamera :: "spot \<Rightarrow> camera \<Rightarrow> spot" where
  "bodyToCamera p c =
     (let angle = rad (cm_angle c); x = sp_x p - cm_x c; z = sp_z p - cm_z c in
      \<lparr>sp_x = x * cos angle + z * sin angle, sp_z = - x * sin angle + z * cos angle\<rparr>)"

text \<open>A pair of measurements; a coordinate that is not finite is \<open>None\<close>.\<close>

record marker_pair =
  mp_camera_x :: num
  mp_camera_z :: num
  mp_body_x :: num
  mp_body_z :: num

definition pair_of :: "spot \<Rightarrow> camera \<Rightarrow> marker_pair" where
  "pair_of body c =
     \<lparr>mp_camera_x = Some (sp_x (bodyToCamera body c)), mp_camera_z = Some (sp_z (bodyToCamera body c)),
      mp_body_x = Some (sp_x body), mp_body_z = Some (sp_z body)\<rparr>"

definition calibrationPairs :: "marker_pair list" where
  "calibrationPairs = map (\<lambda>body. pair_of body FITTED_CAMERA) CALIBRATION_MARKERS"

definition MIN_MARKER_SPREAD :: real where "MIN_MARKER_SPREAD = 1 / 10 ^ 9"

record camera_fit =
  cf_camera :: camera
  cf_error :: real

definition finite_pair :: "marker_pair \<Rightarrow> (spot \<times> spot) option" where
  "finite_pair p =
     (case (mp_camera_x p, mp_camera_z p, mp_body_x p, mp_body_z p) of
        (Some cx, Some cz, Some bx, Some bz) \<Rightarrow> Some (\<lparr>sp_x = cx, sp_z = cz\<rparr>, \<lparr>sp_x = bx, sp_z = bz\<rparr>)
      | _ \<Rightarrow> None)"

definition centre_of :: "spot list \<Rightarrow> spot" where
  "centre_of ps = \<lparr>sp_x = mean (map sp_x ps), sp_z = mean (map sp_z ps)\<rparr>"

definition minus_spot :: "spot \<Rightarrow> spot \<Rightarrow> spot" where
  "minus_spot a b = \<lparr>sp_x = sp_x a - sp_x b, sp_z = sp_z a - sp_z b\<rparr>"

text \<open>The sums of the loop over the pairs, taken from the centres.\<close>

definition add_pair :: "spot \<Rightarrow> spot \<Rightarrow> real \<times> real \<times> real \<Rightarrow> spot \<times> spot \<Rightarrow> real \<times> real \<times> real" where
  "add_pair cameraCentre bodyCentre acc p =
     (let (dot, cross, spread) = acc; c = minus_spot (fst p) cameraCentre; b = minus_spot (snd p) bodyCentre in
      (dot + (sp_x c * sp_x b + sp_z c * sp_z b), cross + (sp_x c * sp_z b - sp_z c * sp_x b),
       spread + (sp_x c * sp_x c + sp_z c * sp_z c)))"

definition fit_error :: "camera \<Rightarrow> (spot \<times> spot) list \<Rightarrow> real" where
  "fit_error c pairs =
     sqrt (mean (map (\<lambda>p. let placed = cameraToBody (fst p) c in
       (sp_x placed - sp_x (snd p))\<^sup>2 + (sp_z placed - sp_z (snd p))\<^sup>2) pairs))"

definition fitCameraTransform :: "marker_pair list \<Rightarrow> systems_error + camera_fit" where
  "fitCameraTransform measured =
     (let pairs = List.map_filter finite_pair measured in
      if length measured < 2 \<or> list_ex (\<lambda>p. finite_pair p = None) measured then Inl NeedTwoPairs
      else
        let cameraCentre = centre_of (map fst pairs); bodyCentre = centre_of (map snd pairs);
            (dot, cross, spread) = foldl (add_pair cameraCentre bodyCentre) (0, 0, 0) pairs in
        if spread < MIN_MARKER_SPREAD \<or> hypot dot cross < MIN_MARKER_SPREAD then Inl SpreadMarkers
        else
          let angle = atan2 cross dot;
              c = \<lparr>cm_x = sp_x bodyCentre - sp_x cameraCentre * cos angle + sp_z cameraCentre * sin angle,
                cm_z = sp_z bodyCentre - sp_x cameraCentre * sin angle - sp_z cameraCentre * cos angle,
                cm_angle = angle * 180 / pi\<rparr> in
          Inr \<lparr>cf_camera = c, cf_error = fit_error c pairs\<rparr>)"

section \<open>The arm follows the estimate\<close>

definition COORDINATION_STEPS :: nat where "COORDINATION_STEPS = 120"
definition START_ANGLES :: joints where "START_ANGLES = (100, - 100)"
definition JOINT_RATE :: real where "JOINT_RATE = 45"
definition REACHED_WITHIN :: real where "REACHED_WITHIN = 8"
definition FIRST_TARGET :: spot where "FIRST_TARGET = \<lparr>sp_x = 185, sp_z = 145\<rparr>"
definition MOVED_TARGET :: spot where "MOVED_TARGET = \<lparr>sp_x = 220, sp_z = 105\<rparr>"
definition TARGET_MOVES_AT :: real where "TARGET_MOVES_AT = 2"

datatype coordination_topic = Frames | Calibrate | Feedback

record coordination_config =
  oc_transform :: bool
  oc_camera :: camera
  oc_repeat :: bool
  oc_interval :: real

definition coordination_config_of :: "config \<Rightarrow> coordination_config" where
  "coordination_config_of config =
     \<lparr>oc_transform = checked config ''transform'',
      oc_camera = \<lparr>cm_x = coalesce (number_of config ''cameraX'') 0, cm_z = coalesce (number_of config ''cameraZ'') 0,
        cm_angle = coalesce (number_of config ''cameraAngle'') 0\<rparr>,
      oc_repeat = selected config ''lookAgain'' ''repeat'', oc_interval = coalesce (number_of config ''interval'') 0\<rparr>"

definition joint_distance :: "joints \<Rightarrow> joints \<Rightarrow> real" where
  "joint_distance q angles = (fst q - fst angles)\<^sup>2 + (snd q - snd angles)\<^sup>2"

definition nearestSolution :: "spot \<Rightarrow> joints \<Rightarrow> ik_solution list" where
  "nearestSolution estimate angles =
     sort_key (\<lambda>s. joint_distance (so_q s) angles)
       (filter so_allowed (ik_solutions (armIK (Some (sp_x estimate)) (Some (sp_z estimate)) True ARM_MODEL)))"

datatype coordination_status = Approaching | Unreachable
datatype coordination_event = TargetMove real | LookedAgain real

record coordination_sample =
  co_t :: real
  co_q :: joints
  co_pose :: arm_pose
  co_target :: spot
  co_estimate :: spot
  co_reading :: spot
  co_error :: real
  co_lastLook :: real
  co_status :: coordination_status

record coordination_state =
  cs_angles :: joints
  cs_estimate :: "(spot \<times> real) option"
  cs_samples :: "coordination_sample list"
  cs_events :: "coordination_event list"

definition coordination_start :: coordination_state where
  "coordination_start = \<lparr>cs_angles = START_ANGLES, cs_estimate = None, cs_samples = [], cs_events = []\<rparr>"

definition target_at :: "coordination_topic \<Rightarrow> real \<Rightarrow> spot" where
  "target_at topic t = (if topic = Feedback \<and> t \<ge> TARGET_MOVES_AT then MOVED_TARGET else FIRST_TARGET)"

definition estimate_of :: "coordination_topic \<Rightarrow> coordination_config \<Rightarrow> spot \<Rightarrow> spot" where
  "estimate_of topic config seen =
     (if topic = Frames \<and> \<not> oc_transform config then seen
      else cameraToBody seen (if topic = Feedback then FITTED_CAMERA else oc_camera config))"

text \<open>The estimate in use with the time of its look: a new look when there is none, or again in the
  feedback topic once the interval has passed.\<close>

definition looks_again :: "coordination_topic \<Rightarrow> coordination_config \<Rightarrow> real \<Rightarrow> coordination_state \<Rightarrow> bool" where
  "looks_again topic config t s \<longleftrightarrow>
     (case cs_estimate s of
        None \<Rightarrow> True
      | Some (estimate, lastLook) \<Rightarrow>
          topic = Feedback \<and> oc_repeat config \<and> t - lastLook \<ge> oc_interval config - EPSILON)"

definition turn_joint :: "real \<Rightarrow> real \<Rightarrow> real" where
  "turn_joint goal v = clamp (goal - v) (- JOINT_RATE * dt) (JOINT_RATE * dt) + v"

definition follow :: "spot \<Rightarrow> joints \<Rightarrow> joints" where
  "follow estimate angles =
     (case nearestSolution estimate angles of
        [] \<Rightarrow> angles
      | s # _ \<Rightarrow> (turn_joint (fst (so_q s)) (fst angles), turn_joint (snd (so_q s)) (snd angles)))"

definition coordination_step :: "coordination_topic \<Rightarrow> coordination_config \<Rightarrow> nat \<Rightarrow> coordination_state \<Rightarrow> coordination_state" where
  "coordination_step topic config step s =
     (let t = real step * dt; target = target_at topic t; seen = bodyToCamera target FITTED_CAMERA;
          again = looks_again topic config t s;
          used = (case cs_estimate s of
              Some e \<Rightarrow> if again then (estimate_of topic config seen, t) else e
            | None \<Rightarrow> (estimate_of topic config seen, t));
          angles = follow (fst used) (cs_angles s); pose = armFK angles ARM_MODEL;
          sample = \<lparr>co_t = t, co_q = angles, co_pose = pose, co_target = target, co_estimate = fst used,
            co_reading = seen,
            co_error = hypot (sp_x (ap_tip pose) - sp_x target) (sp_z (ap_tip pose) - sp_z target),
            co_lastLook = snd used,
            co_status = (if nearestSolution (fst used) (cs_angles s) \<noteq> [] then Approaching else Unreachable)\<rparr> in
      \<lparr>cs_angles = angles, cs_estimate = Some used, cs_samples = cs_samples s @ [sample],
       cs_events = cs_events s
         @ (if topic = Feedback \<and> \<bar>t - TARGET_MOVES_AT\<bar> < EPSILON then [TargetMove t] else [])
         @ (if again then [LookedAgain t] else [])\<rparr>)"

datatype coordination_metric = TipToTarget real | Looks nat
datatype coordination_outcome = ReachedOutcome | MissedRaw | MissedSlow | MissedOutcome

definition coordinationOutcome :: "coordination_topic \<Rightarrow> coordination_config \<Rightarrow> bool \<Rightarrow> coordination_outcome" where
  "coordinationOutcome topic config success =
     (if success then ReachedOutcome
      else if topic = Frames \<and> \<not> oc_transform config then MissedRaw
      else if topic = Feedback \<and> oc_repeat config then MissedSlow
      else MissedOutcome)"

record coordination_run =
  cr_samples :: "coordination_sample list"
  cr_events :: "coordination_event list"
  cr_success :: bool
  cr_metrics :: "coordination_metric list"
  cr_outcome :: coordination_outcome

definition coordination :: "coordination_topic \<Rightarrow> coordination_config \<Rightarrow> coordination_run" where
  "coordination topic config =
     (let s = foldl (\<lambda>s step. coordination_step topic config step s) coordination_start [0..<COORDINATION_STEPS + 1];
          end' = last (cs_samples s); success = co_error end' < REACHED_WITHIN;
          looks = length (filter (\<lambda>e. case e of LookedAgain t \<Rightarrow> True | TargetMove t \<Rightarrow> False) (cs_events s)) in
      \<lparr>cr_samples = cs_samples s, cr_events = cs_events s, cr_success = success,
       cr_metrics = TipToTarget (co_error end') # (if topic = Feedback then [Looks looks] else []),
       cr_outcome = coordinationOutcome topic config success\<rparr>)"

section \<open>Calibration recovers the mounting\<close>

lemma body_camera_body [simp]: "cameraToBody (bodyToCamera p c) c = p"
proof -
  let ?a = "rad (cm_angle c)"
  have "cos ?a * cos ?a + sin ?a * sin ?a = 1" by (rule sin_cos_squared_add3)
  moreover have "(x * cos ?a + z * sin ?a) * cos ?a - (- x * sin ?a + z * cos ?a) * sin ?a
      = x * (cos ?a * cos ?a + sin ?a * sin ?a)"
    "(x * cos ?a + z * sin ?a) * sin ?a + (- x * sin ?a + z * cos ?a) * cos ?a
      = z * (cos ?a * cos ?a + sin ?a * sin ?a)" for x z
    by (simp_all add: algebra_simps del: sin_cos_squared_add3)
  ultimately show ?thesis
    by (simp add: cameraToBody_def bodyToCamera_def Let_def add_diff_eq [symmetric] add.assoc del: minus_mult_left)
qed

lemma foldl_plus: "foldl (+) a xs = a + sum_list xs" for a :: real
  by (induction xs arbitrary: a) simp_all

lemma mean_sum: "xs \<noteq> [] \<Longrightarrow> mean xs = sum_list xs / real (length xs)"
  by (simp add: mean_def foldl_plus)

lemma sum_list_linear: "sum_list (map (\<lambda>x. a + b * f x + c * g x) xs)
    = real (length xs) * a + b * sum_list (map f xs) + c * sum_list (map g xs)" for a :: real
  by (induction xs) (simp_all add: algebra_simps)

lemma mean_linear: "xs \<noteq> [] \<Longrightarrow> mean (map (\<lambda>x. a + b * f x + c * g x) xs) = a + b * mean (map f xs) + c * mean (map g xs)"
  by (simp add: mean_sum sum_list_linear add_divide_distrib)

lemma centre_in_camera:
  assumes "bodies \<noteq> []"
  shows "centre_of (map (\<lambda>b. bodyToCamera b c) bodies) = bodyToCamera (centre_of bodies) c"
proof -
  let ?a = "rad (cm_angle c)"
  have x: "(sp_x b - cm_x c) * cos ?a + (sp_z b - cm_z c) * sin ?a
      = (- cm_x c * cos ?a - cm_z c * sin ?a) + cos ?a * sp_x b + sin ?a * sp_z b"
    and z: "- (sp_x b - cm_x c) * sin ?a + (sp_z b - cm_z c) * cos ?a
      = (cm_x c * sin ?a - cm_z c * cos ?a) + (- sin ?a) * sp_x b + cos ?a * sp_z b" for b
    by (simp_all add: algebra_simps)
  show ?thesis
    unfolding centre_of_def bodyToCamera_def Let_def map_map o_def spot.simps x z mean_linear [OF assms]
    by (simp add: algebra_simps)
qed

text \<open>How far the markers are apart: the sum of the squared distances from their centre.\<close>

definition marker_spread :: "spot list \<Rightarrow> real" where
  "marker_spread bodies =
     sum_list (map (\<lambda>b. (sp_x b - sp_x (centre_of bodies))\<^sup>2 + (sp_z b - sp_z (centre_of bodies))\<^sup>2) bodies)"

lemma minus_in_camera:
  "minus_spot (bodyToCamera b c) (bodyToCamera m c) =
     (let a = rad (cm_angle c); d = minus_spot b m in
      \<lparr>sp_x = sp_x d * cos a + sp_z d * sin a, sp_z = sp_z d * cos a - sp_x d * sin a\<rparr>)"
  by (simp add: minus_spot_def bodyToCamera_def Let_def algebra_simps)

lemma rotated_products:
  fixes x z a :: real
  defines "u \<equiv> x * cos a + z * sin a" and "w \<equiv> z * cos a - x * sin a"
  shows "u * x + w * z = cos a * (x\<^sup>2 + z\<^sup>2)" "u * z - w * x = sin a * (x\<^sup>2 + z\<^sup>2)" "u * u + w * w = x\<^sup>2 + z\<^sup>2"
proof -
  show "u * x + w * z = cos a * (x\<^sup>2 + z\<^sup>2)" "u * z - w * x = sin a * (x\<^sup>2 + z\<^sup>2)"
    by (simp_all add: u_def w_def power2_eq_square algebra_simps)
  have "u * u + w * w = (x\<^sup>2 + z\<^sup>2) * (cos a * cos a + sin a * sin a)"
    by (simp add: u_def w_def power2_eq_square algebra_simps del: sin_cos_squared_add3)
  then show "u * u + w * w = x\<^sup>2 + z\<^sup>2" by simp
qed

lemma fit_sums:
  assumes "a = rad (cm_angle c)"
  shows "foldl (add_pair (bodyToCamera m c) m) (p, q, r) (map (\<lambda>b. (bodyToCamera b c, b)) bodies) =
    (let s = sum_list (map (\<lambda>b. (sp_x b - sp_x m)\<^sup>2 + (sp_z b - sp_z m)\<^sup>2) bodies) in
     (p + cos a * s, q + sin a * s, r + s))"
proof (induction bodies arbitrary: p q r)
  case Nil
  then show ?case by simp
next
  case (Cons b bodies)
  have "add_pair (bodyToCamera m c) m (p, q, r) (bodyToCamera b c, b) =
      (let d = (sp_x b - sp_x m)\<^sup>2 + (sp_z b - sp_z m)\<^sup>2 in (p + cos a * d, q + sin a * d, r + d))"
    unfolding add_pair_def fst_conv snd_conv minus_in_camera assms [symmetric]
    by (simp add: Let_def minus_spot_def rotated_products)
  with Cons.IH show ?case by (simp add: Let_def algebra_simps)
qed

lemma measured_pairs: "List.map_filter finite_pair (map (\<lambda>b. pair_of b c) bodies) = map (\<lambda>b. (bodyToCamera b c, b)) bodies"
  "list_ex (\<lambda>p. finite_pair p = None) (map (\<lambda>b. pair_of b c) bodies) = False"
  by (induction bodies) (simp_all add: pair_of_def finite_pair_def)

lemma fit_of_measured:
  "fitCameraTransform (map (\<lambda>b. pair_of b c) bodies) =
     (if length bodies < 2 then Inl NeedTwoPairs
      else if marker_spread bodies < MIN_MARKER_SPREAD then Inl SpreadMarkers
      else Inr \<lparr>cf_camera = c\<lparr>cm_angle := wrap_angle (rad (cm_angle c)) * 180 / pi\<rparr>, cf_error = 0\<rparr>)"
proof (cases "length bodies < 2")
  case True
  then show ?thesis by (simp add: fitCameraTransform_def Let_def)
next
  case False
  then have some: "bodies \<noteq> []" by auto
  define a where "a = rad (cm_angle c)"
  define s where "s = marker_spread bodies"
  define m where "m = centre_of bodies"
  have centre: "centre_of (map (\<lambda>b. bodyToCamera b c) bodies) = bodyToCamera m c"
    by (simp add: centre_in_camera some m_def)
  have sums: "foldl (add_pair (bodyToCamera m c) m) (0, 0, 0) (map (\<lambda>b. (bodyToCamera b c, b)) bodies) = (cos a * s, sin a * s, s)"
    by (simp add: fit_sums [OF a_def] Let_def s_def marker_spread_def m_def)
  have s: "0 \<le> s" unfolding s_def marker_spread_def by (rule sum_list_nonneg) auto
  have len: "hypot (cos a * s) (sin a * s) = s"
    using s hypot_ray [of s a] by (simp add: mult.commute)
  show ?thesis
  proof (cases "s < MIN_MARKER_SPREAD")
    case True
    then show ?thesis
      using False by (simp add: fitCameraTransform_def Let_def measured_pairs o_def centre m_def [symmetric] sums s_def [symmetric])
  next
    case wide: False
    then have pos: "0 < s" by (simp add: MIN_MARKER_SPREAD_def)
    have angle: "atan2 (sin a * s) (cos a * s) = wrap_angle a"
      using atan2_scale [OF pos, of "sin a" "cos a"] by (simp add: wrap_angle_def mult.commute)
    define f where "f = c\<lparr>cm_angle := wrap_angle a * 180 / pi\<rparr>"
    have rad_f: "rad (cm_angle f) = wrap_angle a" by (simp add: f_def rad_def)
    have body: "cameraToBody p f = cameraToBody p c" for p
      unfolding cameraToBody_def Let_def rad_f by (simp add: f_def a_def)
    define p where "p = bodyToCamera m c"
    have p: "bodyToCamera m c = p" and m: "m = cameraToBody p c" by (simp_all add: p_def)
    have place: "cm_x c = sp_x m - sp_x p * cos a + sp_z p * sin a" "cm_z c = sp_z m - sp_x p * sin a - sp_z p * cos a"
      by (simp_all add: m cameraToBody_def Let_def a_def)
    have camera: "\<lparr>cm_x = sp_x m - sp_x p * cos a + sp_z p * sin a, cm_z = sp_z m - sp_x p * sin a - sp_z p * cos a,
        cm_angle = wrap_angle a * 180 / pi\<rparr> = f"
      by (simp add: f_def place)
    have "fit_error f (map (\<lambda>b. (bodyToCamera b c, b)) bodies) = 0"
      by (simp add: fit_error_def body Let_def o_def mean_def foldl_plus)
    with False wide len camera show ?thesis
      by (simp add: fitCameraTransform_def Let_def measured_pairs o_def centre m_def [symmetric] sums [unfolded p] angle p
          s_def [symmetric] a_def [symmetric] f_def [symmetric])
  qed
qed

text \<open>
  C23: the calibration of the camera. From the positions that a camera mounted anywhere, at any angle,
  measures for two or more markers, the fit gives back exactly its mounting place, its angle (written
  in (-180, 180] degrees) and an error of zero; it refuses exactly when there are fewer than two
  markers or they lie so close together (squared distances from their centre summing to less than
  1e-9 mm^2) that they determine no direction.
\<close>

theorem calibration_recovers_camera:
  "fitCameraTransform (map (\<lambda>b. pair_of b c) bodies) =
     (if length bodies < 2 then Inl NeedTwoPairs
      else if marker_spread bodies < MIN_MARKER_SPREAD then Inl SpreadMarkers
      else Inr \<lparr>cf_camera = c\<lparr>cm_angle := wrap_angle (rad (cm_angle c)) * 180 / pi\<rparr>, cf_error = 0\<rparr>)"
  by (rule fit_of_measured)

text \<open>The lesson's own markers give the lesson's camera.\<close>

lemma calibration_pairs_fit: "fitCameraTransform calibrationPairs = Inr \<lparr>cf_camera = FITTED_CAMERA, cf_error = 0\<rparr>"
proof -
  have "wrap_angle (rad 10) = rad 10"
    by (rule wrap_angle_id) (simp_all add: rad_def)
  then have "wrap_angle (pi / 18) = pi / 18" by (simp add: rad_def)
  then have "wrap_angle (pi / 18) * 180 / pi = 10" by (simp only:) simp
  then show ?thesis
    unfolding calibrationPairs_def fit_of_measured
    by (simp add: CALIBRATION_MARKERS_def marker_spread_def centre_of_def mean_def MIN_MARKER_SPREAD_def
        FITTED_CAMERA_def rad_def power2_eq_square)
qed

lemma turn_joint_rate: "\<bar>turn_joint goal v - v\<bar> \<le> JOINT_RATE * dt"
  using clamp_bounds [of "- JOINT_RATE * dt" "JOINT_RATE * dt" "goal - v"] by (simp add: turn_joint_def JOINT_RATE_def dt_def abs_le_iff) linarith

lemma follow_rate:
  "\<bar>fst (follow estimate angles) - fst angles\<bar> \<le> JOINT_RATE * dt
   \<and> \<bar>snd (follow estimate angles) - snd angles\<bar> \<le> JOINT_RATE * dt"
  by (cases "nearestSolution estimate angles") (auto simp: follow_def turn_joint_rate, simp_all add: JOINT_RATE_def dt_def)

text \<open>With the camera's true mounting the estimate of every look is the target itself.\<close>

lemma true_mounting_sees_target:
  "oc_transform config \<Longrightarrow> oc_camera config = FITTED_CAMERA
     \<Longrightarrow> estimate_of topic config (bodyToCamera target FITTED_CAMERA) = target"
  by (simp add: estimate_of_def)

end
