(* ===== verification/Systems_Diagnostics.thy ===== *)
theory Systems_Diagnostics
  imports Systems_Base
begin

text \<open>
  The \<open>diagnostics\<close> experiments of \<open>lab/js/systems/core.js\<close>: a robot drives towards a shelf; a stop is
  latched when a range is too short, when the data went stale under a watchdog, or when the IMU felt a
  shock. The lemmas show that a stop stays latched, that no condition for one is missed, that the robot
  never enters the shelf, and that the missing-data run ends well exactly with the watchdog.
\<close>

section \<open>Constants and settings\<close>

definition ROBOT_HALF_LENGTH :: real where "ROBOT_HALF_LENGTH = 0.18"
definition DIAGNOSTICS_STEPS :: nat where "DIAGNOSTICS_STEPS = 200"
definition SHELF_X :: real where "SHELF_X = 3.2"
definition IMPACT_OBSTACLE_X :: real where "IMPACT_OBSTACLE_X = 8"
definition DIAGNOSTICS_WALL_X :: real where "DIAGNOSTICS_WALL_X = 4"
definition DATA_LOSS_STEP :: nat where "DATA_LOSS_STEP = 30"
definition DATA_LOSS_TIME :: real where "DATA_LOSS_TIME = 1.5"
definition SHOCK_STEP :: nat where "SHOCK_STEP = 40"
definition SHOCK_TIME :: real where "SHOCK_TIME = 2"
definition SHOCK_DURATION :: real where "SHOCK_DURATION = 0.15"
definition BUMP_PEAK :: real where "BUMP_PEAK = 5.2"
definition IMPACT_PEAK :: real where "IMPACT_PEAK = 16"
definition DIAGNOSTICS_ACCEL :: real where "DIAGNOSTICS_ACCEL = 1.2"
definition DIAGNOSTICS_MAX_SPEED :: real where "DIAGNOSTICS_MAX_SPEED = 0.6"
definition CRUISE_ACCEL_UNTIL :: real where "CRUISE_ACCEL_UNTIL = 0.6"
definition RECORDED_STOP_RANGE :: real where "RECORDED_STOP_RANGE = 0.6"
definition IMPACT_RUN_TIME :: real where "IMPACT_RUN_TIME = 4"

datatype diagnostics_topic = Distance | Missing | Impact

record diagnostics_config =
  dc_both :: bool
  dc_lidar_only :: bool
  dc_stopDistance :: real
  dc_watchdog :: bool
  dc_staleLimit :: real
  dc_impact :: bool
  dc_bump :: bool
  dc_impactLimit :: real

definition diagnostics_config_of :: "config \<Rightarrow> diagnostics_config" where
  "diagnostics_config_of config =
     \<lparr>dc_both = selected config ''sensorRule'' ''both'', dc_lidar_only = selected config ''sensorRule'' ''lidar'',
      dc_stopDistance = coalesce (number_of config ''stopDistance'') 0,
      dc_watchdog = checked config ''watchdog'', dc_staleLimit = coalesce (number_of config ''staleLimit'') 0,
      dc_impact = selected config ''eventType'' ''impact'', dc_bump = selected config ''eventType'' ''bump'',
      dc_impactLimit = coalesce (number_of config ''impactLimit'') 0\<rparr>"

section \<open>The run\<close>

datatype stop_reason = TooClose | DataStale | RecordedTooClose | ImuThreshold
datatype diagnostics_status = ContactEnd | StopSlowing | Holding | DrivingOn
datatype diagnostics_event = DataLoss real | Shock real real bool | Latched real stop_reason | Contact real

record diagnostics_sample =
  ds_t :: real
  ds_x :: real
  ds_v :: real
  ds_lidar :: real
  ds_depth :: real
  ds_range :: real
  ds_age :: real
  ds_accel :: real
  ds_latched :: bool
  ds_reason :: "stop_reason option"
  ds_contact :: bool
  ds_status :: diagnostics_status

definition diagnosticsStatus :: "bool \<Rightarrow> bool \<Rightarrow> real \<Rightarrow> diagnostics_status" where
  "diagnosticsStatus contact latched v =
     (if contact then ContactEnd
      else if latched then (if v \<noteq> 0 then StopSlowing else Holding)
      else DrivingOn)"

text \<open>The later condition of the missing-data topic overwrites the earlier one.\<close>

definition stopReason :: "diagnostics_topic \<Rightarrow> diagnostics_config \<Rightarrow> real \<Rightarrow> real \<Rightarrow> real \<Rightarrow> real \<Rightarrow> real \<Rightarrow> stop_reason option" where
  "stopReason topic config lidar depth lastRange age accel =
     (case topic of
        Distance \<Rightarrow> (if (if dc_both config then min lidar depth else lidar) \<le> dc_stopDistance config
          then Some TooClose else None)
      | Missing \<Rightarrow> (if lastRange \<le> RECORDED_STOP_RANGE then Some RecordedTooClose
          else if dc_watchdog config \<and> age > dc_staleLimit config then Some DataStale else None)
      | Impact \<Rightarrow> (if \<bar>accel\<bar> \<ge> dc_impactLimit config then Some ImuThreshold else None))"

record diagnostics_state =
  dg_x :: real
  dg_v :: real
  dg_lastRange :: real
  dg_lastStamp :: real
  dg_latched :: bool
  dg_reason :: "stop_reason option"
  dg_contact :: bool
  dg_samples :: "diagnostics_sample list"
  dg_events :: "diagnostics_event list"

definition diagnostics_start :: diagnostics_state where
  "diagnostics_start = \<lparr>dg_x = 0.4, dg_v = 0, dg_lastRange = 2.8, dg_lastStamp = 0, dg_latched = False,
     dg_reason = None, dg_contact = False, dg_samples = [], dg_events = []\<rparr>"

definition obstacle_of :: "diagnostics_topic \<Rightarrow> real" where
  "obstacle_of topic = (if topic = Impact then IMPACT_OBSTACLE_X else SHELF_X)"

definition shock_of :: "diagnostics_topic \<Rightarrow> diagnostics_config \<Rightarrow> real \<Rightarrow> real" where
  "shock_of topic config t =
     (if topic = Impact \<and> t \<ge> SHOCK_TIME \<and> t < SHOCK_TIME + SHOCK_DURATION
      then (if dc_impact config then IMPACT_PEAK else BUMP_PEAK) else 0)"

text \<open>\<open>shock || driving || slowing\<close>.\<close>

definition felt_accel :: "diagnostics_topic \<Rightarrow> diagnostics_config \<Rightarrow> real \<Rightarrow> real \<Rightarrow> bool \<Rightarrow> real" where
  "felt_accel topic config t v latched =
     (let shock = shock_of topic config t;
          driving = (if v < CRUISE_ACCEL_UNTIL \<and> \<not> latched then DIAGNOSTICS_ACCEL else 0);
          slowing = (if latched \<and> v > 0 then - DIAGNOSTICS_ACCEL else 0) in
      if shock \<noteq> 0 then shock else if driving \<noteq> 0 then driving else slowing)"

definition arriving_events :: "diagnostics_topic \<Rightarrow> diagnostics_config \<Rightarrow> nat \<Rightarrow> real \<Rightarrow> diagnostics_event list" where
  "arriving_events topic config step x =
     (let t = real step * dt in
      (if topic = Missing \<and> step = DATA_LOSS_STEP then [DataLoss t] else []) @
      (if topic = Impact \<and> step = SHOCK_STEP then [Shock t x (dc_impact config)] else []))"

text \<open>
  The parts of one pass: the LiDAR beam passes under the shelf; in the missing-data topic the stored
  range and its time stop changing; the reason is looked for only while nothing has latched.
\<close>

definition lidar_at :: "diagnostics_topic \<Rightarrow> diagnostics_state \<Rightarrow> real" where
  "lidar_at topic s = (if topic = Distance then DIAGNOSTICS_WALL_X else obstacle_of topic) - dg_x s"

definition data_arrives :: "diagnostics_topic \<Rightarrow> real \<Rightarrow> bool" where
  "data_arrives topic t \<longleftrightarrow> topic \<noteq> Missing \<or> t < DATA_LOSS_TIME"

definition range_at :: "diagnostics_topic \<Rightarrow> real \<Rightarrow> diagnostics_state \<Rightarrow> real" where
  "range_at topic t s = (if data_arrives topic t then lidar_at topic s else dg_lastRange s)"

definition stamp_at :: "diagnostics_topic \<Rightarrow> real \<Rightarrow> diagnostics_state \<Rightarrow> real" where
  "stamp_at topic t s = (if data_arrives topic t then t else dg_lastStamp s)"

definition reason_at :: "diagnostics_topic \<Rightarrow> diagnostics_config \<Rightarrow> real \<Rightarrow> diagnostics_state \<Rightarrow> stop_reason option" where
  "reason_at topic config t s =
     (if dg_latched s then dg_reason s
      else first_some
        (stopReason topic config (lidar_at topic s) (obstacle_of topic - dg_x s) (range_at topic t s)
          (t - stamp_at topic t s) (felt_accel topic config t (dg_v s) (dg_latched s)))
        (dg_reason s))"

definition latched_at :: "diagnostics_topic \<Rightarrow> diagnostics_config \<Rightarrow> real \<Rightarrow> diagnostics_state \<Rightarrow> bool" where
  "latched_at topic config t s \<longleftrightarrow> dg_latched s \<or> reason_at topic config t s \<noteq> None"

definition next_speed :: "bool \<Rightarrow> real \<Rightarrow> real" where
  "next_speed latched v =
     clamp (v + (if latched then - DIAGNOSTICS_ACCEL else DIAGNOSTICS_ACCEL) * dt) 0 DIAGNOSTICS_MAX_SPEED"

text \<open>Where the robot is after the pass, how fast, and whether it touched the obstacle.\<close>

definition moved :: "diagnostics_topic \<Rightarrow> bool \<Rightarrow> diagnostics_state \<Rightarrow> real \<times> real \<times> bool" where
  "moved topic latched s =
     (let nextV = next_speed latched (dg_v s); nextX = dg_x s + (dg_v s + nextV) * dt / 2 in
      if obstacle_of topic \<le> nextX + ROBOT_HALF_LENGTH
      then (obstacle_of topic - ROBOT_HALF_LENGTH, 0, True)
      else (nextX, nextV, False))"

definition diagnostics_step :: "diagnostics_topic \<Rightarrow> diagnostics_config \<Rightarrow> nat \<Rightarrow> diagnostics_state \<Rightarrow> diagnostics_state \<times> bool" where
  "diagnostics_step topic config step s =
     (let t = real step * dt; reason = reason_at topic config t s; latched = latched_at topic config t s;
          (x', v', hit) = moved topic latched s; contact = (dg_contact s \<or> hit);
          latch_events = (if dg_latched s then [] else case reason of None \<Rightarrow> [] | Some r \<Rightarrow> [Latched t r]);
          sample = \<lparr>ds_t = t, ds_x = x', ds_v = v', ds_lidar = lidar_at topic s,
            ds_depth = obstacle_of topic - dg_x s, ds_range = range_at topic t s,
            ds_age = t - stamp_at topic t s, ds_accel = felt_accel topic config t (dg_v s) (dg_latched s),
            ds_latched = latched, ds_reason = reason, ds_contact = contact,
            ds_status = diagnosticsStatus contact latched v'\<rparr> in
      (\<lparr>dg_x = x', dg_v = v', dg_lastRange = range_at topic t s, dg_lastStamp = stamp_at topic t s,
         dg_latched = latched, dg_reason = reason, dg_contact = contact, dg_samples = dg_samples s @ [sample],
         dg_events = dg_events s @ arriving_events topic config step (dg_x s) @ latch_events
           @ (if hit then [Contact t] else [])\<rparr>,
       contact \<or> (if topic = Impact then t \<ge> IMPACT_RUN_TIME else latched \<and> v' = 0)))"

fun diagnostics_loop :: "diagnostics_topic \<Rightarrow> diagnostics_config \<Rightarrow> nat list \<Rightarrow> diagnostics_state \<Rightarrow> diagnostics_state" where
  "diagnostics_loop topic config [] s = s"
| "diagnostics_loop topic config (step # steps) s =
     (let (s', ended) = diagnostics_step topic config step s in
      if ended then s' else diagnostics_loop topic config steps s')"

datatype diagnostics_metric = AssumedEvent bool | StopDecision bool | MaxAcceleration real | ContactMade bool
  | StopCommandTime "real option" | LastDataAge real

definition diagnosticsMetrics :: "diagnostics_topic \<Rightarrow> diagnostics_config \<Rightarrow> diagnostics_sample list \<Rightarrow> bool \<Rightarrow> bool \<Rightarrow> diagnostics_metric list" where
  "diagnosticsMetrics topic config samples latched contact =
     (if topic = Impact
      then [AssumedEvent (\<not> dc_bump config), StopDecision latched,
        MaxAcceleration (Max (set (map (\<lambda>m. \<bar>ds_accel m\<bar>) samples)))]
      else [StopDecision latched, ContactMade contact,
        (if topic = Distance then StopCommandTime (map_option ds_t (find ds_latched samples))
         else LastDataAge (ds_age (last samples)))])"

datatype diagnostics_outcome = BumpStopped | BumpPassed | ImpactStopped | ImpactMissed | MissingContact | StopTooLate
  | LidarLatchedContact | LidarMissedShelf | MissingStopped | DistanceStopped

definition impactOutcome :: "diagnostics_config \<Rightarrow> bool \<Rightarrow> diagnostics_outcome" where
  "impactOutcome config latched =
     (if dc_bump config then (if latched then BumpStopped else BumpPassed)
      else if latched then ImpactStopped else ImpactMissed)"

definition contactOutcome :: "diagnostics_topic \<Rightarrow> diagnostics_config \<Rightarrow> bool \<Rightarrow> diagnostics_outcome" where
  "contactOutcome topic config latched =
     (if topic = Missing then MissingContact
      else if \<not> dc_lidar_only config then StopTooLate
      else if latched then LidarLatchedContact else LidarMissedShelf)"

definition diagnosticsOutcome :: "diagnostics_topic \<Rightarrow> diagnostics_config \<Rightarrow> bool \<Rightarrow> bool \<Rightarrow> diagnostics_outcome" where
  "diagnosticsOutcome topic config latched contact =
     (if topic = Impact then impactOutcome config latched
      else if contact then contactOutcome topic config latched
      else if topic = Missing then MissingStopped else DistanceStopped)"

record diagnostics_run =
  dr_samples :: "diagnostics_sample list"
  dr_events :: "diagnostics_event list"
  dr_success :: bool
  dr_metrics :: "diagnostics_metric list"
  dr_outcome :: diagnostics_outcome

definition diagnostics :: "diagnostics_topic \<Rightarrow> diagnostics_config \<Rightarrow> diagnostics_run" where
  "diagnostics topic config =
     (let s = diagnostics_loop topic config [0..<DIAGNOSTICS_STEPS + 1] diagnostics_start;
          latched = dg_latched s; contact = dg_contact s in
      \<lparr>dr_samples = dg_samples s, dr_events = dg_events s,
       dr_success = (if topic = Impact then (if dc_impact config then latched else \<not> latched)
         else latched \<and> \<not> contact),
       dr_metrics = diagnosticsMetrics topic config (dg_samples s) latched contact,
       dr_outcome = diagnosticsOutcome topic config latched contact\<rparr>)"

section \<open>Releasing a stop\<close>

text \<open>A stop that has latched is released by the operator, not by the reading coming back.\<close>

definition canRestart :: "bool \<Rightarrow> bool \<Rightarrow> bool \<Rightarrow> bool" where
  "canRestart latched causeCleared operatorRequest \<longleftrightarrow> latched \<and> causeCleared \<and> operatorRequest"

text \<open>The kind of cause, when it latched, and the measured value with the limit it crossed.\<close>

datatype cause_kind = Near | Stale | Bump | ImpactEvent

record stop_cause =
  sc_id :: cause_kind
  sc_time :: real
  sc_value :: real
  sc_limit :: real

definition stopCause :: "diagnostics_topic \<Rightarrow> diagnostics_config \<Rightarrow> diagnostics_sample list \<Rightarrow> stop_cause option" where
  "stopCause topic config samples =
     (case find ds_latched samples of
        None \<Rightarrow> None
      | Some m \<Rightarrow>
          Some (if topic = Impact
            then \<lparr>sc_id = (if dc_impact config then ImpactEvent else Bump), sc_time = ds_t m,
              sc_value = Max (set (map (\<lambda>m. \<bar>ds_accel m\<bar>) samples)), sc_limit = dc_impactLimit config\<rparr>
            else if ds_reason m = Some DataStale
            then \<lparr>sc_id = Stale, sc_time = ds_t m, sc_value = ds_age m, sc_limit = dc_staleLimit config\<rparr>
            else \<lparr>sc_id = Near, sc_time = ds_t m,
              sc_value = (if topic = Missing then ds_range m
                else if dc_both config then min (ds_lidar m) (ds_depth m) else ds_lidar m),
              sc_limit = (if topic = Missing then RECORDED_STOP_RANGE else dc_stopDistance config)\<rparr>))"

section \<open>A stop stays latched\<close>

definition stop_due :: "diagnostics_topic \<Rightarrow> diagnostics_config \<Rightarrow> diagnostics_sample \<Rightarrow> bool" where
  "stop_due topic config m \<longleftrightarrow>
     stopReason topic config (ds_lidar m) (ds_depth m) (ds_range m) (ds_age m) (ds_accel m) \<noteq> None"

definition latch_kept :: "diagnostics_sample \<Rightarrow> diagnostics_sample \<Rightarrow> bool" where
  "latch_kept a b \<longleftrightarrow> (ds_latched a \<longrightarrow> ds_latched b \<and> ds_reason b = ds_reason a \<and> ds_v b \<le> ds_v a)"

definition sample_safe :: "diagnostics_topic \<Rightarrow> diagnostics_config \<Rightarrow> diagnostics_sample \<Rightarrow> bool" where
  "sample_safe topic config m \<longleftrightarrow>
     ds_latched m = (ds_reason m \<noteq> None) \<and> (stop_due topic config m \<longrightarrow> ds_latched m)
     \<and> ds_x m + ROBOT_HALF_LENGTH \<le> obstacle_of topic
     \<and> ds_contact m = (ds_x m + ROBOT_HALF_LENGTH = obstacle_of topic)
     \<and> 0 \<le> ds_v m \<and> ds_v m \<le> DIAGNOSTICS_MAX_SPEED"

definition diagnostics_inv :: "diagnostics_topic \<Rightarrow> diagnostics_config \<Rightarrow> diagnostics_state \<Rightarrow> bool" where
  "diagnostics_inv topic config s \<longleftrightarrow>
     dg_latched s = (dg_reason s \<noteq> None) \<and> 0 \<le> dg_v s \<and> dg_v s \<le> DIAGNOSTICS_MAX_SPEED
     \<and> (dg_samples s \<noteq> [] \<longrightarrow> dg_contact s = ds_contact (last (dg_samples s)))
     \<and> list_all (sample_safe topic config) (dg_samples s) \<and> sorted_wrt latch_kept (dg_samples s)
     \<and> list_all (\<lambda>m. ds_latched m \<longrightarrow> dg_latched s \<and> dg_reason s = ds_reason m \<and> dg_v s \<le> ds_v m) (dg_samples s)"

lemma max_speed_pos [simp]: "0 \<le> DIAGNOSTICS_MAX_SPEED"
  by (simp add: DIAGNOSTICS_MAX_SPEED_def)

lemma next_speed_bounds: "0 \<le> next_speed l v" "next_speed l v \<le> DIAGNOSTICS_MAX_SPEED"
  using clamp_bounds [OF max_speed_pos] by (simp_all add: next_speed_def)

lemma slowed: "0 \<le> v \<Longrightarrow> next_speed True v \<le> v"
  by (auto simp: next_speed_def clamp_def DIAGNOSTICS_ACCEL_def min_def dt_def)

lemma moved_facts:
  assumes "moved topic l s = (x', v', hit)"
  shows "x' + ROBOT_HALF_LENGTH \<le> obstacle_of topic" "hit = (x' + ROBOT_HALF_LENGTH = obstacle_of topic)"
    "0 \<le> v'" "v' \<le> next_speed l (dg_v s)" "v' \<le> DIAGNOSTICS_MAX_SPEED"
  using assms next_speed_bounds [of l "dg_v s"] by (auto simp: moved_def Let_def split: if_splits)

lemma step_fields:
  assumes "diagnostics_step topic config k s = (s', ended)"
    and "moved topic (latched_at topic config (real k * dt) s) s = (x', v', hit)"
  shows "dg_x s' = x'" "dg_v s' = v'" "dg_latched s' = latched_at topic config (real k * dt) s"
    "dg_reason s' = reason_at topic config (real k * dt) s" "dg_contact s' = (dg_contact s \<or> hit)"
    "dg_lastRange s' = range_at topic (real k * dt) s" "dg_lastStamp s' = stamp_at topic (real k * dt) s"
    "ended = (dg_contact s' \<or> (if topic = Impact then real k * dt \<ge> IMPACT_RUN_TIME else dg_latched s' \<and> dg_v s' = 0))"
    "dg_samples s' = dg_samples s @ [\<lparr>ds_t = real k * dt, ds_x = x', ds_v = v', ds_lidar = lidar_at topic s,
            ds_depth = obstacle_of topic - dg_x s, ds_range = range_at topic (real k * dt) s,
            ds_age = real k * dt - stamp_at topic (real k * dt) s,
            ds_accel = felt_accel topic config (real k * dt) (dg_v s) (dg_latched s),
            ds_latched = dg_latched s', ds_reason = dg_reason s', ds_contact = dg_contact s',
            ds_status = diagnosticsStatus (dg_contact s') (dg_latched s') v'\<rparr>]"
  using assms by (auto simp: diagnostics_step_def Let_def)

lemma diagnostics_step_inv:
  assumes inv: "diagnostics_inv topic config s" and going: "\<not> dg_contact s"
    and step: "diagnostics_step topic config k s = (s', ended)"
  shows "diagnostics_inv topic config s' \<and> (\<not> ended \<longrightarrow> \<not> dg_contact s')"
proof -
  obtain x' v' hit where moved: "moved topic (latched_at topic config (real k * dt) s) s = (x', v', hit)"
    by (metis prod_cases3)
  note fields = step_fields [OF step moved]
  note move = moved_facts [OF moved]
  have latched: "dg_latched s' = (dg_reason s' \<noteq> None)"
    using inv unfolding fields(3,4) by (auto simp: latched_at_def reason_at_def diagnostics_inv_def)
  have kept: "dg_latched s' \<and> dg_reason s' = dg_reason s \<and> dg_v s' \<le> dg_v s" if "dg_latched s"
    using that inv move(4) slowed [of "dg_v s"]
    by (auto simp: fields(2-4) latched_at_def reason_at_def diagnostics_inv_def)
  have due: "dg_latched s'" if "stop_due topic config (last (dg_samples s'))"
    using that by (auto simp: fields(3,9) stop_due_def latched_at_def reason_at_def split: if_splits)
  define m where "m = last (dg_samples s')"
  have samples: "dg_samples s' = dg_samples s @ [m]" and m: "ds_latched m = dg_latched s'" "ds_reason m = dg_reason s'"
      "ds_contact m = dg_contact s'" "ds_v m = dg_v s'" "ds_x m = x'"
    by (simp_all add: m_def fields(2,9))
  have "sample_safe topic config m"
    using latched due move going m fields(2,5) by (auto simp: sample_safe_def m_def [symmetric])
  then have "diagnostics_inv topic config s'"
    using inv latched move kept samples m fields(2)
    by (auto simp: diagnostics_inv_def sorted_wrt_append latch_kept_def list_all_iff)
  then show ?thesis using fields(8) by auto
qed

lemma diagnostics_loop_inv:
  "diagnostics_inv topic config s \<Longrightarrow> \<not> dg_contact s \<Longrightarrow> diagnostics_inv topic config (diagnostics_loop topic config ks s)"
proof (induction ks arbitrary: s)
  case Nil
  then show ?case by simp
next
  case (Cons k ks)
  obtain s' ended where step: "diagnostics_step topic config k s = (s', ended)" by fastforce
  with diagnostics_step_inv [OF Cons.prems step] Cons.IH [of s'] show ?case by simp
qed

lemma diagnostics_start_inv: "diagnostics_inv topic config diagnostics_start" "\<not> dg_contact diagnostics_start"
  by (simp_all add: diagnostics_inv_def diagnostics_start_def)

text \<open>
  in every diagnostics run, for any settings: a stop once latched stays latched to the end, keeps its
  reason, and the robot never speeds up again, even when the reading that caused it is gone; no
  condition for a stop goes unnoticed (each sample in which the topic's rule asks for a stop is a
  latched one); and the robot never enters the obstacle, a contact being recorded exactly when it
  touches it.
\<close>

theorem diagnostics_stop_latches:
  "list_all (sample_safe topic config) (dr_samples (diagnostics topic config)) \<and>
   sorted_wrt latch_kept (dr_samples (diagnostics topic config))"
  using diagnostics_loop_inv [OF diagnostics_start_inv, of topic config]
  by (simp add: diagnostics_inv_def diagnostics_def Let_def del: upt_Suc)

section \<open>The watchdog decides the missing-data run\<close>

definition stale_settings :: "diagnostics_config \<Rightarrow> bool" where
  "stale_settings c \<longleftrightarrow> 0 \<le> dc_staleLimit c \<and> dc_staleLimit c \<le> 2"

lemma validated_missing:
  "case validateSystemConfig ''diagnostics'' ''missing'' input of
     Inl e \<Rightarrow> False | Inr config \<Rightarrow> stale_settings (diagnostics_config_of config)"
proof -
  obtain t where t: "find_topic ''diagnostics'' ''missing'' = Some t"
    and controls: "tp_controls t = [check ''watchdog'' False, number ''staleLimit'' 0.1 2 0.4]"
    by (simp add: find_topic_def SYSTEM_TOPICS_def)
  have "case validateSystemConfig ''diagnostics'' ''missing'' input of
      Inl e \<Rightarrow> False | Inr config \<Rightarrow> config_allowed (tp_controls t) config"
    using validated_config [of "''diagnostics''" "''missing''" input] by (simp add: t)
  then show ?thesis
    by (auto simp: controls config_allowed_def number_def allowed_setting_def stale_settings_def
        diagnostics_config_of_def number_of_def split: sum.splits option.splits setting.splits)
qed

text \<open>Before pass \<open>k\<close>: how far the robot can have come, how old its range is, and how long it is slowing down.\<close>

definition missing_inv :: "diagnostics_config \<Rightarrow> nat \<Rightarrow> diagnostics_state \<Rightarrow> bool" where
  "missing_inv c k s \<longleftrightarrow>
     0 \<le> dg_v s \<and> dg_v s \<le> 0.6 \<and> dg_x s \<le> 0.4 + 0.03 * real k \<and> \<not> dg_contact s
     \<and> dg_lastStamp s = real (min (k - 1) 29) * dt \<and> 1.9 \<le> dg_lastRange s
     \<and> dg_latched s = (dg_reason s \<noteq> None) \<and> (dg_latched s \<longrightarrow> dc_watchdog c)
     \<and> (dc_watchdog c \<longrightarrow> (if dg_latched s then 0 < dg_v s \<and> dg_v s + 0.06 * real k \<le> 4.8 else k \<le> 70))"

lemma missing_start: "missing_inv c 0 diagnostics_start"
  by (simp add: missing_inv_def diagnostics_start_def)

lemma missing_readings:
  assumes inv: "missing_inv c k s"
  shows "stamp_at Missing (real k * dt) s = real (min k 29) * dt" "1.9 \<le> range_at Missing (real k * dt) s"
proof -
  have early: "data_arrives Missing (real k * dt) \<longleftrightarrow> k < 30"
    by (auto simp: data_arrives_def DATA_LOSS_TIME_def dt_def)
  show "stamp_at Missing (real k * dt) s = real (min k 29) * dt"
    using inv early by (auto simp: stamp_at_def missing_inv_def min_def)
  have "dg_x s \<le> 0.4 + 0.03 * 29" if "k < 30"
  proof -
    have "real k \<le> 29" using that by simp
    then show ?thesis using inv by (simp add: missing_inv_def)
  qed
  then show "1.9 \<le> range_at Missing (real k * dt) s"
    using inv early by (auto simp: range_at_def lidar_at_def obstacle_of_def SHELF_X_def missing_inv_def)
qed

lemma missing_reason:
  assumes inv: "missing_inv c k s" and "\<not> dg_latched s"
  shows "reason_at Missing c (real k * dt) s
     = (if dc_watchdog c \<and> dc_staleLimit c < real k * dt - real (min k 29) * dt then Some DataStale else None)"
  using missing_readings [OF inv] assms
  by (auto simp: reason_at_def stopReason_def RECORDED_STOP_RANGE_def missing_inv_def)

lemma missing_step:
  assumes ok: "stale_settings c" and inv: "missing_inv c k s" and k: "dc_watchdog c \<longrightarrow> k \<le> 80"
    and step: "diagnostics_step Missing c k s = (s', ended)"
  shows "if ended then (if dc_watchdog c then dg_latched s' \<and> \<not> dg_contact s' else \<not> dg_latched s')
     else missing_inv c (Suc k) s'"
proof -
  let ?t = "real k * dt" and ?l = "latched_at Missing c (real k * dt) s"
  obtain x' v' hit where moved: "moved Missing ?l s = (x', v', hit)" by (metis prod_cases3)
  note fields = step_fields [OF step moved]
  note move = moved_facts [OF moved]
  have old: "0 \<le> dg_v s" "dg_v s \<le> 0.6" "dg_x s \<le> 0.4 + 0.03 * real k" "\<not> dg_contact s"
    using inv by (simp_all add: missing_inv_def)
  have nv: "next_speed ?l (dg_v s) \<le> 0.6" using next_speed_bounds [of ?l "dg_v s"] by (simp add: DIAGNOSTICS_MAX_SPEED_def)
  have x: "x' \<le> 0.4 + 0.03 * real (Suc k)"
  proof -
    have "x' \<le> dg_x s + (dg_v s + next_speed ?l (dg_v s)) * dt / 2"
      using moved by (auto simp: moved_def Let_def split: if_splits)
    also have "\<dots> \<le> dg_x s + (0.6 + 0.6) * dt / 2"
      using old nv by (intro add_left_mono divide_right_mono mult_right_mono add_mono) simp_all
    also have "\<dots> = dg_x s + 0.03" by (simp add: dt_def)
    finally show ?thesis using old(3) by (simp add: add_divide_distrib)
  qed
  have no_hit: "\<not> hit" if "dc_watchdog c"
  proof -
    note x
    also have "0.4 + 0.03 * real (Suc k) \<le> 0.4 + 0.03 * 81"
      using k that by (intro add_left_mono mult_left_mono) auto
    also have "\<dots> = (2.83 :: real)" by simp
    finally have "x' \<le> 2.83" .
    then show ?thesis using move(2) by (simp add: ROBOT_HALF_LENGTH_def obstacle_of_def SHELF_X_def)
  qed
  have watch: "?l \<longrightarrow> dc_watchdog c"
    using inv missing_reason [OF inv] by (auto simp: latched_at_def missing_inv_def split: if_splits)
  have reason: "dg_latched s' = (dg_reason s' \<noteq> None)"
    using inv unfolding fields(3,4) by (auto simp: latched_at_def reason_at_def missing_inv_def)
  have young: "k \<le> 69" if "dc_watchdog c" "\<not> ?l"
  proof -
    have "\<not> dg_latched s" "reason_at Missing c ?t s = None" using that by (auto simp: latched_at_def)
    then have "?t - real (min k 29) * dt \<le> 2"
      using missing_reason [OF inv] that ok by (auto simp: stale_settings_def split: if_splits)
    then show ?thesis by (cases "k \<le> 29") (auto simp: dt_def)
  qed
  have slow: "v' = 0 \<or> v' + 0.06 * real (Suc k) \<le> 4.8" if "dc_watchdog c" ?l
  proof -
    have "v' = next_speed True (dg_v s)" using moved that no_hit by (auto simp: moved_def Let_def split: if_splits)
    then have "v' = 0 \<or> v' \<le> dg_v s - 0.06"
      using old by (auto simp: next_speed_def clamp_def DIAGNOSTICS_ACCEL_def DIAGNOSTICS_MAX_SPEED_def dt_def)
    moreover have "dg_v s + 0.06 * real k \<le> 4.8"
    proof (cases "dg_latched s")
      case True
      then show ?thesis using inv that by (simp add: missing_inv_def)
    next
      case False
      then have "real k \<le> 70" using inv that by (simp add: missing_inv_def)
      then show ?thesis using old by simp
    qed
    ultimately show ?thesis by (auto simp: add_divide_distrib)
  qed
  show ?thesis
  proof (cases ended)
    case True
    show ?thesis
      using True fields no_hit watch old by auto
  next
    case False
    then have going: "\<not> dg_contact s'" "dg_latched s' \<longrightarrow> v' \<noteq> 0" using fields(8) by (auto simp: fields(2))
    have "missing_inv c (Suc k) s'"
      unfolding missing_inv_def
      using x move nv going reason watch slow young missing_readings [OF inv] fields
      by (auto simp: DIAGNOSTICS_MAX_SPEED_def)
    with False show ?thesis by simp
  qed
qed

lemma missing_loop:
  "stale_settings c \<Longrightarrow> missing_inv c k s \<Longrightarrow> k \<le> 201 \<Longrightarrow>
   (let s' = diagnostics_loop Missing c [k..<201] s in
      if dc_watchdog c then dg_latched s' \<and> \<not> dg_contact s' else \<not> dg_latched s')"
proof (induction "201 - k" arbitrary: k s)
  case 0
  then have "k = 201" by simp
  with 0 show ?case by (auto simp: missing_inv_def split: if_splits)
next
  case (Suc n)
  obtain s' ended where step: "diagnostics_step Missing c k s = (s', ended)" by fastforce
  have early: "dc_watchdog c \<longrightarrow> k \<le> 80"
  proof
    assume "dc_watchdog c"
    then have "k \<le> 70 \<or> 0.06 * real k \<le> 4.8"
      using Suc.prems(2) by (auto simp: missing_inv_def split: if_splits)
    then show "k \<le> 80" by auto
  qed
  note after = missing_step [OF Suc.prems(1,2) early step]
  have k: "k < 201" and n: "n = 201 - Suc k" using Suc.hyps(2) by simp_all
  show ?case
    using after Suc.hyps(1) [OF n Suc.prems(1), of s'] k by (auto simp: upt_conv_Cons step Let_def split: if_splits)
qed

text \<open>
  for whatever settings the page hands over, the run in which the range data stop arriving ends
  well, standing and without having touched the shelf, exactly when the watchdog is on: with it, every
  waiting time a learner may choose (up to 2 s) stops the robot in time; without it the robot
  trusts its last range and is never stopped.
\<close>

theorem watchdog_decides_missing:
  "case validateSystemConfig ''diagnostics'' ''missing'' input of
     Inl e \<Rightarrow> False
   | Inr config \<Rightarrow> dr_success (diagnostics Missing (diagnostics_config_of config)) = checked config ''watchdog''"
proof -
  have "dr_success (diagnostics Missing c) = dc_watchdog c" if "stale_settings c" for c
    using missing_loop [OF that missing_start]
    by (auto simp: diagnostics_def Let_def DIAGNOSTICS_STEPS_def simp del: upt_Suc split: if_splits)
  then show ?thesis using validated_missing [of input] by (auto simp: diagnostics_config_of_def split: sum.splits)
qed

end
