(* ===== verification/Systems_Timing.thy ===== *)
theory Systems_Timing
  imports Systems_Diagnostics
begin

text \<open>
  The \<open>timing\<close> experiments of \<open>lab/js/systems/core.js\<close>: range measurements travel for a latency, wait in a
  queue, and are processed at a limited rate while the robot drives at a wall. The lemmas show that
  measurements are used in the order they were taken and never early, what the compensation and the
  alignment by time stamp achieve, and that the robot never enters the wall.
\<close>

section \<open>Constants and settings\<close>

definition TIMING_STEPS :: nat where "TIMING_STEPS = 220"
definition WALL_X :: real where "WALL_X = 4"
definition STOP_RANGE :: real where "STOP_RANGE = 0.6"
definition TIMING_ACCEL :: real where "TIMING_ACCEL = 1.2"
definition TIMING_DECEL :: real where "TIMING_DECEL = 3.2"
definition TIMING_MAX_SPEED :: real where "TIMING_MAX_SPEED = 0.8"
definition TARGET_GAP :: real where "TARGET_GAP = 0.5"
definition GOOD_GAP :: real where "GOOD_GAP = 0.16"
definition MAP_TOLERANCE :: real where "MAP_TOLERANCE = 0.05"

datatype timing_topic = Delay | Alignment | Queueing

record timing_config =
  tc_latency :: real
  tc_processing :: real
  tc_latest :: bool
  tc_compensate :: bool
  tc_by_stamp :: bool

definition timing_config_of :: "config \<Rightarrow> timing_config" where
  "timing_config_of config =
     \<lparr>tc_latency = coalesce (number_of config ''latency'') 0,
      tc_processing = coalesce (number_of config ''processing'') 20,
      tc_latest = selected config ''queue'' ''latest'', tc_compensate = checked config ''compensate'',
      tc_by_stamp = selected config ''align'' ''stamp''\<rparr>"

section \<open>The run\<close>

record reading =
  rd_stamp :: real
  rd_receive :: real
  rd_x :: real
  rd_range :: real

datatype timing_status = ContactStatus | SlowingStatus | StoppedStatus | DrivingStatus | WaitingStatus
datatype timing_event = ContactEvent real | StopCommand real

record timing_sample =
  ti_t :: real
  ti_x :: real
  ti_v :: real
  ti_range :: real
  ti_usedRange :: "real option"
  ti_rawRange :: "real option"
  ti_measuredX :: "real option"
  ti_mapBaseX :: "real option"
  ti_wallEstimate :: "real option"
  ti_wallError :: "real option"
  ti_age :: real
  ti_stamp :: "real option"
  ti_receive :: "real option"
  ti_queue :: nat
  ti_stop :: bool
  ti_contact :: bool
  ti_status :: timing_status

record timing_state =
  ts_x :: real
  ts_v :: real
  ts_last :: "reading option"
  ts_nextProcess :: real
  ts_stop :: bool
  ts_contact :: bool
  ts_transit :: "reading list"
  ts_queue :: "reading list"
  ts_samples :: "timing_sample list"
  ts_events :: "timing_event list"

definition timing_start :: timing_state where
  "timing_start = \<lparr>ts_x = 0.35, ts_v = 0, ts_last = None, ts_nextProcess = 0, ts_stop = False,
     ts_contact = False, ts_transit = [], ts_queue = [], ts_samples = [], ts_events = []\<rparr>"

definition timingStatus :: "bool \<Rightarrow> bool \<Rightarrow> real \<Rightarrow> bool \<Rightarrow> timing_status" where
  "timingStatus contact stop v has_last =
     (if contact then ContactStatus
      else if stop then (if v \<noteq> 0 then SlowingStatus else StoppedStatus)
      else if has_last then DrivingStatus else WaitingStatus)"

text \<open>One pass: the robot moves by the previous decision, the measurement is taken and sent, what has
  arrived is queued, one is processed, and the decision follows.\<close>

definition advance :: "nat \<Rightarrow> timing_state \<Rightarrow> timing_state" where
  "advance step s =
     (if step = 0 then s
      else
        let nextV = clamp (ts_v s + (if ts_stop s \<or> ts_last s = None then - TIMING_DECEL else TIMING_ACCEL) * dt)
              0 TIMING_MAX_SPEED;
            nextX = ts_x s + (ts_v s + nextV) * dt / 2 in
        if nextX \<ge> WALL_X - ROBOT_HALF_LENGTH
        then s\<lparr>ts_contact := True, ts_stop := True, ts_x := WALL_X - ROBOT_HALF_LENGTH, ts_v := 0,
          ts_events := ts_events s @ [ContactEvent (real step * dt)]\<rparr>
        else s\<lparr>ts_x := nextX, ts_v := nextV\<rparr>)"

definition send :: "timing_config \<Rightarrow> real \<Rightarrow> timing_state \<Rightarrow> timing_state" where
  "send config t s =
     s\<lparr>ts_transit := ts_transit s @
       [\<lparr>rd_stamp = t, rd_receive = t + tc_latency config, rd_x = ts_x s, rd_range = WALL_X - ts_x s\<rparr>]\<rparr>"

definition receive :: "real \<Rightarrow> timing_state \<Rightarrow> timing_state" where
  "receive t s =
     (let here = (\<lambda>r. rd_receive r \<le> t + EPSILON) in
      s\<lparr>ts_queue := ts_queue s @ takeWhile here (ts_transit s), ts_transit := dropWhile here (ts_transit s)\<rparr>)"

definition process :: "timing_topic \<Rightarrow> timing_config \<Rightarrow> real \<Rightarrow> timing_state \<Rightarrow> timing_state" where
  "process topic config t s =
     (if t \<ge> ts_nextProcess s - EPSILON
      then
        let s1 = (case ts_queue s of
              [] \<Rightarrow> s
            | r # rest \<Rightarrow>
                if topic = Queueing \<and> tc_latest config
                then s\<lparr>ts_last := Some (last (ts_queue s)), ts_queue := []\<rparr>
                else s\<lparr>ts_last := Some r, ts_queue := rest\<rparr>) in
        s1\<lparr>ts_nextProcess := ts_nextProcess s + 1 / tc_processing config\<rparr>
      else s)"

definition used_range :: "timing_topic \<Rightarrow> timing_config \<Rightarrow> timing_state \<Rightarrow> real option" where
  "used_range topic config s =
     map_option (\<lambda>r. rd_range r - (if tc_compensate config \<or> topic = Alignment then ts_x s - rd_x r else 0)) (ts_last s)"

definition map_base :: "timing_topic \<Rightarrow> timing_config \<Rightarrow> timing_state \<Rightarrow> real option" where
  "map_base topic config s =
     map_option (\<lambda>r. if topic = Alignment \<and> tc_by_stamp config then rd_x r else ts_x s) (ts_last s)"

definition wall_estimate :: "timing_topic \<Rightarrow> timing_config \<Rightarrow> timing_state \<Rightarrow> real option" where
  "wall_estimate topic config s =
     (case (ts_last s, map_base topic config s) of (Some r, Some x) \<Rightarrow> Some (x + rd_range r) | _ \<Rightarrow> None)"

definition decide :: "timing_topic \<Rightarrow> timing_config \<Rightarrow> real \<Rightarrow> timing_state \<Rightarrow> timing_state" where
  "decide topic config t s =
     (case used_range topic config s of
        Some u \<Rightarrow> if u \<le> STOP_RANGE \<and> \<not> ts_stop s
          then s\<lparr>ts_stop := True, ts_events := ts_events s @ [StopCommand t]\<rparr> else s
      | None \<Rightarrow> s)"

definition timing_sample_at :: "timing_topic \<Rightarrow> timing_config \<Rightarrow> real \<Rightarrow> timing_state \<Rightarrow> timing_sample" where
  "timing_sample_at topic config t s =
     \<lparr>ti_t = t, ti_x = ts_x s, ti_v = ts_v s, ti_range = WALL_X - ts_x s,
      ti_usedRange = used_range topic config s, ti_rawRange = map_option rd_range (ts_last s),
      ti_measuredX = map_option rd_x (ts_last s), ti_mapBaseX = map_base topic config s,
      ti_wallEstimate = wall_estimate topic config s,
      ti_wallError = map_option (\<lambda>w. w - WALL_X) (wall_estimate topic config s),
      ti_age = (case ts_last s of None \<Rightarrow> 0 | Some r \<Rightarrow> t - rd_stamp r),
      ti_stamp = map_option rd_stamp (ts_last s), ti_receive = map_option rd_receive (ts_last s),
      ti_queue = length (ts_queue s), ti_stop = ts_stop s, ti_contact = ts_contact s,
      ti_status = timingStatus (ts_contact s) (ts_stop s) (ts_v s) (ts_last s \<noteq> None)\<rparr>"

definition timing_step :: "timing_topic \<Rightarrow> timing_config \<Rightarrow> nat \<Rightarrow> timing_state \<Rightarrow> timing_state \<times> bool" where
  "timing_step topic config step s =
     (let t = real step * dt;
          s1 = decide topic config t (process topic config t (receive t (send config t (advance step s)))) in
      (s1\<lparr>ts_samples := ts_samples s1 @ [timing_sample_at topic config t s1]\<rparr>,
       ts_contact s1 \<or> (ts_stop s1 \<and> ts_v s1 = 0 \<and> t > 1)))"

fun timing_loop :: "timing_topic \<Rightarrow> timing_config \<Rightarrow> nat list \<Rightarrow> timing_state \<Rightarrow> timing_state" where
  "timing_loop topic config [] s = s"
| "timing_loop topic config (step # steps) s =
     (let (s', ended) = timing_step topic config step s in
      if ended then s' else timing_loop topic config steps s')"

datatype timing_metric = WallDistance real | MaxAge real | MaxWallError real | MaxQueue nat | GapError real
  | ContactMetric bool

definition timingMetrics :: "timing_topic \<Rightarrow> timing_sample list \<Rightarrow> real \<Rightarrow> timing_metric list" where
  "timingMetrics topic samples maxWallError =
     (let end' = last samples;
          shared = [WallDistance (ti_range end'), MaxAge (Max (set (map ti_age samples)))];
          contact = ContactMetric (ti_contact end') in
      case topic of
        Alignment \<Rightarrow> shared @ [MaxWallError maxWallError]
      | Queueing \<Rightarrow> shared @ [MaxQueue (Max (set (map ti_queue samples))), contact]
      | Delay \<Rightarrow> shared @ [GapError \<bar>ti_range end' - TARGET_GAP\<bar>, contact])"

datatype timing_outcome = AlignedWall | MisalignedWall | DelayContact | LatestContact | QueueContact | QueueStopped
  | Compensated | StoppedOutcome

definition timingOutcome :: "timing_topic \<Rightarrow> timing_config \<Rightarrow> bool \<Rightarrow> real \<Rightarrow> timing_outcome" where
  "timingOutcome topic config contact maxWallError =
     (if topic = Alignment then (if maxWallError < EPSILON then AlignedWall else MisalignedWall)
      else if contact then
        (if topic \<noteq> Queueing then DelayContact else if tc_latest config then LatestContact else QueueContact)
      else if topic = Queueing then QueueStopped
      else if tc_compensate config then Compensated else StoppedOutcome)"

record timing_run =
  tr_samples :: "timing_sample list"
  tr_events :: "timing_event list"
  tr_success :: bool
  tr_metrics :: "timing_metric list"
  tr_outcome :: timing_outcome

definition timing :: "timing_topic \<Rightarrow> timing_config \<Rightarrow> timing_run" where
  "timing topic config =
     (let s = timing_loop topic config [0..<TIMING_STEPS + 1] timing_start; samples = ts_samples s;
          end' = last samples;
          maxWallError = Max (set (map (\<lambda>m. \<bar>coalesce (ti_wallError m) 0\<bar>) samples));
          success = (if topic = Alignment then maxWallError < MAP_TOLERANCE
            else \<not> ts_contact s \<and> \<bar>ti_range end' - TARGET_GAP\<bar> < GOOD_GAP) in
      \<lparr>tr_samples = samples, tr_events = ts_events s, tr_success = success,
       tr_metrics = timingMetrics topic samples maxWallError,
       tr_outcome = timingOutcome topic config (ts_contact s) maxWallError\<rparr>)"

section \<open>Measurements are used in order and with their true age\<close>

definition sent_before :: "reading \<Rightarrow> reading \<Rightarrow> bool" where
  "sent_before a b \<longleftrightarrow> rd_stamp a < rd_stamp b"

definition true_reading :: "timing_config \<Rightarrow> reading \<Rightarrow> bool" where
  "true_reading config r \<longleftrightarrow> rd_receive r = rd_stamp r + tc_latency config \<and> rd_range r = WALL_X - rd_x r"

definition timing_sample_ok :: "timing_topic \<Rightarrow> timing_config \<Rightarrow> timing_sample \<Rightarrow> bool" where
  "timing_sample_ok topic config m \<longleftrightarrow>
     ti_x m + ROBOT_HALF_LENGTH \<le> WALL_X \<and> ti_contact m = (ti_x m + ROBOT_HALF_LENGTH = WALL_X)
     \<and> (case ti_stamp m of
          None \<Rightarrow> ti_usedRange m = None \<and> ti_wallError m = None
        | Some stamp \<Rightarrow> ti_age m = ti_t m - stamp \<and> tc_latency config - EPSILON \<le> ti_age m
            \<and> ti_usedRange m = (if tc_compensate config \<or> topic = Alignment then Some (ti_range m) else ti_rawRange m)
            \<and> ti_wallError m = (if topic = Alignment \<and> tc_by_stamp config then Some 0
                else map_option (\<lambda>x. ti_x m - x) (ti_measuredX m)))"

definition later_data :: "timing_sample \<Rightarrow> timing_sample \<Rightarrow> bool" where
  "later_data a b \<longleftrightarrow> (ti_stop a \<longrightarrow> ti_stop b)
     \<and> (case ti_stamp a of None \<Rightarrow> True | Some s \<Rightarrow> (case ti_stamp b of None \<Rightarrow> False | Some s' \<Rightarrow> s \<le> s'))"

text \<open>All measurements still on their way: the one in use, the queued ones, those in transit.\<close>

definition pending :: "timing_state \<Rightarrow> reading list" where
  "pending s = (case ts_last s of None \<Rightarrow> [] | Some r \<Rightarrow> [r]) @ ts_queue s @ ts_transit s"

text \<open>What holds of them between two passes, and how a later state relates to an earlier one.\<close>

definition data_ok :: "timing_config \<Rightarrow> real \<Rightarrow> timing_state \<Rightarrow> bool" where
  "data_ok config t s \<longleftrightarrow>
     sorted_wrt sent_before (pending s) \<and> list_all (\<lambda>r. true_reading config r \<and> rd_stamp r \<le> t) (pending s)
     \<and> (case ts_last s of None \<Rightarrow> True | Some r \<Rightarrow> rd_receive r \<le> t + EPSILON)
     \<and> list_all (\<lambda>r. rd_receive r \<le> t + EPSILON) (ts_queue s)"

definition newer :: "timing_state \<Rightarrow> timing_state \<Rightarrow> bool" where
  "newer s s' \<longleftrightarrow> (ts_stop s \<longrightarrow> ts_stop s') \<and> ts_samples s' = ts_samples s
     \<and> (case ts_last s of None \<Rightarrow> True
        | Some r \<Rightarrow> (case ts_last s' of None \<Rightarrow> False | Some r' \<Rightarrow> rd_stamp r \<le> rd_stamp r'))"

definition at_wall :: "timing_state \<Rightarrow> bool" where
  "at_wall s \<longleftrightarrow> ts_x s + ROBOT_HALF_LENGTH \<le> WALL_X \<and> ts_contact s = (ts_x s + ROBOT_HALF_LENGTH = WALL_X)"

definition timing_inv :: "timing_topic \<Rightarrow> timing_config \<Rightarrow> real \<Rightarrow> timing_state \<Rightarrow> bool" where
  "timing_inv topic config t s \<longleftrightarrow>
     data_ok config t s \<and> at_wall s
     \<and> list_all (timing_sample_ok topic config) (ts_samples s) \<and> sorted_wrt later_data (ts_samples s)
     \<and> list_all (\<lambda>m. (ti_stop m \<longrightarrow> ts_stop s)
         \<and> (case ti_stamp m of None \<Rightarrow> True | Some q \<Rightarrow> (case ts_last s of None \<Rightarrow> False | Some r \<Rightarrow> q \<le> rd_stamp r)))
       (ts_samples s)"

lemma newer_trans: "newer a b \<Longrightarrow> newer b c \<Longrightarrow> newer a c"
  by (auto simp: newer_def split: option.splits)

lemma newer_refl: "newer s s"
  by (simp add: newer_def split: option.split)

lemma advance_frame [frame_simps]:
  "ts_last (advance k s) = ts_last s" "ts_queue (advance k s) = ts_queue s" "ts_transit (advance k s) = ts_transit s"
  "ts_samples (advance k s) = ts_samples s" "pending (advance k s) = pending s"
  by (simp_all add: advance_def pending_def Let_def)

lemma advance_place: "at_wall s \<Longrightarrow> \<not> ts_contact s \<Longrightarrow> at_wall (advance k s)"
  by (auto simp: advance_def at_wall_def Let_def)

lemma advance_newer: "newer s (advance k s)"
  by (simp add: newer_def frame_simps split: option.split) (simp add: advance_def Let_def)

lemma send_ok:
  assumes "data_ok config u s" and "u < t"
  shows "data_ok config t (send config t s)"
proof -
  let ?r = "\<lparr>rd_stamp = t, rd_receive = t + tc_latency config, rd_x = ts_x s, rd_range = WALL_X - ts_x s\<rparr>"
  have "pending (send config t s) = pending s @ [?r]" by (simp add: pending_def send_def)
  with assms show ?thesis
    by (auto simp: data_ok_def sorted_wrt_append list_all_iff sent_before_def true_reading_def send_def
        split: option.splits)
qed

lemma receive_ok: "data_ok config t s \<Longrightarrow> data_ok config t (receive t s)"
proof -
  assume ok: "data_ok config t s"
  have "pending (receive t s) = pending s" by (simp add: pending_def receive_def Let_def)
  with ok show ?thesis
    by (auto simp: data_ok_def receive_def Let_def list_all_iff dest: set_takeWhileD split: option.splits)
qed

lemma process_ok:
  assumes ok: "data_ok config t s"
  shows "data_ok config t (process topic config t s) \<and> newer s (process topic config t s)"
proof -
  have used: "data_ok config t (s\<lparr>ts_last := Some r, ts_queue := q, ts_nextProcess := n\<rparr>)
      \<and> newer s (s\<lparr>ts_last := Some r, ts_queue := q, ts_nextProcess := n\<rparr>)"
    if queue: "ts_queue s = before @ r # q" for before r q n
    using ok queue
    by (auto simp: data_ok_def newer_def pending_def sorted_wrt_append list_all_iff sent_before_def split: option.splits)
  show ?thesis
  proof (cases "ts_queue s")
    case Nil
    then show ?thesis
      using ok by (auto simp: process_def data_ok_def newer_def pending_def Let_def split: option.splits)
  next
    case (Cons r rest)
    have "ts_queue s = butlast (ts_queue s) @ last (ts_queue s) # []" using Cons by simp
    from used [OF this] used [of "[]" r rest] Cons newer_refl [of s] ok show ?thesis
      by (auto simp: process_def Let_def)
  qed
qed

lemma decide_ok: "data_ok config t s \<Longrightarrow> data_ok config t (decide topic config u s) \<and> newer s (decide topic config u s)"
  by (auto simp: decide_def data_ok_def newer_def pending_def split: option.splits)

lemma phase_places [frame_simps]:
  "at_wall (send config t s) = at_wall s" "at_wall (receive t s) = at_wall s"
  "at_wall (process topic config t s) = at_wall s" "at_wall (decide topic config t s) = at_wall s"
  by (auto simp: at_wall_def send_def receive_def process_def decide_def Let_def split: list.splits option.splits)

lemma sample_at_ok:
  "data_ok config t s \<Longrightarrow> at_wall s \<Longrightarrow> timing_sample_ok topic config (timing_sample_at topic config t s)"
  by (auto simp: timing_sample_ok_def timing_sample_at_def data_ok_def at_wall_def used_range_def wall_estimate_def
      map_base_def pending_def true_reading_def algebra_simps split: option.splits)

lemma timing_step_inv:
  assumes inv: "timing_inv topic config u s" and u: "u < real k * dt" and going: "\<not> ts_contact s"
    and step: "timing_step topic config k s = (s', ended)"
  shows "timing_inv topic config (real k * dt) s' \<and> (\<not> ended \<longrightarrow> \<not> ts_contact s') \<and> ts_samples s' \<noteq> []"
proof -
  let ?t = "real k * dt"
  let ?s1 = "advance k s"
  let ?s2 = "receive ?t (send config ?t ?s1)"
  let ?s3 = "process topic config ?t ?s2"
  let ?s4 = "decide topic config ?t ?s3"
  have place: "at_wall ?s4"
    using inv going advance_place by (simp add: frame_simps timing_inv_def)
  have "data_ok config u ?s1"
    using inv by (simp add: data_ok_def frame_simps timing_inv_def)
  then have ok2: "data_ok config ?t ?s2" by (intro receive_ok send_ok [OF _ u])
  note ok3 = process_ok [OF ok2, of topic]
  note ok4 = decide_ok [OF conjunct1 [OF ok3], of topic ?t]
  have "newer ?s1 ?s2"
    by (simp add: newer_def send_def receive_def Let_def split: option.split)
  then have new: "newer s ?s4"
    using advance_newer ok3 ok4 by (meson newer_trans)
  have s': "s' = ?s4\<lparr>ts_samples := ts_samples ?s4 @ [timing_sample_at topic config ?t ?s4]\<rparr>"
    and ended: "ended = (ts_contact ?s4 \<or> ts_stop ?s4 \<and> ts_v ?s4 = 0 \<and> ?t > 1)"
    using step by (auto simp: timing_step_def Let_def)
  have samples: "ts_samples ?s4 = ts_samples s" using new by (simp add: newer_def)
  have kept: "list_all (\<lambda>m. (ti_stop m \<longrightarrow> ts_stop ?s4)
      \<and> (case ti_stamp m of None \<Rightarrow> True | Some q \<Rightarrow> (case ts_last ?s4 of None \<Rightarrow> False | Some r \<Rightarrow> q \<le> rd_stamp r)))
      (ts_samples s)"
    using inv new by (auto simp: timing_inv_def newer_def list_all_iff split: option.splits)
  obtain s4 where s4: "?s4 = s4" by blast
  have "timing_inv topic config ?t s'"
    using inv kept place ok4 sample_at_ok [OF conjunct1 [OF ok4] place]
    unfolding s' samples unfolding s4 timing_inv_def
    by (auto simp: data_ok_def pending_def at_wall_def sorted_wrt_append list_all_iff later_data_def
        timing_sample_at_def split: option.splits)
  then show ?thesis using ended unfolding s' by auto
qed

lemma timing_loop_inv:
  "timing_inv topic config u s \<Longrightarrow> u < real k * dt \<Longrightarrow> \<not> ts_contact s
     \<Longrightarrow> \<exists>u'. timing_inv topic config u' (timing_loop topic config [k..<n] s)"
proof (induction "n - k" arbitrary: k s u)
  case 0
  then show ?case by auto
next
  case (Suc d)
  obtain s' ended where step: "timing_step topic config k s = (s', ended)" by fastforce
  note after = timing_step_inv [OF Suc.prems step]
  have k: "k < n" and d: "d = n - Suc k" using Suc.hyps(2) by simp_all
  show ?case
  proof (cases ended)
    case True
    with after k step show ?thesis by (auto simp: upt_conv_Cons)
  next
    case False
    have "real k * dt < real (Suc k) * dt" by (simp add: dt_def)
    from Suc.hyps(1) [OF d conjunct1 [OF after] this] after False k step show ?thesis
      by (auto simp: upt_conv_Cons)
  qed
qed

lemma timing_start_inv: "timing_inv topic config (- 1) timing_start" "\<not> ts_contact timing_start"
  by (simp_all add: timing_inv_def data_ok_def at_wall_def pending_def timing_start_def WALL_X_def ROBOT_HALF_LENGTH_def)

text \<open>
  in every timing run, for any settings: the robot never enters the wall; measurements are used in
  the order they were taken and never before their latency has passed; a decision once made to stop
  stands; the compensated range is exactly the distance to the wall now; and the wall drawn into the
  map is exactly where it is when each range is placed at the position of its own time stamp, while
  placing it at the current position is wrong by the way driven since the measurement.
\<close>

theorem timing_data_sound:
  "list_all (timing_sample_ok topic config) (tr_samples (timing topic config)) \<and>
   sorted_wrt later_data (tr_samples (timing topic config))"
  using timing_loop_inv [OF timing_start_inv(1) _ timing_start_inv(2), where k = 0 and n = "TIMING_STEPS + 1"]
  by (auto simp: timing_def Let_def timing_inv_def simp del: upt_Suc)

end
