(* ===== verification/Systems_Runs.thy ===== *)
theory Systems_Runs
  imports Systems_Mechanics Systems_Behavior Systems_Tracking Systems_Coordination Systems_Timing
begin

text \<open>
  The entry points of \<open>lab/js/systems/core.js\<close>: an experiment run from raw settings, the event list
  grouped for display, and the sentence that compares two mechanics runs.
\<close>

section \<open>Running an experiment\<close>

datatype system_run =
    MechanicsRun mechanics_topic config mechanics_run
  | BehaviorRun behavior_topic config behavior_run
  | TrackingRun tracking_topic config tracking_run
  | CoordinationRun coordination_topic config coordination_run
  | TimingRun timing_topic config timing_run
  | DiagnosticsRun diagnostics_topic config diagnostics_run

definition run_experiment :: "string \<Rightarrow> string \<Rightarrow> config \<Rightarrow> system_run" where
  "run_experiment course topic config =
     (if course = ''mechanics'' then
        (let k = (if topic = ''braking'' then Braking else if topic = ''force'' then Force else Traction) in
         MechanicsRun k config (mechanics k (mechanics_config_of config)))
      else if course = ''behavior'' then
        (let k = (if topic = ''blocked'' then Blocked else if topic = ''missing'' then MissingParcel else Sequence) in
         BehaviorRun k config (behavior k (behavior_config_of config)))
      else if course = ''tracking'' then
        (let k = (if topic = ''crossing'' then Crossing else if topic = ''velocity'' then Velocity else Prediction) in
         TrackingRun k config (tracking k (tracking_config_of config)))
      else if course = ''coordination'' then
        (let k = (if topic = ''frames'' then Frames else if topic = ''feedback'' then Feedback else Calibrate) in
         CoordinationRun k config (coordination k (coordination_config_of config)))
      else if course = ''timing'' then
        (let k = (if topic = ''alignment'' then Alignment else if topic = ''queue'' then Queueing else Delay) in
         TimingRun k config (timing k (timing_config_of config)))
      else
        (let k = (if topic = ''impact'' then Impact else if topic = ''missing'' then Missing else Distance) in
         DiagnosticsRun k config (diagnostics k (diagnostics_config_of config))))"

definition simulateSystem :: "string \<Rightarrow> string \<Rightarrow> (string \<Rightarrow> raw_value) \<Rightarrow> systems_error + system_run" where
  "simulateSystem course topic input =
     (case validateSystemConfig course topic input of
        Inl e \<Rightarrow> Inl e | Inr config \<Rightarrow> Inr (run_experiment course topic config))"

section \<open>The list of events\<close>

record 'w shown_event =
  se_t :: real
  se_text :: 'w
  se_kind :: bool

record 'w event_group =
  eg_t :: real
  eg_text :: 'w
  eg_kind :: bool
  eg_count :: nat
  eg_every :: "real option"

definition group_event :: "'w event_group list \<Rightarrow> 'w shown_event \<Rightarrow> 'w event_group list" where
  "group_event groups e =
     (if groups \<noteq> [] \<and> eg_text (last groups) = se_text e \<and> \<not> se_kind e
      then
        let g = last groups; n = eg_count g + 1 in
        butlast groups @ [g\<lparr>eg_count := n, eg_every := Some ((se_t e - eg_t g) / (real n - 1))\<rparr>]
      else groups @ [\<lparr>eg_t = se_t e, eg_text = se_text e, eg_kind = se_kind e, eg_count = 1, eg_every = None\<rparr>])"

definition groupEvents :: "'w shown_event list \<Rightarrow> 'w event_group list" where
  "groupEvents events = foldl group_event [] events"

text \<open>Grouping loses no event: each group stands for its number of equal texts in a row.\<close>

lemma group_event_texts:
  "concat (map (\<lambda>g. replicate (eg_count g) (eg_text g)) (group_event groups e))
     = concat (map (\<lambda>g. replicate (eg_count g) (eg_text g)) groups) @ [se_text e]"
proof (cases groups rule: rev_cases)
  case Nil
  then show ?thesis by (simp add: group_event_def)
next
  case (snoc gs g)
  then show ?thesis by (simp add: group_event_def Let_def replicate_append_same)
qed

lemma grouped_texts:
  "concat (map (\<lambda>g. replicate (eg_count g) (eg_text g)) (groupEvents events)) = map se_text events"
  by (induction events rule: rev_induct) (simp_all add: groupEvents_def group_event_texts)

section \<open>Comparing two mechanics runs\<close>

definition RATIO_DIGITS :: nat where "RATIO_DIGITS = 2"

datatype compared = ByMass | ByPower | BySpeed

text \<open>The numbers of the sentence; a ratio to zero is written as a dash, \<open>None\<close>.\<close>

record comparison =
  cp_kind :: compared
  cp_from :: real
  cp_to :: real
  cp_before :: real
  cp_now :: real
  cp_ratio :: "real option"
  cp_speed_ratio :: "real option"

definition metric_value :: "mechanics_metric \<Rightarrow> real option" where
  "metric_value m =
     (case m of RemainingToLine v \<Rightarrow> Some v | DistanceAfterBrake v \<Rightarrow> Some v | BrakeToStop v \<Rightarrow> v
      | StartingAcceleration v \<Rightarrow> Some v | SpeedAtPowerOff v \<Rightarrow> v | OdometryError v \<Rightarrow> Some v)"

definition ratio :: "real \<Rightarrow> real \<Rightarrow> real option" where
  "ratio now before = (if before \<noteq> 0 then Some (to_fixed RATIO_DIGITS (now / before)) else None)"

definition changed_settings :: "string list \<Rightarrow> config \<Rightarrow> config \<Rightarrow> string list" where
  "changed_settings keys now before = filter (\<lambda>k. now k \<noteq> before k) keys"

definition compare_metrics :: "compared \<Rightarrow> string \<Rightarrow> nat \<Rightarrow> config \<times> mechanics_metric list \<Rightarrow> config \<times> mechanics_metric list
    \<Rightarrow> comparison option" where
  "compare_metrics kind key index run previous =
     (case (metric_value (snd run ! index), metric_value (snd previous ! index), number_of (fst run) key,
         number_of (fst previous) key) of
        (Some now, Some before, Some to', Some from') \<Rightarrow>
          Some \<lparr>cp_kind = kind, cp_from = from', cp_to = to', cp_before = to_fixed 2 before, cp_now = to_fixed 2 now,
            cp_ratio = ratio now before,
            cp_speed_ratio = (if kind = BySpeed then ratio to' from' else None)\<rparr>
      | _ \<Rightarrow> None)"

text \<open>The previous run is one of the same topic, as the page keeps it; \<open>keys\<close> are the topic's controls.\<close>

definition compareRuns :: "mechanics_topic \<Rightarrow> string list \<Rightarrow> config \<times> mechanics_metric list
    \<Rightarrow> (config \<times> mechanics_metric list) option \<Rightarrow> comparison option" where
  "compareRuns topic keys run previous =
     (case previous of
        None \<Rightarrow> None
      | Some p \<Rightarrow>
          (case changed_settings keys (fst run) (fst p) of
             [key] \<Rightarrow>
               if topic = Force \<and> key = ''mass'' then compare_metrics ByMass key 0 run p
               else if topic = Force \<and> key = ''power'' then compare_metrics ByPower key 0 run p
               else if topic = Braking \<and> key = ''initialSpeed'' then compare_metrics BySpeed key 1 run p
               else None
           | _ \<Rightarrow> None))"

text \<open>Two runs that differ in nothing, or in more than one setting, are not compared.\<close>

lemma compared_runs_differ_once:
  "compareRuns topic keys run (Some p) = Some c \<Longrightarrow> length (changed_settings keys (fst run) (fst p)) = 1"
  by (auto simp: compareRuns_def split: list.splits)

end
