(* ===== verification/Engine_Maths.thy ===== *)
theory Engine_Maths
  imports Js_Math "HOL-Library.Word"
begin

text \<open>
  \<open>lab/js/core/engine/maths.js\<close> and the numbers of \<open>lab/js/core/engine/constants.js\<close>: clamping,
  wheel speeds, the Mulberry32 generator on 32-bit words and the normal samples taken from it. The
  state of a generator is passed on explicitly, so a definition shows in which order it draws.
\<close>

unbundle bit_operations_syntax

section \<open>Clamping and wheel speeds\<close>

definition clamp_to :: "real \<Rightarrow> real \<Rightarrow> real \<Rightarrow> real" where
  "clamp_to low high v = max low (min high v)"

definition clamp_unit :: "real \<Rightarrow> real" where
  "clamp_unit v = clamp_to (- 1) 1 v"

definition rpmToSpeed :: "real \<Rightarrow> real \<Rightarrow> real" where
  "rpmToSpeed rpm radius = (rpm * 2 * pi * radius) / 60"

definition speedToRpm :: "real \<Rightarrow> real \<Rightarrow> real" where
  "speedToRpm speed radius = (speed / (2 * pi * radius)) * 60"

lemma clamp_to_bounds: "low \<le> high \<Longrightarrow> low \<le> clamp_to low high v \<and> clamp_to low high v \<le> high"
  by (simp add: clamp_to_def)

lemma clamp_to_id: "low \<le> v \<Longrightarrow> v \<le> high \<Longrightarrow> clamp_to low high v = v"
  by (simp add: clamp_to_def)

lemma clamp_to_between: "low \<le> 0 \<Longrightarrow> 0 \<le> high \<Longrightarrow> min 0 v \<le> clamp_to low high v \<and> clamp_to low high v \<le> max 0 v"
  by (auto simp: clamp_to_def max_def min_def)

lemma clamp_unit_bounds: "\<bar>clamp_unit v\<bar> \<le> 1"
  unfolding clamp_unit_def using clamp_to_bounds [of "- 1" 1 v] by (simp add: abs_le_iff)

lemma rpm_speed_inverse: "radius \<noteq> 0 \<Longrightarrow> speedToRpm (rpmToSpeed rpm radius) radius = rpm"
  by (simp add: speedToRpm_def rpmToSpeed_def)

lemma rpmToSpeed_mono: "0 \<le> radius \<Longrightarrow> a \<le> b \<Longrightarrow> rpmToSpeed a radius \<le> rpmToSpeed b radius"
  unfolding rpmToSpeed_def by (intro divide_right_mono mult_right_mono) simp_all

lemma abs_rpmToSpeed: "0 \<le> radius \<Longrightarrow> \<bar>rpmToSpeed rpm radius\<bar> = rpmToSpeed \<bar>rpm\<bar> radius"
  by (simp add: rpmToSpeed_def abs_mult)

section \<open>Pseudo-random numbers\<close>

text \<open>
  \<open>Math.imul\<close>, \<open>>>>\<close>, \<open>^\<close> and \<open>|\<close> read their operands modulo \<open>2 ^ 32\<close>, and so does the addition
  before the second \<open>^=\<close>; the growing sum \<open>state\<close> is only used modulo \<open>2 ^ 32\<close> as well.
\<close>

type_synonym rng = "32 word"

definition mix :: "32 word \<Rightarrow> 32 word" where
  "mix state =
     (let mixed = (state XOR drop_bit 15 state) * (state OR 1);
          mixed = mixed XOR (mixed + (mixed XOR drop_bit 7 mixed) * (mixed OR 61))
      in mixed XOR drop_bit 14 mixed)"

definition rng_draw :: "rng \<Rightarrow> real \<times> rng" where
  "rng_draw rng = (let state = rng + 0x6d2b79f5 in (real (unat (mix state)) / 4294967296, state))"

definition randomGenerator :: "int \<Rightarrow> rng" where
  "randomGenerator seed = word_of_int seed"

definition gaussian :: "rng \<Rightarrow> real \<times> rng" where
  "gaussian rng =
     (let (u, rng) = rng_draw rng;
          (v, rng) = rng_draw rng
      in (sqrt (- 2 * ln (max (1 / 10 ^ 9) u)) * cos (2 * pi * v), rng))"

lemma rng_draw_bounds: "0 \<le> fst (rng_draw rng) \<and> fst (rng_draw rng) < 1"
proof -
  let ?w = "mix (rng + 0x6d2b79f5)"
  have "unat ?w < 2 ^ LENGTH(32)" by (rule unsigned_less)
  then have "unat ?w < 4294967296" by simp
  then have "real (unat ?w) < 4294967296" by (metis of_nat_less_iff of_nat_numeral)
  moreover have "0 \<le> real (unat ?w)" by (rule of_nat_0_le_iff)
  ultimately show ?thesis unfolding rng_draw_def Let_def fst_conv by (simp only: zero_le_divide_iff divide_less_eq) simp
qed

lemma rng_drawn: "rng_draw rng = (u, rng') \<Longrightarrow> 0 \<le> u \<and> u < 1"
  using rng_draw_bounds [of rng] by simp

lemma spread_bounds:
  fixes u f :: real
  assumes u: "0 \<le> u" "u < 1" and f: "0 \<le> f"
  shows "1 - f \<le> 1 + (u * 2 - 1) * f \<and> 1 + (u * 2 - 1) * f \<le> 1 + f"
proof -
  have "(- 1) * f \<le> (u * 2 - 1) * f" "(u * 2 - 1) * f \<le> 1 * f"
    using u by (intro mult_right_mono f; simp)+
  then show ?thesis by simp
qed

section \<open>Constants\<close>

definition CONTROL_DT :: real where "CONTROL_DT = 1 / 10"
definition PHYSICS_DT :: real where "PHYSICS_DT = 1 / 100"
definition SCAN_COUNT :: nat where "SCAN_COUNT = 24"
definition FEATURES :: nat where "FEATURES = 16"
definition PARAMETERS :: nat where "PARAMETERS = FEATURES * 2"

text \<open>The nominal parameters of the robot, and the weights of the reward with their switches.\<close>

record physics =
  ph_radius :: real
  ph_track :: real
  ph_bodyRadius :: real
  ph_maxRpm :: real
  ph_accelRpm :: real
  ph_motorLag :: real
  ph_latency :: real
  ph_slip :: real
  ph_noise :: real
  ph_randomize :: bool
  ph_course :: "string option"

definition DEFAULT_PHYSICS :: physics where
  "DEFAULT_PHYSICS =
     \<lparr> ph_radius = 65 / 1000, ph_track = 32 / 100, ph_bodyRadius = 18 / 100, ph_maxRpm = 80,
       ph_accelRpm = 180, ph_motorLag = 14 / 100, ph_latency = 6 / 100, ph_slip = 35 / 1000,
       ph_noise = 1 / 100, ph_randomize = True, ph_course = None \<rparr>"

record reward_terms =
  on_success :: bool
  on_collision :: bool
  on_time :: bool
  on_progress :: bool
  on_heading :: bool
  on_settling :: bool
  on_careful :: bool
  on_clearance :: bool
  on_moving :: bool
  on_near :: bool

record reward_settings =
  rw_success :: real
  rw_collision :: real
  rw_time :: real
  rw_progress :: real
  rw_heading :: real
  rw_settling :: real
  rw_careful :: real
  rw_clearance :: real
  rw_moving :: real
  rw_near :: real
  rw_orientation :: bool
  rw_threshold :: real
  rw_enabled :: reward_terms

definition DEFAULT_REWARD :: reward_settings where
  "DEFAULT_REWARD =
     \<lparr> rw_success = 100, rw_collision = 30, rw_time = 1, rw_progress = 25, rw_heading = 5,
       rw_settling = 3 / 10, rw_careful = 1, rw_clearance = 4, rw_moving = 8, rw_near = 8,
       rw_orientation = True, rw_threshold = 12,
       rw_enabled =
         \<lparr> on_success = True, on_collision = True, on_time = True, on_progress = True,
           on_heading = True, on_settling = True, on_careful = True, on_clearance = False,
           on_moving = False, on_near = False \<rparr> \<rparr>"

text \<open>The obstacles of each course and task, in metres from the top left.\<close>

datatype task = Delivery | Dock

record wall =
  wl_x :: real
  wl_y :: real
  wl_w :: real
  wl_h :: real

definition wall :: "real \<Rightarrow> real \<Rightarrow> real \<Rightarrow> real \<Rightarrow> wall" where
  "wall x y w h = \<lparr> wl_x = x, wl_y = y, wl_w = w, wl_h = h \<rparr>"

definition COURSES :: "(string \<times> (task \<Rightarrow> wall list)) list" where
  "COURSES =
     [(''standard'', \<lambda>task. case task of
         Delivery \<Rightarrow> [wall (14 / 10) (7 / 10) (35 / 100) (115 / 100), wall (285 / 100) (145 / 100) (35 / 100) (105 / 100)]
       | Dock \<Rightarrow> [wall (345 / 100) (65 / 100) 1 (22 / 100), wall (345 / 100) (235 / 100) 1 (22 / 100)]),
      (''open'', \<lambda>task. case task of
         Delivery \<Rightarrow> [wall (22 / 10) (115 / 100) (45 / 100) 1]
       | Dock \<Rightarrow> []),
      (''turns'', \<lambda>task. case task of
         Delivery \<Rightarrow> [wall (14 / 10) (7 / 10) (35 / 100) (115 / 100), wall (285 / 100) (145 / 100) (35 / 100) (105 / 100),
                      wall (205 / 100) (255 / 100) (12 / 10) (25 / 100)]
       | Dock \<Rightarrow> [wall (345 / 100) (65 / 100) 1 (22 / 100), wall (345 / 100) (235 / 100) 1 (22 / 100),
                  wall (17 / 10) (35 / 100) (35 / 100) 1, wall (25 / 10) (215 / 100) (6 / 10) (3 / 10)])]"

lemma PHYSICS_DT_pos [simp]: "0 < PHYSICS_DT" "0 \<le> PHYSICS_DT"
  by (simp_all add: PHYSICS_DT_def)

lemma CONTROL_DT_pos [simp]: "0 < CONTROL_DT"
  by (simp add: CONTROL_DT_def)

end
