(* ===== verification/Engine_World.thy ===== *)
theory Engine_World
  imports Engine_Maths
begin

text \<open>
  \<open>lab/js/core/engine/world.js\<close>: the differential-drive robot of the learning, sensor and control
  lessons. A \<open>world\<close> holds what the constructor of class \<open>World\<close> sets and no method changes; an
  \<open>episode\<close> holds what \<open>reset\<close> sets and the steps change. Every method that draws random numbers
  threads the generator of the episode.
\<close>

section \<open>Constants\<close>

definition ARENA_WIDTH :: real where "ARENA_WIDTH = 48 / 10"
definition ARENA_HEIGHT :: real where "ARENA_HEIGHT = 32 / 10"

type_synonym rect = "real \<times> real \<times> real \<times> real"

definition ARENA_BOUNDARY_RECTS :: "rect list" where
  "ARENA_BOUNDARY_RECTS =
     [(- 1, - 1, 0, 5), (ARENA_WIDTH, - 1, 6, 5), (- 1, - 1, 6, 0), (- 1, ARENA_HEIGHT, 6, 5)]"

record goal =
  gl_x :: real
  gl_y :: real
  gl_theta :: real
  gl_radius :: real

definition GOALS :: "task \<Rightarrow> goal" where
  "GOALS task =
     (case task of
        Delivery \<Rightarrow> \<lparr> gl_x = 418 / 100, gl_y = 62 / 100, gl_theta = 0, gl_radius = 2 / 10 \<rparr>
      | Dock \<Rightarrow> \<lparr> gl_x = 405 / 100, gl_y = 16 / 10, gl_theta = 0, gl_radius = 12 / 100 \<rparr>)"

definition MARKER_OFFSET_X :: real where "MARKER_OFFSET_X = 3 / 10"

definition MARKER_ID :: "task \<Rightarrow> string" where
  "MARKER_ID task = (case task of Delivery \<Rightarrow> ''D-01'' | Dock \<Rightarrow> ''C-01'')"

definition SUBSTEPS_PER_COMMAND :: nat where "SUBSTEPS_PER_COMMAND = 10"
definition EPISODE_TIME_LIMIT :: real where "EPISODE_TIME_LIMIT = 35"
definition GOAL_HOLD_TIME :: real where "GOAL_HOLD_TIME = 5 / 10"
definition DOCK_ALIGNMENT_TOLERANCE :: real where "DOCK_ALIGNMENT_TOLERANCE = (8 * pi) / 180"
definition STATIONARY_SPEED :: real where "STATIONARY_SPEED = 1 / 100"
definition STATIONARY_YAW_RATE :: real where "STATIONARY_YAW_RATE = 6 / 100"
definition GRAVITY :: real where "GRAVITY = 981 / 100"
definition ACCELEROMETER_LIMIT :: real where "ACCELEROMETER_LIMIT = 15696 / 100"
definition MIN_MOTOR_LAG :: real where "MIN_MOTOR_LAG = 15 / 1000"

definition START_X_MIN :: real where "START_X_MIN = 55 / 100"
definition START_X_MAX :: real where "START_X_MAX = 77 / 100"
definition START_X_SPAN :: real where "START_X_SPAN = 22 / 100"

record start_band =
  bn_yMin :: real
  bn_yMax :: real
  bn_ySpan :: real

definition nearStartBand :: "task \<Rightarrow> start_band" where
  "nearStartBand task =
     (case task of
        Delivery \<Rightarrow> \<lparr> bn_yMin = 245 / 100, bn_yMax = 265 / 100, bn_ySpan = 2 / 10 \<rparr>
      | Dock \<Rightarrow> \<lparr> bn_yMin = 19 / 10, bn_yMax = 25 / 10, bn_ySpan = 6 / 10 \<rparr>)"

definition NEAR_START_HEADING_SPREAD :: real where "NEAR_START_HEADING_SPREAD = 7 / 10"
definition VARIED_START_HEADING_MIN :: real where "VARIED_START_HEADING_MIN = 35 / 100"
definition START_CLEARANCE :: real where "START_CLEARANCE = 12 / 100"
definition START_GOAL_DISTANCE :: real where "START_GOAL_DISTANCE = 8 / 10"
definition RANDOM_START_ATTEMPTS :: nat where "RANDOM_START_ATTEMPTS = 1000"

definition LIDAR_RANGE :: real where "LIDAR_RANGE = 32 / 10"
definition LIDAR_MIN_RANGE :: real where "LIDAR_MIN_RANGE = 2 / 100"
definition SCAN_LEFT_INDEX :: nat where "SCAN_LEFT_INDEX = 21"
definition SCAN_RIGHT_INDEX :: nat where "SCAN_RIGHT_INDEX = 3"
definition CAMERA_HALF_FOV :: real where "CAMERA_HALF_FOV = (55 * pi) / 180"
definition CAMERA_RANGE :: real where "CAMERA_RANGE = 5"
definition CAMERA_MIN_DISTANCE :: real where "CAMERA_MIN_DISTANCE = 2 / 100"
definition CAMERA_DROPOUT :: real where "CAMERA_DROPOUT = 15 / 1000"
definition CAMERA_RANGE_NOISE :: real where "CAMERA_RANGE_NOISE = 15 / 10"
definition CAMERA_OCCLUSION_MARGIN :: real where "CAMERA_OCCLUSION_MARGIN = 1 / 100"
definition CAMERA_POSITION_GAIN :: real where "CAMERA_POSITION_GAIN = 25 / 100"
definition CAMERA_HEADING_GAIN :: real where "CAMERA_HEADING_GAIN = 15 / 100"
definition GYRO_BIAS_SPREAD :: real where "GYRO_BIAS_SPREAD = 8 / 1000"
definition GYRO_NOISE :: real where "GYRO_NOISE = 3 / 10"
definition MAGNETOMETER_NOISE :: real where "MAGNETOMETER_NOISE = 8 / 10"
definition ACCELEROMETER_NOISE :: real where "ACCELEROMETER_NOISE = 4"
definition MAGNETIC_FIELD :: real where "MAGNETIC_FIELD = 25"
definition MAGNETIC_FIELD_DOWN :: real where "MAGNETIC_FIELD_DOWN = - 40"
definition COMPASS_FUSION_GAIN :: real where "COMPASS_FUSION_GAIN = 12 / 1000"

definition toDegrees :: "real \<Rightarrow> real" where "toDegrees radians = (radians * 180) / pi"

definition TILT_PER_ACCELERATION :: real where "TILT_PER_ACCELERATION = 12 / 1000"
definition TILT_LIMIT :: real where "TILT_LIMIT = 8 / 100"
definition TILT_STIFFNESS :: real where "TILT_STIFFNESS = 50"
definition TILT_DAMPING :: real where "TILT_DAMPING = 10"

definition HEADING_REWARD_FALLOFF :: real where "HEADING_REWARD_FALLOFF = 12 / 10"
definition SETTLING_SPEED :: real where "SETTLING_SPEED = 2 / 10"
definition TURN_PENALTY :: real where "TURN_PENALTY = 25 / 1000"
definition REVERSE_PENALTY :: real where "REVERSE_PENALTY = 5 / 10"
definition CLEARANCE_PENALTY_RANGE :: real where "CLEARANCE_PENALTY_RANGE = 4 / 10"
definition MOVING_SPEED :: real where "MOVING_SPEED = 6 / 100"
definition NEAR_GOAL_DISTANCE :: real where "NEAR_GOAL_DISTANCE = 6 / 10"
definition FINAL_DISTANCE_WEIGHT :: real where "FINAL_DISTANCE_WEIGHT = 32 / 100"

section \<open>The world and its episode\<close>

record world =
  wo_task :: task
  wo_settings :: reward_settings
  wo_physics :: physics
  wo_goal :: goal
  wo_marker :: "real \<times> real"
  wo_course :: string
  wo_rects :: "rect list"

definition rayRects :: "world \<Rightarrow> rect list" where
  "rayRects w = wo_rects w @ ARENA_BOUNDARY_RECTS"

text \<open>
  \<open>rewards\<close> and \<open>physics\<close> are objects with some of the fields; spreading them over the defaults
  is an update of the default records.
\<close>

definition course_of :: "string option \<Rightarrow> string" where
  "course_of course =
     (case course of
        Some name \<Rightarrow> if map_of COURSES name \<noteq> None then name else ''standard''
      | None \<Rightarrow> ''standard'')"

definition walls_of :: "string \<Rightarrow> task \<Rightarrow> wall list" where
  "walls_of course task = (case map_of COURSES course of Some layout \<Rightarrow> layout task | None \<Rightarrow> [])"

definition rect_of :: "wall \<Rightarrow> rect" where
  "rect_of wl = (wl_x wl, wl_y wl, wl_x wl + wl_w wl, wl_y wl + wl_h wl)"

definition new_world :: "task \<Rightarrow> (reward_settings \<Rightarrow> reward_settings) \<Rightarrow> (physics \<Rightarrow> physics) \<Rightarrow> world" where
  "new_world task rewards physics =
     (let ph = physics DEFAULT_PHYSICS;
          goal = GOALS task;
          course = course_of (ph_course ph)
      in \<lparr> wo_task = task, wo_settings = rewards DEFAULT_REWARD, wo_physics = ph, wo_goal = goal,
           wo_marker = (gl_x goal + MARKER_OFFSET_X, gl_y goal), wo_course = course,
           wo_rects = map rect_of (walls_of course task) \<rparr>)"

record pose =
  po_x :: real
  po_y :: real
  po_theta :: real

record body =
  bd_x :: real
  bd_y :: real
  bd_theta :: real
  bd_left :: real
  bd_right :: real
  bd_targetL :: real
  bd_targetR :: real
  bd_v :: real
  bd_omega :: real
  bd_t :: real
  bd_hold :: real
  bd_contact :: bool
  bd_latched :: bool
  bd_peak :: real
  bd_total :: real
  bd_done :: bool
  bd_success :: bool
  bd_wrongAngle :: bool
  bd_collisions :: nat
  bd_ax :: real
  bd_ay :: real
  bd_estX :: real
  bd_estY :: real
  bd_estTheta :: real
  bd_roll :: real
  bd_pitch :: real
  bd_rollRate :: real
  bd_pitchRate :: real

definition initialState :: "pose \<Rightarrow> body" where
  "initialState pose =
     \<lparr> bd_x = po_x pose, bd_y = po_y pose, bd_theta = po_theta pose, bd_left = 0, bd_right = 0,
       bd_targetL = 0, bd_targetR = 0, bd_v = 0, bd_omega = 0, bd_t = 0, bd_hold = 0,
       bd_contact = False, bd_latched = False, bd_peak = 0, bd_total = 0, bd_done = False,
       bd_success = False, bd_wrongAngle = False, bd_collisions = 0, bd_ax = 0, bd_ay = 0,
       bd_estX = po_x pose, bd_estY = po_y pose, bd_estTheta = po_theta pose,
       bd_roll = 0, bd_pitch = 0, bd_rollRate = 0, bd_pitchRate = 0 \<rparr>"

record actual =
  ac_radiusL :: real
  ac_radiusR :: real
  ac_track :: real
  ac_lag :: real
  ac_latency :: real
  ac_gripL :: real
  ac_gripR :: real
  ac_gainL :: real
  ac_gainR :: real

record due_command =
  du_at :: real
  du_left :: real
  du_right :: real

record camera_reading =
  cm_visible :: bool
  cm_id :: "string option"
  cm_distance :: num
  cm_bearing :: num
  cm_yaw :: num
  cm_age :: real

record imu_reading =
  im_accel :: "real \<times> real \<times> real"
  im_gyro :: "real \<times> real \<times> real"
  im_mag :: "real \<times> real \<times> real"
  im_yaw :: real
  im_pitch :: real
  im_roll :: real

record observation =
  ob_scan :: "real list"
  ob_front :: real
  ob_left :: real
  ob_right :: real
  ob_camera :: camera_reading
  ob_imu :: imu_reading
  ob_odometry :: pose
  ob_wheelRpm :: "real \<times> real"
  ob_goal :: goal
  ob_task :: task

record episode =
  ep_rng :: rng
  ep_actual :: actual
  ep_state :: body
  ep_queue :: "due_command list"
  ep_gyroBias :: real
  ep_camera :: camera_reading
  ep_observation :: observation

section \<open>Walls, rays and start positions\<close>

text \<open>True when a chassis centred at the point would overlap a wall or leave the arena.\<close>

definition overlaps :: "real \<Rightarrow> real \<Rightarrow> real \<Rightarrow> rect \<Rightarrow> bool" where
  "overlaps radius x y rect =
     (case rect of (x0, y0, x1, y1) \<Rightarrow>
        let dx = x - clamp_to x0 x1 x; dy = y - clamp_to y0 y1 y
        in dx * dx + dy * dy < radius * radius)"

definition blocked :: "world \<Rightarrow> real \<Rightarrow> real \<Rightarrow> real \<Rightarrow> bool" where
  "blocked w x y clearance =
     (let radius = ph_bodyRadius (wo_physics w) + clearance
      in x < radius \<or> x > ARENA_WIDTH - radius \<or> y < radius \<or> y > ARENA_HEIGHT - radius
         \<or> list_ex (overlaps radius x y) (wo_rects w))"

text \<open>
  One axis of the slab test. The interval is \<open>None\<close> while it is still \<open>(-Infinity, Infinity)\<close>; the
  outer \<open>None\<close> is the \<open>continue\<close> of the loop.
\<close>

definition slab :: "real \<Rightarrow> real \<Rightarrow> real \<Rightarrow> real \<Rightarrow> (real \<times> real) option \<Rightarrow> (real \<times> real) option option" where
  "slab p d low high interval =
     (if \<bar>d\<bar> < 1 / 10 ^ 9 then (if p < low \<or> p > high then None else Some interval)
      else let t0 = (low - p) / d; t1 = (high - p) / d
           in Some (Some (case interval of
                None \<Rightarrow> (min t0 t1, max t0 t1)
              | Some (entry, leave) \<Rightarrow> (max entry (min t0 t1), min leave (max t0 t1)))))"

definition ray_hit :: "real \<Rightarrow> real \<Rightarrow> real \<Rightarrow> real \<Rightarrow> real \<Rightarrow> rect \<Rightarrow> real" where
  "ray_hit x y dx dy nearest rect =
     (case rect of (x0, y0, x1, y1) \<Rightarrow>
        (case slab x dx x0 x1 None of
           None \<Rightarrow> nearest
         | Some interval \<Rightarrow>
             (case slab y dy y0 y1 interval of
                Some (Some (entry, leave)) \<Rightarrow>
                  if leave \<ge> max 0 entry \<and> entry \<ge> 0 then min nearest entry else nearest
              | _ \<Rightarrow> nearest)))"

definition ray :: "world \<Rightarrow> real \<Rightarrow> real \<Rightarrow> real \<Rightarrow> real \<Rightarrow> real" where
  "ray w x y angle reach = foldl (ray_hit x y (cos angle) (sin angle)) reach (rayRects w)"

record bounds =
  bo_x0 :: real
  bo_x1 :: real
  bo_y0 :: real
  bo_y1 :: real

definition startBounds :: "world \<Rightarrow> real \<Rightarrow> bounds" where
  "startBounds w reach =
     (let margin = ph_bodyRadius (wo_physics w) + START_CLEARANCE;
          t = clamp_to 0 1 reach;
          band = nearStartBand (wo_task w)
      in \<lparr> bo_x0 = START_X_MIN + (margin - START_X_MIN) * t,
           bo_x1 = START_X_MAX + (ARENA_WIDTH - margin - START_X_MAX) * t,
           bo_y0 = bn_yMin band + (margin - bn_yMin band) * t,
           bo_y1 = bn_yMax band + (ARENA_HEIGHT - margin - bn_yMax band) * t \<rparr>)"

datatype engine_error = NoClearStart

text \<open>The loop of \<open>randomStart\<close>, with the number of attempts left.\<close>

primrec start_attempts :: "world \<Rightarrow> bounds \<Rightarrow> nat \<Rightarrow> rng \<Rightarrow> engine_error + ((real \<times> real) \<times> rng)" where
  "start_attempts w bounds 0 rng = Inl NoClearStart"
| "start_attempts w bounds (Suc left) rng =
     (let (u, rng) = rng_draw rng;
          x = bo_x0 bounds + u * (bo_x1 bounds - bo_x0 bounds);
          (v, rng) = rng_draw rng;
          y = bo_y0 bounds + v * (bo_y1 bounds - bo_y0 bounds)
      in if \<not> blocked w x y START_CLEARANCE
            \<and> hypot (x - gl_x (wo_goal w)) (y - gl_y (wo_goal w)) > START_GOAL_DISTANCE
         then Inr ((x, y), rng)
         else start_attempts w bounds left rng)"

definition randomStart :: "world \<Rightarrow> rng \<Rightarrow> real \<Rightarrow> engine_error + ((real \<times> real) \<times> rng)" where
  "randomStart w rng reach = start_attempts w (startBounds w reach) RANDOM_START_ATTEMPTS rng"

record reset_options =
  ro_other :: bool
  ro_startRange :: real
  ro_randomize :: "bool option"
  ro_initial :: "pose option"

definition NO_OPTIONS :: reset_options where
  "NO_OPTIONS = \<lparr> ro_other = False, ro_startRange = 0, ro_randomize = None, ro_initial = None \<rparr>"

definition spread :: "bool \<Rightarrow> real \<Rightarrow> rng \<Rightarrow> real \<times> rng" where
  "spread randomize fraction rng =
     (if randomize then (case rng_draw rng of (u, rng) \<Rightarrow> (1 + (u * 2 - 1) * fraction, rng)) else (1, rng))"

definition sampleActualPhysics :: "world \<Rightarrow> bool \<Rightarrow> rng \<Rightarrow> actual \<times> rng" where
  "sampleActualPhysics w randomize rng =
     (let nominal = wo_physics w;
          (radiusL, rng) = spread randomize (25 / 1000) rng;
          (radiusR, rng) = spread randomize (25 / 1000) rng;
          (track, rng) = spread randomize (25 / 1000) rng;
          (lag, rng) = spread randomize (3 / 10) rng;
          (latency, rng) = spread randomize (5 / 10) rng;
          (slipL, rng) = spread randomize (7 / 10) rng;
          (slipR, rng) = spread randomize (7 / 10) rng;
          (gainL, rng) = spread randomize (3 / 100) rng;
          (gainR, rng) = spread randomize (3 / 100) rng
      in (\<lparr> ac_radiusL = ph_radius nominal * radiusL, ac_radiusR = ph_radius nominal * radiusR,
            ac_track = ph_track nominal * track, ac_lag = ph_motorLag nominal * lag,
            ac_latency = ph_latency nominal * latency, ac_gripL = 1 - ph_slip nominal * slipL,
            ac_gripR = 1 - ph_slip nominal * slipR, ac_gainL = gainL, ac_gainR = gainR \<rparr>, rng))"

definition near_start :: "world \<Rightarrow> rng \<Rightarrow> pose \<times> rng" where
  "near_start w rng =
     (let band = nearStartBand (wo_task w);
          (u, rng) = rng_draw rng;
          (v, rng) = rng_draw rng;
          (s, rng) = rng_draw rng
      in (\<lparr> po_x = START_X_MIN + u * START_X_SPAN, po_y = bn_yMin band + v * bn_ySpan band,
            po_theta = (s - 5 / 10) * NEAR_START_HEADING_SPREAD \<rparr>, rng))"

definition sampleStartPose :: "world \<Rightarrow> reset_options \<Rightarrow> rng \<Rightarrow> engine_error + (pose \<times> rng)" where
  "sampleStartPose w opts rng =
     (let (near, rng) = near_start w rng
      in case ro_initial opts of
           Some initial \<Rightarrow> Inr (initial, rng)
         | None \<Rightarrow>
             if ro_other opts \<or> ro_startRange opts > 0
             then let reach = (if ro_other opts then 1 else clamp_to 0 1 (ro_startRange opts))
                  in case randomStart w rng reach of
                       Inl e \<Rightarrow> Inl e
                     | Inr ((x, y), rng) \<Rightarrow>
                         let headingHalfWidth = VARIED_START_HEADING_MIN + (pi - VARIED_START_HEADING_MIN) * reach;
                             (u, rng) = rng_draw rng
                         in Inr (\<lparr> po_x = x, po_y = y, po_theta = (u * 2 - 1) * headingHalfWidth \<rparr>, rng)
             else Inr (near, rng))"

section \<open>Sensors\<close>

definition distanceToGoal :: "world \<Rightarrow> body \<Rightarrow> real" where
  "distanceToGoal w st = hypot (gl_x (wo_goal w) - bd_x st) (gl_y (wo_goal w) - bd_y st)"

definition headingErrorToGoal :: "world \<Rightarrow> body \<Rightarrow> real" where
  "headingErrorToGoal w st = \<bar>wrap_angle (bd_theta st - gl_theta (wo_goal w))\<bar>"

definition imuNoise :: "world \<Rightarrow> rng \<Rightarrow> real \<times> rng" where
  "imuNoise w rng = (let (g, rng) = gaussian rng in (g * ph_noise (wo_physics w), rng))"

definition measureImu :: "world \<Rightarrow> body \<Rightarrow> real \<Rightarrow> rng \<Rightarrow> imu_reading \<times> rng" where
  "measureImu w st bias rng =
     (let (n1, rng) = imuNoise w rng;
          yawRate = - bd_omega st + bias + n1 * GYRO_NOISE;
          (n2, rng) = imuNoise w rng;
          magneticTheta = bd_theta st + n2 * MAGNETOMETER_NOISE;
          (n3, rng) = imuNoise w rng;
          (n4, rng) = imuNoise w rng;
          (n5, rng) = imuNoise w rng
      in (\<lparr> im_accel = (bd_ax st + GRAVITY * sin (bd_pitch st) + n3 * ACCELEROMETER_NOISE,
                        bd_ay st - GRAVITY * sin (bd_roll st) + n4 * ACCELEROMETER_NOISE,
                        GRAVITY * cos (bd_pitch st) * cos (bd_roll st) + n5 * ACCELEROMETER_NOISE),
            im_gyro = (toDegrees (bd_rollRate st), toDegrees (bd_pitchRate st), toDegrees yawRate),
            im_mag = (MAGNETIC_FIELD * cos magneticTheta, MAGNETIC_FIELD * sin magneticTheta, MAGNETIC_FIELD_DOWN),
            im_yaw = - bd_estTheta st, im_pitch = bd_pitch st, im_roll = bd_roll st \<rparr>, rng))"

text \<open>One ray draws its error whether or not it hits something.\<close>

definition measure_ray :: "world \<Rightarrow> body \<Rightarrow> nat \<Rightarrow> rng \<Rightarrow> real \<times> rng" where
  "measure_ray w st i rng =
     (let distance = ray w (bd_x st) (bd_y st) (bd_theta st + (real i * 2 * pi) / real SCAN_COUNT) LIDAR_RANGE;
          (g, rng) = gaussian rng;
          error = g * ph_noise (wo_physics w)
      in (if distance \<ge> LIDAR_RANGE then LIDAR_RANGE
          else clamp_to LIDAR_MIN_RANGE LIDAR_RANGE (distance + error), rng))"

primrec measure_rays :: "world \<Rightarrow> body \<Rightarrow> nat list \<Rightarrow> rng \<Rightarrow> real list \<times> rng" where
  "measure_rays w st [] rng = ([], rng)"
| "measure_rays w st (i # is) rng =
     (let (distance, rng) = measure_ray w st i rng;
          (rest, rng) = measure_rays w st is rng
      in (distance # rest, rng))"

definition measureScan :: "world \<Rightarrow> body \<Rightarrow> rng \<Rightarrow> real list \<times> rng" where
  "measureScan w st rng = measure_rays w st [0..<SCAN_COUNT] rng"

text \<open>\<open>camera\<close> is the reading before, if any; the dropout is drawn only for a marker in view.\<close>

definition measureMarker :: "world \<Rightarrow> body \<Rightarrow> camera_reading option \<Rightarrow> rng \<Rightarrow> camera_reading \<times> rng" where
  "measureMarker w st camera rng =
     (let noise = ph_noise (wo_physics w);
          dx = fst (wo_marker w) - bd_x st;
          dy = snd (wo_marker w) - bd_y st;
          distance = hypot dx dy;
          direction = atan2 dy dx;
          bearing = wrap_angle (direction - bd_theta st);
          in_view = (\<bar>bearing\<bar> < CAMERA_HALF_FOV \<and> distance < CAMERA_RANGE
            \<and> ray w (bd_x st) (bd_y st) direction CAMERA_RANGE \<ge> distance - CAMERA_OCCLUSION_MARGIN);
          (visible, rng) =
            (if in_view \<and> noise \<noteq> 0 then (case rng_draw rng of (u, rng) \<Rightarrow> (u > CAMERA_DROPOUT, rng))
             else (in_view, rng))
      in if visible
         then let (g1, rng) = gaussian rng;
                  (g2, rng) = gaussian rng;
                  (g3, rng) = gaussian rng
              in (\<lparr> cm_visible = True, cm_id = Some (MARKER_ID (wo_task w)),
                    cm_distance = Some (max CAMERA_MIN_DISTANCE (distance + g1 * noise * CAMERA_RANGE_NOISE)),
                    cm_bearing = Some (bearing + g2 * noise),
                    cm_yaw = Some (wrap_angle (- bd_theta st + g3 * noise)), cm_age = 0 \<rparr>, rng)
         else (\<lparr> cm_visible = False, cm_id = None, cm_distance = None, cm_bearing = None, cm_yaw = None,
                 cm_age = (case camera of None \<Rightarrow> 0 | Some c \<Rightarrow> cm_age c) + CONTROL_DT \<rparr>, rng))"

definition fuseMarkerPose :: "world \<Rightarrow> camera_reading \<Rightarrow> body \<Rightarrow> body" where
  "fuseMarkerPose w camera st =
     (case (cm_distance camera, cm_bearing camera, cm_yaw camera) of
        (Some distance, Some bearing, Some yaw) \<Rightarrow>
          let measuredTheta = - yaw;
              markerDirection = measuredTheta + bearing;
              measuredX = fst (wo_marker w) - distance * cos markerDirection;
              measuredY = snd (wo_marker w) - distance * sin markerDirection
          in st\<lparr> bd_estX := bd_estX st + CAMERA_POSITION_GAIN * (measuredX - bd_estX st),
                 bd_estY := bd_estY st + CAMERA_POSITION_GAIN * (measuredY - bd_estY st),
                 bd_estTheta := wrap_angle (bd_estTheta st
                   + CAMERA_HEADING_GAIN * wrap_angle (measuredTheta - bd_estTheta st)) \<rparr>
      | _ \<Rightarrow> st)"

definition observation_of :: "world \<Rightarrow> body \<Rightarrow> real list \<Rightarrow> camera_reading \<Rightarrow> imu_reading \<Rightarrow> observation" where
  "observation_of w st scan camera imu =
     \<lparr> ob_scan = scan, ob_front = scan ! 0, ob_left = scan ! SCAN_LEFT_INDEX, ob_right = scan ! SCAN_RIGHT_INDEX,
       ob_camera = camera, ob_imu = imu,
       ob_odometry = \<lparr> po_x = bd_estX st, po_y = bd_estY st, po_theta = bd_estTheta st \<rparr>,
       ob_wheelRpm = (speedToRpm (bd_left st) (ph_radius (wo_physics w)),
                      speedToRpm (bd_right st) (ph_radius (wo_physics w))),
       ob_goal = wo_goal w, ob_task = wo_task w \<rparr>"

text \<open>The observation after a step; the marker then corrects the dead-reckoned pose.\<close>

definition observe :: "world \<Rightarrow> episode \<Rightarrow> episode" where
  "observe w ep =
     (let (imu, rng) = measureImu w (ep_state ep) (ep_gyroBias ep) (ep_rng ep);
          (scan, rng) = measureScan w (ep_state ep) rng;
          (camera, rng) = measureMarker w (ep_state ep) (Some (ep_camera ep)) rng;
          st = (if cm_visible camera then fuseMarkerPose w camera (ep_state ep) else ep_state ep)
      in ep\<lparr> ep_rng := rng, ep_state := st, ep_camera := camera,
             ep_observation := observation_of w st scan camera imu \<rparr>)"

definition world_reset :: "world \<Rightarrow> int \<Rightarrow> reset_options \<Rightarrow> engine_error + episode" where
  "world_reset w seed opts =
     (let rng = randomGenerator seed;
          (act, rng) = sampleActualPhysics w (coalesce (ro_randomize opts) (ph_randomize (wo_physics w))) rng
      in case sampleStartPose w opts rng of
           Inl e \<Rightarrow> Inl e
         | Inr (pose, rng) \<Rightarrow>
             let st = initialState pose;
                 (u, rng) = rng_draw rng;
                 bias = (u - 5 / 10) * GYRO_BIAS_SPREAD;
                 (imu, rng) = measureImu w st bias rng;
                 (scan, rng) = measureScan w st rng;
                 (camera, rng) = measureMarker w st None rng
             in Inr \<lparr> ep_rng = rng, ep_actual = act, ep_state = st, ep_queue = [], ep_gyroBias = bias,
                      ep_camera = camera, ep_observation = observation_of w st scan camera imu \<rparr>)"

section \<open>One control step\<close>

definition enqueueCommand :: "world \<Rightarrow> real \<times> real \<Rightarrow> episode \<Rightarrow> episode" where
  "enqueueCommand w command ep =
     ep\<lparr> ep_queue := ep_queue ep @
           [\<lparr> du_at = bd_t (ep_state ep) + ac_latency (ep_actual ep),
              du_left = clamp_unit (fst command) * ph_maxRpm (wo_physics w),
              du_right = clamp_unit (snd command) * ph_maxRpm (wo_physics w) \<rparr>] \<rparr>"

fun apply_due :: "due_command list \<Rightarrow> body \<Rightarrow> due_command list \<times> body" where
  "apply_due [] st = ([], st)"
| "apply_due (c # queue) st =
     (if du_at c \<le> bd_t st + 1 / 10 ^ 9
      then apply_due queue (st\<lparr> bd_targetL := du_left c, bd_targetR := du_right c \<rparr>)
      else (c # queue, st))"

definition applyDueCommands :: "episode \<Rightarrow> episode" where
  "applyDueCommands ep =
     (case apply_due (ep_queue ep) (ep_state ep) of
        (queue, st) \<Rightarrow> ep\<lparr> ep_queue := queue, ep_state := st \<rparr>)"

definition updateWheelSpeeds :: "world \<Rightarrow> actual \<Rightarrow> body \<Rightarrow> body" where
  "updateWheelSpeeds w act st =
     (let desiredL = rpmToSpeed (bd_targetL st * ac_gainL act) (ac_radiusL act);
          desiredR = rpmToSpeed (bd_targetR st * ac_gainR act) (ac_radiusR act);
          maxDelta = rpmToSpeed (ph_accelRpm (wo_physics w)) (ph_radius (wo_physics w)) * PHYSICS_DT;
          lag = max MIN_MOTOR_LAG (ac_lag act)
      in st\<lparr> bd_left := bd_left st + clamp_to (- maxDelta) maxDelta (((desiredL - bd_left st) * PHYSICS_DT) / lag),
             bd_right := bd_right st + clamp_to (- maxDelta) maxDelta (((desiredR - bd_right st) * PHYSICS_DT) / lag) \<rparr>)"

text \<open>Returns whether a new contact began.\<close>

definition moveBody :: "world \<Rightarrow> actual \<Rightarrow> body \<Rightarrow> bool \<times> body" where
  "moveBody w act st =
     (let groundL = bd_left st * ac_gripL act;
          groundR = bd_right st * ac_gripR act;
          v = (groundL + groundR) / 2;
          omega = (groundL - groundR) / ac_track act;
          midHeading = bd_theta st + (omega * PHYSICS_DT) / 2;
          nextX = bd_x st + cos midHeading * v * PHYSICS_DT;
          nextY = bd_y st + sin midHeading * v * PHYSICS_DT
      in if blocked w nextX nextY 0
         then (\<not> bd_contact st,
               st\<lparr> bd_left := 0, bd_right := 0,
                   bd_collisions := (if bd_contact st then bd_collisions st else Suc (bd_collisions st)),
                   bd_contact := True, bd_v := 0, bd_omega := 0 \<rparr>)
         else (False,
               st\<lparr> bd_x := nextX, bd_y := nextY, bd_theta := wrap_angle (bd_theta st + omega * PHYSICS_DT),
                   bd_contact := False, bd_v := v, bd_omega := omega \<rparr>))"

record sample =
  sm_ax :: real
  sm_ay :: real
  sm_magnitude :: real
  sm_collided :: bool

definition measureAcceleration :: "world \<Rightarrow> body \<Rightarrow> rng \<Rightarrow> sample \<times> rng" where
  "measureAcceleration w st rng =
     (let noise = ph_noise (wo_physics w);
          (g1, rng) = gaussian rng;
          ax = clamp_to (- ACCELEROMETER_LIMIT) ACCELEROMETER_LIMIT (bd_ax st + g1 * noise * ACCELEROMETER_NOISE);
          (g2, rng) = gaussian rng;
          ay = clamp_to (- ACCELEROMETER_LIMIT) ACCELEROMETER_LIMIT (bd_ay st + g2 * noise * ACCELEROMETER_NOISE)
      in (\<lparr> sm_ax = ax, sm_ay = ay, sm_magnitude = hypot ax ay, sm_collided = False \<rparr>, rng))"

definition updateTilt :: "body \<Rightarrow> body" where
  "updateTilt st =
     (let targetPitch = clamp_to (- TILT_LIMIT) TILT_LIMIT (- bd_ax st * TILT_PER_ACCELERATION);
          targetRoll = clamp_to (- TILT_LIMIT) TILT_LIMIT (- bd_ay st * TILT_PER_ACCELERATION);
          pitchRate = bd_pitchRate st
            + (TILT_STIFFNESS * (targetPitch - bd_pitch st) - TILT_DAMPING * bd_pitchRate st) * PHYSICS_DT;
          rollRate = bd_rollRate st
            + (TILT_STIFFNESS * (targetRoll - bd_roll st) - TILT_DAMPING * bd_rollRate st) * PHYSICS_DT
      in st\<lparr> bd_pitchRate := pitchRate, bd_pitch := bd_pitch st + pitchRate * PHYSICS_DT,
             bd_rollRate := rollRate, bd_roll := bd_roll st + rollRate * PHYSICS_DT \<rparr>)"

definition deadReckon :: "world \<Rightarrow> real \<Rightarrow> body \<Rightarrow> rng \<Rightarrow> body \<times> rng" where
  "deadReckon w bias st rng =
     (let noise = ph_noise (wo_physics w);
          (g1, rng) = gaussian rng;
          measuredGyro = - bd_omega st + bias + g1 * noise * GYRO_NOISE;
          estTheta = wrap_angle (bd_estTheta st - measuredGyro * PHYSICS_DT);
          (g2, rng) = gaussian rng;
          compass = bd_theta st + g2 * noise;
          estTheta = wrap_angle (estTheta + COMPASS_FUSION_GAIN * wrap_angle (compass - estTheta));
          encoderSpeed = (bd_left st + bd_right st) / 2
      in (st\<lparr> bd_estTheta := estTheta, bd_estX := bd_estX st + cos estTheta * encoderSpeed * PHYSICS_DT,
              bd_estY := bd_estY st + sin estTheta * encoderSpeed * PHYSICS_DT \<rparr>, rng))"

definition stopped_body :: "body \<Rightarrow> body" where
  "stopped_body st =
     st\<lparr> bd_latched := True, bd_left := 0, bd_right := 0, bd_targetL := 0, bd_targetR := 0, bd_v := 0,
         bd_omega := 0, bd_done := True \<rparr>"

definition latchEmergencyStop :: "episode \<Rightarrow> episode" where
  "latchEmergencyStop ep = ep\<lparr> ep_state := stopped_body (ep_state ep), ep_queue := [] \<rparr>"

definition substep :: "world \<Rightarrow> episode \<Rightarrow> sample \<times> episode" where
  "substep w ep =
     (let ep = applyDueCommands ep;
          previousV = bd_v (ep_state ep);
          st = updateWheelSpeeds w (ep_actual ep) (ep_state ep);
          (collided, st) = moveBody w (ep_actual ep) st;
          st = st\<lparr> bd_ax := (bd_v st - previousV) / PHYSICS_DT, bd_ay := - bd_v st * bd_omega st \<rparr>;
          (sample, rng) = measureAcceleration w st (ep_rng ep);
          st = st\<lparr> bd_peak := max (bd_peak st) (sm_magnitude sample) \<rparr>;
          st = updateTilt st;
          (st, rng) = deadReckon w (ep_gyroBias ep) st rng;
          st = st\<lparr> bd_t := bd_t st + PHYSICS_DT \<rparr>;
          ep = ep\<lparr> ep_state := st, ep_rng := rng \<rparr>;
          ep = (if sm_magnitude sample \<ge> rw_threshold (wo_settings w) then latchEmergencyStop ep else ep)
      in (sample\<lparr> sm_collided := collided \<rparr>, ep))"

record impact =
  im_magnitude :: real
  im_ax :: real
  im_ay :: real

record trace_point =
  tp_t :: real
  tp_ax :: real
  tp_ay :: real
  tp_impact :: real
  tp_emergency :: bool

record progress =
  pg_collision :: bool
  pg_impact :: impact
  pg_trace :: "trace_point list"

definition NO_PROGRESS :: progress where
  "NO_PROGRESS =
     \<lparr> pg_collision = False, pg_impact = \<lparr> im_magnitude = 0, im_ax = 0, im_ay = 0 \<rparr>, pg_trace = [] \<rparr>"

definition note_sample :: "bool \<Rightarrow> sample \<Rightarrow> body \<Rightarrow> progress \<Rightarrow> progress" where
  "note_sample capture sm st pg =
     \<lparr> pg_collision = pg_collision pg \<or> sm_collided sm,
       pg_impact = (if sm_magnitude sm > im_magnitude (pg_impact pg)
                    then \<lparr> im_magnitude = sm_magnitude sm, im_ax = sm_ax sm, im_ay = sm_ay sm \<rparr>
                    else pg_impact pg),
       pg_trace = (if capture
                   then pg_trace pg @ [\<lparr> tp_t = bd_t st, tp_ax = sm_ax sm, tp_ay = sm_ay sm,
                                         tp_impact = sm_magnitude sm, tp_emergency = bd_latched st \<rparr>]
                   else pg_trace pg) \<rparr>"

text \<open>The loop over the sub-steps of a command, left as soon as the episode is done.\<close>

primrec substeps :: "world \<Rightarrow> bool \<Rightarrow> nat \<Rightarrow> progress \<times> episode \<Rightarrow> progress \<times> episode" where
  "substeps w capture 0 acc = acc"
| "substeps w capture (Suc k) acc =
     (case acc of (pg, ep) \<Rightarrow>
        let (sm, ep) = substep w ep;
            pg = note_sample capture sm (ep_state ep) pg
        in if bd_done (ep_state ep) then (pg, ep) else substeps w capture k (pg, ep))"

section \<open>Arrival and reward\<close>

record arrival =
  ar_distance :: real
  ar_headingError :: real
  ar_within :: bool
  ar_rewarded :: bool

definition aligned :: "world \<Rightarrow> body \<Rightarrow> bool" where
  "aligned w st \<longleftrightarrow> wo_task w = Delivery \<or> headingErrorToGoal w st < DOCK_ALIGNMENT_TOLERANCE"

definition resting :: "world \<Rightarrow> body \<Rightarrow> bool" where
  "resting w st \<longleftrightarrow>
     distanceToGoal w st < gl_radius (wo_goal w)
     \<and> (\<bar>bd_v st\<bar> < STATIONARY_SPEED \<and> \<bar>bd_omega st\<bar> < STATIONARY_YAW_RATE)
     \<and> (aligned w st \<or> \<not> rw_orientation (wo_settings w))"

definition updateArrival :: "world \<Rightarrow> body \<Rightarrow> arrival \<times> body" where
  "updateArrival w st =
     (let hold = (if resting w st then bd_hold st + CONTROL_DT else 0);
          rewarded = (hold \<ge> GOAL_HOLD_TIME);
          facts = \<lparr> ar_distance = distanceToGoal w st, ar_headingError = headingErrorToGoal w st,
                    ar_within = distanceToGoal w st < gl_radius (wo_goal w), ar_rewarded = rewarded \<rparr>
      in (facts,
          if rewarded
          then st\<lparr> bd_hold := hold, bd_done := True, bd_success := aligned w st, bd_wrongAngle := \<not> aligned w st \<rparr>
          else st\<lparr> bd_hold := hold \<rparr>))"

datatype piece_label = Approach | Elapsed | HeadingAndStop | TurningAndReverse | NearObstacle | InMotion
  | CloseToGoal | Contact | ArrivedAndStopped | PlacedAndStopped | DistanceLeft | HeadingLeft

type_synonym piece = "piece_label \<times> real"

definition rewardPieces :: "world \<Rightarrow> episode \<Rightarrow> real \<Rightarrow> real \<Rightarrow> arrival \<Rightarrow> bool \<Rightarrow> piece list" where
  "rewardPieces w ep previousDistance previousHeadingError facts collision =
     (let st = ep_state ep;
          weights = wo_settings w;
          on = rw_enabled weights;
          distance = ar_distance facts;
          headingError = ar_headingError facts;
          docking = (wo_task w = Dock \<and> rw_orientation weights);
          progress = (if on_progress on then (previousDistance - distance) * rw_progress weights else 0);
          orientation = (if on_heading on \<and> docking
            then (previousHeadingError - headingError) * rw_heading weights * exp (- distance * HEADING_REWARD_FALLOFF)
            else 0);
          settling = (if on_settling on \<and> ar_within facts
            then (1 - min 1 (\<bar>bd_v st\<bar> / SETTLING_SPEED)) * CONTROL_DT * rw_settling weights else 0);
          speedPenalty = (if on_careful on
            then (\<bar>bd_omega st\<bar> * TURN_PENALTY * CONTROL_DT + max 0 (- bd_v st) * REVERSE_PENALTY * CONTROL_DT)
                 * rw_careful weights else 0);
          clearance = max 0 (min_list (ob_scan (ep_observation ep)) - ph_bodyRadius (wo_physics w));
          proximity = (max 0 (1 - clearance / CLEARANCE_PENALTY_RANGE))\<^sup>2
      in [(Approach, progress),
          (Elapsed, if on_time on then - rw_time weights * CONTROL_DT else 0),
          (HeadingAndStop, orientation + settling),
          (TurningAndReverse, - speedPenalty)]
         @ (if on_clearance on then [(NearObstacle, - rw_clearance weights * CONTROL_DT * proximity)] else [])
         @ (if on_moving on \<and> \<bar>bd_v st\<bar> > MOVING_SPEED then [(InMotion, rw_moving weights * CONTROL_DT)] else [])
         @ (if on_near on \<and> distance < NEAR_GOAL_DISTANCE then [(CloseToGoal, rw_near weights * CONTROL_DT)] else [])
         @ (if collision \<and> on_collision on then [(Contact, - rw_collision weights)] else [])
         @ (if ar_rewarded facts \<and> on_success on
            then [(if bd_success st then ArrivedAndStopped else PlacedAndStopped, rw_success weights)] else [])
         @ (if bd_done st \<and> on_progress on
            then [(DistanceLeft, - distance * rw_progress weights * FINAL_DISTANCE_WEIGHT)] else [])
         @ (if bd_done st \<and> on_heading on \<and> docking
            then [(HeadingLeft, - headingError * exp (- distance) * rw_heading weights)] else []))"

text \<open>What \<open>step\<close> returns beside the state; the idle result has no pieces and no impact.\<close>

record step_result =
  sr_reward :: real
  sr_pieces :: "piece list option"
  sr_done :: bool
  sr_success :: bool
  sr_collision :: "bool option"
  sr_emergency :: bool
  sr_impact :: "impact option"
  sr_trace :: "trace_point list"
  sr_wrongAngle :: "bool option"

definition idleStepResult :: "body \<Rightarrow> step_result" where
  "idleStepResult st =
     \<lparr> sr_reward = 0, sr_pieces = None, sr_done = True, sr_success = bd_success st, sr_collision = None,
       sr_emergency = bd_latched st, sr_impact = None, sr_trace = [], sr_wrongAngle = None \<rparr>"

definition world_step :: "world \<Rightarrow> bool \<Rightarrow> real \<times> real \<Rightarrow> episode \<Rightarrow> step_result \<times> episode" where
  "world_step w capture command ep =
     (if bd_done (ep_state ep) \<or> bd_latched (ep_state ep) then (idleStepResult (ep_state ep), ep)
      else
        let previousDistance = distanceToGoal w (ep_state ep);
            previousHeadingError = headingErrorToGoal w (ep_state ep);
            (pg, ep) = substeps w capture SUBSTEPS_PER_COMMAND (NO_PROGRESS, enqueueCommand w command ep);
            (facts, st) = updateArrival w (ep_state ep);
            st = (if pg_collision pg \<or> bd_t st \<ge> EPISODE_TIME_LIMIT - 1 / 10 ^ 9
                  then st\<lparr> bd_done := True \<rparr> else st);
            ep = observe w (ep\<lparr> ep_state := st \<rparr>);
            pieces = rewardPieces w ep previousDistance previousHeadingError facts (pg_collision pg);
            reward = sum_list (map snd pieces);
            st = (ep_state ep)\<lparr> bd_total := bd_total (ep_state ep) + reward \<rparr>
        in (\<lparr> sr_reward = reward, sr_pieces = Some pieces, sr_done = bd_done st, sr_success = bd_success st,
              sr_collision = Some (pg_collision pg), sr_emergency = bd_latched st,
              sr_impact = Some (pg_impact pg), sr_trace = pg_trace pg, sr_wrongAngle = Some (bd_wrongAngle st) \<rparr>,
            ep\<lparr> ep_state := st \<rparr>))"

end
