(* ===== verification/Engine_Safety.thy ===== *)
theory Engine_Safety
  imports Engine_World
begin

text \<open>
  What the simulated robot of the learning lessons promises, whatever the policy commands: the chassis
  never overlaps a wall, an episode ends in time, a success is a rest inside the goal, the emergency
  stop is final, the wheels keep to the speed the motors can reach, and a lidar ray ends at the first
  wall it meets.
\<close>

section \<open>What one sub-step does to the body\<close>

lemma apply_due_body: "\<exists>a b. snd (apply_due queue st) = st\<lparr> bd_targetL := a, bd_targetR := b \<rparr>"
proof (induction queue arbitrary: st)
  case Nil
  have "snd (apply_due [] st) = st\<lparr> bd_targetL := bd_targetL st, bd_targetR := bd_targetR st \<rparr>" by simp
  then show ?case by blast
next
  case (Cons c queue)
  show ?case
  proof (cases "du_at c \<le> bd_t st + 1 / 10 ^ 9")
    case True
    then show ?thesis using Cons.IH [of "st\<lparr> bd_targetL := du_left c, bd_targetR := du_right c \<rparr>"] by fastforce
  next
    case False
    then have "snd (apply_due (c # queue) st) = st\<lparr> bd_targetL := bd_targetL st, bd_targetR := bd_targetR st \<rparr>" by simp
    then show ?thesis by blast
  qed
qed

text \<open>The body after the wheels and the chassis have moved, before the sensors and the clock.\<close>

definition moved_body :: "world \<Rightarrow> episode \<Rightarrow> body" where
  "moved_body w ep =
     snd (moveBody w (ep_actual ep) (updateWheelSpeeds w (ep_actual ep) (ep_state (applyDueCommands ep))))"

definition measured :: "world \<Rightarrow> episode \<Rightarrow> real" where
  "measured w ep = sm_magnitude (fst (substep w ep))"

definition trips :: "world \<Rightarrow> episode \<Rightarrow> bool" where
  "trips w ep \<longleftrightarrow> measured w ep \<ge> rw_threshold (wo_settings w)"

lemma applied_fields [simp]:
  "ep_actual (applyDueCommands ep) = ep_actual ep" "ep_rng (applyDueCommands ep) = ep_rng ep"
  "ep_gyroBias (applyDueCommands ep) = ep_gyroBias ep"
  by (simp_all add: applyDueCommands_def split: prod.split)

lemma tilt_frame [simp]:
  "bd_x (updateTilt st) = bd_x st"
  "bd_y (updateTilt st) = bd_y st"
  "bd_theta (updateTilt st) = bd_theta st"
  "bd_left (updateTilt st) = bd_left st"
  "bd_right (updateTilt st) = bd_right st"
  "bd_targetL (updateTilt st) = bd_targetL st"
  "bd_targetR (updateTilt st) = bd_targetR st"
  "bd_v (updateTilt st) = bd_v st"
  "bd_omega (updateTilt st) = bd_omega st"
  "bd_t (updateTilt st) = bd_t st"
  "bd_hold (updateTilt st) = bd_hold st"
  "bd_contact (updateTilt st) = bd_contact st"
  "bd_latched (updateTilt st) = bd_latched st"
  "bd_peak (updateTilt st) = bd_peak st"
  "bd_total (updateTilt st) = bd_total st"
  "bd_done (updateTilt st) = bd_done st"
  "bd_success (updateTilt st) = bd_success st"
  "bd_wrongAngle (updateTilt st) = bd_wrongAngle st"
  "bd_collisions (updateTilt st) = bd_collisions st"
  by (simp_all add: updateTilt_def Let_def)

lemma reckon_frame [simp]:
  "bd_x (fst (deadReckon w bias st rng)) = bd_x st"
  "bd_y (fst (deadReckon w bias st rng)) = bd_y st"
  "bd_theta (fst (deadReckon w bias st rng)) = bd_theta st"
  "bd_left (fst (deadReckon w bias st rng)) = bd_left st"
  "bd_right (fst (deadReckon w bias st rng)) = bd_right st"
  "bd_targetL (fst (deadReckon w bias st rng)) = bd_targetL st"
  "bd_targetR (fst (deadReckon w bias st rng)) = bd_targetR st"
  "bd_v (fst (deadReckon w bias st rng)) = bd_v st"
  "bd_omega (fst (deadReckon w bias st rng)) = bd_omega st"
  "bd_t (fst (deadReckon w bias st rng)) = bd_t st"
  "bd_hold (fst (deadReckon w bias st rng)) = bd_hold st"
  "bd_contact (fst (deadReckon w bias st rng)) = bd_contact st"
  "bd_latched (fst (deadReckon w bias st rng)) = bd_latched st"
  "bd_peak (fst (deadReckon w bias st rng)) = bd_peak st"
  "bd_total (fst (deadReckon w bias st rng)) = bd_total st"
  "bd_done (fst (deadReckon w bias st rng)) = bd_done st"
  "bd_success (fst (deadReckon w bias st rng)) = bd_success st"
  "bd_wrongAngle (fst (deadReckon w bias st rng)) = bd_wrongAngle st"
  "bd_collisions (fst (deadReckon w bias st rng)) = bd_collisions st"
  by (simp_all add: deadReckon_def Let_def case_prod_beta)

lemmas substep_unfold = substep_def moved_body_def measured_def trips_def latchEmergencyStop_def stopped_body_def

lemma substep_motion:
  "bd_left (ep_state (snd (substep w ep))) = (if trips w ep then 0 else bd_left (moved_body w ep))"
  "bd_right (ep_state (snd (substep w ep))) = (if trips w ep then 0 else bd_right (moved_body w ep))"
  "bd_targetL (ep_state (snd (substep w ep))) = (if trips w ep then 0 else bd_targetL (moved_body w ep))"
  "bd_targetR (ep_state (snd (substep w ep))) = (if trips w ep then 0 else bd_targetR (moved_body w ep))"
  "bd_v (ep_state (snd (substep w ep))) = (if trips w ep then 0 else bd_v (moved_body w ep))"
  "bd_omega (ep_state (snd (substep w ep))) = (if trips w ep then 0 else bd_omega (moved_body w ep))"
  "bd_x (ep_state (snd (substep w ep))) = bd_x (moved_body w ep)"
  "bd_y (ep_state (snd (substep w ep))) = bd_y (moved_body w ep)"
  "bd_theta (ep_state (snd (substep w ep))) = bd_theta (moved_body w ep)"
  "bd_hold (ep_state (snd (substep w ep))) = bd_hold (moved_body w ep)"
  "bd_contact (ep_state (snd (substep w ep))) = bd_contact (moved_body w ep)"
  "bd_total (ep_state (snd (substep w ep))) = bd_total (moved_body w ep)"
  "bd_success (ep_state (snd (substep w ep))) = bd_success (moved_body w ep)"
  "bd_wrongAngle (ep_state (snd (substep w ep))) = bd_wrongAngle (moved_body w ep)"
  "bd_collisions (ep_state (snd (substep w ep))) = bd_collisions (moved_body w ep)"
  "bd_t (ep_state (snd (substep w ep))) = bd_t (moved_body w ep) + PHYSICS_DT"
  "bd_peak (ep_state (snd (substep w ep))) = max (bd_peak (moved_body w ep)) (measured w ep)"
  "bd_latched (ep_state (snd (substep w ep))) \<longleftrightarrow> trips w ep \<or> bd_latched (moved_body w ep)"
  "bd_done (ep_state (snd (substep w ep))) \<longleftrightarrow> trips w ep \<or> bd_done (moved_body w ep)"
  "ep_queue (snd (substep w ep)) = (if trips w ep then [] else ep_queue (applyDueCommands ep))"
  "ep_actual (snd (substep w ep)) = ep_actual ep"
  by (simp_all add: substep_unfold Let_def case_prod_beta)

lemma applied_body:
  obtains a b where "ep_state (applyDueCommands ep) = (ep_state ep)\<lparr> bd_targetL := a, bd_targetR := b \<rparr>"
  using apply_due_body [of "ep_queue ep" "ep_state ep"]
  by (auto simp: applyDueCommands_def case_prod_beta)

lemma applied_frame:
  "bd_x (ep_state (applyDueCommands ep)) = bd_x (ep_state ep)"
  "bd_y (ep_state (applyDueCommands ep)) = bd_y (ep_state ep)"
  "bd_theta (ep_state (applyDueCommands ep)) = bd_theta (ep_state ep)"
  "bd_left (ep_state (applyDueCommands ep)) = bd_left (ep_state ep)"
  "bd_right (ep_state (applyDueCommands ep)) = bd_right (ep_state ep)"
  "bd_v (ep_state (applyDueCommands ep)) = bd_v (ep_state ep)"
  "bd_omega (ep_state (applyDueCommands ep)) = bd_omega (ep_state ep)"
  "bd_t (ep_state (applyDueCommands ep)) = bd_t (ep_state ep)"
  "bd_hold (ep_state (applyDueCommands ep)) = bd_hold (ep_state ep)"
  "bd_contact (ep_state (applyDueCommands ep)) = bd_contact (ep_state ep)"
  "bd_latched (ep_state (applyDueCommands ep)) = bd_latched (ep_state ep)"
  "bd_peak (ep_state (applyDueCommands ep)) = bd_peak (ep_state ep)"
  "bd_total (ep_state (applyDueCommands ep)) = bd_total (ep_state ep)"
  "bd_done (ep_state (applyDueCommands ep)) = bd_done (ep_state ep)"
  "bd_success (ep_state (applyDueCommands ep)) = bd_success (ep_state ep)"
  "bd_wrongAngle (ep_state (applyDueCommands ep)) = bd_wrongAngle (ep_state ep)"
  "bd_collisions (ep_state (applyDueCommands ep)) = bd_collisions (ep_state ep)"
  by (rule applied_body [of ep], simp)+

lemma wheel_frame:
  "bd_x (updateWheelSpeeds w ac st) = bd_x (st)"
  "bd_y (updateWheelSpeeds w ac st) = bd_y (st)"
  "bd_theta (updateWheelSpeeds w ac st) = bd_theta (st)"
  "bd_targetL (updateWheelSpeeds w ac st) = bd_targetL (st)"
  "bd_targetR (updateWheelSpeeds w ac st) = bd_targetR (st)"
  "bd_v (updateWheelSpeeds w ac st) = bd_v (st)"
  "bd_omega (updateWheelSpeeds w ac st) = bd_omega (st)"
  "bd_t (updateWheelSpeeds w ac st) = bd_t (st)"
  "bd_hold (updateWheelSpeeds w ac st) = bd_hold (st)"
  "bd_contact (updateWheelSpeeds w ac st) = bd_contact (st)"
  "bd_latched (updateWheelSpeeds w ac st) = bd_latched (st)"
  "bd_peak (updateWheelSpeeds w ac st) = bd_peak (st)"
  "bd_total (updateWheelSpeeds w ac st) = bd_total (st)"
  "bd_done (updateWheelSpeeds w ac st) = bd_done (st)"
  "bd_success (updateWheelSpeeds w ac st) = bd_success (st)"
  "bd_wrongAngle (updateWheelSpeeds w ac st) = bd_wrongAngle (st)"
  "bd_collisions (updateWheelSpeeds w ac st) = bd_collisions (st)"
  by (simp_all add: updateWheelSpeeds_def Let_def)

lemma moved_frame:
  "bd_t (moved_body w ep) = bd_t (ep_state ep)"
  "bd_hold (moved_body w ep) = bd_hold (ep_state ep)"
  "bd_latched (moved_body w ep) = bd_latched (ep_state ep)"
  "bd_peak (moved_body w ep) = bd_peak (ep_state ep)"
  "bd_total (moved_body w ep) = bd_total (ep_state ep)"
  "bd_done (moved_body w ep) = bd_done (ep_state ep)"
  "bd_success (moved_body w ep) = bd_success (ep_state ep)"
  "bd_wrongAngle (moved_body w ep) = bd_wrongAngle (ep_state ep)"
  by (simp_all add: moved_body_def moveBody_def Let_def wheel_frame applied_frame)

lemma arrival_frame:
  "bd_x (snd (updateArrival w st)) = bd_x (st)"
  "bd_y (snd (updateArrival w st)) = bd_y (st)"
  "bd_theta (snd (updateArrival w st)) = bd_theta (st)"
  "bd_left (snd (updateArrival w st)) = bd_left (st)"
  "bd_right (snd (updateArrival w st)) = bd_right (st)"
  "bd_targetL (snd (updateArrival w st)) = bd_targetL (st)"
  "bd_targetR (snd (updateArrival w st)) = bd_targetR (st)"
  "bd_v (snd (updateArrival w st)) = bd_v (st)"
  "bd_omega (snd (updateArrival w st)) = bd_omega (st)"
  "bd_t (snd (updateArrival w st)) = bd_t (st)"
  "bd_contact (snd (updateArrival w st)) = bd_contact (st)"
  "bd_latched (snd (updateArrival w st)) = bd_latched (st)"
  "bd_peak (snd (updateArrival w st)) = bd_peak (st)"
  "bd_total (snd (updateArrival w st)) = bd_total (st)"
  "bd_collisions (snd (updateArrival w st)) = bd_collisions (st)"
  by (simp_all add: updateArrival_def Let_def)

lemma fuse_frame:
  "bd_x (fuseMarkerPose w camera st) = bd_x (st)"
  "bd_y (fuseMarkerPose w camera st) = bd_y (st)"
  "bd_theta (fuseMarkerPose w camera st) = bd_theta (st)"
  "bd_left (fuseMarkerPose w camera st) = bd_left (st)"
  "bd_right (fuseMarkerPose w camera st) = bd_right (st)"
  "bd_targetL (fuseMarkerPose w camera st) = bd_targetL (st)"
  "bd_targetR (fuseMarkerPose w camera st) = bd_targetR (st)"
  "bd_v (fuseMarkerPose w camera st) = bd_v (st)"
  "bd_omega (fuseMarkerPose w camera st) = bd_omega (st)"
  "bd_t (fuseMarkerPose w camera st) = bd_t (st)"
  "bd_hold (fuseMarkerPose w camera st) = bd_hold (st)"
  "bd_contact (fuseMarkerPose w camera st) = bd_contact (st)"
  "bd_latched (fuseMarkerPose w camera st) = bd_latched (st)"
  "bd_peak (fuseMarkerPose w camera st) = bd_peak (st)"
  "bd_total (fuseMarkerPose w camera st) = bd_total (st)"
  "bd_done (fuseMarkerPose w camera st) = bd_done (st)"
  "bd_success (fuseMarkerPose w camera st) = bd_success (st)"
  "bd_wrongAngle (fuseMarkerPose w camera st) = bd_wrongAngle (st)"
  "bd_collisions (fuseMarkerPose w camera st) = bd_collisions (st)"
  by (simp_all add: fuseMarkerPose_def Let_def split: option.split)

lemma observe_frame:
  "bd_x (ep_state (observe w ep)) = bd_x (ep_state ep)"
  "bd_y (ep_state (observe w ep)) = bd_y (ep_state ep)"
  "bd_theta (ep_state (observe w ep)) = bd_theta (ep_state ep)"
  "bd_left (ep_state (observe w ep)) = bd_left (ep_state ep)"
  "bd_right (ep_state (observe w ep)) = bd_right (ep_state ep)"
  "bd_targetL (ep_state (observe w ep)) = bd_targetL (ep_state ep)"
  "bd_targetR (ep_state (observe w ep)) = bd_targetR (ep_state ep)"
  "bd_v (ep_state (observe w ep)) = bd_v (ep_state ep)"
  "bd_omega (ep_state (observe w ep)) = bd_omega (ep_state ep)"
  "bd_t (ep_state (observe w ep)) = bd_t (ep_state ep)"
  "bd_hold (ep_state (observe w ep)) = bd_hold (ep_state ep)"
  "bd_contact (ep_state (observe w ep)) = bd_contact (ep_state ep)"
  "bd_latched (ep_state (observe w ep)) = bd_latched (ep_state ep)"
  "bd_peak (ep_state (observe w ep)) = bd_peak (ep_state ep)"
  "bd_total (ep_state (observe w ep)) = bd_total (ep_state ep)"
  "bd_done (ep_state (observe w ep)) = bd_done (ep_state ep)"
  "bd_success (ep_state (observe w ep)) = bd_success (ep_state ep)"
  "bd_wrongAngle (ep_state (observe w ep)) = bd_wrongAngle (ep_state ep)"
  "bd_collisions (ep_state (observe w ep)) = bd_collisions (ep_state ep)"
  "ep_queue (observe w ep) = ep_queue ep" "ep_actual (observe w ep) = ep_actual ep"
  by (simp_all add: observe_def Let_def case_prod_beta fuse_frame)

definition drive :: "world \<Rightarrow> bool \<Rightarrow> (real \<times> real) list \<Rightarrow> episode \<Rightarrow> episode" where
  "drive w capture commands ep = fold (\<lambda>command ep. snd (world_step w capture command ep)) commands ep"

lemma reset_body:
  assumes "world_reset w seed opts = Inr ep"
  obtains pose rng rng' where "sampleStartPose w opts rng = Inr (pose, rng')"
    "ep_state ep = initialState pose" "ep_queue ep = []"
    "ep_actual ep = fst (sampleActualPhysics w (coalesce (ro_randomize opts) (ph_randomize (wo_physics w)))
       (randomGenerator seed))"
  using assms by (fastforce simp: world_reset_def Let_def case_prod_beta split: sum.splits prod.splits)

section \<open>Invariants of an episode\<close>

text \<open>
  What holds of the episode between two commands when every part of a step keeps it. The parts are
  the ones \<open>step\<close> puts together; a sub-step is only made while the episode is not done.
\<close>

locale episode_invariant =
  fixes w :: world and inv :: "episode \<Rightarrow> bool"
  assumes enqueue: "inv ep \<Longrightarrow> \<not> bd_done (ep_state ep) \<Longrightarrow> inv (enqueueCommand w command ep)"
    and sub: "inv ep \<Longrightarrow> \<not> bd_done (ep_state ep) \<Longrightarrow> inv (snd (substep w ep))"
    and arrive: "inv ep \<Longrightarrow> inv (ep\<lparr> ep_state := snd (updateArrival w (ep_state ep)) \<rparr>)"
    and end_episode: "inv ep \<Longrightarrow> inv (ep\<lparr> ep_state := (ep_state ep)\<lparr> bd_done := True \<rparr> \<rparr>)"
    and look: "inv ep \<Longrightarrow> inv (observe w ep)"
    and reward: "inv ep \<Longrightarrow> inv (ep\<lparr> ep_state := (ep_state ep)\<lparr> bd_total := r \<rparr> \<rparr>)"
begin

lemma substeps_inv: "inv ep \<Longrightarrow> \<not> bd_done (ep_state ep) \<Longrightarrow> inv (snd (substeps w capture k (pg, ep)))"
  by (induction k arbitrary: pg ep) (auto simp: Let_def case_prod_beta intro: sub)

lemma step_inv:
  assumes "inv ep"
  shows "inv (snd (world_step w capture command ep))"
proof (cases "bd_done (ep_state ep) \<or> bd_latched (ep_state ep)")
  case True
  then show ?thesis using assms by (simp add: world_step_def)
next
  case False
  define out where "out = substeps w capture SUBSTEPS_PER_COMMAND (NO_PROGRESS, enqueueCommand w command ep)"
  have "inv (snd out)" unfolding out_def
    using assms False by (intro substeps_inv enqueue) (simp_all add: enqueueCommand_def)
  then have arrived: "inv ((snd out)\<lparr> ep_state := snd (updateArrival w (ep_state (snd out))) \<rparr>)" by (rule arrive)
  let ?st = "snd (updateArrival w (ep_state (snd out)))"
  have "inv ((snd out)\<lparr> ep_state := (if c then ?st\<lparr> bd_done := True \<rparr> else ?st) \<rparr>)" for c
    using arrived end_episode [OF arrived] by simp
  from reward [OF look [OF this]] show ?thesis
    using False by (simp add: world_step_def Let_def case_prod_beta flip: out_def)
qed

lemma drive_inv: "inv ep \<Longrightarrow> inv (drive w capture commands ep)"
  by (induction commands arbitrary: ep) (simp_all add: drive_def step_inv)

end

section \<open>The chassis stays clear of the walls\<close>

definition chassis_clear :: "world \<Rightarrow> body \<Rightarrow> bool" where
  "chassis_clear w st \<longleftrightarrow> \<not> blocked w (bd_x st) (bd_y st) 0"

lemma moved_clear: "chassis_clear w (ep_state ep) \<Longrightarrow> chassis_clear w (moved_body w ep)"
  by (simp add: chassis_clear_def moved_body_def moveBody_def Let_def wheel_frame applied_frame)

interpretation clear: episode_invariant w "\<lambda>ep. chassis_clear w (ep_state ep)"
  by unfold_locales
    (simp_all add: enqueueCommand_def chassis_clear_def substep_motion moved_clear [unfolded chassis_clear_def]
      arrival_frame observe_frame)

lemma overlaps_mono: "0 \<le> r \<Longrightarrow> r \<le> s \<Longrightarrow> overlaps r x y rect \<Longrightarrow> overlaps s x y rect"
  unfolding overlaps_def Let_def using mult_mono [of r s r s] by (auto split: prod.splits)

lemma blocked_mono:
  assumes "0 \<le> ph_bodyRadius (wo_physics w)" and "0 \<le> c" and "blocked w x y 0"
  shows "blocked w x y c"
proof -
  let ?r = "ph_bodyRadius (wo_physics w)"
  have "overlaps ?r x y rect \<Longrightarrow> overlaps (?r + c) x y rect" for rect
    using assms(1,2) by (intro overlaps_mono [of ?r "?r + c"]) simp_all
  then show ?thesis using assms unfolding blocked_def Let_def list_ex_iff by force
qed

lemma start_attempts_clear:
  "start_attempts w bounds n rng = Inr ((x, y), rng') \<Longrightarrow> \<not> blocked w x y START_CLEARANCE"
  by (induction n arbitrary: rng) (auto simp: Let_def case_prod_beta split: if_splits)

lemma course_walls: "wl \<in> set (walls_of (course_of c) task) \<Longrightarrow> 14 / 10 \<le> wl_x wl \<and> 0 \<le> wl_w wl \<and> 0 \<le> wl_h wl"
  by (cases task) (auto simp: walls_of_def course_of_def COURSES_def wall_def split: if_splits option.splits)

lemma near_start_place:
  assumes "near_start w rng = (p, rng')"
  shows "55 / 100 \<le> po_x p \<and> po_x p \<le> 77 / 100 \<and> 19 / 10 \<le> po_y p \<and> po_y p \<le> 265 / 100"
proof -
  obtain u r1 where u: "rng_draw rng = (u, r1)" by fastforce
  obtain v r2 where v: "rng_draw r1 = (v, r2)" by fastforce
  have "po_x p = START_X_MIN + u * START_X_SPAN"
    "po_y p = bn_yMin (nearStartBand (wo_task w)) + v * bn_ySpan (nearStartBand (wo_task w))"
    using assms by (auto simp: near_start_def Let_def u v split: prod.splits)
  then show ?thesis using rng_drawn [OF u] rng_drawn [OF v]
    by (cases "wo_task w") (simp_all add: START_X_MIN_def START_X_SPAN_def nearStartBand_def)
qed

lemma left_of_walls:
  assumes "x \<le> 77 / 100" and "14 / 10 \<le> wl_x wl" and "r \<le> 55 / 100" and "0 \<le> r"
  shows "\<not> overlaps r x y (rect_of wl)"
proof -
  let ?dx = "x - clamp_to (wl_x wl) (wl_x wl + wl_w wl) x"
  have "?dx \<le> - (63 / 100)" using assms by (auto simp: clamp_to_def)
  then have "(63 / 100) * (63 / 100) \<le> (- ?dx) * (- ?dx)" by (intro mult_mono) simp_all
  then have "(63 / 100) * (63 / 100) \<le> ?dx * ?dx" by (simp only: minus_mult_minus)
  moreover have "r * r \<le> (55 / 100) * (55 / 100)" using assms by (intro mult_mono) simp_all
  moreover have "0 \<le> (y - clamp_to (wl_y wl) (wl_y wl + wl_h wl) y) * (y - clamp_to (wl_y wl) (wl_y wl + wl_h wl) y)"
    by (rule zero_le_square)
  ultimately have "r * r \<le> ?dx * ?dx
      + (y - clamp_to (wl_y wl) (wl_y wl + wl_h wl) y) * (y - clamp_to (wl_y wl) (wl_y wl + wl_h wl) y)"
    by linarith
  then show ?thesis by (simp add: overlaps_def rect_of_def)
qed

lemma start_clear:
  assumes w: "w = new_world task rewards physics"
    and r: "0 \<le> ph_bodyRadius (wo_physics w)" "ph_bodyRadius (wo_physics w) \<le> 55 / 100"
    and initial: "ro_initial opts = None"
    and start: "sampleStartPose w opts rng = Inr (p, rng')"
  shows "\<not> blocked w (po_x p) (po_y p) 0"
proof (cases "ro_other opts \<or> ro_startRange opts > 0")
  case True
  then obtain x y reach r1 r2 where "randomStart w r1 reach = Inr ((x, y), r2)" "po_x p = x" "po_y p = y"
    using start initial
    by (fastforce simp: sampleStartPose_def Let_def case_prod_beta split: sum.splits prod.splits)
  moreover from this have "\<not> blocked w x y START_CLEARANCE"
    unfolding randomStart_def by (blast dest: start_attempts_clear)
  moreover have "0 \<le> START_CLEARANCE" by (simp add: START_CLEARANCE_def)
  ultimately show ?thesis using blocked_mono [OF r(1)] by blast
next
  case False
  then have "p = fst (near_start w rng)"
    using start initial by (simp add: sampleStartPose_def Let_def case_prod_beta)
  then have place: "55 / 100 \<le> po_x p" "po_x p \<le> 77 / 100" "19 / 10 \<le> po_y p" "po_y p \<le> 265 / 100"
    using near_start_place [of w rng p "snd (near_start w rng)"] by simp_all
  have "\<not> overlaps (ph_bodyRadius (wo_physics w)) (po_x p) (po_y p) rect" if "rect \<in> set (wo_rects w)" for rect
  proof -
    from that obtain wl where "rect = rect_of wl" "wl \<in> set (walls_of (course_of (ph_course (wo_physics w))) task)"
      by (auto simp: w new_world_def Let_def)
    then show ?thesis using left_of_walls place r course_walls by blast
  qed
  then show ?thesis
    using place r by (simp add: blocked_def Let_def list_ex_iff ARENA_WIDTH_def ARENA_HEIGHT_def)
qed

definition clear_run :: "world \<Rightarrow> int \<Rightarrow> reset_options \<Rightarrow> bool \<Rightarrow> (real \<times> real) list \<Rightarrow> bool" where
  "clear_run w seed opts capture commands \<longleftrightarrow>
     (case world_reset w seed opts of
        Inl NoClearStart \<Rightarrow> True
      | Inr ep \<Rightarrow> chassis_clear w (ep_state (drive w capture commands ep)))"

lemma run_stays_clear:
  assumes "w = new_world task rewards physics"
    and "0 \<le> ph_bodyRadius (wo_physics w)" "ph_bodyRadius (wo_physics w) \<le> 55 / 100"
    and "ro_initial opts = None"
  shows "clear_run w seed opts capture commands"
proof (cases "world_reset w seed opts")
  case (Inl e)
  then show ?thesis by (cases e) (simp add: clear_run_def)
next
  case (Inr ep)
  then obtain pose r r' where start: "sampleStartPose w opts r = Inr (pose, r')" and st: "ep_state ep = initialState pose"
    by (rule reset_body)
  have "chassis_clear w (ep_state ep)"
    using start_clear [OF assms start] by (simp add: st chassis_clear_def initialState_def)
  then show ?thesis using Inr by (simp add: clear_run_def clear.drive_inv)
qed

text \<open>
  C16: In every episode of every course and task, from every random start, for every body radius up to
  0.55 m, whatever commands are given, the chassis never overlaps a wall and never leaves the arena: a
  movement that would is not made. A start position is refused (an error) rather than taken in a wall.
\<close>

theorem chassis_never_in_wall:
  assumes "0 \<le> ph_bodyRadius (physics DEFAULT_PHYSICS)" and "ph_bodyRadius (physics DEFAULT_PHYSICS) \<le> 55 / 100"
    and "ro_initial opts = None"
  shows "let w = new_world task rewards physics
         in case world_reset w seed opts of
              Inl NoClearStart \<Rightarrow> True
            | Inr ep \<Rightarrow> (let st = ep_state (drive w capture commands ep) in blocked w (bd_x st) (bd_y st) 0 = False)"
  using run_stays_clear [of "new_world task rewards physics" task rewards physics opts seed capture commands] assms
  by (simp add: clear_run_def chassis_clear_def new_world_def Let_def split: sum.splits)

lemma chassis_never_in_wall_witness:
  "let w = new_world Dock id (\<lambda>ph. ph\<lparr> ph_course := Some ''turns'' \<rparr>)
   in case world_reset w 7 (NO_OPTIONS\<lparr> ro_other := True \<rparr>) of
        Inl NoClearStart \<Rightarrow> True
      | Inr ep \<Rightarrow> (let st = ep_state (drive w False [(1, 1), (1, - 1)] ep) in blocked w (bd_x st) (bd_y st) 0 = False)"
  by (rule chassis_never_in_wall) (simp_all add: DEFAULT_PHYSICS_def NO_OPTIONS_def)

section \<open>The clock and the end of an episode\<close>

lemma substep_clock:
  "bd_t (ep_state (snd (substep w ep))) = bd_t (ep_state ep) + PHYSICS_DT"
  by (simp add: substep_motion moved_frame)

lemma substeps_clock:
  fixes w capture k pg ep
  defines "fin \<equiv> ep_state (snd (substeps w capture k (pg, ep)))"
  assumes "\<not> bd_done (ep_state ep)"
  shows "bd_t fin \<le> bd_t (ep_state ep) + real k * PHYSICS_DT
    \<and> (bd_done fin \<or> bd_t fin = bd_t (ep_state ep) + real k * PHYSICS_DT)"
  using assms(2) unfolding fin_def
proof (induction k arbitrary: pg ep)
  case 0
  then show ?case by simp
next
  case (Suc k)
  let ?ep = "snd (substep w ep)"
  have t: "bd_t (ep_state ?ep) = bd_t (ep_state ep) + PHYSICS_DT" by (rule substep_clock)
  show ?case
  proof (cases "bd_done (ep_state ?ep)")
    case True
    have "0 \<le> real k * PHYSICS_DT" by simp
    with True t show ?thesis by (simp add: Let_def case_prod_beta algebra_simps)
  next
    case False
    from Suc.IH [OF False] t show ?thesis by (simp add: False Let_def case_prod_beta algebra_simps)
  qed
qed

text \<open>The body between the sub-steps of a command and the arrival check.\<close>

definition driven_body :: "world \<Rightarrow> bool \<Rightarrow> real \<times> real \<Rightarrow> episode \<Rightarrow> progress \<times> episode" where
  "driven_body w capture command ep = substeps w capture SUBSTEPS_PER_COMMAND (NO_PROGRESS, enqueueCommand w command ep)"

lemma step_parts:
  fixes w capture command ep
  defines "out \<equiv> driven_body w capture command ep"
  defines "arrived \<equiv> snd (updateArrival w (ep_state (snd out)))"
  defines "fin \<equiv> ep_state (snd (world_step w capture command ep))"
  assumes "\<not> (bd_done (ep_state ep) \<or> bd_latched (ep_state ep))"
  shows "bd_t fin = bd_t (ep_state (snd out))" "bd_hold fin = bd_hold arrived"
    "bd_success fin = bd_success arrived" "bd_wrongAngle fin = bd_wrongAngle arrived"
    "bd_latched fin = bd_latched (ep_state (snd out))" "bd_x fin = bd_x arrived" "bd_y fin = bd_y arrived"
    "bd_theta fin = bd_theta arrived" "bd_v fin = bd_v arrived" "bd_omega fin = bd_omega arrived"
    "bd_done fin \<longleftrightarrow> bd_done arrived \<or> pg_collision (fst out) \<or> bd_t (ep_state (snd out)) \<ge> EPISODE_TIME_LIMIT - 1 / 10 ^ 9"
  using assms(4) unfolding fin_def arrived_def out_def driven_body_def
  by (simp_all add: world_step_def Let_def case_prod_beta observe_frame arrival_frame)

lemma arrival_done: "bd_done st \<Longrightarrow> bd_done (snd (updateArrival w st))"
  by (simp add: updateArrival_def Let_def)

lemma step_clock:
  fixes w capture command ep
  defines "fin \<equiv> ep_state (snd (world_step w capture command ep))"
  assumes "\<not> bd_done (ep_state ep)" and "\<not> bd_latched (ep_state ep)"
  shows "bd_t fin \<le> bd_t (ep_state ep) + CONTROL_DT" (is ?short)
    and "bd_done fin \<or> (bd_t fin = bd_t (ep_state ep) + CONTROL_DT \<and> bd_t fin < EPISODE_TIME_LIMIT - 1 / 10 ^ 9)" (is ?running)
proof -
  let ?out = "driven_body w capture command ep"
  have enq: "ep_state (enqueueCommand w command ep) = ep_state ep" by (simp add: enqueueCommand_def)
  have run: "bd_t (ep_state (snd ?out)) \<le> bd_t (ep_state ep) + CONTROL_DT
      \<and> (bd_done (ep_state (snd ?out)) \<or> bd_t (ep_state (snd ?out)) = bd_t (ep_state ep) + CONTROL_DT)"
    using substeps_clock [of "enqueueCommand w command ep" w capture SUBSTEPS_PER_COMMAND NO_PROGRESS] assms(2)
    by (simp add: driven_body_def enq SUBSTEPS_PER_COMMAND_def PHYSICS_DT_def CONTROL_DT_def)
  have parts: "bd_t fin = bd_t (ep_state (snd ?out))"
    "bd_done fin \<longleftrightarrow> bd_done (snd (updateArrival w (ep_state (snd ?out)))) \<or> pg_collision (fst ?out)
       \<or> bd_t (ep_state (snd ?out)) \<ge> EPISODE_TIME_LIMIT - 1 / 10 ^ 9"
    unfolding fin_def using assms(2,3) by (simp_all add: step_parts)
  show ?short ?running using run parts arrival_done [of "ep_state (snd ?out)" w] by auto
qed

section \<open>The emergency stop\<close>

text \<open>The stop is latched exactly when a measured acceleration reached the threshold, and everything stands.\<close>

definition stop_state :: "world \<Rightarrow> episode \<Rightarrow> bool" where
  "stop_state w ep \<longleftrightarrow>
     (let st = ep_state ep
      in if bd_latched st
         then bd_peak st \<ge> rw_threshold (wo_settings w) \<and> bd_done st \<and> ep_queue ep = []
              \<and> bd_left st = 0 \<and> bd_right st = 0 \<and> bd_targetL st = 0 \<and> bd_targetR st = 0
              \<and> bd_v st = 0 \<and> bd_omega st = 0
         else bd_peak st < rw_threshold (wo_settings w))"

lemma substep_stops:
  assumes "stop_state w ep" and "\<not> bd_done (ep_state ep)"
  shows "stop_state w (snd (substep w ep))"
proof -
  have "\<not> bd_latched (ep_state ep)" "bd_peak (ep_state ep) < rw_threshold (wo_settings w)"
    using assms by (auto simp: stop_state_def Let_def split: if_splits)
  then show ?thesis
    by (auto simp: stop_state_def Let_def substep_motion moved_frame trips_def)
qed

interpretation stops: episode_invariant w "stop_state w"
proof unfold_locales
  fix ep
  show "stop_state w ep \<Longrightarrow> \<not> bd_done (ep_state ep) \<Longrightarrow> stop_state w (snd (substep w ep))" by (rule substep_stops)
  show "stop_state w ep \<Longrightarrow> stop_state w (ep\<lparr> ep_state := snd (updateArrival w (ep_state ep)) \<rparr>)"
    by (simp add: stop_state_def Let_def arrival_frame arrival_done)
qed (auto simp: stop_state_def Let_def enqueueCommand_def observe_frame split: if_splits)

text \<open>
  C24: The emergency stop is latched exactly when an acceleration measured at some sub-step reached the
  threshold. It cuts both motors at once, drops the queued commands and ends the episode: the robot
  stands, and no later command moves it or changes anything else.
\<close>

theorem emergency_stop_final:
  assumes "0 < rw_threshold (rewards DEFAULT_REWARD)"
  shows "let w = new_world task rewards physics
         in case world_reset w seed opts of
              Inl NoClearStart \<Rightarrow> True
            | Inr ep \<Rightarrow>
                (let ep = drive w capture commands ep; st = ep_state ep
                 in if bd_latched st
                    then bd_peak st \<ge> rw_threshold (wo_settings w) \<and> bd_done st \<and> ep_queue ep = []
                      \<and> bd_left st = 0 \<and> bd_right st = 0 \<and> bd_targetL st = 0 \<and> bd_targetR st = 0
                      \<and> bd_v st = 0 \<and> bd_omega st = 0 \<and> drive w capture later ep = ep
                    else bd_peak st < rw_threshold (wo_settings w))"
proof -
  define w where "w = new_world task rewards physics"
  have idle: "bd_latched (ep_state ep) \<Longrightarrow> drive w capture later ep = ep" for ep
    by (induction later) (simp_all add: drive_def world_step_def)
  have "stop_state w (drive w capture commands ep)" if reset: "world_reset w seed opts = Inr ep" for ep
  proof (rule stops.drive_inv)
    from reset obtain pose where "ep_state ep = initialState pose" by (rule reset_body)
    then show "stop_state w ep"
      using assms by (simp add: stop_state_def initialState_def w_def new_world_def Let_def)
  qed
  then show ?thesis
    unfolding w_def [symmetric] Let_def
    by (auto simp: stop_state_def Let_def idle split: sum.splits engine_error.splits)
qed

lemma emergency_stop_final_witness:
  "let w = new_world Delivery id id
   in case world_reset w 3 NO_OPTIONS of
        Inl NoClearStart \<Rightarrow> True
      | Inr ep \<Rightarrow>
          (let ep = drive w True [(1, 1)] ep; st = ep_state ep
           in if bd_latched st
              then bd_peak st \<ge> rw_threshold (wo_settings w) \<and> bd_done st \<and> ep_queue ep = []
                \<and> bd_left st = 0 \<and> bd_right st = 0 \<and> bd_targetL st = 0 \<and> bd_targetR st = 0
                \<and> bd_v st = 0 \<and> bd_omega st = 0 \<and> drive w True [(- 1, 1)] ep = ep
              else bd_peak st < rw_threshold (wo_settings w))"
  by (rule emergency_stop_final) (simp add: DEFAULT_REWARD_def)

section \<open>A success is a rest in the goal\<close>

text \<open>The bodies after each of the commands, in order.\<close>

definition visited :: "world \<Rightarrow> bool \<Rightarrow> (real \<times> real) list \<Rightarrow> episode \<Rightarrow> body list" where
  "visited w capture commands ep =
     map (\<lambda>n. ep_state (drive w capture (take n commands) ep)) [1..<Suc (length commands)]"

lemma drive_snoc: "drive w capture (commands @ [c]) ep = snd (world_step w capture c (drive w capture commands ep))"
  by (simp add: drive_def)

lemma visited_snoc:
  "visited w capture (commands @ [c]) ep
   = visited w capture commands ep @ [ep_state (snd (world_step w capture c (drive w capture commands ep)))]"
proof -
  have "map (\<lambda>n. ep_state (drive w capture (take n (commands @ [c])) ep)) [1..<Suc (length commands)]
      = visited w capture commands ep"
    by (auto simp: visited_def)
  then show ?thesis by (simp add: visited_def drive_snoc)
qed

lemma length_visited [simp]: "length (visited w capture commands ep) = length commands"
  by (simp add: visited_def del: upt_Suc)

definition rested :: "world \<Rightarrow> nat \<Rightarrow> body list \<Rightarrow> bool" where
  "rested w k bodies \<longleftrightarrow> k \<le> length bodies \<and> list_all (resting w) (drop (length bodies - k) bodies)"

lemma rested_mono: "rested w k bodies \<Longrightarrow> j \<le> k \<Longrightarrow> rested w j bodies"
proof -
  assume k: "rested w k bodies" and j: "j \<le> k"
  have "drop (length bodies - j) bodies = drop (k - j) (drop (length bodies - k) bodies)"
    using k j by (simp add: rested_def)
  with k j show "rested w j bodies"
    unfolding rested_def list_all_iff by (metis in_set_dropD le_trans)
qed

lemma rested_snoc: "rested w k bodies \<Longrightarrow> resting w st \<Longrightarrow> rested w (Suc k) (bodies @ [st])"
  by (simp add: rested_def)

text \<open>After \<open>visited\<close>, the time of rest counts the resting bodies at the end, and success needs five.\<close>

definition rest_counted :: "world \<Rightarrow> body list \<Rightarrow> body \<Rightarrow> bool" where
  "rest_counted w bodies st \<longleftrightarrow>
     (\<exists>k. bd_hold st = real k * CONTROL_DT \<and> rested w k bodies \<and> (0 < k \<longrightarrow> last bodies = st)
        \<and> (bd_success st \<longrightarrow> 5 \<le> k \<and> aligned w st \<and> bd_done st))"

lemma resting_same:
  assumes "bd_x a = bd_x b" "bd_y a = bd_y b" "bd_theta a = bd_theta b" "bd_v a = bd_v b" "bd_omega a = bd_omega b"
  shows "resting w a = resting w b" "aligned w a = aligned w b"
  using assms by (simp_all add: resting_def aligned_def distanceToGoal_def headingErrorToGoal_def)

lemma step_rest:
  assumes "rest_counted w bodies (ep_state ep)"
  shows "rest_counted w (bodies @ [ep_state (snd (world_step w capture c ep))]) (ep_state (snd (world_step w capture c ep)))"
proof (cases "bd_done (ep_state ep) \<or> bd_latched (ep_state ep)")
  case True
  then have same: "ep_state (snd (world_step w capture c ep)) = ep_state ep" by (simp add: world_step_def)
  from assms obtain k where k: "bd_hold (ep_state ep) = real k * CONTROL_DT" "rested w k bodies"
    "0 < k \<longrightarrow> last bodies = ep_state ep" "bd_success (ep_state ep) \<longrightarrow> 5 \<le> k \<and> aligned w (ep_state ep) \<and> bd_done (ep_state ep)"
    unfolding rest_counted_def by blast
  have "rested w k (bodies @ [ep_state ep])"
  proof (cases k)
    case 0
    then show ?thesis by (simp add: rested_def)
  next
    case (Suc j)
    have "drop (length bodies - k) bodies \<noteq> []" using k(2) Suc unfolding rested_def drop_eq_Nil by linarith
    then have "last bodies \<in> set (drop (length bodies - k) bodies)" by (metis last_drop last_in_set drop_all not_le)
    then have "resting w (ep_state ep)" using k Suc by (simp add: rested_def list_all_iff)
    then have "rested w (Suc k) (bodies @ [ep_state ep])" by (rule rested_snoc [OF k(2)])
    then show ?thesis by (rule rested_mono) simp
  qed
  then show ?thesis unfolding rest_counted_def same using k by (intro exI [of _ k]) simp
next
  case False
  let ?fin = "ep_state (snd (world_step w capture c ep))"
  let ?mid = "ep_state (snd (driven_body w capture c ep))"
  note parts = step_parts [OF False, of w capture c]
  have hold_mid: "bd_hold ?mid = bd_hold (ep_state ep)" and success_mid: "\<not> bd_success ?mid"
  proof -
    have "\<not> bd_success (ep_state ep)" using assms False unfolding rest_counted_def by blast
    moreover have "bd_hold (ep_state (snd (substeps w capture n (pg, e)))) = bd_hold (ep_state e)
        \<and> bd_success (ep_state (snd (substeps w capture n (pg, e)))) = bd_success (ep_state e)" for n pg e
      by (induction n arbitrary: pg e) (simp_all add: Let_def case_prod_beta substep_motion moved_frame)
    ultimately show "bd_hold ?mid = bd_hold (ep_state ep)" "\<not> bd_success ?mid"
      by (simp_all add: driven_body_def enqueueCommand_def)
  qed
  have same: "resting w ?fin = resting w ?mid" "aligned w ?fin = aligned w ?mid"
    by (rule resting_same; simp add: parts arrival_frame)+
  from assms obtain k where k: "bd_hold (ep_state ep) = real k * CONTROL_DT" "rested w k bodies"
    unfolding rest_counted_def by blast
  show ?thesis
  proof (cases "resting w ?mid")
    case True
    have "rested w (Suc k) (bodies @ [?fin])" using True same by (intro rested_snoc k) simp
    moreover have "bd_hold ?fin = real (Suc k) * CONTROL_DT"
      using True k(1) hold_mid by (simp add: parts updateArrival_def Let_def algebra_simps)
    moreover have "bd_success ?fin \<longrightarrow> 5 \<le> Suc k \<and> aligned w ?fin \<and> bd_done ?fin"
      using True k(1) hold_mid success_mid same
      by (simp add: parts updateArrival_def Let_def GOAL_HOLD_TIME_def CONTROL_DT_def split: if_splits)
    ultimately show ?thesis unfolding rest_counted_def by (intro exI [of _ "Suc k"]) simp
  next
    case False
    then have "bd_hold ?fin = real 0 * CONTROL_DT" "\<not> bd_success ?fin"
      using success_mid by (simp_all add: parts updateArrival_def Let_def GOAL_HOLD_TIME_def)
    then show ?thesis unfolding rest_counted_def rested_def by (intro exI [of _ 0]) simp
  qed
qed

lemma visited_rest: "rest_counted w [] (ep_state ep) \<Longrightarrow> rest_counted w (visited w capture commands ep) (ep_state (drive w capture commands ep))"
proof (induction commands rule: rev_induct)
  case Nil
  then show ?case by (simp add: visited_def drive_def)
next
  case (snoc c commands)
  then show ?case using step_rest by (simp add: visited_snoc drive_snoc)
qed

text \<open>
  An episode counts as a success only when the robot came to rest: after each of the last five
  commands (half a second) it stood inside the goal, within the speed and turning limits, and in a
  docking task it is aligned with the port. The episode is then over.
\<close>

theorem success_means_parked:
  "let w = new_world task rewards physics
   in case world_reset w seed opts of
        Inl NoClearStart \<Rightarrow> True
      | Inr ep \<Rightarrow>
          (let st = ep_state (drive w capture commands ep); bodies = visited w capture commands ep
           in if bd_success st
              then 5 \<le> length bodies \<and> list_all (resting w) (drop (length bodies - 5) bodies) \<and> last bodies = st
                \<and> aligned w st \<and> bd_done st
              else True)"
proof -
  define w where "w = new_world task rewards physics"
  have parked: "5 \<le> length bodies \<and> list_all (resting w) (drop (length bodies - 5) bodies) \<and> last bodies = st
      \<and> aligned w st \<and> bd_done st"
    if "rest_counted w bodies st" "bd_success st" for bodies st
  proof -
    from that obtain k where "rested w k bodies" "5 \<le> k" "0 < k \<longrightarrow> last bodies = st" "aligned w st" "bd_done st"
      unfolding rest_counted_def by blast
    then show ?thesis using rested_mono [of w k bodies 5] by (simp add: rested_def)
  qed
  show ?thesis
  proof (cases "world_reset w seed opts")
    case (Inl e)
    then show ?thesis by (cases e) (simp add: w_def Let_def)
  next
    case (Inr ep)
    then obtain pose where "ep_state ep = initialState pose" by (rule reset_body)
    then have "rest_counted w [] (ep_state ep)"
      unfolding rest_counted_def by (intro exI [of _ 0]) (simp add: initialState_def rested_def)
    then have "rest_counted w (visited w capture commands ep) (ep_state (drive w capture commands ep))"
      by (rule visited_rest)
    from parked [OF this] show ?thesis using Inr by (simp only: w_def Let_def sum.case split: if_split) simp
  qed
qed

section \<open>The speed the motors can reach\<close>

definition motors_ok :: "physics \<Rightarrow> bool" where
  "motors_ok ph \<longleftrightarrow> 0 \<le> ph_maxRpm ph \<and> 0 \<le> ph_accelRpm ph \<and> 0 \<le> ph_radius ph \<and> 0 \<le> ph_slip ph \<and> ph_slip ph \<le> 1 / 2"

text \<open>The rim speed of the largest wheel with the strongest motor at a full command.\<close>

definition top_speed :: "physics \<Rightarrow> real" where
  "top_speed ph = rpmToSpeed (ph_maxRpm ph * (103 / 100)) (ph_radius ph * (1025 / 1000))"

definition actual_ok :: "physics \<Rightarrow> actual \<Rightarrow> bool" where
  "actual_ok ph ac \<longleftrightarrow>
     0 \<le> ac_gainL ac \<and> ac_gainL ac \<le> 103 / 100 \<and> 0 \<le> ac_gainR ac \<and> ac_gainR ac \<le> 103 / 100
     \<and> 0 \<le> ac_radiusL ac \<and> ac_radiusL ac \<le> ph_radius ph * (1025 / 1000)
     \<and> 0 \<le> ac_radiusR ac \<and> ac_radiusR ac \<le> ph_radius ph * (1025 / 1000)
     \<and> 0 \<le> ac_gripL ac \<and> ac_gripL ac \<le> 1 \<and> 0 \<le> ac_gripR ac \<and> ac_gripR ac \<le> 1"

definition speeds_ok :: "physics \<Rightarrow> body \<Rightarrow> bool" where
  "speeds_ok ph st \<longleftrightarrow>
     \<bar>bd_targetL st\<bar> \<le> ph_maxRpm ph \<and> \<bar>bd_targetR st\<bar> \<le> ph_maxRpm ph
     \<and> \<bar>bd_left st\<bar> \<le> top_speed ph \<and> \<bar>bd_right st\<bar> \<le> top_speed ph \<and> \<bar>bd_v st\<bar> \<le> top_speed ph"

definition queue_ok :: "physics \<Rightarrow> due_command list \<Rightarrow> bool" where
  "queue_ok ph queue \<longleftrightarrow> list_all (\<lambda>c. \<bar>du_left c\<bar> \<le> ph_maxRpm ph \<and> \<bar>du_right c\<bar> \<le> ph_maxRpm ph) queue"

definition motion_ok :: "world \<Rightarrow> episode \<Rightarrow> bool" where
  "motion_ok w ep \<longleftrightarrow> motors_ok (wo_physics w) \<and> actual_ok (wo_physics w) (ep_actual ep)
     \<and> queue_ok (wo_physics w) (ep_queue ep) \<and> speeds_ok (wo_physics w) (ep_state ep)"

lemma top_speed_nonneg: "motors_ok ph \<Longrightarrow> 0 \<le> top_speed ph"
  by (simp add: motors_ok_def top_speed_def rpmToSpeed_def)

lemma spread_range:
  assumes "0 \<le> f"
  shows "1 - f \<le> fst (spread randomize f rng) \<and> fst (spread randomize f rng) \<le> 1 + f"
  using spread_bounds [of "fst (rng_draw rng)" f] rng_draw_bounds [of rng] assms
  by (simp add: spread_def case_prod_beta)

lemma share_range:
  fixes a s f :: real
  assumes "0 \<le> a" "1 - f \<le> s" "s \<le> 1 + f" "f \<le> 1"
  shows "0 \<le> a * s \<and> a * s \<le> a * (1 + f)"
  using assms by (intro conjI mult_nonneg_nonneg mult_left_mono) simp_all

lemma sampled_ok:
  assumes "motors_ok (wo_physics w)"
  shows "actual_ok (wo_physics w) (fst (sampleActualPhysics w randomize rng))"
proof -
  have radius: "0 \<le> ph_radius (wo_physics w) * fst (spread randomize (25 / 1000) r)
      \<and> ph_radius (wo_physics w) * fst (spread randomize (25 / 1000) r) \<le> ph_radius (wo_physics w) * (1 + 25 / 1000)" for r
    using assms spread_range [of "25 / 1000" randomize r] by (intro share_range) (simp_all add: motors_ok_def)
  have slip: "0 \<le> ph_slip (wo_physics w) * fst (spread randomize (7 / 10) r)
      \<and> ph_slip (wo_physics w) * fst (spread randomize (7 / 10) r) \<le> ph_slip (wo_physics w) * (1 + 7 / 10)" for r
    using assms spread_range [of "7 / 10" randomize r] by (intro share_range) (simp_all add: motors_ok_def)
  have slip': "ph_slip (wo_physics w) * fst (spread randomize (7 / 10) r) \<le> 1" for r
    using slip [of r] assms by (simp add: motors_ok_def)
  have gain: "0 \<le> fst (spread randomize (3 / 100) r) \<and> fst (spread randomize (3 / 100) r) \<le> 103 / 100" for r
    using spread_range [of "3 / 100" randomize r] by simp
  show ?thesis
    using radius slip slip' gain
    by (simp add: sampleActualPhysics_def actual_ok_def Let_def case_prod_beta)
qed

lemma desired_bound:
  assumes "motors_ok ph" "\<bar>rpm\<bar> \<le> ph_maxRpm ph" "0 \<le> gain" "gain \<le> 103 / 100"
    "0 \<le> radius" "radius \<le> ph_radius ph * (1025 / 1000)"
  shows "\<bar>rpmToSpeed (rpm * gain) radius\<bar> \<le> top_speed ph"
proof -
  have "\<bar>rpm * gain\<bar> * radius \<le> (ph_maxRpm ph * (103 / 100)) * (ph_radius ph * (1025 / 1000))"
    unfolding abs_mult using assms by (intro mult_mono) (simp_all add: motors_ok_def)
  then have "2 * pi * (\<bar>rpm * gain\<bar> * radius) / 60 \<le> 2 * pi * ((ph_maxRpm ph * (103 / 100)) * (ph_radius ph * (1025 / 1000))) / 60"
    by (intro divide_right_mono mult_left_mono) simp_all
  moreover have form: "rpmToSpeed r x = 2 * pi * (r * x) / 60" for r x
    by (simp add: rpmToSpeed_def)
  ultimately have "rpmToSpeed \<bar>rpm * gain\<bar> radius \<le> top_speed ph" by (simp only: top_speed_def)
  then show ?thesis by (simp only: abs_rpmToSpeed [OF assms(5)])
qed

lemma mean_bound: "\<bar>a\<bar> \<le> b \<Longrightarrow> \<bar>c\<bar> \<le> b \<Longrightarrow> \<bar>(a + c) / 2\<bar> \<le> (b :: real)"
  by (simp add: abs_le_iff)

lemma approach_bound:
  fixes a d c low high b :: real
  assumes "\<bar>a\<bar> \<le> b" "\<bar>d\<bar> \<le> b" "0 \<le> c" "c \<le> 1" "low \<le> 0" "0 \<le> high"
  shows "\<bar>a + clamp_to low high ((d - a) * c)\<bar> \<le> b"
proof -
  have "min 0 (d - a) \<le> (d - a) * c \<and> (d - a) * c \<le> max 0 (d - a)"
  proof (cases "0 \<le> d - a")
    case True
    then show ?thesis using assms mult_left_mono [of c 1 "d - a"] by simp
  next
    case False
    then show ?thesis using assms mult_left_mono_neg [of c 1 "d - a"] by (simp add: mult_nonpos_nonneg)
  qed
  then show ?thesis using clamp_to_between [of low high "(d - a) * c"] assms(1,2,5,6) by linarith
qed

lemma wheels_bound:
  assumes "motors_ok (wo_physics w)" "actual_ok (wo_physics w) ac" "speeds_ok (wo_physics w) st"
  shows "\<bar>bd_left (updateWheelSpeeds w ac st)\<bar> \<le> top_speed (wo_physics w)"
    and "\<bar>bd_right (updateWheelSpeeds w ac st)\<bar> \<le> top_speed (wo_physics w)"
proof -
  let ?lag = "max MIN_MOTOR_LAG (ac_lag ac)" and ?ph = "wo_physics w"
  let ?m = "rpmToSpeed (ph_accelRpm ?ph) (ph_radius ?ph) * PHYSICS_DT"
  have lag: "MIN_MOTOR_LAG \<le> ?lag" "0 < ?lag" by (simp_all add: MIN_MOTOR_LAG_def)
  then have c: "0 \<le> PHYSICS_DT / ?lag" "PHYSICS_DT / ?lag \<le> 1"
    by (simp_all add: MIN_MOTOR_LAG_def PHYSICS_DT_def)
  have m: "- ?m \<le> 0" "0 \<le> ?m" using assms(1) by (simp_all add: motors_ok_def rpmToSpeed_def)
  have "\<bar>a + clamp_to (- ?m) ?m ((rpmToSpeed (rpm * gain) radius - a) * PHYSICS_DT / ?lag)\<bar> \<le> top_speed ?ph"
    if "\<bar>a\<bar> \<le> top_speed ?ph" "\<bar>rpm\<bar> \<le> ph_maxRpm ?ph" "0 \<le> gain" "gain \<le> 103 / 100" "0 \<le> radius" "radius \<le> ph_radius ?ph * (1025 / 1000)"
    for a rpm gain radius
    using approach_bound [OF that(1) desired_bound [OF assms(1) that(2-6)] c m] by simp
  then show "\<bar>bd_left (updateWheelSpeeds w ac st)\<bar> \<le> top_speed ?ph"
    "\<bar>bd_right (updateWheelSpeeds w ac st)\<bar> \<le> top_speed ?ph"
    using assms(2,3) by (simp_all add: updateWheelSpeeds_def Let_def actual_ok_def speeds_ok_def)
qed

lemma grip_bound: "\<bar>a\<bar> \<le> b \<Longrightarrow> 0 \<le> g \<Longrightarrow> g \<le> 1 \<Longrightarrow> \<bar>a * g\<bar> \<le> (b :: real)"
  unfolding abs_mult using mult_mono [of "\<bar>a\<bar>" b "\<bar>g\<bar>" 1] by simp

lemma due_ok:
  assumes "queue_ok ph queue" "speeds_ok ph st"
  shows "queue_ok ph (fst (apply_due queue st)) \<and> speeds_ok ph (snd (apply_due queue st))"
  using assms
proof (induction queue arbitrary: st)
  case (Cons c queue)
  have "speeds_ok ph (st\<lparr> bd_targetL := du_left c, bd_targetR := du_right c \<rparr>)" "queue_ok ph queue"
    using Cons.prems by (simp_all add: queue_ok_def speeds_ok_def)
  with Cons.IH Cons.prems show ?case by simp
qed simp

lemma moved_speeds:
  assumes "motion_ok w ep"
  shows "speeds_ok (wo_physics w) (moved_body w ep)"
proof -
  let ?st = "ep_state (applyDueCommands ep)" and ?ac = "ep_actual ep"
  have st: "speeds_ok (wo_physics w) ?st"
    using due_ok assms by (simp add: motion_ok_def applyDueCommands_def case_prod_beta)
  note wheels = wheels_bound [OF _ _ st, of ?ac]
  have "\<bar>bd_left (updateWheelSpeeds w ?ac ?st) * ac_gripL ?ac\<bar> \<le> top_speed (wo_physics w)"
    "\<bar>bd_right (updateWheelSpeeds w ?ac ?st) * ac_gripR ?ac\<bar> \<le> top_speed (wo_physics w)"
    using assms by (intro grip_bound wheels; simp add: motion_ok_def actual_ok_def)+
  then have "\<bar>(bd_left (updateWheelSpeeds w ?ac ?st) * ac_gripL ?ac + bd_right (updateWheelSpeeds w ?ac ?st) * ac_gripR ?ac) / 2\<bar>
      \<le> top_speed (wo_physics w)"
    by (rule mean_bound)
  then show ?thesis
    using wheels st assms top_speed_nonneg [of "wo_physics w"]
    by (simp add: speeds_ok_def moved_body_def moveBody_def Let_def wheel_frame motion_ok_def)
qed

interpretation motion: episode_invariant w "motion_ok w"
proof unfold_locales
  fix ep command
  show "motion_ok w ep \<Longrightarrow> \<not> bd_done (ep_state ep) \<Longrightarrow> motion_ok w (enqueueCommand w command ep)"
    using clamp_unit_bounds [of "fst command"] clamp_unit_bounds [of "snd command"]
    by (auto simp: motion_ok_def enqueueCommand_def queue_ok_def abs_mult motors_ok_def intro: mult_left_le_one_le)
next
  fix ep
  assume ok: "motion_ok w ep"
  then have "queue_ok (wo_physics w) (ep_queue (applyDueCommands ep))"
    using due_ok by (simp add: motion_ok_def applyDueCommands_def case_prod_beta)
  then show "motion_ok w (snd (substep w ep))"
    using ok moved_speeds [OF ok] top_speed_nonneg [of "wo_physics w"]
    by (simp add: motion_ok_def substep_motion speeds_ok_def queue_ok_def motors_ok_def)
qed (simp_all add: motion_ok_def speeds_ok_def arrival_frame observe_frame)

lemma motion_from_reset:
  assumes "motors_ok (wo_physics w)" and "world_reset w seed opts = Inr ep"
  shows "motion_ok w ep"
proof -
  from assms(2) obtain pose where "ep_state ep = initialState pose" "ep_queue ep = []"
    "ep_actual ep = fst (sampleActualPhysics w (coalesce (ro_randomize opts) (ph_randomize (wo_physics w))) (randomGenerator seed))"
    by (rule reset_body)
  then show ?thesis using assms(1) sampled_ok [OF assms(1)] top_speed_nonneg [OF assms(1)]
    by (simp add: motion_ok_def queue_ok_def speeds_ok_def initialState_def motors_ok_def)
qed

text \<open>
  Whatever is commanded, in and out of range, no wheel and no body ever moves faster than the rim
  of a wheel at the full command with the largest manufacturing spread of motor and radius.
\<close>

theorem speed_within_motors:
  assumes "motors_ok (physics DEFAULT_PHYSICS)"
  shows "let w = new_world task rewards physics; top = top_speed (physics DEFAULT_PHYSICS)
         in case world_reset w seed opts of
              Inl NoClearStart \<Rightarrow> True
            | Inr ep \<Rightarrow>
                (let st = ep_state (drive w capture commands ep)
                 in \<bar>bd_left st\<bar> \<le> top \<and> \<bar>bd_right st\<bar> \<le> top \<and> \<bar>bd_v st\<bar> \<le> top)"
proof (cases "world_reset (new_world task rewards physics) seed opts")
  case (Inl e)
  then show ?thesis by (cases e) (simp add: Let_def)
next
  case (Inr ep)
  have ph: "wo_physics (new_world task rewards physics) = physics DEFAULT_PHYSICS" by (simp add: new_world_def Let_def)
  have "motion_ok (new_world task rewards physics) (drive (new_world task rewards physics) capture commands ep)"
    using assms by (intro motion.drive_inv motion_from_reset [OF _ Inr]) (simp add: ph)
  then show ?thesis using Inr by (simp add: motion_ok_def speeds_ok_def ph Let_def)
qed

lemma speed_within_motors_witness:
  "let w = new_world Delivery id id; top = top_speed (id DEFAULT_PHYSICS)
   in case world_reset w 5 NO_OPTIONS of
        Inl NoClearStart \<Rightarrow> True
      | Inr ep \<Rightarrow>
          (let st = ep_state (drive w False [(9, - 3), (1, 1)] ep)
           in \<bar>bd_left st\<bar> \<le> top \<and> \<bar>bd_right st\<bar> \<le> top \<and> \<bar>bd_v st\<bar> \<le> top)"
  by (rule speed_within_motors) (simp add: motors_ok_def DEFAULT_PHYSICS_def)

section \<open>A lidar ray ends at the first wall\<close>

definition in_rect :: "real \<Rightarrow> real \<Rightarrow> rect \<Rightarrow> bool" where
  "in_rect x y rect = (case rect of (x0, y0, x1, y1) \<Rightarrow> x0 \<le> x \<and> x \<le> x1 \<and> y0 \<le> y \<and> y \<le> y1)"

definition proper :: "rect \<Rightarrow> bool" where
  "proper rect = (case rect of (x0, y0, x1, y1) \<Rightarrow> x0 \<le> x1 \<and> y0 \<le> y1)"

text \<open>A component of the direction that the slab test does not have to round to zero.\<close>

definition exact_component :: "real \<Rightarrow> bool" where
  "exact_component d \<longleftrightarrow> (if \<bar>d\<bar> < 1 / 10 ^ 9 then d = 0 else True)"

definition in_interval :: "(real \<times> real) option \<Rightarrow> real \<Rightarrow> bool" where
  "in_interval interval t = (case interval of None \<Rightarrow> True | Some (entry, leave) \<Rightarrow> entry \<le> t \<and> t \<le> leave)"

lemma between_quotients:
  assumes "d \<noteq> 0" and "low \<le> high"
  shows "min ((low - p) / d) ((high - p) / d) \<le> t \<and> t \<le> max ((low - p) / d) ((high - p) / d)
    \<longleftrightarrow> low \<le> p + t * d \<and> p + t * d \<le> (high :: real)"
proof (cases "0 < d")
  case True
  then have "(low - p) / d \<le> (high - p) / d" using assms by (simp add: divide_right_mono)
  with True show ?thesis by (auto simp: min_def max_def divide_le_eq le_divide_eq)
next
  case False
  then have neg: "d < 0" using assms by simp
  then have "(high - p) / d \<le> (low - p) / d" using assms by (simp add: divide_right_mono_neg)
  with neg show ?thesis by (auto simp: min_def max_def neg_divide_le_eq neg_le_divide_eq)
qed

lemma slab_interval:
  assumes "exact_component d" and "low \<le> high"
  shows "(case slab p d low high interval of None \<Rightarrow> False | Some i \<Rightarrow> in_interval i t)
    \<longleftrightarrow> in_interval interval t \<and> low \<le> p + t * d \<and> p + t * d \<le> high"
proof (cases "\<bar>d\<bar> < 1 / 10 ^ 9")
  case True
  then have "d = 0" using assms(1) by (simp add: exact_component_def)
  then show ?thesis by (auto simp: slab_def)
next
  case False
  then have "d \<noteq> 0" by auto
  from between_quotients [OF this assms(2), of p t] False show ?thesis
    by (auto simp: slab_def Let_def in_interval_def split: option.split)
qed

text \<open>With a direction of length one the interval of a hit is bounded, so it is a pair.\<close>

lemma slab_pair: "\<bar>d\<bar> \<ge> 1 / 10 ^ 9 \<or> interval \<noteq> None \<Longrightarrow> slab p d low high interval \<noteq> Some None"
  by (auto simp: slab_def Let_def split: option.split)

definition ray_point :: "real \<Rightarrow> real \<Rightarrow> real \<Rightarrow> real \<Rightarrow> real \<Rightarrow> rect \<Rightarrow> bool" where
  "ray_point x y dx dy t rect = in_rect (x + t * dx) (y + t * dy) rect"

lemma ray_hit_first:
  assumes rect: "proper rect" and exact: "exact_component dx" "exact_component dy"
    and unit: "dx\<^sup>2 + dy\<^sup>2 = 1" and outside: "\<not> in_rect x y rect" and range: "0 \<le> reach"
  shows "0 \<le> ray_hit x y dx dy reach rect" "ray_hit x y dx dy reach rect \<le> reach"
    and "0 \<le> t \<Longrightarrow> t < ray_hit x y dx dy reach rect \<Longrightarrow> \<not> ray_point x y dx dy t rect"
    and "ray_hit x y dx dy reach rect = reach \<or> ray_point x y dx dy (ray_hit x y dx dy reach rect) rect"
proof -
  obtain x0 y0 x1 y1 where r: "rect = (x0, y0, x1, y1)" by (cases rect)
  then have ord: "x0 \<le> x1" "y0 \<le> y1" using rect by (simp_all add: proper_def)
  let ?sx = "slab x dx x0 x1 None"
  let ?hit = "ray_hit x y dx dy reach rect"
  have "0 \<le> ?hit \<and> ?hit \<le> reach \<and> (\<forall>t. 0 \<le> t \<and> t < ?hit \<longrightarrow> \<not> ray_point x y dx dy t rect)
      \<and> (?hit = reach \<or> ray_point x y dx dy ?hit rect)"
  proof (cases "\<exists>i j. ?sx = Some i \<and> slab y dy y0 y1 i = Some j")
    case False
    have "\<not> ray_point x y dx dy t rect" for t
    proof (cases ?sx)
      case None
      then show ?thesis
        using slab_interval [OF exact(1) ord(1), where p = x and interval = None and t = t]
        by (auto simp: ray_point_def in_rect_def r in_interval_def)
    next
      case (Some i)
      then have "slab y dy y0 y1 i = None" using False by (cases "slab y dy y0 y1 i") auto
      then show ?thesis
        using Some slab_interval [OF exact(1) ord(1), where p = x and interval = None and t = t]
          slab_interval [OF exact(2) ord(2), where p = y and interval = i and t = t]
        by (auto simp: ray_point_def in_rect_def r in_interval_def [of None])
    qed
    moreover have "?hit = reach" using False by (auto simp: ray_hit_def r split: option.split)
    ultimately show ?thesis using range by simp
  next
    case True
    then obtain i j where ij: "?sx = Some i" "slab y dy y0 y1 i = Some j" by blast
    have point: "in_interval j t \<longleftrightarrow> ray_point x y dx dy t rect" for t
      using slab_interval [OF exact(1) ord(1), where p = x and interval = None and t = t] slab_interval [OF exact(2) ord(2), where p = y and interval = i and t = t] ij
      by (auto simp: ray_point_def in_rect_def r in_interval_def [of None])
    have "j \<noteq> None"
    proof
      assume "j = None"
      then have "\<bar>dy\<bar> < 1 / 10 ^ 9" "i = None" using slab_pair [of dy i y y0 y1] ij(2) by force+
      then have "\<bar>dx\<bar> < 1 / 10 ^ 9" using slab_pair [of dx None x x0 x1] ij(1) by force
      then have "dx = 0" "dy = 0" using exact \<open>\<bar>dy\<bar> < _\<close> by (simp_all add: exact_component_def)
      with unit show False by simp
    qed
    then obtain entry leave where j: "j = Some (entry, leave)" by auto
    have zero: "\<not> (entry \<le> 0 \<and> 0 \<le> leave)"
      using point [of 0] outside by (simp add: j in_interval_def ray_point_def)
    have hit: "?hit = (if leave \<ge> max 0 entry \<and> entry \<ge> 0 then min reach entry else reach)"
      using ij by (simp add: ray_hit_def r j)
    have pt: "ray_point x y dx dy t rect \<longleftrightarrow> entry \<le> t \<and> t \<le> leave" for t
      using point [of t] by (simp add: j in_interval_def)
    show ?thesis
    proof (cases "leave \<ge> max 0 entry \<and> entry \<ge> 0")
      case True
      then have h: "?hit = min reach entry" using hit by simp
      show ?thesis unfolding pt h using True range by (auto simp: min_def)
    next
      case False
      then have h: "?hit = reach" using hit by (simp only: if_False)
      have "\<not> (entry \<le> t \<and> t \<le> leave)" if "0 \<le> t" for t
        using False zero that by linarith
      then show ?thesis unfolding pt h using range by blast
    qed
  qed
  then show "0 \<le> ?hit" "?hit \<le> reach" "0 \<le> t \<Longrightarrow> t < ?hit \<Longrightarrow> \<not> ray_point x y dx dy t rect"
    "?hit = reach \<or> ray_point x y dx dy ?hit rect"
    by blast+
qed

lemma ray_fold_first:
  assumes "list_all proper rects" and "list_all (\<lambda>rect. \<not> in_rect x y rect) rects"
    and "exact_component dx" "exact_component dy" and "dx\<^sup>2 + dy\<^sup>2 = 1" and "0 \<le> reach"
  defines "d \<equiv> foldl (ray_hit x y dx dy) reach rects"
  shows "0 \<le> d \<and> d \<le> reach \<and> (\<forall>t. 0 \<le> t \<and> t < d \<longrightarrow> list_all (\<lambda>rect. \<not> ray_point x y dx dy t rect) rects)
    \<and> (d = reach \<or> list_ex (ray_point x y dx dy d) rects)"
  using assms(1,2,6) unfolding d_def
proof (induction rects arbitrary: reach)
  case Nil
  then show ?case by simp
next
  case (Cons rect rects)
  let ?h = "ray_hit x y dx dy reach rect" and ?d = "foldl (ray_hit x y dx dy) reach (rect # rects)"
  have first: "proper rect" "\<not> in_rect x y rect" "0 \<le> reach" using Cons.prems by simp_all
  note hit = ray_hit_first [OF first(1) assms(3-5) first(2,3)]
  have ih: "0 \<le> ?d \<and> ?d \<le> ?h \<and> (\<forall>t. 0 \<le> t \<and> t < ?d \<longrightarrow> list_all (\<lambda>rect. \<not> ray_point x y dx dy t rect) rects)
      \<and> (?d = ?h \<or> list_ex (ray_point x y dx dy ?d) rects)"
    using Cons.IH [of ?h] Cons.prems hit(1) by simp
  have "\<not> ray_point x y dx dy t rect" if "0 \<le> t" "t < ?d" for t
    using hit(3) [of t] that ih by simp
  then show ?case using ih hit(2,4) by auto
qed

lemma world_rects_proper: "list_all proper (rayRects (new_world task rewards physics))"
proof -
  have "proper (rect_of wl)" if "wl \<in> set (walls_of (course_of c) task)" for wl c
    using course_walls [OF that] by (simp add: proper_def rect_of_def)
  then show ?thesis
    by (auto simp: rayRects_def new_world_def Let_def list_all_iff ARENA_BOUNDARY_RECTS_def proper_def
        ARENA_WIDTH_def ARENA_HEIGHT_def)
qed

text \<open>
  From a point outside the walls, the distance a ray returns is that of the first wall it meets: no
  point of the ray before it is in a wall of the course or of the arena, and it is either the range of
  the sensor or the distance of a wall. (A component of the direction below 1e-9 is taken as zero by
  the code, so the statement is for directions where it is zero.)
\<close>

theorem ray_ends_at_first_wall:
  assumes "exact_component (cos angle)" and "exact_component (sin angle)" and "0 \<le> reach" and "0 \<le> t"
    and "list_all (\<lambda>rect. \<not> in_rect x y rect) (rayRects (new_world task rewards physics))"
  shows "let w = new_world task rewards physics; d = ray w x y angle reach
         in 0 \<le> d \<and> d \<le> reach
            \<and> (if t < d then list_all (\<lambda>rect. \<not> in_rect (x + t * cos angle) (y + t * sin angle) rect) (rayRects w)
               else d = reach \<or> list_ex (in_rect (x + d * cos angle) (y + d * sin angle)) (rayRects w))"
proof -
  have unit: "(cos angle)\<^sup>2 + (sin angle)\<^sup>2 = 1" by (rule sin_cos_squared_add2)
  note fold_first = ray_fold_first [OF world_rects_proper assms(5,1,2) unit assms(3)]
  have "0 \<le> ray (new_world task rewards physics) x y angle reach"
    "ray (new_world task rewards physics) x y angle reach \<le> reach"
    using fold_first by (simp_all add: ray_def)
  moreover have "t < ray (new_world task rewards physics) x y angle reach \<Longrightarrow>
      list_all (\<lambda>rect. \<not> in_rect (x + t * cos angle) (y + t * sin angle) rect) (rayRects (new_world task rewards physics))"
    using fold_first assms(4) unfolding ray_def [symmetric] ray_point_def by blast
  moreover have "ray (new_world task rewards physics) x y angle reach = reach
      \<or> list_ex (in_rect (x + ray (new_world task rewards physics) x y angle reach * cos angle)
           (y + ray (new_world task rewards physics) x y angle reach * sin angle)) (rayRects (new_world task rewards physics))"
    using fold_first by (simp add: ray_def ray_point_def [abs_def])
  ultimately show ?thesis by (simp only: Let_def) simp
qed

lemma ray_ends_at_first_wall_witness:
  "let w = new_world Dock id (\<lambda>ph. ph\<lparr> ph_course := Some ''open'' \<rparr>); d = ray w 1 1 0 3
   in 0 \<le> d \<and> d \<le> 3
      \<and> (if 2 < d then list_all (\<lambda>rect. \<not> in_rect (1 + 2 * cos 0) (1 + 2 * sin 0) rect) (rayRects w)
         else d = 3 \<or> list_ex (in_rect (1 + d * cos 0) (1 + d * sin 0)) (rayRects w))"
  by (rule ray_ends_at_first_wall)
    (simp_all add: exact_component_def rayRects_def new_world_def Let_def walls_of_def course_of_def COURSES_def
      in_rect_def ARENA_BOUNDARY_RECTS_def ARENA_WIDTH_def ARENA_HEIGHT_def)

end
