(* ===== verification/Engine_Trainer.thy ===== *)
theory Engine_Trainer
  imports Engine_World
begin

text \<open>
  \<open>lab/js/core/engine/policy.js\<close> and \<open>trainer.js\<close>: the linear policy over the features of an
  observation, the rollout of one episode, the summary of an evaluation and the evolutionary trainer
  that steps along the best random directions and keeps the best validated weights.
\<close>

section \<open>The policy\<close>

definition GOAL_OFFSET_SCALE :: real where "GOAL_OFFSET_SCALE = 2"
definition BEARING_GATE_DISTANCE :: real where "BEARING_GATE_DISTANCE = 5 / 10"
definition DISTANCE_SCALE :: real where "DISTANCE_SCALE = 2"
definition DOCK_HEADING_FALLOFF :: real where "DOCK_HEADING_FALLOFF = 13 / 10"
definition OBSTACLE_NEAR :: real where "OBSTACLE_NEAR = 75 / 100"
definition OBSTACLE_RANGE :: real where "OBSTACLE_RANGE = 6 / 10"
definition WHEEL_RPM_SCALE :: real where "WHEEL_RPM_SCALE = 160"
definition YAW_RATE_SCALE :: real where "YAW_RATE_SCALE = 180"
definition SCAN_FRONT :: nat where "SCAN_FRONT = 0"
definition SCAN_LEFT_FRONT :: nat where "SCAN_LEFT_FRONT = 21"
definition SCAN_RIGHT_FRONT :: nat where "SCAN_RIGHT_FRONT = 3"
definition SCAN_LEFT :: nat where "SCAN_LEFT = 18"
definition SCAN_RIGHT :: nat where "SCAN_RIGHT = 6"
definition SCAN_REAR :: nat where "SCAN_REAR = 12"
definition TURN_COMMAND_SCALE :: real where "TURN_COMMAND_SCALE = 7 / 10"
definition ROLLOUT_STEPS :: nat where "ROLLOUT_STEPS = 350"

definition obstacle_feature :: "observation \<Rightarrow> nat \<Rightarrow> real" where
  "obstacle_feature ob index = clamp_to 0 1 ((OBSTACLE_NEAR - ob_scan ob ! index) / OBSTACLE_RANGE)"

definition features :: "observation \<Rightarrow> real list" where
  "features ob =
     (let x = po_x (ob_odometry ob); y = po_y (ob_odometry ob); theta = po_theta (ob_odometry ob);
          goal = ob_goal ob;
          dx = gl_x goal - x;
          dy = gl_y goal - y;
          distance = hypot dx dy;
          bearing = wrap_angle (atan2 dy dx - theta);
          bearingGate = min 1 (distance / BEARING_GATE_DISTANCE);
          nearGoal = exp (- distance * DOCK_HEADING_FALLOFF);
          dockHeadingError = wrap_angle (gl_theta goal - theta);
          docking = (if ob_task ob = Dock then 1 else 0);
          goalForward = clamp_unit ((dx * cos theta + dy * sin theta) / GOAL_OFFSET_SCALE);
          goalLeft = clamp_unit ((- dx * sin theta + dy * cos theta) / GOAL_OFFSET_SCALE);
          dockLateral = dy * cos (gl_theta goal) - dx * sin (gl_theta goal)
      in [goalForward, goalLeft, sin bearing * bearingGate, (1 - cos bearing) * bearingGate,
          min 1 (distance / DISTANCE_SCALE), sin dockHeadingError * nearGoal * docking,
          (fst (ob_wheelRpm ob) + snd (ob_wheelRpm ob)) / WHEEL_RPM_SCALE,
          snd (snd (im_gyro (ob_imu ob))) / YAW_RATE_SCALE,
          obstacle_feature ob SCAN_FRONT, obstacle_feature ob SCAN_LEFT_FRONT, obstacle_feature ob SCAN_RIGHT_FRONT,
          obstacle_feature ob SCAN_LEFT, obstacle_feature ob SCAN_RIGHT, obstacle_feature ob SCAN_REAR,
          cos bearing * bearingGate, dockLateral * nearGoal * docking])"

definition weighted :: "real list \<Rightarrow> real list \<Rightarrow> real" where
  "weighted weights input = foldl (\<lambda>sum (weight, value). sum + weight * value) 0 (zip weights input)"

definition act :: "real list \<Rightarrow> observation \<Rightarrow> real \<times> real" where
  "act weights ob =
     (let input = features ob;
          speed = tanh (weighted (take FEATURES weights) input);
          turn = tanh (weighted (drop FEATURES weights) input) * TURN_COMMAND_SCALE
      in (clamp_unit (speed + turn), clamp_unit (speed - turn)))"

definition commandChangeRpm :: "real \<times> real \<Rightarrow> real \<times> real \<Rightarrow> real \<Rightarrow> real" where
  "commandChangeRpm command previous maxRpm =
     ((\<bar>fst command - fst previous\<bar> + \<bar>snd command - snd previous\<bar>) * maxRpm) / 2"

section \<open>The rollout\<close>

text \<open>
  A captured frame is the snapshot with the result of the step and the command; the first one, before
  any command, has an empty breakdown. \<open>driving\<close> carries what the loop updates.
\<close>

record frame =
  fr_state :: body
  fr_observation :: observation
  fr_reward :: real
  fr_pieces :: "piece list option"
  fr_impact :: num
  fr_peak :: "(real \<times> real) option"
  fr_events :: "trace_point list option"
  fr_command :: "(real \<times> real) option"

definition traceFrame :: "episode \<Rightarrow> step_result \<Rightarrow> real \<times> real \<Rightarrow> frame" where
  "traceFrame ep result command =
     \<lparr> fr_state = ep_state ep, fr_observation = ep_observation ep, fr_reward = sr_reward result,
       fr_pieces = sr_pieces result, fr_impact = map_option im_magnitude (sr_impact result),
       fr_peak = map_option (\<lambda>i. (im_ax i, im_ay i)) (sr_impact result), fr_events = Some (sr_trace result),
       fr_command = Some command \<rparr>"

definition first_frame :: "episode \<Rightarrow> frame" where
  "first_frame ep =
     \<lparr> fr_state = ep_state ep, fr_observation = ep_observation ep, fr_reward = 0, fr_pieces = Some [],
       fr_impact = Some 0, fr_peak = None, fr_events = None, fr_command = None \<rparr>"

record driving =
  dv_episode :: episode
  dv_previousCommand :: "real \<times> real"
  dv_commandChange :: real
  dv_trace :: "frame list"

definition drive_start :: "bool \<Rightarrow> episode \<Rightarrow> driving" where
  "drive_start capture ep =
     \<lparr> dv_episode = ep, dv_previousCommand = (0, 0), dv_commandChange = 0,
       dv_trace = (if capture then [first_frame ep] else []) \<rparr>"

definition drive_once :: "world \<Rightarrow> real list \<Rightarrow> bool \<Rightarrow> driving \<Rightarrow> step_result \<times> driving" where
  "drive_once w weights capture dv =
     (let command = act weights (ep_observation (dv_episode dv));
          (result, ep) = world_step w capture command (dv_episode dv)
      in (result,
          \<lparr> dv_episode = ep, dv_previousCommand = command,
            dv_commandChange = dv_commandChange dv
              + commandChangeRpm command (dv_previousCommand dv) (ph_maxRpm (wo_physics w)),
            dv_trace = (if capture then dv_trace dv @ [traceFrame ep result command] else dv_trace dv) \<rparr>))"

primrec drive_loop :: "world \<Rightarrow> real list \<Rightarrow> bool \<Rightarrow> nat \<Rightarrow> driving \<Rightarrow> driving" where
  "drive_loop w weights capture 0 dv = dv"
| "drive_loop w weights capture (Suc k) dv =
     (let (result, dv) = drive_once w weights capture dv
      in if sr_done result then dv else drive_loop w weights capture k dv)"

record rollout_result =
  rr_score :: real
  rr_totalReward :: real
  rr_success :: bool
  rr_collision :: bool
  rr_emergency :: bool
  rr_wrongAngle :: bool
  rr_time :: real
  rr_commandRate :: real
  rr_distance :: real
  rr_angle :: real
  rr_trace :: "frame list"

definition rollout_of :: "world \<Rightarrow> driving \<Rightarrow> rollout_result" where
  "rollout_of w dv =
     (let st = ep_state (dv_episode dv)
      in \<lparr> rr_score = bd_total st, rr_totalReward = bd_total st, rr_success = bd_success st,
           rr_collision = bd_collisions st > 0, rr_emergency = bd_latched st, rr_wrongAngle = bd_wrongAngle st,
           rr_time = bd_t st, rr_commandRate = (if bd_t st > 0 then dv_commandChange dv / bd_t st else 0),
           rr_distance = hypot (gl_x (wo_goal w) - bd_x st) (gl_y (wo_goal w) - bd_y st),
           rr_angle = (\<bar>wrap_angle (bd_theta st)\<bar> * 180) / pi, rr_trace = dv_trace dv \<rparr>)"

definition rollout :: "world \<Rightarrow> real list \<Rightarrow> int \<Rightarrow> reset_options \<Rightarrow> bool \<Rightarrow> engine_error + rollout_result" where
  "rollout w weights seed opts capture =
     (case world_reset w seed opts of
        Inl e \<Rightarrow> Inl e
      | Inr ep \<Rightarrow> Inr (rollout_of w (drive_loop w weights capture ROLLOUT_STEPS (drive_start capture ep))))"

record evaluation =
  ev_rate :: real
  ev_count :: nat
  ev_successCount :: nat
  ev_arrivalTime :: num
  ev_commandRate :: num

definition average_of :: "(rollout_result \<Rightarrow> real) \<Rightarrow> rollout_result list \<Rightarrow> num" where
  "average_of key completed =
     (if completed = [] then None
      else Some (foldl (\<lambda>sum result. sum + key result) 0 completed / real (length completed)))"

definition summarizeEvaluation :: "rollout_result list \<Rightarrow> evaluation" where
  "summarizeEvaluation results =
     (let completed = filter rr_success results
      in \<lparr> ev_rate = (if results = [] then 0 else real (length completed) / real (length results) * 100),
           ev_count = length results, ev_successCount = length completed,
           ev_arrivalTime = average_of rr_time completed, ev_commandRate = average_of rr_commandRate completed \<rparr>)"

section \<open>The trainer\<close>

definition DIRECTIONS_PER_ITERATION :: nat where "DIRECTIONS_PER_ITERATION = 12"
definition ELITE_DIRECTIONS :: nat where "ELITE_DIRECTIONS = 6"
definition EXPLORATION_NOISE :: real where "EXPLORATION_NOISE = 15 / 100"
definition LEARNING_RATE :: real where "LEARNING_RATE = 65 / 1000"
definition WEIGHT_LIMIT :: real where "WEIGHT_LIMIT = 8"
definition MIN_RETURN_SPREAD :: real where "MIN_RETURN_SPREAD = 1"
definition VALIDATION_INTERVAL :: nat where "VALIDATION_INTERVAL = 5"
definition VALIDATION_EPISODES :: nat where "VALIDATION_EPISODES = 5"
definition VALIDATION_SEED :: nat where "VALIDATION_SEED = 100"
definition VALIDATION_SEED_STRIDE :: nat where "VALIDATION_SEED_STRIDE = 137"
definition EVALUATION_SEED :: nat where "EVALUATION_SEED = 90001"
definition EVALUATION_SEED_STRIDE :: nat where "EVALUATION_SEED_STRIDE = 811"
definition NEAR_SEED :: nat where "NEAR_SEED = 500"
definition NEAR_SEED_CYCLE :: nat where "NEAR_SEED_CYCLE = 5"
definition NEAR_SEED_STRIDE :: nat where "NEAR_SEED_STRIDE = 997"
definition VARIED_SEED :: nat where "VARIED_SEED = 5000"
definition VARIED_RANGE_START :: real where "VARIED_RANGE_START = 2 / 10"
definition VARIED_RANGE_PER_ITERATION :: real where "VARIED_RANGE_PER_ITERATION = 8 / 1000"

datatype start_mode = NearStart | VariedStart

record history_entry =
  hs_episodes :: nat
  hs_score :: real
  hs_startMode :: start_mode
  hs_evaluation :: evaluation

record batch =
  bt_count :: nat
  bt_success :: nat
  bt_collision :: nat
  bt_unreached :: nat
  bt_rewardSum :: real

text \<open>\<open>bestScore\<close> is \<open>None\<close> while it is \<open>-Infinity\<close>; \<open>lastBatch\<close> carries its mean reward.\<close>

record trainer =
  tn_world :: world
  tn_weights :: "real list"
  tn_rng :: rng
  tn_iterations :: nat
  tn_episodes :: nat
  tn_history :: "history_entry list"
  tn_bestScore :: "real option"
  tn_bestWeights :: "real list"
  tn_startMode :: start_mode
  tn_phaseStartIterations :: nat
  tn_historyStartEpisodes :: nat
  tn_lastBatch :: "(batch \<times> real) option"

definition new_trainer :: "world \<Rightarrow> int \<Rightarrow> start_mode \<Rightarrow> trainer" where
  "new_trainer w seed mode =
     \<lparr> tn_world = w, tn_weights = replicate PARAMETERS 0, tn_rng = randomGenerator seed, tn_iterations = 0,
       tn_episodes = 0, tn_history = [], tn_bestScore = None, tn_bestWeights = replicate PARAMETERS 0,
       tn_startMode = mode, tn_phaseStartIterations = 0, tn_historyStartEpisodes = 0, tn_lastBatch = None \<rparr>"

definition trainingSeed :: "bool \<Rightarrow> nat \<Rightarrow> nat \<Rightarrow> nat" where
  "trainingSeed varied iterations direction =
     (if varied then VARIED_SEED + iterations * DIRECTIONS_PER_ITERATION + direction
      else NEAR_SEED + (iterations mod NEAR_SEED_CYCLE) * NEAR_SEED_STRIDE)"

definition EMPTY_BATCH :: batch where
  "EMPTY_BATCH = \<lparr> bt_count = 0, bt_success = 0, bt_collision = 0, bt_unreached = 0, bt_rewardSum = 0 \<rparr>"

definition countOutcome :: "rollout_result \<Rightarrow> batch \<Rightarrow> batch" where
  "countOutcome result batch =
     (let batch = batch\<lparr> bt_count := Suc (bt_count batch), bt_rewardSum := bt_rewardSum batch + rr_totalReward result \<rparr>
      in if rr_success result then batch\<lparr> bt_success := Suc (bt_success batch) \<rparr>
         else if rr_collision result then batch\<lparr> bt_collision := Suc (bt_collision batch) \<rparr>
         else batch\<lparr> bt_unreached := Suc (bt_unreached batch) \<rparr>)"

definition list_mean :: "real list \<Rightarrow> real" where
  "list_mean values = foldl (+) 0 values / real (length values)"

definition standardDeviation :: "real list \<Rightarrow> real" where
  "standardDeviation values =
     (let mean = list_mean values
      in sqrt (foldl (\<lambda>sum value. sum + (value - mean)\<^sup>2) 0 values / real (length values)))"

definition setStartMode :: "start_mode \<Rightarrow> trainer \<Rightarrow> trainer" where
  "setStartMode mode tn =
     (if mode = tn_startMode tn then tn
      else tn\<lparr> tn_startMode := mode, tn_weights := tn_bestWeights tn, tn_bestScore := None, tn_history := [],
              tn_historyStartEpisodes := tn_episodes tn, tn_phaseStartIterations := tn_iterations tn \<rparr>)"

definition startRange :: "trainer \<Rightarrow> real" where
  "startRange tn =
     (if tn_startMode tn \<noteq> VariedStart then 0
      else min 1 (VARIED_RANGE_START
        + (real (tn_iterations tn) - real (tn_phaseStartIterations tn)) * VARIED_RANGE_PER_ITERATION))"

primrec gaussians :: "nat \<Rightarrow> rng \<Rightarrow> real list \<times> rng" where
  "gaussians 0 rng = ([], rng)"
| "gaussians (Suc k) rng =
     (let (g, rng) = gaussian rng; (gs, rng) = gaussians k rng in (g # gs, rng))"

record direction =
  dr_delta :: "real list"
  dr_rp :: real
  dr_rm :: real

definition perturbed :: "real \<Rightarrow> real list \<Rightarrow> real list \<Rightarrow> real list" where
  "perturbed sign weights delta = map2 (\<lambda>weight d. weight + sign * (EXPLORATION_NOISE * d)) weights delta"

text \<open>
  One direction: a perturbation of the weights rolled out in both senses on the same seed. An
  exception of \<open>reset\<close> leaves the iteration.
\<close>

definition try_direction :: "bool \<Rightarrow> real \<Rightarrow> nat \<Rightarrow> trainer \<times> batch \<times> direction list
    \<Rightarrow> engine_error + (trainer \<times> batch \<times> direction list)" where
  "try_direction varied reach n acc =
     (case acc of (tn, batch, directions) \<Rightarrow>
        let seed = int (trainingSeed varied (tn_iterations tn) n);
            (delta, rng) = gaussians PARAMETERS (tn_rng tn);
            opts = NO_OPTIONS\<lparr> ro_startRange := reach \<rparr>
        in case rollout (tn_world tn) (perturbed 1 (tn_weights tn) delta) seed opts False of
             Inl e \<Rightarrow> Inl e
           | Inr positive \<Rightarrow>
               (case rollout (tn_world tn) (perturbed (- 1) (tn_weights tn) delta) seed opts False of
                  Inl e \<Rightarrow> Inl e
                | Inr negative \<Rightarrow>
                    Inr (tn\<lparr> tn_rng := rng, tn_episodes := tn_episodes tn + 2 \<rparr>,
                         countOutcome negative (countOutcome positive batch),
                         directions @ [\<lparr> dr_delta = delta, dr_rp = rr_score positive, dr_rm = rr_score negative \<rparr>])))"

primrec try_directions :: "bool \<Rightarrow> real \<Rightarrow> nat list \<Rightarrow> trainer \<times> batch \<times> direction list
    \<Rightarrow> engine_error + (trainer \<times> batch \<times> direction list)" where
  "try_directions varied reach [] acc = Inr acc"
| "try_directions varied reach (n # ns) acc =
     (case try_direction varied reach n acc of Inl e \<Rightarrow> Inl e | Inr acc \<Rightarrow> try_directions varied reach ns acc)"

definition best_of :: "direction \<Rightarrow> real" where
  "best_of d = max (dr_rp d) (dr_rm d)"

text \<open>\<open>sort\<close> is stable and puts the better directions first.\<close>

definition elite_of :: "direction list \<Rightarrow> direction list" where
  "elite_of directions = take ELITE_DIRECTIONS (sort_key (\<lambda>d. - best_of d) directions)"

definition update_weight :: "direction list \<Rightarrow> real \<Rightarrow> real list \<Rightarrow> nat \<Rightarrow> real" where
  "update_weight elite stepSize weights i =
     (let change = foldl (\<lambda>sum d. sum + (dr_rp d - dr_rm d) * dr_delta d ! i) 0 elite
      in clamp_to (- WEIGHT_LIMIT) WEIGHT_LIMIT (weights ! i + stepSize * change))"

definition applyUpdate :: "direction list \<Rightarrow> trainer \<Rightarrow> trainer" where
  "applyUpdate directions tn =
     (let elite = elite_of directions;
          returns = concat (map (\<lambda>d. [dr_rp d, dr_rm d]) elite);
          spread = max MIN_RETURN_SPREAD (standardDeviation returns);
          stepSize = LEARNING_RATE / (real ELITE_DIRECTIONS * spread)
      in tn\<lparr> tn_weights := map (update_weight elite stepSize (tn_weights tn)) [0..<PARAMETERS] \<rparr>)"

primrec validation_rollouts :: "trainer \<Rightarrow> bool \<Rightarrow> nat list \<Rightarrow> engine_error + rollout_result list" where
  "validation_rollouts tn varied [] = Inr []"
| "validation_rollouts tn varied (j # js) =
     (case rollout (tn_world tn) (tn_weights tn) (int (VALIDATION_SEED + j * VALIDATION_SEED_STRIDE))
             (NO_OPTIONS\<lparr> ro_other := varied \<rparr>) False of
        Inl e \<Rightarrow> Inl e
      | Inr result \<Rightarrow>
          (case validation_rollouts tn varied js of Inl e \<Rightarrow> Inl e | Inr rest \<Rightarrow> Inr (result # rest)))"

definition validate :: "bool \<Rightarrow> trainer \<Rightarrow> engine_error + trainer" where
  "validate varied tn =
     (case validation_rollouts tn varied [0..<VALIDATION_EPISODES] of
        Inl e \<Rightarrow> Inl e
      | Inr validation \<Rightarrow>
          let episodes = tn_episodes tn + VALIDATION_EPISODES;
              score = foldl (\<lambda>sum result. sum + rr_score result) 0 validation / real VALIDATION_EPISODES;
              better = (case tn_bestScore tn of None \<Rightarrow> True | Some best \<Rightarrow> score > best)
          in Inr (tn\<lparr> tn_episodes := episodes,
                      tn_bestScore := (if better then Some score else tn_bestScore tn),
                      tn_bestWeights := (if better then tn_weights tn else tn_bestWeights tn),
                      tn_history := tn_history tn @
                        [\<lparr> hs_episodes = episodes, hs_score = score, hs_startMode = tn_startMode tn,
                           hs_evaluation = summarizeEvaluation validation \<rparr>] \<rparr>))"

record iteration_report =
  it_iterations :: nat
  it_episodes :: nat
  it_rate :: real

definition iteration :: "trainer \<Rightarrow> engine_error + (iteration_report \<times> trainer)" where
  "iteration tn =
     (let varied = (tn_startMode tn = VariedStart)
      in case try_directions varied (startRange tn) [0..<DIRECTIONS_PER_ITERATION] (tn, EMPTY_BATCH, []) of
           Inl e \<Rightarrow> Inl e
         | Inr (tn, batch, directions) \<Rightarrow>
             let tn = tn\<lparr> tn_lastBatch := Some (batch, bt_rewardSum batch / real (bt_count batch)) \<rparr>;
                 tn = applyUpdate directions tn;
                 tn = tn\<lparr> tn_iterations := Suc (tn_iterations tn) \<rparr>
             in case (if tn_iterations tn mod VALIDATION_INTERVAL = 0 then validate varied tn else Inr tn) of
                  Inl e \<Rightarrow> Inl e
                | Inr tn \<Rightarrow>
                    Inr (\<lparr> it_iterations = tn_iterations tn, it_episodes = tn_episodes tn,
                           it_rate = (if tn_history tn = [] then 0 else ev_rate (hs_evaluation (last (tn_history tn)))) \<rparr>, tn))"

primrec evaluation_rollouts :: "world \<Rightarrow> real list \<Rightarrow> bool \<Rightarrow> nat list \<Rightarrow> engine_error + rollout_result list" where
  "evaluation_rollouts w weights other [] = Inr []"
| "evaluation_rollouts w weights other (i # is) =
     (case rollout w weights (int (EVALUATION_SEED + i * EVALUATION_SEED_STRIDE)) (NO_OPTIONS\<lparr> ro_other := other \<rparr>) False of
        Inl e \<Rightarrow> Inl e
      | Inr result \<Rightarrow>
          (case evaluation_rollouts w weights other is of Inl e \<Rightarrow> Inl e | Inr rest \<Rightarrow> Inr (result # rest)))"

text \<open>With \<open>count = 0\<close> the code's rate is \<open>NaN\<close>, here \<open>None\<close>.\<close>

definition evaluate :: "trainer \<Rightarrow> bool \<Rightarrow> nat \<Rightarrow> real list \<Rightarrow> engine_error + (num \<times> rollout_result list)" where
  "evaluate tn other episodes weights =
     (case evaluation_rollouts (tn_world tn) weights other [0..<episodes] of
        Inl e \<Rightarrow> Inl e
      | Inr results \<Rightarrow>
          Inr (if episodes = 0 then None
               else Some (real (length (filter rr_success results)) / real episodes * 100), results))"

end
