(* ===== verification/Engine_Learning.thy ===== *)
theory Engine_Learning
  imports Engine_Safety Engine_Trainer
begin

text \<open>
  What rollouts and the trainer promise: every rollout plays its episode to the end, and the trainer
  keeps its weights in bounds, counts every episode and holds the best validated weights.
\<close>

section \<open>Rollouts\<close>

text \<open>The clock shows the commands given so far while the episode runs.\<close>

definition on_time :: "nat \<Rightarrow> body \<Rightarrow> bool" where
  "on_time n st \<longleftrightarrow>
     bd_t st \<le> 35 \<and> (bd_latched st \<longrightarrow> bd_done st) \<and> (bd_done st \<or> (bd_t st = real n * CONTROL_DT \<and> bd_t st < 35 - 1 / 10 ^ 9))"

lemma driven_latch:
  assumes "bd_latched (ep_state ep) \<longrightarrow> bd_done (ep_state ep)"
  shows "bd_latched (ep_state (snd (substeps w capture k (pg, ep)))) \<longrightarrow> bd_done (ep_state (snd (substeps w capture k (pg, ep))))"
  using assms by (induction k arbitrary: pg ep) (auto simp: Let_def case_prod_beta substep_motion moved_frame)

lemma step_on_time:
  assumes "on_time n (ep_state ep)" and running: "\<not> bd_done (ep_state ep)"
  shows "on_time (Suc n) (ep_state (snd (world_step w capture c ep)))"
proof -
  have latched: "\<not> bd_latched (ep_state ep)" and t: "bd_t (ep_state ep) = real n * CONTROL_DT"
    and early: "bd_t (ep_state ep) < 35 - 1 / 10 ^ 9"
    using assms by (auto simp: on_time_def)
  let ?fin = "ep_state (snd (world_step w capture c ep))"
  have "real n < 350" using t early by (simp add: CONTROL_DT_def)
  then have "real (Suc n) \<le> 350" by simp
  then have "bd_t (ep_state ep) + CONTROL_DT \<le> 35" unfolding t CONTROL_DT_def by simp
  moreover have "bd_latched ?fin \<longrightarrow> bd_done ?fin"
    using driven_latch [of "enqueueCommand w c ep" w capture SUBSTEPS_PER_COMMAND NO_PROGRESS] running latched
    by (auto simp: step_parts driven_body_def enqueueCommand_def arrival_done)
  ultimately show ?thesis
    using step_clock [OF running latched, of w capture c] t
    by (auto simp: on_time_def EPISODE_TIME_LIMIT_def algebra_simps)
qed

lemma step_result_done: "sr_done (fst (world_step w capture c ep)) \<longleftrightarrow> bd_done (ep_state (snd (world_step w capture c ep))) \<or> bd_latched (ep_state ep)"
  by (simp add: world_step_def Let_def case_prod_beta idleStepResult_def)

lemma drive_loop_on_time:
  assumes "on_time n (ep_state (dv_episode dv))" and "\<not> bd_done (ep_state (dv_episode dv))"
  shows "on_time (n + k) (ep_state (dv_episode (drive_loop w weights capture k dv)))"
  using assms
proof (induction k arbitrary: n dv)
  case 0
  then show ?case by simp
next
  case (Suc k)
  define c where "c = act weights (ep_observation (dv_episode dv))"
  define out where "out = world_step w capture c (dv_episode dv)"
  let ?dv = "snd (drive_once w weights capture dv)"
  have dv: "dv_episode ?dv = snd out" and res: "fst (drive_once w weights capture dv) = fst out"
    by (simp_all add: drive_once_def Let_def case_prod_beta c_def out_def)
  have time: "on_time (Suc n) (ep_state (dv_episode ?dv))"
    unfolding dv out_def using Suc.prems by (rule step_on_time)
  have running: "\<not> bd_latched (ep_state (dv_episode dv))" using Suc.prems by (auto simp: on_time_def)
  have done_iff: "sr_done (fst out) \<longleftrightarrow> bd_done (ep_state (dv_episode ?dv))"
    unfolding dv out_def using running by (simp add: step_result_done)
  show ?case
  proof (cases "sr_done (fst out)")
    case True
    then have "on_time (n + Suc k) (ep_state (dv_episode ?dv))" using time done_iff by (simp add: on_time_def)
    then show ?thesis using True by (simp add: Let_def case_prod_beta res)
  next
    case False
    then have "on_time (Suc n + k) (ep_state (dv_episode (drive_loop w weights capture k ?dv)))"
      using time done_iff by (intro Suc.IH) simp_all
    then show ?thesis using False by (simp add: Let_def case_prod_beta res)
  qed
qed

text \<open>
  C25: Every rollout plays its episode to the end: when its loop of 350 commands is left the episode is
  done, whatever the weights, and no episode lasts longer than 35 s.
\<close>

theorem rollout_finishes:
  "let w = new_world task rewards physics
   in case world_reset w seed opts of
        Inl NoClearStart \<Rightarrow> rollout w weights seed opts capture = Inl NoClearStart
      | Inr ep \<Rightarrow>
          (let dv = drive_loop w weights capture ROLLOUT_STEPS (drive_start capture ep);
               st = ep_state (dv_episode dv)
           in rollout w weights seed opts capture = Inr (rollout_of w dv) \<and> bd_done st \<and> bd_t st \<le> 35)"
proof -
  define w where "w = new_world task rewards physics"
  have finish: "bd_done st \<and> bd_t st \<le> 35"
    if reset: "world_reset w seed opts = Inr ep"
      and st: "st = ep_state (dv_episode (drive_loop w weights capture ROLLOUT_STEPS (drive_start capture ep)))" for ep st
  proof -
    from reset obtain pose where "ep_state ep = initialState pose" by (rule reset_body)
    then have "on_time 0 (ep_state (dv_episode (drive_start capture ep)))" "\<not> bd_done (ep_state (dv_episode (drive_start capture ep)))"
      by (simp_all add: drive_start_def on_time_def initialState_def)
    then have "on_time (0 + ROLLOUT_STEPS) st" unfolding st by (rule drive_loop_on_time)
    then show ?thesis by (auto simp: on_time_def ROLLOUT_STEPS_def CONTROL_DT_def)
  qed
  show ?thesis
  proof (cases "world_reset w seed opts")
    case (Inl e)
    then show ?thesis by (cases e) (simp add: w_def rollout_def)
  next
    case (Inr ep)
    then show ?thesis using finish [OF Inr refl] by (simp add: w_def rollout_def)
  qed
qed

section \<open>The trainer\<close>

datatype trainer_op = Iterate | SwitchTo start_mode

definition trainer_step :: "trainer_op \<Rightarrow> trainer \<Rightarrow> engine_error + trainer" where
  "trainer_step op tn =
     (case op of
        Iterate \<Rightarrow> (case iteration tn of Inl e \<Rightarrow> Inl e | Inr (report, tn) \<Rightarrow> Inr tn)
      | SwitchTo mode \<Rightarrow> Inr (setStartMode mode tn))"

primrec trained :: "trainer_op list \<Rightarrow> trainer \<Rightarrow> engine_error + trainer" where
  "trained [] tn = Inr tn"
| "trained (op # ops) tn = (case trainer_step op tn of Inl e \<Rightarrow> Inl e | Inr tn \<Rightarrow> trained ops tn)"

definition weights_ok :: "real list \<Rightarrow> bool" where
  "weights_ok weights \<longleftrightarrow> length weights = PARAMETERS \<and> list_all (\<lambda>x. \<bar>x\<bar> \<le> WEIGHT_LIMIT) weights"

text \<open>The validation that \<open>weights\<close> get in the present phase, as a score.\<close>

definition validated :: "trainer \<Rightarrow> real list \<Rightarrow> engine_error + real" where
  "validated tn weights =
     (case validation_rollouts (tn\<lparr> tn_weights := weights \<rparr>) (tn_startMode tn = VariedStart) [0..<VALIDATION_EPISODES] of
        Inl e \<Rightarrow> Inl e
      | Inr results \<Rightarrow> Inr (foldl (\<lambda>sum result. sum + rr_score result) 0 results / real VALIDATION_EPISODES))"

definition best_ok :: "trainer \<Rightarrow> bool" where
  "best_ok tn \<longleftrightarrow>
     (case tn_bestScore tn of
        None \<Rightarrow> tn_history tn = []
      | Some best \<Rightarrow> best \<in> set (map hs_score (tn_history tn)) \<and> list_all (\<lambda>entry. hs_score entry \<le> best) (tn_history tn)
          \<and> validated tn (tn_bestWeights tn) = Inr best)"

definition history_ok :: "trainer \<Rightarrow> bool" where
  "history_ok tn \<longleftrightarrow> list_all (\<lambda>entry. hs_startMode entry = tn_startMode tn \<and> ev_count (hs_evaluation entry) = VALIDATION_EPISODES
       \<and> hs_episodes entry \<le> tn_episodes tn) (tn_history tn)"

definition counts_ok :: "trainer \<Rightarrow> bool" where
  "counts_ok tn \<longleftrightarrow>
     tn_episodes tn = 2 * DIRECTIONS_PER_ITERATION * tn_iterations tn + VALIDATION_EPISODES * (tn_iterations tn div VALIDATION_INTERVAL)
     \<and> tn_phaseStartIterations tn \<le> tn_iterations tn \<and> tn_historyStartEpisodes tn \<le> tn_episodes tn"

definition trainer_ok :: "trainer \<Rightarrow> bool" where
  "trainer_ok tn \<longleftrightarrow> weights_ok (tn_weights tn) \<and> weights_ok (tn_bestWeights tn) \<and> best_ok tn \<and> history_ok tn \<and> counts_ok tn"

lemma validation_rollouts_world:
  "tn_world tn = tn_world tn' \<Longrightarrow> tn_weights tn = tn_weights tn' \<Longrightarrow> validation_rollouts tn varied js = validation_rollouts tn' varied js"
  by (induction js) (simp_all split: sum.split)

lemma validation_rollouts_length: "validation_rollouts tn varied js = Inr results \<Longrightarrow> length results = length js"
  by (induction js arbitrary: results) (auto split: sum.splits)

lemma validated_same:
  "tn_world tn = tn_world tn' \<Longrightarrow> tn_startMode tn = tn_startMode tn' \<Longrightarrow> validated tn weights = validated tn' weights"
  unfolding validated_def
  using validation_rollouts_world [of "tn\<lparr> tn_weights := weights \<rparr>" "tn'\<lparr> tn_weights := weights \<rparr>"] by simp

lemma update_weights_ok: "weights_ok (tn_weights (applyUpdate directions tn))"
  using clamp_to_bounds [of "- WEIGHT_LIMIT" WEIGHT_LIMIT]
  by (simp add: applyUpdate_def weights_ok_def Let_def list_all_iff update_weight_def WEIGHT_LIMIT_def abs_le_iff minus_le_iff)

lemma update_frame:
  "tn_world (applyUpdate ds tn) = tn_world tn" "tn_iterations (applyUpdate ds tn) = tn_iterations tn"
  "tn_episodes (applyUpdate ds tn) = tn_episodes tn" "tn_history (applyUpdate ds tn) = tn_history tn"
  "tn_bestScore (applyUpdate ds tn) = tn_bestScore tn" "tn_bestWeights (applyUpdate ds tn) = tn_bestWeights tn"
  "tn_startMode (applyUpdate ds tn) = tn_startMode tn"
  "tn_phaseStartIterations (applyUpdate ds tn) = tn_phaseStartIterations tn"
  "tn_historyStartEpisodes (applyUpdate ds tn) = tn_historyStartEpisodes tn"
  by (simp_all add: applyUpdate_def Let_def)

lemma directions_frame:
  assumes "try_directions varied reach ns (tn, batch, ds) = Inr (tn', batch', ds')"
  shows "\<exists>r. tn' = tn\<lparr> tn_rng := r, tn_episodes := tn_episodes tn + 2 * length ns \<rparr>"
    and "length ds' = length ds + length ns"
    and "bt_count batch' = bt_count batch + 2 * length ns"
    and "bt_success batch' + bt_collision batch' + bt_unreached batch'
       = bt_success batch + bt_collision batch + bt_unreached batch + 2 * length ns"
proof -
  have "(\<exists>r. tn' = tn\<lparr> tn_rng := r, tn_episodes := tn_episodes tn + 2 * length ns \<rparr>) \<and> length ds' = length ds + length ns
      \<and> bt_count batch' = bt_count batch + 2 * length ns
      \<and> bt_success batch' + bt_collision batch' + bt_unreached batch'
       = bt_success batch + bt_collision batch + bt_unreached batch + 2 * length ns"
    using assms
  proof (induction ns arbitrary: tn batch ds)
    case Nil
    have "tn = tn\<lparr> tn_rng := tn_rng tn, tn_episodes := tn_episodes tn \<rparr>" by simp
    then have "\<exists>r. tn = tn\<lparr> tn_rng := r, tn_episodes := tn_episodes tn \<rparr>" by blast
    then show ?case using Nil by (simp del: trainer.surjective)
  next
    case (Cons n ns)
    from Cons.prems obtain tn1 batch1 ds1 where one: "try_direction varied reach n (tn, batch, ds) = Inr (tn1, batch1, ds1)"
      and rest: "try_directions varied reach ns (tn1, batch1, ds1) = Inr (tn', batch', ds')"
      by (auto split: sum.splits)
    have "(\<exists>r. tn1 = tn\<lparr> tn_rng := r, tn_episodes := tn_episodes tn + 2 \<rparr>) \<and> length ds1 = Suc (length ds)
        \<and> bt_count batch1 = bt_count batch + 2
        \<and> bt_success batch1 + bt_collision batch1 + bt_unreached batch1
         = bt_success batch + bt_collision batch + bt_unreached batch + 2"
      using one by (auto simp: try_direction_def Let_def case_prod_beta countOutcome_def split: sum.splits)
    with Cons.IH [OF rest] show ?case by fastforce
  qed
  then show "\<exists>r. tn' = tn\<lparr> tn_rng := r, tn_episodes := tn_episodes tn + 2 * length ns \<rparr>"
    "length ds' = length ds + length ns" "bt_count batch' = bt_count batch + 2 * length ns"
    "bt_success batch' + bt_collision batch' + bt_unreached batch'
       = bt_success batch + bt_collision batch + bt_unreached batch + 2 * length ns"
    by blast+
qed

lemma validate_ok:
  assumes "validate (tn_startMode tn = VariedStart) tn = Inr tn'" and "weights_ok (tn_weights tn)" and "weights_ok (tn_bestWeights tn)"
    and "best_ok tn" and "history_ok tn"
  shows "weights_ok (tn_weights tn') \<and> weights_ok (tn_bestWeights tn') \<and> best_ok tn' \<and> history_ok tn'"
    and "tn_episodes tn' = tn_episodes tn + VALIDATION_EPISODES" "tn_iterations tn' = tn_iterations tn"
    "tn_phaseStartIterations tn' = tn_phaseStartIterations tn" "tn_historyStartEpisodes tn' = tn_historyStartEpisodes tn"
proof -
  let ?v = "tn_startMode tn = VariedStart"
  from assms(1) obtain results where results: "validation_rollouts tn ?v [0..<VALIDATION_EPISODES] = Inr results"
    by (auto simp: validate_def split: sum.splits)
  define score where "score = foldl (\<lambda>sum result. sum + rr_score result) 0 results / real VALIDATION_EPISODES"
  define better where "better = (case tn_bestScore tn of None \<Rightarrow> True | Some best \<Rightarrow> score > best)"
  define entry where "entry = \<lparr> hs_episodes = tn_episodes tn + VALIDATION_EPISODES, hs_score = score,
      hs_startMode = tn_startMode tn, hs_evaluation = summarizeEvaluation results \<rparr>"
  have "validate ?v tn = Inr (tn\<lparr> tn_episodes := tn_episodes tn + VALIDATION_EPISODES,
      tn_bestScore := (if better then Some score else tn_bestScore tn),
      tn_bestWeights := (if better then tn_weights tn else tn_bestWeights tn),
      tn_history := tn_history tn @ [entry] \<rparr>)"
    unfolding validate_def results score_def better_def entry_def Let_def by simp
  then have tn': "tn' = tn\<lparr> tn_episodes := tn_episodes tn + VALIDATION_EPISODES,
      tn_bestScore := (if better then Some score else tn_bestScore tn),
      tn_bestWeights := (if better then tn_weights tn else tn_bestWeights tn),
      tn_history := tn_history tn @ [entry] \<rparr>"
    using assms(1) by simp
  have same: "validated tn' weights = validated tn weights" for weights
    by (rule validated_same) (simp_all add: tn')
  have mine: "validated tn (tn_weights tn) = Inr score"
    using results validation_rollouts_world [of "tn\<lparr> tn_weights := tn_weights tn \<rparr>" tn]
    by (simp add: validated_def score_def)
  have now: "tn_bestScore tn' = (if better then Some score else tn_bestScore tn)"
    "tn_bestWeights tn' = (if better then tn_weights tn else tn_bestWeights tn)"
    "tn_history tn' = tn_history tn @ [entry]" "hs_score entry = score"
    by (simp_all add: tn' entry_def)
  have "best_ok tn'"
  proof (cases "tn_bestScore tn")
    case None
    then show ?thesis using assms(4) mine by (simp add: best_ok_def same now better_def)
  next
    case (Some best)
    then have old: "best \<in> set (map hs_score (tn_history tn))" "list_all (\<lambda>entry. hs_score entry \<le> best) (tn_history tn)"
      "validated tn (tn_bestWeights tn) = Inr best"
      using assms(4) by (simp_all add: best_ok_def)
    show ?thesis
    proof (cases "score > best")
      case True
      then have "list_all (\<lambda>entry. hs_score entry \<le> score) (tn_history tn)"
        using old(2) by (auto simp: list_all_iff)
      then show ?thesis using True Some mine by (simp add: best_ok_def same now better_def)
    next
      case False
      then show ?thesis using Some old by (simp add: best_ok_def same now better_def)
    qed
  qed
  moreover have "history_ok tn'"
    using assms(5) validation_rollouts_length [OF results]
    by (auto simp: history_ok_def tn' entry_def summarizeEvaluation_def Let_def list_all_iff)
  ultimately show "weights_ok (tn_weights tn') \<and> weights_ok (tn_bestWeights tn') \<and> best_ok tn' \<and> history_ok tn'"
    using assms(2,3) by (simp add: tn')
  show "tn_episodes tn' = tn_episodes tn + VALIDATION_EPISODES" "tn_iterations tn' = tn_iterations tn"
    "tn_phaseStartIterations tn' = tn_phaseStartIterations tn" "tn_historyStartEpisodes tn' = tn_historyStartEpisodes tn"
    by (simp_all add: tn')
qed

lemma iteration_ok:
  assumes ok: "trainer_ok tn" and it: "iteration tn = Inr (report, tn')"
  shows "trainer_ok tn' \<and> tn_iterations tn' = Suc (tn_iterations tn)"
proof -
  let ?v = "tn_startMode tn = VariedStart"
  from it obtain tn1 batch ds where
    dirs: "try_directions ?v (startRange tn) [0..<DIRECTIONS_PER_ITERATION] (tn, EMPTY_BATCH, []) = Inr (tn1, batch, ds)"
    by (cases "try_directions ?v (startRange tn) [0..<DIRECTIONS_PER_ITERATION] (tn, EMPTY_BATCH, [])")
      (auto simp: iteration_def Let_def)
  define tn2 where "tn2 = (applyUpdate ds (tn1\<lparr> tn_lastBatch := Some (batch, bt_rewardSum batch / real (bt_count batch)) \<rparr>))
      \<lparr> tn_iterations := Suc (tn_iterations tn) \<rparr>"
  obtain r where tn1: "tn1 = tn\<lparr> tn_rng := r, tn_episodes := tn_episodes tn + 2 * DIRECTIONS_PER_ITERATION \<rparr>"
    using directions_frame(1) [OF dirs] by auto
  have f1: "tn_world tn1 = tn_world tn" "tn_iterations tn1 = tn_iterations tn" "tn_history tn1 = tn_history tn"
    "tn_bestScore tn1 = tn_bestScore tn" "tn_bestWeights tn1 = tn_bestWeights tn" "tn_startMode tn1 = tn_startMode tn"
    "tn_phaseStartIterations tn1 = tn_phaseStartIterations tn" "tn_historyStartEpisodes tn1 = tn_historyStartEpisodes tn"
    "tn_episodes tn1 = tn_episodes tn + 2 * DIRECTIONS_PER_ITERATION"
    by (simp_all add: tn1)
  have f2: "tn_world tn2 = tn_world tn" "tn_iterations tn2 = Suc (tn_iterations tn)" "tn_history tn2 = tn_history tn"
    "tn_bestScore tn2 = tn_bestScore tn" "tn_bestWeights tn2 = tn_bestWeights tn" "tn_startMode tn2 = tn_startMode tn"
    "tn_phaseStartIterations tn2 = tn_phaseStartIterations tn" "tn_historyStartEpisodes tn2 = tn_historyStartEpisodes tn"
    "tn_episodes tn2 = tn_episodes tn + 2 * DIRECTIONS_PER_ITERATION"
    by (simp_all add: tn2_def update_frame f1)
  have w2: "weights_ok (tn_weights tn2)" by (simp add: tn2_def update_weights_ok)
  have b2: "weights_ok (tn_bestWeights tn2)" "history_ok tn2" "best_ok tn2"
  proof -
    have "validated tn2 weights = validated tn weights" for weights
      by (rule validated_same) (simp_all add: f2)
    then show "best_ok tn2" using ok by (simp add: trainer_ok_def best_ok_def f2 split: option.splits)
    show "weights_ok (tn_bestWeights tn2)" "history_ok tn2"
      using ok by (auto simp: trainer_ok_def history_ok_def f2 list_all_iff)
  qed
  have counts: "tn_episodes tn2 = 2 * DIRECTIONS_PER_ITERATION * tn_iterations tn2 + VALIDATION_EPISODES * (tn_iterations tn div VALIDATION_INTERVAL)"
    "tn_phaseStartIterations tn2 \<le> tn_iterations tn2" "tn_historyStartEpisodes tn2 \<le> tn_episodes tn2"
    using ok by (simp_all add: trainer_ok_def counts_ok_def f2 algebra_simps)
  have tn': "(if tn_iterations tn2 mod VALIDATION_INTERVAL = 0 then validate ?v tn2 else Inr tn2) = Inr tn'"
    using it dirs f1(2) by (auto simp: iteration_def Let_def tn2_def update_frame split: sum.splits if_splits)
  show ?thesis
  proof (cases "tn_iterations tn2 mod VALIDATION_INTERVAL = 0")
    case True
    then have "validate (tn_startMode tn2 = VariedStart) tn2 = Inr tn'" using tn' by (simp add: f2)
    note val = validate_ok [OF this w2 b2(1,3,2)]
    have "Suc (tn_iterations tn) div VALIDATION_INTERVAL = Suc (tn_iterations tn div VALIDATION_INTERVAL)"
      using True by (simp add: f2 VALIDATION_INTERVAL_def) presburger
    then show ?thesis using val counts f2(2) by (simp add: trainer_ok_def counts_ok_def)
  next
    case False
    then have "tn' = tn2" using tn' by simp
    moreover have "Suc (tn_iterations tn) div VALIDATION_INTERVAL = tn_iterations tn div VALIDATION_INTERVAL"
      using False by (simp add: f2 VALIDATION_INTERVAL_def) presburger
    ultimately show ?thesis using w2 b2 counts f2(2) by (simp add: trainer_ok_def counts_ok_def)
  qed
qed

lemma switch_ok: "trainer_ok tn \<Longrightarrow> trainer_ok (setStartMode mode tn)"
  by (auto simp: setStartMode_def trainer_ok_def best_ok_def history_ok_def counts_ok_def)

lemma trained_ok: "trainer_ok tn \<Longrightarrow> trained ops tn = Inr tn' \<Longrightarrow> trainer_ok tn'"
proof (induction ops arbitrary: tn)
  case Nil
  then show ?case by simp
next
  case (Cons op ops)
  then show ?case
    by (cases op) (auto simp: trainer_step_def split: sum.splits dest: iteration_ok intro: switch_ok)
qed

lemma new_trainer_ok: "trainer_ok (new_trainer w seed mode)"
  by (simp add: trainer_ok_def new_trainer_def weights_ok_def list_all_iff WEIGHT_LIMIT_def best_ok_def history_ok_def counts_ok_def)

text \<open>
  However training and changes of the start mode are interleaved, the weights stay within their
  limit, every episode is counted (24 of an iteration and 5 of each fifth one), and the best weights are
  those of the best validation of the present phase: validating them again gives the best score, which
  is the largest in the learning curve.
\<close>

theorem training_keeps_best:
  "case trained ops (new_trainer w seed mode) of
     Inl NoClearStart \<Rightarrow> True
   | Inr tn \<Rightarrow>
       length (tn_weights tn) = PARAMETERS \<and> list_all (\<lambda>x. \<bar>x\<bar> \<le> 8) (tn_weights tn)
       \<and> length (tn_bestWeights tn) = PARAMETERS \<and> list_all (\<lambda>x. \<bar>x\<bar> \<le> 8) (tn_bestWeights tn)
       \<and> tn_episodes tn = 24 * tn_iterations tn + 5 * (tn_iterations tn div 5)
       \<and> (case tn_bestScore tn of
            None \<Rightarrow> tn_history tn = []
          | Some best \<Rightarrow> validated tn (tn_bestWeights tn) = Inr best
              \<and> best = Max (set (map hs_score (tn_history tn))) \<and> 0 < length (tn_history tn))"
proof (cases "trained ops (new_trainer w seed mode)")
  case (Inl e)
  then show ?thesis by (cases e) simp
next
  case (Inr tn)
  then have ok: "trainer_ok tn" using trained_ok [OF new_trainer_ok] by blast
  have "best = Max (set (map hs_score (tn_history tn))) \<and> 0 < length (tn_history tn)" if "tn_bestScore tn = Some best" for best
  proof -
    have "best \<in> set (map hs_score (tn_history tn))" "x \<le> best" if "x \<in> set (map hs_score (tn_history tn))" for x
      using ok \<open>tn_bestScore tn = Some best\<close> that by (auto simp: trainer_ok_def best_ok_def list_all_iff)
    then show ?thesis
      using ok that by (auto simp: trainer_ok_def best_ok_def intro!: Max_eqI [symmetric])
  qed
  with ok Inr show ?thesis
    by (auto simp: trainer_ok_def weights_ok_def counts_ok_def best_ok_def WEIGHT_LIMIT_def
        DIRECTIONS_PER_ITERATION_def VALIDATION_EPISODES_def VALIDATION_INTERVAL_def split: option.splits)
qed

end
