(* ===== verification/Controller_Map.thy ===== *)
theory Controller_Map
  imports Js_Text
begin

text \<open>
  The operator's controller settings: \<open>static/control-labels.js\<close> (which settings are buttons and which
  are axes, how many settings a draft changes) and \<open>static/controller-map.js\<close> (where an input sits on
  the controller, the bindings of a profile, and the plan of an assignment). Node, setting and spot
  names are strings as in the code; the labels a person reads are left out.
\<close>

section \<open>Settings\<close>

text \<open>
  A setting is a number, a flag or \<open>null\<close>. An object is its list of entries in order, with each key
  once; a missing key reads as \<open>undefined\<close>, here \<open>None\<close>.
\<close>

datatype cval = Num real | Flag bool | Null

type_synonym node_settings = "(string \<times> cval) list"
type_synonym settings = "(string \<times> node_settings) list"

definition read_setting :: "settings \<Rightarrow> string \<Rightarrow> string \<Rightarrow> cval option" where
  "read_setting values node key = (case map_of values node of None \<Rightarrow> None | Some fields \<Rightarrow> map_of fields key)"

definition has_setting :: "settings \<Rightarrow> string \<Rightarrow> string \<Rightarrow> bool" where
  "has_setting values node key \<longleftrightarrow> read_setting values node key \<noteq> None"

fun put :: "'k \<Rightarrow> 'v \<Rightarrow> ('k \<times> 'v) list \<Rightarrow> ('k \<times> 'v) list" where
  "put k v [] = [(k, v)]"
| "put k v ((k', v') # rest) = (if k' = k then (k, v) # rest else (k', v') # put k v rest)"

text \<open>\<open>draft[node][key] = value\<close> for a node the draft has.\<close>

definition write_setting :: "string \<Rightarrow> string \<Rightarrow> cval \<Rightarrow> settings \<Rightarrow> settings" where
  "write_setting node key v values =
     (case map_of values node of None \<Rightarrow> values | Some fields \<Rightarrow> put node (put key v fields) values)"

definition changedCount :: "settings \<Rightarrow> settings \<Rightarrow> nat" where
  "changedCount saved draft =
     foldl (\<lambda>n (node, fields). n + length (filter (\<lambda>(key, v). Some v \<noteq> read_setting draft node key) fields)) 0 saved"

section \<open>Kinds of inputs and where they sit\<close>

datatype input_kind = ButtonInput | AxisInput | DirectionInput

definition buttonKeys :: "string list" where
  "buttonKeys = [''fire_button'', ''tilt_up_button_index'', ''tilt_down_button_index'', ''full_speed_button'']"

definition axisKeys :: "string list" where
  "axisKeys = [''linear_x_axis'', ''linear_y_axis'', ''angular_z_axis'', ''tilt_axis'', ''tilt_up_axis'',
     ''tilt_down_axis'', ''left_stick_vertical_axis'', ''right_stick_vertical_axis'', ''left_axis_index'',
     ''right_axis_index'']"

definition kind :: "string \<Rightarrow> input_kind option" where
  "kind key = (if key \<in> set buttonKeys then Some ButtonInput else if key \<in> set axisKeys then Some AxisInput else None)"

text \<open>The integer a value is, when \<open>Number.isInteger\<close> holds and it is not negative.\<close>

definition index_value :: "cval option \<Rightarrow> nat option" where
  "index_value v =
     (case v of
        Some (Num x) \<Rightarrow> if x = of_int \<lfloor>x\<rfloor> \<and> 0 \<le> x then Some (nat \<lfloor>x\<rfloor>) else None
      | _ \<Rightarrow> None)"

definition axis_spot :: "string \<Rightarrow> nat \<Rightarrow> string option" where
  "axis_spot controller n =
     (if n = 0 \<or> n = 1 then Some ''left-stick''
      else if n = 3 \<or> n = 4 then Some ''right-stick''
      else if n = 6 \<or> n = 7 then Some ''dpad''
      else if controller = ''dualshock'' \<and> n = 2 then Some ''left-trigger''
      else if controller = ''dualshock'' \<and> n = 5 then Some ''right-trigger''
      else None)"

definition button_spot :: "string \<Rightarrow> nat \<Rightarrow> string option" where
  "button_spot controller n =
     (let face = (if controller = ''uart''
                  then [''face-right'', ''face-bottom'', ''face-top'', ''face-left'']
                  else [''face-bottom'', ''face-right'', ''face-top'', ''face-left'']);
          common = [(4, ''left-shoulder''), (5, ''right-shoulder''), (6, ''left-trigger''), (7, ''right-trigger''),
                    (8, ''menu-left''), (9, ''menu-right''), (10, ''home'')];
          extra = (if controller = ''uart''
                   then [(11, ''capture''), (12, ''left-stick''), (13, ''right-stick'')]
                   else [(11, ''left-stick''), (12, ''right-stick'')])
      in if n < 4 then Some (face ! n)
         else case map_of common n of Some spot \<Rightarrow> Some spot | None \<Rightarrow> map_of extra n)"

definition location :: "string \<Rightarrow> string \<Rightarrow> cval option \<Rightarrow> string option" where
  "location controller key v =
     (case index_value v of
        None \<Rightarrow> None
      | Some n \<Rightarrow> if kind key = Some AxisInput then axis_spot controller n else button_spot controller n)"

definition isTilt :: "string \<Rightarrow> bool" where
  "isTilt key \<longleftrightarrow> key = ''tilt_up_button_index'' \<or> key = ''tilt_down_button_index''"

text \<open>\<open>String(value)\<close> in the template of an id.\<close>

definition cval_text :: "cval option \<Rightarrow> string" where
  "cval_text v =
     (case v of
        None \<Rightarrow> ''undefined'' | Some Null \<Rightarrow> ''null''
      | Some (Flag b) \<Rightarrow> if b then ''true'' else ''false''
      | Some (Num x) \<Rightarrow> show_num x)"

definition kind_text :: "input_kind \<Rightarrow> string" where
  "kind_text k = (case k of ButtonInput \<Rightarrow> ''button'' | AxisInput \<Rightarrow> ''axis'' | DirectionInput \<Rightarrow> ''direction'')"

record map_input =
  mi_id :: string
  mi_kind :: input_kind
  mi_value :: "cval option"
  mi_sign :: "cval option"
  mi_spot :: "string option"

definition input_id :: "input_kind \<Rightarrow> cval option \<Rightarrow> cval option \<Rightarrow> string" where
  "input_id k v sign =
     kind_text k @ '':'' @ cval_text v @ (if k = DirectionInput then '':'' @ cval_text sign else [])"

definition inputOption :: "string \<Rightarrow> input_kind \<Rightarrow> cval option \<Rightarrow> cval option \<Rightarrow> map_input" where
  "inputOption controller k v sign =
     (let key = (if k = ButtonInput then ''fire_button'' else ''tilt_axis'')
      in \<lparr> mi_id = input_id k v sign, mi_kind = k, mi_value = v, mi_sign = sign, mi_spot = location controller key v \<rparr>)"

text \<open>\<open>key.replace("_button_index", "")\<close> for the two tilt keys.\<close>

definition tilt_prefix :: "string \<Rightarrow> string" where
  "tilt_prefix key = (if key = ''tilt_up_button_index'' then ''tilt_up'' else if key = ''tilt_down_button_index'' then ''tilt_down'' else key)"

text \<open>\<open>value >= 0\<close> with the conversions of the comparison.\<close>

definition not_negative :: "cval option \<Rightarrow> bool" where
  "not_negative v = (case v of None \<Rightarrow> False | Some (Num x) \<Rightarrow> 0 \<le> x | Some (Flag b) \<Rightarrow> True | Some Null \<Rightarrow> True)"

definition directionInput :: "string \<Rightarrow> settings \<Rightarrow> string \<Rightarrow> map_input" where
  "directionInput controller values key =
     (let prefix = tilt_prefix key;
          shot = read_setting values ''joy_launcher'';
          axis = shot (prefix @ ''_axis'')
      in if not_negative axis then inputOption controller DirectionInput axis (shot (prefix @ ''_axis_sign''))
         else inputOption controller ButtonInput (shot key) None)"

section \<open>What the diagram shows and offers\<close>

definition map_fields :: "(string \<times> string) list" where
  "map_fields = [(''joy_controller'', ''linear_x_axis''), (''joy_controller'', ''angular_z_axis''),
     (''joy_controller'', ''linear_y_axis''), (''joy_launcher'', ''fire_button''), (''joy_launcher'', ''full_speed_button'')]"

definition tiltFields :: "(string \<times> string) list" where
  "tiltFields = [(''joy_launcher'', ''tilt_up_button_index''), (''joy_launcher'', ''tilt_down_button_index'')]"

definition numbers :: "string \<Rightarrow> nat" where
  "numbers key =
     (case map_of [(''linear_x_axis'', 1), (''angular_z_axis'', 2), (''fire_button'', 3), (''full_speed_button'', 4),
        (''tilt_up_button_index'', 5), (''tilt_down_button_index'', 5), (''linear_y_axis'', 6 :: nat)] key of
        Some n \<Rightarrow> n | None \<Rightarrow> 0)"

record binding =
  bi_node :: string
  bi_key :: string
  bi_number :: nat
  bi_input :: map_input
  bi_changed :: bool

definition key_kind :: "string \<Rightarrow> input_kind" where
  "key_kind key = (if kind key = Some AxisInput then AxisInput else ButtonInput)"

definition bound_input :: "string \<Rightarrow> settings \<Rightarrow> string \<Rightarrow> string \<Rightarrow> map_input" where
  "bound_input controller values node key =
     (if isTilt key then directionInput controller values key
      else inputOption controller (key_kind key) (read_setting values node key) None)"

definition bindings :: "string \<Rightarrow> settings \<Rightarrow> settings \<Rightarrow> binding list" where
  "bindings controller values saved =
     sort_key bi_number
       (map (\<lambda>(node, key).
            let input = bound_input controller values node key
            in \<lparr> bi_node = node, bi_key = key, bi_number = numbers key, bi_input = input,
                 bi_changed = mi_id input \<noteq> mi_id (bound_input controller saved node key) \<rparr>)
          (filter (\<lambda>(node, key). has_setting values node key) (map_fields @ tiltFields)))"

definition num :: "nat \<Rightarrow> cval option" where
  "num n = Some (Num (real n))"

definition inputs_at :: "string \<Rightarrow> string option \<Rightarrow> input_kind \<Rightarrow> nat \<Rightarrow> map_input list" where
  "inputs_at controller spot k v =
     (let input = inputOption controller k (num v) None
      in if mi_spot input \<noteq> spot then []
         else input # (if k = AxisInput \<and> v \<noteq> 2 \<and> v \<noteq> 5
                       then [inputOption controller DirectionInput (num v) (Some (Num 1)),
                             inputOption controller DirectionInput (num v) (Some (Num (- 1)))]
                       else []))"

definition inputs :: "string \<Rightarrow> string option \<Rightarrow> map_input list" where
  "inputs controller spot =
     concat (map (inputs_at controller spot AxisInput) [0..<8]) @ concat (map (inputs_at controller spot ButtonInput) [0..<14])"

definition actions :: "settings \<Rightarrow> input_kind \<Rightarrow> (string \<times> string) list" where
  "actions values k =
     sort_key (\<lambda>(node, key). numbers key)
       (filter (\<lambda>(node, key). (if isTilt key then k = ButtonInput \<or> k = DirectionInput else kind key = Some k)
            \<and> has_setting values node key) (map_fields @ tiltFields))"

definition action_id :: "string \<times> string \<Rightarrow> string" where
  "action_id action = fst action @ ''.'' @ snd action"

definition destinations :: "string \<Rightarrow> string \<Rightarrow> map_input list" where
  "destinations controller key =
     filter (\<lambda>input. mi_spot input \<noteq> None)
       (if isTilt key
        then concat (map (\<lambda>v. [inputOption controller DirectionInput (num v) (Some (Num 1)),
               inputOption controller DirectionInput (num v) (Some (Num (- 1)))]) [0, 1, 3, 4, 6, 7])
             @ map (\<lambda>v. inputOption controller ButtonInput (num v) None) [0..<14]
        else map (\<lambda>v. inputOption controller (key_kind key) (num v) None) [0..<(if kind key = Some AxisInput then 8 else 14)])"

section \<open>Planning an assignment\<close>

datatype map_error = NotTilt | NoTiltInput | SameDirection | NoCombination

record change =
  ch_node :: string
  ch_key :: string
  ch_value :: cval

text \<open>
  \<open>Number(text)\<close> on the part of an id: spaces around are ignored, nothing is 0, and plain decimals are
  read. (Hexadecimal and exponent forms, which no id of the page has, read as \<open>NaN\<close> here.)
\<close>

definition all_digits :: "string \<Rightarrow> bool" where
  "all_digits s \<longleftrightarrow> s \<noteq> [] \<and> list_all is_digit s"

definition part_number :: "string \<Rightarrow> real option" where
  "part_number part =
     (let s = trim part
      in if s = [] then Some 0
         else if all_digits s then Some (real (to_nat s 0))
         else if hd s = CHR ''-'' \<and> all_digits (tl s) then Some (- real (to_nat (tl s) 0))
         else None)"

definition other_tilt :: "string \<Rightarrow> string" where
  "other_tilt key = (if key = ''tilt_up_button_index'' then ''tilt_down_button_index'' else ''tilt_up_button_index'')"

text \<open>What the parts of an id ask for: a button, or a direction with its sign.\<close>

definition tilt_choice :: "string \<Rightarrow> (nat \<times> real option) option" where
  "tilt_choice inputId =
     (let parts = split_on (CHR '':'') inputId
      in if length parts < 2 then None
         else case part_number (parts ! 1) of
                None \<Rightarrow> None
              | Some v \<Rightarrow>
                  (if v \<noteq> of_int \<lfloor>v\<rfloor> \<or> v < 0 \<or> v > 63 \<or> parts ! 1 = [] then None
                   else if parts ! 0 = ''button'' \<and> length parts = 2 then Some (nat \<lfloor>v\<rfloor>, None)
                   else if parts ! 0 = ''direction'' \<and> length parts = 3
                     then (case part_number (parts ! 2) of
                             None \<Rightarrow> None
                           | Some sign \<Rightarrow> if sign = 1 \<or> sign = - 1 then Some (nat \<lfloor>v\<rfloor>, Some sign) else None)
                   else None))"

definition planTiltDirection :: "string \<Rightarrow> settings \<Rightarrow> string \<Rightarrow> string \<Rightarrow> map_error + change list" where
  "planTiltDirection controller values key inputId =
     (if \<not> isTilt key then Inl NotTilt
      else case tilt_choice inputId of
             None \<Rightarrow> Inl NoTiltInput
           | Some (v, sign) \<Rightarrow>
               (if mi_id (directionInput controller values (other_tilt key)) = inputId then Inl SameDirection
                else
                  let prefix = tilt_prefix key;
                      make = (\<lambda>k v. \<lparr> ch_node = ''joy_launcher'', ch_key = k, ch_value = v \<rparr>)
                  in Inr (case sign of
                       None \<Rightarrow> [make (prefix @ ''_axis'') (Num (- 1)), make key (Num (real v))]
                     | Some s \<Rightarrow> [make (prefix @ ''_axis'') (Num (real v)), make (prefix @ ''_axis_sign'') (Num s)])))"

definition planAssignment :: "string \<Rightarrow> settings \<Rightarrow> string option \<Rightarrow> string \<Rightarrow> string \<Rightarrow> map_error + change list" where
  "planAssignment controller values spot inputId actionId =
     (case find (\<lambda>input. mi_id input = inputId) (inputs controller spot) of
        None \<Rightarrow> Inl NoCombination
      | Some input \<Rightarrow>
          (case find (\<lambda>action. action_id action = actionId) (actions values (mi_kind input)) of
             None \<Rightarrow> Inl NoCombination
           | Some (node, key) \<Rightarrow>
               (if isTilt key then planTiltDirection controller values key inputId
                else case mi_value input of
                       None \<Rightarrow> Inl NoCombination
                     | Some v \<Rightarrow> Inr [\<lparr> ch_node = node, ch_key = key, ch_value = v \<rparr>])))"

text \<open>\<open>applyMapAssignment\<close> writes the planned changes into the draft in order.\<close>

definition apply_changes :: "change list \<Rightarrow> settings \<Rightarrow> settings" where
  "apply_changes changes draft = foldl (\<lambda>d c. write_setting (ch_node c) (ch_key c) (ch_value c) d) draft changes"

section \<open>Ids and the inputs they name\<close>

lemma digit_chars:
  "digit_char 0 = CHR ''0''" "digit_char 1 = CHR ''1''" "digit_char 2 = CHR ''2''" "digit_char 3 = CHR ''3''"
  "digit_char 4 = CHR ''4''" "digit_char 5 = CHR ''5''" "digit_char 6 = CHR ''6''" "digit_char 7 = CHR ''7''"
  "digit_char 8 = CHR ''8''" "digit_char 9 = CHR ''9''"
  by code_simp+

lemma show_num_nat: "show_num (real n) = nat_digits n"
proof (cases n)
  case 0
  then show ?thesis by (simp add: show_num_def nat_digits.simps [of 0] digit_chars)
next
  case (Suc m)
  have floor: "\<lfloor>real n + 1 / 2\<rfloor> = int n" by (simp add: floor_unique)
  have "find (\<lambda>d. of_int \<lfloor>\<bar>real n\<bar> * 10 ^ d\<rfloor> = \<bar>real n\<bar> * 10 ^ d) [0..<20] = Some 0"
    by (simp add: upt_conv_Cons)
  then show ?thesis by (simp add: show_num_def fixed_text_def floor Suc Let_def flip: of_nat_Suc)
qed

lemma nat_digits_small:
  "nat_digits 0 = ''0''" "nat_digits 1 = ''1''" "nat_digits 2 = ''2''" "nat_digits 3 = ''3''" "nat_digits 4 = ''4''"
  "nat_digits 5 = ''5''" "nat_digits 6 = ''6''" "nat_digits 7 = ''7''" "nat_digits 8 = ''8''" "nat_digits 9 = ''9''"
  "nat_digits 10 = ''10''" "nat_digits 11 = ''11''" "nat_digits 12 = ''12''" "nat_digits 13 = ''13''"
  by (simp_all add: nat_digits.simps digit_chars [simplified])

lemma show_num_small:
  "show_num (numeral k) = nat_digits (numeral k)" "show_num 0 = nat_digits 0" "show_num 1 = nat_digits 1"
  using show_num_nat [of "numeral k"] show_num_nat [of 0] show_num_nat [of 1] by simp_all

lemma show_num_minus_one: "show_num (- 1) = ''-1''"
  by (simp add: show_num_def fixed_text_def upt_conv_Cons nat_digits_small [simplified])

lemma of_char_digit: "d < 10 \<Longrightarrow> (of_char (digit_char d) :: nat) = 48 + d"
  by (simp add: digit_char_def)

lemma to_nat_snoc: "to_nat (xs @ [c]) a = 10 * to_nat xs a + (of_char c - 48)"
  by (induction xs a rule: to_nat.induct) simp_all

lemma nat_digits_spec: "to_nat (nat_digits n) 0 = n \<and> list_all is_digit (nat_digits n) \<and> nat_digits n \<noteq> []"
proof (induction n rule: nat_digits.induct)
  case (1 n)
  show ?case
  proof (cases "n < 10")
    case True
    then show ?thesis by (simp add: nat_digits.simps [of n] is_digit_def of_char_digit)
  next
    case False
    have "n mod 10 < 10" by simp
    then show ?thesis using False 1
      by (simp add: nat_digits.simps [of n] to_nat_snoc is_digit_def of_char_digit)
  qed
qed

lemma digit_no_space: "is_digit c \<Longrightarrow> \<not> is_space c" "is_digit c \<Longrightarrow> c \<noteq> CHR '':''"
  by (auto simp: is_digit_def is_space_def)

lemma digits_no_colon: "CHR '':'' \<notin> set (nat_digits n)"
  using nat_digits_spec [of n] digit_no_space(2) unfolding list_all_iff by blast

lemma digits_trim: "trim (nat_digits n) = nat_digits n"
proof -
  have digits: "\<forall>c\<in>set (nat_digits n). \<not> is_space c" and ne: "nat_digits n \<noteq> []"
    using nat_digits_spec [of n] digit_no_space(1) unfolding list_all_iff by blast+
  have drop: "dropWhile is_space xs = xs" if "\<forall>c\<in>set xs. \<not> is_space c" for xs
    using that by (cases xs) simp_all
  show ?thesis unfolding trim_def using digits by (simp add: drop)
qed

lemma part_number_digits: "part_number (nat_digits n) = Some (real n)"
  using nat_digits_spec [of n] by (simp add: part_number_def digits_trim all_digits_def)

lemma part_number_signs: "part_number ''1'' = Some 1" "part_number ''-1'' = Some (- 1)"
  by (simp_all add: part_number_def trim_def is_space_def all_digits_def is_digit_def)

lemma split_on_none: "c \<notin> set xs \<Longrightarrow> split_on c xs = [xs]"
  by (induction xs) auto

lemma split_on_sep: "c \<notin> set xs \<Longrightarrow> split_on c (xs @ c # ys) = xs # split_on c ys"
  by (induction xs) auto

lemma split_ids:
  "split_on (CHR '':'') (input_id ButtonInput (num v) s) = [''button'', nat_digits v]"
  "split_on (CHR '':'') (input_id AxisInput (num v) s) = [''axis'', nat_digits v]"
  "split_on (CHR '':'') (input_id DirectionInput (num v) (Some (Num 1))) = [''direction'', nat_digits v, ''1'']"
  "split_on (CHR '':'') (input_id DirectionInput (num v) (Some (Num (- 1)))) = [''direction'', nat_digits v, ''-1'']"
proof -
  note seps = split_on_sep [OF digits_no_colon [of v]] split_on_none [OF digits_no_colon [of v]]
  show "split_on (CHR '':'') (input_id ButtonInput (num v) s) = [''button'', nat_digits v]"
    "split_on (CHR '':'') (input_id AxisInput (num v) s) = [''axis'', nat_digits v]"
    "split_on (CHR '':'') (input_id DirectionInput (num v) (Some (Num 1))) = [''direction'', nat_digits v, ''1'']"
    "split_on (CHR '':'') (input_id DirectionInput (num v) (Some (Num (- 1)))) = [''direction'', nat_digits v, ''-1'']"
    by (simp_all add: input_id_def kind_text_def cval_text_def num_def show_num_nat show_num_minus_one show_num_small
        nat_digits_small [simplified] seps)
qed

text \<open>The inputs the page makes: an axis, a button, or a direction of an axis.\<close>

definition made_input :: "input_kind \<Rightarrow> nat \<Rightarrow> cval option \<Rightarrow> bool" where
  "made_input k v s \<longleftrightarrow> v \<le> 63 \<and> (if k = DirectionInput then s = Some (Num 1) \<or> s = Some (Num (- 1)) else s = None)"

lemma made_inputs_at:
  assumes "input \<in> set (inputs_at controller spot k v)" "v < 14" "k \<noteq> DirectionInput"
  shows "\<exists>k v s. made_input k v s \<and> input = inputOption controller k (num v) s"
proof -
  have "input = inputOption controller k (num v) None \<or> input = inputOption controller DirectionInput (num v) (Some (Num 1))
      \<or> input = inputOption controller DirectionInput (num v) (Some (Num (- 1)))"
    using assms(1) by (auto simp: inputs_at_def Let_def split: if_splits)
  moreover have "made_input k v None" "made_input DirectionInput v (Some (Num 1))" "made_input DirectionInput v (Some (Num (- 1)))"
    using assms(2,3) by (simp_all add: made_input_def)
  ultimately show ?thesis by blast
qed

lemma made_inputs:
  assumes "input \<in> set (inputs controller spot)"
  shows "\<exists>k v s. made_input k v s \<and> input = inputOption controller k (num v) s"
proof -
  consider v where "v < 8" "input \<in> set (inputs_at controller spot AxisInput v)"
    | v where "v < 14" "input \<in> set (inputs_at controller spot ButtonInput v)"
    using assms unfolding inputs_def by (auto simp: atLeastLessThan_iff simp del: upt_rec_numeral upt.simps)
  then show ?thesis by cases (use made_inputs_at [of input controller spot] in fastforce)+
qed

lemma input_id_inj:
  assumes "made_input k v s" "made_input k' v' s'" "input_id k (num v) s = input_id k' (num v') s'"
  shows "k = k' \<and> v = v' \<and> s = s'"
proof -
  have "split_on (CHR '':'') (input_id k (num v) s) = split_on (CHR '':'') (input_id k' (num v') s')"
    using assms(3) by simp
  moreover have "nat_digits v = nat_digits v' \<Longrightarrow> v = v'" using nat_digits_spec by metis
  ultimately show ?thesis using assms(1,2)
    by (cases k; cases k') (auto simp: made_input_def split_ids)
qed

lemma tilt_choice_ids:
  "v \<le> 63 \<Longrightarrow> tilt_choice (input_id ButtonInput (num v) s) = Some (v, None)"
  "v \<le> 63 \<Longrightarrow> tilt_choice (input_id DirectionInput (num v) (Some (Num 1))) = Some (v, Some 1)"
  "v \<le> 63 \<Longrightarrow> tilt_choice (input_id DirectionInput (num v) (Some (Num (- 1)))) = Some (v, Some (- 1))"
  using nat_digits_spec [of v]
  by (simp_all add: tilt_choice_def Let_def split_ids part_number_digits part_number_signs)

section \<open>What an assignment does\<close>

lemma map_of_put: "map_of (put k v xs) = (map_of xs)(k \<mapsto> v)"
  by (induction k v xs rule: put.induct) auto

lemma read_write:
  assumes "map_of values node \<noteq> None"
  shows "read_setting (write_setting node key v values) n k
      = (if n = node \<and> k = key then Some v else read_setting values n k)"
    and "map_of (write_setting node key v values) node \<noteq> None"
  using assms by (auto simp: read_setting_def write_setting_def map_of_put)

lemma has_setting_node: "has_setting values node key \<Longrightarrow> map_of values node \<noteq> None"
  by (auto simp: has_setting_def read_setting_def split: option.splits)

text \<open>The settings an assignment of \<open>key\<close> may write.\<close>

definition assigned_keys :: "string \<Rightarrow> string list" where
  "assigned_keys key = (if isTilt key then [key, tilt_prefix key @ ''_axis'', tilt_prefix key @ ''_axis_sign''] else [key])"

definition takes_effect :: "string \<Rightarrow> settings \<Rightarrow> string \<Rightarrow> string \<Rightarrow> string \<Rightarrow> change list \<Rightarrow> bool" where
  "takes_effect controller values node key inputId changes \<longleftrightarrow>
     mi_id (bound_input controller (apply_changes changes values) node key) = inputId
     \<and> (\<forall>n k. (n = node \<and> k \<in> set (assigned_keys key))
          \<or> read_setting (apply_changes changes values) n k = read_setting values n k)"

lemma tilt_takes_effect:
  assumes key: "isTilt key" and node: "map_of values ''joy_launcher'' \<noteq> None"
    and made: "made_input k v s" and "k \<noteq> AxisInput"
    and plan: "planTiltDirection controller values key (input_id k (num v) s) = Inr changes"
  shows "takes_effect controller values ''joy_launcher'' key (input_id k (num v) s) changes"
proof -
  note written = read_write [OF node] read_write [OF read_write(2) [OF node]]
  have prefix: "tilt_prefix key @ ''_axis'' \<noteq> key"
    using key by (auto simp: isTilt_def tilt_prefix_def)
  consider "k = ButtonInput" "s = None" | "k = DirectionInput" "s = Some (Num 1)" | "k = DirectionInput" "s = Some (Num (- 1))"
    using made \<open>k \<noteq> AxisInput\<close> by (cases k) (auto simp: made_input_def)
  then show ?thesis
  proof cases
    case 1
    then have changes: "changes = [\<lparr> ch_node = ''joy_launcher'', ch_key = tilt_prefix key @ ''_axis'', ch_value = Num (- 1) \<rparr>,
        \<lparr> ch_node = ''joy_launcher'', ch_key = key, ch_value = Num (real v) \<rparr>]"
      using plan key made by (simp add: planTiltDirection_def tilt_choice_ids made_input_def Let_def split: if_splits)
    show ?thesis
      using 1 key prefix
      by (simp add: takes_effect_def changes apply_changes_def written bound_input_def directionInput_def Let_def
          not_negative_def inputOption_def num_def assigned_keys_def)
  next
    case 2
    then have changes: "changes = [\<lparr> ch_node = ''joy_launcher'', ch_key = tilt_prefix key @ ''_axis'', ch_value = Num (real v) \<rparr>,
        \<lparr> ch_node = ''joy_launcher'', ch_key = tilt_prefix key @ ''_axis_sign'', ch_value = Num 1 \<rparr>]"
      using plan key made by (simp add: planTiltDirection_def tilt_choice_ids made_input_def Let_def split: if_splits)
    show ?thesis
      using 2 key prefix
      by (simp add: takes_effect_def changes apply_changes_def written bound_input_def directionInput_def Let_def
          not_negative_def inputOption_def num_def assigned_keys_def)
  next
    case 3
    then have changes: "changes = [\<lparr> ch_node = ''joy_launcher'', ch_key = tilt_prefix key @ ''_axis'', ch_value = Num (real v) \<rparr>,
        \<lparr> ch_node = ''joy_launcher'', ch_key = tilt_prefix key @ ''_axis_sign'', ch_value = Num (- 1) \<rparr>]"
      using plan key made by (simp add: planTiltDirection_def tilt_choice_ids made_input_def Let_def split: if_splits)
    show ?thesis
      using 3 key prefix
      by (simp add: takes_effect_def changes apply_changes_def written bound_input_def directionInput_def Let_def
          not_negative_def inputOption_def num_def assigned_keys_def)
  qed
qed

lemma plain_takes_effect:
  assumes "\<not> isTilt key" "map_of values node \<noteq> None" "kind key = Some k" "k \<noteq> DirectionInput"
  shows "takes_effect controller values node key (input_id k (num v) None)
    [\<lparr> ch_node = node, ch_key = key, ch_value = Num (real v) \<rparr>]"
proof -
  have "key_kind key = k" using assms(3,4) by (cases k) (auto simp: key_kind_def)
  then show ?thesis
    using assms(1) by (simp add: takes_effect_def apply_changes_def read_write [OF assms(2)] bound_input_def inputOption_def
        num_def assigned_keys_def)
qed

lemma actions_known:
  assumes "(node, key) \<in> set (actions values k)"
  shows "(node, key) \<in> set (map_fields @ tiltFields)" "has_setting values node key"
    "isTilt key \<Longrightarrow> k \<noteq> AxisInput" "\<not> isTilt key \<Longrightarrow> kind key = Some k"
  using assms by (auto simp: actions_def split: if_splits)

lemma action_id_inj:
  assumes "a \<in> set (map_fields @ tiltFields)" "b \<in> set (map_fields @ tiltFields)" "action_id a = action_id b"
  shows "a = b"
proof -
  have "distinct (map action_id (map_fields @ tiltFields))" by code_simp
  then show ?thesis using assms unfolding distinct_map inj_on_def by blast
qed

lemma tilt_field_node: "(node, key) \<in> set (map_fields @ tiltFields) \<Longrightarrow> isTilt key \<Longrightarrow> node = ''joy_launcher''"
  by (auto simp: map_fields_def tiltFields_def isTilt_def)

lemma kind_not_direction: "kind key \<noteq> Some DirectionInput"
  by (simp add: kind_def)

lemma find_unique:
  assumes "x \<in> set xs" "P x" "\<And>y. y \<in> set xs \<Longrightarrow> P y \<Longrightarrow> y = x"
  shows "find P xs = Some x"
proof (cases "find P xs")
  case None
  then show ?thesis using assms(1,2) by (auto simp: find_None_iff)
next
  case (Some y)
  then have "y \<in> set xs" "P y" by (auto simp: find_Some_iff in_set_conv_nth)
  then show ?thesis using assms(3) Some by simp
qed

lemma find_input:
  assumes "input \<in> set (inputs controller spot)"
  shows "find (\<lambda>i. mi_id i = mi_id input) (inputs controller spot) = Some input"
proof (rule find_unique [OF assms])
  fix other
  assume other: "other \<in> set (inputs controller spot)" and same: "mi_id other = mi_id input"
  obtain k v s where made1: "made_input k v s" and "input = inputOption controller k (num v) s"
    using made_inputs [OF assms] by blast
  moreover obtain k' v' s' where made2: "made_input k' v' s'" and "other = inputOption controller k' (num v') s'"
    using made_inputs [OF other] by blast
  ultimately show "other = input"
    using input_id_inj [OF made2 made1] same by (simp add: inputOption_def Let_def)
qed simp

lemma find_action:
  assumes "a \<in> set (actions values k)"
  shows "find (\<lambda>b. action_id b = action_id a) (actions values k) = Some a"
proof (rule find_unique [OF assms])
  fix b assume b: "b \<in> set (actions values k)" and same: "action_id b = action_id a"
  have "c \<in> set (map_fields @ tiltFields)" if "c \<in> set (actions values k)" for c
    using that actions_known(1) [of "fst c" "snd c"] by (metis prod.collapse)
  then show "b = a" using action_id_inj same b assms by meson
qed simp

text \<open>
  C38: Every assignment the controller map offers does what it says: for every input shown at a spot of the
  controller and every action offered for it, the planned changes make the diagram show that action on that
  input, touching no setting but the action's own (its axis and sign for a tilt key); the only refusal is a
  tilt direction whose other direction already has the input.
\<close>

theorem assignment_takes_effect:
  "list_all (\<lambda>input. list_all (\<lambda>(node, key).
       case planAssignment controller values spot (mi_id input) (action_id (node, key)) of
         Inr changes \<Rightarrow> takes_effect controller values node key (mi_id input) changes
       | Inl e \<Rightarrow> e = SameDirection \<and> isTilt key
           \<and> mi_id (directionInput controller values (other_tilt key)) = mi_id input)
     (actions values (mi_kind input))) (inputs controller spot)"
  unfolding list_all_iff
proof (intro ballI, clarify)
  fix input node key
  assume input: "input \<in> set (inputs controller spot)" and action: "(node, key) \<in> set (actions values (mi_kind input))"
  obtain k v s where made: "made_input k v s" and shape: "input = inputOption controller k (num v) s"
    using made_inputs [OF input] by blast
  have parts: "mi_id input = input_id k (num v) s" "mi_kind input = k" "mi_value input = num v"
    by (simp_all add: shape inputOption_def Let_def)
  note known = actions_known [OF action]
  have plan: "planAssignment controller values spot (mi_id input) (action_id (node, key))
      = (if isTilt key then planTiltDirection controller values key (mi_id input)
         else Inr [\<lparr> ch_node = node, ch_key = key, ch_value = Num (real v) \<rparr>])"
    unfolding planAssignment_def by (simp add: find_input [OF input] find_action [OF action] parts(3) num_def)
  show "case planAssignment controller values spot (mi_id input) (action_id (node, key)) of
      Inr changes \<Rightarrow> takes_effect controller values node key (mi_id input) changes
    | Inl e \<Rightarrow> e = SameDirection \<and> isTilt key
        \<and> mi_id (directionInput controller values (other_tilt key)) = mi_id input"
  proof (cases "isTilt key")
    case False
    then have "kind key = Some k" "k \<noteq> DirectionInput" using known(4) parts(2) kind_not_direction by auto
    then show ?thesis
      using made plain_takes_effect [OF False has_setting_node [OF known(2)], of k controller v]
      unfolding plan by (simp add: False parts(1) made_input_def)
  next
    case True
    then have "k \<noteq> AxisInput" and node: "node = ''joy_launcher''"
      using known(3) parts(2) tilt_field_node [OF known(1)] by auto
    then have choice: "tilt_choice (input_id k (num v) s) \<noteq> None"
      using made by (cases k) (auto simp: made_input_def tilt_choice_ids)
    show ?thesis
    proof (cases "planTiltDirection controller values key (mi_id input)")
      case (Inl e)
      then show ?thesis using True choice unfolding plan by (auto simp: planTiltDirection_def Let_def parts(1) split: option.splits if_splits)
    next
      case (Inr changes)
      then show ?thesis
        using tilt_takes_effect [OF True has_setting_node [OF known(2) [unfolded node]] made \<open>k \<noteq> AxisInput\<close>] True
        unfolding plan by (simp add: parts(1) node)
    qed
  qed
qed

end
