(* ===== verification/Operator_Controls.thy ===== *)
theory Operator_Controls
  imports Controller_Map
begin

text \<open>
  The operator's settings page: \<open>static/controls.js\<close> (the tuning fields, the draft of the settings, the
  assignment editor, loading, saving and the comparison with the running robot) and
  \<open>static/operator-guide.js\<close> (\<open>application\<close>: what the page says about the settings in use). The page is a
  machine of the operator's actions and of the answers of the server; the answers, the browser's check of
  the form and the operator's confirmations are the events' parameters. The elements drawn are left out.
\<close>

section \<open>Profiles and tuning fields\<close>

record field_limit =
  fl_key :: string
  fl_min :: real
  fl_max :: real

record field_group =
  fg_node :: string
  fg_limits :: "field_limit list"

record profile =
  pf_controller :: string
  pf_revision :: string
  pf_values :: settings
  pf_defaults :: settings
  pf_previous :: "settings option"
  pf_groups :: "field_group list"

datatype tuning_unit =
    NoUnit | MetresPerSecond | Percent | TurnsPerSecond | MetresPerSecondSquared | TurnsPerSecondSquared

record tuning =
  tu_unit :: tuning_unit
  tu_scale :: real
  tu_signed :: bool
  tu_acceleration :: bool
  tu_presets :: "nat list"

text \<open>A row of the table; the unit and the scale of the turning and acceleration rows follow from the profile.\<close>

definition plain_tuning :: "tuning_unit \<Rightarrow> real \<Rightarrow> bool \<Rightarrow> bool \<Rightarrow> tuning" where
  "plain_tuning u s signed acc =
     \<lparr> tu_unit = u, tu_scale = s, tu_signed = signed, tu_acceleration = acc, tu_presets = [] \<rparr>"

definition tuningFields :: "(string \<times> (string \<times> tuning) list) list" where
  "tuningFields =
     [(''joy_controller'', [(''longitudinal_input_ratio'', plain_tuning MetresPerSecond 1 True False),
                            (''angular_input_ratio'', plain_tuning NoUnit 0 True False)]),
      (''drive_component'', [(''max_linear_accel'', plain_tuning NoUnit 0 False True),
                             (''max_angular_accel'', plain_tuning NoUnit 0 False True)]),
      (''joy_launcher'', [(''full_speed_value'', plain_tuning Percent 100 False False)]),
      (''joy_node'', [(''deadzone'', plain_tuning Percent 100 False False)]),
      (''uart_joy_driver'', [(''deadzone'', plain_tuning Percent 100 False False)])]"

definition controllerDrivers :: "(string \<times> string) list" where
  "controllerDrivers = [(''dualshock'', ''joy_node''), (''uart'', ''uart_joy_driver'')]"

text \<open>A value where a number is expected; \<open>undefined\<close> is not a number.\<close>

definition to_number :: "cval option \<Rightarrow> num" where
  "to_number v =
     (case v of None \<Rightarrow> None | Some (Num x) \<Rightarrow> Some x | Some (Flag b) \<Rightarrow> Some (if b then 1 else 0) | Some Null \<Rightarrow> Some 0)"

definition positive :: "num \<Rightarrow> bool" where
  "positive x = (case x of None \<Rightarrow> False | Some r \<Rightarrow> r > 0)"

definition tuningSpec :: "profile \<Rightarrow> string \<Rightarrow> string \<Rightarrow> tuning option" where
  "tuningSpec p node key =
     (if node \<in> set (map snd controllerDrivers) \<and> map_of controllerDrivers (pf_controller p) \<noteq> Some node then None
      else case map_of tuningFields node of
             None \<Rightarrow> None
           | Some rows \<Rightarrow>
               (case map_of rows key of
                  None \<Rightarrow> None
                | Some spec \<Rightarrow>
                    let default = to_number (read_setting (pf_defaults p) node key);
                        relative = (\<lambda>reference. spec\<lparr> tu_unit := Percent, tu_scale := 100 / reference, tu_presets := [50, 100, 150] \<rparr>)
                    in if node = ''joy_controller'' \<and> key = ''angular_input_ratio''
                       then Some (case default of
                              Some d \<Rightarrow> if \<bar>d\<bar> > 0 then relative \<bar>d\<bar> else spec\<lparr> tu_unit := TurnsPerSecond, tu_scale := 1 / (2 * pi) \<rparr>
                            | None \<Rightarrow> spec\<lparr> tu_unit := TurnsPerSecond, tu_scale := 1 / (2 * pi) \<rparr>)
                       else if tu_acceleration spec
                       then Some (if positive default then relative (the default)
                              else spec\<lparr> tu_unit := (if key = ''max_linear_accel'' then MetresPerSecondSquared else TurnsPerSecondSquared),
                                         tu_scale := (if key = ''max_linear_accel'' then 1 else 1 / (2 * pi)) \<rparr>)
                       else Some spec))"

text \<open>\<open>Number(x.toPrecision(3))\<close> for a number closer to 0 than 1: three digits from the first that is not 0.
  (No double but 0 is closer to 0 than \<open>10 ^ -324\<close>.)\<close>

definition to_precision3 :: "real \<Rightarrow> real" where
  "to_precision3 x = (case find (\<lambda>d. 1 \<le> \<bar>x\<bar> * 10 ^ d) [0..<325] of None \<Rightarrow> 0 | Some d \<Rightarrow> to_fixed (d + 2) x)"

text \<open>The number a field shows; \<open>None\<close> is the empty field.\<close>

definition shown_amount :: "tuning \<Rightarrow> real \<Rightarrow> real" where
  "shown_amount spec x =
     (let displayed = (if tu_signed spec then \<bar>x\<bar> else x) * tu_scale spec;
          rounded = to_fixed 2 displayed
      in if displayed \<noteq> 0 \<and> rounded = 0 then to_precision3 displayed else rounded)"

definition tuningNumber :: "tuning \<Rightarrow> cval \<Rightarrow> real option" where
  "tuningNumber spec v = (if v = Null then None else map_option (shown_amount spec) (to_number (Some v)))"

definition tuningDirection :: "cval \<Rightarrow> cval \<Rightarrow> real" where
  "tuningDirection current saved =
     (let below = (\<lambda>v. case to_number (Some v) of Some x \<Rightarrow> x < 0 | None \<Rightarrow> False)
      in if below current \<or> (current = Num 0 \<or> current = Null) \<and> below saved then - 1 else 1)"

text \<open>What typing \<open>entered\<close> writes: \<open>shown\<close> is the value the field was drawn with.\<close>

definition entered_value :: "tuning \<Rightarrow> real \<Rightarrow> cval \<Rightarrow> real \<Rightarrow> real option \<Rightarrow> cval" where
  "entered_value spec most shown direction entered =
     (case entered of
        None \<Rightarrow> Null
      | Some x \<Rightarrow>
          (if tuningNumber spec shown = Some x then shown
           else if tuningNumber spec (Num most) = Some x then Num (most * direction)
           else Num (x / tu_scale spec * direction)))"

text \<open>The note an acceleration field refuses an amount with.\<close>

definition amount_refused :: "tuning \<Rightarrow> real option \<Rightarrow> cval \<Rightarrow> bool" where
  "amount_refused spec entered raw \<longleftrightarrow>
     tu_acceleration spec \<and> entered \<noteq> None \<and> (case to_number (Some raw) of Some x \<Rightarrow> x \<le> 0 | None \<Rightarrow> False)"

section \<open>What the page says about the settings in use\<close>

datatype report_status = Report_Ok | Report_Unavailable | Report_Timeout | Report_Error

record node_report =
  nr_status :: report_status
  nr_values :: node_settings

record snapshot =
  sn_captured_at :: num
  sn_nodes :: "(string \<times> node_report) list"

datatype application =
    NotLoaded
  | Unsaved nat
  | OtherController
  | NotCompared
  | Differs nat
  | NothingCompared
  | Agrees nat nat

datatype answer_kind = Unknown | Pending | Partial | Matched

fun application_kind :: "application \<Rightarrow> answer_kind" where
  "application_kind (Unsaved n) = Pending"
| "application_kind (Differs n) = Pending"
| "application_kind (Agrees compared missing) = (if missing \<noteq> 0 then Partial else Matched)"
| "application_kind other = Unknown"

text \<open>The settings of a profile in the order the loops visit them.\<close>

definition entries :: "settings \<Rightarrow> (string \<times> string \<times> cval) list" where
  "entries values = concat (map (\<lambda>(node, fields). map (\<lambda>(key, v). (node, key, v)) fields) values)"

definition draft_value :: "settings option \<Rightarrow> string \<Rightarrow> string \<Rightarrow> cval option" where
  "draft_value draft node key = (case draft of None \<Rightarrow> None | Some d \<Rightarrow> read_setting d node key)"

text \<open>What the robot reported of a setting, when it did.\<close>

definition reported :: "snapshot \<Rightarrow> string \<Rightarrow> string \<Rightarrow> cval option" where
  "reported snap node key =
     (case map_of (sn_nodes snap) node of
        None \<Rightarrow> None
      | Some report \<Rightarrow> if nr_status report \<noteq> Report_Ok then None else map_of (nr_values report) key)"

record comparison =
  cm_compared :: nat
  cm_different :: nat
  cm_missing :: nat

definition compare_entry :: "snapshot \<Rightarrow> comparison \<Rightarrow> string \<times> string \<times> cval \<Rightarrow> comparison" where
  "compare_entry snap c = (\<lambda>(node, key, v).
     case reported snap node key of
       None \<Rightarrow> c\<lparr> cm_missing := cm_missing c + 1 \<rparr>
     | Some actual \<Rightarrow> c\<lparr> cm_compared := cm_compared c + 1, cm_different := cm_different c + (if actual \<noteq> v then 1 else 0) \<rparr>)"

definition fresh_snapshot :: "snapshot \<Rightarrow> real \<Rightarrow> bool" where
  "fresh_snapshot snap now = (case sn_captured_at snap of None \<Rightarrow> False | Some t \<Rightarrow> 0 \<le> now - t \<and> now - t \<le> 30000)"

definition application :: "profile option \<Rightarrow> settings option \<Rightarrow> snapshot option \<Rightarrow> string option \<Rightarrow> real \<Rightarrow> application" where
  "application profile draft snap launch now =
     (case profile of
        None \<Rightarrow> NotLoaded
      | Some p \<Rightarrow>
          let changed = length (filter (\<lambda>(node, key, v). draft_value draft node key \<noteq> Some v) (entries (pf_values p)))
          in if changed \<noteq> 0 then Unsaved changed
             else if (case launch of None \<Rightarrow> False | Some c \<Rightarrow> c \<noteq> [] \<and> c \<noteq> ''web'' \<and> c \<noteq> pf_controller p) then OtherController
             else case snap of
                    None \<Rightarrow> NotCompared
                  | Some s \<Rightarrow>
                      (if \<not> fresh_snapshot s now then NotCompared
                       else let c = foldl (compare_entry s) \<lparr> cm_compared = 0, cm_different = 0, cm_missing = 0 \<rparr> (entries (pf_values p))
                            in if cm_different c \<noteq> 0 then Differs (cm_different c)
                               else if cm_compared c = 0 then NothingCompared
                               else Agrees (cm_compared c) (cm_missing c)))"

text \<open>
  What "matched" must mean: nothing is unsaved, the next start is not for another controller, the robot
  was asked no more than 30 s ago, and every saved setting was reported with exactly the saved value.
\<close>

definition settings_in_use :: "profile \<Rightarrow> settings option \<Rightarrow> snapshot \<Rightarrow> string option \<Rightarrow> real \<Rightarrow> bool" where
  "settings_in_use p draft snap launch now \<longleftrightarrow>
     (\<forall>(node, key, v) \<in> set (entries (pf_values p)). draft_value draft node key = Some v \<and> reported snap node key = Some v)
     \<and> entries (pf_values p) \<noteq> []
     \<and> launch \<in> {None, Some [], Some ''web'', Some (pf_controller p)}
     \<and> fresh_snapshot snap now"

lemma compare_counts:
  fixes start :: comparison and snap :: snapshot
  defines "result es \<equiv> foldl (compare_entry snap) start es"
  shows "cm_different (result es) = cm_different start
      + length (filter (\<lambda>(node, key, v). reported snap node key \<noteq> None \<and> reported snap node key \<noteq> Some v) es)"
    and "cm_missing (result es) = cm_missing start + length (filter (\<lambda>(node, key, v). reported snap node key = None) es)"
    and "cm_compared (result es) + cm_missing (result es) = cm_compared start + cm_missing start + length es"
  unfolding result_def
  by (induction es rule: rev_induct) (auto simp: compare_entry_def split: option.splits prod.splits)

lemma length_filter_0: "length (filter P xs) = 0 \<longleftrightarrow> (\<forall>x\<in>set xs. \<not> P x)"
  by (simp add: filter_empty_conv)

text \<open>
  The page says the settings are in use exactly when they are: the answer is "matched" if and only if
  the profile is loaded, nothing is unsaved, the next start is not for another controller, and a snapshot
  of the last 30 seconds reports every saved setting with its saved value.
\<close>

theorem matched_iff_in_use:
  "application_kind (application profile draft snap launch now) = Matched
   \<longleftrightarrow> (case (profile, snap) of
          (Some p, Some s) \<Rightarrow> settings_in_use p draft s launch now
        | _ \<Rightarrow> False)"
proof (cases profile)
  case None
  then show ?thesis by (simp add: application_def)
next
  case (Some p)
  let ?es = "entries (pf_values p)"
  let ?other = "case launch of None \<Rightarrow> False | Some c \<Rightarrow> c \<noteq> [] \<and> c \<noteq> ''web'' \<and> c \<noteq> pf_controller p"
  have other: "\<not> ?other \<longleftrightarrow> launch \<in> {None, Some [], Some ''web'', Some (pf_controller p)}"
    by (auto split: option.splits)
  let ?unsaved = "filter (\<lambda>(node, key, v). draft_value draft node key \<noteq> Some v) ?es"
  have saved: "length ?unsaved = 0 \<longleftrightarrow> (\<forall>(node, key, v) \<in> set ?es. draft_value draft node key = Some v)"
    unfolding length_filter_0 by auto
  show ?thesis
  proof (cases snap)
    case None
    then show ?thesis using Some by (auto simp: application_def Let_def)
  next
    case (Some s)
    let ?c = "foldl (compare_entry s) \<lparr> cm_compared = 0, cm_different = 0, cm_missing = 0 \<rparr> ?es"
    have "cm_different ?c = 0 \<longleftrightarrow> (\<forall>(node, key, v) \<in> set ?es. reported s node key = None \<or> reported s node key = Some v)"
      unfolding compare_counts(1) by (auto simp: filter_empty_conv)
    moreover have "cm_missing ?c = 0 \<longleftrightarrow> (\<forall>(node, key, v) \<in> set ?es. reported s node key \<noteq> None)"
      unfolding compare_counts(2) by (auto simp: filter_empty_conv)
    ultimately have same: "cm_different ?c = 0 \<and> cm_missing ?c = 0
        \<longleftrightarrow> (\<forall>(node, key, v) \<in> set ?es. reported s node key = Some v)"
      by fastforce
    have total: "cm_compared ?c + cm_missing ?c = length ?es"
      by (simp add: compare_counts(3))
    have both: "(\<forall>(node, key, v) \<in> set ?es. draft_value draft node key = Some v \<and> reported s node key = Some v)
        \<longleftrightarrow> (\<forall>(node, key, v) \<in> set ?es. draft_value draft node key = Some v) \<and> (\<forall>(node, key, v) \<in> set ?es. reported s node key = Some v)"
      by auto
    have all: "settings_in_use p draft s launch now \<longleftrightarrow> length ?unsaved = 0 \<and> \<not> ?other \<and> fresh_snapshot s now
        \<and> cm_different ?c = 0 \<and> cm_missing ?c = 0 \<and> length ?es \<noteq> 0"
      unfolding settings_in_use_def both other [symmetric] saved [symmetric] same [symmetric] length_0_conv by blast
    have "application_kind (application (Some p) draft (Some s) launch now) = Matched \<longleftrightarrow>
        length ?unsaved = 0 \<and> \<not> ?other \<and> fresh_snapshot s now \<and> cm_different ?c = 0 \<and> cm_compared ?c \<noteq> 0 \<and> cm_missing ?c = 0"
      unfolding application_def Let_def
      by (simp del: length_0_conv)
    also have "\<dots> \<longleftrightarrow> settings_in_use p draft s launch now"
      unfolding all using total by auto
    finally show ?thesis by (simp add: \<open>profile = Some p\<close> Some)
  qed
qed

section \<open>The editor of an assignment\<close>

record selection =
  se_by_action :: bool
  se_spot :: "string option"
  se_key :: string
  se_inputId :: "string option"
  se_actionId :: "string option"

definition tiltDirectionKey :: "selection \<Rightarrow> string option" where
  "tiltDirectionKey sel =
     find (\<lambda>key. se_actionId sel = Some (''joy_launcher.'' @ key)) [''tilt_up_button_index'', ''tilt_down_button_index'']"

text \<open>A missing id finds nothing, as an id no input has.\<close>

definition planMapAssignment :: "profile \<Rightarrow> selection \<Rightarrow> settings \<Rightarrow> map_error + change list" where
  "planMapAssignment p sel values =
     (case (se_by_action sel, tiltDirectionKey sel) of
        (True, Some key) \<Rightarrow> planTiltDirection (pf_controller p) values key (coalesce (se_inputId sel) [])
      | _ \<Rightarrow> planAssignment (pf_controller p) values (se_spot sel) (coalesce (se_inputId sel) []) (coalesce (se_actionId sel) []))"

text \<open>\<open>mapSelectOptions\<close>: the option that is selected, the first one otherwise.\<close>

definition mapSelectOptions :: "string list \<Rightarrow> string option \<Rightarrow> string" where
  "mapSelectOptions ids selected =
     (case selected of
        Some s \<Rightarrow> if s \<in> set ids then s else (case ids of [] \<Rightarrow> [] | first # _ \<Rightarrow> first)
      | None \<Rightarrow> (case ids of [] \<Rightarrow> [] | first # _ \<Rightarrow> first))"

definition editor_inputs :: "profile \<Rightarrow> settings \<Rightarrow> selection \<Rightarrow> map_input list" where
  "editor_inputs p values sel =
     (if \<not> se_by_action sel then inputs (pf_controller p) (se_spot sel)
      else let offered = destinations (pf_controller p) (se_key sel);
               current = directionInput (pf_controller p) values (se_key sel)
           in if tiltDirectionKey sel \<noteq> None \<and> (\<forall>item\<in>set offered. mi_id item \<noteq> mi_id current)
              then offered @ [current] else offered)"

text \<open>The bindings on the input chosen: the same input, or the whole of an axis one of whose directions it is.\<close>

definition on_channel :: "map_input \<Rightarrow> binding \<Rightarrow> bool" where
  "on_channel channel b \<longleftrightarrow>
     mi_id (bi_input b) = mi_id channel
     \<or> mi_value (bi_input b) = mi_value channel \<and> mi_kind (bi_input b) \<noteq> ButtonInput \<and> mi_kind channel \<noteq> ButtonInput
        \<and> (mi_kind (bi_input b) = AxisInput \<or> mi_kind channel = AxisInput)"

definition or_else :: "string option \<Rightarrow> string option \<Rightarrow> string option" where
  "or_else a b = (if a = None \<or> a = Some [] then b else a)"

definition render_selection :: "profile \<Rightarrow> settings \<Rightarrow> selection \<Rightarrow> selection" where
  "render_selection p values sel =
     (let offered = editor_inputs p values sel;
          inputId = mapSelectOptions (map mi_id offered) (se_inputId sel);
          channel = find (\<lambda>item. mi_id item = inputId) offered;
          chosen = (case channel of
                      None \<Rightarrow> []
                    | Some c \<Rightarrow> filter (\<lambda>action. \<not> se_by_action sel \<or> Some (action_id action) = se_actionId sel) (actions values (mi_kind c)));
          current = (case channel of
                       None \<Rightarrow> []
                     | Some c \<Rightarrow> filter (on_channel c) (bindings (pf_controller p) values values));
          currentAction = (case current of [] \<Rightarrow> None | b # _ \<Rightarrow> Some (bi_node b @ ''.'' @ bi_key b))
      in sel\<lparr> se_inputId := Some inputId,
              se_spot := (case channel of Some c \<Rightarrow> if se_by_action sel then mi_spot c else se_spot sel | None \<Rightarrow> se_spot sel),
              se_actionId := Some (mapSelectOptions (map action_id chosen) (or_else (se_actionId sel) currentAction)) \<rparr>)"

section \<open>The page as a machine\<close>

text \<open>What the page waits for: the launch settings and the interface of the server, a profile, a save.\<close>

datatype request =
    AskLaunch
  | AskSchema
  | AskProfile string
  | AskSave string string settings

record controls =
  ct_profile :: "profile option"
  ct_draft :: "settings option"
  ct_drawn :: "settings option"
  ct_dirty :: bool
  ct_busy :: bool
  ct_opened :: bool
  ct_launch :: "string option"
  ct_runtime :: "snapshot option"
  ct_runtime_busy :: bool
  ct_available :: bool
  ct_generation :: nat
  ct_selection :: "selection option"
  ct_saved_shown :: bool
  ct_choice :: string
  ct_last_choice :: string
  ct_requests :: "request list"
  ct_runtime_request :: "(nat \<times> string \<times> string) option"

definition initial_controls :: "string \<Rightarrow> controls" where
  "initial_controls choice =
     \<lparr> ct_profile = None, ct_draft = None, ct_drawn = None, ct_dirty = False, ct_busy = False, ct_opened = False,
       ct_launch = None, ct_runtime = None, ct_runtime_busy = False, ct_available = False, ct_generation = 0,
       ct_selection = None, ct_saved_shown = False, ct_choice = choice, ct_last_choice = choice,
       ct_requests = [], ct_runtime_request = None \<rparr>"

text \<open>Without a profile the editor closes; otherwise it keeps what it can of the selection.\<close>

definition renderMapEditor :: "controls \<Rightarrow> controls" where
  "renderMapEditor ct =
     (case (ct_profile ct, ct_draft ct, ct_selection ct) of
        (Some p, Some draft, Some sel) \<Rightarrow>
          ct\<lparr> ct_selection := Some (render_selection p (if ct_saved_shown ct then pf_values p else draft) sel) \<rparr>
      | _ \<Rightarrow> ct\<lparr> ct_selection := None \<rparr>)"

definition refreshControlChanges :: "controls \<Rightarrow> controls" where
  "refreshControlChanges ct =
     (case (ct_profile ct, ct_draft ct) of
        (Some p, Some draft) \<Rightarrow> renderMapEditor (ct\<lparr> ct_dirty := changedCount (pf_values p) draft > 0 \<rparr>)
      | _ \<Rightarrow> ct)"

text \<open>\<open>renderControls\<close> draws every field with the value its handler then keeps.\<close>

definition renderControls :: "controls \<Rightarrow> controls" where
  "renderControls ct = refreshControlChanges (ct\<lparr> ct_drawn := ct_draft ct \<rparr>)"

definition controlsSetBusy :: "bool \<Rightarrow> controls \<Rightarrow> controls" where
  "controlsSetBusy busy ct = renderMapEditor (ct\<lparr> ct_busy := busy \<rparr>)"

text \<open>\<open>latest\<close> is the controller of the last status received, if one was.\<close>

definition invalidateControlRuntime :: "string option \<Rightarrow> controls \<Rightarrow> controls" where
  "invalidateControlRuntime latest ct =
     ct\<lparr> ct_generation := ct_generation ct + 1, ct_runtime := None, ct_launch := latest \<rparr>"

definition loadControls :: "string option \<Rightarrow> string \<Rightarrow> controls \<Rightarrow> controls" where
  "loadControls latest controller ct =
     (let ct = controlsSetBusy True (invalidateControlRuntime latest ct)
      in ct\<lparr> ct_requests := ct_requests ct @ [AskProfile controller] \<rparr>)"

text \<open>A profile without the settings of the two tilt directions is refused.\<close>

definition tilt_settings :: "string list" where
  "tilt_settings = [''tilt_up_axis'', ''tilt_down_axis'', ''tilt_up_axis_sign'', ''tilt_down_axis_sign'']"

definition profile_loaded :: "profile option \<Rightarrow> controls \<Rightarrow> controls" where
  "profile_loaded answer ct =
     controlsSetBusy False
       (case (case answer of Some p \<Rightarrow> if list_all (has_setting (pf_values p) ''joy_launcher'') tilt_settings then Some p else None
                           | None \<Rightarrow> None) of
          Some p \<Rightarrow>
            renderControls (ct\<lparr> ct_profile := Some p, ct_selection := None, ct_draft := Some (pf_values p),
                                ct_runtime := None, ct_dirty := False \<rparr>)
        | None \<Rightarrow>
            (renderMapEditor (ct\<lparr> ct_profile := None, ct_draft := None \<rparr>))\<lparr> ct_runtime := None, ct_dirty := False \<rparr>)"

definition applyMapAssignment :: "controls \<Rightarrow> controls" where
  "applyMapAssignment ct =
     (case (ct_profile ct, ct_draft ct, ct_selection ct) of
        (Some p, Some draft, Some sel) \<Rightarrow>
          (if ct_busy ct \<or> ct_saved_shown ct then ct
           else case planMapAssignment p sel draft of
                  Inl _ \<Rightarrow> ct
                | Inr changes \<Rightarrow> refreshControlChanges (ct\<lparr> ct_draft := Some (apply_changes changes draft) \<rparr>))
      | _ \<Rightarrow> ct)"

definition restorePreviousControls :: "bool \<Rightarrow> controls \<Rightarrow> controls" where
  "restorePreviousControls confirmed ct =
     (case ct_profile ct of
        None \<Rightarrow> ct
      | Some p \<Rightarrow>
          (case pf_previous p of
             None \<Rightarrow> ct
           | Some previous \<Rightarrow>
               if ct_busy ct \<or> \<not> confirmed then ct else renderControls (ct\<lparr> ct_draft := Some previous \<rparr>)))"

text \<open>The values the handler of a drawn field reads.\<close>

definition setting_of :: "settings \<Rightarrow> string \<Rightarrow> string \<Rightarrow> cval" where
  "setting_of values node key = coalesce (read_setting values node key) Null"

definition field_of :: "profile \<Rightarrow> string \<Rightarrow> string \<Rightarrow> field_limit option" where
  "field_of p node key =
     (case find (\<lambda>g. fg_node g = node \<and> (\<exists>f\<in>set (fg_limits g). fl_key f = key)) (pf_groups p) of
        None \<Rightarrow> None | Some g \<Rightarrow> find (\<lambda>f. fl_key f = key) (fg_limits g))"

definition updateValue :: "string \<Rightarrow> string \<Rightarrow> real option \<Rightarrow> controls \<Rightarrow> controls" where
  "updateValue node key entered ct =
     (case (ct_profile ct, ct_draft ct, ct_drawn ct) of
        (Some p, Some draft, Some drawn) \<Rightarrow>
          (case (field_of p node key, tuningSpec p node key) of
             (Some field, Some spec) \<Rightarrow>
               (if ct_busy ct then ct
                else let shown = setting_of drawn node key;
                         direction = (if tu_signed spec then tuningDirection shown (setting_of (pf_values p) node key) else 1)
                     in refreshControlChanges
                          (ct\<lparr> ct_draft := Some (write_setting node key (entered_value spec (fl_max field) shown direction entered) draft) \<rparr>))
           | _ \<Rightarrow> ct)
      | _ \<Rightarrow> ct)"

text \<open>The standard values of the fields shown, keeping the direction of a speed.\<close>

definition default_for :: "profile \<Rightarrow> settings \<Rightarrow> string \<Rightarrow> string \<Rightarrow> tuning \<Rightarrow> cval" where
  "default_for p draft node key spec =
     (let value = setting_of (pf_defaults p) node key
      in if tu_signed spec
         then Num (\<bar>coalesce (to_number (Some value)) 0\<bar> * tuningDirection (setting_of draft node key) (setting_of (pf_values p) node key))
         else value)"

definition reset_field :: "profile \<Rightarrow> string \<Rightarrow> settings \<Rightarrow> field_limit \<Rightarrow> settings" where
  "reset_field p node draft field =
     (case tuningSpec p node (fl_key field) of
        None \<Rightarrow> draft
      | Some spec \<Rightarrow> write_setting node (fl_key field) (default_for p draft node (fl_key field) spec) draft)"

definition reset_draft :: "profile \<Rightarrow> settings \<Rightarrow> settings" where
  "reset_draft p draft = foldl (\<lambda>d g. foldl (reset_field p (fg_node g)) d (fg_limits g)) draft (pf_groups p)"

definition resetControls :: "bool \<Rightarrow> controls \<Rightarrow> controls" where
  "resetControls confirmed ct =
     (case (ct_profile ct, ct_draft ct) of
        (Some p, Some draft) \<Rightarrow>
          if ct_busy ct \<or> \<not> confirmed then ct else renderControls (ct\<lparr> ct_draft := Some (reset_draft p draft) \<rparr>)
      | _ \<Rightarrow> ct)"

definition saveControls :: "bool \<Rightarrow> controls \<Rightarrow> controls" where
  "saveControls valid ct =
     (case (ct_profile ct, ct_draft ct) of
        (Some p, Some draft) \<Rightarrow>
          if ct_busy ct \<or> \<not> valid then ct
          else let ct = controlsSetBusy True ct
               in ct\<lparr> ct_requests := ct_requests ct @ [AskSave (pf_controller p) (pf_revision p) draft] \<rparr>
      | _ \<Rightarrow> ct)"

definition profile_saved :: "profile option \<Rightarrow> controls \<Rightarrow> controls" where
  "profile_saved answer ct =
     controlsSetBusy False
       (case answer of
          None \<Rightarrow> ct
        | Some p \<Rightarrow> renderControls (ct\<lparr> ct_profile := Some p, ct_draft := Some (pf_values p), ct_dirty := False \<rparr>))"

definition loadRuntimeValues :: "controls \<Rightarrow> controls" where
  "loadRuntimeValues ct =
     (case ct_profile ct of
        None \<Rightarrow> ct
      | Some p \<Rightarrow>
          if ct_runtime_busy ct \<or> ct_busy ct \<or> \<not> ct_available ct then ct
          else ct\<lparr> ct_runtime_busy := True,
                   ct_runtime_request := Some (ct_generation ct, pf_controller p, pf_revision p) \<rparr>)"

text \<open>The answer counts only when nothing was invalidated and the profile is still the one asked for.\<close>

definition runtime_answered :: "snapshot option \<Rightarrow> controls \<Rightarrow> controls" where
  "runtime_answered answer ct =
     (case ct_runtime_request ct of
        None \<Rightarrow> ct
      | Some (generation, controller, revision) \<Rightarrow>
          (let ct' = ct\<lparr> ct_runtime_busy := False, ct_runtime_request := None \<rparr>;
               same = (generation = ct_generation ct \<and>
                       (case ct_profile ct of None \<Rightarrow> False | Some p \<Rightarrow> controller = pf_controller p \<and> revision = pf_revision p))
           in case answer of
                None \<Rightarrow> ct'\<lparr> ct_runtime := None \<rparr>
              | Some snap \<Rightarrow> if same then ct'\<lparr> ct_runtime := Some snap \<rparr> else ct'))"

definition confirmControlDiscard :: "bool \<Rightarrow> controls \<Rightarrow> bool" where
  "confirmControlDiscard confirmed ct \<longleftrightarrow> \<not> ct_dirty ct \<or> confirmed"

definition answered :: "request \<Rightarrow> controls \<Rightarrow> controls" where
  "answered r ct = ct\<lparr> ct_requests := remove1 r (ct_requests ct) \<rparr>"

datatype control_event =
    OpenTab
  | LaunchAnswer "string option option"
  | SchemaAnswer bool "string option"
  | SelectController string bool "string option"
  | Reload bool "string option"
  | ProfileAnswer string "profile option"
  | OpenEditor selection
  | CloseEditor
  | ChooseInput string
  | ChooseAction string
  | ShowSaved bool
  | ApplyAssignment
  | TypeValue string string "real option"
  | Undo bool
  | ResetDraft bool
  | Save bool
  | SaveAnswer string string settings "profile option"
  | Compare
  | RuntimeAnswer "snapshot option"
  | Invalidate "string option"

definition editable_controllers :: "string list" where
  "editable_controllers = [''uart'', ''dualshock'']"

fun control_step :: "control_event \<Rightarrow> controls \<Rightarrow> controls" where
  "control_step OpenTab ct =
     (if ct_busy ct then ct else (controlsSetBusy True ct)\<lparr> ct_requests := ct_requests ct @ [AskLaunch] \<rparr>)"
| "control_step (LaunchAnswer answer) ct =
     (if AskLaunch \<notin> set (ct_requests ct) then ct
      else let ct = answered AskLaunch ct;
               launch = coalesce answer None;
               chosen = (if answer \<noteq> None \<and> \<not> ct_opened ct
                         then (case launch of Some c \<Rightarrow> if c \<in> set editable_controllers then Some c else None | None \<Rightarrow> None)
                         else None)
           in ct\<lparr> ct_launch := launch, ct_choice := coalesce chosen (ct_choice ct),
                  ct_last_choice := coalesce chosen (ct_last_choice ct), ct_requests := ct_requests ct @ [AskSchema] \<rparr>)"
| "control_step (SchemaAnswer available latest) ct =
     (if AskSchema \<notin> set (ct_requests ct) then ct
      else let ct = controlsSetBusy False ((answered AskSchema ct)\<lparr> ct_available := available, ct_opened := True \<rparr>)
           in if ct_profile ct = None then loadControls latest (ct_choice ct) ct else ct)"
| "control_step (SelectController c confirmed latest) ct =
     (if ct_busy ct then ct
      else if \<not> confirmControlDiscard confirmed ct then ct\<lparr> ct_choice := ct_last_choice ct \<rparr>
      else loadControls latest c (ct\<lparr> ct_choice := c, ct_last_choice := c \<rparr>))"
| "control_step (Reload confirmed latest) ct =
     (if ct_busy ct \<or> \<not> confirmControlDiscard confirmed ct then ct else loadControls latest (ct_choice ct) ct)"
| "control_step (ProfileAnswer c answer) ct =
     (if AskProfile c \<notin> set (ct_requests ct) then ct else profile_loaded answer (answered (AskProfile c) ct))"
| "control_step (OpenEditor sel) ct = (if ct_busy ct then ct else renderMapEditor (ct\<lparr> ct_selection := Some sel \<rparr>))"
| "control_step CloseEditor ct = ct\<lparr> ct_selection := None \<rparr>"
| "control_step (ChooseInput i) ct =
     (case ct_selection ct of
        None \<Rightarrow> ct
      | Some sel \<Rightarrow>
          if ct_busy ct \<or> ct_saved_shown ct then ct
          else renderMapEditor (ct\<lparr> ct_selection := Some (sel\<lparr> se_inputId := Some i,
                 se_actionId := (if se_by_action sel then se_actionId sel else None) \<rparr>) \<rparr>))"
| "control_step (ChooseAction a) ct =
     (case ct_selection ct of
        None \<Rightarrow> ct
      | Some sel \<Rightarrow>
          if ct_busy ct \<or> ct_saved_shown ct \<or> se_by_action sel then ct
          else renderMapEditor (ct\<lparr> ct_selection := Some (sel\<lparr> se_actionId := Some a \<rparr>) \<rparr>))"
| "control_step (ShowSaved saved) ct = renderMapEditor (ct\<lparr> ct_saved_shown := saved \<rparr>)"
| "control_step ApplyAssignment ct = applyMapAssignment ct"
| "control_step (TypeValue node key entered) ct = updateValue node key entered ct"
| "control_step (Undo confirmed) ct = restorePreviousControls confirmed ct"
| "control_step (ResetDraft confirmed) ct = resetControls confirmed ct"
| "control_step (Save valid) ct = saveControls valid ct"
| "control_step (SaveAnswer c revision values answer) ct =
     (if AskSave c revision values \<notin> set (ct_requests ct) then ct
      else profile_saved answer (answered (AskSave c revision values) ct))"
| "control_step Compare ct = loadRuntimeValues ct"
| "control_step (RuntimeAnswer answer) ct = runtime_answered answer ct"
| "control_step (Invalidate latest) ct = invalidateControlRuntime latest ct"

section \<open>What every operation leaves alone\<close>

lemma renderMapEditor_frame [simp]:
  "ct_profile (renderMapEditor ct) = ct_profile ct" "ct_draft (renderMapEditor ct) = ct_draft ct"
  "ct_dirty (renderMapEditor ct) = ct_dirty ct" "ct_busy (renderMapEditor ct) = ct_busy ct"
  "ct_requests (renderMapEditor ct) = ct_requests ct" "ct_runtime (renderMapEditor ct) = ct_runtime ct"
  "ct_runtime_busy (renderMapEditor ct) = ct_runtime_busy ct" "ct_generation (renderMapEditor ct) = ct_generation ct"
  "ct_runtime_request (renderMapEditor ct) = ct_runtime_request ct"
  by (simp_all add: renderMapEditor_def split: option.splits)

lemma refresh_frame [simp]:
  "ct_profile (refreshControlChanges ct) = ct_profile ct" "ct_draft (refreshControlChanges ct) = ct_draft ct"
  "ct_busy (refreshControlChanges ct) = ct_busy ct"
  "ct_requests (refreshControlChanges ct) = ct_requests ct" "ct_runtime (refreshControlChanges ct) = ct_runtime ct"
  "ct_runtime_busy (refreshControlChanges ct) = ct_runtime_busy ct" "ct_generation (refreshControlChanges ct) = ct_generation ct"
  "ct_runtime_request (refreshControlChanges ct) = ct_runtime_request ct"
  by (simp_all add: refreshControlChanges_def split: option.splits)

lemma renderControls_frame [simp]:
  "ct_profile (renderControls ct) = ct_profile ct" "ct_draft (renderControls ct) = ct_draft ct"
  "ct_busy (renderControls ct) = ct_busy ct"
  "ct_requests (renderControls ct) = ct_requests ct" "ct_runtime (renderControls ct) = ct_runtime ct"
  "ct_runtime_busy (renderControls ct) = ct_runtime_busy ct" "ct_generation (renderControls ct) = ct_generation ct"
  "ct_runtime_request (renderControls ct) = ct_runtime_request ct"
  by (simp_all add: renderControls_def)

lemma refresh_dirty [simp]:
  "ct_dirty (refreshControlChanges ct) =
     (case (ct_profile ct, ct_draft ct) of (Some p, Some d) \<Rightarrow> changedCount (pf_values p) d > 0 | _ \<Rightarrow> ct_dirty ct)"
  "ct_dirty (renderControls ct) =
     (case (ct_profile ct, ct_draft ct) of (Some p, Some d) \<Rightarrow> changedCount (pf_values p) d > 0 | _ \<Rightarrow> ct_dirty ct)"
  by (simp_all add: renderControls_def refreshControlChanges_def split: option.splits)

lemma busy_frame [simp]:
  "ct_profile (controlsSetBusy b ct) = ct_profile ct" "ct_draft (controlsSetBusy b ct) = ct_draft ct"
  "ct_dirty (controlsSetBusy b ct) = ct_dirty ct" "ct_busy (controlsSetBusy b ct) = b"
  "ct_requests (controlsSetBusy b ct) = ct_requests ct" "ct_runtime (controlsSetBusy b ct) = ct_runtime ct"
  "ct_runtime_busy (controlsSetBusy b ct) = ct_runtime_busy ct" "ct_generation (controlsSetBusy b ct) = ct_generation ct"
  "ct_runtime_request (controlsSetBusy b ct) = ct_runtime_request ct"
  by (simp_all add: controlsSetBusy_def)

section \<open>The page stays consistent\<close>

text \<open>
  A draft exists with its profile and is marked as changed exactly when a setting differs; the page is busy
  exactly while it waits for one answer, and while it waits for a save the draft is still what was sent.
\<close>

definition draft_ok :: "profile option \<Rightarrow> settings option \<Rightarrow> bool \<Rightarrow> bool" where
  "draft_ok profile draft dirty \<longleftrightarrow>
     (case (profile, draft) of
        (Some p, Some d) \<Rightarrow> dirty \<longleftrightarrow> changedCount (pf_values p) d > 0
      | (None, None) \<Rightarrow> \<not> dirty
      | _ \<Rightarrow> False)"

definition request_ok :: "profile option \<Rightarrow> settings option \<Rightarrow> request \<Rightarrow> bool" where
  "request_ok profile draft r \<longleftrightarrow>
     (case r of
        AskSave c revision values \<Rightarrow>
          draft = Some values
          \<and> (case profile of Some p \<Rightarrow> pf_controller p = c \<and> pf_revision p = revision | None \<Rightarrow> False)
      | _ \<Rightarrow> True)"

definition waiting_ok :: "profile option \<Rightarrow> settings option \<Rightarrow> bool \<Rightarrow> request list \<Rightarrow> bool" where
  "waiting_ok profile draft busy requests \<longleftrightarrow>
     (if busy then \<exists>r. requests = [r] \<and> request_ok profile draft r else requests = [])"

definition runtime_ok :: "(nat \<times> string \<times> string) option \<Rightarrow> bool \<Rightarrow> nat \<Rightarrow> bool" where
  "runtime_ok request busy generation \<longleftrightarrow>
     (case request of None \<Rightarrow> \<not> busy | Some (asked, _, _) \<Rightarrow> busy \<and> asked \<le> generation)"

definition page_sound :: "controls \<Rightarrow> bool" where
  "page_sound ct \<longleftrightarrow>
     draft_ok (ct_profile ct) (ct_draft ct) (ct_dirty ct)
     \<and> waiting_ok (ct_profile ct) (ct_draft ct) (ct_busy ct) (ct_requests ct)
     \<and> runtime_ok (ct_runtime_request ct) (ct_runtime_busy ct) (ct_generation ct)"

lemma draft_ok_simps [simp]:
  "draft_ok (Some p) (Some d) dirty \<longleftrightarrow> dirty = (changedCount (pf_values p) d > 0)"
  "draft_ok None None dirty \<longleftrightarrow> \<not> dirty"
  by (simp_all add: draft_ok_def)

lemma waiting_ok_simps [simp]:
  "waiting_ok p d False rs \<longleftrightarrow> rs = []" "waiting_ok p d True [r] \<longleftrightarrow> request_ok p d r" "\<not> waiting_ok p d True []"
  by (simp_all add: waiting_ok_def)

lemma request_ok_simps [simp]:
  "request_ok p d AskLaunch" "request_ok p d AskSchema" "request_ok p d (AskProfile c)"
  "request_ok (Some q) (Some v) (AskSave (pf_controller q) (pf_revision q) v)"
  by (simp_all add: request_ok_def)

lemma runtime_ok_later: "runtime_ok r b g \<Longrightarrow> g \<le> g' \<Longrightarrow> runtime_ok r b g'"
  by (auto simp: runtime_ok_def split: option.splits)

lemma runtime_ok_Suc [simp]: "runtime_ok r b g \<Longrightarrow> runtime_ok r b (Suc g)"
  by (erule runtime_ok_later) simp

lemma idle_requests: "page_sound ct \<Longrightarrow> \<not> ct_busy ct \<Longrightarrow> ct_requests ct = []"
  by (simp add: page_sound_def)

lemma answered_none:
  assumes "page_sound ct" "r \<in> set (ct_requests ct)"
  shows "ct_requests ct = [r]" "ct_busy ct"
  using assms by (auto simp: page_sound_def waiting_ok_def split: if_splits)

lemma answered_frame [simp]:
  "ct_profile (answered r ct) = ct_profile ct" "ct_draft (answered r ct) = ct_draft ct" "ct_dirty (answered r ct) = ct_dirty ct"
  "ct_requests (answered r ct) = remove1 r (ct_requests ct)" "ct_runtime (answered r ct) = ct_runtime ct"
  "ct_runtime_busy (answered r ct) = ct_runtime_busy ct" "ct_generation (answered r ct) = ct_generation ct"
  "ct_runtime_request (answered r ct) = ct_runtime_request ct" "ct_busy (answered r ct) = ct_busy ct"
  by (simp_all add: answered_def)

lemma load_frame [simp]:
  "ct_profile (loadControls latest c ct) = ct_profile ct" "ct_draft (loadControls latest c ct) = ct_draft ct"
  "ct_dirty (loadControls latest c ct) = ct_dirty ct" "ct_busy (loadControls latest c ct)"
  "ct_requests (loadControls latest c ct) = ct_requests ct @ [AskProfile c]" "ct_runtime (loadControls latest c ct) = None"
  "ct_runtime_busy (loadControls latest c ct) = ct_runtime_busy ct"
  "ct_generation (loadControls latest c ct) = Suc (ct_generation ct)"
  "ct_runtime_request (loadControls latest c ct) = ct_runtime_request ct"
  by (simp_all add: loadControls_def Let_def invalidateControlRuntime_def)

lemma edit_sound:
  assumes "page_sound ct" "\<not> ct_busy ct" "ct_profile ct = Some p"
  shows "page_sound (refreshControlChanges (ct\<lparr> ct_draft := Some d \<rparr>))"
    and "page_sound (renderControls (ct\<lparr> ct_draft := Some d \<rparr>))"
  using assms by (auto simp: page_sound_def)

lemma loaded_sound:
  assumes "ct_requests ct = []" "runtime_ok (ct_runtime_request ct) (ct_runtime_busy ct) (ct_generation ct)"
  shows "page_sound (profile_loaded answer ct)"
  using assms unfolding page_sound_def profile_loaded_def by (simp split: option.split)

lemma saved_sound:
  assumes "ct_requests ct = []" "runtime_ok (ct_runtime_request ct) (ct_runtime_busy ct) (ct_generation ct)"
    "draft_ok (ct_profile ct) (ct_draft ct) (ct_dirty ct)"
  shows "page_sound (profile_saved answer ct)"
  using assms by (cases answer) (simp_all add: page_sound_def profile_saved_def)

lemma runtime_answered_frame [simp]:
  "ct_profile (runtime_answered a ct) = ct_profile ct" "ct_draft (runtime_answered a ct) = ct_draft ct"
  "ct_dirty (runtime_answered a ct) = ct_dirty ct" "ct_busy (runtime_answered a ct) = ct_busy ct"
  "ct_requests (runtime_answered a ct) = ct_requests ct" "ct_generation (runtime_answered a ct) = ct_generation ct"
  by (simp_all add: runtime_answered_def Let_def split: option.splits prod.splits)

lemma runtime_answered_ok:
  "runtime_ok (ct_runtime_request ct) (ct_runtime_busy ct) (ct_generation ct)
    \<Longrightarrow> runtime_ok (ct_runtime_request (runtime_answered a ct)) (ct_runtime_busy (runtime_answered a ct)) (ct_generation ct)"
  by (auto simp: runtime_answered_def Let_def runtime_ok_def split: option.splits prod.splits)

lemma control_step_sound:
  assumes "page_sound ct"
  shows "page_sound (control_step e ct)"
proof (cases e)
  case (LaunchAnswer answer)
  show ?thesis
  proof (cases "AskLaunch \<in> set (ct_requests ct)")
    case True
    then show ?thesis using assms answered_none [OF assms True] by (simp add: LaunchAnswer Let_def page_sound_def)
  qed (use assms LaunchAnswer in simp)
next
  case (SchemaAnswer available latest)
  show ?thesis
  proof (cases "AskSchema \<in> set (ct_requests ct)")
    case True
    then show ?thesis using assms answered_none [OF assms True]
      by (cases "ct_profile ct") (simp_all add: SchemaAnswer Let_def page_sound_def)
  qed (use assms SchemaAnswer in simp)
next
  case (ProfileAnswer c answer)
  show ?thesis
  proof (cases "AskProfile c \<in> set (ct_requests ct)")
    case True
    then show ?thesis using assms answered_none [OF assms True]
      by (simp add: ProfileAnswer) (intro loaded_sound, simp_all add: page_sound_def)
  qed (use assms ProfileAnswer in simp)
next
  case (SaveAnswer c revision sent answer)
  show ?thesis
  proof (cases "AskSave c revision sent \<in> set (ct_requests ct)")
    case True
    then show ?thesis using assms answered_none [OF assms True]
      by (simp add: SaveAnswer) (rule saved_sound, simp_all add: page_sound_def)
  qed (use assms SaveAnswer in simp)
next
  case (Save valid)
  then show ?thesis using assms idle_requests [OF assms]
    by (auto simp: saveControls_def Let_def page_sound_def split: option.splits)
next
  case Compare
  then show ?thesis using assms by (auto simp: loadRuntimeValues_def page_sound_def runtime_ok_def split: option.splits)
next
  case (RuntimeAnswer answer)
  then show ?thesis using assms runtime_answered_ok by (simp add: page_sound_def)
next
  case (Invalidate latest)
  then show ?thesis using assms by (simp add: invalidateControlRuntime_def page_sound_def)
next
  case ApplyAssignment
  then show ?thesis using assms edit_sound [OF assms]
    by (auto simp: applyMapAssignment_def split: option.splits sum.splits)
next
  case (TypeValue node key entered)
  then show ?thesis using assms edit_sound [OF assms] by (auto simp: updateValue_def Let_def split: option.splits)
next
  case (Undo confirmed)
  then show ?thesis using assms edit_sound [OF assms] by (auto simp: restorePreviousControls_def split: option.splits)
next
  case (ResetDraft confirmed)
  then show ?thesis using assms edit_sound [OF assms] by (auto simp: resetControls_def split: option.splits)
next
  case (SelectController c confirmed latest)
  then show ?thesis using assms idle_requests [OF assms] by (cases "ct_busy ct") (simp_all add: page_sound_def)
next
  case (Reload confirmed latest)
  then show ?thesis using assms idle_requests [OF assms] by (cases "ct_busy ct") (simp_all add: page_sound_def)
next
  case OpenTab
  then show ?thesis using assms idle_requests [OF assms] by (cases "ct_busy ct") (simp_all add: page_sound_def)
next
  case (OpenEditor sel)
  then show ?thesis using assms by (cases "ct_busy ct") (simp_all add: page_sound_def)
next
  case CloseEditor
  then show ?thesis using assms by (simp add: page_sound_def)
next
  case (ChooseInput i)
  then show ?thesis using assms by (cases "ct_busy ct") (simp_all add: page_sound_def split: option.split)
next
  case (ChooseAction a)
  then show ?thesis using assms by (cases "ct_busy ct") (simp_all add: page_sound_def split: option.split)
next
  case (ShowSaved saved)
  then show ?thesis using assms by (simp add: page_sound_def)
qed

lemma initial_page_sound: "page_sound (initial_controls choice)"
  by (simp add: page_sound_def runtime_ok_def initial_controls_def)

interpretation controls_page: event_machine control_step page_sound
  by unfold_locales (rule control_step_sound)

text \<open>
  Whatever the operator does and whatever the server answers, in whatever order, the settings page stays
  consistent: it has a draft exactly when it has a profile and calls it changed exactly when a setting differs
  from the saved one; it is busy exactly while one answer is outstanding; and while a save is outstanding the
  draft is still, setting by setting, the one that was sent, so no edit is overwritten by the answer.
\<close>

theorem controls_always_sound: "page_sound (fold control_step events (initial_controls choice))"
  by (rule controls_page.run_inv [OF initial_page_sound])

section \<open>No old answer after an invalidation\<close>

definition nothing_known :: "controls \<Rightarrow> bool" where
  "nothing_known ct \<longleftrightarrow>
     ct_runtime ct = None
     \<and> (case ct_runtime_request ct of None \<Rightarrow> True | Some (generation, _, _) \<Rightarrow> generation < ct_generation ct)"

lemma nothing_known_frame:
  "nothing_known ct \<Longrightarrow> ct_runtime ct' = None \<Longrightarrow> ct_runtime_request ct' = ct_runtime_request ct
    \<Longrightarrow> ct_generation ct \<le> ct_generation ct' \<Longrightarrow> nothing_known ct'"
  by (auto simp: nothing_known_def split: option.splits)

lemma step_keeps_runtime:
  assumes "ct_runtime ct = None" "e \<noteq> Compare" "\<And>a. e \<noteq> RuntimeAnswer a"
  shows "ct_runtime (control_step e ct) = None"
    and "ct_runtime_request (control_step e ct) = ct_runtime_request ct"
    and "ct_generation ct \<le> ct_generation (control_step e ct)"
  using assms by (cases e; force simp: Let_def answered_def loadControls_def invalidateControlRuntime_def profile_loaded_def
      profile_saved_def applyMapAssignment_def updateValue_def restorePreviousControls_def resetControls_def saveControls_def
      split: option.splits sum.splits)+

lemma nothing_known_step: "nothing_known ct \<Longrightarrow> e \<noteq> Compare \<Longrightarrow> nothing_known (control_step e ct)"
proof (cases "\<exists>a. e = RuntimeAnswer a")
  case True
  moreover assume "nothing_known ct"
  ultimately show ?thesis
    by (auto simp: nothing_known_def runtime_answered_def Let_def split: option.splits prod.splits)
next
  case False
  assume "nothing_known ct" "e \<noteq> Compare"
  then show ?thesis using False step_keeps_runtime [of ct e] nothing_known_frame by (simp add: nothing_known_def)
qed

interpretation controls_unknown: dormant_machine control_step nothing_known "\<lambda>e. e = Compare"
  by unfold_locales (rule nothing_known_step)

text \<open>
  Values of the running robot that were asked for before the robot was started, stopped or reconfigured are
  never shown after it: from such an event on, the page knows no running value until the operator compares
  again, even when the answer of an earlier comparison arrives late.
\<close>

theorem no_stale_runtime:
  "ct_runtime (fold control_step (filter (\<lambda>e. e \<noteq> Compare) later)
     (control_step (Invalidate latest) (fold control_step earlier (initial_controls choice)))) = None"
proof -
  let ?ct = "fold control_step earlier (initial_controls choice)"
  have "runtime_ok (ct_runtime_request ?ct) (ct_runtime_busy ?ct) (ct_generation ?ct)"
    using controls_page.run_inv [OF initial_page_sound] by (simp add: page_sound_def)
  then have "nothing_known (control_step (Invalidate latest) ?ct)"
    by (auto simp: nothing_known_def invalidateControlRuntime_def runtime_ok_def split: option.splits)
  then have "nothing_known (fold control_step (filter (\<lambda>e. e \<noteq> Compare) later) (control_step (Invalidate latest) ?ct))"
    by (rule controls_unknown.run_dormant) (simp add: list_all_iff)
  then show ?thesis by (simp add: nothing_known_def)
qed

section \<open>What is typed is what is shown\<close>

lemma scale_positive: "tuningSpec p node key = Some spec \<Longrightarrow> tu_scale spec > 0"
  by (auto simp: tuningSpec_def tuningFields_def plain_tuning_def positive_def Let_def split: if_splits option.splits)

lemma to_fixed_hundredths: "to_fixed 2 (real n / 100) = real n / 100"
  by (cases "n = 0") (simp_all add: to_fixed_def floor_unique)

lemma shown_amount_hundredths:
  assumes "(if tu_signed spec then \<bar>x\<bar> else x) * tu_scale spec = real n / 100"
  shows "shown_amount spec x = real n / 100"
  unfolding shown_amount_def Let_def assms to_fixed_hundredths by simp

lemma direction_cases: "tuningDirection shown saved = 1 \<or> tuningDirection shown saved = - 1"
  by (simp add: tuningDirection_def Let_def)

lemma direction_agrees: "to_number (Some shown) = Some x \<Longrightarrow> 0 \<le> tuningDirection shown saved * x"
  by (cases shown) (auto simp: tuningDirection_def Let_def to_number_def)

lemma most_shown:
  assumes "d = 1 \<or> tu_signed spec \<and> d = - 1"
  shows "tuningNumber spec (Num (most * d)) = tuningNumber spec (Num most)"
  using assms by (auto simp: tuningNumber_def to_number_def shown_amount_def)

text \<open>
  A field of the settings page writes what the operator typed: after typing an amount of at most two
  decimals, the field of the new value shows that amount; a speed keeps the direction it had, so an inverted
  axis stays inverted; and typing the amount already shown keeps the exact stored value, not its rounding.
\<close>

theorem typed_amount_kept:
  "case tuningSpec p node key of
     None \<Rightarrow> True
   | Some spec \<Rightarrow>
       (let d = (if tu_signed spec then tuningDirection shown saved else 1);
            v = entered_value spec most shown d (Some (real n / 100))
        in tuningNumber spec v = Some (real n / 100)
           \<and> entered_value spec most shown d (tuningNumber spec shown) = shown
           \<and> (if tu_signed spec \<and> most \<ge> 0 then 0 \<le> d * coalesce (to_number (Some v)) 0 else True))"
proof (cases "tuningSpec p node key")
  case None
  then show ?thesis by simp
next
  case (Some spec)
  define d where "d = (if tu_signed spec then tuningDirection shown saved else 1)"
  have d: "d = 1 \<or> tu_signed spec \<and> d = - 1" using direction_cases by (auto simp: d_def)
  have scale: "tu_scale spec > 0" by (rule scale_positive [OF Some])
  have typed: "tuningNumber spec (Num (real n / 100 / tu_scale spec * d)) = Some (real n / 100)"
  proof -
    have "shown_amount spec (real n / 100 / tu_scale spec * d) = real n / 100"
      using d scale by (intro shown_amount_hundredths) (auto simp: field_simps)
    then show ?thesis by (simp add: tuningNumber_def to_number_def)
  qed
  have same: "tuningNumber spec (entered_value spec most shown d (Some (real n / 100))) = Some (real n / 100)"
    using most_shown [OF d] typed by (simp add: entered_value_def)
  have kept: "entered_value spec most shown d (tuningNumber spec shown) = shown"
    by (cases "tuningNumber spec shown") (auto simp: entered_value_def tuningNumber_def to_number_def split: if_splits cval.splits)
  have sign: "0 \<le> d * coalesce (to_number (Some (entered_value spec most shown d (Some (real n / 100))))) 0"
    if "tu_signed spec" "most \<ge> 0"
  proof (cases "tuningNumber spec shown = Some (real n / 100)")
    case True
    then obtain x where "to_number (Some shown) = Some x" by (auto simp: tuningNumber_def split: if_splits)
    then show ?thesis using True direction_agrees that(1) by (simp add: entered_value_def d_def)
  next
    case False
    then show ?thesis using d that(2) scale by (auto simp: entered_value_def to_number_def)
  qed
  show ?thesis using same kept sign by (simp add: Some Let_def d_def [symmetric])
qed

end
