(* ===== verification/Control_Core.thy ===== *)
theory Control_Core
  imports Js_Text
begin

text \<open>
  The feedback-control course, \<open>lab/js/control/core.js\<close>: the settings of an experiment, the PID step, the
  simulated experiment of a topic and the numbers read off its samples. The topics (mode and first settings)
  are those of \<open>content/control/topics.json\<close>; their sentences are left out.
\<close>

section \<open>Topics and settings\<close>

datatype control_mode = SpeedMode | DistanceMode

record control_config =
  cf_kp :: real
  cf_ki :: real
  cf_kd :: real
  cf_filter :: real
  cf_power :: real
  cf_targetRPM :: real
  cf_ffGain :: real
  cf_feedback :: bool
  cf_antiWindup :: bool
  cf_scenario :: string
  cf_loadCase :: string
  cf_strategy :: string
  cf_profile :: string

record control_topic =
  to_id :: string
  to_mode :: control_mode
  to_defaults :: "control_config \<Rightarrow> control_config"

definition DURATION :: real where "DURATION = 16"
definition SIM_STEP :: real where "SIM_STEP = 1 / 100"
definition CONTROL_PERIOD :: real where "CONTROL_PERIOD = 1 / 20"
definition WHEEL_RADIUS :: real where "WHEEL_RADIUS = 65 / 1000"
definition FULL_SPEED_RPM :: real where "FULL_SPEED_RPM = 80"
definition MAX_SPEED :: real where "MAX_SPEED = 2 * pi * WHEEL_RADIUS * FULL_SPEED_RPM / 60"
definition START_DISTANCE :: real where "START_DISTANCE = 16 / 10"
definition STOP_DISTANCE :: real where "STOP_DISTANCE = 1 / 2"
definition COLLISION_DISTANCE :: real where "COLLISION_DISTANCE = 12 / 100"
definition RAMP_SECONDS :: real where "RAMP_SECONDS = 3"
definition DRAG_START :: real where "DRAG_START = 5"
definition BLOCK_FROM :: real where "BLOCK_FROM = 3"
definition BLOCK_TO :: real where "BLOCK_TO = 7"
definition TAIL_SECONDS :: real where "TAIL_SECONDS = 2"
definition SETTLING_LIMIT :: real where "SETTLING_LIMIT = 10"
definition MAX_OVERSHOOT :: real where "MAX_OVERSHOOT = 1 / 10"
definition MAX_FINAL_ERROR :: real where "MAX_FINAL_ERROR = 5 / 100"

definition SCENARIOS :: "string list" where "SCENARIOS = [''standard'', ''heavy'', ''noisy'']"
definition LOAD_CASES :: "string list" where "LOAD_CASES = [''nominal'', ''drag'', ''mismatch'']"
definition STRATEGIES :: "string list" where "STRATEGIES = [''feedforward'', ''feedback'', ''both'']"
definition PROFILES :: "string list" where "PROFILES = [''step'', ''ramp'']"

definition CONTROL_TOPICS :: "control_topic list" where
  "CONTROL_TOPICS =
     [\<lparr> to_id = ''output'', to_mode = SpeedMode, to_defaults = (\<lambda>c. c\<lparr> cf_power := 30, cf_loadCase := ''nominal'' \<rparr>) \<rparr>,
      \<lparr> to_id = ''feedforward'', to_mode = SpeedMode, to_defaults = (\<lambda>c. c\<lparr> cf_loadCase := ''nominal'' \<rparr>) \<rparr>,
      \<lparr> to_id = ''feedback'', to_mode = SpeedMode,
         to_defaults = (\<lambda>c. c\<lparr> cf_feedback := False, cf_kp := 12 / 10, cf_ki := 3, cf_kd := 0, cf_power := 60 \<rparr>) \<rparr>,
      \<lparr> to_id = ''combined'', to_mode = SpeedMode,
         to_defaults = (\<lambda>c. c\<lparr> cf_strategy := ''feedforward'', cf_kp := 12 / 10, cf_ki := 12 / 10 \<rparr>) \<rparr>,
      \<lparr> to_id = ''p'', to_mode = SpeedMode, to_defaults = (\<lambda>c. c\<lparr> cf_kp := 12 / 10, cf_ki := 0, cf_kd := 0 \<rparr>) \<rparr>,
      \<lparr> to_id = ''i'', to_mode = SpeedMode, to_defaults = (\<lambda>c. c\<lparr> cf_kp := 12 / 10, cf_ki := 0, cf_kd := 0 \<rparr>) \<rparr>,
      \<lparr> to_id = ''d'', to_mode = DistanceMode, to_defaults = (\<lambda>c. c\<lparr> cf_kp := 22 / 10, cf_ki := 0, cf_kd := 0 \<rparr>) \<rparr>,
      \<lparr> to_id = ''reference'', to_mode = SpeedMode,
         to_defaults = (\<lambda>c. c\<lparr> cf_profile := ''step'', cf_loadCase := ''nominal'', cf_kp := 12 / 10, cf_ki := 12 / 10 \<rparr>) \<rparr>,
      \<lparr> to_id = ''limits'', to_mode = SpeedMode,
         to_defaults = (\<lambda>c. c\<lparr> cf_kp := 12 / 10, cf_ki := 3, cf_kd := 0, cf_antiWindup := False \<rparr>) \<rparr>,
      \<lparr> to_id = ''noise'', to_mode = DistanceMode,
         to_defaults = (\<lambda>c. c\<lparr> cf_kp := 22 / 10, cf_ki := 0, cf_kd := 1, cf_filter := 0 \<rparr>) \<rparr>,
      \<lparr> to_id = ''challenge'', to_mode = DistanceMode, to_defaults = (\<lambda>c. c\<lparr> cf_kp := 22 / 10, cf_ki := 0, cf_kd := 0 \<rparr>) \<rparr>]"

definition findTopic :: "string \<Rightarrow> control_topic option" where
  "findTopic tid = find (\<lambda>t. to_id t = tid) CONTROL_TOPICS"

definition BASE_DEFAULTS :: control_config where
  "BASE_DEFAULTS =
     \<lparr> cf_kp = 12 / 10, cf_ki = 0, cf_kd = 0, cf_filter = 12 / 100, cf_power = 60, cf_targetRPM = 60, cf_ffGain = 1,
       cf_feedback = True, cf_antiWindup = True, cf_scenario = ''standard'', cf_loadCase = ''drag'', cf_strategy = ''both'',
       cf_profile = ''step'' \<rparr>"

datatype control_error = UnknownLesson | NotNumbers | UnknownScenario | UnknownCondition

definition controlDefaults :: "string \<Rightarrow> control_error + control_config" where
  "controlDefaults tid = (case findTopic tid of None \<Rightarrow> Inl UnknownLesson | Some t \<Rightarrow> Inr (to_defaults t BASE_DEFAULTS))"

text \<open>
  A value handed over as a setting: what \<open>Number(value)\<close> gives (\<open>None\<close> when that is not finite), whether it
  counts as true, and the text it is. A key that is not handed over has none and keeps its default.
\<close>

record raw_setting =
  rs_number :: num
  rs_true :: bool
  rs_text :: string

type_synonym raw_config = "string \<Rightarrow> raw_setting option"

definition clamp :: "real \<Rightarrow> real \<Rightarrow> real \<Rightarrow> real" where
  "clamp value low high = max low (min high value)"

text \<open>One numeric setting: the raw value or the default, within its range; \<open>None\<close> when it is not a number.\<close>

definition numeric_setting :: "raw_config \<Rightarrow> string \<Rightarrow> real \<Rightarrow> real \<Rightarrow> real \<Rightarrow> num" where
  "numeric_setting input key low high preset =
     (case input key of
        None \<Rightarrow> Some (clamp preset low high)
      | Some raw \<Rightarrow> map_option (\<lambda>x. clamp x low high) (rs_number raw))"

definition truth_setting :: "raw_config \<Rightarrow> string \<Rightarrow> bool \<Rightarrow> bool" where
  "truth_setting input key preset = (case input key of None \<Rightarrow> preset | Some raw \<Rightarrow> rs_true raw)"

definition text_setting :: "raw_config \<Rightarrow> string \<Rightarrow> string \<Rightarrow> string" where
  "text_setting input key preset = (case input key of None \<Rightarrow> preset | Some raw \<Rightarrow> rs_text raw)"

definition numeric_settings :: "raw_config \<Rightarrow> control_config \<Rightarrow> control_config option" where
  "numeric_settings input d =
     Option.bind (numeric_setting input ''kp'' 0 8 (cf_kp d)) (\<lambda>kp.
     Option.bind (numeric_setting input ''ki'' 0 6 (cf_ki d)) (\<lambda>ki.
     Option.bind (numeric_setting input ''kd'' 0 3 (cf_kd d)) (\<lambda>kd.
     Option.bind (numeric_setting input ''filter'' 0 (6 / 10) (cf_filter d)) (\<lambda>flt.
     Option.bind (numeric_setting input ''power'' 0 100 (cf_power d)) (\<lambda>pw.
     Option.bind (numeric_setting input ''targetRPM'' 20 80 (cf_targetRPM d)) (\<lambda>targetRPM.
     Option.bind (numeric_setting input ''ffGain'' 0 2 (cf_ffGain d)) (\<lambda>ffGain.
       Some (d\<lparr> cf_kp := kp, cf_ki := ki, cf_kd := kd, cf_filter := flt, cf_power := pw,
                cf_targetRPM := targetRPM, cf_ffGain := ffGain \<rparr>))))))))"

definition normalizeControlConfig :: "string \<Rightarrow> raw_config \<Rightarrow> control_error + control_config" where
  "normalizeControlConfig tid input =
     (case controlDefaults tid of
        Inl e \<Rightarrow> Inl e
      | Inr d \<Rightarrow>
          (case numeric_settings input d of
             None \<Rightarrow> Inl NotNumbers
           | Some c \<Rightarrow>
               let c = c\<lparr> cf_feedback := truth_setting input ''feedback'' (cf_feedback d),
                          cf_antiWindup := truth_setting input ''antiWindup'' (cf_antiWindup d),
                          cf_scenario := text_setting input ''scenario'' (cf_scenario d),
                          cf_loadCase := text_setting input ''loadCase'' (cf_loadCase d),
                          cf_strategy := text_setting input ''strategy'' (cf_strategy d),
                          cf_profile := text_setting input ''profile'' (cf_profile d) \<rparr>
               in if cf_scenario c \<notin> set SCENARIOS then Inl UnknownScenario
                  else if cf_loadCase c \<notin> set LOAD_CASES \<or> cf_strategy c \<notin> set STRATEGIES \<or> cf_profile c \<notin> set PROFILES
                  then Inl UnknownCondition
                  else Inr c))"

section \<open>The PID step\<close>

record pid_state =
  pi_previous :: "real option"
  pi_derivative :: real
  pi_integral :: real

definition NO_PID :: pid_state where
  "NO_PID = \<lparr> pi_previous = None, pi_derivative = 0, pi_integral = 0 \<rparr>"

record pid_args =
  pa_error :: real
  pa_measurement :: real
  pa_kp :: real
  pa_ki :: real
  pa_kd :: real
  pa_dt :: real
  pa_filter :: real
  pa_antiWindup :: bool
  pa_limit :: real
  pa_feedforward :: real

record pid_parts =
  pp_p :: real
  pp_i :: real
  pp_d :: real
  pp_command :: real

definition pidStep :: "pid_state \<Rightarrow> pid_args \<Rightarrow> pid_state \<times> pid_parts" where
  "pidStep state a =
     (let slope = (case pi_previous state of None \<Rightarrow> 0 | Some previous \<Rightarrow> (pa_measurement a - previous) / pa_dt a);
          alpha = (if pa_filter a > 0 then pa_dt a / (pa_filter a + pa_dt a) else 1);
          derivative = pi_derivative state + alpha * (slope - pi_derivative state);
          p = pa_kp a * pa_error a;
          d = - pa_kd a * derivative;
          grown = pi_integral state + pa_ki a * pa_error a * pa_dt a;
          raw = pa_feedforward a + p + grown + d;
          integral = (if pa_antiWindup a \<and> (raw > pa_limit a \<and> pa_error a > 0 \<or> raw < - pa_limit a \<and> pa_error a < 0)
                      then pi_integral state else grown)
      in (\<lparr> pi_previous = Some (pa_measurement a), pi_derivative = derivative, pi_integral = integral \<rparr>,
          \<lparr> pp_p = p, pp_i = integral, pp_d = d,
            pp_command = clamp (pa_feedforward a + p + integral + d) (- pa_limit a) (pa_limit a) \<rparr>))"

datatype concept_kind = ConceptP | ConceptI | ConceptD

record concept_result =
  co_error :: real
  co_correction :: real
  co_command :: real

definition controlConceptStep :: "concept_kind \<Rightarrow> real \<Rightarrow> real \<Rightarrow> concept_result" where
  "controlConceptStep kind measured accumulated =
     (let distance = (kind = ConceptD);
          parts = snd (pidStep
            \<lparr> pi_previous = Some (if distance then - 1 else measured / 100), pi_derivative = 0, pi_integral = accumulated / 100 \<rparr>
            \<lparr> pa_error = (if distance then 0 else (60 - measured) / 100),
              pa_measurement = (if distance then - measured else measured / 100),
              pa_kp = (if kind = ConceptP then 12 / 10 else 0), pa_ki = (if kind = ConceptI then 1 else 0),
              pa_kd = (if kind = ConceptD then 1 else 0), pa_dt = 1, pa_filter = 0, pa_antiWindup = False,
              pa_limit = 1, pa_feedforward = 0 \<rparr>)
      in \<lparr> co_error = (if distance then measured - 1 else 60 - measured),
           co_correction = (case kind of ConceptP \<Rightarrow> pp_p parts | ConceptI \<Rightarrow> pp_i parts | ConceptD \<Rightarrow> pp_d parts) * 100,
           co_command = pp_command parts * 100 \<rparr>)"

definition controlMethod :: "string \<Rightarrow> control_config \<Rightarrow> string" where
  "controlMethod tid config =
     (if tid = ''output'' \<or> tid = ''feedback'' \<and> \<not> cf_feedback config then ''fixed''
      else if tid = ''feedforward'' then ''feedforward''
      else if tid = ''combined'' then cf_strategy config
      else if tid = ''reference'' then ''both''
      else ''feedback'')"

definition controlLoad :: "string \<Rightarrow> control_config \<Rightarrow> string" where
  "controlLoad tid config =
     (if tid = ''output'' \<or> tid = ''reference'' then ''nominal''
      else if tid = ''feedforward'' \<or> tid = ''combined'' then cf_loadCase config
      else ''drag'')"

definition noiseAt :: "real \<Rightarrow> real" where
  "noiseAt time = sin (time * 71) * (6 / 10) + sin (time * 113 + 7 / 10) * (4 / 10)"

section \<open>The experiment\<close>

record sample =
  sm_time :: real
  sm_target :: real
  sm_ff :: real
  sm_correction :: real
  sm_measured :: real
  sm_actual :: real
  sm_command :: real
  sm_rpm :: real
  sm_p :: real
  sm_i :: real
  sm_d :: real
  sm_blocked :: bool
  sm_collision :: bool

text \<open>What a run is about, and the variables of its loop.\<close>

record trial =
  su_id :: string
  su_config :: control_config
  su_distance :: bool
  su_target :: real
  su_method :: string
  su_loadCase :: string
  su_noisy :: bool

record run_state =
  rn_value :: real
  rn_velocity :: real
  rn_drive :: real
  rn_command :: real
  rn_measurement :: real
  rn_parts :: pid_parts
  rn_collision :: bool
  rn_delayed :: real
  rn_prior :: real
  rn_pid :: pid_state
  rn_samples :: "sample list"

definition NO_PARTS :: pid_parts where
  "NO_PARTS = \<lparr> pp_p = 0, pp_i = 0, pp_d = 0, pp_command = 0 \<rparr>"

definition run_start :: "bool \<Rightarrow> run_state" where
  "run_start distance =
     (let value = (if distance then START_DISTANCE else 0)
      in \<lparr> rn_value = value, rn_velocity = 0, rn_drive = 0, rn_command = 0, rn_measurement = value, rn_parts = NO_PARTS,
           rn_collision = False, rn_delayed = value, rn_prior = value, rn_pid = NO_PID, rn_samples = [] \<rparr>)"

definition time_of :: "nat \<Rightarrow> real" where
  "time_of n = real n * SIM_STEP"

definition reference_at :: "trial \<Rightarrow> real \<Rightarrow> real" where
  "reference_at su time =
     (if su_id su = ''reference'' \<and> cf_profile (su_config su) = ''ramp'' then su_target su * min 1 (time / RAMP_SECONDS)
      else su_target su)"

definition blocked_at :: "trial \<Rightarrow> real \<Rightarrow> bool" where
  "blocked_at su time \<longleftrightarrow> su_id su = ''limits'' \<and> time \<ge> BLOCK_FROM \<and> time < BLOCK_TO"

definition feedforward_of :: "trial \<Rightarrow> real \<Rightarrow> real" where
  "feedforward_of su reference =
     (if su_method su = ''feedforward'' \<or> su_method su = ''both'' then cf_ffGain (su_config su) * reference / 100 else 0)"

text \<open>The decision of one control period: the new memory of the controller, its parts and its command.\<close>

definition decide :: "trial \<Rightarrow> real \<Rightarrow> real \<Rightarrow> pid_state \<Rightarrow> pid_state \<times> pid_parts \<times> real" where
  "decide su reference measurement pid =
     (let c = su_config su; ff = feedforward_of su reference
      in if su_method su = ''fixed'' then (pid, NO_PARTS, cf_power c / 100)
         else if su_method su = ''feedforward'' then (pid, NO_PARTS, clamp ff (- 1) 1)
         else case pidStep pid
                \<lparr> pa_error = (if su_distance su then measurement - reference else (reference - measurement) / 100),
                  pa_measurement = (if su_distance su then - measurement else measurement / 100),
                  pa_kp = cf_kp c, pa_ki = cf_ki c, pa_kd = cf_kd c, pa_dt = CONTROL_PERIOD, pa_filter = cf_filter c,
                  pa_antiWindup = cf_antiWindup c, pa_limit = 1, pa_feedforward = ff \<rparr> of
              (pid', parts) \<Rightarrow> (pid', parts, pp_command parts))"

definition control_tick :: "trial \<Rightarrow> nat \<Rightarrow> run_state \<Rightarrow> run_state" where
  "control_tick su n s =
     (let time = time_of n;
          reference = reference_at su time;
          measurement = rn_delayed s + (if su_noisy su then noiseAt time * (if su_distance su then 12 / 1000 else 12 / 10) else 0)
      in case decide su reference measurement (rn_pid s) of (pid, parts, decided) \<Rightarrow>
           let command = (if rn_collision s then 0 else decided);
               sample = \<lparr> sm_time = time, sm_target = reference, sm_ff = feedforward_of su reference * 100,
                          sm_correction = (pp_p parts + pp_i parts + pp_d parts) * 100, sm_measured = measurement,
                          sm_actual = rn_value s, sm_command = command * 100,
                          sm_rpm = (if su_distance su then rn_velocity s / MAX_SPEED * FULL_SPEED_RPM else rn_value s),
                          sm_p = pp_p parts * 100, sm_i = pp_i parts * 100, sm_d = pp_d parts * 100,
                          sm_blocked = blocked_at su time, sm_collision = rn_collision s \<rparr>
           in s\<lparr> rn_measurement := measurement, rn_delayed := rn_prior s, rn_prior := rn_value s, rn_pid := pid,
                 rn_parts := parts, rn_command := command, rn_samples := rn_samples s @ [sample] \<rparr>)"

definition move_robot :: "trial \<Rightarrow> run_state \<Rightarrow> run_state" where
  "move_robot su s =
     (let lag = (if cf_scenario (su_config su) = ''heavy'' \<and> su_id su = ''challenge'' then 105 / 100 else 7 / 10);
          velocity = rn_velocity s + (MAX_SPEED * rn_command s - rn_velocity s) * SIM_STEP / lag;
          value = rn_value s - velocity * SIM_STEP
      in if value \<le> COLLISION_DISTANCE
         then s\<lparr> rn_value := COLLISION_DISTANCE, rn_velocity := 0, rn_collision := True \<rparr>
         else s\<lparr> rn_value := value, rn_velocity := velocity \<rparr>)"

definition load_at :: "trial \<Rightarrow> real \<Rightarrow> real" where
  "load_at su time = (if su_id su = ''limits'' \<or> su_loadCase su \<noteq> ''drag'' then 0 else if time \<ge> DRAG_START then 15 else 0)"

definition turn_wheel :: "trial \<Rightarrow> nat \<Rightarrow> run_state \<Rightarrow> run_state" where
  "turn_wheel su n s =
     (let time = time_of n;
          drive = rn_drive s + (rn_command s - rn_drive s) * SIM_STEP / (12 / 100);
          gain = (if su_loadCase su = ''mismatch'' then 80 else 100);
          value = rn_value s + (gain * drive - rn_value s - load_at su time * tanh (rn_value s / 2)) * SIM_STEP / (35 / 100);
          value = (if blocked_at su time then 0 else value)
      in s\<lparr> rn_drive := drive, rn_value := value, rn_velocity := value \<rparr>)"

definition physics_tick :: "trial \<Rightarrow> nat \<Rightarrow> run_state \<Rightarrow> run_state" where
  "physics_tick su n s = (if su_distance su then move_robot su s else turn_wheel su n s)"

definition measured_tick :: "trial \<Rightarrow> nat \<Rightarrow> run_state \<Rightarrow> run_state" where
  "measured_tick su n s = (if n mod 5 = 0 then control_tick su n s else s)"

definition sim_tick :: "trial \<Rightarrow> nat \<Rightarrow> run_state \<Rightarrow> run_state" where
  "sim_tick su n s = physics_tick su n (measured_tick su n s)"

definition STEPS :: nat where "STEPS = 1600"

text \<open>The last step only measures.\<close>

definition run_loop :: "trial \<Rightarrow> run_state" where
  "run_loop su = measured_tick su STEPS (fold (sim_tick su) [0..<STEPS] (run_start (su_distance su)))"

definition trial_of :: "control_topic \<Rightarrow> control_config \<Rightarrow> trial" where
  "trial_of t config =
     (let tid = to_id t; distance = (to_mode t = DistanceMode)
      in \<lparr> su_id = tid, su_config = config, su_distance = distance,
           su_target = (if distance then STOP_DISTANCE else cf_targetRPM config),
           su_method = controlMethod tid config, su_loadCase = controlLoad tid config,
           su_noisy = (tid = ''noise'' \<or> tid = ''challenge'' \<and> cf_scenario config = ''noisy'') \<rparr>)"

section \<open>What is read off a run\<close>

text \<open>
  The loop runs backwards: the samples are handed over last first, with the time found so far. A sample
  outside the band (or before \<open>after\<close>) ends it.
\<close>

definition in_band :: "real \<Rightarrow> bool \<Rightarrow> real \<Rightarrow> real \<Rightarrow> sample \<Rightarrow> bool" where
  "in_band target distance after tolerance sm \<longleftrightarrow>
     \<not> (sm_time sm < after \<or> \<bar>sm_actual sm - target\<bar> > tolerance \<or> distance \<and> \<bar>sm_rpm sm\<bar> > 3)"

fun settling_back :: "(sample \<Rightarrow> bool) \<Rightarrow> real \<Rightarrow> sample list \<Rightarrow> real option \<Rightarrow> real option" where
  "settling_back ok after [] settling = settling"
| "settling_back ok after (sm # earlier) settling =
     (if \<not> ok sm then settling else settling_back ok after earlier (Some (sm_time sm - after)))"

definition settlingTime :: "sample list \<Rightarrow> real \<Rightarrow> bool \<Rightarrow> real \<Rightarrow> real \<Rightarrow> real \<Rightarrow> real option" where
  "settlingTime samples target distance after tolerance duration =
     (case settling_back (in_band target distance after tolerance) after (rev samples) None of
        None \<Rightarrow> None
      | Some settling \<Rightarrow> if duration - after - settling < 1 then None else Some settling)"

definition mean_of :: "real list \<Rightarrow> real" where
  "mean_of values = sum_list values / max 1 (real (length values))"

record control_metrics =
  cm_finalError :: real
  cm_overshoot :: real
  cm_settling :: "real option"
  cm_chatter :: real
  cm_passed :: bool
  cm_after :: real
  cm_tolerance :: real
  cm_peakAcceleration :: real

record control_result =
  cr_id :: string
  cr_mode :: control_mode
  cr_config :: control_config
  cr_target :: real
  cr_method :: string
  cr_loadCase :: string
  cr_samples :: "sample list"
  cr_duration :: real
  cr_collision :: bool

text \<open>\<open>Math.max\<close> of a list that is not empty.\<close>

definition largest :: "real list \<Rightarrow> real" where
  "largest values = foldl max (hd values) (tl values)"

definition controlMetrics :: "control_result \<Rightarrow> control_metrics" where
  "controlMetrics result =
     (let samples = cr_samples result; target = cr_target result; duration = cr_duration result;
          distance = (cr_mode result = DistanceMode);
          after = (if distance \<or> cr_loadCase result \<noteq> ''drag'' then 0 else if cr_id result = ''limits'' then 7 else 5);
          tolerance = (if distance then 5 / 100 else 3);
          tail = filter (\<lambda>sm. sm_time sm \<ge> duration - TAIL_SECONDS) samples;
          finalError = mean_of (map (\<lambda>sm. \<bar>sm_actual sm - target\<bar>) tail);
          overshoot = foldl max 0 (map (\<lambda>sm. if distance then target - sm_actual sm else sm_actual sm - target) samples);
          settling = settlingTime samples target distance after tolerance duration;
          eligible = filter (\<lambda>sm. sm_time sm \<ge> after) samples;
          chatter = mean_of (map (\<lambda>(sm, before). \<bar>sm_command sm - sm_command before\<bar>) (zip (tl eligible) eligible))
      in \<lparr> cm_finalError = finalError, cm_overshoot = overshoot, cm_settling = settling, cm_chatter = chatter,
           cm_passed = (distance \<and> \<not> cr_collision result \<and> (case settling of None \<Rightarrow> False | Some t \<Rightarrow> t \<le> SETTLING_LIMIT)
             \<and> overshoot \<le> MAX_OVERSHOOT \<and> finalError \<le> MAX_FINAL_ERROR),
           cm_after = after, cm_tolerance = tolerance,
           cm_peakAcceleration = largest (map (\<lambda>(sm, before). \<bar>sm_rpm sm - sm_rpm before\<bar> / (sm_time sm - sm_time before))
             (zip (tl samples) samples)) \<rparr>)"

definition simulateControl :: "string \<Rightarrow> raw_config \<Rightarrow> control_error + control_result" where
  "simulateControl tid input =
     (case (findTopic tid, normalizeControlConfig tid input) of
        (Some t, Inr config) \<Rightarrow>
          (let tr = trial_of t config; s = run_loop tr
           in Inr \<lparr> cr_id = tid, cr_mode = to_mode t, cr_config = config, cr_target = su_target tr, cr_method = su_method tr,
                    cr_loadCase = su_loadCase tr, cr_samples = rn_samples s, cr_duration = DURATION,
                    cr_collision = rn_collision s \<rparr>)
      | (_, Inl e) \<Rightarrow> Inl e
      | (None, Inr _) \<Rightarrow> Inl UnknownLesson)"

definition sample_numbers :: "sample \<Rightarrow> real list" where
  "sample_numbers sm =
     [sm_time sm, sm_target sm, sm_measured sm, sm_actual sm, sm_command sm, sm_rpm sm, sm_p sm, sm_i sm, sm_d sm,
      sm_ff sm, sm_correction sm]"

definition controlCSVHeader :: "control_mode \<Rightarrow> string" where
  "controlCSVHeader mode =
     (let u = (if mode = DistanceMode then ''m'' else ''rpm'')
      in join '','' ([''time_s'', ''target_'' @ u, ''measured_'' @ u, ''actual_'' @ u] @
           [''command_percent'', ''wheel_rpm'', ''p_percent'', ''i_percent'', ''d_percent'', ''feedforward_percent'',
            ''feedback_percent'', ''lesson'', ''scenario'', ''kp'', ''ki'', ''kd'', ''filter_s'', ''anti_windup'', ''feedback'',
            ''fixed_power_percent'', ''target_rpm'', ''ff_gain'', ''load_case'', ''strategy'', ''reference_profile'']))"

definition truth_text :: "bool \<Rightarrow> string" where
  "truth_text b = (if b then ''true'' else ''false'')"

definition csv_metadata :: "control_result \<Rightarrow> string list" where
  "csv_metadata result =
     (let c = cr_config result
      in [cr_id result, cf_scenario c, show_num (cf_kp c), show_num (cf_ki c), show_num (cf_kd c), show_num (cf_filter c),
          truth_text (cf_antiWindup c), truth_text (cf_feedback c), show_num (cf_power c), show_num (cf_targetRPM c),
          show_num (cf_ffGain c), cr_loadCase result, cr_method result, cf_profile c])"

definition csv_row :: "control_result \<Rightarrow> sample \<Rightarrow> string" where
  "csv_row result sm = join '','' (map (fixed_text 4) (sample_numbers sm)) @ '','' @ join '','' (csv_metadata result)"

text \<open>The byte order mark first; the lines end with a carriage return and a line feed.\<close>

definition controlCSV :: "control_result \<Rightarrow> string" where
  "controlCSV result =
     [CHR 0xEF, CHR 0xBB, CHR 0xBF] @ controlCSVHeader (cr_mode result) @ [CHR 0x0D, CHR 0x0A]
     @ join [CHR 0x0D, CHR 0x0A] (map (csv_row result) (cr_samples result))"

definition power_input :: "real \<Rightarrow> raw_config" where
  "power_input x key = (if key = ''power'' then Some \<lparr> rs_number = Some x, rs_true = (x \<noteq> 0), rs_text = show_num x \<rparr> else None)"

definition controlCalibration :: "(real \<times> (control_error + real)) list" where
  "controlCalibration =
     map (\<lambda>x. (x, map_sum (\<lambda>e. e) (\<lambda>run. mean_of (map sm_measured
            (filter (\<lambda>sm. sm_time sm \<ge> DURATION - TAIL_SECONDS) (cr_samples run)))) (simulateControl ''output'' (power_input x))))
       [20, 40, 60]"

section \<open>Settings are checked\<close>

text \<open>The settings the page allows.\<close>

definition settings_allowed :: "control_config \<Rightarrow> bool" where
  "settings_allowed c \<longleftrightarrow>
     0 \<le> cf_kp c \<and> cf_kp c \<le> 8 \<and> 0 \<le> cf_ki c \<and> cf_ki c \<le> 6 \<and> 0 \<le> cf_kd c \<and> cf_kd c \<le> 3
     \<and> 0 \<le> cf_filter c \<and> cf_filter c \<le> 6 / 10 \<and> 0 \<le> cf_power c \<and> cf_power c \<le> 100
     \<and> 20 \<le> cf_targetRPM c \<and> cf_targetRPM c \<le> 80 \<and> 0 \<le> cf_ffGain c \<and> cf_ffGain c \<le> 2
     \<and> cf_scenario c \<in> set SCENARIOS \<and> cf_loadCase c \<in> set LOAD_CASES \<and> cf_strategy c \<in> set STRATEGIES
     \<and> cf_profile c \<in> set PROFILES"

definition NUMERIC_KEYS :: "string list" where
  "NUMERIC_KEYS = [''kp'', ''ki'', ''kd'', ''filter'', ''power'', ''targetRPM'', ''ffGain'']"

definition given_number :: "raw_config \<Rightarrow> string \<Rightarrow> bool" where
  "given_number input key \<longleftrightarrow> (case input key of None \<Rightarrow> True | Some raw \<Rightarrow> rs_number raw \<noteq> None)"

definition given_choice :: "raw_config \<Rightarrow> string \<Rightarrow> string list \<Rightarrow> bool" where
  "given_choice input key choices \<longleftrightarrow> (case input key of None \<Rightarrow> True | Some raw \<Rightarrow> rs_text raw \<in> set choices)"

lemma clamp_range: "low \<le> high \<Longrightarrow> low \<le> clamp x low high \<and> clamp x low high \<le> high"
  by (simp add: clamp_def)

lemma numeric_setting_range:
  "numeric_setting input key low high d = Some x \<Longrightarrow> low \<le> high \<Longrightarrow> low \<le> x \<and> x \<le> high"
  using clamp_range by (auto simp: numeric_setting_def split: option.splits)

lemma numeric_setting_None: "numeric_setting input key low high d = None \<longleftrightarrow> \<not> given_number input key"
  by (auto simp: numeric_setting_def given_number_def split: option.splits)


lemma numeric_settings_None: "numeric_settings input d = None \<longleftrightarrow> \<not> list_all (given_number input) NUMERIC_KEYS"
proof -
  have "numeric_settings input d = None \<longleftrightarrow>
      numeric_setting input ''kp'' 0 8 (cf_kp d) = None \<or> numeric_setting input ''ki'' 0 6 (cf_ki d) = None
      \<or> numeric_setting input ''kd'' 0 3 (cf_kd d) = None \<or> numeric_setting input ''filter'' 0 (6 / 10) (cf_filter d) = None
      \<or> numeric_setting input ''power'' 0 100 (cf_power d) = None
      \<or> numeric_setting input ''targetRPM'' 20 80 (cf_targetRPM d) = None
      \<or> numeric_setting input ''ffGain'' 0 2 (cf_ffGain d) = None"
    unfolding numeric_settings_def Option.bind_eq_None_conv by (simp only: option.distinct simp_thms)
  then show ?thesis unfolding numeric_setting_None NUMERIC_KEYS_def list.pred_inject by (simp only: list.pred_inject(1) simp_thms de_Morgan_conj)
qed

lemma numeric_settings_Some:
  assumes "numeric_settings input d = Some c"
  shows "0 \<le> cf_kp c \<and> cf_kp c \<le> 8 \<and> 0 \<le> cf_ki c \<and> cf_ki c \<le> 6 \<and> 0 \<le> cf_kd c \<and> cf_kd c \<le> 3
     \<and> 0 \<le> cf_filter c \<and> cf_filter c \<le> 6 / 10 \<and> 0 \<le> cf_power c \<and> cf_power c \<le> 100
     \<and> 20 \<le> cf_targetRPM c \<and> cf_targetRPM c \<le> 80 \<and> 0 \<le> cf_ffGain c \<and> cf_ffGain c \<le> 2"
proof -
  obtain kp ki kd flt pw rpm ff where found: "numeric_setting input ''kp'' 0 8 (cf_kp d) = Some kp"
    "numeric_setting input ''ki'' 0 6 (cf_ki d) = Some ki" "numeric_setting input ''kd'' 0 3 (cf_kd d) = Some kd"
    "numeric_setting input ''filter'' 0 (6 / 10) (cf_filter d) = Some flt"
    "numeric_setting input ''power'' 0 100 (cf_power d) = Some pw"
    "numeric_setting input ''targetRPM'' 20 80 (cf_targetRPM d) = Some rpm"
    "numeric_setting input ''ffGain'' 0 2 (cf_ffGain d) = Some ff"
    and c: "Some (d\<lparr> cf_kp := kp, cf_ki := ki, cf_kd := kd, cf_filter := flt, cf_power := pw, cf_targetRPM := rpm, cf_ffGain := ff \<rparr>) = Some c"
    using assms unfolding numeric_settings_def Option.bind_eq_Some_conv by blast
  show ?thesis
    using found [THEN numeric_setting_range] unfolding option.inject [THEN iffD1, OF c, symmetric] by simp
qed

lemma topic_defaults_known:
  assumes "findTopic tid = Some t"
  shows "cf_scenario (to_defaults t BASE_DEFAULTS) \<in> set SCENARIOS"
    "cf_loadCase (to_defaults t BASE_DEFAULTS) \<in> set LOAD_CASES"
    "cf_strategy (to_defaults t BASE_DEFAULTS) \<in> set STRATEGIES"
    "cf_profile (to_defaults t BASE_DEFAULTS) \<in> set PROFILES"
proof -
  have "list_all (\<lambda>t. cf_scenario (to_defaults t BASE_DEFAULTS) \<in> set SCENARIOS
      \<and> cf_loadCase (to_defaults t BASE_DEFAULTS) \<in> set LOAD_CASES
      \<and> cf_strategy (to_defaults t BASE_DEFAULTS) \<in> set STRATEGIES
      \<and> cf_profile (to_defaults t BASE_DEFAULTS) \<in> set PROFILES) CONTROL_TOPICS"
    by (simp add: CONTROL_TOPICS_def BASE_DEFAULTS_def SCENARIOS_def LOAD_CASES_def STRATEGIES_def PROFILES_def)
  moreover have "t \<in> set CONTROL_TOPICS" using assms by (auto simp: findTopic_def find_Some_iff)
  ultimately show "cf_scenario (to_defaults t BASE_DEFAULTS) \<in> set SCENARIOS"
    "cf_loadCase (to_defaults t BASE_DEFAULTS) \<in> set LOAD_CASES"
    "cf_strategy (to_defaults t BASE_DEFAULTS) \<in> set STRATEGIES"
    "cf_profile (to_defaults t BASE_DEFAULTS) \<in> set PROFILES"
    unfolding list_all_iff by blast+
qed

lemma text_setting_known: "d \<in> set choices \<Longrightarrow> text_setting input key d \<in> set choices \<longleftrightarrow> given_choice input key choices"
  by (simp add: text_setting_def given_choice_def split: option.split)

text \<open>
  C26: Settings are refused exactly when they must be, and for the first reason that holds: an unknown lesson,
  then a setting that is not a number, then an unknown scenario, then an unknown condition; whatever is
  accepted lies within the ranges of the sliders and the choices of the page.
\<close>

theorem control_settings_checked:
  "case findTopic tid of
     None \<Rightarrow> normalizeControlConfig tid input = Inl UnknownLesson
   | Some t \<Rightarrow>
       (let numbers = list_all (given_number input) NUMERIC_KEYS;
            scenario = given_choice input ''scenario'' SCENARIOS;
            conditions = given_choice input ''loadCase'' LOAD_CASES \<and> given_choice input ''strategy'' STRATEGIES
              \<and> given_choice input ''profile'' PROFILES
        in case normalizeControlConfig tid input of
             Inl UnknownLesson \<Rightarrow> False
           | Inl NotNumbers \<Rightarrow> \<not> numbers
           | Inl UnknownScenario \<Rightarrow> numbers \<and> \<not> scenario
           | Inl UnknownCondition \<Rightarrow> numbers \<and> scenario \<and> \<not> conditions
           | Inr c \<Rightarrow> numbers \<and> scenario \<and> conditions \<and> settings_allowed c)"
proof (cases "findTopic tid")
  case None
  then show ?thesis by (simp add: normalizeControlConfig_def controlDefaults_def)
next
  case (Some t)
  define d where "d = to_defaults t BASE_DEFAULTS"
  have defaults: "controlDefaults tid = Inr d" by (simp add: controlDefaults_def Some d_def)
  note known = topic_defaults_known [OF Some, folded d_def]
  show ?thesis
  proof (cases "numeric_settings input d")
    case None
    then show ?thesis
      using numeric_settings_None [of input d] Some by (simp add: normalizeControlConfig_def defaults Let_def)
  next
    case (Some c)
    then have numbers: "list_all (given_number input) NUMERIC_KEYS" using numeric_settings_None [of input d] by simp
    show ?thesis
      using numeric_settings_Some [OF Some] numbers
      by (simp add: \<open>findTopic tid = Some t\<close> normalizeControlConfig_def defaults Some Let_def text_setting_known [OF known(1)]
          text_setting_known [OF known(2)] text_setting_known [OF known(3)] text_setting_known [OF known(4)] settings_allowed_def)
  qed
qed

lemma normalized_allowed: "normalizeControlConfig tid input = Inr c \<Longrightarrow> settings_allowed c"
  unfolding normalizeControlConfig_def
  by (auto dest: numeric_settings_Some simp: settings_allowed_def Let_def split: sum.splits option.splits if_splits)

section \<open>The time a run settles\<close>

lemma settling_back_spec:
  "settling_back ok after xs found =
     (let run = takeWhile ok xs in if run = [] then found else Some (sm_time (last run) - after))"
  by (induction xs arbitrary: found) (auto simp: Let_def)

lemma takeWhile_rev_run:
  assumes "run = takeWhile P (rev xs)"
  shows "drop (length xs - length run) xs = rev run" "list_all P run"
    "length run < length xs \<Longrightarrow> \<not> P (xs ! (length xs - length run - 1))"
proof -
  have len: "length run \<le> length xs" using assms length_takeWhile_le [of P "rev xs"] by simp
  have "take (length run) (rev xs) = run" unfolding assms by (rule takeWhile_eq_take [symmetric])
  then show "drop (length xs - length run) xs = rev run"
    by (metis rev_drop rev_rev_ident length_rev rev_take)
  show "list_all P run" unfolding list_all_iff assms using set_takeWhileD by fast
  assume less: "length run < length xs"
  then have "\<not> P (rev xs ! length run)" using nth_length_takeWhile [of P "rev xs"] unfolding assms by simp
  then show "\<not> P (xs ! (length xs - length run - 1))" using less by (simp add: rev_nth)
qed

text \<open>From sample \<open>i\<close> on the run stays in the band, and no earlier sample has that.\<close>

definition settled_from :: "(sample \<Rightarrow> bool) \<Rightarrow> sample list \<Rightarrow> nat \<Rightarrow> bool" where
  "settled_from ok samples i \<longleftrightarrow>
     i < length samples \<and> list_all ok (drop i samples) \<and> (i = 0 \<or> \<not> ok (samples ! (i - 1)))"

text \<open>
  The settling time is the reference one: the time from the load change to the first sample from which the
  run stays in the band to its end, given only when the run is followed for another second; a value that
  enters the band and leaves it again does not count as settled.
\<close>

theorem settling_time_correct:
  "case settlingTime samples target distance after tolerance duration of
     Some t \<Rightarrow> \<exists>i. settled_from (in_band target distance after tolerance) samples i
                 \<and> t = sm_time (samples ! i) - after \<and> 1 \<le> duration - sm_time (samples ! i)
   | None \<Rightarrow> \<not> (\<exists>i. settled_from (in_band target distance after tolerance) samples i
                 \<and> 1 \<le> duration - sm_time (samples ! i))"
proof -
  define ok where "ok = in_band target distance after tolerance"
  define run where "run = takeWhile ok (rev samples)"
  let ?i = "length samples - length run"
  note parts = takeWhile_rev_run [OF run_def]
  have len: "length run \<le> length samples" using length_takeWhile_le [of ok "rev samples"] by (simp add: run_def)
  have unique: "i = ?i \<and> run \<noteq> []" if i: "settled_from ok samples i" for i
  proof -
    have tail: "list_all ok (drop i samples)" and "i < length samples" using i by (simp_all add: settled_from_def)
    have "i \<le> ?i \<longrightarrow> i = ?i"
    proof (intro impI, rule ccontr)
      assume "i \<le> ?i" "i \<noteq> ?i"
      then have less: "i \<le> ?i - 1" "length run < length samples" using \<open>i < length samples\<close> by auto
      then have "samples ! (?i - 1) \<in> set (drop i samples)"
        using in_set_conv_nth [of "samples ! (?i - 1)" "drop i samples"] \<open>i \<le> ?i\<close> \<open>i \<noteq> ?i\<close> len
        by (auto intro!: exI [of _ "?i - 1 - i"])
      then show False using tail parts(3) [OF less(2)] by (simp add: list_all_iff)
    qed
    moreover have "\<not> ?i < i"
    proof
      assume more: "?i < i"
      then have "samples ! (i - 1) \<in> set (drop ?i samples)"
        using in_set_conv_nth [of "samples ! (i - 1)" "drop ?i samples"] \<open>i < length samples\<close>
        by (auto intro!: exI [of _ "i - 1 - ?i"])
      then have "ok (samples ! (i - 1))" using parts(1,2) by (auto simp: list_all_iff)
      then show False using i more by (auto simp: settled_from_def)
    qed
    ultimately have "i = ?i" by linarith
    then show ?thesis using \<open>i < length samples\<close> by auto
  qed
  have settled: "settled_from ok samples ?i" and last: "samples ! ?i = last run" if "run \<noteq> []"
  proof -
    have less: "?i < length samples" using that len by (cases run) auto
    show "settled_from ok samples ?i"
      using less parts by (auto simp: settled_from_def list_all_iff)
    have "samples ! ?i = hd (drop ?i samples)" using less by (simp add: hd_drop_conv_nth)
    then show "samples ! ?i = last run" using parts(1) that by (simp add: hd_rev)
  qed
  have "settling_back ok after (rev samples) None = (if run = [] then None else Some (sm_time (last run) - after))"
    by (simp add: settling_back_spec run_def Let_def)
  then have eq: "settlingTime samples target distance after tolerance duration =
      (if run = [] then None else if duration - sm_time (last run) < 1 then None else Some (sm_time (last run) - after))"
    unfolding settlingTime_def ok_def [symmetric] by simp
  show ?thesis
  proof (cases "run = []")
    case True
    then show ?thesis using unique unfolding eq ok_def [symmetric] by auto
  next
    case False
    show ?thesis
    proof (cases "duration - sm_time (last run) < 1")
      case True
      then show ?thesis using unique last [OF False] False unfolding eq ok_def [symmetric] by auto
    next
      case late: False
      then show ?thesis using settled [OF False] last [OF False] False unfolding eq ok_def [symmetric] by auto
    qed
  qed
qed

section \<open>Every run stays within its bounds\<close>

definition sample_within :: "bool \<Rightarrow> sample \<Rightarrow> bool" where
  "sample_within distance sm \<longleftrightarrow>
     \<bar>sm_command sm\<bar> \<le> 100
     \<and> (if distance then COLLISION_DISTANCE \<le> sm_actual sm \<and> \<bar>sm_rpm sm\<bar> \<le> FULL_SPEED_RPM else \<bar>sm_actual sm\<bar> \<le> 100)
     \<and> (sm_collision sm \<longrightarrow> sm_command sm = 0)"

definition collision_final :: "sample list \<Rightarrow> bool" where
  "collision_final samples \<longleftrightarrow> sorted_wrt (\<lambda>a b. sm_collision a \<longrightarrow> sm_collision b) samples"

definition run_ok :: "trial \<Rightarrow> run_state \<Rightarrow> bool" where
  "run_ok tr s \<longleftrightarrow>
     settings_allowed (su_config tr) \<and> \<bar>rn_command s\<bar> \<le> 1 \<and> \<bar>rn_drive s\<bar> \<le> 1
     \<and> (if su_distance tr then COLLISION_DISTANCE \<le> rn_value s \<and> \<bar>rn_velocity s\<bar> \<le> MAX_SPEED else \<bar>rn_value s\<bar> \<le> 100)
     \<and> list_all (sample_within (su_distance tr)) (rn_samples s)
     \<and> collision_final (rn_samples s) \<and> (rn_collision s \<or> list_all (\<lambda>sm. \<not> sm_collision sm) (rn_samples s))"

lemma pid_command_limit: "0 \<le> pa_limit a \<Longrightarrow> \<bar>pp_command (snd (pidStep state a))\<bar> \<le> pa_limit a"
  by (simp add: pidStep_def Let_def clamp_def abs_le_iff)

lemma decide_limit:
  assumes "settings_allowed (su_config tr)"
  shows "\<bar>snd (snd (decide tr reference measurement pid))\<bar> \<le> 1"
proof -
  have fixed: "\<bar>cf_power (su_config tr) / 100\<bar> \<le> 1" using assms by (simp add: settings_allowed_def)
  have bounded: "\<bar>clamp x (- 1) 1\<bar> \<le> 1" for x by (simp add: clamp_def abs_le_iff)
  have "\<bar>pp_command (snd (pidStep pid a))\<bar> \<le> 1" if "pa_limit a = 1" for a using pid_command_limit [of a pid] that by simp
  then show ?thesis using fixed bounded by (simp add: decide_def Let_def case_prod_beta)
qed

lemma MAX_SPEED_pos: "MAX_SPEED > 0"
  by (simp add: MAX_SPEED_def WHEEL_RADIUS_def FULL_SPEED_RPM_def)

lemma control_tick_ok:
  assumes "run_ok tr s"
  shows "run_ok tr (control_tick tr n s)"
proof -
  obtain pid parts decided where d: "decide tr (reference_at tr (time_of n))
      (rn_delayed s + (if su_noisy tr then noiseAt (time_of n) * (if su_distance tr then 12 / 1000 else 12 / 10) else 0)) (rn_pid s)
      = (pid, parts, decided)" by (metis prod.exhaust)
  have "\<bar>decided\<bar> \<le> 1" using decide_limit [of tr] assms d unfolding run_ok_def by (metis snd_conv)
  moreover have "\<bar>rn_velocity s / MAX_SPEED * FULL_SPEED_RPM\<bar> \<le> FULL_SPEED_RPM" if "\<bar>rn_velocity s\<bar> \<le> MAX_SPEED"
    using that MAX_SPEED_pos by (simp add: FULL_SPEED_RPM_def abs_mult divide_le_eq)
  ultimately show ?thesis
    using assms unfolding run_ok_def control_tick_def Let_def d prod.case
    by (auto simp: sample_within_def collision_final_def sorted_wrt_append list_all_iff abs_mult)
qed

lemma mix_bound:
  fixes v c m dt lag :: real
  assumes "\<bar>v\<bar> \<le> m" "\<bar>c\<bar> \<le> m" "0 \<le> dt" "dt \<le> lag" "0 < lag"
  shows "\<bar>v + (c - v) * dt / lag\<bar> \<le> m"
proof -
  define w where "w = dt / lag"
  have w: "0 \<le> w" "w \<le> 1" using assms by (simp_all add: w_def)
  have "v + (c - v) * dt / lag = v + (c - v) * w" by (simp add: w_def)
  also have "v + (c - v) * w = (1 - w) * v + w * c" by (simp add: algebra_simps)
  also have "\<bar>\<dots>\<bar> \<le> \<bar>(1 - w) * v\<bar> + \<bar>w * c\<bar>" by (rule abs_triangle_ineq)
  also have "\<dots> = (1 - w) * \<bar>v\<bar> + w * \<bar>c\<bar>" using w by (simp add: abs_mult)
  also have "\<dots> \<le> (1 - w) * m + w * m" using assms w by (intro add_mono mult_left_mono) simp_all
  finally show ?thesis by (simp add: algebra_simps)
qed

lemma move_robot_ok:
  assumes "run_ok tr s" "su_distance tr"
  shows "run_ok tr (move_robot tr s)"
proof -
  have "\<bar>MAX_SPEED * rn_command s\<bar> \<le> MAX_SPEED" "\<bar>rn_velocity s\<bar> \<le> MAX_SPEED"
    using assms MAX_SPEED_pos by (simp_all add: run_ok_def abs_mult)
  then have "\<bar>rn_velocity s + (MAX_SPEED * rn_command s - rn_velocity s) * SIM_STEP / (105 / 100)\<bar> \<le> MAX_SPEED"
    "\<bar>rn_velocity s + (MAX_SPEED * rn_command s - rn_velocity s) * SIM_STEP / (7 / 10)\<bar> \<le> MAX_SPEED"
    by (intro mix_bound; simp add: SIM_STEP_def)+
  then show ?thesis
    using assms MAX_SPEED_pos by (auto simp: run_ok_def move_robot_def Let_def)
qed

lemma load_bounds: "0 \<le> load_at tr time \<and> load_at tr time \<le> 15"
  by (simp add: load_at_def)

lemma wheel_bound:
  fixes v g load t :: real
  assumes "\<bar>v\<bar> \<le> 100" "\<bar>g\<bar> \<le> 100" "0 \<le> load" "load \<le> 15" "\<bar>t\<bar> \<le> 1" "0 \<le> v \<Longrightarrow> 0 \<le> t" "v \<le> 0 \<Longrightarrow> t \<le> 0"
  shows "\<bar>v + (g - v - load * t) * SIM_STEP / (35 / 100)\<bar> \<le> 100"
proof -
  have drag: "\<bar>load * t\<bar> \<le> 15" using assms(3-5) mult_mono [of load 15 "\<bar>t\<bar>" 1] by (simp add: abs_mult)
  have eq: "v + (g - v - load * t) * SIM_STEP / (35 / 100) = v * (34 / 35) + g / 35 - load * t / 35"
    by (simp add: SIM_STEP_def field_simps)
  show ?thesis
  proof (cases "0 \<le> v")
    case True
    then have "0 \<le> load * t" using assms(3,6) by simp
    then show ?thesis unfolding eq abs_le_iff using assms(1,2) drag True by (simp add: abs_le_iff)
  next
    case False
    then have "load * t \<le> 0" using assms(3,7) by (simp add: mult_nonneg_nonpos)
    then show ?thesis unfolding eq abs_le_iff using assms(1,2) drag False by (simp add: abs_le_iff)
  qed
qed

lemma turn_wheel_ok:
  assumes "run_ok tr s" "\<not> su_distance tr"
  shows "run_ok tr (turn_wheel tr n s)"
proof -
  define drive where "drive = rn_drive s + (rn_command s - rn_drive s) * SIM_STEP / (12 / 100)"
  have drive: "\<bar>drive\<bar> \<le> 1"
    unfolding drive_def using assms by (intro mix_bound) (simp_all add: run_ok_def SIM_STEP_def)
  have "\<bar>(if su_loadCase tr = ''mismatch'' then 80 else 100) * drive\<bar> \<le> 100"
    using drive by (simp add: abs_mult)
  moreover have "\<bar>tanh (rn_value s / 2)\<bar> \<le> 1" using tanh_real_bounds [of "rn_value s / 2"] by auto
  ultimately have "\<bar>rn_value s + ((if su_loadCase tr = ''mismatch'' then 80 else 100) * drive - rn_value s
      - load_at tr (time_of n) * tanh (rn_value s / 2)) * SIM_STEP / (35 / 100)\<bar> \<le> 100"
    using assms load_bounds [of tr "time_of n"] by (intro wheel_bound) (simp_all add: run_ok_def)
  then show ?thesis
    using assms drive unfolding run_ok_def turn_wheel_def Let_def drive_def [symmetric] by auto
qed

lemma sim_tick_ok: "run_ok tr s \<Longrightarrow> run_ok tr (sim_tick tr n s)"
  using control_tick_ok move_robot_ok turn_wheel_ok
  by (auto simp: sim_tick_def physics_tick_def measured_tick_def)

interpretation control_run: event_machine "sim_tick tr" "run_ok tr" for tr
  by unfold_locales (rule sim_tick_ok)

lemma run_start_ok: "settings_allowed (su_config tr) \<Longrightarrow> run_ok tr (run_start (su_distance tr))"
  using MAX_SPEED_pos
  by (simp add: run_ok_def run_start_def Let_def collision_final_def COLLISION_DISTANCE_def START_DISTANCE_def)

lemma run_loop_ok: "settings_allowed (su_config tr) \<Longrightarrow> run_ok tr (run_loop tr)"
  using control_run.run_inv [OF run_start_ok] control_tick_ok by (simp add: run_loop_def measured_tick_def)

section \<open>A sample every 50 ms\<close>

lemma samples_physics [simp]: "rn_samples (physics_tick tr n s) = rn_samples s"
  by (simp add: physics_tick_def move_robot_def turn_wheel_def Let_def)

lemma times_measured:
  "map sm_time (rn_samples (measured_tick tr n s)) = map sm_time (rn_samples s) @ (if n mod 5 = 0 then [time_of n] else [])"
  by (simp add: measured_tick_def control_tick_def Let_def case_prod_beta)

lemma times_loop:
  "map sm_time (rn_samples (fold (sim_tick tr) [0..<m] (run_start d))) = map time_of (filter (\<lambda>n. n mod 5 = 0) [0..<m])"
  by (induction m) (simp_all add: sim_tick_def times_measured, simp add: run_start_def Let_def)

lemma every_fifth: "filter (\<lambda>n. n mod 5 = 0) [0..<Suc (5 * m)] = map (\<lambda>k. 5 * k) [0..<Suc m]"
proof (induction m)
  case 0
  then show ?case by simp
next
  case (Suc m)
  have "[0..<Suc (5 * Suc m)] = [0..<Suc (5 * m)] @ [5 * m + 1, 5 * m + 2, 5 * m + 3, 5 * m + 4, 5 * m + 5]"
    by (simp add: upt_rec [of 0 "Suc (5 * Suc m)"] numeral_eq_Suc)
  moreover have "Suc (Suc (5 * m)) mod 5 = 2" by presburger
  ultimately show ?case using Suc by simp
qed

lemma run_times: "map sm_time (rn_samples (run_loop tr)) = map (\<lambda>k. real k / 20) [0..<321]"
proof -
  have "map sm_time (rn_samples (run_loop tr)) = map time_of (filter (\<lambda>n. n mod 5 = 0) [0..<Suc STEPS])"
    by (simp add: run_loop_def times_measured times_loop)
  also have "Suc STEPS = Suc (5 * 320)" by (simp add: STEPS_def)
  also have "map time_of (filter (\<lambda>n. n mod 5 = 0) [0..<Suc (5 * 320)]) = map (\<lambda>k. time_of (5 * k)) [0..<Suc 320]"
    by (simp only: every_fifth map_map comp_def)
  finally show ?thesis by (simp add: time_of_def SIM_STEP_def)
qed

lemma simulated:
  assumes "simulateControl tid input = Inr r"
  obtains t config where "normalizeControlConfig tid input = Inr config" "findTopic tid = Some t"
    "cr_samples r = rn_samples (run_loop (trial_of t config))" "cr_mode r = to_mode t" "cr_config r = config"
    "cr_method r = su_method (trial_of t config)"
  using assms by (auto simp: simulateControl_def Let_def split: option.splits sum.splits)

text \<open>
  Every experiment of the course stays within its physical bounds, whatever the settings: it has a sample
  every 50 ms from 0 to 16 s, no command beyond 100 per cent, no robot in the wall or faster than its wheels at
  full speed, no wheel beyond 100 rpm, and after a collision every later sample says so with command 0.
\<close>

theorem control_run_bounded:
  "case simulateControl tid input of
     Inl _ \<Rightarrow> True
   | Inr r \<Rightarrow> map sm_time (cr_samples r) = map (\<lambda>k. real k / 20) [0..<321]
       \<and> list_all (sample_within (cr_mode r = DistanceMode)) (cr_samples r) \<and> collision_final (cr_samples r)"
proof (cases "simulateControl tid input")
  case (Inl e)
  then show ?thesis by simp
next
  case (Inr r)
  from simulated [OF Inr] obtain t config where n: "normalizeControlConfig tid input = Inr config"
    and r: "cr_samples r = rn_samples (run_loop (trial_of t config))" "cr_mode r = to_mode t" by metis
  have "settings_allowed (su_config (trial_of t config))"
    using normalized_allowed [OF n] by (simp add: trial_of_def Let_def)
  then have "run_ok (trial_of t config) (run_loop (trial_of t config))" by (rule run_loop_ok)
  then show ?thesis using run_times unfolding Inr by (simp add: r run_ok_def trial_of_def Let_def)
qed

section \<open>Anti-windup\<close>

lemma grow_limited:
  fixes e kp ki i dt :: real
  assumes "0 \<le> kp" "0 \<le> ki" "0 \<le> dt" "\<bar>i\<bar> \<le> 1"
    "\<not> (kp * e + (i + ki * e * dt) > 1 \<and> e > 0)" "\<not> (kp * e + (i + ki * e * dt) < - 1 \<and> e < 0)"
  shows "\<bar>i + ki * e * dt\<bar> \<le> 1"
proof -
  consider "e > 0" | "e = 0" | "e < 0" by linarith
  then show ?thesis
  proof cases
    case 1
    then have "0 \<le> kp * e" "0 \<le> ki * e * dt" using assms(1-3) by simp_all
    then show ?thesis using assms(4,5) 1 by (simp add: abs_le_iff)
  next
    case 3
    then have "kp * e \<le> 0" "ki * e * dt \<le> 0" using assms(1-3) by (simp_all add: mult_nonneg_nonpos mult_nonpos_nonneg)
    then show ?thesis using assms(4,6) 3 by (simp add: abs_le_iff)
  qed (use assms(4) in simp)
qed

definition pi_control :: "trial \<Rightarrow> bool" where
  "pi_control tr \<longleftrightarrow> settings_allowed (su_config tr) \<and> cf_antiWindup (su_config tr) \<and> cf_kd (su_config tr) = 0
     \<and> su_method tr = ''feedback''"

definition integral_ok :: "trial \<Rightarrow> run_state \<Rightarrow> bool" where
  "integral_ok tr s \<longleftrightarrow> pi_control tr \<and> \<bar>pi_integral (rn_pid s)\<bar> \<le> 1 \<and> list_all (\<lambda>sm. \<bar>sm_i sm\<bar> \<le> 100) (rn_samples s)"

lemma pid_integral_ok:
  assumes "0 \<le> pa_kp a" "0 \<le> pa_ki a" "pa_kd a = 0" "0 \<le> pa_dt a" "pa_antiWindup a" "pa_limit a = 1" "pa_feedforward a = 0"
    "\<bar>pi_integral state\<bar> \<le> 1"
  shows "\<bar>pi_integral (fst (pidStep state a))\<bar> \<le> 1 \<and> pp_i (snd (pidStep state a)) = pi_integral (fst (pidStep state a))"
  using grow_limited [of "pa_kp a" "pa_ki a" "pa_dt a" "pi_integral state" "pa_error a"] assms
  by (auto simp: pidStep_def Let_def)

lemma decide_integral_ok:
  assumes "pi_control tr" "\<bar>pi_integral pid\<bar> \<le> 1"
  shows "case decide tr reference measurement pid of (pid', parts, _) \<Rightarrow> \<bar>pi_integral pid'\<bar> \<le> 1 \<and> \<bar>pp_i parts\<bar> \<le> 1"
  using assms pid_integral_ok [of _ pid]
  by (simp add: pi_control_def decide_def Let_def case_prod_beta feedforward_of_def settings_allowed_def CONTROL_PERIOD_def)

lemma integral_tick: "integral_ok tr s \<Longrightarrow> integral_ok tr (measured_tick tr n s)"
proof (cases "n mod 5 = 0")
  case True
  assume ok: "integral_ok tr s"
  obtain pid parts decided where d: "decide tr (reference_at tr (time_of n))
      (rn_delayed s + (if su_noisy tr then noiseAt (time_of n) * (if su_distance tr then 12 / 1000 else 12 / 10) else 0)) (rn_pid s)
      = (pid, parts, decided)" by (metis prod.exhaust)
  have "\<bar>pi_integral pid\<bar> \<le> 1 \<and> \<bar>pp_i parts\<bar> \<le> 1"
    using decide_integral_ok [of tr "rn_pid s"] ok d unfolding integral_ok_def by (metis (no_types, lifting) prod.case)
  then show ?thesis using ok True unfolding measured_tick_def control_tick_def Let_def d prod.case
    by (simp add: integral_ok_def abs_mult)
qed (simp add: measured_tick_def)

lemma pid_physics [simp]: "rn_pid (physics_tick tr n s) = rn_pid s"
  by (simp add: physics_tick_def move_robot_def turn_wheel_def Let_def)

interpretation control_integral: event_machine "sim_tick tr" "integral_ok tr" for tr
  by unfold_locales (use integral_tick in \<open>simp add: sim_tick_def integral_ok_def\<close>)

text \<open>
  The anti-windup of the PID step works: in every experiment of the course that is controlled by feedback
  alone with no D part, the correction I has built up never exceeds what the motor can do (100 per cent),
  however long the wheel is blocked or the output saturated.
\<close>

theorem anti_windup_bounds_integral:
  "case simulateControl tid input of
     Inl _ \<Rightarrow> True
   | Inr r \<Rightarrow> (if cf_antiWindup (cr_config r) \<and> cf_kd (cr_config r) = 0 \<and> cr_method r = ''feedback''
               then list_all (\<lambda>sm. \<bar>sm_i sm\<bar> \<le> 100) (cr_samples r) else True)"
proof (cases "simulateControl tid input")
  case (Inl e)
  then show ?thesis by simp
next
  case (Inr r)
  from simulated [OF Inr] obtain t config where n: "normalizeControlConfig tid input = Inr config"
    and r: "cr_samples r = rn_samples (run_loop (trial_of t config))" "cr_config r = config"
      "cr_method r = su_method (trial_of t config)" by metis
  let ?tr = "trial_of t config"
  have config: "su_config ?tr = config" by (simp add: trial_of_def Let_def)
  have "list_all (\<lambda>sm. \<bar>sm_i sm\<bar> \<le> 100) (cr_samples r)"
    if "cf_antiWindup config" "cf_kd config = 0" "su_method ?tr = ''feedback''"
  proof -
    have "integral_ok ?tr (run_start (su_distance ?tr))"
      using that normalized_allowed [OF n]
      by (simp add: integral_ok_def pi_control_def config run_start_def Let_def NO_PID_def)
    then have "integral_ok ?tr (run_loop ?tr)"
      unfolding run_loop_def by (intro integral_tick control_integral.run_inv)
    then show ?thesis by (simp add: r integral_ok_def)
  qed
  then show ?thesis unfolding Inr by (simp add: r)
qed

end
