(* ===== verification/Drive_Report.thy ===== *)
theory Drive_Report
  imports Recording_Core Js_Math "HOL-Library.Sublist"
begin

text \<open>
  The report of a driving run, \<open>lab/js/live/drive-report-core.js\<close>: the series of a recording counted from the
  first moving command, how far and how long the robot drove, how it stopped, the thinned series that are
  kept, the kinds of an ending, and the bench test. Sentences are constructors.
\<close>

section \<open>Series\<close>

definition STILL_LINEAR :: real where "STILL_LINEAR = 2 / 100"
definition STILL_ANGULAR :: real where "STILL_ANGULAR = 5 / 100"
definition COMMANDED :: real where "COMMANDED = 1 / 1000"
definition REPORT_PERIOD :: real where "REPORT_PERIOD = 1 / 10"
definition PATH_STEP :: real where "PATH_STEP = 1 / 100"
definition MOVED_DISTANCE :: real where "MOVED_DISTANCE = 1 / 100"
definition MOVED_TURN :: real where "MOVED_TURN = 2 * pi / 180"

definition startTime :: "recording \<Rightarrow> real" where
  "startTime = commandZero"

record motion_sample =
  mo_t :: real
  mo_v :: real
  mo_w :: real
  mo_estop :: bool

record path_point =
  pt_t :: real
  pt_x :: real
  pt_y :: real
  pt_turn :: real

record front_sample =
  fr_t :: real
  fr_d :: real

definition motion_at :: "real \<Rightarrow> num \<Rightarrow> num \<Rightarrow> bool \<Rightarrow> motion_sample option" where
  "motion_at t v w estop =
     (case (v, w) of (Some v, Some w) \<Rightarrow> Some \<lparr> mo_t = t, mo_v = v, mo_w = w, mo_estop = estop \<rparr> | _ \<Rightarrow> None)"

definition commandSeries :: "recording \<Rightarrow> real \<Rightarrow> motion_sample list" where
  "commandSeries r t0 =
     List.map_filter (\<lambda>m. let c = twist_of m in motion_at (tw_stamp c - t0) (tw_linear c) (tw_angular c) False)
       (messages_of r ''twist'')"

definition measuredSeries :: "recording \<Rightarrow> real \<Rightarrow> motion_sample list" where
  "measuredSeries r t0 =
     List.map_filter (\<lambda>m. let d = drive_of m in motion_at (dm_stamp d - t0) (dm_v d) (dm_w d) (dm_emergency_stop d))
       (messages_of r ''drive'')"

text \<open>The odometry that is complete, as its stamp and pose.\<close>

definition odom_poses :: "recording \<Rightarrow> (real \<times> real \<times> real \<times> real) list" where
  "odom_poses r =
     List.map_filter (\<lambda>m. let o' = odom_of m in
         case (om_x o', om_y o', om_theta o') of
           (Some x, Some y, Some a) \<Rightarrow> Some (om_stamp o', x, y, a) | _ \<Rightarrow> None)
       (messages_of r ''odom'')"

text \<open>The loop over the poses: the heading before and the turn so far.\<close>

fun path_from :: "real \<times> real \<times> real \<Rightarrow> real \<Rightarrow> real \<Rightarrow> real \<Rightarrow> (real \<times> real \<times> real \<times> real) list \<Rightarrow> path_point list" where
  "path_from start t0 previous turn [] = []"
| "path_from start t0 previous turn ((s, x, y, a) # rest) =
     (case start of (x0, y0, a0) \<Rightarrow>
        let turn' = turn + wrap_angle (a - previous);
            dx = x - x0; dy = y - y0
        in \<lparr> pt_t = s - t0, pt_x = dx * cos (- a0) - dy * sin (- a0), pt_y = dx * sin (- a0) + dy * cos (- a0), pt_turn = turn' \<rparr>
           # path_from start t0 a turn' rest)"

definition pathSeries :: "recording \<Rightarrow> real \<Rightarrow> path_point list" where
  "pathSeries r t0 =
     (case odom_poses r of
        [] \<Rightarrow> []
      | (s, x, y, a) # rest \<Rightarrow> path_from (x, y, a) t0 a 0 ((s, x, y, a) # rest))"

definition frontSeries :: "recording \<Rightarrow> real \<Rightarrow> front_sample list" where
  "frontSeries r t0 =
     List.map_filter (\<lambda>m. map_option (\<lambda>d. \<lparr> fr_t = sm_stamp (scan_of m) - t0, fr_d = d \<rparr>) (frontDistance (scan_of m) FRONT_HALF_ANGLE))
       (messages_of r ''scan'')"

text \<open>\<open>from\<close> and \<open>to\<close> are infinite when they are \<open>None\<close>.\<close>

definition outside_span :: "real option \<Rightarrow> real option \<Rightarrow> path_point \<Rightarrow> path_point \<Rightarrow> bool" where
  "outside_span from' to' before p \<longleftrightarrow>
     (case from' of None \<Rightarrow> False | Some a \<Rightarrow> pt_t p \<le> a) \<or> (case to' of None \<Rightarrow> False | Some b \<Rightarrow> pt_t before \<ge> b)"

fun pathLength :: "path_point list \<Rightarrow> real option \<Rightarrow> real option \<Rightarrow> real" where
  "pathLength (before # p # rest) from' to' =
     (if outside_span from' to' before p then 0 else hypot (pt_x p - pt_x before) (pt_y p - pt_y before))
     + pathLength (p # rest) from' to'"
| "pathLength _ from' to' = 0"

definition asks_motion :: "motion_sample \<Rightarrow> bool" where
  "asks_motion c \<longleftrightarrow> \<bar>mo_v c\<bar> > COMMANDED \<or> \<bar>mo_w c\<bar> > COMMANDED"

fun find_index :: "('a \<Rightarrow> bool) \<Rightarrow> 'a list \<Rightarrow> nat option" where
  "find_index P [] = None"
| "find_index P (x # xs) = (if P x then Some 0 else map_option Suc (find_index P xs))"

fun find_last_index :: "('a \<Rightarrow> bool) \<Rightarrow> 'a list \<Rightarrow> nat option" where
  "find_last_index P [] = None"
| "find_last_index P (x # xs) =
     (case find_last_index P xs of Some i \<Rightarrow> Some (Suc i) | None \<Rightarrow> if P x then Some 0 else None)"

definition movingSpan :: "motion_sample list \<Rightarrow> (nat \<times> nat) option" where
  "movingSpan command =
     (case (find_index asks_motion command, find_last_index asks_motion command) of
        (Some a, Some b) \<Rightarrow> Some (a, b) | _ \<Rightarrow> None)"

definition driveTime :: "motion_sample list \<Rightarrow> real option" where
  "driveTime command =
     (case movingSpan command of
        None \<Rightarrow> None
      | Some (first, last') \<Rightarrow>
          let e = (if Suc last' < length command then command ! Suc last' else command ! last')
          in Some (mo_t e - mo_t (command ! first)))"

record stop =
  st_at :: real
  st_delay :: real
  st_distance :: real

definition stands :: "motion_sample \<Rightarrow> bool" where
  "stands m \<longleftrightarrow> \<bar>mo_v m\<bar> < STILL_LINEAR \<and> \<bar>mo_w m\<bar> < STILL_ANGULAR"

definition stopping :: "motion_sample list \<Rightarrow> motion_sample list \<Rightarrow> path_point list \<Rightarrow> stop option" where
  "stopping command measured path =
     (case movingSpan command of
        None \<Rightarrow> None
      | Some (first, last') \<Rightarrow>
          (if \<not> Suc last' < length command then None
           else let zero = command ! Suc last' in
             case find (\<lambda>m. mo_t m \<ge> mo_t zero \<and> stands m) measured of
               None \<Rightarrow> None
             | Some still \<Rightarrow>
                 Some \<lparr> st_at = mo_t zero, st_delay = mo_t still - mo_t zero,
                        st_distance = pathLength path (Some (mo_t zero)) (Some (mo_t still)) \<rparr>))"

definition hasMoved :: "real \<Rightarrow> real option \<Rightarrow> motion_sample list \<Rightarrow> bool" where
  "hasMoved distance turn command \<longleftrightarrow>
     distance \<ge> MOVED_DISTANCE \<or> (case turn of None \<Rightarrow> False | Some a \<Rightarrow> \<bar>a\<bar> \<ge> MOVED_TURN) \<or> movingSpan command \<noteq> None"

definition peak :: "real list \<Rightarrow> real" where
  "peak values = foldl max 0 (map abs values)"

fun thin :: "('a \<Rightarrow> real) \<Rightarrow> real \<Rightarrow> real option \<Rightarrow> 'a list \<Rightarrow> 'a list" where
  "thin time period due [] = []"
| "thin time period due (x # xs) =
     (if (case due of None \<Rightarrow> False | Some d \<Rightarrow> time x < d) then thin time period due xs
      else x # thin time period (Some (time x + period)) xs)"

definition far_enough :: "path_point option \<Rightarrow> path_point \<Rightarrow> bool" where
  "far_enough before p \<longleftrightarrow> (case before of None \<Rightarrow> True | Some q \<Rightarrow> hypot (pt_x p - pt_x q) (pt_y p - pt_y q) \<ge> PATH_STEP)"

fun thin_points :: "path_point option \<Rightarrow> (nat \<times> path_point) list \<Rightarrow> (nat \<times> path_point) list" where
  "thin_points before [] = []"
| "thin_points before ((i, p) # rest) =
     (if far_enough before p then (i, p) # thin_points (Some p) rest else thin_points before rest)"

text \<open>Points are told apart by their place in the path, as the code compares the objects themselves.\<close>

definition thinPath :: "path_point list \<Rightarrow> path_point list" where
  "thinPath path =
     (let kept = thin_points None (enumerate 0 path)
      in map snd kept @ (if path \<noteq> [] \<and> (kept = [] \<or> fst (last kept) \<noteq> length path - 1) then [last path] else []))"

section \<open>The report\<close>

record run_summary =
  ru_seconds :: real
  ru_driveSeconds :: "real option"
  ru_distance :: real
  ru_forward :: "real option"
  ru_left :: "real option"
  ru_turn :: "real option"
  ru_maxSpeed :: real
  ru_maxTurnRate :: real
  ru_maxCommand :: real
  ru_stop :: "stop option"
  ru_emergencyStop :: bool
  ru_closest :: "real option"
  ru_moved :: bool

record run_report =
  rr_command :: "motion_sample list"
  rr_measured :: "motion_sample list"
  rr_path :: "path_point list"
  rr_front :: "front_sample list"
  rr_summary :: run_summary

definition last_time :: "('a \<Rightarrow> real) \<Rightarrow> 'a list \<Rightarrow> real list" where
  "last_time time xs = (if xs = [] then [] else [time (last xs)])"

definition driveReport :: "recording \<Rightarrow> run_report" where
  "driveReport r =
     (let t0 = startTime r;
          command = commandSeries r t0; measured = measuredSeries r t0; path = pathSeries r t0; front = frontSeries r t0;
          times = last_time mo_t command @ last_time mo_t measured @ last_time pt_t path @ last_time fr_t front;
          end_value = (\<lambda>f. if path = [] then None else Some (f (last path)));
          distance = pathLength path None None
      in \<lparr> rr_command = thin mo_t (REPORT_PERIOD / 2) None command,
           rr_measured = thin mo_t REPORT_PERIOD None measured,
           rr_path = thinPath path, rr_front = front,
           rr_summary =
             \<lparr> ru_seconds = foldl max 0 times, ru_driveSeconds = driveTime command, ru_distance = distance,
               ru_forward = end_value pt_x, ru_left = end_value pt_y, ru_turn = end_value pt_turn,
               ru_maxSpeed = peak (map mo_v measured), ru_maxTurnRate = peak (map mo_w measured),
               ru_maxCommand = peak (map mo_v command), ru_stop = stopping command measured path,
               ru_emergencyStop = list_ex mo_estop measured,
               ru_closest = (if front = [] then None else Some (min_of (map fr_d front))),
               ru_moved = hasMoved distance (end_value pt_turn) command \<rparr> \<rparr>)"

definition isEmptyRun :: "recording \<Rightarrow> bool" where
  "isEmptyRun r \<longleftrightarrow> \<not> ru_moved (rr_summary (driveReport r))"

section \<open>How a run ended\<close>

datatype run_status = RanOk | RunStopped | RunProblem | RunRecorded

definition RUN_STATUS :: "(string \<times> run_status) list" where
  "RUN_STATUS =
     [(''done'', RanOk), (''stopped'', RunStopped), (''stopped_other'', RunStopped), (''hidden'', RunStopped),
      (''timeout'', RunProblem), (''time_limit'', RunProblem), (''disconnected'', RunProblem), (''lost'', RunProblem),
      (''emergency_stop'', RunProblem), (''other_publisher'', RunProblem), (''no_drive_node'', RunProblem),
      (''no_motion_permission'', RunProblem), (''not_allowed'', RunProblem), (''invalid'', RunProblem),
      (''failed'', RunProblem), (''no_answer'', RunProblem), (''controller'', RunStopped), (''recorded'', RunRecorded)]"

definition runStatusKind :: "string \<Rightarrow> run_status" where
  "runStatusKind reason = coalesce (map_of RUN_STATUS reason) RunStopped"

datatype status_key = ByController | OfKind run_status

definition runStatusKey :: "string \<Rightarrow> status_key" where
  "runStatusKey reason = (if reason = ''controller'' then ByController else OfKind (runStatusKind reason))"

section \<open>The bench test\<close>

definition BENCH_SETTLE :: real where "BENCH_SETTLE = 3 / 10"
definition BENCH_TURNING :: real where "BENCH_TURNING = 2"
definition BENCH_EVEN :: real where "BENCH_EVEN = 1 / 4"

text \<open>The commands that count, as stamp and whether they ask for motion; \<open>None\<close> is no end at all.\<close>

definition labCommandEnd :: "(real \<times> bool) list \<Rightarrow> real option" where
  "labCommandEnd commands =
     (case find_index snd commands of
        None \<Rightarrow> None
      | Some first \<Rightarrow>
          (case find_index (\<lambda>c. \<not> snd c) (drop first commands) of
             None \<Rightarrow> Some (fst (commands ! (length commands - 1)))
           | Some stopped \<Rightarrow> Some (fst (commands ! (first + stopped - 1)))))"

datatype bench_move =
    BenchStill | BenchForward | BenchBackward | BenchLeft | BenchRight
  | BenchForwardLeft | BenchForwardRight | BenchBackwardLeft | BenchBackwardRight

definition benchMove :: "real \<Rightarrow> real \<Rightarrow> bench_move" where
  "benchMove left right =
     (let turningLeft = (\<bar>left\<bar> \<ge> BENCH_TURNING); turningRight = (\<bar>right\<bar> \<ge> BENCH_TURNING);
          turn = right - left; even' = (\<bar>turn\<bar> \<le> BENCH_EVEN * max \<bar>left\<bar> \<bar>right\<bar>)
      in if \<not> turningLeft \<and> \<not> turningRight then BenchStill
         else if turningLeft \<and> turningRight \<and> sgn left \<noteq> sgn right then (if turn > 0 then BenchLeft else BenchRight)
         else if left + right > 0
         then (if even' then BenchForward else if turn > 0 then BenchForwardLeft else BenchForwardRight)
         else (if even' then BenchBackward else if turn > 0 then BenchBackwardLeft else BenchBackwardRight))"

datatype bench_check = BenchSkipped | BenchNothing | BenchMoved real real bench_move

definition bench_commands :: "recording \<Rightarrow> (real \<times> bool) list" where
  "bench_commands r =
     List.map_filter (\<lambda>m. let c = twist_of m in
         map_option (\<lambda>s. (mo_t s, asks_motion s)) (motion_at (tw_stamp c) (tw_linear c) (tw_angular c) False))
       (messages_of r ''twist'')"

definition benchCheck :: "recording \<Rightarrow> string option \<Rightarrow> bench_check" where
  "benchCheck r reason =
     (if reason = Some ''controller'' then BenchSkipped
      else let zero = commandZero r; e = labCommandEnd (bench_commands r);
               held = filter (\<lambda>m. mo_t m \<ge> zero + BENCH_SETTLE \<and> (case e of None \<Rightarrow> True | Some t \<Rightarrow> mo_t m \<le> t)) (measuredSeries r 0);
               wheels = map (\<lambda>m. wheelRpm (mo_v m) (mo_w m) (geometry_of r)) held;
               mean = (\<lambda>side. sum_list (map (side_rpm side) wheels) / real (length wheels))
           in if held = [] then BenchNothing
              else BenchMoved (mean LeftSide) (mean RightSide) (benchMove (mean LeftSide) (mean RightSide)))"

section \<open>Words of a report\<close>

definition degreesOf :: "real \<Rightarrow> real" where
  "degreesOf radians = radians * 180 / pi"

datatype turn_words = TurnUnknown | TurnNone | TurnLeft int | TurnRight int

definition describeTurn :: "num \<Rightarrow> turn_words" where
  "describeTurn radians =
     (case radians of
        None \<Rightarrow> TurnUnknown
      | Some a \<Rightarrow>
          let degrees = js_round \<bar>degreesOf a\<bar>
          in if degrees = 0 then TurnNone else if a > 0 then TurnLeft degrees else TurnRight degrees)"

datatype axis_words = AxisZero | AxisPositive string | AxisNegative string

definition describeAxis :: "real \<Rightarrow> axis_words" where
  "describeAxis metres =
     (let centimetres = \<bar>metres * 100\<bar>
      in if to_fixed 1 centimetres = 0 then AxisZero
         else if metres > 0 then AxisPositive (fixed_text 1 centimetres) else AxisNegative (fixed_text 1 centimetres))"

text \<open>Forward and left, or \<open>None\<close> when where the run ended is not known.\<close>

definition describeOffset :: "num \<Rightarrow> num \<Rightarrow> (axis_words \<times> axis_words) option" where
  "describeOffset forward left =
     (case (forward, left) of (Some x, Some y) \<Rightarrow> Some (describeAxis x, describeAxis y) | _ \<Rightarrow> None)"

definition describeTurnRate :: "num \<Rightarrow> (string \<times> int) option" where
  "describeTurnRate rate = map_option (\<lambda>w. (fixed_text 2 w, js_round (degreesOf w))) rate"

section \<open>What a report tells of its recording\<close>

text \<open>The length of the odometry itself.\<close>

fun odom_length :: "(real \<times> real \<times> real \<times> real) list \<Rightarrow> real" where
  "odom_length ((_, x, y, _) # (s, x', y', a) # rest) = hypot (x' - x) (y' - y) + odom_length ((s, x', y', a) # rest)"
| "odom_length _ = 0"

lemma rotation_isometry: "hypot (x * cos a - y * sin a) (x * sin a + y * cos a) = hypot x y"
proof -
  have "(x * cos a - y * sin a) * (x * cos a - y * sin a) + (x * sin a + y * cos a) * (x * sin a + y * cos a)
      = (x * x + y * y) * ((sin a)\<^sup>2 + (cos a)\<^sup>2)"
    by algebra
  then show ?thesis by (simp add: hypot_def)
qed

lemma rotated_step:
  "hypot ((x' * cos a - y' * sin a) - (x * cos a - y * sin a)) ((x' * sin a + y' * cos a) - (x * sin a + y * cos a))
    = hypot (x' - x) (y' - y)"
  using rotation_isometry [of "x' - x" a "y' - y"] by (simp add: algebra_simps)

lemma path_from_single: "pathLength (path_from start t0 previous turn [v]) None None = 0"
  by (cases v; cases start) (simp add: Let_def)

lemma path_from_length: "pathLength (path_from start t0 previous turn poses) None None = odom_length poses"
proof (induction poses arbitrary: previous turn rule: odom_length.induct)
  case (1 s x y a s' x' y' a' rest)
  obtain x0 y0 a0 where start: "start = (x0, y0, a0)" by (metis prod.exhaust)
  have "hypot ((x' - x0) * cos (- a0) - (y' - y0) * sin (- a0) - ((x - x0) * cos (- a0) - (y - y0) * sin (- a0)))
      ((x' - x0) * sin (- a0) + (y' - y0) * cos (- a0) - ((x - x0) * sin (- a0) + (y - y0) * cos (- a0))) = hypot (x' - x) (y' - y)"
    using rotated_step [of "x' - x0" "- a0" "y' - y0" "x - x0" "y - y0"] by simp
  then show ?case
    using "1.IH" [of a "turn + wrap_angle (a - previous)"] unfolding start path_from.simps Let_def prod.case pathLength.simps
    by (simp add: outside_span_def)
qed (simp_all add: path_from_single)

lemma path_from_last:
  assumes "poses \<noteq> []" "cos turn = cos (previous - a0)" "sin turn = sin (previous - a0)"
  shows "case last poses of (s, x, y, a) \<Rightarrow>
      let p = last (path_from (x0, y0, a0) t0 previous turn poses)
      in hypot (pt_x p) (pt_y p) = hypot (x - x0) (y - y0) \<and> cos (pt_turn p) = cos (a - a0) \<and> sin (pt_turn p) = sin (a - a0)"
  using assms
proof (induction poses arbitrary: previous turn)
  case Nil
  then show ?case by simp
next
  case (Cons pose rest)
  obtain s x y a where pose: "pose = (s, x, y, a)" by (metis prod.exhaust)
  define turn' where "turn' = turn + wrap_angle (a - previous)"
  have angle: "cos turn' = cos (a - a0)" "sin turn' = sin (a - a0)"
  proof -
    have "cos turn' = cos ((previous - a0) + (a - previous))" "sin turn' = sin ((previous - a0) + (a - previous))"
      by (simp_all only: turn'_def cos_add sin_add cos_wrap_angle sin_wrap_angle Cons.prems)
    then show "cos turn' = cos (a - a0)" "sin turn' = sin (a - a0)" by simp_all
  qed
  show ?case
  proof (cases "rest = []")
    case True
    then show ?thesis
      using angle rotation_isometry [of "x - x0" "- a0" "y - y0"] by (simp add: pose Let_def turn'_def [symmetric])
  next
    case False
    have "path_from (x0, y0, a0) t0 a turn' rest \<noteq> []" using False by (cases rest) (auto simp: Let_def)
    then show ?thesis using Cons.IH [OF False angle] False by (simp add: pose Let_def turn'_def [symmetric])
  qed
qed

text \<open>
  A thinned series: some samples in their order with the first among them, one period or more apart, and every
  sample left out comes less than a period after one that was kept.
\<close>

fun period_apart :: "('a \<Rightarrow> real) \<Rightarrow> real \<Rightarrow> 'a list \<Rightarrow> bool" where
  "period_apart time period (x # y # rest) \<longleftrightarrow> time x + period \<le> time y \<and> period_apart time period (y # rest)"
| "period_apart time period _ \<longleftrightarrow> True"

definition thinned :: "('a \<Rightarrow> real) \<Rightarrow> real \<Rightarrow> 'a list \<Rightarrow> 'a list \<Rightarrow> bool" where
  "thinned time period all kept \<longleftrightarrow>
     subseq kept all \<and> period_apart time period kept \<and> (all = [] \<or> kept \<noteq> [] \<and> hd kept = hd all)
     \<and> (\<forall>x\<in>set all. \<exists>y\<in>set kept. time x < time y + period)"

lemma subseq_thin: "subseq (thin time period due xs) xs"
  by (induction time period due xs rule: thin.induct) auto

lemma thin_after: "thin time period (Some d) xs = y # ys \<Longrightarrow> d \<le> time y"
  by (induction xs) (auto split: if_splits)

lemma thin_apart: "period_apart time period (thin time period due xs)"
proof (induction time period due xs rule: thin.induct)
  case (2 time period due x xs)
  then show ?case
  proof (cases "case due of None \<Rightarrow> False | Some d \<Rightarrow> time x < d")
    case False
    then have rest: "period_apart time period (thin time period (Some (time x + period)) xs)" using 2 by simp
    show ?thesis
    proof (cases "thin time period (Some (time x + period)) xs")
      case (Cons y ys)
      then show ?thesis using False rest thin_after [OF Cons] by simp
    qed (use False in simp)
  qed simp
qed simp

lemma thin_covers:
  "0 < period \<Longrightarrow> x \<in> set xs \<Longrightarrow>
    (case due of None \<Rightarrow> False | Some d \<Rightarrow> time x < d) \<or> (\<exists>y\<in>set (thin time period due xs). time x < time y + period)"
  by (induction time period due xs rule: thin.induct) (auto split: option.splits if_splits)

lemma thin_thinned: "0 < period \<Longrightarrow> thinned time period xs (thin time period None xs)"
  unfolding thinned_def using subseq_thin [of time period None xs] thin_apart [of time period None xs] thin_covers [where period = period and xs = xs and due = None and time = time]
  by (cases xs) auto

text \<open>
  The stop of a run: the first command after the last one that asked for motion, and the first measurement from
  then on that stands.
\<close>

definition stop_sound :: "motion_sample list \<Rightarrow> motion_sample list \<Rightarrow> stop option \<Rightarrow> bool" where
  "stop_sound command measured result \<longleftrightarrow>
     (case result of
        None \<Rightarrow> True
      | Some s \<Rightarrow>
          (\<exists>i<length command. i > 0 \<and> asks_motion (command ! (i - 1)) \<and> list_all (\<lambda>c. \<not> asks_motion c) (drop i command)
             \<and> st_at s = mo_t (command ! i))
          \<and> (\<exists>m\<in>set measured. stands m \<and> st_at s \<le> mo_t m \<and> st_delay s = mo_t m - st_at s)
          \<and> 0 \<le> st_delay s \<and> 0 \<le> st_distance s)"

lemma find_last_index_spec:
  "case find_last_index P xs of
     None \<Rightarrow> list_all (\<lambda>x. \<not> P x) xs
   | Some i \<Rightarrow> i < length xs \<and> P (xs ! i) \<and> list_all (\<lambda>x. \<not> P x) (drop (Suc i) xs)"
proof (induction xs)
  case (Cons x xs)
  then show ?case by (cases "find_last_index P xs") auto
qed simp

lemma pathLength_nonneg: "0 \<le> pathLength path from' to'"
  by (induction path from' to' rule: pathLength.induct) auto

lemma stopping_sound: "stop_sound command measured (stopping command measured path)"
proof (cases "stopping command measured path")
  case None
  then show ?thesis by (simp add: stop_sound_def)
next
  case (Some s)
  then obtain first last' still where span: "movingSpan command = Some (first, last')" and less: "Suc last' < length command"
    and found: "find (\<lambda>m. mo_t m \<ge> mo_t (command ! Suc last') \<and> stands m) measured = Some still"
    and s: "s = \<lparr> st_at = mo_t (command ! Suc last'), st_delay = mo_t still - mo_t (command ! Suc last'),
      st_distance = pathLength path (Some (mo_t (command ! Suc last'))) (Some (mo_t still)) \<rparr>"
    by (auto simp: stopping_def Let_def split: option.splits if_splits)
  have "find_last_index asks_motion command = Some last'" using span by (auto simp: movingSpan_def split: option.splits)
  then have "asks_motion (command ! last')" "list_all (\<lambda>c. \<not> asks_motion c) (drop (Suc last') command)"
    using find_last_index_spec [of asks_motion command] by simp_all
  moreover have "still \<in> set measured" "mo_t still \<ge> mo_t (command ! Suc last')" "stands still"
    using found by (auto simp: find_Some_iff)
  ultimately show ?thesis
    unfolding stop_sound_def Some s option.case using less pathLength_nonneg by (auto intro!: exI [of _ "Suc last'"])
qed

definition ends_at :: "real \<times> real \<times> real \<times> real \<Rightarrow> real \<times> real \<times> real \<times> real \<Rightarrow> run_summary \<Rightarrow> bool" where
  "ends_at first end' s =
     (case (first, end', ru_forward s, ru_left s, ru_turn s) of
        ((_, x0, y0, a0), (_, x, y, a), Some forward, Some left, Some turn) \<Rightarrow>
          hypot forward left = hypot (x - x0) (y - y0) \<and> cos turn = cos (a - a0) \<and> sin turn = sin (a - a0)
      | _ \<Rightarrow> False)"

lemma pathSeries_shape:
  "pathSeries r t0 = (case odom_poses r of [] \<Rightarrow> [] | p # rest \<Rightarrow> path_from (snd p) t0 (snd (snd (snd p))) 0 (p # rest))"
  by (auto simp: pathSeries_def split: list.split)

lemma path_from_Nil: "path_from start t0 previous turn poses = [] \<longleftrightarrow> poses = []"
  by (cases poses; cases start) (auto simp: Let_def)

text \<open>
  The report of a run tells what its recording holds: the distance is the length of the odometry and the run
  ends where, and turned by what, the odometry says, whatever pose it started from; the kept series are thinned
  ones of all valid commands and measurements; and a reported stop is the first command after the last one that
  asked for motion with the first later measurement that stands.
\<close>

theorem report_tells_run:
  "let rep = driveReport r; s = rr_summary rep; poses = odom_poses r; t0 = commandZero r
   in ru_distance s = odom_length poses
      \<and> (if poses = [] then ru_forward s = None else ends_at (hd poses) (last poses) s)
      \<and> thinned mo_t (REPORT_PERIOD / 2) (commandSeries r t0) (rr_command rep)
      \<and> thinned mo_t REPORT_PERIOD (measuredSeries r t0) (rr_measured rep)
      \<and> stop_sound (commandSeries r t0) (measuredSeries r t0) (ru_stop s)"
proof -
  let ?s = "rr_summary (driveReport r)" and ?path = "pathSeries r (commandZero r)" and ?poses = "odom_poses r"
  have distance: "ru_distance ?s = odom_length ?poses"
    by (cases ?poses) (simp_all add: driveReport_def Let_def startTime_def pathSeries_shape path_from_length del: path_from.simps)
  have thins: "thinned mo_t (REPORT_PERIOD / 2) (commandSeries r (commandZero r)) (rr_command (driveReport r))"
    "thinned mo_t REPORT_PERIOD (measuredSeries r (commandZero r)) (rr_measured (driveReport r))"
    by (simp_all add: driveReport_def Let_def startTime_def thin_thinned REPORT_PERIOD_def)
  have stop: "stop_sound (commandSeries r (commandZero r)) (measuredSeries r (commandZero r)) (ru_stop ?s)"
    by (simp add: driveReport_def Let_def startTime_def stopping_sound)
  have ends: "if ?poses = [] then ru_forward ?s = None else ends_at (hd ?poses) (last ?poses) ?s"
  proof (cases ?poses)
    case Nil
    then show ?thesis by (simp add: driveReport_def Let_def startTime_def pathSeries_shape)
  next
    case (Cons p rest)
    obtain s0 x0 y0 a0 where p: "p = (s0, x0, y0, a0)" by (metis prod.exhaust)
    obtain s x y a where e: "last ?poses = (s, x, y, a)" by (metis prod.exhaust)
    have path: "?path = path_from (x0, y0, a0) (commandZero r) a0 0 ?poses"
      unfolding pathSeries_shape Cons by (simp add: p)
    have "?path \<noteq> []" unfolding path path_from_Nil Cons by simp
    then have summary: "ru_forward ?s = Some (pt_x (last ?path))" "ru_left ?s = Some (pt_y (last ?path))"
      "ru_turn ?s = Some (pt_turn (last ?path))"
      by (simp_all add: driveReport_def Let_def startTime_def)
    show ?thesis
      using path_from_last [of ?poses 0 a0 a0 x0 y0 "commandZero r"] Cons
      unfolding ends_at_def summary e path by (simp add: p Let_def)
  qed
  show ?thesis unfolding Let_def using distance thins stop ends by blast
qed


end
