(* ===== verification/Drive_History.thy ===== *)
theory Drive_History
  imports Drive_Report "HOL-Library.AList"
begin

text \<open>
  The history of driving runs, \<open>lab/js/live/drive-history.js\<close>: the list of the newest runs, its copy in
  \<open>localStorage\<close> (cut to what fits), and the full recordings in IndexedDB. Requests to the database are
  answered one after another in the order they were made, as IndexedDB does for one store; an answer may be a
  failure, and a reload of the page forgets the requests that are still waiting. The random keys of the
  recordings are modelled by a counter: no two are equal. \<open>JSON.stringify\<close> and whether the browser lets the
  page store anything are parameters; the latter is one answer for the whole visit, so a storage that fills up
  between two writes is not modelled.
\<close>

section \<open>Runs\<close>

definition MAX_RUNS :: nat where "MAX_RUNS = 20"
definition MAX_STORED_CHARS :: nat where "MAX_STORED_CHARS = 1024 * 1024"

text \<open>What the caller says about a run; a field left out (\<open>undefined\<close>) is \<open>None\<close>.\<close>

record run_details =
  rd_conditions :: "string option"
  rd_program :: "string option"
  rd_ended :: "string option"
  rd_reason :: "string option"
  rd_robot :: "string option"
  rd_group :: "string option"
  rd_source :: "string option"
  rd_references :: "json option"
  rd_cut :: "bool option"

record run =
  hr_id :: nat
  hr_key :: nat
  hr_at :: "json option"
  hr_slot :: string
  hr_lesson :: string
  hr_conditions :: string
  hr_program :: string
  hr_ended :: string
  hr_reason :: string
  hr_robot :: string
  hr_group :: string
  hr_source :: string
  hr_references :: json
  hr_cut :: bool
  hr_kept :: bool
  hr_robotId :: string
  hr_report :: run_report
  hr_recording :: "recording option"

text \<open>The run of a recording with the defaults of the fields that are left out.\<close>

definition new_run :: "nat \<Rightarrow> nat \<Rightarrow> string \<Rightarrow> string \<Rightarrow> run_details \<Rightarrow> recording \<Rightarrow> json \<Rightarrow> run" where
  "new_run ident key slot lesson d r now =
     \<lparr> hr_id = ident, hr_key = key,
       hr_at = Some (case rc_recorded_at r of None \<Rightarrow> now | Some v \<Rightarrow> if v = JNull then now else v),
       hr_slot = slot, hr_lesson = lesson, hr_conditions = coalesce (rd_conditions d) [],
       hr_program = coalesce (rd_program d) [], hr_ended = coalesce (rd_ended d) [], hr_reason = coalesce (rd_reason d) [],
       hr_robot = coalesce (rd_robot d) [], hr_group = coalesce (rd_group d) [], hr_source = coalesce (rd_source d) ''live'',
       hr_references = coalesce (rd_references d) (JObj []), hr_cut = coalesce (rd_cut d) False, hr_kept = False,
       hr_robotId = [], hr_report = driveReport r, hr_recording = Some r \<rparr>"

section \<open>The state of the page\<close>

datatype db_request =
    PutRecording nat nat recording
  | GetRecording nat nat
  | DeleteRecording nat
  | ListKeys

text \<open>The list, the number of the next run, the next key, what \<open>localStorage\<close> and the database hold, the
  requests waiting, and what was handed over of the recordings asked for.\<close>

record history =
  hs_runs :: "run list"
  hs_next :: nat
  hs_next_key :: nat
  hs_stored :: "run list"
  hs_database :: "(nat \<times> recording) list"
  hs_requests :: "db_request list"
  hs_given :: "(nat \<times> recording option) list"

record browser =
  br_storage :: bool
  br_database :: bool
  br_text_length :: "run list \<Rightarrow> nat"

definition without_recording :: "run \<Rightarrow> run" where
  "without_recording run = run\<lparr> hr_recording := None \<rparr>"

text \<open>The loop that leaves out the oldest runs while the text is too long.\<close>

function fitting :: "(run list \<Rightarrow> nat) \<Rightarrow> run list \<Rightarrow> run list" where
  "fitting text_length kept =
     (if text_length kept > MAX_STORED_CHARS \<and> length kept > 1 then fitting text_length (butlast kept) else kept)"
  by pat_completeness auto
termination by (relation "measure (\<lambda>(_, kept). length kept)") auto

declare fitting.simps [simp del]

definition store :: "browser \<Rightarrow> history \<Rightarrow> history" where
  "store b hs =
     (if br_storage b then hs\<lparr> hs_stored := fitting (br_text_length b) (map without_recording (hs_runs hs)) \<rparr> else hs)"

definition ask :: "browser \<Rightarrow> db_request list \<Rightarrow> history \<Rightarrow> history" where
  "ask b requests hs = (if br_database b then hs\<lparr> hs_requests := hs_requests hs @ requests \<rparr> else hs)"

definition forget :: "browser \<Rightarrow> nat list \<Rightarrow> history \<Rightarrow> history" where
  "forget b ks = ask b (map DeleteRecording ks)"

definition keepInDatabase :: "browser \<Rightarrow> run \<Rightarrow> history \<Rightarrow> history" where
  "keepInDatabase b run hs =
     (case hr_recording run of None \<Rightarrow> hs | Some r \<Rightarrow> ask b [PutRecording (hr_id run) (hr_key run) r] hs)"

definition addDriveRun :: "browser \<Rightarrow> string \<Rightarrow> string \<Rightarrow> run_details \<Rightarrow> recording \<Rightarrow> json \<Rightarrow> history \<Rightarrow> history" where
  "addDriveRun b slot lesson d r now hs =
     (let run = new_run (hs_next hs) (hs_next_key hs) slot lesson d r now;
          dropped = drop MAX_RUNS (run # hs_runs hs)
      in keepInDatabase b run (store b (forget b (map hr_key dropped)
           (hs\<lparr> hs_runs := take MAX_RUNS (run # hs_runs hs), hs_next := hs_next hs + 1, hs_next_key := hs_next_key hs + 1 \<rparr>))))"

definition driveRun :: "nat \<Rightarrow> history \<Rightarrow> run option" where
  "driveRun ident hs = find (\<lambda>run. hr_id run = ident) (hs_runs hs)"

definition hasRecording :: "run \<Rightarrow> bool" where
  "hasRecording run \<longleftrightarrow> hr_recording run \<noteq> None \<or> hr_kept run"

definition update_run :: "nat \<Rightarrow> (run \<Rightarrow> run) \<Rightarrow> history \<Rightarrow> history" where
  "update_run key f hs = hs\<lparr> hs_runs := map (\<lambda>run. if hr_key run = key then f run else run) (hs_runs hs) \<rparr>"

definition give :: "nat \<Rightarrow> recording option \<Rightarrow> history \<Rightarrow> history" where
  "give key r hs = hs\<lparr> hs_given := hs_given hs @ [(key, r)] \<rparr>"

text \<open>A run's recording: from memory, from the database when it was kept, or none. The key tells whose it is.\<close>

definition driveRunRecording :: "browser \<Rightarrow> nat \<Rightarrow> history \<Rightarrow> history" where
  "driveRunRecording b ident hs =
     (case driveRun ident hs of
        None \<Rightarrow> hs
      | Some run \<Rightarrow>
          (case hr_recording run of
             Some r \<Rightarrow> give (hr_key run) (Some r) hs
           | None \<Rightarrow>
               (if \<not> hr_kept run then give (hr_key run) None hs
                else if br_database b then ask b [GetRecording (hr_id run) (hr_key run)] hs
                else give (hr_key run) None hs)))"

definition markRunOnRobot :: "browser \<Rightarrow> nat \<Rightarrow> string \<Rightarrow> history \<Rightarrow> history" where
  "markRunOnRobot b ident robotId hs =
     (case driveRun ident hs of
        None \<Rightarrow> hs
      | Some run \<Rightarrow> if robotId = [] then hs else store b (update_run (hr_key run) (\<lambda>run. run\<lparr> hr_robotId := robotId \<rparr>) hs))"

definition clearDriveRuns :: "browser \<Rightarrow> history \<Rightarrow> history" where
  "clearDriveRuns b hs = store b ((forget b (map hr_key (hs_runs hs)) hs)\<lparr> hs_runs := [] \<rparr>)"

text \<open>The answer to \<open>getAllKeys\<close>.\<close>

definition keys_listed :: "browser \<Rightarrow> nat list \<Rightarrow> history \<Rightarrow> history" where
  "keys_listed b ks hs =
     (let runs = map (\<lambda>run. run\<lparr> hr_kept := hr_key run \<in> set ks \<rparr>) (hs_runs hs);
          changed = (map hr_kept runs \<noteq> map hr_kept (hs_runs hs));
          hs' = forget b (filter (\<lambda>k. k \<notin> set (map hr_key (hs_runs hs))) ks) (hs\<lparr> hs_runs := runs \<rparr>)
      in if changed then store b hs' else hs')"

definition put_done :: "browser \<Rightarrow> nat \<Rightarrow> history \<Rightarrow> history" where
  "put_done b key hs =
     (if key \<in> set (map hr_key (hs_runs hs)) then store b (update_run key (\<lambda>run. run\<lparr> hr_kept := True \<rparr>) hs) else hs)"

definition got_recording :: "nat \<Rightarrow> recording option \<Rightarrow> history \<Rightarrow> history" where
  "got_recording key r hs =
     give key r (case r of None \<Rightarrow> hs | Some rec \<Rightarrow> update_run key (\<lambda>run. run\<lparr> hr_recording := Some rec \<rparr>) hs)"

text \<open>The database does the first request, unless it fails, and the page takes the answer.\<close>

definition database_after :: "db_request \<Rightarrow> (nat \<times> recording) list \<Rightarrow> (nat \<times> recording) list" where
  "database_after request db =
     (case request of
        PutRecording _ key r \<Rightarrow> AList.update key r db
      | DeleteRecording key \<Rightarrow> AList.delete key db
      | _ \<Rightarrow> db)"

definition database_answers :: "browser \<Rightarrow> bool \<Rightarrow> history \<Rightarrow> history" where
  "database_answers b ok hs =
     (case hs_requests hs of
        [] \<Rightarrow> hs
      | request # waiting \<Rightarrow>
          (let hs = hs\<lparr> hs_requests := waiting, hs_database := (if ok then database_after request (hs_database hs) else hs_database hs) \<rparr>
           in case request of
                PutRecording _ key _ \<Rightarrow> if ok then put_done b key hs else hs
              | GetRecording _ key \<Rightarrow> got_recording key (if ok then map_of (hs_database hs) key else None) hs
              | DeleteRecording _ \<Rightarrow> hs
              | ListKeys \<Rightarrow> if ok then keys_listed b (map fst (hs_database hs)) hs else hs))"

text \<open>
  The page as it starts: the runs stored, without their recordings, and a look at the database. Of the requests
  that were waiting, the first \<open>n\<close> were carried out, the others are lost; nobody took their answers.
\<close>

definition carried_out :: "nat \<Rightarrow> history \<Rightarrow> (nat \<times> recording) list" where
  "carried_out n hs = fold database_after (take n (hs_requests hs)) (hs_database hs)"

definition load_history :: "browser \<Rightarrow> history \<Rightarrow> history" where
  "load_history b hs =
     ask b [ListKeys]
       (hs\<lparr> hs_runs := hs_stored hs, hs_next := foldl (\<lambda>n run. max n (hr_id run)) 0 (hs_stored hs) + 1, hs_requests := [],
            hs_given := [] \<rparr>)"

definition first_visit :: "browser \<Rightarrow> history" where
  "first_visit b =
     load_history b \<lparr> hs_runs = [], hs_next = 1, hs_next_key = 0, hs_stored = [], hs_database = [], hs_requests = [], hs_given = [] \<rparr>"

datatype history_event =
    AddRun string string run_details recording json
  | AskRecording nat
  | MarkOnRobot nat string
  | ClearRuns
  | DatabaseAnswers bool
  | ReloadPage nat

fun history_step :: "browser \<Rightarrow> history_event \<Rightarrow> history \<Rightarrow> history" where
  "history_step b (AddRun slot lesson d r now) hs = addDriveRun b slot lesson d r now hs"
| "history_step b (AskRecording ident) hs = driveRunRecording b ident hs"
| "history_step b (MarkOnRobot ident robotId) hs = markRunOnRobot b ident robotId hs"
| "history_step b ClearRuns hs = clearDriveRuns b hs"
| "history_step b (DatabaseAnswers ok) hs = database_answers b ok hs"
| "history_step b (ReloadPage n) hs = load_history b (hs\<lparr> hs_database := carried_out n hs \<rparr>)"

section \<open>Lists drawn from the history\<close>

record run_choice =
  ch_id :: nat
  ch_at :: "json option"
  ch_label :: string
  ch_conditions :: string
  ch_reason :: string
  ch_status :: run_status
  ch_ok :: bool
  ch_kept :: bool

text \<open>The short name of a run, as \<open>recordingLabel\<close> names a recording with the run's group, conditions and time.\<close>

definition label_recording :: "run \<Rightarrow> recording" where
  "label_recording run =
     \<lparr> rc_source = None, rc_name = None, rc_recorded_at = hr_at run, rc_config = wheels_of None, rc_topics = JObj [],
       rc_streams = [],
       rc_info = (runInfo None)\<lparr> ri_group := Some (hr_group run),
         ri_conditions := (if hr_conditions run = [] then None else Some \<lparr> cn_values = [], cn_label = hr_conditions run \<rparr>) \<rparr> \<rparr>"

definition driveRunName :: "run \<Rightarrow> local_time option \<Rightarrow> string" where
  "driveRunName run time = recordingLabel (label_recording run) time"

definition driveRunsFor :: "string \<Rightarrow> (run \<Rightarrow> local_time option) \<Rightarrow> history \<Rightarrow> run_choice list" where
  "driveRunsFor slot time hs =
     map (\<lambda>run. \<lparr> ch_id = hr_id run, ch_at = hr_at run, ch_label = driveRunName run (time run), ch_conditions = hr_conditions run,
            ch_reason = hr_reason run, ch_status = runStatusKind (hr_reason run), ch_ok = (hr_reason run = ''done''),
            ch_kept = hasRecording run \<rparr>)
       (filter (\<lambda>run. hr_slot run = slot) (hs_runs hs))"

section \<open>Every recording is the one its run was made of\<close>

text \<open>The recordings in the order they were added: the recording of key \<open>k\<close> is the one at place \<open>k\<close>.\<close>

fun made_by :: "history_event \<Rightarrow> recording list" where
  "made_by (AddRun slot lesson d r now) = [r]"
| "made_by _ = []"

definition made :: "history_event list \<Rightarrow> recording list" where
  "made events = concat (map made_by events)"

definition key_true :: "recording list \<Rightarrow> nat \<Rightarrow> recording option \<Rightarrow> bool" where
  "key_true M k r \<longleftrightarrow> k < length M \<and> (case r of None \<Rightarrow> True | Some rec \<Rightarrow> rec = M ! k)"

definition newest_first :: "run list \<Rightarrow> bool" where
  "newest_first runs \<longleftrightarrow> sorted_wrt (\<lambda>a b. hr_id b < hr_id a \<and> hr_key b < hr_key a) runs"

definition run_keys :: "run list \<Rightarrow> nat set" where
  "run_keys runs = hr_key ` set runs"

definition runs_sound :: "recording list \<Rightarrow> (nat \<Rightarrow> recording option) \<Rightarrow> run list \<Rightarrow> bool" where
  "runs_sound M db runs \<longleftrightarrow>
     newest_first runs \<and> length runs \<le> MAX_RUNS
     \<and> list_all (\<lambda>run. key_true M (hr_key run) (hr_recording run) \<and> (hr_kept run \<longrightarrow> db (hr_key run) \<noteq> None)) runs"

definition database_sound :: "recording list \<Rightarrow> (nat \<Rightarrow> recording option) \<Rightarrow> bool" where
  "database_sound M db \<longleftrightarrow> (\<forall>k. db k \<noteq> None \<longrightarrow> key_true M k (db k))"

fun request_sound :: "recording list \<Rightarrow> nat set \<Rightarrow> db_request \<Rightarrow> bool" where
  "request_sound M ks (PutRecording _ k r) \<longleftrightarrow> key_true M k (Some r)"
| "request_sound M ks (GetRecording _ k) \<longleftrightarrow> key_true M k None"
| "request_sound M ks (DeleteRecording k) \<longleftrightarrow> k \<notin> ks \<and> k < length M"
| "request_sound M ks ListKeys \<longleftrightarrow> True"

definition kept_stored :: "browser \<Rightarrow> run list \<Rightarrow> run list" where
  "kept_stored b runs = (if br_storage b then fitting (br_text_length b) (map without_recording runs) else [])"

definition history_sound :: "browser \<Rightarrow> recording list \<Rightarrow> history \<Rightarrow> bool" where
  "history_sound b M hs \<longleftrightarrow>
     hs_next_key hs = length M
     \<and> runs_sound M (map_of (hs_database hs)) (hs_runs hs)
     \<and> list_all (\<lambda>run. hr_id run < hs_next hs) (hs_runs hs)
     \<and> hs_stored hs = kept_stored b (hs_runs hs)
     \<and> database_sound M (map_of (hs_database hs))
     \<and> list_all (request_sound M (run_keys (hs_runs hs))) (hs_requests hs)
     \<and> list_all (\<lambda>(k, r). key_true M k r) (hs_given hs)"

lemma key_true_more: "key_true M k r \<Longrightarrow> key_true (M @ N) k r"
  by (auto simp: key_true_def nth_append split: option.splits)

lemma request_sound_more: "request_sound M ks q \<Longrightarrow> request_sound (M @ N) ks q"
  by (cases q) (auto intro: key_true_more)

lemma fitting_prefix: "\<exists>n. fitting sz kept = take n kept"
proof (induction sz kept rule: fitting.induct)
  case (1 sz kept)
  show ?case
  proof (cases "sz kept > MAX_STORED_CHARS \<and> length kept > 1")
    case True
    then obtain n where "fitting sz (butlast kept) = take n (butlast kept)" using 1 by blast
    then show ?thesis using True by (simp add: fitting.simps [of sz kept] butlast_conv_take) blast
  next
    case False
    then show ?thesis by (simp add: fitting.simps [of sz kept]) (metis order_refl take_all)
  qed
qed

lemma sorted_wrt_take: "sorted_wrt P xs \<Longrightarrow> sorted_wrt P (take n xs)"
  by (metis append_take_drop_id sorted_wrt_append)

lemma runs_sound_take: "runs_sound M db runs \<Longrightarrow> runs_sound M db (take n runs)"
  by (auto simp: runs_sound_def newest_first_def sorted_wrt_take list_all_iff dest: in_set_takeD)

lemma runs_sound_take_all:
  assumes "newest_first runs"
    "list_all (\<lambda>run. key_true M (hr_key run) (hr_recording run) \<and> (hr_kept run \<longrightarrow> db (hr_key run) \<noteq> None)) runs"
  shows "runs_sound M db (take MAX_RUNS runs)"
proof -
  have "newest_first (take MAX_RUNS runs)" using assms(1) unfolding newest_first_def by (rule sorted_wrt_take)
  moreover have "set (take MAX_RUNS runs) \<subseteq> set runs" by (rule set_take_subset)
  ultimately show ?thesis using assms(2) unfolding runs_sound_def list_all_iff by auto
qed

lemma runs_sound_map:
  assumes "runs_sound M db runs" "\<And>run. run \<in> set runs \<Longrightarrow> hr_id (f run) = hr_id run \<and> hr_key (f run) = hr_key run"
    "\<And>run. run \<in> set runs \<Longrightarrow> key_true M (hr_key run) (hr_recording (f run)) \<and> (hr_kept (f run) \<longrightarrow> db (hr_key run) \<noteq> None)"
  shows "runs_sound M db (map f runs)"
proof -
  have "sorted_wrt (\<lambda>a b. hr_id b < hr_id a \<and> hr_key b < hr_key a) runs"
    using assms(1) unfolding runs_sound_def newest_first_def by blast
  then have "sorted_wrt (\<lambda>a b. hr_id (f b) < hr_id (f a) \<and> hr_key (f b) < hr_key (f a)) runs"
    by (rule sorted_wrt_mono_rel [rotated]) (simp add: assms(2))
  then show ?thesis
  proof -
    assume sorted: "sorted_wrt (\<lambda>a b. hr_id (f b) < hr_id (f a) \<and> hr_key (f b) < hr_key (f a)) runs"
    have "\<forall>run\<in>set runs. key_true M (hr_key (f run)) (hr_recording (f run)) \<and> (hr_kept (f run) \<longrightarrow> db (hr_key (f run)) \<noteq> None)"
    proof
      fix run assume "run \<in> set runs"
      then show "key_true M (hr_key (f run)) (hr_recording (f run)) \<and> (hr_kept (f run) \<longrightarrow> db (hr_key (f run)) \<noteq> None)"
        using assms(2) [of run] assms(3) [of run] by simp
    qed
    moreover have "length runs \<le> MAX_RUNS" using assms(1) unfolding runs_sound_def by blast
    ultimately show ?thesis
      using sorted unfolding runs_sound_def newest_first_def sorted_wrt_map list_all_iff set_map length_map by blast
  qed
qed

lemma stored_sound:
  assumes "runs_sound M db runs"
  shows "runs_sound M db (kept_stored b runs)"
proof -
  have "runs_sound M db (map without_recording runs)"
    using assms by (intro runs_sound_map) (auto simp: without_recording_def runs_sound_def list_all_iff key_true_def)
  then show ?thesis
    unfolding kept_stored_def using fitting_prefix [of "br_text_length b" "map without_recording runs"] runs_sound_take
    by (auto simp: runs_sound_def newest_first_def)
qed

lemma store_fields [simp]:
  "hs_runs (store b hs) = hs_runs hs" "hs_next (store b hs) = hs_next hs" "hs_next_key (store b hs) = hs_next_key hs"
  "hs_database (store b hs) = hs_database hs" "hs_requests (store b hs) = hs_requests hs" "hs_given (store b hs) = hs_given hs"
  by (simp_all add: store_def)

lemma store_stored: "hs_stored hs = [] \<or> br_storage b \<Longrightarrow> hs_stored (store b hs) = kept_stored b (hs_runs hs)"
  by (auto simp: store_def kept_stored_def)

lemma ask_fields [simp]:
  "hs_runs (ask b qs hs) = hs_runs hs" "hs_next (ask b qs hs) = hs_next hs" "hs_next_key (ask b qs hs) = hs_next_key hs"
  "hs_database (ask b qs hs) = hs_database hs" "hs_stored (ask b qs hs) = hs_stored hs" "hs_given (ask b qs hs) = hs_given hs"
  "hs_requests (ask b qs hs) = hs_requests hs @ (if br_database b then qs else [])"
  by (simp_all add: ask_def)

lemma give_fields [simp]:
  "hs_runs (give k r hs) = hs_runs hs" "hs_next (give k r hs) = hs_next hs" "hs_next_key (give k r hs) = hs_next_key hs"
  "hs_database (give k r hs) = hs_database hs" "hs_stored (give k r hs) = hs_stored hs"
  "hs_given (give k r hs) = hs_given hs @ [(k, r)]" "hs_requests (give k r hs) = hs_requests hs"
  by (simp_all add: give_def)

lemma update_fields [simp]:
  "hs_next (update_run k f hs) = hs_next hs" "hs_next_key (update_run k f hs) = hs_next_key hs"
  "hs_database (update_run k f hs) = hs_database hs" "hs_stored (update_run k f hs) = hs_stored hs"
  "hs_given (update_run k f hs) = hs_given hs" "hs_requests (update_run k f hs) = hs_requests hs"
  "hs_runs (update_run k f hs) = map (\<lambda>run. if hr_key run = k then f run else run) (hs_runs hs)"
  by (simp_all add: update_run_def)

lemma forget_fields [simp]:
  "hs_runs (forget b ks hs) = hs_runs hs" "hs_next (forget b ks hs) = hs_next hs" "hs_next_key (forget b ks hs) = hs_next_key hs"
  "hs_database (forget b ks hs) = hs_database hs" "hs_stored (forget b ks hs) = hs_stored hs" "hs_given (forget b ks hs) = hs_given hs"
  "hs_requests (forget b ks hs) = hs_requests hs @ (if br_database b then map DeleteRecording ks else [])"
  by (simp_all add: forget_def)

lemma keep_fields [simp]:
  "hs_runs (keepInDatabase b run hs) = hs_runs hs" "hs_next (keepInDatabase b run hs) = hs_next hs"
  "hs_next_key (keepInDatabase b run hs) = hs_next_key hs" "hs_database (keepInDatabase b run hs) = hs_database hs"
  "hs_stored (keepInDatabase b run hs) = hs_stored hs" "hs_given (keepInDatabase b run hs) = hs_given hs"
  by (simp_all add: keepInDatabase_def split: option.split)

lemma requests_more: "list_all (request_sound M ks) qs \<Longrightarrow> list_all (request_sound (M @ N) ks) qs"
  by (auto simp: list_all_iff intro: request_sound_more)

lemma requests_fewer:
  "list_all (request_sound M ks) qs \<Longrightarrow> ks' \<subseteq> ks \<Longrightarrow> list_all (request_sound M ks') qs"
proof -
  have "request_sound M ks q \<Longrightarrow> ks' \<subseteq> ks \<Longrightarrow> request_sound M ks' q" for q by (cases q) auto
  then show "list_all (request_sound M ks) qs \<Longrightarrow> ks' \<subseteq> ks \<Longrightarrow> list_all (request_sound M ks') qs"
    by (auto simp: list_all_iff)
qed

lemma runs_more: "runs_sound M db runs \<Longrightarrow> runs_sound (M @ N) db runs"
  by (auto simp: runs_sound_def list_all_iff intro: key_true_more)

lemma database_more: "database_sound M db \<Longrightarrow> database_sound (M @ N) db"
  by (auto simp: database_sound_def intro: key_true_more)

lemma given_more: "list_all (\<lambda>(k, r). key_true M k r) xs \<Longrightarrow> list_all (\<lambda>(k, r). key_true (M @ N) k r) xs"
  by (auto simp: list_all_iff intro: key_true_more)

lemma sound_keys_below: "runs_sound M db runs \<Longrightarrow> k \<in> run_keys runs \<Longrightarrow> k < length M"
  by (auto simp: runs_sound_def run_keys_def list_all_iff key_true_def)

lemma run_keys_simps [simp]:
  "run_keys [] = {}" "run_keys (run # runs) = insert (hr_key run) (run_keys runs)" "run_keys (xs @ ys) = run_keys xs \<union> run_keys ys"
  by (auto simp: run_keys_def)

lemma run_keys_map: "(\<And>run. hr_key (f run) = hr_key run) \<Longrightarrow> run_keys (map f runs) = run_keys runs"
  by (simp add: run_keys_def image_image)

lemma newest_first_keys: "newest_first (xs @ ys) \<Longrightarrow> run_keys xs \<inter> run_keys ys = {}"
  by (fastforce simp: newest_first_def sorted_wrt_append run_keys_def)

lemma add_sound:
  assumes "history_sound b M hs"
  shows "history_sound b (M @ [r]) (addDriveRun b slot lesson d r now hs)"
proof -
  define run where "run = new_run (hs_next hs) (hs_next_key hs) slot lesson d r now"
  let ?runs = "take MAX_RUNS (run # hs_runs hs)" and ?dropped = "drop MAX_RUNS (run # hs_runs hs)"
  let ?hs = "addDriveRun b slot lesson d r now hs"
  note parts = assms [unfolded history_sound_def]
  have fields: "hr_key run = length M" "hr_id run = hs_next hs" "hr_recording run = Some r" "\<not> hr_kept run"
    using parts by (simp_all add: run_def new_run_def)
  define base where "base = forget b (map hr_key ?dropped)
    (hs\<lparr> hs_runs := ?runs, hs_next := hs_next hs + 1, hs_next_key := hs_next_key hs + 1 \<rparr>)"
  have add: "?hs = ask b [PutRecording (hr_id run) (hr_key run) r] (store b base)"
    by (simp only: addDriveRun_def Let_def run_def [symmetric] base_def [symmetric] keepInDatabase_def fields(3) option.case)
  have base: "hs_runs base = ?runs" "hs_next base = hs_next hs + 1" "hs_next_key base = hs_next_key hs + 1"
    "hs_database base = hs_database hs" "hs_given base = hs_given hs" "hs_stored base = hs_stored hs"
    "hs_requests base = hs_requests hs @ (if br_database b then map DeleteRecording (map hr_key ?dropped) else [])"
    by (simp_all add: base_def)
  have "hs_stored hs = [] \<or> br_storage b" using parts by (auto simp: kept_stored_def)
  then have stored: "hs_stored (store b base) = kept_stored b ?runs" using store_stored [of base b] base by simp
  have runs: "hs_runs ?hs = ?runs" "hs_next ?hs = hs_next hs + 1" "hs_next_key ?hs = hs_next_key hs + 1"
    "hs_database ?hs = hs_database hs" "hs_given ?hs = hs_given hs" "hs_stored ?hs = kept_stored b ?runs"
    "hs_requests ?hs = hs_requests hs @ (if br_database b then map DeleteRecording (map hr_key ?dropped)
       @ [PutRecording (hr_id run) (hr_key run) r] else [])"
    unfolding add ask_fields store_fields base stored by simp_all
  have below: "hr_key run' < length M" if "run' \<in> set (hs_runs hs)" for run'
    using parts that by (auto simp: runs_sound_def list_all_iff key_true_def)
  have new: "newest_first (run # hs_runs hs)"
    using parts below by (auto simp: newest_first_def runs_sound_def list_all_iff fields)
  have "runs_sound (M @ [r]) (map_of (hs_database hs)) (hs_runs hs)" using parts runs_more by blast
  then have all: "list_all (\<lambda>run. key_true (M @ [r]) (hr_key run) (hr_recording run) \<and> (hr_kept run \<longrightarrow> map_of (hs_database hs) (hr_key run) \<noteq> None)) (run # hs_runs hs)"
    by (simp add: runs_sound_def fields key_true_def)
  have sound: "runs_sound (M @ [r]) (map_of (hs_database hs)) ?runs"
    by (rule runs_sound_take_all [OF new all])
  have ids: "list_all (\<lambda>run. hr_id run < hs_next hs + 1) ?runs"
    using parts by (fastforce simp: list_all_iff fields dest!: in_set_takeD)
  have keys: "run_keys ?runs \<subseteq> insert (length M) (run_keys (hs_runs hs))"
    by (auto simp: run_keys_def fields dest!: in_set_takeD)
  have apart: "run_keys ?runs \<inter> run_keys ?dropped = {}"
    using newest_first_keys [of ?runs ?dropped] new by (simp only: append_take_drop_id)
  have "list_all (request_sound (M @ [r]) (insert (length M) (run_keys (hs_runs hs)))) (hs_requests hs)"
  proof -
    have "request_sound (M @ [r]) (insert (length M) (run_keys (hs_runs hs))) q" if "request_sound M (run_keys (hs_runs hs)) q" for q
      using that by (cases q) (auto intro: key_true_more)
    then show ?thesis using parts by (auto simp: list_all_iff)
  qed
  then have "list_all (request_sound (M @ [r]) (run_keys ?runs)) (hs_requests hs)" using keys by (rule requests_fewer)
  moreover have "list_all (request_sound (M @ [r]) (run_keys ?runs)) (map DeleteRecording (map hr_key ?dropped))"
  proof -
    have "k \<notin> run_keys ?runs \<and> k < length (M @ [r])" if "k \<in> run_keys ?dropped" for k
    proof -
      have "k \<in> insert (length M) (run_keys (hs_runs hs))" using that by (auto simp: run_keys_def fields dest!: in_set_dropD)
      then show ?thesis using that apart parts sound_keys_below by fastforce
    qed
    then show ?thesis by (auto simp: list_all_iff run_keys_def)
  qed
  moreover have "request_sound (M @ [r]) (run_keys ?runs) (PutRecording (hr_id run) (hr_key run) r)"
    by (simp add: fields key_true_def)
  ultimately have requests: "list_all (request_sound (M @ [r]) (run_keys ?runs)) (hs_requests ?hs)"
    unfolding runs by simp
  show ?thesis
    unfolding history_sound_def runs(1-6)
    using sound ids requests parts database_more given_more by (simp add: runs(1))
qed

lemma ask_sound:
  assumes "history_sound b M hs" "list_all (request_sound M (run_keys (hs_runs hs))) qs"
  shows "history_sound b M (ask b qs hs)"
  using assms by (simp add: history_sound_def)

lemma give_sound: "history_sound b M hs \<Longrightarrow> key_true M k r \<Longrightarrow> history_sound b M (give k r hs)"
  by (simp add: history_sound_def)

lemma sound_stored_eq: "history_sound b M hs \<Longrightarrow> hs_stored hs = [] \<or> br_storage b"
  by (auto simp: history_sound_def kept_stored_def)

lemma store_sound:
  assumes "history_sound b M hs" "runs_sound M (map_of (hs_database hs)) runs" "run_keys runs \<subseteq> run_keys (hs_runs hs)"
    "list_all (\<lambda>run. hr_id run < hs_next hs) runs"
  shows "history_sound b M (store b (hs\<lparr> hs_runs := runs \<rparr>))"
proof -
  have "hs_stored (store b (hs\<lparr> hs_runs := runs \<rparr>)) = kept_stored b runs"
    using store_stored [of "hs\<lparr> hs_runs := runs \<rparr>" b] sound_stored_eq [OF assms(1)] by simp
  moreover have "list_all (request_sound M (run_keys runs)) (hs_requests hs)"
    using assms(1,3) requests_fewer unfolding history_sound_def by blast
  ultimately show ?thesis using assms by (simp add: history_sound_def)
qed

lemma driveRun_Some: "driveRun ident hs = Some run \<Longrightarrow> run \<in> set (hs_runs hs)"
  by (auto simp: driveRun_def find_Some_iff)

lemma sound_run: "history_sound b M hs \<Longrightarrow> run \<in> set (hs_runs hs) \<Longrightarrow> key_true M (hr_key run) (hr_recording run)"
  by (auto simp: history_sound_def runs_sound_def list_all_iff)

lemma mark_sound: "history_sound b M hs \<Longrightarrow> history_sound b M (markRunOnRobot b ident robotId hs)"
proof (cases "driveRun ident hs = None \<or> robotId = []")
  case True
  assume "history_sound b M hs"
  then show ?thesis using True by (auto simp: markRunOnRobot_def split: option.splits)
next
  case False
  assume sound: "history_sound b M hs"
  obtain run where run: "driveRun ident hs = Some run" using False by auto
  let ?f = "\<lambda>r. if hr_key r = hr_key run then r\<lparr> hr_robotId := robotId \<rparr> else r"
  have "runs_sound M (map_of (hs_database hs)) (map ?f (hs_runs hs))"
    using sound by (intro runs_sound_map) (auto simp: history_sound_def runs_sound_def list_all_iff)
  moreover have "run_keys (map ?f (hs_runs hs)) = run_keys (hs_runs hs)" by (rule run_keys_map) simp
  moreover have "list_all (\<lambda>r. hr_id r < hs_next hs) (map ?f (hs_runs hs))"
    using sound by (auto simp: history_sound_def list_all_iff)
  ultimately show ?thesis
    using store_sound [OF sound, of "map ?f (hs_runs hs)"] False run by (simp add: markRunOnRobot_def update_run_def)
qed

lemma clear_sound: "history_sound b M hs \<Longrightarrow> history_sound b M (clearDriveRuns b hs)"
proof -
  assume sound: "history_sound b M hs"
  have "hs_stored (clearDriveRuns b hs) = kept_stored b []"
    using store_stored [of "(forget b (map hr_key (hs_runs hs)) hs)\<lparr> hs_runs := [] \<rparr>" b] sound_stored_eq [OF sound]
    by (simp add: clearDriveRuns_def)
  moreover have "list_all (request_sound M {}) (hs_requests hs)"
    using sound requests_fewer [of M _ _ "{}"] unfolding history_sound_def by blast
  moreover have "list_all (\<lambda>run. hr_key run < length M) (hs_runs hs)"
    using sound by (auto simp: history_sound_def runs_sound_def list_all_iff key_true_def)
  ultimately show ?thesis
    using sound by (auto simp: history_sound_def clearDriveRuns_def runs_sound_def newest_first_def list_all_iff)
qed

lemma ask_recording_sound: "history_sound b M hs \<Longrightarrow> history_sound b M (driveRunRecording b ident hs)"
proof (cases "driveRun ident hs")
  case None
  assume "history_sound b M hs"
  then show ?thesis using None by (simp add: driveRunRecording_def)
next
  case (Some run)
  assume sound: "history_sound b M hs"
  have true: "key_true M (hr_key run) (hr_recording run)" by (rule sound_run [OF sound driveRun_Some [OF Some]])
  then have "key_true M (hr_key run) None" by (simp add: key_true_def)
  then show ?thesis
    using sound true Some give_sound ask_sound by (cases "hr_recording run") (simp_all add: driveRunRecording_def)
qed

lemma load_sound:
  assumes "history_sound b M hs" "database_sound M (map_of db)"
    "\<And>run. run \<in> set (hs_runs hs) \<Longrightarrow> hr_kept run \<Longrightarrow> map_of db (hr_key run) \<noteq> None"
  shows "history_sound b M (load_history b (hs\<lparr> hs_database := db \<rparr>))"
proof -
  let ?stored = "kept_stored b (hs_runs hs)"
  have "runs_sound M (map_of db) (hs_runs hs)"
    using assms(1,3) by (auto simp: history_sound_def runs_sound_def list_all_iff)
  then have "runs_sound M (map_of db) ?stored" by (rule stored_sound)
  moreover have "list_all (\<lambda>run. hr_id run < foldl (\<lambda>n run. max n (hr_id run)) 0 runs + 1) runs" for runs
    by (induction runs rule: rev_induct) (auto simp: list_all_iff)
  moreover have "kept_stored b ?stored = ?stored"
  proof -
    have "fitting sz (fitting sz runs) = fitting sz runs" for sz and runs :: "run list"
    proof (induction sz runs rule: fitting.induct)
      case (1 sz runs)
      show ?case
      proof (cases "sz runs > MAX_STORED_CHARS \<and> length runs > 1")
        case True
        then have "fitting sz runs = fitting sz (butlast runs)" by (simp add: fitting.simps [of sz runs])
        then show ?thesis using 1 [OF True] by simp
      next
        case False
        then have "fitting sz runs = runs" by (subst fitting.simps) (simp only: if_False)
        then show ?thesis by simp
      qed
    qed
    moreover have "map without_recording (fitting sz (map without_recording runs)) = fitting sz (map without_recording runs)" for sz runs
      using fitting_prefix [of sz "map without_recording runs"] by (auto simp: take_map without_recording_def)
    ultimately show ?thesis by (simp add: kept_stored_def)
  qed
  ultimately show ?thesis
    using assms by (simp add: history_sound_def load_history_def)
qed

lemma database_after_map:
  "map_of (database_after q db) = (case q of PutRecording _ k r \<Rightarrow> (map_of db)(k \<mapsto> r) | DeleteRecording k \<Rightarrow> (map_of db)(k := None) | _ \<Rightarrow> map_of db)"
  by (cases q) (simp_all add: database_after_def update_conv' delete_conv')

lemma database_after_sound: "database_sound M (map_of db) \<Longrightarrow> request_sound M ks q \<Longrightarrow> database_sound M (map_of (database_after q db))"
  by (cases q) (auto simp: database_after_map database_sound_def)

lemma database_after_keeps:
  "request_sound M ks q \<Longrightarrow> k \<in> ks \<Longrightarrow> map_of db k \<noteq> None \<Longrightarrow> map_of (database_after q db) k \<noteq> None"
  by (cases q) (auto simp: database_after_map)

lemma carried_out_sound:
  assumes "history_sound b M hs"
  shows "database_sound M (map_of (carried_out n hs))"
    and "run \<in> set (hs_runs hs) \<Longrightarrow> hr_kept run \<Longrightarrow> map_of (carried_out n hs) (hr_key run) \<noteq> None"
proof -
  have all: "list_all (request_sound M (run_keys (hs_runs hs))) (take n (hs_requests hs))"
    using assms by (auto simp: history_sound_def list_all_iff dest: in_set_takeD)
  have "database_sound M (map_of (fold database_after qs db))"
    if "list_all (request_sound M ks) qs" "database_sound M (map_of db)" for qs db ks
    using that by (induction qs arbitrary: db) (auto intro: database_after_sound)
  then show "database_sound M (map_of (carried_out n hs))"
    using all assms by (auto simp: carried_out_def history_sound_def)
  have "map_of (fold database_after qs db) k \<noteq> None"
    if "list_all (request_sound M ks) qs" "k \<in> ks" "map_of db k \<noteq> None" for qs db ks k
    using that by (induction qs arbitrary: db) (auto dest: database_after_keeps)
  then show "run \<in> set (hs_runs hs) \<Longrightarrow> hr_kept run \<Longrightarrow> map_of (carried_out n hs) (hr_key run) \<noteq> None"
    using all assms unfolding carried_out_def history_sound_def runs_sound_def list_all_iff run_keys_def
    by (metis image_eqI)
qed

lemma answer_sound:
  assumes "history_sound b M hs"
  shows "history_sound b M (database_answers b ok hs)"
proof (cases "hs_requests hs")
  case Nil
  then show ?thesis using assms by (simp add: database_answers_def)
next
  case (Cons q waiting)
  let ?db = "if ok then database_after q (hs_database hs) else hs_database hs"
  define hs' where "hs' = hs\<lparr> hs_requests := waiting, hs_database := ?db \<rparr>"
  have answer: "database_answers b ok hs = (case q of
      PutRecording _ k _ \<Rightarrow> if ok then put_done b k hs' else hs'
    | GetRecording _ k \<Rightarrow> got_recording k (if ok then map_of (hs_database hs') k else None) hs'
    | DeleteRecording _ \<Rightarrow> hs'
    | ListKeys \<Rightarrow> if ok then keys_listed b (map fst (hs_database hs')) hs' else hs')"
    by (simp only: database_answers_def Cons list.case Let_def hs'_def [symmetric])
  have q: "request_sound M (run_keys (hs_runs hs)) q" using assms Cons by (simp add: history_sound_def)
  have kept: "map_of ?db (hr_key run) \<noteq> None" if "run \<in> set (hs_runs hs)" "hr_kept run" for run
    using assms that database_after_keeps [OF q, of "hr_key run" "hs_database hs"]
    by (auto simp: history_sound_def runs_sound_def list_all_iff run_keys_def)
  have runs: "runs_sound M (map_of ?db) (hs_runs hs)"
    using assms kept by (auto simp: history_sound_def runs_sound_def list_all_iff)
  have db: "database_sound M (map_of ?db)"
    using assms q database_after_sound by (auto simp: history_sound_def)
  have sound: "history_sound b M hs'"
    using assms runs db Cons by (simp add: hs'_def history_sound_def)
  have run_update: "history_sound b M (store b (hs'\<lparr> hs_runs := map f (hs_runs hs) \<rparr>))"
    if "\<And>run. hr_key (f run) = hr_key run \<and> hr_id (f run) = hr_id run \<and> hr_recording (f run) = hr_recording run"
      "\<And>run. run \<in> set (hs_runs hs) \<Longrightarrow> hr_kept (f run) \<Longrightarrow> map_of ?db (hr_key run) \<noteq> None" for f
  proof (rule store_sound [OF sound])
    have "runs_sound M (map_of ?db) (map f (hs_runs hs))"
      by (rule runs_sound_map [OF runs]) (use that assms in \<open>auto simp: history_sound_def runs_sound_def list_all_iff\<close>)
    then show "runs_sound M (map_of (hs_database hs')) (map f (hs_runs hs))" by (simp add: hs'_def)
    show "run_keys (map f (hs_runs hs)) \<subseteq> run_keys (hs_runs hs')"
      using run_keys_map [of f "hs_runs hs"] that(1) by (simp add: hs'_def)
    show "list_all (\<lambda>run. hr_id run < hs_next hs') (map f (hs_runs hs))"
      using assms that(1) by (auto simp: history_sound_def hs'_def list_all_iff)
  qed
  show ?thesis
  proof (cases q)
    case (PutRecording i k r)
    have "history_sound b M (put_done b k hs')" if ok
    proof (cases "k \<in> set (map hr_key (hs_runs hs'))")
      case True
      have "map_of ?db k \<noteq> None" using that PutRecording by (simp add: database_after_map)
      then show ?thesis
        using run_update [of "\<lambda>run. if hr_key run = k then run\<lparr> hr_kept := True \<rparr> else run"] kept True
        by (auto simp: put_done_def update_run_def hs'_def split: if_splits)
    qed (use sound in \<open>simp add: put_done_def\<close>)
    then show ?thesis using sound by (simp add: answer PutRecording)
  next
    case (GetRecording i k)
    let ?r = "if ok then map_of (hs_database hs') k else None"
    have true: "key_true M k ?r"
      using q GetRecording db by (cases "map_of (hs_database hs') k") (auto simp: hs'_def database_sound_def key_true_def)
    have "history_sound b M (case ?r of None \<Rightarrow> hs' | Some rec \<Rightarrow> update_run k (\<lambda>run. run\<lparr> hr_recording := Some rec \<rparr>) hs')"
    proof (cases ?r)
      case None
      then show ?thesis using sound by simp
    next
      case (Some rec)
      let ?f = "\<lambda>run. if hr_key run = k then run\<lparr> hr_recording := Some rec \<rparr> else run"
      have "runs_sound M (map_of ?db) (map ?f (hs_runs hs))"
        by (rule runs_sound_map [OF runs]) (use runs true Some in \<open>auto simp: runs_sound_def list_all_iff key_true_def\<close>)
      moreover have "kept_stored b (map ?f (hs_runs hs)) = kept_stored b (hs_runs hs)"
      proof -
        have "map without_recording (map ?f (hs_runs hs)) = map without_recording (hs_runs hs)"
          by (simp add: without_recording_def)
        then show ?thesis unfolding kept_stored_def by (simp only:)
      qed
      moreover have "run_keys (map ?f (hs_runs hs)) = run_keys (hs_runs hs)" by (rule run_keys_map) simp
      moreover have "list_all (\<lambda>run. hr_id run < hs_next hs) (map ?f (hs_runs hs))"
        using assms by (auto simp: history_sound_def list_all_iff)
      ultimately show ?thesis using sound Some by (simp add: history_sound_def hs'_def update_run_def)
    qed
    then have "history_sound b M (got_recording k ?r hs')" using give_sound true by (simp add: got_recording_def)
    then show ?thesis by (simp add: answer GetRecording)
  next
    case (DeleteRecording k)
    then show ?thesis using sound by (simp add: answer)
  next
    case ListKeys
    let ?ks = "map fst (hs_database hs')"
    let ?f = "\<lambda>run. run\<lparr> hr_kept := hr_key run \<in> set ?ks \<rparr>"
    let ?del = "filter (\<lambda>k. k \<notin> set (map hr_key (hs_runs hs'))) ?ks"
    have db_same: "hs_database hs' = hs_database hs" "?db = hs_database hs" using ListKeys by (simp_all add: hs'_def database_after_def)
    have dom: "k \<in> set ?ks \<longleftrightarrow> map_of (hs_database hs') k \<noteq> None" for k by (simp add: map_of_eq_None_iff)
    have unsent: "list_all (request_sound M (run_keys (hs_runs hs'))) (map DeleteRecording ?del)"
    proof -
      have "k < length M" if "k \<in> set ?ks" for k
        using that dom [of k] db by (auto simp: db_same database_sound_def key_true_def hs'_def split: if_splits)
      then show ?thesis by (auto simp: list_all_iff run_keys_def)
    qed
    have "history_sound b M (keys_listed b ?ks hs')"
    proof (cases "map hr_kept (map ?f (hs_runs hs')) = map hr_kept (hs_runs hs')")
      case True
      then have "map ?f (hs_runs hs') = hs_runs hs'" by (auto intro!: map_idI)
      then have "keys_listed b ?ks hs' = forget b ?del hs'" using True by (simp add: keys_listed_def Let_def)
      then show ?thesis using ask_sound [OF sound unsent] by (simp add: forget_def)
    next
      case False
      then have eq: "keys_listed b ?ks hs' = store b (forget b ?del (hs'\<lparr> hs_runs := map ?f (hs_runs hs') \<rparr>))"
        by (simp add: keys_listed_def Let_def)
      have commute: "store b (ask b qs h) = ask b qs (store b h)" for qs h by (simp add: store_def ask_def)
      have "history_sound b M (store b (hs'\<lparr> hs_runs := map ?f (hs_runs hs) \<rparr>))"
        by (rule run_update) (use dom db_same in simp_all)
      moreover have "run_keys (map ?f (hs_runs hs)) = run_keys (hs_runs hs')" by (subst run_keys_map) (simp_all add: hs'_def)
      ultimately show ?thesis
        unfolding eq forget_def commute using unsent by (intro ask_sound) (simp_all add: hs'_def)
    qed
    then show ?thesis using sound by (simp add: answer ListKeys)
  qed
qed

lemma step_sound:
  assumes "history_sound b M hs"
  shows "history_sound b (M @ made_by e) (history_step b e hs)"
proof (cases e)
  case (ReloadPage n)
  then show ?thesis using load_sound [OF assms carried_out_sound(1) [OF assms]] carried_out_sound(2) [OF assms] by simp
qed (use assms add_sound ask_recording_sound mark_sound clear_sound answer_sound in simp_all)

lemma first_visit_sound: "history_sound b [] (first_visit b)"
  by (simp add: first_visit_def load_history_def history_sound_def runs_sound_def newest_first_def database_sound_def
      kept_stored_def fitting.simps)

lemma history_always_sound: "history_sound b (made events) (fold (history_step b) events (first_visit b))"
  by (induction events rule: rev_induct) (simp_all add: first_visit_sound made_def step_sound)

lemma database_true: "database_sound M db \<Longrightarrow> db k \<noteq> None \<Longrightarrow> db k = Some (M ! k)"
  by (auto simp: database_sound_def key_true_def)

text \<open>
  C33: The history never mixes up recordings. Whatever is driven, asked for, cleared or reloaded, and whichever
  database requests fail: it lists at most the 20 newest runs, newest first; a run marked as kept has its
  recording in the database; and every recording, in memory, in the database or handed over, is the one that was
  added with the run it is shown for.
\<close>

theorem history_recordings_true:
  "let hs = fold (history_step b) events (first_visit b); M = made events
   in length (hs_runs hs) \<le> 20 \<and> newest_first (hs_runs hs)
      \<and> list_all (\<lambda>run. key_true M (hr_key run) (hr_recording run)
           \<and> (if hr_kept run then map_of (hs_database hs) (hr_key run) = Some (M ! hr_key run) else True)) (hs_runs hs)
      \<and> list_all (\<lambda>(k, r). key_true M k r) (hs_given hs)"
proof -
  define hs where "hs = fold (history_step b) events (first_visit b)"
  have sound: "history_sound b (made events) hs" unfolding hs_def by (rule history_always_sound)
  have "hr_kept run \<longrightarrow> map_of (hs_database hs) (hr_key run) = Some (made events ! hr_key run)" if "run \<in> set (hs_runs hs)" for run
    using sound that database_true by (auto simp: history_sound_def runs_sound_def list_all_iff)
  then show ?thesis
    using sound unfolding Let_def hs_def [symmetric] by (simp add: history_sound_def runs_sound_def list_all_iff MAX_RUNS_def)
qed

section \<open>The database holds the recordings of the runs, and nothing else\<close>

text \<open>The abstract store: one recording for every run marked as kept.\<close>

definition kept_recordings :: "recording list \<Rightarrow> run list \<Rightarrow> nat \<Rightarrow> recording option" where
  "kept_recordings M runs k = (if list_ex (\<lambda>run. hr_key run = k \<and> hr_kept run) runs then Some (M ! k) else None)"

text \<open>A request's effect on the database as a map.\<close>

definition effect :: "db_request \<Rightarrow> (nat \<Rightarrow> recording option) \<Rightarrow> nat \<Rightarrow> recording option" where
  "effect q m = (case q of PutRecording _ k r \<Rightarrow> m(k \<mapsto> r) | DeleteRecording k \<Rightarrow> m(k := None) | _ \<Rightarrow> m)"

lemma map_of_after [simp]: "map_of (database_after q db) = effect q (map_of db)"
  by (simp add: database_after_map effect_def)

lemma map_of_carried: "map_of (fold database_after qs db) = fold effect qs (map_of db)"
  by (induction qs arbitrary: db) simp_all

lemma effect_simps [simp]:
  "effect (GetRecording i k) m = m" "effect ListKeys m = m" "effect (PutRecording i k r) m = m(k \<mapsto> r)"
  "effect (DeleteRecording k) m = m(k := None)"
  by (simp_all add: effect_def)

lemma effect_deletes: "fold effect (map DeleteRecording ks) m = (\<lambda>k. if k \<in> set ks then None else m k)"
  by (induction ks arbitrary: m) (auto simp: fun_eq_iff)

text \<open>
  Carrying out what waits leaves only recordings of listed runs, apart from those a waiting look at the database
  will find; and a listed run whose recording is there is marked, once nothing waits to look.
\<close>

definition tidy_parts :: "bool \<Rightarrow> run list \<Rightarrow> db_request list \<Rightarrow> (nat \<Rightarrow> recording option) \<Rightarrow> bool" where
  "tidy_parts available runs qs m \<longleftrightarrow>
     (\<forall>k. fold effect qs m k \<noteq> None \<longrightarrow> k \<in> run_keys runs \<or> ListKeys \<in> set qs \<and> m k \<noteq> None)
     \<and> ListKeys \<notin> set (tl qs)
     \<and> (ListKeys \<in> set qs \<or> list_all (\<lambda>run. m (hr_key run) \<noteq> None \<longrightarrow> hr_kept run) runs)
     \<and> (available \<or> m = Map.empty \<and> qs = [])"

definition tidy :: "browser \<Rightarrow> history \<Rightarrow> bool" where
  "tidy b hs \<longleftrightarrow> tidy_parts (br_database b) (hs_runs hs) (hs_requests hs) (map_of (hs_database hs))"

lemma tidy_runs:
  assumes "tidy_parts a runs qs m" "run_keys runs' = run_keys runs"
    "list_all (\<lambda>run. m (hr_key run) \<noteq> None \<longrightarrow> hr_kept run) runs \<Longrightarrow> list_all (\<lambda>run. m (hr_key run) \<noteq> None \<longrightarrow> hr_kept run) runs'"
  shows "tidy_parts a runs' qs m"
  using assms by (auto simp: tidy_parts_def)

lemma tl_append_notin: "x \<notin> set (tl xs) \<Longrightarrow> x \<notin> set ys \<Longrightarrow> x \<notin> set (tl (xs @ ys))"
  by (cases xs; cases ys) auto

lemma tidy_get: "tidy_parts True runs qs m \<Longrightarrow> tidy_parts True runs (qs @ [GetRecording i k]) m"
  by (simp add: tidy_parts_def tl_append_notin)

lemma tidy_deletes:
  assumes "tidy_parts True runs qs m" "run_keys runs \<subseteq> run_keys runs' \<union> set ks"
    "list_all (\<lambda>run. m (hr_key run) \<noteq> None \<longrightarrow> hr_kept run) runs \<Longrightarrow> list_all (\<lambda>run. m (hr_key run) \<noteq> None \<longrightarrow> hr_kept run) runs'"
  shows "tidy_parts True runs' (qs @ map DeleteRecording ks) m"
proof -
  have "ListKeys \<notin> set (map DeleteRecording ks)" by auto
  then show ?thesis
    using assms by (auto simp: tidy_parts_def effect_deletes tl_append_notin split: if_splits)
qed

lemma tidy_put:
  assumes "tidy_parts True runs qs m" "k \<in> run_keys runs"
  shows "tidy_parts True runs (qs @ [PutRecording i k r]) m"
  using assms by (auto simp: tidy_parts_def tl_append_notin split: if_splits)

lemma tidy_done:
  assumes "tidy_parts True runs (q # qs) m" "q \<noteq> ListKeys" "run_keys runs' = run_keys runs"
    "list_all (\<lambda>run. m (hr_key run) \<noteq> None \<longrightarrow> hr_kept run) runs
      \<Longrightarrow> list_all (\<lambda>run. effect q m (hr_key run) \<noteq> None \<longrightarrow> hr_kept run) runs'"
  shows "tidy_parts True runs' qs (effect q m)"
  using assms by (cases qs) (auto simp: tidy_parts_def)

lemma tidy_listed:
  assumes "tidy_parts True runs (ListKeys # qs) m" "run_keys runs' = run_keys runs"
    "\<And>k. m k \<noteq> None \<Longrightarrow> k \<notin> run_keys runs \<Longrightarrow> k \<in> set ks"
    "list_all (\<lambda>run. m (hr_key run) \<noteq> None \<longrightarrow> hr_kept run) runs'"
  shows "tidy_parts True runs' (qs @ map DeleteRecording ks) m"
proof -
  have "ListKeys \<notin> set qs" and left: "\<And>k. fold effect qs m k \<noteq> None \<Longrightarrow> k \<in> run_keys runs \<or> m k \<noteq> None"
    using assms(1) by (auto simp: tidy_parts_def)
  then have "ListKeys \<notin> set (tl qs)" by (auto dest: list.set_sel(2) split: if_splits) (metis list.set_sel(2) list.sel(2))
  moreover have "ListKeys \<notin> set (map DeleteRecording ks)" by auto
  ultimately have tail: "ListKeys \<notin> set (tl (qs @ map DeleteRecording ks))" by (rule tl_append_notin)
  have "k \<in> run_keys runs'" if "fold effect (qs @ map DeleteRecording ks) m k \<noteq> None" for k
    using that left [of k] assms(2) assms(3) [of k] by (auto simp: effect_deletes split: if_splits)
  then show ?thesis using tail assms(4) by (auto simp: tidy_parts_def)
qed

lemma tidy_load: "tidy_parts True runs [ListKeys] m"
  by (simp add: tidy_parts_def)

definition answered_well :: "history_event \<Rightarrow> bool" where
  "answered_well e \<longleftrightarrow> e \<noteq> DatabaseAnswers False"


lemma tidy_unavailable: "tidy_parts False runs [] Map.empty"
  by (simp add: tidy_parts_def list_all_iff)

lemma tidy_absent: "tidy_parts False runs qs m \<Longrightarrow> qs = [] \<and> m = Map.empty"
  by (simp add: tidy_parts_def)

lemma tidy_off: "tidy_parts False runs qs m \<Longrightarrow> tidy_parts False runs' qs m"
  by (auto simp: tidy_parts_def list_all_iff)

lemma add_fields:
  "hs_runs (addDriveRun b slot lesson d r now hs)
     = take MAX_RUNS (new_run (hs_next hs) (hs_next_key hs) slot lesson d r now # hs_runs hs)"
  "hs_database (addDriveRun b slot lesson d r now hs) = hs_database hs"
  "br_database b \<Longrightarrow> hs_requests (addDriveRun b slot lesson d r now hs)
     = hs_requests hs @ map DeleteRecording (map hr_key (drop MAX_RUNS (new_run (hs_next hs) (hs_next_key hs) slot lesson d r now # hs_runs hs)))
         @ [PutRecording (hs_next hs) (hs_next_key hs) r]"
  "\<not> br_database b \<Longrightarrow> hs_requests (addDriveRun b slot lesson d r now hs) = hs_requests hs"
  by (simp_all add: addDriveRun_def Let_def keepInDatabase_def new_run_def)

lemma add_tidy:
  assumes "history_sound b M hs" "tidy b hs"
  shows "tidy b (addDriveRun b slot lesson d r now hs)"
proof (cases "br_database b")
  case False
  then show ?thesis using assms tidy_off by (simp add: tidy_def add_fields)
next
  case True
  define run where "run = new_run (hs_next hs) (hs_next_key hs) slot lesson d r now"
  let ?m = "map_of (hs_database hs)" and ?all = "run # hs_runs hs"
  have key: "hr_key run = length M" "hr_key run = hs_next_key hs"
    using assms(1) by (simp_all add: run_def new_run_def history_sound_def)
  have fresh: "?m (hr_key run) = None"
    using assms(1) by (auto simp: history_sound_def database_sound_def key_true_def key)
  have "tidy_parts True (take MAX_RUNS ?all) (hs_requests hs @ map DeleteRecording (map hr_key (drop MAX_RUNS ?all))) ?m"
  proof (rule tidy_deletes)
    show "tidy_parts True (hs_runs hs) (hs_requests hs) ?m" using assms(2) True by (simp add: tidy_def)
    have "set ?all = set (take MAX_RUNS ?all) \<union> set (drop MAX_RUNS ?all)" by (metis append_take_drop_id set_append)
    then show "run_keys (hs_runs hs) \<subseteq> run_keys (take MAX_RUNS ?all) \<union> set (map hr_key (drop MAX_RUNS ?all))"
      unfolding run_keys_def by auto
    show "list_all (\<lambda>run. ?m (hr_key run) \<noteq> None \<longrightarrow> hr_kept run) (take MAX_RUNS ?all)"
      if "list_all (\<lambda>run. ?m (hr_key run) \<noteq> None \<longrightarrow> hr_kept run) (hs_runs hs)"
      using that fresh unfolding list_all_iff by (auto dest!: in_set_takeD)
  qed
  moreover have "hs_next_key hs \<in> run_keys (take MAX_RUNS ?all)" by (simp add: run_keys_def MAX_RUNS_def flip: key(2))
  ultimately show ?thesis
    using tidy_put True by (simp add: tidy_def add_fields flip: run_def append_assoc)
qed

lemma ask_recording_tidy: "tidy b hs \<Longrightarrow> tidy b (driveRunRecording b ident hs)"
  by (auto simp: tidy_def driveRunRecording_def tidy_get split: option.split)

lemma mark_tidy: "tidy b hs \<Longrightarrow> tidy b (markRunOnRobot b ident robotId hs)"
proof -
  assume "tidy b hs"
  then have "tidy b (store b (update_run k (\<lambda>run. run\<lparr> hr_robotId := robotId \<rparr>) hs))" for k
    unfolding tidy_def store_fields update_fields
    by (rule tidy_runs) (auto simp: run_keys_map list_all_iff)
  then show ?thesis using \<open>tidy b hs\<close> by (simp add: markRunOnRobot_def split: option.split)
qed

lemma clear_tidy: "tidy b hs \<Longrightarrow> tidy b (clearDriveRuns b hs)"
proof (cases "br_database b")
  case True
  assume "tidy b hs"
  then show ?thesis
    using True tidy_deletes [of "hs_runs hs" "hs_requests hs" "map_of (hs_database hs)" "[]" "map hr_key (hs_runs hs)"]
    by (simp add: tidy_def clearDriveRuns_def run_keys_def)
next
  case False
  assume "tidy b hs"
  then show ?thesis using False tidy_off by (simp add: tidy_def clearDriveRuns_def)
qed

lemma load_tidy: "tidy b hs \<Longrightarrow> tidy b (load_history b (hs\<lparr> hs_database := carried_out n hs \<rparr>))"
proof (cases "br_database b")
  case True
  then show ?thesis using tidy_load by (simp add: tidy_def load_history_def)
next
  case False
  assume "tidy b hs"
  then have "hs_requests hs = []" "map_of (hs_database hs) = Map.empty" using False tidy_absent by (auto simp: tidy_def)
  then show ?thesis using False tidy_unavailable by (simp add: tidy_def load_history_def carried_out_def)
qed

lemma put_tidy:
  assumes "tidy_parts True (hs_runs hs) (PutRecording i k r # qs) m"
  shows "tidy_parts True (hs_runs (put_done b k hs)) qs (m(k \<mapsto> r))"
proof -
  have "tidy_parts True (hs_runs (put_done b k hs)) qs (effect (PutRecording i k r) m)"
    by (rule tidy_done [OF assms]) (auto simp: put_done_def run_keys_map list_all_iff)
  then show ?thesis by simp
qed

lemma answer_tidy:
  assumes "history_sound b M hs" "tidy b hs"
  shows "tidy b (database_answers b True hs)"
proof (cases "hs_requests hs")
  case Nil
  then show ?thesis using assms by (simp add: database_answers_def)
next
  case (Cons q waiting)
  let ?db = "database_after q (hs_database hs)" and ?m = "map_of (hs_database hs)"
  define hs' where "hs' = hs\<lparr> hs_requests := waiting, hs_database := ?db \<rparr>"
  have answer: "database_answers b True hs = (case q of
      PutRecording _ k _ \<Rightarrow> put_done b k hs'
    | GetRecording _ k \<Rightarrow> got_recording k (map_of (hs_database hs') k) hs'
    | DeleteRecording _ \<Rightarrow> hs'
    | ListKeys \<Rightarrow> keys_listed b (map fst (hs_database hs')) hs')"
    by (cases q) (simp_all add: database_answers_def Cons Let_def hs'_def)
  have there: "br_database b"
    using assms(2) Cons tidy_absent [of "hs_runs hs" "hs_requests hs"] by (cases "br_database b") (simp_all add: tidy_def)
  have parts: "tidy_parts True (hs_runs hs') (q # waiting) ?m"
    using assms(2) Cons there by (simp add: tidy_def hs'_def)
  have after: "hs_requests hs' = waiting" "map_of (hs_database hs') = effect q ?m" by (simp_all add: hs'_def)
  show ?thesis
  proof (cases q)
    case (PutRecording i k r)
    have "hs_requests (put_done b k hs') = waiting" "hs_database (put_done b k hs') = ?db"
      by (simp_all add: put_done_def after) (simp add: hs'_def)
    then show ?thesis using put_tidy [of hs' i k r waiting ?m b] parts there PutRecording by (simp add: tidy_def answer)
  next
    case (GetRecording i k)
    have "tidy_parts True (hs_runs (got_recording k x hs')) waiting (effect q ?m)" for x
      by (rule tidy_done [OF parts]) (auto simp: GetRecording got_recording_def run_keys_map list_all_iff split: option.split)
    moreover have "hs_requests (got_recording k x hs') = waiting" "hs_database (got_recording k x hs') = hs_database hs'" for x
      by (simp_all add: got_recording_def after split: option.split)
    ultimately show ?thesis using there after by (simp add: tidy_def answer GetRecording)
  next
    case (DeleteRecording k)
    have "tidy_parts True (hs_runs hs') waiting (effect q ?m)"
      by (rule tidy_done [OF parts]) (auto simp: DeleteRecording list_all_iff)
    then show ?thesis using there after by (simp add: tidy_def answer DeleteRecording)
  next
    case ListKeys
    let ?ks = "map fst (hs_database hs')"
    let ?runs = "map (\<lambda>run. run\<lparr> hr_kept := hr_key run \<in> set ?ks \<rparr>) (hs_runs hs')"
    let ?gone = "filter (\<lambda>k. k \<notin> set (map hr_key (hs_runs hs'))) ?ks"
    have dom: "k \<in> set ?ks \<longleftrightarrow> ?m k \<noteq> None" for k
      using after ListKeys map_of_eq_None_iff [of "hs_database hs'" k] by (simp del: map_of_after)
    have "hs_runs (keys_listed b ?ks hs') = ?runs" "hs_database (keys_listed b ?ks hs') = hs_database hs'"
      "hs_requests (keys_listed b ?ks hs') = waiting @ map DeleteRecording ?gone"
      using there by (simp_all add: keys_listed_def Let_def after)
    moreover have "tidy_parts True ?runs (waiting @ map DeleteRecording ?gone) ?m"
    proof (rule tidy_listed)
      show "tidy_parts True (hs_runs hs') (ListKeys # waiting) ?m" using parts ListKeys by simp
      show "run_keys ?runs = run_keys (hs_runs hs')" by (rule run_keys_map) simp
      show "k \<in> set ?gone" if "?m k \<noteq> None" "k \<notin> run_keys (hs_runs hs')" for k
        using that dom by (simp add: run_keys_def)
      show "list_all (\<lambda>run. ?m (hr_key run) \<noteq> None \<longrightarrow> hr_kept run) ?runs" using dom by (auto simp: list_all_iff)
    qed
    ultimately show ?thesis using there after ListKeys by (simp only: tidy_def answer db_request.case effect_simps)
  qed
qed

lemma step_tidy:
  assumes "history_sound b M hs" "tidy b hs" "answered_well e"
  shows "tidy b (history_step b e hs)"
proof (cases e)
  case (DatabaseAnswers ok)
  then show ?thesis using assms answer_tidy by (cases ok) (auto simp: answered_well_def)
qed (use assms add_tidy ask_recording_tidy mark_tidy clear_tidy load_tidy in simp_all)

lemma first_visit_tidy: "tidy b (first_visit b)"
  by (simp add: tidy_def tidy_parts_def first_visit_def load_history_def)

text \<open>What happened until the page was last loaded.\<close>

definition until_load :: "history_event list \<Rightarrow> bool" where
  "until_load before \<longleftrightarrow> before = [] \<or> (case last before of ReloadPage n \<Rightarrow> True | _ \<Rightarrow> False)"

lemma tidy_without_database: "\<not> br_database b \<Longrightarrow> tidy b (fold (history_step b) events (first_visit b))"
proof (induction events rule: rev_induct)
  case Nil
  show ?case by (simp add: first_visit_tidy)
next
  case (snoc e events)
  let ?hs = "fold (history_step b) events (first_visit b)"
  have tidy: "tidy b ?hs" using snoc by simp
  show ?case
  proof (cases "answered_well e")
    case True
    then show ?thesis using step_tidy [OF history_always_sound tidy] by simp
  next
    case False
    have "hs_requests ?hs = []" using tidy snoc.prems tidy_absent by (auto simp: tidy_def)
    then show ?thesis using False tidy by (simp add: answered_well_def database_answers_def)
  qed
qed

lemma tidy_when_loaded:
  assumes "until_load before"
  shows "tidy b (fold (history_step b) before (first_visit b))"
proof (cases "before = [] \<or> \<not> br_database b")
  case True
  then show ?thesis using first_visit_tidy tidy_without_database by auto
next
  case False
  then obtain events n where "before = events @ [ReloadPage n]"
    using assms by (cases before rule: rev_cases) (auto simp: until_load_def split: history_event.splits)
  then show ?thesis using False tidy_load by (simp add: tidy_def load_history_def)
qed

lemma tidy_since_load:
  assumes "until_load before" "list_all answered_well after"
  shows "tidy b (fold (history_step b) (before @ after) (first_visit b))"
  using assms(2)
proof (induction after rule: rev_induct)
  case Nil
  show ?case using tidy_when_loaded [OF assms(1)] by simp
next
  case (snoc e after)
  then show ?case
    using step_tidy [OF history_always_sound [of b "before @ after"], of e] by simp
qed

text \<open>
  C17: Refinement: the database of recordings is a store of one recording per listed run, and every load of the page
  repairs it. Whatever was driven, asked for, cleared, reloaded or failed before the page was last loaded: as long
  as no database request has failed since, and once none is waiting, the database holds exactly the recordings of
  the runs marked as kept, each the one its run was made of. Nothing stays behind of a run that was dropped or
  cleared, not even where the request to delete it had failed or was lost by a reload. (After a failure the recording
  of a dropped run may stay in the database until the next load.)
\<close>

theorem database_refines_kept_runs:
  "let events = before @ after; hs = fold (history_step b) events (first_visit b)
   in if until_load before \<and> list_all answered_well after \<and> hs_requests hs = []
      then map_of (hs_database hs) = kept_recordings (made events) (hs_runs hs) else True"
proof -
  define M where "M = made (before @ after)"
  define hs where "hs = fold (history_step b) (before @ after) (first_visit b)"
  have sound: "history_sound b M hs" unfolding hs_def M_def by (rule history_always_sound)
  have "map_of (hs_database hs) k = kept_recordings M (hs_runs hs) k"
    if idle: "hs_requests hs = []" and since: "until_load before" "list_all answered_well after" for k
  proof (cases "map_of (hs_database hs) k")
    case None
    then show ?thesis
      using sound by (auto simp: history_sound_def runs_sound_def kept_recordings_def list_ex_iff list_all_iff)
  next
    case (Some r)
    have tidy: "tidy b hs" unfolding hs_def by (rule tidy_since_load [OF since])
    have "r = M ! k" using sound Some database_true [of M "map_of (hs_database hs)" k] by (simp add: history_sound_def)
    moreover have "list_ex (\<lambda>run. hr_key run = k \<and> hr_kept run) (hs_runs hs)"
      using tidy idle Some by (force simp: tidy_def tidy_parts_def run_keys_def list_all_iff list_ex_iff)
    ultimately show ?thesis using Some by (simp add: kept_recordings_def)
  qed
  then show ?thesis unfolding Let_def hs_def [symmetric] M_def [symmetric] by auto
qed

end
