(* ===== verification/Records_Core.thy ===== *)
theory Records_Core
  imports Drive_History Robot_Link "HOL-Library.Option_ord" "HOL-Library.List_Lexorder" "HOL-Library.Char_ord"
begin

text \<open>
  The records kept on the robot, \<open>lab/js/live/records-core.js\<close>: the address of the bridge's HTTP interface,
  reading from it with a time limit, what it lists, the part of a bag to convert, the filters, and where a
  record can be opened. Parsing an address, \<open>JSON.parse\<close> and \<open>Date.parse\<close> are the browser's: parameters.
  Errors are constructors where the code fills a sentence of \<open>content/live/records.json\<close>. Lesson names that
  are properties of every JavaScript object (\<open>constructor\<close>, \<open>toString\<close>) are left out.
\<close>

section \<open>Constants\<close>

definition LIST_TIMEOUT_MS :: nat where "LIST_TIMEOUT_MS = 8000"
definition RECORD_TIMEOUT_MS :: nat where "RECORD_TIMEOUT_MS = 30000"
definition CONVERT_TIMEOUT_MS :: nat where "CONVERT_TIMEOUT_MS = 180000"
definition BAG_MAX_SECONDS :: real where "BAG_MAX_SECONDS = 300"
definition SOURCES :: "string list" where "SOURCES = [''lab'', ''auto'', ''rosbag-cache'']"
definition BYTES_PER_MB :: real where "BYTES_PER_MB = 1024 * 1024"
definition MAX_LABEL :: nat where "MAX_LABEL = 60"
definition OPEN_ANYWHERE :: "string list" where "OPEN_ANYWHERE = [''free-drive'', ''bench'', ''rosbag'', ''unknown'']"

definition BAG_TOPICS :: "(string \<times> string) list" where
  "BAG_TOPICS = [(''drive'', ''/drive_status''), (''twist'', ''/target_twist''), (''scan'', ''/scan''), (''odom'', ''/odom'')]"

text \<open>The lessons the content file has a name for.\<close>

definition LESSONS :: "string list" where
  "LESSONS = [''control-speed'', ''control-distance'', ''measurement-control'', ''measurement-slam'', ''motor-bench'', ''slam'',
     ''planning-room'', ''launch-measure'', ''bench'', ''free-drive'', ''rosbag'', ''unknown'']"

record target =
  tg_id :: string
  tg_course :: string
  tg_topic :: "string option"
  tg_needs :: "string list"
  tg_compare :: bool
  tg_ownOnly :: bool

definition target :: "string \<Rightarrow> string \<Rightarrow> string option \<Rightarrow> string list \<Rightarrow> bool \<Rightarrow> bool \<Rightarrow> target" where
  "target i course topic needs compare ownOnly =
     \<lparr> tg_id = i, tg_course = course, tg_topic = topic, tg_needs = needs, tg_compare = compare, tg_ownOnly = ownOnly \<rparr>"

definition RECORD_TARGETS :: "target list" where
  "RECORD_TARGETS =
     [target ''control-speed'' ''control'' None [''drive'', ''twist''] True False,
      target ''control-distance'' ''control'' None [''scan''] True False,
      target ''measurement-control'' ''control'' None [''drive'', ''twist''] False False,
      target ''measurement-slam'' ''slam'' None [''odom''] False False,
      target ''slam'' ''slam'' None [''scan'', ''drive''] False False,
      target ''planning-room'' ''planning'' (Some ''room'') [''scan'', ''odom''] False False,
      target ''motor-bench'' ''motor'' (Some ''real'') [''drive'', ''twist''] False False,
      target ''launch-measure'' ''launch'' (Some ''measure'') [''shot''] False True]"

definition id_char :: "char \<Rightarrow> bool" where
  "id_char c \<longleftrightarrow> is_letter c \<or> is_digit c \<or> c \<in> set ''.-''"

definition ID_PATTERN :: "string \<Rightarrow> bool" where
  "ID_PATTERN s \<longleftrightarrow> s \<noteq> [] \<and> list_all id_char s"

definition finiteOr :: "num \<Rightarrow> real \<Rightarrow> real" where
  "finiteOr v fallback = coalesce v fallback"

section \<open>Where the interface is\<close>

text \<open>The page's location: its parts and its origin.\<close>

definition recordsBaseUrl :: "(string \<Rightarrow> url_parts option) \<Rightarrow> (url_parts \<times> string) option \<Rightarrow> string \<Rightarrow> string" where
  "recordsBaseUrl parse page wsUrl =
     (case parse wsUrl of
        None \<Rightarrow> []
      | Some url \<Rightarrow>
          if up_protocol url \<notin> set [''ws:'', ''wss:''] then []
          else
            let scheme = (if up_protocol url = ''wss:'' then ''https:'' else ''http:'') in
            case page of
              None \<Rightarrow> scheme @ ''//'' @ up_host url
            | Some (p, origin) \<Rightarrow>
                if up_host p = up_host url \<and> up_protocol p = scheme \<and> origin \<noteq> [] then origin
                else scheme @ ''//'' @ up_host url)"

section \<open>Reading with a time limit\<close>

datatype missing = OldBridge | GoneRecord

datatype records_error =
    BridgeSays string
  | NotFound missing
  | BadStatus nat
  | TookTooLong int
  | Cancelled
  | NoNetwork
  | NotJson
  | BadId

text \<open>The signal handed to \<open>fetch\<close>: whether the time ran out, whether it was aborted, and whether the timer and
  the caller's signal are still attached.\<close>

record limit =
  lm_timedOut :: bool
  lm_aborted :: bool
  lm_attached :: bool

datatype limit_event = TimeRunsOut | CallerAborts | Release

definition limitedSignal :: "bool \<Rightarrow> limit" where
  "limitedSignal callerAborted = \<lparr> lm_timedOut = False, lm_aborted = callerAborted, lm_attached = True \<rparr>"

fun limit_step :: "limit_event \<Rightarrow> limit \<Rightarrow> limit" where
  "limit_step TimeRunsOut l = (if lm_attached l then l\<lparr> lm_timedOut := True, lm_aborted := True \<rparr> else l)"
| "limit_step CallerAborts l = (if lm_attached l then l\<lparr> lm_aborted := True \<rparr> else l)"
| "limit_step Release l = l\<lparr> lm_attached := False \<rparr>"

text \<open>An answer: its status and its body, \<open>None\<close> when reading the body failed.\<close>

record answer =
  aw_status :: nat
  aw_text :: "string option"

definition errorOf :: "(string \<Rightarrow> json option) \<Rightarrow> missing \<Rightarrow> answer \<Rightarrow> records_error" where
  "errorOf json_parse notFound response =
     (let message = cleanText (jfield (Option.bind (aw_text response) json_parse) ''error'') 300 in
      if message \<noteq> [] then BridgeSays message
      else if aw_status response = 404 then NotFound notFound
      else BadStatus (aw_status response))"

definition limit_error :: "nat \<Rightarrow> limit \<Rightarrow> records_error" where
  "limit_error timeoutMs l =
     (if lm_timedOut l then TookTooLong (js_round (real timeoutMs / 1000))
      else if lm_aborted l then Cancelled else NoNetwork)"

text \<open>\<open>fetch\<close> answers (\<open>Some\<close>) or rejects, while \<open>events\<close> happen to the signal.\<close>

definition fetchText ::
  "(string \<Rightarrow> json option) \<Rightarrow> nat \<Rightarrow> missing \<Rightarrow> bool \<Rightarrow> limit_event list \<Rightarrow> answer option \<Rightarrow> records_error + string" where
  "fetchText json_parse timeoutMs notFound callerAborted events response =
     (let l = fold limit_step events (limitedSignal callerAborted) in
      case response of
        None \<Rightarrow> Inl (limit_error timeoutMs l)
      | Some r \<Rightarrow>
          if \<not> (200 \<le> aw_status r \<and> aw_status r < 300) then Inl (errorOf json_parse notFound r)
          else case aw_text r of None \<Rightarrow> Inl (limit_error timeoutMs l) | Some t \<Rightarrow> Inr t)"

definition parseJson :: "(string \<Rightarrow> json option) \<Rightarrow> string \<Rightarrow> records_error + json" where
  "parseJson json_parse t = (case json_parse t of None \<Rightarrow> Inl NotJson | Some v \<Rightarrow> Inr v)"

section \<open>What the bridge lists\<close>

datatype entry_id = RobotId string | LocalId nat

record record_entry =
  en_id :: entry_id
  en_source :: string
  en_lesson :: "string option"
  en_label :: string
  en_group :: "string option"
  en_robot :: "string option"
  en_recordedAt :: "json option"
  en_seconds :: real
  en_outcome :: "outcome option"
  en_bytes :: real

definition robotNameOf :: "json option \<Rightarrow> string" where
  "robotNameOf robot = cleanText (if jstring robot \<noteq> None then robot else jfield robot ''name'') MAX_LABEL"

definition text_field :: "json option \<Rightarrow> string \<Rightarrow> string" where
  "text_field raw key = coalesce (jstring (jfield raw key)) []"

definition normalizeEntry :: "json \<Rightarrow> record_entry option" where
  "normalizeEntry v =
     (let raw = Some v; i = text_field raw ''id'' in
      if \<not> ID_PATTERN i then None
      else Some \<lparr> en_id = RobotId i,
        en_source = (if text_field raw ''source'' \<in> set SOURCES then text_field raw ''source'' else ''lab''),
        en_lesson = nonempty (cleanText (jfield raw ''lesson'') 40), en_label = cleanText (jfield raw ''label'') MAX_LABEL,
        en_group = nonempty (cleanText (jfield raw ''group'') MAX_GROUP), en_robot = nonempty (robotNameOf (jfield raw ''robot'')),
        en_recordedAt = Some (JStr (text_field raw ''recordedAt'')),
        en_seconds = max 0 (finiteOr (jnum (jfield raw ''seconds'')) 0), en_outcome = cleanOutcome (jfield raw ''outcome''),
        en_bytes = max 0 (finiteOr (jnum (jfield raw ''bytes'')) 0) \<rparr>)"

definition ends_with :: "string \<Rightarrow> string \<Rightarrow> bool" where
  "ends_with ending s \<longleftrightarrow> starts_with (rev ending) (rev s)"

definition texts_of :: "json option \<Rightarrow> string list" where
  "texts_of v = List.map_filter (\<lambda>t. jstring (Some t)) (coalesce (as_list v) [])"

definition has_topic :: "string list \<Rightarrow> string \<Rightarrow> bool" where
  "has_topic names stream =
     (case map_of BAG_TOPICS stream of None \<Rightarrow> False | Some topic \<Rightarrow> list_ex (ends_with topic) names)"

definition bagStreams :: "string list \<Rightarrow> string list" where
  "bagStreams names = filter (has_topic names) RECORDING_STREAMS"

record bag =
  bg_name :: string
  bg_startedAt :: string
  bg_seconds :: real
  bg_bytes :: real
  bg_topics :: "string list"
  bg_streams :: "string list"
  bg_usable :: bool
  bg_reason :: "string option"

definition normalizeBag :: "json \<Rightarrow> bag option" where
  "normalizeBag v =
     (let raw = Some v; name = cleanText (jfield raw ''name'') 200; topics = texts_of (jfield raw ''topics'') in
      if name = [] \<or> CHR ''/'' \<in> set name \<or> starts_with ''.'' name then None
      else Some \<lparr> bg_name = name, bg_startedAt = text_field raw ''startedAt'',
        bg_seconds = max 0 (finiteOr (jnum (jfield raw ''seconds'')) 0), bg_bytes = max 0 (finiteOr (jnum (jfield raw ''bytes'')) 0),
        bg_topics = topics, bg_streams = bagStreams topics, bg_usable = (jfield raw ''usable'' \<noteq> Some (JBool False)),
        bg_reason = nonempty (cleanText (jfield raw ''reason'') 200) \<rparr>)"

record record_list =
  rl_records :: "record_entry list"
  rl_used :: real
  rl_limit :: real
  rl_save :: bool

definition recordList :: "json \<Rightarrow> record_list" where
  "recordList data =
     (let v = Some data; quota = jfield v ''quota'' in
      \<lparr> rl_records = List.map_filter normalizeEntry (coalesce (as_list (jfield v ''records'')) []),
        rl_used = max 0 (finiteOr (jnum (jfield quota ''used_bytes'')) 0),
        rl_limit = max 0 (finiteOr (jnum (jfield quota ''limit_bytes'')) 0),
        rl_save = (jfield v ''save'' = Some (JBool True)) \<rparr>)"

definition bagList :: "json \<Rightarrow> bag list \<times> string" where
  "bagList data =
     (List.map_filter normalizeBag (coalesce (as_list (jfield (Some data) ''bags'')) []), cleanText (jfield (Some data) ''dir'') 300)"

section \<open>A part of a bag\<close>

datatype window_error = BadNumber | TooLongWindow

record bag_window =
  bw_start :: real
  bw_seconds :: real

text \<open>The ends as \<open>Number\<close> reads them; \<open>None\<close> is a value that is not finite.\<close>

definition bagWindow :: "bag \<Rightarrow> num \<Rightarrow> num \<Rightarrow> window_error + bag_window" where
  "bagWindow b start seconds =
     (case (start, seconds) of
        (Some from_, Some len) \<Rightarrow>
          if from_ < 0 \<or> len \<le> 0 then Inl BadNumber
          else if len > BAG_MAX_SECONDS then Inl TooLongWindow
          else if bg_seconds b > 0 then
            let clampedStart = min from_ (max 0 (bg_seconds b - 1));
                clampedLength = min len (bg_seconds b - clampedStart)
            in Inr \<lparr> bw_start = to_fixed 1 clampedStart, bw_seconds = to_fixed 1 clampedLength \<rparr>
          else Inr \<lparr> bw_start = to_fixed 1 from_, bw_seconds = to_fixed 1 len \<rparr>
      | _ \<Rightarrow> Inl BadNumber)"

definition defaultBagWindow :: "bag \<Rightarrow> bag_window" where
  "defaultBagWindow b =
     \<lparr> bw_start = 0, bw_seconds = min BAG_MAX_SECONDS (if bg_seconds b > 0 then of_int \<lceil>bg_seconds b\<rceil> else BAG_MAX_SECONDS) \<rparr>"

section \<open>The client\<close>

datatype client_error = RecordsProblem records_error | RecordingProblem recording_error

text \<open>\<open>encodeURIComponent\<close> on the bytes of the text.\<close>

definition hex_digit :: "nat \<Rightarrow> char" where
  "hex_digit d = (if d < 10 then char_of (48 + d) else char_of (55 + d))"

definition encode_char :: "char \<Rightarrow> string" where
  "encode_char c =
     (if is_letter c \<or> is_digit c \<or> c \<in> set ''-.!~*()'' \<or> c = CHR 0x27 then [c]
      else let n = (of_char c :: nat) in [CHR ''%'', hex_digit (n div 16), hex_digit (n mod 16)])"

definition encodeURIComponent :: "string \<Rightarrow> string" where
  "encodeURIComponent s = concat (map encode_char s)"

text \<open>\<open>get path timeout missing\<close> is the reading of \<open>base + path\<close>.\<close>

type_synonym reader = "string \<Rightarrow> nat \<Rightarrow> missing \<Rightarrow> records_error + string"

definition read_json :: "(string \<Rightarrow> json option) \<Rightarrow> (records_error + string) \<Rightarrow> (json \<Rightarrow> 'a) \<Rightarrow> client_error + 'a" where
  "read_json json_parse got f =
     (case got of
        Inl e \<Rightarrow> Inl (RecordsProblem e)
      | Inr t \<Rightarrow> (case parseJson json_parse t of Inl e \<Rightarrow> Inl (RecordsProblem e) | Inr v \<Rightarrow> Inr (f v)))"

definition client_list :: "(string \<Rightarrow> json option) \<Rightarrow> reader \<Rightarrow> client_error + record_list" where
  "client_list json_parse get = read_json json_parse (get ''/api/records'' LIST_TIMEOUT_MS OldBridge) recordList"

definition client_bags :: "(string \<Rightarrow> json option) \<Rightarrow> reader \<Rightarrow> client_error + bag list \<times> string" where
  "client_bags json_parse get = read_json json_parse (get ''/api/rosbags'' LIST_TIMEOUT_MS OldBridge) bagList"

definition read_recording :: "(string \<Rightarrow> json option) \<Rightarrow> (records_error + string) \<Rightarrow> client_error + recording" where
  "read_recording json_parse got =
     (case got of
        Inl e \<Rightarrow> Inl (RecordsProblem e)
      | Inr t \<Rightarrow> (case parseRecording (json_parse t) of Inl e \<Rightarrow> Inl (RecordingProblem e) | Inr r \<Rightarrow> Inr r))"

definition record_path :: "string \<Rightarrow> records_error + string" where
  "record_path i = (if ID_PATTERN i then Inr (''/api/records/'' @ i) else Inl BadId)"

definition client_recording :: "(string \<Rightarrow> json option) \<Rightarrow> reader \<Rightarrow> string \<Rightarrow> client_error + recording" where
  "client_recording json_parse get i =
     (case record_path i of
        Inl e \<Rightarrow> Inl (RecordsProblem e)
      | Inr path \<Rightarrow> read_recording json_parse (get path RECORD_TIMEOUT_MS GoneRecord))"

definition convert_path :: "string \<Rightarrow> bag_window \<Rightarrow> string" where
  "convert_path name w =
     ''/api/rosbags/'' @ encodeURIComponent name @ ''/recording?start='' @ show_num (bw_start w) @ ''&seconds='' @ show_num (bw_seconds w)"

definition client_convert :: "(string \<Rightarrow> json option) \<Rightarrow> reader \<Rightarrow> string \<Rightarrow> bag_window \<Rightarrow> client_error + recording" where
  "client_convert json_parse get name w = read_recording json_parse (get (convert_path name w) CONVERT_TIMEOUT_MS GoneRecord)"

section \<open>Filters\<close>

definition lessonKey :: "record_entry \<Rightarrow> string" where
  "lessonKey entry =
     (if en_source entry = ''rosbag-cache'' then ''rosbag''
      else if en_source entry = ''auto'' then ''free-drive''
      else case en_lesson entry of None \<Rightarrow> ''unknown'' | Some lesson \<Rightarrow> if lesson \<in> set LESSONS then lesson else ''unknown'')"

record filters =
  fl_lesson :: string
  fl_group :: string
  fl_mine :: bool
  fl_controller :: bool

definition filterEntries :: "filters \<Rightarrow> string \<Rightarrow> record_entry list \<Rightarrow> record_entry list" where
  "filterEntries f myGroup entries =
     filter (\<lambda>entry.
        if \<not> fl_controller f \<and> en_source entry = ''auto'' then False
        else if fl_lesson f \<noteq> [] \<and> lessonKey entry \<noteq> fl_lesson f then False
        else if fl_group f \<noteq> [] \<and> en_group entry \<noteq> Some (fl_group f) then False
        else if fl_mine f \<and> (myGroup = [] \<or> en_group entry \<noteq> Some myGroup) then False
        else True) entries"

text \<open>\<open>[...new Set(xs)]\<close>: the first of each.\<close>

definition unique :: "'a list \<Rightarrow> 'a list" where
  "unique xs = rev (remdups (rev xs))"

definition filterChoices :: "record_entry list \<Rightarrow> string list \<times> string list" where
  "filterChoices entries = (unique (map lessonKey entries), sort (unique (filter (\<lambda>g. g \<noteq> []) (List.map_filter en_group entries))))"

section \<open>Where a record can be opened\<close>

definition targetById :: "string \<Rightarrow> target option" where
  "targetById i = find (\<lambda>t. tg_id t = i) RECORD_TARGETS"

definition targetsFor :: "record_entry \<Rightarrow> string list \<Rightarrow> target list" where
  "targetsFor entry streams =
     (let key = lessonKey entry; own = filter (\<lambda>t. tg_id t = key) RECORD_TARGETS in
      if own \<noteq> [] then own
      else if key \<notin> set OPEN_ANYWHERE then []
      else filter (\<lambda>t. \<not> tg_ownOnly t \<and> list_all (\<lambda>name. name \<in> set streams) (tg_needs t)) RECORD_TARGETS)"

definition missingFor :: "target \<Rightarrow> recording \<Rightarrow> string list" where
  "missingFor t r = missingInRecording r (tg_needs t)"

section \<open>Words and lists\<close>

definition recordedOnly :: "record_entry \<Rightarrow> bool" where
  "recordedOnly entry \<longleftrightarrow> (case en_outcome entry of None \<Rightarrow> True | Some oc \<Rightarrow> oc_reason oc = ''recorded'')"

definition outcome_reason :: "record_entry \<Rightarrow> string" where
  "outcome_reason entry = (case en_outcome entry of None \<Rightarrow> [] | Some oc \<Rightarrow> oc_reason oc)"

datatype outcome_word = ControllerWord | RosbagWord | LauncherWord | RecordedWord | StatusWord status_key

definition outcomeWord :: "record_entry \<Rightarrow> outcome_word" where
  "outcomeWord entry =
     (if en_source entry = ''auto'' then ControllerWord
      else if en_source entry = ''rosbag-cache'' then RosbagWord
      else if lessonKey entry = ''launch-measure'' \<and> recordedOnly entry then LauncherWord
      else if recordedOnly entry then RecordedWord
      else StatusWord (runStatusKey (outcome_reason entry)))"

datatype outcome_kind = KindOk | KindStopped | KindProblem | KindNone

definition outcomeKind :: "record_entry \<Rightarrow> outcome_kind" where
  "outcomeKind entry =
     (if en_source entry \<notin> set [''lab'', ''local''] \<or> recordedOnly entry then KindNone
      else case runStatusKey (outcome_reason entry) of
          ByController \<Rightarrow> KindStopped
        | OfKind RanOk \<Rightarrow> KindOk
        | OfKind RunStopped \<Rightarrow> KindStopped
        | OfKind RunProblem \<Rightarrow> KindProblem
        | OfKind RunRecorded \<Rightarrow> KindNone)"

definition localEntry :: "run \<Rightarrow> record_entry" where
  "localEntry r =
     \<lparr> en_id = LocalId (hr_id r), en_source = ''local'', en_lesson = nonempty (hr_slot r), en_label = [],
       en_group = nonempty (hr_group r), en_robot = nonempty (hr_robot r), en_recordedAt = hr_at r,
       en_seconds = max 0 (ru_seconds (rr_summary (hr_report r))),
       en_outcome = (if hr_reason r = [] then None else Some \<lparr> oc_reason = hr_reason r, oc_label = [] \<rparr>), en_bytes = 0 \<rparr>"

text \<open>The runs of the browser that the list of records shows; \<open>None\<close>: the robot's list is not known.\<close>

definition runsNotOnRobot :: "run list \<Rightarrow> string list option \<Rightarrow> run list" where
  "runsNotOnRobot runs robotIds =
     (case robotIds of None \<Rightarrow> runs | Some ids \<Rightarrow> filter (\<lambda>r. hr_robotId r = [] \<or> hr_robotId r \<notin> set ids) runs)"

definition onlyOnThisDevice :: "run \<Rightarrow> string list option \<Rightarrow> bool" where
  "onlyOnThisDevice r robotIds =
     (if hr_robotId r = [] then True else case robotIds of None \<Rightarrow> False | Some ids \<Rightarrow> hr_robotId r \<notin> set ids)"

text \<open>A stable sort by descending time; \<open>None\<close>, no usable date, counts as before every date.\<close>

definition newestFirst :: "('a \<Rightarrow> num) \<Rightarrow> 'a list \<Rightarrow> 'a list" where
  "newestFirst date items = rev (sort_key date (rev items))"

definition lessonName :: "string \<Rightarrow> string" where
  "lessonName key = (if key \<in> set LESSONS then key else ''unknown'')"

datatype entry_name = OwnLabel string | LessonLabel string

record entry_view =
  ew_entry :: record_entry
  ew_label :: entry_name
  ew_lesson :: string
  ew_outcome :: outcome_word
  ew_kind :: outcome_kind
  ew_targets :: "target list"

definition describeEntry :: "record_entry \<Rightarrow> string list \<Rightarrow> entry_view" where
  "describeEntry entry streams =
     (let lesson = lessonKey entry; named = (en_label entry \<noteq> [] \<and> en_label entry \<noteq> UNKNOWN_CONDITIONS) in
      \<lparr> ew_entry = entry, ew_label = (if named then OwnLabel (en_label entry) else LessonLabel (lessonName lesson)),
        ew_lesson = lesson, ew_outcome = outcomeWord entry, ew_kind = outcomeKind entry, ew_targets = targetsFor entry streams \<rparr>)"

definition megabytes :: "real \<Rightarrow> string" where
  "megabytes bytes = (if \<not> bytes > 0 then ''0'' else fixed_text 1 (max (1 / 10) (bytes / BYTES_PER_MB)))"

section \<open>What the lists promise\<close>

definition entry_usable :: "record_entry \<Rightarrow> bool" where
  "entry_usable entry \<longleftrightarrow>
     (case en_id entry of RobotId i \<Rightarrow> ID_PATTERN i \<and> record_path i = Inr (''/api/records/'' @ i) | LocalId n \<Rightarrow> True)
     \<and> en_source entry \<in> set SOURCES \<and> 0 \<le> en_seconds entry \<and> 0 \<le> en_bytes entry
     \<and> length (en_label entry) \<le> 60 \<and> en_lesson entry \<noteq> Some [] \<and> en_group entry \<noteq> Some [] \<and> lessonKey entry \<in> set LESSONS"

lemma lessonKey_known: "lessonKey entry \<in> set LESSONS"
  by (auto simp: lessonKey_def LESSONS_def split: option.split)

lemma cleanText_length: "length (cleanText v n) \<le> n"
  by (simp add: cleanText_def split: option.split json.split)

lemma nonempty_text [simp]: "nonempty s \<noteq> Some []"
  by (simp add: nonempty_def)

lemma normalized_usable:
  assumes "normalizeEntry v = Some entry"
  shows "entry_usable entry"
proof -
  let ?i = "text_field (Some v) ''id''" and ?s = "text_field (Some v) ''source''"
  have i: "ID_PATTERN ?i" using assms by (cases "ID_PATTERN ?i") (simp_all add: normalizeEntry_def Let_def)
  have entry: "en_id entry = RobotId ?i" "en_source entry = (if ?s \<in> set SOURCES then ?s else ''lab'')"
    "0 \<le> en_seconds entry" "0 \<le> en_bytes entry" "length (en_label entry) \<le> MAX_LABEL"
    "en_lesson entry \<noteq> Some []" "en_group entry \<noteq> Some []"
    using assms i by (auto simp: normalizeEntry_def Let_def cleanText_length)
  have "en_source entry \<in> set SOURCES" unfolding entry(2) by (simp add: SOURCES_def)
  then show ?thesis
    unfolding entry_usable_def entry(1) using entry i lessonKey_known by (simp add: record_path_def MAX_LABEL_def)
qed

definition bag_usable :: "bag \<Rightarrow> bool" where
  "bag_usable b \<longleftrightarrow> bg_name b \<noteq> [] \<and> CHR ''/'' \<notin> set (bg_name b) \<and> bg_name b \<noteq> ''.'' \<and> bg_name b \<noteq> ''..''
     \<and> 0 \<le> bg_seconds b \<and> 0 \<le> bg_bytes b
     \<and> list_all (has_topic (bg_topics b)) (bg_streams b)"

lemma streams_held: "list_all (has_topic names) (bagStreams names)"
  by (simp add: bagStreams_def list_all_iff)

lemma normalized_bag:
  assumes "normalizeBag v = Some b"
  shows "bag_usable b"
proof -
  let ?name = "cleanText (jfield (Some v) ''name'') 200"
  have name: "\<not> (?name = [] \<or> CHR ''/'' \<in> set ?name \<or> starts_with ''.'' ?name)"
    using assms by (auto simp: normalizeBag_def Let_def)
  then have "bg_name b = ?name" "bg_streams b = bagStreams (bg_topics b)" "0 \<le> bg_seconds b" "0 \<le> bg_bytes b"
    using assms by (auto simp: normalizeBag_def Let_def)
  then show ?thesis using name streams_held unfolding bag_usable_def by (auto simp: starts_with_def)
qed

lemma map_filter_all: "(\<And>v x. f v = Some x \<Longrightarrow> P x) \<Longrightarrow> list_all P (List.map_filter f vs)"
  by (induction vs) (auto simp: map_filter_simps split: option.split)

text \<open>
  Whatever the bridge answers to the two listings (any JSON value), every record listed has an identifier the
  client accepts, one of the three sources, a length and a size that are not negative, and a lesson the page has
  a name for; every bag has a name that names one directory entry, and only streams it has a topic of.
\<close>

theorem listings_usable:
  "list_all entry_usable (rl_records (recordList data)) \<and> list_all bag_usable (fst (bagList data))
   \<and> 0 \<le> rl_used (recordList data) \<and> 0 \<le> rl_limit (recordList data)"
  using map_filter_all [of normalizeEntry entry_usable, OF normalized_usable]
    map_filter_all [of normalizeBag bag_usable, OF normalized_bag]
  by (simp add: recordList_def bagList_def Let_def)

definition window_inside :: "bag \<Rightarrow> bag_window \<Rightarrow> bool" where
  "window_inside b w \<longleftrightarrow> 0 \<le> bw_start w \<and> 0 \<le> bw_seconds w \<and> bw_seconds w \<le> BAG_MAX_SECONDS
     \<and> (bg_seconds b > 0 \<longrightarrow> bw_start w + bw_seconds w \<le> bg_seconds b + 1 / 10 \<and> bw_start w \<le> max 0 (bg_seconds b - 1) + 1 / 20)"

definition window_refused :: "num \<Rightarrow> num \<Rightarrow> window_error option" where
  "window_refused start seconds =
     (case (start, seconds) of
        (Some a, Some n) \<Rightarrow> if a < 0 \<or> n \<le> 0 then Some BadNumber else if n > 300 then Some TooLongWindow else None
      | _ \<Rightarrow> Some BadNumber)"

lemma to_fixed_tenth: "\<bar>to_fixed 1 x - x\<bar> \<le> 1 / 20"
  using to_fixed_close [of 1 x] by simp

lemma to_fixed_bounds: "0 \<le> x \<Longrightarrow> 0 \<le> to_fixed 1 x"
  unfolding to_fixed_def by (cases "x = 0") (auto intro!: divide_nonneg_pos)

lemma to_fixed_300:
  assumes "0 \<le> x" "x \<le> 300"
  shows "to_fixed 1 x \<le> 300"
proof -
  have "x * 10 + 1 / 2 < 3001" using assms by simp
  then have "\<lfloor>x * 10 + 1 / 2\<rfloor> \<le> 3000" by (simp add: floor_le_iff)
  then show ?thesis using assms by (cases "x = 0") (simp_all add: to_fixed_def)
qed

text \<open>
  The part of a bag to convert is refused exactly for numbers that make no sense or more than 300 seconds,
  and otherwise lies inside the bag up to the rounding to tenths, leaves at least about one second of it after
  the start, and is never longer than the robot converts at once; the window offered first is such a window.
\<close>

theorem bag_window_inside:
  "(case window_refused start seconds of
      Some e \<Rightarrow> bagWindow b start seconds = Inl e
    | None \<Rightarrow> (case bagWindow b start seconds of Inl e \<Rightarrow> False | Inr w \<Rightarrow> window_inside b w))
   \<and> bw_seconds (defaultBagWindow b) \<le> BAG_MAX_SECONDS"
proof -
  have "window_inside b w" if w: "bagWindow b (Some a) (Some n) = Inr w" and "0 \<le> a" "0 < n" "n \<le> 300" for a n w
  proof (cases "bg_seconds b > 0")
    case True
    define s where "s = min a (max 0 (bg_seconds b - 1))"
    define m where "m = min n (bg_seconds b - s)"
    have parts: "bw_start w = to_fixed 1 s" "bw_seconds w = to_fixed 1 m"
      using that True by (auto simp: bagWindow_def BAG_MAX_SECONDS_def Let_def s_def m_def)
    have "0 \<le> s" "s \<le> max 0 (bg_seconds b - 1)" "0 \<le> m" "m \<le> 300" "s + m \<le> bg_seconds b"
      using that True by (auto simp: s_def m_def)
    moreover from this have "to_fixed 1 s + to_fixed 1 m \<le> bg_seconds b + 1 / 10" "to_fixed 1 s \<le> max 0 (bg_seconds b - 1) + 1 / 20"
      using to_fixed_tenth [of s] to_fixed_tenth [of m] by linarith+
    ultimately show ?thesis
      using to_fixed_bounds [of s] to_fixed_bounds [of m] to_fixed_300 [of m]
      unfolding window_inside_def parts BAG_MAX_SECONDS_def by blast
  next
    case False
    then show ?thesis
      using that to_fixed_bounds to_fixed_300 by (auto simp: bagWindow_def window_inside_def BAG_MAX_SECONDS_def)
  qed
  then have inside: "case bagWindow b (Some a) (Some n) of Inl e \<Rightarrow> False | Inr w \<Rightarrow> window_inside b w"
    if "0 \<le> a" "0 < n" "n \<le> 300" for a n
    using that by (cases "bagWindow b (Some a) (Some n)") (auto simp: bagWindow_def BAG_MAX_SECONDS_def Let_def split: if_splits)
  have "case window_refused start seconds of
      Some e \<Rightarrow> bagWindow b start seconds = Inl e
    | None \<Rightarrow> (case bagWindow b start seconds of Inl e \<Rightarrow> False | Inr w \<Rightarrow> window_inside b w)"
  proof (cases "start = None \<or> seconds = None")
    case True
    then show ?thesis by (cases start; cases seconds) (auto simp: window_refused_def bagWindow_def)
  next
    case False
    then obtain a n where an: "start = Some a" "seconds = Some n" by auto
    consider "a < 0 \<or> n \<le> 0" | "0 \<le> a" "n > 300" | "0 \<le> a" "0 < n" "n \<le> 300" by linarith
    then show ?thesis
    proof cases
      case 1
      then show ?thesis by (auto simp: an window_refused_def bagWindow_def)
    next
      case 2
      then show ?thesis by (simp add: an window_refused_def bagWindow_def BAG_MAX_SECONDS_def)
    next
      case 3
      then show ?thesis using inside [OF 3] by (simp add: an window_refused_def)
    qed
  qed
  then show ?thesis by (simp add: defaultBagWindow_def)
qed


text \<open>
  The list of records is in order: it holds the same items, the newest first, those without a usable date
  last, and items of the same time in the order they were in. With the robot's list known, a run of this browser
  is listed exactly when the robot does not hold it, and then it carries the tag that it is only here.
\<close>

theorem records_in_order:
  "mset (newestFirst date items) = mset items \<and> sorted (rev (map date (newestFirst date items)))
   \<and> filter (\<lambda>x. date x = d) (newestFirst date items) = filter (\<lambda>x. date x = d) items
   \<and> runsNotOnRobot runs (Some ids) = filter (\<lambda>r. onlyOnThisDevice r (Some ids)) runs
   \<and> runsNotOnRobot runs None = runs"
proof -
  have "filter (\<lambda>x. date x = d) (newestFirst date items) = filter (\<lambda>x. date x = d) items"
    unfolding newestFirst_def rev_filter [symmetric] sort_key_stable by (simp add: rev_filter)
  moreover have "(hr_robotId r = [] \<or> hr_robotId r \<notin> set ids) = onlyOnThisDevice r (Some ids)" for r
    by (simp add: onlyOnThisDevice_def)
  ultimately show ?thesis
    by (simp add: newestFirst_def runsNotOnRobot_def rev_map [symmetric])
qed

end
