(* ===== verification/Motor_Core.thy ===== *)
theory Motor_Core
  imports Lab_Prelude
begin

text \<open>
  The motor course, \<open>lab/js/motor/core.js\<close>: the four experiments (a turning field, load and current, the speed
  controller, the servo) integrated in steps of 2 ms, gearing, and the figures of the coils. The nominal ratings
  of the parts (\<open>MOTOR_HARDWARE\<close>) are texts the learner reads; of them only the roller's KV enters the model.
\<close>

section \<open>Constants\<close>

definition MOTOR_TOPICS :: "(string \<times> nat) list" where
  "MOTOR_TOPICS = [(''field'', 0), (''load'', 0), (''transmission'', 0), (''esc'', 1), (''servo'', 1), (''choose'', 1), (''real'', 2)]"
definition PLAYED_TOPICS :: "string list" where "PLAYED_TOPICS = [''field'', ''load'', ''esc'', ''servo'']"
definition RUN_SECONDS :: real where "RUN_SECONDS = 6"
definition LOAD_TIME :: real where "LOAD_TIME = 3"
definition MOTOR_STEP :: real where "MOTOR_STEP = 2 / 1000"
definition SAMPLE_EVERY :: nat where "SAMPLE_EVERY = 10"
definition RPM_PER_RAD_PER_SECOND :: real where "RPM_PER_RAD_PER_SECOND = 60 / (2 * pi)"
definition DEGREES_PER_RADIAN :: real where "DEGREES_PER_RADIAN = 180 / pi"
definition LOAD_TARGET_RPM :: real where "LOAD_TARGET_RPM = 600"
definition LOAD_TARGET_TOLERANCE :: real where "LOAD_TARGET_TOLERANCE = 60"
definition LOAD_MAX_VOLTS :: real where "LOAD_MAX_VOLTS = 8"
definition LOAD_MAX_CURRENT :: real where "LOAD_MAX_CURRENT = 3"
definition COIL_RESISTANCE :: real where "COIL_RESISTANCE = 2"
definition GEAR_RATIOS :: "real list" where "GEAR_RATIOS = [1, 3, 6]"
definition GEAR_MOTOR_RPM :: real where "GEAR_MOTOR_RPM = 600"
definition GEAR_MOTOR_TORQUE :: real where "GEAR_MOTOR_TORQUE = 1 / 10"
definition GEAR_EFFICIENCY :: real where "GEAR_EFFICIENCY = 85 / 100"
definition GEAR_WHEEL_RADIUS :: real where "GEAR_WHEEL_RADIUS = 5 / 100"
definition GEAR_TARGET_FORCE :: real where "GEAR_TARGET_FORCE = 5"
definition GEAR_TARGET_SPEED :: real where "GEAR_TARGET_SPEED = 8 / 10"
definition PINION_TEETH :: real where "PINION_TEETH = 12"
definition ESC_KV :: real where "ESC_KV = 560"
definition ESC_LAG :: real where "ESC_LAG = 7 / 10"
definition ESC_LOAD_DROP :: real where "ESC_LOAD_DROP = 18 / 100"
definition LIPO_CELL_VOLTS :: real where "LIPO_CELL_VOLTS = 37 / 10"
definition SERVO_MIN :: real where "SERVO_MIN = 30"
definition SERVO_MAX :: real where "SERVO_MAX = 120"
definition SERVO_PUSH :: real where "SERVO_PUSH = 12 / 100"

definition CHOICE_ANSWERS :: "(string \<times> string) list" where
  "CHOICE_ANSWERS = [(''drive'', ''speed''), (''roller'', ''drive''), (''feeder'', ''angle'')]"

definition motor_clamp :: "real \<Rightarrow> real \<Rightarrow> real \<Rightarrow> real" where
  "motor_clamp v lo hi = max lo (min hi v)"

section \<open>Settings\<close>

record motor_config =
  mc_mode :: string
  mc_direction :: real
  mc_power :: real
  mc_load :: real
  mc_ratio :: real
  mc_voltage :: real
  mc_throttle :: real
  mc_loaded :: bool
  mc_target :: real
  mc_feedback :: bool
  mc_part :: string

definition motorDefaults :: motor_config where
  "motorDefaults =
     \<lparr> mc_mode = ''fixed'', mc_direction = 1, mc_power = 60, mc_load = 8 / 100, mc_ratio = 1, mc_voltage = 148 / 10,
       mc_throttle = 50, mc_loaded = True, mc_target = 90, mc_feedback = True, mc_part = ''drive'' \<rparr>"

section \<open>Gears and cells\<close>

record transmission =
  tv_ratio :: real
  tv_efficiency :: real
  tv_rpm :: real
  tv_torque :: real
  tv_force :: real
  tv_speed :: real
  tv_power :: real
  tv_teeth :: real
  tv_forceOk :: bool
  tv_speedOk :: bool

text \<open>The ratio as \<open>Number\<close> reads it; \<open>None\<close> is not a number.\<close>

definition transmissionValues :: "num \<Rightarrow> transmission" where
  "transmissionValues ratio =
     (let used = (case ratio of None \<Rightarrow> 1 | Some r \<Rightarrow> if r \<in> set GEAR_RATIOS then r else 1);
          efficiency = (if used = 1 then 1 else GEAR_EFFICIENCY);
          rpm = GEAR_MOTOR_RPM / used;
          torque = GEAR_MOTOR_TORQUE * used * efficiency;
          force = torque / GEAR_WHEEL_RADIUS;
          speed = rpm * 2 * pi * (GEAR_WHEEL_RADIUS / 60);
          pwr = (torque * rpm) / RPM_PER_RAD_PER_SECOND
      in \<lparr> tv_ratio = used, tv_efficiency = efficiency, tv_rpm = rpm, tv_torque = torque, tv_force = force, tv_speed = speed,
           tv_power = pwr, tv_teeth = PINION_TEETH * used, tv_forceOk = (force \<ge> GEAR_TARGET_FORCE - 1 / 10 ^ 9),
           tv_speedOk = (speed \<ge> GEAR_TARGET_SPEED - 1 / 10 ^ 9) \<rparr>)"

definition kvSpeed :: "real \<Rightarrow> real \<Rightarrow> real" where
  "kvSpeed kv voltage = kv * voltage"

definition lipoCells :: "real \<Rightarrow> int" where
  "lipoCells voltage = js_round (voltage / LIPO_CELL_VOLTS)"

definition evaluateMotorChoices :: "(string \<Rightarrow> string option) \<Rightarrow> (string \<times> bool) list" where
  "evaluateMotorChoices chosen = map (\<lambda>(key, answer). (key, chosen key = Some answer)) CHOICE_ANSWERS"

section \<open>One step of each experiment\<close>

record motor_state =
  ms_angle :: real
  ms_omega :: real
  ms_integral :: real

record motor_out =
  mu_field :: "real option"
  mu_torque :: "real option"
  mu_load :: "real option"
  mu_current :: "real option"
  mu_reference :: "real option"

definition no_out :: motor_out where
  "no_out = \<lparr> mu_field = None, mu_torque = None, mu_load = None, mu_current = None, mu_reference = None \<rparr>"

text \<open>\<open>time ? STEP : 0\<close>: nothing moves at time 0.\<close>

definition step_of :: "real \<Rightarrow> real" where
  "step_of time = (if time = 0 then 0 else MOTOR_STEP)"

type_synonym stepper = "motor_config \<Rightarrow> motor_state \<Rightarrow> real \<Rightarrow> motor_out \<times> motor_state"

definition stepField :: stepper where
  "stepField c st time =
     (let field = (if mc_mode c = ''fixed'' then pi / 2 else mc_direction c * time * 13 / 10);
          torque = 8 / 100 * sin (field - ms_angle st);
          omega = ms_omega st + ((torque - 4 / 100 * ms_omega st) / (12 / 1000)) * step_of time
      in (no_out\<lparr> mu_field := Some field, mu_torque := Some torque \<rparr>,
          st\<lparr> ms_omega := omega, ms_angle := ms_angle st + omega * step_of time \<rparr>))"

definition stepLoad :: stepper where
  "stepLoad c st time =
     (let voltage = (LOAD_MAX_VOLTS * motor_clamp (mc_power c) 0 100) / 100;
          load = (if time \<ge> LOAD_TIME then motor_clamp (mc_load c) 0 (15 / 100) else 0);
          current = motor_clamp ((voltage - 6 / 100 * ms_omega st) / COIL_RESISTANCE) 0 LOAD_MAX_CURRENT;
          torque = 6 / 100 * current;
          omega = max 0 (ms_omega st + ((torque - load - 25 / 100000 * ms_omega st) / (15 / 10000)) * MOTOR_STEP)
      in (no_out\<lparr> mu_current := Some current, mu_torque := Some torque, mu_load := Some load \<rparr>,
          st\<lparr> ms_omega := omega, ms_angle := ms_angle st + omega * step_of time \<rparr>))"

definition stepEsc :: stepper where
  "stepEsc c st time =
     (let reference = (kvSpeed ESC_KV (mc_voltage c) * motor_clamp (mc_throttle c) 0 100) / 100;
          load = (if mc_loaded c \<and> time \<ge> LOAD_TIME then ESC_LOAD_DROP else 0);
          target = (reference * (1 - load)) / RPM_PER_RAD_PER_SECOND;
          omega = ms_omega st + ((target - ms_omega st) * MOTOR_STEP) / ESC_LAG
      in (no_out\<lparr> mu_reference := Some reference, mu_load := Some load \<rparr>,
          st\<lparr> ms_omega := omega, ms_angle := ms_angle st + omega * step_of time \<rparr>))"

text \<open>The end stops of the feed arm.\<close>

definition end_stops :: "motor_state \<Rightarrow> motor_state" where
  "end_stops st =
     (let st = (if ms_angle st < 0 then st\<lparr> ms_angle := 0, ms_omega := max 0 (ms_omega st) \<rparr> else st)
      in if ms_angle st > pi then st\<lparr> ms_angle := pi, ms_omega := min 0 (ms_omega st) \<rparr> else st)"

definition stepServo :: stepper where
  "stepServo c st time =
     (let reference = motor_clamp (mc_target c) SERVO_MIN SERVO_MAX;
          load = (if time \<ge> LOAD_TIME then SERVO_PUSH else 0);
          error = reference / DEGREES_PER_RADIAN - ms_angle st;
          integral = motor_clamp (ms_integral st + error * MOTOR_STEP) (- 1 / 2) (1 / 2);
          holding = (mc_feedback c \<or> time < LOAD_TIME);
          torque = (if holding then motor_clamp (2 * error + 14 / 10 * integral - 2 / 10 * ms_omega st) (- 1 / 2) (1 / 2) else 0);
          omega = ms_omega st + ((torque - load - 9 / 100 * ms_omega st) / (25 / 1000)) * step_of time
      in (no_out\<lparr> mu_reference := Some reference, mu_load := Some load, mu_torque := Some torque, mu_current := Some (\<bar>torque\<bar> / (4 / 10)) \<rparr>,
          end_stops (st\<lparr> ms_integral := integral, ms_omega := omega, ms_angle := ms_angle st + omega * step_of time \<rparr>)))"

definition STEPPERS :: "(string \<times> stepper) list" where
  "STEPPERS = [(''field'', stepField), (''load'', stepLoad), (''esc'', stepEsc), (''servo'', stepServo)]"

section \<open>A run\<close>

record motor_sample =
  mp_time :: real
  mp_angle :: real
  mp_degrees :: real
  mp_rpm :: real
  mp_current :: real
  mp_heating :: real
  mp_torque :: real
  mp_load :: real
  mp_field :: real
  mp_reference :: real

definition motor_sample_of :: "real \<Rightarrow> motor_out \<Rightarrow> motor_state \<Rightarrow> motor_sample" where
  "motor_sample_of time out st =
     (let current = coalesce (mu_current out) 0 in
      \<lparr> mp_time = to_fixed 3 time, mp_angle = ms_angle st, mp_degrees = ms_angle st * DEGREES_PER_RADIAN,
        mp_rpm = ms_omega st * RPM_PER_RAD_PER_SECOND, mp_current = current, mp_heating = current * current * COIL_RESISTANCE,
        mp_torque = coalesce (mu_torque out) 0, mp_load = coalesce (mu_load out) 0, mp_field = coalesce (mu_field out) 0,
        mp_reference = coalesce (mu_reference out) 0 \<rparr>)"

text \<open>The loop: \<open>n\<close> steps from step \<open>k\<close> on.\<close>

fun motor_ticks :: "(motor_state \<Rightarrow> real \<Rightarrow> motor_out \<times> motor_state) \<Rightarrow> nat \<Rightarrow> nat \<Rightarrow> motor_state \<Rightarrow> motor_sample list" where
  "motor_ticks step 0 k st = []"
| "motor_ticks step (Suc n) k st =
     (let time = real k * MOTOR_STEP; (out, st') = step st time
      in (if k mod SAMPLE_EVERY \<noteq> 0 then [] else [motor_sample_of time out st']) @ motor_ticks step n (Suc k) st')"

record motor_run =
  mr_id :: string
  mr_config :: motor_config
  mr_samples :: "motor_sample list"
  mr_duration :: real

definition MOTOR_STEPS :: nat where
  "MOTOR_STEPS = nat (js_round (RUN_SECONDS / MOTOR_STEP))"

text \<open>\<open>None\<close>: the topic has no experiment.\<close>

definition simulateMotor :: "string \<Rightarrow> motor_config \<Rightarrow> motor_run option" where
  "simulateMotor topic settings =
     (case map_of STEPPERS topic of
        None \<Rightarrow> None
      | Some stepper \<Rightarrow>
          Some \<lparr> mr_id = topic, mr_config = settings,
                 mr_samples = motor_ticks (stepper settings) (MOTOR_STEPS + 1) 0 \<lparr> ms_angle = 0, ms_omega = 0, ms_integral = 0 \<rparr>,
                 mr_duration = RUN_SECONDS \<rparr>)"

section \<open>The numbers of a result\<close>

definition beforeLoad :: "motor_run \<Rightarrow> motor_sample" where
  "beforeLoad run = last (filter (\<lambda>s. mp_time s < LOAD_TIME) (mr_samples run))"

datatype motor_summary =
    FieldSummary string real real
  | LoadSummary real real real real real bool
  | EscSummary bool real real real real
  | ServoSummary bool real real real real real real

definition motorRunSummary :: "motor_run \<Rightarrow> motor_summary" where
  "motorRunSummary run =
     (let final = last (mr_samples run); before = beforeLoad run; c = mr_config run in
      if mr_id run = ''field'' then FieldSummary (mc_mode c) (mp_degrees final) (\<bar>mp_degrees final\<bar> / 360)
      else if mr_id run = ''load'' then
        LoadSummary (mp_rpm before) (mp_rpm final) (mp_current before) (mp_current final) (mp_heating final)
          (\<bar>mp_rpm final - LOAD_TARGET_RPM\<bar> \<le> LOAD_TARGET_TOLERANCE)
      else if mr_id run = ''esc'' then
        EscSummary (mc_loaded c) (mp_reference final) (mp_rpm before) (mp_rpm final)
          (if mp_rpm before > 0 then (1 - mp_rpm final / mp_rpm before) * 100 else 0)
      else
        let after = filter (\<lambda>s. mp_time s \<ge> LOAD_TIME) (mr_samples run) in
        ServoSummary (mc_feedback c) (mp_reference final) (mp_degrees before)
          (Max (set (map (\<lambda>s. \<bar>mp_reference s - mp_degrees s\<bar>) after))) (mp_degrees final)
          \<bar>mp_reference final - mp_degrees final\<bar> \<bar>mp_torque final\<bar>)"

section \<open>The figures of the coils\<close>

datatype pole = NorthPole | SouthPole

definition COIL_ON :: real where "COIL_ON = 1 / 10"

definition poleOf :: "real \<Rightarrow> pole" where
  "poleOf v = (if v > 0 then SouthPole else NorthPole)"

record coil =
  co_degrees :: real
  co_strength :: real
  co_on :: bool
  co_pole :: "pole option"

definition coil_at :: "real \<Rightarrow> bool \<Rightarrow> real \<Rightarrow> coil" where
  "coil_at field powered degrees =
     (let v = (if powered then cos (field - degrees / DEGREES_PER_RADIAN) else 0); driven = (\<bar>v\<bar> > COIL_ON)
      in \<lparr> co_degrees = degrees, co_strength = \<bar>v\<bar>, co_on = driven, co_pole = (if driven then Some (poleOf v) else None) \<rparr>)"

definition coilStates :: "real \<Rightarrow> bool \<Rightarrow> coil list" where
  "coilStates field powered = map (coil_at field powered) [0, 90, 180, 270]"

definition coilPoles :: "real \<Rightarrow> (pole \<times> pole) option" where
  "coilPoles current =
     (if current = 0 then None else if current > 0 then Some (SouthPole, NorthPole) else Some (NorthPole, SouthPole))"

section \<open>Gears trade force for speed\<close>

lemma pi_above: "24 / 10 < pi"
proof (rule ccontr)
  assume "\<not> 24 / 10 < pi"
  then have "cos (12 / 10 :: real) \<le> 0" using cos_monotone_0_pi_le [of "pi / 2" "12 / 10"] pi_ge_two by auto
  moreover have "cos (12 / 10 :: real) = 1 - 2 * (sin (6 / 10))\<^sup>2" using cos_double_sin [of "6 / 10 :: real"] by simp
  moreover have "(sin (6 / 10 :: real))\<^sup>2 \<le> (6 / 10)\<^sup>2"
    using sin_x_le_x [of "6 / 10"] sin_ge_zero [of "6 / 10"] pi_ge_two by (intro power_mono) auto
  ultimately show False by (simp add: power2_eq_square)
qed

text \<open>
  Whatever ratio is asked for, the wheel delivers the motor's power less the loss of the gears, as force times
  speed; and only the middle ratio reaches both the force and the speed that are asked for.
\<close>

theorem transmission_tradeoff:
  "let v = transmissionValues ratio
   in tv_ratio v \<in> set GEAR_RATIOS \<and> tv_force v * tv_speed v = tv_power v
      \<and> tv_power v = tv_efficiency v * (GEAR_MOTOR_TORQUE * GEAR_MOTOR_RPM / RPM_PER_RAD_PER_SECOND)
      \<and> (tv_forceOk v \<and> tv_speedOk v) = (tv_ratio v = 3)"
proof -
  define used where "used = tv_ratio (transmissionValues ratio)"
  have used: "used \<in> {1, 3, 6}"
    by (simp add: used_def transmissionValues_def Let_def GEAR_RATIOS_def split: option.split)
  have fields: "tv_ratio (transmissionValues ratio) = used" "tv_efficiency (transmissionValues ratio) = (if used = 1 then 1 else 85 / 100)"
    "tv_force (transmissionValues ratio) = 2 * used * (if used = 1 then 1 else 85 / 100)"
    "tv_speed (transmissionValues ratio) = pi / used"
    "tv_power (transmissionValues ratio) = 2 * pi * (if used = 1 then 1 else 85 / 100)"
    "tv_forceOk (transmissionValues ratio) = (2 * used * (if used = 1 then 1 else 85 / 100) \<ge> 5 - 1 / 10 ^ 9)"
    "tv_speedOk (transmissionValues ratio) = (pi / used \<ge> 8 / 10 - 1 / 10 ^ 9)"
    using used unfolding used_def
    by (auto simp: transmissionValues_def Let_def GEAR_RATIOS_def GEAR_MOTOR_RPM_def GEAR_MOTOR_TORQUE_def GEAR_EFFICIENCY_def
        GEAR_WHEEL_RADIUS_def GEAR_TARGET_FORCE_def GEAR_TARGET_SPEED_def RPM_PER_RAD_PER_SECOND_def split: option.splits if_splits)
  have "pi < 4" "24 / 10 < pi" using pi_less_4 pi_above by simp_all
  then show ?thesis
    unfolding Let_def fields using used
    by (auto simp: GEAR_RATIOS_def GEAR_MOTOR_RPM_def GEAR_MOTOR_TORQUE_def RPM_PER_RAD_PER_SECOND_def)
qed

section \<open>The experiments stay within their bounds\<close>

lemma to_fixed_sample: "to_fixed 3 (real (10 * k) * MOTOR_STEP) = real k / 50"
proof -
  have "\<lfloor>20 * real k + 1 / 2\<rfloor> = int (20 * k)" by (rule floor_unique) simp_all
  then have "\<lfloor>\<bar>real (10 * k) * MOTOR_STEP\<bar> * 10 ^ 3 + 1 / 2\<rfloor> = int (20 * k)" by (simp add: MOTOR_STEP_def mult.commute)
  then show ?thesis by (cases "k = 0") (simp_all add: to_fixed_def MOTOR_STEP_def)
qed

lemma sample_time:
  assumes "k mod SAMPLE_EVERY = 0"
  shows "mp_time (motor_sample_of (real k * MOTOR_STEP) out st) = real k * MOTOR_STEP"
proof -
  have "k = 10 * (k div 10)" using assms by (simp add: SAMPLE_EVERY_def) presburger
  then show ?thesis using to_fixed_sample [of "k div 10"] by (simp add: motor_sample_of_def Let_def MOTOR_STEP_def)
qed

text \<open>
  What an experiment keeps of its state from step to step (before the step of the time given), and what that says
  of the samples.
\<close>

locale motor_experiment =
  fixes step :: "motor_state \<Rightarrow> real \<Rightarrow> motor_out \<times> motor_state"
    and keeps :: "real \<Rightarrow> motor_state \<Rightarrow> bool"
    and reveals :: "real \<Rightarrow> motor_out \<Rightarrow> motor_state \<Rightarrow> bool"
  assumes step_keeps:
    "keeps t st \<Longrightarrow> t = 0 \<or> MOTOR_STEP \<le> t \<Longrightarrow> step st t = (out, st') \<Longrightarrow> keeps (t + MOTOR_STEP) st' \<and> reveals t out st'"
begin

lemma ticks_show:
  assumes "keeps (real k * MOTOR_STEP) st"
  shows "list_all (\<lambda>s. \<exists>out st'. reveals (mp_time s) out st' \<and> s = motor_sample_of (mp_time s) out st') (motor_ticks step n k st)"
  using assms
proof (induction n arbitrary: k st)
  case (Suc n)
  obtain out st' where step: "step st (real k * MOTOR_STEP) = (out, st')" by (cases "step st (real k * MOTOR_STEP)")
  have "real k * MOTOR_STEP = 0 \<or> MOTOR_STEP \<le> real k * MOTOR_STEP" by (cases k) (simp_all add: MOTOR_STEP_def)
  then have kept: "keeps (real k * MOTOR_STEP + MOTOR_STEP) st' \<and> reveals (real k * MOTOR_STEP) out st'"
    by (rule step_keeps [OF Suc.prems _ step])
  then have "keeps (real (Suc k) * MOTOR_STEP) st'" by (simp add: algebra_simps)
  then show ?case using Suc.IH [of "Suc k" st'] step kept sample_time [of k out st'] by (auto simp: Let_def)
qed simp

end

lemma motor_clamp_range: "lo \<le> hi \<Longrightarrow> lo \<le> motor_clamp v lo hi \<and> motor_clamp v lo hi \<le> hi"
  by (auto simp: motor_clamp_def)

lemma motor_clamp_half: "\<bar>motor_clamp v (- 1 / 2) (1 / 2)\<bar> \<le> 1 / 2" "\<bar>motor_clamp v (- (1 / 2)) (1 / 2)\<bar> * 2 \<le> 1"
  by (auto simp: motor_clamp_def max_def min_def abs_le_iff)

lemma motor_clamp_below: "0 \<le> v \<Longrightarrow> motor_clamp v 0 hi \<le> v"
  by (simp add: motor_clamp_def)

definition full_voltage :: "motor_config \<Rightarrow> real" where
  "full_voltage c = (LOAD_MAX_VOLTS * motor_clamp (mc_power c) 0 100) / 100"

lemma load_step_keeps:
  assumes "0 \<le> ms_omega st \<and> ms_omega st * (6 / 100) \<le> full_voltage c" "stepLoad c st t = (out, st')"
  shows "(0 \<le> ms_omega st' \<and> ms_omega st' * (6 / 100) \<le> full_voltage c)
    \<and> (0 \<le> ms_omega st' \<and> ms_omega st' * (6 / 100) \<le> full_voltage c \<and> (\<exists>i. mu_current out = Some i \<and> 0 \<le> i \<and> i \<le> 3))"
proof -
  let ?w = "ms_omega st" and ?V = "full_voltage c"
  let ?i = "motor_clamp ((?V - 6 / 100 * ?w) / COIL_RESISTANCE) 0 LOAD_MAX_CURRENT"
  define load where "load = (if t \<ge> LOAD_TIME then motor_clamp (mc_load c) 0 (15 / 100) else 0)"
  have "0 \<le> load" using motor_clamp_range [of 0 "15 / 100" "mc_load c"] by (simp add: load_def)
  have i: "0 \<le> ?i" "?i \<le> 3" using motor_clamp_range [of 0 LOAD_MAX_CURRENT] by (simp_all add: LOAD_MAX_CURRENT_def)
  have "?i \<le> (?V - 6 / 100 * ?w) / 2" using assms(1) motor_clamp_below [of "(?V - 6 / 100 * ?w) / 2" LOAD_MAX_CURRENT] by (simp add: COIL_RESISTANCE_def)
  have out: "mu_current out = Some ?i"
    "ms_omega st' = max 0 (?w + ((6 / 100 * ?i - load - 25 / 100000 * ?w) / (15 / 10000)) * MOTOR_STEP)"
    using assms(2) by (auto simp: stepLoad_def Let_def full_voltage_def no_out_def load_def)
  have "?w + ((6 / 100 * ?i - load - 25 / 100000 * ?w) / (15 / 10000)) * MOTOR_STEP \<le> ?w + 8 / 100 * ((?V - 6 / 100 * ?w) / 2)"
    using \<open>?i \<le> (?V - 6 / 100 * ?w) / 2\<close> \<open>0 \<le> load\<close> assms(1) by (simp add: MOTOR_STEP_def field_simps)
  then have "ms_omega st' \<le> max 0 (?w + 8 / 100 * ((?V - 6 / 100 * ?w) / 2))" unfolding out(2) by (rule max.mono [OF order_refl])
  moreover have "0 \<le> ?w + 8 / 100 * ((?V - 6 / 100 * ?w) / 2)" using assms(1) by (simp add: field_simps)
  ultimately have "ms_omega st' * (6 / 100) \<le> ?V" using assms(1) by (simp add: field_simps)
  then show ?thesis using i out by auto
qed

definition esc_full :: "motor_config \<Rightarrow> real" where
  "esc_full c = (kvSpeed ESC_KV (mc_voltage c) * motor_clamp (mc_throttle c) 0 100) / 100"

lemma rpm_factor: "0 < RPM_PER_RAD_PER_SECOND" "0 < DEGREES_PER_RADIAN"
  by (simp_all add: RPM_PER_RAD_PER_SECOND_def DEGREES_PER_RADIAN_def)

definition esc_within :: "motor_config \<Rightarrow> motor_state \<Rightarrow> bool" where
  "esc_within c st \<longleftrightarrow> min 0 (esc_full c) \<le> ms_omega st * RPM_PER_RAD_PER_SECOND \<and> ms_omega st * RPM_PER_RAD_PER_SECOND \<le> max 0 (esc_full c)"

lemma esc_step_keeps:
  assumes "esc_within c st" "stepEsc c st t = (out, st')"
  shows "esc_within c st' \<and> esc_within c st' \<and> mu_reference out = Some (esc_full c)"
proof -
  define drop where "drop = (if mc_loaded c \<and> t \<ge> LOAD_TIME then ESC_LOAD_DROP else 0)"
  define target where "target = (esc_full c * (1 - drop)) / RPM_PER_RAD_PER_SECOND"
  define f where "f = esc_full c"
  have drop: "drop = 0 \<or> drop = 18 / 100" by (simp add: drop_def ESC_LOAD_DROP_def)
  have out: "mu_reference out = Some (esc_full c)" "ms_omega st' = ms_omega st + ((target - ms_omega st) * MOTOR_STEP) / ESC_LAG"
    using assms(2) by (auto simp: stepEsc_def Let_def esc_full_def no_out_def target_def drop_def)
  have goal: "target * RPM_PER_RAD_PER_SECOND = f * (1 - drop)" using rpm_factor by (simp add: target_def f_def)
  define x where "x = ms_omega st * RPM_PER_RAD_PER_SECOND"
  have "ms_omega st' * RPM_PER_RAD_PER_SECOND = x * (1 - 1 / 350) + (target * RPM_PER_RAD_PER_SECOND) * (1 / 350)"
    unfolding out x_def by (simp add: MOTOR_STEP_def ESC_LAG_def field_simps)
  then have "ms_omega st' * RPM_PER_RAD_PER_SECOND = x * (349 / 350) + f / 350
    \<or> ms_omega st' * RPM_PER_RAD_PER_SECOND = x * (349 / 350) + f * (82 / 100) / 350"
    using drop unfolding goal by auto
  moreover have "min 0 f \<le> x" "x \<le> max 0 f" using assms(1) by (simp_all add: esc_within_def f_def x_def)
  ultimately have "min 0 f \<le> ms_omega st' * RPM_PER_RAD_PER_SECOND \<and> ms_omega st' * RPM_PER_RAD_PER_SECOND \<le> max 0 f"
    by (auto simp: min_def max_def split: if_splits)
  then show ?thesis using out(1) by (simp add: esc_within_def f_def)
qed

section \<open>The turning field\<close>

text \<open>
  Where the field stands, and what the rotor keeps: its speed from the balance of pull and damping, its angle from
  its speed. Against a fixed field the energy of the rotor (its turning and its distance from the field) never
  grows, so it swings between the two poles, within half a turn.
\<close>

definition field_at :: "motor_config \<Rightarrow> real \<Rightarrow> real" where
  "field_at c t = (if mc_mode c = ''fixed'' then pi / 2 else mc_direction c * t * 13 / 10)"

definition swinging :: "motor_state \<Rightarrow> bool" where
  "swinging st \<longleftrightarrow> 0 \<le> ms_angle st \<and> ms_angle st \<le> pi \<and> 3 * (ms_omega st)\<^sup>2 \<le> 40 * sin (ms_angle st)"

definition field_within :: "motor_config \<Rightarrow> real \<Rightarrow> motor_state \<Rightarrow> bool" where
  "field_within c t st \<longleftrightarrow> \<bar>ms_omega st\<bar> \<le> 2 \<and> \<bar>ms_angle st\<bar> \<le> 2 * t \<and> (if mc_mode c = ''fixed'' then swinging st else True)"

lemma sin_shift: "sin a + h * cos a - h\<^sup>2 \<le> sin (a + h)" for a h :: real
proof -
  have "\<bar>sin h - h\<bar> \<le> h\<^sup>2 / 2" using Maclaurin_sin_bound [of h 2] by (simp add: numeral_2_eq_2 sin_coeff_def)
  then have s: "\<bar>cos a * (sin h - h)\<bar> \<le> h\<^sup>2 / 2"
    using mult_mono [of "\<bar>cos a\<bar>" 1 "\<bar>sin h - h\<bar>" "h\<^sup>2 / 2"] by (simp add: abs_mult)
  have "1 - cos h = 2 * (sin (h / 2))\<^sup>2" using cos_double_sin [of "h / 2"] by simp
  moreover have "(sin (h / 2))\<^sup>2 \<le> (h / 2)\<^sup>2" using abs_sin_x_le_abs_x [of "h / 2"] unfolding abs_le_square_iff .
  ultimately have "0 \<le> 1 - cos h" "1 - cos h \<le> h\<^sup>2 / 2" by (simp_all add: power2_eq_square)
  then have c: "sin a * (1 - cos h) \<le> h\<^sup>2 / 2"
    using mult_mono [of "sin a" 1 "1 - cos h" "h\<^sup>2 / 2"] by simp
  have "sin (a + h) - (sin a + h * cos a) = cos a * (sin h - h) - sin a * (1 - cos h)" by (simp add: sin_add algebra_simps)
  then show ?thesis using s c by (simp add: abs_le_iff)
qed

lemma energy_falls:
  fixes w a :: real
  assumes "3 * w\<^sup>2 \<le> 40 * sin a" "w' = w + (8 * cos a - 4 * w) / 600"
  shows "3 * w'\<^sup>2 \<le> 40 * sin (a + w' / 500)"
proof -
  define d where "d = w' - w"
  have d: "cos a = 75 * d + w / 2" "w = w' - d" using assms(2) by (simp_all add: d_def field_simps)
  define p q where "p = w * w'" and "q = w' * d"
  have "3 * d\<^sup>2 + p / 25 - (w')\<^sup>2 / 6250 = 3 * (d - w' / 150)\<^sup>2 + (w')\<^sup>2 * (1489 / 37500)"
    unfolding p_def d(2) by (simp add: power2_eq_square field_simps)
  moreover have "0 \<le> 3 * (d - w' / 150)\<^sup>2 + (w')\<^sup>2 * (1489 / 37500)" by simp
  ultimately have "0 \<le> 3 * d\<^sup>2 + p / 25 - (w')\<^sup>2 / 6250" by (simp only:)
  moreover have "3 * w'\<^sup>2 = 3 * w\<^sup>2 + 6 * q - 3 * d\<^sup>2" unfolding q_def d(2) by (simp add: power2_eq_square algebra_simps)
  moreover have "40 * sin a + (6 * q + p / 25) - (w')\<^sup>2 / 6250 \<le> 40 * sin (a + w' / 500)"
  proof -
    have "40 * (w' / 500 * cos a) = 6 * q + p / 25" unfolding d(1) p_def q_def by (simp add: algebra_simps)
    moreover have "40 * (w' / 500)\<^sup>2 = (w')\<^sup>2 / 6250" by (simp add: power2_eq_square)
    moreover have "40 * (sin a + w' / 500 * cos a - (w' / 500)\<^sup>2) \<le> 40 * sin (a + w' / 500)" using sin_shift [of a "w' / 500"] by simp
    ultimately show ?thesis by (simp only: right_diff_distrib distrib_left)
  qed
  ultimately show ?thesis using assms(1) by linarith
qed

lemma stays_between_poles:
  fixes a h :: real
  assumes "0 \<le> a" "a \<le> pi" "\<bar>h\<bar> \<le> 1" "0 \<le> sin (a + h)"
  shows "0 \<le> a + h \<and> a + h \<le> pi"
proof (intro conjI; rule ccontr)
  assume "\<not> 0 \<le> a + h"
  then have "0 < sin (- (a + h))" using assms pi_above by (intro sin_gt_zero) simp_all
  then show False using assms(4) by (simp only: sin_minus)
next
  assume "\<not> a + h \<le> pi"
  then have "0 < sin (a + h - pi)" using assms pi_above by (intro sin_gt_zero) simp_all
  then show False using assms(4) by (simp add: sin_diff)
qed

lemma field_step_keeps:
  assumes kept: "field_within c (max 0 (t - MOTOR_STEP)) st" and t: "t = 0 \<or> MOTOR_STEP \<le> t" and step: "stepField c st t = (out, st')"
  shows "field_within c t st' \<and> mu_field out = Some (field_at c t) \<and> (\<exists>m. mu_torque out = Some m \<and> \<bar>m\<bar> \<le> 8 / 100)
    \<and> mu_current out = None \<and> mu_load out = None \<and> mu_reference out = None"
proof -
  let ?w = "ms_omega st" and ?a = "ms_angle st" and ?w' = "ms_omega st'"
  define s where "s = sin (field_at c t - ?a)"
  have s: "\<bar>s\<bar> \<le> 1" by (simp add: s_def)
  have out: "mu_field out = Some (field_at c t)" "mu_torque out = Some (8 / 100 * s)"
      "mu_current out = None" "mu_load out = None" "mu_reference out = None"
      "?w' = ?w + ((8 / 100 * s - 4 / 100 * ?w) / (12 / 1000)) * step_of t" "ms_angle st' = ?a + ?w' * step_of t"
    using step by (auto simp: stepField_def Let_def field_at_def s_def no_out_def)
  have "field_within c t st'"
  proof (cases "t = 0")
    case True
    then have "ms_omega st' = ?w" "ms_angle st' = ?a" "max 0 (t - MOTOR_STEP) = t" using out by (simp_all add: step_of_def MOTOR_STEP_def)
    then show ?thesis using kept unfolding field_within_def swinging_def by simp
  next
    case False
    then have dt: "step_of t = 2 / 1000" "max 0 (t - MOTOR_STEP) = t - 2 / 1000"
      using t by (simp_all add: step_of_def MOTOR_STEP_def)
    have w': "?w' = ?w + (8 * s - 4 * ?w) / 600" "ms_angle st' = ?a + ?w' / 500" using out dt by simp_all
    have b: "\<bar>?w\<bar> \<le> 2" "\<bar>?a\<bar> \<le> 2 * (t - 2 / 1000)" using kept dt by (simp_all add: field_within_def)
    have "?w + (8 * s - 4 * ?w) / 600 \<le> 2" "- 2 \<le> ?w + (8 * s - 4 * ?w) / 600" using b(1) s by (simp_all add: abs_le_iff field_simps)
    then have speed: "\<bar>?w'\<bar> \<le> 2" unfolding w'(1) by linarith
    moreover have "\<bar>ms_angle st'\<bar> \<le> 2 * t" unfolding w'(2) using b(2) speed by (simp add: abs_le_iff field_simps) linarith
    moreover have "swinging st'" if fixed: "mc_mode c = ''fixed''"
    proof -
      have "swinging st" using kept fixed by (simp add: field_within_def)
      moreover have "s = cos ?a" using fixed by (simp add: s_def field_at_def sin_diff)
      ultimately have e: "3 * ?w'\<^sup>2 \<le> 40 * sin (ms_angle st')"
        using energy_falls [of ?w ?a ?w'] w' by (simp add: swinging_def)
      have "0 \<le> sin (ms_angle st')" using e zero_le_power2 [of ?w'] by linarith
      then show ?thesis
        using stays_between_poles [of ?a "?w' / 500"] \<open>swinging st\<close> speed w'(2) e by (simp add: swinging_def abs_le_iff)
    qed
    ultimately show ?thesis by (simp add: field_within_def)
  qed
  moreover have "\<bar>8 / 100 * s\<bar> \<le> 8 / 100" using s by (simp add: abs_mult)
  ultimately show ?thesis using out(1-5) by blast
qed

lemma end_stops_range: "0 \<le> ms_angle (end_stops st) \<and> ms_angle (end_stops st) \<le> pi" "ms_integral (end_stops st) = ms_integral st"
  by (auto simp: end_stops_def Let_def)

lemma servo_step_keeps:
  assumes "stepServo c st t = (out, st')"
  shows "\<bar>ms_integral st'\<bar> \<le> 1 / 2 \<and> 0 \<le> ms_angle st' \<and> ms_angle st' \<le> pi
    \<and> (\<exists>r m. mu_reference out = Some r \<and> 30 \<le> r \<and> r \<le> 120 \<and> mu_torque out = Some m \<and> \<bar>m\<bar> \<le> 1 / 2 \<and> mu_current out = Some (\<bar>m\<bar> / (4 / 10)))"
proof -
  define i where "i = motor_clamp (ms_integral st + (motor_clamp (mc_target c) SERVO_MIN SERVO_MAX / DEGREES_PER_RADIAN - ms_angle st) * MOTOR_STEP) (- 1 / 2) (1 / 2)"
  have i: "\<bar>i\<bar> \<le> 1 / 2" unfolding i_def by (rule motor_clamp_half)
  have r: "30 \<le> motor_clamp (mc_target c) SERVO_MIN SERVO_MAX" "motor_clamp (mc_target c) SERVO_MIN SERVO_MAX \<le> 120"
    using motor_clamp_range [of SERVO_MIN SERVO_MAX] by (simp_all add: SERVO_MIN_def SERVO_MAX_def)
  have st: "ms_integral st' = i" "0 \<le> ms_angle st'" "ms_angle st' \<le> pi"
    using assms end_stops_range by (auto simp: stepServo_def Let_def i_def)
  define m where "m = the (mu_torque out)"
  have m: "mu_torque out = Some m" "mu_current out = Some (\<bar>m\<bar> / (4 / 10))"
    "mu_reference out = Some (motor_clamp (mc_target c) SERVO_MIN SERVO_MAX)"
    using assms by (auto simp: stepServo_def Let_def no_out_def m_def)
  have "\<bar>m\<bar> \<le> 1 / 2" using assms motor_clamp_half by (auto simp: m_def stepServo_def Let_def no_out_def)
  then show ?thesis using i r st m by auto
qed

text \<open>What a sample shows of its experiment.\<close>

definition motor_bounded :: "string \<Rightarrow> motor_config \<Rightarrow> motor_sample \<Rightarrow> bool" where
  "motor_bounded topic c s \<longleftrightarrow>
     (if topic = ''field'' then
        mp_field s = field_at c (mp_time s) \<and> \<bar>mp_torque s\<bar> \<le> 8 / 100 \<and> \<bar>mp_rpm s\<bar> \<le> 2 * RPM_PER_RAD_PER_SECOND
        \<and> \<bar>mp_angle s\<bar> \<le> 2 * mp_time s \<and> mp_current s = 0 \<and> mp_load s = 0
        \<and> (if mc_mode c = ''fixed'' then
             0 \<le> mp_angle s \<and> mp_angle s \<le> pi \<and> 3 * (mp_rpm s / RPM_PER_RAD_PER_SECOND)\<^sup>2 \<le> 40 * sin (mp_angle s)
           else True)
      else if topic = ''load'' then
        0 \<le> mp_rpm s \<and> mp_rpm s * (6 / 100) \<le> full_voltage c * RPM_PER_RAD_PER_SECOND
        \<and> 0 \<le> mp_current s \<and> mp_current s \<le> 3 \<and> mp_heating s \<le> 18
      else if topic = ''esc'' then
        mp_reference s = esc_full c \<and> min 0 (mp_reference s) \<le> mp_rpm s \<and> mp_rpm s \<le> max 0 (mp_reference s)
      else if topic = ''servo'' then
        0 \<le> mp_degrees s \<and> mp_degrees s \<le> 180 \<and> 30 \<le> mp_reference s \<and> mp_reference s \<le> 120
        \<and> \<bar>mp_torque s\<bar> \<le> 1 / 2 \<and> mp_current s = \<bar>mp_torque s\<bar> / (4 / 10)
      else False)"

interpretation field_run: motor_experiment "stepField c" "\<lambda>t. field_within c (max 0 (t - MOTOR_STEP))"
    "\<lambda>t out st. field_within c t st \<and> mu_field out = Some (field_at c t) \<and> (\<exists>m. mu_torque out = Some m \<and> \<bar>m\<bar> \<le> 8 / 100)
      \<and> mu_current out = None \<and> mu_load out = None \<and> mu_reference out = None" for c
proof (unfold_locales, goal_cases)
  case (1 t st out st')
  then have "max 0 (t + MOTOR_STEP - MOTOR_STEP) = t" by (auto simp: MOTOR_STEP_def)
  then show ?case using field_step_keeps [OF 1] by simp
qed

interpretation load_run: motor_experiment "stepLoad c" "\<lambda>t st. 0 \<le> ms_omega st \<and> ms_omega st * (6 / 100) \<le> full_voltage c"
    "\<lambda>t out st. 0 \<le> ms_omega st \<and> ms_omega st * (6 / 100) \<le> full_voltage c \<and> (\<exists>i. mu_current out = Some i \<and> 0 \<le> i \<and> i \<le> 3)" for c
  by unfold_locales (rule load_step_keeps)

interpretation esc_run: motor_experiment "stepEsc c" "\<lambda>t. esc_within c" "\<lambda>t out st. esc_within c st \<and> mu_reference out = Some (esc_full c)" for c
  by unfold_locales (rule esc_step_keeps)

interpretation servo_run: motor_experiment "stepServo c" "\<lambda>t st. True"
    "\<lambda>t out st. \<bar>ms_integral st\<bar> \<le> 1 / 2 \<and> 0 \<le> ms_angle st \<and> ms_angle st \<le> pi
      \<and> (\<exists>r m. mu_reference out = Some r \<and> 30 \<le> r \<and> r \<le> 120 \<and> mu_torque out = Some m \<and> \<bar>m\<bar> \<le> 1 / 2 \<and> mu_current out = Some (\<bar>m\<bar> / (4 / 10)))" for c
  by unfold_locales (use servo_step_keeps in blast)

definition at_rest :: motor_state where
  "at_rest = \<lparr> ms_angle = 0, ms_omega = 0, ms_integral = 0 \<rparr>"

lemma samples_by:
  assumes "list_all (\<lambda>s. \<exists>out st. P (mp_time s) out st \<and> s = motor_sample_of (mp_time s) out st) xs"
    and "\<And>s out st. P (mp_time s) out st \<Longrightarrow> s = motor_sample_of (mp_time s) out st \<Longrightarrow> Q s"
  shows "list_all Q xs"
  using assms unfolding list_all_iff by blast

lemma field_sample_bounded:
  assumes "field_within c (mp_time s) st" "mu_field out = Some (field_at c (mp_time s))" "mu_torque out = Some m" "\<bar>m\<bar> \<le> 8 / 100"
    "mu_current out = None" "mu_load out = None" "s = motor_sample_of (mp_time s) out st"
  shows "motor_bounded ''field'' c s"
proof -
  have view: "mp_field s = field_at c (mp_time s)" "mp_torque s = m" "mp_rpm s = ms_omega st * RPM_PER_RAD_PER_SECOND"
    "mp_angle s = ms_angle st" "mp_current s = 0" "mp_load s = 0"
    using assms by (simp_all add: motor_sample_of_def Let_def) (metis motor_sample.select_convs)+
  have "\<bar>mp_rpm s\<bar> \<le> 2 * RPM_PER_RAD_PER_SECOND"
    using assms(1) rpm_factor by (simp add: view(3) field_within_def abs_mult)
  then show ?thesis using assms(1,4) rpm_factor by (simp add: motor_bounded_def view field_within_def swinging_def split: if_splits)
qed

lemma field_bounded: "list_all (motor_bounded ''field'' c) (motor_ticks (stepField c) n 0 at_rest)"
proof -
  have start: "field_within c (max 0 (real 0 * MOTOR_STEP - MOTOR_STEP)) at_rest"
    by (simp add: field_within_def at_rest_def swinging_def MOTOR_STEP_def)
  show ?thesis
    by (rule samples_by [OF field_run.ticks_show [OF start]]) (blast intro: field_sample_bounded)
qed

lemma load_bounded: "list_all (motor_bounded ''load'' c) (motor_ticks (stepLoad c) n 0 at_rest)"
proof -
  have start: "0 \<le> ms_omega at_rest \<and> ms_omega at_rest * (6 / 100) \<le> full_voltage c"
    using motor_clamp_range [of 0 100] by (simp add: at_rest_def full_voltage_def LOAD_MAX_VOLTS_def)
  have heat: "i * i * 2 \<le> 18" if "0 \<le> i" "i \<le> 3" for i :: real using mult_mono [of i 3 i 3] that by simp
  have "motor_bounded ''load'' c (motor_sample_of t out st)"
    if "0 \<le> ms_omega st" "ms_omega st * (6 / 100) \<le> full_voltage c" "mu_current out = Some i" "0 \<le> i" "i \<le> 3" for t out st i
    using that rpm_factor heat by (simp add: motor_bounded_def motor_sample_of_def Let_def COIL_RESISTANCE_def)
  then show ?thesis by (intro samples_by [OF load_run.ticks_show [OF start]]) metis
qed

lemma esc_bounded: "list_all (motor_bounded ''esc'' c) (motor_ticks (stepEsc c) n 0 at_rest)"
proof -
  have start: "esc_within c at_rest" by (simp add: esc_within_def at_rest_def)
  have "motor_bounded ''esc'' c (motor_sample_of t out st)" if "esc_within c st" "mu_reference out = Some (esc_full c)" for t out st
    using that by (simp add: motor_bounded_def motor_sample_of_def Let_def esc_within_def)
  then show ?thesis by (intro samples_by [OF esc_run.ticks_show [OF start]]) metis
qed

lemma servo_bounded: "list_all (motor_bounded ''servo'' c) (motor_ticks (stepServo c) n 0 at_rest)"
proof -
  have "a * DEGREES_PER_RADIAN \<le> 180" if "a \<le> pi" for a
    using that mult_right_mono [of a pi DEGREES_PER_RADIAN] by (simp add: DEGREES_PER_RADIAN_def)
  then have "motor_bounded ''servo'' c (motor_sample_of t out st)"
    if "0 \<le> ms_angle st" "ms_angle st \<le> pi" "mu_reference out = Some r" "30 \<le> r" "r \<le> 120" "mu_torque out = Some m" "\<bar>m\<bar> \<le> 1 / 2"
      "mu_current out = Some (\<bar>m\<bar> / (4 / 10))" for t out st r m
    using that rpm_factor by (simp add: motor_bounded_def motor_sample_of_def Let_def)
  then show ?thesis by (intro samples_by [OF servo_run.ticks_show [OF TrueI]]) metis
qed

lemma ticks_times:
  "map mp_time (motor_ticks step n k st) = map (\<lambda>k. to_fixed 3 (real k * MOTOR_STEP)) (filter (\<lambda>k. k mod SAMPLE_EVERY = 0) [k..<k + n])"
proof (induction n arbitrary: k st)
  case (Suc n)
  then show ?case
    by (cases "step st (real k * MOTOR_STEP)") (simp add: Let_def motor_sample_of_def upt_conv_Cons del: upt_Suc)
qed simp

lemma every_tenth: "filter (\<lambda>n. n mod SAMPLE_EVERY = 0) [0..<Suc (10 * m)] = map (\<lambda>k. 10 * k) [0..<Suc m]"
proof (induction m)
  case 0
  then show ?case by (simp add: SAMPLE_EVERY_def)
next
  case (Suc m)
  have "[0..<Suc (10 * m) + 9] = [0..<Suc (10 * m)] @ [Suc (10 * m)..<Suc (10 * m) + 9]" by (rule upt_add_eq_append) simp
  moreover have "Suc (10 * m) + 9 = 10 * Suc m" by simp
  moreover have "[0..<Suc (10 * Suc m)] = [0..<10 * Suc m] @ [10 * Suc m]" by (rule upt_Suc_append) simp
  ultimately have split: "[0..<Suc (10 * Suc m)] = [0..<Suc (10 * m)] @ [Suc (10 * m)..<10 * Suc m] @ [10 * Suc m]"
    by (simp only: append_assoc)
  have "k mod 10 \<noteq> 0" if "Suc (10 * m) \<le> k" "k < 10 * Suc m" for k using that by presburger
  then have "filter (\<lambda>n. n mod SAMPLE_EVERY = 0) [Suc (10 * m)..<10 * Suc m] = []"
    by (auto simp: filter_empty_conv SAMPLE_EVERY_def)
  then show ?case unfolding split filter_append Suc.IH by (simp add: SAMPLE_EVERY_def)
qed

lemma MOTOR_STEPS_eq: "MOTOR_STEPS = 10 * 300"
  using js_round_of_int [of 3000] by (simp add: MOTOR_STEPS_def RUN_SECONDS_def MOTOR_STEP_def)

lemma run_times_even: "map mp_time (motor_ticks step (MOTOR_STEPS + 1) 0 st) = map (\<lambda>k. real k / 50) [0..<301]"
proof -
  have "map mp_time (motor_ticks step (Suc (10 * 300)) 0 st) = map (\<lambda>k. to_fixed 3 (real (10 * k) * MOTOR_STEP)) [0..<Suc 300]"
    unfolding ticks_times add_0 every_tenth map_map comp_def ..
  then show ?thesis unfolding to_fixed_sample MOTOR_STEPS_eq by simp
qed

text \<open>
  C39: A topic has a run exactly when it is one of the played ones, and every run has its 301 samples, one every
  20 ms from 0 to 6 s. Whatever the settings: the turning field stands where the settings put it, its torque is at
  most 0.08 Nm, the rotor turns at most at 2 rad/s, and against a fixed field it stays between the two poles with
  no more energy than it started with; the loaded motor never turns backwards or faster than its back-EMF
  allows at the supply voltage and never draws more than 3 A; the speed controller's roller stays between
  standstill and the KV estimate, for a voltage of either sign; the servo stays between its end stops, its target
  in its range and its torque within 0.5 Nm.
\<close>

theorem motor_run_bounded:
  "case simulateMotor topic c of
     None \<Rightarrow> topic \<notin> set PLAYED_TOPICS
   | Some run \<Rightarrow> topic \<in> set PLAYED_TOPICS \<and> map mp_time (mr_samples run) = map (\<lambda>k. real k / 50) [0..<301]
       \<and> list_all (motor_bounded topic c) (mr_samples run)"
proof (cases "simulateMotor topic c")
  case None
  then show ?thesis by (auto simp: simulateMotor_def STEPPERS_def PLAYED_TOPICS_def split: if_splits)
next
  case (Some run)
  then obtain step where step: "(topic, step) \<in> set STEPPERS" "mr_samples run = motor_ticks (step c) (MOTOR_STEPS + 1) 0 at_rest"
    by (auto simp: simulateMotor_def at_rest_def split: option.splits dest!: map_of_SomeD)
  have "list_all (motor_bounded topic c) (motor_ticks (step c) n 0 at_rest)" for n
    using step(1) field_bounded load_bounded esc_bounded servo_bounded by (auto simp: STEPPERS_def)
  then have "list_all (motor_bounded topic c) (mr_samples run)" unfolding step(2) .
  moreover have "map mp_time (mr_samples run) = map (\<lambda>k. real k / 50) [0..<301]" unfolding step(2) by (rule run_times_even)
  moreover have "topic \<in> set PLAYED_TOPICS" using step(1) by (auto simp: STEPPERS_def PLAYED_TOPICS_def)
  ultimately show ?thesis using Some by simp
qed

end
