(* ===== verification/Launch_Core.thy ===== *)
theory Launch_Core
  imports Engine_Maths Js_Math Js_Text
begin

text \<open>
  The launcher course, \<open>lab/js/launch/core.js\<close>: the flight of a disc with and without air, the records of outputs
  and distances, the output proposed for a target, the measurement file, and the table of the real launcher.
  \<open>Math.pow\<close> is \<open>powr\<close>. The seeded generator is the one of the learning engine (the code keeps its state unwrapped,
  which the 32-bit operations do not see). The length of a text is counted in bytes.
\<close>

section \<open>Constants\<close>

definition DISC_DIAMETER :: real where "DISC_DIAMETER = 18 / 100"
definition DISC_THICKNESS :: real where "DISC_THICKNESS = 2 / 100"
definition DISC_MASS :: real where "DISC_MASS = 18 / 1000"
definition RELEASE_HEIGHT :: real where "RELEASE_HEIGHT = 22 / 100"
definition GRAVITY :: real where "GRAVITY = 981 / 100"
definition AIR_DENSITY :: real where "AIR_DENSITY = 12 / 10"
definition FLIGHT_DT :: real where "FLIGHT_DT = 4 / 1000"
definition LAUNCH_TARGETS :: "real list" where "LAUNCH_TARGETS = [12 / 10, 15 / 10, 18 / 10]"
definition RELEASE_DEAD_ZONE :: real where "RELEASE_DEAD_ZONE = 10"
definition MAX_POWER :: real where "MAX_POWER = 100"
definition MAX_RELEASE_SPEED :: real where "MAX_RELEASE_SPEED = 8"
definition RELEASE_CURVE_EXPONENT :: real where "RELEASE_CURVE_EXPONENT = 85 / 100"
definition LIFT_SLOPE :: real where "LIFT_SLOPE = 14 / 10"
definition MAX_LIFT_COEFFICIENT :: real where "MAX_LIFT_COEFFICIENT = 9 / 10"
definition PARASITE_DRAG_COEFFICIENT :: real where "PARASITE_DRAG_COEFFICIENT = 18 / 100"
definition INDUCED_DRAG_FACTOR :: real where "INDUCED_DRAG_FACTOR = 13 / 10"
definition STILL_FLIGHT :: real where "STILL_FLIGHT = 1 / 10 ^ 8"
definition RELEASE_SPEED_SPREAD :: real where "RELEASE_SPEED_SPREAD = 8 / 100"
definition MAX_FLIGHT_STEPS :: nat where "MAX_FLIGHT_STEPS = 5000"
definition MAX_RANGE :: real where "MAX_RANGE = 30"
definition MAX_CSV_CHARS :: nat where "MAX_CSV_CHARS = 100000"
definition MAX_CSV_ROWS :: nat where "MAX_CSV_ROWS = 300"
definition MAX_TILT :: real where "MAX_TILT = 180"

definition launch_clamp :: "real \<Rightarrow> real \<Rightarrow> real \<Rightarrow> real" where
  "launch_clamp v lo hi = max lo (min hi v)"

datatype launch_error =
    BadPower
  | NeverEnded
  | BadRow
  | FileTooLong
  | NoColumns
  | BadRowCount
  | NoCells nat
  | NotMeasured
  | NotANumber nat
  | BadTilt nat
  | BadClock nat

section \<open>Flight\<close>

definition launchSpeed :: "num \<Rightarrow> launch_error + real" where
  "launchSpeed pw =
     (case pw of
        None \<Rightarrow> Inl BadPower
      | Some p \<Rightarrow>
          if p < 0 \<or> p > MAX_POWER then Inl BadPower
          else if p \<le> RELEASE_DEAD_ZONE then Inr 0
          else Inr (MAX_RELEASE_SPEED * ((p - RELEASE_DEAD_ZONE) / (MAX_POWER - RELEASE_DEAD_ZONE)) powr RELEASE_CURVE_EXPONENT))"

record forces =
  fo_fx :: real
  fo_fz :: real
  fo_dragX :: real
  fo_dragZ :: real
  fo_liftX :: real
  fo_liftZ :: real
  fo_weight :: real
  fo_drag :: real
  fo_lift :: real
  fo_alpha :: real

definition weightOnly :: "real \<Rightarrow> forces" where
  "weightOnly weight =
     \<lparr> fo_fx = 0, fo_fz = - weight, fo_dragX = 0, fo_dragZ = 0, fo_liftX = 0, fo_liftZ = 0, fo_weight = weight,
       fo_drag = 0, fo_lift = 0, fo_alpha = 0 \<rparr>"

definition launchForces :: "real \<Rightarrow> real \<Rightarrow> bool \<Rightarrow> forces" where
  "launchForces vx vz air =
     (let speed = hypot vx vz; weight = DISC_MASS * GRAVITY in
      if \<not> air \<or> speed < STILL_FLIGHT then weightOnly weight
      else
        let alpha = launch_clamp (- atan2 vz vx) (- pi / 2) (pi / 2);
            liftCoefficient = launch_clamp (LIFT_SLOPE * alpha) (- MAX_LIFT_COEFFICIENT) MAX_LIFT_COEFFICIENT;
            dragCoefficient = PARASITE_DRAG_COEFFICIENT + INDUCED_DRAG_FACTOR * alpha * alpha;
            pressureForce = 1 / 2 * AIR_DENSITY * speed * speed * pi * (DISC_DIAMETER / 2) ^ 2;
            drag = pressureForce * dragCoefficient;
            lift = pressureForce * liftCoefficient;
            dragX = (- drag * vx) / speed;
            dragZ = (- drag * vz) / speed;
            liftX = (- lift * vz) / speed;
            liftZ = (lift * vx) / speed
        in \<lparr> fo_fx = dragX + liftX, fo_fz = dragZ + liftZ - weight, fo_dragX = dragX, fo_dragZ = dragZ, fo_liftX = liftX,
             fo_liftZ = liftZ, fo_weight = weight, fo_drag = drag, fo_lift = lift, fo_alpha = alpha \<rparr>)"

definition seededRandom :: "int \<Rightarrow> real" where
  "seededRandom seed = fst (rng_draw (randomGenerator seed))"

record flight_state =
  ft_t :: real
  ft_x :: real
  ft_z :: real
  ft_vx :: real
  ft_vz :: real

type_synonym flight_sample = "flight_state \<times> forces"

definition sampleAt :: "flight_state \<Rightarrow> bool \<Rightarrow> flight_sample" where
  "sampleAt st air = (st, launchForces (ft_vx st) (ft_vz st) air)"

definition nextState :: "flight_state \<Rightarrow> bool \<Rightarrow> flight_state" where
  "nextState st air =
     (let start = launchForces (ft_vx st) (ft_vz st) air;
          midVx = ft_vx st + ((fo_fx start / DISC_MASS) * FLIGHT_DT) / 2;
          midVz = ft_vz st + ((fo_fz start / DISC_MASS) * FLIGHT_DT) / 2;
          mid = launchForces midVx midVz air
      in \<lparr> ft_t = ft_t st + FLIGHT_DT, ft_x = ft_x st + midVx * FLIGHT_DT, ft_z = ft_z st + midVz * FLIGHT_DT,
           ft_vx = ft_vx st + (fo_fx mid / DISC_MASS) * FLIGHT_DT, ft_vz = ft_vz st + (fo_fz mid / DISC_MASS) * FLIGHT_DT \<rparr>)"

definition touchdown :: "flight_state \<Rightarrow> flight_state \<Rightarrow> flight_state" where
  "touchdown st beyond =
     (let ground = DISC_THICKNESS / 2; ratio = (ft_z st - ground) / (ft_z st - ft_z beyond)
      in \<lparr> ft_t = ft_t st + FLIGHT_DT * ratio, ft_x = ft_x st + (ft_x beyond - ft_x st) * ratio, ft_z = ground,
           ft_vx = ft_vx st + (ft_vx beyond - ft_vx st) * ratio, ft_vz = ft_vz st + (ft_vz beyond - ft_vz st) * ratio \<rparr>)"

definition releaseSpeed :: "num \<Rightarrow> bool \<Rightarrow> int \<Rightarrow> launch_error + real" where
  "releaseSpeed pw variation seed =
     (case launchSpeed pw of
        Inl e \<Rightarrow> Inl e
      | Inr nominal \<Rightarrow> Inr (if \<not> variation then nominal else nominal * (1 + (seededRandom seed - 1 / 2) * RELEASE_SPEED_SPREAD)))"

datatype launch_status = NotReleased | Landed

record launch_run =
  lu_samples :: "flight_sample list"
  lu_range :: real
  lu_time :: real
  lu_speed :: real
  lu_status :: launch_status

definition released :: "real \<Rightarrow> flight_state" where
  "released speed = \<lparr> ft_t = 0, ft_x = 0, ft_z = RELEASE_HEIGHT, ft_vx = speed, ft_vz = 0 \<rparr>"

definition unreleasedRun :: launch_run where
  "unreleasedRun = \<lparr> lu_samples = [sampleAt (released 0) False], lu_range = 0, lu_time = 0, lu_speed = 0, lu_status = NotReleased \<rparr>"

text \<open>The loop: the states after the first one and the landing; \<open>None\<close> when the steps run out.\<close>

fun flight :: "bool \<Rightarrow> nat \<Rightarrow> flight_state \<Rightarrow> (flight_state list \<times> flight_state) option" where
  "flight air 0 st = None"
| "flight air (Suc n) st =
     (let candidate = nextState st air in
      if ft_z candidate \<le> DISC_THICKNESS / 2 then Some ([touchdown st candidate], touchdown st candidate)
      else case flight air n candidate of None \<Rightarrow> None | Some (states, landing) \<Rightarrow> Some (candidate # states, landing))"

definition launchExperiment :: "num \<Rightarrow> bool \<Rightarrow> bool \<Rightarrow> int \<Rightarrow> launch_error + launch_run" where
  "launchExperiment pw air variation seed =
     (case releaseSpeed pw variation seed of
        Inl e \<Rightarrow> Inl e
      | Inr speed \<Rightarrow>
          if speed = 0 then Inr unreleasedRun
          else case flight air MAX_FLIGHT_STEPS (released speed) of
              None \<Rightarrow> Inl NeverEnded
            | Some (states, landing) \<Rightarrow>
                Inr \<lparr> lu_samples = map (\<lambda>st. sampleAt st air) (released speed # states), lu_range = ft_x landing,
                     lu_time = ft_t landing, lu_speed = speed, lu_status = Landed \<rparr>)"

section \<open>Records and the output for a target\<close>

text \<open>A row of the measurement table; a distance that is still to be typed is \<open>None\<close>.\<close>

record launch_row =
  lr_id :: "string option"
  lr_power :: num
  lr_range :: num
  lr_tilt :: num
  lr_time :: "string option"
  lr_shot :: bool
  lr_typed :: bool

record launch_group =
  lg_power :: real
  lg_mean :: real
  lg_min :: real
  lg_max :: real
  lg_count :: nat

definition row_valid :: "launch_row \<Rightarrow> bool" where
  "row_valid r \<longleftrightarrow>
     (case (lr_power r, lr_range r) of (Some p, Some d) \<Rightarrow> 0 \<le> p \<and> p \<le> MAX_POWER \<and> 0 \<le> d \<and> d \<le> MAX_RANGE | _ \<Rightarrow> False)"

definition ranges_at :: "real \<Rightarrow> launch_row list \<Rightarrow> real list" where
  "ranges_at p rows = map (\<lambda>r. the (lr_range r)) (filter (\<lambda>r. lr_power r = Some p) rows)"

definition group_of :: "launch_row list \<Rightarrow> real \<Rightarrow> launch_group" where
  "group_of rows p =
     (let ds = ranges_at p rows in
      \<lparr> lg_power = p, lg_mean = foldl (+) 0 ds / real (length ds), lg_min = Min (set ds), lg_max = Max (set ds), lg_count = length ds \<rparr>)"

definition launchGroups :: "launch_row list \<Rightarrow> launch_error + launch_group list" where
  "launchGroups rows =
     (if \<not> list_all row_valid rows then Inl BadRow
      else Inr (map (group_of rows) (sort (remdups (map (\<lambda>r. the (lr_power r)) rows)))))"

datatype obstacle = BadTarget | TooFewOutputs | NotRising | OutsideMeasured

fun means_rise :: "launch_group list \<Rightarrow> bool" where
  "means_rise (a # b # gs) \<longleftrightarrow> lg_mean a < lg_mean b \<and> means_rise (b # gs)"
| "means_rise _ \<longleftrightarrow> True"

definition estimateObstacle :: "launch_group list \<Rightarrow> num \<Rightarrow> obstacle option" where
  "estimateObstacle groups target =
     (case target of
        None \<Rightarrow> Some BadTarget
      | Some d \<Rightarrow>
          if d \<le> 0 \<or> d > MAX_RANGE then Some BadTarget
          else if length groups < 2 then Some TooFewOutputs
          else if \<not> means_rise groups then Some NotRising
          else if d < lg_mean (hd groups) \<or> d > lg_mean (last groups) then Some OutsideMeasured
          else None)"

datatype estimate = Refused obstacle "launch_group list" | Proposed real launch_group launch_group "launch_group list"

definition upper_index :: "launch_group list \<Rightarrow> real \<Rightarrow> nat" where
  "upper_index groups d = max 1 (length (takeWhile (\<lambda>g. lg_mean g < d) groups))"

definition launchEstimate :: "launch_row list \<Rightarrow> num \<Rightarrow> launch_error + estimate" where
  "launchEstimate rows target =
     (case launchGroups rows of
        Inl e \<Rightarrow> Inl e
      | Inr groups \<Rightarrow>
          (case (estimateObstacle groups target, target) of
             (None, Some d) \<Rightarrow>
               let low = groups ! (upper_index groups d - 1); high = groups ! upper_index groups d
               in Inr (Proposed (lg_power low + ((lg_power high - lg_power low) * (d - lg_mean low)) / (lg_mean high - lg_mean low))
                    low high groups)
           | (Some e, _) \<Rightarrow> Inr (Refused e groups)
           | (None, None) \<Rightarrow> Inr (Refused BadTarget groups)))"

section \<open>The measurement file\<close>

definition UNSIGNED_DECIMAL :: "string \<Rightarrow> bool" where
  "UNSIGNED_DECIMAL s \<longleftrightarrow>
     (case split_on (CHR ''.'') s of
        [units] \<Rightarrow> units \<noteq> [] \<and> list_all is_digit units
      | [units, tenths] \<Rightarrow> list_all is_digit units \<and> list_all is_digit tenths \<and> (units \<noteq> [] \<or> tenths \<noteq> [])
      | _ \<Rightarrow> False)"

text \<open>\<open>Number(s)\<close> for such a text.\<close>

definition decimal_value :: "string \<Rightarrow> real" where
  "decimal_value s =
     (let units = takeWhile (\<lambda>c. c \<noteq> CHR ''.'') s; tenths = drop 1 (dropWhile (\<lambda>c. c \<noteq> CHR ''.'') s)
      in real (to_nat units 0) + real (to_nat tenths 0) / 10 ^ length tenths)"

definition CLOCK :: "string \<Rightarrow> bool" where
  "CLOCK s \<longleftrightarrow>
     (let parts = split_on (CHR '':'') s in
      length parts \<in> {2, 3} \<and> list_all (list_all is_digit) parts \<and> length (hd parts) \<in> {1, 2} \<and> list_all (\<lambda>p. length p = 2) (tl parts))"

text \<open>\<open>cells[i]\<close>; there is no cell at \<open>-1\<close>.\<close>

definition cell_at :: "string list \<Rightarrow> int \<Rightarrow> string" where
  "cell_at cells i = (if 0 \<le> i \<and> i < int (length cells) then cells ! nat i else [])"

record csv_columns =
  cc_power :: int
  cc_range :: int
  cc_source :: int
  cc_tilt :: int
  cc_time :: int

definition parseShotDetails :: "string list \<Rightarrow> csv_columns \<Rightarrow> nat \<Rightarrow> launch_error + (num \<times> string option)" where
  "parseShotDetails cells columns line =
     (let tilt = cell_at cells (cc_tilt columns); time = cell_at cells (cc_time columns) in
      if tilt \<noteq> [] \<and> (\<not> UNSIGNED_DECIMAL tilt \<or> decimal_value tilt > MAX_TILT) then Inl (BadTilt line)
      else if time \<noteq> [] \<and> \<not> CLOCK time then Inl (BadClock line)
      else Inr (if tilt = [] then None else Some (decimal_value tilt), if time = [] then None else Some time))"

definition parseMeasurementRow :: "string list \<Rightarrow> nat \<Rightarrow> csv_columns \<Rightarrow> nat \<Rightarrow> launch_error + launch_row" where
  "parseMeasurementRow cells columnCount columns line =
     (let p = cell_at cells (cc_power columns); d = cell_at cells (cc_range columns) in
      if length cells \<noteq> columnCount \<or> p = [] \<or> d = [] then Inl (NoCells line)
      else if cc_source columns \<ge> 0 \<and> cell_at cells (cc_source columns) \<noteq> ''measured'' then Inl NotMeasured
      else if \<not> UNSIGNED_DECIMAL p \<or> \<not> UNSIGNED_DECIMAL d then Inl (NotANumber line)
      else case parseShotDetails cells columns line of
          Inl e \<Rightarrow> Inl e
        | Inr (tilt, time) \<Rightarrow>
            Inr \<lparr> lr_id = None, lr_power = Some (decimal_value p), lr_range = Some (decimal_value d), lr_tilt = tilt, lr_time = time,
                 lr_shot = False, lr_typed = False \<rparr>)"

fun parse_rows :: "nat \<Rightarrow> csv_columns \<Rightarrow> nat \<Rightarrow> string list \<Rightarrow> launch_error + launch_row list" where
  "parse_rows columnCount columns line [] = Inr []"
| "parse_rows columnCount columns line (l # ls) =
     (case parseMeasurementRow (map trim (split_on (CHR '','') l)) columnCount columns line of
        Inl e \<Rightarrow> Inl e
      | Inr r \<Rightarrow> (case parse_rows columnCount columns (Suc line) ls of Inl e \<Rightarrow> Inl e | Inr rs \<Rightarrow> Inr (r # rs)))"

definition csv_bom :: string where "csv_bom = map char_of [0xef, 0xbb, 0xbf :: nat]"
definition csv_newline :: char where "csv_newline = CHR 0x0A"

definition drop_return :: "string \<Rightarrow> string" where
  "drop_return s = (if s \<noteq> [] \<and> last s = CHR 0x0D then butlast s else s)"

definition csv_lines :: "string \<Rightarrow> string list" where
  "csv_lines t =
     (let body = trim (if starts_with csv_bom t then drop 3 t else t); parts = split_on csv_newline body
      in filter (\<lambda>l. trim l \<noteq> []) (map drop_return (butlast parts) @ [last parts]))"

definition launchParseCSV :: "string \<Rightarrow> launch_error + launch_row list" where
  "launchParseCSV t =
     (if length t > MAX_CSV_CHARS then Inl FileTooLong
      else
        let all = csv_lines t;
            header = map trim (split_on (CHR '','') (if all = [] then [] else hd all));
            lines = tl all;
            columns = \<lparr> cc_power = index_of header ''output_pct'', cc_range = index_of header ''range_m'', cc_source = index_of header ''source'',
              cc_tilt = index_of header ''tilt_deg'', cc_time = index_of header ''time'' \<rparr>
        in if cc_power columns < 0 \<or> cc_range columns < 0 then Inl NoColumns
           else if lines = [] \<or> length lines > MAX_CSV_ROWS then Inl BadRowCount
           else case parse_rows (length header) columns 2 lines of
               Inl e \<Rightarrow> Inl e
             | Inr rows \<Rightarrow> (case launchGroups rows of Inl e \<Rightarrow> Inl e | Inr groups \<Rightarrow> Inr rows))"

definition CSV_HEADER :: string where "CSV_HEADER = csv_bom @ ''source,output_pct,range_m''"
definition SHOT_COLUMNS :: string where "SHOT_COLUMNS = '',tilt_deg,time''"
definition RANGE_DECIMALS :: nat where "RANGE_DECIMALS = 4"

definition hasShotDetails :: "launch_row \<Rightarrow> bool" where
  "hasShotDetails r \<longleftrightarrow> lr_tilt r \<noteq> None \<or> coalesce (lr_time r) [] \<noteq> []"

definition num_text :: "num \<Rightarrow> string" where
  "num_text v = (case v of None \<Rightarrow> [] | Some x \<Rightarrow> show_num x)"

text \<open>The file of rows that all have their distance.\<close>

definition launchCSV :: "launch_row list \<Rightarrow> string \<Rightarrow> string" where
  "launchCSV rows source =
     (let details = list_ex hasShotDetails rows in
      CSV_HEADER @ (if details then SHOT_COLUMNS else []) @ [csv_newline]
      @ join [csv_newline]
          (map (\<lambda>r. join '',''
             ([source, num_text (lr_power r), fixed_text RANGE_DECIMALS (coalesce (lr_range r) 0)]
              @ (if details then [num_text (lr_tilt r), coalesce (lr_time r) []] else []))) rows))"

section \<open>The table of the real launcher\<close>

datatype row_entry = EnterRange | EnterBoth
datatype row_kind = FromShot | FromTyping | FromFile

record table_row =
  tw_id :: "string option"
  tw_number :: nat
  tw_kind :: row_kind
  tw_time :: "string option"
  tw_power :: num
  tw_tilt :: num
  tw_range :: num
  tw_waiting :: bool
  tw_entry :: "row_entry option"

definition table_row :: "nat \<Rightarrow> launch_row \<Rightarrow> table_row" where
  "table_row index r =
     (let waiting = (lr_range r = None) in
      \<lparr> tw_id = lr_id r, tw_number = index + 1,
        tw_kind = (if lr_shot r then FromShot else if lr_typed r then FromTyping else FromFile), tw_time = lr_time r,
        tw_power = lr_power r, tw_tilt = lr_tilt r, tw_range = lr_range r, tw_waiting = waiting,
        tw_entry = (if waiting then Some (if lr_typed r then EnterBoth else EnterRange) else None) \<rparr>)"

definition launchTableRows :: "launch_row list \<Rightarrow> table_row list" where
  "launchTableRows rows = map (\<lambda>(i, r). table_row i r) (zip [0..<length rows] rows)"

text \<open>The launcher's messages of a recorded session.\<close>

record shot_message =
  sh_stamp :: real
  sh_fired_count :: "int option"
  sh_tilt_deg :: num
  sh_source :: "string option"

record roller_message =
  rm_stamp :: real
  rm_command :: num

record fired_disc =
  fd_percent :: "int option"
  fd_tilt :: num
  fd_at :: real
  fd_source :: "string option"

definition discs_of :: "roller_message list \<Rightarrow> shot_message \<Rightarrow> int \<Rightarrow> fired_disc list" where
  "discs_of rollers m rise =
     (let held = filter (\<lambda>e. rm_stamp e \<le> sh_stamp m) rollers;
          command = (if held = [] then None else rm_command (last held))
      in replicate (nat rise)
           \<lparr> fd_percent = map_option (\<lambda>c. js_round (c * 100)) command, fd_tilt = map_option (to_fixed 1) (sh_tilt_deg m),
             fd_at = sh_stamp m * 1000, fd_source = sh_source m \<rparr>)"

fun shots_from :: "roller_message list \<Rightarrow> int option \<Rightarrow> shot_message list \<Rightarrow> fired_disc list" where
  "shots_from rollers seen [] = []"
| "shots_from rollers seen (m # ms) =
     (case sh_fired_count m of
        None \<Rightarrow> shots_from rollers seen ms
      | Some n \<Rightarrow>
          (let rise = (case seen of None \<Rightarrow> 0 | Some c \<Rightarrow> n - c)
           in (if rise \<le> 0 then [] else discs_of rollers m rise) @ shots_from rollers (Some n) ms))"

definition launcherShots :: "roller_message list \<Rightarrow> shot_message list \<Rightarrow> fired_disc list" where
  "launcherShots rollers shots = shots_from rollers None shots"

section \<open>The record chart\<close>

definition LAUNCH_TOLERANCE :: real where "LAUNCH_TOLERANCE = 15 / 100"
definition RANGE_TICK :: real where "RANGE_TICK = 1 / 2"
definition MIN_CHART_RANGE :: real where "MIN_CHART_RANGE = 2"
definition CHART_HEADROOM :: real where "CHART_HEADROOM = 105 / 100"

definition launchHit :: "real \<Rightarrow> num \<Rightarrow> bool" where
  "launchHit d target \<longleftrightarrow> (case target of None \<Rightarrow> False | Some t \<Rightarrow> \<bar>d - t\<bar> \<le> LAUNCH_TOLERANCE + 1 / 10 ^ 9)"

function ticks_up_to :: "real \<Rightarrow> real \<Rightarrow> real list" where
  "ticks_up_to most v = (if v \<le> most + 1 / 10 ^ 9 then to_fixed 1 v # ticks_up_to most (v + RANGE_TICK) else [])"
  by pat_completeness auto
termination
proof (relation "measure (\<lambda>(most, v). nat \<lceil>(most + 1 - v) * 2\<rceil>)")
  fix most v :: real
  assume "v \<le> most + 1 / 10 ^ 9"
  then have "(most + 1 - (v + RANGE_TICK)) * 2 \<le> (most + 1 - v) * 2 - 1" "0 < (most + 1 - v) * 2" by (simp_all add: RANGE_TICK_def)
  then have "\<lceil>(most + 1 - (v + RANGE_TICK)) * 2\<rceil> < \<lceil>(most + 1 - v) * 2\<rceil>" "0 < \<lceil>(most + 1 - v) * 2\<rceil>" by linarith+
  then show "((most, v + RANGE_TICK), (most, v)) \<in> measure (\<lambda>(most, v). nat \<lceil>(most + 1 - v) * 2\<rceil>)" by simp
qed simp

declare ticks_up_to.simps [simp del]

definition launchRangeAxis :: "real list \<Rightarrow> num \<Rightarrow> real \<times> real list" where
  "launchRangeAxis ranges target =
     (let band = (case target of None \<Rightarrow> 0 | Some t \<Rightarrow> t + LAUNCH_TOLERANCE);
          furthest = foldl max MIN_CHART_RANGE (band # ranges) * CHART_HEADROOM;
          most = of_int \<lceil>furthest / RANGE_TICK - 1 / 10 ^ 9\<rceil> * RANGE_TICK
      in (most, ticks_up_to most 0))"

section \<open>Without air the flight is the parabola\<close>

text \<open>The parabola of the textbook, and the time of the landing: 51 whole steps and the share of the next one.\<close>

definition parabola :: "real \<Rightarrow> real \<Rightarrow> flight_state" where
  "parabola v t = \<lparr> ft_t = t, ft_x = v * t, ft_z = 22 / 100 - 981 / 200 * t\<^sup>2, ft_vx = v, ft_vz = - (981 / 100) * t \<rparr>"

definition landing_time :: real where
  "landing_time = (51 + (875000 / 327 - 51\<^sup>2) / 103) * (4 / 1000)"

definition vacuum_state :: "real \<Rightarrow> nat \<Rightarrow> flight_state" where
  "vacuum_state v k = parabola v (real k * (4 / 1000))"

lemma released_vacuum: "released v = vacuum_state v 0"
  by (simp add: released_def vacuum_state_def parabola_def RELEASE_HEIGHT_def)

lemma vacuum_step: "nextState (vacuum_state v k) False = vacuum_state v (Suc k)"
  by (simp add: nextState_def vacuum_state_def parabola_def Let_def launchForces_def weightOnly_def DISC_MASS_def FLIGHT_DT_def
      GRAVITY_def power2_eq_square field_simps)

lemma vacuum_height: "(ft_z (vacuum_state v k) * 2 \<le> DISC_THICKNESS) = (52 \<le> k)"
proof -
  have "(ft_z (vacuum_state v k) * 2 \<le> DISC_THICKNESS) = (875000 \<le> (real k)\<^sup>2 * 327)"
    by (simp add: vacuum_state_def parabola_def DISC_THICKNESS_def power2_eq_square field_simps)
  also have "\<dots> = (52 \<le> k)"
  proof (cases "52 \<le> k")
    case True
    then have "52 ^ 2 \<le> (real k)\<^sup>2" by (intro power_mono) simp_all
    then show ?thesis using True by simp
  next
    case False
    then have "(real k)\<^sup>2 \<le> 51 ^ 2" by (intro power_mono) simp_all
    then show ?thesis using False by simp
  qed
  finally show ?thesis .
qed

text \<open>
  The landing: where the line between the last two points of the parabola meets the floor, that is on the parabola
  but for the height.
\<close>

definition vacuum_landing :: "real \<Rightarrow> flight_state" where
  "vacuum_landing v = (parabola v landing_time)\<lparr> ft_z := 1 / 100 \<rparr>"

lemma vacuum_touchdown: "touchdown (vacuum_state v 51) (vacuum_state v 52) = vacuum_landing v"
  by (simp add: touchdown_def vacuum_landing_def vacuum_state_def parabola_def landing_time_def Let_def FLIGHT_DT_def DISC_THICKNESS_def
      power2_eq_square field_simps)

lemma vacuum_flight:
  "k < 52 \<Longrightarrow> 52 \<le> k + n \<Longrightarrow>
     flight False n (vacuum_state v k) = Some (map (vacuum_state v) [Suc k..<52] @ [vacuum_landing v], vacuum_landing v)"
proof (induction n arbitrary: k)
  case (Suc n)
  show ?case
  proof (cases "k = 51")
    case True
    then show ?thesis by (simp add: vacuum_step vacuum_height vacuum_touchdown Let_def)
  next
    case False
    then have "Suc k < 52" "52 \<le> Suc k + n" using Suc.prems by simp_all
    then show ?thesis
      using Suc.IH [of "Suc k"] by (simp add: vacuum_step vacuum_height Let_def upt_conv_Cons [of "Suc k"] del: upt_Suc)
  qed
qed simp

lemma landing_time_value: "0 \<le> sqrt (2 * (21 / 100) / (981 / 100)) - landing_time" "sqrt (2 * (21 / 100) / (981 / 100)) - landing_time \<le> 1 / 10 ^ 5"
  "0 \<le> ft_z (parabola v landing_time) - 1 / 100" "ft_z (parabola v landing_time) - 1 / 100 \<le> 2 / 10 ^ 5"
proof -
  have "landing_time \<le> sqrt (2 * (21 / 100) / (981 / 100))" by (rule real_le_rsqrt) (simp add: landing_time_def power2_eq_square)
  then show "0 \<le> sqrt (2 * (21 / 100) / (981 / 100)) - landing_time" by simp
  have "sqrt (2 * (21 / 100) / (981 / 100)) \<le> landing_time + 1 / 10 ^ 5" by (rule real_le_lsqrt) (simp_all add: landing_time_def power2_eq_square)
  then show "sqrt (2 * (21 / 100) / (981 / 100)) - landing_time \<le> 1 / 10 ^ 5" by simp
  show "0 \<le> ft_z (parabola v landing_time) - 1 / 100" "ft_z (parabola v landing_time) - 1 / 100 \<le> 2 / 10 ^ 5"
    by (simp_all add: parabola_def landing_time_def power2_eq_square)
qed

text \<open>The speed of the release: above the dead zone the curve of the output, with at most 4 per cent of variation.\<close>

definition release_of :: "real \<Rightarrow> bool \<Rightarrow> int \<Rightarrow> real" where
  "release_of p variation seed =
     8 * ((p - 10) / 90) powr (85 / 100) * (if variation then 1 + (seededRandom seed - 1 / 2) * (8 / 100) else 1)"

lemma seeded_factor: "96 / 100 \<le> 1 + (seededRandom seed - 1 / 2) * (8 / 100)" "1 + (seededRandom seed - 1 / 2) * (8 / 100) < 104 / 100"
proof -
  have "0 \<le> seededRandom seed" "seededRandom seed < 1" using rng_draw_bounds [of "randomGenerator seed"] by (simp_all add: seededRandom_def)
  then show "96 / 100 \<le> 1 + (seededRandom seed - 1 / 2) * (8 / 100)" "1 + (seededRandom seed - 1 / 2) * (8 / 100) < 104 / 100"
    by (simp_all add: field_simps)
qed

lemma release_speed_is:
  "0 \<le> p \<Longrightarrow> p \<le> 100 \<Longrightarrow> releaseSpeed (Some p) variation seed = Inr (if p \<le> 10 then 0 else release_of p variation seed)"
  by (simp add: releaseSpeed_def launchSpeed_def release_of_def MAX_POWER_def RELEASE_DEAD_ZONE_def MAX_RELEASE_SPEED_def
      RELEASE_CURVE_EXPONENT_def RELEASE_SPEED_SPREAD_def)

lemma release_of_pos: "10 < p \<Longrightarrow> 0 < release_of p variation seed"
  unfolding release_of_def by (intro mult_pos_pos) (use less_le_trans [OF _ seeded_factor(1) [of seed], of 0] in simp_all)

text \<open>What the run of a released disc is: 52 points of the parabola and the landing, with the weight as the only force.\<close>

definition flown_without_air :: "launch_run \<Rightarrow> real \<Rightarrow> bool" where
  "flown_without_air r v \<longleftrightarrow>
     lu_status r = Landed \<and> lu_speed r = v
     \<and> map fst (lu_samples r) = map (\<lambda>k. parabola v (real k * (4 / 1000))) [0..<52] @ [(parabola v landing_time)\<lparr> ft_z := 1 / 100 \<rparr>]
     \<and> list_all (\<lambda>s. snd s = weightOnly (18 / 1000 * (981 / 100))) (lu_samples r)
     \<and> lu_time r = landing_time \<and> lu_range r = v * landing_time"

lemma flown_run:
  assumes "0 < v"
  shows "case flight False MAX_FLIGHT_STEPS (released v) of
     None \<Rightarrow> False
   | Some (states, landing) \<Rightarrow>
       flown_without_air \<lparr> lu_samples = map (\<lambda>st. sampleAt st False) (released v # states), lu_range = ft_x landing,
         lu_time = ft_t landing, lu_speed = v, lu_status = Landed \<rparr> v"
proof -
  have flown: "flight False MAX_FLIGHT_STEPS (released v) = Some (map (vacuum_state v) [1..<52] @ [vacuum_landing v], vacuum_landing v)"
    using vacuum_flight [of 0 MAX_FLIGHT_STEPS v] by (simp add: released_vacuum MAX_FLIGHT_STEPS_def)
  have "[0..<52] = 0 # [1..<52::nat]" by (simp add: upt_conv_Cons del: upt_Suc)
  then have "map (\<lambda>k. parabola v (real k * (4 / 1000))) [0..<52] = released v # map (vacuum_state v) [1..<52]"
    by (simp add: released_vacuum vacuum_state_def comp_def del: upt_Suc)
  moreover have "fst (sampleAt st False) = st" "snd (sampleAt st False) = weightOnly (18 / 1000 * (981 / 100))" for st
    by (simp_all add: sampleAt_def launchForces_def DISC_MASS_def GRAVITY_def Let_def)
  ultimately show ?thesis
    unfolding flown flown_without_air_def
    by (simp add: vacuum_landing_def parabola_def list_all_iff comp_def del: upt_Suc)
qed

lemma variation_bounds:
  fixes p :: real
  defines "nominal \<equiv> 8 * ((p - 10) / 90) powr (85 / 100)"
  shows "96 / 100 * nominal \<le> release_of p variation seed" "release_of p variation seed \<le> 104 / 100 * nominal"
proof -
  have "0 \<le> nominal" by (simp add: nominal_def)
  moreover have "release_of p variation seed = nominal * (if variation then 1 + (seededRandom seed - 1 / 2) * (8 / 100) else 1)"
    by (simp add: release_of_def nominal_def)
  ultimately show "96 / 100 * nominal \<le> release_of p variation seed" "release_of p variation seed \<le> 104 / 100 * nominal"
    using mult_left_mono [OF seeded_factor(1) [of seed], of nominal] mult_left_mono [OF less_imp_le [OF seeded_factor(2) [of seed]], of nominal]
    by (simp_all add: mult.commute)
qed

text \<open>
  C40: Without air, whatever the variation and the seed: an output is refused exactly when it is not a number from 0
  to 100; up to 10 per cent the disc is not released and stays at the outlet; above that it leaves with the speed of
  the curve, which the variation changes by at most 4 per cent. Every sample in the air lies exactly on the parabola
  of the textbook. The last sample is the landing, on the line between the last computed point above the floor and
  the first one at it or below: it has the floor as its height, and its place and its velocity are those of the
  parabola at that time, which is before the parabola reaches the floor by at most 0.01 ms (less than
  0.02 mm above it). The distance is the release speed times that time.
\<close>

theorem flight_without_air:
  "case pw of
     None \<Rightarrow> launchExperiment pw False variation seed = Inl BadPower
   | Some p \<Rightarrow>
       if p < 0 \<or> 100 < p then launchExperiment pw False variation seed = Inl BadPower
       else
         (case launchExperiment pw False variation seed of
            Inl e \<Rightarrow> False
          | Inr r \<Rightarrow>
              if p \<le> 10 then
                lu_status r = NotReleased \<and> lu_speed r = 0 \<and> lu_range r = 0 \<and> lu_time r = 0
                \<and> map fst (lu_samples r) = [parabola 0 0]
              else
                (let nominal = 8 * ((p - 10) / 90) powr (85 / 100)
                 in 96 / 100 * nominal \<le> lu_speed r \<and> lu_speed r \<le> 104 / 100 * nominal
                    \<and> (if variation then True else lu_speed r = nominal))
                \<and> flown_without_air r (release_of p variation seed)
                \<and> 0 \<le> sqrt (2 * (21 / 100) / (981 / 100)) - lu_time r \<and> sqrt (2 * (21 / 100) / (981 / 100)) - lu_time r \<le> 1 / 10 ^ 5
                \<and> 0 \<le> ft_z (parabola (lu_speed r) (lu_time r)) - 1 / 100
                \<and> ft_z (parabola (lu_speed r) (lu_time r)) - 1 / 100 \<le> 2 / 10 ^ 5)"
proof (cases pw)
  case None
  then show ?thesis by (simp add: launchExperiment_def releaseSpeed_def launchSpeed_def)
next
  case (Some p)
  show ?thesis
  proof (cases "p < 0 \<or> 100 < p")
    case True
    then show ?thesis using Some by (simp add: launchExperiment_def releaseSpeed_def launchSpeed_def MAX_POWER_def)
  next
    case False
    note speed = release_speed_is [of p variation seed]
    show ?thesis
    proof (cases "p \<le> 10")
      case True
      then show ?thesis
        using Some False speed
        by (simp add: launchExperiment_def unreleasedRun_def sampleAt_def released_vacuum vacuum_state_def)
    next
      case above: False
      define v where "v = release_of p variation seed"
      obtain r where r: "launchExperiment pw False variation seed = Inr r" "flown_without_air r v"
        using Some False above speed release_of_pos [of p variation seed] flown_run [of "release_of p variation seed"]
        by (auto simp: launchExperiment_def v_def split: option.splits prod.splits)
      have v: "lu_speed r = v" using r(2) by (simp add: flown_without_air_def)
      have t: "lu_time r = landing_time" using r(2) by (simp add: flown_without_air_def)
      have "96 / 100 * (8 * ((p - 10) / 90) powr (85 / 100)) \<le> v" "v \<le> 104 / 100 * (8 * ((p - 10) / 90) powr (85 / 100))"
        "if variation then True else v = 8 * ((p - 10) / 90) powr (17 / 20)"
        using variation_bounds [of p variation seed] by (simp_all add: v_def release_of_def)
      then show ?thesis using Some False above r landing_time_value by (simp add: v t Let_def v_def [symmetric])
    qed
  qed
qed

section \<open>The output proposed lies between measurements\<close>

lemma means_rise_nth: "means_rise gs \<Longrightarrow> Suc i < length gs \<Longrightarrow> lg_mean (gs ! i) < lg_mean (gs ! Suc i)"
proof (induction gs arbitrary: i rule: means_rise.induct)
  case (1 a b gs)
  then show ?case by (cases i) auto
qed simp_all

definition between_groups :: "launch_group list \<Rightarrow> real \<Rightarrow> nat \<Rightarrow> bool" where
  "between_groups gs d i \<longleftrightarrow> 1 \<le> i \<and> i < length gs \<and> lg_mean (gs ! (i - 1)) \<le> d \<and> d \<le> lg_mean (gs ! i)
     \<and> lg_mean (gs ! (i - 1)) < lg_mean (gs ! i)"

lemma upper_index_between:
  assumes "estimateObstacle gs (Some d) = None"
  shows "between_groups gs d (upper_index gs d)"
proof -
  have gs: "2 \<le> length gs" "means_rise gs" "lg_mean (hd gs) \<le> d" "d \<le> lg_mean (last gs)"
    using assms by (auto simp: estimateObstacle_def split: if_splits)
  let ?n = "length (takeWhile (\<lambda>g. lg_mean g < d) gs)"
  have "?n < length gs"
  proof (rule ccontr)
    assume "\<not> ?n < length gs"
    then have "takeWhile (\<lambda>g. lg_mean g < d) gs = gs" using length_takeWhile_le [of _ gs] by (metis antisym_conv3 linorder_not_less takeWhile_eq_take take_all)
    then have "lg_mean (last gs) < d" using gs(1) by (metis last_in_set length_greater_0_conv set_takeWhileD zero_less_numeral less_le_trans)
    then show False using gs(4) by simp
  qed
  then have above: "d \<le> lg_mean (gs ! ?n)" using nth_length_takeWhile [of "\<lambda>g. lg_mean g < d" gs] by simp
  show ?thesis
  proof (cases "?n = 0")
    case True
    then have "lg_mean (gs ! 0) = d" using above gs by (cases gs) simp_all
    then show ?thesis using True gs means_rise_nth [OF gs(2), of 0] by (simp add: between_groups_def upper_index_def)
  next
    case False
    then have "gs ! (?n - 1) \<in> set (takeWhile (\<lambda>g. lg_mean g < d) gs)"
      by (metis One_nat_def diff_less length_greater_0_conv length_0_conv less_one neq0_conv nth_mem takeWhile_nth)
    then have below: "lg_mean (gs ! (?n - 1)) < d" using set_takeWhileD by fast
    have index: "upper_index gs d = ?n" "1 \<le> ?n" using False unfolding upper_index_def by linarith+
    show ?thesis
      unfolding between_groups_def index(1) using \<open>?n < length gs\<close> above below index(2) by linarith
  qed
qed

lemma groups_sorted:
  assumes "launchGroups rows = Inr gs"
  shows "sorted_wrt (<) (map lg_power gs)" "set (map lg_power gs) = set (map (\<lambda>r. the (lr_power r)) rows)"
proof -
  have "map lg_power gs = sort (remdups (map (\<lambda>r. the (lr_power r)) rows))"
    using assms by (auto simp: launchGroups_def group_of_def Let_def comp_def split: if_splits)
  then show "sorted_wrt (<) (map lg_power gs)" "set (map lg_power gs) = set (map (\<lambda>r. the (lr_power r)) rows)"
    by (simp_all add: strict_sorted_iff)
qed

definition proposal_sound :: "launch_group list \<Rightarrow> real \<Rightarrow> real \<Rightarrow> launch_group \<Rightarrow> launch_group \<Rightarrow> bool" where
  "proposal_sound gs d p low high \<longleftrightarrow>
     list_ex (\<lambda>i. low = gs ! i \<and> high = gs ! Suc i) [0..<length gs - 1]
     \<and> lg_mean low \<le> d \<and> d \<le> lg_mean high \<and> lg_power low \<le> p \<and> p \<le> lg_power high
     \<and> (p - lg_power low) * (lg_mean high - lg_mean low) = (lg_power high - lg_power low) * (d - lg_mean low)"

text \<open>
  The output proposed for a target never goes beyond the measurements. Records with an impossible value are
  refused; otherwise the records are grouped by output in ascending order, each output once, and a proposal
  is only made for a target that lies between the means of two neighbouring outputs: it is on the straight
  line between these two, and between their outputs.
\<close>

theorem estimate_brackets:
  "case launchEstimate rows target of
     Inl e \<Rightarrow> e = BadRow \<and> \<not> list_all row_valid rows
   | Inr (Refused ob gs) \<Rightarrow> estimateObstacle gs target = Some ob \<and> launchGroups rows = Inr gs
   | Inr (Proposed p low high gs) \<Rightarrow>
       launchGroups rows = Inr gs \<and> sorted_wrt (<) (map lg_power gs)
       \<and> set (map lg_power gs) = set (map (\<lambda>r. the (lr_power r)) rows)
       \<and> (case target of None \<Rightarrow> False | Some d \<Rightarrow> proposal_sound gs d p low high)"
proof (cases "launchGroups rows")
  case (Inl e)
  then have "e = BadRow \<and> \<not> list_all row_valid rows" by (simp add: launchGroups_def split: if_splits)
  then show ?thesis using Inl by (simp add: launchEstimate_def)
next
  case (Inr gs)
  show ?thesis
  proof (cases "estimateObstacle gs target")
    case (Some ob)
    then show ?thesis using Inr by (cases target) (simp_all add: launchEstimate_def)
  next
    case None
    then obtain d where d: "target = Some d" by (cases target) (simp_all add: estimateObstacle_def)
    define i where "i = upper_index gs d"
    have between: "between_groups gs d i" unfolding i_def using upper_index_between None d by simp
    let ?low = "gs ! (i - 1)" and ?high = "gs ! i"
    let ?p = "lg_power ?low + ((lg_power ?high - lg_power ?low) * (d - lg_mean ?low)) / (lg_mean ?high - lg_mean ?low)"
    have powers: "lg_power ?low < lg_power ?high"
      using sorted_wrt_nth_less [OF groups_sorted(1) [OF Inr], of "i - 1" i] between by (simp add: between_groups_def)
    have means: "lg_mean ?low \<le> d" "d \<le> lg_mean ?high" "lg_mean ?low < lg_mean ?high" using between by (simp_all add: between_groups_def)
    have "((lg_power ?high - lg_power ?low) * (d - lg_mean ?low)) / (lg_mean ?high - lg_mean ?low) \<le> lg_power ?high - lg_power ?low"
      using means powers by (simp add: divide_le_eq mult_left_mono)
    moreover have "0 \<le> ((lg_power ?high - lg_power ?low) * (d - lg_mean ?low)) / (lg_mean ?high - lg_mean ?low)"
      using means powers by simp
    moreover have "list_ex (\<lambda>j. ?low = gs ! j \<and> ?high = gs ! Suc j) [0..<length gs - 1]"
      using between by (auto simp: list_ex_iff between_groups_def intro!: bexI [of _ "i - 1"])
    ultimately have "proposal_sound gs d ?p ?low ?high" using means by (simp add: proposal_sound_def)
    then show ?thesis
      using Inr None d groups_sorted [OF Inr] by (simp add: launchEstimate_def i_def Let_def)
  qed
qed

section \<open>What a measurement file gives\<close>

definition typed_sound :: "launch_row \<Rightarrow> bool" where
  "typed_sound r \<longleftrightarrow> row_valid r \<and> (case lr_tilt r of None \<Rightarrow> True | Some a \<Rightarrow> 0 \<le> a \<and> a \<le> 180)
     \<and> (case lr_time r of None \<Rightarrow> True | Some c \<Rightarrow> CLOCK c)"

lemma details_sound:
  "parseShotDetails cells columns line = Inr (tilt, time) \<Longrightarrow>
     (case tilt of None \<Rightarrow> True | Some a \<Rightarrow> 0 \<le> a \<and> a \<le> 180) \<and> (case time of None \<Rightarrow> True | Some c \<Rightarrow> CLOCK c)"
  by (auto simp: parseShotDetails_def Let_def MAX_TILT_def decimal_value_def split: if_splits)

lemma measured_row_sound:
  "parseMeasurementRow cells n columns line = Inr r \<Longrightarrow>
     (case lr_tilt r of None \<Rightarrow> True | Some a \<Rightarrow> 0 \<le> a \<and> a \<le> 180) \<and> (case lr_time r of None \<Rightarrow> True | Some c \<Rightarrow> CLOCK c)
     \<and> (if 0 \<le> cc_source columns then cell_at cells (cc_source columns) = ''measured'' else True)"
  using details_sound [of cells columns line]
  by (auto simp: parseMeasurementRow_def Let_def split: if_splits sum.splits prod.splits)

definition cells_of :: "string \<Rightarrow> string list" where
  "cells_of line = map trim (split_on (CHR '','') line)"

lemma parse_rows_sound:
  "parse_rows n columns line ls = Inr rows \<Longrightarrow>
     length rows = length ls
     \<and> list_all (\<lambda>r. (case lr_tilt r of None \<Rightarrow> True | Some a \<Rightarrow> 0 \<le> a \<and> a \<le> 180) \<and> (case lr_time r of None \<Rightarrow> True | Some c \<Rightarrow> CLOCK c)) rows
     \<and> list_all (\<lambda>l. if 0 \<le> cc_source columns then cell_at (cells_of l) (cc_source columns) = ''measured'' else True) ls"
proof (induction ls arbitrary: line rows)
  case (Cons l ls)
  then obtain r rs where parts: "parseMeasurementRow (cells_of l) n columns line = Inr r"
      "parse_rows n columns (Suc line) ls = Inr rs" "rows = r # rs"
    by (auto simp: cells_of_def split: sum.splits)
  then show ?case using Cons.IH [OF parts(2)] measured_row_sound [OF parts(1)] by simp
qed simp

text \<open>
  A file of measurements that is accepted has from 1 to 300 rows, one per line after the header; every row has
  an output from 0 to 100 per cent, a distance from 0 to 30 m, at most an angle from 0 to 180 degrees and a time
  of day; and where the file says where its rows come from, every one is a measurement, not a simulation.
\<close>

theorem measurement_file_checked:
  "case launchParseCSV t of
     Inl e \<Rightarrow> True
   | Inr rows \<Rightarrow> 1 \<le> length rows \<and> length rows \<le> 300 \<and> list_all typed_sound rows \<and> length rows = length (csv_lines t) - 1
       \<and> list_all (\<lambda>l. let source = index_of (cells_of (hd (csv_lines t))) ''source''
           in if 0 \<le> source then cell_at (cells_of l) source = ''measured'' else True) (tl (csv_lines t))"
proof (cases "launchParseCSV t")
  case (Inr rows)
  define columns where "columns = (let header = cells_of (hd (csv_lines t)) in
    \<lparr> cc_power = index_of header ''output_pct'', cc_range = index_of header ''range_m'', cc_source = index_of header ''source'',
      cc_tilt = index_of header ''tilt_deg'', cc_time = index_of header ''time'' \<rparr>)"
  have parsed: "parse_rows (length (cells_of (hd (csv_lines t)))) columns 2 (tl (csv_lines t)) = Inr rows"
    and lines: "tl (csv_lines t) \<noteq> []" "length (tl (csv_lines t)) \<le> 300" and valid: "list_all row_valid rows"
    using Inr by (auto simp: launchParseCSV_def Let_def columns_def cells_of_def MAX_CSV_ROWS_def launchGroups_def
        split: if_splits sum.splits)
  have "1 \<le> length (tl (csv_lines t))" using lines(1) by (cases "tl (csv_lines t)") simp_all
  then show ?thesis
    using Inr lines valid parse_rows_sound [OF parsed]
    by (auto simp: typed_sound_def list_all_iff columns_def Let_def)
qed simp

end
