(* ===== verification/Live_Capture.thy ===== *)
theory Live_Capture
  imports Recording_Core
begin

text \<open>
  Recording a stretch of live data: \<open>lab/js/live/capture.js\<close> (the two recorders, opening a file, the recording
  kept across a reload, the group's name) and \<open>lab/js/live/robot-records.js\<close> (whether a copy goes to the robot).
  A promise is an \<open>option\<close> that is set once; the events of a recorder are the messages and phases the link
  emits, its timer and its two signals, in the order they happen. Clocks, files and the storage are arguments.
\<close>

definition PAIR_FRESH_MS :: millis where "PAIR_FRESH_MS = 500"
definition DEFAULT_SECONDS :: seconds where "DEFAULT_SECONDS = 12"

datatype capture_problem = NotConnected | LostLink | AbortedCapture

section \<open>A trigger with its paired streams\<close>

record paired_sample =
  ps_trigger :: json
  ps_paired :: "(string \<times> json) list"

datatype 'a promise = Pending | Resolved 'a | Rejected capture_problem

record stream_recorder =
  sr_samples :: "paired_sample list"
  sr_missed :: nat
  sr_latest :: "string \<Rightarrow> (json \<times> millis) option"
  sr_progress :: "nat list"
  sr_result :: "(paired_sample list \<times> nat) promise"

datatype capture_event = Received string json millis | LinkIs bool | TimerEnds | AbortSignal | FinishSignal

definition start_stream :: "bool \<Rightarrow> stream_recorder" where
  "start_stream linked =
     \<lparr> sr_samples = [], sr_missed = 0, sr_latest = (\<lambda>_. None), sr_progress = [],
       sr_result = (if linked then Pending else Rejected NotConnected) \<rparr>"

definition attached :: "(string \<Rightarrow> (json \<times> millis) option) \<Rightarrow> millis \<Rightarrow> string \<Rightarrow> json option" where
  "attached latest now name =
     (case latest name of None \<Rightarrow> None | Some (message, at_) \<Rightarrow> if now - at_ \<le> PAIR_FRESH_MS then Some message else None)"

text \<open>A message goes to the listeners of its stream: first those of the pairs, then the trigger's.\<close>

definition take_trigger :: "string list \<Rightarrow> json \<Rightarrow> millis \<Rightarrow> stream_recorder \<Rightarrow> stream_recorder" where
  "take_trigger pair message now sr =
     (let found = map (attached (sr_latest sr) now) pair in
      if list_ex (\<lambda>m. m = None) found then sr\<lparr> sr_missed := sr_missed sr + 1 \<rparr>
      else sr\<lparr> sr_samples := sr_samples sr @ [\<lparr> ps_trigger = message, ps_paired = zip pair (map the found) \<rparr>],
             sr_progress := sr_progress sr @ [length (sr_samples sr) + 1] \<rparr>)"

fun stream_event :: "string \<Rightarrow> string list \<Rightarrow> capture_event \<Rightarrow> stream_recorder \<Rightarrow> stream_recorder" where
  "stream_event trigger pair (Received name message now) sr =
     (let sr = (if name \<in> set pair then sr\<lparr> sr_latest := (sr_latest sr)(name \<mapsto> (message, now)) \<rparr> else sr)
      in if name = trigger then take_trigger pair message now sr else sr)"
| "stream_event trigger pair (LinkIs open_now) sr = (if open_now then sr else sr\<lparr> sr_result := Rejected LostLink \<rparr>)"
| "stream_event trigger pair TimerEnds sr = sr\<lparr> sr_result := Resolved (sr_samples sr, sr_missed sr) \<rparr>"
| "stream_event trigger pair AbortSignal sr = sr\<lparr> sr_result := Rejected AbortedCapture \<rparr>"
| "stream_event trigger pair FinishSignal sr = sr"

text \<open>Once the promise is settled every listener is off.\<close>

definition recordStream :: "string \<Rightarrow> string list \<Rightarrow> capture_event \<Rightarrow> stream_recorder \<Rightarrow> stream_recorder" where
  "recordStream trigger pair e sr = (if sr_result sr = Pending then stream_event trigger pair e sr else sr)"

section \<open>A whole recording\<close>

text \<open>
  What the robot's hello says; its \<open>config\<close>, the wheel sizes, is always an object (the bridge writes it into every
  hello). The link is open only with a hello (\<open>link_always_consistent\<close> in \<open>Robot_Link\<close>).
\<close>

record hello_view =
  hv_config :: "(string \<times> json) list"
  hv_streams :: "(string \<times> json) list"
  hv_robot :: "json option"

definition recorded :: "hello_view \<Rightarrow> string list \<Rightarrow> json \<Rightarrow> (string \<times> json list) list \<Rightarrow> recording" where
  "recorded hello names now streams =
     makeRecording
       (JObj [(''source'', JStr ''live''), (''name'', JStr []), (''recordedAt'', now), (''config'', JObj (hv_config hello)),
          (''topics'', JObj (map (\<lambda>n. (n, coalesce (map_of (hv_streams hello) n) JNull)) names))])
       (Some (JObj (map (\<lambda>(n, ms). (n, JArr ms)) streams)))"

text \<open>
  A recorder that listens: the hello it was started with, the messages pushed so far, and its promise, which is
  resolved with the recording and whether it is marked \<open>cut\<close>. Each event comes with the time a recording that
  ends then is stamped with.
\<close>

record recorder =
  ro_hello :: hello_view
  ro_names :: "string list"
  ro_count :: string
  ro_keep :: bool
  ro_streams :: "(string \<times> json list) list"
  ro_progress :: "nat list"
  ro_result :: "(recording \<times> bool) promise"

text \<open>\<open>hello\<close> is \<open>None\<close> when the link is not open.\<close>

definition start_recorder :: "hello_view option \<Rightarrow> string list \<Rightarrow> string \<Rightarrow> bool \<Rightarrow> recorder" where
  "start_recorder hello names countStream keepOnLost =
     \<lparr> ro_hello = coalesce hello \<lparr> hv_config = [], hv_streams = [], hv_robot = None \<rparr>, ro_names = names, ro_count = countStream,
       ro_keep = keepOnLost, ro_streams = map (\<lambda>n. (n, [])) names, ro_progress = [],
       ro_result = (if hello \<noteq> None then Pending else Rejected NotConnected) \<rparr>"

definition pushed :: "string \<Rightarrow> json \<Rightarrow> (string \<times> json list) list \<Rightarrow> (string \<times> json list) list" where
  "pushed name message streams = map (\<lambda>(n, ms). (n, if n = name then ms @ [message] else ms)) streams"

text \<open>\<open>done(cut)\<close>: what was pushed becomes a recording.\<close>

definition settle_done :: "bool \<Rightarrow> json \<Rightarrow> recorder \<Rightarrow> recorder" where
  "settle_done cut_off now r =
     r\<lparr> ro_result := Resolved (recorded (ro_hello r) (ro_names r) now (ro_streams r), cut_off) \<rparr>"

fun recorder_event :: "json \<Rightarrow> capture_event \<Rightarrow> recorder \<Rightarrow> recorder" where
  "recorder_event now (Received name message at_ms) r =
     (if name \<notin> set (ro_names r) then r
      else let streams = pushed name message (ro_streams r) in
        r\<lparr> ro_streams := streams,
          ro_progress := ro_progress r @ (if name = ro_count r then [length (coalesce (map_of streams name) [])] else []) \<rparr>)"
| "recorder_event now (LinkIs open_now) r =
     (if open_now then r else if ro_keep r then settle_done True now r else r\<lparr> ro_result := Rejected LostLink \<rparr>)"
| "recorder_event now TimerEnds r = settle_done False now r"
| "recorder_event now AbortSignal r = r\<lparr> ro_result := Rejected AbortedCapture \<rparr>"
| "recorder_event now FinishSignal r = settle_done False now r"

definition recordRobot :: "json \<Rightarrow> capture_event \<Rightarrow> recorder \<Rightarrow> recorder" where
  "recordRobot now e r = (if ro_result r = Pending then recorder_event now e r else r)"

section \<open>Opening a file\<close>

definition MAX_JSON_BYTES :: nat where "MAX_JSON_BYTES = 50 * 1024 * 1024"
definition MAX_BAG_BYTES :: nat where "MAX_BAG_BYTES = 1024 * 1024 * 1024"
definition MCAP_MAGIC :: nat where "MCAP_MAGIC = 0x89"

datatype 'e open_error = BagTooBig | JsonTooBig | BadRecording recording_error | BadBag 'e

record picked_file =
  pf_name :: string
  pf_size :: nat
  pf_first :: "nat option"

definition lower :: "char \<Rightarrow> char" where
  "lower c = (if 65 \<le> (of_char c :: nat) \<and> (of_char c :: nat) \<le> 90 then char_of ((of_char c :: nat) + 32) else c)"

definition is_bag :: "picked_file \<Rightarrow> bool" where
  "is_bag file \<longleftrightarrow> pf_first file = Some MCAP_MAGIC \<or> drop (length (pf_name file) - 5) (map lower (pf_name file)) = ''.mcap''"

text \<open>\<open>bag\<close> is what the bag reader makes of the file's bytes: the recording, already with \<open>config\<close>. The second
  component of the result says that the robot's default wheels were assumed.\<close>

definition openRecordingFile ::
  "picked_file \<Rightarrow> json option \<Rightarrow> 'e + (json \<Rightarrow> recording) \<Rightarrow> json option \<Rightarrow> json \<Rightarrow> 'e open_error + (recording \<times> bool)" where
  "openRecordingFile file parsed bag helloConfig defaultConfig =
     (if pf_size file > (if is_bag file then MAX_BAG_BYTES else MAX_JSON_BYTES) then Inl (if is_bag file then BagTooBig else JsonTooBig)
      else if \<not> is_bag file then
        (case parseRecording parsed of
           Inl e \<Rightarrow> Inl (BadRecording e)
         | Inr r \<Rightarrow> Inr (r\<lparr> rc_name := Some (JStr (pf_name file)) \<rparr>, False))
      else case bag of
          Inl e \<Rightarrow> Inl (BadBag e)
        | Inr build \<Rightarrow> Inr ((build (coalesce helloConfig defaultConfig))\<lparr> rc_name := Some (JStr (pf_name file)) \<rparr>, helloConfig = None))"

section \<open>Keeping the last recording of a block\<close>

definition MAX_KEPT_CHARS :: nat where "MAX_KEPT_CHARS = 3 * 1024 * 1024"

text \<open>The storage of the page: what it holds, and whether it lets the page read and write at all.\<close>

record storage =
  sg_allowed :: bool
  sg_items :: "string \<Rightarrow> json option"

definition keepRecording :: "(json \<Rightarrow> nat) \<Rightarrow> string \<Rightarrow> recording option \<Rightarrow> storage \<Rightarrow> storage \<times> bool" where
  "keepRecording text_length slot r sg =
     (if \<not> sg_allowed sg then (sg, False)
      else case r of
          None \<Rightarrow> (sg\<lparr> sg_items := (sg_items sg)(slot := None) \<rparr>, True)
        | Some rec \<Rightarrow>
            let saved = serializeRecording rec in
            if text_length saved > MAX_KEPT_CHARS then (sg\<lparr> sg_items := (sg_items sg)(slot := None) \<rparr>, False)
            else (sg\<lparr> sg_items := (sg_items sg)(slot \<mapsto> saved) \<rparr>, True))"

definition keptRecording :: "string \<Rightarrow> storage \<Rightarrow> recording option" where
  "keptRecording slot sg =
     (if \<not> sg_allowed sg then None
      else case sg_items sg slot of
          None \<Rightarrow> None
        | Some saved \<Rightarrow> (case parseRecording (Some saved) of Inl e \<Rightarrow> None | Inr r \<Rightarrow> Some r))"

section \<open>The group's name, progress, the link\<close>

definition MAX_GROUP_CHARS :: nat where "MAX_GROUP_CHARS = 30"

record group_state =
  gs_group :: string
  gs_allowed :: bool
  gs_stored :: "string option"

definition readGroup :: "bool \<Rightarrow> string option \<Rightarrow> string" where
  "readGroup allowed stored = (if allowed then take MAX_GROUP_CHARS (coalesce stored []) else [])"

definition groupName :: "group_state \<Rightarrow> string" where
  "groupName g = trim (gs_group g)"

definition setGroupName :: "string \<Rightarrow> group_state \<Rightarrow> group_state" where
  "setGroupName typed g =
     (let name = take MAX_GROUP_CHARS typed in
      g\<lparr> gs_group := name, gs_stored := (if gs_allowed g then (if trim name \<noteq> [] then Some name else None) else gs_stored g) \<rparr>)"

definition PROGRESS_PERIOD_MS :: millis where "PROGRESS_PERIOD_MS = 400"

text \<open>The counts that are reported, of counts with the times they come at.\<close>

fun throttleProgress :: "millis \<Rightarrow> (millis \<times> nat) list \<Rightarrow> (millis \<times> nat) list" where
  "throttleProgress previous [] = []"
| "throttleProgress previous ((now, n) # calls) =
     (if now - previous < PROGRESS_PERIOD_MS then throttleProgress previous calls
      else (now, n) # throttleProgress now calls)"

record live_link =
  ll_connected :: bool
  ll_streams :: "(string \<times> json) list"
  ll_rates :: "(string \<times> real) list"
  ll_config :: "json option"
  ll_robot :: "json option"

definition liveLink :: "bool \<Rightarrow> hello_view option \<Rightarrow> (string \<times> real) list \<Rightarrow> live_link" where
  "liveLink open_now hello rates =
     \<lparr> ll_connected = open_now, ll_streams = (case hello of None \<Rightarrow> [] | Some h \<Rightarrow> hv_streams h), ll_rates = rates,
       ll_config = map_option (\<lambda>h. JObj (hv_config h)) hello, ll_robot = Option.bind hello hv_robot \<rparr>"

definition missingStreams :: "live_link \<Rightarrow> string list \<Rightarrow> string list" where
  "missingStreams l names =
     (if \<not> ll_connected l then names
      else filter (\<lambda>n. \<not> jtruthy (map_of (ll_streams l) n) \<or> \<not> (case map_of (ll_rates l) n of None \<Rightarrow> False | Some v \<Rightarrow> v > 0)) names)"

section \<open>A copy on the robot\<close>

text \<open>What the link says now, and what is remembered of the robot the page was last connected to.\<close>

record robot_records =
  rb_connected :: bool
  rb_save :: bool
  rb_last_saves :: bool
  rb_greeted :: "nat option"

datatype link_phase = LinkIdle | LinkOpen nat bool | LinkOther

text \<open>The listener of the link's state: \<open>LinkOpen\<close> carries the number of the hello and whether it offers saving.\<close>

fun records_hear :: "link_phase \<Rightarrow> robot_records \<Rightarrow> robot_records" where
  "records_hear LinkIdle rb = rb\<lparr> rb_connected := False, rb_save := False, rb_last_saves := False \<rparr>"
| "records_hear LinkOther rb = rb\<lparr> rb_connected := False, rb_save := False \<rparr>"
| "records_hear (LinkOpen hello save) rb =
     (let rb = rb\<lparr> rb_connected := True, rb_save := save \<rparr> in
      if rb_greeted rb = Some hello then rb else rb\<lparr> rb_greeted := Some hello, rb_last_saves := save \<rparr>)"

text \<open>Whether \<open>keepOnRobot\<close> asks the robot to save; otherwise it resolves with \<open>null\<close> at once.\<close>

definition keepOnRobot :: "robot_records \<Rightarrow> bool" where
  "keepOnRobot rb \<longleftrightarrow> \<not> (if rb_connected rb then \<not> rb_save rb else \<not> rb_last_saves rb)"

section \<open>A recorder settles once, with everything it heard\<close>

text \<open>The events a recorder that listens reacts to by settling.\<close>

fun ends_recorder :: "capture_event \<Rightarrow> bool" where
  "ends_recorder (Received _ _ _) = False"
| "ends_recorder (LinkIs open_now) = (\<not> open_now)"
| "ends_recorder _ = True"

fun heard :: "string \<Rightarrow> capture_event \<Rightarrow> json list" where
  "heard name (Received n message now) = (if n = name then [message] else [])"
| "heard name _ = []"

definition heard_before :: "string \<Rightarrow> (json \<times> capture_event) list \<Rightarrow> json list" where
  "heard_before name es = concat (map (\<lambda>(now, e). heard name e) (takeWhile (\<lambda>(now, e). \<not> ends_recorder e) es))"

definition first_end :: "(json \<times> capture_event) list \<Rightarrow> (json \<times> capture_event) option" where
  "first_end es = find (\<lambda>(now, e). ends_recorder e) es"

text \<open>
  What a recording keeps of the messages \<open>ms\<close> of a stream, in order of arrival: those with a finite stamp, in
  order of stamp, and those of one stamp in the order they arrived.
\<close>

definition keeps_heard :: "json list \<Rightarrow> json list \<Rightarrow> bool" where
  "keeps_heard ms kept \<longleftrightarrow>
     list_all (\<lambda>m. stamp_of m \<noteq> None) kept \<and> sorted (map stamp kept)
     \<and> (\<forall>t. filter (\<lambda>m. stamp_of m = Some t) kept = filter (\<lambda>m. stamp_of m = Some t) ms)"

text \<open>The recording of what was heard until the event that ended it at \<open>now\<close>.\<close>

definition recording_of_heard :: "hello_view \<Rightarrow> string list \<Rightarrow> (json \<times> capture_event) list \<Rightarrow> json \<Rightarrow> recording \<Rightarrow> bool" where
  "recording_of_heard hello names es now r \<longleftrightarrow>
     rc_source r = Some (JStr ''live'') \<and> rc_recorded_at r = Some now
     \<and> rc_config r = wheels_of (Some (JObj (hv_config hello)))
     \<and> rc_topics r = JObj (map (\<lambda>n. (n, coalesce (map_of (hv_streams hello) n) JNull)) names)
     \<and> map fst (rc_streams r) = filter (\<lambda>s. s \<in> set names) RECORDING_STREAMS
     \<and> list_all (\<lambda>(s, kept). keeps_heard (heard_before s es) kept) (rc_streams r)"

text \<open>How the promise stands after the events \<open>es\<close>.\<close>

definition settled_rightly ::
  "hello_view option \<Rightarrow> string list \<Rightarrow> bool \<Rightarrow> (json \<times> capture_event) list \<Rightarrow> (recording \<times> bool) promise \<Rightarrow> bool" where
  "settled_rightly hello names keep es p \<longleftrightarrow>
     (case (hello, first_end es) of
        (None, _) \<Rightarrow> p = Rejected NotConnected
      | (Some h, None) \<Rightarrow> p = Pending
      | (Some h, Some (now, e)) \<Rightarrow>
          (case e of
             AbortSignal \<Rightarrow> p = Rejected AbortedCapture
           | LinkIs open_now \<Rightarrow>
               (if keep then (case p of Resolved (r, cut_off) \<Rightarrow> cut_off \<and> recording_of_heard h names es now r | _ \<Rightarrow> False)
                else p = Rejected LostLink)
           | _ \<Rightarrow> (case p of Resolved (r, cut_off) \<Rightarrow> \<not> cut_off \<and> recording_of_heard h names es now r | _ \<Rightarrow> False)))"

abbreviation run_recorder :: "(json \<times> capture_event) list \<Rightarrow> recorder \<Rightarrow> recorder" where
  "run_recorder es r \<equiv> fold (\<lambda>(now, e). recordRobot now e) es r"

lemma settled_stays: "ro_result r \<noteq> Pending \<Longrightarrow> run_recorder es r = r"
  by (induction es) (auto simp: recordRobot_def)

lemma pushed_map: "pushed name message (map (\<lambda>n. (n, f n)) names) = map (\<lambda>n. (n, f n @ (if n = name then [message] else []))) names"
  by (simp add: pushed_def)

lemma listening:
  assumes "ro_result r = Pending" "ro_streams r = map (\<lambda>n. (n, f n)) (ro_names r)" "\<not> ends_recorder e"
  shows "ro_result (recordRobot now e r) = Pending \<and> ro_names (recordRobot now e r) = ro_names r \<and> ro_keep (recordRobot now e r) = ro_keep r
    \<and> ro_hello (recordRobot now e r) = ro_hello r \<and> ro_streams (recordRobot now e r) = map (\<lambda>n. (n, f n @ heard n e)) (ro_names r)"
proof (cases e)
  case (Received name message at_ms)
  then show ?thesis using assms(1,2) by (auto simp: recordRobot_def Let_def pushed_map)
qed (use assms in \<open>auto simp: recordRobot_def\<close>)

text \<open>How an ending event settles a recorder that has heard \<open>streams\<close>.\<close>

fun settles_as :: "bool \<Rightarrow> (json \<Rightarrow> recording) \<Rightarrow> json \<times> capture_event \<Rightarrow> (recording \<times> bool) promise" where
  "settles_as keep rec (now, LinkIs open_now) = (if keep then Resolved (rec now, True) else Rejected LostLink)"
| "settles_as keep rec (now, AbortSignal) = Rejected AbortedCapture"
| "settles_as keep rec (now, _) = Resolved (rec now, False)"

lemma recorder_result:
  assumes "ro_result r = Pending" "ro_streams r = map (\<lambda>n. (n, f n)) (ro_names r)"
  shows "ro_result (run_recorder es r) =
    (case first_end es of
       None \<Rightarrow> Pending
     | Some e \<Rightarrow> settles_as (ro_keep r)
         (\<lambda>now. recorded (ro_hello r) (ro_names r) now (map (\<lambda>n. (n, f n @ heard_before n es)) (ro_names r))) e)"
  using assms
proof (induction es arbitrary: r f)
  case Nil
  then show ?case by (simp add: first_end_def)
next
  case (Cons ev es)
  obtain now e where ev: "ev = (now, e)" by (cases ev)
  show ?case
  proof (cases "ends_recorder e")
    case True
    let ?rec = "\<lambda>now. recorded (ro_hello r) (ro_names r) now (ro_streams r)"
    have "ro_result (recordRobot now e r) = settles_as (ro_keep r) ?rec (now, e)"
      using Cons.prems True by (cases e) (auto simp: recordRobot_def settle_done_def)
    moreover have "settles_as (ro_keep r) ?rec (now, e) \<noteq> Pending" by (cases e) simp_all
    ultimately show ?thesis
      using True Cons.prems(2) settled_stays [of "recordRobot now e r" es] by (simp add: ev first_end_def heard_before_def)
  next
    case False
    note keeps = listening [OF Cons.prems False, of now]
    show ?thesis
      using Cons.IH [of "recordRobot now e r" "\<lambda>n. f n @ heard n e"] keeps False
      by (simp add: ev first_end_def heard_before_def split: option.split)
  qed
qed

section \<open>What the recording keeps\<close>

lemma filter_stamp_sort: "filter (\<lambda>m. stamp m = t) (sort_key stamp ms) = filter (\<lambda>m. stamp m = t) ms"
  by (rule sort_key_stable)

lemma keeps_heard_sorted: "keeps_heard ms (sortedByStamp ms)"
proof -
  have "filter (\<lambda>m. stamp_of m = Some t) (sortedByStamp ms) = filter (\<lambda>m. stamp_of m = Some t) ms" for t
  proof -
    let ?ok = "\<lambda>m. stamp_of m \<noteq> None" and ?at = "\<lambda>m. stamp m = t"
    have "filter (\<lambda>m. stamp_of m = Some t) xs = filter ?ok (filter ?at xs)" for xs
      by (induction xs) (auto simp: stamp_def)
    then have "filter (\<lambda>m. stamp_of m = Some t) (sortedByStamp ms) = filter ?ok (filter ?at (sort_key stamp (filter ?ok ms)))"
      unfolding sortedByStamp_def .
    also have "\<dots> = filter ?ok (filter ?at (filter ?ok ms))"
      by (simp only: filter_stamp_sort)
    also have "\<dots> = filter (\<lambda>m. stamp_of m = Some t) ms"
      by (induction ms) (auto simp: stamp_def)
    finally show ?thesis .
  qed
  then show ?thesis
    by (simp add: keeps_heard_def sorted_sortedByStamp) (simp add: sortedByStamp_def list_all_iff)
qed

lemma map_of_names: "map_of (map (\<lambda>n. (n, g n)) names) s = (if s \<in> set names then Some (g s) else None)"
  by (induction names) auto

lemma recorded_heard:
  "recording_of_heard hello names es now (recorded hello names now (map (\<lambda>n. (n, heard_before n es)) names))"
proof -
  let ?streams = "Some (JObj (map (\<lambda>(n, ms). (n, JArr ms)) (map (\<lambda>n. (n, heard_before n es)) names)))"
  have found: "as_list (jfield ?streams s) = (if s \<in> set names then Some (heard_before s es) else None)" for s
    by (simp add: o_def map_of_names)
  have "map fst (kept_streams ?streams) = filter (\<lambda>s. s \<in> set names) RECORDING_STREAMS"
    unfolding kept_streams_alt map_fst_kept found by simp
  moreover have "list_all (\<lambda>(s, kept). keeps_heard (heard_before s es) kept) (kept_streams ?streams)"
    unfolding kept_streams_def found by (auto simp: list_all_iff List.map_filter_def keeps_heard_sorted)
  ultimately show ?thesis
    by (simp add: recording_of_heard_def recorded_def makeRecording_def Let_def)
qed

lemma recorder_settles:
  "settled_rightly hello names keep es (ro_result (run_recorder es (start_recorder hello names countStream keep)))"
proof (cases hello)
  case None
  then show ?thesis
    using settled_stays [of "start_recorder hello names countStream keep" es] by (simp add: start_recorder_def settled_rightly_def)
next
  case (Some h)
  then show ?thesis
    using recorder_result [of "start_recorder hello names countStream keep" "\<lambda>n. []" es] recorded_heard [of h names es]
    by (auto simp: start_recorder_def settled_rightly_def split: option.split capture_event.split)
qed

text \<open>
  C10: A recording of the robot settles exactly once and holds exactly what was heard. For every sequence of messages,
  phases of the link, timer and signals: without a connection it is refused at once; otherwise its first ending
  event decides. The learner's abort discards it; the timer and the finish signal give a recording of every stream
  asked for, with exactly the messages heard until then that carry a finite stamp, in order of stamp (and of
  arrival where stamps are equal), the wheel sizes and topics of the robot's hello, and the time of the end; a lost link gives
  the same marked as cut, when the caller asked to keep it, and is an error otherwise. Nothing that happens later
  changes the result.
\<close>

theorem recording_holds_what_was_heard:
  "let r = run_recorder es (start_recorder hello names countStream keep) in
   settled_rightly hello names keep es (ro_result r)
   \<and> (if ro_result r = Pending then True else run_recorder (es @ later) (start_recorder hello names countStream keep) = r)"
  using recorder_settles settled_stays by (simp add: Let_def)

end
