(* ===== verification/Live_Session.thy ===== *)
theory Live_Session
  imports Live_Capture Records_Core
begin

text \<open>
  The state behind one recording block of a lesson, \<open>lab/js/live/live-session.js\<close> with
  \<open>lab/js/live/run-keeper.js\<close>: recording, driving while recording, opening files and records, keeping the runs in
  the history and on the robot. The lesson's \<open>apply\<close>, the words of the content files and the browser are
  arguments; a driving run is told by its plan and its result (\<open>Drive_Link\<close> is that part). What waits for a promise
  is the session's task; the event that settles the promise carries on with the rest of the function. The
  sentences are lists of constructors. An exception of the lesson's \<open>apply\<close> is passed on as the code does: caught
  with a sentence by recording and by opening a file, past the rest of the function otherwise. The progress count
  and the elapsed time are left out; a lesson's \<open>program\<close> and \<open>outcome\<close> are taken not to throw.
\<close>

section \<open>The state\<close>

definition DEFAULT_TAIL_SECONDS :: seconds where "DEFAULT_TAIL_SECONDS = 3 / 2"

datatype origin = NoOrigin | FromLive | FromFile | FromRobot | FromStorage

datatype note_part =
    RestoredNote "json option"
  | OpenedNote recording
  | OpenedRobotNote recording
  | OpenedBagNote recording
  | AssumedNote wheel_sizes
  | LessonNote string
  | NotKeptNote
  | CaptureFailed capture_problem
  | ApplyFailed string
  | PageNote string
  | MissingNote "string list"
  | FileFailed string

record drive_result =
  re_started :: bool
  re_reason :: string

datatype drive_note = PlanRefused string | EndedNote drive_result | OutcomeNote string | CutNote | NotShownNote string

record drive_plan =
  pl_seconds :: seconds
  pl_tail :: "seconds option"
  pl_references :: "json option"
  pl_conditions :: "conditions option"

datatype task = NoTask | Capturing | Driving drive_plan | Tailing drive_plan drive_result

datatype save_note = RobotSaved | RobotFailed string

record session =
  ls_recording :: "recording option"
  ls_note :: "note_part list"
  ls_busy :: bool
  ls_controllers :: bool
  ls_driving :: bool
  ls_driveAbort :: bool
  ls_tail :: bool
  ls_driveNote :: "drive_note list"
  ls_driveRunId :: "nat option"
  ls_origin :: origin
  ls_robotSave :: "save_note option"
  ls_task :: task
  ls_recorder :: "recorder option"
  ls_stops :: nat
  ls_files :: nat
  ls_saves :: "(recording \<times> nat option) list"
  ls_confirmed :: bool
  ls_history :: history
  ls_storage :: storage
  ls_group :: group_state
  ls_robot :: robot_records
  ls_hello :: "hello_view option"

text \<open>What the lesson's \<open>apply\<close> does with a recording: \<open>{ok, note}\<close>, or an exception with its message.\<close>

datatype apply_answer = Answers bool string | ApplyThrows string

record options =
  op_slot :: string
  op_lesson :: string
  op_needs :: "string list"
  op_countStream :: string
  op_finishOnStop :: bool
  op_apply :: "recording \<Rightarrow> apply_answer"
  op_applyOnRestore :: bool
  op_drive :: bool

text \<open>The words of the content files and the browser.\<close>

record surroundings =
  su_browser :: browser
  su_text_length :: "json \<Rightarrow> nat"
  su_status :: "string \<Rightarrow> string"
  su_ended :: "drive_result \<Rightarrow> string"
  su_recorded :: string
  su_cut :: string
  su_lesson :: "string \<Rightarrow> string option"

section \<open>Showing a recording\<close>

definition from_rosbag :: "recording \<Rightarrow> bool" where
  "from_rosbag r \<longleftrightarrow> rc_source r = Some (JStr ''rosbag'')"

definition originNote :: "recording \<Rightarrow> origin \<Rightarrow> bool \<Rightarrow> note_part list" where
  "originNote r origin assumedConfig =
     (if origin = FromStorage then [RestoredNote (rc_recorded_at r)]
      else if origin \<noteq> FromFile \<and> origin \<noteq> FromRobot then []
      else if origin = FromRobot \<and> \<not> from_rosbag r then [OpenedRobotNote r]
      else if \<not> from_rosbag r then [OpenedNote r]
      else if \<not> assumedConfig then [OpenedBagNote r]
      else [OpenedBagNote r, AssumedNote (rc_config r)])"

text \<open>The first component is the message of the exception that \<open>apply\<close> threw: nothing is changed then.\<close>

definition show_recording :: "options \<Rightarrow> surroundings \<Rightarrow> recording \<Rightarrow> origin \<Rightarrow> bool \<Rightarrow> session \<Rightarrow> string option \<times> session" where
  "show_recording op su r origin assumedConfig s =
     (case op_apply op r of
        ApplyThrows reason \<Rightarrow> (Some reason, s)
      | Answers ok lesson_note \<Rightarrow>
          (None,
           let s = s\<lparr> ls_note := originNote r origin assumedConfig @ (if lesson_note = [] then [] else [LessonNote lesson_note]) \<rparr> in
           if \<not> ok then s
           else
             let s = s\<lparr> ls_recording := Some r, ls_origin := origin \<rparr> in
             if origin = FromStorage then s
             else
               let (sg, kept) = keepRecording (su_text_length su) (op_slot op) (Some r) (ls_storage s) in
               s\<lparr> ls_storage := sg, ls_note := ls_note s @ (if kept then [] else [NotKeptNote]) \<rparr>))"

definition lesson_takes :: "options \<Rightarrow> recording \<Rightarrow> bool" where
  "lesson_takes op r = (case op_apply op r of Answers ok lesson_note \<Rightarrow> ok | ApplyThrows reason \<Rightarrow> False)"

definition stamped :: "options \<Rightarrow> session \<Rightarrow> recording \<Rightarrow> (string \<times> json) list \<Rightarrow> recording" where
  "stamped op s r info =
     withRunInfo r (Some (JObj
       (info @ [(''lesson'', JStr (op_slot op)), (''robot'', coalesce (Option.bind (ls_hello s) hv_robot) JNull),
          (''group'', JStr (groupName (ls_group s)))])))"

section \<open>Keeping a run\<close>

definition robot_text :: "recording \<Rightarrow> string" where
  "robot_text r = (case ri_robot (rc_info r) of None \<Rightarrow> [] | Some n \<Rightarrow> rn_name n)"

definition group_text :: "recording \<Rightarrow> string" where
  "group_text r = coalesce (ri_group (rc_info r)) []"

definition add_run :: "surroundings \<Rightarrow> string \<Rightarrow> string \<Rightarrow> run_details \<Rightarrow> recording \<Rightarrow> json \<Rightarrow> session \<Rightarrow> session \<times> nat" where
  "add_run su slot lesson d r now s =
     (s\<lparr> ls_history := addDriveRun (su_browser su) slot lesson d r now (ls_history s) \<rparr>, hs_next (ls_history s))"

definition addCaptureRun :: "options \<Rightarrow> surroundings \<Rightarrow> recording \<Rightarrow> json \<Rightarrow> session \<Rightarrow> session \<times> nat option" where
  "addCaptureRun op su r now s =
     (if isEmptyRun r then (s, None)
      else
        let (s, i) = add_run su (op_slot op) (lessonName (op_slot op))
              \<lparr> rd_conditions = None, rd_program = None, rd_ended = Some (su_recorded su), rd_reason = Some ''recorded'',
                rd_robot = Some (robot_text r), rd_group = Some (group_text r), rd_source = None, rd_references = None, rd_cut = Some False \<rparr>
              r now s
        in (s, Some i))"

text \<open>The copy on the robot: asked for now, answered later, or not kept there at all.\<close>

definition keepCopyOnRobot :: "recording \<Rightarrow> nat option \<Rightarrow> session \<Rightarrow> session" where
  "keepCopyOnRobot r runId s =
     (if keepOnRobot (ls_robot s) then s\<lparr> ls_saves := ls_saves s @ [(r, runId)] \<rparr> else s\<lparr> ls_robotSave := None \<rparr>)"

definition save_answered :: "surroundings \<Rightarrow> nat \<Rightarrow> string + string \<Rightarrow> session \<Rightarrow> session" where
  "save_answered su i answer s =
     (if i \<ge> length (ls_saves s) then s
      else
        let runId = snd (ls_saves s ! i); s = s\<lparr> ls_saves := take i (ls_saves s) @ drop (Suc i) (ls_saves s) \<rparr> in
        case answer of
          Inl reason \<Rightarrow> s\<lparr> ls_robotSave := Some (RobotFailed reason) \<rparr>
        | Inr ident \<Rightarrow>
            s\<lparr> ls_robotSave := Some RobotSaved,
              ls_history := (case runId of None \<Rightarrow> ls_history s | Some n \<Rightarrow> markRunOnRobot (su_browser su) n ident (ls_history s)) \<rparr>)"

section \<open>Recording only\<close>

definition idle_again :: "session \<Rightarrow> session" where
  "idle_again s =
     s\<lparr> ls_busy := False, ls_driving := False, ls_tail := False, ls_controllers := False, ls_driveAbort := False,
       ls_task := NoTask, ls_recorder := None \<rparr>"

text \<open>The robot's hello while the link is open; an open link always has one.\<close>

definition link_hello :: "session \<Rightarrow> hello_view option" where
  "link_hello s = (if rb_connected (ls_robot s) then ls_hello s else None)"

definition capture_settles :: "options \<Rightarrow> surroundings \<Rightarrow> json \<Rightarrow> session \<Rightarrow> session" where
  "capture_settles op su now s =
     (case ls_recorder s of
        None \<Rightarrow> s
      | Some rec \<Rightarrow>
          (case ro_result rec of
             Pending \<Rightarrow> s
           | Resolved (raw, cut_off) \<Rightarrow>
               (let r = stamped op s raw []; shown = show_recording op su r FromLive False s in
                case fst shown of
                  Some reason \<Rightarrow> idle_again ((snd shown)\<lparr> ls_note := [ApplyFailed reason] \<rparr>)
                | None \<Rightarrow>
                    let (s, runId) = addCaptureRun op su r now (snd shown) in idle_again (keepCopyOnRobot r runId s))
           | Rejected problem \<Rightarrow> idle_again (s\<lparr> ls_note := [CaptureFailed problem] \<rparr>)))"

definition recorder_hears :: "capture_event \<Rightarrow> json \<Rightarrow> session \<Rightarrow> session" where
  "recorder_hears e now s = s\<lparr> ls_recorder := map_option (recordRobot now e) (ls_recorder s) \<rparr>"

definition hear :: "options \<Rightarrow> surroundings \<Rightarrow> capture_event \<Rightarrow> json \<Rightarrow> session \<Rightarrow> session" where
  "hear op su e now s =
     (let s = recorder_hears e now s in if ls_task s = Capturing then capture_settles op su now s else s)"

definition startCapture :: "options \<Rightarrow> surroundings \<Rightarrow> json \<Rightarrow> session \<Rightarrow> session" where
  "startCapture op su now s =
     (if ls_busy s then s
      else capture_settles op su now
        (s\<lparr> ls_busy := True, ls_controllers := True, ls_note := [], ls_robotSave := None, ls_task := Capturing,
           ls_recorder := Some (start_recorder (link_hello s) RECORDING_STREAMS (op_countStream op) False) \<rparr>))"

definition stopCapture :: "options \<Rightarrow> surroundings \<Rightarrow> json \<Rightarrow> session \<Rightarrow> session" where
  "stopCapture op su now s =
     (if ls_driving s then (if ls_driveAbort s then s\<lparr> ls_stops := ls_stops s + 1 \<rparr> else s)
      else if \<not> ls_controllers s then s
      else hear op su (if op_finishOnStop op then FinishSignal else AbortSignal) now s)"

section \<open>Driving while recording\<close>

definition startDriveCapture :: "options \<Rightarrow> string + drive_plan \<Rightarrow> json \<Rightarrow> session \<Rightarrow> session" where
  "startDriveCapture op plan now s =
     (if ls_busy s \<or> \<not> op_drive op then s
      else case plan of
          Inl message \<Rightarrow> s\<lparr> ls_driveNote := [PlanRefused message] \<rparr>
        | Inr p \<Rightarrow>
            s\<lparr> ls_busy := True, ls_driveNote := [], ls_robotSave := None, ls_driving := True, ls_controllers := True, ls_driveAbort := True,
              ls_task := Driving p, ls_stops := 0,
              ls_recorder := Some (start_recorder (link_hello s) RECORDING_STREAMS (op_countStream op) True) \<rparr>)"

definition plan_info :: "surroundings \<Rightarrow> drive_plan \<Rightarrow> drive_result \<Rightarrow> (string \<times> json) list" where
  "plan_info su p result =
     [(''conditions'', (case pl_conditions p of None \<Rightarrow> JNull | Some c \<Rightarrow> conditions_json c)),
      (''outcome'', JObj [(''reason'', JStr (re_reason result)), (''label'', JStr (su_status su (re_reason result)))])]"

definition words :: "string list \<Rightarrow> string" where
  "words parts = join '' '' (filter (\<lambda>t. t \<noteq> []) parts)"

text \<open>The end of a run: \<open>outcome\<close> and \<open>program\<close> are what the lesson says about it then.\<close>

definition finishRun :: "options \<Rightarrow> surroundings \<Rightarrow> drive_plan \<Rightarrow> drive_result \<Rightarrow> string \<Rightarrow> string \<Rightarrow> json \<Rightarrow> session \<Rightarrow> session" where
  "finishRun op su p result outcome program now s =
     (case ls_recorder s of
        None \<Rightarrow> s
      | Some rec \<Rightarrow>
          (case ro_result rec of
             Resolved (raw, cut_off) \<Rightarrow>
               (if \<not> re_started result \<or> isEmptyRun raw then s\<lparr> ls_driveNote := [EndedNote result] \<rparr>
                else
                  let s = s\<lparr> ls_confirmed := False \<rparr>;
                      r = stamped op s raw (plan_info su p result);
                      as_planned = (re_reason result = ''done'');
                      shown = (if as_planned then show_recording op su r FromLive False s else (None, s))
                  in if fst shown \<noteq> None then snd shown
                  else
                  let s = (snd shown)\<lparr> ls_driveNote := [EndedNote result] @ (if outcome = [] then [] else [OutcomeNote outcome])
                        @ (if cut_off then [CutNote] else []) @ (if as_planned then [] else [NotShownNote (su_status su (re_reason result))]) \<rparr>;
                      (s, i) = add_run su (op_slot op) (coalesce (su_lesson su (op_slot op)) (op_lesson op))
                        \<lparr> rd_conditions = Some (case pl_conditions p of None \<Rightarrow> [] | Some c \<Rightarrow> cn_label c), rd_program = Some program,
                          rd_ended = Some (words [su_ended su result, outcome, if cut_off then su_cut su else []]),
                          rd_reason = Some (re_reason result), rd_robot = Some (robot_text r), rd_group = Some (group_text r),
                          rd_source = None, rd_references = Some (coalesce (pl_references p) (JObj [])), rd_cut = Some cut_off \<rparr>
                        r now s
                  in keepCopyOnRobot r (Some i) (s\<lparr> ls_driveRunId := Some i \<rparr>))
           | _ \<Rightarrow> s\<lparr> ls_driveNote := [EndedNote result] \<rparr>))"

definition drive_ends :: "options \<Rightarrow> surroundings \<Rightarrow> drive_result \<Rightarrow> json \<Rightarrow> session \<Rightarrow> session" where
  "drive_ends op su result now s =
     (case ls_task s of
        Driving p \<Rightarrow>
          (let s = s\<lparr> ls_driving := False, ls_driveAbort := False, ls_tail := re_started result \<rparr> in
           if re_started result then s\<lparr> ls_task := Tailing p result \<rparr>
           else idle_again (finishRun op su p result [] [] now (recorder_hears AbortSignal now s)))
      | _ \<Rightarrow> s)"

definition tail_ends :: "options \<Rightarrow> surroundings \<Rightarrow> string \<Rightarrow> string \<Rightarrow> json \<Rightarrow> session \<Rightarrow> session" where
  "tail_ends op su outcome program now s =
     (case ls_task s of
        Tailing p result \<Rightarrow> idle_again (finishRun op su p result outcome program now (recorder_hears FinishSignal now s))
      | _ \<Rightarrow> s)"

section \<open>Files, the robot's records, storage\<close>

definition openParsed :: "options \<Rightarrow> surroundings \<Rightarrow> recording \<Rightarrow> origin \<Rightarrow> bool \<Rightarrow> session \<Rightarrow> string option \<times> session" where
  "openParsed op su r origin assumedConfig s =
     (let lacking = missingInRecording r (op_needs op) in
      if lacking \<noteq> [] then (None, s\<lparr> ls_note := [MissingNote lacking] \<rparr>) else show_recording op su r origin assumedConfig s)"

definition pick_file :: "session \<Rightarrow> session" where
  "pick_file s = (if ls_busy s then s else s\<lparr> ls_files := ls_files s + 1 \<rparr>)"

definition openRecording :: "options \<Rightarrow> surroundings \<Rightarrow> string + (recording \<times> bool) \<Rightarrow> session \<Rightarrow> session" where
  "openRecording op su opened s =
     (if ls_files s = 0 then s
      else
        let s = s\<lparr> ls_files := ls_files s - 1 \<rparr> in
        case opened of
          Inl reason \<Rightarrow> s\<lparr> ls_note := [FileFailed reason] \<rparr>
        | Inr (r, assumedConfig) \<Rightarrow>
            let shown = openParsed op su r FromFile assumedConfig s in
            case fst shown of Some reason \<Rightarrow> (snd shown)\<lparr> ls_note := [FileFailed reason] \<rparr> | None \<Rightarrow> snd shown)"

definition useRecording :: "options \<Rightarrow> surroundings \<Rightarrow> recording \<Rightarrow> session \<Rightarrow> session" where
  "useRecording op su r s = (if ls_busy s then s else snd (openParsed op su r FromRobot False s))"

definition recording_to_save :: "session \<Rightarrow> recording option" where
  "recording_to_save s =
     (case ls_recording s of
        None \<Rightarrow> None
      | Some r \<Rightarrow>
          (let own = (ls_origin s \<notin> {FromFile, FromRobot} \<and> ri_group (rc_info r) = None)
           in Some (if own then withRunInfo r (Some (JObj [(''group'', JStr (groupName (ls_group s)))])) else r)))"

definition restore :: "options \<Rightarrow> surroundings \<Rightarrow> session \<Rightarrow> session" where
  "restore op su s =
     (case keptRecording (op_slot op) (ls_storage s) of
        None \<Rightarrow> s
      | Some r \<Rightarrow>
          (if missingInRecording r (op_needs op) \<noteq> [] then s
           else if op_applyOnRestore op then snd (show_recording op su r FromStorage False s)
           else s\<lparr> ls_recording := Some r, ls_origin := FromStorage \<rparr>))"

definition clear_session :: "options \<Rightarrow> surroundings \<Rightarrow> session \<Rightarrow> session" where
  "clear_session op su s =
     s\<lparr> ls_recording := None, ls_note := [], ls_storage := fst (keepRecording (su_text_length su) (op_slot op) None (ls_storage s)) \<rparr>"

section \<open>What the block may offer\<close>

definition canSave :: "session \<Rightarrow> bool" where
  "canSave s \<longleftrightarrow> ls_recording s \<noteq> None \<and> \<not> ls_busy s"

text \<open>The stream a run publishes itself cannot be required before it.\<close>

definition drive_block_ready :: "options \<Rightarrow> live_link \<Rightarrow> bool \<Rightarrow> bool" where
  "drive_block_ready op l drive_ready \<longleftrightarrow> drive_ready \<and> missingStreams l (filter (\<lambda>n. n \<noteq> ''twist'') (op_needs op)) = []"

section \<open>Events\<close>

datatype session_event =
    StartCapture json
  | StopCapture json
  | StartDrive "string + drive_plan" json
  | RecorderHears capture_event json
  | DriveEnds drive_result json
  | TailEnds string string json
  | SaveAnswered nat "string + string"
  | PickFile
  | FileOpened "string + (recording \<times> bool)"
  | UseRecording recording
  | Restore
  | ClearBlock
  | SetNote string
  | SetGroup string
  | ConfirmDrive bool
  | LinkTold "hello_view option" link_phase
  | InHistory history_event

fun session_step :: "options \<Rightarrow> surroundings \<Rightarrow> session_event \<Rightarrow> session \<Rightarrow> session" where
  "session_step op su (StartCapture now) s = startCapture op su now s"
| "session_step op su (StopCapture now) s = stopCapture op su now s"
| "session_step op su (StartDrive plan now) s = startDriveCapture op plan now s"
| "session_step op su (RecorderHears e now) s = hear op su e now s"
| "session_step op su (DriveEnds result now) s = drive_ends op su result now s"
| "session_step op su (TailEnds outcome program now) s = tail_ends op su outcome program now s"
| "session_step op su (SaveAnswered i answer) s = save_answered su i answer s"
| "session_step op su PickFile s = pick_file s"
| "session_step op su (FileOpened opened) s = openRecording op su opened s"
| "session_step op su (UseRecording r) s = useRecording op su r s"
| "session_step op su Restore s = restore op su s"
| "session_step op su ClearBlock s = clear_session op su s"
| "session_step op su (SetNote sentence) s = s\<lparr> ls_note := [PageNote sentence] \<rparr>"
| "session_step op su (SetGroup typed) s = s\<lparr> ls_group := setGroupName typed (ls_group s) \<rparr>"
| "session_step op su (ConfirmDrive checked) s = s\<lparr> ls_confirmed := checked \<rparr>"
| "session_step op su (LinkTold hello phase) s = s\<lparr> ls_hello := hello, ls_robot := records_hear phase (ls_robot s) \<rparr>"
| "session_step op su (InHistory e) s = s\<lparr> ls_history := history_step (su_browser su) e (ls_history s) \<rparr>"

definition createLiveSession :: "surroundings \<Rightarrow> storage \<Rightarrow> group_state \<Rightarrow> session" where
  "createLiveSession su sg g =
     \<lparr> ls_recording = None, ls_note = [], ls_busy = False, ls_controllers = False, ls_driving = False, ls_driveAbort = False,
       ls_tail = False, ls_driveNote = [], ls_driveRunId = None, ls_origin = NoOrigin, ls_robotSave = None, ls_task = NoTask,
       ls_recorder = None, ls_stops = 0, ls_files = 0, ls_saves = [], ls_confirmed = False,
       ls_history = first_visit (su_browser su), ls_storage = sg, ls_group = g,
       ls_robot = \<lparr> rb_connected = False, rb_save = False, rb_last_saves = False, rb_greeted = None \<rparr>, ls_hello = None \<rparr>"

section \<open>The block is consistent\<close>

definition recorder_pending :: "session \<Rightarrow> bool" where
  "recorder_pending s \<longleftrightarrow> (case ls_recorder s of None \<Rightarrow> False | Some rec \<Rightarrow> ro_result rec = Pending)"

text \<open>What the buttons of the block read, for each task.\<close>

definition session_shape :: "session \<Rightarrow> bool" where
  "session_shape s \<longleftrightarrow>
     (case ls_task s of
        NoTask \<Rightarrow> \<not> ls_busy s \<and> \<not> ls_controllers s \<and> \<not> ls_driving s \<and> \<not> ls_driveAbort s \<and> \<not> ls_tail s \<and> ls_recorder s = None
      | Capturing \<Rightarrow> ls_busy s \<and> ls_controllers s \<and> \<not> ls_driving s \<and> \<not> ls_driveAbort s \<and> \<not> ls_tail s \<and> recorder_pending s
      | Driving p \<Rightarrow> ls_busy s \<and> ls_controllers s \<and> ls_driving s \<and> ls_driveAbort s \<and> \<not> ls_tail s \<and> ls_recorder s \<noteq> None
      | Tailing p result \<Rightarrow> ls_busy s \<and> ls_controllers s \<and> \<not> ls_driving s \<and> \<not> ls_driveAbort s \<and> ls_tail s \<and> re_started result
          \<and> ls_recorder s \<noteq> None)"

text \<open>The recording on screen is one the lesson took.\<close>

definition screen_ok :: "options \<Rightarrow> recording option \<Rightarrow> origin \<Rightarrow> bool" where
  "screen_ok op shown orig \<longleftrightarrow>
     (case shown of None \<Rightarrow> True | Some r \<Rightarrow> lesson_takes op r \<or> (\<not> op_applyOnRestore op \<and> orig = FromStorage))"

definition shown_ok :: "options \<Rightarrow> session \<Rightarrow> bool" where
  "shown_ok op s \<longleftrightarrow> screen_ok op (ls_recording s) (ls_origin s)"

definition history_ok :: "surroundings \<Rightarrow> session \<Rightarrow> bool" where
  "history_ok su s \<longleftrightarrow> (\<exists>M. history_sound (su_browser su) M (ls_history s))"

definition session_sound :: "options \<Rightarrow> surroundings \<Rightarrow> session \<Rightarrow> bool" where
  "session_sound op su s \<longleftrightarrow> session_shape s \<and> shown_ok op s \<and> history_ok su s"

abbreviation after_show :: "options \<Rightarrow> surroundings \<Rightarrow> recording \<Rightarrow> origin \<Rightarrow> bool \<Rightarrow> session \<Rightarrow> session" where
  "after_show op su r orig a s \<equiv> snd (show_recording op su r orig a s)"

lemma show_frame [simp]:
  "ls_busy (after_show op su r orig a s) = ls_busy s" "ls_controllers (after_show op su r orig a s) = ls_controllers s"
  "ls_driving (after_show op su r orig a s) = ls_driving s" "ls_driveAbort (after_show op su r orig a s) = ls_driveAbort s"
  "ls_tail (after_show op su r orig a s) = ls_tail s" "ls_task (after_show op su r orig a s) = ls_task s"
  "ls_recorder (after_show op su r orig a s) = ls_recorder s" "ls_history (after_show op su r orig a s) = ls_history s"
  "ls_files (after_show op su r orig a s) = ls_files s"
  by (simp_all add: show_recording_def Let_def split: prod.split apply_answer.split)

lemma show_recording_cases:
  "ls_recording (after_show op su r orig a s) = (if lesson_takes op r then Some r else ls_recording s)"
  "ls_origin (after_show op su r orig a s) = (if lesson_takes op r then orig else ls_origin s)"
  by (simp_all add: show_recording_def lesson_takes_def Let_def split: prod.split apply_answer.split)

lemma show_ok: "shown_ok op s \<Longrightarrow> shown_ok op (after_show op su r orig a s)"
  by (simp add: shown_ok_def show_recording_cases screen_ok_def)

lemma shape_frame:
  assumes "ls_busy s' = ls_busy s" "ls_controllers s' = ls_controllers s" "ls_driving s' = ls_driving s"
    "ls_driveAbort s' = ls_driveAbort s" "ls_tail s' = ls_tail s" "ls_task s' = ls_task s" "ls_recorder s' = ls_recorder s"
  shows "session_shape s' = session_shape s"
  using assms by (simp add: session_shape_def recorder_pending_def split: task.split)

lemma idle_shape: "session_shape (idle_again s)"
  by (simp add: session_shape_def idle_again_def)

lemma idle_frame [simp]:
  "ls_recording (idle_again s) = ls_recording s" "ls_origin (idle_again s) = ls_origin s" "ls_history (idle_again s) = ls_history s"
  "ls_busy (idle_again s) = False" "ls_task (idle_again s) = NoTask"
  by (simp_all add: idle_again_def)

lemma idle_ok [simp]: "shown_ok op (idle_again s) = shown_ok op s" "history_ok su (idle_again s) = history_ok su s"
  by (simp_all add: shown_ok_def history_ok_def)

lemma copy_frame [simp]:
  "ls_recording (keepCopyOnRobot r i s) = ls_recording s" "ls_origin (keepCopyOnRobot r i s) = ls_origin s"
  "ls_history (keepCopyOnRobot r i s) = ls_history s"
  by (simp_all add: keepCopyOnRobot_def)

lemma copy_ok [simp]: "shown_ok op (keepCopyOnRobot r i s) = shown_ok op s" "history_ok su (keepCopyOnRobot r i s) = history_ok su s"
  by (simp_all add: shown_ok_def history_ok_def)

lemma added_history:
  assumes "history_ok su s" "ls_history s' = addDriveRun (su_browser su) slot lesson d r now (ls_history s)"
  shows "history_ok su s'"
  using assms add_sound unfolding history_ok_def by metis

lemma hears_frame [simp]:
  "ls_recording (recorder_hears e now s) = ls_recording s" "ls_origin (recorder_hears e now s) = ls_origin s"
  "ls_history (recorder_hears e now s) = ls_history s" "ls_task (recorder_hears e now s) = ls_task s"
  by (simp_all add: recorder_hears_def split: option.split)

lemma hears_ok [simp]: "shown_ok op (recorder_hears e now s) = shown_ok op s" "history_ok su (recorder_hears e now s) = history_ok su s"
  by (simp_all add: shown_ok_def history_ok_def)

lemma capture_run_frame:
  "ls_recording (fst (addCaptureRun op su r now s)) = ls_recording s" "ls_origin (fst (addCaptureRun op su r now s)) = ls_origin s"
  by (simp_all add: addCaptureRun_def add_run_def Let_def)

lemma capture_run_history: "history_ok su s \<Longrightarrow> history_ok su (fst (addCaptureRun op su r now s))"
  by (auto simp: addCaptureRun_def add_run_def Let_def elim: added_history)

lemma captured_sound:
  assumes "shown_ok op s" "history_ok su s" "ls_task s = Capturing" "recorder_pending s \<Longrightarrow> session_shape s" "ls_recorder s \<noteq> None"
  shows "session_sound op su (capture_settles op su now s)"
proof -
  obtain rec where rec: "ls_recorder s = Some rec" using assms(5) by auto
  show ?thesis
  proof (cases "ro_result rec")
    case Pending
    then show ?thesis using rec assms by (simp add: capture_settles_def session_sound_def recorder_pending_def)
  next
    case (Resolved heard)
    obtain raw cut_off where heard: "heard = (raw, cut_off)" by (cases heard)
    let ?r = "stamped op s raw []"
    let ?s = "after_show op su ?r FromLive False s"
    let ?added = "addCaptureRun op su ?r now ?s"
    have "capture_settles op su now s =
        (case fst (show_recording op su ?r FromLive False s) of
           Some reason \<Rightarrow> idle_again (?s\<lparr> ls_note := [ApplyFailed reason] \<rparr>)
         | None \<Rightarrow> idle_again (keepCopyOnRobot ?r (snd ?added) (fst ?added)))"
      using rec Resolved heard by (simp add: capture_settles_def Let_def split: prod.split option.split)
    moreover have shown: "shown_ok op ?s" by (rule show_ok [OF assms(1)])
    moreover have "shown_ok op (fst ?added)" using shown by (simp add: shown_ok_def capture_run_frame)
    moreover have "history_ok su (fst ?added)" using assms(2) by (intro capture_run_history) (simp add: history_ok_def)
    ultimately show ?thesis
      using assms(2) by (simp add: session_sound_def idle_shape shown_ok_def history_ok_def split: option.split)
  next
    case (Rejected problem)
    then show ?thesis using rec assms by (simp add: capture_settles_def session_sound_def idle_shape shown_ok_def history_ok_def)
  qed
qed

lemma hear_sound:
  assumes "session_sound op su s"
  shows "session_sound op su (hear op su e now s)"
proof (cases "ls_task s = Capturing")
  case True
  let ?s = "recorder_hears e now s"
  have "session_sound op su (capture_settles op su now ?s)"
  proof (rule captured_sound)
    have shape: "ls_busy s \<and> ls_controllers s \<and> \<not> ls_driving s \<and> \<not> ls_driveAbort s \<and> \<not> ls_tail s \<and> recorder_pending s"
      using assms True by (simp add: session_sound_def session_shape_def)
    show "ls_recorder ?s \<noteq> None" using shape by (auto simp: recorder_hears_def recorder_pending_def split: option.splits)
    show "session_shape ?s" if "recorder_pending ?s"
      using that shape True by (auto simp: session_shape_def recorder_hears_def split: option.splits)
  qed (use assms True in \<open>simp_all add: session_sound_def\<close>)
  then show ?thesis using True by (simp add: hear_def Let_def)
next
  case False
  have "session_shape (recorder_hears e now s)"
    using assms False by (auto simp: session_sound_def session_shape_def recorder_hears_def split: task.splits option.splits)
  then show ?thesis using assms False by (simp add: hear_def Let_def session_sound_def)
qed

definition screen :: "session \<Rightarrow> recording option \<times> origin" where
  "screen s = (ls_recording s, ls_origin s)"

lemma finish_screen:
  "screen (finishRun op su p result outcome program now s) = screen s
   \<or> (re_started result \<and> re_reason result = ''done'' \<and>
      (\<exists>r. lesson_takes op r \<and> screen (finishRun op su p result outcome program now s) = (Some r, FromLive)))"
  by (auto simp: finishRun_def Let_def add_run_def screen_def show_recording_cases split: option.split promise.split prod.split)

lemma finish_shown: "shown_ok op s \<Longrightarrow> shown_ok op (finishRun op su p result outcome program now s)"
  using finish_screen [of op su p result outcome program now s] by (auto simp: screen_def shown_ok_def) (simp add: screen_ok_def)

lemma finish_history:
  assumes "history_ok su s"
  shows "history_ok su (finishRun op su p result outcome program now s)"
proof -
  have "ls_history (finishRun op su p result outcome program now s) = ls_history s
      \<or> (\<exists>lesson d r. ls_history (finishRun op su p result outcome program now s)
           = addDriveRun (su_browser su) (op_slot op) lesson d r now (ls_history s))"
    by (auto simp: finishRun_def Let_def add_run_def split: option.split promise.split prod.split)
  then show ?thesis
  proof
    assume "ls_history (finishRun op su p result outcome program now s) = ls_history s"
    then show ?thesis using assms by (simp add: history_ok_def)
  qed (use assms added_history in blast)
qed


lemma finish_frame [simp]: "ls_task (finishRun op su p result outcome program now s) = ls_task s"
  by (simp add: finishRun_def Let_def add_run_def keepCopyOnRobot_def split: option.split promise.split prod.split)

lemma start_recorder_pending: "ro_result (start_recorder hello names counted keep) = (if hello \<noteq> None then Pending else Rejected NotConnected)"
  by (simp add: start_recorder_def)

lemma start_capture_sound: "session_sound op su s \<Longrightarrow> session_sound op su (startCapture op su now s)"
proof -
  assume sound: "session_sound op su s"
  have "session_sound op su (capture_settles op su now s')"
    if "ls_task s' = Capturing" "ls_busy s'" "ls_controllers s'" "\<not> ls_driving s'" "\<not> ls_driveAbort s'" "\<not> ls_tail s'"
      "ls_recorder s' \<noteq> None" "screen s' = screen s" "ls_history s' = ls_history s" for s'
    by (rule captured_sound) (use sound that in \<open>simp_all add: session_sound_def session_shape_def screen_def shown_ok_def history_ok_def\<close>)
  moreover have "\<not> ls_driving s \<and> \<not> ls_driveAbort s \<and> \<not> ls_tail s" if "\<not> ls_busy s"
    using sound that by (auto simp: session_sound_def session_shape_def split: task.splits)
  ultimately show ?thesis using sound by (simp add: startCapture_def screen_def)
qed

lemma same_shape_sound:
  assumes "session_sound op su s" "ls_busy s' = ls_busy s" "ls_controllers s' = ls_controllers s" "ls_driving s' = ls_driving s"
    "ls_driveAbort s' = ls_driveAbort s" "ls_tail s' = ls_tail s" "ls_task s' = ls_task s" "ls_recorder s' = ls_recorder s"
    "shown_ok op s'" "history_ok su s'"
  shows "session_sound op su s'"
  using assms(1,9,10) shape_frame [OF assms(2-8)] by (simp add: session_sound_def)

lemma same_parts_sound:
  assumes "session_sound op su s" "ls_busy s' = ls_busy s" "ls_controllers s' = ls_controllers s" "ls_driving s' = ls_driving s"
    "ls_driveAbort s' = ls_driveAbort s" "ls_tail s' = ls_tail s" "ls_task s' = ls_task s" "ls_recorder s' = ls_recorder s"
    "screen s' = screen s" "history_ok su s'"
  shows "session_sound op su s'"
  using assms(1,9,10) shape_frame [OF assms(2-8)] by (simp add: session_sound_def shown_ok_def screen_def)

lemma history_same: "ls_history s' = ls_history s \<Longrightarrow> history_ok su s' = history_ok su s"
  by (simp add: history_ok_def)

lemma sound_history: "session_sound op su s \<Longrightarrow> history_ok su s"
  by (simp add: session_sound_def)

lemma show_sound: "session_sound op su s \<Longrightarrow> session_sound op su (after_show op su r orig a s)"
  by (rule same_shape_sound) (simp_all add: session_sound_def show_ok history_ok_def)

lemma note_sound: "session_sound op su s \<Longrightarrow> session_sound op su (s\<lparr> ls_note := n \<rparr>)"
  by (rule same_parts_sound) (simp_all add: session_sound_def screen_def history_ok_def)

lemma parsed_sound: "session_sound op su s \<Longrightarrow> session_sound op su (snd (openParsed op su r orig a s))"
  by (simp add: openParsed_def Let_def show_sound note_sound)

lemma history_moves:
  assumes "history_ok su s" "ls_history s' = history_step (su_browser su) e (ls_history s)"
  shows "history_ok su s'"
  using assms Drive_History.step_sound unfolding history_ok_def by metis

lemma session_saved_sound: "session_sound op su s \<Longrightarrow> session_sound op su (save_answered su i answer s)"
proof -
  assume sound: "session_sound op su s"
  have "history_ok su (save_answered su i answer s)"
  proof -
    have "ls_history (save_answered su i answer s) = ls_history s
      \<or> (\<exists>n ident. ls_history (save_answered su i answer s) = history_step (su_browser su) (MarkOnRobot n ident) (ls_history s))"
      by (auto simp: save_answered_def Let_def split: sum.split option.split)
    then show ?thesis using sound_history [OF sound] history_moves history_same by metis
  qed
  then show ?thesis
    by (intro same_parts_sound [OF sound]) (simp_all add: save_answered_def Let_def screen_def split: sum.split)
qed

lemma drive_sound: "session_sound op su s \<Longrightarrow> session_sound op su (drive_ends op su result now s)"
proof (cases "ls_task s")
  case (Driving p)
  assume sound: "session_sound op su s"
  show ?thesis
  proof (cases "re_started result")
    case True
    then show ?thesis
      using sound Driving by (simp add: drive_ends_def Let_def session_sound_def session_shape_def shown_ok_def history_ok_def)
  next
    case False
    let ?s = "recorder_hears AbortSignal now (s\<lparr> ls_driving := False, ls_driveAbort := False, ls_tail := False \<rparr>)"
    have "shown_ok op ?s" "history_ok su ?s" using sound by (simp_all add: session_sound_def shown_ok_def history_ok_def)
    then show ?thesis
      using finish_shown finish_history Driving False by (simp add: drive_ends_def Let_def session_sound_def idle_shape)
  qed
qed (simp_all add: drive_ends_def)

lemma tail_sound: "session_sound op su s \<Longrightarrow> session_sound op su (tail_ends op su outcome program now s)"
proof (cases "ls_task s")
  case (Tailing p result)
  assume sound: "session_sound op su s"
  have "shown_ok op (recorder_hears FinishSignal now s)" "history_ok su (recorder_hears FinishSignal now s)"
    using sound by (simp_all add: session_sound_def)
  then show ?thesis
    using finish_shown finish_history Tailing by (simp add: tail_ends_def session_sound_def idle_shape)
qed (simp_all add: tail_ends_def)

lemma drive_start_sound: "session_sound op su s \<Longrightarrow> session_sound op su (startDriveCapture op plan now s)"
proof -
  assume sound: "session_sound op su s"
  have "\<not> ls_tail s" if "\<not> ls_busy s" using sound that by (auto simp: session_sound_def session_shape_def split: task.splits)
  then show ?thesis
    using sound
    by (cases plan) (auto simp: startDriveCapture_def session_sound_def session_shape_def shown_ok_def history_ok_def
        recorder_pending_def split: task.split)
qed

lemma restore_sound: "session_sound op su s \<Longrightarrow> session_sound op su (restore op su s)"
proof -
  assume sound: "session_sound op su s"
  have "session_sound op su (s\<lparr> ls_recording := Some r, ls_origin := FromStorage \<rparr>)" if "\<not> op_applyOnRestore op" for r
    by (rule same_shape_sound [OF sound]) (use sound_history [OF sound] that in \<open>simp_all add: shown_ok_def screen_ok_def history_ok_def\<close>)
  then show ?thesis using sound show_sound by (simp add: restore_def split: option.split)
qed

lemma clear_sound_session: "session_sound op su s \<Longrightarrow> session_sound op su (clear_session op su s)"
  by (rule same_shape_sound) (simp_all add: clear_session_def session_sound_def shown_ok_def screen_ok_def history_ok_def)

lemma session_step_sound:
  assumes "session_sound op su s"
  shows "session_sound op su (session_step op su e s)"
proof (cases e)
  case (StopCapture now)
  have "session_sound op su (s\<lparr> ls_stops := ls_stops s + 1 \<rparr>)"
    by (rule same_parts_sound [OF assms]) (use sound_history [OF assms] in \<open>simp_all add: screen_def history_ok_def\<close>)
  then show ?thesis using StopCapture assms hear_sound by (simp add: stopCapture_def)
next
  case (FileOpened opened)
  have "session_sound op su (s\<lparr> ls_files := ls_files s - 1 \<rparr>)" and "session_sound op su (s\<lparr> ls_files := ls_files s - 1, ls_note := n \<rparr>)" for n
    by (rule same_parts_sound [OF assms]; use sound_history [OF assms] in \<open>simp add: screen_def history_ok_def\<close>)+
  then show ?thesis using FileOpened assms parsed_sound note_sound by (simp add: openRecording_def Let_def split: sum.split prod.split option.split)
next
  case (InHistory e)
  have "history_ok su (s\<lparr> ls_history := history_step (su_browser su) e (ls_history s) \<rparr>)"
    by (rule history_moves [OF sound_history [OF assms]]) simp
  then show ?thesis using InHistory by (intro same_parts_sound [OF assms]) (simp_all add: screen_def)
next
  case PickFile
  then show ?thesis
    using same_parts_sound [OF assms, of "pick_file s"] sound_history [OF assms] by (simp add: pick_file_def screen_def history_ok_def)
next
  case (SetGroup typed)
  then show ?thesis
    by (intro same_parts_sound [OF assms]) (use sound_history [OF assms] in \<open>simp_all add: screen_def history_ok_def\<close>)
next
  case (ConfirmDrive checked)
  then show ?thesis
    by (intro same_parts_sound [OF assms]) (use sound_history [OF assms] in \<open>simp_all add: screen_def history_ok_def\<close>)
next
  case (LinkTold hello phase)
  then show ?thesis
    by (intro same_parts_sound [OF assms]) (use sound_history [OF assms] in \<open>simp_all add: screen_def history_ok_def\<close>)
qed (use assms start_capture_sound drive_start_sound hear_sound drive_sound tail_sound session_saved_sound parsed_sound note_sound restore_sound clear_sound_session
    in \<open>simp_all add: useRecording_def\<close>)

interpretation block: event_machine "session_step op su" "session_sound op su" for op su
  by unfold_locales (rule session_step_sound)

lemma created_sound: "session_sound op su (createLiveSession su sg g)"
  using first_visit_sound
  by (auto simp: createLiveSession_def session_sound_def session_shape_def shown_ok_def screen_ok_def history_ok_def)

text \<open>
  C27: A recording block stays consistent over every sequence of presses, messages, answers and changes of the link:
  it is busy exactly while one recording or one run is under way, and then has the signals to stop it; the stop
  button stops the robot exactly while it drives; a recording that is waited for is still listening; what is on
  screen is a recording the lesson took (or one restored for a lesson that keeps its own results); and the
  history of runs is sound throughout.
\<close>

theorem session_always_sound: "session_sound op su (fold (session_step op su) es (createLiveSession su sg g))"
  by (rule block.run_inv [OF created_sound])

section \<open>Which recordings reach the lesson\<close>

text \<open>The events that may change the recording on screen.\<close>

fun may_show :: "session_event \<Rightarrow> session \<Rightarrow> bool" where
  "may_show (TailEnds outcome program now) s = (case ls_task s of Tailing p result \<Rightarrow> re_reason result = ''done'' | _ \<Rightarrow> False)"
| "may_show (RecorderHears e now) s = (ls_task s = Capturing)"
| "may_show (StopCapture now) s = (ls_task s = Capturing)"
| "may_show (FileOpened opened) s = (ls_files s > 0)"
| "may_show (UseRecording r) s = (\<not> ls_busy s)"
| "may_show Restore s = True"
| "may_show ClearBlock s = True"
| "may_show _ s = False"

lemma capture_screen: "screen (capture_settles op su now s) \<noteq> screen s \<Longrightarrow> \<exists>r. lesson_takes op r \<and> screen (capture_settles op su now s) = (Some r, FromLive)"
  by (auto simp: capture_settles_def Let_def addCaptureRun_def add_run_def screen_def show_recording_cases
      split: option.splits promise.splits prod.splits if_splits)

lemma capture_rejected: "ls_recorder s = Some rec \<Longrightarrow> ro_result rec = Pending \<or> ro_result rec = Rejected problem \<Longrightarrow> screen (capture_settles op su now s) = screen s"
  by (auto simp: capture_settles_def screen_def)

definition took :: "options \<Rightarrow> session \<Rightarrow> session \<Rightarrow> bool" where
  "took op s s' \<longleftrightarrow> screen s' = screen s \<or> (\<exists>r. lesson_takes op r \<and> ls_recording s' = Some r)"

lemma took_same: "screen s' = screen s \<Longrightarrow> took op s s'"
  by (simp add: took_def)

lemma took_show: "took op s (after_show op su r orig a s)"
  by (auto simp: took_def screen_def show_recording_cases)

lemma took_parsed: "took op s (snd (openParsed op su r orig a s))"
  using took_show by (auto simp: openParsed_def Let_def took_def screen_def)

lemma took_hear: "took op s (hear op su e now s) \<and> (ls_task s \<noteq> Capturing \<longrightarrow> screen (hear op su e now s) = screen s)"
  using capture_screen [of op su now "recorder_hears e now s"] by (auto simp: hear_def Let_def took_def screen_def)

lemma hears_screen: "screen (recorder_hears e now s) = screen s"
  by (simp add: screen_def)

lemma start_screen: "screen (startCapture op su now s) = screen s"
proof (cases "ls_busy s")
  case False
  let ?rec = "start_recorder (link_hello s) RECORDING_STREAMS (op_countStream op) False"
  let ?s = "s\<lparr> ls_busy := True, ls_controllers := True, ls_note := [], ls_robotSave := None, ls_task := Capturing,
    ls_recorder := Some ?rec \<rparr>"
  have "screen (capture_settles op su now ?s) = screen ?s"
    by (rule capture_rejected [where rec = ?rec and problem = NotConnected]) (simp_all add: start_recorder_pending)
  then show ?thesis using False by (simp add: startCapture_def screen_def)
qed (simp add: startCapture_def)

lemma drive_screen: "screen (drive_ends op su result now s) = screen s"
proof (cases "ls_task s")
  case (Driving p)
  show ?thesis
  proof (cases "re_started result")
    case False
    let ?s = "recorder_hears AbortSignal now (s\<lparr> ls_driving := False, ls_driveAbort := False, ls_tail := False \<rparr>)"
    have "screen (finishRun op su p result [] [] now ?s) = screen ?s"
      using finish_screen [of op su p result "[]" "[]" now ?s] False by blast
    then show ?thesis using Driving False by (simp add: drive_ends_def Let_def screen_def)
  qed (use Driving in \<open>simp add: drive_ends_def Let_def screen_def\<close>)
qed (simp_all add: drive_ends_def)

lemma tail_screen:
  "took op s (tail_ends op su outcome program now s)
   \<and> (screen (tail_ends op su outcome program now s) \<noteq> screen s \<longrightarrow> may_show (TailEnds outcome program now) s)"
proof (cases "ls_task s")
  case (Tailing p result)
  let ?s = "recorder_hears FinishSignal now s"
  show ?thesis
    using finish_screen [of op su p result outcome program now ?s] Tailing by (auto simp: tail_ends_def took_def screen_def)
qed (simp_all add: tail_ends_def took_def)

lemma step_screen:
  "(screen (session_step op su e s) \<noteq> screen s \<longrightarrow> may_show e s)
   \<and> (e = Restore \<or> e = ClearBlock \<or> took op s (session_step op su e s))"
proof (cases e)
  case (RecorderHears ev now)
  then show ?thesis using took_hear [of op s su ev now] by auto
next
  case (StopCapture now)
  then show ?thesis
    using took_hear [of op s su FinishSignal now] took_hear [of op s su AbortSignal now]
    by (auto simp: stopCapture_def took_def screen_def)
next
  case (FileOpened opened)
  have "took op s (snd (openParsed op su r FromFile a (s\<lparr> ls_files := ls_files s - 1 \<rparr>)))" for r a
    using took_parsed [of op "s\<lparr> ls_files := ls_files s - 1 \<rparr>"] by (simp add: took_def screen_def)
  then show ?thesis using FileOpened by (auto simp: openRecording_def Let_def took_def screen_def split: sum.split prod.split option.split)
next
  case (UseRecording r)
  then show ?thesis using took_parsed by (auto simp: useRecording_def took_def)
next
  case (TailEnds outcome program now)
  then show ?thesis using tail_screen by auto
next
  case (StartCapture now)
  then show ?thesis using start_screen took_same by simp
next
  case (DriveEnds result now)
  then show ?thesis using drive_screen took_same by simp
next
  case (StartDrive plan now)
  then show ?thesis by (cases plan) (auto simp: startDriveCapture_def took_def screen_def)
next
  case (SaveAnswered i answer)
  then show ?thesis by (auto simp: save_answered_def Let_def took_def screen_def split: sum.split)
qed (auto simp: took_def screen_def pick_file_def)

definition changed_rightly :: "options \<Rightarrow> session_event \<Rightarrow> session \<Rightarrow> session \<Rightarrow> bool" where
  "changed_rightly op e s s' \<longleftrightarrow>
     may_show e s \<and> (case ls_recording s' of None \<Rightarrow> e = ClearBlock | Some r \<Rightarrow> lesson_takes op r \<or> (e = Restore \<and> \<not> op_applyOnRestore op))"

text \<open>
  C7: A lesson never judges a run that was stopped part-way, and a failed attempt never discards the recording on
  screen. In every reachable state and for every event: the recording on screen only changes when a recording
  made without driving ends, when the tail of a run ends that went as planned (reason 'done'), when a file that was
  asked for or a record of the robot is opened, on restoring or on clearing; and it changes only to a recording
  the lesson took, to the one restored for a lesson that keeps its own results, or to none by clearing.
\<close>

theorem only_whole_runs_shown:
  "let s = fold (session_step op su) es (createLiveSession su sg g); s' = session_step op su e s
   in if ls_recording s' = ls_recording s then True else changed_rightly op e s s'"
proof -
  define s where "s = fold (session_step op su) es (createLiveSession su sg g)"
  define s' where "s' = session_step op su e s"
  have "session_sound op su s" unfolding s_def by (rule session_always_sound)
  have "changed_rightly op e s s'" if changed: "ls_recording s' \<noteq> ls_recording s"
  proof -
    have screens: "screen s' \<noteq> screen s" using changed by (simp add: screen_def)
    then have may: "may_show e s" using step_screen [of op su e s] s'_def by simp
    consider "e = Restore" | "e = ClearBlock" | "took op s s'" using step_screen [of op su e s] s'_def by auto
    then show ?thesis
    proof cases
      case 1
      then show ?thesis
        using changed may unfolding s'_def
        by (auto simp: changed_rightly_def restore_def show_recording_cases split: option.splits if_splits)
    next
      case 2
      then show ?thesis using may unfolding s'_def by (simp add: changed_rightly_def clear_session_def)
    next
      case 3
      then obtain r where "lesson_takes op r" "ls_recording s' = Some r" using screens by (auto simp: took_def)
      then show ?thesis using may by (simp add: changed_rightly_def)
    qed
  qed
  then show ?thesis unfolding Let_def s_def [symmetric] s'_def [symmetric] by simp
qed

text \<open>
  A block always comes free again: whatever happened before, once the timer of the recorder, the end of the
  drive and the end of its tail have come, the block is not busy.
\<close>

theorem block_comes_free:
  "\<not> ls_busy (fold (session_step op su) (es @ [RecorderHears TimerEnds now, DriveEnds result now, TailEnds outcome program now])
       (createLiveSession su sg g))"
proof -
  let ?s = "fold (session_step op su) es (createLiveSession su sg g)"
  let ?step = "session_step op su"
  have shape: "session_shape (fold ?step es' (createLiveSession su sg g))" for es'
    using session_always_sound [of op su es' sg g] by (simp add: session_sound_def)
  have idle: "\<not> ls_busy s" if "session_shape s" "ls_task s = NoTask" for s using that by (simp add: session_shape_def)
  have after_timer: "ls_task (?step (RecorderHears TimerEnds now) s) \<noteq> Capturing" if "session_shape s" for s
    using that by (auto simp: session_shape_def hear_def Let_def recorder_pending_def recorder_hears_def recordRobot_def settle_done_def capture_settles_def
        idle_again_def split: task.splits option.splits promise.splits prod.splits)
  have after_drive: "(case ls_task (?step (DriveEnds result now) s) of NoTask \<Rightarrow> True | Tailing p r \<Rightarrow> True | _ \<Rightarrow> False)"
    if "ls_task s \<noteq> Capturing" for s
    using that by (auto simp: drive_ends_def Let_def split: task.split)
  have "ls_task (?step (TailEnds outcome program now) s) = NoTask"
    if "(case ls_task s of NoTask \<Rightarrow> True | Tailing p r \<Rightarrow> True | _ \<Rightarrow> False)" for s
    using that by (auto simp: tail_ends_def split: task.splits)
  then have "ls_task (fold ?step (es @ [RecorderHears TimerEnds now, DriveEnds result now, TailEnds outcome program now])
      (createLiveSession su sg g)) = NoTask"
    using after_drive [OF after_timer [OF shape [of es]]] by simp
  then show ?thesis using idle [OF shape] by blast
qed

end
