(* ===== verification/Gauss_Jordan.thy ===== *)
theory Gauss_Jordan
  imports Lab_Prelude
begin

text \<open>
  Gauss-Jordan elimination with partial pivoting, which three modules of the lab each write out: \<open>solveLinear\<close> of
  \<open>lab/js/slam/concepts-core.js\<close>, \<open>solve3\<close> of \<open>lab/js/slam/engine.js\<close> and \<open>solveMatrix\<close> of
  \<open>lab/js/slam/usb-slam-core.js\<close>. They differ in the size and in the smallest pivot they accept. An answer is the
  only solution of the system (locale \<open>linear_solver\<close>), hence the minimum of the weighted squares whose normal
  equations the system is.
\<close>

section \<open>The elimination\<close>

type_synonym matrix = "real list list"

text \<open>The row of the largest entry of column \<open>k\<close>; the first of equal ones.\<close>

fun best_pivot :: "matrix \<Rightarrow> nat \<Rightarrow> nat \<Rightarrow> nat list \<Rightarrow> nat" where
  "best_pivot rows k pivot [] = pivot"
| "best_pivot rows k pivot (i # is) =
     best_pivot rows k (if \<bar>rows ! i ! k\<bar> > \<bar>rows ! pivot ! k\<bar> then i else pivot) is"

definition swap_rows :: "nat \<Rightarrow> nat \<Rightarrow> matrix \<Rightarrow> matrix" where
  "swap_rows k pivot rows = rows[k := rows ! pivot, pivot := rows ! k]"

text \<open>The row divided by its pivot, and a row without its multiple, from column \<open>k\<close> on.\<close>

definition scaled :: "nat \<Rightarrow> nat \<Rightarrow> real list \<Rightarrow> real list" where
  "scaled n k r = map (\<lambda>j. if k \<le> j \<and> j \<le> n then r ! j / r ! k else r ! j) [0..<length r]"

definition cleared :: "nat \<Rightarrow> nat \<Rightarrow> real list \<Rightarrow> real list \<Rightarrow> real list" where
  "cleared n k p r = map (\<lambda>j. if k \<le> j \<and> j \<le> n then r ! j - r ! k * p ! j else r ! j) [0..<length r]"

definition eliminate_column :: "real \<Rightarrow> nat \<Rightarrow> nat \<Rightarrow> matrix \<Rightarrow> matrix option" where
  "eliminate_column tiny n k rows =
     (let rows = swap_rows k (best_pivot rows k k [Suc k..<n]) rows in
      if \<bar>rows ! k ! k\<bar> < tiny then None
      else
        let p = scaled n k (rows ! k)
        in Some (map (\<lambda>i. if i = k then p else if i < n then cleared n k p (rows ! i) else rows ! i) [0..<length rows]))"

fun eliminate :: "real \<Rightarrow> nat \<Rightarrow> nat list \<Rightarrow> matrix \<Rightarrow> matrix option" where
  "eliminate tiny n [] rows = Some rows"
| "eliminate tiny n (k # ks) rows = Option.bind (eliminate_column tiny n k rows) (eliminate tiny n ks)"

definition gauss_jordan :: "real \<Rightarrow> nat \<Rightarrow> matrix \<Rightarrow> real list \<Rightarrow> real list option" where
  "gauss_jordan tiny n matrix right =
     map_option (map (\<lambda>r. r ! n)) (eliminate tiny n [0..<n] (map2 (\<lambda>r b. r @ [b]) matrix right))"

section \<open>The modules' solvers\<close>

definition SINGULAR :: real where "SINGULAR = 1 / 10 ^ 12"

text \<open>\<open>None\<close> is the exception of \<open>solveLinear\<close> and the \<open>null\<close> of the other two.\<close>

definition solveLinear :: "matrix \<Rightarrow> real list \<Rightarrow> real list option" where
  "solveLinear matrix right = gauss_jordan SINGULAR (length right) matrix right"

definition solve3 :: "matrix \<Rightarrow> real list \<Rightarrow> real list option" where
  "solve3 matrix rhs = gauss_jordan (1 / 10 ^ 10) 3 matrix rhs"

definition solveMatrix :: "matrix \<Rightarrow> real list \<Rightarrow> real list option" where
  "solveMatrix a b = gauss_jordan (1 / 10 ^ 8) 3 a b"

section \<open>An answer is the only solution\<close>

definition square :: "nat \<Rightarrow> matrix \<Rightarrow> real list \<Rightarrow> bool" where
  "square n matrix right \<longleftrightarrow> length matrix = n \<and> length right = n \<and> (\<forall>r \<in> set matrix. length r = n)"

definition solves :: "matrix \<Rightarrow> real list \<Rightarrow> (nat \<Rightarrow> real) \<Rightarrow> bool" where
  "solves matrix right x \<longleftrightarrow> (\<forall>i < length right. (\<Sum>j<length right. matrix ! i ! j * x j) = right ! i)"

text \<open>A row of the extended matrix, and the matrices met during the elimination.\<close>

definition row_ok :: "nat \<Rightarrow> (nat \<Rightarrow> real) \<Rightarrow> real list \<Rightarrow> bool" where
  "row_ok n x r \<longleftrightarrow> (\<Sum>j<n. r ! j * x j) = r ! n"

definition rows_ok :: "nat \<Rightarrow> (nat \<Rightarrow> real) \<Rightarrow> matrix \<Rightarrow> bool" where
  "rows_ok n x rows \<longleftrightarrow> (\<forall>i<n. row_ok n x (rows ! i))"

definition extended :: "nat \<Rightarrow> matrix \<Rightarrow> bool" where
  "extended n rows \<longleftrightarrow> length rows = n \<and> (\<forall>i<n. length (rows ! i) = Suc n)"

definition solved_columns :: "nat \<Rightarrow> nat \<Rightarrow> matrix \<Rightarrow> bool" where
  "solved_columns n k rows \<longleftrightarrow> (\<forall>i<n. \<forall>j<k. rows ! i ! j = (if i = j then 1 else 0))"

lemma best_pivot_range: "k \<le> pivot \<Longrightarrow> pivot < n \<Longrightarrow> (\<forall>i \<in> set is. k \<le> i \<and> i < n) \<Longrightarrow>
    k \<le> best_pivot rows k pivot is \<and> best_pivot rows k pivot is < n"
  by (induction "is" arbitrary: pivot) auto

lemma best_pivot_largest: "\<bar>rows ! pivot ! k\<bar> \<le> \<bar>rows ! best_pivot rows k pivot is ! k\<bar>
    \<and> (\<forall>i \<in> set is. \<bar>rows ! i ! k\<bar> \<le> \<bar>rows ! best_pivot rows k pivot is ! k\<bar>)"
proof (induction "is" arbitrary: pivot)
  case (Cons i "is")
  show ?case using Cons.IH [of i] Cons.IH [of pivot] by (auto simp: not_less)
qed simp

lemma swap_rows_nth:
  "length rows = n \<Longrightarrow> k < n \<Longrightarrow> p < n \<Longrightarrow> i < n \<Longrightarrow>
   swap_rows k p rows ! i = rows ! (if i = p then k else if i = k then p else i)"
  by (simp add: swap_rows_def nth_list_update)

lemma swap_keeps:
  assumes "extended n rows" "k < n" "k \<le> p" "p < n"
  shows "extended n (swap_rows k p rows)" "rows_ok n x (swap_rows k p rows) \<longleftrightarrow> rows_ok n x rows"
    "solved_columns n k rows \<Longrightarrow> solved_columns n k (swap_rows k p rows)"
proof -
  have len: "length rows = n" using assms(1) by (simp add: extended_def)
  note at = swap_rows_nth [OF len assms(2) assms(4)]
  show "extended n (swap_rows k p rows)" using assms at by (simp add: extended_def swap_rows_def nth_list_update)
  have index: "(if i = p then k else if i = k then p else i) < n" if "i < n" for i using that assms by simp
  have from_swap: "row_ok n x (rows ! i)" if "rows_ok n x (swap_rows k p rows)" "i < n" for i
  proof -
    let ?i = "if i = p then k else if i = k then p else i"
    have "row_ok n x (swap_rows k p rows ! ?i)" using that index [OF that(2)] unfolding rows_ok_def by blast
    moreover have "swap_rows k p rows ! ?i = rows ! i" using at [OF index [OF that(2)]] by (simp split: if_splits)
    ultimately show ?thesis by simp
  qed
  have "row_ok n x (swap_rows k p rows ! i)" if "rows_ok n x rows" "i < n" for i
    using that index [OF that(2)] at [OF that(2)] unfolding rows_ok_def by simp
  then show "rows_ok n x (swap_rows k p rows) \<longleftrightarrow> rows_ok n x rows" using from_swap unfolding rows_ok_def by blast
  show "solved_columns n k (swap_rows k p rows)" if "solved_columns n k rows"
    unfolding solved_columns_def
  proof (intro allI impI)
    fix i j assume ij: "i < n" "j < k"
    have "rows ! k ! j = 0" "rows ! p ! j = 0" "rows ! i ! j = (if i = j then 1 else 0)"
      using that ij assms by (auto simp: solved_columns_def)
    then show "swap_rows k p rows ! i ! j = (if i = j then 1 else 0)" using at [OF ij(1)] ij assms by (auto split: if_splits)
  qed
qed

text \<open>With zeros before the pivot, the rows are divided and combined as a whole.\<close>

lemma scaled_nth: "length r = Suc n \<Longrightarrow> \<forall>j<k. r ! j = 0 \<Longrightarrow> j \<le> n \<Longrightarrow> scaled n k r ! j = r ! j / r ! k"
  by (auto simp: scaled_def nth_map_upt simp del: upt_Suc)

lemma cleared_nth:
  "length r = Suc n \<Longrightarrow> \<forall>j<k. p ! j = 0 \<Longrightarrow> j \<le> n \<Longrightarrow> cleared n k p r ! j = r ! j - r ! k * p ! j"
  by (auto simp: cleared_def nth_map_upt simp del: upt_Suc)

lemma scaled_ok: "length r = Suc n \<Longrightarrow> \<forall>j<k. r ! j = 0 \<Longrightarrow> r ! k \<noteq> 0 \<Longrightarrow> row_ok n x (scaled n k r) \<longleftrightarrow> row_ok n x r"
  by (simp add: row_ok_def scaled_nth sum_divide_distrib [symmetric])

lemma cleared_ok:
  assumes "length r = Suc n" "\<forall>j<k. p ! j = 0" "row_ok n x p"
  shows "row_ok n x (cleared n k p r) \<longleftrightarrow> row_ok n x r"
proof -
  have "(\<Sum>j<n. cleared n k p r ! j * x j) = (\<Sum>j<n. r ! j * x j) - r ! k * (\<Sum>j<n. p ! j * x j)"
    using assms by (simp add: cleared_nth left_diff_distrib sum_subtractf sum_distrib_left mult.assoc)
  then show ?thesis using assms by (simp add: row_ok_def cleared_nth)
qed

lemma column_eliminated:
  assumes ext: "extended n rows" and k: "k < n" and cols: "solved_columns n k rows" and tiny: "0 < tiny"
    and el: "eliminate_column tiny n k rows = Some rows'"
  shows "extended n rows' \<and> solved_columns n (Suc k) rows' \<and> (\<forall>x. rows_ok n x rows' \<longleftrightarrow> rows_ok n x rows)"
proof -
  define p where "p = best_pivot rows k k [Suc k..<n]"
  have p: "k \<le> p \<and> p < n" unfolding p_def using k by (intro best_pivot_range) auto
  define s where "s = swap_rows k p rows"
  have s_ext: "extended n s" and s_cols: "solved_columns n k s" and s_ok: "rows_ok n x s \<longleftrightarrow> rows_ok n x rows" for x
    unfolding s_def using swap_keeps [OF ext k] p cols by auto
  have len: "length s = n" and width: "length (s ! i) = Suc n" if "i < n" for i using s_ext that by (auto simp: extended_def)
  have zeros: "\<forall>j<k. s ! k ! j = 0" using s_cols k by (auto simp: solved_columns_def)
  have pivot: "s ! k ! k \<noteq> 0" and rows': "rows' = map (\<lambda>i. if i = k then scaled n k (s ! k) else if i < n
      then cleared n k (scaled n k (s ! k)) (s ! i) else s ! i) [0..<n]"
    using el tiny len [OF k] unfolding eliminate_column_def Let_def p_def [symmetric] s_def [symmetric] by (auto split: if_splits)
  have zeros': "\<forall>j<k. scaled n k (s ! k) ! j = 0" using zeros width [OF k] k by (simp add: scaled_nth)
  have at: "rows' ! i = (if i = k then scaled n k (s ! k) else cleared n k (scaled n k (s ! k)) (s ! i))" if "i < n" for i
    using that by (simp add: rows')
  have "extended n rows'" using width k at by (auto simp: extended_def rows' scaled_def cleared_def)
  moreover have "solved_columns n (Suc k) rows'"
    unfolding solved_columns_def
  proof (intro allI impI)
    fix i j assume ij: "i < n" "j < Suc k"
    have unit: "s ! i ! j = (if i = j then 1 else 0)" if "j < k" using s_cols ij that by (simp add: solved_columns_def)
    have j: "j \<le> n" using ij k by simp
    show "rows' ! i ! j = (if i = j then 1 else 0)"
    proof (cases "i = k")
      case True
      then show ?thesis using at [OF ij(1)] scaled_nth [OF width [OF k] zeros j] pivot zeros ij by (auto simp: less_Suc_eq)
    next
      case False
      then show ?thesis
        using at [OF ij(1)] cleared_nth [OF width [OF ij(1)] zeros' j] scaled_nth [OF width [OF k] zeros j] pivot zeros unit ij
        by (auto simp: less_Suc_eq)
    qed
  qed
  moreover have "rows_ok n x rows' \<longleftrightarrow> rows_ok n x rows" for x
  proof -
    have "row_ok n x (rows' ! k) \<longleftrightarrow> row_ok n x (s ! k)" using at [OF k] scaled_ok [OF width [OF k] zeros pivot] by simp
    moreover have "row_ok n x (rows' ! k) \<Longrightarrow> i < n \<Longrightarrow> i \<noteq> k \<Longrightarrow> row_ok n x (rows' ! i) \<longleftrightarrow> row_ok n x (s ! i)" for i
      using at [OF k] at [of i] cleared_ok [OF width zeros'] by simp
    ultimately have "rows_ok n x rows' \<longleftrightarrow> rows_ok n x s" using k unfolding rows_ok_def by metis
    then show ?thesis by (simp add: s_ok)
  qed
  ultimately show ?thesis by blast
qed

lemma eliminate_steps:
  assumes "extended n rows" "solved_columns n k rows" "0 < tiny" "k \<le> n" "eliminate tiny n [k..<n] rows = Some rows'"
  shows "extended n rows' \<and> solved_columns n n rows' \<and> (\<forall>x. rows_ok n x rows' \<longleftrightarrow> rows_ok n x rows)"
  using assms
proof (induction "n - k" arbitrary: k rows)
  case 0
  then show ?case by simp
next
  case (Suc d)
  then have "k < n" by simp
  then have "[k..<n] = k # [Suc k..<n]" by (rule upt_conv_Cons)
  then obtain rows1 where one: "eliminate_column tiny n k rows = Some rows1" "eliminate tiny n [Suc k..<n] rows1 = Some rows'"
    using Suc.prems(5) by (auto split: bind_splits)
  note c = column_eliminated [OF Suc.prems(1) \<open>k < n\<close> Suc.prems(2,3) one(1)]
  have "extended n rows' \<and> solved_columns n n rows' \<and> (\<forall>x. rows_ok n x rows' \<longleftrightarrow> rows_ok n x rows1)"
    using Suc.hyps(1) [of "Suc k" rows1] Suc.hyps(2) c Suc.prems(3) \<open>k < n\<close> one(2) by simp
  then show ?case using c by simp
qed

lemma gauss_jordan_solution:
  assumes sq: "square n matrix right" and tiny: "0 < tiny" and ans: "gauss_jordan tiny n matrix right = Some x"
  shows "length x = n \<and> (\<forall>y. solves matrix right y \<longleftrightarrow> (\<forall>i<n. y i = x ! i))"
proof -
  let ?rows = "map2 (\<lambda>r b. r @ [b]) matrix right"
  obtain rows where rows: "eliminate tiny n [0..<n] ?rows = Some rows" "x = map (\<lambda>r. r ! n) rows"
    using ans by (auto simp: gauss_jordan_def)
  have width: "length (matrix ! i) = n" if "i < n" for i using sq that by (simp add: square_def)
  have len: "length matrix = n" "length right = n" using sq by (simp_all add: square_def)
  have "extended n ?rows" "solved_columns n 0 ?rows" using len width by (simp_all add: extended_def solved_columns_def)
  then have end_: "extended n rows" "solved_columns n n rows" "rows_ok n y rows \<longleftrightarrow> rows_ok n y ?rows" for y
    using eliminate_steps [OF _ _ tiny _ rows(1)] by auto
  have "rows_ok n y ?rows \<longleftrightarrow> solves matrix right y" for y
    using len width by (simp add: rows_ok_def row_ok_def solves_def nth_append)
  moreover have "rows_ok n y rows \<longleftrightarrow> (\<forall>i<n. y i = x ! i)" for y
  proof -
    have "(\<Sum>j<n. rows ! i ! j * y j) = y i" if "i < n" for i
    proof -
      have "(\<Sum>j<n. rows ! i ! j * y j) = (\<Sum>j<n. if i = j then y j else 0)"
        using end_(2) that by (intro sum.cong) (auto simp: solved_columns_def)
      then show ?thesis using that by simp
    qed
    then show ?thesis using rows(2) end_(1) by (simp add: rows_ok_def row_ok_def extended_def)
  qed
  ultimately show ?thesis using end_ rows(2) by (simp add: extended_def)
qed

section \<open>Least squares\<close>

text \<open>A term of a least-squares problem: its weight, its coefficients and the value they should give.\<close>

type_synonym lsq_term = "real \<times> (nat \<Rightarrow> real) \<times> real"

definition lsq_error :: "nat \<Rightarrow> (nat \<Rightarrow> real) \<Rightarrow> lsq_term \<Rightarrow> real" where
  "lsq_error n y t = (case t of (w, a, b) \<Rightarrow> (\<Sum>j<n. a j * y j) - b)"

definition lsq_cost :: "nat \<Rightarrow> lsq_term list \<Rightarrow> (nat \<Rightarrow> real) \<Rightarrow> real" where
  "lsq_cost n ts y = sum_list (map (\<lambda>t. fst t * (lsq_error n y t)\<^sup>2) ts)"

definition normal_entry :: "lsq_term list \<Rightarrow> nat \<Rightarrow> nat \<Rightarrow> real" where
  "normal_entry ts i j = sum_list (map (\<lambda>(w, a, b). w * a i * a j) ts)"

definition normal_right :: "lsq_term list \<Rightarrow> nat \<Rightarrow> real" where
  "normal_right ts i = sum_list (map (\<lambda>(w, a, b). w * a i * b) ts)"

definition normal_system :: "lsq_term list \<Rightarrow> matrix \<Rightarrow> real list \<Rightarrow> bool" where
  "normal_system ts matrix right \<longleftrightarrow>
     (\<forall>i < length right. right ! i = normal_right ts i \<and> (\<forall>j < length right. matrix ! i ! j = normal_entry ts i j))"

lemma cross_terms:
  "sum_list (map (\<lambda>(w, a, b). w * (\<Sum>i<n. a i * d i) * ((\<Sum>j<n. a j * x j) - b)) ts)
   = (\<Sum>i<n. d i * ((\<Sum>j<n. normal_entry ts i j * x j) - normal_right ts i))"
proof (induction ts)
  case (Cons t ts)
  obtain w a b where t: "t = (w, a, b)" by (cases t)
  have "w * (\<Sum>i<n. a i * d i) * ((\<Sum>j<n. a j * x j) - b) = (\<Sum>i<n. d i * (w * a i * ((\<Sum>j<n. a j * x j) - b)))"
    by (simp add: sum_distrib_left sum_distrib_right mult_ac)
  moreover have "(\<Sum>j<n. normal_entry (t # ts) i j * x j) = w * a i * (\<Sum>j<n. a j * x j) + (\<Sum>j<n. normal_entry ts i j * x j)" for i
  proof -
    have "normal_entry (t # ts) i j = w * a i * a j + normal_entry ts i j" for j by (simp add: t normal_entry_def)
    then show ?thesis by (simp add: distrib_right sum.distrib sum_distrib_left mult.assoc)
  qed
  moreover have "normal_right (t # ts) i = w * a i * b + normal_right ts i" for i by (simp add: t normal_right_def)
  ultimately show ?case using Cons.IH by (simp add: t algebra_simps sum.distrib sum_subtractf)
qed (simp add: normal_entry_def normal_right_def)

lemma cost_of_other:
  "lsq_cost n ts y = lsq_cost n ts x
     + sum_list (map (\<lambda>(w, a, b). w * (\<Sum>i<n. a i * (y i - x i))\<^sup>2) ts)
     + 2 * sum_list (map (\<lambda>(w, a, b). w * (\<Sum>i<n. a i * (y i - x i)) * ((\<Sum>j<n. a j * x j) - b)) ts)"
proof (induction ts)
  case (Cons t ts)
  obtain w a b where t: "t = (w, a, b)" by (cases t)
  have "(\<Sum>j<n. a j * y j) - b = (\<Sum>i<n. a i * (y i - x i)) + ((\<Sum>j<n. a j * x j) - b)"
    by (simp add: right_diff_distrib sum_subtractf)
  then show ?case using Cons.IH by (simp add: t lsq_cost_def lsq_error_def power2_eq_square algebra_simps)
qed (simp add: lsq_cost_def)

lemma normal_equations_minimise:
  assumes sys: "normal_system ts matrix right" and x: "solves matrix right x" and w: "list_all (\<lambda>t. 0 \<le> fst t) ts"
  shows "lsq_cost (length right) ts x \<le> lsq_cost (length right) ts y"
proof -
  let ?n = "length right"
  have "(\<Sum>j<?n. normal_entry ts i j * x j) - normal_right ts i = 0" if "i < ?n" for i
    using sys x that by (simp add: normal_system_def solves_def)
  then have "sum_list (map (\<lambda>(w, a, b). w * (\<Sum>i<?n. a i * (y i - x i)) * ((\<Sum>j<?n. a j * x j) - b)) ts) = 0"
    by (simp add: cross_terms)
  moreover have "0 \<le> sum_list (map (\<lambda>(w, a, b). w * (\<Sum>i<?n. a i * (y i - x i))\<^sup>2) ts)"
    using w by (intro sum_list_nonneg) (auto simp: list_all_iff)
  ultimately show ?thesis using cost_of_other [of ?n ts y x] by simp
qed

section \<open>The interface\<close>

text \<open>What the modules rely on: an answer is a solution, and there is no other.\<close>

locale linear_solver =
  fixes solver :: "matrix \<Rightarrow> real list \<Rightarrow> real list option" and fits :: "nat \<Rightarrow> bool"
  assumes answer: "square (length right) matrix right \<Longrightarrow> fits (length right) \<Longrightarrow> solver matrix right = Some x \<Longrightarrow>
    length x = length right \<and> (\<forall>y. solves matrix right y \<longleftrightarrow> (\<forall>i < length right. y i = x ! i))"
begin

lemma answer_solves:
  "square (length right) matrix right \<Longrightarrow> fits (length right) \<Longrightarrow> solver matrix right = Some x \<Longrightarrow> solves matrix right ((!) x)"
  using answer by blast

lemma answer_unique:
  "square (length right) matrix right \<Longrightarrow> fits (length right) \<Longrightarrow> solver matrix right = Some x \<Longrightarrow> solves matrix right ((!) y) \<Longrightarrow>
   length y = length right \<Longrightarrow> y = x"
  using answer [of right matrix x] by (metis nth_equalityI)

lemma answer_minimises:
  assumes "square (length right) matrix right" "fits (length right)" "solver matrix right = Some x"
    and "normal_system ts matrix right" "list_all (\<lambda>t. 0 \<le> fst t) ts"
  shows "lsq_cost (length right) ts ((!) x) \<le> lsq_cost (length right) ts y"
  using normal_equations_minimise [OF assms(4) answer_solves [OF assms(1-3)] assms(5)] .

end

lemma solution_at:
  "square (length right) matrix right \<Longrightarrow> n = length right \<Longrightarrow> 0 < tiny \<Longrightarrow> gauss_jordan tiny n matrix right = Some x \<Longrightarrow>
   length x = length right \<and> (\<forall>y. solves matrix right y \<longleftrightarrow> (\<forall>i < length right. y i = x ! i))"
  using gauss_jordan_solution by blast

interpretation any_size: linear_solver solveLinear "\<lambda>n. True"
  by unfold_locales (rule solution_at [where tiny = SINGULAR], simp_all add: solveLinear_def SINGULAR_def)

interpretation icp_step: linear_solver solve3 "\<lambda>n. n = 3"
  by unfold_locales (rule solution_at [where tiny = "1 / 10 ^ 10" and n = 3], simp_all add: solve3_def)

interpretation icp_step_usb: linear_solver solveMatrix "\<lambda>n. n = 3"
  by unfold_locales (rule solution_at [where tiny = "1 / 10 ^ 8" and n = 3], simp_all add: solveMatrix_def)

text \<open>
  The elimination is right: when \<open>solveLinear\<close> answers for a square system, its answer has a value for every unknown,
  satisfies every equation, and no other assignment does; in particular a system with several solutions is never
  answered.
\<close>

theorem solution_is_unique:
  "case solveLinear matrix right of
     None \<Rightarrow> True
   | Some x \<Rightarrow> if square (length right) matrix right
       then length x = length right \<and> (\<forall>y. solves matrix right y \<longleftrightarrow> (\<forall>i < length right. y i = x ! i)) else True"
  using any_size.answer by (auto split: option.split)

end
