(* ===== verification/Slam_Concepts.thy ===== *)
theory Slam_Concepts
  imports Js_Math Gauss_Jordan
begin

text \<open>
  The concept chapters of the SLAM course, \<open>lab/js/slam/concepts-core.js\<close>: coordinate frames, the simulated LiDAR,
  occupancy mapping, localization on a known map, and the translation-only pose graph. A point is a pair; an
  exception of the solver is \<open>None\<close>.
\<close>

section \<open>Frames\<close>

type_synonym point = "real \<times> real"

record pose =
  po_x :: real
  po_y :: real
  po_theta :: real

definition pointInWorld :: "point \<Rightarrow> pose \<Rightarrow> point" where
  "pointInWorld p pose =
     (po_x pose + cos (po_theta pose) * fst p - sin (po_theta pose) * snd p,
      po_y pose + sin (po_theta pose) * fst p + cos (po_theta pose) * snd p)"

definition pointInRobot :: "point \<Rightarrow> pose \<Rightarrow> point" where
  "pointInRobot p pose =
     (let dx = fst p - po_x pose; dy = snd p - po_y pose; c = cos (po_theta pose); s = sin (po_theta pose)
      in (c * dx + s * dy, - s * dx + c * dy))"

section \<open>The simulated LiDAR\<close>

definition PARALLEL :: real where "PARALLEL = 1 / 10 ^ 9"
definition ON_SEGMENT :: real where "ON_SEGMENT = 1 / 10 ^ 9"
definition AHEAD :: real where "AHEAD = 1 / 10 ^ 6"

record box =
  bx_x :: real
  bx_y :: real
  bx_w :: real
  bx_h :: real

record room =
  rm_width :: real
  rm_height :: real
  rm_obstacles :: "box list"

type_synonym segment = "real \<times> real \<times> real \<times> real"

definition box_segments :: "box \<Rightarrow> segment list" where
  "box_segments b =
     (let left = bx_x b; bottom = bx_y b; right = bx_x b + bx_w b; upper = bx_y b + bx_h b
      in [(left, bottom, right, bottom), (right, bottom, right, upper), (right, upper, left, upper), (left, upper, left, bottom)])"

definition roomSegments :: "room \<Rightarrow> segment list" where
  "roomSegments scene =
     [(0, 0, rm_width scene, 0), (rm_width scene, 0, rm_width scene, rm_height scene),
      (rm_width scene, rm_height scene, 0, rm_height scene), (0, rm_height scene, 0, 0)]
     @ concat (map box_segments (rm_obstacles scene))"

record reading =
  rd_a :: real
  rd_range :: real
  rd_hit :: bool

text \<open>Where a beam meets a wall: metres along the beam, and the part of the wall.\<close>

definition meets :: "point \<Rightarrow> point \<Rightarrow> segment \<Rightarrow> (real \<times> real) option" where
  "meets p d wall =
     (case wall of (x1, y1, x2, y2) \<Rightarrow>
        let wallX = x2 - x1; wallY = y2 - y1; denominator = fst d * wallY - snd d * wallX in
        if \<bar>denominator\<bar> < PARALLEL then None
        else let toWallX = x1 - fst p; toWallY = y1 - snd p
          in Some ((toWallX * wallY - toWallY * wallX) / denominator, (toWallX * snd d - toWallY * fst d) / denominator))"

definition on_wall :: "real \<Rightarrow> bool" where
  "on_wall across \<longleftrightarrow> across \<ge> - ON_SEGMENT \<and> across \<le> 1 + ON_SEGMENT"

definition beam_step :: "point \<Rightarrow> point \<Rightarrow> segment \<Rightarrow> real \<times> bool \<Rightarrow> real \<times> bool" where
  "beam_step p d wall best =
     (case meets p d wall of
        None \<Rightarrow> best
      | Some (along, across) \<Rightarrow> if along > AHEAD \<and> along < fst best \<and> on_wall across then (along, True) else best)"

definition beam :: "room \<Rightarrow> pose \<Rightarrow> real \<Rightarrow> real \<Rightarrow> reading" where
  "beam scene pose rangeMax a =
     (let best = fold (beam_step (po_x pose, po_y pose) (cos (po_theta pose + a), sin (po_theta pose + a))) (roomSegments scene) (rangeMax, False)
      in \<lparr> rd_a = a, rd_range = fst best, rd_hit = snd best \<rparr>)"

definition measureRoom :: "room \<Rightarrow> pose \<Rightarrow> nat \<Rightarrow> real \<Rightarrow> reading list" where
  "measureRoom scene pose n rangeMax = map (\<lambda>k. beam scene pose rangeMax (real k * pi * 2 / real n)) [0..<n]"

definition MAPPING_ROOM :: room where
  "MAPPING_ROOM = \<lparr> rm_width = 48 / 10, rm_height = 32 / 10, rm_obstacles = [\<lparr> bx_x = 2, bx_y = 1, bx_w = 6 / 10, bx_h = 12 / 10 \<rparr>] \<rparr>"

definition MAPPING_POSES :: "pose list" where
  "MAPPING_POSES =
     [\<lparr> po_x = 7 / 10, po_y = 7 / 10, po_theta = 0 \<rparr>, \<lparr> po_x = 41 / 10, po_y = 7 / 10, po_theta = pi / 2 \<rparr>,
      \<lparr> po_x = 41 / 10, po_y = 26 / 10, po_theta = pi \<rparr>, \<lparr> po_x = 7 / 10, po_y = 26 / 10, po_theta = - pi / 2 \<rparr>]"

section \<open>Occupancy\<close>

definition FREE_VOTE :: real where "FREE_VOTE = - (7 / 10)"
definition OCCUPIED_VOTE :: real where "OCCUPIED_VOTE = 12 / 10"
definition VOTE_FLOOR :: real where "VOTE_FLOOR = - 4"
definition VOTE_CEILING :: real where "VOTE_CEILING = 4"
definition OCCUPIED_ABOVE :: real where "OCCUPIED_ABOVE = 4 / 10"
definition FREE_BELOW :: real where "FREE_BELOW = - (3 / 10)"
definition SAMPLES_PER_CELL :: real where "SAMPLES_PER_CELL = 4"

datatype cell_kind = Unknown | Occupied | Free | Uncertain

definition cellType :: "bool \<Rightarrow> real \<Rightarrow> cell_kind" where
  "cellType measured score =
     (if \<not> measured then Unknown else if score > OCCUPIED_ABOVE then Occupied else if score < FREE_BELOW then Free else Uncertain)"

record scan_frame =
  sf_pose :: pose
  sf_scan :: "reading list"

record cell_grid =
  cg_width :: real
  cg_height :: real
  cg_resolution :: real

definition columns :: "cell_grid \<Rightarrow> nat" where "columns g = nat \<lceil>cg_width g / cg_resolution g\<rceil>"
definition rows :: "cell_grid \<Rightarrow> nat" where "rows g = nat \<lceil>cg_height g / cg_resolution g\<rceil>"

definition clamp_cell :: "cell_grid \<Rightarrow> real \<Rightarrow> nat \<Rightarrow> nat" where
  "clamp_cell g metres cells = nat (max 0 (min (int cells - 1) \<lfloor>metres / cg_resolution g\<rfloor>))"

definition cellAt :: "cell_grid \<Rightarrow> real \<Rightarrow> real \<Rightarrow> nat" where
  "cellAt g x y = clamp_cell g y (rows g) * columns g + clamp_cell g x (columns g)"

definition ray_cell :: "cell_grid \<Rightarrow> pose \<Rightarrow> reading \<Rightarrow> real \<Rightarrow> nat" where
  "ray_cell g pose ray travelled =
     cellAt g (po_x pose + travelled * cos (po_theta pose + rd_a ray)) (po_y pose + travelled * sin (po_theta pose + rd_a ray))"

text \<open>The distances a beam is walked at.\<close>

definition walk :: "cell_grid \<Rightarrow> reading \<Rightarrow> real list" where
  "walk g ray =
     (let pace = cg_resolution g / SAMPLES_PER_CELL in map (\<lambda>k. real k * pace) [0..<nat \<lceil>rd_range ray / pace\<rceil>])"

text \<open>The cells a beam crosses, and the one it ends in.\<close>

definition crossed :: "cell_grid \<Rightarrow> pose \<Rightarrow> reading \<Rightarrow> nat list" where
  "crossed g pose ray =
     filter (\<lambda>c. \<not> rd_hit ray \<or> c \<noteq> ray_cell g pose ray (rd_range ray)) (map (ray_cell g pose ray) (walk g ray))"

definition set_add :: "nat \<Rightarrow> nat list \<Rightarrow> nat list" where
  "set_add c cs = (if c \<in> set cs then cs else cs @ [c])"

definition free_cells :: "cell_grid \<Rightarrow> scan_frame \<Rightarrow> nat list" where
  "free_cells g f = fold (\<lambda>ray cs. fold set_add (crossed g (sf_pose f) ray) cs) (sf_scan f) []"

definition occupied_cells :: "cell_grid \<Rightarrow> scan_frame \<Rightarrow> nat list" where
  "occupied_cells g f =
     fold (\<lambda>ray cs. if rd_hit ray then set_add (ray_cell g (sf_pose f) ray (rd_range ray)) cs else cs) (sf_scan f) []"

record evidence =
  ev_score :: "real list"
  ev_measured :: "bool list"

definition vote_free :: "nat \<Rightarrow> evidence \<Rightarrow> evidence" where
  "vote_free c e =
     e\<lparr> ev_measured := (ev_measured e)[c := True], ev_score := (ev_score e)[c := max VOTE_FLOOR (ev_score e ! c + FREE_VOTE)] \<rparr>"

definition vote_occupied :: "nat \<Rightarrow> evidence \<Rightarrow> evidence" where
  "vote_occupied c e =
     e\<lparr> ev_measured := (ev_measured e)[c := True], ev_score := (ev_score e)[c := min VOTE_CEILING (ev_score e ! c + OCCUPIED_VOTE)] \<rparr>"

definition frame_votes :: "cell_grid \<Rightarrow> scan_frame \<Rightarrow> evidence \<Rightarrow> evidence" where
  "frame_votes g f e =
     (let occupied = occupied_cells g f
      in fold vote_occupied occupied (fold (\<lambda>c e. if c \<in> set occupied then e else vote_free c e) (free_cells g f) e))"

record occupancy =
  oc_w :: nat
  oc_h :: nat
  oc_resolution :: real
  oc_cells :: "cell_kind list"
  oc_known :: nat
  oc_total :: nat

definition occupancyFromScans :: "scan_frame list \<Rightarrow> cell_grid \<Rightarrow> occupancy" where
  "occupancyFromScans frames g =
     (let n = columns g * rows g;
          e = fold (frame_votes g) frames \<lparr> ev_score = replicate n 0, ev_measured = replicate n False \<rparr>;
          cells = map2 cellType (ev_measured e) (ev_score e)
      in \<lparr> oc_w = columns g, oc_h = rows g, oc_resolution = cg_resolution g, oc_cells = cells,
           oc_known = length (filter (\<lambda>c. c = Occupied \<or> c = Free) cells), oc_total = length cells \<rparr>)"

section \<open>Localization on a known map\<close>

definition localizationRoom :: "bool \<Rightarrow> room" where
  "localizationRoom feature =
     \<lparr> rm_width = 8, rm_height = 24 / 10,
       rm_obstacles = (if feature then [\<lparr> bx_x = 46 / 10, bx_y = 15 / 100, bx_w = 35 / 100, bx_h = 7 / 10 \<rparr>] else []) \<rparr>"

definition rangeMismatch :: "reading list \<Rightarrow> reading list \<Rightarrow> real" where
  "rangeMismatch observed predicted =
     sqrt (sum_list (map2 (\<lambda>o' p. (rd_range o' - rd_range p)\<^sup>2) observed predicted) / real (length observed))"

definition FIRST_CANDIDATE :: real where "FIRST_CANDIDATE = 7 / 10"
definition CANDIDATE_STEP :: real where "CANDIDATE_STEP = 1 / 10"
definition CANDIDATE_COUNT :: nat where "CANDIDATE_COUNT = 67"
definition PLAUSIBLE_BAND :: real where "PLAUSIBLE_BAND = 18 / 1000"

record candidate =
  ca_x :: real
  ca_error :: real

record localization =
  lo_candidates :: "candidate list"
  lo_best :: real
  lo_plausible :: "candidate list"

definition candidate_x :: "nat \<Rightarrow> real" where
  "candidate_x k = FIRST_CANDIDATE + real k * CANDIDATE_STEP"

definition candidate_at :: "reading list \<Rightarrow> room \<Rightarrow> real \<Rightarrow> real \<Rightarrow> real \<Rightarrow> nat \<Rightarrow> candidate" where
  "candidate_at observed scene y theta rangeMax k =
     \<lparr> ca_x = candidate_x k,
       ca_error = rangeMismatch observed
         (measureRoom scene \<lparr> po_x = candidate_x k, po_y = y, po_theta = theta \<rparr> (length observed) rangeMax) \<rparr>"

definition localizeOnKnownMap :: "reading list \<Rightarrow> room \<Rightarrow> real \<Rightarrow> real \<Rightarrow> real \<Rightarrow> localization" where
  "localizeOnKnownMap observed scene y theta rangeMax =
     (let candidates = map (candidate_at observed scene y theta rangeMax) [0..<CANDIDATE_COUNT];
          best = Min (set (map ca_error candidates))
      in \<lparr> lo_candidates = candidates, lo_best = best,
           lo_plausible = filter (\<lambda>c. ca_error c < best + PLAUSIBLE_BAND) candidates \<rparr>)"

section \<open>The pose graph\<close>

record graph_edge =
  ge_from :: nat
  ge_to :: nat
  ge_dx :: real
  ge_dy :: real
  ge_weight :: real

text \<open>\<open>edge.weight || 1\<close>: a weight of 0 counts as 1.\<close>

definition edge_weight :: "graph_edge \<Rightarrow> real" where
  "edge_weight e = (if ge_weight e = 0 then 1 else ge_weight e)"

text \<open>The fixed first pose is not an unknown, so it drops out of the equations.\<close>

definition edge_terms :: "graph_edge \<Rightarrow> (nat \<times> real) list" where
  "edge_terms e = filter (\<lambda>(node, sign). node > 0) [(ge_from e, - 1), (ge_to e, 1)]"

record equations =
  eq_matrix :: matrix
  eq_rightX :: "real list"
  eq_rightY :: "real list"

definition add_entry :: "nat \<Rightarrow> nat \<Rightarrow> real \<Rightarrow> matrix \<Rightarrow> matrix" where
  "add_entry i j v m = m[i := (m ! i)[j := m ! i ! j + v]]"

definition add_right :: "nat \<Rightarrow> real \<Rightarrow> real list \<Rightarrow> real list" where
  "add_right i v r = r[i := r ! i + v]"

definition add_term :: "graph_edge \<Rightarrow> nat \<times> real \<Rightarrow> equations \<Rightarrow> equations" where
  "add_term e t q =
     (case t of (node, sign) \<Rightarrow>
        q\<lparr> eq_matrix := fold (\<lambda>(other, otherSign). add_entry (node - 1) (other - 1) (edge_weight e * sign * otherSign)) (edge_terms e) (eq_matrix q),
           eq_rightX := add_right (node - 1) (edge_weight e * sign * ge_dx e) (eq_rightX q),
           eq_rightY := add_right (node - 1) (edge_weight e * sign * ge_dy e) (eq_rightY q) \<rparr>)"

definition add_edge :: "graph_edge \<Rightarrow> equations \<Rightarrow> equations" where
  "add_edge e q = fold (add_term e) (edge_terms e) q"

definition graph_equations :: "nat \<Rightarrow> graph_edge list \<Rightarrow> equations" where
  "graph_equations unknowns edges =
     fold add_edge edges
       \<lparr> eq_matrix = replicate unknowns (replicate unknowns 0), eq_rightX = replicate unknowns 0, eq_rightY = replicate unknowns 0 \<rparr>"

definition poseGraphOptimize :: "nat \<Rightarrow> graph_edge list \<Rightarrow> point list option" where
  "poseGraphOptimize n edges =
     (if n = 0 then None
      else
        let q = graph_equations (n - 1) edges in
        case solveLinear (eq_matrix q) (eq_rightX q) of
          None \<Rightarrow> None
        | Some x \<Rightarrow> (case solveLinear (eq_matrix q) (eq_rightY q) of None \<Rightarrow> None | Some y \<Rightarrow> Some ((0, 0) # zip x y)))"

section \<open>Closing a lap\<close>

definition LAP_CORNERS :: "point list" where
  "LAP_CORNERS = [(0, 0), (1, 0), (2, 0), (3, 0), (3, 1), (3, 2), (2, 2), (1, 2), (0, 2), (0, 1), (0, 0)]"

definition LAP_STEP :: real where "LAP_STEP = 8 / 10"
definition LAP_DRIFT :: point where "LAP_DRIFT = (4 / 100, 25 / 1000)"
definition LAP_OFFSET :: real where "LAP_OFFSET = 8 / 10"
definition LAP_SCAN_RAYS :: nat where "LAP_SCAN_RAYS = 60"
definition LAP_SCAN_RANGE :: real where "LAP_SCAN_RANGE = 5"

record lap_fixture =
  lf_edges :: "graph_edge list"
  lf_before :: "point list"
  lf_scans :: "reading list list"

definition lap_reference :: "point list" where
  "lap_reference = map (\<lambda>(x, y). (x * LAP_STEP, y * LAP_STEP)) LAP_CORNERS"

definition lap_edge :: "nat \<Rightarrow> graph_edge" where
  "lap_edge i =
     \<lparr> ge_from = i, ge_to = i + 1,
       ge_dx = fst (lap_reference ! (i + 1)) - fst (lap_reference ! i) + fst LAP_DRIFT,
       ge_dy = snd (lap_reference ! (i + 1)) - snd (lap_reference ! i) + snd LAP_DRIFT, ge_weight = 1 \<rparr>"

definition moved_by :: "graph_edge \<Rightarrow> point list \<Rightarrow> point list" where
  "moved_by e before = before @ [(fst (last before) + ge_dx e, snd (last before) + ge_dy e)]"

definition loopFixture :: lap_fixture where
  "loopFixture =
     (let edges = map lap_edge [0..<length lap_reference - 1]
      in \<lparr> lf_edges = edges, lf_before = fold moved_by edges [(0, 0)],
           lf_scans = map (\<lambda>(x, y). measureRoom MAPPING_ROOM \<lparr> po_x = x + LAP_OFFSET, po_y = y + LAP_OFFSET, po_theta = 0 \<rparr>
             LAP_SCAN_RAYS LAP_SCAN_RANGE) lap_reference \<rparr>)"

definition CLOSURE_WEIGHT :: real where "CLOSURE_WEIGHT = 30"

record lap_closed =
  lc_after :: "point list"
  lc_moveResidual :: real
  lc_gap :: real

definition edge_square :: "point list \<Rightarrow> graph_edge \<Rightarrow> real" where
  "edge_square after e =
     (fst (after ! ge_to e) - fst (after ! ge_from e) - ge_dx e)\<^sup>2 + (snd (after ! ge_to e) - snd (after ! ge_from e) - ge_dy e)\<^sup>2"

definition closure_edge :: "lap_fixture \<Rightarrow> nat \<Rightarrow> real \<Rightarrow> graph_edge" where
  "closure_edge fixture matchNode weight =
     \<lparr> ge_from = matchNode, ge_to = length (lf_before fixture) - 1, ge_dx = 0, ge_dy = 0, ge_weight = weight \<rparr>"

definition closeLoop :: "lap_fixture \<Rightarrow> nat \<Rightarrow> real \<Rightarrow> lap_closed option" where
  "closeLoop fixture matchNode weight =
     (let final = length (lf_before fixture) - 1 in
      map_option
        (\<lambda>after. \<lparr> lc_after = after,
           lc_moveResidual = sqrt (sum_list (map (edge_square after) (lf_edges fixture)) / real (length (lf_edges fixture))),
           lc_gap = hypot (fst (after ! final) - fst (after ! matchNode)) (snd (after ! final) - snd (after ! matchNode)) \<rparr>)
        (poseGraphOptimize (final + 1) (lf_edges fixture @ [closure_edge fixture matchNode weight])))"

section \<open>Frames are inverse to each other\<close>

theorem frames_are_inverse:
  "pointInRobot (pointInWorld p pose) pose = p \<and> pointInWorld (pointInRobot p pose) pose = p"
proof -
  have unit: "c * (c * a) + s * (s * a) = a" if "c\<^sup>2 + s\<^sup>2 = 1" for a c s :: real
  proof -
    have "c * (c * a) + s * (s * a) = (c\<^sup>2 + s\<^sup>2) * a" by (simp add: power2_eq_square algebra_simps)
    then show ?thesis using that by simp
  qed
  have one: "(cos (po_theta pose))\<^sup>2 + (sin (po_theta pose))\<^sup>2 = 1" by simp
  show ?thesis
    using unit [OF one, of "fst p"] unit [OF one, of "snd p"] unit [OF one, of "fst p - po_x pose"] unit [OF one, of "snd p - po_y pose"]
    by (simp add: pointInRobot_def pointInWorld_def Let_def prod_eq_iff algebra_simps)
qed

section \<open>A beam ends at the first wall\<close>

text \<open>A wall a beam meets ahead of it, and how far away.\<close>

definition wall_ahead :: "point \<Rightarrow> point \<Rightarrow> segment \<Rightarrow> real option" where
  "wall_ahead p d wall =
     (case meets p d wall of None \<Rightarrow> None | Some (along, across) \<Rightarrow> if along > AHEAD \<and> on_wall across then Some along else None)"

lemma meets_point:
  assumes "meets p d (x1, y1, x2, y2) = Some (along, across)"
  shows "(fst p + along * fst d, snd p + along * snd d) = (x1 + across * (x2 - x1), y1 + across * (y2 - y1))"
proof -
  let ?n = "fst d * (y2 - y1) - snd d * (x2 - x1)"
  have n: "?n \<noteq> 0" and along: "along * ?n = (x1 - fst p) * (y2 - y1) - (y1 - snd p) * (x2 - x1)"
    and across: "across * ?n = (x1 - fst p) * snd d - (y1 - snd p) * fst d"
    using assms by (auto simp: meets_def Let_def PARALLEL_def split: if_splits)
  have "?n * (fst p + along * fst d - (x1 + across * (x2 - x1))) = 0"
    using along across by algebra
  moreover have "?n * (snd p + along * snd d - (y1 + across * (y2 - y1))) = 0"
    using along across by algebra
  ultimately show ?thesis using n by simp
qed

lemma beam_fold:
  "fold (beam_step p d) walls (r, hit) =
     (Min (insert r (set (List.map_filter (wall_ahead p d) walls))),
      hit \<or> list_ex (\<lambda>w. case wall_ahead p d w of None \<Rightarrow> False | Some v \<Rightarrow> v < r) walls)"
proof (induction walls arbitrary: r hit)
  case (Cons w walls)
  have fin: "finite (set (List.map_filter (wall_ahead p d) walls))" by simp
  have step: "beam_step p d w (r, hit) = (case wall_ahead p d w of None \<Rightarrow> (r, hit) | Some v \<Rightarrow> if v < r then (v, True) else (r, hit))"
    by (auto simp: beam_step_def wall_ahead_def split: option.split)
  show ?case
  proof (cases "wall_ahead p d w")
    case None
    then show ?thesis using Cons.IH [of r hit] by (simp add: step List.map_filter_simps)
  next
    case (Some v)
    let ?m = "set (List.map_filter (wall_ahead p d) walls)"
    have "Min (insert r (insert v ?m)) = (if v < r then Min (insert v ?m) else Min (insert r ?m))"
      using fin by (cases "?m = {}") (auto simp: min_def insert_commute)
    moreover have "list_ex (\<lambda>w. case wall_ahead p d w of None \<Rightarrow> False | Some u \<Rightarrow> u < v) walls \<or> True" by simp
    ultimately show ?thesis
      using Cons.IH [of v True] Cons.IH [of r hit] Some by (simp add: step List.map_filter_simps)
  qed
qed (simp add: List.map_filter_simps)

text \<open>
  A simulated reading is the distance to the first wall: the smallest of the distances at which the beam meets a wall of the
  room, or the range of the sensor when it meets none before that.
\<close>

theorem reading_is_first_wall:
  "let d = (cos (po_theta pose + a), sin (po_theta pose + a)); p = (po_x pose, po_y pose);
       distances = List.map_filter (wall_ahead p d) (roomSegments scene)
   in rd_range (beam scene pose rangeMax a) = Min (set (rangeMax # distances))
      \<and> rd_hit (beam scene pose rangeMax a) = list_ex (\<lambda>v. v < rangeMax) distances"
proof -
  have "list_ex (\<lambda>w. case wall_ahead p d w of None \<Rightarrow> False | Some v \<Rightarrow> v < r) ws = list_ex (\<lambda>v. v < r) (List.map_filter (wall_ahead p d) ws)"
    for p d r ws by (induction ws) (auto simp: List.map_filter_simps split: option.split)
  then show ?thesis by (simp add: beam_def beam_fold Let_def)
qed

section \<open>The map only says what was measured\<close>

text \<open>What one scan says of a cell, and the evidence a cell has after several scans.\<close>

definition vote_of :: "cell_grid \<Rightarrow> nat \<Rightarrow> scan_frame \<Rightarrow> bool option" where
  "vote_of g c f =
     (if c \<in> set (occupied_cells g f) then Some True else if c \<in> set (free_cells g f) then Some False else None)"

fun cell_vote :: "bool option \<Rightarrow> real \<Rightarrow> real" where
  "cell_vote None score = score"
| "cell_vote (Some True) score = min VOTE_CEILING (score + OCCUPIED_VOTE)"
| "cell_vote (Some False) score = max VOTE_FLOOR (score + FREE_VOTE)"

definition cell_score :: "cell_grid \<Rightarrow> scan_frame list \<Rightarrow> nat \<Rightarrow> real" where
  "cell_score g frames c = fold (\<lambda>f. cell_vote (vote_of g c f)) frames 0"

definition cell_seen :: "cell_grid \<Rightarrow> scan_frame list \<Rightarrow> nat \<Rightarrow> bool" where
  "cell_seen g frames c \<longleftrightarrow> list_ex (\<lambda>f. vote_of g c f \<noteq> None) frames"

lemma set_set_add [simp]: "set (set_add c cs) = insert c (set cs)"
  by (auto simp: set_add_def)

lemma distinct_set_add [simp]: "distinct (set_add c cs) = distinct cs"
  by (simp add: set_add_def)

lemma fold_set_add: "set (fold set_add xs cs) = set xs \<union> set cs" "distinct (fold set_add xs cs) = distinct cs"
  by (induction xs arbitrary: cs) simp_all

lemma free_cells_are:
  "set (free_cells g f) = (\<Union>ray \<in> set (sf_scan f). set (crossed g (sf_pose f) ray)) \<and> distinct (free_cells g f)"
proof -
  have "set (fold (\<lambda>ray cs. fold set_add (crossed g (sf_pose f) ray) cs) rays cs)
      = (\<Union>ray \<in> set rays. set (crossed g (sf_pose f) ray)) \<union> set cs
      \<and> distinct (fold (\<lambda>ray cs. fold set_add (crossed g (sf_pose f) ray) cs) rays cs) = distinct cs" for rays cs
    by (induction rays arbitrary: cs) (auto simp: fold_set_add)
  then show ?thesis by (simp add: free_cells_def)
qed

lemma occupied_cells_are:
  "set (occupied_cells g f) = (\<lambda>ray. ray_cell g (sf_pose f) ray (rd_range ray)) ` {ray \<in> set (sf_scan f). rd_hit ray}
   \<and> distinct (occupied_cells g f)"
proof -
  have "set (fold (\<lambda>ray cs. if rd_hit ray then set_add (ray_cell g (sf_pose f) ray (rd_range ray)) cs else cs) rays cs)
      = (\<lambda>ray. ray_cell g (sf_pose f) ray (rd_range ray)) ` {ray \<in> set rays. rd_hit ray} \<union> set cs
      \<and> distinct (fold (\<lambda>ray cs. if rd_hit ray then set_add (ray_cell g (sf_pose f) ray (rd_range ray)) cs else cs) rays cs) = distinct cs"
    for rays cs
    by (induction rays arbitrary: cs) auto
  then show ?thesis by (simp add: occupied_cells_def)
qed

text \<open>The evidence as one score and one mark per cell.\<close>

definition tallied :: "nat \<Rightarrow> (nat \<Rightarrow> bool) \<Rightarrow> (nat \<Rightarrow> real) \<Rightarrow> evidence \<Rightarrow> bool" where
  "tallied n seen score e \<longleftrightarrow> ev_measured e = map seen [0..<n] \<and> ev_score e = map score [0..<n]"

lemma update_map_upt: "c < n \<Longrightarrow> (map f [0..<n])[c := v] = map (\<lambda>i. if i = c then v else f i) [0..<n]"
  by (rule nth_equalityI) (simp_all add: nth_list_update)

lemma update_map_beyond: "\<not> c < n \<Longrightarrow> (map f [0..<n])[c := v] = map f [0..<n]"
  by (simp add: list_update_beyond)

lemma votes_tallied:
  assumes "tallied n seen score e" "distinct cs"
    and vote: "\<And>c e. vote c e = e\<lparr> ev_measured := (ev_measured e)[c := True], ev_score := (ev_score e)[c := h (ev_score e ! c)] \<rparr>"
  shows "tallied n (\<lambda>c. c \<in> set cs \<or> seen c) (\<lambda>c. if c \<in> set cs then h (score c) else score c) (fold vote cs e)"
  using assms(1,2)
proof (induction cs arbitrary: seen score e)
  case (Cons a cs)
  have "tallied n (\<lambda>c. c = a \<or> seen c) (\<lambda>c. if c = a then h (score c) else score c) (vote a e)"
    using Cons.prems(1) by (cases "a < n") (auto simp: tallied_def vote update_map_upt update_map_beyond)
  then show ?case
    using Cons.IH [of "\<lambda>c. c = a \<or> seen c" "\<lambda>c. if c = a then h (score c) else score c" "vote a e"] Cons.prems(2)
    by (simp add: tallied_def cong: if_cong) (auto intro!: map_cong)
qed simp

lemma frame_tallied:
  assumes "tallied n seen score e"
  shows "tallied n (\<lambda>c. seen c \<or> vote_of g c f \<noteq> None) (\<lambda>c. cell_vote (vote_of g c f) (score c)) (frame_votes g f e)"
proof -
  let ?o = "occupied_cells g f" and ?f = "filter (\<lambda>c. c \<notin> set (occupied_cells g f)) (free_cells g f)"
  have skip: "fold (\<lambda>c e. if c \<in> A then e else vote_free c e) cs e = fold vote_free (filter (\<lambda>c. c \<notin> A) cs) e" for A cs e
    by (induction cs arbitrary: e) simp_all
  have "tallied n (\<lambda>c. c \<in> set ?f \<or> seen c) (\<lambda>c. if c \<in> set ?f then max VOTE_FLOOR (score c + FREE_VOTE) else score c) (fold vote_free ?f e)"
    by (rule votes_tallied [OF assms]) (simp_all add: free_cells_are vote_free_def)
  then have "tallied n (\<lambda>c. c \<in> set ?o \<or> (c \<in> set ?f \<or> seen c))
      (\<lambda>c. if c \<in> set ?o then min VOTE_CEILING ((if c \<in> set ?f then max VOTE_FLOOR (score c + FREE_VOTE) else score c) + OCCUPIED_VOTE)
           else if c \<in> set ?f then max VOTE_FLOOR (score c + FREE_VOTE) else score c) (fold vote_occupied ?o (fold vote_free ?f e))"
    by (rule votes_tallied) (simp_all add: occupied_cells_are vote_occupied_def)
  then show ?thesis
    unfolding frame_votes_def Let_def skip by (auto simp: tallied_def vote_of_def intro!: map_cong)
qed

lemma scans_tallied:
  "tallied n (\<lambda>c. cell_seen g frames c) (\<lambda>c. cell_score g frames c)
     (fold (frame_votes g) frames \<lparr> ev_score = replicate n 0, ev_measured = replicate n False \<rparr>)"
proof (induction frames rule: rev_induct)
  case Nil
  show ?case by (simp add: tallied_def cell_seen_def cell_score_def map_replicate_const)
next
  case (snoc f frames)
  then show ?case using frame_tallied [OF snoc.IH, of g f] by (simp add: cell_seen_def cell_score_def)
qed

lemma occupancy_cellwise:
  "oc_cells (occupancyFromScans frames g) = map (\<lambda>c. cellType (cell_seen g frames c) (cell_score g frames c)) [0..<columns g * rows g]"
  using scans_tallied [where n = "columns g * rows g" and g = g and frames = frames]
  by (simp add: occupancyFromScans_def Let_def tallied_def map2_map_map)

lemma score_signs:
  "\<not> list_ex (\<lambda>f. vote_of g c f = Some True) frames \<Longrightarrow> cell_score g frames c \<le> 0"
  "\<not> list_ex (\<lambda>f. vote_of g c f = Some False) frames \<Longrightarrow> 0 \<le> cell_score g frames c"
proof -
  have "\<not> list_ex (\<lambda>f. vote_of g c f = Some True) frames \<Longrightarrow> s \<le> 0 \<Longrightarrow> fold (\<lambda>f. cell_vote (vote_of g c f)) frames s \<le> 0" for s
  proof (induction frames arbitrary: s)
    case (Cons f fs)
    have "cell_vote (vote_of g c f) s \<le> 0"
      using Cons.prems by (cases "vote_of g c f") (auto simp: VOTE_FLOOR_def FREE_VOTE_def)
    then show ?case using Cons by simp
  qed simp
  then show "\<not> list_ex (\<lambda>f. vote_of g c f = Some True) frames \<Longrightarrow> cell_score g frames c \<le> 0" by (simp add: cell_score_def)
  have "\<not> list_ex (\<lambda>f. vote_of g c f = Some False) frames \<Longrightarrow> 0 \<le> s \<Longrightarrow> 0 \<le> fold (\<lambda>f. cell_vote (vote_of g c f)) frames s" for s
  proof (induction frames arbitrary: s)
    case (Cons f fs)
    have "0 \<le> cell_vote (vote_of g c f) s"
      using Cons.prems by (cases "vote_of g c f") (auto simp: VOTE_CEILING_def OCCUPIED_VOTE_def)
    then show ?case using Cons by simp
  qed simp
  then show "\<not> list_ex (\<lambda>f. vote_of g c f = Some False) frames \<Longrightarrow> 0 \<le> cell_score g frames c" by (simp add: cell_score_def)
qed

text \<open>The cells of the map that have a kind.\<close>

definition cells_of :: "cell_kind \<Rightarrow> scan_frame list \<Rightarrow> cell_grid \<Rightarrow> nat set" where
  "cells_of kind frames g = {c. c < columns g * rows g \<and> oc_cells (occupancyFromScans frames g) ! c = kind}"

text \<open>
  C18: The map claims only what was measured: its unknown cells are exactly those no beam crossed or ended in; a cell is called
  occupied only when a beam met a wall in it, and free only when in some scan a beam crossed it and none met a wall there.
\<close>

theorem map_is_measured:
  "cells_of Unknown frames g = {c. c < columns g * rows g \<and> \<not> list_ex (\<lambda>f. c \<in> set (occupied_cells g f) \<union> set (free_cells g f)) frames}
   \<and> cells_of Occupied frames g \<subseteq> {c. list_ex (\<lambda>f. c \<in> set (occupied_cells g f)) frames}
   \<and> cells_of Free frames g \<subseteq> {c. list_ex (\<lambda>f. c \<in> set (free_cells g f) - set (occupied_cells g f)) frames}"
proof (intro conjI)
  have vote: "vote_of g c f = None \<longleftrightarrow> c \<notin> set (occupied_cells g f) \<union> set (free_cells g f)"
    "vote_of g c f = Some True \<longleftrightarrow> c \<in> set (occupied_cells g f)"
    "vote_of g c f = Some False \<longleftrightarrow> c \<in> set (free_cells g f) - set (occupied_cells g f)" for c f
    by (auto simp: vote_of_def)
  have kind: "cellType seen s = Unknown \<longleftrightarrow> \<not> seen" "cellType seen s = Occupied \<Longrightarrow> 0 < s" "cellType seen s = Free \<Longrightarrow> s < 0" for seen s
    by (auto simp: cellType_def OCCUPIED_ABOVE_def FREE_BELOW_def split: if_splits)
  show "cells_of Unknown frames g = {c. c < columns g * rows g \<and> \<not> list_ex (\<lambda>f. c \<in> set (occupied_cells g f) \<union> set (free_cells g f)) frames}"
    unfolding cells_of_def occupancy_cellwise by (auto simp: kind(1) cell_seen_def vote list_ex_iff)
  show "cells_of Occupied frames g \<subseteq> {c. list_ex (\<lambda>f. c \<in> set (occupied_cells g f)) frames}"
  proof
    fix c assume "c \<in> cells_of Occupied frames g"
    then have "0 < cell_score g frames c" using kind(2) by (auto simp: cells_of_def occupancy_cellwise)
    then show "c \<in> {c. list_ex (\<lambda>f. c \<in> set (occupied_cells g f)) frames}" using score_signs(1) [of g c frames] by (auto simp: vote)
  qed
  show "cells_of Free frames g \<subseteq> {c. list_ex (\<lambda>f. c \<in> set (free_cells g f) - set (occupied_cells g f)) frames}"
  proof
    fix c assume "c \<in> cells_of Free frames g"
    then have "cell_score g frames c < 0" using kind(3) by (auto simp: cells_of_def occupancy_cellwise)
    then show "c \<in> {c. list_ex (\<lambda>f. c \<in> set (free_cells g f) - set (occupied_cells g f)) frames}"
      using score_signs(2) [of g c frames] by (auto simp: vote)
  qed
qed

section \<open>The true place is always plausible\<close>

text \<open>
  Localizing with a noise-free scan never rules out the true place: for a scan measured at a candidate, that
  candidate is among the plausible ones, and the best mismatch is 0.
\<close>

theorem true_place_plausible:
  "let k' = k mod CANDIDATE_COUNT;
       scan = measureRoom scene \<lparr> po_x = candidate_x k', po_y = y, po_theta = theta \<rparr> n rangeMax;
       found = localizeOnKnownMap scan scene y theta rangeMax
   in lo_best found = 0 \<and> candidate_at scan scene y theta rangeMax k' \<in> set (lo_plausible found)"
proof -
  define k' where "k' = k mod CANDIDATE_COUNT"
  define scan where "scan = measureRoom scene \<lparr> po_x = candidate_x k', po_y = y, po_theta = theta \<rparr> n rangeMax"
  let ?c = "candidate_at scan scene y theta rangeMax"
  have k': "k' < CANDIDATE_COUNT" by (simp add: k'_def CANDIDATE_COUNT_def)
  have same: "rangeMismatch s s = 0" for s
  proof -
    have "sum_list (map2 (\<lambda>o' p. (rd_range o' - rd_range p)\<^sup>2) s s) = 0" by (induction s) simp_all
    then show ?thesis by (simp add: rangeMismatch_def)
  qed
  have len: "length scan = n" by (simp add: scan_def measureRoom_def)
  have zero: "ca_error (?c k') = 0" by (simp add: candidate_at_def len scan_def [symmetric] same)
  have nonneg: "0 \<le> ca_error (?c j)" for j
  proof -
    have "0 \<le> sum_list (map2 (\<lambda>o' p. (rd_range o' - rd_range p)\<^sup>2) s p)" for s p by (rule sum_list_nonneg) auto
    then show ?thesis unfolding candidate_at_def rangeMismatch_def candidate.simps by (intro real_sqrt_ge_zero divide_nonneg_nonneg) simp_all
  qed
  have best: "Min (set (map ca_error (map ?c [0..<CANDIDATE_COUNT]))) = 0"
  proof (rule Min_eqI)
    show "0 \<in> set (map ca_error (map ?c [0..<CANDIDATE_COUNT]))" using zero k' by force
  qed (use nonneg in auto)
  then have "lo_best (localizeOnKnownMap scan scene y theta rangeMax) = 0" by (simp only: localizeOnKnownMap_def Let_def localization.simps)
  moreover have "?c k' \<in> set (lo_plausible (localizeOnKnownMap scan scene y theta rangeMax))"
    unfolding localizeOnKnownMap_def Let_def localization.simps best using zero k' by (auto simp: PLAUSIBLE_BAND_def)
  ultimately show ?thesis by (simp add: Let_def k'_def [symmetric] scan_def [symmetric])
qed

section \<open>The pose graph has the least error\<close>

definition edges_ok :: "nat \<Rightarrow> graph_edge list \<Rightarrow> bool" where
  "edges_ok n edges \<longleftrightarrow> list_all (\<lambda>e. ge_from e < n \<and> ge_to e < n \<and> 0 \<le> ge_weight e) edges"

text \<open>What the poses miss of the measured steps, weighted.\<close>

definition graph_cost :: "graph_edge list \<Rightarrow> point list \<Rightarrow> real" where
  "graph_cost edges nodes = sum_list (map (\<lambda>e. edge_weight e * edge_square nodes e) edges)"

definition sign_at :: "(nat \<times> real) list \<Rightarrow> nat \<Rightarrow> real" where
  "sign_at ts i = sum_list (map (\<lambda>(node, sign). if node = Suc i then sign else 0) ts)"

definition coefficient :: "graph_edge \<Rightarrow> nat \<Rightarrow> real" where
  "coefficient e i = (if ge_to e = Suc i then 1 else 0) - (if ge_from e = Suc i then 1 else 0)"

definition x_term :: "graph_edge \<Rightarrow> lsq_term" where "x_term e = (edge_weight e, coefficient e, ge_dx e)"
definition y_term :: "graph_edge \<Rightarrow> lsq_term" where "y_term e = (edge_weight e, coefficient e, ge_dy e)"

definition squared :: "nat \<Rightarrow> matrix \<Rightarrow> bool" where
  "squared u m \<longleftrightarrow> length m = u \<and> (\<forall>i<u. length (m ! i) = u)"

definition terms_ok :: "nat \<Rightarrow> (nat \<times> real) list \<Rightarrow> bool" where
  "terms_ok u ts \<longleftrightarrow> (\<forall>(node, sign) \<in> set ts. 0 < node \<and> node \<le> u)"

lemma sign_at_terms: "sign_at (edge_terms e) i = coefficient e i"
  by (simp add: sign_at_def edge_terms_def coefficient_def)

lemma edge_terms_ok: "ge_from e < Suc u \<Longrightarrow> ge_to e < Suc u \<Longrightarrow> terms_ok u (edge_terms e)"
  by (simp add: terms_ok_def edge_terms_def)

lemma add_entry_nth:
  "squared u m \<Longrightarrow> i < u \<Longrightarrow> j < u \<Longrightarrow> squared u (add_entry i j v m)
   \<and> (\<forall>i'<u. \<forall>j'<u. add_entry i j v m ! i' ! j' = m ! i' ! j' + (if i' = i \<and> j' = j then v else 0))"
  by (simp add: squared_def add_entry_def nth_list_update)

lemma entries_nth:
  "squared u m \<Longrightarrow> i < u \<Longrightarrow> terms_ok u ts \<Longrightarrow>
   squared u (fold (\<lambda>(other, otherSign). add_entry i (other - 1) (v * otherSign)) ts m)
   \<and> (\<forall>i'<u. \<forall>j'<u. fold (\<lambda>(other, otherSign). add_entry i (other - 1) (v * otherSign)) ts m ! i' ! j'
        = m ! i' ! j' + (if i' = i then v * sign_at ts j' else 0))"
proof (induction ts arbitrary: m)
  case (Cons t ts)
  obtain node sign where t: "t = (Suc node, sign)" using Cons.prems(3) by (cases t; cases "fst t") (auto simp: terms_ok_def)
  have node: "node < u" "terms_ok u ts" using Cons.prems(3) by (auto simp: terms_ok_def t)
  note one = add_entry_nth [OF Cons.prems(1,2) node(1), of "v * sign"]
  show ?case using Cons.IH [OF conjunct1 [OF one] Cons.prems(2) node(2)] one by (auto simp: t sign_at_def distrib_left)
qed (simp add: sign_at_def)

lemma add_right_nth: "length r = u \<Longrightarrow> length (add_right i v r) = u \<and> (\<forall>i'<u. add_right i v r ! i' = r ! i' + (if i' = i then v else 0))"
  by (simp add: add_right_def nth_list_update)

text \<open>What the equations hold after some terms, relative to what they held before.\<close>

definition raised :: "nat \<Rightarrow> (nat \<Rightarrow> real) \<Rightarrow> graph_edge \<Rightarrow> equations \<Rightarrow> equations \<Rightarrow> bool" where
  "raised u c e q q' \<longleftrightarrow>
     squared u (eq_matrix q') \<and> length (eq_rightX q') = u \<and> length (eq_rightY q') = u
     \<and> (\<forall>i<u. eq_rightX q' ! i = eq_rightX q ! i + edge_weight e * c i * ge_dx e
          \<and> eq_rightY q' ! i = eq_rightY q ! i + edge_weight e * c i * ge_dy e
          \<and> (\<forall>j<u. eq_matrix q' ! i ! j = eq_matrix q ! i ! j + edge_weight e * c i * coefficient e j))"

lemma terms_raise:
  "squared u (eq_matrix q) \<Longrightarrow> length (eq_rightX q) = u \<Longrightarrow> length (eq_rightY q) = u \<Longrightarrow> terms_ok u (edge_terms e) \<Longrightarrow> terms_ok u ts \<Longrightarrow>
   raised u (sign_at ts) e q (fold (add_term e) ts q)"
proof (induction ts arbitrary: q)
  case (Cons t ts)
  obtain node sign where t: "t = (Suc node, sign)" using Cons.prems(5) by (cases t; cases "fst t") (auto simp: terms_ok_def)
  have node: "node < u" "terms_ok u ts" using Cons.prems(5) by (auto simp: terms_ok_def t)
  note m = entries_nth [OF Cons.prems(1) node(1) Cons.prems(4), of "edge_weight e * sign"]
  note rx = add_right_nth [OF Cons.prems(2), of node "edge_weight e * sign * ge_dx e"]
  note ry = add_right_nth [OF Cons.prems(3), of node "edge_weight e * sign * ge_dy e"]
  have one: "squared u (eq_matrix (add_term e t q))" "length (eq_rightX (add_term e t q)) = u" "length (eq_rightY (add_term e t q)) = u"
    using m rx ry by (simp_all add: add_term_def t)
  have at: "eq_rightX (add_term e t q) ! i = eq_rightX q ! i + (if i = node then edge_weight e * sign * ge_dx e else 0)"
    "eq_rightY (add_term e t q) ! i = eq_rightY q ! i + (if i = node then edge_weight e * sign * ge_dy e else 0)"
    "j < u \<Longrightarrow> eq_matrix (add_term e t q) ! i ! j = eq_matrix q ! i ! j + (if i = node then edge_weight e * sign * coefficient e j else 0)"
    if "i < u" for i j using m rx ry that by (simp_all add: add_term_def t sign_at_terms)
  have "sign_at (t # ts) i = (if i = node then sign else 0) + sign_at ts i" for i by (simp add: sign_at_def t)
  then show ?case using Cons.IH [OF one Cons.prems(4) node(2)] at by (simp add: raised_def algebra_simps)
qed (simp add: raised_def sign_at_def)

definition equations_are :: "nat \<Rightarrow> graph_edge list \<Rightarrow> equations \<Rightarrow> bool" where
  "equations_are u edges q \<longleftrightarrow>
     squared u (eq_matrix q) \<and> length (eq_rightX q) = u \<and> length (eq_rightY q) = u
     \<and> (\<forall>i<u. eq_rightX q ! i = normal_right (map x_term edges) i \<and> eq_rightY q ! i = normal_right (map y_term edges) i
          \<and> (\<forall>j<u. eq_matrix q ! i ! j = normal_entry (map x_term edges) i j))"

lemma graph_equations_are: "edges_ok (Suc u) edges \<Longrightarrow> equations_are u edges (graph_equations u edges)"
proof (induction edges rule: rev_induct)
  case Nil
  show ?case by (simp add: equations_are_def graph_equations_def squared_def normal_right_def normal_entry_def)
next
  case (snoc e edges)
  let ?q = "graph_equations u edges"
  have ih: "equations_are u edges ?q" and e: "ge_from e < Suc u" "ge_to e < Suc u" using snoc by (simp_all add: edges_ok_def)
  have "raised u (sign_at (edge_terms e)) e ?q (fold (add_term e) (edge_terms e) ?q)"
    using ih edge_terms_ok [OF e] by (intro terms_raise) (simp_all add: equations_are_def)
  moreover have "graph_equations u (edges @ [e]) = fold (add_term e) (edge_terms e) ?q"
    by (simp add: graph_equations_def add_edge_def)
  ultimately show ?case
    using ih by (simp add: equations_are_def raised_def sign_at_terms normal_right_def normal_entry_def x_term_def y_term_def)
qed

lemma same_matrix: "normal_entry (map y_term edges) = normal_entry (map x_term edges)"
  by (simp add: normal_entry_def x_term_def y_term_def fun_eq_iff comp_def)

lemma coefficient_sum:
  "ge_from e < Suc u \<Longrightarrow> ge_to e < Suc u \<Longrightarrow>
   (\<Sum>j<u. coefficient e j * y j) = (if ge_to e = 0 then 0 else y (ge_to e - 1)) - (if ge_from e = 0 then 0 else y (ge_from e - 1))"
proof -
  have pick: "(\<Sum>j<u. (if k = Suc j then 1 else 0) * y j) = (if k = 0 then 0 else y (k - 1))" if "k < Suc u" for k
  proof (cases k)
    case (Suc m)
    then have "(\<Sum>j<u. (if k = Suc j then 1 else 0) * y j) = (\<Sum>j<u. if j = m then y j else 0)" by (intro sum.cong) auto
    then show ?thesis using that Suc by simp
  qed simp
  show "ge_from e < Suc u \<Longrightarrow> ge_to e < Suc u \<Longrightarrow> ?thesis"
    unfolding coefficient_def left_diff_distrib sum_subtractf by (simp only: pick)
qed

lemma cost_is_lsq:
  assumes "edges_ok (Suc u) edges" "length nodes = Suc u" "nodes ! 0 = (0, 0)"
  shows "graph_cost edges nodes = lsq_cost u (map x_term edges) (\<lambda>j. fst (nodes ! Suc j)) + lsq_cost u (map y_term edges) (\<lambda>j. snd (nodes ! Suc j))"
  using assms(1)
proof (induction edges)
  case (Cons e edges)
  have e: "ge_from e < Suc u" "ge_to e < Suc u" using Cons.prems by (simp_all add: edges_ok_def)
  have node: "(if k = 0 then 0 else fst (nodes ! Suc (k - 1))) = fst (nodes ! k)" "(if k = 0 then 0 else snd (nodes ! Suc (k - 1))) = snd (nodes ! k)"
    for k using assms(3) by (cases k; simp)+
  have errors: "lsq_error u (\<lambda>j. fst (nodes ! Suc j)) (x_term e) = fst (nodes ! ge_to e) - fst (nodes ! ge_from e) - ge_dx e"
    "lsq_error u (\<lambda>j. snd (nodes ! Suc j)) (y_term e) = snd (nodes ! ge_to e) - snd (nodes ! ge_from e) - ge_dy e"
    unfolding lsq_error_def x_term_def y_term_def prod.case coefficient_sum [OF e] node by (rule refl)+
  have "edge_weight e * edge_square nodes e = fst (x_term e) * (lsq_error u (\<lambda>j. fst (nodes ! Suc j)) (x_term e))\<^sup>2
      + fst (y_term e) * (lsq_error u (\<lambda>j. snd (nodes ! Suc j)) (y_term e))\<^sup>2"
    unfolding errors by (simp add: edge_square_def x_term_def y_term_def distrib_left)
  then show ?case using Cons by (simp add: graph_cost_def lsq_cost_def edges_ok_def)
qed (simp add: graph_cost_def lsq_cost_def)

lemma optimum_least:
  assumes ok: "edges_ok n edges" and found: "poseGraphOptimize n edges = Some nodes"
  shows "length nodes = n \<and> nodes ! 0 = (0, 0)
    \<and> (length other = n \<longrightarrow> other ! 0 = (0, 0) \<longrightarrow> graph_cost edges nodes \<le> graph_cost edges other)"
proof -
  obtain u where n: "n = Suc u" using found by (cases n) (simp_all add: poseGraphOptimize_def)
  let ?q = "graph_equations u edges"
  obtain x y where x: "solveLinear (eq_matrix ?q) (eq_rightX ?q) = Some x" and y: "solveLinear (eq_matrix ?q) (eq_rightY ?q) = Some y"
    and nodes: "nodes = (0, 0) # zip x y"
    using found by (auto simp: poseGraphOptimize_def n Let_def split: option.splits)
  have are: "equations_are u edges ?q" using graph_equations_are ok n by simp
  have len: "length (eq_rightX ?q) = u" "length (eq_rightY ?q) = u" using are by (simp_all add: equations_are_def)
  have sq: "square (length (eq_rightX ?q)) (eq_matrix ?q) (eq_rightX ?q)" "square (length (eq_rightY ?q)) (eq_matrix ?q) (eq_rightY ?q)"
    using are by (auto simp: equations_are_def square_def squared_def set_conv_nth)
  have normal: "normal_system (map x_term edges) (eq_matrix ?q) (eq_rightX ?q)" "normal_system (map y_term edges) (eq_matrix ?q) (eq_rightY ?q)"
    using are by (simp_all add: equations_are_def normal_system_def same_matrix)
  have weights: "list_all (\<lambda>t. 0 \<le> fst t) (map x_term edges)" "list_all (\<lambda>t. 0 \<le> fst t) (map y_term edges)"
    using ok by (auto simp: edges_ok_def list_all_iff x_term_def y_term_def edge_weight_def)
  have lens: "length x = u" "length y = u" using any_size.answer [OF sq(1) _ x] any_size.answer [OF sq(2) _ y] len by simp_all
  have at: "fst (nodes ! Suc j) = x ! j" "snd (nodes ! Suc j) = y ! j" if "j < u" for j using that lens by (simp_all add: nodes)
  have cost: "lsq_cost u ts (\<lambda>j. fst (nodes ! Suc j)) = lsq_cost u ts ((!) x)" "lsq_cost u ts (\<lambda>j. snd (nodes ! Suc j)) = lsq_cost u ts ((!) y)" for ts
    using at by (simp_all add: lsq_cost_def lsq_error_def split_def)
  have "graph_cost edges nodes \<le> graph_cost edges other" if "length other = n" "other ! 0 = (0, 0)"
  proof -
    have "graph_cost edges nodes = lsq_cost u (map x_term edges) ((!) x) + lsq_cost u (map y_term edges) ((!) y)"
      using cost_is_lsq [of u edges nodes] ok n lens cost by (simp add: nodes)
    also have "\<dots> \<le> lsq_cost u (map x_term edges) (\<lambda>j. fst (other ! Suc j)) + lsq_cost u (map y_term edges) (\<lambda>j. snd (other ! Suc j))"
      using any_size.answer_minimises [OF sq(1) _ x normal(1) weights(1)] any_size.answer_minimises [OF sq(2) _ y normal(2) weights(2)] len
      by (intro add_mono) simp_all
    also have "\<dots> = graph_cost edges other" using cost_is_lsq [of u edges other] ok n that by simp
    finally show ?thesis .
  qed
  then show ?thesis using lens by (simp add: n nodes)
qed

text \<open>The tracks of a graph: one pose per node, the first one at the origin.\<close>

definition tracks :: "nat \<Rightarrow> point list set" where
  "tracks n = {nodes. length nodes = n \<and> nodes ! 0 = (0, 0)}"

text \<open>
  C12: Optimising a pose graph gives the best track there is: when it answers, its answer is a track, and no other track
  fits the weighted measured steps better.
\<close>

theorem pose_graph_optimal:
  "case poseGraphOptimize n edges of
     None \<Rightarrow> True
   | Some nodes \<Rightarrow> if edges_ok n edges then nodes \<in> {best \<in> tracks n. tracks n \<subseteq> {other. graph_cost edges best \<le> graph_cost edges other}} else True"
  using optimum_least by (auto simp: tracks_def split: option.split)

section \<open>Closing the lap narrows the gap\<close>

definition follows :: "graph_edge list \<Rightarrow> point list \<Rightarrow> bool" where
  "follows edges nodes \<longleftrightarrow> list_all (\<lambda>e. edge_square nodes e = 0) edges"

definition gap_between :: "point list \<Rightarrow> nat \<Rightarrow> nat \<Rightarrow> real" where
  "gap_between nodes i j = hypot (fst (nodes ! i) - fst (nodes ! j)) (snd (nodes ! i) - snd (nodes ! j))"

lemma follows_cost: "follows edges nodes \<Longrightarrow> graph_cost edges nodes = 0"
  by (induction edges) (simp_all add: follows_def graph_cost_def)

lemma cost_nonneg: "edges_ok n edges \<Longrightarrow> 0 \<le> graph_cost edges nodes"
  by (induction edges) (auto simp: edges_ok_def graph_cost_def edge_weight_def edge_square_def)

lemma closing_narrows:
  assumes ok: "edges_ok (length (lf_before fixture)) (lf_edges fixture)" and follows: "follows (lf_edges fixture) (lf_before fixture)"
    and start: "lf_before fixture \<noteq> []" "lf_before fixture ! 0 = (0, 0)"
    and m: "m < length (lf_before fixture)" and w: "0 \<le> w" and closed: "closeLoop fixture m w = Some r"
  shows "lc_gap r \<le> gap_between (lf_before fixture) (length (lf_before fixture) - 1) m"
proof -
  let ?before = "lf_before fixture" and ?c = "closure_edge fixture m w"
  let ?last = "length ?before - 1"
  obtain after where after: "poseGraphOptimize (?last + 1) (lf_edges fixture @ [?c]) = Some after"
    and r: "lc_gap r = gap_between after ?last m"
    using closed by (auto simp: closeLoop_def Let_def gap_between_def)
  have n: "?last + 1 = length ?before" using start by simp
  have ok': "edges_ok (?last + 1) (lf_edges fixture @ [?c])" using ok m w unfolding n by (simp add: edges_ok_def closure_edge_def)
  have "graph_cost (lf_edges fixture @ [?c]) after \<le> graph_cost (lf_edges fixture @ [?c]) ?before"
    using optimum_least [OF ok' after, of ?before] start n by simp
  moreover have "graph_cost (lf_edges fixture @ [?c]) nodes = graph_cost (lf_edges fixture) nodes + edge_weight ?c * (gap_between nodes ?last m)\<^sup>2" for nodes
    by (simp add: graph_cost_def edge_square_def closure_edge_def gap_between_def hypot_def power2_eq_square)
  ultimately have "edge_weight ?c * (gap_between after ?last m)\<^sup>2 \<le> edge_weight ?c * (gap_between ?before ?last m)\<^sup>2"
    using follows_cost [OF follows] cost_nonneg [OF ok, of after] by simp
  moreover have "0 < edge_weight ?c" using w by (simp add: edge_weight_def closure_edge_def)
  ultimately have "(gap_between after ?last m)\<^sup>2 \<le> (gap_between ?before ?last m)\<^sup>2" by simp
  then have "gap_between after ?last m \<le> gap_between ?before ?last m" by (rule power2_le_imp_le) (simp add: gap_between_def)
  then show ?thesis by (simp add: r)
qed

lemma lap_upt: "[0..<10] = [0, 1, 2, 3, 4, 5, 6, 7, 8, 9::nat]"
  by (simp add: upt_rec)

lemma lap_sound:
  "length (lf_before loopFixture) = 11" "lf_before loopFixture \<noteq> []" "lf_before loopFixture ! 0 = (0, 0)"
  "edges_ok 11 (lf_edges loopFixture)" "follows (lf_edges loopFixture) (lf_before loopFixture)"
  by (simp_all add: loopFixture_def Let_def lap_reference_def LAP_CORNERS_def lap_upt lap_edge_def moved_by_def LAP_STEP_def LAP_DRIFT_def
      edges_ok_def follows_def edge_square_def)

text \<open>
  Closing the demonstration lap, at whatever pose and weight, never leaves a wider gap between the two poses that are said
  to be the same place than the measurements alone did.
\<close>

theorem closing_never_widens:
  "case closeLoop loopFixture m w of
     None \<Rightarrow> True
   | Some r \<Rightarrow> if m < 11 \<and> 0 \<le> w then lc_gap r \<le> gap_between (lf_before loopFixture) 10 m else True"
  using closing_narrows [of loopFixture m w] lap_sound by (auto split: option.split)

end
