(* ===== verification/Slam_Camera.thy ===== *)
theory Slam_Camera
  imports Slam_Concepts
begin

text \<open>
  The camera model of the SLAM course, \<open>lab/js/slam/camera.js\<close>: the boxes of a scene, the first surface on a ray, the
  pinhole projection and its inverse on the floor, the observation of the start marker, the depth at a pixel and the
  patterns of the floor. Painting them on the canvas is left out; colours are constructors.
\<close>

section \<open>Scenes and rays\<close>

record scene =
  sc_width :: real
  sc_height :: real
  sc_walls :: "box list"
  sc_start :: pose

record rect =
  rc_x0 :: real
  rc_y0 :: real
  rc_x1 :: real
  rc_y1 :: real

definition rect :: "real \<Rightarrow> real \<Rightarrow> real \<Rightarrow> real \<Rightarrow> rect" where
  "rect x0 y0 x1 y1 = \<lparr> rc_x0 = x0, rc_y0 = y0, rc_x1 = x1, rc_y1 = y1 \<rparr>"

definition CAMERA_FOV :: real where "CAMERA_FOV = pi / 2"
definition CAMERA_HEIGHT :: real where "CAMERA_HEIGHT = 24 / 100"
definition CAMERA_FORWARD :: real where "CAMERA_FORWARD = 12 / 100"
definition WALL_HEIGHT :: real where "WALL_HEIGHT = 11 / 10"
definition MARKER_SIZE :: real where "MARKER_SIZE = 32 / 100"
definition NEAR_PLANE :: real where "NEAR_PLANE = 15 / 1000"
definition ROOM_WALL_COUNT :: nat where "ROOM_WALL_COUNT = 4"

definition slamSceneRects :: "scene \<Rightarrow> rect list" where
  "slamSceneRects s =
     (let width = sc_width s; height = sc_height s in
      [rect (- 1) (- 1) 0 (height + 1), rect width (- 1) (width + 1) (height + 1), rect (- 1) (- 1) (width + 1) 0,
       rect (- 1) height (width + 1) (height + 1)]
      @ map (\<lambda>w. rect (bx_x w) (bx_y w) (bx_x w + bx_w w) (bx_y w + bx_h w)) (sc_walls s))"

text \<open>
  One axis of the slab test: \<open>Some None\<close> is the interval from \<open>-Infinity\<close> to \<open>Infinity\<close>, \<open>None\<close> a ray that misses.
  The number is the axis of the face the ray enters through.
\<close>

type_synonym slab_interval = "(real \<times> real \<times> nat) option"

definition slab_axis :: "real \<Rightarrow> nat \<Rightarrow> real \<Rightarrow> real \<Rightarrow> real \<Rightarrow> real \<Rightarrow> slab_interval \<Rightarrow> slab_interval option" where
  "slab_axis tiny axis start direction low high interval =
     (if \<bar>direction\<bar> < tiny then (if start < low \<or> start > high then None else Some interval)
      else
        let t0 = (low - start) / direction; t1 = (high - start) / direction; entry = min t0 t1; leave = max t0 t1 in
        Some (Some (case interval of
            None \<Rightarrow> (entry, leave, axis)
          | Some (near, far, side) \<Rightarrow> (max near entry, min far leave, if entry > near then axis else side))))"

definition hit_box :: "real \<Rightarrow> point \<Rightarrow> real \<Rightarrow> rect \<Rightarrow> (real \<times> nat) option" where
  "hit_box tiny origin angle r =
     (case slab_axis tiny 0 (fst origin) (cos angle) (rc_x0 r) (rc_x1 r) None of
        None \<Rightarrow> None
      | Some first \<Rightarrow>
          (case slab_axis tiny 1 (snd origin) (sin angle) (rc_y0 r) (rc_y1 r) first of
             Some (Some (near, far, side)) \<Rightarrow> (if far < max near 0 \<or> near < 0 then None else Some (near, side))
           | _ \<Rightarrow> None))"

definition hitRect :: "point \<Rightarrow> real \<Rightarrow> rect \<Rightarrow> (real \<times> nat) option" where
  "hitRect origin angle r = hit_box (1 / 10 ^ 10) origin angle r"

record surface =
  su_distance :: real
  su_side :: nat
  su_shelf :: bool

definition first_surface :: "point \<Rightarrow> real \<Rightarrow> nat \<times> rect \<Rightarrow> surface option \<Rightarrow> surface option" where
  "first_surface origin angle ir best =
     (case hitRect origin angle (snd ir) of
        None \<Rightarrow> best
      | Some (distance, side) \<Rightarrow>
          (if (case best of None \<Rightarrow> True | Some b \<Rightarrow> distance < su_distance b)
           then Some \<lparr> su_distance = distance, su_side = side, su_shelf = (fst ir \<ge> ROOM_WALL_COUNT) \<rparr> else best))"

definition cameraRay :: "rect list \<Rightarrow> point \<Rightarrow> real \<Rightarrow> surface option" where
  "cameraRay rects origin angle = fold (first_surface origin angle) (enumerate 0 rects) None"

section \<open>The pinhole camera\<close>

record view =
  vw_x :: real
  vw_y :: real
  vw_theta :: real
  vw_width :: real
  vw_height :: real
  vw_focal :: real
  vw_horizon :: real

definition cameraView :: "pose \<Rightarrow> real \<Rightarrow> real \<Rightarrow> view" where
  "cameraView pose width height =
     \<lparr> vw_x = po_x pose + CAMERA_FORWARD * cos (po_theta pose), vw_y = po_y pose + CAMERA_FORWARD * sin (po_theta pose),
       vw_theta = po_theta pose, vw_width = width, vw_height = height, vw_focal = width / (2 * tan (CAMERA_FOV / 2)),
       vw_horizon = height * (42 / 100) \<rparr>"

record pixel =
  px_x :: real
  px_y :: real
  px_depth :: real

definition cameraProject :: "view \<Rightarrow> point \<Rightarrow> real \<Rightarrow> pixel option" where
  "cameraProject v p z =
     (let dx = fst p - vw_x v; dy = snd p - vw_y v; depth = dx * cos (vw_theta v) + dy * sin (vw_theta v);
          left = - dx * sin (vw_theta v) + dy * cos (vw_theta v)
      in if depth \<le> NEAR_PLANE then None
         else Some \<lparr> px_x = vw_width v / 2 - (vw_focal v * left) / depth, px_y = vw_horizon v - (vw_focal v * (z - CAMERA_HEIGHT)) / depth,
           px_depth = depth \<rparr>)"

text \<open>The floor point seen at a pixel, and its depth.\<close>

definition cameraGroundPoint :: "view \<Rightarrow> real \<Rightarrow> real \<Rightarrow> (point \<times> real) option" where
  "cameraGroundPoint v x y =
     (if y \<le> vw_horizon v then None
      else
        let depth = (CAMERA_HEIGHT * vw_focal v) / (y - vw_horizon v); right = (x - vw_width v / 2) / vw_focal v
        in Some ((vw_x v + depth * (cos (vw_theta v) + right * sin (vw_theta v)), vw_y v + depth * (sin (vw_theta v) - right * cos (vw_theta v))), depth))"

section \<open>What the camera sees\<close>

record observation =
  ob_visible :: bool
  ob_bearing :: real
  ob_distance :: real

definition slamCameraObservation :: "scene \<Rightarrow> pose \<Rightarrow> observation" where
  "slamCameraObservation s pose =
     (let v = cameraView pose 800 320; marker = sc_start s; dx = po_x marker - vw_x v; dy = po_y marker - vw_y v; angle = atan2 dy dx;
          distance = hypot dx dy; bearing = atan2 (sin (angle - po_theta pose)) (cos (angle - po_theta pose));
          projected = cameraProject v (po_x marker, po_y marker) 0; hit = cameraRay (slamSceneRects s) (vw_x v, vw_y v) angle;
          inFrame = (case projected of None \<Rightarrow> False | Some p \<Rightarrow> px_x p \<ge> 0 \<and> px_x p \<le> vw_width v \<and> px_y p \<ge> 0 \<and> px_y p \<le> vw_height v)
      in \<lparr> ob_visible = (inFrame \<and> (case hit of None \<Rightarrow> True | Some h \<Rightarrow> su_distance h \<ge> distance - 1 / 100)), ob_bearing = bearing,
           ob_distance = distance \<rparr>)"

definition DEPTH_MIN :: real where "DEPTH_MIN = 25 / 100"
definition DEPTH_MAX :: real where "DEPTH_MAX = 5"

definition inDepthRange :: "real \<Rightarrow> bool" where
  "inDepthRange depth \<longleftrightarrow> depth \<ge> DEPTH_MIN \<and> depth \<le> DEPTH_MAX"

text \<open>The wall in front of a pixel column: its depth and the rows its picture covers.\<close>

definition wall_band :: "scene \<Rightarrow> view \<Rightarrow> real \<Rightarrow> (real \<times> real \<times> real) option" where
  "wall_band s v x =
     (let offset = arctan ((x - vw_width v / 2) / vw_focal v) in
      case cameraRay (slamSceneRects s) (vw_x v, vw_y v) (vw_theta v - offset) of
        None \<Rightarrow> None
      | Some h \<Rightarrow>
          (let z = su_distance h * cos offset
           in Some (z, vw_horizon v - ((WALL_HEIGHT - CAMERA_HEIGHT) * vw_focal v) / z, vw_horizon v + (CAMERA_HEIGHT * vw_focal v) / z)))"

definition slamDepthAt :: "scene \<Rightarrow> pose \<Rightarrow> real \<Rightarrow> real \<Rightarrow> real \<Rightarrow> real \<Rightarrow> real option" where
  "slamDepthAt s pose x y width height =
     (let v = cameraView pose width height;
          ground = (case cameraGroundPoint v x y of None \<Rightarrow> None | Some (_, depth) \<Rightarrow> if inDepthRange depth then Some depth else None)
      in case wall_band s v x of
           None \<Rightarrow> ground
         | Some (z, upper, bottom) \<Rightarrow> if y \<ge> upper \<and> y \<le> bottom then (if inDepthRange z then Some z else None) else ground)"

section \<open>The patterns on the floor\<close>

definition TILE_SIZE :: real where "TILE_SIZE = 5 / 10"
definition GRID_LINE :: real where "GRID_LINE = 14 / 1000"
definition MARKER_CELLS :: real where "MARKER_CELLS = 7"

datatype shade = GridShade | LightShade | DarkShade

text \<open>\<open>((a % b) + b) % b\<close> for a positive \<open>b\<close>.\<close>

definition real_mod :: "real \<Rightarrow> real \<Rightarrow> real" where
  "real_mod a b = a - b * of_int \<lfloor>a / b\<rfloor>"

definition floorShade :: "point \<Rightarrow> shade" where
  "floorShade p =
     (if real_mod (fst p) TILE_SIZE < GRID_LINE \<or> real_mod (snd p) TILE_SIZE < GRID_LINE then GridShade
      else if (\<lfloor>fst p / TILE_SIZE\<rfloor> + \<lfloor>snd p / TILE_SIZE\<rfloor>) mod 2 = 0 then LightShade else DarkShade)"

datatype marker_color = MarkerLight | MarkerInk

definition markerColor :: "point \<Rightarrow> pose \<Rightarrow> marker_color option" where
  "markerColor p start =
     (let half = MARKER_SIZE / 2; across = (fst p - po_x start + half) / MARKER_SIZE; along = (snd p - po_y start + half) / MARKER_SIZE in
      if across < 0 \<or> across \<ge> 1 \<or> along < 0 \<or> along \<ge> 1 then None
      else
        let column = \<lfloor>across * MARKER_CELLS\<rfloor>; row = \<lfloor>along * MARKER_CELLS\<rfloor>;
            border = (column = 0 \<or> row = 0 \<or> column = 6 \<or> row = 6);
            ink = (column < 3 \<and> row < 3 \<or> column > 3 \<and> row > 3 \<or> column = 4 \<and> row = 2)
        in Some (if border \<or> \<not> ink then MarkerLight else MarkerInk))"

section \<open>The floor is seen where it is\<close>

lemma view_frame:
  "vw_theta (cameraView pose w h) = po_theta pose" "vw_horizon (cameraView pose w h) = h * (42 / 100)" "vw_width (cameraView pose w h) = w"
  "vw_focal (cameraView pose w h) = w / 2"
  by (simp_all add: cameraView_def CAMERA_FOV_def tan_45)

text \<open>
  The picture tells where a point of the floor is: a floor point more than the near plane ahead of the camera is projected
  below the horizon, and the floor point computed from its pixel is the point itself, at the depth of the projection.
\<close>

theorem floor_point_recovered:
  "if 0 < width then
     (case cameraProject (cameraView pose width height) p 0 of
        None \<Rightarrow> True
      | Some q \<Rightarrow> cameraGroundPoint (cameraView pose width height) (px_x q) (px_y q) = Some (p, px_depth q))
   else True"
proof (cases "0 < width")
  case True
  let ?v = "cameraView pose width height" and ?c = "cos (po_theta pose)" and ?s = "sin (po_theta pose)"
  let ?dx = "fst p - vw_x ?v" and ?dy = "snd p - vw_y ?v"
  let ?depth = "?dx * ?c + ?dy * ?s" and ?left = "- ?dx * ?s + ?dy * ?c"
  have one: "?c * ?c + ?s * ?s = 1" using sin_cos_squared_add2 [of "po_theta pose"] by (simp add: power2_eq_square)
  have turned: "?depth * ?c - ?left * ?s = ?dx" "?depth * ?s + ?left * ?c = ?dy" using one by algebra+
  show ?thesis
  proof (cases "?depth \<le> NEAR_PLANE")
    case False
    then have pos: "0 < ?depth" by (simp add: NEAR_PLANE_def)
    define q where "q = \<lparr> px_x = width / 2 - (width / 2 * ?left) / ?depth, px_y = height * (42 / 100) - (width / 2 * (0 - CAMERA_HEIGHT)) / ?depth,
      px_depth = ?depth \<rparr>"
    have proj: "cameraProject ?v p 0 = Some q" using False unfolding cameraProject_def Let_def view_frame q_def by simp
    have low: "px_y q - vw_horizon ?v = CAMERA_HEIGHT * (width / 2) / ?depth" by (simp add: q_def view_frame)
    have "0 < CAMERA_HEIGHT * (width / 2) / ?depth" using True pos by (simp add: CAMERA_HEIGHT_def)
    then have below: "\<not> px_y q \<le> vw_horizon ?v" using low by linarith
    have depth: "CAMERA_HEIGHT * vw_focal ?v / (px_y q - vw_horizon ?v) = ?depth"
      unfolding low using True pos by (simp add: view_frame CAMERA_HEIGHT_def)
    have right: "(px_x q - vw_width ?v / 2) / vw_focal ?v = - ?left / ?depth"
    proof -
      have "(width / 2 - width / 2 * l / d - width / 2) / (width / 2) = - l / d" for l d using True by simp
      then show ?thesis unfolding q_def view_frame pixel.simps .
    qed
    have shape: "a + d * (c + - l / d * s) = a + (d * c - l * s)" "a + d * (s - - l / d * c) = a + (d * s + l * c)"
      if "0 < d" for a d c l s :: real using that by (simp_all add: distrib_left right_diff_distrib)
    have "vw_x ?v + ?depth * (?c + - ?left / ?depth * ?s) = fst p" "vw_y ?v + ?depth * (?s - - ?left / ?depth * ?c) = snd p"
      unfolding shape [OF pos] turned by simp_all
    then have "cameraGroundPoint ?v (px_x q) (px_y q) = Some (p, px_depth q)"
      unfolding cameraGroundPoint_def Let_def using below by (simp only: if_False depth right view_frame(1)) (simp add: q_def prod_eq_iff)
    then show ?thesis using proj by simp
  qed (simp add: cameraProject_def Let_def view_frame)
qed simp

text \<open>A depth is only reported within the range of the sensor.\<close>

lemma depth_in_range: "case slamDepthAt s pose x y width height of None \<Rightarrow> True | Some d \<Rightarrow> DEPTH_MIN \<le> d \<and> d \<le> DEPTH_MAX"
  by (auto simp: slamDepthAt_def Let_def inDepthRange_def split: option.splits if_splits)

end
