(* ===== verification/Usb_Slam.thy ===== *)
theory Usb_Slam
  imports Slam_Concepts
begin

text \<open>
  SLAM with the USB LiDAR, \<open>lab/js/slam/usb-slam-core.js\<close>: point-to-line matching of a scan against the rolling map
  of the last key frames, and the occupancy grid. The object's fields are a record; the buckets of the hash are a
  function from grid cells to lists (an absent bucket is empty); the grid is a list of integers, row by row.
\<close>

definition MAP_SIZE :: int where "MAP_SIZE = 640"
definition RESOLUTION_METRES :: real where "RESOLUTION_METRES = 5 / 100"
definition HASH_CELL_METRES :: real where "HASH_CELL_METRES = 2 / 10"
definition VOXEL_METRES :: real where "VOXEL_METRES = 4 / 100"
definition MATCH_RADIUS_METRES :: real where "MATCH_RADIUS_METRES = 3 / 10"
definition MAX_KEYFRAMES :: nat where "MAX_KEYFRAMES = 25"
definition MAX_PATH_POINTS :: nat where "MAX_PATH_POINTS = 12000"
definition MAX_ICP_ITERATIONS :: nat where "MAX_ICP_ITERATIONS = 12"
definition SCAN_POINT_TARGET :: nat where "SCAN_POINT_TARGET = 260"

section \<open>The state\<close>

record map_point =
  mp_x :: real
  mp_y :: real
  mp_nx :: real
  mp_ny :: real

type_synonym cell = "int \<times> int"

record slam =
  sl_pose :: pose
  sl_frames :: "map_point list list"
  sl_path :: "pose list"
  sl_grid :: "int list"
  sl_accepted :: nat
  sl_rejected :: nat
  sl_last :: "pose option"
  sl_hash :: "cell \<Rightarrow> map_point list"

definition reset :: slam where
  "reset =
     \<lparr> sl_pose = \<lparr> po_x = 0, po_y = 0, po_theta = 0 \<rparr>, sl_frames = [], sl_path = [], sl_grid = replicate (nat (MAP_SIZE * MAP_SIZE)) 0,
       sl_accepted = 0, sl_rejected = 0, sl_last = None, sl_hash = (\<lambda>_. []) \<rparr>"

definition transform :: "point list \<Rightarrow> pose \<Rightarrow> point list" where
  "transform points p =
     (let c = cos (po_theta p); s = sin (po_theta p)
      in map (\<lambda>q. (po_x p + c * fst q - s * snd q, po_y p + s * fst q + c * snd q)) points)"

definition normal_at :: "point list \<Rightarrow> nat \<Rightarrow> map_point option" where
  "normal_at m i =
     (let a = m ! (i - 1); b = m ! (i + 1); q = m ! i; dx = fst b - fst a; dy = snd b - snd a; l = hypot dx dy in
      if l < 15 / 1000 \<or> l > 45 / 100 \<or> hypot (fst q - fst a) (snd q - snd a) > 25 / 100 \<or> hypot (fst q - fst b) (snd q - snd b) > 25 / 100
      then None
      else Some \<lparr> mp_x = fst q, mp_y = snd q, mp_nx = - dy / l, mp_ny = dx / l \<rparr>)"

definition normals :: "point list \<Rightarrow> pose \<Rightarrow> map_point list" where
  "normals points p = (let m = transform points p in List.map_filter (normal_at m) [1..<length m - 1])"

section \<open>The rolling map\<close>

definition voxel :: "map_point \<Rightarrow> cell" where
  "voxel p = (\<lfloor>mp_x p / VOXEL_METRES\<rfloor>, \<lfloor>mp_y p / VOXEL_METRES\<rfloor>)"

definition hash_cell :: "real \<Rightarrow> real \<Rightarrow> cell" where
  "hash_cell x y = (\<lfloor>x / HASH_CELL_METRES\<rfloor>, \<lfloor>y / HASH_CELL_METRES\<rfloor>)"

text \<open>A point goes into its bucket unless its voxel is taken already; the newest frame comes first.\<close>

definition rebuild_point :: "map_point \<Rightarrow> cell set \<times> (cell \<Rightarrow> map_point list) \<Rightarrow> cell set \<times> (cell \<Rightarrow> map_point list)" where
  "rebuild_point p st =
     (case st of (used, hash) \<Rightarrow>
        if voxel p \<in> used then (used, hash)
        else let k = hash_cell (mp_x p) (mp_y p) in (insert (voxel p) used, hash(k := hash k @ [p])))"

definition rebuild :: "map_point list list \<Rightarrow> cell \<Rightarrow> map_point list" where
  "rebuild frames = snd (fold rebuild_point (concat (rev frames)) ({}, \<lambda>_. []))"

definition nearby :: "cell \<Rightarrow> cell list" where
  "nearby g = concat (map (\<lambda>i. map (\<lambda>j. (fst g + i, snd g + j)) [-2..2]) [-2..2])"

definition closer :: "real \<Rightarrow> real \<Rightarrow> map_point \<Rightarrow> map_point option \<times> real \<Rightarrow> map_point option \<times> real" where
  "closer x y q best =
     (let d = (mp_x q - x)\<^sup>2 + (mp_y q - y)\<^sup>2 in if d < snd best then (Some q, d) else best)"

definition nearest :: "(cell \<Rightarrow> map_point list) \<Rightarrow> real \<Rightarrow> real \<Rightarrow> map_point option" where
  "nearest hash x y = fst (fold (closer x y) (concat (map hash (nearby (hash_cell x y)))) (None, MATCH_RADIUS_METRES\<^sup>2))"

section \<open>Matching\<close>

record icp_sums =
  is_a :: matrix
  is_b :: "real list"
  is_count :: nat
  is_total :: real
  is_nxx :: real
  is_nyy :: real
  is_nxy :: real

definition no_sums :: icp_sums where
  "no_sums =
     \<lparr> is_a = [[1 / 100, 0, 0], [0, 1 / 100, 0], [0, 0, 2 / 100]], is_b = [0, 0, 0], is_count = 0, is_total = 0, is_nxx = 0, is_nyy = 0, is_nxy = 0 \<rparr>"

text \<open>What a matched point adds: its signed distance to the line, and how the step changes it.\<close>

definition add_match :: "real list \<Rightarrow> real \<Rightarrow> real \<Rightarrow> icp_sums \<Rightarrow> icp_sums" where
  "add_match j e w s =
     s\<lparr> is_a := map2 (\<lambda>r row. map2 (\<lambda>t v. v + w * j ! r * j ! t) [0..<3] row) [0..<3] (is_a s),
        is_b := map2 (\<lambda>r v. v - w * j ! r * e) [0..<3] (is_b s), is_count := is_count s + 1, is_total := is_total s + \<bar>e\<bar> \<rparr>"

definition match_of :: "(cell \<Rightarrow> map_point list) \<Rightarrow> pose \<Rightarrow> point \<Rightarrow> (map_point \<times> real list \<times> real \<times> real) option" where
  "match_of hash p q =
     (let c = cos (po_theta p); s = sin (po_theta p); rx = c * fst q - s * snd q; ry = s * fst q + c * snd q; x = po_x p + rx; y = po_y p + ry in
      case nearest hash x y of
        None \<Rightarrow> None
      | Some m \<Rightarrow>
          (let e = mp_nx m * (x - mp_x m) + mp_ny m * (y - mp_y m) in
           if \<bar>e\<bar> > 18 / 100 then None
           else Some (m, [mp_nx m, mp_ny m, - mp_nx m * ry + mp_ny m * rx], e, min 1 (4 / 100 / max (1 / 1000) \<bar>e\<bar>))))"

definition add_point :: "(cell \<Rightarrow> map_point list) \<Rightarrow> pose \<Rightarrow> point \<Rightarrow> icp_sums \<Rightarrow> icp_sums" where
  "add_point hash p q s =
     (case match_of hash p q of
        None \<Rightarrow> s
      | Some (m, j, e, w) \<Rightarrow>
          (add_match j e w s)\<lparr> is_nxx := is_nxx s + mp_nx m * mp_nx m, is_nyy := is_nyy s + mp_ny m * mp_ny m, is_nxy := is_nxy s + mp_nx m * mp_ny m \<rparr>)"

definition equations :: "(cell \<Rightarrow> map_point list) \<Rightarrow> point list \<Rightarrow> pose \<Rightarrow> icp_sums" where
  "equations hash points p = fold (add_point hash p) points no_sums"

record fit =
  ft_pose :: pose
  ft_quality :: real
  ft_weak :: bool
  ft_error :: real
  ft_overlap :: real

text \<open>At most twelve steps; \<open>None\<close> is the early return of a scan that cannot be matched.\<close>

definition shape_weak :: "icp_sums \<Rightarrow> bool" where
  "shape_weak s \<longleftrightarrow> (is_nxx s * is_nyy s - is_nxy s * is_nxy s) / max 1 ((is_nxx s + is_nyy s)\<^sup>2) < 25 / 1000"

definition stepped :: "real list \<Rightarrow> pose \<Rightarrow> pose" where
  "stepped step p =
     \<lparr> po_x = po_x p + max (- (1 / 10)) (min (1 / 10) (step ! 0)), po_y = po_y p + max (- (1 / 10)) (min (1 / 10) (step ! 1)),
       po_theta = wrap_angle (po_theta p + max (- (8 / 100)) (min (8 / 100) (step ! 2))) \<rparr>"

fun match_loop :: "nat \<Rightarrow> (cell \<Rightarrow> map_point list) \<Rightarrow> point list \<Rightarrow> fit \<Rightarrow> fit option" where
  "match_loop 0 hash points f = Some f"
| "match_loop (Suc n) hash points f =
     (let s = equations hash points (ft_pose f) in
      if is_count s < 35 then None
      else case solveMatrix (is_a s) (is_b s) of
          None \<Rightarrow> None
        | Some step \<Rightarrow>
            (let overlap = real (is_count s) / real (length points); error = is_total s / real (is_count s);
                 f' = \<lparr> ft_pose = stepped step (ft_pose f), ft_quality = overlap * max 0 (1 - error / (12 / 100)), ft_weak = shape_weak s,
                        ft_error = error, ft_overlap = overlap \<rparr>
             in if sqrt (sum_list (map (\<lambda>v. v\<^sup>2) step)) < 3 / 10000 then Some f' else match_loop n hash points f'))"

record match_result =
  mr_ok :: bool
  mr_pose :: pose
  mr_quality :: real
  mr_weak :: bool

definition match_scan :: "slam \<Rightarrow> point list \<Rightarrow> match_result" where
  "match_scan st points =
     (let was = sl_pose st in
      case match_loop MAX_ICP_ITERATIONS (sl_hash st) points
             \<lparr> ft_pose = was, ft_quality = 0, ft_weak = True, ft_error = 1, ft_overlap = 0 \<rparr> of
        None \<Rightarrow> \<lparr> mr_ok = False, mr_pose = was, mr_quality = 0, mr_weak = True \<rparr>
      | Some f \<Rightarrow>
          (let p = ft_pose f in
           \<lparr> mr_ok = (\<not> ft_weak f \<and> ft_quality f > 48 / 100 \<and> ft_error f < 7 / 100 \<and> ft_overlap f > 55 / 100
               \<and> hypot (po_x p - po_x was) (po_y p - po_y was) < 3 / 10 \<and> \<bar>wrap_angle (po_theta p - po_theta was)\<bar> < 25 / 100),
             mr_pose = p, mr_quality = ft_quality f, mr_weak = ft_weak f \<rparr>))"

section \<open>The occupancy grid\<close>

text \<open>A line of cells (Bresenham): the crossed ones lose evidence, the one it ends in gains.\<close>

fun ray_loop :: "nat \<Rightarrow> int \<Rightarrow> int \<times> int \<Rightarrow> int \<times> int \<Rightarrow> int \<times> int \<Rightarrow> int \<times> int \<Rightarrow> int \<Rightarrow> int list \<Rightarrow> int list" where
  "ray_loop 0 n D S goal p e grid = grid"
| "ray_loop (Suc t) n D S goal p e grid =
     (let x0 = fst p; y0 = snd p; dx = fst D; dy = snd D in
      if x0 < 0 \<or> y0 < 0 \<or> x0 \<ge> n \<or> y0 \<ge> n then grid
      else
        let k = nat (y0 * n + x0) in
        if p = goal then grid[k := min 20 (grid ! k + 5)]
        else
          let grid = grid[k := max (- 20) (grid ! k - 1)];
              e2 = 2 * e;
              (e, x0) = (if e2 \<ge> dy then (e + dy, x0 + fst S) else (e, x0));
              (e, y0) = (if e2 \<le> dx then (e + dx, y0 + snd S) else (e, y0))
          in ray_loop t n D S goal (x0, y0) e grid)"

definition RAY_STEPS :: nat where "RAY_STEPS = 1400"

definition ray :: "int \<Rightarrow> int \<times> int \<Rightarrow> int \<times> int \<Rightarrow> int list \<Rightarrow> int list" where
  "ray n p goal grid =
     (let dx = \<bar>fst goal - fst p\<bar>; dy = - \<bar>snd goal - snd p\<bar>;
          sx = (if fst p < fst goal then 1 else - 1); sy = (if snd p < snd goal then 1 else - 1)
      in ray_loop RAY_STEPS n (dx, dy) (sx, sy) goal p (dx + dy) grid)"

definition map_cell :: "real \<Rightarrow> real \<Rightarrow> int \<times> int" where
  "map_cell x y = (\<lfloor>x / RESOLUTION_METRES + of_int MAP_SIZE / 2\<rfloor>, \<lfloor>of_int MAP_SIZE / 2 - y / RESOLUTION_METRES\<rfloor>)"

definition integrate :: "point list \<Rightarrow> slam \<Rightarrow> slam" where
  "integrate points st =
     (let p = sl_pose st; from = map_cell (po_x p) (po_y p)
      in st\<lparr> sl_grid := fold (\<lambda>q. ray MAP_SIZE from (map_cell (fst q) (snd q))) (transform points p) (sl_grid st) \<rparr>)"

section \<open>One scan\<close>

datatype scan_outcome = FewPoints | Refused bool real pose | OutOfBounds | Mapping real bool pose

definition thinned_scan :: "point list \<Rightarrow> point list" where
  "thinned_scan scan =
     (let stride = max 1 (length scan div SCAN_POINT_TARGET)
      in map ((!) scan) (filter (\<lambda>i. i mod stride = 0) [0..<length scan]))"

definition key_frame :: "slam \<Rightarrow> bool" where
  "key_frame st \<longleftrightarrow>
     (case sl_last st of
        None \<Rightarrow> True
      | Some l \<Rightarrow> sl_accepted st < 6 \<or> hypot (po_x (sl_pose st) - po_x l) (po_y (sl_pose st) - po_y l) > 45 / 1000
          \<or> \<bar>wrap_angle (po_theta (sl_pose st) - po_theta l)\<bar> > 3 / 100)"

definition add_key_frame :: "point list \<Rightarrow> point list \<Rightarrow> slam \<Rightarrow> slam" where
  "add_key_frame scan points st =
     (let st = integrate scan st;
          frames = sl_frames st @ [normals points (sl_pose st)];
          frames = (if length frames > MAX_KEYFRAMES then tl frames else frames)
      in st\<lparr> sl_frames := frames, sl_hash := rebuild frames, sl_last := Some (sl_pose st) \<rparr>)"

definition process :: "point list \<Rightarrow> slam \<Rightarrow> slam \<times> scan_outcome" where
  "process scan st =
     (let points = thinned_scan scan in
      if length points < 60 then (st, FewPoints)
      else
        let result = (if sl_accepted st \<noteq> 0 then match_scan st points
                      else \<lparr> mr_ok = True, mr_pose = sl_pose st, mr_quality = 1, mr_weak = False \<rparr>) in
        if \<not> mr_ok result then (st\<lparr> sl_rejected := sl_rejected st + 1 \<rparr>, Refused (mr_weak result) (mr_quality result) (mr_pose result))
        else if max \<bar>po_x (mr_pose result)\<bar> \<bar>po_y (mr_pose result)\<bar> > 13 then (st, OutOfBounds)
        else
          let st = st\<lparr> sl_pose := mr_pose result, sl_accepted := sl_accepted st + 1 \<rparr>;
              st = (if length (sl_path st) < MAX_PATH_POINTS then st\<lparr> sl_path := sl_path st @ [sl_pose st] \<rparr> else st);
              st = (if key_frame st then add_key_frame scan points st else st)
          in (st, Mapping (mr_quality result) (mr_weak result) (mr_pose result)))"

section \<open>A line reaches its end\<close>

text \<open>
  The line from \<open>(X, Y)\<close> of extent \<open>(D, B)\<close> in the direction \<open>(sx, sy)\<close>: \<open>i\<close> and \<open>j\<close> count the steps in each axis.
  A step is never beyond the end, and every pass takes one.
\<close>

definition line_error :: "int \<Rightarrow> int \<Rightarrow> int \<Rightarrow> int \<Rightarrow> int" where
  "line_error D B i j = D * (1 + j) - B * (1 + i)"

lemma step_x_inside:
  assumes "0 \<le> D" "0 \<le> j" "i = D" "j < B" shows "\<not> 2 * line_error D B i j \<ge> - B"
proof -
  have "D * (1 + j) \<le> D * B" "0 < B" using assms by (auto intro: mult_left_mono)
  then show ?thesis unfolding line_error_def assms(3) by (simp add: algebra_simps)
qed

lemma step_y_inside:
  assumes "0 \<le> i" "0 \<le> B" "j = B" "i < D" shows "\<not> 2 * line_error D B i j \<le> D"
proof -
  have "B * (1 + i) \<le> B * D" "0 < D" using assms by (auto intro: mult_left_mono)
  then show ?thesis unfolding line_error_def assms(3) by (simp add: algebra_simps)
qed

lemma some_step: "0 \<le> D \<Longrightarrow> 0 \<le> B \<Longrightarrow> 2 * line_error D B i j \<ge> - B \<or> 2 * line_error D B i j \<le> D"
  by linarith

definition cell_index :: "int \<Rightarrow> int \<times> int \<Rightarrow> nat" where
  "cell_index n p = nat (snd p * n + fst p)"

definition inside :: "int \<Rightarrow> int \<times> int \<Rightarrow> bool" where
  "inside n p \<longleftrightarrow> 0 \<le> fst p \<and> fst p < n \<and> 0 \<le> snd p \<and> snd p < n"

lemma cell_index_inj:
  assumes "inside n p" "inside n q" "cell_index n p = cell_index n q" shows "p = q"
proof -
  have "0 \<le> snd p * n + fst p" "0 \<le> snd q * n + fst q" using assms(1,2) by (auto simp: inside_def)
  then have e: "snd p * n + fst p = snd q * n + fst q" using assms(3) by (simp add: cell_index_def)
  then have "(snd p * n + fst p) div n = (snd q * n + fst q) div n" "(snd p * n + fst p) mod n = (snd q * n + fst q) mod n" by simp_all
  then show ?thesis using assms by (simp add: inside_def prod_eq_iff)
qed

lemma cell_index_less: "inside n p \<Longrightarrow> cell_index n p < nat (n * n)"
proof -
  assume "inside n p"
  then have "snd p * n + fst p < n * n" "0 < n * n"
    using mult_right_mono [of "snd p" "n - 1" n] by (auto simp: inside_def algebra_simps)
  then show ?thesis by (simp add: cell_index_def)
qed

definition on_line :: "int \<times> int \<Rightarrow> int \<times> int \<Rightarrow> int \<Rightarrow> int \<Rightarrow> int \<times> int" where
  "on_line P S i j = (fst P + fst S * i, snd P + snd S * j)"

text \<open>What a line does to the grid: its end gains evidence, other cells from \<open>(i, j)\<close> on lose a step at most.\<close>

definition line_drawn :: "int \<Rightarrow> int \<times> int \<Rightarrow> int \<times> int \<Rightarrow> int \<Rightarrow> int \<Rightarrow> int \<Rightarrow> int \<Rightarrow> int list \<Rightarrow> int list \<Rightarrow> bool" where
  "line_drawn n P S D B i j grid grid' \<longleftrightarrow>
     length grid' = length grid
     \<and> grid' ! cell_index n (on_line P S D B) = min 20 (grid ! cell_index n (on_line P S D B) + 5)
     \<and> (\<forall>k. k \<noteq> cell_index n (on_line P S D B) \<longrightarrow> grid' ! k \<noteq> grid ! k \<longrightarrow>
          grid' ! k = max (- 20) (grid ! k - 1)
          \<and> (\<exists>i' j'. i \<le> i' \<and> i' \<le> D \<and> j \<le> j' \<and> j' \<le> B \<and> k = cell_index n (on_line P S i' j')))"

lemma line_reaches:
  assumes S: "fst S \<in> {1, - 1}" "snd S \<in> {1, - 1}" and size: "length grid = nat (n * n)"
    and ins: "\<And>i j. 0 \<le> i \<Longrightarrow> i \<le> D \<Longrightarrow> 0 \<le> j \<Longrightarrow> j \<le> B \<Longrightarrow> inside n (on_line P S i j)"
    and ij: "0 \<le> i" "i \<le> D" "0 \<le> j" "j \<le> B" and fuel: "nat (D - i) + nat (B - j) < t"
  shows "line_drawn n P S D B i j grid (ray_loop t n (D, - B) S (on_line P S D B) (on_line P S i j) (line_error D B i j) grid)"
  using size ij fuel
proof (induction t arbitrary: i j grid)
  case (Suc t)
  let ?p = "on_line P S i j" and ?goal = "on_line P S D B" and ?e = "line_error D B i j"
  have in_p: "inside n ?p" by (rule ins) (use Suc.prems in auto)
  have not_out: "\<not> (fst ?p < 0 \<or> snd ?p < 0 \<or> fst ?p \<ge> n \<or> snd ?p \<ge> n)" using in_p by (auto simp: inside_def)
  have at_goal: "?p = ?goal \<longleftrightarrow> i = D \<and> j = B" using S by (auto simp: on_line_def)
  show ?case
  proof (cases "?p = ?goal")
    case True
    have "cell_index n ?goal < length grid" using cell_index_less [OF in_p] True Suc.prems(1) by simp
    then show ?thesis using True not_out by (auto simp: line_drawn_def Let_def cell_index_def nth_list_update)
  next
    case False
    let ?X = "2 * ?e \<ge> - B" and ?Y = "2 * ?e \<le> D"
    define i1 where "i1 = (if ?X then i + 1 else i)"
    define j1 where "j1 = (if ?Y then j + 1 else j)"
    define g where "g = grid[cell_index n ?p := max (- 20) (grid ! cell_index n ?p - 1)]"
    have D: "0 \<le> D" "0 \<le> B" using Suc.prems by auto
    have "i \<noteq> D" if ?X using that step_x_inside [OF D(1) Suc.prems(4), of i B] False at_goal Suc.prems(5) by (metis order_le_less)
    then have "i < D" if ?X using that Suc.prems(3) by simp
    then have i1: "0 \<le> i1" "i1 \<le> D" "i \<le> i1" using Suc.prems by (cases ?X; simp add: i1_def)+
    have "j \<noteq> B" if ?Y using that step_y_inside [OF Suc.prems(2) D(2), of j D] False at_goal Suc.prems(3) by (metis order_le_less)
    then have "j < B" if ?Y using that Suc.prems(5) by simp
    then have j1: "0 \<le> j1" "j1 \<le> B" "j \<le> j1" using Suc.prems by (cases ?Y; simp add: j1_def)+
    have moved: "i < i1 \<or> j < j1" using some_step [OF D, of i j] by (auto simp: i1_def j1_def)
    have fuel: "nat (D - i1) + nat (B - j1) < t" using Suc.prems(6) moved i1 j1 by auto
    have e: "line_error D B i1 j1 = ?e + (if ?X then - B else 0) + (if ?Y then D else 0)"
      by (simp add: line_error_def i1_def j1_def algebra_simps)
    have p1: "on_line P S i1 j1 = (fst ?p + (if ?X then fst S else 0), snd ?p + (if ?Y then snd S else 0))"
      by (simp add: on_line_def i1_def j1_def algebra_simps)
    have loop: "ray_loop (Suc t) n (D, - B) S ?goal ?p ?e grid = ray_loop t n (D, - B) S ?goal (on_line P S i1 j1) (line_error D B i1 j1) g"
      using not_out False unfolding e p1 by (simp add: Let_def g_def cell_index_def)
    have drawn: "line_drawn n P S D B i1 j1 g (ray_loop t n (D, - B) S ?goal (on_line P S i1 j1) (line_error D B i1 j1) g)"
      by (rule Suc.IH) (use i1 j1 fuel Suc.prems(1) in \<open>auto simp: g_def\<close>)
    have here: "cell_index n ?p \<noteq> cell_index n (on_line P S i' j')" if "i1 \<le> i'" "i' \<le> D" "j1 \<le> j'" "j' \<le> B" for i' j'
    proof
      assume "cell_index n ?p = cell_index n (on_line P S i' j')"
      moreover have "inside n (on_line P S i' j')" by (rule ins) (use that i1 j1 in auto)
      ultimately have "?p = on_line P S i' j'" using cell_index_inj in_p by blast
      then have "i = i'" "j = j'" using S by (auto simp: on_line_def)
      then show False using that moved by auto
    qed
    have goal_g: "g ! cell_index n ?goal = grid ! cell_index n ?goal" using here [of D B] i1 j1 by (simp add: g_def)
    have at_p: "g ! cell_index n ?p = max (- 20) (grid ! cell_index n ?p - 1)"
      using cell_index_less [OF in_p] Suc.prems(1) by (simp add: g_def)
    have other: "g ! k = grid ! k" if "k \<noteq> cell_index n ?p" for k using that by (simp add: g_def)
    let ?r = "ray_loop t n (D, - B) S ?goal (on_line P S i1 j1) (line_error D B i1 j1) g"
    have "line_drawn n P S D B i j grid ?r"
      unfolding line_drawn_def
    proof (intro conjI allI impI)
      show "length ?r = length grid" using drawn by (simp add: line_drawn_def g_def)
      show "?r ! cell_index n ?goal = min 20 (grid ! cell_index n ?goal + 5)" using drawn goal_g by (simp add: line_drawn_def)
    next
      fix k assume k: "k \<noteq> cell_index n ?goal" "?r ! k \<noteq> grid ! k"
      have kept: "?r ! k = g ! k" if "k = cell_index n ?p"
        using drawn k(1) here that unfolding line_drawn_def by metis
      show "?r ! k = max (- 20) (grid ! k - 1)"
      proof (cases "k = cell_index n ?p")
        case True
        then show ?thesis using kept at_p by simp
      next
        case False
        then show ?thesis using drawn k other [OF False] unfolding line_drawn_def by metis
      qed
      show "\<exists>i' j'. i \<le> i' \<and> i' \<le> D \<and> j \<le> j' \<and> j' \<le> B \<and> k = cell_index n (on_line P S i' j')"
      proof (cases "k = cell_index n ?p")
        case True
        then show ?thesis using Suc.prems by auto
      next
        case False
        then have "?r ! k \<noteq> g ! k" using k(2) other by simp
        then obtain i' j' where "i1 \<le> i'" "i' \<le> D" "j1 \<le> j'" "j' \<le> B" "k = cell_index n (on_line P S i' j')"
          using drawn k(1) unfolding line_drawn_def by blast
        then show ?thesis using i1(3) j1(3) by (intro exI [of _ i'] exI [of _ j']) auto
      qed
    qed
    then show ?thesis unfolding loop .
  qed
qed simp

text \<open>The grid keeps its size and its scores stay within 20, wherever a line leads.\<close>

definition grid_ok :: "int list \<Rightarrow> bool" where
  "grid_ok grid \<longleftrightarrow> length grid = nat (MAP_SIZE * MAP_SIZE) \<and> list_all (\<lambda>v. - 20 \<le> v \<and> v \<le> 20) grid"

lemma list_all_update_at: "list_all P xs \<Longrightarrow> P v \<Longrightarrow> list_all P (xs[i := v])"
  using set_update_subset_insert [of xs i v] by (auto simp: list_all_iff)

lemma update_ok: "list_all P xs \<Longrightarrow> (k < length xs \<Longrightarrow> P v) \<Longrightarrow> list_all P (xs[k := v])"
  by (cases "k < length xs") (auto simp: list_all_update_at list_update_beyond)

lemma ray_loop_ok: "grid_ok grid \<Longrightarrow> grid_ok (ray_loop t n D S goal p e grid)"
proof (induction t arbitrary: p e grid)
  case (Suc t)
  have range: "k < length grid \<Longrightarrow> - 20 \<le> grid ! k \<and> grid ! k \<le> 20" for k
    using Suc.prems by (auto simp: grid_ok_def list_all_length)
  have "grid_ok (grid[k := min 20 (grid ! k + 5)])" "grid_ok (grid[k := max (- 20) (grid ! k - 1)])" for k
    using Suc.prems range [of k] by (auto simp: grid_ok_def intro!: update_ok)
  then show ?case using Suc by (simp add: Let_def)
qed simp

lemma ray_ok: "grid_ok grid \<Longrightarrow> grid_ok (ray n p goal grid)"
  by (simp add: ray_def Let_def ray_loop_ok)

text \<open>
  C19: A measured point always leaves its mark: for a beam whose two ends lie on the map, the 1400 passes of the loop are enough,
  the cell of the measured point gains its five points (at most 20), and every other cell that changes lies between the two
  ends and loses exactly one (at least -20).
\<close>

theorem ray_marks_its_end:
  "if inside MAP_SIZE p \<and> inside MAP_SIZE goal \<and> length grid = nat (MAP_SIZE * MAP_SIZE)
   then (let grid' = ray MAP_SIZE p goal grid in
     grid' ! cell_index MAP_SIZE goal = min 20 (grid ! cell_index MAP_SIZE goal + 5)
     \<and> {k. grid' ! k \<noteq> grid ! k} - {cell_index MAP_SIZE goal}
       \<subseteq> {k. grid' ! k = max (- 20) (grid ! k - 1)}
         \<inter> cell_index MAP_SIZE ` ({min (fst p) (fst goal)..max (fst p) (fst goal)} \<times> {min (snd p) (snd goal)..max (snd p) (snd goal)}))
   else True"
proof -
  { assume p: "inside MAP_SIZE p" and goal: "inside MAP_SIZE goal" and size: "length grid = nat (MAP_SIZE * MAP_SIZE)"
    let ?D = "\<bar>fst goal - fst p\<bar>" and ?B = "\<bar>snd goal - snd p\<bar>"
    let ?S = "(if fst p < fst goal then 1 else - 1 :: int, if snd p < snd goal then 1 else - 1 :: int)"
    have between: "on_line p ?S i j \<in> {min (fst p) (fst goal)..max (fst p) (fst goal)} \<times> {min (snd p) (snd goal)..max (snd p) (snd goal)}"
      if "0 \<le> i" "i \<le> ?D" "0 \<le> j" "j \<le> ?B" for i j using that by (auto simp: on_line_def)
    have ins: "inside MAP_SIZE (on_line p ?S i j)" if "0 \<le> i" "i \<le> ?D" "0 \<le> j" "j \<le> ?B" for i j
      using between [OF that] p goal by (auto simp: inside_def on_line_def)
    have ends: "on_line p ?S ?D ?B = goal" "on_line p ?S 0 0 = p" by (auto simp: on_line_def prod_eq_iff)
    have fuel: "nat (?D - 0) + nat (?B - 0) < RAY_STEPS" using p goal by (auto simp: inside_def MAP_SIZE_def RAY_STEPS_def)
    have S: "fst ?S \<in> {1, - 1}" "snd ?S \<in> {1, - 1}" by simp_all
    have e: "line_error ?D ?B 0 0 = ?D + - ?B" by (simp add: line_error_def)
    have "line_drawn MAP_SIZE p ?S ?D ?B 0 0 grid (ray MAP_SIZE p goal grid)"
      using line_reaches [OF S size ins _ _ _ _ fuel] unfolding ray_def Let_def ends e by simp
    then have "ray MAP_SIZE p goal grid ! cell_index MAP_SIZE goal = min 20 (grid ! cell_index MAP_SIZE goal + 5)
      \<and> {k. ray MAP_SIZE p goal grid ! k \<noteq> grid ! k} - {cell_index MAP_SIZE goal}
       \<subseteq> {k. ray MAP_SIZE p goal grid ! k = max (- 20) (grid ! k - 1)}
         \<inter> cell_index MAP_SIZE ` ({min (fst p) (fst goal)..max (fst p) (fst goal)} \<times> {min (snd p) (snd goal)..max (snd p) (snd goal)})"
      using between unfolding line_drawn_def ends by blast
  }
  then show ?thesis by (simp add: Let_def)
qed

section \<open>A matching step is the best one\<close>

text \<open>The terms of the step: the weak pull to no step at all, and each matched point.\<close>

definition unit_coefficient :: "nat \<Rightarrow> nat \<Rightarrow> real" where
  "unit_coefficient i j = (if i = j then 1 else 0)"

definition pull_terms :: "lsq_term list" where
  "pull_terms = [(1 / 100, unit_coefficient 0, 0), (1 / 100, unit_coefficient 1, 0), (2 / 100, unit_coefficient 2, 0)]"

definition match_term :: "map_point \<times> real list \<times> real \<times> real \<Rightarrow> lsq_term" where
  "match_term m = (case m of (q, j, e, w) \<Rightarrow> (w, (!) j, - e))"

definition icp_terms :: "(cell \<Rightarrow> map_point list) \<Rightarrow> point list \<Rightarrow> pose \<Rightarrow> lsq_term list" where
  "icp_terms hash points p = pull_terms @ map match_term (List.map_filter (match_of hash p) points)"

definition sums_are :: "lsq_term list \<Rightarrow> icp_sums \<Rightarrow> bool" where
  "sums_are ts s \<longleftrightarrow> square 3 (is_a s) (is_b s) \<and> normal_system ts (is_a s) (is_b s)"

lemma all_less_3: "(\<forall>i<3. P i) \<longleftrightarrow> P 0 \<and> P 1 \<and> P (2::nat)"
  by (auto simp: numeral_3_eq_3 numeral_2_eq_2 less_Suc_eq)

lemma no_sums_are: "sums_are pull_terms no_sums"
proof -
  have len: "length (is_b no_sums) = 3" by (simp add: no_sums_def)
  have "normal_system pull_terms (is_a no_sums) (is_b no_sums)"
    unfolding normal_system_def len all_less_3
    by (simp add: no_sums_def pull_terms_def normal_entry_def normal_right_def unit_coefficient_def)
  then show ?thesis by (simp add: sums_are_def no_sums_def square_def)
qed

lemma normal_snoc:
  "normal_entry (ts @ [(w, a, b)]) i j = normal_entry ts i j + w * a i * a j" "normal_right (ts @ [(w, a, b)]) i = normal_right ts i + w * a i * b"
  by (simp_all add: normal_entry_def normal_right_def)

lemma add_match_are:
  assumes "sums_are ts s" shows "sums_are (ts @ [(w, (!) j, - e)]) (add_match j e w s)"
proof -
  have len: "length (is_a s) = 3" "length (is_b s) = 3" using assms by (simp_all add: sums_are_def square_def)
  have width: "length (is_a s ! i) = 3" if "i < 3" for i using assms that by (simp add: sums_are_def square_def)
  have "square 3 (is_a (add_match j e w s)) (is_b (add_match j e w s))"
    using len width by (auto simp: square_def add_match_def set_conv_nth)
  moreover have "normal_system (ts @ [(w, (!) j, - e)]) (is_a (add_match j e w s)) (is_b (add_match j e w s))"
    using assms len width by (simp add: sums_are_def normal_system_def add_match_def normal_snoc)
  ultimately show ?thesis by (simp add: sums_are_def)
qed

lemma equations_are_normal: "sums_are (icp_terms hash points p) (equations hash points p)"
proof (induction points rule: rev_induct)
  case Nil
  show ?case using no_sums_are by (simp add: icp_terms_def equations_def List.map_filter_simps)
next
  case (snoc q points)
  show ?case
  proof (cases "match_of hash p q")
    case None
    then show ?thesis using snoc by (simp add: icp_terms_def equations_def add_point_def List.map_filter_def)
  next
    case (Some m)
    obtain x j e w where m: "m = (x, j, e, w)" by (cases m)
    then show ?thesis
      using add_match_are [OF snoc.IH, of w j e] Some
      by (simp add: icp_terms_def equations_def add_point_def List.map_filter_def match_term_def sums_are_def)
  qed
qed

lemma match_weight: "match_of hash p q = Some m \<Longrightarrow> 0 \<le> fst (match_term m)"
  by (auto simp: match_of_def match_term_def Let_def split: option.splits if_splits)

lemma icp_weights: "list_all (\<lambda>t. 0 \<le> fst t) (icp_terms hash points p)"
  by (auto simp: icp_terms_def pull_terms_def list_all_iff List.map_filter_def match_weight)

text \<open>
  C29: Every step of the matching is the best one for the matches it was made of: the solved step minimises the weighted
  squares of the distances to the matched lines (to first order in the step) together with the weak pull to no step.
\<close>

theorem icp_step_least:
  "case solveMatrix (is_a (equations hash points p)) (is_b (equations hash points p)) of
     None \<Rightarrow> True
   | Some step \<Rightarrow> lsq_cost 3 (icp_terms hash points p) ((!) step) \<le> lsq_cost 3 (icp_terms hash points p) other"
proof (cases "solveMatrix (is_a (equations hash points p)) (is_b (equations hash points p))")
  case (Some step)
  have "square 3 (is_a (equations hash points p)) (is_b (equations hash points p))"
    and sys: "normal_system (icp_terms hash points p) (is_a (equations hash points p)) (is_b (equations hash points p))"
    using equations_are_normal [of hash points p] by (simp_all add: sums_are_def)
  then have sq: "square (length (is_b (equations hash points p))) (is_a (equations hash points p)) (is_b (equations hash points p))"
    and len: "length (is_b (equations hash points p)) = 3" by (simp_all add: square_def)
  show ?thesis using icp_step_usb.answer_minimises [OF sq len Some sys icp_weights] Some len by simp
qed simp

section \<open>The map stays bounded and refused scans leave no trace\<close>

definition rolling_map_ok :: "map_point list list \<Rightarrow> (cell \<Rightarrow> map_point list) \<Rightarrow> bool" where
  "rolling_map_ok frames hash \<longleftrightarrow> length frames \<le> MAX_KEYFRAMES \<and> hash = rebuild frames
     \<and> list_all (list_all (\<lambda>q. (mp_nx q)\<^sup>2 + (mp_ny q)\<^sup>2 = 1)) frames"

definition slam_ok :: "slam \<Rightarrow> bool" where
  "slam_ok st \<longleftrightarrow>
     grid_ok (sl_grid st) \<and> rolling_map_ok (sl_frames st) (sl_hash st)
     \<and> length (sl_path st) = min (sl_accepted st) MAX_PATH_POINTS \<and> (sl_last st = None \<longleftrightarrow> sl_accepted st = 0)
     \<and> \<bar>po_x (sl_pose st)\<bar> \<le> 13 \<and> \<bar>po_y (sl_pose st)\<bar> \<le> 13"

lemma normal_unit: "normal_at m i = Some q \<Longrightarrow> (mp_nx q)\<^sup>2 + (mp_ny q)\<^sup>2 = 1"
proof -
  assume some: "normal_at m i = Some q"
  let ?dx = "fst (m ! (i + 1)) - fst (m ! (i - 1))" and ?dy = "snd (m ! (i + 1)) - snd (m ! (i - 1))"
  have l: "15 / 1000 \<le> hypot ?dx ?dy" and q: "mp_nx q = - ?dy / hypot ?dx ?dy" "mp_ny q = ?dx / hypot ?dx ?dy"
    using some by (auto simp: normal_at_def Let_def split: if_splits)
  have sq: "(hypot ?dx ?dy)\<^sup>2 = ?dx\<^sup>2 + ?dy\<^sup>2" by (simp add: power2_eq_square)
  have "(mp_nx q)\<^sup>2 + (mp_ny q)\<^sup>2 = (?dx\<^sup>2 + ?dy\<^sup>2) / (hypot ?dx ?dy)\<^sup>2"
    unfolding q power_divide power2_minus by (simp add: add_divide_distrib)
  also have "\<dots> = 1" unfolding sq [symmetric] using l by (intro divide_self) (auto simp: hypot_def)
  finally show ?thesis .
qed

lemma normals_unit: "list_all (\<lambda>q. (mp_nx q)\<^sup>2 + (mp_ny q)\<^sup>2 = 1) (normals points p)"
  using normal_unit by (auto simp: normals_def Let_def List.map_filter_def list_all_iff)

lemma integrate_ok: "grid_ok (sl_grid st) \<Longrightarrow> grid_ok (sl_grid (integrate points st))"
proof -
  have "grid_ok grid \<Longrightarrow> grid_ok (fold (\<lambda>q. ray MAP_SIZE p (f q)) qs grid)" for p f qs grid
    by (induction qs arbitrary: grid) (simp_all add: ray_ok)
  then show "grid_ok (sl_grid st) \<Longrightarrow> ?thesis" by (simp add: integrate_def Let_def)
qed

lemma integrate_frame:
  "sl_pose (integrate points st) = sl_pose st" "sl_frames (integrate points st) = sl_frames st" "sl_path (integrate points st) = sl_path st"
  "sl_accepted (integrate points st) = sl_accepted st" "sl_rejected (integrate points st) = sl_rejected st"
  by (simp_all add: integrate_def Let_def)

lemma key_frame_frame:
  "sl_pose (add_key_frame scan points st) = sl_pose st" "sl_path (add_key_frame scan points st) = sl_path st"
  "sl_accepted (add_key_frame scan points st) = sl_accepted st" "sl_last (add_key_frame scan points st) = Some (sl_pose st)"
  by (simp_all add: add_key_frame_def Let_def integrate_frame)

lemma key_frame_ok:
  assumes "grid_ok (sl_grid st)" "rolling_map_ok (sl_frames st) (sl_hash st)"
  shows "grid_ok (sl_grid (add_key_frame scan points st)) \<and> rolling_map_ok (sl_frames (add_key_frame scan points st)) (sl_hash (add_key_frame scan points st))"
proof -
  have tail: "list_all P (tl xs)" if "list_all P xs" for P and xs :: "map_point list list" using that by (cases xs) simp_all
  show ?thesis
    using assms integrate_ok [OF assms(1), of scan] normals_unit
    by (auto simp: add_key_frame_def Let_def integrate_frame rolling_map_ok_def intro!: tail)
qed

lemma usb_process_ok: "slam_ok st \<Longrightarrow> slam_ok (fst (process scan st))"
proof -
  assume ok: "slam_ok st"
  define points where "points = thinned_scan scan"
  define r where "r = (if sl_accepted st \<noteq> 0 then match_scan st points else \<lparr> mr_ok = True, mr_pose = sl_pose st, mr_quality = 1, mr_weak = False \<rparr>)"
  define st1 where "st1 = st\<lparr> sl_pose := mr_pose r, sl_accepted := sl_accepted st + 1 \<rparr>"
  define st2 where "st2 = (if length (sl_path st1) < MAX_PATH_POINTS then st1\<lparr> sl_path := sl_path st1 @ [sl_pose st1] \<rparr> else st1)"
  have process: "fst (process scan st) = (if length points < 60 then st else if \<not> mr_ok r then st\<lparr> sl_rejected := sl_rejected st + 1 \<rparr>
      else if max \<bar>po_x (mr_pose r)\<bar> \<bar>po_y (mr_pose r)\<bar> > 13 then st else if key_frame st2 then add_key_frame scan points st2 else st2)"
    unfolding process_def Let_def points_def [symmetric] r_def [symmetric] st1_def [symmetric] st2_def [symmetric] by simp
  have same: "sl_grid st2 = sl_grid st" "sl_frames st2 = sl_frames st" "sl_hash st2 = sl_hash st" "sl_last st2 = sl_last st"
    "sl_pose st2 = mr_pose r" "sl_accepted st2 = sl_accepted st + 1"
    by (simp_all add: st2_def st1_def)
  have path: "length (sl_path st2) = min (sl_accepted st + 1) MAX_PATH_POINTS"
    using ok by (simp add: slam_ok_def st2_def st1_def)
  have first: "key_frame st2" if "sl_accepted st = 0" using ok that same by (simp add: key_frame_def slam_ok_def)
  have "slam_ok (if key_frame st2 then add_key_frame scan points st2 else st2)" if "\<not> max \<bar>po_x (mr_pose r)\<bar> \<bar>po_y (mr_pose r)\<bar> > 13"
    using ok that key_frame_ok [of st2 scan points] path first by (auto simp: slam_ok_def key_frame_frame same)
  then show ?thesis using ok unfolding process by (simp add: slam_ok_def)
qed

interpretation usb_slam: event_machine "\<lambda>scan st. fst (process scan st)" slam_ok
  by unfold_locales (rule usb_process_ok)

lemma reset_ok: "slam_ok reset"
  by (simp add: slam_ok_def reset_def grid_ok_def rolling_map_ok_def rebuild_def MAX_PATH_POINTS_def list_all_iff)

text \<open>
  C28: Whatever scans come, the memory of the map is bounded and consistent: the grid keeps its 640 by 640 cells with scores
  within 20, at most 25 key frames of unit normals make up the rolling map and the hash is the one of these frames, the
  path holds every accepted pose up to 12000, and the estimated position never leaves the 13 metres around the start.
\<close>

theorem usb_map_always_sound: "slam_ok (fold (\<lambda>scan st. fst (process scan st)) scans reset)"
  by (rule usb_slam.run_inv [OF reset_ok])

text \<open>How far a scan moved the estimate.\<close>

definition moved_little :: "pose \<Rightarrow> pose \<Rightarrow> bool" where
  "moved_little p q \<longleftrightarrow> hypot (po_x q - po_x p) (po_y q - po_y p) < 3 / 10 \<and> \<bar>wrap_angle (po_theta q - po_theta p)\<bar> < 25 / 100"

text \<open>
  C13: A scan that cannot be matched leaves no trace: unless it is mapped, it changes nothing but the count of rejected scans. A
  mapped scan after the first one moved the pose by less than 0.3 metres and 0.25 radians, was not weak and had a quality
  above 0.48.
\<close>

theorem refused_scan_leaves_no_trace:
  "case process scan st of
     (st', Mapping quality weak pose) \<Rightarrow>
       sl_pose st' = pose \<and> (if sl_accepted st = 0 then pose = sl_pose st else moved_little (sl_pose st) pose \<and> \<not> weak \<and> quality > 48 / 100)
   | (st', _) \<Rightarrow> st'\<lparr> sl_rejected := sl_rejected st \<rparr> = st"
proof -
  have accepted: "moved_little (sl_pose st) (mr_pose (match_scan st points)) \<and> \<not> mr_weak (match_scan st points)
      \<and> mr_quality (match_scan st points) > 48 / 100" if "mr_ok (match_scan st points)" for points
    using that by (auto simp: match_scan_def Let_def moved_little_def split: option.splits)
  show ?thesis
    using accepted [of "thinned_scan scan"] by (auto simp: process_def Let_def key_frame_frame split: if_splits)
qed

end
