(* ===== verification/Slam_Engine.thy ===== *)
theory Slam_Engine
  imports Slam_Camera Usb_Slam Engine_Maths Json
begin

text \<open>
  The experiment of the SLAM course, \<open>lab/js/slam/engine.js\<close>: the simulated drive and its sensor log, the estimate of
  the drive from wheels, gyro and LiDAR, its measures, and the check of a log recorded on a robot. The texts of the
  methods and conditions are left out.
\<close>

section \<open>Driving\<close>

datatype slam_method = Wheel | Imu | Slam

definition integratePose :: "pose \<Rightarrow> real \<Rightarrow> real \<Rightarrow> pose" where
  "integratePose p distance turn =
     (let heading = po_theta p + turn / 2
      in \<lparr> po_x = po_x p + distance * cos heading, po_y = po_y p + distance * sin heading, po_theta = wrap_angle (po_theta p + turn) \<rparr>)"

definition raycast :: "pose \<Rightarrow> real \<Rightarrow> rect list \<Rightarrow> real \<Rightarrow> real" where
  "raycast p angle rects furthest =
     fold (\<lambda>r best. case hit_box (1 / 10 ^ 9) (po_x p, po_y p) angle r of None \<Rightarrow> best | Some (near, _) \<Rightarrow> min best near) rects furthest"

definition SAMPLE_PERIOD :: real where "SAMPLE_PERIOD = 2 / 10"
definition LIDAR_BEAMS :: nat where "LIDAR_BEAMS = 72"
definition CRUISE_SPEED :: real where "CRUISE_SPEED = 25 / 100"
definition TURN_RATE :: real where "TURN_RATE = 65 / 100"
definition STATIONARY_SECONDS :: real where "STATIONARY_SECONDS = 2"
definition SETTLE_SECONDS :: real where "SETTLE_SECONDS = 1"
definition MIN_RANGE :: real where "MIN_RANGE = 3 / 100"
definition RANGE_NOISE :: real where "RANGE_NOISE = 8 / 1000"
definition RPM_NOISE :: real where "RPM_NOISE = 15 / 1000"
definition GYRO_NOISE :: real where "GYRO_NOISE = 15 / 10000"
definition ACCEL_NOISE :: real where "ACCEL_NOISE = 2 / 100"
definition GRAVITY :: real where "GRAVITY = 981 / 100"
definition MAGNETIC_FIELD :: "real \<times> real" where "MAGNETIC_FIELD = (25, - 40)"
definition BIASED_GYRO_OFFSET :: real where "BIASED_GYRO_OFFSET = 26 / 1000"
definition GYRO_OFFSET :: real where "GYRO_OFFSET = 1 / 1000"
definition FULL_GRIP :: "real \<times> real" where "FULL_GRIP = (1, 1)"
definition ROOM_LEGS :: "real list" where "ROOM_LEGS = [37 / 10, 21 / 10, 37 / 10, 21 / 10]"
definition HALLWAY_LEG_SECONDS :: real where "HALLWAY_LEG_SECONDS = 20"

definition WHEEL_GRIP :: "string \<Rightarrow> (real \<times> real) option" where
  "WHEEL_GRIP scenario = map_of [(''slip'', (96 / 100, 995 / 1000)), (''corridor'', (93 / 100, 93 / 100))] scenario"

definition slamScene :: "string \<Rightarrow> scene" where
  "slamScene scenario =
     (if scenario = ''corridor''
      then \<lparr> sc_width = 14, sc_height = 22 / 10, sc_walls = [], sc_start = \<lparr> po_x = 4, po_y = 11 / 10, po_theta = 0 \<rparr> \<rparr>
      else \<lparr> sc_width = 48 / 10, sc_height = 32 / 10,
         sc_walls = [\<lparr> bx_x = 14 / 10, bx_y = 135 / 100, bx_w = 35 / 100, bx_h = 115 / 100 \<rparr>,
           \<lparr> bx_x = 285 / 100, bx_y = 7 / 10, bx_w = 35 / 100, bx_h = 105 / 100 \<rparr>],
         sc_start = \<lparr> po_x = 55 / 100, po_y = 55 / 100, po_theta = 0 \<rparr> \<rparr>)"

definition turnSeconds :: "real \<Rightarrow> real" where "turnSeconds angle = angle / TURN_RATE"

definition turnRate :: "real \<Rightarrow> real" where
  "turnRate angle = angle / (of_int (js_round (turnSeconds angle / SAMPLE_PERIOD)) * SAMPLE_PERIOD)"

section \<open>The sensor log\<close>

record slam_config =
  sg_radius :: real
  sg_track :: real
  sg_rangeMax :: real
  sg_lidar :: pose

record sensor_frame =
  fr_t :: real
  fr_leftRpm :: real
  fr_rightRpm :: real
  fr_gyroZ :: real
  fr_accel :: "real list option"
  fr_gyro :: "real list option"
  fr_mag :: "real list option"
  fr_ranges :: "num list"
  fr_angleMin :: real
  fr_angleIncrement :: real
  fr_camera :: "observation option"

record sensor_log =
  lg_hardware :: bool
  lg_config :: slam_config
  lg_frames :: "sensor_frame list"
  lg_reference :: "pose list option"
  lg_scene :: "scene option"
  lg_stationarySeconds :: real

definition simulated_config :: slam_config where
  "simulated_config = \<lparr> sg_radius = 65 / 1000, sg_track = 32 / 100, sg_rangeMax = 32 / 10, sg_lidar = \<lparr> po_x = 0, po_y = 0, po_theta = 0 \<rparr> \<rparr>"

record drive_state =
  dr_pose :: pose
  dr_time :: real
  dr_previousSpeed :: real
  dr_frames :: "sensor_frame list"
  dr_reference :: "pose list"
  dr_random :: rng

definition wheel_rpm :: "real \<Rightarrow> real \<Rightarrow> real \<Rightarrow> real" where
  "wheel_rpm radius wheelSpeed wheelGrip = ((wheelSpeed / wheelGrip / radius) * 60) / (2 * pi)"

definition noise :: "real \<Rightarrow> rng \<Rightarrow> real \<times> rng" where
  "noise deviation random = (let (v, random) = gaussian random in (v * deviation, random))"

text \<open>One range: a beam without an echo draws no random number.\<close>

definition range_reading :: "pose \<Rightarrow> rect list \<Rightarrow> nat \<Rightarrow> num list \<times> rng \<Rightarrow> num list \<times> rng" where
  "range_reading p rects k st =
     (let distance = raycast p (po_theta p + (real k * 2 * pi) / real LIDAR_BEAMS) rects (sg_rangeMax simulated_config) in
      if distance \<ge> sg_rangeMax simulated_config then (fst st @ [None], snd st)
      else let (v, random) = noise RANGE_NOISE (snd st) in (fst st @ [Some (clamp_to MIN_RANGE (sg_rangeMax simulated_config) (distance + v))], random))"

definition gyro_offset :: "string \<Rightarrow> real" where
  "gyro_offset scenario = (if scenario = ''bias'' then BIASED_GYRO_OFFSET else GYRO_OFFSET)"

definition sample :: "string \<Rightarrow> real \<Rightarrow> real \<Rightarrow> drive_state \<Rightarrow> drive_state" where
  "sample scenario speed yawRate d =
     (let sc = slamScene scenario; rects = slamSceneRects sc; config = simulated_config;
          grip = (if \<bar>speed\<bar> > 0 then coalesce (WHEEL_GRIP scenario) FULL_GRIP else FULL_GRIP);
          half = (yawRate * sg_track config) / 2;
          left = wheel_rpm (sg_radius config) (speed - half) (fst grip); right = wheel_rpm (sg_radius config) (speed + half) (snd grip);
          p = integratePose (dr_pose d) (speed * SAMPLE_PERIOD) (yawRate * SAMPLE_PERIOD);
          time = dr_time d + SAMPLE_PERIOD;
          (ranges, random) = fold (range_reading p rects) [0..<LIDAR_BEAMS] ([], dr_random d);
          forwardAccel = (speed - dr_previousSpeed d) / SAMPLE_PERIOD;
          (nl, random) = noise RPM_NOISE random; (nr, random) = noise RPM_NOISE random; (ng, random) = noise GYRO_NOISE random;
          (na, random) = noise ACCEL_NOISE random;
          frame = \<lparr> fr_t = to_fixed 6 time, fr_leftRpm = left + nl, fr_rightRpm = right + nr, fr_gyroZ = yawRate + gyro_offset scenario + ng,
            fr_accel = Some [forwardAccel + na, speed * yawRate, GRAVITY], fr_gyro = Some [0, 0, yawRate + gyro_offset scenario],
            fr_mag = Some [fst MAGNETIC_FIELD * cos (po_theta p), - fst MAGNETIC_FIELD * sin (po_theta p), snd MAGNETIC_FIELD],
            fr_ranges = ranges, fr_angleMin = 0, fr_angleIncrement = (2 * pi) / real LIDAR_BEAMS, fr_camera = Some (slamCameraObservation sc p) \<rparr>
      in \<lparr> dr_pose = p, dr_time = time, dr_previousSpeed = speed, dr_frames = dr_frames d @ [frame],
           dr_reference = dr_reference d @ [\<lparr> po_x = po_x p - po_x (sc_start sc), po_y = po_y p - po_y (sc_start sc), po_theta = po_theta p \<rparr>],
           dr_random = random \<rparr>)"

definition drive :: "string \<Rightarrow> real \<Rightarrow> real \<Rightarrow> real \<Rightarrow> drive_state \<Rightarrow> drive_state" where
  "drive scenario time speed yawRate d = (sample scenario speed yawRate ^^ nat (js_round (time / SAMPLE_PERIOD))) d"

definition turnBy :: "string \<Rightarrow> real \<Rightarrow> drive_state \<Rightarrow> drive_state" where
  "turnBy scenario angle d = drive scenario (turnSeconds angle) 0 (turnRate angle) d"

definition generateSlamLog :: "string \<Rightarrow> int \<Rightarrow> sensor_log" where
  "generateSlamLog scenario seed =
     (let d = \<lparr> dr_pose = sc_start (slamScene scenario), dr_time = 0, dr_previousSpeed = 0, dr_frames = [], dr_reference = [],
            dr_random = randomGenerator seed \<rparr>;
          d = drive scenario STATIONARY_SECONDS 0 0 d;
          d = (if scenario = ''corridor''
               then fold (\<lambda>leg d. turnBy scenario pi (drive scenario HALLWAY_LEG_SECONDS CRUISE_SPEED 0 d)) [0, 1::nat] d
               else fold (\<lambda>len d. turnBy scenario (pi / 2) (drive scenario (len / CRUISE_SPEED) CRUISE_SPEED 0 d)) ROOM_LEGS d);
          d = drive scenario SETTLE_SECONDS 0 0 d
      in \<lparr> lg_hardware = False, lg_config = simulated_config, lg_frames = dr_frames d, lg_reference = Some (dr_reference d),
           lg_scene = Some (slamScene scenario), lg_stationarySeconds = STATIONARY_SECONDS \<rparr>)"

section \<open>Scan matching\<close>

definition scan_point :: "sensor_frame \<Rightarrow> slam_config \<Rightarrow> nat \<Rightarrow> point option" where
  "scan_point f config k =
     (case fr_ranges f ! k of
        None \<Rightarrow> None
      | Some r \<Rightarrow>
          (if r < MIN_RANGE \<or> r \<ge> sg_rangeMax config then None
           else
             let angle = po_theta (sg_lidar config) + fr_angleMin f + real k * fr_angleIncrement f
             in Some (po_x (sg_lidar config) + r * cos angle, po_y (sg_lidar config) + r * sin angle)))"

definition scanPoints :: "sensor_frame \<Rightarrow> slam_config \<Rightarrow> point list" where
  "scanPoints f config = List.map_filter (scan_point f config) [0..<length (fr_ranges f)]"

definition transformPoints :: "point list \<Rightarrow> pose \<Rightarrow> point list" where
  "transformPoints points p =
     map (\<lambda>q. (po_x p + cos (po_theta p) * fst q - sin (po_theta p) * snd q, po_y p + sin (po_theta p) * fst q + cos (po_theta p) * snd q)) points"

definition ICP_ITERATIONS :: nat where "ICP_ITERATIONS = 7"
definition ICP_MATCH_RADIUS :: real where "ICP_MATCH_RADIUS = 25 / 100"
definition ICP_MIN_MAP_POINTS :: nat where "ICP_MIN_MAP_POINTS = 20"
definition ICP_MIN_SCAN_POINTS :: nat where "ICP_MIN_SCAN_POINTS = 12"
definition ICP_MIN_PAIRS :: nat where "ICP_MIN_PAIRS = 10"
definition ICP_PRIOR_XY :: real where "ICP_PRIOR_XY = 3 / 100"
definition ICP_PRIOR_THETA :: real where "ICP_PRIOR_THETA = 5 / 100"
definition ICP_ROBUST_ERROR :: real where "ICP_ROBUST_ERROR = 4 / 100"
definition ICP_QUALITY_SCALE :: real where "ICP_QUALITY_SCALE = 12 / 100"
definition ICP_MAX_SHIFT :: real where "ICP_MAX_SHIFT = 12 / 100"
definition ICP_MAX_TURN :: real where "ICP_MAX_TURN = 7 / 100"
definition ICP_CONVERGED :: real where "ICP_CONVERGED = 15 / 100000"
definition ICP_WEAK_SHAPE :: real where "ICP_WEAK_SHAPE = 25 / 1000"
definition ICP_MIN_QUALITY :: real where "ICP_MIN_QUALITY = 35 / 100"
definition ICP_MAX_CORRECTION :: real where "ICP_MAX_CORRECTION = 35 / 100"
definition ICP_MAX_TURN_CORRECTION :: real where "ICP_MAX_TURN_CORRECTION = 2 / 10"

record scan_match =
  sm_pose :: pose
  sm_used :: bool
  sm_quality :: "real option"
  sm_weak :: bool

definition unmatched :: "pose \<Rightarrow> scan_match" where
  "unmatched p = \<lparr> sm_pose = p, sm_used = False, sm_quality = Some 0, sm_weak = True \<rparr>"

text \<open>The sums of a step start with the pull to the prediction.\<close>

definition prior_sums :: "pose \<Rightarrow> pose \<Rightarrow> icp_sums" where
  "prior_sums prediction p =
     \<lparr> is_a = [[ICP_PRIOR_XY, 0, 0], [0, ICP_PRIOR_XY, 0], [0, 0, ICP_PRIOR_THETA]],
       is_b = [ICP_PRIOR_XY * (po_x prediction - po_x p), ICP_PRIOR_XY * (po_y prediction - po_y p),
         ICP_PRIOR_THETA * wrap_angle (po_theta prediction - po_theta p)],
       is_count = 0, is_total = 0, is_nxx = 0, is_nyy = 0, is_nxy = 0 \<rparr>"

definition pair_of :: "map_point list \<Rightarrow> pose \<Rightarrow> point \<Rightarrow> (map_point \<times> real list \<times> real \<times> real) option" where
  "pair_of map_points p q =
     (let c = cos (po_theta p); s = sin (po_theta p); rx = c * fst q - s * snd q; ry = s * fst q + c * snd q; x = po_x p + rx; y = po_y p + ry in
      case fst (fold (closer x y) map_points (None, ICP_MATCH_RADIUS\<^sup>2)) of
        None \<Rightarrow> None
      | Some m \<Rightarrow>
          (let error = mp_nx m * (x - mp_x m) + mp_ny m * (y - mp_y m)
           in Some (m, [mp_nx m, mp_ny m, - mp_nx m * ry + mp_ny m * rx], error, min 1 (ICP_ROBUST_ERROR / max (1 / 10000) \<bar>error\<bar>))))"

definition add_pair :: "map_point list \<Rightarrow> pose \<Rightarrow> point \<Rightarrow> icp_sums \<Rightarrow> icp_sums" where
  "add_pair map_points p q s =
     (case pair_of map_points p q of
        None \<Rightarrow> s
      | Some (m, j, e, w) \<Rightarrow>
          (add_match j e w s)\<lparr> is_nxx := is_nxx s + j ! 0 * j ! 0, is_nyy := is_nyy s + j ! 1 * j ! 1, is_nxy := is_nxy s + j ! 0 * j ! 1 \<rparr>)"

definition icp_sums_of :: "map_point list \<Rightarrow> point list \<Rightarrow> pose \<Rightarrow> pose \<Rightarrow> icp_sums" where
  "icp_sums_of map_points local prediction p = fold (add_pair map_points p) local (prior_sums prediction p)"

definition weak_shape :: "icp_sums \<Rightarrow> bool" where
  "weak_shape s \<longleftrightarrow> (is_nxx s * is_nyy s - is_nxy s * is_nxy s) / max 1 ((is_nxx s + is_nyy s)\<^sup>2) < ICP_WEAK_SHAPE"

text \<open>Parallel walls constrain the normal direction, not the travel along the wall.\<close>

definition along_normal :: "icp_sums \<Rightarrow> real list \<Rightarrow> real list" where
  "along_normal s step =
     (let axis = 5 / 10 * atan2 (2 * is_nxy s) (is_nxx s - is_nyy s); ux = cos axis; uy = sin axis; a = step ! 0 * ux + step ! 1 * uy
      in step[0 := a * ux, 1 := a * uy])"

definition shifted :: "real list \<Rightarrow> pose \<Rightarrow> pose" where
  "shifted step p =
     \<lparr> po_x = po_x p + clamp_to (- ICP_MAX_SHIFT) ICP_MAX_SHIFT (step ! 0), po_y = po_y p + clamp_to (- ICP_MAX_SHIFT) ICP_MAX_SHIFT (step ! 1),
       po_theta = wrap_angle (po_theta p + clamp_to (- ICP_MAX_TURN) ICP_MAX_TURN (step ! 2)) \<rparr>"

fun icp_loop :: "nat \<Rightarrow> map_point list \<Rightarrow> point list \<Rightarrow> pose \<Rightarrow> pose \<times> real \<times> bool \<Rightarrow> (pose \<times> real \<times> bool) option" where
  "icp_loop 0 map_points local prediction st = Some st"
| "icp_loop (Suc n) map_points local prediction (p, quality, weak) =
     (let s = icp_sums_of map_points local prediction p in
      if is_count s < ICP_MIN_PAIRS then None
      else case solve3 (is_a s) (is_b s) of
          None \<Rightarrow> None
        | Some step \<Rightarrow>
            (let weak = weak_shape s; step = (if weak then along_normal s step else step); p = shifted step p;
                 quality = clamp_to 0 1 (real (is_count s) / real (length local) * (1 - is_total s / real (is_count s) / ICP_QUALITY_SCALE))
             in if sqrt (sum_list (map (\<lambda>v. v\<^sup>2) step)) < ICP_CONVERGED then Some (p, quality, weak)
                else icp_loop n map_points local prediction (p, quality, weak)))"

definition matchScan :: "point list \<Rightarrow> pose \<Rightarrow> map_point list \<Rightarrow> scan_match" where
  "matchScan local prediction map_points =
     (if length map_points < ICP_MIN_MAP_POINTS \<or> length local < ICP_MIN_SCAN_POINTS then unmatched prediction
      else case icp_loop ICP_ITERATIONS map_points local prediction (prediction, 0, False) of
          None \<Rightarrow> unmatched prediction
        | Some (p, quality, weak) \<Rightarrow>
            (let accepted = (quality > ICP_MIN_QUALITY
                 \<and> hypot (po_x p - po_x prediction) (po_y p - po_y prediction) < ICP_MAX_CORRECTION
                 \<and> \<bar>wrap_angle (po_theta p - po_theta prediction)\<bar> < ICP_MAX_TURN_CORRECTION)
             in \<lparr> sm_pose = (if accepted then p else prediction), sm_used = accepted, sm_quality = Some quality, sm_weak = weak \<rparr>))"

definition NORMAL_MIN_SPAN :: real where "NORMAL_MIN_SPAN = 8 / 1000"
definition NORMAL_MAX_SPAN :: real where "NORMAL_MAX_SPAN = 6 / 10"

definition surface_at :: "point list \<Rightarrow> nat \<Rightarrow> map_point option" where
  "surface_at mapped i =
     (let before = mapped ! (i - 1); after = mapped ! (i + 1); dx = fst after - fst before; dy = snd after - snd before; gap = hypot dx dy in
      if gap < NORMAL_MIN_SPAN \<or> gap > NORMAL_MAX_SPAN then None
      else Some \<lparr> mp_x = fst (mapped ! i), mp_y = snd (mapped ! i), mp_nx = - dy / gap, mp_ny = dx / gap \<rparr>)"

definition scan_normals :: "point list \<Rightarrow> pose \<Rightarrow> map_point list" where
  "scan_normals points p = (let mapped = transformPoints points p in List.map_filter (surface_at mapped) [1..<length mapped - 1])"

section \<open>Estimating the drive\<close>

definition SUBMAP_EVERY :: nat where "SUBMAP_EVERY = 3"
definition SUBMAP_LIMIT :: nat where "SUBMAP_LIMIT = 16"
definition STATIONARY_RPM :: real where "STATIONARY_RPM = 3 / 10"
definition MIN_CALIBRATION_SAMPLES :: nat where "MIN_CALIBRATION_SAMPLES = 3"

definition wheelTravel :: "real \<Rightarrow> real \<Rightarrow> real \<Rightarrow> real" where
  "wheelTravel rpm radius seconds = ((rpm * 2 * pi * radius) / 60) * seconds"

definition stationaryFrames :: "sensor_frame list \<Rightarrow> real \<Rightarrow> sensor_frame list" where
  "stationaryFrames frames stationarySeconds =
     filter (\<lambda>f. fr_t f \<le> stationarySeconds \<and> \<bar>fr_leftRpm f\<bar> < STATIONARY_RPM \<and> \<bar>fr_rightRpm f\<bar> < STATIONARY_RPM) frames"

record slam_state =
  ss_t :: real
  ss_pose :: pose
  ss_quality :: "real option"
  ss_matched :: bool
  ss_weak :: bool
  ss_points :: "point list"

record estimator =
  es_states :: "slam_state list"
  es_submaps :: "map_point list list"
  es_pose :: pose
  es_lastTime :: real

definition travelled :: "slam_config \<Rightarrow> real \<Rightarrow> sensor_frame \<Rightarrow> real \<times> real" where
  "travelled config lastTime f =
     (let time = fr_t f - lastTime
      in (wheelTravel (fr_leftRpm f) (sg_radius config) time, wheelTravel (fr_rightRpm f) (sg_radius config) time))"

definition predicted :: "slam_method \<Rightarrow> slam_config \<Rightarrow> real \<Rightarrow> real \<Rightarrow> sensor_frame \<Rightarrow> pose \<Rightarrow> pose" where
  "predicted meth config bias lastTime f p =
     (let (left, right) = travelled config lastTime f; wheelTurn = (right - left) / sg_track config;
          turn = (if meth = Wheel then wheelTurn else (fr_gyroZ f - bias) * (fr_t f - lastTime))
      in integratePose p ((left + right) / 2) turn)"

definition estimate_frame :: "slam_method \<Rightarrow> slam_config \<Rightarrow> real \<Rightarrow> nat \<times> sensor_frame \<Rightarrow> estimator \<Rightarrow> estimator" where
  "estimate_frame meth config bias jf e =
     (let (i, f) = jf; prediction = predicted meth config bias (es_lastTime e) f (es_pose e); local = scanPoints f config;
          m = (if meth = Slam then matchScan local prediction (concat (es_submaps e))
               else \<lparr> sm_pose = prediction, sm_used = False, sm_quality = None, sm_weak = False \<rparr>);
          p = sm_pose m;
          submaps = (if meth = Slam \<and> i mod SUBMAP_EVERY = 0
                     then (let added = es_submaps e @ [scan_normals local p] in if length added > SUBMAP_LIMIT then tl added else added)
                     else es_submaps e)
      in \<lparr> es_states = es_states e @ [\<lparr> ss_t = fr_t f, ss_pose = p, ss_quality = sm_quality m, ss_matched = sm_used m, ss_weak = sm_weak m,
             ss_points = transformPoints local p \<rparr>],
           es_submaps = submaps, es_pose = p, es_lastTime = fr_t f \<rparr>)"

record slam_estimate =
  se_method :: slam_method
  se_calibrate :: bool
  se_bias :: real
  se_calibrationCount :: nat
  se_states :: "slam_state list"

definition estimator_start :: estimator where
  "estimator_start = \<lparr> es_states = [], es_submaps = [], es_pose = \<lparr> po_x = 0, po_y = 0, po_theta = 0 \<rparr>, es_lastTime = 0 \<rparr>"

definition gyro_bias :: "sensor_frame list \<Rightarrow> bool \<Rightarrow> real" where
  "gyro_bias stationary calibrate = (if calibrate then sum_list (map fr_gyroZ stationary) / real (length stationary) else 0)"

text \<open>\<open>None\<close> is the exception of a calibration without enough samples at rest.\<close>

definition estimateSlam :: "sensor_frame list \<Rightarrow> slam_config \<Rightarrow> slam_method \<Rightarrow> bool \<Rightarrow> real \<Rightarrow> slam_estimate option" where
  "estimateSlam frames config meth calibrate stationarySeconds =
     (let stationary = stationaryFrames frames stationarySeconds in
      if calibrate \<and> length stationary < MIN_CALIBRATION_SAMPLES then None
      else
        let bias = gyro_bias stationary calibrate;
            e = fold (estimate_frame meth config bias) (enumerate 0 frames) estimator_start
        in Some \<lparr> se_method = meth, se_calibrate = calibrate, se_bias = bias,
             se_calibrationCount = (if calibrate then length stationary else 0), se_states = es_states e \<rparr>)"

record slam_metrics =
  me_endError :: "real option"
  me_rmse :: "real option"
  me_closure :: real
  me_headingError :: "real option"
  me_weakCount :: nat

text \<open>For a result with at least one state: the code reads the last one.\<close>

definition slamMetrics :: "slam_estimate \<Rightarrow> sensor_log \<Rightarrow> slam_metrics" where
  "slamMetrics result slog =
     (let final = ss_pose (last (se_states result)); reference = coalesce (lg_reference slog) [];
          endReference = (if reference = [] then None else Some (last reference));
          squares = map2 (\<lambda>s truth. (po_x (ss_pose s) - po_x truth)\<^sup>2 + (po_y (ss_pose s) - po_y truth)\<^sup>2) (se_states result) reference
      in \<lparr> me_endError = map_option (\<lambda>r. hypot (po_x final - po_x r) (po_y final - po_y r)) endReference,
           me_rmse = (if squares = [] then None else Some (sqrt (sum_list squares / real (length squares)))),
           me_closure = hypot (po_x final) (po_y final),
           me_headingError = map_option (\<lambda>r. \<bar>wrap_angle (po_theta final - po_theta r)\<bar>) endReference,
           me_weakCount = length (filter ss_weak (se_states result)) \<rparr>)"

section \<open>Checking a recorded log\<close>

datatype log_error = WrongFormat | BadConfig | BadMount | BadFrameCount | NoFrame nat | BadValues nat | BadRanges nat | TooManyPoints

definition LOG_RADIUS :: "real \<times> real" where "LOG_RADIUS = (5 / 1000, 1)"
definition LOG_TRACK :: "real \<times> real" where "LOG_TRACK = (3 / 100, 3)"
definition LOG_RANGE_MAX :: "real \<times> real" where "LOG_RANGE_MAX = (2 / 10, 50)"
definition LOG_LIDAR_OFFSET :: real where "LOG_LIDAR_OFFSET = 3"
definition LOG_FRAMES :: "real \<times> real" where "LOG_FRAMES = (3, 3000)"
definition LOG_BEAMS :: "real \<times> real" where "LOG_BEAMS = (12, 720)"
definition LOG_SAMPLE_PERIOD :: real where "LOG_SAMPLE_PERIOD = 2"
definition LOG_RPM :: real where "LOG_RPM = 1000"
definition LOG_GYRO :: real where "LOG_GYRO = 20"
definition LOG_POINTS :: nat where "LOG_POINTS = 250000"
definition LOG_STATIONARY :: "real \<times> real" where "LOG_STATIONARY = (0, 5)"

definition in_limits :: "num \<Rightarrow> real \<times> real \<Rightarrow> real option" where
  "in_limits value bounds = (case value of None \<Rightarrow> None | Some v \<Rightarrow> if v \<ge> fst bounds \<and> v \<le> snd bounds then Some v else None)"

definition validateConfig :: "json option \<Rightarrow> log_error + slam_config" where
  "validateConfig config =
     (case (in_limits (jnum (jfield config ''radius'')) LOG_RADIUS, in_limits (jnum (jfield config ''track'')) LOG_TRACK,
            in_limits (jnum (jfield config ''rangeMax'')) LOG_RANGE_MAX) of
        (Some radius, Some track, Some rangeMax) \<Rightarrow>
          (let given = jfield config ''lidar'';
               part = (\<lambda>key. if jtruthy given then jnum (jfield given key) else Some 0)
           in case (part ''x'', part ''y'', part ''yaw'') of
                (Some x, Some y, Some yaw) \<Rightarrow>
                  (if hypot x y > LOG_LIDAR_OFFSET then Inl BadMount
                   else Inr \<lparr> sg_radius = radius, sg_track = track, sg_rangeMax = rangeMax, sg_lidar = \<lparr> po_x = x, po_y = y, po_theta = yaw \<rparr> \<rparr>)
              | _ \<Rightarrow> Inl BadMount)
      | _ \<Rightarrow> Inl BadConfig)"

definition read_range :: "real \<Rightarrow> json \<Rightarrow> num option" where
  "read_range rangeMax v =
     (if v = JNull then Some None
      else case jnum (Some v) of None \<Rightarrow> None | Some r \<Rightarrow> if r < 0 \<or> r > rangeMax then None else Some (Some r))"

fun json_items :: "json option \<Rightarrow> json list option" where
  "json_items (Some (JArr items)) = Some items"
| "json_items _ = None"

definition all_some :: "'a option list \<Rightarrow> 'a list option" where
  "all_some xs = (if list_all (\<lambda>x. x \<noteq> None) xs then Some (map the xs) else None)"

definition vector3 :: "json option \<Rightarrow> real list option" where
  "vector3 v =
     (case json_items v of None \<Rightarrow> None | Some items \<Rightarrow> if length items = 3 then all_some (map (\<lambda>j. jnum (Some j)) items) else None)"

text \<open>The readings of a frame that are used, once they were checked.\<close>

definition validateFrame :: "json \<Rightarrow> nat \<Rightarrow> real \<Rightarrow> real \<Rightarrow> log_error + sensor_frame" where
  "validateFrame frame index previousTime rangeMax =
     (if frame = JNull then Inl (NoFrame (index + 1))
      else
        let n = (\<lambda>key. jnum (jfield (Some frame) key)) in
        case all_some (map n [''t'', ''leftRpm'', ''rightRpm'', ''gyroZ'', ''angleMin'', ''angleIncrement'']) of
          Some [t, leftRpm, rightRpm, gyroZ, angleMin, angleIncrement] \<Rightarrow>
            (if t \<le> previousTime \<or> t - previousTime > LOG_SAMPLE_PERIOD \<or> \<bar>leftRpm\<bar> > LOG_RPM \<or> \<bar>rightRpm\<bar> > LOG_RPM \<or> \<bar>gyroZ\<bar> > LOG_GYRO
             then Inl (BadValues (index + 1))
             else case json_items (jfield (Some frame) ''ranges'') of
                 None \<Rightarrow> Inl (BadRanges (index + 1))
               | Some items \<Rightarrow>
                   (if in_limits (Some (real (length items))) LOG_BEAMS = None \<or> angleIncrement \<le> 0
                       \<or> angleIncrement * (real (length items) - 1) > 2 * pi + 1 / 10
                    then Inl (BadRanges (index + 1))
                    else case all_some (map (read_range rangeMax) items) of
                        None \<Rightarrow> Inl (BadRanges (index + 1))
                      | Some ranges \<Rightarrow>
                          Inr \<lparr> fr_t = t, fr_leftRpm = leftRpm, fr_rightRpm = rightRpm, fr_gyroZ = gyroZ,
                            fr_accel = vector3 (jfield (Some frame) ''accel''), fr_gyro = vector3 (jfield (Some frame) ''gyro''),
                            fr_mag = vector3 (jfield (Some frame) ''mag''), fr_ranges = ranges, fr_angleMin = angleMin,
                            fr_angleIncrement = angleIncrement, fr_camera = None \<rparr>))
        | _ \<Rightarrow> Inl (BadValues (index + 1)))"

fun validate_frames :: "real \<Rightarrow> nat \<Rightarrow> real \<Rightarrow> nat \<Rightarrow> json list \<Rightarrow> log_error + sensor_frame list" where
  "validate_frames rangeMax index previousTime points [] = Inr []"
| "validate_frames rangeMax index previousTime points (frame # frames) =
     (case validateFrame frame index previousTime rangeMax of
        Inl e \<Rightarrow> Inl e
      | Inr f \<Rightarrow>
          (let points = points + length (fr_ranges f) in
           if points > LOG_POINTS then Inl TooManyPoints
           else case validate_frames rangeMax (index + 1) (fr_t f) points frames of Inl e \<Rightarrow> Inl e | Inr fs \<Rightarrow> Inr (f # fs)))"

definition validateSlamLog :: "json option \<Rightarrow> log_error + sensor_log" where
  "validateSlamLog input =
     (if jfield input ''format'' \<noteq> Some (JStr ''robo-lab-sensors-v1'') then Inl WrongFormat
      else case validateConfig (jfield input ''config'') of
          Inl e \<Rightarrow> Inl e
        | Inr config \<Rightarrow>
            (case json_items (jfield input ''frames'') of
               None \<Rightarrow> Inl BadFrameCount
             | Some frames \<Rightarrow>
                 (if in_limits (Some (real (length frames))) LOG_FRAMES = None then Inl BadFrameCount
                  else case validate_frames (sg_rangeMax config) 0 0 0 frames of
                      Inl e \<Rightarrow> Inl e
                    | Inr fs \<Rightarrow>
                        Inr \<lparr> lg_hardware = True, lg_config = config, lg_frames = fs, lg_reference = None, lg_scene = None,
                          lg_stationarySeconds = (case jnum (jfield input ''stationarySeconds'') of
                              None \<Rightarrow> 0 | Some v \<Rightarrow> clamp_to (fst LOG_STATIONARY) (snd LOG_STATIONARY) v) \<rparr>)))"

section \<open>An accepted log can be used\<close>

definition range_fits :: "real \<Rightarrow> num \<Rightarrow> bool" where
  "range_fits rangeMax r = (case r of None \<Rightarrow> True | Some v \<Rightarrow> 0 \<le> v \<and> v \<le> rangeMax)"

definition frame_ok :: "real \<Rightarrow> sensor_frame \<Rightarrow> bool" where
  "frame_ok rangeMax f \<longleftrightarrow>
     \<bar>fr_leftRpm f\<bar> \<le> 1000 \<and> \<bar>fr_rightRpm f\<bar> \<le> 1000 \<and> \<bar>fr_gyroZ f\<bar> \<le> 20 \<and> 12 \<le> length (fr_ranges f) \<and> length (fr_ranges f) \<le> 720
     \<and> 0 < fr_angleIncrement f \<and> list_all (range_fits rangeMax) (fr_ranges f) \<and> fr_camera f = None"

fun times_ok :: "real \<Rightarrow> sensor_frame list \<Rightarrow> bool" where
  "times_ok previous [] = True"
| "times_ok previous (f # fs) = (previous < fr_t f \<and> fr_t f - previous \<le> 2 \<and> times_ok (fr_t f) fs)"

definition config_ok :: "slam_config \<Rightarrow> bool" where
  "config_ok c \<longleftrightarrow>
     5 / 1000 \<le> sg_radius c \<and> sg_radius c \<le> 1 \<and> 3 / 100 \<le> sg_track c \<and> sg_track c \<le> 3 \<and> 2 / 10 \<le> sg_rangeMax c \<and> sg_rangeMax c \<le> 50
     \<and> hypot (po_x (sg_lidar c)) (po_y (sg_lidar c)) \<le> 3"

definition log_ok :: "sensor_log \<Rightarrow> bool" where
  "log_ok l \<longleftrightarrow>
     config_ok (lg_config l) \<and> 3 \<le> length (lg_frames l) \<and> length (lg_frames l) \<le> 3000 \<and> times_ok 0 (lg_frames l)
     \<and> list_all (frame_ok (sg_rangeMax (lg_config l))) (lg_frames l) \<and> sum_list (map (length \<circ> fr_ranges) (lg_frames l)) \<le> 250000
     \<and> lg_hardware l \<and> lg_reference l = None \<and> lg_scene l = None \<and> 0 \<le> lg_stationarySeconds l \<and> lg_stationarySeconds l \<le> 5"

lemma in_limits_Some: "in_limits v b = Some x \<Longrightarrow> v = Some x \<and> fst b \<le> x \<and> x \<le> snd b"
  by (auto simp: in_limits_def split: option.splits if_splits)

lemma config_checked: "validateConfig v = Inr c \<Longrightarrow> config_ok c"
  by (auto simp: validateConfig_def Let_def config_ok_def LOG_RADIUS_def LOG_TRACK_def LOG_RANGE_MAX_def LOG_LIDAR_OFFSET_def
      dest!: in_limits_Some split: option.splits if_splits)

lemma read_range_fits: "read_range rangeMax v = Some r \<Longrightarrow> range_fits rangeMax r"
  by (auto simp: read_range_def range_fits_def split: if_splits option.splits)

lemma all_some_Some: "all_some xs = Some ys \<Longrightarrow> xs = map Some ys"
  by (auto simp: all_some_def list_all_iff map_idI comp_def split: if_splits)

lemma frame_checked:
  assumes "validateFrame v i previous rangeMax = Inr f"
  shows "frame_ok rangeMax f \<and> previous < fr_t f \<and> fr_t f - previous \<le> 2"
proof -
  have ranges: "list_all (range_fits rangeMax) rs \<and> length rs = length items" if "all_some (map (read_range rangeMax) items) = Some rs" for items rs
  proof -
    have "map (read_range rangeMax) items = map Some rs" using all_some_Some [OF that] .
    then have "length rs = length items" "\<And>k. k < length rs \<Longrightarrow> read_range rangeMax (items ! k) = Some (rs ! k)"
      by (metis length_map, metis length_map nth_map)
    then show ?thesis using read_range_fits by (auto simp: list_all_length)
  qed
  show ?thesis
    using assms ranges
    by (auto simp: validateFrame_def Let_def frame_ok_def LOG_SAMPLE_PERIOD_def LOG_RPM_def LOG_GYRO_def in_limits_def LOG_BEAMS_def
        split: if_splits option.splits list.splits)
qed

lemma frames_checked:
  "validate_frames rangeMax i previous points vs = Inr fs \<Longrightarrow>
   length fs = length vs \<and> times_ok previous fs \<and> list_all (frame_ok rangeMax) fs
   \<and> (fs = [] \<or> points + sum_list (map (length \<circ> fr_ranges) fs) \<le> 250000)"
proof (induction rangeMax i previous points vs arbitrary: fs rule: validate_frames.induct)
  case (2 rangeMax i previous points frame frames)
  obtain f where f: "validateFrame frame i previous rangeMax = Inr f" using "2.prems" by (auto split: sum.splits)
  let ?points = "points + length (fr_ranges f)"
  have few: "?points \<le> LOG_POINTS" using "2.prems" f by (auto simp: Let_def split: if_splits)
  obtain fs' where fs': "validate_frames rangeMax (i + 1) (fr_t f) ?points frames = Inr fs'" "fs = f # fs'"
    using "2.prems" f few by (auto simp: Let_def split: sum.splits)
  then show ?case
    using "2.IH" [OF f refl _ fs'(1)] few frame_checked [OF f] by (cases "fs' = []") (auto simp: LOG_POINTS_def)
qed simp

text \<open>
  C20: A log the page accepts can be used: its wheel, LiDAR and mounting data lie within the limits of the hardware, it has between 3
  and 3000 frames at increasing times with gaps of at most two seconds, every frame has bounded speeds and between 12 and 720
  ranges that are missing or within the LiDAR's reach, there are at most 250000 ranges, and no uploaded truth is kept.
\<close>

theorem accepted_log_is_usable: "case validateSlamLog input of Inl e \<Rightarrow> True | Inr l \<Rightarrow> log_ok l"
proof -
  have "log_ok l" if valid: "validateSlamLog input = Inr l" for l
  proof -
    have form: "jfield input ''format'' = Some (JStr ''robo-lab-sensors-v1'')"
      using valid by (auto simp: validateSlamLog_def split: if_splits)
    obtain config where c: "validateConfig (jfield input ''config'') = Inr config"
      using valid form by (cases "validateConfig (jfield input ''config'')") (simp_all add: validateSlamLog_def)
    obtain frames where frames: "json_items (jfield input ''frames'') = Some frames"
      using valid form c by (cases "json_items (jfield input ''frames'')") (simp_all add: validateSlamLog_def)
    have n: "in_limits (Some (real (length frames))) LOG_FRAMES \<noteq> None"
      using valid form c frames by (cases "in_limits (Some (real (length frames))) LOG_FRAMES = None") (simp_all add: validateSlamLog_def)
    obtain fs where fs: "validate_frames (sg_rangeMax config) 0 0 0 frames = Inr fs"
      using valid form c frames n by (cases "validate_frames (sg_rangeMax config) 0 0 0 frames") (simp_all add: validateSlamLog_def)
    have l: "l = \<lparr> lg_hardware = True, lg_config = config, lg_frames = fs, lg_reference = None, lg_scene = None,
        lg_stationarySeconds = (case jnum (jfield input ''stationarySeconds'') of
            None \<Rightarrow> 0 | Some v \<Rightarrow> clamp_to (fst LOG_STATIONARY) (snd LOG_STATIONARY) v) \<rparr>"
      using valid form c frames n fs by (simp add: validateSlamLog_def)
    have len: "3 \<le> length fs" "length fs \<le> 3000" using n frames_checked [OF fs] by (auto simp: in_limits_def LOG_FRAMES_def split: if_splits)
    have points: "sum_list (map (length \<circ> fr_ranges) fs) \<le> 250000" using frames_checked [OF fs] len by auto
    have "0 \<le> clamp_to (fst LOG_STATIONARY) (snd LOG_STATIONARY) v \<and> clamp_to (fst LOG_STATIONARY) (snd LOG_STATIONARY) v \<le> 5" for v
      using clamp_to_bounds [of "fst LOG_STATIONARY" "snd LOG_STATIONARY" v] by (simp add: LOG_STATIONARY_def)
    then show ?thesis
      using config_checked [OF c] frames_checked [OF fs] len points unfolding l log_ok_def by (simp split: option.split)
  qed
  then show ?thesis by (auto split: sum.split)
qed

section \<open>A match only corrects the prediction\<close>

definition near_prediction :: "pose \<Rightarrow> pose \<Rightarrow> bool" where
  "near_prediction prediction p \<longleftrightarrow>
     hypot (po_x p - po_x prediction) (po_y p - po_y prediction) < ICP_MAX_CORRECTION
     \<and> \<bar>wrap_angle (po_theta p - po_theta prediction)\<bar> < ICP_MAX_TURN_CORRECTION"

lemma correction_is_limited:
  "(if sm_used (matchScan local prediction map_points) then near_prediction prediction (sm_pose (matchScan local prediction map_points))
    else sm_pose (matchScan local prediction map_points) = prediction)"
  by (auto simp: matchScan_def unmatched_def near_prediction_def Let_def split: option.splits)

text \<open>
  C34: The estimate never jumps: in every frame of every log, whatever the method, the estimated pose is the dead-reckoning
  prediction from the previous estimate, or, when a scan was matched against the map, less than 0.35 metres and 0.2 radians away
  from it; only the method with the LiDAR matches at all.
\<close>

theorem estimate_never_jumps:
  "let e = fold (estimate_frame meth config bias) (enumerate 0 frames) estimator_start;
       e' = estimate_frame meth config bias (length frames, f) e; s = last (es_states e');
       prediction = predicted meth config bias (es_lastTime e) f (es_pose e)
   in length (es_states e') = length frames + 1 \<and> es_pose e' = ss_pose s
      \<and> (if ss_matched s then meth = Slam \<and> near_prediction prediction (ss_pose s) else ss_pose s = prediction)"
proof -
  have "length (es_states (fold (estimate_frame meth config bias) xs e)) = length (es_states e) + length xs" for xs e
    by (induction xs arbitrary: e) (simp_all add: estimate_frame_def Let_def split_def)
  then show ?thesis
    using correction_is_limited by (auto simp: estimate_frame_def Let_def estimator_start_def split: prod.split)
qed

section \<open>Dead reckoning is exact with exact wheels\<close>

text \<open>A drive with exact wheels: the frames its sensors would log, and the poses it goes through.\<close>

type_synonym command = "real \<times> real \<times> real"

definition exact_frame :: "slam_config \<Rightarrow> real \<Rightarrow> command \<Rightarrow> sensor_frame" where
  "exact_frame config time cmd =
     (case cmd of (seconds, speed, yawRate) \<Rightarrow>
        \<lparr> fr_t = time + seconds, fr_leftRpm = wheel_rpm (sg_radius config) (speed - yawRate * sg_track config / 2) 1,
          fr_rightRpm = wheel_rpm (sg_radius config) (speed + yawRate * sg_track config / 2) 1, fr_gyroZ = yawRate, fr_accel = None, fr_gyro = None,
          fr_mag = None, fr_ranges = [], fr_angleMin = 0, fr_angleIncrement = 0, fr_camera = None \<rparr>)"

fun exact_frames :: "slam_config \<Rightarrow> real \<Rightarrow> command list \<Rightarrow> sensor_frame list" where
  "exact_frames config time [] = []"
| "exact_frames config time (c # cs) = exact_frame config time c # exact_frames config (time + fst c) cs"

fun driven_poses :: "pose \<Rightarrow> command list \<Rightarrow> pose list" where
  "driven_poses p [] = []"
| "driven_poses p ((seconds, speed, yawRate) # cs) =
     (let q = integratePose p (speed * seconds) (yawRate * seconds) in q # driven_poses q cs)"

lemma exact_travel: "radius \<noteq> 0 \<Longrightarrow> wheelTravel (wheel_rpm radius speed 1) radius seconds = speed * seconds"
  by (simp add: wheelTravel_def wheel_rpm_def)

lemma exact_prediction:
  assumes "sg_radius config \<noteq> 0" "sg_track config \<noteq> 0"
  shows "predicted Wheel config bias time (exact_frame config time (seconds, speed, yawRate)) p = integratePose p (speed * seconds) (yawRate * seconds)"
proof -
  have "(speed - h) * seconds + (speed + h) * seconds = 2 * (speed * seconds)" for h by (simp add: algebra_simps)
  moreover have "(speed + yawRate * t / 2) * seconds - (speed - yawRate * t / 2) * seconds = yawRate * seconds * t" for t by (simp add: algebra_simps)
  ultimately show ?thesis
    using assms by (simp add: predicted_def travelled_def exact_frame_def Let_def exact_travel)
qed

lemma exact_estimates:
  assumes "sg_radius config \<noteq> 0" "sg_track config \<noteq> 0"
  shows "map ss_pose (es_states (fold (estimate_frame Wheel config bias) (enumerate i (exact_frames config (es_lastTime e) cs)) e))
    = map ss_pose (es_states e) @ driven_poses (es_pose e) cs"
proof (induction cs arbitrary: i e)
  case (Cons c cs)
  obtain seconds speed yawRate where c: "c = (seconds, speed, yawRate)" by (cases c)
  let ?q = "integratePose (es_pose e) (speed * seconds) (yawRate * seconds)"
  let ?e = "estimate_frame Wheel config bias (i, exact_frame config (es_lastTime e) c) e"
  have e: "es_pose ?e = ?q" "es_lastTime ?e = es_lastTime e + fst c" "map ss_pose (es_states ?e) = map ss_pose (es_states e) @ [?q]"
    using exact_prediction [OF assms] by (simp_all add: estimate_frame_def Let_def c) (simp_all add: exact_frame_def)
  show ?case using Cons.IH [of "Suc i" ?e] e by (simp add: c Let_def)
qed simp

text \<open>
  Dead reckoning recovers the drive: from the log of wheels that slip nowhere, the estimate by wheels is exactly the poses the
  robot went through, for every sequence of speeds and yaw rates.
\<close>

theorem wheels_recover_drive:
  "if sg_radius config = 0 \<or> sg_track config = 0 then True
   else map_option (map ss_pose \<circ> se_states) (estimateSlam (exact_frames config 0 cs) config Wheel False stationarySeconds)
      = Some (driven_poses \<lparr> po_x = 0, po_y = 0, po_theta = 0 \<rparr> cs)"
  using exact_estimates [of config "gyro_bias (stationaryFrames (exact_frames config 0 cs) stationarySeconds) False" 0 estimator_start cs]
  by (simp add: estimateSlam_def Let_def estimator_start_def)

section \<open>A step of the matching is the best one\<close>

definition prior_terms :: "pose \<Rightarrow> pose \<Rightarrow> lsq_term list" where
  "prior_terms prediction p =
     [(ICP_PRIOR_XY, unit_coefficient 0, po_x prediction - po_x p), (ICP_PRIOR_XY, unit_coefficient 1, po_y prediction - po_y p),
      (ICP_PRIOR_THETA, unit_coefficient 2, wrap_angle (po_theta prediction - po_theta p))]"

definition match_terms :: "map_point list \<Rightarrow> point list \<Rightarrow> pose \<Rightarrow> pose \<Rightarrow> lsq_term list" where
  "match_terms map_points local prediction p = prior_terms prediction p @ map match_term (List.map_filter (pair_of map_points p) local)"

lemma prior_sums_are: "sums_are (prior_terms prediction p) (prior_sums prediction p)"
proof -
  have len: "length (is_b (prior_sums prediction p)) = 3" by (simp add: prior_sums_def)
  have "normal_system (prior_terms prediction p) (is_a (prior_sums prediction p)) (is_b (prior_sums prediction p))"
    unfolding normal_system_def len all_less_3
    by (simp add: prior_sums_def prior_terms_def normal_entry_def normal_right_def unit_coefficient_def)
  then show ?thesis by (simp add: sums_are_def prior_sums_def square_def)
qed

lemma icp_sums_are: "sums_are (match_terms map_points local prediction p) (icp_sums_of map_points local prediction p)"
proof (induction local rule: rev_induct)
  case Nil
  show ?case using prior_sums_are by (simp add: match_terms_def icp_sums_of_def List.map_filter_simps)
next
  case (snoc q local)
  show ?case
  proof (cases "pair_of map_points p q")
    case None
    then show ?thesis using snoc by (simp add: match_terms_def icp_sums_of_def add_pair_def List.map_filter_def)
  next
    case (Some m)
    obtain x j e w where m: "m = (x, j, e, w)" by (cases m)
    then show ?thesis
      using add_match_are [OF snoc.IH, of w j e] Some
      by (simp add: match_terms_def icp_sums_of_def add_pair_def List.map_filter_def match_term_def sums_are_def)
  qed
qed

text \<open>The solved step minimises the weighted squares of the distances to the matched lines and of the pull to the prediction.\<close>

lemma engine_step_least:
  "case solve3 (is_a (icp_sums_of map_points local prediction p)) (is_b (icp_sums_of map_points local prediction p)) of
     None \<Rightarrow> True
   | Some step \<Rightarrow> lsq_cost 3 (match_terms map_points local prediction p) ((!) step) \<le> lsq_cost 3 (match_terms map_points local prediction p) other"
proof (cases "solve3 (is_a (icp_sums_of map_points local prediction p)) (is_b (icp_sums_of map_points local prediction p))")
  case (Some step)
  let ?s = "icp_sums_of map_points local prediction p"
  have sys: "normal_system (match_terms map_points local prediction p) (is_a ?s) (is_b ?s)" and sq3: "square 3 (is_a ?s) (is_b ?s)"
    using icp_sums_are by (simp_all add: sums_are_def)
  then have sq: "square (length (is_b ?s)) (is_a ?s) (is_b ?s)" and len: "length (is_b ?s) = 3" by (simp_all add: square_def)
  have "0 \<le> fst (match_term m)" if "pair_of map_points p q = Some m" for q m
    using that by (auto simp: pair_of_def match_term_def Let_def ICP_ROBUST_ERROR_def split: option.splits)
  then have weights: "list_all (\<lambda>t. 0 \<le> fst t) (match_terms map_points local prediction p)"
    by (auto simp: match_terms_def prior_terms_def ICP_PRIOR_XY_def ICP_PRIOR_THETA_def list_all_iff List.map_filter_def)
  show ?thesis using icp_step.answer_minimises [OF sq len Some sys weights] Some len by simp
qed simp

end
