(* ===== verification/Slam_Basics.thy ===== *)
theory Slam_Basics
  imports Slam_Concepts Js_Text
begin

text \<open>
  The sensor chapters of the SLAM course, \<open>lab/js/slam/basics-core.js\<close>: the motion of two wheels, the gyro, the beams of
  a LiDAR in a rectangular room, and the search for the shift between two scans.
\<close>

definition WHEEL_DIAMETER :: real where "WHEEL_DIAMETER = 13 / 100"
definition WHEEL_TRACK :: real where "WHEEL_TRACK = 32 / 100"
definition SECONDS_PER_MINUTE :: real where "SECONDS_PER_MINUTE = 60"
definition PATH_SEGMENTS :: nat where "PATH_SEGMENTS = 60"
definition NEAR_ZERO :: real where "NEAR_ZERO = 1 / 100000"
definition PARALLEL_RAY :: real where "PARALLEL_RAY = 1 / 10 ^ 9"
definition SHIFTS_PER_METRE :: real where "SHIFTS_PER_METRE = 100"
definition SCAN_MATCH_STEPS :: nat where "SCAN_MATCH_STEPS = 120"

definition DEMO_FRONT :: real where "DEMO_FRONT = 2"
definition DEMO_BACK :: real where "DEMO_BACK = - (5 / 10)"
definition DEMO_LEFT :: real where "DEMO_LEFT = 15 / 10"
definition DEMO_RIGHT :: real where "DEMO_RIGHT = - 1"

definition snapToZero :: "real \<Rightarrow> real" where
  "snapToZero v = (if \<bar>v\<bar> < NEAR_ZERO then 0 else v)"

definition arcPoint :: "real \<Rightarrow> real \<Rightarrow> real \<Rightarrow> point" where
  "arcPoint distance angle fraction =
     (if \<bar>angle\<bar> < 1 / 10 ^ 9 then (distance * fraction, 0)
      else let radius = distance / angle in (radius * sin (angle * fraction), radius * (1 - cos (angle * fraction))))"

record wheel_example =
  we_left :: real
  we_right :: real
  we_distance :: real
  we_angle :: real
  we_end :: point
  we_path :: "point list"

definition wheelExample :: "real \<Rightarrow> real \<Rightarrow> real \<Rightarrow> real \<Rightarrow> wheel_example" where
  "wheelExample leftRpm rightRpm time grip =
     (let metresPerTurn = WHEEL_DIAMETER * pi;
          left = ((metresPerTurn * leftRpm * time) / SECONDS_PER_MINUTE) * grip;
          right = ((metresPerTurn * rightRpm * time) / SECONDS_PER_MINUTE) * grip;
          distance = (left + right) / 2; angle = (right - left) / WHEEL_TRACK
      in \<lparr> we_left = left, we_right = right, we_distance = distance, we_angle = angle, we_end = arcPoint distance angle 1,
           we_path = map (\<lambda>i. arcPoint distance angle (real i / real PATH_SEGMENTS)) [0..<PATH_SEGMENTS + 1] \<rparr>)"

definition imuExample :: "real \<Rightarrow> real \<Rightarrow> real \<Rightarrow> real \<times> point" where
  "imuExample rateDegreesPerSecond time distance =
     (let angle = (rateDegreesPerSecond * time * pi) / 180 in (angle, (distance * cos angle, distance * sin angle)))"

record beam_hit =
  bh_x :: real
  bh_y :: real
  bh_r :: real
  bh_a :: real

text \<open>Of the wall ahead and the wall beside, the nearer one; a beam along a wall never meets it.\<close>

definition beamHit :: "real \<Rightarrow> point \<Rightarrow> beam_hit" where
  "beamHit angle origin =
     (let c = cos angle; s = sin angle; wallAhead = (if c > 0 then DEMO_FRONT else DEMO_BACK); wallBeside = (if s > 0 then DEMO_LEFT else DEMO_RIGHT);
          toAheadWall = (wallAhead - fst origin) / c; toBesideWall = (wallBeside - snd origin) / s;
          r = (if \<bar>c\<bar> < PARALLEL_RAY then toBesideWall else if \<bar>s\<bar> < PARALLEL_RAY then toAheadWall else min toAheadWall toBesideWall)
      in \<lparr> bh_x = r * c, bh_y = r * s, bh_r = r, bh_a = angle \<rparr>)"

definition basicsScan :: "real \<Rightarrow> real \<Rightarrow> nat \<Rightarrow> beam_hit list" where
  "basicsScan x y n = map (\<lambda>i. beamHit (real i * (2 * pi) / real n) (x, y)) [0..<n]"

section \<open>Matching two scans\<close>

definition scanMismatch :: "point list \<Rightarrow> point list \<Rightarrow> real \<Rightarrow> real" where
  "scanMismatch reference scan shift =
     (let nearestSquared = (\<lambda>p. Min (set (map (\<lambda>q. (fst p + shift - fst q)\<^sup>2 + (snd p - snd q)\<^sup>2) reference)))
      in sum_list (map nearestSquared scan) / real (length scan))"

text \<open>\<open>None\<close> is the error \<open>Infinity\<close> the search starts with.\<close>

definition better_shift :: "point list \<Rightarrow> point list \<Rightarrow> nat \<Rightarrow> real \<times> real option \<Rightarrow> real \<times> real option" where
  "better_shift reference scan step best =
     (let shift = real step / SHIFTS_PER_METRE; error = scanMismatch reference scan shift in
      if (case snd best of None \<Rightarrow> True | Some e \<Rightarrow> error < e) then (shift, Some error) else best)"

definition matchBasicScan :: "point list \<Rightarrow> point list \<Rightarrow> real \<times> real option" where
  "matchBasicScan reference scan = fold (better_shift reference scan) [0..<SCAN_MATCH_STEPS + 1] (0, None)"

section \<open>What they compute\<close>

text \<open>
  A beam ends on the walls: from an origin inside the demonstration room, it goes forward and its end lies in the room and on a wall
  of it.
\<close>

definition in_demo_room :: "point \<Rightarrow> bool" where
  "in_demo_room p \<longleftrightarrow> DEMO_BACK < fst p \<and> fst p < DEMO_FRONT \<and> DEMO_RIGHT < snd p \<and> snd p < DEMO_LEFT"

lemma beam_ends_on_wall:
  assumes p: "in_demo_room p"
  shows "0 < bh_r (beamHit angle p)
    \<and> (fst p + bh_x (beamHit angle p) \<in> {DEMO_BACK, DEMO_FRONT} \<or> snd p + bh_y (beamHit angle p) \<in> {DEMO_RIGHT, DEMO_LEFT})"
proof -
  let ?c = "cos angle" and ?s = "sin angle"
  define a where "a = ((if ?c > 0 then DEMO_FRONT else DEMO_BACK) - fst p) / ?c"
  define b where "b = ((if ?s > 0 then DEMO_LEFT else DEMO_RIGHT) - snd p) / ?s"
  have a: "0 < a \<and> fst p + a * ?c \<in> {DEMO_BACK, DEMO_FRONT}" if "?c \<noteq> 0"
    using that p by (auto simp: a_def in_demo_room_def divide_neg_neg)
  have b: "0 < b \<and> snd p + b * ?s \<in> {DEMO_RIGHT, DEMO_LEFT}" if "?s \<noteq> 0"
    using that p by (auto simp: b_def in_demo_room_def divide_neg_neg)
  have one: "?c\<^sup>2 + ?s\<^sup>2 = 1" by simp
  have big: "?s \<noteq> 0" if "\<bar>?c\<bar> < PARALLEL_RAY"
  proof
    assume "?s = 0"
    then have "\<bar>?c\<bar> = 1" using one by (simp add: abs_square_eq_1)
    then show False using that by (simp add: PARALLEL_RAY_def)
  qed
  have hit: "beamHit angle p = (let r = (if \<bar>?c\<bar> < PARALLEL_RAY then b else if \<bar>?s\<bar> < PARALLEL_RAY then a else min a b)
      in \<lparr> bh_x = r * ?c, bh_y = r * ?s, bh_r = r, bh_a = angle \<rparr>)"
    by (simp add: beamHit_def Let_def a_def b_def)
  have nonzero: "?c \<noteq> 0" if "\<not> \<bar>?c\<bar> < PARALLEL_RAY" using that by (auto simp: PARALLEL_RAY_def)
  have nonzero': "?s \<noteq> 0" if "\<not> \<bar>?s\<bar> < PARALLEL_RAY" using that by (auto simp: PARALLEL_RAY_def)
  show ?thesis unfolding hit using a b big nonzero nonzero' by (auto simp: Let_def min_def)
qed

lemma best_shift:
  "snd (fold (better_shift reference scan) steps best) = Some e \<Longrightarrow>
   (list_all (\<lambda>k. e \<le> scanMismatch reference scan (real k / SHIFTS_PER_METRE)) steps \<and> (case snd best of None \<Rightarrow> True | Some e' \<Rightarrow> e \<le> e'))
   \<and> (fold (better_shift reference scan) steps best = best
      \<or> list_ex (\<lambda>k. fst (fold (better_shift reference scan) steps best) = real k / SHIFTS_PER_METRE
            \<and> e = scanMismatch reference scan (real k / SHIFTS_PER_METRE)) steps)"
proof (induction steps arbitrary: best)
  case (Cons k steps)
  let ?b = "better_shift reference scan k best"
  have "snd (fold (better_shift reference scan) steps ?b) = Some e" using Cons.prems by simp
  note ih = Cons.IH [OF this]
  define f where "f = fold (better_shift reference scan) steps ?b"
  have f: "fold (better_shift reference scan) (k # steps) best = f" by (simp add: f_def)
  let ?m = "scanMismatch reference scan (real k / SHIFTS_PER_METRE)"
  show ?case
  proof (cases "case snd best of None \<Rightarrow> True | Some e \<Rightarrow> ?m < e")
    case True
    then have "?b = (real k / SHIFTS_PER_METRE, Some ?m)" by (simp add: better_shift_def Let_def)
    then show ?thesis using ih True Cons.prems unfolding f f_def [symmetric] by (auto split: option.splits)
  next
    case False
    then have "?b = best" by (simp add: better_shift_def Let_def)
    then show ?thesis using ih False unfolding f f_def [symmetric] by (auto split: option.splits)
  qed
qed simp

text \<open>
  The search finds the best shift: its shift is one of the 121 it tries, its error is the mismatch there, and no other
  tried shift has a smaller one.
\<close>

theorem best_shift_found:
  "case matchBasicScan reference scan of
     (shift, None) \<Rightarrow> False
   | (shift, Some e) \<Rightarrow>
       e = scanMismatch reference scan shift \<and> list_ex (\<lambda>k. shift = real k / 100) [0..<121]
       \<and> list_all (\<lambda>k. e \<le> scanMismatch reference scan (real k / 100)) [0..<121]"
proof -
  have some: "snd best \<noteq> None \<Longrightarrow> snd (fold (better_shift reference scan) steps best) \<noteq> None" for steps best
    by (induction steps arbitrary: best) (auto simp: better_shift_def Let_def)
  have upt: "[0..<SCAN_MATCH_STEPS + 1] = 0 # [1..<121]" by (simp add: SCAN_MATCH_STEPS_def upt_rec [of 0])
  have "snd (matchBasicScan reference scan) \<noteq> None"
    unfolding matchBasicScan_def upt by (simp add: some better_shift_def Let_def)
  then obtain shift e where m: "matchBasicScan reference scan = (shift, Some e)" by (cases "matchBasicScan reference scan") auto
  have fold_is: "fold (better_shift reference scan) [0..<121] (0, None) = (shift, Some e)"
    using m by (simp add: matchBasicScan_def SCAN_MATCH_STEPS_def)
  then have "snd (fold (better_shift reference scan) [0..<121] (0, None)) = Some e" by simp
  from best_shift [OF this] show ?thesis
    unfolding m fold_is by (auto simp: SHIFTS_PER_METRE_def list_ex_iff simp del: eq_divide_eq_numeral1 eq_divide_eq)
qed

end
