(* ===== verification/Spec2Isabelle.thy ===== *)
theory Spec2Isabelle
  imports Robot_Link Drive_Link Shoot_Link Usb_Protocol Quiz Mastery Planning_Run Keymap Rosbag Recording_Core Robot_State Systems_Runs Engine_Learning Operator_Controls Control_Core Records_Core Motor_Core Launch_Core Live_Session Slam_Engine Slam_Basics
begin

text \<open>
  QUESTiX LAB is the set of browser pages of the QUESTiX teaching robot. The pages are JavaScript modules under
  \<open>src/scripts/robot_manager/static\<close>: the lessons in \<open>lab/js\<close> and the manager's settings page beside it. They
  talk over a WebSocket to a bridge node on the robot, drive the robot and fire its launcher, record what it
  measures, and simulate robots for the lessons. This library models the modules that decide, compute or
  remember something, one theory per module (or per part of a large module), and proves what makes them correct.
  File names below are relative to \<open>lab/js\<close> unless they say otherwise; definitions keep the source's names.

  \<^bold>\<open>How the code is modelled.\<close> JavaScript numbers are \<open>real\<close>: rounding errors of floating point are not modelled, and
  a value that the code tests with \<open>Number.isFinite\<close> is a \<open>num\<close> (\<open>real option\<close>, \<open>None\<close> for \<open>NaN\<close>, infinities and
  values that are not numbers). \<open>null\<close> and \<open>undefined\<close> are \<open>None\<close>. Objects are records, tagged objects are datatypes,
  parsed JSON is the datatype of theory \<open>Json\<close>. Text is a list of bytes (UTF-8). An exception is the left side of a
  sum. Japanese sentences taken from \<open>lab/content\<close> are constructors that carry the values filled in. A module's
  variables are a record; each function that changes them is a function on that record; timers, promises and
  listeners become events, and a theorem about a module is about every list of events. The browser (clock,
  storage, \<open>WebSocket\<close>, \<open>fetch\<close>, URL parsing, Unicode normalisation, \<open>JSON.parse\<close>) and the lesson content are
  arguments of the definitions that use them.

  \<^bold>\<open>Shared theories.\<close> \<open>Lab_Prelude\<close> has the idioms of the modules (\<open>??\<close>, \<open>indexOf\<close>, \<open>toFixed\<close>, \<open>Math.round\<close>, clamps) and
  the locales for invariants of event machines; \<open>Js_Math\<close> has \<open>atan2\<close>, \<open>hypot\<close> and the wrapping of angles, \<open>Js_Text\<close> the
  text functions, \<open>Js_Number\<close> what \<open>Number\<close> and the comparisons make of a JSON value, \<open>Json\<close> the JSON values and \<open>quiz/storage.js\<close>, \<open>Live_Data\<close> the telemetry messages, \<open>Messages\<close> and
  \<open>Blockers\<close> the frames between page and bridge and the reasons why the page may not operate the robot.

  \<^bold>\<open>Operating the robot.\<close> \<open>Robot_Link\<close> models \<open>live/robot-link.js\<close>: the WebSocket's life, reconnection with growing delays,
  the protocol handshake, the frames received, and records sent to the robot. \<open>Drive_Core\<close> (\<open>live/drive-core.js\<close>)
  decides when a drive may start and limits its commands; \<open>Drive_Link\<close> (\<open>live/drive-link.js\<close>) runs it with its heartbeat.
  \<open>Shoot_Core\<close> and \<open>Shoot_Link\<close> (\<open>live/shoot-core.js\<close>, \<open>live/shoot-link.js\<close>) do the same for the launcher. The link state
  is a field of the run and session states, and their steps pass the link's emissions on, as the listeners of
  the code do. Proved: what may be sent and when, that a run and a session end with their stop frames, that every
  promise is settled once, time limits, and that nothing happens after a disconnect.

  \<^bold>\<open>Measuring and recording.\<close> \<open>Usb_Protocol\<close> (\<open>slam/usb-protocol.js\<close>) parses lidar packets: cutting the stream differently
  changes nothing. \<open>Mcap\<close> and \<open>Rosbag\<close> (\<open>live/rosbag-core.js\<close>) read rosbags. \<open>Capture_Core\<close> (\<open>live/capture-core.js\<close>)
  turns messages into the rows and measurements of the lessons, \<open>Recording_Core\<close> (\<open>live/recording-core.js\<close>) keeps, saves
  and reopens recordings, \<open>Drive_Report\<close> (\<open>live/drive-report-core.js\<close>) reports a run, \<open>Drive_History\<close>
  (\<open>live/drive-history.js\<close>) keeps the runs of a browser with their recordings in a database whose requests may
  fail or be lost, \<open>Records_Core\<close> (\<open>live/records-core.js\<close>) reads the records kept on the robot, and \<open>Robot_State\<close>
  (\<open>live/robot-state-core.js\<close>, \<open>live/robot-state.js\<close>) is the panel that says what the robot does.
  \<open>Live_Capture\<close> (\<open>live/capture.js\<close>, \<open>live/robot-records.js\<close>) is the recorder of a stretch of live data, the recording kept
  across a reload, and the decision whether a copy goes to the robot: a recording settles exactly once and holds
  the messages heard that carry a time, in order of their time. \<open>Live_Session\<close> (\<open>live/live-session.js\<close>, \<open>live/run-keeper.js\<close>) composes the recorder, the run history
  and the copy on the robot into the recording block of a lesson: its state is consistent in every reachable state,
  a run stopped part-way is never shown to the lesson, and the block always comes free again.
  \<^bold>\<open>Settings of the operator.\<close> \<open>Controller_Map\<close> and \<open>Operator_Controls\<close> model \<open>static/controller-map.js\<close>,
  \<open>static/control-labels.js\<close>, \<open>static/controls.js\<close> and \<open>static/operator-guide.js\<close>: which input does what, the draft and its
  requests, and the comparison with what the robot runs.

  \<^bold>\<open>Lessons.\<close> \<open>Quiz\<close> and \<open>Mastery\<close> (\<open>quiz/core.js\<close>, \<open>quiz/mastery-core.js\<close>); \<open>Min_Heap\<close>, \<open>Planning\<close>, \<open>Planning_Run\<close>
  (\<open>planning/core.js\<close>: the heap, the search, the run along the route); \<open>Keymap\<close> (\<open>keymap/core.js\<close>); \<open>Arm\<close>
  (\<open>arm/core.js\<close>); \<open>Control_Core\<close> (\<open>control/core.js\<close>: PID control and its measures); the seven theories \<open>Systems_*\<close>
  (\<open>systems/core.js\<close>: \<open>Systems_Base\<close> the settings, then one theory per experiment, \<open>Systems_Runs\<close> the entry points); and
  \<open>Engine_Maths\<close>, \<open>Engine_World\<close>, \<open>Engine_Trainer\<close>, \<open>Engine_Safety\<close>, \<open>Engine_Learning\<close> (\<open>core/engine\<close>: the simulated
  robot of the learning lessons, its policy and trainer, and what they promise).
  \<open>Motor_Core\<close> (\<open>motor/core.js\<close>) simulates the motors of the robot within their limits, \<open>Launch_Core\<close>
  (\<open>launch/core.js\<close>) the flight of a disc, the estimate of a launcher's output and the measurement files; that a flight
  with air lands within the 5000 steps the code allows is not proved (its model then returns the error of the code).
  \<open>Gauss_Jordan\<close> models the elimination that three lessons carry a copy of and proves that its answer is the only
  solution. On it rest the lessons of mapping: \<open>Slam_Concepts\<close> (\<open>slam/concepts-core.js\<close>: frames, a map drawn from
  rays, which places a reading allows, the pose graph and its least error), \<open>Slam_Basics\<close> (\<open>slam/basics-core.js\<close>),
  \<open>Slam_Camera\<close> (\<open>slam/camera.js\<close>: pixels back to the floor), \<open>Slam_Engine\<close> (\<open>slam/engine.js\<close>: matching a scan, the
  fused estimate, logs read from a file) and \<open>Usb_Slam\<close> (\<open>slam/usb-slam-core.js\<close>: the map of a lidar on the desk).
  \<^bold>\<open>Interfaces.\<close> \<open>link_client\<close> in \<open>Robot_Link\<close> states what the drive and launcher sessions rely on of the link, and the
  prelude's \<open>step_invariant\<close> and \<open>quiescent\<close> what an invariant of an event machine needs, \<open>linear_solver\<close> in
  \<open>Gauss_Jordan\<close> what the mapping lessons need of a solved system; all are interpreted on the models that provide them, and the properties follow from the interpretations.

  \<^bold>\<open>Bounds.\<close> Loops over arrays are structural. The search of \<open>Planning\<close> uses as fuel the number of grid nodes, and it is
  proved that it then returns; rollouts and the lesson simulations run a number of steps fixed by the code
  (\<open>rollout_finishes\<close>, \<open>braking_run_stops\<close> say that it is enough); the parsers end by \<open>function\<close> with a measure on the
  bytes left. No definition can run without end.

  \<^bold>\<open>Not modelled.\<close> Drawing and views (\<open>*-view.js\<close>, \<open>render.js\<close>): templates over the states modelled here. Page controllers
  (\<open>*-ui.js\<close>, \<open>ui.js\<close>, \<open>app.js\<close>): DOM events that call the modelled operations. The Python service, the ROS packages in
  C++ and Python and the provisioning scripts are in other languages; what the pages receive from them is an
  argument. Third-party code (\<open>lit-html\<close>, the QR encoder) is only called. The computations of further lessons
  (see the components of the manifest) are left to do; they do not touch the modules that operate the robot.
\<close>

end
